(* ===== verification/Prelude.thy ===== *)
theory Prelude
  imports Complex_Main "HOL-Library.Log_Nat"
begin

text \<open>
  Shared vocabulary of the TokenFuse development.

  Machine integers are kept as mathematical integers with the wrap-around or the
  saturation of the Rust operation written out: \<open>i64\<close> values are \<open>int\<close>
  between \<open>i64_min\<close> and \<open>i64_max\<close>, \<open>u64\<close>, \<open>u32\<close> and \<open>usize\<close> values are
  \<open>nat\<close>.  The shipped binary is a release build without overflow checks, so a
  plain \<open>+\<close> on \<open>i64\<close> wraps (\<open>wrap_i64\<close>), \<open>as i64\<close> truncates and
  \<open>saturating_*\<close> clamps (\<open>sat_i64\<close>).

  A Rust \<open>Result<T, E>\<close> is the sum type \<open>'e + 'a\<close> (\<open>Inl\<close> the error), an
  \<open>Option\<close> is \<open>option\<close>, a \<open>HashMap\<close> is a partial function, and a \<open>String\<close> is
  the list of its UTF-8 bytes.  The generic lemmas on lists, maps, decimal
  rendering and wrap-around that several components use are collected here.
\<close>

named_theorems i64_simps \<open>wrap-around and saturation of 64-bit integers in range\<close>
named_theorems map_folds \<open>pointwise effect of a fold of map updates\<close>
named_theorems str_simps \<open>facts about the string helpers\<close>

type_synonym ('e, 'a) result = "'e + 'a"
type_synonym i64 = int
type_synonym u64 = nat
type_synonym u32 = nat
type_synonym usize = nat

section \<open>Machine integers\<close>

definition i64_max :: int where "i64_max = 9223372036854775807"
definition i64_min :: int where "i64_min = - 9223372036854775808"

text \<open>Two's complement reduction: what \<open>as i64\<close> and a release-mode \<open>+\<close> compute.\<close>
definition wrap_i64 :: "int \<Rightarrow> int" where
  "wrap_i64 x = (x + 9223372036854775808) mod 18446744073709551616 - 9223372036854775808"

text \<open>Clamping to the \<open>i64\<close> range: \<open>saturating_add\<close>, \<open>saturating_sub\<close>.\<close>
definition sat_i64 :: "int \<Rightarrow> int" where
  "sat_i64 x = max i64_min (min i64_max x)"

definition in_i64 :: "int \<Rightarrow> bool" where
  "in_i64 x \<longleftrightarrow> i64_min \<le> x \<and> x \<le> i64_max"

definition u64_max :: nat where "u64_max = 18446744073709551615"
definition u32_max :: nat where "u32_max = 4294967295"

definition sat_u64 :: "nat \<Rightarrow> nat" where "sat_u64 x = min u64_max x"
definition wrap_u32 :: "nat \<Rightarrow> nat" where "wrap_u32 x = x mod 4294967296"
definition wrap_u64 :: "nat \<Rightarrow> nat" where "wrap_u64 x = x mod 18446744073709551616"

lemma wrap_i64_in_range [simp]: "in_i64 (wrap_i64 x)"
  using pos_mod_bound [of "18446744073709551616" "x + 9223372036854775808"]
    pos_mod_sign [of "18446744073709551616" "x + 9223372036854775808"]
  by (simp add: in_i64_def wrap_i64_def i64_min_def i64_max_def)

lemma wrap_i64_id [i64_simps]: "in_i64 x \<Longrightarrow> wrap_i64 x = x"
  by (simp add: in_i64_def wrap_i64_def i64_min_def i64_max_def)

lemma sat_i64_in_range [simp]: "in_i64 (sat_i64 x)"
  by (auto simp: in_i64_def sat_i64_def i64_min_def i64_max_def)

lemma sat_i64_id [i64_simps]: "in_i64 x \<Longrightarrow> sat_i64 x = x"
  by (simp add: in_i64_def sat_i64_def)

lemma wrap_i64_add_left [simp]: "wrap_i64 (wrap_i64 x + y) = wrap_i64 (x + y)"
proof -
  have "wrap_i64 x + y + 9223372036854775808 = (x + 9223372036854775808) mod 18446744073709551616 + y"
    by (simp add: wrap_i64_def)
  also have "\<dots> mod 18446744073709551616 = (x + 9223372036854775808 + y) mod 18446744073709551616"
    by (rule mod_add_left_eq)
  finally show ?thesis
    by (simp add: wrap_i64_def algebra_simps)
qed

lemma wrap_i64_add_right [simp]: "wrap_i64 (y + wrap_i64 x) = wrap_i64 (y + x)"
  using wrap_i64_add_left [of x y] by (simp add: add.commute)

lemma in_i64I: "\<lbrakk>i64_min \<le> x; x \<le> i64_max\<rbrakk> \<Longrightarrow> in_i64 x"
  by (simp add: in_i64_def)

lemma wrap_i64_within: "\<lbrakk>- 9223372036854775808 \<le> x; x \<le> 9223372036854775807\<rbrakk> \<Longrightarrow> wrap_i64 x = x"
  by (rule wrap_i64_id) (simp add: in_i64_def i64_min_def i64_max_def)

lemma div_int_eqI:
  fixes a n q :: int
  assumes "0 < n" "n * q \<le> a" "a < n * (q + 1)"
  shows "a div n = q"
  by (rule int_div_pos_eq [of a n q "a - n * q"]) (use assms in \<open>simp_all add: distrib_left\<close>)

lemma div_int_succ:
  fixes a n :: int
  assumes "0 < n"
  shows "(a + 1) div n = a div n + (if n dvd a + 1 then 1 else 0)"
proof -
  define q r where "q = a div n" and "r = a mod n"
  have a: "a = n * q + r" and r: "0 \<le> r" "r < n" using assms by (simp_all add: q_def r_def)
  show ?thesis
  proof (cases "r + 1 = n")
    case True
    then have "a + 1 = n * (q + 1)" using a by (simp add: distrib_left)
    then show ?thesis using assms by (simp add: q_def)
  next
    case False
    then have lt: "r + 1 < n" using r by simp
    have "(a + 1) div n = q" using a lt r assms by (intro div_int_eqI) (simp_all add: distrib_left)
    moreover have "\<not> n dvd a + 1"
    proof
      assume "n dvd a + 1"
      then have "n dvd r + 1" unfolding a by (simp add: add.assoc dvd_add_right_iff)
      then show False using lt r zdvd_imp_le [of n "r + 1"] by simp
    qed
    ultimately show ?thesis by (simp add: q_def)
  qed
qed

text \<open>Rust's integer division truncates toward zero.\<close>
definition tdiv :: "int \<Rightarrow> int \<Rightarrow> int" where
  "tdiv a b = sgn a * sgn b * (\<bar>a\<bar> div \<bar>b\<bar>)"

lemma tdiv_nonneg: "\<lbrakk>0 \<le> a; 0 < b\<rbrakk> \<Longrightarrow> tdiv a b = a div b"
  by (cases "a = 0") (simp_all add: tdiv_def sgn_if)

section \<open>Lists and maps\<close>

text \<open>\<open>slice[len.saturating_sub(n)..]\<close>: the last \<open>n\<close> elements.\<close>
definition last_n :: "nat \<Rightarrow> 'a list \<Rightarrow> 'a list" where
  "last_n n xs = drop (length xs - n) xs"

lemma length_last_n [simp]: "length (last_n n xs) = min n (length xs)"
  by (auto simp: last_n_def)

lemma last_n_suffix: "\<exists>ys. xs = ys @ last_n n xs"
  by (metis last_n_def append_take_drop_id)

text \<open>\<open>iter().find_map(f)\<close>.\<close>
fun find_map :: "('a \<Rightarrow> 'b option) \<Rightarrow> 'a list \<Rightarrow> 'b option" where
  "find_map f [] = None"
| "find_map f (x # xs) = (case f x of Some y \<Rightarrow> Some y | None \<Rightarrow> find_map f xs)"

lemma find_map_None [simp]: "find_map f xs = None \<longleftrightarrow> (\<forall>x\<in>set xs. f x = None)"
  by (induction xs) (auto split: option.splits)

lemma find_map_SomeD: "find_map f xs = Some y \<Longrightarrow> \<exists>x\<in>set xs. f x = Some y"
  by (induction xs) (auto split: option.splits)

lemma bind_not_None: "Option.bind x f \<noteq> None \<longleftrightarrow> (\<exists>w. x = Some w \<and> f w \<noteq> None)"
  by (cases x) auto

lemma find_map_append [simp]:
  "find_map f (xs @ ys) = (case find_map f xs of Some y \<Rightarrow> Some y | None \<Rightarrow> find_map f ys)"
  by (induction xs) (simp_all del: find_map_None split: option.splits)

text \<open>Applying an update in place at each id of a list (\<open>for id in &ids { runs.get_mut(id) .. }\<close>).\<close>
definition map_upd_at :: "('v \<Rightarrow> 'v) \<Rightarrow> 'k \<Rightarrow> ('k \<rightharpoonup> 'v) \<Rightarrow> ('k \<rightharpoonup> 'v)" where
  "map_upd_at f k m = (case m k of None \<Rightarrow> m | Some v \<Rightarrow> m(k \<mapsto> f v))"

definition map_upd_all :: "('v \<Rightarrow> 'v) \<Rightarrow> 'k list \<Rightarrow> ('k \<rightharpoonup> 'v) \<Rightarrow> ('k \<rightharpoonup> 'v)" where
  "map_upd_all f ks m = fold (map_upd_at f) ks m"

lemma map_upd_SomeE: "\<lbrakk>(m(k \<mapsto> v)) x = Some y; y = v \<Longrightarrow> P; m x = Some y \<Longrightarrow> P\<rbrakk> \<Longrightarrow> P"
  by (cases "x = k") simp_all

lemma map_upd_at_apply: "map_upd_at f k m x = (if x = k then map_option f (m x) else m x)"
  by (auto simp: map_upd_at_def split: option.splits)

lemma dom_map_upd_at [simp]: "dom (map_upd_at f k m) = dom m"
  by (auto simp: map_upd_at_def split: option.splits)

lemma map_upd_all_simps [simp]:
  "map_upd_all f [] m = m"
  "map_upd_all f (k # ks) m = map_upd_all f ks (map_upd_at f k m)"
  by (simp_all add: map_upd_all_def)

lemma dom_map_upd_all [simp]: "dom (map_upd_all f ks m) = dom m"
  by (induction ks arbitrary: m) auto

text \<open>On a duplicate-free list every listed key is updated exactly once.\<close>
lemma map_upd_all_apply [map_folds]:
  "distinct ks \<Longrightarrow> map_upd_all f ks m x = (if x \<in> set ks then map_option f (m x) else m x)"
  by (induction ks arbitrary: m) (auto simp: map_upd_at_apply)

lemma map_upd_all_None [simp]: "map_upd_all f ks m x = None \<longleftrightarrow> m x = None"
  by (metis dom_map_upd_all domIff)

lemma map_upd_all_proj:
  assumes "\<And>v. p (f v) = p v"
  shows "map_option p (map_upd_all f ks m x) = map_option p (m x)"
  using assms
  by (induction ks arbitrary: m) (auto simp: map_upd_at_apply option.map_comp comp_def)

lemma sum_list_remove1:
  fixes f :: "'a \<Rightarrow> int"
  shows "x \<in> set xs \<Longrightarrow> sum_list (map f (remove1 x xs)) = sum_list (map f xs) - f x"
  by (induction xs) auto

lemma sum_list_nonneg_member:
  fixes f :: "'a \<Rightarrow> int"
  shows "\<lbrakk>x \<in> set xs; \<And>y. y \<in> set xs \<Longrightarrow> 0 \<le> f y\<rbrakk> \<Longrightarrow> f x \<le> sum_list (map f xs)"
proof (induction xs)
  case (Cons a xs)
  have nn: "0 \<le> sum_list (map f xs)"
    using Cons.prems(2) by (intro sum_list_nonneg) auto
  show ?case
  proof (cases "x = a")
    case True
    then show ?thesis using nn by simp
  next
    case False
    then have "f x \<le> sum_list (map f xs)" using Cons by auto
    moreover have "0 \<le> f a" using Cons.prems(2) by simp
    ultimately show ?thesis by simp
  qed
qed simp

section \<open>Decimal rendering\<close>

definition digit_char :: "nat \<Rightarrow> char" where
  "digit_char d = char_of (48 + d)"

text \<open>\<open>u64::to_string\<close>.\<close>
fun nat_str :: "nat \<Rightarrow> string" where
  "nat_str n = (if n < 10 then [digit_char n] else nat_str (n div 10) @ [digit_char (n mod 10)])"

declare nat_str.simps [simp del]

definition int_str :: "int \<Rightarrow> string" where
  "int_str i = (if i < 0 then ''-'' @ nat_str (nat (- i)) else nat_str (nat i))"

text \<open>\<open>{:0w}\<close> of an unsigned value.\<close>
definition pad0 :: "nat \<Rightarrow> string \<Rightarrow> string" where
  "pad0 w s = replicate (w - length s) (CHR ''0'') @ s"

definition char_digit :: "char \<Rightarrow> nat" where
  "char_digit c = (of_char c :: nat) - 48"

definition digits_val :: "string \<Rightarrow> nat" where
  "digits_val s = foldl (\<lambda>a c. 10 * a + char_digit c) 0 s"

definition is_digit :: "char \<Rightarrow> bool" where
  "is_digit c \<longleftrightarrow> 48 \<le> (of_char c :: nat) \<and> (of_char c :: nat) \<le> 57"

lemma of_char_digit_char: "d < 10 \<Longrightarrow> (of_char (digit_char d) :: nat) = 48 + d"
  by (simp add: digit_char_def)

lemma char_digit_digit_char [simp]: "d < 10 \<Longrightarrow> char_digit (digit_char d) = d"
  by (simp add: char_digit_def of_char_digit_char)

lemma is_digit_digit_char [simp]: "d < 10 \<Longrightarrow> is_digit (digit_char d)"
  by (simp add: is_digit_def of_char_digit_char)

lemma digits_val_append [simp]: "digits_val (s @ [c]) = 10 * digits_val s + char_digit c"
  by (simp add: digits_val_def)

lemma digits_val_nat_str [simp]: "digits_val (nat_str n) = n"
proof (induction n rule: nat_str.induct)
  case (1 n)
  show ?case
  proof (cases "n < 10")
    case True
    then show ?thesis by (subst nat_str.simps) (simp add: digits_val_def)
  next
    case False
    then show ?thesis using 1 by (subst nat_str.simps) simp
  qed
qed

lemma nat_str_inject [simp]: "nat_str m = nat_str n \<longleftrightarrow> m = n"
  by (metis digits_val_nat_str)

lemma nat_str_digits: "c \<in> set (nat_str n) \<Longrightarrow> is_digit c"
proof (induction n rule: nat_str.induct)
  case (1 n)
  show ?case
  proof (cases "n < 10")
    case True
    then show ?thesis using 1(2) by (subst (asm) nat_str.simps) simp
  next
    case False
    then show ?thesis using 1 by (subst (asm) (2) nat_str.simps) auto
  qed
qed

lemma nat_str_nonempty [simp]: "nat_str n \<noteq> []"
  by (subst nat_str.simps) simp

lemma int_str_inject [simp]: "int_str i = int_str j \<longleftrightarrow> i = j"
proof -
  have minus: "CHR ''-'' \<notin> set (nat_str n)" for n
    using nat_str_digits [of "CHR ''-''" n] by (auto simp: is_digit_def)
  then have "CHR ''-'' # nat_str m \<noteq> nat_str n" "nat_str n \<noteq> CHR ''-'' # nat_str m" for m n
    by (metis list.set_intros(1))+
  then show ?thesis
    by (auto simp: int_str_def)
qed

lemma digits_val_replicate0 [simp]: "digits_val (replicate k (CHR ''0'') @ s) = digits_val s"
proof -
  have "foldl (\<lambda>a c. 10 * a + char_digit c) 0 (replicate k (CHR ''0'')) = 0"
    by (induction k) (simp_all add: char_digit_def)
  then show ?thesis by (simp add: digits_val_def)
qed

lemma digits_val_pad0 [simp]: "digits_val (pad0 w s) = digits_val s"
  by (simp add: pad0_def)

lemma length_nat_str_le: "n < 10 ^ k \<Longrightarrow> 0 < k \<Longrightarrow> length (nat_str n) \<le> k"
proof (induction k arbitrary: n)
  case (Suc k)
  show ?case
  proof (cases "n < 10")
    case True
    then show ?thesis by (subst nat_str.simps) simp
  next
    case False
    then have k: "0 < k" using Suc.prems(1) by (cases k) auto
    have "n div 10 < 10 ^ k" using Suc.prems(1) by auto
    then show ?thesis using Suc.IH [OF _ k] False by (subst nat_str.simps) simp
  qed
qed simp

lemma length_pad0: "length (pad0 w s) = max w (length s)"
  by (simp add: pad0_def max_def)

lemma length_pad0_nat: "n < 10 ^ k \<Longrightarrow> 0 < k \<Longrightarrow> length (pad0 k (nat_str n)) = k"
  using length_nat_str_le [of n k] by (simp add: length_pad0 max_def)

section \<open>Strings\<close>

fun starts_with :: "string \<Rightarrow> string \<Rightarrow> bool" where
  "starts_with s [] = True"
| "starts_with [] (p # ps) = False"
| "starts_with (c # cs) (p # ps) = (c = p \<and> starts_with cs ps)"

definition strip_prefix :: "string \<Rightarrow> string \<Rightarrow> string option" where
  "strip_prefix p s = (if starts_with s p then Some (drop (length p) s) else None)"

definition ends_with :: "string \<Rightarrow> string \<Rightarrow> bool" where
  "ends_with s p = starts_with (rev s) (rev p)"

lemma starts_with_iff: "starts_with s p \<longleftrightarrow> (\<exists>t. s = p @ t)"
  by (induction s p rule: starts_with.induct) auto

lemma strip_prefix_Some_iff: "strip_prefix p s = Some t \<longleftrightarrow> s = p @ t"
  by (auto simp: strip_prefix_def starts_with_iff)

text \<open>\<open>str::contains\<close> for a string pattern.\<close>
fun str_contains :: "string \<Rightarrow> string \<Rightarrow> bool" where
  "str_contains [] p = (p = [])"
| "str_contains (c # cs) p = (starts_with (c # cs) p \<or> str_contains cs p)"

lemma str_contains_iff: "str_contains s p \<longleftrightarrow> (\<exists>a b. s = a @ p @ b)"
proof (induction s)
  case (Cons c cs)
  note IH = Cons.IH
  show ?case
  proof
    assume "str_contains (c # cs) p"
    then show "\<exists>a b. c # cs = a @ p @ b"
      using Cons by (auto simp: starts_with_iff) (metis append_Cons append_Nil)+
  next
    assume "\<exists>a b. c # cs = a @ p @ b"
    then obtain a b where ab: "c # cs = a @ p @ b" by blast
    show "str_contains (c # cs) p"
    proof (cases a)
      case Nil
      then have "starts_with (c # cs) p" using ab by (simp add: starts_with_iff)
      then show ?thesis by simp
    next
      case (Cons x xs)
      then have "cs = xs @ p @ b" using ab by simp
      then show ?thesis using IH by auto
    qed
  qed
qed auto

text \<open>\<open>split(c)\<close> on a single character: always at least one piece.\<close>
fun split_char :: "char \<Rightarrow> string \<Rightarrow> string list" where
  "split_char d [] = [[]]"
| "split_char d (c # cs) =
     (if c = d then [] # split_char d cs
      else (case split_char d cs of [] \<Rightarrow> [[c]] | w # ws \<Rightarrow> (c # w) # ws))"

definition ascii_lower :: "char \<Rightarrow> char" where
  "ascii_lower c = (let n = (of_char c :: nat) in if 65 \<le> n \<and> n \<le> 90 then char_of (n + 32) else c)"

definition to_ascii_lowercase :: "string \<Rightarrow> string" where
  "to_ascii_lowercase s = map ascii_lower s"

definition eq_ignore_ascii_case :: "string \<Rightarrow> string \<Rightarrow> bool" where
  "eq_ignore_ascii_case a b \<longleftrightarrow> to_ascii_lowercase a = to_ascii_lowercase b"

text \<open>\<open>join(sep)\<close>.\<close>
fun join :: "string \<Rightarrow> string list \<Rightarrow> string" where
  "join sep [] = []"
| "join sep [x] = x"
| "join sep (x # y # ys) = x @ sep @ join sep (y # ys)"

text \<open>\<open>s.chars().count()\<close>: UTF-8 continuation bytes do not start a character.\<close>
definition is_cont_byte :: "char \<Rightarrow> bool" where
  "is_cont_byte c \<longleftrightarrow> 128 \<le> (of_char c :: nat) \<and> (of_char c :: nat) < 192"

definition chars_count :: "string \<Rightarrow> nat" where
  "chars_count s = length (filter (\<lambda>c. \<not> is_cont_byte c) s)"

text \<open>A field separator that does not occur inside the fields makes concatenation injective.\<close>
lemma sep_append_inject:
  assumes "c \<notin> set a" "c \<notin> set b" "a @ [c] @ s = b @ [c] @ t"
  shows "a = b \<and> s = t"
  using assms
proof (induction a arbitrary: b)
  case Nil
  then show ?case by (cases b) auto
next
  case (Cons x a)
  then show ?case by (cases b) auto
qed

end
