(* ===== verification/F64.thy ===== *)
theory F64
  imports Prelude
begin

text \<open>
  IEEE 754 binary64 as far as the sources use it: conversion from an integer,
  multiplication, division, comparison, \<open>ceil\<close>, \<open>round\<close> and the saturating
  \<open>as i64\<close> cast.  A finite value is the rational it denotes (the sign of zero is
  not observable in any of the uses and is not represented); every operation is
  the exact result rounded to nearest, ties to even (\<open>f64_round\<close>).
\<close>

datatype f64 = Fin rat | PInf | NInf | NaN

definition pow2 :: "int \<Rightarrow> rat" where
  "pow2 k = (if 0 \<le> k then 2 ^ nat k else 1 / 2 ^ nat (- k))"

definition ilog2 :: "rat \<Rightarrow> int" where
  "ilog2 q = (let (n, d) = quotient_of q; k = bitlen n - bitlen d in if pow2 k \<le> q then k else k - 1)"

definition round_half_even :: "rat \<Rightarrow> int" where
  "round_half_even q =
     (let f = \<lfloor>q\<rfloor>; r = q - of_int f in
      if r < 1 / 2 then f else if r > 1 / 2 then f + 1 else if even f then f else f + 1)"

definition f64_ulp :: "rat \<Rightarrow> rat" where
  "f64_ulp q = pow2 (max (ilog2 \<bar>q\<bar> - 52) (- 1074))"

definition f64_round :: "rat \<Rightarrow> f64" where
  "f64_round q =
     (if q = 0 then Fin 0
      else let u = f64_ulp q; r = of_int (round_half_even (q / u)) * u in
        if pow2 1024 \<le> r then PInf else if r \<le> - pow2 1024 then NInf else Fin r)"

definition f64_of_int :: "int \<Rightarrow> f64" where
  "f64_of_int i = f64_round (of_int i)"

fun f64_mul :: "f64 \<Rightarrow> f64 \<Rightarrow> f64" where
  "f64_mul (Fin a) (Fin b) = f64_round (a * b)"
| "f64_mul NaN _ = NaN"
| "f64_mul _ NaN = NaN"
| "f64_mul (Fin a) PInf = (if a = 0 then NaN else if a > 0 then PInf else NInf)"
| "f64_mul (Fin a) NInf = (if a = 0 then NaN else if a > 0 then NInf else PInf)"
| "f64_mul PInf (Fin a) = (if a = 0 then NaN else if a > 0 then PInf else NInf)"
| "f64_mul NInf (Fin a) = (if a = 0 then NaN else if a > 0 then NInf else PInf)"
| "f64_mul PInf PInf = PInf"
| "f64_mul NInf NInf = PInf"
| "f64_mul PInf NInf = NInf"
| "f64_mul NInf PInf = NInf"

text \<open>Division by a non-zero finite constant, the only division in the sources.\<close>
fun f64_div_const :: "f64 \<Rightarrow> rat \<Rightarrow> f64" where
  "f64_div_const (Fin a) c = f64_round (a / c)"
| "f64_div_const PInf c = (if c > 0 then PInf else NInf)"
| "f64_div_const NInf c = (if c > 0 then NInf else PInf)"
| "f64_div_const NaN c = NaN"

fun f64_ge :: "f64 \<Rightarrow> f64 \<Rightarrow> bool" where
  "f64_ge NaN _ = False"
| "f64_ge _ NaN = False"
| "f64_ge PInf _ = True"
| "f64_ge _ NInf = True"
| "f64_ge NInf _ = False"
| "f64_ge _ PInf = False"
| "f64_ge (Fin a) (Fin b) = (b \<le> a)"

fun f64_ceil :: "f64 \<Rightarrow> f64" where
  "f64_ceil (Fin a) = Fin (of_int \<lceil>a\<rceil>)"
| "f64_ceil x = x"

definition round_half_away :: "rat \<Rightarrow> int" where
  "round_half_away q = (if 0 \<le> q then \<lfloor>q + 1 / 2\<rfloor> else - \<lfloor>1 / 2 - q\<rfloor>)"

fun f64_round_away :: "f64 \<Rightarrow> f64" where
  "f64_round_away (Fin a) = Fin (of_int (round_half_away a))"
| "f64_round_away x = x"

definition rat_trunc :: "rat \<Rightarrow> int" where
  "rat_trunc q = (if 0 \<le> q then \<lfloor>q\<rfloor> else \<lceil>q\<rceil>)"

text \<open>\<open>as i64\<close>: truncation toward zero, saturating, with NaN mapped to 0.\<close>
fun f64_to_i64 :: "f64 \<Rightarrow> int" where
  "f64_to_i64 (Fin a) = sat_i64 (rat_trunc a)"
| "f64_to_i64 PInf = i64_max"
| "f64_to_i64 NInf = i64_min"
| "f64_to_i64 NaN = 0"

text \<open>\<open>{:.k}\<close>: the exact value rendered with \<open>k\<close> decimals, ties to even.\<close>
fun f64_fixed :: "nat \<Rightarrow> f64 \<Rightarrow> string" where
  "f64_fixed k (Fin a) =
     (let n = nat (round_half_even (\<bar>a\<bar> * 10 ^ k)) in
      (if a < 0 then ''-'' else '''') @ nat_str (n div 10 ^ k) @ ''.'' @ pad0 k (nat_str (n mod 10 ^ k)))"
| "f64_fixed k PInf = ''inf''"
| "f64_fixed k NInf = ''-inf''"
| "f64_fixed k NaN = ''NaN''"

section \<open>Rounding error\<close>

lemma pow2_pos [simp]: "0 < pow2 k"
  by (simp add: pow2_def)

lemma pow2_nz [simp]: "pow2 k \<noteq> 0"
  by (simp add: pow2_def)

lemma pow2_powi: "pow2 k = 2 powi k"
  by (simp add: pow2_def power_int_def power_inverse inverse_eq_divide power_one_over)

lemma pow2_add: "pow2 (a + b) = pow2 a * pow2 b"
  by (simp add: pow2_powi power_int_add)

lemma pow2_diff: "pow2 (a - b) = pow2 a / pow2 b"
  by (simp add: pow2_powi power_int_diff)

lemma pow2_mono: "a \<le> b \<Longrightarrow> pow2 a \<le> pow2 b"
  by (simp add: pow2_powi power_int_increasing)

lemma pow2_less_iff [simp]: "pow2 a < pow2 b \<longleftrightarrow> a < b"
proof
  assume "pow2 a < pow2 b"
  then show "a < b" using pow2_mono [of b a] by linarith
next
  assume "a < b"
  then show "pow2 a < pow2 b" by (simp add: pow2_powi power_int_strict_increasing)
qed

lemma pow2_nat [simp]: "0 \<le> k \<Longrightarrow> pow2 k = of_int (2 ^ nat k)"
  by (simp add: pow2_def)

lemma bitlen_rat_bounds:
  assumes "0 < n"
  shows "pow2 (bitlen n - 1) \<le> of_int n" "of_int n < pow2 (bitlen n)"
proof -
  have b: "1 \<le> bitlen n" using assms by (metis bitlen_nonneg bitlen_eq_zero_iff int_one_le_iff_zero_less less_le not_less)
  have "2 ^ nat (bitlen n - 1) \<le> n" "n < 2 ^ nat (bitlen n)"
    using bitlen_bounds [OF assms] by auto
  then have "(of_int (2 ^ nat (bitlen n - 1)) :: rat) \<le> of_int n" "(of_int n :: rat) < of_int (2 ^ nat (bitlen n))"
    by (simp_all only: of_int_le_iff of_int_less_iff)
  then show "pow2 (bitlen n - 1) \<le> of_int n" "of_int n < pow2 (bitlen n)"
    using b by simp_all
qed

lemma ilog2_bounds:
  assumes "0 < q"
  shows "pow2 (ilog2 q) \<le> q" "q < pow2 (ilog2 q + 1)"
proof -
  obtain n d where nd: "quotient_of q = (n, d)" by (cases "quotient_of q")
  have d: "0 < d" using quotient_of_denom_pos [OF nd] .
  have q: "q = of_int n / of_int d" using quotient_of_div [OF nd] .
  have n: "0 < n" using assms q d by (simp add: zero_less_divide_iff)
  define k where "k = bitlen n - bitlen d"
  have low: "pow2 (k - 1) \<le> q"
  proof -
    have "pow2 (k - 1) = pow2 (bitlen n - 1) / pow2 (bitlen d)"
      by (metis k_def pow2_diff diff_right_commute)
    also have "\<dots> \<le> of_int n / of_int d"
      using bitlen_rat_bounds [OF n] bitlen_rat_bounds [OF d] d n by (intro frac_le) auto
    finally show ?thesis using q by simp
  qed
  have high: "q < pow2 (k + 1)"
  proof -
    have "of_int n / of_int d < pow2 (bitlen n) / pow2 (bitlen d - 1)"
      using bitlen_rat_bounds [OF n] bitlen_rat_bounds [OF d] d n by (intro frac_less) auto
    also have "\<dots> = pow2 (k + 1)"
      by (metis k_def pow2_diff diff_diff_eq2 add_diff_eq diff_add_eq)
    finally show ?thesis using q by simp
  qed
  have "ilog2 q = (if pow2 k \<le> q then k else k - 1)"
    by (simp add: ilog2_def nd k_def)
  then show "pow2 (ilog2 q) \<le> q" "q < pow2 (ilog2 q + 1)"
    using low high by (auto split: if_splits)
qed

lemma ilog2_less: "\<lbrakk>0 < q; q < pow2 k\<rbrakk> \<Longrightarrow> ilog2 q < k"
  using ilog2_bounds [of q] by (metis le_less_trans pow2_less_iff)

lemma ilog2_ge: "\<lbrakk>0 < q; pow2 k \<le> q\<rbrakk> \<Longrightarrow> k \<le> ilog2 q"
  using ilog2_bounds [of q] by (smt (verit) le_less_trans pow2_less_iff)

lemma round_half_even_of_int [simp]: "round_half_even (of_int n) = n"
  by (simp add: round_half_even_def)

lemma round_half_even_error: "\<bar>of_int (round_half_even q) - q\<bar> \<le> 1 / 2"
proof -
  have "of_int \<lfloor>q\<rfloor> \<le> q" "q < of_int \<lfloor>q\<rfloor> + 1" by linarith+
  then show ?thesis by (auto simp: round_half_even_def Let_def)
qed

lemma round_half_even_unique: "\<bar>q - of_int n\<bar> < 1 / 2 \<Longrightarrow> round_half_even q = n"
  using round_half_even_error [of q] by linarith

lemma f64_ulp_pos [simp]: "0 < f64_ulp q"
  by (simp add: f64_ulp_def)

text \<open>In the normal range half a unit in the last place is at most \<open>2 ^ -53\<close> of the value.\<close>
lemma f64_ulp_normal:
  assumes "pow2 (- 1022) \<le> \<bar>q\<bar>"
  shows "f64_ulp q \<le> \<bar>q\<bar> / 2 ^ 52"
proof -
  have pos: "0 < \<bar>q\<bar>" using assms pow2_pos [of "- 1022"] by linarith
  have "- 1022 \<le> ilog2 \<bar>q\<bar>" using ilog2_ge [OF pos assms] .
  then have "f64_ulp q = pow2 (ilog2 \<bar>q\<bar> - 52)" by (simp add: f64_ulp_def)
  also have "\<dots> = pow2 (ilog2 \<bar>q\<bar>) / 2 ^ 52" by (subst pow2_diff) simp
  also have "\<dots> \<le> \<bar>q\<bar> / 2 ^ 52"
    using ilog2_bounds(1) [OF pos] by (simp add: divide_right_mono)
  finally show ?thesis .
qed

lemma f64_round_finite:
  assumes "pow2 (- 1022) \<le> \<bar>q\<bar>" "\<bar>q\<bar> \<le> 2 ^ 100"
  obtains r where "f64_round q = Fin r" "\<bar>r - q\<bar> \<le> \<bar>q\<bar> / 2 ^ 53" "\<bar>r - q\<bar> \<le> f64_ulp q / 2"
proof -
  have nz: "q \<noteq> 0" using assms(1) pow2_pos [of "- 1022"] by (auto simp del: pow2_pos)
  define u where "u = f64_ulp q"
  define r where "r = of_int (round_half_even (q / u)) * u"
  have u: "0 < u" "u \<le> \<bar>q\<bar> / 2 ^ 52" using f64_ulp_normal [OF assms(1)] by (simp_all add: u_def)
  have "r - q = (of_int (round_half_even (q / u)) - q / u) * u"
    using u(1) by (simp add: r_def left_diff_distrib)
  then have "\<bar>r - q\<bar> = \<bar>of_int (round_half_even (q / u)) - q / u\<bar> * u"
    using u(1) by (simp only: abs_mult abs_of_pos)
  also have "\<dots> \<le> 1 / 2 * u"
    using round_half_even_error [of "q / u"] u by (intro mult_right_mono) auto
  finally have err: "\<bar>r - q\<bar> \<le> u / 2" by simp
  then have rel: "\<bar>r - q\<bar> \<le> \<bar>q\<bar> / 2 ^ 53" using u by simp
  have "\<bar>q\<bar> / 2 ^ 53 \<le> \<bar>q\<bar> / 4" by (intro divide_left_mono) auto
  then have "\<bar>r\<bar> \<le> 2 * 2 ^ 100" using rel assms(2) by linarith
  also have "(2 * 2 ^ 100 :: rat) < pow2 1024"
    by (simp add: pow2_def del: pow2_nat)
  finally have "r < pow2 1024" "- pow2 1024 < r" by linarith+
  then have "f64_round q = Fin r"
    using nz by (simp add: f64_round_def Let_def u_def r_def del: pow2_nat)
  then show ?thesis using that rel err by (simp add: u_def)
qed

lemma f64_round_zero [simp]: "f64_round 0 = Fin 0"
  by (simp add: f64_round_def)

text \<open>Integers below \<open>2 ^ 53\<close> are exact.\<close>
lemma f64_of_int_exact:
  assumes "\<bar>n\<bar> < 2 ^ 53"
  shows "f64_of_int n = Fin (of_int n)"
proof (cases "n = 0")
  case False
  define q :: rat where "q = of_int n"
  have pos: "0 < \<bar>q\<bar>" using False by (simp add: q_def)
  have lt: "\<bar>q\<bar> < pow2 53"
  proof -
    have "(of_int \<bar>n\<bar> :: rat) < of_int (2 ^ 53)" using assms by (simp only: of_int_less_iff)
    then show ?thesis by (simp add: q_def)
  qed
  have ge: "pow2 0 \<le> \<bar>q\<bar>"
  proof -
    have "(of_int 1 :: rat) \<le> of_int \<bar>n\<bar>" using False by (simp only: of_int_le_iff)
    then show ?thesis by (simp add: q_def)
  qed
  define e where "e = ilog2 \<bar>q\<bar>"
  have e: "0 \<le> e" "e < 53" using ilog2_less [OF pos lt] ilog2_ge [OF pos ge] by (simp_all add: e_def)
  define u where "u = f64_ulp q"
  have u: "u = 1 / 2 ^ nat (52 - e)" using e by (simp add: u_def f64_ulp_def e_def [symmetric] pow2_def)
  have "q / u = of_int (n * 2 ^ nat (52 - e))" by (simp add: u q_def)
  then have "of_int (round_half_even (q / u)) * u = q"
    by (simp only: round_half_even_of_int) (simp add: u q_def)
  moreover have "\<bar>q\<bar> < pow2 1024"
    using lt pow2_mono [of 53 1024] by linarith
  ultimately show ?thesis
    using False by (auto simp: f64_of_int_def f64_round_def Let_def u_def q_def abs_less_iff simp del: pow2_nat)
qed (simp add: f64_of_int_def)

end
