(* ===== verification/Money.thy ===== *)
theory Money
  imports F64
begin

text \<open>
  Integer microdollars (\<open>crates/core/src/money.rs\<close>).  \<open>Microusd(i64)\<close> is its
  payload; \<open>+\<close> and \<open>-\<close> wrap in the release build, the \<open>saturating_*\<close> operations
  clamp, and the USD edges go through \<open>f64\<close>.
\<close>

type_synonym microusd = i64

definition ZERO :: microusd where "ZERO = 0"

definition from_usd :: "f64 \<Rightarrow> microusd" where
  "from_usd usd = f64_to_i64 (f64_round_away (f64_mul usd (Fin 1000000)))"

definition as_usd :: "microusd \<Rightarrow> f64" where
  "as_usd m = f64_div_const (f64_of_int m) 1000000"

definition saturating_add :: "microusd \<Rightarrow> microusd \<Rightarrow> microusd" where
  "saturating_add a b = sat_i64 (a + b)"

definition saturating_sub :: "microusd \<Rightarrow> microusd \<Rightarrow> microusd" where
  "saturating_sub a b = max (sat_i64 (a - b)) 0"

definition microusd_add :: "microusd \<Rightarrow> microusd \<Rightarrow> microusd" where
  "microusd_add a b = wrap_i64 (a + b)"

definition microusd_sub :: "microusd \<Rightarrow> microusd \<Rightarrow> microusd" where
  "microusd_sub a b = wrap_i64 (a - b)"

definition microusd_display :: "microusd \<Rightarrow> string" where
  "microusd_display m = ''$'' @ f64_fixed 6 (as_usd m)"

section \<open>Arithmetic\<close>

lemma microusd_add_exact [i64_simps]: "in_i64 (a + b) \<Longrightarrow> microusd_add a b = a + b"
  by (simp add: microusd_add_def wrap_i64_id)

lemma microusd_add_range [simp]: "in_i64 (microusd_add a b)"
  by (simp add: microusd_add_def)

lemma saturating_sub_range: "0 \<le> saturating_sub a b" "saturating_sub a b \<le> i64_max"
  by (auto simp: saturating_sub_def sat_i64_def i64_max_def i64_min_def)

lemma saturating_sub_exact [i64_simps]:
  "\<lbrakk>0 \<le> b; b \<le> a; a \<le> i64_max\<rbrakk> \<Longrightarrow> saturating_sub a b = a - b"
  by (simp add: saturating_sub_def sat_i64_def i64_min_def)

lemma saturating_sub_clamps: "a \<le> b \<Longrightarrow> saturating_sub a b = 0"
  by (auto simp: saturating_sub_def sat_i64_def i64_min_def i64_max_def)

section \<open>The USD edges lose nothing below 2^50 microdollars\<close>

lemma rat_of_int_ge1: "n \<noteq> 0 \<Longrightarrow> (1 :: rat) \<le> \<bar>of_int n\<bar>"
  by (simp add: of_int_abs [symmetric] del: of_int_abs)

lemma pow2_tiny: "pow2 (- 1022) \<le> 1 / 2 ^ 30"
  using pow2_mono [of "- 1022" "- 30"] by (simp add: pow2_def)

lemma as_usd_near:
  assumes "\<bar>m\<bar> < 2 ^ 50"
  obtains r where "as_usd m = Fin r" "\<bar>r * 1000000 - of_int m\<bar> \<le> 1 / 8" "m \<noteq> 0 \<Longrightarrow> 1 / 2 ^ 21 \<le> \<bar>r\<bar>"
    "\<bar>r\<bar> \<le> 2 ^ 50" "m = 0 \<Longrightarrow> r = 0" "0 < m \<Longrightarrow> 0 < r" "m < 0 \<Longrightarrow> r < 0"
proof (cases "m = 0")
  case True
  then have "as_usd m = Fin 0" by (simp add: as_usd_def f64_of_int_def)
  then show ?thesis using that [of 0] True by simp
next
  case False
  define q :: rat where "q = of_int m / 1000000"
  have m1: "1 \<le> \<bar>of_int m :: rat\<bar>" using rat_of_int_ge1 [OF False] .
  have "(of_int \<bar>m\<bar> :: rat) < of_int (2 ^ 50)" using assms by (simp only: of_int_less_iff)
  then have mh: "\<bar>of_int m :: rat\<bar> < 2 ^ 50" by simp
  have absq: "\<bar>q\<bar> = \<bar>of_int m\<bar> / 1000000" by (simp add: q_def)
  have lo: "pow2 (- 1022) \<le> \<bar>q\<bar>" using pow2_tiny m1 by (simp add: absq)
  have hi: "\<bar>q\<bar> \<le> 2 ^ 100" using mh by (simp add: absq)
  obtain r where r: "f64_round q = Fin r" "\<bar>r - q\<bar> \<le> \<bar>q\<bar> / 2 ^ 53"
    using f64_round_finite [OF lo hi] by blast
  have eq: "as_usd m = Fin r"
    using f64_of_int_exact [of m] assms r(1) by (simp add: as_usd_def q_def)
  have e2: "\<bar>r - q\<bar> \<le> \<bar>of_int m\<bar> / (1000000 * 2 ^ 53)" using r(2) absq by simp
  have mq: "of_int m = q * 1000000" by (simp add: q_def)
  have "\<bar>of_int m :: rat\<bar> / (1000000 * 2 ^ 53) \<le> 2 ^ 50 / (1000000 * 2 ^ 53)"
    using mh by (intro divide_right_mono) auto
  then have "\<bar>r - q\<bar> \<le> 1 / 8000000" using e2 by simp
  then have near: "\<bar>r * 1000000 - of_int m\<bar> \<le> 1 / 8" unfolding mq by linarith
  have "\<bar>q\<bar> / 2 ^ 53 \<le> \<bar>q\<bar> / 4" by (intro divide_left_mono) auto
  then have rq: "\<bar>r - q\<bar> \<le> \<bar>q\<bar> / 4" using r(2) by linarith
  have q1: "1 / 1000000 \<le> \<bar>q\<bar>" using m1 absq by simp
  have "(1 :: rat) / 2 ^ 21 \<le> 3 / 4 * (1 / 1000000)" by simp
  then have "1 / 2 ^ 21 \<le> \<bar>r\<bar>" using rq q1 by linarith
  moreover have "\<bar>r\<bar> \<le> 2 ^ 50" using rq absq mh by linarith
  moreover have "0 < r" if "0 < m"
  proof -
    have "0 < q" using that by (simp add: q_def)
    then show ?thesis using rq by linarith
  qed
  moreover have "r < 0" if "m < 0"
  proof -
    have "q < 0" using that by (simp add: q_def)
    then show ?thesis using rq by linarith
  qed
  ultimately show ?thesis using that [OF eq near] False by blast
qed

lemma round_half_away_near: "\<bar>q - of_int n\<bar> < 1 / 2 \<Longrightarrow> round_half_away q = n"
  unfolding round_half_away_def by (cases "0 \<le> q") (simp_all only: if_True if_False, linarith+)

lemma rat_trunc_of_int [simp]: "rat_trunc (of_int n) = n"
  by (simp add: rat_trunc_def)

lemma from_usd_as_usd:
  assumes "\<bar>m\<bar> < 2 ^ 50"
  shows "from_usd (as_usd m) = m"
proof -
  obtain r where r: "as_usd m = Fin r" "\<bar>r * 1000000 - of_int m\<bar> \<le> 1 / 8" "m \<noteq> 0 \<Longrightarrow> 1 / 2 ^ 21 \<le> \<bar>r\<bar>"
    "\<bar>r\<bar> \<le> 2 ^ 50" "m = 0 \<Longrightarrow> r = 0"
    using as_usd_near [OF assms] by metis
  have m64: "in_i64 m" using assms by (auto simp: in_i64_def i64_min_def i64_max_def)
  show ?thesis
  proof (cases "m = 0")
    case True
    then show ?thesis using r round_half_away_near [of 0 0]
      by (simp add: from_usd_def rat_trunc_def sat_i64_def i64_min_def i64_max_def)
  next
    case False
    define q where "q = r * 1000000"
    have absq: "\<bar>q\<bar> = \<bar>r\<bar> * 1000000" by (simp add: q_def abs_mult)
    have lo: "pow2 (- 1022) \<le> \<bar>q\<bar>" using pow2_tiny r(3) [OF False] by (simp add: absq)
    have hi: "\<bar>q\<bar> \<le> 2 ^ 100" using r(4) by (simp add: absq)
    obtain p where p: "f64_round q = Fin p" "\<bar>p - q\<bar> \<le> \<bar>q\<bar> / 2 ^ 53"
      using f64_round_finite [OF lo hi] by blast
    have "(of_int \<bar>m\<bar> :: rat) < of_int (2 ^ 50)" using assms by (simp only: of_int_less_iff)
    then have mh: "\<bar>of_int m :: rat\<bar> < 2 ^ 50" by simp
    have qm: "\<bar>q - of_int m\<bar> \<le> 1 / 8" using r(2) by (simp add: q_def)
    moreover have "(1 :: rat) / 8 + 2 ^ 50 \<le> 2 ^ 51" by simp
    ultimately have "\<bar>q\<bar> \<le> 2 ^ 51" using mh by linarith
    then have "\<bar>q\<bar> / 2 ^ 53 \<le> 2 ^ 51 / 2 ^ 53" by (intro divide_right_mono) auto
    then have "\<bar>p - q\<bar> \<le> 1 / 4" using p(2) by simp
    then have "\<bar>p - of_int m\<bar> < 1 / 2" using qm by linarith
    then have "round_half_away p = m" by (rule round_half_away_near)
    then show ?thesis using r(1) p(1) m64 by (simp add: from_usd_def q_def sat_i64_id)
  qed
qed

lemma microusd_display_exact:
  assumes "0 \<le> m" "m < 2 ^ 50"
  shows "microusd_display m =
           ''$'' @ nat_str (nat m div 1000000) @ ''.'' @ pad0 6 (nat_str (nat m mod 1000000))"
proof -
  have ab: "\<bar>m\<bar> < 2 ^ 50" using assms by simp
  obtain r where r: "as_usd m = Fin r" "\<bar>r * 1000000 - of_int m\<bar> \<le> 1 / 8"
    "m = 0 \<Longrightarrow> r = 0" "0 < m \<Longrightarrow> 0 < r"
    using as_usd_near [OF ab] by metis
  have rn: "0 \<le> r" using r(3,4) assms by (cases "m = 0") (simp_all add: less_le)
  have "round_half_even (\<bar>r\<bar> * 1000000) = m"
    using r(2) rn by (intro round_half_even_unique) linarith
  then show ?thesis using r(1) rn by (simp add: microusd_display_def Let_def)
qed

text \<open>The USD edges are lossless: below \<open>2 ^ 50\<close> microdollars (over a billion dollars) converting
  an amount to an \<open>f64\<close> and back gives the amount, and \<open>Display\<close> prints its exact decimal value.\<close>
theorem usd_edges_lossless:
  assumes "\<bar>m\<bar> < 2 ^ 50"
  shows "from_usd (as_usd m) = m \<and> (0 \<le> m \<longrightarrow> microusd_display m =
    ''$'' @ nat_str (nat m div 1000000) @ ''.'' @ pad0 6 (nat_str (nat m mod 1000000)))"
  using from_usd_as_usd [OF assms] microusd_display_exact [of m] assms by auto

theorem usd_edges_lossless_witness:
  "from_usd (as_usd 1234500) = 1234500 \<and> microusd_display 1234500 = ''$'' @ nat_str 1 @ ''.'' @ pad0 6 (nat_str 234500)"
  using usd_edges_lossless [of 1234500] by simp

end
