(* ===== verification/ParentWalk.thy ===== *)
theory ParentWalk
  imports Prelude
begin

text \<open>
  The contract of the ancestor walk that both ledgers use (\<open>Ledger::chain\<close> in
  \<open>crates/core/src/ledger.rs\<close> and \<open>LedgerState::chain\<close> in
  \<open>crates/cluster/src/types.rs\<close>): starting at a run, follow the parent pointers,
  stopping at a missing run, at a run already visited, or at the depth bound.
  The locale states the loop's two unfolding equations; what every client needs
  (no duplicates, only known runs, maximality, and independence of everything but
  the parent pointers) is proved once here.
\<close>

locale parent_walk =
  fixes par :: "'m \<Rightarrow> string \<Rightarrow> string option option"
    and walk :: "'m \<Rightarrow> string list \<Rightarrow> string option \<Rightarrow> string list"
    and depth :: nat
  assumes walk_None [simp]: "walk m ids None = ids"
    and walk_Some: "walk m ids (Some x) =
      (if x \<in> set ids \<or> depth \<le> length ids then ids
       else case par m x of None \<Rightarrow> ids | Some p \<Rightarrow> walk m (ids @ [x]) p)"
begin

lemma walk_induct [case_names None seen missing step]:
  assumes "\<And>ids. P ids None"
    and "\<And>ids x. x \<in> set ids \<or> depth \<le> length ids \<Longrightarrow> P ids (Some x)"
    and "\<And>ids x. \<lbrakk>x \<notin> set ids; length ids < depth; par m x = None\<rbrakk> \<Longrightarrow> P ids (Some x)"
    and "\<And>ids x p. \<lbrakk>x \<notin> set ids; length ids < depth; par m x = Some p; P (ids @ [x]) p\<rbrakk> \<Longrightarrow> P ids (Some x)"
  shows "P ids c"
proof (induction "depth - length ids" arbitrary: ids c rule: less_induct)
  case (less ids c)
  show ?case
  proof (cases c)
    case None
    then show ?thesis using assms(1) by simp
  next
    case (Some x)
    show ?thesis
    proof (cases "x \<in> set ids \<or> depth \<le> length ids")
      case True
      then show ?thesis using assms(2) Some by blast
    next
      case False
      then have "depth - length (ids @ [x]) < depth - length ids" by auto
      then show ?thesis
        using assms(3,4) [of x ids] less [of "ids @ [x]"] False Some
        by (cases "par m x") auto
    qed
  qed
qed

lemma walk_seen [simp]: "x \<in> set ids \<or> depth \<le> length ids \<Longrightarrow> walk m ids (Some x) = ids"
  by (simp add: walk_Some)

lemma walk_missing [simp]: "par m x = None \<Longrightarrow> walk m ids (Some x) = ids"
  by (simp add: walk_Some)

lemma walk_step:
  "\<lbrakk>x \<notin> set ids; length ids < depth; par m x = Some p\<rbrakk> \<Longrightarrow> walk m ids (Some x) = walk m (ids @ [x]) p"
  by (simp add: walk_Some)

lemma walk_extends: "\<exists>ys. walk m ids c = ids @ ys"
  by (induction ids c rule: walk_induct [where m = m]) (auto simp: walk_step)

lemma walk_distinct: "distinct ids \<Longrightarrow> distinct (walk m ids c)"
  by (induction ids c rule: walk_induct [where m = m]) (auto simp: walk_step)

lemma walk_length: "length ids \<le> depth \<Longrightarrow> length (walk m ids c) \<le> depth"
  by (induction ids c rule: walk_induct [where m = m]) (auto simp: walk_step)

lemma walk_known: "\<forall>x\<in>set ids. par m x \<noteq> None \<Longrightarrow> \<forall>x\<in>set (walk m ids c). par m x \<noteq> None"
  by (induction ids c rule: walk_induct [where m = m]) (auto simp: walk_step)

text \<open>Every visited run but the first is the parent of the one before it.\<close>
lemma walk_linked:
  assumes "\<forall>i. Suc i < length ids \<longrightarrow> par m (ids ! i) = Some (Some (ids ! Suc i))"
    and "ids \<noteq> [] \<Longrightarrow> par m (last ids) = Some c"
  shows "\<forall>i. Suc i < length (walk m ids c) \<longrightarrow>
    par m (walk m ids c ! i) = Some (Some (walk m ids c ! Suc i))"
  using assms
proof (induction ids c rule: walk_induct [where m = m])
  case (step ids x p)
  have "\<forall>i. Suc i < length (ids @ [x]) \<longrightarrow> par m ((ids @ [x]) ! i) = Some (Some ((ids @ [x]) ! Suc i))"
  proof (intro allI impI)
    fix i
    assume i: "Suc i < length (ids @ [x])"
    show "par m ((ids @ [x]) ! i) = Some (Some ((ids @ [x]) ! Suc i))"
    proof (cases "Suc i < length ids")
      case True
      then show ?thesis using step.prems(1) by (simp add: nth_append)
    next
      case False
      then have "Suc i = length ids" using i by simp
      then have ne: "ids \<noteq> []" and il: "i = length ids - 1" by auto
      have "ids ! i = last ids" unfolding il by (simp add: last_conv_nth ne)
      then show ?thesis using step.prems(2) ne \<open>Suc i = length ids\<close> by (simp add: nth_append)
    qed
  qed
  then show ?case using step by (auto simp: walk_step)
qed auto

text \<open>The walk stops only at the root, at a missing or repeated run, or at the bound.\<close>
lemma walk_maximal:
  assumes "ids \<noteq> [] \<Longrightarrow> par m (last ids) = Some c" "ids = [] \<Longrightarrow> (\<exists>x. c = Some x \<and> par m x \<noteq> None)" "0 < depth"
  shows "depth \<le> length (walk m ids c) \<or>
    (case par m (last (walk m ids c)) of Some None \<Rightarrow> True
     | Some (Some q) \<Rightarrow> q \<in> set (walk m ids c) \<or> par m q = None | None \<Rightarrow> False)"
  using assms
proof (induction ids c rule: walk_induct [where m = m])
  case (step ids x p)
  have eq: "walk m ids (Some x) = walk m (ids @ [x]) p" using step by (simp add: walk_step)
  show ?case unfolding eq using step by auto
next
  case (seen ids x)
  then show ?case by (cases "ids = []") auto
next
  case (None ids)
  then show ?case by (cases "ids = []") auto
next
  case (missing ids x)
  then show ?case by (cases "ids = []") auto
qed

text \<open>Two maps that agree on a parent-closed set give the same walks from inside it.\<close>
lemma walk_cong:
  assumes "\<And>x. x \<in> S \<Longrightarrow> par m x = par m' x"
    and "\<And>x p. \<lbrakk>x \<in> S; par m x = Some (Some p)\<rbrakk> \<Longrightarrow> p \<in> S"
    and "\<And>x. c = Some x \<Longrightarrow> x \<in> S"
  shows "walk m ids c = walk m' ids c"
  using assms(3)
proof (induction ids c rule: walk_induct [where m = m])
  case (missing ids x)
  then show ?case using assms(1) [of x] by simp
next
  case (step ids x p)
  have "x \<in> S" using step.prems by simp
  then have "walk m (ids @ [x]) p = walk m' (ids @ [x]) p"
    using step assms(2) [of x] by auto
  then show ?case using step assms(1) [OF \<open>x \<in> S\<close>] by (simp add: walk_step)
qed auto

lemma walk_in_closed:
  assumes "\<And>x p. \<lbrakk>x \<in> S; par m x = Some (Some p)\<rbrakk> \<Longrightarrow> p \<in> S"
    and "set ids \<subseteq> S" "\<And>x. c = Some x \<Longrightarrow> x \<in> S"
  shows "set (walk m ids c) \<subseteq> S"
  using assms(2,3)
proof (induction ids c rule: walk_induct [where m = m])
  case (step ids x p)
  then show ?case using assms(1) [of x] by (auto simp: walk_step)
qed auto

lemma walk_starts:
  assumes "0 < depth" "par m x \<noteq> None"
  shows "walk m [] (Some x) \<noteq> [] \<and> hd (walk m [] (Some x)) = x \<and> x \<in> set (walk m [] (Some x))"
proof -
  obtain p where "par m x = Some p" using assms(2) by blast
  then have "walk m [] (Some x) = walk m [x] p" using assms(1) by (simp add: walk_step)
  moreover obtain ys where "walk m [x] p = [x] @ ys" using walk_extends by blast
  ultimately show ?thesis by simp
qed

end

end
