(* ===== verification/Ledger.thy ===== *)
theory Ledger
  imports Money ParentWalk
begin

text \<open>
  The in-process reserve/settle ledger (\<open>crates/core/src/ledger.rs\<close>).  The
  \<open>Mutex<HashMap<String, RunState>>\<close> is a partial function; every public method
  holds the lock for its whole body, so a method is one atomic transition of that
  map and a concurrent execution is a sequence of method calls.
\<close>

record RunSnapshot =
  budget :: microusd
  reserved :: microusd
  spent :: microusd
  steps :: u32

definition in_flight :: "RunSnapshot \<Rightarrow> microusd" where
  "in_flight s = microusd_add (spent s) (reserved s)"

definition remaining :: "RunSnapshot \<Rightarrow> microusd" where
  "remaining s = saturating_sub (budget s) (in_flight s)"

datatype BudgetError =
    UnknownRun string
  | Exceeded (exc_run_id: string) (exc_budget: microusd) (exc_spent: microusd) (exc_would: microusd)

definition budget_error_display :: "BudgetError \<Rightarrow> string" where
  "budget_error_display e = (case e of
     UnknownRun r \<Rightarrow> ''unknown run: '' @ r
   | Exceeded r b s w \<Rightarrow> ''budget exceeded for run '' @ r @ '': '' @ microusd_display w
       @ '' would exceed budget '' @ microusd_display b)"

record Reservation =
  res_run_id :: string
  amount :: microusd
  res_step :: u32

record RunState =
  rs_budget :: microusd
  rs_reserved :: microusd
  rs_spent :: microusd
  rs_steps :: u32
  rs_parent :: "string option"

definition MAX_CHAIN_DEPTH :: usize where "MAX_CHAIN_DEPTH = 64"

type_synonym ledger = "string \<rightharpoonup> RunState"

definition ledger_new :: ledger where "ledger_new = Map.empty"

definition fresh_run :: "microusd \<Rightarrow> string option \<Rightarrow> RunState" where
  "fresh_run b parent = \<lparr> rs_budget = b, rs_reserved = ZERO, rs_spent = ZERO, rs_steps = 0, rs_parent = parent \<rparr>"

definition open_run :: "ledger \<Rightarrow> string \<Rightarrow> microusd \<Rightarrow> string option \<Rightarrow> ledger" where
  "open_run runs r b parent = (case runs r of
     Some s \<Rightarrow> runs(r \<mapsto> s\<lparr>rs_budget := b\<rparr>)
   | None \<Rightarrow> runs(r \<mapsto> fresh_run b parent))"

text \<open>The \<open>while let Some(id) = cur\<close> loop of \<open>chain\<close>.\<close>
function chain_loop :: "ledger \<Rightarrow> string list \<Rightarrow> string option \<Rightarrow> string list" where
  "chain_loop runs ids None = ids"
| "chain_loop runs ids (Some i) =
     (if i \<in> set ids \<or> MAX_CHAIN_DEPTH \<le> length ids then ids
      else case runs i of
        Some s \<Rightarrow> chain_loop runs (ids @ [i]) (rs_parent s)
      | None \<Rightarrow> ids)"
  by pat_completeness auto
termination by (relation "measure (\<lambda>(_, ids, _). MAX_CHAIN_DEPTH - length ids)") auto

definition chain :: "ledger \<Rightarrow> string \<Rightarrow> string list" where
  "chain runs run_id = chain_loop runs [] (Some run_id)"

definition snap :: "RunState \<Rightarrow> RunSnapshot" where
  "snap s = \<lparr> budget = rs_budget s, reserved = rs_reserved s, spent = rs_spent s, steps = rs_steps s \<rparr>"

definition snapshot :: "ledger \<Rightarrow> string \<Rightarrow> RunSnapshot option" where
  "snapshot runs run_id = map_option snap (runs run_id)"

text \<open>The check of one level; \<open>runs[id]\<close> cannot miss on a chain (\<open>chain_known\<close>).\<close>
definition level_exceeded :: "ledger \<Rightarrow> microusd \<Rightarrow> string \<Rightarrow> BudgetError option" where
  "level_exceeded runs estimate i = (case runs i of
     None \<Rightarrow> None
   | Some s \<Rightarrow>
       let would = microusd_add (microusd_add (rs_spent s) (rs_reserved s)) estimate in
       if would > rs_budget s then Some (Exceeded i (rs_budget s) (rs_spent s) would) else None)"

definition add_reserved :: "microusd \<Rightarrow> RunState \<Rightarrow> RunState" where
  "add_reserved e s = s\<lparr>rs_reserved := microusd_add (rs_reserved s) e\<rparr>"

definition bump_steps :: "RunState \<Rightarrow> RunState" where
  "bump_steps s = s\<lparr>rs_steps := wrap_u32 (rs_steps s + 1)\<rparr>"

definition apply_reserve :: "ledger \<Rightarrow> string \<Rightarrow> microusd \<Rightarrow> ledger" where
  "apply_reserve runs run_id estimate =
     map_upd_at bump_steps run_id (map_upd_all (add_reserved estimate) (chain runs run_id) runs)"

definition reservation_for :: "ledger \<Rightarrow> string \<Rightarrow> microusd \<Rightarrow> Reservation" where
  "reservation_for runs run_id estimate =
     \<lparr> res_run_id = run_id, amount = estimate,
       res_step = (case runs run_id of Some s \<Rightarrow> rs_steps s | None \<Rightarrow> 0) \<rparr>"

definition reserve :: "ledger \<Rightarrow> string \<Rightarrow> microusd \<Rightarrow> (BudgetError, Reservation) result \<times> ledger" where
  "reserve runs run_id estimate =
     (if runs run_id = None then (Inl (UnknownRun run_id), runs)
      else case find_map (level_exceeded runs estimate) (chain runs run_id) of
        Some err \<Rightarrow> (Inl err, runs)
      | None \<Rightarrow> let runs' = apply_reserve runs run_id estimate in
          (Inr (reservation_for runs' run_id estimate), runs'))"

definition reserve_unchecked :: "ledger \<Rightarrow> string \<Rightarrow> microusd \<Rightarrow> Reservation \<times> ledger" where
  "reserve_unchecked runs run_id estimate =
     (let runs0 = (if runs run_id = None then runs(run_id \<mapsto> fresh_run ZERO None) else runs);
          runs' = apply_reserve runs0 run_id estimate in
      (reservation_for runs' run_id estimate, runs'))"

definition settle_state :: "microusd \<Rightarrow> microusd \<Rightarrow> RunState \<Rightarrow> RunState" where
  "settle_state amt actual s =
     s\<lparr>rs_reserved := saturating_sub (rs_reserved s) amt, rs_spent := microusd_add (rs_spent s) actual\<rparr>"

definition settle :: "ledger \<Rightarrow> Reservation \<Rightarrow> microusd \<Rightarrow> ledger" where
  "settle runs reservation actual =
     map_upd_all (settle_state (amount reservation) actual) (chain runs (res_run_id reservation)) runs"

text \<open>The order in which a \<open>HashMap\<close> is iterated is unspecified: the listing is a set.\<close>
definition list_runs :: "ledger \<Rightarrow> (string \<times> RunSnapshot) set" where
  "list_runs runs = {(i, snap s) |i s. runs i = Some s}"

definition close_run :: "ledger \<Rightarrow> string \<Rightarrow> RunSnapshot option \<times> ledger" where
  "close_run runs run_id = (map_option snap (runs run_id), runs(run_id := None))"

section \<open>The ancestor walk\<close>

abbreviation ledger_par :: "ledger \<Rightarrow> string \<Rightarrow> string option option" where
  "ledger_par runs i \<equiv> map_option rs_parent (runs i)"

interpretation lw: parent_walk ledger_par chain_loop MAX_CHAIN_DEPTH
  by unfold_locales (simp_all split: option.splits)

declare chain_loop.simps [simp del]

lemma MAX_CHAIN_DEPTH_pos [simp]: "0 < MAX_CHAIN_DEPTH"
  by (simp add: MAX_CHAIN_DEPTH_def)

lemma chain_distinct [simp]: "distinct (chain runs r)"
  by (simp add: chain_def lw.walk_distinct)

lemma chain_length: "length (chain runs r) \<le> 64"
  using lw.walk_length [of "[]" runs "Some r"] by (simp add: chain_def MAX_CHAIN_DEPTH_def)

lemma chain_known: "i \<in> set (chain runs r) \<Longrightarrow> runs i \<noteq> None"
  using lw.walk_known [of "[]" runs "Some r"] by (auto simp: chain_def)

lemma chain_self: "runs r \<noteq> None \<Longrightarrow> r \<in> set (chain runs r)"
  using lw.walk_starts [of runs r] by (simp add: chain_def)

lemma chain_missing [simp]: "runs r = None \<Longrightarrow> chain runs r = []"
  by (simp add: chain_def)

lemma chain_linked:
  "Suc i < length (chain runs r) \<Longrightarrow>
     map_option rs_parent (runs (chain runs r ! i)) = Some (Some (chain runs r ! Suc i))"
  using lw.walk_linked [of "[]" runs "Some r"] by (simp add: chain_def)

lemma chain_parents_only:
  assumes "\<And>x. ledger_par runs x = ledger_par runs' x"
  shows "chain runs r = chain runs' r"
  unfolding chain_def by (rule lw.walk_cong [of UNIV]) (use assms in auto)

lemma chain_agree:
  assumes "\<And>x. x \<in> S \<Longrightarrow> ledger_par runs x = ledger_par runs' x"
    and "\<And>x p. \<lbrakk>x \<in> S; ledger_par runs x = Some (Some p)\<rbrakk> \<Longrightarrow> p \<in> S" "r \<in> S"
  shows "chain runs r = chain runs' r"
  unfolding chain_def by (rule lw.walk_cong [of S]) (use assms in auto)

section \<open>Pointwise effect of the operations\<close>

named_theorems ledger_simps \<open>pointwise effect of the ledger operations\<close>

lemma fresh_run_sel [simp]:
  "rs_budget (fresh_run b p) = b" "rs_reserved (fresh_run b p) = 0" "rs_spent (fresh_run b p) = 0"
  "rs_steps (fresh_run b p) = 0" "rs_parent (fresh_run b p) = p"
  by (simp_all add: fresh_run_def ZERO_def)

lemma add_reserved_sel [simp]:
  "rs_budget (add_reserved e s) = rs_budget s" "rs_spent (add_reserved e s) = rs_spent s"
  "rs_reserved (add_reserved e s) = microusd_add (rs_reserved s) e"
  "rs_steps (add_reserved e s) = rs_steps s" "rs_parent (add_reserved e s) = rs_parent s"
  by (simp_all add: add_reserved_def)

lemma bump_steps_sel [simp]:
  "rs_budget (bump_steps s) = rs_budget s" "rs_spent (bump_steps s) = rs_spent s"
  "rs_reserved (bump_steps s) = rs_reserved s" "rs_parent (bump_steps s) = rs_parent s"
  "rs_steps (bump_steps s) = wrap_u32 (rs_steps s + 1)"
  by (simp_all add: bump_steps_def)

lemma settle_state_sel [simp]:
  "rs_budget (settle_state a c s) = rs_budget s" "rs_parent (settle_state a c s) = rs_parent s"
  "rs_steps (settle_state a c s) = rs_steps s"
  "rs_reserved (settle_state a c s) = saturating_sub (rs_reserved s) a"
  "rs_spent (settle_state a c s) = microusd_add (rs_spent s) c"
  by (simp_all add: settle_state_def)

lemma apply_reserve_apply [ledger_simps]:
  "apply_reserve runs r e x = map_option (\<lambda>s.
     (if x = r then bump_steps else id) ((if x \<in> set (chain runs r) then add_reserved e else id) s)) (runs x)"
  by (cases "runs x") (auto simp: apply_reserve_def map_upd_at_apply map_folds)

lemma settle_apply [ledger_simps]:
  "settle runs v a x =
     (if x \<in> set (chain runs (res_run_id v)) then map_option (settle_state (amount v) a) (runs x) else runs x)"
  by (simp add: settle_def map_folds)

lemma open_run_apply [ledger_simps]:
  "open_run runs r b p x =
     (if x = r then Some (case runs r of Some s \<Rightarrow> s\<lparr>rs_budget := b\<rparr> | None \<Rightarrow> fresh_run b p) else runs x)"
  by (auto simp: open_run_def split: option.splits)

lemma apply_reserve_par [simp]: "ledger_par (apply_reserve runs r e) x = ledger_par runs x"
  by (cases "runs x") (simp_all add: apply_reserve_apply)

lemma settle_par [simp]: "ledger_par (settle runs v a) x = ledger_par runs x"
  by (cases "runs x") (simp_all add: settle_apply)

lemma chain_apply_reserve [simp]: "chain (apply_reserve runs r e) x = chain runs x"
  by (rule chain_parents_only) simp

lemma chain_settle [simp]: "chain (settle runs v a) x = chain runs x"
  by (rule chain_parents_only) simp

lemma dom_apply_reserve [simp]: "dom (apply_reserve runs r e) = dom runs"
  by (simp add: apply_reserve_def)

lemma dom_settle [simp]: "dom (settle runs v a) = dom runs"
  by (simp add: settle_def)

lemma reserve_cases:
  obtains (unknown) "runs r = None" "reserve runs r e = (Inl (UnknownRun r), runs)"
  | (exceeded) err where "runs r \<noteq> None" "find_map (level_exceeded runs e) (chain runs r) = Some err"
      "reserve runs r e = (Inl err, runs)"
  | (granted) "runs r \<noteq> None" "\<forall>i\<in>set (chain runs r). level_exceeded runs e i = None"
      "reserve runs r e = (Inr (reservation_for (apply_reserve runs r e) r e), apply_reserve runs r e)"
  by (cases "runs r"; cases "find_map (level_exceeded runs e) (chain runs r)")
    (auto simp: reserve_def Let_def simp del: find_map_None simp: find_map_None [symmetric])

lemma reservation_for_sel [simp]:
  "res_run_id (reservation_for runs r e) = r" "amount (reservation_for runs r e) = e"
  by (simp_all add: reservation_for_def)

lemma level_ok_iff:
  "runs i = Some s \<Longrightarrow> level_exceeded runs e i = None \<longleftrightarrow> wrap_i64 (rs_spent s + rs_reserved s + e) \<le> rs_budget s"
  by (auto simp: level_exceeded_def Let_def microusd_add_def)

lemma level_exceededD:
  "level_exceeded runs e i = Some err \<Longrightarrow>
     \<exists>s. runs i = Some s \<and> rs_budget s < wrap_i64 (rs_spent s + rs_reserved s + e)
       \<and> err = Exceeded i (rs_budget s) (rs_spent s) (wrap_i64 (rs_spent s + rs_reserved s + e))"
  by (auto simp: level_exceeded_def Let_def microusd_add_def split: option.splits if_splits)

end
