(* ===== verification/Json.thy ===== *)
theory Json
  imports F64
begin

text \<open>
  \<open>serde_json::Value\<close> as the sources use it.  An object is the ordered list of its
  entries (the crate's default \<open>BTreeMap\<close>: sorted by key, no duplicates); reading
  and printing text is the crate's and stays a parameter of the definitions that
  need it.
\<close>

datatype jnum = PosInt u64 | NegInt i64 | Float f64

datatype json =
    JNull
  | JBool bool
  | JNumber jnum
  | JString string
  | JArray "json list"
  | JObject "(string \<times> json) list"

definition json_get :: "string \<Rightarrow> json \<Rightarrow> json option" where
  "json_get k v = (case v of JObject kvs \<Rightarrow> map_of kvs k | _ \<Rightarrow> None)"

definition as_array :: "json \<Rightarrow> json list option" where
  "as_array v = (case v of JArray xs \<Rightarrow> Some xs | _ \<Rightarrow> None)"

definition as_object :: "json \<Rightarrow> (string \<times> json) list option" where
  "as_object v = (case v of JObject kvs \<Rightarrow> Some kvs | _ \<Rightarrow> None)"

definition as_str :: "json \<Rightarrow> string option" where
  "as_str v = (case v of JString s \<Rightarrow> Some s | _ \<Rightarrow> None)"

definition as_bool :: "json \<Rightarrow> bool option" where
  "as_bool v = (case v of JBool b \<Rightarrow> Some b | _ \<Rightarrow> None)"

definition as_u64 :: "json \<Rightarrow> u64 option" where
  "as_u64 v = (case v of JNumber (PosInt n) \<Rightarrow> Some n | _ \<Rightarrow> None)"

text \<open>\<open>v.get(k).and_then(f)\<close>, the idiom of every reader in the sources.\<close>
definition get_then :: "string \<Rightarrow> (json \<Rightarrow> 'a option) \<Rightarrow> json \<Rightarrow> 'a option" where
  "get_then k f v = Option.bind (json_get k v) f"

definition get_str :: "string \<Rightarrow> json \<Rightarrow> string option" where
  "get_str k v = get_then k as_str v"

text \<open>\<open>Value::from(f64)\<close>: a number when finite, \<open>null\<close> otherwise.\<close>
definition json_f64 :: "f64 \<Rightarrow> json" where
  "json_f64 x = (case x of Fin _ \<Rightarrow> JNumber (Float x) | _ \<Rightarrow> JNull)"

definition json_u64 :: "u64 \<Rightarrow> json" where
  "json_u64 n = JNumber (PosInt n)"

definition json_i64 :: "i64 \<Rightarrow> json" where
  "json_i64 i = (if 0 \<le> i then JNumber (PosInt (nat i)) else JNumber (NegInt i))"

lemma json_get_simps [simp]:
  "json_get k (JObject kvs) = map_of kvs k" "json_get k JNull = None" "json_get k (JBool b) = None"
  "json_get k (JNumber n) = None" "json_get k (JString s) = None" "json_get k (JArray xs) = None"
  by (simp_all add: json_get_def)

lemma as_str_simps [simp]: "as_str (JString s) = Some s"
  by (simp add: as_str_def)

lemma as_str_Some_iff: "as_str v = Some s \<longleftrightarrow> v = JString s"
  by (auto simp: as_str_def split: json.splits)

lemma as_array_Some_iff: "as_array v = Some xs \<longleftrightarrow> v = JArray xs"
  by (auto simp: as_array_def split: json.splits)

lemma json_get_size: "json_get k v = Some w \<Longrightarrow> size w < size v"
proof -
  have "map_of kvs k = Some w \<Longrightarrow> size w < Suc (size_list (size_prod (\<lambda>_. 0) size) kvs)" for kvs
    by (induction kvs) (auto split: if_splits simp: size_prod_def)
  then show "json_get k v = Some w \<Longrightarrow> size w < size v"
    by (cases v) auto
qed

end
