(* ===== verification/Loops.thy ===== *)
theory Loops
  imports Json "HOL-Library.AList"
begin

text \<open>
  Runaway and loop detection (\<open>crates/core/src/loops.rs\<close>).  The 64-bit hash of a
  tool call (\<open>DefaultHasher\<close>, whose algorithm the standard library leaves
  unspecified) and the JSON printer are parameters of the signature extractor; the
  detectors themselves are pure functions on the signature and size lists.
\<close>

record Window =
  window :: usize
  threshold :: usize

record Growth =
  factor :: f64
  consecutive :: usize

record AnomalyConfig =
  identical_tool_call :: "Window option"
  pingpong_pair :: "Window option"
  context_growth :: "Growth option"

definition AnomalyConfig_default :: AnomalyConfig where
  "AnomalyConfig_default = \<lparr> identical_tool_call = None, pingpong_pair = None, context_growth = None \<rparr>"

definition anomaly_is_empty :: "AnomalyConfig \<Rightarrow> bool" where
  "anomaly_is_empty c \<longleftrightarrow> identical_tool_call c = None \<and> pingpong_pair c = None \<and> context_growth c = None"

definition or_empty :: "string option \<Rightarrow> string" where
  "or_empty x = (case x of Some s \<Rightarrow> s | None \<Rightarrow> '''')"

definition anthropic_sigs :: "(string \<Rightarrow> string \<Rightarrow> u64) \<Rightarrow> (json \<Rightarrow> string) \<Rightarrow> json \<Rightarrow> u64 list" where
  "anthropic_sigs signature print msg = (case get_then ''content'' as_array msg of
     None \<Rightarrow> []
   | Some content \<Rightarrow> concat (map (\<lambda>block.
       if get_str ''type'' block = Some ''tool_use''
       then [signature (or_empty (get_str ''name'' block)) (or_empty (map_option print (json_get ''input'' block)))]
       else []) content))"

definition openai_sigs :: "(string \<Rightarrow> string \<Rightarrow> u64) \<Rightarrow> (json \<Rightarrow> string) \<Rightarrow> json \<Rightarrow> u64 list" where
  "openai_sigs signature print msg = (case get_then ''tool_calls'' as_array msg of
     None \<Rightarrow> []
   | Some calls \<Rightarrow> map (\<lambda>call.
       let func = json_get ''function'' call;
           name = or_empty (Option.bind (Option.bind func (json_get ''name'')) as_str);
           args = or_empty (map_option print (Option.bind func (json_get ''arguments'')))
       in signature name args) calls)"

definition tool_call_signatures :: "(string \<Rightarrow> string \<Rightarrow> u64) \<Rightarrow> (json \<Rightarrow> string) \<Rightarrow> json \<Rightarrow> u64 list" where
  "tool_call_signatures signature print request = (case get_then ''messages'' as_array request of
     None \<Rightarrow> []
   | Some messages \<Rightarrow>
       concat (map (\<lambda>msg. anthropic_sigs signature print msg @ openai_sigs signature print msg) messages))"

text \<open>\<open>*counts.entry(s).or_insert(0) += 1\<close> over the window.\<close>
definition tally :: "u64 list \<Rightarrow> (u64 \<times> nat) list" where
  "tally w = fold (\<lambda>s m. AList.update s ((case map_of m s of Some n \<Rightarrow> n | None \<Rightarrow> 0) + 1) m) w []"

definition max_count :: "(u64 \<times> nat) list \<Rightarrow> nat" where
  "max_count m = foldr max (map snd m) 0"

definition detect_identical :: "u64 list \<Rightarrow> Window \<Rightarrow> string option" where
  "detect_identical sigs cfg =
     (let m = max_count (tally (last_n (window cfg) sigs)) in
      if m \<ge> threshold cfg \<and> threshold cfg > 0
      then Some (''identical tool call repeated '' @ nat_str m @ ''x within the last '' @ nat_str (window cfg) @ '' calls'')
      else None)"

definition pingpong_cycles :: "u64 list \<Rightarrow> nat" where
  "pingpong_cycles w =
     length (filter (\<lambda>i. w ! i = w ! (i + 2) \<and> w ! (i + 1) = w ! (i + 3) \<and> w ! i \<noteq> w ! (i + 1)) [0..<length w - 3])"

definition detect_pingpong :: "u64 list \<Rightarrow> Window \<Rightarrow> string option" where
  "detect_pingpong sigs cfg =
     (let cycles = pingpong_cycles (last_n (window cfg) sigs) in
      if cycles \<ge> threshold cfg \<and> threshold cfg > 0
      then Some (''ping-pong tool alternation detected ('' @ nat_str cycles @ '' cycles) within the last '' @ nat_str (window cfg) @ '' calls'')
      else None)"

definition grew :: "Growth \<Rightarrow> u64 \<Rightarrow> u64 \<Rightarrow> bool" where
  "grew cfg a b \<longleftrightarrow> a > 0 \<and> f64_ge (f64_of_int (int b)) (f64_mul (f64_of_int (int a)) (factor cfg))"

definition growth_reason :: "Growth \<Rightarrow> string" where
  "growth_reason cfg = ''context grew '' @ [CHR 0xE2, CHR 0x89, CHR 0xA5] @ f64_fixed 1 (factor cfg)
     @ ''x for '' @ nat_str (consecutive cfg) @ '' consecutive steps''"

text \<open>The loop over \<open>windows(2)\<close>; \<open>run\<close> counts the current streak.\<close>
fun growth_loop :: "Growth \<Rightarrow> nat \<Rightarrow> u64 list \<Rightarrow> string option" where
  "growth_loop cfg run (a # b # rest) =
     (if grew cfg a b
      then (if run + 1 \<ge> consecutive cfg then Some (growth_reason cfg) else growth_loop cfg (run + 1) (b # rest))
      else growth_loop cfg 0 (b # rest))"
| "growth_loop cfg run _ = None"

definition detect_context_growth :: "u64 list \<Rightarrow> Growth \<Rightarrow> string option" where
  "detect_context_growth input_sizes cfg =
     (if consecutive cfg = 0 \<or> length input_sizes \<le> consecutive cfg then None
      else growth_loop cfg 0 input_sizes)"

definition detect :: "u64 list \<Rightarrow> u64 list \<Rightarrow> AnomalyConfig \<Rightarrow> string option" where
  "detect sigs input_sizes cfg =
     (case Option.bind (identical_tool_call cfg) (detect_identical sigs) of
        Some r \<Rightarrow> Some r
      | None \<Rightarrow> (case Option.bind (pingpong_pair cfg) (detect_pingpong sigs) of
          Some r \<Rightarrow> Some r
        | None \<Rightarrow> Option.bind (context_growth cfg) (detect_context_growth input_sizes)))"

section \<open>What the detectors recognise\<close>

lemma tally_fold:
  assumes "distinct (map fst m)"
  shows "let m' = fold (\<lambda>s m. AList.update s ((case map_of m s of Some n \<Rightarrow> n | None \<Rightarrow> 0) + 1) m) w m in
    distinct (map fst m') \<and> (\<forall>s. (case map_of m' s of Some n \<Rightarrow> n | None \<Rightarrow> 0) =
      (case map_of m s of Some n \<Rightarrow> n | None \<Rightarrow> 0) + count_list w s)"
  using assms
proof (induction w arbitrary: m)
  case (Cons a w)
  have d: "distinct (map fst (AList.update a ((case map_of m a of Some n \<Rightarrow> n | None \<Rightarrow> 0) + 1) m))"
    using Cons.prems by (rule distinct_update)
  show ?case using Cons.IH [OF d] by (auto simp: Let_def update_conv split: option.splits)
qed (simp add: Let_def)

lemma tally_count: "(case map_of (tally w) s of Some n \<Rightarrow> n | None \<Rightarrow> 0) = count_list w s"
  using tally_fold [of "[]" w] by (simp add: tally_def Let_def)

lemma tally_distinct: "distinct (map fst (tally w))"
  using tally_fold [of "[]" w] by (simp add: tally_def Let_def)

lemma max_count_ge: "0 < t \<Longrightarrow> t \<le> max_count m \<longleftrightarrow> (\<exists>(s, n)\<in>set m. t \<le> n)"
  by (induction m) (auto simp: max_count_def)

lemma max_tally_ge: "0 < t \<Longrightarrow> t \<le> max_count (tally w) \<longleftrightarrow> (\<exists>s. t \<le> count_list w s)"
proof -
  assume t: "0 < t"
  have "(\<exists>(s, n)\<in>set (tally w). t \<le> n) \<longleftrightarrow> (\<exists>s. t \<le> count_list w s)"
  proof
    assume "\<exists>(s, n)\<in>set (tally w). t \<le> n"
    then obtain s n where "map_of (tally w) s = Some n" "t \<le> n"
      using tally_distinct [of w] map_of_is_SomeI by fastforce
    then show "\<exists>s. t \<le> count_list w s" using tally_count [of w s] by auto
  next
    assume "\<exists>s. t \<le> count_list w s"
    then obtain s where "t \<le> count_list w s" by blast
    then obtain n where "map_of (tally w) s = Some n" "t \<le> n"
      using tally_count [of w s] t by (cases "map_of (tally w) s") auto
    then show "\<exists>(s, n)\<in>set (tally w). t \<le> n" using map_of_SomeD by fastforce
  qed
  then show ?thesis using max_count_ge [OF t] by simp
qed

lemma detect_identical_iff:
  "detect_identical sigs cfg \<noteq> None \<longleftrightarrow>
     0 < threshold cfg \<and> (\<exists>s. threshold cfg \<le> count_list (last_n (window cfg) sigs) s)"
  using max_tally_ge [of "threshold cfg"] by (auto simp: detect_identical_def Let_def)

definition alternates_at :: "u64 list \<Rightarrow> nat \<Rightarrow> bool" where
  "alternates_at w i \<longleftrightarrow> i + 3 < length w \<and> w ! i = w ! (i + 2) \<and> w ! (i + 1) = w ! (i + 3) \<and> w ! i \<noteq> w ! (i + 1)"

lemma pingpong_cycles_card: "pingpong_cycles w = card {i. alternates_at w i}"
proof -
  let ?P = "\<lambda>i. w ! i = w ! (i + 2) \<and> w ! (i + 1) = w ! (i + 3) \<and> w ! i \<noteq> w ! (i + 1)"
  have "pingpong_cycles w = card (set (filter ?P [0..<length w - 3]))"
    unfolding pingpong_cycles_def by (rule distinct_card [symmetric]) simp
  also have "set (filter ?P [0..<length w - 3]) = {i. alternates_at w i}"
    by (auto simp: alternates_at_def)
  finally show ?thesis .
qed

lemma detect_pingpong_iff:
  "detect_pingpong sigs cfg \<noteq> None \<longleftrightarrow>
     0 < threshold cfg \<and> threshold cfg \<le> card {i. alternates_at (last_n (window cfg) sigs) i}"
  by (auto simp: detect_pingpong_def Let_def pingpong_cycles_card)

definition streak :: "Growth \<Rightarrow> nat \<Rightarrow> u64 list \<Rightarrow> nat \<Rightarrow> bool" where
  "streak cfg k sizes i \<longleftrightarrow> i + k < length sizes \<and> (\<forall>j<k. grew cfg (sizes ! (i + j)) (sizes ! (i + j + 1)))"

lemma streak_Cons: "streak cfg k (a # xs) (Suc i) \<longleftrightarrow> streak cfg k xs i"
  by (auto simp: streak_def)

lemma streak_0: "streak cfg (Suc k) (a # b # xs) 0 \<longleftrightarrow> grew cfg a b \<and> streak cfg k (b # xs) 0"
  by (auto simp: streak_def All_less_Suc2)

lemma streak_mono: "streak cfg k xs i \<Longrightarrow> k' \<le> k \<Longrightarrow> streak cfg k' xs i"
  by (auto simp: streak_def)

lemma streak_ex:
  "(\<exists>i. streak cfg k (a # xs) i) \<longleftrightarrow> streak cfg k (a # xs) 0 \<or> (\<exists>i. streak cfg k xs i)"
  by (metis streak_Cons not0_implies_Suc)

lemma growth_loop_iff:
  "run < consecutive cfg \<Longrightarrow> growth_loop cfg run sizes \<noteq> None \<longleftrightarrow>
     (streak cfg (consecutive cfg - run) sizes 0 \<or> (\<exists>i. streak cfg (consecutive cfg) sizes i))"
proof (induction cfg run sizes rule: growth_loop.induct)
  case (1 cfg run a b rest)
  obtain m where m: "consecutive cfg - run = Suc m" using "1.prems" by (metis Suc_diff_Suc)
  have lead: "streak cfg (consecutive cfg) (a # b # rest) 0 \<Longrightarrow> streak cfg (consecutive cfg - run) (a # b # rest) 0"
    by (rule streak_mono) auto
  show ?case
  proof (cases "grew cfg a b")
    case True
    show ?thesis
    proof (cases "run + 1 \<ge> consecutive cfg")
      case lst: True
      then have "m = 0" using m "1.prems" by simp
      then show ?thesis using True lst m by (simp add: streak_0 streak_def [of _ 0])
    next
      case go: False
      have "consecutive cfg - (run + 1) = m" using m by simp
      then show ?thesis
        using "1.IH"(1) [OF True go] True go m lead by (auto simp: streak_0 streak_ex [of _ _ a])
    qed
  next
    case False
    then have "\<not> streak cfg (consecutive cfg - run) (a # b # rest) 0" using m by (simp add: streak_0)
    then show ?thesis using "1.IH"(2) [OF False] "1.prems" False lead by (auto simp: streak_ex [of _ _ a])
  qed
qed (auto simp: streak_def)

lemma detect_context_growth_iff:
  "detect_context_growth sizes cfg \<noteq> None \<longleftrightarrow>
     0 < consecutive cfg \<and> (\<exists>i. streak cfg (consecutive cfg) sizes i)"
proof -
  have "growth_loop cfg 0 sizes \<noteq> None \<longleftrightarrow> (\<exists>i. streak cfg (consecutive cfg) sizes i)" if "0 < consecutive cfg"
    using growth_loop_iff [OF that, of sizes] by auto
  moreover have "\<not> streak cfg (consecutive cfg) sizes i" if "length sizes \<le> consecutive cfg" for i
    using that by (simp add: streak_def)
  ultimately show ?thesis by (auto simp: detect_context_growth_def)
qed

text \<open>C10: A loop is reported exactly when an enabled detector's pattern is present: some tool-call
  signature occurs at least \<open>threshold\<close> times among the last \<open>window\<close> calls, at least \<open>threshold\<close>
  overlapping A-B-A-B alternations start within that window, or the input size grew by the factor
  on \<open>consecutive\<close> adjacent steps somewhere in the history.  A zero threshold disables a detector.\<close>
theorem detect_iff:
  "detect sigs sizes cfg \<noteq> None \<longleftrightarrow>
     (\<exists>w. identical_tool_call cfg = Some w \<and> 0 < threshold w \<and>
        (\<exists>s. threshold w \<le> count_list (last_n (window w) sigs) s))
   \<or> (\<exists>w. pingpong_pair cfg = Some w \<and> 0 < threshold w \<and>
        threshold w \<le> card {i. alternates_at (last_n (window w) sigs) i})
   \<or> (\<exists>g. context_growth cfg = Some g \<and> 0 < consecutive g \<and> (\<exists>i. streak g (consecutive g) sizes i))"
proof -
  have "detect sigs sizes cfg \<noteq> None \<longleftrightarrow>
      Option.bind (identical_tool_call cfg) (detect_identical sigs) \<noteq> None
    \<or> Option.bind (pingpong_pair cfg) (detect_pingpong sigs) \<noteq> None
    \<or> Option.bind (context_growth cfg) (detect_context_growth sizes) \<noteq> None"
    by (auto simp: detect_def split: option.splits)
  then show ?thesis
    by (simp only: detect_identical_iff detect_pingpong_iff detect_context_growth_iff bind_not_None)
qed

end
