(* ===== verification/Policy.thy ===== *)
theory Policy
  imports Ledger Loops
begin

text \<open>
  Non-budget limits and the rollout mode (\<open>crates/core/src/policy.rs\<close>): a policy
  is evaluated against the run's snapshot and the next call's estimate, and the
  mode decides whether a violation is ignored, surfaced or blocking.
\<close>

datatype Mode = Shadow | Warn | Enforce

record Policy =
  mode :: Mode
  budget_per_run :: "microusd option"
  budget_per_step :: "microusd option"
  max_steps :: "u32 option"
  anomalies :: AnomalyConfig

definition Policy_default :: Policy where
  "Policy_default = \<lparr> mode = Shadow, budget_per_run = None, budget_per_step = None,
     max_steps = None, anomalies = AnomalyConfig_default \<rparr>"

datatype Decision = DAllow | DWarn string | DBlock string

definition is_blocking :: "Decision \<Rightarrow> bool" where
  "is_blocking d = (case d of DBlock _ \<Rightarrow> True | _ \<Rightarrow> False)"

record Evaluation =
  decision :: Decision
  violated :: "string option"

definition first_violation :: "Policy \<Rightarrow> RunSnapshot \<Rightarrow> microusd \<Rightarrow> string option" where
  "first_violation p s estimate =
     (let by_steps = (case max_steps p of
        Some mx \<Rightarrow> if steps s \<ge> mx
          then Some (''max steps reached: '' @ nat_str (steps s) @ '' of '' @ nat_str mx @ '' already taken'')
          else None
      | None \<Rightarrow> None) in
      case by_steps of
        Some r \<Rightarrow> Some r
      | None \<Rightarrow> (case budget_per_step p of
          Some cap \<Rightarrow> if estimate > cap
            then Some (''per-step budget exceeded: estimate '' @ microusd_display estimate @ '' over cap '' @ microusd_display cap)
            else None
        | None \<Rightarrow> None))"

definition evaluate :: "Policy \<Rightarrow> RunSnapshot \<Rightarrow> microusd \<Rightarrow> Evaluation" where
  "evaluate p s estimate =
     (let viol = first_violation p s estimate in
      \<lparr> decision = (case viol of
          None \<Rightarrow> DAllow
        | Some reason \<Rightarrow> (case mode p of
            Shadow \<Rightarrow> DAllow
          | Warn \<Rightarrow> DWarn reason
          | Enforce \<Rightarrow> DBlock reason)),
        violated = viol \<rparr>)"

lemma first_violation_iff:
  "first_violation p s e \<noteq> None \<longleftrightarrow>
     (\<exists>mx. max_steps p = Some mx \<and> mx \<le> steps s) \<or> (\<exists>cap. budget_per_step p = Some cap \<and> cap < e)"
  by (auto simp: first_violation_def Let_def split: option.splits)

text \<open>C8: Policy evaluation is exact and mode-faithful: a violation is recorded precisely when the
  run has already taken \<open>max_steps\<close> steps or the estimate is above the per-step cap, the step rule
  taking precedence; the call is blocked only in enforce mode, warned only in warn mode, and the
  recorded violation is the same in every mode.\<close>
theorem evaluate_contract:
  "let ev = evaluate p s e in
     (violated ev \<noteq> None \<longleftrightarrow> (\<exists>mx. max_steps p = Some mx \<and> mx \<le> steps s) \<or> (\<exists>cap. budget_per_step p = Some cap \<and> cap < e))
   \<and> (\<forall>mx. max_steps p = Some mx \<and> mx \<le> steps s \<longrightarrow>
        violated ev = Some (''max steps reached: '' @ nat_str (steps s) @ '' of '' @ nat_str mx @ '' already taken''))
   \<and> (is_blocking (decision ev) \<longleftrightarrow> mode p = Enforce \<and> violated ev \<noteq> None)
   \<and> (\<forall>r. decision ev = DWarn r \<longleftrightarrow> mode p = Warn \<and> violated ev = Some r)
   \<and> (\<forall>m. violated (evaluate (p\<lparr>mode := m\<rparr>) s e) = violated ev)"
proof -
  have "first_violation (p\<lparr>mode := m\<rparr>) s e = first_violation p s e" for m
    by (simp add: first_violation_def Let_def split: option.splits)
  moreover have "first_violation p s e = Some (''max steps reached: '' @ nat_str (steps s) @ '' of '' @ nat_str mx @ '' already taken'')"
    if "max_steps p = Some mx" "mx \<le> steps s" for mx
    using that by (simp add: first_violation_def)
  ultimately show ?thesis
    using first_violation_iff [of p s e]
    by (auto simp: evaluate_def Let_def is_blocking_def split: option.splits Mode.splits)
qed

text \<open>The hypothesis of the step-limit clause holds on a concrete call.\<close>
theorem evaluate_contract_witness:
  "violated (evaluate (Policy_default\<lparr>max_steps := Some 3\<rparr>) \<lparr>budget = 0, reserved = 0, spent = 0, steps = 3\<rparr> 1)
     = Some (''max steps reached: '' @ nat_str 3 @ '' of '' @ nat_str 3 @ '' already taken'')"
  using evaluate_contract [of "Policy_default\<lparr>max_steps := Some 3\<rparr>" "\<lparr>budget = 0, reserved = 0, spent = 0, steps = 3\<rparr>" 1]
  by (simp add: Let_def)

end
