(* ===== verification/Breaker.thy ===== *)
theory Breaker
  imports Json
begin

text \<open>
  The breaker facade (\<open>crates/core/src/breaker.rs\<close>): block reasons, their wire
  strings and HTTP statuses, and the stable error body.
\<close>

datatype BreakerReason =
    BudgetExceeded | PolicyViolation | LoopDetected | Killed | WasmPolicy
  | TaintBlocked | DlpBlocked | UnitBudgetExceeded | IdentityMismatch

fun as_wire_str :: "BreakerReason \<Rightarrow> string" where
  "as_wire_str BudgetExceeded = ''budget_exceeded''"
| "as_wire_str PolicyViolation = ''policy_violation''"
| "as_wire_str LoopDetected = ''loop_detected''"
| "as_wire_str Killed = ''killed''"
| "as_wire_str WasmPolicy = ''wasm_policy''"
| "as_wire_str TaintBlocked = ''taint_blocked''"
| "as_wire_str DlpBlocked = ''dlp_blocked''"
| "as_wire_str UnitBudgetExceeded = ''unit_budget_exceeded''"
| "as_wire_str IdentityMismatch = ''identity_mismatch''"

fun http_status :: "BreakerReason \<Rightarrow> nat" where
  "http_status TaintBlocked = 403"
| "http_status DlpBlocked = 403"
| "http_status IdentityMismatch = 403"
| "http_status BudgetExceeded = 402"
| "http_status PolicyViolation = 402"
| "http_status LoopDetected = 402"
| "http_status Killed = 402"
| "http_status WasmPolicy = 402"
| "http_status UnitBudgetExceeded = 402"

record BreakerVerdict =
  tripped :: bool
  bv_reason :: "BreakerReason option"
  detail :: "string option"
  budget_usd :: "f64 option"
  spent_usd :: "f64 option"
  policy_id :: "string option"
  would_trip_only :: bool

definition verdict_allow :: BreakerVerdict where
  "verdict_allow = \<lparr> tripped = False, bv_reason = None, detail = None, budget_usd = None,
     spent_usd = None, policy_id = None, would_trip_only = False \<rparr>"

definition opt_field :: "string \<Rightarrow> ('a \<Rightarrow> json) \<Rightarrow> 'a option \<Rightarrow> (string \<times> json) list" where
  "opt_field k f v = (case v of Some x \<Rightarrow> [(k, f x)] | None \<Rightarrow> [])"

text \<open>Keys in the \<open>BTreeMap\<close> order of the serialized \<open>WireError\<close>; absent options are omitted.\<close>
definition to_error_json :: "BreakerVerdict \<Rightarrow> string \<Rightarrow> json" where
  "to_error_json v run_id = JObject [(''error'', JObject (
     opt_field ''budget_usd'' json_f64 (budget_usd v)
     @ opt_field ''policy_id'' JString (policy_id v)
     @ [(''reason'', JString (case detail v of Some d \<Rightarrow> d | None \<Rightarrow> '''')),
        (''retryable'', JBool False),
        (''run_id'', JString run_id)]
     @ opt_field ''spent_usd'' json_f64 (spent_usd v)
     @ [(''type'', JString (case bv_reason v of Some r \<Rightarrow> as_wire_str r | None \<Rightarrow> ''''))]))]"

lemma as_wire_str_inj: "as_wire_str a = as_wire_str b \<Longrightarrow> a = b"
  by (cases a; cases b) simp_all

definition parse_error :: "json \<Rightarrow> (string \<times> string \<times> string) option" where
  "parse_error v = Option.bind (json_get ''error'' v) (\<lambda>e.
     Option.bind (get_str ''type'' e) (\<lambda>t. Option.bind (get_str ''run_id'' e) (\<lambda>r.
     map_option (\<lambda>d. (t, r, d)) (get_str ''reason'' e))))"

lemma parse_to_error_json:
  "parse_error (to_error_json v run_id) =
     Some (case bv_reason v of Some r \<Rightarrow> as_wire_str r | None \<Rightarrow> '''', run_id, case detail v of Some d \<Rightarrow> d | None \<Rightarrow> '''')"
  by (auto simp: parse_error_def to_error_json_def get_str_def get_then_def opt_field_def split: option.splits)

text \<open>The error body identifies the block: from the JSON of two verdicts with a reason, for any
  runs, equal bodies mean the same reason, the same run and the same detail; and the reason alone
  fixes the HTTP status, 403 for taint, DLP and identity blocks and 402 for every other one.\<close>
theorem error_json_identifies:
  assumes "bv_reason v = Some a" "bv_reason w = Some b" "to_error_json v r = to_error_json w r'"
  shows "a = b \<and> r = r' \<and> http_status a = http_status b
    \<and> (case detail v of Some d \<Rightarrow> d | None \<Rightarrow> '''') = (case detail w of Some d \<Rightarrow> d | None \<Rightarrow> '''')
    \<and> (http_status a = 403 \<longleftrightarrow> a \<in> {TaintBlocked, DlpBlocked, IdentityMismatch}) \<and> http_status a \<in> {402, 403}"
proof -
  have "as_wire_str a = as_wire_str b \<and> r = r'
    \<and> (case detail v of Some d \<Rightarrow> d | None \<Rightarrow> '''') = (case detail w of Some d \<Rightarrow> d | None \<Rightarrow> '''')"
    using parse_to_error_json [of v r] parse_to_error_json [of w r'] assms by simp
  then show ?thesis using as_wire_str_inj [of a b] by (cases a) auto
qed

theorem error_json_identifies_witness:
  "http_status Killed = 402 \<and> http_status Killed \<in> {402, 403}"
  using error_json_identifies [of "verdict_allow\<lparr>bv_reason := Some Killed\<rparr>" Killed
      "verdict_allow\<lparr>bv_reason := Some Killed\<rparr>" Killed "''r''" "''r''"] by simp

end
