(* ===== verification/Timefmt.thy ===== *)
theory Timefmt
  imports Prelude
begin

text \<open>
  RFC 3339 timestamps and the civil calendar (\<open>crates/core/src/timefmt.rs\<close>).
  Every caller passes a day number derived from \<open>i64\<close> milliseconds, so the
  \<open>i64\<close> sums below stay far from overflow and are plain integer sums;
  \<open>div_euclid\<close> and \<open>rem_euclid\<close> by a positive constant are \<open>div\<close> and \<open>mod\<close>, and on
  the non-negative values in between \<open>/\<close> is \<open>div\<close> too.  The Gregorian rules
  (leap years, month lengths) are the specification.
\<close>

definition civil_from_days :: "int \<Rightarrow> int \<times> int \<times> int" where
  "civil_from_days z0 =
     (let z = z0 + 719468;
          era = z div 146097;
          doe = z mod 146097;
          yoe = (doe - doe div 1460 + doe div 36524 - doe div 146096) div 365;
          y = yoe + era * 400;
          doy = doe - (365 * yoe + yoe div 4 - yoe div 100);
          mp = (5 * doy + 2) div 153;
          d = doy - (153 * mp + 2) div 5 + 1;
          m = (if mp < 10 then mp + 3 else mp - 9);
          y = (if m \<le> 2 then y + 1 else y)
      in (y, m, d))"

definition days_from_civil :: "int \<Rightarrow> int \<Rightarrow> int \<Rightarrow> int" where
  "days_from_civil y0 m d =
     (let y = (if m \<le> 2 then y0 - 1 else y0);
          era = y div 400;
          yoe = y mod 400;
          mp = (m + 9) mod 12;
          doy = (153 * mp + 2) div 5 + d - 1;
          doe = yoe * 365 + yoe div 4 - yoe div 100 + doy
      in era * 146097 + doe - 719468)"

text \<open>\<open>{y:04}\<close>: a sign counts toward the width.\<close>
definition year_str :: "int \<Rightarrow> string" where
  "year_str y = (if y < 0 then ''-'' @ pad0 3 (nat_str (nat (- y))) else pad0 4 (nat_str (nat y)))"

definition two :: "int \<Rightarrow> string" where "two n = pad0 2 (nat_str (nat n))"

definition ts_millis_to_rfc3339 :: "i64 \<Rightarrow> string" where
  "ts_millis_to_rfc3339 ms =
     (let secs = ms div 1000; days = secs div 86400; secs_of_day = secs mod 86400;
          hour = secs_of_day div 3600; mi = (secs_of_day mod 3600) div 60; sec = secs_of_day mod 60;
          (y, m, d) = civil_from_days days
      in year_str y @ ''-'' @ two m @ ''-'' @ two d @ ''T'' @ two hour @ '':'' @ two mi @ '':'' @ two sec @ ''Z'')"

definition ts_millis_to_rfc3339_millis :: "i64 \<Rightarrow> string" where
  "ts_millis_to_rfc3339_millis ms =
     (let secs = ms div 1000; millis_of_sec = ms mod 1000; days = secs div 86400; secs_of_day = secs mod 86400;
          hour = secs_of_day div 3600; mi = (secs_of_day mod 3600) div 60; sec = secs_of_day mod 60;
          (y, m, d) = civil_from_days days
      in year_str y @ ''-'' @ two m @ ''-'' @ two d @ ''T'' @ two hour @ '':'' @ two mi @ '':'' @ two sec
         @ ''.'' @ pad0 3 (nat_str (nat millis_of_sec)) @ ''Z'')"

section \<open>The Gregorian calendar\<close>

definition leap :: "int \<Rightarrow> bool" where
  "leap y \<longleftrightarrow> 4 dvd y \<and> (\<not> 100 dvd y \<or> 400 dvd y)"

definition month_len :: "int \<Rightarrow> int \<Rightarrow> int" where
  "month_len y m = (if m = 2 then (if leap y then 29 else 28) else if m \<in> {4, 6, 9, 11} then 30 else 31)"

definition valid_date :: "int \<Rightarrow> int \<Rightarrow> int \<Rightarrow> bool" where
  "valid_date y m d \<longleftrightarrow> 1 \<le> m \<and> m \<le> 12 \<and> 1 \<le> d \<and> d \<le> month_len y m"

section \<open>The year of a day within a 400-year era\<close>

text \<open>Days before (March-based) year \<open>Y\<close> of an era; the last term only matters at \<open>Y = 400\<close>.\<close>
definition year_start :: "int \<Rightarrow> int" where
  "year_start Y = 365 * Y + Y div 4 - Y div 100 + Y div 400"

definition yoe_num :: "int \<Rightarrow> int" where
  "yoe_num doe = doe - doe div 1460 + doe div 36524 - doe div 146096"

lemma yoe_num_step: "yoe_num a \<le> yoe_num (a + 1)"
proof -
  have "36524 dvd a + 1" if "146096 dvd a + 1" using that by (rule dvd_trans [rotated]) simp
  then show ?thesis unfolding yoe_num_def
    by (simp add: div_int_succ)
qed

lemma yoe_num_mono: "a \<le> b \<Longrightarrow> yoe_num a \<le> yoe_num b"
proof -
  have "yoe_num a \<le> yoe_num (a + int n)" for n
  proof (induction n)
    case (Suc n)
    then show ?case using yoe_num_step [of "a + int n"] by (simp add: ac_simps)
  qed simp
  then show "a \<le> b \<Longrightarrow> yoe_num a \<le> yoe_num b"
    by (metis zle_iff_zadd)
qed

text \<open>The only enumeration: the 400 years of an era.\<close>
lemma yoe_bounds_table:
  "\<forall>Y\<in>set [0..399]. 365 * Y \<le> yoe_num (year_start Y) \<and> yoe_num (year_start (Y + 1) - 1) < 365 * (Y + 1)"
  by code_simp

lemma year_start_ends: "year_start 0 = 0" "year_start 400 = 146097"
  by (simp_all add: year_start_def)

lemma yoe_of_doe:
  assumes "0 \<le> Y" "Y < 400" "year_start Y \<le> doe" "doe < year_start (Y + 1)"
  shows "yoe_num doe div 365 = Y"
proof -
  have t: "365 * Y \<le> yoe_num (year_start Y)" "yoe_num (year_start (Y + 1) - 1) < 365 * (Y + 1)"
    using yoe_bounds_table assms(1,2) by auto
  have "yoe_num (year_start Y) \<le> yoe_num doe" "yoe_num doe \<le> yoe_num (year_start (Y + 1) - 1)"
    using yoe_num_mono assms(3,4) by auto
  then have "365 * Y \<le> yoe_num doe" "yoe_num doe < 365 * (Y + 1)" using t by linarith+
  then show ?thesis by (intro div_int_eqI) simp_all
qed

lemma year_of_doe:
  assumes "0 \<le> doe" "doe < 146097"
  obtains Y where "0 \<le> Y" "Y < 400" "year_start Y \<le> doe" "doe < year_start (Y + 1)"
proof -
  have "\<exists>k::nat. k < 400 \<and> year_start (int k) \<le> doe \<and> doe < year_start (int k + 1)"
  proof (rule ccontr)
    assume no: "\<not> ?thesis"
    have "k \<le> 400 \<Longrightarrow> year_start (int k) \<le> doe" for k
    proof (induction k)
      case (Suc k)
      then show ?case using no by (force simp: ac_simps)
    qed (use assms in \<open>simp add: year_start_def\<close>)
    from this [of 400] show False using assms by (simp add: year_start_def)
  qed
  then show ?thesis using that by (metis of_nat_0_le_iff of_nat_less_iff of_nat_numeral)
qed

lemma year_length: "year_start (Y + 1) - year_start Y = (if leap (Y + 1) then 366 else 365)"
proof -
  have comb: "365 * (Y + 1) + a' - b' + c' - (365 * Y + a - b + c) = (if p \<and> (\<not> q \<or> s) then 366 else 365)"
    if "a' = a + (if p then 1 else 0)" "b' = b + (if q then 1 else 0)" "c' = c + (if s then 1 else 0)" "q \<Longrightarrow> p" "s \<Longrightarrow> q"
    for a a' b b' c c' :: int and p q s
    using that by (cases p; cases q; cases s) simp_all
  have h1: "4 dvd Y + 1" if "100 dvd Y + 1" using that by (rule dvd_trans [rotated]) simp
  have h2: "100 dvd Y + 1" if "400 dvd Y + 1" using that by (rule dvd_trans [rotated]) simp
  show ?thesis
    unfolding year_start_def leap_def
    by (rule comb [OF div_int_succ div_int_succ div_int_succ h1 h2]) simp_all
qed

lemma year_start_mono: "Y \<le> Z \<Longrightarrow> year_start Y \<le> year_start Z"
proof -
  have "year_start Y \<le> year_start (Y + int n)" for n
  proof (induction n)
    case (Suc n)
    have "year_start (Y + int n) \<le> year_start (Y + int n + 1)"
      using year_length [of "Y + int n"] by (simp split: if_splits)
    then show ?case using Suc by (simp add: ac_simps)
  qed simp
  then show "Y \<le> Z \<Longrightarrow> year_start Y \<le> year_start Z" by (metis zle_iff_zadd)
qed

section \<open>Months\<close>

definition month_index :: "int \<Rightarrow> int" where
  "month_index m = (m + 9) mod 12"

definition month_start :: "int \<Rightarrow> int" where
  "month_start mp = (153 * mp + 2) div 5"

lemma month_cases:
  assumes "1 \<le> m" "m \<le> (12::int)"
  shows "m = 1 \<or> m = 2 \<or> m = 3 \<or> m = 4 \<or> m = 5 \<or> m = 6 \<or> m = 7 \<or> m = 8 \<or> m = 9 \<or> m = 10 \<or> m = 11 \<or> m = 12"
  using assms by presburger

text \<open>Within a March-based year, a valid month and day give a day of that year and are recovered from it.\<close>
lemma month_day_of_doy:
  assumes "valid_date y m d"
  defines "doy \<equiv> month_start (month_index m) + d - 1"
  shows "0 \<le> doy \<and> doy < (if m \<le> 2 then if leap y then 366 else 365 else 306)
    \<and> (5 * doy + 2) div 153 = month_index m"
proof -
  have m: "1 \<le> m" "m \<le> 12" and d: "1 \<le> d" "d \<le> month_len y m" using assms(1) by (auto simp: valid_date_def)
  have "0 \<le> doy \<and> doy < (if m \<le> 2 then if leap y then 366 else 365 else 306)"
    using month_cases [OF m] d
    by (elim disjE) (simp_all add: doy_def month_start_def month_index_def month_len_def split: if_splits)
  moreover have "153 * month_index m \<le> 5 * doy + 2 \<and> 5 * doy + 2 < 153 * (month_index m + 1)"
    using month_cases [OF m] d
    by (elim disjE) (simp_all add: doy_def month_start_def month_index_def month_len_def split: if_splits)
  ultimately show ?thesis by (auto intro: div_int_eqI)
qed

definition month_of_index :: "int \<Rightarrow> int" where
  "month_of_index mp = (if mp < 10 then mp + 3 else mp - 9)"

lemma doy_split:
  assumes "0 \<le> doy" "doy < (if lp then 366 else 365)"
  defines "mp \<equiv> (5 * doy + 2) div 153"
  shows "0 \<le> mp \<and> mp \<le> 11 \<and> month_index (month_of_index mp) = mp
    \<and> 1 \<le> month_of_index mp \<and> month_of_index mp \<le> 12
    \<and> 1 \<le> doy - month_start mp + 1
    \<and> doy - month_start mp + 1 \<le> (if month_of_index mp = 2 then if lp then 29 else 28
        else if month_of_index mp \<in> {4, 6, 9, 11} then 30 else 31)"
proof -
  have b: "153 * mp \<le> 5 * doy + 2" "5 * doy + 2 < 153 * mp + 153"
    using div_mult_mod_eq [of "5 * doy + 2" 153] pos_mod_bound [of 153 "5 * doy + 2"] pos_mod_sign [of 153 "5 * doy + 2"]
    unfolding mp_def by linarith+
  have hi: "doy \<le> 365" using assms(2) by (simp split: if_splits)
  have "0 \<le> mp" "mp \<le> 11" using b assms(1) hi by linarith+
  then have "mp = 0 \<or> mp = 1 \<or> mp = 2 \<or> mp = 3 \<or> mp = 4 \<or> mp = 5 \<or> mp = 6 \<or> mp = 7 \<or> mp = 8 \<or> mp = 9 \<or> mp = 10 \<or> mp = 11"
    by presburger
  then show ?thesis using b assms(1,2)
    by (elim disjE) (simp_all add: month_of_index_def month_index_def month_start_def split: if_splits)
qed

section \<open>The two conversions are inverse\<close>

lemma leap_period: "leap (y + 400 * k) = leap y"
proof -
  have "4 dvd y + 400 * k \<longleftrightarrow> 4 dvd y" "100 dvd y + 400 * k \<longleftrightarrow> 100 dvd y" "400 dvd y + 400 * k \<longleftrightarrow> 400 dvd y"
    by (rule dvd_add_left_iff, rule dvd_mult2, simp)+
  then show ?thesis by (simp add: leap_def)
qed

lemma leap_mod: "leap (y mod 400 + 1) = leap (y + 1)"
proof -
  have "y + 1 = (y mod 400 + 1) + 400 * (y div 400)" by simp
  then show ?thesis using leap_period by metis
qed

lemma year_start_small: "0 \<le> Y \<Longrightarrow> Y < 400 \<Longrightarrow> year_start Y = 365 * Y + Y div 4 - Y div 100"
  by (simp add: year_start_def)

text \<open>A day number splits uniquely into an era, a March-based year, and a day of that year.\<close>
lemma civil_from_days_split:
  assumes "0 \<le> Y" "Y < 400" "0 \<le> doy" "doy < (if leap (Y + 1) then 366 else 365)"
  defines "mp \<equiv> (5 * doy + 2) div 153"
  shows "civil_from_days (146097 * era + year_start Y + doy - 719468) =
    (if month_of_index mp \<le> 2 then Y + era * 400 + 1 else Y + era * 400, month_of_index mp, doy - month_start mp + 1)"
proof -
  define doe where "doe = year_start Y + doy"
  have lt: "doe < year_start (Y + 1)" using year_length [of Y] assms(4) by (simp add: doe_def split: if_splits)
  have up: "year_start (Y + 1) \<le> 146097"
    using year_start_mono [of "Y + 1" 400] assms(2) by (simp add: year_start_def)
  have d0: "0 \<le> doe" "doe < 146097"
    using lt up assms(1,3) year_start_mono [of 0 Y] year_start_ends by (simp_all add: doe_def)
  have z: "146097 * era + year_start Y + doy - 719468 + 719468 = doe + era * 146097" by (simp add: doe_def)
  have e: "(doe + era * 146097) div 146097 = era" "(doe + era * 146097) mod 146097 = doe"
    using d0 by simp_all
  have y: "(doe - doe div 1460 + doe div 36524 - doe div 146096) div 365 = Y"
    using yoe_of_doe [OF assms(1,2) _ lt] assms(3) by (simp add: yoe_num_def doe_def)
  have "doe - (365 * Y + Y div 4 - Y div 100) = doy"
    using assms(1,2) by (simp add: doe_def year_start_small)
  then show ?thesis
    unfolding civil_from_days_def Let_def z e y by (simp add: mp_def month_of_index_def month_start_def)
qed

lemma days_split:
  obtains era Y doy where "z = 146097 * era + year_start Y + doy - 719468" "0 \<le> Y" "Y < 400"
    "0 \<le> doy" "doy < (if leap (Y + 1) then 366 else 365)"
proof -
  define doe where "doe = (z + 719468) mod 146097"
  obtain Y where Y: "0 \<le> Y" "Y < 400" "year_start Y \<le> doe" "doe < year_start (Y + 1)"
    using year_of_doe [of doe] by (auto simp: doe_def)
  have "z = 146097 * ((z + 719468) div 146097) + year_start Y + (doe - year_start Y) - 719468"
    by (simp add: doe_def)
  moreover have "doe - year_start Y < (if leap (Y + 1) then 366 else 365)"
    using year_length [of Y] Y by (simp split: if_splits)
  moreover have "0 \<le> doe - year_start Y" using Y by simp
  ultimately show ?thesis using that [of _ Y "doe - year_start Y"] Y(1,2) by blast
qed

lemma civil_valid:
  "case civil_from_days z of (y, m, d) \<Rightarrow> valid_date y m d \<and> days_from_civil y m d = z"
proof -
  obtain era Y doy where s: "z = 146097 * era + year_start Y + doy - 719468" "0 \<le> Y" "Y < 400"
    "0 \<le> doy" "doy < (if leap (Y + 1) then 366 else 365)"
    by (rule days_split)
  define mp where "mp = (5 * doy + 2) div 153"
  define lp where "lp = leap (Y + 1)"
  note c = civil_from_days_split [OF s(2-5), of era, folded mp_def]
  note ds = doy_split [OF s(4), of lp, folded mp_def]
  have s5: "doy < (if lp then 366 else 365)" using s(5) by (simp add: lp_def)
  have lpy: "leap (Y + era * 400 + 1) = lp" using leap_period [of "Y + 1" era] by (simp add: lp_def ac_simps)
  have div400: "(Y + era * 400) div 400 = era" "(Y + era * 400) mod 400 = Y" using s(2,3) by simp_all
  show ?thesis
    using ds [OF s5] lpy div400 s(2,3) unfolding s(1) c
    by (auto simp: valid_date_def month_len_def days_from_civil_def Let_def month_index_def month_start_def year_start_small)
qed

text \<open>The calendar conversion is the Gregorian calendar: every day number converts to a valid
  date that converts back to it, and every valid date is the conversion of its own day number.\<close>
theorem civil_calendar_inverse:
  "(case civil_from_days z of (y, m, d) \<Rightarrow> valid_date y m d \<and> days_from_civil y m d = z)
   \<and> (valid_date y m d \<longrightarrow> civil_from_days (days_from_civil y m d) = (y, m, d))"
proof (intro conjI impI)
  show "case civil_from_days z of (y, m, d) \<Rightarrow> valid_date y m d \<and> days_from_civil y m d = z"
    by (rule civil_valid)
next
  assume v: "valid_date y m d"
  define Ya where "Ya = (if m \<le> 2 then y - 1 else y)"
  define doy where "doy = month_start (month_index m) + d - 1"
  have m: "1 \<le> m" "m \<le> 12" using v by (auto simp: valid_date_def)
  note md = month_day_of_doy [OF v, folded doy_def]
  have lp: "leap (Ya mod 400 + 1) = leap (Ya + 1)" by (rule leap_mod)
  have Y: "0 \<le> Ya mod 400" "Ya mod 400 < 400" by simp_all
  have dy: "0 \<le> doy" "doy < (if leap (Ya mod 400 + 1) then 366 else 365)"
    using md lp by (auto simp: Ya_def split: if_splits)
  have days: "days_from_civil y m d = 146097 * (Ya div 400) + year_start (Ya mod 400) + doy - 719468"
    by (simp add: days_from_civil_def Let_def Ya_def doy_def month_start_def month_index_def year_start_small)
  have mi: "month_of_index (month_index m) = m"
    using month_cases [OF m] by (elim disjE) (simp_all add: month_of_index_def month_index_def)
  have "Ya mod 400 + Ya div 400 * 400 = Ya" by simp
  then show "civil_from_days (days_from_civil y m d) = (y, m, d)"
    unfolding days civil_from_days_split [OF Y dy] using md mi by (simp add: Ya_def doy_def)
qed

theorem civil_calendar_inverse_witness: "civil_from_days (days_from_civil 2024 2 29) = (2024, 2, 29)"
  using civil_calendar_inverse [of 0 2024 2 29] by (simp add: valid_date_def month_len_def leap_def)

section \<open>Months advance with time\<close>

text \<open>The number of months since the start of March-based year 0.\<close>
definition month_number :: "int \<Rightarrow> int" where
  "month_number z = (case civil_from_days z of (y, m, d) \<Rightarrow> 12 * y + m)"

lemma year_start_era: "146097 * era + year_start Y = year_start (Y + era * 400)"
proof -
  have "(Y + era * 400) div 4 = Y div 4 + era * 100" "(Y + era * 400) div 100 = Y div 100 + era * 4"
    "(Y + era * 400) div 400 = Y div 400 + era"
    using div_mult_self1 [of 4 Y "era * 100"] div_mult_self1 [of 100 Y "era * 4"] div_mult_self1 [of 400 Y era] by simp_all
  then show ?thesis by (simp add: year_start_def)
qed

lemma month_start_mono: "a \<le> b \<Longrightarrow> month_start a \<le> month_start b"
  unfolding month_start_def by (intro zdiv_mono1) simp_all

lemma month_number_split:
  obtains Ya doy where "z = year_start Ya + doy - 719468" "0 \<le> doy" "doy < (if leap (Ya + 1) then 366 else 365)"
    "month_number z = 12 * Ya + (5 * doy + 2) div 153 + 3"
proof -
  obtain era Y doy where s: "z = 146097 * era + year_start Y + doy - 719468" "0 \<le> Y" "Y < 400"
    "0 \<le> doy" "doy < (if leap (Y + 1) then 366 else 365)"
    by (rule days_split)
  define mp where "mp = (5 * doy + 2) div 153"
  have lp: "leap (Y + era * 400 + 1) = leap (Y + 1)" using leap_period [of "Y + 1" era] by (simp add: ac_simps)
  have z: "z = year_start (Y + era * 400) + doy - 719468" using s(1) year_start_era [of era Y] by simp
  have mb: "0 \<le> mp" "mp \<le> 11" using doy_split [OF s(4,5), folded mp_def] by simp_all
  have "month_number z = 12 * (Y + era * 400) + mp + 3"
    using mb unfolding month_number_def s(1) civil_from_days_split [OF s(2-5), folded mp_def]
    by (auto simp: month_of_index_def)
  then show ?thesis using that [OF z s(4)] s(5) lp by (simp add: mp_def)
qed

lemma month_number_mono: "z \<le> z' \<Longrightarrow> month_number z \<le> month_number z'"
proof -
  assume le: "z \<le> z'"
  obtain A a where A: "z = year_start A + a - 719468" "0 \<le> a" "a < (if leap (A + 1) then 366 else 365)"
    "month_number z = 12 * A + (5 * a + 2) div 153 + 3" by (rule month_number_split)
  obtain B b where B: "z' = year_start B + b - 719468" "0 \<le> b" "b < (if leap (B + 1) then 366 else 365)"
    "month_number z' = 12 * B + (5 * b + 2) div 153 + 3" by (rule month_number_split)
  have ma: "0 \<le> (5 * a + 2) div 153" "(5 * a + 2) div 153 \<le> 11" using doy_split [OF A(2,3)] by simp_all
  have mb: "0 \<le> (5 * b + 2) div 153" "(5 * b + 2) div 153 \<le> 11" using doy_split [OF B(2,3)] by simp_all
  have "\<not> B < A"
  proof
    assume "B < A"
    then have "year_start (B + 1) \<le> year_start A" by (intro year_start_mono) simp
    then show False using year_length [of B] A(1,2) B(1,3) le by (simp split: if_splits)
  qed
  then consider "A < B" | "A = B" by linarith
  then show ?thesis
  proof cases
    case 1
    then show ?thesis using A(4) B(4) ma mb by linarith
  next
    case 2
    then have "a \<le> b" using A(1) B(1) le by simp
    then have "(5 * a + 2) div 153 \<le> (5 * b + 2) div 153" by (intro zdiv_mono1) simp_all
    then show ?thesis using 2 A(4) B(4) by simp
  qed
qed

text \<open>The date rendered with its month only: two instants share it exactly in the same month.\<close>
definition month_str :: "int \<Rightarrow> string" where
  "month_str z = (case civil_from_days z of (y, m, d) \<Rightarrow> year_str y @ ''-'' @ two m)"

lemma two_length: "0 \<le> m \<Longrightarrow> m < 100 \<Longrightarrow> length (two m) = 2"
  unfolding two_def by (rule length_pad0_nat) (simp_all add: nat_less_iff)

lemma two_inj: "\<lbrakk>two m = two n; 0 \<le> m; 0 \<le> n\<rbrakk> \<Longrightarrow> m = n"
  by (metis two_def digits_val_pad0 digits_val_nat_str int_nat_eq)

lemma pad0_digit_chars: "\<lbrakk>c \<in> set (pad0 k (nat_str n))\<rbrakk> \<Longrightarrow> is_digit c"
  by (auto simp: pad0_def is_digit_def dest: nat_str_digits)

lemma year_str_inj:
  assumes "year_str y = year_str y'"
  shows "y = y'"
proof -
  have nd: "CHR ''-'' \<notin> set (pad0 k (nat_str n))" for k n
    using pad0_digit_chars [of "CHR ''-''" k n] by (auto simp: is_digit_def)
  have "CHR ''-'' # s \<noteq> pad0 k (nat_str n)" "pad0 k (nat_str n) \<noteq> CHR ''-'' # s" for s k n
    using nd [of k n] by (metis list.set_intros(1))+
  moreover have "pad0 k (nat_str a) = pad0 k (nat_str b) \<longleftrightarrow> a = b" for k a b
    by (metis digits_val_pad0 digits_val_nat_str)
  ultimately show ?thesis using assms by (auto simp: year_str_def split: if_splits)
qed

lemma month_str_eq_iff: "month_str z = month_str z' \<longleftrightarrow> month_number z = month_number z'"
proof -
  obtain y m d where c: "civil_from_days z = (y, m, d)" by (cases "civil_from_days z")
  obtain y' m' d' where c': "civil_from_days z' = (y', m', d')" by (cases "civil_from_days z'")
  have v: "1 \<le> m" "m \<le> 12" "1 \<le> m'" "m' \<le> 12"
    using civil_valid [of z] civil_valid [of z'] by (auto simp: c c' valid_date_def)
  have "year_str y @ ''-'' @ two m = year_str y' @ ''-'' @ two m' \<longleftrightarrow> y = y' \<and> m = m'"
  proof
    assume eq: "year_str y @ ''-'' @ two m = year_str y' @ ''-'' @ two m'"
    then have "two m = two m'" "year_str y = year_str y'"
      using two_length [of m] two_length [of m'] v by (auto simp: append_eq_append_conv)
    then show "y = y' \<and> m = m'" using two_inj v year_str_inj by auto
  qed simp
  moreover have "y = y'" if "12 * y + m = 12 * y' + m'" using v that by linarith
  then have "12 * y + m = 12 * y' + m' \<longleftrightarrow> y = y' \<and> m = m'" by auto
  ultimately show ?thesis by (simp add: month_str_def month_number_def c c')
qed

text \<open>A month, once left, does not come back as time advances.\<close>
lemma month_str_convex:
  "\<lbrakk>a \<le> b; b \<le> c; month_str a = month_str c\<rbrakk> \<Longrightarrow> month_str b = month_str a"
  using month_number_mono [of a b] month_number_mono [of b c] by (simp add: month_str_eq_iff)

end
