(* ===== verification/Pricing.thy ===== *)
theory Pricing
  imports Money
begin

text \<open>
  Token usage, per-model prices and the pre-flight estimate
  (\<open>crates/core/src/pricing.rs\<close>, \<open>crates/gateway/src/pricebook.rs\<close>,
  \<open>crates/gateway/src/estimate.rs\<close>).  Prices are microdollars per million
  tokens; the cost of a call is a sum of four truncated products, the estimate
  applies a 15 percent margin in \<open>f64\<close> and rounds up.
\<close>

record Usage =
  input_tokens :: u64
  output_tokens :: u64
  cache_read_tokens :: u64
  cache_write_tokens :: u64
  tool_calls :: "u32 option"

definition Usage_default :: Usage where
  "Usage_default = \<lparr> input_tokens = 0, output_tokens = 0, cache_read_tokens = 0,
     cache_write_tokens = 0, tool_calls = None \<rparr>"

record ModelPrice =
  input_per_mtok :: microusd
  output_per_mtok :: microusd
  cache_read_per_mtok :: microusd
  cache_write_per_mtok :: microusd

definition per_mtok_usd :: "f64 \<Rightarrow> f64 \<Rightarrow> f64 \<Rightarrow> f64 \<Rightarrow> ModelPrice" where
  "per_mtok_usd input output cache_read cache_write =
     \<lparr> input_per_mtok = from_usd input, output_per_mtok = from_usd output,
       cache_read_per_mtok = from_usd cache_read, cache_write_per_mtok = from_usd cache_write \<rparr>"

text \<open>One priced component: the product and the division are in \<open>i128\<close>, the cast to \<open>i64\<close> truncates.\<close>
definition cost_part :: "u64 \<Rightarrow> microusd \<Rightarrow> i64" where
  "cost_part tokens price = wrap_i64 (tdiv (int tokens * price) 1000000)"

definition model_cost :: "ModelPrice \<Rightarrow> Usage \<Rightarrow> microusd" where
  "model_cost p usage =
     wrap_i64 (wrap_i64 (wrap_i64 (cost_part (input_tokens usage) (input_per_mtok p)
       + cost_part (output_tokens usage) (output_per_mtok p))
       + cost_part (cache_read_tokens usage) (cache_read_per_mtok p))
       + cost_part (cache_write_tokens usage) (cache_write_per_mtok p))"

record PriceBook =
  prices :: "string \<rightharpoonup> ModelPrice"
  fallback :: "ModelPrice option"

definition pricebook_new :: PriceBook where
  "pricebook_new = \<lparr> prices = Map.empty, fallback = None \<rparr>"

definition pricebook_insert :: "PriceBook \<Rightarrow> string \<Rightarrow> ModelPrice \<Rightarrow> PriceBook" where
  "pricebook_insert b model price = b\<lparr> prices := (prices b)(model \<mapsto> price) \<rparr>"

definition with_price :: "string \<Rightarrow> ModelPrice \<Rightarrow> PriceBook \<Rightarrow> PriceBook" where
  "with_price model price b = pricebook_insert b model price"

definition with_fallback :: "ModelPrice \<Rightarrow> PriceBook \<Rightarrow> PriceBook" where
  "with_fallback price b = b\<lparr> fallback := Some price \<rparr>"

definition book_price :: "PriceBook \<Rightarrow> string \<Rightarrow> ModelPrice option" where
  "book_price b model = (case prices b model of Some p \<Rightarrow> Some p | None \<Rightarrow> fallback b)"

definition is_known :: "PriceBook \<Rightarrow> string \<Rightarrow> bool" where
  "is_known b model = (prices b model \<noteq> None)"

definition book_cost :: "PriceBook \<Rightarrow> string \<Rightarrow> Usage \<Rightarrow> microusd option" where
  "book_cost b model usage = map_option (\<lambda>p. model_cost p usage) (book_price b model)"

section \<open>The shipped price book\<close>

text \<open>A decimal literal of the source, given in microdollars: the nearest \<open>f64\<close>.\<close>
definition usd_lit :: "int \<Rightarrow> f64" where
  "usd_lit micros = f64_round (of_int micros / 1000000)"

definition mtok :: "int \<Rightarrow> int \<Rightarrow> int \<Rightarrow> int \<Rightarrow> ModelPrice" where
  "mtok i out cr cw = per_mtok_usd (usd_lit i) (usd_lit out) (usd_lit cr) (usd_lit cw)"

definition default_price_book :: PriceBook where
  "default_price_book =
     (with_fallback (mtok 15000000 75000000 1500000 18750000)
     \<circ> with_price ''o1'' (mtok 15000000 60000000 7500000 15000000)
     \<circ> with_price ''gpt-4o-mini'' (mtok 150000 600000 75000 150000)
     \<circ> with_price ''gpt-4o'' (mtok 2500000 10000000 1250000 2500000)
     \<circ> with_price ''claude-opus-4-5-20251101'' (mtok 5000000 25000000 500000 6250000)
     \<circ> with_price ''claude-opus-4-5'' (mtok 5000000 25000000 500000 6250000)
     \<circ> with_price ''claude-sonnet-4-5-20250929'' (mtok 3000000 15000000 300000 3750000)
     \<circ> with_price ''claude-sonnet-4-5'' (mtok 3000000 15000000 300000 3750000)
     \<circ> with_price ''claude-haiku-4-5-20251001'' (mtok 1000000 5000000 100000 1250000)
     \<circ> with_price ''claude-haiku-4-5'' (mtok 1000000 5000000 100000 1250000)
     \<circ> with_price ''gpt'' (mtok 2500000 10000000 250000 3125000)
     \<circ> with_price ''claude-haiku'' (mtok 800000 4000000 80000 1000000)
     \<circ> with_price ''claude-sonnet'' (mtok 3000000 15000000 300000 3750000)) pricebook_new"

section \<open>The pre-flight estimate\<close>

definition MARGIN :: f64 where "MARGIN = f64_round (115 / 100)"
definition CHARS_PER_TOKEN :: u64 where "CHARS_PER_TOKEN = 4"
definition DEFAULT_MAX_TOKENS :: u64 where "DEFAULT_MAX_TOKENS = 1024"

definition estimate_usage :: "usize \<Rightarrow> u64 option \<Rightarrow> Usage" where
  "estimate_usage body_len max_tokens =
     Usage_default\<lparr> input_tokens := body_len div CHARS_PER_TOKEN,
       output_tokens := (case max_tokens of Some t \<Rightarrow> t | None \<Rightarrow> DEFAULT_MAX_TOKENS) \<rparr>"

definition apply_margin :: "microusd \<Rightarrow> microusd" where
  "apply_margin raw = f64_to_i64 (f64_ceil (f64_mul (f64_of_int raw) MARGIN))"

definition estimate_cost :: "PriceBook \<Rightarrow> string \<Rightarrow> usize \<Rightarrow> u64 option \<Rightarrow> microusd option" where
  "estimate_cost b model body_len max_tokens =
     map_option apply_margin (book_cost b model (estimate_usage body_len max_tokens))"

section \<open>Costs are exact up to truncation\<close>

text \<open>The exact numerator of a cost, in millionths of a microdollar.\<close>
definition exact_total :: "ModelPrice \<Rightarrow> Usage \<Rightarrow> int" where
  "exact_total p u = int (input_tokens u) * input_per_mtok p + int (output_tokens u) * output_per_mtok p
     + int (cache_read_tokens u) * cache_read_per_mtok p + int (cache_write_tokens u) * cache_write_per_mtok p"

definition price_nonneg :: "ModelPrice \<Rightarrow> bool" where
  "price_nonneg p \<longleftrightarrow> 0 \<le> input_per_mtok p \<and> 0 \<le> output_per_mtok p
     \<and> 0 \<le> cache_read_per_mtok p \<and> 0 \<le> cache_write_per_mtok p"

lemma cost_part_exact:
  assumes "0 \<le> price" "int tokens * price \<le> 1000000 * i64_max"
  shows "cost_part tokens price = int tokens * price div 1000000"
proof -
  have nn: "0 \<le> int tokens * price" using assms(1) by simp
  then have "0 \<le> int tokens * price div 1000000" by (simp add: pos_imp_zdiv_nonneg_iff)
  moreover have "int tokens * price div 1000000 \<le> i64_max" using assms(2) by (simp add: i64_max_def)
  ultimately show ?thesis
    using nn by (simp add: cost_part_def tdiv_nonneg wrap_i64_id in_i64_def i64_min_def)
qed

lemma model_cost_sum:
  assumes pn: "price_nonneg p" and tot: "exact_total p u \<le> 1000000 * i64_max"
  shows "model_cost p u =
    int (input_tokens u) * input_per_mtok p div 1000000
    + int (output_tokens u) * output_per_mtok p div 1000000
    + int (cache_read_tokens u) * cache_read_per_mtok p div 1000000
    + int (cache_write_tokens u) * cache_write_per_mtok p div 1000000"
proof -
  define a b c d where abcd:
    "a = int (input_tokens u) * input_per_mtok p" "b = int (output_tokens u) * output_per_mtok p"
    "c = int (cache_read_tokens u) * cache_read_per_mtok p" "d = int (cache_write_tokens u) * cache_write_per_mtok p"
  have nn: "0 \<le> a" "0 \<le> b" "0 \<le> c" "0 \<le> d"
    using pn by (simp_all add: abcd price_nonneg_def)
  have sum: "a + b + c + d \<le> 1000000 * i64_max" using tot by (simp add: exact_total_def abcd)
  then have each: "a \<le> 1000000 * i64_max" "b \<le> 1000000 * i64_max" "c \<le> 1000000 * i64_max" "d \<le> 1000000 * i64_max"
    using nn by linarith+
  have parts: "model_cost p u = wrap_i64 (wrap_i64 (wrap_i64 (a div 1000000 + b div 1000000) + c div 1000000) + d div 1000000)"
    using each pn unfolding abcd price_nonneg_def by (simp add: model_cost_def cost_part_exact)
  have q: "0 \<le> a div 1000000" "0 \<le> b div 1000000" "0 \<le> c div 1000000" "0 \<le> d div 1000000"
    using nn by (simp_all add: pos_imp_zdiv_nonneg_iff)
  have s: "a div 1000000 + b div 1000000 + c div 1000000 + d div 1000000 \<le> i64_max"
    using sum by linarith
  have "wrap_i64 (a div 1000000 + b div 1000000 + c div 1000000 + d div 1000000) =
      a div 1000000 + b div 1000000 + c div 1000000 + d div 1000000"
    using s q by (intro wrap_i64_id) (simp add: in_i64_def i64_min_def)
  then have "model_cost p u = a div 1000000 + b div 1000000 + c div 1000000 + d div 1000000"
    by (simp only: parts wrap_i64_add_left)
  then show ?thesis by (simp only: abcd)
qed

lemma model_cost_exact:
  assumes "price_nonneg p" "exact_total p u \<le> 1000000 * i64_max"
  shows "0 \<le> model_cost p u \<and> 1000000 * model_cost p u \<le> exact_total p u
    \<and> exact_total p u < 1000000 * (model_cost p u + 4)"
proof -
  have nn: "0 \<le> int (input_tokens u) * input_per_mtok p" "0 \<le> int (output_tokens u) * output_per_mtok p"
    "0 \<le> int (cache_read_tokens u) * cache_read_per_mtok p" "0 \<le> int (cache_write_tokens u) * cache_write_per_mtok p"
    using assms(1) by (simp_all add: price_nonneg_def)
  have div_bounds: "0 \<le> a \<Longrightarrow> 0 \<le> a div 1000000 \<and> 1000000 * (a div 1000000) \<le> a \<and> a < 1000000 * (a div 1000000) + 1000000"
    for a :: int by (simp add: pos_imp_zdiv_nonneg_iff) linarith
  show ?thesis
    using nn [THEN div_bounds]
    unfolding model_cost_sum [OF assms] exact_total_def by (simp add: distrib_left)
qed

lemma model_cost_tool_calls [simp]: "model_cost p (u\<lparr>tool_calls := t\<rparr>) = model_cost p u"
  by (simp add: model_cost_def)

lemma book_price_insert:
  "book_price (pricebook_insert b m p) m' = (if m' = m then Some p else book_price b m')"
  by (simp add: book_price_def pricebook_insert_def split: option.splits)

lemma book_price_fallback:
  "book_price (with_fallback p b) m = (if is_known b m then book_price b m else Some p)"
  by (auto simp: book_price_def with_fallback_def is_known_def split: option.splits)

lemma usd_lit_from_usd:
  assumes "\<bar>m\<bar> < 2 ^ 50"
  shows "from_usd (usd_lit m) = m"
proof -
  have "usd_lit m = as_usd m"
    using f64_of_int_exact [of m] assms by (simp add: usd_lit_def as_usd_def)
  then show ?thesis using from_usd_as_usd [OF assms] by simp
qed

lemma mtok_fields:
  assumes "\<bar>i\<bar> < 2 ^ 50" "\<bar>out\<bar> < 2 ^ 50" "\<bar>cr\<bar> < 2 ^ 50" "\<bar>cw\<bar> < 2 ^ 50"
  shows "mtok i out cr cw = \<lparr> input_per_mtok = i, output_per_mtok = out,
    cache_read_per_mtok = cr, cache_write_per_mtok = cw \<rparr>"
  using assms by (simp add: mtok_def per_mtok_usd_def usd_lit_from_usd)

section \<open>The margin\<close>

lemma MARGIN_value: "MARGIN = Fin (5179139571476070 / 2 ^ 52)"
proof -
  let ?q = "23 / 20 :: rat"
  have "ilog2 ?q = 0"
    using ilog2_less [of ?q 1] ilog2_ge [of ?q 0] by simp
  then have u: "f64_ulp ?q = 1 / 2 ^ 52" by (simp add: f64_ulp_def pow2_def)
  have r: "round_half_even (?q / (1 / 2 ^ 52)) = 5179139571476070"
    by (rule round_half_even_unique) simp
  have lt: "(5179139571476070 / 2 ^ 52 :: rat) < pow2 2" by simp
  have "pow2 2 \<le> pow2 1024" by (rule pow2_mono) simp
  then have "\<not> pow2 1024 \<le> 5179139571476070 * (1 / 2 ^ 52)" "\<not> 5179139571476070 * (1 / 2 ^ 52) \<le> - pow2 1024"
    using lt pow2_pos [of 1024] by (simp_all del: pow2_nat pow2_pos)
  then have "f64_round ?q = Fin (5179139571476070 * (1 / 2 ^ 52))"
    unfolding f64_round_def Let_def u r by simp
  then show ?thesis by (simp add: MARGIN_def)
qed

text \<open>Rounding never crosses an integer bound below \<open>2 ^ 53\<close>.\<close>
lemma f64_round_le_int:
  assumes "f64_round q = Fin r" "1 \<le> q" "q < 2 ^ 53" "q \<le> of_int n"
  shows "r \<le> of_int n"
proof -
  define e where "e = ilog2 \<bar>q\<bar>"
  have e: "0 \<le> e" "e \<le> 52"
    using ilog2_less [of "\<bar>q\<bar>" 53] ilog2_ge [of "\<bar>q\<bar>" 0] assms(2,3) by (simp_all add: e_def)
  define u where "u = f64_ulp q"
  have u: "u = 1 / 2 ^ nat (52 - e)" using e by (simp add: u_def f64_ulp_def e_def [symmetric] pow2_def)
  have r: "r = of_int (round_half_even (q / u)) * u"
    using assms(1,2) by (auto simp: f64_round_def Let_def u_def split: if_splits)
  define N where "N = n * 2 ^ nat (52 - e)"
  have "q / u \<le> of_int N" using assms(4) by (simp add: u N_def)
  then have "of_int (round_half_even (q / u)) \<le> (of_int N :: rat) + 1 / 2"
    using round_half_even_error [of "q / u"] by linarith
  then have "round_half_even (q / u) \<le> N" by linarith
  then have "(of_int (round_half_even (q / u)) :: rat) * u \<le> of_int N * u"
    by (intro mult_right_mono) (simp_all add: u)
  then show ?thesis by (simp add: r u N_def)
qed

lemma apply_margin_exact:
  assumes "0 \<le> raw" "raw < 2 ^ 47"
  shows "apply_margin raw = \<lceil>23 * of_int raw / 20 :: rat\<rceil>"
proof (cases "raw = 0")
  case True
  then show ?thesis
    by (simp add: apply_margin_def f64_of_int_def MARGIN_value rat_trunc_def sat_i64_def i64_min_def i64_max_def)
next
  case False
  define R :: rat where "R = of_int raw"
  define q where "q = R * (5179139571476070 / 2 ^ 52)"
  have "(of_int 1 :: rat) \<le> of_int raw" "(of_int raw :: rat) < of_int (2 ^ 47)"
    using assms False by (simp_all only: of_int_less_iff of_int_le_iff)
  then have R: "1 \<le> R" "R < 2 ^ 47" by (simp_all add: R_def)
  have q: "1 \<le> q" "q \<le> 23 / 20 * R" "23 / 20 * R - R / 2 ^ 53 \<le> q" "q \<le> 2 ^ 48"
    using R by (simp_all add: q_def)
  have lo: "pow2 (- 1022) \<le> \<bar>q\<bar>" using pow2_tiny q(1) by simp
  have hi: "\<bar>q\<bar> \<le> 2 ^ 100" using q(1,4) by simp
  obtain r where r: "f64_round q = Fin r" "\<bar>r - q\<bar> \<le> \<bar>q\<bar> / 2 ^ 53"
    using f64_round_finite [OF lo hi] by blast
  define N where "N = \<lceil>23 * R / 20\<rceil>"
  have "q < 2 ^ 53" using q(4) by simp
  moreover have "q \<le> of_int N" using q(2) unfolding N_def by linarith
  ultimately have "r \<le> of_int N" by (rule f64_round_le_int [OF r(1) q(1)])
  moreover have "of_int N - 1 < r"
  proof -
    have "N = - ((- 23 * raw) div 20)"
      by (simp add: N_def R_def ceiling_def floor_divide_of_int_eq [where 'a = rat, symmetric])
    then have "20 * (N - 1) + 1 \<le> 23 * raw"
      using div_mult_mod_eq [of "- 23 * raw" 20] pos_mod_bound [of 20 "- 23 * raw"] by simp
    then have "(of_int (20 * (N - 1) + 1) :: rat) \<le> of_int (23 * raw)" by (simp only: of_int_le_iff)
    then have a: "of_int N - 1 + 1 / 20 \<le> 23 / 20 * R" by (simp add: R_def)
    have "\<bar>q\<bar> / 2 ^ 53 \<le> 2 ^ 48 / 2 ^ 53" using q(1,4) by (intro divide_right_mono) auto
    moreover have "(2 :: rat) ^ 48 / 2 ^ 53 = 1 / 32" by simp
    ultimately have b: "q - 1 / 32 \<le> r" using r(2) by linarith
    have "R / 2 ^ 53 \<le> 2 ^ 47 / 2 ^ 53" using R by (intro divide_right_mono) auto
    then have "R / 2 ^ 53 \<le> 1 / 64" by simp
    then show ?thesis using a b q(3) by linarith
  qed
  ultimately have ceil: "\<lceil>r\<rceil> = N" by linarith
  have "N \<le> 2 ^ 48" using R by (simp add: N_def ceiling_le_iff)
  moreover have "0 \<le> N" using R by (simp add: N_def)
  ultimately have "sat_i64 N = N" by (simp add: sat_i64_def i64_min_def i64_max_def)
  moreover have "f64_mul (f64_of_int raw) MARGIN = Fin r"
    using f64_of_int_exact [of raw] assms r(1) by (simp add: MARGIN_value q_def R_def)
  ultimately show ?thesis
    using ceil by (simp add: apply_margin_def N_def R_def)
qed

section \<open>Properties\<close>

text \<open>A cost is exact up to the four truncations: with non-negative prices and a total that fits,
  the cost is never negative, never above the exact price of the usage, and less than four
  microdollars below it; and the observed tool-call count never changes it.\<close>
theorem cost_exact:
  assumes "price_nonneg p" "exact_total p u \<le> 1000000 * i64_max"
  shows "0 \<le> model_cost p u \<and> 1000000 * model_cost p u \<le> exact_total p u
    \<and> exact_total p u < 1000000 * (model_cost p u + 4) \<and> model_cost p (u\<lparr>tool_calls := t\<rparr>) = model_cost p u"
  using model_cost_exact [OF assms] by simp

theorem cost_exact_witness:
  "let p = \<lparr> input_per_mtok = 3000000, output_per_mtok = 15000000, cache_read_per_mtok = 300000, cache_write_per_mtok = 3750000 \<rparr>;
       u = Usage_default\<lparr> input_tokens := 1000, output_tokens := 501 \<rparr>
   in price_nonneg p \<and> 1000000 * model_cost p u \<le> exact_total p u \<and> exact_total p u < 1000000 * (model_cost p u + 4)"
  using cost_exact [of "\<lparr> input_per_mtok = 3000000, output_per_mtok = 15000000, cache_read_per_mtok = 300000, cache_write_per_mtok = 3750000 \<rparr>"
      "Usage_default\<lparr> input_tokens := 1000, output_tokens := 501 \<rparr>" None]
  by (simp add: price_nonneg_def exact_total_def Usage_default_def i64_max_def Let_def)

text \<open>C40: The pre-flight estimate of a priced model is exactly the raw cost of the assumed usage plus
  15 percent, rounded up to a whole microdollar, for every raw cost below \<open>2 ^ 47\<close> microdollars:
  the \<open>f64\<close> arithmetic never loses the margin, and the estimate never under-states the raw cost.\<close>
theorem estimate_is_ceiling:
  assumes "book_price b model = Some p"
    and "0 \<le> model_cost p (estimate_usage body_len max_tokens)"
    and "model_cost p (estimate_usage body_len max_tokens) < 2 ^ 47"
  shows "estimate_cost b model body_len max_tokens =
      Some \<lceil>23 * of_int (model_cost p (estimate_usage body_len max_tokens)) / 20 :: rat\<rceil>
    \<and> (\<forall>e. estimate_cost b model body_len max_tokens = Some e \<longrightarrow> model_cost p (estimate_usage body_len max_tokens) \<le> e)"
proof -
  define raw where "raw = model_cost p (estimate_usage body_len max_tokens)"
  have e: "estimate_cost b model body_len max_tokens = Some \<lceil>23 * of_int raw / 20 :: rat\<rceil>"
    using assms apply_margin_exact [of raw] by (simp add: estimate_cost_def book_cost_def raw_def)
  have "of_int raw \<le> 23 * of_int raw / (20 :: rat)" using assms(2) by (simp add: raw_def)
  also have "\<dots> \<le> of_int \<lceil>23 * of_int raw / 20 :: rat\<rceil>" by (rule le_of_int_ceiling)
  finally have "raw \<le> \<lceil>23 * of_int raw / 20 :: rat\<rceil>" by (simp only: of_int_le_iff)
  then show ?thesis using e by (simp add: raw_def)
qed

definition demo_price :: ModelPrice where
  "demo_price = \<lparr> input_per_mtok = 3000000, output_per_mtok = 15000000, cache_read_per_mtok = 300000, cache_write_per_mtok = 3750000 \<rparr>"

lemma demo_price_cost: "model_cost demo_price (estimate_usage 4000 (Some 100)) = 4500"
  by (simp add: model_cost_def cost_part_def tdiv_def demo_price_def estimate_usage_def Usage_default_def
      CHARS_PER_TOKEN_def wrap_i64_def)

theorem estimate_is_ceiling_witness:
  "estimate_cost (with_price ''m'' demo_price pricebook_new) ''m'' 4000 (Some 100) = Some 5175"
proof -
  have "book_price (with_price ''m'' demo_price pricebook_new) ''m'' = Some demo_price"
    by (simp add: with_price_def book_price_insert)
  from estimate_is_ceiling [OF this, of 4000 "Some 100"] show ?thesis by (simp add: demo_price_cost)
qed

text \<open>The shipped price book resolves every listed model to its published rates in microdollars
  per million tokens, and every other model to the fallback, whose input, output and cache-write
  rates are at least those of every listed model.\<close>
theorem default_book_fallback_covers:
  "book_price default_price_book ''claude-haiku-4-5'' = Some \<lparr> input_per_mtok = 1000000, output_per_mtok = 5000000,
      cache_read_per_mtok = 100000, cache_write_per_mtok = 1250000 \<rparr>
   \<and> (\<exists>f. fallback default_price_book = Some f
      \<and> (\<forall>m. \<not> is_known default_price_book m \<longrightarrow> book_price default_price_book m = Some f)
      \<and> (\<forall>m p. prices default_price_book m = Some p \<longrightarrow>
           input_per_mtok p \<le> input_per_mtok f \<and> output_per_mtok p \<le> output_per_mtok f
           \<and> cache_write_per_mtok p \<le> cache_write_per_mtok f))"
  by (auto simp: default_price_book_def with_price_def pricebook_insert_def with_fallback_def pricebook_new_def
      book_price_def is_known_def mtok_fields split: if_splits)

theorem default_book_fallback_covers_witness:
  "\<not> is_known default_price_book ''mystery'' \<and> book_price default_price_book ''mystery'' = fallback default_price_book"
proof -
  have "\<not> is_known default_price_book ''mystery''"
    by (simp add: default_price_book_def with_price_def pricebook_insert_def with_fallback_def pricebook_new_def is_known_def)
  then show ?thesis using default_book_fallback_covers by auto
qed

text \<open>The fallback is not the most expensive rate for cache reads: the listed model \<open>o1\<close> charges
  five times as much for them as an unknown model.\<close>
theorem fallback_undercuts_o1_cache_reads:
  "map_option cache_read_per_mtok (book_price default_price_book ''o1'') = Some 7500000
   \<and> map_option cache_read_per_mtok (book_price default_price_book ''mystery'') = Some 1500000"
  by (simp add: default_price_book_def with_price_def pricebook_insert_def with_fallback_def pricebook_new_def
      book_price_def mtok_fields)

text \<open>The cast back to \<open>i64\<close> after the division truncates: at 15 dollars per million output tokens
  (the rate of the shipped \<open>claude-sonnet\<close> entry) a request asking for \<open>2 ^ 60\<close> output tokens has a
  negative cost, so a huge \<open>max_tokens\<close> passes every budget check.\<close>
theorem huge_max_tokens_negative:
  "model_cost demo_price (estimate_usage 0 (Some (2 ^ 60))) = - (2 ^ 60)"
  by (simp add: model_cost_def cost_part_def tdiv_def demo_price_def estimate_usage_def Usage_default_def
      CHARS_PER_TOKEN_def wrap_i64_def)

end
