(* ===== verification/LedgerSafety.thy ===== *)
theory LedgerSafety
  imports Ledger
begin

text \<open>
  What the ledger guarantees: the functional contract of \<open>reserve\<close> and
  \<open>settle\<close>, and the absence of oversubscription over every interleaving of the
  ledger's methods.  The latter is an invariant of a step relation over the
  ledger together with three ghosts: the reservations handed out and not yet
  settled, the largest budget a run was ever opened with, and the slack the
  callers themselves introduced (estimates reserved without a check and actual
  costs above their estimate).
\<close>

section \<open>Functional contract\<close>

lemma find_map_split:
  "find_map f xs = Some y \<Longrightarrow> \<exists>pre x post. xs = pre @ x # post \<and> f x = Some y \<and> (\<forall>z\<in>set pre. f z = None)"
proof (induction xs)
  case (Cons a xs)
  show ?case
  proof (cases "f a")
    case None
    then obtain pre x post where "xs = pre @ x # post" "f x = Some y" "\<forall>z\<in>set pre. f z = None"
      using Cons by auto
    then have "a # xs = (a # pre) @ x # post \<and> f x = Some y \<and> (\<forall>z\<in>set (a # pre). f z = None)"
      using None by simp
    then show ?thesis by blast
  next
    case (Some b)
    then have "a # xs = [] @ a # xs \<and> f a = Some y \<and> (\<forall>z\<in>set []. f z = None)" using Cons by simp
    then show ?thesis by blast
  qed
qed simp

text \<open>Whether a run of the ledger would stay within its budget with \<open>e\<close> more in flight.\<close>
definition fits :: "ledger \<Rightarrow> microusd \<Rightarrow> string \<Rightarrow> bool" where
  "fits runs e i \<longleftrightarrow> (\<exists>s. runs i = Some s \<and> wrap_i64 (rs_spent s + rs_reserved s + e) \<le> rs_budget s)"

lemma level_fits: "runs i \<noteq> None \<Longrightarrow> level_exceeded runs e i = None \<longleftrightarrow> fits runs e i"
  by (auto simp: fits_def level_ok_iff)

lemma reserve_granted_iff:
  "(\<exists>v. fst (reserve runs r e) = Inr v) \<longleftrightarrow> runs r \<noteq> None \<and> (\<forall>i\<in>set (chain runs r). fits runs e i)"
proof (cases rule: reserve_cases [of runs r e])
  case (exceeded err)
  then obtain i where "i \<in> set (chain runs r)" "level_exceeded runs e i = Some err"
    using find_map_SomeD by fastforce
  then show ?thesis using exceeded(3) chain_known [of i runs r] level_fits [of runs i e] by auto
next
  case granted
  then show ?thesis using chain_known level_fits by simp
qed auto

lemma reserve_error_first_level:
  assumes "reserve runs r e = (Inl (Exceeded i b s w), runs')"
  shows "runs' = runs \<and> (\<exists>pre post st. chain runs r = pre @ i # post \<and> (\<forall>j\<in>set pre. fits runs e j)
    \<and> runs i = Some st \<and> b = rs_budget st \<and> s = rs_spent st
    \<and> w = wrap_i64 (rs_spent st + rs_reserved st + e) \<and> b < w)"
proof (cases rule: reserve_cases [of runs r e])
  case (exceeded err)
  obtain pre x post where sp: "chain runs r = pre @ x # post" "level_exceeded runs e x = Some err"
    "\<forall>z\<in>set pre. level_exceeded runs e z = None"
    using find_map_split [OF exceeded(2)] by blast
  have "fits runs e j" if "j \<in> set pre" for j
    using sp that chain_known [of j runs r] level_fits [of runs j e] by auto
  then show ?thesis using level_exceededD [OF sp(2)] sp(1) exceeded(3) assms by auto
qed (use assms in auto)

lemma reserve_ok_effect:
  assumes "reserve runs r e = (Inr v, runs')"
  shows "runs' = apply_reserve runs r e \<and> v = reservation_for runs' r e \<and> runs r \<noteq> None
    \<and> (\<forall>i\<in>set (chain runs r). fits runs e i)"
proof (cases rule: reserve_cases [of runs r e])
  case granted
  then show ?thesis using assms chain_known level_fits by simp
qed (use assms in auto)

lemma apply_reserve_res_step:
  "runs r = Some s \<Longrightarrow> res_step (reservation_for (apply_reserve runs r e) r e) = wrap_u32 (rs_steps s + 1)"
  by (simp add: reservation_for_def apply_reserve_apply)

section \<open>The step system\<close>

record sys =
  led :: ledger
  outstanding :: "Reservation list"
  peak :: "string \<Rightarrow> int"
  slack :: "string \<Rightarrow> int"

text \<open>Head-room in which \<open>i64\<close> sums of a budget, a slack and an estimate cannot wrap: \<open>2 ^ 61\<close> microdollars.\<close>
definition headroom :: int where "headroom = 2305843009213693952"

definition bump :: "(string \<Rightarrow> int) \<Rightarrow> string list \<Rightarrow> int \<Rightarrow> string \<Rightarrow> int" where
  "bump f ids d x = (if x \<in> set ids then f x + d else f x)"

text \<open>No other run names \<open>r\<close> as its parent.\<close>
definition childless :: "ledger \<Rightarrow> string \<Rightarrow> bool" where
  "childless runs r \<longleftrightarrow> (\<forall>x s. runs x = Some s \<longrightarrow> rs_parent s = Some r \<longrightarrow> x = r)"

text \<open>
  The steps are the calls of the ledger's methods, in any order.  Two of them carry a
  discipline the code does not enforce: a run is created (by \<open>open_run\<close>, or by
  \<open>reserve_unchecked\<close> on an absent run) while no run names it as its parent, and it is closed
  while no reservation on it is outstanding and no other run names it.  A run may name a
  parent that is not, or not yet, open.
\<close>

inductive lstep :: "sys \<Rightarrow> sys \<Rightarrow> bool" where
  opened: "\<lbrakk>led \<sigma> r = None; childless (led \<sigma>) r; 0 \<le> b; b \<le> headroom\<rbrakk> \<Longrightarrow>
    lstep \<sigma> (\<sigma>\<lparr>led := open_run (led \<sigma>) r b p, peak := (peak \<sigma>)(r := b), slack := (slack \<sigma>)(r := 0)\<rparr>)"
| reopened: "\<lbrakk>led \<sigma> r \<noteq> None; 0 \<le> b; b \<le> headroom\<rbrakk> \<Longrightarrow>
    lstep \<sigma> (\<sigma>\<lparr>led := open_run (led \<sigma>) r b p, peak := (peak \<sigma>)(r := max (peak \<sigma> r) b)\<rparr>)"
| granted: "\<lbrakk>reserve (led \<sigma>) r e = (Inr v, l'); 0 \<le> e; e \<le> headroom\<rbrakk> \<Longrightarrow>
    lstep \<sigma> (\<sigma>\<lparr>led := l', outstanding := v # outstanding \<sigma>\<rparr>)"
| refused: "reserve (led \<sigma>) r e = (Inl err, l') \<Longrightarrow> lstep \<sigma> (\<sigma>\<lparr>led := l'\<rparr>)"
| forced: "\<lbrakk>led \<sigma> r \<noteq> None; reserve_unchecked (led \<sigma>) r e = (v, l'); 0 \<le> e;
      \<forall>x\<in>set (chain (led \<sigma>) r). slack \<sigma> x + e \<le> headroom\<rbrakk> \<Longrightarrow>
    lstep \<sigma> (\<sigma>\<lparr>led := l', outstanding := v # outstanding \<sigma>, slack := bump (slack \<sigma>) (chain (led \<sigma>) r) e\<rparr>)"
| forced_absent: "\<lbrakk>led \<sigma> r = None; childless (led \<sigma>) r; reserve_unchecked (led \<sigma>) r e = (v, l'); 0 \<le> e; e \<le> headroom\<rbrakk> \<Longrightarrow>
    lstep \<sigma> (\<sigma>\<lparr>led := l', outstanding := v # outstanding \<sigma>, peak := (peak \<sigma>)(r := 0), slack := (slack \<sigma>)(r := e)\<rparr>)"
| settled: "\<lbrakk>v \<in> set (outstanding \<sigma>); 0 \<le> a; ex = max 0 (a - amount v);
      \<forall>x\<in>set (chain (led \<sigma>) (res_run_id v)). slack \<sigma> x + ex \<le> headroom\<rbrakk> \<Longrightarrow>
    lstep \<sigma> (\<sigma>\<lparr>led := settle (led \<sigma>) v a, outstanding := remove1 v (outstanding \<sigma>),
      slack := bump (slack \<sigma>) (chain (led \<sigma>) (res_run_id v)) ex\<rparr>)"
| closed: "\<lbrakk>\<forall>v\<in>set (outstanding \<sigma>). res_run_id v \<noteq> r;
      childless (led \<sigma>) r; close_run (led \<sigma>) r = (fin, l')\<rbrakk> \<Longrightarrow>
    lstep \<sigma> (\<sigma>\<lparr>led := l'\<rparr>)"

definition sys_init :: sys where
  "sys_init = \<lparr> led = ledger_new, outstanding = [], peak = (\<lambda>_. 0), slack = (\<lambda>_. 0) \<rparr>"

inductive lreach :: "sys \<Rightarrow> bool" where
  init: "lreach sys_init"
| step: "\<lbrakk>lreach \<sigma>; lstep \<sigma> \<sigma>'\<rbrakk> \<Longrightarrow> lreach \<sigma>'"

text \<open>What the outstanding reservations commit at run \<open>x\<close>: those issued at \<open>x\<close> or below it.\<close>
definition committed :: "ledger \<Rightarrow> Reservation list \<Rightarrow> string \<Rightarrow> int" where
  "committed runs vs x = sum_list (map (\<lambda>v. if x \<in> set (chain runs (res_run_id v)) then amount v else 0) vs)"

definition run_ok :: "sys \<Rightarrow> string \<Rightarrow> RunState \<Rightarrow> bool" where
  "run_ok \<sigma> x s \<longleftrightarrow> rs_reserved s = committed (led \<sigma>) (outstanding \<sigma>) x \<and> 0 \<le> rs_spent s
     \<and> rs_spent s + rs_reserved s \<le> peak \<sigma> x + slack \<sigma> x
     \<and> 0 \<le> rs_budget s \<and> rs_budget s \<le> peak \<sigma> x \<and> peak \<sigma> x \<le> headroom \<and> 0 \<le> slack \<sigma> x \<and> slack \<sigma> x \<le> headroom"

definition sys_inv :: "sys \<Rightarrow> bool" where
  "sys_inv \<sigma> \<longleftrightarrow> (\<forall>v\<in>set (outstanding \<sigma>). 0 \<le> amount v \<and> led \<sigma> (res_run_id v) \<noteq> None)
     \<and> (\<forall>x s. led \<sigma> x = Some s \<longrightarrow> run_ok \<sigma> x s)"

lemma committed_nonneg: "\<forall>v\<in>set vs. 0 \<le> amount v \<Longrightarrow> 0 \<le> committed runs vs x"
  unfolding committed_def by (rule sum_list_nonneg) auto

lemma committed_Cons [simp]:
  "committed runs (v # vs) x = (if x \<in> set (chain runs (res_run_id v)) then amount v else 0) + committed runs vs x"
  by (simp add: committed_def)

lemma committed_remove1:
  "v \<in> set vs \<Longrightarrow> committed runs (remove1 v vs) x =
     committed runs vs x - (if x \<in> set (chain runs (res_run_id v)) then amount v else 0)"
  unfolding committed_def by (rule sum_list_remove1)

lemma committed_member:
  "\<lbrakk>v \<in> set vs; \<forall>v\<in>set vs. 0 \<le> amount v; x \<in> set (chain runs (res_run_id v))\<rbrakk> \<Longrightarrow> amount v \<le> committed runs vs x"
  unfolding committed_def
  using sum_list_nonneg_member [of v vs "\<lambda>v. if x \<in> set (chain runs (res_run_id v)) then amount v else 0"] by auto

lemma committed_cong:
  "(\<And>v. v \<in> set vs \<Longrightarrow> chain runs (res_run_id v) = chain runs' (res_run_id v)) \<Longrightarrow> committed runs vs x = committed runs' vs x"
  unfolding committed_def by (intro arg_cong [where f = sum_list] map_cong) auto

lemma committed_parents [simp]:
  "committed (apply_reserve runs r e) vs x = committed runs vs x"
  "committed (settle runs v a) vs x = committed runs vs x"
  by (rule committed_cong, simp)+

lemma not_None_ops [simp]:
  "apply_reserve runs r e x = None \<longleftrightarrow> runs x = None" "settle runs v a x = None \<longleftrightarrow> runs x = None"
  by (simp_all add: apply_reserve_apply settle_apply)

section \<open>Every step keeps the invariant\<close>

lemma inv_run: "\<lbrakk>sys_inv \<sigma>; led \<sigma> x = Some s\<rbrakk> \<Longrightarrow> run_ok \<sigma> x s"
  by (simp add: sys_inv_def)

lemma inv_nonneg: "sys_inv \<sigma> \<Longrightarrow> 0 \<le> committed (led \<sigma>) (outstanding \<sigma>) x"
  by (rule committed_nonneg) (simp add: sys_inv_def)

text \<open>Adding an estimate to a run in good standing does not wrap.\<close>
lemma inv_no_wrap:
  assumes "sys_inv \<sigma>" "led \<sigma> x = Some s" "0 \<le> e" "e \<le> headroom"
  shows "wrap_i64 (rs_spent s + rs_reserved s + e) = rs_spent s + rs_reserved s + e"
    and "microusd_add (rs_reserved s) e = rs_reserved s + e"
  using inv_run [OF assms(1,2)] inv_nonneg [OF assms(1), of x] assms(3,4)
  by (simp_all add: run_ok_def microusd_add_def wrap_i64_within headroom_def)

lemma inv_reserve_levels:
  assumes inv: "sys_inv \<sigma>" and r: "led \<sigma> r \<noteq> None" and e: "0 \<le> e" "e \<le> headroom"
    and v: "v = reservation_for (apply_reserve (led \<sigma>) r e) r e"
    and \<sigma>': "led \<sigma>' = apply_reserve (led \<sigma>) r e" "outstanding \<sigma>' = v # outstanding \<sigma>" "peak \<sigma>' = peak \<sigma>"
    and sl: "\<And>x. slack \<sigma> x \<le> slack \<sigma>' x" "\<And>x s. led \<sigma> x = Some s \<Longrightarrow> slack \<sigma>' x \<le> headroom"
    and room: "\<And>x s. \<lbrakk>x \<in> set (chain (led \<sigma>) r); led \<sigma> x = Some s\<rbrakk> \<Longrightarrow>
      rs_spent s + rs_reserved s + e \<le> peak \<sigma> x + slack \<sigma>' x"
  shows "sys_inv \<sigma>'"
proof -
  have "run_ok \<sigma>' x t" if t: "led \<sigma>' x = Some t" for x t
  proof -
    obtain s where s: "led \<sigma> x = Some s" using t \<sigma>' by (auto simp: apply_reserve_apply)
    note ok = inv_run [OF inv s] and nw = inv_no_wrap [OF inv s e]
    have "rs_reserved t = (if x \<in> set (chain (led \<sigma>) r) then rs_reserved s + e else rs_reserved s)"
      "rs_spent t = rs_spent s" "rs_budget t = rs_budget s"
      using t s nw by (auto simp: \<sigma>' apply_reserve_apply)
    then show ?thesis
      using ok room [of x s] s sl(1) [of x] sl(2) [of x s]
      by (auto simp: run_ok_def \<sigma>' v)
  qed
  then show ?thesis using inv r e by (auto simp: sys_inv_def \<sigma>' v)
qed

lemma inv_granted:
  assumes inv: "sys_inv \<sigma>" and res: "reserve (led \<sigma>) r e = (Inr v, l')" and e: "0 \<le> e" "e \<le> headroom"
  shows "sys_inv (\<sigma>\<lparr>led := l', outstanding := v # outstanding \<sigma>\<rparr>)"
proof -
  note ok = reserve_ok_effect [OF res]
  have room: "rs_spent s + rs_reserved s + e \<le> peak \<sigma> x + slack \<sigma> x"
    if "x \<in> set (chain (led \<sigma>) r)" "led \<sigma> x = Some s" for x s
    using ok that inv_no_wrap [OF inv that(2) e] inv_run [OF inv that(2)] by (auto simp: fits_def run_ok_def)
  show ?thesis
    by (rule inv_reserve_levels [OF inv _ e, where v = v]) (use ok room inv in \<open>auto simp: sys_inv_def run_ok_def\<close>)
qed

lemma inv_forced:
  assumes inv: "sys_inv \<sigma>" and r: "led \<sigma> r \<noteq> None" and res: "reserve_unchecked (led \<sigma>) r e = (v, l')"
    and e: "0 \<le> e" and h: "\<forall>x\<in>set (chain (led \<sigma>) r). slack \<sigma> x + e \<le> headroom"
  shows "sys_inv (\<sigma>\<lparr>led := l', outstanding := v # outstanding \<sigma>, slack := bump (slack \<sigma>) (chain (led \<sigma>) r) e\<rparr>)"
proof -
  have lv: "l' = apply_reserve (led \<sigma>) r e" "v = reservation_for (apply_reserve (led \<sigma>) r e) r e"
    using res r by (auto simp: reserve_unchecked_def Let_def)
  obtain s0 where "led \<sigma> r = Some s0" using r by auto
  then have eh: "e \<le> headroom" using h chain_self [of "led \<sigma>" r] r inv_run [OF inv, of r s0] by (force simp: run_ok_def)
  have room: "rs_spent s + rs_reserved s + e \<le> peak \<sigma> x + (slack \<sigma> x + e)" "slack \<sigma> x \<le> headroom"
    if "led \<sigma> x = Some s" for x s
    using inv_run [OF inv that] by (simp_all add: run_ok_def)
  show ?thesis
    by (rule inv_reserve_levels [OF inv r e eh lv(2)]) (use lv h e room in \<open>auto simp: bump_def\<close>)
qed

lemma inv_settled:
  assumes inv: "sys_inv \<sigma>" and v: "v \<in> set (outstanding \<sigma>)" and a: "0 \<le> a" "ex = max 0 (a - amount v)"
    and h: "\<forall>x\<in>set (chain (led \<sigma>) (res_run_id v)). slack \<sigma> x + ex \<le> headroom"
  shows "sys_inv (\<sigma>\<lparr>led := settle (led \<sigma>) v a, outstanding := remove1 v (outstanding \<sigma>),
      slack := bump (slack \<sigma>) (chain (led \<sigma>) (res_run_id v)) ex\<rparr>)" (is "sys_inv ?\<sigma>")
proof -
  have nn: "\<forall>v\<in>set (outstanding \<sigma>). 0 \<le> amount v" using inv by (simp add: sys_inv_def)
  have "run_ok ?\<sigma> x t" if t: "led ?\<sigma> x = Some t" for x t
  proof (cases "x \<in> set (chain (led \<sigma>) (res_run_id v))")
    case False
    then have "led \<sigma> x = Some t" using t by (simp add: settle_apply)
    then show ?thesis using inv_run [OF inv, of x t] False v by (simp add: run_ok_def committed_remove1 bump_def)
  next
    case True
    then obtain s where s: "led \<sigma> x = Some s" "t = settle_state (amount v) a s"
      using t by (auto simp: settle_apply)
    note ok = inv_run [OF inv s(1)]
    have am: "0 \<le> amount v" "amount v \<le> rs_reserved s"
      using nn v committed_member [OF v nn True] ok by (simp_all add: run_ok_def)
    have hx: "slack \<sigma> x + ex \<le> headroom" using h True by simp
    have big: "rs_reserved s \<le> i64_max" "rs_spent s + a \<le> i64_max" "0 \<le> rs_spent s + a"
      using ok am hx a by (auto simp: run_ok_def headroom_def i64_max_def)
    have "saturating_sub (rs_reserved s) (amount v) = rs_reserved s - amount v"
      using am big by (simp add: saturating_sub_exact)
    moreover have "microusd_add (rs_spent s) a = rs_spent s + a"
      using big by (simp add: microusd_add_exact in_i64_def i64_min_def)
    ultimately show ?thesis
      using ok True v s(2) a hx by (auto simp: run_ok_def committed_remove1 bump_def)
  qed
  then show ?thesis using inv set_remove1_subset [of v "outstanding \<sigma>"] by (auto simp: sys_inv_def)
qed

text \<open>An unchecked reservation on an absent run first opens it with a zero budget, as an \<open>opened\<close> step.\<close>
lemma reserve_unchecked_absent:
  "led \<sigma> r = None \<Longrightarrow> reserve_unchecked (led \<sigma>) r e = reserve_unchecked (open_run (led \<sigma>) r 0 None) r e"
  by (simp add: reserve_unchecked_def open_run_def ZERO_def)

lemma inv_reopened:
  assumes inv: "sys_inv \<sigma>" and r: "led \<sigma> r \<noteq> None" and b: "0 \<le> b" "b \<le> headroom"
  shows "sys_inv (\<sigma>\<lparr>led := open_run (led \<sigma>) r b p, peak := (peak \<sigma>)(r := max (peak \<sigma> r) b)\<rparr>)" (is "sys_inv ?\<sigma>")
proof -
  have par: "ledger_par (open_run (led \<sigma>) r b p) x = ledger_par (led \<sigma>) x" for x
    using r by (auto simp: open_run_apply)
  then have ch: "chain (open_run (led \<sigma>) r b p) x = chain (led \<sigma>) x" for x
    by (rule chain_parents_only)
  then have com: "committed (open_run (led \<sigma>) r b p) vs x = committed (led \<sigma>) vs x" for vs x
    by (intro committed_cong) simp
  have "run_ok ?\<sigma> x t" if "led ?\<sigma> x = Some t" for x t
    using that r b inv_run [OF inv, of x] by (auto simp: run_ok_def com open_run_apply split: if_splits)
  moreover have "open_run (led \<sigma>) r b p x = None \<longleftrightarrow> led \<sigma> x = None" for x
    using r by (auto simp: open_run_apply)
  ultimately show ?thesis
    using inv by (auto simp: sys_inv_def)
qed

text \<open>Opening or closing a run that no other run points to leaves the other chains alone.\<close>
lemma chain_fresh: "\<lbrakk>runs r = None; childless runs r; runs x \<noteq> None\<rbrakk> \<Longrightarrow> chain (runs(r \<mapsto> s)) x = chain runs x"
  by (rule chain_agree [of "dom runs \<union> - {r}", symmetric]) (auto simp: childless_def)

lemma chain_removed: "\<lbrakk>childless runs r; x \<noteq> r\<rbrakk> \<Longrightarrow> chain (runs(r := None)) x = chain runs x"
  by (rule chain_agree [of "- {r}", symmetric]) (auto simp: childless_def)

lemma inv_opened:
  assumes inv: "sys_inv \<sigma>" and r: "led \<sigma> r = None" and p: "childless (led \<sigma>) r" and b: "0 \<le> b" "b \<le> headroom"
  shows "sys_inv (\<sigma>\<lparr>led := open_run (led \<sigma>) r b q, peak := (peak \<sigma>)(r := b), slack := (slack \<sigma>)(r := 0)\<rparr>)" (is "sys_inv ?\<sigma>")
proof -
  have l: "open_run (led \<sigma>) r b q = (led \<sigma>)(r \<mapsto> fresh_run b q)" using r by (simp add: open_run_def)
  have vs: "\<forall>v\<in>set (outstanding \<sigma>). led \<sigma> (res_run_id v) \<noteq> None"
    using inv by (simp add: sys_inv_def)
  have com: "committed ((led \<sigma>)(r \<mapsto> fresh_run b q)) (outstanding \<sigma>) x = committed (led \<sigma>) (outstanding \<sigma>) x" for x
    by (rule committed_cong) (use chain_fresh [OF r p] vs in auto)
  have "r \<notin> set (chain (led \<sigma>) y)" for y using chain_known [of r "led \<sigma>" y] r by auto
  then have zero: "committed (led \<sigma>) (outstanding \<sigma>) r = 0"
    by (simp add: committed_def)
  have "run_ok ?\<sigma> x t" if "led ?\<sigma> x = Some t" for x t
    using that r b zero inv_run [OF inv, of x]
    by (auto simp: run_ok_def l com split: if_splits)
  then show ?thesis using inv by (auto simp: sys_inv_def l)
qed

lemma inv_forced_absent:
  assumes inv: "sys_inv \<sigma>" and r: "led \<sigma> r = None" and p: "childless (led \<sigma>) r"
    and res: "reserve_unchecked (led \<sigma>) r e = (v, l')" and e: "0 \<le> e" "e \<le> headroom"
  shows "sys_inv (\<sigma>\<lparr>led := l', outstanding := v # outstanding \<sigma>, peak := (peak \<sigma>)(r := 0), slack := (slack \<sigma>)(r := e)\<rparr>)"
proof -
  let ?o = "\<sigma>\<lparr>led := open_run (led \<sigma>) r 0 None, peak := (peak \<sigma>)(r := 0), slack := (slack \<sigma>)(r := 0)\<rparr>"
  have o: "sys_inv ?o" by (rule inv_opened [OF inv r p]) (simp_all add: headroom_def)
  have led: "led ?o r \<noteq> None" using r by (simp add: open_run_def)
  have ch: "chain (led ?o) r = [r]"
    using r by (simp add: open_run_def chain_def chain_loop.simps)
  have "sys_inv (?o\<lparr>led := l', outstanding := v # outstanding ?o, slack := bump (slack ?o) (chain (led ?o) r) e\<rparr>)"
    by (rule inv_forced [OF o led]) (use res r e ch in \<open>simp_all add: reserve_unchecked_absent\<close>)
  moreover have "bump (slack ?o) (chain (led ?o) r) e = (slack \<sigma>)(r := e)"
    by (rule ext) (simp only: ch, simp add: bump_def)
  ultimately show ?thesis by (cases \<sigma>) simp
qed

lemma inv_closed:
  assumes inv: "sys_inv \<sigma>" and v: "\<forall>v\<in>set (outstanding \<sigma>). res_run_id v \<noteq> r"
    and np: "childless (led \<sigma>) r" and c: "close_run (led \<sigma>) r = (fin, l')"
  shows "sys_inv (\<sigma>\<lparr>led := l'\<rparr>)" (is "sys_inv ?\<sigma>")
proof -
  have l: "l' = (led \<sigma>)(r := None)" using c by (simp add: close_run_def)
  have com: "committed ((led \<sigma>)(r := None)) (outstanding \<sigma>) x = committed (led \<sigma>) (outstanding \<sigma>) x" for x
    by (rule committed_cong) (use chain_removed [OF np] v in auto)
  have "run_ok ?\<sigma> x t" if "led ?\<sigma> x = Some t" for x t
    using that inv_run [OF inv, of x] by (auto simp: run_ok_def l com split: if_splits)
  then show ?thesis using inv v by (auto simp: sys_inv_def l)
qed

lemma lstep_inv: "lstep \<sigma> \<sigma>' \<Longrightarrow> sys_inv \<sigma> \<Longrightarrow> sys_inv \<sigma>'"
proof (induction rule: lstep.induct)
  case (refused \<sigma> r e err l')
  then have "l' = led \<sigma>" by (cases rule: reserve_cases [of "led \<sigma>" r e]) auto
  then show ?case using refused.prems by simp
qed (simp_all add: inv_opened inv_reopened inv_granted inv_forced inv_forced_absent inv_settled inv_closed)

lemma lreach_inv: "lreach \<sigma> \<Longrightarrow> sys_inv \<sigma>"
proof (induction rule: lreach.induct)
  case init
  then show ?case by (simp add: sys_init_def sys_inv_def ledger_new_def)
next
  case (step \<sigma> \<sigma>')
  then show ?case using lstep_inv by blast
qed

section \<open>Properties\<close>

text \<open>C1: No oversubscription under the discipline that a run is created while no run names it as its
  parent and closed while no reservation on it is outstanding and no other run names it.  Over
  every sequence of opening, re-opening, reserving (checked or not, on a present or an absent run),
  settling and closing that keeps to it, with amounts and accumulated slack within \<open>2 ^ 61\<close>
  microdollars, a run's reserved counter is exactly the sum of the outstanding reservations issued
  at it or below it, and what it has spent plus what they still hold never exceeds the largest
  budget it was opened with by more than the slack its callers introduced themselves (estimates
  reserved unchecked, actual costs above their estimate).  Outside the discipline it is false:
  \<open>late_parent_oversubscribes\<close> and \<open>early_close_leaks\<close>.\<close>
theorem no_oversubscription:
  assumes "lreach \<sigma>" "led \<sigma> x = Some s"
  shows "rs_reserved s = committed (led \<sigma>) (outstanding \<sigma>) x
    \<and> 0 \<le> rs_spent s \<and> rs_spent s + committed (led \<sigma>) (outstanding \<sigma>) x \<le> peak \<sigma> x + slack \<sigma> x"
  using inv_run [OF lreach_inv [OF assms(1)] assms(2)] by (auto simp: run_ok_def)

definition demo_led :: ledger where
  "demo_led = open_run (open_run ledger_new ''p'' 10 None) ''c'' 8 (Some ''p'')"

definition demo_res :: Reservation where
  "demo_res = \<lparr> res_run_id = ''c'', amount = 5, res_step = 1 \<rparr>"

definition demo_open :: sys where
  "demo_open = \<lparr> led = demo_led, outstanding = [],
     peak = ((\<lambda>_. 0)(''p'' := 10))(''c'' := 8), slack = ((\<lambda>_. 0)(''p'' := 0))(''c'' := 0) \<rparr>"

definition demo_sys :: sys where
  "demo_sys = \<lparr> led = apply_reserve demo_led ''c'' 5, outstanding = [demo_res],
     peak = ((\<lambda>_. 0)(''p'' := 10))(''c'' := 8), slack = ((\<lambda>_. 0)(''p'' := 0))(''c'' := 0) \<rparr>"

lemma demo_chain: "chain demo_led ''c'' = [''c'', ''p'']"
  by (simp add: demo_led_def chain_def chain_loop.simps open_run_def ledger_new_def MAX_CHAIN_DEPTH_def)

lemma demo_reserve: "reserve demo_led ''c'' 5 = (Inr demo_res, apply_reserve demo_led ''c'' 5)"
proof -
  have c: "demo_led ''c'' = Some (fresh_run 8 (Some ''p''))" "demo_led ''p'' = Some (fresh_run 10 None)"
    by (simp_all add: demo_led_def open_run_def ledger_new_def)
  have "level_exceeded demo_led 5 ''c'' = None" "level_exceeded demo_led 5 ''p'' = None"
    by (simp_all add: level_ok_iff c wrap_i64_within)
  then have f: "find_map (level_exceeded demo_led 5) (chain demo_led ''c'') = None"
    by (simp add: demo_chain)
  have "reservation_for (apply_reserve demo_led ''c'' 5) ''c'' 5 = demo_res"
    by (simp add: reservation_for_def apply_reserve_apply c demo_res_def demo_chain wrap_u32_def)
  then show ?thesis using c by (simp add: reserve_def Let_def f del: find_map_None)
qed

lemma demo_open_reach: "lreach demo_open"
proof -
  let ?s1 = "sys_init\<lparr>led := open_run (led sys_init) ''p'' 10 None, peak := (peak sys_init)(''p'' := 10), slack := (slack sys_init)(''p'' := 0)\<rparr>"
  let ?s2 = "?s1\<lparr>led := open_run (led ?s1) ''c'' 8 (Some ''p''), peak := (peak ?s1)(''c'' := 8), slack := (slack ?s1)(''c'' := 0)\<rparr>"
  have "lstep sys_init ?s1"
    by (rule lstep.opened) (simp_all add: sys_init_def ledger_new_def childless_def headroom_def)
  then have r1: "lreach ?s1" by (rule lreach.step [OF lreach.init])
  have "lstep ?s1 ?s2"
    by (rule lstep.opened) (simp_all add: sys_init_def ledger_new_def childless_def headroom_def open_run_def)
  then have "lreach ?s2" by (rule lreach.step [OF r1])
  then show ?thesis by (simp add: demo_open_def demo_led_def sys_init_def)
qed

lemma demo_reach: "lreach demo_sys"
proof -
  have "lstep demo_open (demo_open\<lparr>led := apply_reserve demo_led ''c'' 5, outstanding := demo_res # outstanding demo_open\<rparr>)"
    by (rule lstep.granted [of _ "''c''" 5]) (simp_all add: demo_open_def demo_reserve headroom_def)
  then have "lreach (demo_open\<lparr>led := apply_reserve demo_led ''c'' 5, outstanding := demo_res # outstanding demo_open\<rparr>)"
    by (rule lreach.step [OF demo_open_reach])
  then show ?thesis by (simp add: demo_sys_def demo_open_def)
qed

theorem no_oversubscription_witness:
  "\<exists>s. led demo_sys ''p'' = Some s \<and> rs_reserved s = committed (led demo_sys) (outstanding demo_sys) ''p''
     \<and> rs_spent s + committed (led demo_sys) (outstanding demo_sys) ''p'' \<le> 10"
proof -
  have "led demo_sys ''p'' = Some (add_reserved 5 (fresh_run 10 None))"
    by (simp add: demo_sys_def apply_reserve_apply demo_chain) (simp add: demo_led_def open_run_def ledger_new_def)
  then show ?thesis using no_oversubscription [OF demo_reach] by (fastforce simp: demo_sys_def)
qed

text \<open>C4: The contract of \<open>reserve\<close> on every branch.  An absent run is refused by name; a refusal
  names the first level of the ancestor chain (leaf first) that would exceed its budget, with that
  level's budget, spend and would-be total, and changes nothing; a grant means every level fits,
  adds the estimate to the reserved counter of exactly the chain, and steps only the leaf.\<close>
theorem reserve_contract:
  "case reserve runs r e of
     (Inl (UnknownRun x), runs') \<Rightarrow> x = r \<and> runs r = None \<and> runs' = runs
   | (Inl (Exceeded i b s w), runs') \<Rightarrow> runs' = runs \<and>
       (\<exists>pre post st. chain runs r = pre @ i # post \<and> (\<forall>j\<in>set pre. fits runs e j) \<and> runs i = Some st
         \<and> b = rs_budget st \<and> s = rs_spent st \<and> w = wrap_i64 (rs_spent st + rs_reserved st + e) \<and> b < w)
   | (Inr v, runs') \<Rightarrow> (\<forall>i\<in>set (chain runs r). fits runs e i) \<and> res_run_id v = r \<and> amount v = e
       \<and> (\<forall>x. runs' x = map_option (\<lambda>s. s\<lparr>
             rs_reserved := (if x \<in> set (chain runs r) then wrap_i64 (rs_reserved s + e) else rs_reserved s),
             rs_steps := (if x = r then wrap_u32 (rs_steps s + 1) else rs_steps s)\<rparr>) (runs x))
       \<and> map_option rs_steps (runs' r) = Some (res_step v)"
proof (cases rule: reserve_cases [of runs r e])
  case unknown
  then show ?thesis by simp
next
  case (exceeded err)
  then obtain i where "level_exceeded runs e i = Some err" using find_map_SomeD by fastforce
  then obtain b s w where "err = Exceeded i b s w" using level_exceededD by blast
  then show ?thesis using reserve_error_first_level [of runs r e i b s w runs] exceeded by simp
next
  case granted
  obtain st where st: "runs r = Some st" using granted(1) by auto
  have "\<forall>i\<in>set (chain runs r). fits runs e i"
    using granted(2) chain_known level_fits by simp
  moreover have "apply_reserve runs r e x = map_option (\<lambda>s. s\<lparr>
             rs_reserved := (if x \<in> set (chain runs r) then wrap_i64 (rs_reserved s + e) else rs_reserved s),
             rs_steps := (if x = r then wrap_u32 (rs_steps s + 1) else rs_steps s)\<rparr>) (runs x)" for x
    by (cases "runs x") (auto simp: apply_reserve_apply add_reserved_def bump_steps_def microusd_add_def)
  moreover have "map_option rs_steps (apply_reserve runs r e r) = Some (res_step (reservation_for (apply_reserve runs r e) r e))"
    by (simp add: apply_reserve_res_step st) (simp add: apply_reserve_apply st)
  ultimately show ?thesis using granted(3) by simp
qed

theorem reserve_contract_witness:
  "fits demo_led 5 ''c'' \<and> fits demo_led 5 ''p''
   \<and> map_option rs_reserved (apply_reserve demo_led ''c'' 5 ''p'') = Some 5"
proof -
  have "(\<forall>i\<in>set (chain demo_led ''c''). fits demo_led 5 i) \<and>
      (\<forall>x. apply_reserve demo_led ''c'' 5 x = map_option (\<lambda>s. s\<lparr>
             rs_reserved := (if x \<in> set (chain demo_led ''c'') then wrap_i64 (rs_reserved s + 5) else rs_reserved s),
             rs_steps := (if x = ''c'' then wrap_u32 (rs_steps s + 1) else rs_steps s)\<rparr>) (demo_led x))"
    using reserve_contract [where runs = demo_led and r = "''c''" and e = 5] by (simp add: demo_reserve)
  then show ?thesis
    by (simp add: demo_chain) (simp add: demo_led_def open_run_def ledger_new_def fresh_run_def ZERO_def wrap_i64_def)
qed

text \<open>A grant is within the budgets in force at that moment: in every reachable state, right
  after a successful \<open>reserve\<close> each level of the chain has spent plus reserved at most its current
  budget, however the budgets were changed before and whatever was reserved unchecked.\<close>
theorem grant_within_current_budgets:
  assumes "lreach \<sigma>" "reserve (led \<sigma>) r e = (Inr v, l')" "0 \<le> e" "e \<le> headroom"
  shows "chain l' r \<noteq> [] \<and> hd (chain l' r) = r \<and>
    (\<forall>i\<in>set (chain l' r). \<exists>s. l' i = Some s \<and> rs_spent s + rs_reserved s \<le> rs_budget s)"
proof -
  note inv = lreach_inv [OF assms(1)] and ok = reserve_ok_effect [OF assms(2)]
  have ch: "chain l' r = chain (led \<sigma>) r" using ok by simp
  have "\<exists>t. l' i = Some t \<and> rs_spent t + rs_reserved t \<le> rs_budget t" if i: "i \<in> set (chain (led \<sigma>) r)" for i
  proof -
    obtain s where s: "led \<sigma> i = Some s" "wrap_i64 (rs_spent s + rs_reserved s + e) \<le> rs_budget s"
      using ok i by (auto simp: fits_def)
    then show ?thesis
      using ok i inv_no_wrap [OF inv s(1) assms(3,4)] by (auto simp: apply_reserve_apply)
  qed
  moreover have "chain (led \<sigma>) r \<noteq> [] \<and> hd (chain (led \<sigma>) r) = r"
    using ok lw.walk_starts [of "led \<sigma>" r] by (simp add: chain_def)
  ultimately show ?thesis by (simp add: ch)
qed

theorem grant_within_current_budgets_witness:
  "hd (chain (apply_reserve demo_led ''c'' 5) ''c'') = ''c'' \<and>
   (\<exists>s. apply_reserve demo_led ''c'' 5 ''p'' = Some s \<and> rs_spent s + rs_reserved s \<le> rs_budget s)"
  using grant_within_current_budgets [OF demo_open_reach, of "''c''" 5 demo_res "apply_reserve demo_led ''c'' 5"]
  by (simp add: demo_open_def demo_reserve headroom_def demo_chain)

text \<open>C6: Reserve followed by settle conserves the accounts: whatever the actual cost, the reserved
  counters return to their old values along the whole chain, the actual cost is added to spent at
  exactly those levels, one step is counted at the leaf, and no other run is touched.\<close>
theorem reserve_settle_conserves:
  assumes "lreach \<sigma>" "reserve (led \<sigma>) r e = (Inr v, l')" "0 \<le> e" "e \<le> headroom" "led \<sigma> x = Some s"
  shows "settle l' v a x = Some (s\<lparr>
     rs_spent := (if x \<in> set (chain (led \<sigma>) r) then wrap_i64 (rs_spent s + a) else rs_spent s),
     rs_steps := (if x = r then wrap_u32 (rs_steps s + 1) else rs_steps s)\<rparr>)"
proof -
  note inv = lreach_inv [OF assms(1)] and ok = reserve_ok_effect [OF assms(2)]
  have v: "res_run_id v = r" "amount v = e" using ok by simp_all
  note ro = inv_run [OF inv assms(5)]
  have "saturating_sub (microusd_add (rs_reserved s) e) e = rs_reserved s"
    using ro inv_nonneg [OF inv, of x] inv_no_wrap(2) [OF inv assms(5,3,4)] assms(3,4)
    by (simp add: run_ok_def saturating_sub_def sat_i64_def headroom_def i64_min_def i64_max_def)
  moreover have "l' = apply_reserve (led \<sigma>) r e" "chain l' r = chain (led \<sigma>) r" using ok by simp_all
  ultimately show ?thesis
    using chain_self [of "led \<sigma>" r] ok assms(5)
    by (auto simp: settle_apply apply_reserve_apply v settle_state_def add_reserved_def bump_steps_def microusd_add_def)
qed

theorem reserve_settle_conserves_witness:
  "settle (apply_reserve demo_led ''c'' 5) demo_res 7 ''c'' =
     Some ((fresh_run 8 (Some ''p''))\<lparr> rs_spent := 7, rs_steps := 1 \<rparr>)"
proof -
  have "led demo_open ''c'' = Some (fresh_run 8 (Some ''p''))"
    by (simp add: demo_open_def demo_led_def open_run_def ledger_new_def)
  then show ?thesis
    using reserve_settle_conserves [OF demo_open_reach, of "''c''" 5 demo_res "apply_reserve demo_led ''c'' 5" "''c''" _ 7]
    by (simp add: demo_open_def demo_reserve headroom_def demo_chain wrap_i64_within wrap_u32_def)
qed

text \<open>The discipline on creation is needed.  When run
  \<open>p\<close> (budget 10) is opened after its child \<open>c\<close> reserved 5, settling \<open>c\<close> releases from \<open>p\<close> an amount
  that was never reserved there: \<open>p\<close> then holds two granted, unsettled reservations of 8 and 7
  while its reserved counter shows 10.\<close>
theorem late_parent_oversubscribes:
  "let l0 = open_run ledger_new ''c'' 100 (Some ''p'');
       (v1, l1) = reserve l0 ''c'' 5;
       l2 = open_run l1 ''p'' 10 None;
       (v2, l3) = reserve l2 ''p'' 8;
       l4 = (case v1 of Inr v \<Rightarrow> settle l3 v 0 | Inl _ \<Rightarrow> l3);
       (v3, l5) = reserve l4 ''p'' 7
   in (\<exists>a b. v2 = Inr a \<and> amount a = 8 \<and> v3 = Inr b \<and> amount b = 7)
      \<and> map_option (\<lambda>s. (rs_budget s, rs_reserved s)) (l5 ''p'') = Some (10, 10)"
  by (simp add: reserve_def open_run_def ledger_new_def chain_def chain_loop.simps MAX_CHAIN_DEPTH_def
      level_exceeded_def apply_reserve_def map_upd_at_def reservation_for_def settle_def settle_state_def
      saturating_sub_def sat_i64_def i64_min_def i64_max_def microusd_add_def wrap_i64_def Let_def
      add_reserved_def bump_steps_def fresh_run_def ZERO_def del: find_map_None)

text \<open>So is the discipline on closing.  A child closed with its reservation outstanding takes its
  parent link with it: the settlement finds no chain, so the ancestor keeps the reserved amount for
  ever and is never charged the actual cost.\<close>
theorem early_close_leaks:
  "let l0 = open_run (open_run ledger_new ''p'' 10 None) ''c'' 8 (Some ''p'');
       (v, l1) = reserve l0 ''c'' 5;
       l2 = snd (close_run l1 ''c'');
       l3 = (case v of Inr v \<Rightarrow> settle l2 v 5 | Inl _ \<Rightarrow> l2)
   in map_option (\<lambda>s. (rs_reserved s, rs_spent s)) (l3 ''p'') = Some (5, 0) \<and> l3 ''c'' = None"
  by (simp add: reserve_def open_run_def ledger_new_def chain_def chain_loop.simps MAX_CHAIN_DEPTH_def
      level_exceeded_def apply_reserve_def map_upd_at_def reservation_for_def settle_def close_run_def
      microusd_add_def wrap_i64_def Let_def add_reserved_def bump_steps_def fresh_run_def ZERO_def
      del: find_map_None)

section \<open>The end of the ancestor walk\<close>

text \<open>C38: The ancestor walk always ends, cyclic or dangling parent links included: it lists at most 64
  known runs, each once, beginning with the run asked for and each the parent of the one before;
  it stops only at a root, at a parent that is unknown or already listed, or at the bound; and it is
  empty exactly for an unknown run.\<close>
theorem ancestor_walk_ends:
  "distinct (chain runs r) \<and> length (chain runs r) \<le> 64
   \<and> (case runs r of
        None \<Rightarrow> chain runs r = []
      | Some s \<Rightarrow> chain runs r \<noteq> [] \<and> hd (chain runs r) = r
          \<and> set (chain runs r) \<subseteq> dom runs
          \<and> list_all (\<lambda>i. map_option rs_parent (runs (chain runs r ! i)) = Some (Some (chain runs r ! Suc i))) [0..<length (chain runs r) - 1]
          \<and> (length (chain runs r) = 64 \<or> (\<exists>t. runs (last (chain runs r)) = Some t
               \<and> (case rs_parent t of None \<Rightarrow> True | Some q \<Rightarrow> q \<in> set (chain runs r) \<or> runs q = None))))"
proof (cases "runs r")
  case None
  then show ?thesis by simp
next
  case (Some s)
  have st: "chain runs r \<noteq> [] \<and> hd (chain runs r) = r"
    using lw.walk_starts [of runs r] Some by (simp add: chain_def)
  have "64 \<le> length (chain runs r) \<or> (case ledger_par runs (last (chain runs r)) of Some None \<Rightarrow> True
     | Some (Some q) \<Rightarrow> q \<in> set (chain runs r) \<or> ledger_par runs q = None | None \<Rightarrow> False)"
    using lw.walk_maximal [of "[]" runs "Some r", folded chain_def] Some by (simp add: MAX_CHAIN_DEPTH_def)
  then have "length (chain runs r) = 64 \<or> (\<exists>t. runs (last (chain runs r)) = Some t
      \<and> (case rs_parent t of None \<Rightarrow> True | Some q \<Rightarrow> q \<in> set (chain runs r) \<or> runs q = None))"
    using chain_length [of runs r] by (auto split: option.splits)
  moreover have "list_all (\<lambda>i. ledger_par runs (chain runs r ! i) = Some (Some (chain runs r ! Suc i))) [0..<length (chain runs r) - 1]"
    using chain_linked [of _ runs r] by (auto simp: list_all_iff)
  ultimately show ?thesis using Some st chain_known [of _ runs r] chain_length [of runs r] by auto
qed

end
