(* ===== verification/Cluster.thy ===== *)
theory Cluster
  imports Ledger
begin

text \<open>
  The replicated ledger state machine (\<open>crates/cluster/src/types.rs\<close>): requests,
  responses, and \<open>LedgerState::apply\<close>, the single point where a budget is enforced
  across a cluster.  Amounts are \<open>u64\<close> and every sum saturates.  The last part
  shows that it refines the in-process ledger of theory \<open>Ledger\<close>.
\<close>

datatype Request =
    Open (open_name: string) (open_budget: u64) (open_parent: "string option")
  | Reserve string u64
  | Settle string u64 u64

record Response =
  accepted :: bool
  spent_micros :: u64
  reserved_micros :: u64
  budget_micros :: u64
  resp_step :: u32
  blocked_run :: "string option"
  resp_reason :: string

definition Response_default :: Response where
  "Response_default = \<lparr> accepted = False, spent_micros = 0, reserved_micros = 0, budget_micros = 0,
     resp_step = 0, blocked_run = None, resp_reason = '''' \<rparr>"

record CRunState =
  c_budget :: u64
  c_reserved :: u64
  c_spent :: u64
  c_steps :: u32
  c_parent :: "string option"

definition CRunState_default :: CRunState where
  "CRunState_default = \<lparr> c_budget = 0, c_reserved = 0, c_spent = 0, c_steps = 0, c_parent = None \<rparr>"

definition c_committed :: "CRunState \<Rightarrow> u64" where
  "c_committed s = sat_u64 (c_spent s + c_reserved s)"

type_synonym LedgerState = "string \<rightharpoonup> CRunState"

definition C_MAX_CHAIN_DEPTH :: usize where "C_MAX_CHAIN_DEPTH = 64"

function c_chain_loop :: "LedgerState \<Rightarrow> string list \<Rightarrow> string option \<Rightarrow> string list" where
  "c_chain_loop runs ids None = ids"
| "c_chain_loop runs ids (Some i) =
     (if i \<in> set ids \<or> C_MAX_CHAIN_DEPTH \<le> length ids then ids
      else case runs i of
        Some s \<Rightarrow> c_chain_loop runs (ids @ [i]) (c_parent s)
      | None \<Rightarrow> ids)"
  by pat_completeness auto
termination by (relation "measure (\<lambda>(_, ids, _). C_MAX_CHAIN_DEPTH - length ids)") auto

definition c_chain :: "LedgerState \<Rightarrow> string \<Rightarrow> string list" where
  "c_chain runs run = c_chain_loop runs [] (Some run)"

definition leaf_response :: "LedgerState \<Rightarrow> string \<Rightarrow> bool \<Rightarrow> Response" where
  "leaf_response runs run acc =
     (let s = (case runs run of Some s \<Rightarrow> s | None \<Rightarrow> CRunState_default) in
      \<lparr> accepted = acc, spent_micros = c_spent s, reserved_micros = c_reserved s, budget_micros = c_budget s,
        resp_step = c_steps s, blocked_run = None, resp_reason = '''' \<rparr>)"

definition apply_open :: "LedgerState \<Rightarrow> string \<Rightarrow> u64 \<Rightarrow> string option \<Rightarrow> Response \<times> LedgerState" where
  "apply_open runs run b parent =
     (let runs' = (case runs run of
        Some s \<Rightarrow> runs(run \<mapsto> s\<lparr>c_budget := b\<rparr>)
      | None \<Rightarrow> runs(run \<mapsto> CRunState_default\<lparr>c_budget := b, c_parent := parent\<rparr>))
      in (leaf_response runs' run True, runs'))"

text \<open>UTF-8 of the micro sign and the unit used in the refusal text.\<close>
definition micro_usd :: string where
  "micro_usd = [CHR 0xC2, CHR 0xB5] @ ''USD''"

definition c_level_exceeded :: "LedgerState \<Rightarrow> string \<Rightarrow> u64 \<Rightarrow> string \<Rightarrow> Response option" where
  "c_level_exceeded runs run micros i = (case runs i of
     None \<Rightarrow> None
   | Some s \<Rightarrow>
       let would = sat_u64 (c_committed s + micros) in
       if would > c_budget s then
         Some \<lparr> accepted = False, spent_micros = c_spent s, reserved_micros = c_reserved s,
           budget_micros = c_budget s,
           resp_step = (case runs run of Some l \<Rightarrow> c_steps l | None \<Rightarrow> 0),
           blocked_run = Some i,
           resp_reason = ''budget_exceeded on '' @ [CHR 0x27] @ i @ [CHR 0x27] @ '': need '' @ nat_str would @ '' ''
             @ micro_usd @ '' > budget '' @ nat_str (c_budget s) @ '' '' @ micro_usd \<rparr>
       else None)"

definition c_add_reserved :: "u64 \<Rightarrow> CRunState \<Rightarrow> CRunState" where
  "c_add_reserved m s = s\<lparr>c_reserved := sat_u64 (c_reserved s + m)\<rparr>"

definition c_bump_steps :: "CRunState \<Rightarrow> CRunState" where
  "c_bump_steps s = s\<lparr>c_steps := wrap_u32 (c_steps s + 1)\<rparr>"

definition apply_reserve_req :: "LedgerState \<Rightarrow> string \<Rightarrow> u64 \<Rightarrow> Response \<times> LedgerState" where
  "apply_reserve_req runs run micros =
     (if runs run = None then
        ((leaf_response runs run False)\<lparr>blocked_run := Some run, resp_reason := ''unknown_run: '' @ run\<rparr>, runs)
      else case find_map (c_level_exceeded runs run micros) (c_chain runs run) of
        Some resp \<Rightarrow> (resp, runs)
      | None \<Rightarrow>
          let runs' = map_upd_at c_bump_steps run (map_upd_all (c_add_reserved micros) (c_chain runs run) runs)
          in (leaf_response runs' run True, runs'))"

definition c_settle_state :: "u64 \<Rightarrow> u64 \<Rightarrow> CRunState \<Rightarrow> CRunState" where
  "c_settle_state res act s = s\<lparr>c_reserved := c_reserved s - res, c_spent := sat_u64 (c_spent s + act)\<rparr>"

definition apply_settle :: "LedgerState \<Rightarrow> string \<Rightarrow> u64 \<Rightarrow> u64 \<Rightarrow> Response \<times> LedgerState" where
  "apply_settle runs run res act =
     (let runs' = map_upd_all (c_settle_state res act) (c_chain runs run) runs
      in (leaf_response runs' run True, runs'))"

definition apply_request :: "LedgerState \<Rightarrow> Request \<Rightarrow> Response \<times> LedgerState" where
  "apply_request runs req = (case req of
     Open run b parent \<Rightarrow> apply_open runs run b parent
   | Reserve run micros \<Rightarrow> apply_reserve_req runs run micros
   | Settle run res act \<Rightarrow> apply_settle runs run res act)"

section \<open>The ancestor walk\<close>

abbreviation c_par :: "LedgerState \<Rightarrow> string \<Rightarrow> string option option" where
  "c_par runs i \<equiv> map_option c_parent (runs i)"

interpretation cw: parent_walk c_par c_chain_loop C_MAX_CHAIN_DEPTH
  by unfold_locales (simp_all split: option.splits)

declare c_chain_loop.simps [simp del]

lemma c_chain_distinct [simp]: "distinct (c_chain runs r)"
  by (simp add: c_chain_def cw.walk_distinct)

section \<open>Refinement to the in-process ledger\<close>

definition abs_run :: "CRunState \<Rightarrow> RunState" where
  "abs_run s = \<lparr> rs_budget = int (c_budget s), rs_reserved = int (c_reserved s), rs_spent = int (c_spent s),
     rs_steps = c_steps s, rs_parent = c_parent s \<rparr>"

definition abs_ledger :: "LedgerState \<Rightarrow> ledger" where
  "abs_ledger runs = (\<lambda>x. map_option abs_run (runs x))"

text \<open>Amounts in which neither \<open>u64\<close> saturation nor \<open>i64\<close> wrap-around can occur.\<close>
definition c_limit :: nat where "c_limit = 2305843009213693952"

definition in_limits :: "LedgerState \<Rightarrow> bool" where
  "in_limits runs \<longleftrightarrow> (\<forall>x s. runs x = Some s \<longrightarrow> c_spent s + c_reserved s \<le> 2 * c_limit)"

lemma abs_run_sel [simp]:
  "rs_budget (abs_run s) = int (c_budget s)" "rs_reserved (abs_run s) = int (c_reserved s)"
  "rs_spent (abs_run s) = int (c_spent s)" "rs_steps (abs_run s) = c_steps s" "rs_parent (abs_run s) = c_parent s"
  by (simp_all add: abs_run_def)

lemma abs_par [simp]: "ledger_par (abs_ledger runs) x = c_par runs x"
  by (cases "runs x") (simp_all add: abs_ledger_def)

lemma abs_None [simp]: "abs_ledger runs x = None \<longleftrightarrow> runs x = None"
  by (simp add: abs_ledger_def)

lemma abs_lookup: "runs x = Some s \<Longrightarrow> abs_ledger runs x = Some (abs_run s)"
  by (simp add: abs_ledger_def)

lemma abs_chain [simp]: "chain (abs_ledger runs) r = c_chain runs r"
proof -
  have "chain_loop (abs_ledger runs) ids c = c_chain_loop runs ids c" for ids c
  proof (induction ids c rule: cw.walk_induct [where m = runs])
    case (seen ids x)
    then show ?case by (simp add: lw.walk_Some cw.walk_Some MAX_CHAIN_DEPTH_def C_MAX_CHAIN_DEPTH_def)
  next
    case (missing ids x)
    then show ?case by (simp add: lw.walk_Some cw.walk_Some abs_ledger_def)
  next
    case (step ids x p)
    then show ?case
      by (auto simp: lw.walk_Some cw.walk_Some MAX_CHAIN_DEPTH_def C_MAX_CHAIN_DEPTH_def abs_lookup simp del: abs_par)
  qed simp
  then show ?thesis by (simp add: chain_def c_chain_def)
qed

lemma abs_map_upd_all:
  assumes "distinct ks" "\<And>x s. runs x = Some s \<Longrightarrow> abs_run (f s) = g (abs_run s)"
  shows "abs_ledger (map_upd_all f ks runs) = map_upd_all g ks (abs_ledger runs)"
proof
  fix x
  show "abs_ledger (map_upd_all f ks runs) x = map_upd_all g ks (abs_ledger runs) x"
    using assms by (cases "runs x") (simp_all add: abs_ledger_def map_folds)
qed

lemma abs_map_upd_at:
  assumes "\<And>s. abs_run (f s) = g (abs_run s)"
  shows "abs_ledger (map_upd_at f k runs) = map_upd_at g k (abs_ledger runs)"
proof
  fix x
  show "abs_ledger (map_upd_at f k runs) x = map_upd_at g k (abs_ledger runs) x"
    using assms by (cases "runs x") (auto simp: abs_ledger_def map_upd_at_apply)
qed

lemma abs_bump: "abs_run (c_bump_steps s) = bump_steps (abs_run s)"
  by (simp add: abs_run_def c_bump_steps_def bump_steps_def)

lemma abs_add_reserved:
  "\<lbrakk>c_spent s + c_reserved s \<le> 2 * c_limit; m \<le> c_limit\<rbrakk> \<Longrightarrow> abs_run (c_add_reserved m s) = add_reserved (int m) (abs_run s)"
  by (simp add: abs_run_def c_add_reserved_def add_reserved_def c_limit_def sat_u64_def u64_max_def
      microusd_add_def wrap_i64_within)

lemma abs_settle_state:
  "\<lbrakk>c_spent s + c_reserved s \<le> 2 * c_limit; res \<le> c_limit; act \<le> c_limit\<rbrakk> \<Longrightarrow>
     abs_run (c_settle_state res act s) = settle_state (int res) (int act) (abs_run s)"
  by (simp add: abs_run_def c_settle_state_def settle_state_def c_limit_def sat_u64_def u64_max_def
      microusd_add_def wrap_i64_within saturating_sub_def sat_i64_def i64_min_def i64_max_def)

lemma abs_level:
  assumes "runs i = Some s" "c_spent s + c_reserved s \<le> 2 * c_limit" "m \<le> c_limit"
  shows "level_exceeded (abs_ledger runs) (int m) i =
      (if c_budget s < c_spent s + c_reserved s + m
       then Some (Exceeded i (int (c_budget s)) (int (c_spent s)) (int (c_spent s + c_reserved s + m))) else None)"
    and "c_level_exceeded runs run m i = None \<longleftrightarrow> \<not> c_budget s < c_spent s + c_reserved s + m"
  using assms
  by (auto simp: level_exceeded_def abs_ledger_def microusd_add_def wrap_i64_within c_limit_def
      c_level_exceeded_def c_committed_def sat_u64_def u64_max_def Let_def)

lemma c_level_fields:
  "c_level_exceeded runs run m i = Some resp \<Longrightarrow>
     \<not> accepted resp \<and> blocked_run resp = Some i \<and> runs i \<noteq> None
     \<and> (\<forall>s. runs i = Some s \<longrightarrow> budget_micros resp = c_budget s \<and> spent_micros resp = c_spent s \<and> reserved_micros resp = c_reserved s)"
  by (auto simp: c_level_exceeded_def Let_def split: option.splits if_splits)

lemma leaf_accepted [simp]: "accepted (leaf_response runs r b) = b"
  by (simp add: leaf_response_def Let_def)

lemma leaf_fields:
  "runs r = Some s \<Longrightarrow> resp_step (leaf_response runs r b) = c_steps s"
  by (simp add: leaf_response_def Let_def)

lemma abs_apply_reserve:
  assumes "in_limits runs" "m \<le> c_limit"
  shows "abs_ledger (map_upd_at c_bump_steps r (map_upd_all (c_add_reserved m) (c_chain runs r) runs)) =
    apply_reserve (abs_ledger runs) r (int m)"
proof -
  have "abs_ledger (map_upd_all (c_add_reserved m) (c_chain runs r) runs) =
      map_upd_all (add_reserved (int m)) (c_chain runs r) (abs_ledger runs)"
    by (rule abs_map_upd_all) (use assms in \<open>auto simp: in_limits_def abs_add_reserved\<close>)
  then show ?thesis
    by (simp add: apply_reserve_def abs_map_upd_at [where g = bump_steps] abs_bump)
qed

text \<open>Both checks scan the chain in the same order and stop at the same level.\<close>
lemma abs_find_exceeded:
  assumes lim: "in_limits runs" "m \<le> c_limit" and known: "\<forall>i\<in>set ids. runs i \<noteq> None"
  shows "rel_option (\<lambda>err resp. \<not> accepted resp \<and> (\<exists>i b s w. err = Exceeded i b s w \<and> blocked_run resp = Some i
      \<and> b = int (budget_micros resp) \<and> s = int (spent_micros resp) \<and> w = int (spent_micros resp + reserved_micros resp + m)))
    (find_map (level_exceeded (abs_ledger runs) (int m)) ids) (find_map (c_level_exceeded runs run m) ids)"
  using known
proof (induction ids)
  case (Cons i ids)
  obtain s where s: "runs i = Some s" using Cons.prems by auto
  have l: "c_spent s + c_reserved s \<le> 2 * c_limit" using lim s by (simp add: in_limits_def)
  note lv = abs_level [where runs = runs and i = i, OF s l lim(2)]
  show ?case
  proof (cases "c_budget s < c_spent s + c_reserved s + m")
    case True
    then obtain resp where r: "c_level_exceeded runs run m i = Some resp" using lv(2) by blast
    show ?thesis using c_level_fields [OF r] s True by (simp add: lv(1) r)
  next
    case False
    then show ?thesis using Cons lv by simp
  qed
qed simp

lemma c_chain_known: "i \<in> set (c_chain runs r) \<Longrightarrow> runs i \<noteq> None"
  using cw.walk_known [of "[]" runs "Some r"] by (auto simp: c_chain_def)

lemma reserve_refines:
  assumes lim: "in_limits runs" and m: "m \<le> c_limit"
  shows "case (apply_request runs (Reserve r m), reserve (abs_ledger runs) r (int m)) of
          ((resp, runs'), (out, l')) \<Rightarrow> abs_ledger runs' = l' \<and>
            (case out of
               Inr v \<Rightarrow> accepted resp \<and> res_step v = resp_step resp
             | Inl (UnknownRun x) \<Rightarrow> \<not> accepted resp \<and> blocked_run resp = Some x
             | Inl (Exceeded i bg sp w) \<Rightarrow> \<not> accepted resp \<and> blocked_run resp = Some i \<and> bg = int (budget_micros resp)
                 \<and> sp = int (spent_micros resp) \<and> w = int (spent_micros resp + reserved_micros resp + m))"
proof -
  let ?f = "find_map (level_exceeded (abs_ledger runs) (int m)) (c_chain runs r)"
  let ?c = "find_map (c_level_exceeded runs r m) (c_chain runs r)"
  have rel: "rel_option (\<lambda>err resp. \<not> accepted resp \<and> (\<exists>i b s w. err = Exceeded i b s w \<and> blocked_run resp = Some i
      \<and> b = int (budget_micros resp) \<and> s = int (spent_micros resp) \<and> w = int (spent_micros resp + reserved_micros resp + m))) ?f ?c"
    by (rule abs_find_exceeded [OF lim m]) (simp add: c_chain_known)
  let ?after = "map_upd_at c_bump_steps r (map_upd_all (c_add_reserved m) (c_chain runs r) runs)"
  note ab = abs_apply_reserve [OF lim m, of r]
  have step: "res_step (reservation_for (apply_reserve (abs_ledger runs) r (int m)) r (int m)) = resp_step (leaf_response ?after r True)"
    if "runs r \<noteq> None"
  proof -
    have "?after r \<noteq> None" using that by (simp add: map_upd_at_apply)
    then obtain t where t: "?after r = Some t" by blast
    then show ?thesis unfolding ab [symmetric] by (simp add: reservation_for_def abs_lookup leaf_fields)
  qed
  show "case (apply_request runs (Reserve r m), reserve (abs_ledger runs) r (int m)) of
          ((resp, runs'), (out, l')) \<Rightarrow> abs_ledger runs' = l' \<and>
            (case out of
               Inr v \<Rightarrow> accepted resp \<and> res_step v = resp_step resp
             | Inl (UnknownRun x) \<Rightarrow> \<not> accepted resp \<and> blocked_run resp = Some x
             | Inl (Exceeded i bg sp w) \<Rightarrow> \<not> accepted resp \<and> blocked_run resp = Some i \<and> bg = int (budget_micros resp)
                 \<and> sp = int (spent_micros resp) \<and> w = int (spent_micros resp + reserved_micros resp + m))"
  proof (cases "runs r = None")
    case True
    then show ?thesis by (simp add: apply_request_def apply_reserve_req_def reserve_def)
  next
    case False
    show ?thesis
    proof (cases ?f)
      case None
      then have c: "?c = None" using rel by (simp del: find_map_None)
      show ?thesis using False None c ab step
        by (simp add: apply_request_def apply_reserve_req_def reserve_def Let_def del: find_map_None)
    next
      case (Some err)
      then obtain resp where c: "?c = Some resp" using rel by (auto simp: option_rel_Some1)
      show ?thesis using False Some c rel
        by (auto simp: apply_request_def apply_reserve_req_def reserve_def Let_def)
    qed
  qed
qed

text \<open>C5: The replicated state machine implements the in-process ledger: in the range where no sum
  overflows, applying a request yields exactly the ledger that the corresponding method of the
  in-process ledger yields; a \<open>Reserve\<close> is accepted exactly when \<open>reserve\<close> grants, with the same
  step number, and a refusal names the same blocked run with the same budget, spend and total.\<close>
theorem apply_refines_ledger:
  assumes "in_limits runs"
  shows "abs_ledger (snd (apply_request runs (Open r b p))) = open_run (abs_ledger runs) r (int b) p
    \<and> (res \<le> c_limit \<and> act \<le> c_limit \<longrightarrow>
        abs_ledger (snd (apply_request runs (Settle r res act))) =
          settle (abs_ledger runs) \<lparr> res_run_id = r, amount = int res, res_step = n \<rparr> (int act))
    \<and> (m \<le> c_limit \<longrightarrow>
        (case (apply_request runs (Reserve r m), reserve (abs_ledger runs) r (int m)) of
          ((resp, runs'), (out, l')) \<Rightarrow> abs_ledger runs' = l' \<and>
            (case out of
               Inr v \<Rightarrow> accepted resp \<and> res_step v = resp_step resp
             | Inl (UnknownRun x) \<Rightarrow> \<not> accepted resp \<and> blocked_run resp = Some x
             | Inl (Exceeded i bg sp w) \<Rightarrow> \<not> accepted resp \<and> blocked_run resp = Some i \<and> bg = int (budget_micros resp)
                 \<and> sp = int (spent_micros resp) \<and> w = int (spent_micros resp + reserved_micros resp + m))))"
proof (intro conjI impI)
  show "abs_ledger (snd (apply_request runs (Open r b p))) = open_run (abs_ledger runs) r (int b) p"
    by (auto simp: apply_request_def apply_open_def open_run_def abs_ledger_def abs_run_def CRunState_default_def
        fresh_run_def ZERO_def fun_eq_iff Let_def split: option.splits)
next
  assume "res \<le> c_limit \<and> act \<le> c_limit"
  then have "abs_ledger (map_upd_all (c_settle_state res act) (c_chain runs r) runs) =
      map_upd_all (settle_state (int res) (int act)) (c_chain runs r) (abs_ledger runs)"
    using assms by (intro abs_map_upd_all) (auto simp: in_limits_def abs_settle_state)
  then show "abs_ledger (snd (apply_request runs (Settle r res act))) =
      settle (abs_ledger runs) \<lparr> res_run_id = r, amount = int res, res_step = n \<rparr> (int act)"
    by (simp add: apply_request_def apply_settle_def settle_def Let_def)
next
  assume "m \<le> c_limit"
  then show "case (apply_request runs (Reserve r m), reserve (abs_ledger runs) r (int m)) of
          ((resp, runs'), (out, l')) \<Rightarrow> abs_ledger runs' = l' \<and>
            (case out of
               Inr v \<Rightarrow> accepted resp \<and> res_step v = resp_step resp
             | Inl (UnknownRun x) \<Rightarrow> \<not> accepted resp \<and> blocked_run resp = Some x
             | Inl (Exceeded i bg sp w) \<Rightarrow> \<not> accepted resp \<and> blocked_run resp = Some i \<and> bg = int (budget_micros resp)
                 \<and> sp = int (spent_micros resp) \<and> w = int (spent_micros resp + reserved_micros resp + m))"
    by (rule reserve_refines [OF assms])
qed

definition demo_cluster :: LedgerState where
  "demo_cluster = [''r'' \<mapsto> CRunState_default\<lparr>c_budget := 10\<rparr>]"

theorem apply_refines_ledger_witness:
  "abs_ledger (snd (apply_request demo_cluster (Open ''r'' 20 None))) = open_run (abs_ledger demo_cluster) ''r'' 20 None
   \<and> abs_ledger (snd (apply_request demo_cluster (Settle ''r'' 3 2))) =
       settle (abs_ledger demo_cluster) \<lparr> res_run_id = ''r'', amount = 3, res_step = 0 \<rparr> 2
   \<and> abs_ledger (snd (apply_request demo_cluster (Reserve ''r'' 5))) = snd (reserve (abs_ledger demo_cluster) ''r'' 5)"
proof -
  have "in_limits demo_cluster" by (simp add: demo_cluster_def in_limits_def CRunState_default_def)
  then show ?thesis
    using apply_refines_ledger [of demo_cluster "''r''" 20 None 3 2 0 5] by (simp add: c_limit_def case_prod_beta)
qed

end
