(* ===== verification/Backend.thy ===== *)
theory Backend
  imports LedgerSafety Cluster
begin

text \<open>
  The ledger authority behind the gateway (\<open>crates/gateway/src/ledger_backend.rs\<close>)
  and its replicated implementation (\<open>crates/gateway/src/raft_ledger.rs\<close>).  The
  trait \<open>LedgerBackend\<close> is the locale \<open>ledger_backend\<close>; \<open>LocalLedger\<close>, the
  default, is its interpretation on the in-process ledger.  What \<open>RaftLedger\<close> gets
  back from consensus (openraft) is the parameter \<open>outcome\<close> of its methods.
\<close>

section \<open>The contract a backend offers the gateway\<close>

locale ledger_backend =
  fixes b_open :: "'s \<Rightarrow> string \<Rightarrow> microusd \<Rightarrow> string option \<Rightarrow> 's"
    and b_reserve :: "'s \<Rightarrow> string \<Rightarrow> microusd \<Rightarrow> (BudgetError, Reservation) result \<times> 's"
    and b_unchecked :: "'s \<Rightarrow> string \<Rightarrow> microusd \<Rightarrow> Reservation \<times> 's"
    and b_snapshot :: "'s \<Rightarrow> string \<Rightarrow> RunSnapshot option"
    and b_settle :: "'s \<Rightarrow> Reservation \<Rightarrow> microusd \<Rightarrow> 's"
  assumes open_snapshot: "\<exists>sn. b_snapshot (b_open s r b p) r = Some sn \<and> budget sn = b"
    and open_others: "x \<noteq> r \<Longrightarrow> b_snapshot (b_open s r b p) x = b_snapshot s x"
    and reserve_refused: "b_reserve s r e = (Inl err, s') \<Longrightarrow> s' = s"
    and reserve_known: "b_reserve s r e = (Inr v, s') \<Longrightarrow>
      res_run_id v = r \<and> amount v = e \<and> (\<exists>sn. b_snapshot s r = Some sn \<and> res_step v = wrap_u32 (steps sn + 1))"
    and reserve_budgets: "b_reserve s r e = (Inr v, s') \<Longrightarrow> map_option budget (b_snapshot s' x) = map_option budget (b_snapshot s x)"
    and unchecked_known: "b_unchecked s r e = (v, s') \<Longrightarrow>
      res_run_id v = r \<and> amount v = e \<and> (\<exists>sn. b_snapshot s' r = Some sn \<and> steps sn = res_step v)"
    and settle_keeps: "map_option (\<lambda>sn. (budget sn, steps sn)) (b_snapshot (b_settle s v a) x) =
      map_option (\<lambda>sn. (budget sn, steps sn)) (b_snapshot s x)"
begin

lemma reserve_step_nonzero:
  "\<lbrakk>b_reserve s r e = (Inr v, s'); b_snapshot s r = Some sn; steps sn < u32_max\<rbrakk> \<Longrightarrow> res_step v = steps sn + 1"
  using reserve_known [of s r e v s'] by (auto simp: wrap_u32_def u32_max_def)

text \<open>Once opened, a run stays visible with its budget through reserve and settle.\<close>
lemma opened_call_visible:
  assumes "s1 = b_open s r b p" "b_reserve s1 r e = (Inr v, s2)"
  shows "\<exists>sn. b_snapshot (b_settle s2 v a) r = Some sn \<and> budget sn = b"
proof -
  have "map_option budget (b_snapshot s2 r) = Some b"
    using reserve_budgets [OF assms(2)] open_snapshot [of s r b p] assms(1) by auto
  then show ?thesis using settle_keeps [of s2 v a r] by (auto simp: map_option_eq_Some)
qed

end

lemma snapshot_None [simp]: "snapshot runs r = None \<longleftrightarrow> runs r = None"
  by (simp add: snapshot_def)

lemma snap_sel [simp]: "budget (snap s) = rs_budget s" "steps (snap s) = rs_steps s"
  "reserved (snap s) = rs_reserved s" "spent (snap s) = rs_spent s"
  by (simp_all add: snap_def)

interpretation local: ledger_backend open_run reserve reserve_unchecked snapshot settle
proof
  fix s r b p
  show "\<exists>sn. snapshot (open_run s r b p) r = Some sn \<and> budget sn = b"
    by (auto simp: snapshot_def open_run_apply split: option.splits)
next
  fix x r s b p
  show "x \<noteq> r \<Longrightarrow> snapshot (open_run s r b p) x = snapshot s x"
    by (simp add: snapshot_def open_run_apply)
next
  fix s r e err s'
  show "reserve s r e = (Inl err, s') \<Longrightarrow> s' = s"
    by (cases rule: reserve_cases [of s r e]) auto
next
  fix s r e v s'
  assume res: "reserve s r e = (Inr v, s')"
  note ok = reserve_ok_effect [OF res]
  then obtain st where st: "s r = Some st" by auto
  then show "res_run_id v = r \<and> amount v = e \<and> (\<exists>sn. snapshot s r = Some sn \<and> res_step v = wrap_u32 (steps sn + 1))"
    using ok by (simp add: snapshot_def apply_reserve_res_step)
next
  fix s r e v s' x
  assume "reserve s r e = (Inr v, s')"
  from reserve_ok_effect [OF this] show "map_option budget (snapshot s' x) = map_option budget (snapshot s x)"
    by (cases "s x") (auto simp: snapshot_def apply_reserve_apply)
next
  fix s r e v s'
  assume un: "reserve_unchecked s r e = (v, s')"
  define s0 where "s0 = (if s r = None then s(r \<mapsto> fresh_run ZERO None) else s)"
  have s': "s' = apply_reserve s0 r e" "v = reservation_for s' r e"
    using un by (auto simp: reserve_unchecked_def Let_def s0_def)
  have "s0 r \<noteq> None" by (simp add: s0_def)
  then obtain st where "s' r = Some st" unfolding s'(1) by (auto simp: apply_reserve_apply)
  then show "res_run_id v = r \<and> amount v = e \<and> (\<exists>sn. snapshot s' r = Some sn \<and> steps sn = res_step v)"
    by (simp add: s'(2) snapshot_def reservation_for_def)
next
  fix s v a x
  show "map_option (\<lambda>sn. (budget sn, steps sn)) (snapshot (settle s v a) x) =
      map_option (\<lambda>sn. (budget sn, steps sn)) (snapshot s x)"
    by (cases "s x") (simp_all add: snapshot_def settle_apply)
qed

section \<open>The replicated backend\<close>

text \<open>What \<open>HttpNode::submit\<close> reports: the committed response, an error with the entry not
  applied, or an error although the entry was committed.\<close>
datatype Outcome = Committed | NotApplied | AppliedUnseen

definition submit :: "Outcome \<Rightarrow> LedgerState \<Rightarrow> Request \<Rightarrow> Response option \<times> LedgerState" where
  "submit outcome st req = (case outcome of
     Committed \<Rightarrow> (case apply_request st req of (resp, st') \<Rightarrow> (Some resp, st'))
   | NotApplied \<Rightarrow> (None, st)
   | AppliedUnseen \<Rightarrow> (None, snd (apply_request st req)))"

definition as_u64_amount :: "microusd \<Rightarrow> u64" where
  "as_u64_amount m = nat (max m 0)"

definition u64_as_i64 :: "u64 \<Rightarrow> i64" where
  "u64_as_i64 n = wrap_i64 (int n)"

definition snap_of :: "CRunState \<Rightarrow> RunSnapshot" where
  "snap_of s = \<lparr> budget = u64_as_i64 (c_budget s), reserved = u64_as_i64 (c_reserved s),
     spent = u64_as_i64 (c_spent s), steps = c_steps s \<rparr>"

definition raft_open_run :: "Outcome \<Rightarrow> LedgerState \<Rightarrow> string \<Rightarrow> microusd \<Rightarrow> string option \<Rightarrow> LedgerState" where
  "raft_open_run outcome st run_id b parent = snd (submit outcome st (Open run_id (as_u64_amount b) parent))"

definition raft_reserve :: "Outcome \<Rightarrow> LedgerState \<Rightarrow> string \<Rightarrow> microusd \<Rightarrow> (BudgetError, Reservation) result \<times> LedgerState" where
  "raft_reserve outcome st run_id estimate =
     (case submit outcome st (Reserve run_id (as_u64_amount estimate)) of
        (Some resp, st') \<Rightarrow>
          (if accepted resp
           then (Inr \<lparr> res_run_id = run_id, amount = estimate, res_step = resp_step resp \<rparr>, st')
           else (Inl (Exceeded (case blocked_run resp of Some b \<Rightarrow> b | None \<Rightarrow> run_id)
                  (u64_as_i64 (budget_micros resp)) (u64_as_i64 (spent_micros resp))
                  (wrap_i64 (u64_as_i64 (wrap_u64 (reserved_micros resp + spent_micros resp)) + max estimate 0))), st'))
      | (None, st') \<Rightarrow> (Inr \<lparr> res_run_id = run_id, amount = estimate, res_step = 0 \<rparr>, st'))"

definition raft_reserve_unchecked :: "Outcome \<Rightarrow> LedgerState \<Rightarrow> string \<Rightarrow> microusd \<Rightarrow> Reservation \<times> LedgerState" where
  "raft_reserve_unchecked outcome st run_id estimate =
     (case submit outcome st (Reserve run_id (as_u64_amount estimate)) of
        (r, st') \<Rightarrow> (\<lparr> res_run_id = run_id, amount = estimate,
          res_step = (case r of Some resp \<Rightarrow> resp_step resp | None \<Rightarrow> 0) \<rparr>, st'))"

definition raft_snapshot :: "LedgerState \<Rightarrow> string \<Rightarrow> RunSnapshot option" where
  "raft_snapshot st run_id = map_option snap_of (st run_id)"

definition raft_list_runs :: "LedgerState \<Rightarrow> (string \<times> RunSnapshot) set" where
  "raft_list_runs st = {(i, snap_of s) |i s. st i = Some s}"

definition raft_settle :: "Outcome \<Rightarrow> LedgerState \<Rightarrow> Reservation \<Rightarrow> microusd \<Rightarrow> LedgerState" where
  "raft_settle outcome st reservation actual =
     snd (submit outcome st (Settle (res_run_id reservation) (as_u64_amount (amount reservation)) (as_u64_amount actual)))"

section \<open>Properties of the replicated backend\<close>

lemma as_u64_amount_nonneg [simp]: "0 \<le> m \<Longrightarrow> int (as_u64_amount m) = m"
  by (simp add: as_u64_amount_def)

text \<open>C7: With consensus reachable, the replicated \<open>reserve\<close> decides exactly as the in-process one
  on the replicated accounts, and the accounts afterwards agree; with consensus unreachable it
  always grants (fails open), and the replicated accounts are then untouched or carry the
  reservation as a committed request.\<close>
theorem raft_reserve_agrees:
  assumes "in_limits st" "0 \<le> e" "e \<le> int c_limit"
  shows "(case (raft_reserve Committed st r e, reserve (abs_ledger st) r e) of
      ((out, st'), (out0, l')) \<Rightarrow> abs_ledger st' = l' \<and>
         (case out of Inr v \<Rightarrow> out0 = Inr v | Inl err \<Rightarrow> (\<exists>err0. out0 = Inl err0)))
    \<and> (outcome \<noteq> Committed \<longrightarrow>
        (\<exists>st'. raft_reserve outcome st r e = (Inr \<lparr> res_run_id = r, amount = e, res_step = 0 \<rparr>, st')
          \<and> st' \<in> {st, snd (apply_request st (Reserve r (as_u64_amount e)))}))"
proof (intro conjI impI)
  define m where "m = as_u64_amount e"
  have m: "m \<le> c_limit" "int m = e" using assms(2,3) by (simp_all add: m_def as_u64_amount_def)
  obtain resp st' where ap: "apply_request st (Reserve r m) = (resp, st')" by (cases "apply_request st (Reserve r m)")
  obtain out l' where re: "reserve (abs_ledger st) r e = (out, l')" by (cases "reserve (abs_ledger st) r e")
  have ref: "abs_ledger st' = l' \<and> (case out of
        Inr v \<Rightarrow> accepted resp \<and> res_step v = resp_step resp
      | Inl (UnknownRun x) \<Rightarrow> \<not> accepted resp \<and> blocked_run resp = Some x
      | Inl (Exceeded i bg sp w) \<Rightarrow> \<not> accepted resp \<and> blocked_run resp = Some i \<and> bg = int (budget_micros resp)
          \<and> sp = int (spent_micros resp) \<and> w = int (spent_micros resp + reserved_micros resp + m))"
    using reserve_refines [OF assms(1) m(1), of r] ap re m(2) by simp
  have grant: "out = Inr v \<Longrightarrow> v = \<lparr> res_run_id = r, amount = e, res_step = res_step v \<rparr>" for v
    using reserve_ok_effect [of "abs_ledger st" r e v l'] re by (simp add: reservation_for_def)
  show "case (raft_reserve Committed st r e, reserve (abs_ledger st) r e) of
      ((out, st'), (out0, l')) \<Rightarrow> abs_ledger st' = l' \<and>
         (case out of Inr v \<Rightarrow> out0 = Inr v | Inl err \<Rightarrow> (\<exists>err0. out0 = Inl err0))"
    using ref grant ap re m_def
    by (auto simp: raft_reserve_def submit_def split: sum.splits BudgetError.splits)
next
  assume "outcome \<noteq> Committed"
  then show "\<exists>st'. raft_reserve outcome st r e = (Inr \<lparr> res_run_id = r, amount = e, res_step = 0 \<rparr>, st')
          \<and> st' \<in> {st, snd (apply_request st (Reserve r (as_u64_amount e)))}"
    by (cases outcome) (simp_all add: raft_reserve_def submit_def)
qed

theorem raft_reserve_agrees_witness:
  "\<exists>st'. raft_reserve NotApplied demo_cluster ''r'' 50 = (Inr \<lparr> res_run_id = ''r'', amount = 50, res_step = 0 \<rparr>, st')"
proof -
  have "in_limits demo_cluster" by (simp add: demo_cluster_def in_limits_def CRunState_default_def)
  then show ?thesis using raft_reserve_agrees [of demo_cluster 50 "''r''" NotApplied] by (auto simp: c_limit_def)
qed

text \<open>The replicated \<open>reserve_unchecked\<close> is not the recording operation its interface promises.
  On a run with budget 10 and an outstanding grant of 8, an unchecked reservation of 5 is refused
  by the state machine and recorded nowhere, yet settling it releases 5 of the other call's 8;
  a checked reservation of 2 is then granted although 5 + 8 + 2 exceeds the budget of 10, while
  the in-process ledger, which records the unchecked 5, refuses it.\<close>
theorem raft_unchecked_releases_others:
  "let (a, s1) = raft_reserve Committed demo_cluster ''r'' 8;
       (b, s2) = raft_reserve_unchecked Committed s1 ''r'' 5;
       s3 = raft_settle Committed s2 b 5;
       (c, s4) = raft_reserve Committed s3 ''r'' 2;
       (a', l1) = reserve (abs_ledger demo_cluster) ''r'' 8;
       (b', l2) = reserve_unchecked l1 ''r'' 5;
       l3 = settle l2 b' 5;
       (c', l4) = reserve l3 ''r'' 2
   in \<not> isl a \<and> s2 ''r'' = s1 ''r'' \<and> amount b = 5 \<and> map_option c_reserved (s3 ''r'') = Some 3
      \<and> \<not> isl c \<and> \<not> isl a' \<and> isl c'"
  by (simp add: raft_reserve_def raft_reserve_unchecked_def raft_settle_def submit_def as_u64_amount_def
      apply_request_def apply_reserve_req_def apply_settle_def demo_cluster_def CRunState_default_def
      c_chain_def c_chain_loop.simps C_MAX_CHAIN_DEPTH_def c_level_exceeded_def c_committed_def sat_u64_def u64_max_def
      map_upd_at_def c_add_reserved_def c_bump_steps_def c_settle_state_def leaf_response_def
      reserve_def reserve_unchecked_def chain_def chain_loop.simps MAX_CHAIN_DEPTH_def abs_ledger_def abs_run_def
      level_exceeded_def apply_reserve_def reservation_for_def settle_def settle_state_def
      saturating_sub_def sat_i64_def i64_min_def i64_max_def microusd_add_def wrap_i64_def Let_def
      add_reserved_def bump_steps_def wrap_u32_def del: find_map_None abs_None abs_par abs_chain)

end
