(* ===== verification/UnitLedger.thy ===== *)
theory UnitLedger
  imports Money Timefmt
begin

text \<open>
  Per-business-unit monthly budgets (\<open>crates/gateway/src/unitledger.rs\<close>): caps from
  the identity map with central overrides, counters that roll over lazily with the
  UTC month, reserve and settle under one lock.  The wall clock is an argument.
\<close>

definition DAY_MILLIS :: i64 where "DAY_MILLIS = 86400000"

text \<open>The second, inlined copy of the calendar algorithm, with its own rounding of negative eras.\<close>
definition month_key :: "i64 \<Rightarrow> string" where
  "month_key ts_millis =
     (let days = ts_millis div DAY_MILLIS;
          z = days + 719468;
          era = tdiv (if z \<ge> 0 then z else z - 146096) 146097;
          doe = z - era * 146097;
          yoe = (doe - doe div 1460 + doe div 36524 - doe div 146096) div 365;
          y = yoe + era * 400;
          doy = doe - (365 * yoe + yoe div 4 - yoe div 100);
          mp = (5 * doy + 2) div 153;
          m = (if mp < 10 then mp + 3 else mp - 9);
          y = (if m \<le> 2 then y + 1 else y)
      in year_str y @ ''-'' @ two m)"

record UnitReservation =
  ur_unit :: string
  ur_amount :: microusd
  ur_window :: string

record UnitExceeded =
  ue_unit :: string
  ue_budget :: microusd
  ue_spent :: microusd

record UnitState =
  us_window :: string
  us_reserved :: microusd
  us_spent :: microusd

record UnitLedger =
  base :: "string \<rightharpoonup> microusd"
  overrides :: "string \<rightharpoonup> microusd"
  ustate :: "string \<rightharpoonup> UnitState"

definition unit_ledger_new :: "(string \<rightharpoonup> microusd) \<Rightarrow> UnitLedger" where
  "unit_ledger_new b = \<lparr> base = b, overrides = Map.empty, ustate = Map.empty \<rparr>"

definition set_overrides :: "UnitLedger \<Rightarrow> (string \<rightharpoonup> microusd) \<Rightarrow> UnitLedger" where
  "set_overrides l ov = l\<lparr>overrides := ov\<rparr>"

definition effective_cap :: "UnitLedger \<Rightarrow> string \<Rightarrow> microusd option" where
  "effective_cap l u = (case overrides l u of Some v \<Rightarrow> Some v | None \<Rightarrow> base l u)"

definition fresh_unit :: "string \<Rightarrow> UnitState" where
  "fresh_unit w = \<lparr> us_window = w, us_reserved = ZERO, us_spent = ZERO \<rparr>"

text \<open>The entry as \<open>rolled\<close> leaves it.\<close>
definition rolled :: "(string \<rightharpoonup> UnitState) \<Rightarrow> string \<Rightarrow> string \<Rightarrow> UnitState" where
  "rolled st u now_window = (case st u of
     None \<Rightarrow> fresh_unit now_window
   | Some s \<Rightarrow> if us_window s \<noteq> now_window
       then s\<lparr>us_window := now_window, us_reserved := ZERO, us_spent := ZERO\<rparr> else s)"

definition try_reserve :: "UnitLedger \<Rightarrow> string \<Rightarrow> microusd \<Rightarrow> i64 \<Rightarrow>
    (UnitExceeded, UnitReservation option) result \<times> UnitLedger" where
  "try_reserve l u estimate now_millis = (case effective_cap l u of
     None \<Rightarrow> (Inr None, l)
   | Some cap \<Rightarrow>
       let w = month_key now_millis;
           s = rolled (ustate l) u w;
           would = microusd_add (microusd_add (us_spent s) (us_reserved s)) estimate
       in if would > cap
          then (Inl \<lparr> ue_unit = u, ue_budget = cap, ue_spent = us_spent s \<rparr>, l\<lparr>ustate := (ustate l)(u \<mapsto> s)\<rparr>)
          else (Inr (Some \<lparr> ur_unit = u, ur_amount = estimate, ur_window = w \<rparr>),
                l\<lparr>ustate := (ustate l)(u \<mapsto> s\<lparr>us_reserved := microusd_add (us_reserved s) estimate\<rparr>)\<rparr>))"

definition unit_reserve_unchecked :: "UnitLedger \<Rightarrow> string \<Rightarrow> microusd \<Rightarrow> i64 \<Rightarrow> UnitReservation option \<times> UnitLedger" where
  "unit_reserve_unchecked l u estimate now_millis = (case effective_cap l u of
     None \<Rightarrow> (None, l)
   | Some cap \<Rightarrow>
       let w = month_key now_millis; s = rolled (ustate l) u w
       in (Some \<lparr> ur_unit = u, ur_amount = estimate, ur_window = w \<rparr>,
           l\<lparr>ustate := (ustate l)(u \<mapsto> s\<lparr>us_reserved := microusd_add (us_reserved s) estimate\<rparr>)\<rparr>))"

definition unit_settle :: "UnitLedger \<Rightarrow> UnitReservation \<Rightarrow> microusd \<Rightarrow> i64 \<Rightarrow> UnitLedger" where
  "unit_settle l v actual now_millis =
     (if ur_window v \<noteq> month_key now_millis then l
      else case ustate l (ur_unit v) of
        None \<Rightarrow> l
      | Some s \<Rightarrow> if us_window s \<noteq> ur_window v then l
          else l\<lparr>ustate := (ustate l)(ur_unit v \<mapsto>
            s\<lparr>us_reserved := saturating_sub (us_reserved s) (ur_amount v), us_spent := microusd_add (us_spent s) actual\<rparr>)\<rparr>)"

definition unit_spent :: "UnitLedger \<Rightarrow> string \<Rightarrow> i64 \<Rightarrow> microusd" where
  "unit_spent l u now_millis = (case ustate l u of
     Some s \<Rightarrow> if us_window s = month_key now_millis then us_spent s else ZERO
   | None \<Rightarrow> ZERO)"

section \<open>The window key\<close>

lemma era_rounding: "tdiv (if z \<ge> 0 then z else z - 146096) 146097 = z div (146097 :: int)"
proof (cases "0 \<le> z")
  case True
  then show ?thesis by (simp add: tdiv_nonneg)
next
  case False
  then have "tdiv (z - 146096) 146097 = - ((146096 - z) div 146097)"
    by (simp add: tdiv_def sgn_if abs_if)
  also have "(146096 - z) div 146097 = - (z div 146097)"
  proof -
    define q r where "q = z div 146097" and "r = z mod 146097"
    have "z = 146097 * q + r" "0 \<le> r" "r < 146097" by (simp_all add: q_def r_def)
    then have "(146096 - z) div 146097 = - q" by (intro div_int_eqI) simp_all
    then show ?thesis by (simp add: q_def)
  qed
  finally show ?thesis using False by simp
qed

lemma month_key_month_str: "month_key ts = month_str (ts div DAY_MILLIS)"
proof -
  have doe: "z - z div 146097 * 146097 = z mod 146097" for z :: int
    by (simp add: minus_div_mult_eq_mod)
  show ?thesis
    unfolding month_key_def month_str_def civil_from_days_def Let_def era_rounding doe
    by (simp only: prod.case)
qed

lemma month_key_convex:
  "\<lbrakk>a \<le> b; b \<le> c; month_key a = month_key c\<rbrakk> \<Longrightarrow> month_key b = month_key a"
  unfolding month_key_month_str
  by (rule month_str_convex) (auto intro: zdiv_mono1 simp: DAY_MILLIS_def)

section \<open>The step system\<close>

text \<open>
  The ledger with its callers: the reservations handed out and not yet settled, each with the time
  it was taken; the time each unit was last touched and the clock; and two ghosts per unit and
  month, the largest cap in force when a reservation was granted, and the slack the callers
  introduced themselves (amounts reserved unchecked, actual costs above their reservation).
\<close>

record usys =
  ul :: UnitLedger
  uout :: "(UnitReservation \<times> int) list"
  touched :: "string \<Rightarrow> int"
  clock :: int
  ucap :: "string \<Rightarrow> string \<Rightarrow> int"
  uslack :: "string \<Rightarrow> string \<Rightarrow> int"

definition u_headroom :: int where "u_headroom = 2305843009213693952"

definition upd2 :: "(string \<Rightarrow> string \<Rightarrow> int) \<Rightarrow> string \<Rightarrow> string \<Rightarrow> int \<Rightarrow> string \<Rightarrow> string \<Rightarrow> int" where
  "upd2 f u w n = f(u := (f u)(w := n))"

lemma upd2_apply [simp]: "upd2 f u w n u' w' = (if u' = u \<and> w' = w then n else f u' w')"
  by (simp add: upd2_def)

text \<open>What a settlement charges beyond its reservation; one that comes after its month is dropped by the ledger.\<close>
definition excess :: "UnitReservation \<Rightarrow> int \<Rightarrow> i64 \<Rightarrow> int" where
  "excess v a t = (if ur_window v = month_key t then max 0 (a - ur_amount v) else 0)"

inductive ustep :: "usys \<Rightarrow> usys \<Rightarrow> bool" where
  granted: "\<lbrakk>clock \<sigma> \<le> t; try_reserve (ul \<sigma>) u e t = (Inr (Some v), l'); 0 \<le> e; e \<le> u_headroom;
      effective_cap (ul \<sigma>) u = Some c; c \<le> u_headroom\<rbrakk> \<Longrightarrow>
    ustep \<sigma> (\<sigma>\<lparr>ul := l', uout := (v, t) # uout \<sigma>, touched := (touched \<sigma>)(u := t), clock := t,
      ucap := upd2 (ucap \<sigma>) u (month_key t) (max c (ucap \<sigma> u (month_key t)))\<rparr>)"
| uncapped: "\<lbrakk>clock \<sigma> \<le> t; try_reserve (ul \<sigma>) u e t = (Inr None, l')\<rbrakk> \<Longrightarrow> ustep \<sigma> (\<sigma>\<lparr>ul := l', clock := t\<rparr>)"
| refused: "\<lbrakk>clock \<sigma> \<le> t; try_reserve (ul \<sigma>) u e t = (Inl x, l')\<rbrakk> \<Longrightarrow>
    ustep \<sigma> (\<sigma>\<lparr>ul := l', touched := (touched \<sigma>)(u := t), clock := t\<rparr>)"
| forced: "\<lbrakk>clock \<sigma> \<le> t; unit_reserve_unchecked (ul \<sigma>) u e t = (Some v, l'); 0 \<le> e;
      uslack \<sigma> u (month_key t) + e \<le> u_headroom\<rbrakk> \<Longrightarrow>
    ustep \<sigma> (\<sigma>\<lparr>ul := l', uout := (v, t) # uout \<sigma>, touched := (touched \<sigma>)(u := t), clock := t,
      uslack := upd2 (uslack \<sigma>) u (month_key t) (uslack \<sigma> u (month_key t) + e)\<rparr>)"
| forced_uncapped: "\<lbrakk>clock \<sigma> \<le> t; unit_reserve_unchecked (ul \<sigma>) u e t = (None, l')\<rbrakk> \<Longrightarrow>
    ustep \<sigma> (\<sigma>\<lparr>ul := l', clock := t\<rparr>)"
| settled: "\<lbrakk>clock \<sigma> \<le> t; (v, tv) \<in> set (uout \<sigma>); 0 \<le> a;
      uslack \<sigma> (ur_unit v) (ur_window v) + excess v a t \<le> u_headroom\<rbrakk> \<Longrightarrow>
    ustep \<sigma> (\<sigma>\<lparr>ul := unit_settle (ul \<sigma>) v a t, uout := remove1 (v, tv) (uout \<sigma>), clock := t,
      uslack := upd2 (uslack \<sigma>) (ur_unit v) (ur_window v) (uslack \<sigma> (ur_unit v) (ur_window v) + excess v a t)\<rparr>)"
| overridden: "clock \<sigma> \<le> t \<Longrightarrow> ustep \<sigma> (\<sigma>\<lparr>ul := set_overrides (ul \<sigma>) ov, clock := t\<rparr>)"

inductive ureach :: "usys \<Rightarrow> bool" where
  init: "ureach \<lparr> ul = unit_ledger_new caps, uout = [], touched = (\<lambda>_. t), clock = t, ucap = (\<lambda>_ _. 0), uslack = (\<lambda>_ _. 0) \<rparr>"
| step: "\<lbrakk>ureach \<sigma>; ustep \<sigma> \<sigma>'\<rbrakk> \<Longrightarrow> ureach \<sigma>'"

text \<open>Outstanding reservations of a unit in a given window.\<close>
definition held :: "(UnitReservation \<times> int) list \<Rightarrow> string \<Rightarrow> string \<Rightarrow> int" where
  "held vs u w = sum_list (map (\<lambda>(v, _). if ur_unit v = u \<and> ur_window v = w then ur_amount v else 0) vs)"

definition res_ok :: "usys \<Rightarrow> UnitReservation \<times> int \<Rightarrow> bool" where
  "res_ok \<sigma> x \<longleftrightarrow> (case x of (v, tv) \<Rightarrow> 0 \<le> ur_amount v \<and> ur_window v = month_key tv
     \<and> tv \<le> touched \<sigma> (ur_unit v) \<and> ustate (ul \<sigma>) (ur_unit v) \<noteq> None)"

definition unit_ok :: "usys \<Rightarrow> string \<Rightarrow> UnitState \<Rightarrow> bool" where
  "unit_ok \<sigma> u s \<longleftrightarrow> touched \<sigma> u \<le> clock \<sigma> \<and> us_window s = month_key (touched \<sigma> u)
     \<and> held (uout \<sigma>) u (us_window s) \<le> us_reserved s
     \<and> (us_window s = month_key (clock \<sigma>) \<longrightarrow> us_reserved s = held (uout \<sigma>) u (us_window s))
     \<and> 0 \<le> us_spent s
     \<and> us_spent s + us_reserved s \<le> ucap \<sigma> u (us_window s) + uslack \<sigma> u (us_window s)"

definition ghosts_ok :: "usys \<Rightarrow> bool" where
  "ghosts_ok \<sigma> \<longleftrightarrow> (\<forall>u w. 0 \<le> ucap \<sigma> u w \<and> ucap \<sigma> u w \<le> u_headroom \<and> 0 \<le> uslack \<sigma> u w \<and> uslack \<sigma> u w \<le> u_headroom)"

definition uinv :: "usys \<Rightarrow> bool" where
  "uinv \<sigma> \<longleftrightarrow> ghosts_ok \<sigma> \<and> (\<forall>x\<in>set (uout \<sigma>). res_ok \<sigma> x) \<and> (\<forall>u s. ustate (ul \<sigma>) u = Some s \<longrightarrow> unit_ok \<sigma> u s)"

lemma uinv_unit: "\<lbrakk>uinv \<sigma>; ustate (ul \<sigma>) u = Some s\<rbrakk> \<Longrightarrow> unit_ok \<sigma> u s"
  by (simp add: uinv_def)

lemma uinv_res: "\<lbrakk>uinv \<sigma>; (v, tv) \<in> set (uout \<sigma>)\<rbrakk> \<Longrightarrow>
  0 \<le> ur_amount v \<and> ur_window v = month_key tv \<and> tv \<le> touched \<sigma> (ur_unit v) \<and> ustate (ul \<sigma>) (ur_unit v) \<noteq> None"
  unfolding uinv_def res_ok_def by fastforce

lemma uinv_ghosts: "uinv \<sigma> \<Longrightarrow> 0 \<le> ucap \<sigma> u w \<and> ucap \<sigma> u w \<le> u_headroom \<and> 0 \<le> uslack \<sigma> u w \<and> uslack \<sigma> u w \<le> u_headroom"
  by (simp add: uinv_def ghosts_ok_def)

lemma uinvI:
  assumes "ghosts_ok \<sigma>'"
    "\<And>v tv. (v, tv) \<in> set (uout \<sigma>') \<Longrightarrow> 0 \<le> ur_amount v \<and> ur_window v = month_key tv
      \<and> tv \<le> touched \<sigma>' (ur_unit v) \<and> ustate (ul \<sigma>') (ur_unit v) \<noteq> None"
    "\<And>u s. ustate (ul \<sigma>') u = Some s \<Longrightarrow> unit_ok \<sigma>' u s"
  shows "uinv \<sigma>'"
  using assms unfolding uinv_def res_ok_def by auto

lemma held_Cons: "held ((v, t) # vs) u w = (if ur_unit v = u \<and> ur_window v = w then ur_amount v else 0) + held vs u w"
  by (simp add: held_def)

lemma held_nonneg: "\<forall>(v, tv)\<in>set vs. 0 \<le> ur_amount v \<Longrightarrow> 0 \<le> held vs u w"
  unfolding held_def by (rule sum_list_nonneg) auto

lemma held_remove1:
  "(v, tv) \<in> set vs \<Longrightarrow> held (remove1 (v, tv) vs) u w =
     held vs u w - (if ur_unit v = u \<and> ur_window v = w then ur_amount v else 0)"
  unfolding held_def by (subst sum_list_remove1) auto

lemma held_member:
  "\<lbrakk>(v, tv) \<in> set vs; \<forall>(v, tv)\<in>set vs. 0 \<le> ur_amount v\<rbrakk> \<Longrightarrow> ur_amount v \<le> held vs (ur_unit v) (ur_window v)"
  unfolding held_def
  using sum_list_nonneg_member [of "(v, tv)" vs "\<lambda>(x, _). if ur_unit x = ur_unit v \<and> ur_window x = ur_window v then ur_amount x else 0"]
  by fastforce

lemma held_none: "\<lbrakk>\<And>v tv. (v, tv) \<in> set vs \<Longrightarrow> ur_unit v = u \<Longrightarrow> ur_window v \<noteq> w\<rbrakk> \<Longrightarrow> held vs u w = 0"
  unfolding held_def by (induction vs) (auto split: prod.splits)

lemma uinv_amounts: "uinv \<sigma> \<Longrightarrow> \<forall>(v, tv)\<in>set (uout \<sigma>). 0 \<le> ur_amount v"
  using uinv_res by blast

lemma uinv_touched_clock: "\<lbrakk>uinv \<sigma>; (v, tv) \<in> set (uout \<sigma>)\<rbrakk> \<Longrightarrow> tv \<le> clock \<sigma>"
  using uinv_res [of \<sigma> v tv] uinv_unit [of \<sigma> "ur_unit v"] by (force simp: unit_ok_def)

section \<open>Every step keeps the invariant\<close>

text \<open>After rolling to the current month, the unit's counters describe that month.\<close>
lemma rolled_ok:
  fixes u :: string
  assumes inv: "uinv \<sigma>" and t: "clock \<sigma> \<le> t"
  defines "s \<equiv> rolled (ustate (ul \<sigma>)) u (month_key t)"
  shows "us_window s = month_key t \<and> us_reserved s = held (uout \<sigma>) u (month_key t) \<and> 0 \<le> us_spent s
    \<and> us_spent s + us_reserved s \<le> ucap \<sigma> u (month_key t) + uslack \<sigma> u (month_key t)"
proof (cases "ustate (ul \<sigma>) u")
  case None
  then have "held (uout \<sigma>) u (month_key t) = 0"
    using uinv_res [OF inv] None by (intro held_none) blast
  then show ?thesis using None uinv_ghosts [OF inv, of u "month_key t"] by (simp add: s_def rolled_def fresh_unit_def ZERO_def)
next
  case (Some s0)
  have s0: "touched \<sigma> u \<le> clock \<sigma>" "us_window s0 = month_key (touched \<sigma> u)"
    "us_window s0 = month_key (clock \<sigma>) \<longrightarrow> us_reserved s0 = held (uout \<sigma>) u (us_window s0)"
    "0 \<le> us_spent s0" "us_spent s0 + us_reserved s0 \<le> ucap \<sigma> u (us_window s0) + uslack \<sigma> u (us_window s0)"
    using uinv_unit [OF inv Some] unfolding unit_ok_def by blast+
  show ?thesis
  proof (cases "us_window s0 = month_key t")
    case True
    then have "month_key (clock \<sigma>) = month_key t"
      using month_key_convex [OF s0(1) t] s0(2) by simp
    then show ?thesis using s0 Some True by (simp add: s_def rolled_def)
  next
    case False
    have "held (uout \<sigma>) u (month_key t) = 0"
    proof (rule held_none)
      fix v tv
      assume v: "(v, tv) \<in> set (uout \<sigma>)" "ur_unit v = u"
      then have "ur_window v = month_key tv" "tv \<le> touched \<sigma> u" using uinv_res [OF inv v(1)] by auto
      then show "ur_window v \<noteq> month_key t"
        using month_key_convex [of tv "touched \<sigma> u" t] False s0(1,2) t by auto
    qed
    then show ?thesis using False Some uinv_ghosts [OF inv, of u "month_key t"] by (simp add: s_def rolled_def ZERO_def)
  qed
qed

text \<open>The rolled counters of a reachable state leave room for one more amount.\<close>
lemma rolled_no_wrap:
  fixes u :: string
  assumes inv: "uinv \<sigma>" and t: "clock \<sigma> \<le> t" and e: "0 \<le> e" "e \<le> u_headroom"
  defines "s \<equiv> rolled (ustate (ul \<sigma>)) u (month_key t)"
  shows "microusd_add (microusd_add (us_spent s) (us_reserved s)) e = us_spent s + us_reserved s + e"
    "microusd_add (us_reserved s) e = us_reserved s + e"
  using rolled_ok [OF inv t, of u, folded s_def] uinv_ghosts [OF inv, of u "month_key t"]
    held_nonneg [OF uinv_amounts [OF inv], of u "month_key t"] e
  by (simp_all add: microusd_add_def wrap_i64_within u_headroom_def)

text \<open>One lemma for the steps that touch a unit: its counters rolled, \<open>d\<close> more reserved.\<close>
lemma uinv_touch:
  assumes inv: "uinv \<sigma>" and t: "clock \<sigma> \<le> t"
    and d: "0 \<le> d" "us_spent s + us_reserved s + d \<le> ucap \<sigma>' u (month_key t) + uslack \<sigma>' u (month_key t)"
    and s: "s = rolled (ustate (ul \<sigma>)) u (month_key t)"
    and st: "ustate (ul \<sigma>') = (ustate (ul \<sigma>))(u \<mapsto> s\<lparr>us_reserved := us_reserved s + d\<rparr>)"
    and out: "d = 0 \<and> uout \<sigma>' = uout \<sigma> \<or>
      uout \<sigma>' = (\<lparr> ur_unit = u, ur_amount = d, ur_window = month_key t \<rparr>, t) # uout \<sigma>"
    and time: "touched \<sigma>' = (touched \<sigma>)(u := t)" "clock \<sigma>' = t"
    and gh: "ghosts_ok \<sigma>'" "\<And>u w. ucap \<sigma> u w \<le> ucap \<sigma>' u w" "\<And>u w. uslack \<sigma> u w \<le> uslack \<sigma>' u w"
  shows "uinv \<sigma>'"
proof (rule uinvI [OF gh(1)])
  fix x tx
  assume "(x, tx) \<in> set (uout \<sigma>')"
  then consider "(x, tx) \<in> set (uout \<sigma>)" | "x = \<lparr> ur_unit = u, ur_amount = d, ur_window = month_key t \<rparr>" "tx = t"
    using out by auto
  then show "0 \<le> ur_amount x \<and> ur_window x = month_key tx \<and> tx \<le> touched \<sigma>' (ur_unit x) \<and> ustate (ul \<sigma>') (ur_unit x) \<noteq> None"
  proof cases
    case 1
    then show ?thesis using uinv_res [OF inv 1] uinv_touched_clock [OF inv 1] t by (simp add: st time)
  next
    case 2
    then show ?thesis using d by (simp add: st time)
  qed
next
  fix u' s'
  assume u': "ustate (ul \<sigma>') u' = Some s'"
  note r = rolled_ok [OF inv t, of u, folded s]
  have held_u: "held (uout \<sigma>') u (month_key t) = held (uout \<sigma>) u (month_key t) + d"
    using out by (auto simp: held_Cons)
  show "unit_ok \<sigma>' u' s'"
  proof (cases "u' = u")
    case True
    then have "s' = s\<lparr>us_reserved := us_reserved s + d\<rparr>" using u' st by simp
    then show ?thesis using True r d held_u by (simp add: unit_ok_def time)
  next
    case False
    then have s': "ustate (ul \<sigma>) u' = Some s'" using u' st by simp
    note ok = uinv_unit [OF inv s', unfolded unit_ok_def]
    have h: "held (uout \<sigma>') u' (us_window s') = held (uout \<sigma>) u' (us_window s')"
      using out False by (auto simp: held_Cons)
    have "us_window s' = month_key t \<longrightarrow> us_window s' = month_key (clock \<sigma>)"
      using month_key_convex [of "touched \<sigma> u'" "clock \<sigma>" t] ok t by auto
    then show ?thesis
      using ok False h t gh(2,3) [of u' "us_window s'"] by (auto simp: unit_ok_def time)
  qed
qed

lemma uinv_later:
  assumes inv: "uinv \<sigma>" and t: "clock \<sigma> \<le> t" and l: "ustate l' = ustate (ul \<sigma>)"
  shows "uinv (\<sigma>\<lparr>ul := l', clock := t\<rparr>)"
proof (rule uinvI)
  fix u s
  assume "ustate (ul (\<sigma>\<lparr>ul := l', clock := t\<rparr>)) u = Some s"
  then have ok: "unit_ok \<sigma> u s" using uinv_unit [OF inv] l by simp
  then have "us_window s = month_key t \<longrightarrow> us_window s = month_key (clock \<sigma>)"
    using month_key_convex [of "touched \<sigma> u" "clock \<sigma>" t] t by (auto simp: unit_ok_def)
  then show "unit_ok (\<sigma>\<lparr>ul := l', clock := t\<rparr>) u s" using ok t by (auto simp: unit_ok_def)
qed (use uinv_res [OF inv] uinv_ghosts [OF inv] l in \<open>auto simp: ghosts_ok_def\<close>)

text \<open>A settlement that is dropped leaves only counters of an earlier month behind.\<close>
lemma uinv_settled_late:
  assumes inv: "uinv \<sigma>" and t: "clock \<sigma> \<le> t" and v: "(v, tv) \<in> set (uout \<sigma>)" and w: "ur_window v \<noteq> month_key t"
  shows "uinv (\<sigma>\<lparr>uout := remove1 (v, tv) (uout \<sigma>), clock := t\<rparr>)" (is "uinv ?\<sigma>")
proof (rule uinvI)
  show "ghosts_ok ?\<sigma>" using uinv_ghosts [OF inv] by (simp add: ghosts_ok_def)
next
  fix x tx
  assume "(x, tx) \<in> set (uout ?\<sigma>)"
  then have "(x, tx) \<in> set (uout \<sigma>)" using set_remove1_subset [of "(v, tv)" "uout \<sigma>"] by auto
  then show "0 \<le> ur_amount x \<and> ur_window x = month_key tx \<and> tx \<le> touched ?\<sigma> (ur_unit x) \<and> ustate (ul ?\<sigma>) (ur_unit x) \<noteq> None"
    using uinv_res [OF inv] by simp
next
  fix u s
  assume s: "ustate (ul ?\<sigma>) u = Some s"
  then have ok: "unit_ok \<sigma> u s" using uinv_unit [OF inv] by simp
  have h: "held (remove1 (v, tv) (uout \<sigma>)) u (us_window s) \<le> held (uout \<sigma>) u (us_window s)"
    using held_remove1 [OF v, of u "us_window s"] uinv_res [OF inv v] by (simp split: if_splits)
  have "us_window s = month_key t \<longrightarrow> us_window s = month_key (clock \<sigma>)
      \<and> held (remove1 (v, tv) (uout \<sigma>)) u (us_window s) = held (uout \<sigma>) u (us_window s)"
    using month_key_convex [of "touched \<sigma> u" "clock \<sigma>" t] ok t w held_remove1 [OF v, of u "us_window s"]
    by (auto simp: unit_ok_def)
  then show "unit_ok ?\<sigma> u s" using ok h t by (auto simp: unit_ok_def)
qed

text \<open>A settlement within its month finds the counters of that month.\<close>
lemma settle_in_month:
  assumes inv: "uinv \<sigma>" and t: "clock \<sigma> \<le> t" and v: "(v, tv) \<in> set (uout \<sigma>)" and w: "ur_window v = month_key t"
  obtains s where "ustate (ul \<sigma>) (ur_unit v) = Some s" "us_window s = month_key t" "month_key (clock \<sigma>) = month_key t"
proof -
  obtain s where s: "ustate (ul \<sigma>) (ur_unit v) = Some s" using uinv_res [OF inv v] by auto
  have ok: "touched \<sigma> (ur_unit v) \<le> clock \<sigma>" "us_window s = month_key (touched \<sigma> (ur_unit v))"
    using uinv_unit [OF inv s] by (simp_all add: unit_ok_def)
  have tv: "tv \<le> touched \<sigma> (ur_unit v)" "month_key tv = month_key t" using uinv_res [OF inv v] w by auto
  have "month_key (touched \<sigma> (ur_unit v)) = month_key t" "month_key (clock \<sigma>) = month_key t"
    using month_key_convex [of tv "touched \<sigma> (ur_unit v)" t] month_key_convex [of tv "clock \<sigma>" t] tv ok(1) t by auto
  then show thesis using that s ok(2) by simp
qed

lemma uinv_settled:
  assumes inv: "uinv \<sigma>" and t: "clock \<sigma> \<le> t" and v: "(v, tv) \<in> set (uout \<sigma>)" and a: "0 \<le> a"
    and w: "ur_window v = month_key t" and ex: "x = max 0 (a - ur_amount v)"
    and room: "uslack \<sigma> (ur_unit v) (month_key t) + x \<le> u_headroom"
  shows "uinv (\<sigma>\<lparr>ul := unit_settle (ul \<sigma>) v a t, uout := remove1 (v, tv) (uout \<sigma>), clock := t,
      uslack := upd2 (uslack \<sigma>) (ur_unit v) (month_key t) (uslack \<sigma> (ur_unit v) (month_key t) + x)\<rparr>)" (is "uinv ?\<sigma>")
proof -
  obtain s where s: "ustate (ul \<sigma>) (ur_unit v) = Some s" "us_window s = month_key t" "month_key (clock \<sigma>) = month_key t"
    by (rule settle_in_month [OF inv t v w])
  note ok = uinv_unit [OF inv s(1), unfolded unit_ok_def]
  have am: "0 \<le> ur_amount v" "ur_amount v \<le> us_reserved s"
    using held_member [OF v uinv_amounts [OF inv]] uinv_res [OF inv v] ok w s(2) by auto
  have arith: "saturating_sub (us_reserved s) (ur_amount v) = us_reserved s - ur_amount v"
    "microusd_add (us_spent s) a = us_spent s + a"
    using ok am a ex room s(2) uinv_ghosts [OF inv, of "ur_unit v" "month_key t"]
    by (auto simp: saturating_sub_def sat_i64_def i64_min_def i64_max_def microusd_add_def wrap_i64_within u_headroom_def)
  have st: "unit_settle (ul \<sigma>) v a t = (ul \<sigma>)\<lparr>ustate := (ustate (ul \<sigma>))(ur_unit v \<mapsto>
      s\<lparr>us_reserved := us_reserved s - ur_amount v, us_spent := us_spent s + a\<rparr>)\<rparr>"
    using s w by (simp add: unit_settle_def arith)
  show ?thesis
  proof (rule uinvI)
    show "ghosts_ok ?\<sigma>" using uinv_ghosts [OF inv] room ex by (auto simp: ghosts_ok_def)
  next
    fix y ty
    assume "(y, ty) \<in> set (uout ?\<sigma>)"
    then have "(y, ty) \<in> set (uout \<sigma>)" using set_remove1_subset [of "(v, tv)" "uout \<sigma>"] by auto
    then show "0 \<le> ur_amount y \<and> ur_window y = month_key ty \<and> ty \<le> touched ?\<sigma> (ur_unit y) \<and> ustate (ul ?\<sigma>) (ur_unit y) \<noteq> None"
      using uinv_res [OF inv] by (simp add: st)
  next
    fix u' s'
    assume u': "ustate (ul ?\<sigma>) u' = Some s'"
    have h: "held (remove1 (v, tv) (uout \<sigma>)) u' k = held (uout \<sigma>) u' k - (if ur_unit v = u' \<and> ur_window v = k then ur_amount v else 0)" for k
      by (rule held_remove1 [OF v])
    show "unit_ok ?\<sigma> u' s'"
    proof (cases "u' = ur_unit v")
      case True
      then have "s' = s\<lparr>us_reserved := us_reserved s - ur_amount v, us_spent := us_spent s + a\<rparr>" using u' st by simp
      then show ?thesis using True ok s t h w a ex by (auto simp: unit_ok_def)
    next
      case False
      then have "unit_ok \<sigma> u' s'" using u' uinv_unit [OF inv] st by simp
      then show ?thesis using False h t s(3) by (auto simp: unit_ok_def)
    qed
  qed
qed

lemma uinv_step: "ustep \<sigma> \<sigma>' \<Longrightarrow> uinv \<sigma> \<Longrightarrow> uinv \<sigma>'"
proof (induction rule: ustep.induct)
  case (granted \<sigma> t u e v l' c)
  define s where "s = rolled (ustate (ul \<sigma>)) u (month_key t)"
  note nw = rolled_no_wrap [OF granted.prems granted.hyps(1,3,4), of u, folded s_def]
  have res: "us_spent s + us_reserved s + e \<le> c" "v = \<lparr> ur_unit = u, ur_amount = e, ur_window = month_key t \<rparr>"
    "l' = (ul \<sigma>)\<lparr>ustate := (ustate (ul \<sigma>))(u \<mapsto> s\<lparr>us_reserved := us_reserved s + e\<rparr>)\<rparr>"
    using granted.hyps(2,5) nw by (auto simp: try_reserve_def Let_def s_def [symmetric] split: if_splits)
  have sl: "0 \<le> uslack \<sigma> u (month_key t)" using uinv_ghosts [OF granted.prems] by simp
  have "0 \<le> us_spent s + us_reserved s"
    using rolled_ok [OF granted.prems granted.hyps(1), of u, folded s_def] held_nonneg [OF uinv_amounts [OF granted.prems]] by simp
  then have "0 \<le> c" using res(1) granted.hyps(3) by simp
  moreover have "us_spent s + us_reserved s + e \<le> max c (ucap \<sigma> u (month_key t)) + uslack \<sigma> u (month_key t)"
    using res(1) sl by simp
  ultimately show ?case
    by (intro uinv_touch [OF granted.prems granted.hyps(1,3) _ s_def])
      (use res granted.hyps(6) uinv_ghosts [OF granted.prems] in \<open>simp_all add: ghosts_ok_def le_max_iff_disj\<close>)
next
  case (uncapped \<sigma> t u e l')
  then have "l' = ul \<sigma>" by (auto simp: try_reserve_def Let_def split: option.splits if_splits)
  then show ?case using uinv_later [OF uncapped.prems uncapped.hyps(1), of "ul \<sigma>"] by (cases \<sigma>) simp
next
  case (refused \<sigma> t u e x l')
  define s where "s = rolled (ustate (ul \<sigma>)) u (month_key t)"
  note r = rolled_ok [OF refused.prems refused.hyps(1), of u, folded s_def]
  have "l' = (ul \<sigma>)\<lparr>ustate := (ustate (ul \<sigma>))(u \<mapsto> s)\<rparr>"
    using refused.hyps(2) by (auto simp: try_reserve_def Let_def s_def [symmetric] split: if_splits option.splits)
  then show ?case
    by (intro uinv_touch [OF refused.prems refused.hyps(1) order_refl _ s_def])
      (use r uinv_ghosts [OF refused.prems] in \<open>auto simp: ghosts_ok_def\<close>)
next
  case (forced \<sigma> t u e v l')
  define s where "s = rolled (ustate (ul \<sigma>)) u (month_key t)"
  note r = rolled_ok [OF forced.prems forced.hyps(1), of u, folded s_def]
  have eh: "e \<le> u_headroom" using forced.hyps(4) uinv_ghosts [OF forced.prems, of u "month_key t"] by simp
  note nw = rolled_no_wrap [OF forced.prems forced.hyps(1,3) eh, of u, folded s_def]
  have res: "v = \<lparr> ur_unit = u, ur_amount = e, ur_window = month_key t \<rparr>"
    "l' = (ul \<sigma>)\<lparr>ustate := (ustate (ul \<sigma>))(u \<mapsto> s\<lparr>us_reserved := us_reserved s + e\<rparr>)\<rparr>"
    using forced.hyps(2) nw by (auto simp: unit_reserve_unchecked_def Let_def s_def [symmetric] split: option.splits)
  show ?case
    by (intro uinv_touch [OF forced.prems forced.hyps(1,3) _ s_def])
      (use r res forced.hyps(3,4) uinv_ghosts [OF forced.prems] in \<open>auto simp: ghosts_ok_def\<close>)
next
  case (forced_uncapped \<sigma> t u e l')
  then have "l' = ul \<sigma>" by (auto simp: unit_reserve_unchecked_def Let_def split: option.splits)
  then show ?case using uinv_later [OF forced_uncapped.prems forced_uncapped.hyps(1), of "ul \<sigma>"] by (cases \<sigma>) simp
next
  case (settled \<sigma> t v tv a)
  show ?case
  proof (cases "ur_window v = month_key t")
    case True
    then show ?thesis
      using uinv_settled [OF settled.prems settled.hyps(1,2,3) True refl] settled.hyps(4) by (simp add: excess_def)
  next
    case False
    have "upd2 (uslack \<sigma>) (ur_unit v) (ur_window v) (uslack \<sigma> (ur_unit v) (ur_window v)) = uslack \<sigma>"
      by (simp add: upd2_def)
    then show ?thesis
      using uinv_settled_late [OF settled.prems settled.hyps(1,2) False] False
      by (simp add: excess_def unit_settle_def)
  qed
next
  case (overridden \<sigma> t ov)
  then show ?case using uinv_later [OF overridden.prems overridden.hyps, of "set_overrides (ul \<sigma>) ov"] by (simp add: set_overrides_def)
qed

lemma ureach_inv: "ureach \<sigma> \<Longrightarrow> uinv \<sigma>"
proof (induction rule: ureach.induct)
  case (init caps t)
  then show ?case by (simp add: uinv_def ghosts_ok_def unit_ledger_new_def u_headroom_def)
next
  case (step \<sigma> \<sigma>')
  then show ?case using uinv_step by blast
qed

section \<open>Properties\<close>

text \<open>C9: A business unit's month is accounted exactly.  Over every sequence of checked and unchecked
  reservations, settlements at any cost and changes of the overrides, with time never running
  backwards and amounts within \<open>2 ^ 61\<close> microdollars: a unit's counters belong to the month of its
  last reservation attempt; while that is the current month, its reserved counter is exactly the
  sum of its outstanding reservations of that month; what it has spent plus what it holds never
  exceeds the largest cap in force at a grant of that month by more than the slack its callers
  introduced themselves; and a checked reservation is granted only if the unit then still fits the
  cap now in force.  A reservation of an earlier month never counts against, and is never released
  into, a later one.\<close>
theorem unit_cap_respected:
  assumes "ureach \<sigma>"
  shows "(\<forall>u. case ustate (ul \<sigma>) u of None \<Rightarrow> True | Some s \<Rightarrow>
       us_window s = month_key (touched \<sigma> u) \<and> touched \<sigma> u \<le> clock \<sigma>
       \<and> (if us_window s = month_key (clock \<sigma>) then us_reserved s = held (uout \<sigma>) u (month_key (clock \<sigma>))
          else held (uout \<sigma>) u (month_key (clock \<sigma>)) = 0)
       \<and> 0 \<le> us_spent s
       \<and> us_spent s + us_reserved s \<le> ucap \<sigma> u (us_window s) + uslack \<sigma> u (us_window s))
    \<and> (clock \<sigma> \<le> t \<longrightarrow> 0 \<le> e \<longrightarrow> e \<le> u_headroom \<longrightarrow>
       (case try_reserve (ul \<sigma>) u e t of
          (Inr (Some v), l') \<Rightarrow> \<exists>c s. effective_cap (ul \<sigma>) u = Some c \<and> ustate l' u = Some s
             \<and> v = \<lparr> ur_unit = u, ur_amount = e, ur_window = month_key t \<rparr> \<and> us_window s = month_key t
             \<and> us_reserved s = held (uout \<sigma>) u (month_key t) + e \<and> us_spent s + us_reserved s \<le> c
        | (Inr None, l') \<Rightarrow> effective_cap (ul \<sigma>) u = None \<and> l' = ul \<sigma>
        | (Inl x, l') \<Rightarrow> \<exists>c s. effective_cap (ul \<sigma>) u = Some c \<and> ustate l' u = Some s
             \<and> us_reserved s = held (uout \<sigma>) u (month_key t) \<and> c < us_spent s + us_reserved s + e
             \<and> x = \<lparr> ue_unit = u, ue_budget = c, ue_spent = us_spent s \<rparr>))"
proof -
  note inv = ureach_inv [OF assms]
  have "case ustate (ul \<sigma>) u of None \<Rightarrow> True | Some s \<Rightarrow>
       us_window s = month_key (touched \<sigma> u) \<and> touched \<sigma> u \<le> clock \<sigma>
       \<and> (if us_window s = month_key (clock \<sigma>) then us_reserved s = held (uout \<sigma>) u (month_key (clock \<sigma>))
          else held (uout \<sigma>) u (month_key (clock \<sigma>)) = 0)
       \<and> 0 \<le> us_spent s
       \<and> us_spent s + us_reserved s \<le> ucap \<sigma> u (us_window s) + uslack \<sigma> u (us_window s)" for u
    using uinv_unit [OF inv, of u] rolled_ok [OF inv order_refl, of u]
    by (auto simp: unit_ok_def rolled_def ZERO_def split: option.splits if_splits)
  moreover have "case try_reserve (ul \<sigma>) u e t of
          (Inr (Some v), l') \<Rightarrow> \<exists>c s. effective_cap (ul \<sigma>) u = Some c \<and> ustate l' u = Some s
             \<and> v = \<lparr> ur_unit = u, ur_amount = e, ur_window = month_key t \<rparr> \<and> us_window s = month_key t
             \<and> us_reserved s = held (uout \<sigma>) u (month_key t) + e \<and> us_spent s + us_reserved s \<le> c
        | (Inr None, l') \<Rightarrow> effective_cap (ul \<sigma>) u = None \<and> l' = ul \<sigma>
        | (Inl x, l') \<Rightarrow> \<exists>c s. effective_cap (ul \<sigma>) u = Some c \<and> ustate l' u = Some s
             \<and> us_reserved s = held (uout \<sigma>) u (month_key t) \<and> c < us_spent s + us_reserved s + e
             \<and> x = \<lparr> ue_unit = u, ue_budget = c, ue_spent = us_spent s \<rparr>"
    if t: "clock \<sigma> \<le> t" and e: "0 \<le> e" "e \<le> u_headroom"
    using rolled_ok [OF inv t, of u] rolled_no_wrap [OF inv t e, of u]
    by (auto simp: try_reserve_def Let_def split: option.splits)
  ultimately show ?thesis by blast
qed

definition demo_caps :: "string \<rightharpoonup> microusd" where "demo_caps = [''ops'' \<mapsto> 100]"

definition demo_unit_res :: UnitReservation where
  "demo_unit_res = \<lparr> ur_unit = ''ops'', ur_amount = 60, ur_window = month_key 0 \<rparr>"

definition demo_start :: usys where
  "demo_start = \<lparr> ul = unit_ledger_new demo_caps, uout = [], touched = (\<lambda>_. 0), clock = 0, ucap = (\<lambda>_ _. 0), uslack = (\<lambda>_ _. 0) \<rparr>"

definition demo_units :: usys where
  "demo_units = demo_start\<lparr> ul := (unit_ledger_new demo_caps)\<lparr>ustate := [''ops'' \<mapsto> \<lparr> us_window = month_key 0, us_reserved = 60, us_spent = 0 \<rparr>]\<rparr>,
     uout := (demo_unit_res, 0) # uout demo_start, touched := (touched demo_start)(''ops'' := 0), clock := 0,
     ucap := upd2 (ucap demo_start) ''ops'' (month_key 0) (max 100 (ucap demo_start ''ops'' (month_key 0))) \<rparr>"

lemma demo_units_reach: "ureach demo_units"
proof -
  have "ustep demo_start demo_units"
    unfolding demo_units_def
    by (rule ustep.granted [of _ _ "''ops''" 60])
      (simp_all add: demo_start_def demo_unit_res_def try_reserve_def effective_cap_def unit_ledger_new_def demo_caps_def
        rolled_def fresh_unit_def ZERO_def microusd_add_def wrap_i64_within u_headroom_def Let_def)
  moreover have "ureach demo_start" unfolding demo_start_def by (rule ureach.init)
  ultimately show ?thesis by (rule ureach.step [rotated])
qed

theorem unit_cap_respected_witness:
  "\<exists>s. ustate (ul demo_units) ''ops'' = Some s \<and> us_reserved s = held (uout demo_units) ''ops'' (month_key 0)
     \<and> us_spent s + us_reserved s \<le> 100"
  using unit_cap_respected [OF demo_units_reach, of 0 0 "''ops''"]
  by (auto dest!: spec [of _ "''ops''"] simp: demo_units_def demo_start_def)

text \<open>The inlined month computation agrees with the calendar module: the window key is the year
  and month that \<open>civil_from_days\<close> gives for the timestamp's day, for every timestamp, before or
  after the epoch, and two timestamps share a window exactly when year and month agree.\<close>
theorem month_key_is_civil_month:
  "month_key ts = (case civil_from_days (ts div 86400000) of (y, m, d) \<Rightarrow> year_str y @ ''-'' @ two m)
   \<and> (month_key ts = month_key ts' \<longleftrightarrow>
        (case (civil_from_days (ts div 86400000), civil_from_days (ts' div 86400000)) of
           ((y, m, d), (y', m', d')) \<Rightarrow> 12 * y + m = 12 * y' + m'))"
  unfolding month_key_month_str month_str_eq_iff month_number_def
  by (simp add: month_str_def DAY_MILLIS_def split: prod.splits)

end
