(* ===== verification/Utf8.thy ===== *)
theory Utf8
  imports Prelude
begin

text \<open>
  The string operations of the Rust standard library that depend on UTF-8:
  \<open>str::trim\<close> with the Unicode white-space characters, \<open>str::lines\<close>,
  \<open>String::from_utf8_lossy\<close> and \<open>rsplit_once\<close>, over strings as byte lists, and the text
  of a request header.
\<close>

section \<open>White space\<close>

text \<open>The UTF-8 encodings of the characters with the Unicode \<open>White_Space\<close> property.\<close>
definition ws_encodings :: "string list" where
  "ws_encodings =
     [[CHR 0x09], [CHR 0x0A], [CHR 0x0B], [CHR 0x0C], [CHR 0x0D], [CHR 0x20],
      [CHR 0xC2, CHR 0x85], [CHR 0xC2, CHR 0xA0], [CHR 0xE1, CHR 0x9A, CHR 0x80],
      [CHR 0xE2, CHR 0x80, CHR 0x80], [CHR 0xE2, CHR 0x80, CHR 0x81], [CHR 0xE2, CHR 0x80, CHR 0x82],
      [CHR 0xE2, CHR 0x80, CHR 0x83], [CHR 0xE2, CHR 0x80, CHR 0x84], [CHR 0xE2, CHR 0x80, CHR 0x85],
      [CHR 0xE2, CHR 0x80, CHR 0x86], [CHR 0xE2, CHR 0x80, CHR 0x87], [CHR 0xE2, CHR 0x80, CHR 0x88],
      [CHR 0xE2, CHR 0x80, CHR 0x89], [CHR 0xE2, CHR 0x80, CHR 0x8A], [CHR 0xE2, CHR 0x80, CHR 0xA8],
      [CHR 0xE2, CHR 0x80, CHR 0xA9], [CHR 0xE2, CHR 0x80, CHR 0xAF], [CHR 0xE2, CHR 0x81, CHR 0x9F],
      [CHR 0xE3, CHR 0x80, CHR 0x80]]"

lemma ws_encodings_nonempty: "w \<in> set ws_encodings \<Longrightarrow> w \<noteq> []"
  by (auto simp: ws_encodings_def)

text \<open>Strip leading occurrences of any of the given non-empty words.\<close>
function strip_words :: "string list \<Rightarrow> string \<Rightarrow> string" where
  "strip_words ws s = (case List.find (\<lambda>w. w \<noteq> [] \<and> starts_with s w) ws of
     None \<Rightarrow> s | Some w \<Rightarrow> strip_words ws (drop (length w) s))"
  by pat_completeness auto
termination
proof (relation "measure (\<lambda>(ws, s). length s)")
  fix ws s w
  assume "List.find (\<lambda>w. w \<noteq> [] \<and> starts_with s w) ws = Some w"
  then have "w \<noteq> []" "starts_with s w" by (auto simp: find_Some_iff)
  then show "((ws, drop (length w) s), ws, s) \<in> measure (\<lambda>(ws, s). length s)"
    by (auto simp: starts_with_iff)
qed simp

declare strip_words.simps [simp del]

definition trim_start :: "string \<Rightarrow> string" where
  "trim_start s = strip_words ws_encodings s"

definition trim_end :: "string \<Rightarrow> string" where
  "trim_end s = rev (strip_words (map rev ws_encodings) (rev s))"

definition trim :: "string \<Rightarrow> string" where
  "trim s = trim_end (trim_start s)"

lemma strip_words_stable: "strip_words ws (strip_words ws s) = strip_words ws s"
proof (induction ws s rule: strip_words.induct)
  case (1 ws s)
  show ?case
  proof (cases "List.find (\<lambda>w. w \<noteq> [] \<and> starts_with s w) ws")
    case None
    then show ?thesis by (simp add: strip_words.simps [of ws s])
  next
    case (Some w)
    then show ?thesis using 1 by (simp add: strip_words.simps [of ws s])
  qed
qed

lemma strip_words_suffix: "\<exists>p. s = p @ strip_words ws s"
proof (induction ws s rule: strip_words.induct)
  case (1 ws s)
  show ?case
  proof (cases "List.find (\<lambda>w. w \<noteq> [] \<and> starts_with s w) ws")
    case None
    then show ?thesis by (simp add: strip_words.simps [of ws s])
  next
    case (Some w)
    then have "s = w @ drop (length w) s" by (auto simp: find_Some_iff starts_with_iff)
    then show ?thesis using 1 [OF Some] Some by (simp add: strip_words.simps [of ws s]) (metis append.assoc)
  qed
qed

lemma strip_words_nil [simp]: "strip_words ws [] = []"
  using strip_words_suffix [of "[]" ws] by simp

lemma trim_nil [simp]: "trim [] = []" "trim_start [] = []" "trim_end [] = []"
  by (simp_all add: trim_def trim_start_def trim_end_def)

text \<open>A string whose first and last byte start no white space is its own trim.\<close>
lemma strip_words_first: "\<lbrakk>\<And>w. w \<in> set ws \<Longrightarrow> w \<noteq> [] \<Longrightarrow> hd w \<noteq> c\<rbrakk> \<Longrightarrow> strip_words ws (c # s) = c # s"
proof -
  assume a: "\<And>w. w \<in> set ws \<Longrightarrow> w \<noteq> [] \<Longrightarrow> hd w \<noteq> c"
  have "List.find (\<lambda>w. w \<noteq> [] \<and> starts_with (c # s) w) ws = None"
    using a by (fastforce simp: find_None_iff starts_with_iff neq_Nil_conv)
  then show ?thesis by (simp add: strip_words.simps)
qed

section \<open>Lines\<close>

text \<open>\<open>str::lines\<close>: pieces ended by a line feed lose it and a carriage return before it; a last
  piece without a line feed is kept as it is, an empty one is dropped.\<close>
fun lines_aux :: "string \<Rightarrow> string \<Rightarrow> string list" where
  "lines_aux cur [] = (if cur = [] then [] else [rev cur])"
| "lines_aux cur (c # cs) =
     (if c = CHR 0x0A
      then rev (case cur of d # ds \<Rightarrow> if d = CHR 0x0D then ds else cur | [] \<Rightarrow> []) # lines_aux [] cs
      else lines_aux (c # cur) cs)"

definition str_lines :: "string \<Rightarrow> string list" where
  "str_lines s = lines_aux [] s"

section \<open>Lossy decoding\<close>

definition byte :: "char \<Rightarrow> nat" where "byte c = of_char c"

definition btw :: "char \<Rightarrow> nat \<Rightarrow> nat \<Rightarrow> bool" where
  "btw c lo hi \<longleftrightarrow> lo \<le> byte c \<and> byte c \<le> hi"

definition replacement :: string where
  "replacement = [CHR 0xEF, CHR 0xBF, CHR 0xBD]"

text \<open>The well-formed second byte after a given lead byte of a three- or four-byte sequence.\<close>
definition second3 :: "char \<Rightarrow> char \<Rightarrow> bool" where
  "second3 a b \<longleftrightarrow> (if byte a = 224 then btw b 160 191 else if byte a = 237 then btw b 128 159 else btw b 128 191)"

definition second4 :: "char \<Rightarrow> char \<Rightarrow> bool" where
  "second4 a b \<longleftrightarrow> (if byte a = 240 then btw b 144 191 else if byte a = 244 then btw b 128 143 else btw b 128 191)"

text \<open>Length of the longest well-formed prefix sequence at the head and whether it is complete.\<close>
fun utf8_head :: "string \<Rightarrow> nat \<times> bool" where
  "utf8_head [] = (0, True)"
| "utf8_head (a # r) =
     (if byte a < 128 then (1, True)
      else if btw a 194 223 then
        (case r of b # _ \<Rightarrow> if btw b 128 191 then (2, True) else (1, False) | [] \<Rightarrow> (1, False))
      else if btw a 224 239 then
        (case r of b # r' \<Rightarrow>
           if second3 a b then (case r' of c # _ \<Rightarrow> if btw c 128 191 then (3, True) else (2, False) | [] \<Rightarrow> (2, False))
           else (1, False)
         | [] \<Rightarrow> (1, False))
      else if btw a 240 244 then
        (case r of b # r' \<Rightarrow>
           if second4 a b then
             (case r' of c # r'' \<Rightarrow>
                if btw c 128 191 then (case r'' of d # _ \<Rightarrow> if btw d 128 191 then (4, True) else (3, False) | [] \<Rightarrow> (3, False))
                else (2, False)
              | [] \<Rightarrow> (2, False))
           else (1, False)
         | [] \<Rightarrow> (1, False))
      else (1, False))"

lemma utf8_head_pos: "s \<noteq> [] \<Longrightarrow> 0 < fst (utf8_head s)"
  by (cases s) (auto split: list.splits)

lemma utf8_drop_less: "\<lbrakk>s \<noteq> []; (n, ok) = utf8_head s\<rbrakk> \<Longrightarrow> length (drop n s) < length s"
proof -
  assume a: "s \<noteq> []" "(n, ok) = utf8_head s"
  then have "fst (utf8_head s) = n" by (metis fst_conv)
  then have "0 < n" "0 < length s" using utf8_head_pos [OF a(1)] a(1) by simp_all
  then show ?thesis by simp
qed

function from_utf8_lossy :: "string \<Rightarrow> string" where
  "from_utf8_lossy s =
     (if s = [] then []
      else case utf8_head s of (n, ok) \<Rightarrow>
        (if ok then take n s else replacement) @ from_utf8_lossy (drop n s))"
  by pat_completeness auto
termination
  by (relation "measure length") (auto simp only: in_measure wf_measure intro: utf8_drop_less)

declare from_utf8_lossy.simps [simp del]

text \<open>ASCII text is unchanged by lossy decoding.\<close>
lemma from_utf8_lossy_ascii: "\<forall>c\<in>set s. byte c < 128 \<Longrightarrow> from_utf8_lossy s = s"
proof (induction s)
  case (Cons a s)
  then show ?case by (subst from_utf8_lossy.simps) simp
qed (simp add: from_utf8_lossy.simps)

section \<open>Splitting at the last separator\<close>

text \<open>\<open>rsplit_once(c)\<close>.\<close>
definition rsplit_once :: "char \<Rightarrow> string \<Rightarrow> (string \<times> string) option" where
  "rsplit_once c s =
     (if c \<in> set s then
        let t = takeWhile (\<lambda>x. x \<noteq> c) (rev s) in
        Some (take (length s - length t - 1) s, rev t)
      else None)"

lemma rsplit_once_append:
  assumes "c \<notin> set b"
  shows "rsplit_once c (a @ c # b) = Some (a, b)"
proof -
  have "takeWhile (\<lambda>x. x \<noteq> c) (rev (a @ c # b)) = rev b"
    using assms by (simp add: takeWhile_append2) (subst takeWhile_append2, auto)
  then show ?thesis by (simp add: rsplit_once_def)
qed

lemma rsplit_once_None [simp]: "rsplit_once c s = None \<longleftrightarrow> c \<notin> set s"
  by (simp add: rsplit_once_def Let_def)

text \<open>\<open>split_once(c)\<close>.\<close>
definition split_once :: "char \<Rightarrow> string \<Rightarrow> (string \<times> string) option" where
  "split_once c s =
     (if c \<in> set s then let t = takeWhile (\<lambda>x. x \<noteq> c) s in Some (t, drop (length t + 1) s) else None)"

lemma split_once_append: "c \<notin> set a \<Longrightarrow> split_once c (a @ c # b) = Some (a, b)"
  by (simp add: split_once_def takeWhile_append2) (subst takeWhile_append2, auto)+

section \<open>Headers\<close>

text \<open>
  Request headers as both HTTP services read them: the first value of each
  lower-case name, usable as text only when it is visible ASCII.
\<close>

type_synonym HeaderMap = "string \<Rightarrow> string option"

text \<open>\<open>HeaderValue::to_str\<close>: visible ASCII and tab only.\<close>
definition visible_ascii :: "char \<Rightarrow> bool" where
  "visible_ascii c \<longleftrightarrow> (32 \<le> (of_char c :: nat) \<and> (of_char c :: nat) < 127) \<or> c = CHR 0x09"

definition header_str :: "HeaderMap \<Rightarrow> string \<Rightarrow> string option" where
  "header_str h name = (case h name of Some v \<Rightarrow> if list_all visible_ascii v then Some v else None | None \<Rightarrow> None)"

section \<open>Padding\<close>

text \<open>\<open>{:<n}\<close> and \<open>{:>n}\<close>.\<close>
definition pad_end :: "nat \<Rightarrow> string \<Rightarrow> string" where
  "pad_end n s = s @ replicate (n - chars_count s) (CHR '' '')"

definition pad_start :: "nat \<Rightarrow> string \<Rightarrow> string" where
  "pad_start n s = replicate (n - chars_count s) (CHR '' '') @ s"

end
