(* ===== verification/Provider.thy ===== *)
theory Provider
  imports Pricing Json Utf8
begin

text \<open>
  Usage parsing from a provider's response body (\<open>crates/gateway/src/provider.rs\<close>):
  the capped buffer, the server-sent-event scan, the Anthropic and OpenAI usage
  shapes and the tool-call counter.  \<open>from_str\<close> is \<open>serde_json::from_str\<close>, a
  parameter.
\<close>

definition USAGE_CAP :: usize where "USAGE_CAP = 8388608"

definition usage_feed :: "string \<Rightarrow> string \<Rightarrow> string" where
  "usage_feed buf chunk =
     (if length buf \<ge> USAGE_CAP then buf
      else buf @ take (min (USAGE_CAP - length buf) (length chunk)) chunk)"

definition set_if_positive :: "u64 \<Rightarrow> json \<Rightarrow> string \<Rightarrow> u64" where
  "set_if_positive field v key = (case get_then key as_u64 v of
     Some n \<Rightarrow> if n > 0 then n else field
   | None \<Rightarrow> field)"

definition apply_anthropic :: "Usage \<Rightarrow> json \<Rightarrow> Usage" where
  "apply_anthropic u v = u\<lparr>
     input_tokens := set_if_positive (input_tokens u) v ''input_tokens'',
     output_tokens := set_if_positive (output_tokens u) v ''output_tokens'',
     cache_read_tokens := set_if_positive (cache_read_tokens u) v ''cache_read_input_tokens'',
     cache_write_tokens := set_if_positive (cache_write_tokens u) v ''cache_creation_input_tokens''\<rparr>"

definition apply_openai :: "Usage \<Rightarrow> json \<Rightarrow> Usage" where
  "apply_openai u v =
     (let u1 = u\<lparr>input_tokens := set_if_positive (input_tokens u) v ''prompt_tokens'',
                 output_tokens := set_if_positive (output_tokens u) v ''completion_tokens''\<rparr> in
      case Option.bind (json_get ''prompt_tokens_details'' v) (get_then ''cached_tokens'' as_u64) of
        Some cached \<Rightarrow> if cached > 0 then u1\<lparr>cache_read_tokens := cached\<rparr> else u1
      | None \<Rightarrow> u1)"

definition is_object :: "json \<Rightarrow> bool" where
  "is_object v = (case v of JObject _ \<Rightarrow> True | _ \<Rightarrow> False)"

definition merge_usage :: "Usage \<Rightarrow> json \<Rightarrow> Usage" where
  "merge_usage u v =
     (let u1 = (case Option.bind (json_get ''message'' v) (json_get ''usage'') of
                  Some w \<Rightarrow> apply_anthropic u w | None \<Rightarrow> u) in
      case json_get ''usage'' v of
        Some w \<Rightarrow>
          if is_object w then
            (if json_get ''prompt_tokens'' w \<noteq> None \<or> json_get ''completion_tokens'' w \<noteq> None
             then apply_openai u1 w else apply_anthropic u1 w)
          else u1
      | None \<Rightarrow> u1)"

record ToolCallCounter =
  seen :: bool
  anthropic :: u32
  openai_nonstream :: u32
  openai_stream_idx :: "(u64 \<times> u64) list"

definition ToolCallCounter_default :: ToolCallCounter where
  "ToolCallCounter_default = \<lparr> seen = False, anthropic = 0, openai_nonstream = 0, openai_stream_idx = [] \<rparr>"

text \<open>The hash set of pairs is its duplicate-free list of members.\<close>
definition choice_indexes :: "json \<Rightarrow> (u64 \<times> u64) list" where
  "choice_indexes choice =
     (let ci = (case get_then ''index'' as_u64 choice of Some i \<Rightarrow> i | None \<Rightarrow> 0) in
      case Option.bind (json_get ''delta'' choice) (get_then ''tool_calls'' as_array) of
        None \<Rightarrow> []
      | Some deltas \<Rightarrow> concat (map (\<lambda>tc. case get_then ''index'' as_u64 tc of
            Some i \<Rightarrow> [(ci, i)] | None \<Rightarrow> []) deltas))"

definition observe_streaming :: "ToolCallCounter \<Rightarrow> json \<Rightarrow> ToolCallCounter" where
  "observe_streaming t v =
     (let t1 = t\<lparr>seen := True\<rparr>;
          t2 = (if get_str ''type'' v = Some ''content_block_start''
                   \<and> Option.bind (json_get ''content_block'' v) (get_str ''type'') = Some ''tool_use''
                then t1\<lparr>anthropic := wrap_u32 (anthropic t1 + 1)\<rparr> else t1)
      in case get_then ''choices'' as_array v of
           None \<Rightarrow> t2
         | Some choices \<Rightarrow> t2\<lparr>openai_stream_idx :=
             fold List.insert (concat (map choice_indexes choices)) (openai_stream_idx t2)\<rparr>)"

definition observe_non_streaming :: "ToolCallCounter \<Rightarrow> json \<Rightarrow> ToolCallCounter" where
  "observe_non_streaming t v =
     (let t1 = t\<lparr>seen := True\<rparr>;
          t2 = (case get_then ''content'' as_array v of
                  Some content \<Rightarrow> t1\<lparr>anthropic := wrap_u32 (anthropic t1
                    + wrap_u32 (length (filter (\<lambda>b. get_str ''type'' b = Some ''tool_use'') content)))\<rparr>
                | None \<Rightarrow> t1)
      in case get_then ''choices'' as_array v of
           None \<Rightarrow> t2
         | Some choices \<Rightarrow> fold (\<lambda>choice c.
             case Option.bind (json_get ''message'' choice) (get_then ''tool_calls'' as_array) of
               Some tc \<Rightarrow> c\<lparr>openai_nonstream := wrap_u32 (openai_nonstream c + wrap_u32 (length tc))\<rparr>
             | None \<Rightarrow> c) choices t2)"

definition counter_finish :: "ToolCallCounter \<Rightarrow> u32 option" where
  "counter_finish t = (if \<not> seen t then None
     else Some (wrap_u32 (wrap_u32 (anthropic t + openai_nonstream t) + wrap_u32 (length (openai_stream_idx t)))))"

text \<open>One \<open>data:\<close> line of the event stream: the JSON it carries, if any.\<close>
definition sse_payload :: "string \<Rightarrow> string option" where
  "sse_payload line = strip_prefix ''data:'' (trim_start line)"

definition sse_event :: "(string \<Rightarrow> json option) \<Rightarrow> string \<Rightarrow> json option" where
  "sse_event from_str line = (case sse_payload line of
     None \<Rightarrow> None
   | Some rest \<Rightarrow> let r = trim rest in if r = [] \<or> r = ''[DONE]'' then None else from_str r)"

definition finish_events :: "(string \<Rightarrow> json option) \<Rightarrow> string \<Rightarrow> json list" where
  "finish_events from_str text = List.map_filter (sse_event from_str) (str_lines text)"

definition usage_finish :: "(string \<Rightarrow> json option) \<Rightarrow> string \<Rightarrow> Usage" where
  "usage_finish from_str buf =
     (let text = from_utf8_lossy buf;
          events = finish_events from_str text;
          u = fold (\<lambda>v u. merge_usage u v) events Usage_default;
          t = fold (\<lambda>v t. observe_streaming t v) events ToolCallCounter_default;
          (u, t) = (if \<exists>l\<in>set (str_lines text). sse_payload l \<noteq> None then (u, t)
                    else case from_str (trim text) of
                      Some v \<Rightarrow> (merge_usage u v, observe_non_streaming t v)
                    | None \<Rightarrow> (u, t))
      in u\<lparr>tool_calls := counter_finish t\<rparr>)"

section \<open>Chunking\<close>

lemma usage_feed_take: "length buf \<le> USAGE_CAP \<Longrightarrow> usage_feed buf chunk = take USAGE_CAP (buf @ chunk)"
  by (auto simp: usage_feed_def min_def)

lemma take_take_append: "take n (take n xs @ ys) = take n (xs @ ys)"
  by (cases "length xs \<le> n") simp_all

lemma feed_chunks: "length buf \<le> USAGE_CAP \<Longrightarrow> foldl usage_feed buf chunks = take USAGE_CAP (buf @ concat chunks)"
proof (induction chunks arbitrary: buf)
  case (Cons c cs)
  then have "foldl usage_feed (take USAGE_CAP (buf @ c)) cs = take USAGE_CAP (take USAGE_CAP (buf @ c) @ concat cs)"
    by simp
  also have "\<dots> = take USAGE_CAP (buf @ c @ concat cs)"
    by (simp only: take_take_append append_assoc)
  finally show ?case using Cons.prems by (simp add: usage_feed_take)
qed simp

section \<open>Last positive value wins\<close>

text \<open>The values an event offers for the output-token count, in the order they are applied.\<close>
definition output_offers :: "json \<Rightarrow> u64 list" where
  "output_offers v =
     (case Option.bind (json_get ''message'' v) (json_get ''usage'') of
        Some w \<Rightarrow> (case get_then ''output_tokens'' as_u64 w of Some n \<Rightarrow> [n] | None \<Rightarrow> []) | None \<Rightarrow> [])
     @ (case json_get ''usage'' v of
          Some w \<Rightarrow> if is_object w then
             (case get_then (if json_get ''prompt_tokens'' w \<noteq> None \<or> json_get ''completion_tokens'' w \<noteq> None
                             then ''completion_tokens'' else ''output_tokens'') as_u64 w of Some n \<Rightarrow> [n] | None \<Rightarrow> [])
             else []
        | None \<Rightarrow> [])"

definition last_positive :: "u64 \<Rightarrow> u64 list \<Rightarrow> u64" where
  "last_positive d ns = (case filter (\<lambda>n. n > 0) ns of [] \<Rightarrow> d | xs \<Rightarrow> last xs)"

lemma last_positive_append: "last_positive d (xs @ ys) = last_positive (last_positive d xs) ys"
  by (cases "filter (\<lambda>n. n > 0) ys"; cases "filter (\<lambda>n. n > 0) xs") (simp_all add: last_positive_def)

lemma last_positive_one [simp]: "last_positive d [n] = (if n > 0 then n else d)"
  by (simp add: last_positive_def)

lemma last_positive_Nil [simp]: "last_positive d [] = d"
  by (simp add: last_positive_def)

lemma merge_output: "output_tokens (merge_usage u v) = last_positive (output_tokens u) (output_offers v)"
  unfolding merge_usage_def output_offers_def last_positive_append
  by (simp add: Let_def apply_anthropic_def apply_openai_def set_if_positive_def split: option.splits)

lemma fold_merge_output:
  "output_tokens (fold (\<lambda>v u. merge_usage u v) vs u) = last_positive (output_tokens u) (concat (map output_offers vs))"
  by (induction vs arbitrary: u) (simp_all add: merge_output last_positive_append)

lemma fold_seen: "seen (fold (\<lambda>v t. observe_streaming t v) vs t) \<longleftrightarrow> seen t \<or> vs \<noteq> []"
proof (induction vs arbitrary: t)
  case (Cons v vs)
  have "seen (observe_streaming t v)" by (simp add: observe_streaming_def Let_def split: option.splits)
  then show ?case using Cons by simp
qed simp

section \<open>Properties\<close>

text \<open>Usage parsing does not depend on how the response was chunked, and reads an event stream as
  last positive value wins: for a body of server-sent events within the cap, fed in any chunks,
  the output-token count is the last positive count any event carried (0 when none did), and a
  tool-call count is reported exactly when some event parsed as JSON.\<close>
theorem usage_stream_last_wins:
  assumes "concat chunks = body" "length body \<le> USAGE_CAP"
    and "\<exists>l\<in>set (str_lines (from_utf8_lossy body)). sse_payload l \<noteq> None"
  shows "let u = usage_finish from_str (foldl usage_feed [] chunks);
             events = finish_events from_str (from_utf8_lossy body) in
    output_tokens u = last_positive 0 (concat (map output_offers events))
    \<and> (tool_calls u = None \<longleftrightarrow> events = [])"
proof -
  have "foldl usage_feed [] chunks = body" using feed_chunks [of "[]" chunks] assms(1,2) by simp
  then show ?thesis
    using assms(3) fold_seen [of _ ToolCallCounter_default] fold_merge_output [of _ Usage_default]
    by (simp add: usage_finish_def Let_def counter_finish_def) (simp add: Usage_default_def ToolCallCounter_default_def)
qed

theorem usage_stream_last_wins_witness:
  "output_tokens (usage_finish (\<lambda>s. if s = ''x'' then Some (JObject [(''usage'', JObject [(''output_tokens'', JNumber (PosInt 7))])]) else None)
     (foldl usage_feed [] [''data: x'' @ [CHR 0x0A], ''data: y''])) = 7"
proof -
  let ?f = "\<lambda>s. if s = ''x'' then Some (JObject [(''usage'', JObject [(''output_tokens'', JNumber (PosInt 7))])]) else (None :: json option)"
  let ?b = "''data: x'' @ [CHR 0x0A] @ ''data: y''"
  have t: "from_utf8_lossy ?b = ?b" by (rule from_utf8_lossy_ascii) (simp add: byte_def)
  have ts: "trim_start (''data: '' @ s) = ''data: '' @ s" for s
    unfolding trim_start_def by (simp, rule strip_words_first) (auto simp: ws_encodings_def)
  have tr: "trim '' x'' = ''x''" "trim '' y'' = ''y''"
    by (simp_all add: trim_def trim_start_def trim_end_def ws_encodings_def strip_words.simps)
  have l: "str_lines ?b = [''data: x'', ''data: y'']" by (simp add: str_lines_def)
  have p: "sse_payload ''data: x'' = Some '' x''" "sse_payload ''data: y'' = Some '' y''"
    using ts [of "''x''"] ts [of "''y''"] by (simp_all add: sse_payload_def strip_prefix_def)
  have e: "finish_events ?f (from_utf8_lossy ?b) = [JObject [(''usage'', JObject [(''output_tokens'', JNumber (PosInt 7))])]]"
    by (simp only: t finish_events_def l) (simp add: List.map_filter_def sse_event_def p tr)
  have ex: "\<exists>l\<in>set (str_lines (from_utf8_lossy ?b)). sse_payload l \<noteq> None" by (simp only: t l) (simp add: p)
  have "output_tokens (usage_finish ?f (foldl usage_feed [] [''data: x'' @ [CHR 0x0A], ''data: y''])) =
      last_positive 0 (concat (map output_offers (finish_events ?f (from_utf8_lossy ?b))))"
    using usage_stream_last_wins [of "[''data: x'' @ [CHR 0x0A], ''data: y'']" ?b, OF _ _ ex, of ?f]
    unfolding Let_def by (simp only: USAGE_CAP_def) (simp del: foldl_Cons)
  then show ?thesis
    unfolding e by (simp add: output_offers_def get_then_def as_u64_def is_object_def del: foldl_Cons)
qed

text \<open>A body that never parses settles as free: when no line is a server-sent event and the text
  is not JSON, the parser still reports a usage, with all token counts zero, so the call's cost is
  zero under every price list rather than the reserved estimate.\<close>
theorem unparsable_body_costs_nothing:
  assumes "\<forall>l\<in>set (str_lines (from_utf8_lossy buf)). sse_payload l = None"
    and "from_str (trim (from_utf8_lossy buf)) = None"
  shows "usage_finish from_str buf = Usage_default \<and> model_cost p (usage_finish from_str buf) = 0"
proof -
  have "List.map_filter (sse_event from_str) ls = []" if "\<forall>l\<in>set ls. sse_payload l = None" for ls
    using that by (induction ls) (auto simp: List.map_filter_def sse_event_def)
  then have "finish_events from_str (from_utf8_lossy buf) = []"
    using assms(1) by (simp add: finish_events_def)
  then have "usage_finish from_str buf = Usage_default"
    using assms by (simp add: usage_finish_def Let_def counter_finish_def ToolCallCounter_default_def Usage_default_def)
  then show ?thesis by (simp add: model_cost_def cost_part_def tdiv_def Usage_default_def wrap_i64_def)
qed

theorem unparsable_body_costs_nothing_witness: "usage_finish (\<lambda>_. None) [] = Usage_default"
  using unparsable_body_costs_nothing [of "[]" "\<lambda>_. None"] by (simp add: from_utf8_lossy.simps str_lines_def)

end
