(* ===== verification/SettleGuard.thy ===== *)
theory SettleGuard
  imports Backend Pricing UnitLedger
begin

text \<open>
  The settle guard of a streaming call (\<open>crates/gateway/src/settle.rs\<close>) and the
  record it emits (\<open>CallRecord\<close> in \<open>crates/gateway/src/sink.rs\<close>).  The guard's
  shared handles (run ledger, unit ledger, event sink, usage slot) are the fields of
  a world record threaded through; the two readings of the wall clock are arguments.
\<close>

record CallRecord =
  ts_millis :: i64
  cr_run_id :: string
  cr_model :: string
  cr_decision :: string
  cr_input_tokens :: u64
  cr_output_tokens :: u64
  cost_microusd :: i64
  cr_step :: u32
  cr_agent_id :: string
  saved_microusd :: i64
  cr_parent_run_id :: string
  cr_on_behalf_of :: string
  cr_outcome :: string
  cr_key_id :: string
  cr_unit :: string
  cr_tool_calls :: "u32 option"

text \<open>What the guard's \<open>Arc\<close> handles reach.\<close>
record world =
  w_ledger :: ledger
  w_units :: UnitLedger
  w_sink :: "CallRecord list"
  w_slot :: "Usage option"

record SettleGuard =
  sg_prices :: PriceBook
  sg_model :: string
  sg_fallback :: microusd
  sg_reservation :: "Reservation option"
  sg_agent_id :: string
  sg_parent_run_id :: string
  sg_on_behalf_of :: string
  sg_outcome :: string
  sg_key_id :: string
  sg_unit :: string
  sg_unit_reservation :: "UnitReservation option"

definition settle_guard_new :: "PriceBook \<Rightarrow> string \<Rightarrow> microusd \<Rightarrow> Reservation \<Rightarrow> string \<Rightarrow> string \<Rightarrow> string \<Rightarrow> string
    \<Rightarrow> string \<Rightarrow> string \<Rightarrow> UnitReservation option \<Rightarrow> SettleGuard" where
  "settle_guard_new b m fb reservation agent parent obo oc key un ur =
     \<lparr> sg_prices = b, sg_model = m, sg_fallback = fb, sg_reservation = Some reservation, sg_agent_id = agent,
       sg_parent_run_id = parent, sg_on_behalf_of = obo, sg_outcome = oc, sg_key_id = key, sg_unit = un,
       sg_unit_reservation = ur \<rparr>"

definition actual_cost :: "SettleGuard \<Rightarrow> Usage option \<Rightarrow> microusd" where
  "actual_cost g parsed = (case Option.bind parsed (book_cost (sg_prices g) (sg_model g)) of
     Some c \<Rightarrow> c | None \<Rightarrow> sg_fallback g)"

definition settled_record :: "SettleGuard \<Rightarrow> Reservation \<Rightarrow> Usage option \<Rightarrow> i64 \<Rightarrow> CallRecord" where
  "settled_record g v parsed now =
     (let u = (case parsed of Some u \<Rightarrow> u | None \<Rightarrow> Usage_default) in
      \<lparr> ts_millis = now, cr_run_id = res_run_id v, cr_model = sg_model g, cr_decision = ''allow'',
        cr_input_tokens = input_tokens u, cr_output_tokens = output_tokens u, cost_microusd = actual_cost g parsed,
        cr_step = res_step v, cr_agent_id = sg_agent_id g, saved_microusd = 0, cr_parent_run_id = sg_parent_run_id g,
        cr_on_behalf_of = sg_on_behalf_of g, cr_outcome = sg_outcome g, cr_key_id = sg_key_id g, cr_unit = sg_unit g,
        cr_tool_calls = tool_calls u \<rparr>)"

definition settle_now :: "i64 \<Rightarrow> i64 \<Rightarrow> SettleGuard \<times> world \<Rightarrow> SettleGuard \<times> world" where
  "settle_now now_unit now_rec gw = (case gw of (g, w) \<Rightarrow>
     (case sg_reservation g of
        None \<Rightarrow> (g, w)
      | Some v \<Rightarrow>
          let parsed = w_slot w;
              actual = actual_cost g parsed;
              units' = (case sg_unit_reservation g of
                 Some ur \<Rightarrow> unit_settle (w_units w) ur actual now_unit
               | None \<Rightarrow> w_units w)
          in (g\<lparr>sg_reservation := None, sg_unit_reservation := None\<rparr>,
              w\<lparr>w_slot := None, w_ledger := settle (w_ledger w) v actual, w_units := units',
                w_sink := w_sink w @ [settled_record g v parsed now_rec]\<rparr>)))"

text \<open>\<open>complete(self)\<close> settles and then drops the guard; \<open>drop\<close> alone is the cancel or error path.\<close>
definition guard_drop :: "i64 \<Rightarrow> i64 \<Rightarrow> SettleGuard \<times> world \<Rightarrow> world" where
  "guard_drop n1 n2 gw = snd (settle_now n1 n2 gw)"

definition guard_complete :: "i64 \<Rightarrow> i64 \<Rightarrow> i64 \<Rightarrow> i64 \<Rightarrow> SettleGuard \<times> world \<Rightarrow> world" where
  "guard_complete n1 n2 n3 n4 gw = guard_drop n3 n4 (settle_now n1 n2 gw)"

lemma settle_now_taken: "sg_reservation (fst gw) = None \<Longrightarrow> settle_now n1 n2 gw = gw"
  by (cases gw) (simp add: settle_now_def)

lemma settle_now_takes: "sg_reservation (fst (settle_now n1 n2 gw)) = None"
  by (cases gw) (simp add: settle_now_def Let_def split: option.splits)

lemma guard_complete_drop: "guard_complete n1 n2 n3 n4 gw = guard_drop n1 n2 gw"
  by (simp add: guard_complete_def guard_drop_def settle_now_taken settle_now_takes)

text \<open>C22: A streamed answer, whose reservation is held by the settle guard, is settled exactly once
  however the stream ends (the buffered path has no guard: there a dropped call settles nothing,
  \<open>dropped_call_keeps_reservation\<close>).  Whether the stream completes or the guard is dropped first, the run reservation is settled once, the unit reservation (if any) once
  and with the same amount, and exactly one record is appended; the amount is the price of the
  published usage when there is one and the model is priced, and the reserved estimate otherwise.\<close>
theorem guard_settles_once:
  "let g = settle_guard_new b m fb v agent parent obo oc key un ur;
       actual = (case Option.bind (w_slot w) (book_cost b m) of Some c \<Rightarrow> c | None \<Rightarrow> fb);
       w' = guard_drop n1 n2 (g, w) in
   guard_complete n1 n2 n3 n4 (g, w) = w'
   \<and> w_ledger w' = settle (w_ledger w) v actual
   \<and> w_units w' = (case ur of Some x \<Rightarrow> unit_settle (w_units w) x actual n1 | None \<Rightarrow> w_units w)
   \<and> (\<exists>r. w_sink w' = w_sink w @ [r] \<and> cost_microusd r = actual \<and> cr_run_id r = res_run_id v
        \<and> cr_step r = res_step v \<and> cr_key_id r = key \<and> cr_unit r = un)
   \<and> w_slot w' = None"
proof -
  let ?g = "settle_guard_new b m fb v agent parent obo oc key un ur"
  let ?a = "case Option.bind (w_slot w) (book_cost b m) of Some c \<Rightarrow> c | None \<Rightarrow> fb"
  have sel: "sg_reservation ?g = Some v" "sg_unit_reservation ?g = ur" "sg_model ?g = m" "sg_key_id ?g = key" "sg_unit ?g = un"
    by (simp_all add: settle_guard_new_def)
  have ac: "actual_cost ?g (w_slot w) = ?a"
    by (simp add: actual_cost_def settle_guard_new_def split: option.splits)
  have "guard_drop n1 n2 (?g, w) = w\<lparr>w_slot := None, w_ledger := settle (w_ledger w) v ?a,
      w_units := (case ur of Some x \<Rightarrow> unit_settle (w_units w) x ?a n1 | None \<Rightarrow> w_units w),
      w_sink := w_sink w @ [settled_record ?g v (w_slot w) n2]\<rparr>"
    unfolding guard_drop_def settle_now_def prod.case sel option.case Let_def ac snd_conv ..
  moreover have "cost_microusd (settled_record ?g v (w_slot w) n2) = ?a"
    "cr_run_id (settled_record ?g v (w_slot w) n2) = res_run_id v" "cr_step (settled_record ?g v (w_slot w) n2) = res_step v"
    "cr_key_id (settled_record ?g v (w_slot w) n2) = key" "cr_unit (settled_record ?g v (w_slot w) n2) = un"
    by (simp_all add: settled_record_def Let_def ac sel)
  ultimately show ?thesis by (simp add: guard_complete_drop Let_def)
qed

end
