(* ===== verification/ClientKeys.thy ===== *)
theory ClientKeys
  imports Utf8
begin

text \<open>
  Client credentials of the gateway (\<open>crates/gateway/src/clientkeys.rs\<close>) and the
  since-startup counters of their activity (\<open>crates/gateway/src/keystats.rs\<close>).
\<close>

definition CLIENT_KEY_HEADER :: string where "CLIENT_KEY_HEADER = ''x-fuse-key''"

record ClientKeys =
  by_secret :: "(string \<times> string) list"

datatype EmptySpec = EmptySpec

definition ClientKeys_default :: ClientKeys where
  "ClientKeys_default = \<lparr> by_secret = [] \<rparr>"

text \<open>One comma-separated entry: the (secret, key id) pair it yields, if usable.\<close>
definition spec_entry :: "string \<Rightarrow> (string \<times> string) option" where
  "spec_entry raw =
     (let entry = trim raw in
      if entry = [] then None
      else case rsplit_once (CHR '':'') entry of
        None \<Rightarrow> None
      | Some (secret, key_id) \<Rightarrow>
          let secret = trim secret; key_id = trim key_id in
          if secret = [] \<or> key_id = [] then None else Some (secret, key_id))"

text \<open>The hash map as an association list, later inserts shadowing earlier ones.\<close>
definition from_spec :: "string \<Rightarrow> (EmptySpec, ClientKeys) result" where
  "from_spec spec =
     (let trimmed = trim spec in
      if trimmed = [] then Inr ClientKeys_default
      else let pairs = fold (\<lambda>e m. case spec_entry e of Some kv \<Rightarrow> kv # m | None \<Rightarrow> m) (split_char (CHR '','') trimmed) [] in
        if pairs = [] then Inl EmptySpec else Inr \<lparr> by_secret = pairs \<rparr>)"

definition keys_enabled :: "ClientKeys \<Rightarrow> bool" where
  "keys_enabled k \<longleftrightarrow> by_secret k \<noteq> []"

definition keys_len :: "ClientKeys \<Rightarrow> nat" where
  "keys_len k = length (remdups (map fst (by_secret k)))"

definition keys_is_empty :: "ClientKeys \<Rightarrow> bool" where
  "keys_is_empty k \<longleftrightarrow> by_secret k = []"

definition resolve_key :: "ClientKeys \<Rightarrow> string \<Rightarrow> string option" where
  "resolve_key k secret = map_of (by_secret k) secret"

definition key_ids :: "ClientKeys \<Rightarrow> string set" where
  "key_ids k = ran (map_of (by_secret k))"

section \<open>Counters\<close>

record KeyCounters =
  calls :: u64
  identity_mismatches :: u64
  last_seen_millis :: "i64 option"

definition KeyCounters_default :: KeyCounters where
  "KeyCounters_default = \<lparr> calls = 0, identity_mismatches = 0, last_seen_millis = None \<rparr>"

record UnauthorizedCounters =
  attempts :: u64
  last_millis :: "i64 option"

record KeyStats =
  per_key :: "string \<rightharpoonup> KeyCounters"
  unauthorized_counters :: UnauthorizedCounters

definition KeyStats_default :: KeyStats where
  "KeyStats_default = \<lparr> per_key = Map.empty, unauthorized_counters = \<lparr> attempts = 0, last_millis = None \<rparr> \<rparr>"

definition key_entry :: "KeyStats \<Rightarrow> string \<Rightarrow> KeyCounters" where
  "key_entry s k = (case per_key s k of Some c \<Rightarrow> c | None \<Rightarrow> KeyCounters_default)"

definition record_call :: "KeyStats \<Rightarrow> string \<Rightarrow> i64 \<Rightarrow> KeyStats" where
  "record_call s key_id now =
     (if key_id = [] then s
      else s\<lparr>per_key := (per_key s)(key_id \<mapsto> (key_entry s key_id)\<lparr>
        calls := wrap_u64 (calls (key_entry s key_id) + 1), last_seen_millis := Some now\<rparr>)\<rparr>)"

definition record_identity_mismatch :: "KeyStats \<Rightarrow> string \<Rightarrow> KeyStats" where
  "record_identity_mismatch s key_id =
     (if key_id = [] then s
      else s\<lparr>per_key := (per_key s)(key_id \<mapsto> (key_entry s key_id)\<lparr>
        identity_mismatches := wrap_u64 (identity_mismatches (key_entry s key_id) + 1)\<rparr>)\<rparr>)"

definition record_unauthorized :: "KeyStats \<Rightarrow> i64 \<Rightarrow> KeyStats" where
  "record_unauthorized s now =
     s\<lparr>unauthorized_counters := \<lparr> attempts = wrap_u64 (attempts (unauthorized_counters s) + 1), last_millis = Some now \<rparr>\<rparr>"

definition keystats_snapshot :: "KeyStats \<Rightarrow> KeyStats" where
  "keystats_snapshot s = s"

section \<open>Properties\<close>

lemma fold_entries:
  "fold (\<lambda>e m. case spec_entry e of Some kv \<Rightarrow> kv # m | None \<Rightarrow> m) es m = rev (List.map_filter spec_entry es) @ m"
  by (induction es arbitrary: m) (auto simp: List.map_filter_def split: option.splits)

text \<open>Client authentication fails closed: a specification that is blank switches it off; any other
  specification either yields at least one credential, and then authentication is on and every
  secret that resolves was listed with exactly that key id in a usable entry, or is refused
  outright; no non-blank specification leaves the gateway open.\<close>
theorem from_spec_fails_closed:
  "(trim spec = [] \<longrightarrow> from_spec spec = Inr ClientKeys_default)
   \<and> (trim spec \<noteq> [] \<longrightarrow>
       (case from_spec spec of
          Inl EmptySpec \<Rightarrow> (\<forall>e\<in>set (split_char (CHR '','') (trim spec)). spec_entry e = None)
        | Inr k \<Rightarrow> keys_enabled k
            \<and> (\<forall>secret key_id. resolve_key k secret = Some key_id \<longrightarrow>
                (\<exists>e\<in>set (split_char (CHR '','') (trim spec)). spec_entry e = Some (secret, key_id)) \<and> secret \<noteq> [] \<and> key_id \<noteq> [])
            \<and> (\<forall>e\<in>set (split_char (CHR '','') (trim spec)). \<forall>secret key_id. spec_entry e = Some (secret, key_id) \<longrightarrow>
                resolve_key k secret \<noteq> None)))"
proof -
  let ?es = "split_char (CHR '','') (trim spec)"
  let ?ps = "rev (List.map_filter spec_entry ?es)"
  have mem: "kv \<in> set ?ps \<longleftrightarrow> (\<exists>e\<in>set ?es. spec_entry e = Some kv)" for kv
    by (force simp: List.map_filter_def)
  have ne: "spec_entry e = Some (s, k) \<Longrightarrow> s \<noteq> [] \<and> k \<noteq> []" for e s k
    by (auto simp: spec_entry_def Let_def split: if_splits option.splits prod.splits)
  have res: "map_of ?ps s = Some k \<Longrightarrow> (s, k) \<in> set ?ps" for s k by (rule map_of_SomeD)
  have known: "(s, k) \<in> set ?ps \<Longrightarrow> map_of ?ps s \<noteq> None" for s k
    by (metis map_of_eq_None_iff image_eqI fst_conv)
  show ?thesis
  proof (cases "trim spec = []")
    case True
    then show ?thesis by (simp add: from_spec_def)
  next
    case False
    have fs: "from_spec spec = (if ?ps = [] then Inl EmptySpec else Inr \<lparr> by_secret = ?ps \<rparr>)"
      using False by (simp add: from_spec_def Let_def fold_entries)
    show ?thesis
    proof (cases "?ps = []")
      case True
      then have "\<forall>e\<in>set ?es. spec_entry e = None" using mem by (metis list.set(1) empty_iff not_None_eq)
      then show ?thesis using fs True False by simp
    next
      case ne_ps: False
      then show ?thesis
        using fs False mem ne res known by (simp add: keys_enabled_def resolve_key_def) metis
    qed
  qed
qed

theorem from_spec_fails_closed_witness:
  "\<exists>k. from_spec ''s:k'' = Inr k \<and> keys_enabled k \<and> trim ''s:k'' \<noteq> []"
proof -
  have t: "trim ''s:k'' = ''s:k''" "trim ''s'' = ''s''" "trim ''k'' = ''k''"
    by (simp_all add: trim_def trim_start_def trim_end_def ws_encodings_def strip_words.simps)
  have ev: "from_spec ''s:k'' = Inr \<lparr> by_secret = [(''s'', ''k'')] \<rparr>"
    by (simp add: from_spec_def spec_entry_def rsplit_once_def Let_def t)
  have "keys_enabled \<lparr> by_secret = [(''s'', ''k'')] \<rparr>"
    using conjunct2 [OF from_spec_fails_closed [of "''s:k''"], unfolded ev sum.case] t(1) by simp
  then show ?thesis using ev t(1) by simp
qed

end
