(* ===== verification/Router.thy ===== *)
theory Router
  imports Pricing
begin

text \<open>
  The model router (\<open>crates/gateway/src/router.rs\<close>).  The class table is the list of
  its entries in the (unspecified) iteration order of the hash map; lookups do not
  depend on it, and the flattened tier index lets later entries win, as \<open>collect\<close>
  into a map does.
\<close>

datatype RouterMode = ROff | RShadow | ROn

datatype Tier = Haiku | Sonnet | Opus

definition tier_rank :: "Tier \<Rightarrow> nat" where
  "tier_rank t = (case t of Haiku \<Rightarrow> 0 | Sonnet \<Rightarrow> 1 | Opus \<Rightarrow> 2)"

instantiation Tier :: linorder
begin

definition less_eq_Tier :: "Tier \<Rightarrow> Tier \<Rightarrow> bool" where
  "less_eq_Tier a b \<longleftrightarrow> tier_rank a \<le> tier_rank b"

definition less_Tier :: "Tier \<Rightarrow> Tier \<Rightarrow> bool" where
  "less_Tier a b \<longleftrightarrow> tier_rank a < tier_rank b"

instance
  by standard (auto simp: less_eq_Tier_def less_Tier_def tier_rank_def split: Tier.splits)

end

record Candidate =
  cand_model :: string
  cand_tier :: Tier

record ClassRule =
  required_tier :: Tier
  candidates :: "Candidate list"

record RouterRules =
  default_class :: string
  classes :: "(string \<times> ClassRule) list"

definition cheap_rule :: ClassRule where
  "cheap_rule = \<lparr> required_tier = Haiku, candidates = [\<lparr> cand_model = ''claude-haiku-4-5'', cand_tier = Haiku \<rparr>] \<rparr>"

definition hard_rule :: ClassRule where
  "hard_rule = \<lparr> required_tier = Sonnet, candidates =
     [\<lparr> cand_model = ''claude-sonnet-4-5'', cand_tier = Sonnet \<rparr>, \<lparr> cand_model = ''claude-opus-4-5'', cand_tier = Opus \<rparr>] \<rparr>"

definition default_rules :: RouterRules where
  "default_rules = \<lparr> default_class = ''default'', classes =
     [(''cheap'', cheap_rule), (''default'', cheap_rule), (''hard'', hard_rule), (''reasoning'', hard_rule)] \<rparr>"

record RouteDecision =
  original_model :: string
  chosen_model :: string

definition kept :: "string \<Rightarrow> RouteDecision" where
  "kept m = \<lparr> original_model = m, chosen_model = m \<rparr>"

definition routed :: "RouteDecision \<Rightarrow> bool" where
  "routed d \<longleftrightarrow> original_model d \<noteq> chosen_model d"

definition header_value :: "RouteDecision \<Rightarrow> string" where
  "header_value d = (if routed d then original_model d @ ''->'' @ chosen_model d else original_model d @ ''=kept'')"

record Router =
  r_mode :: RouterMode
  r_rules :: RouterRules
  tier_index :: "string \<rightharpoonup> Tier"

definition router_new :: "RouterMode \<Rightarrow> RouterRules \<Rightarrow> Router" where
  "router_new m rules = \<lparr> r_mode = m, r_rules = rules,
     tier_index = map_of (rev (map (\<lambda>c. (cand_model c, cand_tier c)) (concat (map (candidates \<circ> snd) (classes rules))))) \<rparr>"

definition router_disabled :: Router where
  "router_disabled = router_new ROff default_rules"

text \<open>\<open>from_env\<close> with the two environment variables and the rules-file loader as arguments.\<close>
definition router_from_env :: "string option \<Rightarrow> string option \<Rightarrow> (string \<Rightarrow> RouterRules option) \<Rightarrow> Router" where
  "router_from_env mode_var rules_var load_rules_file = router_new
     (if mode_var = Some ''shadow'' then RShadow else if mode_var = Some ''on'' then ROn else ROff)
     (case rules_var of
        Some path \<Rightarrow> if path \<noteq> [] then (case load_rules_file path of Some r \<Rightarrow> r | None \<Rightarrow> default_rules) else default_rules
      | None \<Rightarrow> default_rules)"

definition resolve_class :: "Router \<Rightarrow> string \<Rightarrow> ClassRule option" where
  "resolve_class r task_class = (case map_of (classes (r_rules r)) task_class of
     Some c \<Rightarrow> Some c
   | None \<Rightarrow> map_of (classes (r_rules r)) (default_class (r_rules r)))"

text \<open>\<open>min_by_key\<close>: the first of the cheapest.\<close>
fun min_cost :: "(string \<times> microusd) list \<Rightarrow> (string \<times> microusd) option" where
  "min_cost [] = None"
| "min_cost (x # xs) = (case min_cost xs of
     None \<Rightarrow> Some x
   | Some y \<Rightarrow> if snd y < snd x then Some y else Some x)"

definition priced :: "(string \<Rightarrow> microusd option) \<Rightarrow> Candidate list \<Rightarrow> (string \<times> microusd) list" where
  "priced cost_of cs = List.map_filter (\<lambda>c. map_option (\<lambda>k. (cand_model c, k)) (cost_of (cand_model c))) cs"

definition must_upgrade :: "Router \<Rightarrow> string \<Rightarrow> ClassRule \<Rightarrow> bool" where
  "must_upgrade r requested rule = (case tier_index r requested of Some t \<Rightarrow> t < required_tier rule | None \<Rightarrow> False)"

definition route :: "Router \<Rightarrow> string \<Rightarrow> string \<Rightarrow> PriceBook \<Rightarrow> usize \<Rightarrow> u64 option \<Rightarrow> RouteDecision" where
  "route r requested task_class b body_len max_tokens =
     (case resolve_class r task_class of
        None \<Rightarrow> kept requested
      | Some rule \<Rightarrow>
          let eligible = filter (\<lambda>c. cand_tier c \<ge> required_tier rule) (candidates rule) in
          if eligible = [] then kept requested
          else
            let cost_of = (\<lambda>m. estimate_cost b m body_len max_tokens);
                chosen =
                  (if must_upgrade r requested rule then map_option fst (min_cost (priced cost_of eligible))
                   else case cost_of requested of
                     Some rc \<Rightarrow> map_option fst (min_cost (filter (\<lambda>(_, c). c < rc) (priced cost_of eligible)))
                   | None \<Rightarrow> None)
            in case chosen of
                 Some m \<Rightarrow> if m \<noteq> requested then \<lparr> original_model = requested, chosen_model = m \<rparr> else kept requested
               | None \<Rightarrow> kept requested)"

lemma min_cost_None [simp]: "min_cost xs = None \<longleftrightarrow> xs = []"
  by (cases xs) (auto split: option.splits)

lemma min_cost_least: "min_cost xs = Some x \<Longrightarrow> x \<in> set xs \<and> (\<forall>y\<in>set xs. snd x \<le> snd y)"
proof (induction xs arbitrary: x)
  case (Cons a xs)
  show ?case
  proof (cases "min_cost xs")
    case None
    then show ?thesis using Cons.prems by auto
  next
    case (Some y)
    then show ?thesis using Cons.prems Cons.IH [OF Some] by (auto split: if_splits)
  qed
qed simp

lemma priced_mem: "(m, k) \<in> set (priced f cs) \<longleftrightarrow> (\<exists>c\<in>set cs. cand_model c = m \<and> f m = Some k)"
  unfolding priced_def by (induction cs) (auto simp: List.map_filter_def split: option.splits)

text \<open>C37: The router never routes up by default: if it picks another model, that model is a candidate of
  the resolved class meeting the class's required tier, it is priced, no eligible candidate that
  qualified is cheaper, and it is strictly cheaper than the requested model unless the requested
  model's own declared tier is below the required one.\<close>
theorem route_never_up:
  assumes "d = route r requested task_class b body_len max_tokens" "routed d"
  shows "original_model d = requested \<and> (\<exists>rule cand k. resolve_class r task_class = Some rule \<and> cand \<in> set (candidates rule)
    \<and> cand_model cand = chosen_model d \<and> required_tier rule \<le> cand_tier cand
    \<and> estimate_cost b (chosen_model d) body_len max_tokens = Some k
    \<and> (must_upgrade r requested rule \<or> (\<exists>rc. estimate_cost b requested body_len max_tokens = Some rc \<and> k < rc))
    \<and> (\<forall>c'\<in>set (candidates rule). \<forall>k'. required_tier rule \<le> cand_tier c' \<and> estimate_cost b (cand_model c') body_len max_tokens = Some k' \<longrightarrow> k \<le> k'))"
proof -
  define f where "f = (\<lambda>m. estimate_cost b m body_len max_tokens)"
  obtain rule where rule: "resolve_class r task_class = Some rule"
    using assms by (cases "resolve_class r task_class") (auto simp: route_def routed_def kept_def)
  define el where "el = filter (\<lambda>c. cand_tier c \<ge> required_tier rule) (candidates rule)"
  define chosen where "chosen = (if must_upgrade r requested rule then map_option fst (min_cost (priced f el))
       else case f requested of Some rc \<Rightarrow> map_option fst (min_cost (filter (\<lambda>(_, c). c < rc) (priced f el))) | None \<Rightarrow> None)"
  have d: "d = (if el = [] then kept requested else case chosen of
      Some m \<Rightarrow> if m \<noteq> requested then \<lparr> original_model = requested, chosen_model = m \<rparr> else kept requested | None \<Rightarrow> kept requested)"
    unfolding assms(1) route_def rule option.case Let_def el_def chosen_def f_def ..
  then obtain m where m: "chosen = Some m" "d = \<lparr> original_model = requested, chosen_model = m \<rparr>"
    using assms(2) by (auto simp: routed_def kept_def split: if_splits option.splits)
  obtain k where k: "(m, k) \<in> set (priced f el)" "\<forall>y\<in>set (priced f el). k \<le> snd y"
    "must_upgrade r requested rule \<or> (\<exists>rc. f requested = Some rc \<and> k < rc)"
  proof (cases "must_upgrade r requested rule")
    case True
    then obtain k where "min_cost (priced f el) = Some (m, k)" using m(1) by (auto simp: chosen_def)
    then show ?thesis using that [of k] True min_cost_least [of "priced f el"] by auto
  next
    case False
    then obtain rc k where rk: "f requested = Some rc" "min_cost (filter (\<lambda>(_, c). c < rc) (priced f el)) = Some (m, k)"
      using m(1) by (auto simp: chosen_def split: option.splits)
    have in1: "(m, k) \<in> set (priced f el)" "k < rc" using min_cost_least [OF rk(2)] by auto
    moreover have "k \<le> snd y" if "y \<in> set (priced f el)" for y
      using min_cost_least [OF rk(2)] that in1(2) by (cases y, cases "snd y < rc") auto
    ultimately show ?thesis using that [of k] rk(1) by blast
  qed
  obtain cand where cand: "cand \<in> set el" "cand_model cand = m" "f m = Some k" using k(1) by (auto simp: priced_mem)
  have "k \<le> k'" if "c' \<in> set (candidates rule)" "required_tier rule \<le> cand_tier c'" "f (cand_model c') = Some k'" for c' k'
  proof -
    have "(cand_model c', k') \<in> set (priced f el)" using that by (auto simp: priced_mem el_def)
    then show ?thesis using k(2) by fastforce
  qed
  moreover have "cand \<in> set (candidates rule)" "required_tier rule \<le> cand_tier cand" using cand(1) by (simp_all add: el_def)
  ultimately show ?thesis using rule m(2) cand(2,3) k(3) unfolding f_def by auto
qed

theorem route_never_up_witness:
  "let b = with_price ''big'' \<lparr> input_per_mtok = 0, output_per_mtok = 20000000, cache_read_per_mtok = 0, cache_write_per_mtok = 0 \<rparr>
        (with_price ''claude-haiku-4-5'' \<lparr> input_per_mtok = 0, output_per_mtok = 0, cache_read_per_mtok = 0, cache_write_per_mtok = 0 \<rparr> pricebook_new);
       d = route (router_new ROn default_rules) ''big'' '''' b 0 (Some 100)
   in routed d \<and> original_model d = ''big''"
proof -
  let ?b = "with_price ''big'' \<lparr> input_per_mtok = 0, output_per_mtok = 20000000, cache_read_per_mtok = 0, cache_write_per_mtok = 0 \<rparr>
        (with_price ''claude-haiku-4-5'' \<lparr> input_per_mtok = 0, output_per_mtok = 0, cache_read_per_mtok = 0, cache_write_per_mtok = 0 \<rparr> pricebook_new)"
  have c0: "estimate_cost ?b ''claude-haiku-4-5'' 0 (Some 100) = Some 0"
    using apply_margin_exact [of 0]
    by (simp add: estimate_cost_def book_cost_def with_price_def book_price_insert model_cost_def cost_part_def tdiv_def
        estimate_usage_def Usage_default_def CHARS_PER_TOKEN_def wrap_i64_def)
  have c1: "estimate_cost ?b ''big'' 0 (Some 100) = Some 2300"
    using apply_margin_exact [of 2000]
    by (simp add: estimate_cost_def book_cost_def with_price_def book_price_insert model_cost_def cost_part_def tdiv_def
        estimate_usage_def Usage_default_def CHARS_PER_TOKEN_def wrap_i64_def)
  have r: "routed (route (router_new ROn default_rules) ''big'' '''' ?b 0 (Some 100))"
    using c0 c1
    by (simp add: route_def resolve_class_def router_new_def default_rules_def cheap_rule_def hard_rule_def must_upgrade_def
        priced_def List.map_filter_def routed_def kept_def Let_def)
  then show ?thesis using route_never_up [OF refl r] by (simp add: Let_def)
qed

end
