(* ===== verification/HashChain.thy ===== *)
theory HashChain
  imports Prelude
begin

text \<open>
  What a hash chain promises, as a locale: entries are linked by an identity that is
  the hash of an encoding of the entry, the encoding reveals the entry's own data and
  its predecessor's identity, and the hash does not collide on the encodings at hand.
  The control-plane audit trail (\<open>audit.rs\<close>) provides such an encoding; the
  agent-event stream (\<open>agent_event.rs\<close>) does not, because its hash leaves the link
  out.  The client lemma: two linked sequences that end in the same identity are equal.
\<close>

text \<open>Lowercase hexadecimal of a byte string.\<close>
definition hex_digit :: "nat \<Rightarrow> char" where
  "hex_digit d = (if d < 10 then char_of (48 + d) else char_of (87 + d))"

definition hex_byte :: "char \<Rightarrow> string" where
  "hex_byte c = (let n = (of_char c :: nat) in [hex_digit (n div 16), hex_digit (n mod 16)])"

definition hex_lower :: "string \<Rightarrow> string" where
  "hex_lower bs = concat (map hex_byte bs)"

lemma hex_digit_inj: "\<lbrakk>a < 16; b < 16; hex_digit a = hex_digit b\<rbrakk> \<Longrightarrow> a = b"
proof -
  assume ab: "a < 16" "b < 16" and eq: "hex_digit a = hex_digit b"
  have v: "(of_char (hex_digit d) :: nat) = (if d < 10 then 48 + d else 87 + d)" if "d < 16" for d
    using that by (simp add: hex_digit_def)
  have "(of_char (hex_digit a) :: nat) = of_char (hex_digit b)" using eq by simp
  then show "a = b" using v [OF ab(1)] v [OF ab(2)] ab by (auto split: if_splits)
qed

lemma hex_byte_inj: "hex_byte a = hex_byte b \<Longrightarrow> a = b"
proof -
  assume eq: "hex_byte a = hex_byte b"
  define m n where "m = (of_char a :: nat)" and "n = (of_char b :: nat)"
  have lt: "m < 256" "n < 256" by (simp_all add: m_def n_def)
  have "m div 16 = n div 16" "m mod 16 = n mod 16"
    using eq lt hex_digit_inj by (auto simp: hex_byte_def Let_def m_def [symmetric] n_def [symmetric] less_mult_imp_div_less)
  then have "m = n" by (metis div_mod_decomp)
  then show "a = b" by (simp add: m_def n_def)
qed

lemma length_hex_byte [simp]: "length (hex_byte c) = 2"
  by (simp add: hex_byte_def Let_def)

lemma hex_lower_inj: "hex_lower a = hex_lower b \<Longrightarrow> a = b"
proof (induction a arbitrary: b)
  case Nil
  then show ?case by (cases b) (simp_all add: hex_lower_def hex_byte_def Let_def)
next
  case (Cons x a)
  show ?case
  proof (cases b)
    case Nil
    then show ?thesis using Cons.prems by (simp add: hex_lower_def hex_byte_def Let_def)
  next
    case (Cons y b')
    then have "hex_byte x @ hex_lower a = hex_byte y @ hex_lower b'" using Cons.prems by (simp add: hex_lower_def)
    then have "hex_byte x = hex_byte y" "hex_lower a = hex_lower b'" by (simp_all add: append_eq_append_conv)
    then show ?thesis using Cons.IH hex_byte_inj Cons by simp
  qed
qed

locale hash_chain =
  fixes enc :: "'e \<Rightarrow> string"
    and ident :: "'e \<Rightarrow> string"
    and prev :: "'e \<Rightarrow> string"
    and ok :: "'e \<Rightarrow> bool"
  assumes enc_inj: "\<lbrakk>ok e; enc e = enc f\<rbrakk> \<Longrightarrow> prev e = prev f \<and> (ident e = ident f \<longrightarrow> e = f)"
begin

text \<open>A sequence, oldest first, is linked when every entry names its predecessor's identity.\<close>
definition linked :: "'e list \<Rightarrow> bool" where
  "linked es \<longleftrightarrow> (\<forall>i. Suc i < length es \<longrightarrow> prev (es ! Suc i) = ident (es ! i))"

lemma linked_snoc: "linked (es @ [e]) \<longleftrightarrow> linked es \<and> (es \<noteq> [] \<longrightarrow> prev e = ident (last es))"
proof
  assume l: "linked (es @ [e])"
  have "linked es" using l by (auto simp: linked_def nth_append split: if_splits)
  moreover have "prev e = ident (last es)" if "es \<noteq> []"
  proof -
    have "Suc (length es - 1) < length (es @ [e])" using that by simp
    then have "prev ((es @ [e]) ! Suc (length es - 1)) = ident ((es @ [e]) ! (length es - 1))"
      using l by (simp add: linked_def)
    then show ?thesis using that by (simp add: nth_append last_conv_nth)
  qed
  ultimately show "linked es \<and> (es \<noteq> [] \<longrightarrow> prev e = ident (last es))" by simp
next
  assume l: "linked es \<and> (es \<noteq> [] \<longrightarrow> prev e = ident (last es))"
  show "linked (es @ [e])"
    unfolding linked_def
  proof (intro allI impI)
    fix i
    assume i: "Suc i < length (es @ [e])"
    show "prev ((es @ [e]) ! Suc i) = ident ((es @ [e]) ! i)"
    proof (cases "Suc i < length es")
      case True
      then show ?thesis using l by (simp add: linked_def nth_append)
    next
      case False
      then have "Suc i = length es" using i by simp
      then have "es \<noteq> []" "i = length es - 1" by auto
      then show ?thesis using l \<open>Suc i = length es\<close> by (simp add: nth_append last_conv_nth)
    qed
  qed
qed

text \<open>Tamper evidence: the last identity fixes the whole sequence.\<close>
lemma last_ident_determines:
  assumes "length es = length fs" "es \<noteq> []" "linked es" "linked fs" "\<forall>e\<in>set es. ok e"
    and hash: "\<And>e f. \<lbrakk>e \<in> set es; f \<in> set fs; ident e = ident f\<rbrakk> \<Longrightarrow> enc e = enc f"
    and "ident (last es) = ident (last fs)"
  shows "es = fs"
  using assms
proof (induction es arbitrary: fs rule: rev_induct)
  case (snoc e es)
  obtain gs f where fs: "fs = gs @ [f]" using snoc.prems(1) by (cases fs rule: rev_cases) auto
  have len: "length es = length gs" using snoc.prems(1) fs by simp
  have ef: "enc e = enc f" "ident e = ident f" using snoc.prems(6,7) fs by auto
  then have same: "prev e = prev f" "e = f" using enc_inj [of e f] snoc.prems(5) by auto
  show ?case
  proof (cases "es = []")
    case True
    then show ?thesis using len fs same by simp
  next
    case False
    then have g: "gs \<noteq> []" using len by auto
    have l: "linked es" "linked gs" "prev e = ident (last es)" "prev f = ident (last gs)"
      using snoc.prems(3,4) fs False g by (simp_all add: linked_snoc)
    have "es = gs"
      using snoc.IH [OF len False l(1,2)] snoc.prems(5,6) fs l(3,4) same(1) by auto
    then show ?thesis using fs same(2) by simp
  qed
qed simp

end

end
