(* ===== verification/AuditLog.thy ===== *)
theory AuditLog
  imports HashChain
begin

text \<open>
  The tamper-evident audit trail (\<open>crates/core/src/audit.rs\<close>).  SHA-256 (crate
  \<open>sha2\<close>) is the parameter \<open>sha\<close>; the theorems that need it ask that it does not
  collide on the finitely many pre-images of the chains compared.
\<close>

definition SEP :: char where "SEP = CHR 0x1F"

record AuditEntry =
  seq :: u64
  a_ts_millis :: i64
  actor :: string
  action :: string
  subject :: string
  a_detail :: string
  prev_hash :: string
  entry_hash :: string

text \<open>Control characters are ASCII bytes, so the per-character map is a per-byte one.\<close>
definition sanitize_field :: "string \<Rightarrow> string" where
  "sanitize_field s =
     (if \<exists>c\<in>set s. (of_char c :: nat) < 32
      then concat (map (\<lambda>c. if (of_char c :: nat) < 32 then [CHR 0xEF, CHR 0xBF, CHR 0xBD] else [c]) s)
      else s)"

definition pre_image :: "u64 \<Rightarrow> i64 \<Rightarrow> string \<Rightarrow> string \<Rightarrow> string \<Rightarrow> string \<Rightarrow> string \<Rightarrow> string" where
  "pre_image sq ts act acn sub det prv =
     nat_str sq @ [SEP] @ int_str ts @ [SEP] @ act @ [SEP] @ acn @ [SEP] @ sub @ [SEP] @ det @ [SEP] @ prv"

definition compute_hash :: "(string \<Rightarrow> string) \<Rightarrow> u64 \<Rightarrow> i64 \<Rightarrow> string \<Rightarrow> string \<Rightarrow> string \<Rightarrow> string \<Rightarrow> string \<Rightarrow> string" where
  "compute_hash sha sq ts act acn sub det prv = hex_lower (sha (pre_image sq ts act acn sub det prv))"

definition audit_append :: "(string \<Rightarrow> string) \<Rightarrow> AuditEntry option \<Rightarrow> i64 \<Rightarrow> string \<Rightarrow> string \<Rightarrow> string \<Rightarrow> string \<Rightarrow> AuditEntry" where
  "audit_append sha prv ts act acn sub det =
     (let sq = (case prv of Some p \<Rightarrow> wrap_u64 (seq p + 1) | None \<Rightarrow> 0);
          ph = (case prv of Some p \<Rightarrow> entry_hash p | None \<Rightarrow> '''');
          act = sanitize_field act; acn = sanitize_field acn; sub = sanitize_field sub; det = sanitize_field det
      in \<lparr> seq = sq, a_ts_millis = ts, actor = act, action = acn, subject = sub, a_detail = det, prev_hash = ph,
           entry_hash = compute_hash sha sq ts act acn sub det ph \<rparr>)"

definition manifest_signing_bytes :: "string \<Rightarrow> u64 \<Rightarrow> string \<Rightarrow> u64 \<Rightarrow> i64 \<Rightarrow> string" where
  "manifest_signing_bytes org tip_seq tip_hash entry_count signed_at =
     org @ [SEP] @ nat_str tip_seq @ [SEP] @ tip_hash @ [SEP] @ nat_str entry_count @ [SEP] @ int_str signed_at"

definition entry_rehash :: "(string \<Rightarrow> string) \<Rightarrow> AuditEntry \<Rightarrow> string" where
  "entry_rehash sha e = compute_hash sha (seq e) (a_ts_millis e) (actor e) (action e) (subject e) (a_detail e) (prev_hash e)"

text \<open>The loop of \<open>verify_chain\<close>: the index of the current entry and its predecessor.\<close>
fun verify_loop :: "(string \<Rightarrow> string) \<Rightarrow> nat \<Rightarrow> AuditEntry option \<Rightarrow> AuditEntry list \<Rightarrow> (nat, unit) result" where
  "verify_loop sha i prv [] = Inr ()"
| "verify_loop sha i prv (e # es) =
     (if seq e \<noteq> (case prv of Some p \<Rightarrow> wrap_u64 (seq p + 1) | None \<Rightarrow> 0)
         \<or> prev_hash e \<noteq> (case prv of Some p \<Rightarrow> entry_hash p | None \<Rightarrow> '''') then Inl i
      else if entry_rehash sha e \<noteq> entry_hash e then Inl i
      else verify_loop sha (i + 1) (Some e) es)"

definition verify_chain :: "(string \<Rightarrow> string) \<Rightarrow> AuditEntry list \<Rightarrow> (nat, unit) result" where
  "verify_chain sha entries = verify_loop sha 0 None entries"

section \<open>Pre-images\<close>

definition entry_pre :: "AuditEntry \<Rightarrow> string" where
  "entry_pre e = pre_image (seq e) (a_ts_millis e) (actor e) (action e) (subject e) (a_detail e) (prev_hash e)"

lemma entry_rehash_pre: "entry_rehash sha e = hex_lower (sha (entry_pre e))"
  by (simp add: entry_rehash_def compute_hash_def entry_pre_def)

definition sep_free :: "AuditEntry \<Rightarrow> bool" where
  "sep_free e \<longleftrightarrow> SEP \<notin> set (actor e) \<and> SEP \<notin> set (action e) \<and> SEP \<notin> set (subject e) \<and> SEP \<notin> set (a_detail e)
     \<and> SEP \<notin> set (prev_hash e)"

lemma sep_not_digit: "SEP \<notin> set (nat_str n)" "SEP \<notin> set (int_str i)"
  using nat_str_digits [of SEP] by (auto simp: is_digit_def SEP_def int_str_def)

lemma count_pre:
  "count_list (pre_image sq ts a b c d p) SEP =
     6 + count_list a SEP + count_list b SEP + count_list c SEP + count_list d SEP + count_list p SEP"
  using sep_not_digit by (simp add: pre_image_def)

lemma pre_image_inj:
  assumes "sep_free e" "entry_pre e = entry_pre f"
  shows "seq e = seq f \<and> a_ts_millis e = a_ts_millis f \<and> actor e = actor f \<and> action e = action f
    \<and> subject e = subject f \<and> a_detail e = a_detail f \<and> prev_hash e = prev_hash f"
proof -
  have "count_list (entry_pre e) SEP = 6" using assms(1) by (simp add: entry_pre_def count_pre sep_free_def)
  then have "count_list (entry_pre f) SEP = 6" using assms(2) by simp
  then have f: "SEP \<notin> set (actor f)" "SEP \<notin> set (action f)" "SEP \<notin> set (subject f)" "SEP \<notin> set (a_detail f)"
    by (simp_all add: entry_pre_def count_pre count_list_0_iff)
  have e: "SEP \<notin> set (actor e)" "SEP \<notin> set (action e)" "SEP \<notin> set (subject e)" "SEP \<notin> set (a_detail e)"
    using assms(1) by (simp_all add: sep_free_def)
  note s = sep_append_inject [where c = SEP]
  have 0: "nat_str (seq e) = nat_str (seq f)" and r0: "int_str (a_ts_millis e) @ [SEP] @ actor e @ [SEP] @ action e @ [SEP] @ subject e @ [SEP] @ a_detail e @ [SEP] @ prev_hash e
      = int_str (a_ts_millis f) @ [SEP] @ actor f @ [SEP] @ action f @ [SEP] @ subject f @ [SEP] @ a_detail f @ [SEP] @ prev_hash f"
    using s [OF sep_not_digit(1) sep_not_digit(1)] assms(2) unfolding entry_pre_def pre_image_def by blast+
  have 1: "int_str (a_ts_millis e) = int_str (a_ts_millis f)" and r1: "actor e @ [SEP] @ action e @ [SEP] @ subject e @ [SEP] @ a_detail e @ [SEP] @ prev_hash e
      = actor f @ [SEP] @ action f @ [SEP] @ subject f @ [SEP] @ a_detail f @ [SEP] @ prev_hash f"
    using s [OF sep_not_digit(2) sep_not_digit(2) r0] by blast+
  have 2: "actor e = actor f" and r2: "action e @ [SEP] @ subject e @ [SEP] @ a_detail e @ [SEP] @ prev_hash e
      = action f @ [SEP] @ subject f @ [SEP] @ a_detail f @ [SEP] @ prev_hash f"
    using s [OF e(1) f(1) r1] by blast+
  have 3: "action e = action f" and r3: "subject e @ [SEP] @ a_detail e @ [SEP] @ prev_hash e = subject f @ [SEP] @ a_detail f @ [SEP] @ prev_hash f"
    using s [OF e(2) f(2) r2] by blast+
  have 4: "subject e = subject f" and r4: "a_detail e @ [SEP] @ prev_hash e = a_detail f @ [SEP] @ prev_hash f"
    using s [OF e(3) f(3) r3] by blast+
  have 5: "a_detail e = a_detail f" "prev_hash e = prev_hash f" using s [OF e(4) f(4) r4] by blast+
  show ?thesis using 0 1 2 3 4 5 by simp
qed

interpretation audit: hash_chain entry_pre entry_hash prev_hash sep_free
proof
  fix e f
  assume "sep_free e" "entry_pre e = entry_pre f"
  from pre_image_inj [OF this] show "prev_hash e = prev_hash f \<and> (entry_hash e = entry_hash f \<longrightarrow> e = f)"
    by (cases e; cases f) simp
qed

section \<open>Building and verifying\<close>

lemma sanitize_no_sep: "SEP \<notin> set (sanitize_field s)"
  by (auto simp: sanitize_field_def SEP_def split: if_splits)

lemma hex_lower_no_sep: "SEP \<notin> set (hex_lower bs)"
proof -
  have "hex_digit d \<noteq> SEP" if "d < 16" for d
  proof -
    have "(of_char (hex_digit d) :: nat) \<ge> 48" using that by (simp add: hex_digit_def)
    then show ?thesis by (auto simp: SEP_def)
  qed
  moreover have "(of_char c :: nat) div 16 < 16" for c :: char
    by (simp add: less_mult_imp_div_less)
  ultimately have "SEP \<notin> set (hex_byte c)" for c by (auto simp: hex_byte_def Let_def) (metis mod_less_divisor zero_less_numeral)+
  then show ?thesis by (simp add: hex_lower_def)
qed

text \<open>What it means for a verified entry to follow its predecessor.\<close>
definition follows :: "(string \<Rightarrow> string) \<Rightarrow> AuditEntry option \<Rightarrow> AuditEntry \<Rightarrow> bool" where
  "follows sha prv e \<longleftrightarrow> seq e = (case prv of Some p \<Rightarrow> wrap_u64 (seq p + 1) | None \<Rightarrow> 0)
     \<and> prev_hash e = (case prv of Some p \<Rightarrow> entry_hash p | None \<Rightarrow> '''') \<and> entry_rehash sha e = entry_hash e"

definition opt_last :: "'a option \<Rightarrow> 'a list \<Rightarrow> 'a option" where
  "opt_last d xs = (if xs = [] then d else Some (last xs))"

lemma opt_last_Cons [simp]: "opt_last d (x # xs) = opt_last (Some x) xs"
  by (simp add: opt_last_def)

lemma opt_last_Nil [simp]: "opt_last d [] = d"
  by (simp add: opt_last_def)

lemma verify_loop_step:
  "verify_loop sha i prv (e # es) = (if follows sha prv e then verify_loop sha (i + 1) (Some e) es else Inl i)"
  by (auto simp: follows_def)

declare verify_loop.simps(2) [simp del]

lemma verify_loop_snoc:
  "verify_loop sha i prv (es @ [e]) = (case verify_loop sha i prv es of Inl j \<Rightarrow> Inl j
     | Inr _ \<Rightarrow> if follows sha (opt_last prv es) e then Inr () else Inl (i + length es))"
  by (induction es arbitrary: i prv) (auto simp: verify_loop_step split: sum.splits)

lemma verify_loop_index: "verify_loop sha i prv es = Inl j \<Longrightarrow> i \<le> j"
  by (induction es arbitrary: i prv) (auto simp: verify_loop_step split: if_splits dest: Suc_leD)

lemma verify_loop_nth:
  "verify_loop sha i prv es = Inr () \<longleftrightarrow>
     (\<forall>k<length es. follows sha (if k = 0 then prv else Some (es ! (k - 1))) (es ! k))"
proof (induction es arbitrary: i prv)
  case (Cons e es)
  show ?case
    by (auto simp: verify_loop_step Cons All_less_Suc2 nth_Cons' cong: if_cong)
qed simp

lemma verify_seq:
  assumes "verify_chain sha es = Inr ()" "k < length es"
  shows "seq (es ! k) = k mod 18446744073709551616"
  using assms(2)
proof (induction k)
  case 0
  then show ?case using assms(1) by (auto simp: verify_chain_def verify_loop_nth follows_def)
next
  case (Suc k)
  then have "follows sha (Some (es ! k)) (es ! Suc k)"
    using assms(1) by (auto simp: verify_chain_def verify_loop_nth dest!: spec [of _ "Suc k"])
  then show ?case using Suc by (simp add: follows_def wrap_u64_def mod_Suc_eq)
qed

lemma verify_linked: "verify_chain sha es = Inr () \<Longrightarrow> audit.linked es"
  unfolding audit.linked_def
proof (intro allI impI)
  fix i
  assume v: "verify_chain sha es = Inr ()" and i: "Suc i < length es"
  then have "follows sha (Some (es ! i)) (es ! Suc i)"
    by (auto simp: verify_chain_def verify_loop_nth dest!: spec [of _ "Suc i"])
  then show "prev_hash (es ! Suc i) = entry_hash (es ! i)" by (simp add: follows_def)
qed

lemma verify_rehash: "\<lbrakk>verify_chain sha es = Inr (); e \<in> set es\<rbrakk> \<Longrightarrow> entry_hash e = hex_lower (sha (entry_pre e))"
proof -
  assume v: "verify_chain sha es = Inr ()" and "e \<in> set es"
  then obtain k where "k < length es" "e = es ! k" by (auto simp: in_set_conv_nth)
  then have "follows sha (if k = 0 then None else Some (es ! (k - 1))) e"
    using v by (simp add: verify_chain_def verify_loop_nth)
  then show ?thesis by (simp add: follows_def entry_rehash_pre)
qed

text \<open>A log built by appending to its own tip.\<close>
fun build_log :: "(string \<Rightarrow> string) \<Rightarrow> (i64 \<times> string \<times> string \<times> string \<times> string) list \<Rightarrow> AuditEntry list" where
  "build_log sha acts = foldl (\<lambda>es (ts, a, b, c, d). es @ [audit_append sha (opt_last None es) ts a b c d]) [] acts"

declare build_log.simps [simp del]

lemma build_log_snoc:
  "build_log sha (acts @ [(ts, a, b, c, d)]) = build_log sha acts @ [audit_append sha (opt_last None (build_log sha acts)) ts a b c d]"
  by (simp add: build_log.simps)

lemma append_follows: "follows sha prv (audit_append sha prv ts a b c d)"
  by (simp add: follows_def audit_append_def Let_def entry_rehash_def split: option.splits)

lemma append_sep_free:
  "(\<And>p. prv = Some p \<Longrightarrow> SEP \<notin> set (entry_hash p)) \<Longrightarrow> sep_free (audit_append sha prv ts a b c d)"
  by (cases prv) (auto simp: sep_free_def audit_append_def Let_def sanitize_no_sep)

lemma append_hash_no_sep: "SEP \<notin> set (entry_hash (audit_append sha prv ts a b c d))"
  by (simp add: audit_append_def Let_def compute_hash_def hex_lower_no_sep)

lemma build_log_ok:
  "verify_chain sha (build_log sha acts) = Inr () \<and> length (build_log sha acts) = length acts
   \<and> (\<forall>e\<in>set (build_log sha acts). sep_free e \<and> SEP \<notin> set (entry_hash e))"
proof (induction acts rule: rev_induct)
  case Nil
  then show ?case by (simp add: build_log.simps verify_chain_def)
next
  case (snoc x acts)
  obtain ts a b c d where x: "x = (ts, a, b, c, d)" by (cases x)
  let ?es = "build_log sha acts"
  have tip: "SEP \<notin> set (entry_hash p)" if "opt_last None ?es = Some p" for p
    using that snoc by (auto simp: opt_last_def split: if_splits)
  show ?case
    using snoc append_follows [of sha "opt_last None ?es" ts a b c d] append_sep_free [OF tip] append_hash_no_sep
    by (auto simp: x build_log_snoc verify_chain_def verify_loop_snoc)
qed

section \<open>Properties\<close>

text \<open>A log built by \<open>append\<close> verifies, whatever the fields contain; and verification pinpoints the
  first defect: it reports index \<open>i\<close> exactly when every entry before \<open>i\<close> follows its predecessor
  (sequence number, link and recomputed hash) and entry \<open>i\<close> does not.\<close>
theorem audit_append_verifies:
  "verify_chain sha (build_log sha acts) = Inr () \<and> length (build_log sha acts) = length acts
   \<and> (verify_chain sha es = Inl i \<longleftrightarrow> i < length es
        \<and> (\<forall>k<i. follows sha (if k = 0 then None else Some (es ! (k - 1))) (es ! k))
        \<and> \<not> follows sha (if i = 0 then None else Some (es ! (i - 1))) (es ! i))"
proof -
  have "verify_loop sha n prv es = Inl (n + i) \<longleftrightarrow> i < length es
        \<and> (\<forall>k<i. follows sha (if k = 0 then prv else Some (es ! (k - 1))) (es ! k))
        \<and> \<not> follows sha (if i = 0 then prv else Some (es ! (i - 1))) (es ! i)" for n prv
  proof (induction es arbitrary: n prv i)
    case (Cons e es)
    show ?case
    proof (cases i)
      case 0
      have "verify_loop sha (n + 1) (Some e) es \<noteq> Inl n"
        using verify_loop_index [of sha "n + 1" "Some e" es n] by auto
      then show ?thesis using 0 by (simp add: verify_loop_step)
    next
      case (Suc j)
      have "follows sha (if k = 0 then prv else Some ((e # es) ! (k - 1))) ((e # es) ! k) =
          (if k = 0 then follows sha prv e else follows sha (if k - 1 = 0 then Some e else Some (es ! (k - 2))) (es ! (k - 1)))" for k
        by (auto simp: nth_Cons' numeral_2_eq_2)
      then show ?thesis using Cons.IH [where n = "n + 1" and prv = "Some e" and i = j] Suc
        by (auto simp: verify_loop_step All_less_Suc2 numeral_2_eq_2)
    qed
  qed simp
  from this [of 0 None] show ?thesis using build_log_ok [of sha acts] by (simp add: verify_chain_def)
qed

theorem audit_append_verifies_witness:
  "verify_chain (\<lambda>_. []) [\<lparr> seq = 0, a_ts_millis = 5, actor = [], action = [], subject = [], a_detail = [], prev_hash = ''x'', entry_hash = [] \<rparr>] = Inl 0"
  using audit_append_verifies [of "\<lambda>_. []" "[]"
      "[\<lparr> seq = 0, a_ts_millis = 5, actor = [], action = [], subject = [], a_detail = [], prev_hash = ''x'', entry_hash = [] \<rparr>]" 0]
  by (simp add: follows_def)

text \<open>C12: The trail is tamper-evident: a log that verifies and ends in the same entry hash as a log
  built by \<open>append\<close> is that log, entry for entry, provided SHA-256 does not collide on the pre-images
  of the two.  The log built by \<open>append\<close> is the one whose tip is known; the other is whatever a
  verifier is handed, with arbitrary fields, separators included.  Between two logs neither of
  which was built by \<open>append\<close> it is false (\<open>separators_move_fields\<close>).\<close>
theorem audit_tamper_evident:
  assumes "es = build_log sha acts" "es \<noteq> []" "fs \<noteq> []" "verify_chain sha fs = Inr ()"
    and "entry_hash (last es) = entry_hash (last fs)"
    and "length es < 18446744073709551616" "length fs < 18446744073709551616"
    and "\<forall>e\<in>set es. \<forall>f\<in>set fs. sha (entry_pre e) = sha (entry_pre f) \<longrightarrow> entry_pre e = entry_pre f"
  shows "fs = es"
proof -
  have b: "verify_chain sha es = Inr ()" "\<forall>e\<in>set es. sep_free e" using build_log_ok assms(1) by auto
  have hash: "entry_pre e = entry_pre f" if "e \<in> set es" "f \<in> set fs" "entry_hash e = entry_hash f" for e f
  proof -
    have "hex_lower (sha (entry_pre e)) = hex_lower (sha (entry_pre f))"
      using that(3) verify_rehash [OF b(1) that(1)] verify_rehash [OF assms(4) that(2)] by simp
    then have "sha (entry_pre e) = sha (entry_pre f)" by (rule hex_lower_inj)
    then show ?thesis using assms(8) that(1,2) by blast
  qed
  have "entry_pre (last es) = entry_pre (last fs)" using hash assms(2,3,5) by simp
  then have "seq (last es) = seq (last fs)" using pre_image_inj [of "last es" "last fs"] b(2) assms(2) by simp
  moreover have "seq (last es) = length es - 1"
    using verify_seq [OF b(1), of "length es - 1"] assms(2,6) by (simp add: last_conv_nth)
  moreover have "seq (last fs) = length fs - 1"
    using verify_seq [OF assms(4), of "length fs - 1"] assms(3,7) by (simp add: last_conv_nth)
  moreover have "0 < length es" "0 < length fs" using assms(2,3) by simp_all
  ultimately have "length es = length fs" by linarith
  then have "es = fs"
    by (rule audit.last_ident_determines [OF _ assms(2) verify_linked [OF b(1)] verify_linked [OF assms(4)] b(2) hash assms(5)])
  then show ?thesis by (rule sym)
qed

theorem audit_tamper_evident_witness:
  "[\<lparr> seq = 0, a_ts_millis = 5, actor = ''op'', action = ''control.kill'', subject = ''run'', a_detail = ''X'', prev_hash = '''',
      entry_hash = hex_lower (pre_image 0 5 ''op'' ''control.kill'' ''run'' ''X'' '''') \<rparr>]
   = build_log id [(5, ''op'', ''control.kill'', ''run'', ''X'')]" (is "?fs = ?es")
proof -
  have ev: "?es = ?fs" by (simp add: build_log.simps audit_append_def sanitize_field_def compute_hash_def Let_def)
  have v: "verify_chain id ?fs = Inr ()" using build_log_ok [of id "[(5, ''op'', ''control.kill'', ''run'', ''X'')]"] by (simp only: ev)
  show ?thesis
    by (rule audit_tamper_evident [OF refl, where sha = id]) (simp_all only: ev v, simp_all)
qed

text \<open>Why one of the two logs must come from \<open>append\<close>: verification does not ask that fields are free
  of the separator, so of two entries nobody appended the separator can move between fields
  without changing the hashed bytes.\<close>
theorem separators_move_fields:
  "let e = \<lparr> seq = 0, a_ts_millis = 5, actor = [CHR 0x61, SEP, CHR 0x62], action = ''c'', subject = [], a_detail = [],
             prev_hash = [], entry_hash = hex_lower (sha (pre_image 0 5 [CHR 0x61, SEP, CHR 0x62] ''c'' [] [] [])) \<rparr>;
       f = e\<lparr> actor := ''a'', action := [CHR 0x62, SEP, CHR 0x63] \<rparr>
   in verify_chain sha [e] = Inr () \<and> verify_chain sha [f] = Inr () \<and> entry_hash e = entry_hash f \<and> e \<noteq> f"
  by (simp add: Let_def verify_chain_def verify_loop.simps(2) entry_rehash_def compute_hash_def pre_image_def)

end
