(* ===== verification/Taint.thy ===== *)
theory Taint
  imports Json "HOL-Library.List_Lexorder" "HOL-Library.Char_ord"
begin

text \<open>
  The agent firewall: tool names in requests and responses, taint labels,
  capabilities and rules (\<open>crates/core/src/taint.rs\<close>), the starter policy
  (\<open>crates/gateway/src/firewall.rs\<close>) and the per-run accumulation of labels
  (\<open>AppState::accumulate_taint\<close> in \<open>crates/gateway/src/state.rs\<close>).  A \<open>BTreeSet\<close> of
  strings is a finite set; it is read back in byte order.
\<close>

type_synonym Labels = "string set"

datatype FirewallMode = FwOff | FwShadow | FwEnforce

record TaintRule =
  when_any :: "string list"
  deny :: "string list"

definition opt_array :: "json option \<Rightarrow> json list" where
  "opt_array v = (case Option.bind v as_array of Some xs \<Rightarrow> xs | None \<Rightarrow> [])"

definition opt_list :: "'a option \<Rightarrow> 'a list" where
  "opt_list x = (case x of Some y \<Rightarrow> [y] | None \<Rightarrow> [])"

definition tool_use_names :: "json option \<Rightarrow> string list" where
  "tool_use_names content =
     concat (map (\<lambda>b. if get_str ''type'' b = Some ''tool_use'' then opt_list (get_str ''name'' b) else []) (opt_array content))"

definition function_name :: "json \<Rightarrow> string option" where
  "function_name tc = Option.bind (json_get ''function'' tc) (get_str ''name'')"

definition openai_call_names :: "json option \<Rightarrow> string list" where
  "openai_call_names calls = concat (map (\<lambda>tc. opt_list (function_name tc)) (opt_array calls))"

definition tool_names_in :: "json \<Rightarrow> string list" where
  "tool_names_in v =
     tool_use_names (json_get ''content'' v)
     @ concat (map (\<lambda>m. tool_use_names (json_get ''content'' m) @ openai_call_names (json_get ''tool_calls'' m))
         (opt_array (json_get ''messages'' v)))
     @ concat (map (\<lambda>ch. openai_call_names (Option.bind (json_get ''message'' ch) (json_get ''tool_calls'')))
         (opt_array (json_get ''choices'' v)))"

definition declared_tool_names_in :: "json \<Rightarrow> string list" where
  "declared_tool_names_in v =
     concat (map (\<lambda>t. opt_list (get_str ''name'' t) @ opt_list (function_name t)) (opt_array (json_get ''tools'' v)))"

definition labels_for_tools :: "string list \<Rightarrow> (string \<rightharpoonup> string) \<Rightarrow> Labels" where
  "labels_for_tools names sources = set (map (\<lambda>n. case sources n of Some l \<Rightarrow> l | None \<Rightarrow> ''unclassified'') names)"

definition capabilities_for_tools :: "string list \<Rightarrow> (string \<rightharpoonup> string) \<Rightarrow> string set" where
  "capabilities_for_tools names caps = set (List.map_filter caps names)"

definition denied_by :: "string set \<Rightarrow> TaintRule \<Rightarrow> string list" where
  "denied_by requested rule = filter (\<lambda>c. c \<in> requested) (deny rule)"

definition taint_reason :: "Labels \<Rightarrow> string list \<Rightarrow> string" where
  "taint_reason labels denied =
     ''tainted context ['' @ join '', '' (sorted_list_of_set labels) @ ''] denies capability ['' @ join '', '' denied @ '']''"

fun taint_evaluate :: "Labels \<Rightarrow> string set \<Rightarrow> TaintRule list \<Rightarrow> string option" where
  "taint_evaluate labels requested [] = None"
| "taint_evaluate labels requested (rule # rules) =
     (if \<not> list_ex (\<lambda>l. l \<in> labels) (when_any rule) then taint_evaluate labels requested rules
      else let denied = denied_by requested rule in
        if denied \<noteq> [] then Some (taint_reason labels denied) else taint_evaluate labels requested rules)"

section \<open>Firewall configuration\<close>

record FirewallConfig =
  fw_mode :: FirewallMode
  fw_sources :: "string \<rightharpoonup> string"
  fw_capabilities :: "string \<rightharpoonup> string"
  fw_rules :: "TaintRule list"

definition firewall_disabled :: FirewallConfig where
  "firewall_disabled = \<lparr> fw_mode = FwOff, fw_sources = Map.empty, fw_capabilities = Map.empty, fw_rules = [] \<rparr>"

definition firewall_defaults :: "FirewallMode \<Rightarrow> FirewallConfig" where
  "firewall_defaults mode = \<lparr>
     fw_mode = mode,
     fw_sources = [''web_search'' \<mapsto> ''web'', ''fetch_url'' \<mapsto> ''web'', ''browse'' \<mapsto> ''web'', ''read_email'' \<mapsto> ''email'',
       ''read_upload'' \<mapsto> ''file'', ''read_file'' \<mapsto> ''file'', ''vault_read'' \<mapsto> ''secrets'', ''read_secret'' \<mapsto> ''secrets''],
     fw_capabilities = [''run_shell'' \<mapsto> ''exec'', ''exec'' \<mapsto> ''exec'', ''bash'' \<mapsto> ''exec'', ''write_file'' \<mapsto> ''write'',
       ''db_write'' \<mapsto> ''write'', ''deploy'' \<mapsto> ''write'', ''send_email'' \<mapsto> ''network_egress'',
       ''http_post'' \<mapsto> ''network_egress'', ''send_message'' \<mapsto> ''network_egress''],
     fw_rules = [\<lparr> when_any = [''web'', ''email'', ''file'', ''unclassified''], deny = [''exec'', ''write'', ''network_egress''] \<rparr>,
       \<lparr> when_any = [''secrets''], deny = [''network_egress''] \<rparr>] \<rparr>"

definition firewall_from_env :: "string option \<Rightarrow> FirewallConfig" where
  "firewall_from_env var =
     (if var = Some ''enforce'' then firewall_defaults FwEnforce
      else if var = Some ''shadow'' then firewall_defaults FwShadow
      else firewall_disabled)"

lemma default_source_ran:
  "fw_sources (firewall_defaults mode) t = Some l \<Longrightarrow> l = ''web'' \<or> l = ''email'' \<or> l = ''file'' \<or> l = ''secrets''"
  unfolding firewall_defaults_def FirewallConfig.select_convs
  by (elim map_upd_SomeE; (simp only: simp_thms option.simps)?)

lemma default_capability_ran:
  "fw_capabilities (firewall_defaults mode) t = Some l \<Longrightarrow> l = ''exec'' \<or> l = ''write'' \<or> l = ''network_egress''"
  unfolding firewall_defaults_def FirewallConfig.select_convs
  by (elim map_upd_SomeE; (simp only: simp_thms option.simps)?)

section \<open>Accumulation\<close>

definition run_labels :: "(string \<rightharpoonup> Labels) \<Rightarrow> string \<Rightarrow> Labels" where
  "run_labels taint r = (case taint r of Some l \<Rightarrow> l | None \<Rightarrow> {})"

definition accumulate_taint :: "(string \<rightharpoonup> Labels) \<Rightarrow> string \<Rightarrow> Labels \<Rightarrow> Labels \<times> (string \<rightharpoonup> Labels)" where
  "accumulate_taint taint r new = (let l = run_labels taint r \<union> new in (l, taint(r \<mapsto> l)))"

section \<open>Verdicts\<close>

lemma denied_by_nonempty: "denied_by requested rule \<noteq> [] \<longleftrightarrow> (\<exists>c\<in>set (deny rule). c \<in> requested)"
  by (auto simp: denied_by_def filter_empty_conv)

lemma taint_evaluate_iff:
  "taint_evaluate labels requested rules \<noteq> None \<longleftrightarrow>
     (\<exists>rule\<in>set rules. set (when_any rule) \<inter> labels \<noteq> {} \<and> set (deny rule) \<inter> requested \<noteq> {})"
proof (induction labels requested rules rule: taint_evaluate.induct)
  case (2 labels requested rule rules)
  have hit: "list_ex (\<lambda>l. l \<in> labels) (when_any rule) \<longleftrightarrow> set (when_any rule) \<inter> labels \<noteq> {}"
    by (auto simp: list_ex_iff)
  have den: "denied_by requested rule \<noteq> [] \<longleftrightarrow> set (deny rule) \<inter> requested \<noteq> {}"
    by (auto simp: denied_by_nonempty)
  show ?case
  proof (cases "list_ex (\<lambda>l. l \<in> labels) (when_any rule) \<and> denied_by requested rule \<noteq> []")
    case True
    then show ?thesis using hit den by (simp add: Let_def)
  next
    case False
    then have "taint_evaluate labels requested (rule # rules) = taint_evaluate labels requested rules"
      by (auto simp: Let_def)
    then show ?thesis using 2 False hit den by (auto simp: Let_def)
  qed
qed simp

lemma accumulate_labels:
  "run_labels (snd (accumulate_taint taint r new)) x = run_labels taint x \<union> (if x = r then new else {})"
  by (simp add: accumulate_taint_def run_labels_def Let_def)

lemma accumulate_fold_mono:
  "run_labels taint r \<subseteq> run_labels (fold (\<lambda>(x, new) t. snd (accumulate_taint t x new)) calls taint) r"
proof (induction calls arbitrary: taint)
  case (Cons c calls)
  obtain x new where c: "c = (x, new)" by (cases c)
  have "run_labels taint r \<subseteq> run_labels (snd (accumulate_taint taint x new)) r"
    by (auto simp: accumulate_labels)
  also have "\<dots> \<subseteq> run_labels (fold (\<lambda>(x, new) t. snd (accumulate_taint t x new)) calls (snd (accumulate_taint taint x new))) r"
    by (rule Cons.IH)
  finally show ?case by (simp add: c)
qed simp

text \<open>C11: Taint never washes off: once the rules deny a set of capabilities to a run, they deny it after any
  further sequence of calls of any runs, and for any larger set of capabilities; a verdict depends on
  a rule exactly when one of its labels is on the run and one of its denied capabilities is asked for.\<close>
theorem taint_blocks_forever:
  assumes "taint_evaluate (run_labels taint r) requested rules \<noteq> None" "requested \<subseteq> requested'"
  shows "taint_evaluate (run_labels (fold (\<lambda>(x, new) t. snd (accumulate_taint t x new)) calls taint) r) requested' rules \<noteq> None
    \<and> (\<exists>rule\<in>set rules. set (when_any rule) \<inter> run_labels taint r \<noteq> {} \<and> set (deny rule) \<inter> requested \<noteq> {})"
proof -
  obtain rule where rule: "rule \<in> set rules" "set (when_any rule) \<inter> run_labels taint r \<noteq> {}" "set (deny rule) \<inter> requested \<noteq> {}"
    using assms(1) unfolding taint_evaluate_iff by blast
  moreover have "set (when_any rule) \<inter> run_labels (fold (\<lambda>(x, new) t. snd (accumulate_taint t x new)) calls taint) r \<noteq> {}"
    using rule(2) accumulate_fold_mono [of taint r calls] by blast
  moreover have "set (deny rule) \<inter> requested' \<noteq> {}" using rule(3) assms(2) by blast
  ultimately show ?thesis unfolding taint_evaluate_iff by blast
qed

theorem taint_blocks_forever_witness:
  "taint_evaluate (run_labels (snd (accumulate_taint [''r'' \<mapsto> {''web''}] ''r'' {''email''})) ''r'') {''exec''}
     (fw_rules (firewall_defaults FwEnforce)) \<noteq> None"
proof -
  have "taint_evaluate (run_labels [''r'' \<mapsto> {''web''}] ''r'') {''exec''} (fw_rules (firewall_defaults FwEnforce)) \<noteq> None"
    by (simp add: firewall_defaults_def run_labels_def denied_by_def Let_def)
  from taint_blocks_forever [OF this subset_refl, of "[(''r'', {''email''})]"] show ?thesis by simp
qed

text \<open>The starter policy fails closed on what it does not know: in a run whose labels come from a list of
  tools containing one that is neither in the source table nor a secret reader, every call that
  exercises a mapped capability is denied.\<close>
theorem starter_policy_denies_unknown:
  assumes "cfg = firewall_defaults mode" "t \<in> set names" "fw_sources cfg t \<noteq> Some ''secrets''"
    and "c \<in> set calls" "fw_capabilities cfg c \<noteq> None"
  shows "taint_evaluate (labels_for_tools names (fw_sources cfg)) (capabilities_for_tools calls (fw_capabilities cfg)) (fw_rules cfg) \<noteq> None"
proof -
  let ?untrusted = "[''web'', ''email'', ''file'', ''unclassified'']" and ?caps = "[''exec'', ''write'', ''network_egress'']"
  let ?rule = "\<lparr> when_any = ?untrusted, deny = ?caps \<rparr> :: TaintRule"
  define l where "l = (case fw_sources cfg t of Some l \<Rightarrow> l | None \<Rightarrow> ''unclassified'')"
  obtain k where k: "fw_capabilities cfg c = Some k" using assms(5) by blast
  have rule: "?rule \<in> set (fw_rules cfg)" unfolding assms(1) firewall_defaults_def by simp
  have l: "l \<in> set ?untrusted"
    using assms(3) default_source_ran [of mode t] unfolding assms(1) l_def
    by (cases "fw_sources (firewall_defaults mode) t") auto
  have lin: "l \<in> labels_for_tools names (fw_sources cfg)"
    unfolding labels_for_tools_def l_def set_map using assms(2) by (rule imageI)
  have kc: "k \<in> set ?caps" using default_capability_ran [of mode c] k assms(1) by simp
  have kin: "k \<in> capabilities_for_tools calls (fw_capabilities cfg)"
    using assms(4) k by (force simp: capabilities_for_tools_def List.map_filter_def)
  have "set (when_any ?rule) \<inter> labels_for_tools names (fw_sources cfg) \<noteq> {}"
    unfolding TaintRule.select_convs using l lin by blast
  moreover have "set (deny ?rule) \<inter> capabilities_for_tools calls (fw_capabilities cfg) \<noteq> {}"
    unfolding TaintRule.select_convs using kc kin by blast
  ultimately show ?thesis unfolding taint_evaluate_iff using rule by blast
qed

theorem starter_policy_denies_unknown_witness:
  "taint_evaluate (labels_for_tools [''mystery''] (fw_sources (firewall_defaults FwEnforce)))
     (capabilities_for_tools [''bash''] (fw_capabilities (firewall_defaults FwEnforce))) (fw_rules (firewall_defaults FwEnforce)) \<noteq> None"
  by (rule starter_policy_denies_unknown [OF refl, of "''mystery''" _ _ "''bash''"]) (simp_all add: firewall_defaults_def)

end
