(* ===== verification/Cache.thy ===== *)
theory Cache
  imports F64 Utf8
begin

text \<open>
  The semantic response cache (\<open>crates/core/src/cache.rs\<close>).  \<open>f32\<close> arithmetic is the
  exact result rounded to 24 bits, on the value type of \<open>F64\<close>; a \<open>char\<close> is its
  UTF-8 byte group.  Parameters: the 64-bit \<open>DefaultHasher\<close> on the bytes written to
  it, and the Unicode tables behind \<open>is_alphanumeric\<close> and \<open>to_lowercase\<close>.  The cache
  is polymorphic in its embedder, as the trait object of the source is;
  \<open>hash_embed\<close> is the shipped one.
\<close>

section \<open>Single precision\<close>

definition f32_round :: "rat \<Rightarrow> f64" where
  "f32_round q =
     (if q = 0 then Fin 0
      else let u = pow2 (max (ilog2 \<bar>q\<bar> - 23) (- 149)); r = of_int (round_half_even (q / u)) * u in
        if pow2 128 \<le> r then PInf else if r \<le> - pow2 128 then NInf else Fin r)"

fun f32_add :: "f64 \<Rightarrow> f64 \<Rightarrow> f64" where
  "f32_add (Fin a) (Fin b) = f32_round (a + b)"
| "f32_add NaN _ = NaN"
| "f32_add _ NaN = NaN"
| "f32_add PInf NInf = NaN"
| "f32_add NInf PInf = NaN"
| "f32_add PInf _ = PInf"
| "f32_add _ PInf = PInf"
| "f32_add NInf _ = NInf"
| "f32_add _ NInf = NInf"

definition inf_of :: "bool \<Rightarrow> f64" where
  "inf_of pos = (if pos then PInf else NInf)"

fun f32_mul :: "f64 \<Rightarrow> f64 \<Rightarrow> f64" where
  "f32_mul (Fin a) (Fin b) = f32_round (a * b)"
| "f32_mul NaN _ = NaN"
| "f32_mul _ NaN = NaN"
| "f32_mul (Fin a) y = (if a = 0 then NaN else inf_of ((0 < a) = (y = PInf)))"
| "f32_mul x (Fin b) = (if b = 0 then NaN else inf_of ((0 < b) = (x = PInf)))"
| "f32_mul x y = inf_of (x = y)"

text \<open>A zero divisor is a positive zero in the only uses (a product of two norms).\<close>
fun f32_div :: "f64 \<Rightarrow> f64 \<Rightarrow> f64" where
  "f32_div (Fin a) (Fin b) = (if b = 0 then (if a = 0 then NaN else inf_of (0 < a)) else f32_round (a / b))"
| "f32_div NaN _ = NaN"
| "f32_div _ NaN = NaN"
| "f32_div (Fin a) y = Fin 0"
| "f32_div x (Fin b) = inf_of ((0 \<le> b) = (x = PInf))"
| "f32_div x y = NaN"

text \<open>The integer square root, one bit at a time.\<close>
fun isqrt :: "nat \<Rightarrow> nat" where
  "isqrt n = (if n = 0 then 0 else let r = 2 * isqrt (n div 4) in if (r + 1) * (r + 1) \<le> n then r + 1 else r)"

declare isqrt.simps [simp del]

text \<open>Correctly rounded square root: 24 significant bits from the integer root of the scaled argument.\<close>
fun f32_sqrt :: "f64 \<Rightarrow> f64" where
  "f32_sqrt (Fin q) =
     (if q < 0 then NaN else if q = 0 then Fin 0
      else let u = pow2 (ilog2 q div 2 - 23); x = q / (u * u); r = isqrt (nat \<lfloor>x\<rfloor>);
               n = (if (of_nat r + 1 / 2) * (of_nat r + 1 / 2) < x then r + 1 else r)
           in Fin (of_nat n * u))"
| "f32_sqrt PInf = PInf"
| "f32_sqrt _ = NaN"

definition f32_gt :: "f64 \<Rightarrow> f64 \<Rightarrow> bool" where
  "f32_gt a b \<longleftrightarrow> f64_ge a b \<and> \<not> f64_ge b a"

definition f32_sum :: "f64 list \<Rightarrow> f64" where
  "f32_sum xs = foldl f32_add (Fin 0) xs"

section \<open>Embedding\<close>

function chars :: "string \<Rightarrow> string list" where
  "chars [] = []"
| "chars (c # cs) = (c # takeWhile is_cont_byte cs) # chars (dropWhile is_cont_byte cs)"
  by pat_completeness auto
termination by (relation "measure length") (auto simp: le_imp_less_Suc length_dropWhile_le)

fun windows3 :: "'a list \<Rightarrow> 'a list list" where
  "windows3 (a # b # c # r) = [a, b, c] # windows3 (b # c # r)"
| "windows3 _ = []"

record Unicode =
  is_alphanumeric :: "string \<Rightarrow> bool"
  to_lowercase :: "string \<Rightarrow> string"

text \<open>\<open>str::hash\<close> feeds the bytes and a terminating 0xFF.\<close>
definition str_hash_bytes :: "string \<Rightarrow> string" where
  "str_hash_bytes s = s @ [CHR 0xFF]"

definition embedder_dim :: "usize \<Rightarrow> usize" where
  "embedder_dim d = max d 16"

definition bump :: "(string \<Rightarrow> u64) \<Rightarrow> f64 list \<Rightarrow> string \<Rightarrow> f64 list" where
  "bump hasher v token =
     (let idx = hasher (str_hash_bytes token) mod length v in v[idx := f32_add (v ! idx) (Fin 1)])"

definition l2_norm :: "f64 list \<Rightarrow> f64" where
  "l2_norm v = f32_sqrt (f32_sum (map (\<lambda>x. f32_mul x x) v))"

definition hash_embed :: "Unicode \<Rightarrow> (string \<Rightarrow> u64) \<Rightarrow> usize \<Rightarrow> string \<Rightarrow> f64 list" where
  "hash_embed uni hasher d txt =
     (let cs = chars (to_lowercase uni txt);
          v = foldl (bump hasher) (replicate d (Fin 0))
                (if length cs < 3 then [concat cs] else map concat (windows3 cs));
          norm = l2_norm v
      in if f32_gt norm (Fin 0) then map (\<lambda>x. f32_div x norm) v else v)"

definition cosine :: "f64 list \<Rightarrow> f64 list \<Rightarrow> f64" where
  "cosine a b =
     (if length a \<noteq> length b then Fin 0
      else let d = f32_sum (map2 f32_mul a b); na = l2_norm a; nb = l2_norm b in
        if na = Fin 0 \<or> nb = Fin 0 then Fin 0 else f32_div d (f32_mul na nb))"

section \<open>Entities\<close>

fun split_on :: "('a \<Rightarrow> bool) \<Rightarrow> 'a list \<Rightarrow> 'a list list" where
  "split_on P [] = [[]]"
| "split_on P (c # cs) =
     (if P c then [] # split_on P cs
      else (case split_on P cs of [] \<Rightarrow> [[c]] | w # ws \<Rightarrow> (c # w) # ws))"

definition trimmed_char :: "Unicode \<Rightarrow> string \<Rightarrow> bool" where
  "trimmed_char uni c \<longleftrightarrow> \<not> is_alphanumeric uni c \<and> c \<noteq> ''@'' \<and> c \<noteq> ''.'' \<and> c \<noteq> '':'' \<and> c \<noteq> ''/''"

definition entity_token :: "Unicode \<Rightarrow> string list \<Rightarrow> string" where
  "entity_token uni raw =
     to_lowercase uni (concat (rev (dropWhile (trimmed_char uni) (rev (dropWhile (trimmed_char uni) raw)))))"

definition is_entity :: "string \<Rightarrow> bool" where
  "is_entity token \<longleftrightarrow> token \<noteq> [] \<and> (CHR ''@'' \<in> set token \<or> starts_with token ''http'' \<or> list_ex is_digit token)"

definition extract_entities :: "Unicode \<Rightarrow> string \<Rightarrow> string set" where
  "extract_entities uni txt =
     set (filter is_entity (map (entity_token uni) (split_on (\<lambda>c. c \<in> set ws_encodings) (chars txt))))"

section \<open>The cache\<close>

datatype CacheMode = CacheOff | CacheShadow | CacheOn

record CacheConfig =
  c_mode :: CacheMode
  c_threshold :: f64
  ttl_millis :: i64
  max_per_partition :: usize
  entity_guard :: bool
  length_ratio_max :: f64

definition CacheConfig_default :: CacheConfig where
  "CacheConfig_default = \<lparr> c_mode = CacheOff, c_threshold = f32_round (97 / 100), ttl_millis = 24 * 60 * 60 * 1000,
     max_per_partition = 10000, entity_guard = True, length_ratio_max = f32_round (3 / 2) \<rparr>"

record Lookup =
  l_response :: string
  l_content_type :: string
  similarity :: f64
  l_saved_microusd :: i64

record Entry =
  embedding :: "f64 list"
  entities :: "string set"
  core_len :: usize
  e_response :: string
  e_content_type :: string
  e_cost_microusd :: i64
  created_millis :: i64

record SemanticCache =
  embed :: "string \<Rightarrow> f64 list"
  config :: CacheConfig
  store :: "u64 \<rightharpoonup> Entry list"

definition cache_new :: "(string \<Rightarrow> f64 list) \<Rightarrow> CacheConfig \<Rightarrow> SemanticCache" where
  "cache_new em cfg = \<lparr> embed = em, config = cfg, store = Map.empty \<rparr>"

definition cache_mode :: "SemanticCache \<Rightarrow> CacheMode" where
  "cache_mode c = c_mode (config c)"

definition partition_key :: "(string \<Rightarrow> u64) \<Rightarrow> string \<Rightarrow> string \<Rightarrow> string \<Rightarrow> string \<Rightarrow> string \<Rightarrow> u64" where
  "partition_key hasher model system tools task_type tenant =
     hasher (concat (map str_hash_bytes [model, system, tools, task_type, tenant]))"

definition ratio :: "usize \<Rightarrow> usize \<Rightarrow> f64" where
  "ratio a b =
     (let a = f32_round (of_nat (max a 1)); b = f32_round (of_nat (max b 1))
      in if f32_gt a b then f32_div a b else f32_div b a)"

text \<open>The guards an entry passes to be compared, and the similarity it is ranked by.\<close>
definition guards :: "CacheConfig \<Rightarrow> string set \<Rightarrow> usize \<Rightarrow> Entry \<Rightarrow> bool" where
  "guards cfg ents len e \<longleftrightarrow> \<not> (entity_guard cfg \<and> entities e \<noteq> ents) \<and> \<not> f32_gt (ratio len (core_len e)) (length_ratio_max cfg)"

definition consider_entry :: "CacheConfig \<Rightarrow> f64 list \<Rightarrow> string set \<Rightarrow> usize \<Rightarrow> (f64 \<times> Entry) option \<Rightarrow> Entry \<Rightarrow> (f64 \<times> Entry) option" where
  "consider_entry cfg query ents len best e =
     (if guards cfg ents len e
      then let sim = cosine query (embedding e) in
        if f64_ge sim (c_threshold cfg) \<and> (case best of Some (b, _) \<Rightarrow> f32_gt sim b | None \<Rightarrow> True) then Some (sim, e) else best
      else best)"

definition fresh_entry :: "CacheConfig \<Rightarrow> i64 \<Rightarrow> Entry \<Rightarrow> bool" where
  "fresh_entry cfg now e \<longleftrightarrow> wrap_i64 (now - created_millis e) \<le> ttl_millis cfg"

definition cache_get :: "Unicode \<Rightarrow> SemanticCache \<Rightarrow> u64 \<Rightarrow> string \<Rightarrow> i64 \<Rightarrow> Lookup option \<times> SemanticCache" where
  "cache_get uni c p core now =
     (if c_mode (config c) = CacheOff then (None, c)
      else case store c p of
        None \<Rightarrow> (None, c)
      | Some es \<Rightarrow>
          let es' = filter (fresh_entry (config c) now) es;
              best = foldl (consider_entry (config c) (embed c core) (extract_entities uni core) (chars_count core)) None es'
          in (map_option (\<lambda>(sim, e). \<lparr> l_response = e_response e, l_content_type = e_content_type e,
                 similarity = sim, l_saved_microusd = e_cost_microusd e \<rparr>) best,
              c\<lparr>store := (store c)(p \<mapsto> es')\<rparr>))"

definition mk_entry :: "Unicode \<Rightarrow> SemanticCache \<Rightarrow> string \<Rightarrow> string \<Rightarrow> string \<Rightarrow> i64 \<Rightarrow> i64 \<Rightarrow> Entry" where
  "mk_entry uni c core response ct cost now =
     \<lparr> embedding = embed c core, entities = extract_entities uni core, core_len = chars_count core,
       e_response = response, e_content_type = ct, e_cost_microusd = cost, created_millis = now \<rparr>"

definition cache_put :: "Unicode \<Rightarrow> SemanticCache \<Rightarrow> u64 \<Rightarrow> string \<Rightarrow> string \<Rightarrow> string \<Rightarrow> i64 \<Rightarrow> i64 \<Rightarrow> SemanticCache" where
  "cache_put uni c p core response ct cost now =
     (if c_mode (config c) = CacheOff then c
      else let es = (case store c p of Some es \<Rightarrow> es | None \<Rightarrow> []) @ [mk_entry uni c core response ct cost now]
           in c\<lparr>store := (store c)(p \<mapsto> last_n (max_per_partition (config c)) es)\<rparr>)"

section \<open>Provenance of hits\<close>

datatype cache_op =
    CPut u64 string string string i64 i64
  | CGet u64 string i64

fun apply_op :: "Unicode \<Rightarrow> cache_op \<Rightarrow> SemanticCache \<Rightarrow> SemanticCache" where
  "apply_op uni (CPut p core response ct cost now) c = cache_put uni c p core response ct cost now"
| "apply_op uni (CGet p core now) c = snd (cache_get uni c p core now)"

definition cache_after :: "Unicode \<Rightarrow> (string \<Rightarrow> f64 list) \<Rightarrow> CacheConfig \<Rightarrow> cache_op list \<Rightarrow> SemanticCache" where
  "cache_after uni em cfg ops = fold (apply_op uni) ops (cache_new em cfg)"

lemma apply_op_fixed [simp]: "embed (apply_op uni op c) = embed c" "config (apply_op uni op c) = config c"
  by (cases op; simp add: cache_put_def cache_get_def Let_def split: option.splits)+

lemma last_n_subset: "set (last_n n xs) \<subseteq> set xs"
  by (auto simp: last_n_def dest: in_set_dropD)

definition entries_of :: "SemanticCache \<Rightarrow> u64 \<Rightarrow> Entry list" where
  "entries_of c p = (case store c p of Some es \<Rightarrow> es | None \<Rightarrow> [])"

lemma entries_put:
  "entries_of (cache_put uni c q core response ct cost now) p =
     (if p = q \<and> c_mode (config c) \<noteq> CacheOff
      then last_n (max_per_partition (config c)) (entries_of c p @ [mk_entry uni c core response ct cost now]) else entries_of c p)"
  by (simp add: entries_of_def cache_put_def Let_def)

lemma entries_get:
  "entries_of (snd (cache_get uni c q core now)) p =
     (if p = q \<and> c_mode (config c) \<noteq> CacheOff then filter (fresh_entry (config c) now) (entries_of c p) else entries_of c p)"
  by (simp add: entries_of_def cache_get_def Let_def split: option.splits)

lemma cache_after_fixed [simp]: "embed (cache_after uni em cfg ops) = em" "config (cache_after uni em cfg ops) = cfg"
proof -
  have "embed (fold (apply_op uni) ops c) = embed c \<and> config (fold (apply_op uni) ops c) = config c" for c
    by (induction ops arbitrary: c) simp_all
  then show "embed (cache_after uni em cfg ops) = em" "config (cache_after uni em cfg ops) = cfg"
    by (simp_all add: cache_after_def cache_new_def)
qed

lemma cache_after_snoc: "cache_after uni em cfg (ops @ [op]) = apply_op uni op (cache_after uni em cfg ops)"
  by (simp add: cache_after_def)

lemma entries_provenance:
  "e \<in> set (entries_of (cache_after uni em cfg ops) p) \<Longrightarrow>
     \<exists>core response ct cost now. CPut p core response ct cost now \<in> set ops
       \<and> e = mk_entry uni (cache_new em cfg) core response ct cost now"
proof (induction ops rule: rev_induct)
  case Nil
  then show ?case by (simp add: cache_after_def cache_new_def entries_of_def)
next
  case (snoc op ops)
  let ?c = "cache_after uni em cfg ops"
  have mk: "mk_entry uni ?c core response ct cost now = mk_entry uni (cache_new em cfg) core response ct cost now" for core response ct cost now
    by (simp add: mk_entry_def cache_new_def)
  show ?case
  proof (cases op)
    case (CPut q core response ct cost now)
    then have "e \<in> set (entries_of ?c p) \<or> (p = q \<and> e = mk_entry uni ?c core response ct cost now)"
      using snoc.prems last_n_subset by (fastforce simp: cache_after_snoc entries_put split: if_splits)
    then show ?thesis
    proof
      assume "e \<in> set (entries_of ?c p)"
      then show ?thesis using snoc.IH by fastforce
    next
      assume "p = q \<and> e = mk_entry uni ?c core response ct cost now"
      then have "CPut p core response ct cost now \<in> set (ops @ [op])" "e = mk_entry uni (cache_new em cfg) core response ct cost now"
        using CPut mk by simp_all
      then show ?thesis by blast
    qed
  next
    case (CGet q core now)
    then have "e \<in> set (entries_of ?c p)" using snoc.prems by (auto simp: cache_after_snoc entries_get split: if_splits)
    then show ?thesis using snoc.IH by fastforce
  qed
qed

lemma entries_bounded: "length (entries_of (cache_after uni em cfg ops) p) \<le> max_per_partition cfg"
proof (induction ops rule: rev_induct)
  case Nil
  then show ?case by (simp add: cache_after_def cache_new_def entries_of_def)
next
  case (snoc op ops)
  then show ?case
    by (cases op) (auto simp: cache_after_snoc entries_put entries_get intro: order_trans [OF length_filter_le])
qed

lemma best_entry:
  assumes "foldl (consider_entry cfg query ents len) best es = Some (sim, e)"
    and "\<And>s x. best = Some (s, x) \<Longrightarrow> guards cfg ents len x \<and> s = cosine query (embedding x) \<and> f64_ge s (c_threshold cfg)"
  shows "(best = Some (sim, e) \<or> e \<in> set es) \<and> guards cfg ents len e \<and> sim = cosine query (embedding e) \<and> f64_ge sim (c_threshold cfg)"
  using assms
proof (induction es arbitrary: best)
  case (Cons x es)
  let ?b = "consider_entry cfg query ents len best x"
  have step: "?b = best \<or> (?b = Some (cosine query (embedding x), x) \<and> guards cfg ents len x \<and> f64_ge (cosine query (embedding x)) (c_threshold cfg))"
    by (auto simp: consider_entry_def Let_def)
  have ok: "guards cfg ents len y \<and> s = cosine query (embedding y) \<and> f64_ge s (c_threshold cfg)" if "?b = Some (s, y)" for s y
    using step that Cons.prems(2) by auto
  have "foldl (consider_entry cfg query ents len) ?b es = Some (sim, e)" using Cons.prems(1) by simp
  then have "(?b = Some (sim, e) \<or> e \<in> set es) \<and> guards cfg ents len e \<and> sim = cosine query (embedding e) \<and> f64_ge sim (c_threshold cfg)"
    using ok by (rule Cons.IH)
  then show ?case using step by auto
qed auto

text \<open>C21: A cache hit is always an honest one: after any sequence of lookups and stores, a response served for
  a request was stored earlier under the same partition key for a request with (under the entity
  guard) exactly the same entities, a text length within the allowed ratio and at least the
  threshold similarity, is not older than the time to live, and reports the stored cost as saved.\<close>
theorem cache_hit_provenance:
  assumes "fst (cache_get uni (cache_after uni em cfg ops) p core now) = Some l"
  shows "\<exists>core' ct created. CPut p core' (l_response l) ct (l_saved_microusd l) created \<in> set ops
    \<and> l_content_type l = ct \<and> wrap_i64 (now - created) \<le> ttl_millis cfg
    \<and> (entity_guard cfg \<longrightarrow> extract_entities uni core' = extract_entities uni core)
    \<and> \<not> f32_gt (ratio (chars_count core) (chars_count core')) (length_ratio_max cfg)
    \<and> similarity l = cosine (em core) (em core') \<and> f64_ge (similarity l) (c_threshold cfg)"
proof -
  let ?c = "cache_after uni em cfg ops"
  let ?g = "consider_entry cfg (em core) (extract_entities uni core) (chars_count core)"
  obtain es where es: "store ?c p = Some es" using assms by (auto simp: cache_get_def split: if_splits option.splits)
  obtain sim e where b: "foldl ?g None (filter (fresh_entry cfg now) es) = Some (sim, e)"
    and l: "l = \<lparr> l_response = e_response e, l_content_type = e_content_type e, similarity = sim, l_saved_microusd = e_cost_microusd e \<rparr>"
    using assms es by (auto simp: cache_get_def Let_def split: if_splits)
  have e: "e \<in> set (filter (fresh_entry cfg now) es)" "guards cfg (extract_entities uni core) (chars_count core) e"
    "sim = cosine (em core) (embedding e)" "f64_ge sim (c_threshold cfg)"
    using best_entry [OF b] by auto
  then have "e \<in> set (entries_of ?c p)" "fresh_entry cfg now e" using es by (simp_all add: entries_of_def)
  then obtain core' response ct cost created where "CPut p core' response ct cost created \<in> set ops"
      "e = mk_entry uni (cache_new em cfg) core' response ct cost created"
    using entries_provenance by blast
  then show ?thesis using l e \<open>fresh_entry cfg now e\<close>
    by (auto simp: mk_entry_def cache_new_def fresh_entry_def guards_def)
qed

lemma f32_round_1 [simp]: "f32_round 1 = Fin 1"
proof -
  have "ilog2 1 = 0" by (simp add: ilog2_def)
  then show ?thesis by (simp add: f32_round_def Let_def round_half_even_def pow2_def)
qed

theorem cache_hit_provenance_witness:
  "\<exists>core' ct created. CPut 7 core' ''R'' ct 5 created \<in> set [CPut 7 ''5'' ''R'' ''t'' 5 0]
     \<and> ct = ''t'' \<and> wrap_i64 (10 - created) \<le> 100"
proof -
  let ?uni = "\<lparr> is_alphanumeric = \<lambda>_. True, to_lowercase = \<lambda>s. s \<rparr>"
  let ?cfg = "\<lparr> c_mode = CacheOn, c_threshold = Fin 0, ttl_millis = 100, max_per_partition = 3, entity_guard = True, length_ratio_max = Fin 2 \<rparr>"
  let ?c = "cache_after ?uni (\<lambda>_. []) ?cfg [CPut 7 ''5'' ''R'' ''t'' 5 0]"
  have n: "chars_count ''5'' = 1" by (simp add: chars_count_def is_cont_byte_def)
  have r: "\<not> f32_gt (ratio 1 1) (Fin 2)" by (simp add: ratio_def f32_gt_def)
  have c: "cosine [] [] = Fin 0" by (simp add: cosine_def l2_norm_def f32_sum_def)
  have "fst (cache_get ?uni ?c 7 ''5'' 10) = Some \<lparr> l_response = ''R'', l_content_type = ''t'', similarity = Fin 0, l_saved_microusd = 5 \<rparr>"
    using r by (simp add: cache_get_def cache_after_def cache_put_def cache_new_def last_n_def fresh_entry_def wrap_i64_within
        consider_entry_def guards_def mk_entry_def n c)
  from cache_hit_provenance [OF this] show ?thesis by simp
qed

section \<open>Partitions\<close>

text \<open>Two requests share a partition only if all five parts of the key agree, or the hash collides:
  the bytes hashed determine the parts (0xFF occurs in no UTF-8 text).\<close>
lemma partition_bytes_inject:
  assumes "\<forall>s\<in>set xs \<union> set ys. CHR 0xFF \<notin> set s" "length xs = length ys"
  shows "concat (map str_hash_bytes xs) = concat (map str_hash_bytes ys) \<longleftrightarrow> xs = ys"
  using assms
proof (induction xs arbitrary: ys)
  case (Cons x xs)
  then obtain y zs where ys: "ys = y # zs" by (cases ys) auto
  show ?case
  proof
    assume "concat (map str_hash_bytes (x # xs)) = concat (map str_hash_bytes ys)"
    then have "x @ [CHR 0xFF] @ concat (map str_hash_bytes xs) = y @ [CHR 0xFF] @ concat (map str_hash_bytes zs)"
      by (simp add: ys str_hash_bytes_def)
    then have "x = y \<and> concat (map str_hash_bytes xs) = concat (map str_hash_bytes zs)"
      using Cons.prems ys by (intro sep_append_inject) auto
    then show "x # xs = ys" using Cons.IH [of zs] Cons.prems ys by simp
  qed simp
qed simp

end
