(* ===== verification/IdentityMap.thy ===== *)
theory IdentityMap
  imports Money Utf8
begin

text \<open>
  The declarative identity map (\<open>crates/gateway/src/identitymap.rs\<close>): parsing of the
  deserialised document into units, key bindings and prefix bindings, and the
  resolution of a call's unit and key/agent mismatch.  Reading the file and the JSON
  deserialiser are parameters of \<open>identity_from_path\<close>; the rendered wording of a
  validation error is represented by its cause and the values it quotes.
\<close>

datatype StrictMode = StrictOff | StrictWarn | StrictEnforce

definition strict_from_str :: "(string \<Rightarrow> string) \<Rightarrow> string \<Rightarrow> (string, StrictMode) result" where
  "strict_from_str to_lower s =
     (let m = to_lower (trim s) in
      if m = ''off'' then Inr StrictOff
      else if m = ''warn'' then Inr StrictWarn
      else if m = ''enforce'' then Inr StrictEnforce
      else Inl (''invalid strict mode '' @ [CHR 0x27] @ m @ [CHR 0x27] @ '' (expected off|warn|enforce)''))"

definition strict_wire_str :: "StrictMode \<Rightarrow> string" where
  "strict_wire_str m = (case m of StrictOff \<Rightarrow> ''off'' | StrictWarn \<Rightarrow> ''warn'' | StrictEnforce \<Rightarrow> ''enforce'')"

datatype Pattern = Literal string | Prefix string

definition parse_pattern :: "string \<Rightarrow> (string, Pattern) result" where
  "parse_pattern raw =
     (let n = count_list raw (CHR ''*'') in
      if n = 0 then Inr (Literal raw)
      else if n = 1 \<and> ends_with raw ''*'' then Inr (Prefix (take (length raw - 1) raw))
      else Inl raw)"

definition pattern_matches :: "Pattern \<Rightarrow> string \<Rightarrow> bool" where
  "pattern_matches p agent_id = (case p of Literal s \<Rightarrow> s = agent_id | Prefix q \<Rightarrow> starts_with agent_id q)"

definition as_pattern_str :: "Pattern \<Rightarrow> string" where
  "as_pattern_str p = (case p of Literal s \<Rightarrow> s | Prefix q \<Rightarrow> q @ ''*'')"

record KeyBinding =
  kb_unit :: string
  kb_agents :: "Pattern list"
  kb_created :: "string option"

record PrefixBinding =
  pb_pattern :: Pattern
  pb_unit :: string

record IdentityMap =
  im_units :: "string \<rightharpoonup> microusd option"
  im_keys :: "string \<rightharpoonup> KeyBinding"
  im_prefixes :: "PrefixBinding list"

definition IdentityMap_default :: IdentityMap where
  "IdentityMap_default = \<lparr> im_units = Map.empty, im_keys = Map.empty, im_prefixes = [] \<rparr>"

record Resolution =
  res_unit :: "string option"
  res_mismatch :: "string option"

record WireUnit =
  wu_id :: string
  budget_usd_month :: "f64 option"

record WireKey =
  wk_key_id :: string
  wk_unit :: string
  wk_agents :: "string list"
  wk_created :: "string option"

record WirePrefix =
  wp_match :: string
  wp_unit :: string

record WireMap =
  wm_units :: "WireUnit list"
  wm_keys :: "WireKey list"
  wm_prefixes :: "WirePrefix list"

datatype InvalidCause =
    BlankUnitId string
  | DuplicateUnit string
  | BadBudget string f64
  | BlankKeyId string
  | DuplicateKey string
  | KeyUnknownUnit string string
  | PrefixUnknownUnit string string
  | BadPattern string

datatype LoadError = LoadIo | LoadParse | LoadInvalid InvalidCause

definition blank :: "string \<Rightarrow> bool" where
  "blank s \<longleftrightarrow> trim s = []"

text \<open>\<open>v.is_finite() && v > 0.0\<close>.\<close>
definition good_budget :: "f64 \<Rightarrow> bool" where
  "good_budget v = (case v of Fin q \<Rightarrow> 0 < q | _ \<Rightarrow> False)"

fun build_units :: "WireUnit list \<Rightarrow> (string \<rightharpoonup> microusd option) \<Rightarrow> (InvalidCause, string \<rightharpoonup> microusd option) result" where
  "build_units [] units = Inr units"
| "build_units (u # us) units =
     (if blank (wu_id u) then Inl (BlankUnitId (wu_id u))
      else if units (wu_id u) \<noteq> None then Inl (DuplicateUnit (wu_id u))
      else case budget_usd_month u of
        None \<Rightarrow> build_units us (units(wu_id u \<mapsto> None))
      | Some v \<Rightarrow> if good_budget v then build_units us (units(wu_id u \<mapsto> Some (from_usd v))) else Inl (BadBudget (wu_id u) v))"

fun parse_patterns :: "string list \<Rightarrow> (InvalidCause, Pattern list) result" where
  "parse_patterns [] = Inr []"
| "parse_patterns (p # ps) = (case parse_pattern p of
     Inl e \<Rightarrow> Inl (BadPattern e)
   | Inr q \<Rightarrow> (case parse_patterns ps of Inl e \<Rightarrow> Inl e | Inr qs \<Rightarrow> Inr (q # qs)))"

definition norm_created :: "string option \<Rightarrow> string option" where
  "norm_created c = (case c of Some s \<Rightarrow> if \<not> blank s then Some s else None | None \<Rightarrow> None)"

fun build_keys :: "(string \<rightharpoonup> microusd option) \<Rightarrow> WireKey list \<Rightarrow> (string \<rightharpoonup> KeyBinding) \<Rightarrow> (InvalidCause, string \<rightharpoonup> KeyBinding) result" where
  "build_keys units [] keys = Inr keys"
| "build_keys units (k # ks) keys =
     (if blank (wk_key_id k) then Inl (BlankKeyId (wk_key_id k))
      else if keys (wk_key_id k) \<noteq> None then Inl (DuplicateKey (wk_key_id k))
      else if units (wk_unit k) = None then Inl (KeyUnknownUnit (wk_key_id k) (wk_unit k))
      else case parse_patterns (wk_agents k) of
        Inl e \<Rightarrow> Inl e
      | Inr ps \<Rightarrow> build_keys units ks
          (keys(wk_key_id k \<mapsto> \<lparr> kb_unit = wk_unit k, kb_agents = ps, kb_created = norm_created (wk_created k) \<rparr>)))"

fun build_prefixes :: "(string \<rightharpoonup> microusd option) \<Rightarrow> WirePrefix list \<Rightarrow> (InvalidCause, PrefixBinding list) result" where
  "build_prefixes units [] = Inr []"
| "build_prefixes units (p # ps) =
     (if units (wp_unit p) = None then Inl (PrefixUnknownUnit (wp_match p) (wp_unit p))
      else case parse_pattern (wp_match p) of
        Inl e \<Rightarrow> Inl (BadPattern e)
      | Inr q \<Rightarrow> (case build_prefixes units ps of
          Inl e \<Rightarrow> Inl e
        | Inr bs \<Rightarrow> Inr (\<lparr> pb_pattern = q, pb_unit = wp_unit p \<rparr> # bs)))"

definition identity_build :: "WireMap \<Rightarrow> (LoadError, IdentityMap) result" where
  "identity_build wire =
     (case build_units (wm_units wire) Map.empty of
        Inl e \<Rightarrow> Inl (LoadInvalid e)
      | Inr units \<Rightarrow> (case build_keys units (wm_keys wire) Map.empty of
          Inl e \<Rightarrow> Inl (LoadInvalid e)
        | Inr keys \<Rightarrow> (case build_prefixes units (wm_prefixes wire) of
            Inl e \<Rightarrow> Inl (LoadInvalid e)
          | Inr ps \<Rightarrow> Inr \<lparr> im_units = units, im_keys = keys, im_prefixes = ps \<rparr>)))"

definition identity_parse :: "(string \<Rightarrow> WireMap option) \<Rightarrow> string \<Rightarrow> (LoadError, IdentityMap) result" where
  "identity_parse from_str raw =
     (let trimmed = trim raw in
      if trimmed = [] then Inr IdentityMap_default
      else case from_str trimmed of None \<Rightarrow> Inl LoadParse | Some wire \<Rightarrow> identity_build wire)"

definition identity_from_path :: "(string \<Rightarrow> WireMap option) \<Rightarrow> string option \<Rightarrow> (LoadError, IdentityMap) result" where
  "identity_from_path from_str contents = (case contents of None \<Rightarrow> Inl LoadIo | Some raw \<Rightarrow> identity_parse from_str raw)"

definition identity_enabled :: "IdentityMap \<Rightarrow> bool" where
  "identity_enabled m \<longleftrightarrow> im_units m \<noteq> Map.empty \<or> im_keys m \<noteq> Map.empty \<or> im_prefixes m \<noteq> []"

definition key_resolution :: "KeyBinding \<Rightarrow> string \<Rightarrow> Resolution" where
  "key_resolution b agent_id =
     (if kb_agents b = [] then \<lparr> res_unit = Some (kb_unit b), res_mismatch = None \<rparr>
      else if agent_id = [] then \<lparr> res_unit = Some (kb_unit b), res_mismatch = Some ''agent_id_missing'' \<rparr>
      else \<lparr> res_unit = Some (kb_unit b),
             res_mismatch = (if list_ex (\<lambda>p. pattern_matches p agent_id) (kb_agents b) then None else Some ''agent_id_not_allowed'') \<rparr>)"

definition prefix_resolution :: "PrefixBinding list \<Rightarrow> string \<Rightarrow> Resolution" where
  "prefix_resolution ps agent_id =
     \<lparr> res_unit = map_option pb_unit (List.find (\<lambda>p. pattern_matches (pb_pattern p) agent_id) ps), res_mismatch = None \<rparr>"

definition identity_resolve :: "IdentityMap \<Rightarrow> string \<Rightarrow> string \<Rightarrow> Resolution" where
  "identity_resolve m key_id agent_id =
     (case (if key_id \<noteq> [] then im_keys m key_id else None) of
        Some b \<Rightarrow> key_resolution b agent_id
      | None \<Rightarrow> prefix_resolution (im_prefixes m) agent_id)"

definition unit_budget :: "IdentityMap \<Rightarrow> string \<Rightarrow> microusd option" where
  "unit_budget m u = Option.bind (im_units m u) (\<lambda>b. b)"

definition unit_budgets :: "IdentityMap \<Rightarrow> string \<rightharpoonup> microusd" where
  "unit_budgets m = (\<lambda>u. Option.bind (im_units m u) (\<lambda>b. b))"

definition identity_key_ids :: "IdentityMap \<Rightarrow> string set" where
  "identity_key_ids m = dom (im_keys m)"

record KeyBindingInfo =
  kbi_unit :: string
  kbi_agents :: "string list"
  kbi_created :: "string option"

definition key_binding :: "IdentityMap \<Rightarrow> string \<Rightarrow> KeyBindingInfo option" where
  "key_binding m key_id = map_option (\<lambda>b. \<lparr> kbi_unit = kb_unit b, kbi_agents = map as_pattern_str (kb_agents b), kbi_created = kb_created b \<rparr>) (im_keys m key_id)"

section \<open>Patterns\<close>

lemma ends_with_snoc: "ends_with s [c] \<longleftrightarrow> (\<exists>t. s = t @ [c])"
  by (cases s rule: rev_cases) (auto simp: ends_with_def)

lemma parse_pattern_Inr:
  assumes "parse_pattern raw = Inr p"
  shows "as_pattern_str p = raw"
    and "pattern_matches p a \<longleftrightarrow> (if CHR ''*'' \<in> set raw then starts_with a (butlast raw) else a = raw)"
proof -
  consider "count_list raw (CHR ''*'') = 0" "p = Literal raw"
    | t where "raw = t @ ''*''" "p = Prefix t"
    using assms by (auto simp: parse_pattern_def Let_def ends_with_snoc split: if_splits)
  then have "as_pattern_str p = raw \<and> (pattern_matches p a \<longleftrightarrow> (if CHR ''*'' \<in> set raw then starts_with a (butlast raw) else a = raw))"
    by cases (auto simp: as_pattern_str_def pattern_matches_def count_list_0_iff)
  then show "as_pattern_str p = raw" "pattern_matches p a \<longleftrightarrow> (if CHR ''*'' \<in> set raw then starts_with a (butlast raw) else a = raw)"
    by simp_all
qed

definition raw_matches :: "string \<Rightarrow> string \<Rightarrow> bool" where
  "raw_matches raw a \<longleftrightarrow> (if CHR ''*'' \<in> set raw then starts_with a (butlast raw) else a = raw)"

definition pattern_wf :: "string \<Rightarrow> bool" where
  "pattern_wf raw \<longleftrightarrow> CHR ''*'' \<notin> set (butlast raw)"

lemma parse_pattern_wf: "(\<exists>p. parse_pattern raw = Inr p) \<longleftrightarrow> pattern_wf raw"
proof (cases raw rule: rev_cases)
  case (snoc t c)
  have "count_list t (CHR ''*'') = 0 \<longleftrightarrow> CHR ''*'' \<notin> set t" by (simp add: count_list_0_iff)
  then show ?thesis using snoc
    by (auto simp: parse_pattern_def pattern_wf_def Let_def ends_with_snoc)
qed (simp add: parse_pattern_def pattern_wf_def)

lemma parse_patterns_iff:
  "parse_patterns raws = Inr ps \<longleftrightarrow> list_all2 (\<lambda>r p. parse_pattern r = Inr p) raws ps"
proof (induction raws arbitrary: ps)
  case (Cons r raws)
  have "parse_patterns (r # raws) = Inr ps \<longleftrightarrow> (\<exists>q qs. parse_pattern r = Inr q \<and> parse_patterns raws = Inr qs \<and> ps = q # qs)"
    by (cases "parse_pattern r"; cases "parse_patterns raws") auto
  then show ?case unfolding Cons.IH list_all2_Cons1 by blast
qed auto

lemma parse_patterns_wf: "(\<exists>ps. parse_patterns raws = Inr ps) \<longleftrightarrow> (\<forall>r\<in>set raws. pattern_wf r)"
proof (induction raws)
  case (Cons r raws)
  then show ?case using parse_pattern_wf [of r] by (auto split: sum.splits)
qed simp

lemma parse_patterns_strings:
  "parse_patterns raws = Inr ps \<Longrightarrow> map as_pattern_str ps = raws"
  unfolding parse_patterns_iff by (induction rule: list_all2_induct) (simp_all add: parse_pattern_Inr(1))

lemma parse_patterns_matches:
  "parse_patterns raws = Inr ps \<Longrightarrow> list_ex (\<lambda>p. pattern_matches p a) ps \<longleftrightarrow> (\<exists>r\<in>set raws. raw_matches r a)"
  unfolding parse_patterns_iff
  by (induction rule: list_all2_induct) (simp_all add: parse_pattern_Inr(2) raw_matches_def)

section \<open>Loading\<close>

definition unit_entry_ok :: "WireUnit \<Rightarrow> bool" where
  "unit_entry_ok u \<longleftrightarrow> \<not> blank (wu_id u) \<and> (case budget_usd_month u of Some v \<Rightarrow> good_budget v | None \<Rightarrow> True)"

definition key_entry_ok :: "(string \<rightharpoonup> microusd option) \<Rightarrow> WireKey \<Rightarrow> bool" where
  "key_entry_ok units k \<longleftrightarrow> \<not> blank (wk_key_id k) \<and> units (wk_unit k) \<noteq> None \<and> (\<forall>r\<in>set (wk_agents k). pattern_wf r)"

definition prefix_entry_ok :: "(string \<rightharpoonup> microusd option) \<Rightarrow> WirePrefix \<Rightarrow> bool" where
  "prefix_entry_ok units p \<longleftrightarrow> units (wp_unit p) \<noteq> None \<and> pattern_wf (wp_match p)"

definition declared_units :: "WireMap \<Rightarrow> string \<rightharpoonup> microusd option" where
  "declared_units w = map_of (map (\<lambda>u. (wu_id u, map_option from_usd (budget_usd_month u))) (wm_units w))"

text \<open>The validation rules of the document.\<close>
definition wire_ok :: "WireMap \<Rightarrow> bool" where
  "wire_ok w \<longleftrightarrow> distinct (map wu_id (wm_units w)) \<and> list_all unit_entry_ok (wm_units w)
     \<and> distinct (map wk_key_id (wm_keys w)) \<and> list_all (key_entry_ok (declared_units w)) (wm_keys w)
     \<and> list_all (prefix_entry_ok (declared_units w)) (wm_prefixes w)"

lemma fresh_update: "(\<forall>x\<in>set xs. (m(k \<mapsto> b)) (f x) = None) \<longleftrightarrow> k \<notin> f ` set xs \<and> (\<forall>x\<in>set xs. m (f x) = None)"
  by (auto simp: image_iff split: if_splits)

abbreviation unit_entries :: "WireUnit list \<Rightarrow> (string \<times> microusd option) list" where
  "unit_entries us \<equiv> map (\<lambda>u. (wu_id u, map_option from_usd (budget_usd_month u))) us"

lemma build_units_step:
  "build_units (u # us) m = Inr m' \<longleftrightarrow>
     unit_entry_ok u \<and> m (wu_id u) = None \<and> build_units us (m(wu_id u \<mapsto> map_option from_usd (budget_usd_month u))) = Inr m'"
  by (auto simp: unit_entry_ok_def split: option.splits)

lemma build_units_iff:
  "build_units us m = Inr m' \<longleftrightarrow>
     list_all unit_entry_ok us \<and> distinct (map wu_id us) \<and> (\<forall>u\<in>set us. m (wu_id u) = None) \<and> m' = m ++ map_of (unit_entries us)"
proof (induction us arbitrary: m)
  case (Cons u us)
  let ?v = "map_option from_usd (budget_usd_month u)"
  have add: "m(wu_id u \<mapsto> ?v) ++ map_of (unit_entries us) = m ++ map_of (unit_entries (u # us))" if "wu_id u \<notin> wu_id ` set us"
  proof -
    have "map_of (unit_entries us) (wu_id u) = None" using that by (auto simp: map_of_eq_None_iff)
    then show ?thesis by (auto simp: map_add_def fun_eq_iff split: option.splits)
  qed
  define T where "T = m ++ map_of (unit_entries (u # us))"
  show ?case unfolding build_units_step Cons.IH fresh_update T_def [symmetric] using add unfolding T_def [symmetric] by auto
qed auto

definition bound_key :: "WireKey \<Rightarrow> Pattern list \<Rightarrow> KeyBinding" where
  "bound_key k ps = \<lparr> kb_unit = wk_unit k, kb_agents = ps, kb_created = norm_created (wk_created k) \<rparr>"

lemma build_keys_step:
  "build_keys units (k # ks) m = Inr m' \<longleftrightarrow>
     \<not> blank (wk_key_id k) \<and> m (wk_key_id k) = None \<and> units (wk_unit k) \<noteq> None
     \<and> (\<exists>ps. parse_patterns (wk_agents k) = Inr ps \<and> build_keys units ks (m(wk_key_id k \<mapsto> bound_key k ps)) = Inr m')"
  by (cases "parse_patterns (wk_agents k)") (auto simp: bound_key_def)

declare build_keys.simps(2) [simp del]

lemma build_keys_iff:
  "(\<exists>m'. build_keys units ks m = Inr m') \<longleftrightarrow>
     list_all (key_entry_ok units) ks \<and> distinct (map wk_key_id ks) \<and> (\<forall>k\<in>set ks. m (wk_key_id k) = None)"
proof (induction ks arbitrary: m)
  case (Cons k ks)
  have "(\<exists>m'. build_keys units (k # ks) m = Inr m') \<longleftrightarrow> \<not> blank (wk_key_id k) \<and> m (wk_key_id k) = None \<and> units (wk_unit k) \<noteq> None
      \<and> (\<exists>ps. parse_patterns (wk_agents k) = Inr ps \<and> (\<exists>m'. build_keys units ks (m(wk_key_id k \<mapsto> bound_key k ps)) = Inr m'))"
    by (auto simp: build_keys_step)
  also have "\<dots> \<longleftrightarrow> key_entry_ok units k \<and> m (wk_key_id k) = None \<and> list_all (key_entry_ok units) ks \<and> distinct (map wk_key_id ks)
      \<and> wk_key_id k \<notin> wk_key_id ` set ks \<and> (\<forall>x\<in>set ks. m (wk_key_id x) = None)"
    unfolding Cons.IH fresh_update key_entry_ok_def parse_patterns_wf [symmetric] by blast
  finally show ?case by auto
qed simp

lemma build_keys_keep: "build_keys units ks m = Inr m' \<Longrightarrow> m x = Some b \<Longrightarrow> m' x = Some b"
proof (induction ks arbitrary: m)
  case (Cons k ks)
  then obtain ps where ps: "m (wk_key_id k) = None" "build_keys units ks (m(wk_key_id k \<mapsto> bound_key k ps)) = Inr m'"
    by (auto simp: build_keys_step)
  then show ?case using Cons.IH [OF ps(2)] Cons.prems(2) by (cases "x = wk_key_id k") simp_all
qed simp

lemma build_keys_entry:
  "build_keys units ks m = Inr m' \<Longrightarrow> k \<in> set ks \<Longrightarrow>
     \<exists>ps. parse_patterns (wk_agents k) = Inr ps \<and> m' (wk_key_id k) = Some (bound_key k ps)"
proof (induction ks arbitrary: m)
  case (Cons k' ks)
  then obtain ps where ps: "parse_patterns (wk_agents k') = Inr ps" "build_keys units ks (m(wk_key_id k' \<mapsto> bound_key k' ps)) = Inr m'"
    by (auto simp: build_keys_step)
  show ?case
  proof (cases "k \<in> set ks")
    case True
    then show ?thesis using Cons.IH [OF ps(2)] by simp
  next
    case False
    then have "k = k'" using Cons.prems(2) by simp
    then show ?thesis using ps(1) build_keys_keep [OF ps(2), of "wk_key_id k"] by simp
  qed
qed simp

lemma build_keys_units:
  "build_keys units ks m = Inr m' \<Longrightarrow> (\<forall>x b. m x = Some b \<longrightarrow> units (kb_unit b) \<noteq> None) \<Longrightarrow> m' x = Some b \<Longrightarrow> units (kb_unit b) \<noteq> None"
proof (induction ks arbitrary: m)
  case (Cons k ks)
  then obtain ps where ps: "units (wk_unit k) \<noteq> None" "build_keys units ks (m(wk_key_id k \<mapsto> bound_key k ps)) = Inr m'"
    by (auto simp: build_keys_step)
  have "\<forall>x b. (m(wk_key_id k \<mapsto> bound_key k ps)) x = Some b \<longrightarrow> units (kb_unit b) \<noteq> None"
    using ps(1) Cons.prems(2) by (auto simp: bound_key_def)
  then show ?case using Cons.IH [OF ps(2)] Cons.prems(3) by blast
qed simp

lemma build_prefixes_iff:
  "(\<exists>ps'. build_prefixes units ps = Inr ps') \<longleftrightarrow> list_all (prefix_entry_ok units) ps"
proof (induction ps)
  case (Cons p ps)
  then show ?case using parse_pattern_wf [of "wp_match p"] by (auto simp: prefix_entry_ok_def split: sum.splits)
qed simp

lemma build_prefixes_units: "build_prefixes units ps = Inr ps' \<Longrightarrow> b \<in> set ps' \<Longrightarrow> units (pb_unit b) \<noteq> None"
  by (induction ps arbitrary: ps') (auto split: if_splits sum.splits)

text \<open>Loading is all or nothing and faithful: a document loads exactly when it meets every validation
  rule; then each unit has its declared budget, each declared key is bound to its unit with its
  patterns read back verbatim, a key may speak as an agent id exactly when its list is empty or one
  of its patterns admits the (non-empty) id, and no resolution names an undeclared unit.\<close>
theorem identity_load_faithful:
  "((\<exists>m. identity_build w = Inr m) \<longleftrightarrow> wire_ok w) \<and>
   (\<forall>m k a. identity_build w = Inr m \<and> k \<in> set (wm_keys w) \<longrightarrow>
      im_units m = declared_units w
      \<and> key_binding m (wk_key_id k) = Some \<lparr> kbi_unit = wk_unit k, kbi_agents = wk_agents k, kbi_created = norm_created (wk_created k) \<rparr>
      \<and> res_unit (identity_resolve m (wk_key_id k) a) = Some (wk_unit k)
      \<and> (res_mismatch (identity_resolve m (wk_key_id k) a) = None \<longleftrightarrow>
           wk_agents k = [] \<or> (a \<noteq> [] \<and> (\<exists>r\<in>set (wk_agents k). raw_matches r a)))
      \<and> (\<forall>key u. res_unit (identity_resolve m key a) = Some u \<longrightarrow> u \<in> wu_id ` set (wm_units w)))"
proof -
  have dec: "build_units (wm_units w) Map.empty = Inr u \<longleftrightarrow>
      list_all unit_entry_ok (wm_units w) \<and> distinct (map wu_id (wm_units w)) \<and> u = declared_units w" for u
    by (simp add: build_units_iff declared_units_def)
  have "(\<exists>m. identity_build w = Inr m) \<longleftrightarrow> wire_ok w"
  proof -
    have "(\<exists>m. identity_build w = Inr m) \<longleftrightarrow> (\<exists>u. build_units (wm_units w) Map.empty = Inr u
        \<and> (\<exists>k. build_keys u (wm_keys w) Map.empty = Inr k) \<and> (\<exists>p. build_prefixes u (wm_prefixes w) = Inr p))"
      by (auto simp: identity_build_def split: sum.splits)
    then show ?thesis unfolding dec build_keys_iff build_prefixes_iff wire_ok_def by auto
  qed
  moreover {
  fix m k a
  assume b: "identity_build w = Inr m" and k: "k \<in> set (wm_keys w)"
  obtain keys ps where m: "m = \<lparr> im_units = declared_units w, im_keys = keys, im_prefixes = ps \<rparr>"
    and bk: "build_keys (declared_units w) (wm_keys w) Map.empty = Inr keys"
    and bp: "build_prefixes (declared_units w) (wm_prefixes w) = Inr ps"
    using b by (auto simp: identity_build_def dest!: dec [THEN iffD1] split: sum.splits)
  have nb: "wk_key_id k \<noteq> []"
    using build_keys_iff [of "declared_units w" "wm_keys w" Map.empty] bk k
    by (auto simp: list_all_iff key_entry_ok_def blank_def)
  obtain qs where qs: "parse_patterns (wk_agents k) = Inr qs"
    "keys (wk_key_id k) = Some (bound_key k qs)"
    using build_keys_entry [OF bk k] by blast
  have "(qs = []) = (wk_agents k = [])" using parse_patterns_strings [OF qs(1)] by auto
  moreover have "u \<in> wu_id ` set (wm_units w)" if "res_unit (identity_resolve m key a) = Some u" for key u
  proof -
    have "declared_units w u \<noteq> None"
      using that build_keys_units [OF bk] build_prefixes_units [OF bp]
      by (auto simp: m identity_resolve_def key_resolution_def prefix_resolution_def ran_def find_Some_iff
          split: if_splits option.splits)
    then show ?thesis by (auto simp: declared_units_def dest!: map_of_SomeD)
  qed
  ultimately have "im_units m = declared_units w
      \<and> key_binding m (wk_key_id k) = Some \<lparr> kbi_unit = wk_unit k, kbi_agents = wk_agents k, kbi_created = norm_created (wk_created k) \<rparr>
      \<and> res_unit (identity_resolve m (wk_key_id k) a) = Some (wk_unit k)
      \<and> (res_mismatch (identity_resolve m (wk_key_id k) a) = None \<longleftrightarrow>
           wk_agents k = [] \<or> (a \<noteq> [] \<and> (\<exists>r\<in>set (wk_agents k). raw_matches r a)))
      \<and> (\<forall>key u. res_unit (identity_resolve m key a) = Some u \<longrightarrow> u \<in> wu_id ` set (wm_units w))"
    using qs nb parse_patterns_strings [OF qs(1)] parse_patterns_matches [OF qs(1), of a]
    by (simp add: m key_binding_def identity_resolve_def key_resolution_def bound_key_def)
  }
  ultimately show ?thesis by blast
qed

text \<open>A small document: one unit with a budget, one key restricted to a prefix.\<close>
definition demo_wire :: WireMap where
  "demo_wire = \<lparr> wm_units = [\<lparr> wu_id = ''ops'', budget_usd_month = None \<rparr>],
     wm_keys = [\<lparr> wk_key_id = ''k1'', wk_unit = ''ops'', wk_agents = [''bot-*''], wk_created = None \<rparr>], wm_prefixes = [] \<rparr>"

lemma trim_demo: "trim ''ops'' = ''ops''" "trim ''k1'' = ''k1''"
  by code_simp+

lemma demo_wire_loads:
  "identity_build demo_wire = Inr \<lparr> im_units = [''ops'' \<mapsto> None],
     im_keys = [''k1'' \<mapsto> \<lparr> kb_unit = ''ops'', kb_agents = [Prefix ''bot-''], kb_created = None \<rparr>], im_prefixes = [] \<rparr>"
  by (simp add: identity_build_def demo_wire_def blank_def trim_demo build_keys.simps parse_pattern_def ends_with_def norm_created_def)

theorem identity_load_faithful_witness:
  "wire_ok demo_wire \<and> (\<exists>m. identity_build demo_wire = Inr m \<and> res_mismatch (identity_resolve m ''k1'' ''bot-7'') = None
     \<and> res_mismatch (identity_resolve m ''k1'' ''cat'') \<noteq> None)"
proof -
  let ?k = "\<lparr> wk_key_id = ''k1'', wk_unit = ''ops'', wk_agents = [''bot-*''], wk_created = None \<rparr>"
  let ?m = "\<lparr> im_units = [''ops'' \<mapsto> None],
     im_keys = [''k1'' \<mapsto> \<lparr> kb_unit = ''ops'', kb_agents = [Prefix ''bot-''], kb_created = None \<rparr>], im_prefixes = [] \<rparr>"
  have k: "?k \<in> set (wm_keys demo_wire)" by (simp add: demo_wire_def)
  have "res_mismatch (identity_resolve ?m ''k1'' a) = None \<longleftrightarrow> a \<noteq> [] \<and> raw_matches ''bot-*'' a" for a
    using identity_load_faithful [of demo_wire, THEN conjunct2, rule_format, of ?m ?k a, OF conjI [OF demo_wire_loads k],
        THEN conjunct2, THEN conjunct2, THEN conjunct2, THEN conjunct1] by simp
  moreover have "raw_matches ''bot-*'' ''bot-7''" "\<not> raw_matches ''bot-*'' ''cat''" by (simp_all add: raw_matches_def)
  moreover have "wire_ok demo_wire" using identity_load_faithful [of demo_wire] demo_wire_loads by blast
  ultimately show ?thesis using demo_wire_loads by auto
qed

end
