(* ===== verification/Wardryx.thy ===== *)
theory Wardryx
  imports Json Cache "HOL-Library.List_Lexorder" "HOL-Library.Char_ord"
begin

text \<open>
  The Wardryx enforcement hook (\<open>crates/gateway/src/wardryx.rs\<close>): parsing of a
  decision, the decision cache, the fail mode and \<open>decide\<close>.  Parameters: the HTTP
  exchange (its outcome, including a timeout), the JSON decoder of a response, the
  64-bit \<open>DefaultHasher\<close> on the bytes written to it, and the clock (milliseconds).
\<close>

datatype WardryxMode = WOff | WShadow | WEnforce
datatype FailMode = FailOpen | FailClosed
datatype WardryxDecision = WAllow | WDeny | WHold

definition DEFAULT_TIMEOUT_MS :: u64 where "DEFAULT_TIMEOUT_MS = 50"
definition DEFAULT_CACHE_TTL_MS :: u64 where "DEFAULT_CACHE_TTL_MS = 3000"

definition parse_decision :: "string \<Rightarrow> WardryxDecision option" where
  "parse_decision s =
     (let l = to_ascii_lowercase s in
      if l = ''allow'' then Some WAllow else if l = ''deny'' then Some WDeny else if l = ''hold'' then Some WHold else None)"

definition decision_wire_str :: "WardryxDecision \<Rightarrow> string" where
  "decision_wire_str d = (case d of WAllow \<Rightarrow> ''allow'' | WDeny \<Rightarrow> ''deny'' | WHold \<Rightarrow> ''hold'')"

record WardryxOutcome =
  w_decision :: WardryxDecision
  policy_version :: "string option"
  w_reason :: "string option"
  approval_id :: "string option"
  approval_token_required :: bool

record DecideContext =
  dc_agent_id :: string
  dc_run_id :: string
  dc_on_behalf_of :: "string list"
  dc_tool_names :: "string list"
  dc_steps :: u32
  dc_domains :: "string list"
  dc_model :: string
  dc_est_cost_usd :: f64
  dc_attestation :: "string option"
  dc_approval_token :: "string option"

text \<open>The body of the request: the fields of the context, in the order they are serialised.\<close>
definition wire_request :: "DecideContext \<Rightarrow> (string \<times> json) list" where
  "wire_request c =
     (let str = JString; opt = (\<lambda>x. case x of Some s \<Rightarrow> JString s | None \<Rightarrow> JNull); strs = (\<lambda>xs. JArray (map JString xs)) in
      [(''agent_id'', str (dc_agent_id c)), (''run_id'', str (dc_run_id c)), (''on_behalf_of'', strs (dc_on_behalf_of c)),
       (''tool_names'', strs (dc_tool_names c)), (''domains'', strs (dc_domains c)), (''steps'', json_u64 (dc_steps c)),
       (''model'', str (dc_model c)), (''est_cost_usd'', json_f64 (dc_est_cost_usd c)),
       (''attestation_method'', opt (dc_attestation c)), (''approval_token'', opt (dc_approval_token c))])"

record DecideWireResponse =
  r_decision :: string
  r_policy_version :: "string option"
  r_reason :: "string option"
  r_approval_id :: "string option"
  r_approval_token_required :: "bool option"
  r_cacheable :: bool

datatype WardryxError = Transport string | Decode string | UnknownDecision string

definition wardryx_error_str :: "WardryxError \<Rightarrow> string" where
  "wardryx_error_str e = (case e of
     Transport m \<Rightarrow> ''wardryx request failed: '' @ m
   | Decode m \<Rightarrow> ''wardryx response was not valid JSON: '' @ m
   | UnknownDecision d \<Rightarrow> ''wardryx returned an unrecognized decision: '' @ d)"

section \<open>Client\<close>

record WardryxClient =
  base_url :: string
  client_key :: "string option"
  client_timeout :: u64

definition decide_endpoint :: "WardryxClient \<Rightarrow> string" where
  "decide_endpoint c = rev (dropWhile (\<lambda>x. x = CHR ''/'') (rev (base_url c))) @ ''/v1/decide''"

definition bearer :: "WardryxClient \<Rightarrow> string option" where
  "bearer c = (case client_key c of Some k \<Rightarrow> if k \<noteq> [] then Some k else None | None \<Rightarrow> None)"

text \<open>What one HTTP exchange gives: a transport failure, or the bytes of the response.\<close>
type_synonym http = "string \<Rightarrow> string option \<Rightarrow> u64 \<Rightarrow> (string \<times> json) list \<Rightarrow> (string, string) result"

definition client_decide :: "http \<Rightarrow> (string \<Rightarrow> (string, DecideWireResponse) result) \<Rightarrow> WardryxClient \<Rightarrow> DecideContext
    \<Rightarrow> (WardryxError, WardryxOutcome \<times> bool) result" where
  "client_decide post from_slice c ctx =
     (case post (decide_endpoint c) (bearer c) (client_timeout c) (wire_request ctx) of
        Inl e \<Rightarrow> Inl (Transport e)
      | Inr bytes \<Rightarrow> (case from_slice bytes of
          Inl e \<Rightarrow> Inl (Decode e)
        | Inr wire \<Rightarrow> (case parse_decision (r_decision wire) of
            None \<Rightarrow> Inl (UnknownDecision (r_decision wire))
          | Some d \<Rightarrow> Inr (\<lparr> w_decision = d, policy_version = r_policy_version wire, w_reason = r_reason wire,
              approval_id = r_approval_id wire,
              approval_token_required = (case r_approval_token_required wire of Some b \<Rightarrow> b | None \<Rightarrow> True) \<rparr>,
              r_cacheable wire))))"

section \<open>Decision cache\<close>

record WCacheEntry =
  ce_decision :: WardryxDecision
  ce_policy_version :: "string option"
  ce_reason :: "string option"
  cached_at :: u64

record WCache =
  ttl :: u64
  w_entries :: "(string \<times> u64) \<rightharpoonup> WCacheEntry"

definition wcache_new :: "u64 \<Rightarrow> WCache" where
  "wcache_new t = \<lparr> ttl = t, w_entries = Map.empty \<rparr>"

text \<open>A \<open>usize\<close> or a discriminant is written as eight little-endian bytes.\<close>
definition le8 :: "nat \<Rightarrow> string" where
  "le8 n = map (\<lambda>i. char_of (n div 256 ^ i mod 256)) [0..<8]"

definition key_bytes :: "string list \<Rightarrow> string option \<Rightarrow> string" where
  "key_bytes tools att =
     le8 (length tools) @ concat (map str_hash_bytes (sort tools))
     @ (case att of None \<Rightarrow> le8 0 | Some a \<Rightarrow> le8 1 @ str_hash_bytes a)"

definition wcache_key :: "(string \<Rightarrow> u64) \<Rightarrow> string \<Rightarrow> string list \<Rightarrow> string option \<Rightarrow> string \<times> u64" where
  "wcache_key hasher agent tools att = (agent, hasher (key_bytes tools att))"

definition wcache_get :: "(string \<Rightarrow> u64) \<Rightarrow> WCache \<Rightarrow> string \<Rightarrow> string list \<Rightarrow> string option \<Rightarrow> u64 \<Rightarrow> WardryxOutcome option" where
  "wcache_get hasher c agent tools att now =
     (case w_entries c (wcache_key hasher agent tools att) of
        None \<Rightarrow> None
      | Some e \<Rightarrow> if ttl c \<le> now - cached_at e then None
          else Some \<lparr> w_decision = ce_decision e, policy_version = ce_policy_version e, w_reason = ce_reason e,
                 approval_id = None, approval_token_required = True \<rparr>)"

definition wcache_put :: "(string \<Rightarrow> u64) \<Rightarrow> WCache \<Rightarrow> string \<Rightarrow> string list \<Rightarrow> string option \<Rightarrow> WardryxOutcome \<Rightarrow> bool \<Rightarrow> u64 \<Rightarrow> WCache" where
  "wcache_put hasher c agent tools att out cacheable now =
     (if w_decision out = WHold then c
      else if \<not> cacheable then c
      else c\<lparr>w_entries := (w_entries c)(wcache_key hasher agent tools att \<mapsto>
        \<lparr> ce_decision = w_decision out, ce_policy_version = policy_version out, ce_reason = w_reason out, cached_at = now \<rparr>)\<rparr>)"

section \<open>The hook\<close>

record Wardryx =
  w_mode :: WardryxMode
  failmode :: FailMode
  w_client :: "WardryxClient option"
  w_cache :: WCache

definition wardryx_disabled :: Wardryx where
  "wardryx_disabled = \<lparr> w_mode = WOff, failmode = FailOpen, w_client = None, w_cache = wcache_new DEFAULT_CACHE_TTL_MS \<rparr>"

definition wardryx_new :: "WardryxMode \<Rightarrow> FailMode \<Rightarrow> string \<Rightarrow> string option \<Rightarrow> u64 \<Rightarrow> u64 \<Rightarrow> Wardryx" where
  "wardryx_new mode fm url key timeout cache_ttl = \<lparr> w_mode = mode, failmode = fm,
     w_client = Some \<lparr> base_url = url, client_key = key, client_timeout = timeout \<rparr>, w_cache = wcache_new cache_ttl \<rparr>"

text \<open>The environment is a map from variable names; numbers that do not parse give the default.\<close>
definition wardryx_from_env :: "(string \<Rightarrow> u64 option) \<Rightarrow> (string \<rightharpoonup> string) \<Rightarrow> Wardryx" where
  "wardryx_from_env parse_u64 env =
     (let mode = (if env ''TOKENFUSE_WARDRYX_MODE'' = Some ''shadow'' then WShadow
                  else if env ''TOKENFUSE_WARDRYX_MODE'' = Some ''enforce'' then WEnforce else WOff);
          nonempty = (\<lambda>v. case env v of Some s \<Rightarrow> if s \<noteq> [] then Some s else None | None \<Rightarrow> None);
          num = (\<lambda>v d. case Option.bind (env v) parse_u64 of Some n \<Rightarrow> n | None \<Rightarrow> d)
      in case nonempty ''TOKENFUSE_WARDRYX_URL'' of
           None \<Rightarrow> wardryx_disabled
         | Some url \<Rightarrow> wardryx_new mode
             (if env ''TOKENFUSE_WARDRYX_FAILMODE'' = Some ''closed'' then FailClosed else FailOpen)
             url (nonempty ''TOKENFUSE_WARDRYX_KEY'')
             (num ''TOKENFUSE_WARDRYX_TIMEOUT_MS'' DEFAULT_TIMEOUT_MS)
             (num ''TOKENFUSE_WARDRYX_CACHE_TTL_MS'' DEFAULT_CACHE_TTL_MS))"

definition fail_decision :: "FailMode \<Rightarrow> WardryxDecision" where
  "fail_decision m = (case m of FailOpen \<Rightarrow> WAllow | FailClosed \<Rightarrow> WDeny)"

definition wardryx_fallback :: "Wardryx \<Rightarrow> string \<Rightarrow> WardryxOutcome" where
  "wardryx_fallback w detail = \<lparr> w_decision = fail_decision (failmode w), policy_version = None,
     w_reason = Some (''wardryx unreachable ('' @ detail @ ''); failmode='' @ (case failmode w of FailOpen \<Rightarrow> ''Open'' | FailClosed \<Rightarrow> ''Closed'') @ '' applied''),
     approval_id = None, approval_token_required = True \<rparr>"

text \<open>\<open>decide\<close>, reading the clock at the lookup (\<open>t1\<close>) and at the store (\<open>t2\<close>); \<open>reply\<close> is what the client's
  exchange with the service gives for this context, if it is made.\<close>
definition wardryx_decide :: "(string \<Rightarrow> u64) \<Rightarrow> (WardryxClient \<Rightarrow> DecideContext \<Rightarrow> (WardryxError, WardryxOutcome \<times> bool) result)
    \<Rightarrow> u64 \<Rightarrow> u64 \<Rightarrow> Wardryx \<Rightarrow> DecideContext \<Rightarrow> WardryxOutcome \<times> Wardryx" where
  "wardryx_decide hasher reply t1 t2 w ctx =
     (case wcache_get hasher (w_cache w) (dc_agent_id ctx) (dc_tool_names ctx) (dc_attestation ctx) t1 of
        Some cached \<Rightarrow> (cached, w)
      | None \<Rightarrow> (case w_client w of
          None \<Rightarrow> (wardryx_fallback w ''wardryx hook has no client configured'', w)
        | Some client \<Rightarrow> (case reply client ctx of
            Inr (out, cacheable) \<Rightarrow> (out, w\<lparr>w_cache := wcache_put hasher (w_cache w) (dc_agent_id ctx) (dc_tool_names ctx)
                (dc_attestation ctx) out cacheable t2\<rparr>)
          | Inl e \<Rightarrow> (wardryx_fallback w (wardryx_error_str e), w))))"

section \<open>Replayed decisions\<close>

text \<open>One call of the hook: the context, the two clock readings and the service's reply.\<close>
record wcall =
  wc_ctx :: DecideContext
  wc_t1 :: u64
  wc_t2 :: u64
  wc_reply :: "(WardryxError, WardryxOutcome \<times> bool) result"

definition wcall_step :: "(string \<Rightarrow> u64) \<Rightarrow> wcall \<Rightarrow> Wardryx \<Rightarrow> WardryxOutcome \<times> Wardryx" where
  "wcall_step hasher c w = wardryx_decide hasher (\<lambda>_ _. wc_reply c) (wc_t1 c) (wc_t2 c) w (wc_ctx c)"

definition wardryx_after :: "(string \<Rightarrow> u64) \<Rightarrow> Wardryx \<Rightarrow> wcall list \<Rightarrow> Wardryx" where
  "wardryx_after hasher w0 calls = fold (\<lambda>c w. snd (wcall_step hasher c w)) calls w0"

text \<open>The entry was stored for a reply of the service that marked its decision reusable.\<close>
definition entry_from :: "(string \<Rightarrow> u64) \<Rightarrow> wcall list \<Rightarrow> string \<times> u64 \<Rightarrow> WCacheEntry \<Rightarrow> bool" where
  "entry_from hasher calls k e \<longleftrightarrow> (\<exists>c\<in>set calls. \<exists>out. wc_reply c = Inr (out, True) \<and> w_decision out \<noteq> WHold
     \<and> ce_decision e = w_decision out \<and> ce_policy_version e = policy_version out \<and> ce_reason e = w_reason out \<and> cached_at e = wc_t2 c
     \<and> k = wcache_key hasher (dc_agent_id (wc_ctx c)) (dc_tool_names (wc_ctx c)) (dc_attestation (wc_ctx c)))"

lemma decide_fixed:
  "w_client (snd (wcall_step hasher c w)) = w_client w" "failmode (snd (wcall_step hasher c w)) = failmode w"
  "ttl (w_cache (snd (wcall_step hasher c w))) = ttl (w_cache w)"
  by (simp_all add: wcall_step_def wardryx_decide_def wcache_put_def split: option.splits sum.splits)

lemma after_snoc: "wardryx_after hasher w0 (calls @ [c]) = snd (wcall_step hasher c (wardryx_after hasher w0 calls))"
  by (simp add: wardryx_after_def)

lemma after_fixed:
  "w_client (wardryx_after hasher w0 calls) = w_client w0 \<and> failmode (wardryx_after hasher w0 calls) = failmode w0
   \<and> ttl (w_cache (wardryx_after hasher w0 calls)) = ttl (w_cache w0)"
proof (induction calls rule: rev_induct)
  case (snoc c calls)
  then show ?case by (simp add: after_snoc decide_fixed)
qed (simp add: wardryx_after_def)

lemma entry_from_mono: "entry_from hasher calls k e \<Longrightarrow> entry_from hasher (calls @ [c]) k e"
  by (auto simp: entry_from_def)

lemma step_entries:
  "w_entries (w_cache (snd (wcall_step hasher c w))) k = Some e \<Longrightarrow>
     w_entries (w_cache w) k = Some e \<or> entry_from hasher [c] k e"
  by (auto simp: wcall_step_def wardryx_decide_def wcache_put_def entry_from_def split: option.splits sum.splits if_splits)

lemma after_entries:
  assumes "w_entries (w_cache w0) = Map.empty" "w_entries (w_cache (wardryx_after hasher w0 calls)) k = Some e"
  shows "entry_from hasher calls k e"
  using assms(2)
proof (induction calls rule: rev_induct)
  case Nil
  then show ?case using assms(1) by (simp add: wardryx_after_def)
next
  case (snoc c calls)
  then consider "w_entries (w_cache (wardryx_after hasher w0 calls)) k = Some e" | "entry_from hasher [c] k e"
    using step_entries unfolding after_snoc by blast
  then show ?case
  proof cases
    case 1
    then show ?thesis by (intro entry_from_mono snoc.IH)
  next
    case 2
    then show ?thesis by (auto simp: entry_from_def)
  qed
qed

text \<open>Every decision the hook acts on has a legitimate origin.  After any history of calls it is either
  the service's reply to this very call, or the configured fail mode's decision because there was no
  usable reply, or the replay, strictly within the time to live, of an earlier reply to the same agent
  with the same hashed tools and attestation that the service itself marked cacheable; a \<open>hold\<close> is
  never replayed and a replay never carries an approval id.\<close>
theorem wardryx_decision_origin:
  assumes "w_entries (w_cache w0) = Map.empty"
    and "wcall_step hasher c (wardryx_after hasher w0 calls) = (out, w')"
  shows "(\<exists>cacheable. wc_reply c = Inr (out, cacheable) \<and> w_client w0 \<noteq> None)
    \<or> (w_decision out = fail_decision (failmode w0) \<and> approval_id out = None \<and> (w_client w0 = None \<or> isl (wc_reply c)))
    \<or> (\<exists>c'\<in>set calls. \<exists>out'. wc_reply c' = Inr (out', True) \<and> w_decision out' \<noteq> WHold
        \<and> w_decision out = w_decision out' \<and> policy_version out = policy_version out' \<and> w_reason out = w_reason out'
        \<and> approval_id out = None \<and> wc_t1 c - wc_t2 c' < ttl (w_cache w0)
        \<and> dc_agent_id (wc_ctx c') = dc_agent_id (wc_ctx c)
        \<and> hasher (key_bytes (dc_tool_names (wc_ctx c')) (dc_attestation (wc_ctx c')))
          = hasher (key_bytes (dc_tool_names (wc_ctx c)) (dc_attestation (wc_ctx c))))"
proof -
  let ?w = "wardryx_after hasher w0 calls" and ?x = "wc_ctx c"
  have fixd: "w_client ?w = w_client w0" "failmode ?w = failmode w0" "ttl (w_cache ?w) = ttl (w_cache w0)"
    using after_fixed by blast+
  show ?thesis
  proof (cases "wcache_get hasher (w_cache ?w) (dc_agent_id ?x) (dc_tool_names ?x) (dc_attestation ?x) (wc_t1 c)")
    case (Some cached)
    then obtain e where e: "w_entries (w_cache ?w) (wcache_key hasher (dc_agent_id ?x) (dc_tool_names ?x) (dc_attestation ?x)) = Some e"
      "\<not> ttl (w_cache ?w) \<le> wc_t1 c - cached_at e"
      and cached: "cached = \<lparr> w_decision = ce_decision e, policy_version = ce_policy_version e, w_reason = ce_reason e,
                 approval_id = None, approval_token_required = True \<rparr>"
      by (auto simp: wcache_get_def split: option.splits if_splits)
    have "out = cached" using assms(2) Some by (simp add: wcall_step_def wardryx_decide_def)
    then show ?thesis using after_entries [OF assms(1) e(1)] e(2) cached fixd(3)
      unfolding entry_from_def wcache_key_def by (intro disjI2) fastforce
  next
    case None
    show ?thesis
    proof (cases "w_client w0")
      case None
      then show ?thesis using assms(2) fixd \<open>wcache_get _ _ _ _ _ _ = None\<close>
        by (auto simp: wcall_step_def wardryx_decide_def wardryx_fallback_def)
    next
      case (Some cl)
      then show ?thesis using assms(2) fixd \<open>wcache_get _ _ _ _ _ _ = None\<close>
        by (cases "wc_reply c") (auto simp: wcall_step_def wardryx_decide_def wardryx_fallback_def)
    qed
  qed
qed

definition demo_ctx :: DecideContext where
  "demo_ctx = \<lparr> dc_agent_id = ''a'', dc_run_id = ''r'', dc_on_behalf_of = [], dc_tool_names = [''bash''], dc_steps = 0,
     dc_domains = [], dc_model = ''m'', dc_est_cost_usd = Fin 0, dc_attestation = None, dc_approval_token = None \<rparr>"

theorem wardryx_decision_origin_witness:
  "\<exists>out w'. wcall_step (\<lambda>_. 0) \<lparr> wc_ctx = demo_ctx, wc_t1 = 9, wc_t2 = 9, wc_reply = Inl (Transport ''x'') \<rparr>
       (wardryx_after (\<lambda>_. 0) (wardryx_new WEnforce FailClosed ''u'' None 50 3000) []) = (out, w') \<and> w_decision out = WDeny"
proof -
  let ?w0 = "wardryx_new WEnforce FailClosed ''u'' None 50 3000"
  let ?c = "\<lparr> wc_ctx = demo_ctx, wc_t1 = 9, wc_t2 = 9, wc_reply = Inl (Transport ''x'') \<rparr>"
  obtain out w' where s: "wcall_step (\<lambda>_. 0) ?c (wardryx_after (\<lambda>_. 0) ?w0 []) = (out, w')" by fastforce
  have e: "w_entries (w_cache ?w0) = Map.empty" by (simp add: wardryx_new_def wcache_new_def)
  have "w_decision out = WDeny"
    using wardryx_decision_origin [OF e s] by (simp add: wardryx_new_def fail_decision_def)
  then show ?thesis using s by blast
qed

end
