(* ===== verification/AgentEvent.thy ===== *)
theory AgentEvent
  imports Jcs Timefmt HashChain "HOL-Library.Char_ord"
begin

text \<open>
  The agent-event envelope and its exporter (\<open>crates/core/src/agent_event.rs\<close>):
  event types and severities, \<open>build\<close>, the chain hash, and the exporter's file,
  chain state and counters under emission, failing writes and restarts.
  Parameters (record \<open>serde\<close>): SHA-256, the crate's string and float printers used
  by the canonical form, and its JSON printer and parser.  A write either
  succeeds or fails after some bytes have reached the file.
\<close>

definition SCHEMA :: string where "SCHEMA = ''taipanbox.dev/agent-event/v0.1''"
definition SOURCE :: string where "SOURCE = ''tokenfuse''"

datatype Severity = SevInfo | SevLow | SevMedium | SevHigh | SevCritical

definition severity_str :: "Severity \<Rightarrow> string" where
  "severity_str s = (case s of SevInfo \<Rightarrow> ''info'' | SevLow \<Rightarrow> ''low'' | SevMedium \<Rightarrow> ''medium'' | SevHigh \<Rightarrow> ''high'' | SevCritical \<Rightarrow> ''critical'')"

datatype EventType =
    BudgetExhausted | SustainedLoop | SpendSpike | FanoutExplosion | BreakerTripped
  | DlpBlockEvent | TaintBlock | McpDrift | IdentityMismatch | ToolCall

definition event_wire_str :: "EventType \<Rightarrow> string" where
  "event_wire_str t = (case t of
     BudgetExhausted \<Rightarrow> ''budget_exhausted'' | SustainedLoop \<Rightarrow> ''sustained_loop'' | SpendSpike \<Rightarrow> ''spend_spike''
   | FanoutExplosion \<Rightarrow> ''fanout_explosion'' | BreakerTripped \<Rightarrow> ''breaker_tripped'' | DlpBlockEvent \<Rightarrow> ''dlp_block''
   | TaintBlock \<Rightarrow> ''taint_block'' | McpDrift \<Rightarrow> ''mcp_drift'' | IdentityMismatch \<Rightarrow> ''identity_mismatch'' | ToolCall \<Rightarrow> ''tool_call'')"

definition event_severity :: "EventType \<Rightarrow> Severity" where
  "event_severity t =
     (if t \<in> {BudgetExhausted, McpDrift, BreakerTripped} then SevCritical
      else if t \<in> {SustainedLoop, SpendSpike, FanoutExplosion, DlpBlockEvent, TaintBlock, IdentityMismatch} then SevHigh
      else SevLow)"

record AgentEvent =
  ev_schema :: string
  ts :: string
  source :: string
  ev_kind :: string
  severity :: Severity
  agent_id :: string
  ev_run_id :: "string option"
  on_behalf_of :: "string list option"
  data :: "json option"
  ev_prev_hash :: "string option"

definition nonempty_opt :: "'a list option \<Rightarrow> 'a list option" where
  "nonempty_opt x = (case x of Some s \<Rightarrow> if s \<noteq> [] then Some s else None | None \<Rightarrow> None)"

definition event_build :: "EventType \<Rightarrow> i64 \<Rightarrow> string option \<Rightarrow> string option \<Rightarrow> string list option \<Rightarrow> json \<Rightarrow> AgentEvent option" where
  "event_build t millis agent run obo d =
     map_option (\<lambda>a. \<lparr> ev_schema = SCHEMA, ts = ts_millis_to_rfc3339_millis millis, source = SOURCE, ev_kind = event_wire_str t,
         severity = event_severity t, agent_id = a, ev_run_id = nonempty_opt run, on_behalf_of = nonempty_opt obo,
         data = (if d = JNull then None else Some d), ev_prev_hash = None \<rparr>) (nonempty_opt agent)"

text \<open>The serialised members, in declaration order, absent options skipped.\<close>
definition opt_member :: "string \<Rightarrow> json option \<Rightarrow> (string \<times> json) list" where
  "opt_member k v = (case v of Some x \<Rightarrow> [(k, x)] | None \<Rightarrow> [])"

definition event_fields :: "AgentEvent \<Rightarrow> (string \<times> json) list" where
  "event_fields e =
     [(''schema'', JString (ev_schema e)), (''ts'', JString (ts e)), (''source'', JString (source e)), (''type'', JString (ev_kind e)),
      (''severity'', JString (severity_str (severity e))), (''agent_id'', JString (agent_id e))]
     @ opt_member ''run_id'' (map_option JString (ev_run_id e))
     @ opt_member ''on_behalf_of'' (map_option (\<lambda>xs. JArray (map JString xs)) (on_behalf_of e))
     @ opt_member ''data'' (data e)
     @ opt_member ''prev_hash'' (map_option JString (ev_prev_hash e))"

record serde =
  sha256 :: "string \<Rightarrow> string"
  quote_str :: "string \<Rightarrow> string"
  ryu :: "f64 \<Rightarrow> string"
  print_json :: "json \<Rightarrow> string"
  parse_json :: "string \<Rightarrow> json option"

definition remove_member :: "string \<Rightarrow> json \<Rightarrow> json" where
  "remove_member k v = (case v of JObject kvs \<Rightarrow> JObject (filter (\<lambda>p. fst p \<noteq> k) kvs) | _ \<Rightarrow> v)"

definition chain_hash_value :: "serde \<Rightarrow> json \<Rightarrow> string" where
  "chain_hash_value s v =
     ''sha256:'' @ hex_lower (sha256 s (canonicalize (quote_str s) (ryu s) (remove_member ''prev_hash'' v)))"

text \<open>\<open>to_value\<close> builds the crate's sorted object.\<close>
definition event_value :: "AgentEvent \<Rightarrow> json" where
  "event_value e = JObject (sort_key fst (event_fields e))"

definition event_chain_hash :: "serde \<Rightarrow> AgentEvent \<Rightarrow> string" where
  "event_chain_hash s e = chain_hash_value s (event_value e)"

definition to_ndjson_line :: "serde \<Rightarrow> AgentEvent \<Rightarrow> string" where
  "to_ndjson_line s e = print_json s (JObject (event_fields e))"

section \<open>Exporter\<close>

record ChainSink =
  ev_file :: string
  next_hash :: "string option"
  resumed_from :: "string option"

record Exporter =
  sink :: "ChainSink option"
  skipped :: u64
  write_errors :: u64

datatype EmitOutcome = Disabled | Written | SkippedNoAgentId u64 | WriteError u64 string

datatype write_result = WriteOk | WriteFailed nat string

definition exporter_disabled :: Exporter where
  "exporter_disabled = \<lparr> sink = None, skipped = 0, write_errors = 0 \<rparr>"

definition WINDOW :: nat where "WINDOW = 2 ^ 20"

definition ascii_ws :: "char \<Rightarrow> bool" where
  "ascii_ws c \<longleftrightarrow> c \<in> {CHR 0x09, CHR 0x0A, CHR 0x0C, CHR 0x0D, CHR 0x20}"

definition trim_ascii :: "string \<Rightarrow> string" where
  "trim_ascii s = rev (dropWhile ascii_ws (rev (dropWhile ascii_ws s)))"

definition last_line :: "string list \<Rightarrow> string option" where
  "last_line ls = foldl (\<lambda>l x. let t = trim_ascii x in if t \<noteq> [] then Some t else l) None ls"

definition tail_chain_hash :: "serde \<Rightarrow> string \<Rightarrow> string option" where
  "tail_chain_hash s content =
     (if content = [] then None
      else let start = length content - WINDOW;
               ls = split_char (CHR 0x0A) (drop start content);
               ls = (if 0 < start then tl ls else ls)
           in case Option.bind (last_line ls) (parse_json s) of
                Some v \<Rightarrow> if as_object v = None then None else Some (chain_hash_value s v)
              | None \<Rightarrow> None)"

text \<open>\<open>open\<close> on a file with the given contents; failing to open it is an \<open>Err\<close> of the caller.\<close>
definition exporter_open :: "serde \<Rightarrow> string \<Rightarrow> Exporter" where
  "exporter_open s content = (let r = tail_chain_hash s content in
     \<lparr> sink = Some \<lparr> ev_file = content, next_hash = r, resumed_from = r \<rparr>, skipped = 0, write_errors = 0 \<rparr>)"

definition exporter_from_env :: "serde \<Rightarrow> string option \<Rightarrow> (string \<Rightarrow> (string, string) result) \<Rightarrow> Exporter" where
  "exporter_from_env s path open_file =
     (case nonempty_opt path of None \<Rightarrow> exporter_disabled
      | Some p \<Rightarrow> (case open_file p of Inr content \<Rightarrow> exporter_open s content | Inl _ \<Rightarrow> exporter_disabled))"

definition emit :: "serde \<Rightarrow> write_result \<Rightarrow> Exporter \<Rightarrow> EventType \<Rightarrow> i64 \<Rightarrow> string option \<Rightarrow> string option \<Rightarrow> string list option \<Rightarrow> json
    \<Rightarrow> EmitOutcome \<times> Exporter" where
  "emit s wr x t millis agent run obo d =
     (case sink x of
        None \<Rightarrow> (Disabled, x)
      | Some k \<Rightarrow> (case event_build t millis agent run obo d of
          None \<Rightarrow> (let n = wrap_u64 (skipped x + 1) in (SkippedNoAgentId n, x\<lparr>skipped := n\<rparr>))
        | Some e \<Rightarrow>
            let ev = e\<lparr>ev_prev_hash := next_hash k\<rparr>; line = to_ndjson_line s ev @ [CHR 0x0A] in
            (case wr of
               WriteOk \<Rightarrow> (Written, x\<lparr>sink := Some (k\<lparr>ev_file := ev_file k @ line, next_hash := Some (event_chain_hash s ev)\<rparr>)\<rparr>)
             | WriteFailed n msg \<Rightarrow>
                 let m = wrap_u64 (write_errors x + 1) in
                 (WriteError m msg, x\<lparr>sink := Some (k\<lparr>ev_file := ev_file k @ take n line\<rparr>), write_errors := m\<rparr>))))"

section \<open>The chain hash ignores the link\<close>

definition event_keys :: "string set" where
  "event_keys = {''schema'', ''ts'', ''source'', ''type'', ''severity'', ''agent_id'', ''run_id'', ''on_behalf_of'', ''data'', ''prev_hash''}"

lemma canon_keys: "set (map fst (event_fields e)) \<subseteq> event_keys"
  unfolding event_keys_def by (auto simp: event_fields_def opt_member_def split: option.splits)

lemma fields_distinct: "distinct (map fst (event_fields e))"
  by (auto simp: event_fields_def opt_member_def split: option.splits)

text \<open>On ASCII strings \<open>encode_utf16\<close> is the list of the bytes.\<close>
lemma utf16_ascii: "\<forall>c\<in>set s. byte c < 128 \<Longrightarrow> utf16 s = map byte s"
  by (induction s rule: utf16.induct) auto

lemma canon_keys_inj: "inj_on utf16 event_keys"
proof (rule inj_onI)
  fix x y
  assume xy: "x \<in> event_keys" "y \<in> event_keys" "utf16 x = utf16 y"
  have asc: "\<forall>k\<in>event_keys. \<forall>c\<in>set k. byte c < 128" by (simp add: byte_def event_keys_def)
  have "map byte x = map byte y" using xy asc utf16_ascii by metis
  moreover have "inj byte" by (auto simp: inj_def byte_def)
  ultimately show "x = y" by (simp add: inj_map_eq_map)
qed

lemma filter_fields: "filter (\<lambda>p. fst p \<noteq> ''prev_hash'') (event_fields e) = event_fields (e\<lparr>ev_prev_hash := None\<rparr>)"
  by (auto simp: event_fields_def opt_member_def split: option.splits)

lemma canonicalize_event:
  assumes "mset kvs = mset (event_fields e)"
  shows "canonicalize q r (JObject kvs) = canonicalize q r (JObject (sort_key fst (event_fields e)))"
proof (rule canonicalize_mset)
  have st: "set kvs = set (event_fields e)" using assms by (metis set_mset_mset)
  show "inj_on utf16 (set (map fst kvs))"
    unfolding set_map st using canon_keys [of e] unfolding set_map by (rule inj_on_subset [OF canon_keys_inj])
  have "mset (map fst kvs) = mset (map fst (event_fields e))" unfolding mset_map assms ..
  then show "distinct (map fst kvs)" using fields_distinct [of e] mset_eq_imp_distinct_iff by blast
qed (simp add: assms)

lemma sorted_fields_no_prev:
  "filter (\<lambda>p. fst p \<noteq> ''prev_hash'') (sort_key fst (event_fields (e\<lparr>ev_prev_hash := None\<rparr>))) = sort_key fst (event_fields (e\<lparr>ev_prev_hash := None\<rparr>))"
  by (auto simp: filter_id_conv event_fields_def opt_member_def split: option.splits)

lemma chain_hash_perm:
  assumes "mset kvs = mset (event_fields e)"
  shows "chain_hash_value s (JObject kvs) = event_chain_hash s (e\<lparr>ev_prev_hash := None\<rparr>)"
proof -
  let ?ks = "filter (\<lambda>p. fst p \<noteq> ''prev_hash'') kvs" and ?e = "e\<lparr>ev_prev_hash := None\<rparr>"
  have "mset ?ks = mset (event_fields ?e)" unfolding filter_fields [symmetric] mset_filter assms ..
  then have "canonicalize (quote_str s) (ryu s) (JObject ?ks) = canonicalize (quote_str s) (ryu s) (JObject (sort_key fst (event_fields ?e)))"
    by (rule canonicalize_event)
  then show ?thesis
    unfolding chain_hash_value_def event_chain_hash_def event_value_def remove_member_def json.case sorted_fields_no_prev
    by (simp only:)
qed

lemma chain_hash_ignores_prev: "event_chain_hash s (e\<lparr>ev_prev_hash := p\<rparr>) = event_chain_hash s e"
proof -
  have "event_chain_hash s x = event_chain_hash s (x\<lparr>ev_prev_hash := None\<rparr>)" for x
    using chain_hash_perm [of "sort_key fst (event_fields x)" x s] unfolding event_chain_hash_def event_value_def by simp
  from this [of "e\<lparr>ev_prev_hash := p\<rparr>"] this [of e] show ?thesis by simp
qed

section \<open>Reading the tail back\<close>

lemma split_char_nonempty [simp]: "split_char d s \<noteq> []"
  by (induction s) (auto split: list.splits)

lemma split_char_append: "split_char d (a @ d # b) = split_char d a @ split_char d b"
proof (induction a)
  case (Cons c a)
  then show ?case by (cases "split_char d a") auto
qed simp

lemma split_char_single: "d \<notin> set a \<Longrightarrow> split_char d a = [a]"
  by (induction a) auto

definition nl :: char where "nl = CHR 0x0A"

text \<open>What the crate's printer and parser give for an event the exporter writes: one line in braces,
  shorter than the window, that parses back to the same members.\<close>
definition line_ok :: "serde \<Rightarrow> AgentEvent \<Rightarrow> bool" where
  "line_ok s e \<longleftrightarrow> (\<exists>body kvs. to_ndjson_line s e = CHR ''{'' # body @ ''}'' \<and> nl \<notin> set body
     \<and> length body + 4 \<le> WINDOW \<and> parse_json s (to_ndjson_line s e) = Some (JObject kvs) \<and> mset kvs = mset (event_fields e))"

lemma trim_ascii_line: "trim_ascii (CHR ''{'' # body @ ''}'') = CHR ''{'' # body @ ''}''"
  by (simp add: trim_ascii_def ascii_ws_def)

lemma last_line_snoc: "trim_ascii l = l \<Longrightarrow> l \<noteq> [] \<Longrightarrow> last_line (ls @ [l, []]) = Some l"
proof -
  have "trim_ascii [] = []" by (simp add: trim_ascii_def)
  then show "trim_ascii l = l \<Longrightarrow> l \<noteq> [] \<Longrightarrow> last_line (ls @ [l, []]) = Some l"
    by (simp add: last_line_def Let_def)
qed

lemma tail_hash_line:
  assumes "line_ok s e" "F = [] \<or> last F = nl"
  shows "tail_chain_hash s (F @ to_ndjson_line s e @ [nl]) = Some (event_chain_hash s e)"
proof -
  let ?l = "to_ndjson_line s e"
  obtain body kvs where l: "?l = CHR ''{'' # body @ ''}''" "nl \<notin> set body" "length body + 4 \<le> WINDOW"
    "parse_json s ?l = Some (JObject kvs)" "mset kvs = mset (event_fields e)"
    using assms(1) unfolding line_ok_def by blast
  let ?c = "F @ ?l @ [nl]"
  let ?start = "length ?c - WINDOW"
  have nol: "nl \<notin> set ?l" using l(1,2) by (simp add: nl_def)
  have drop: "drop ?start ?c = drop ?start F @ ?l @ [nl]" using l(1,3) by simp
  have two: "split_char nl (?l @ [nl]) = [?l, []]"
    using split_char_append [of nl ?l "[]"] split_char_single [OF nol] by simp
  have split: "\<exists>ls. (if 0 < ?start then tl (split_char nl (drop ?start ?c)) else split_char nl (drop ?start ?c)) = ls @ [?l, []]"
  proof (cases "drop ?start F = []")
    case True
    have "?start = 0"
    proof (rule ccontr)
      assume "?start \<noteq> 0"
      then have "?start < length F" using l(1,3) by simp
      then show False using True by simp
    qed
    then show ?thesis unfolding drop using True two by simp
  next
    case False
    then have "F \<noteq> []" by auto
    then have "last (drop ?start F) = nl" using assms(2) False by (simp add: last_drop)
    then obtain G where "drop ?start F = G @ [nl]" using False by (metis append_butlast_last_id)
    then have "split_char nl (drop ?start ?c) = split_char nl G @ [?l, []]"
      unfolding drop using split_char_append [of nl G "?l @ [nl]"] two by simp
    then show ?thesis by (auto simp: tl_append2)
  qed
  have "trim_ascii ?l = ?l" "?l \<noteq> []" using l(1) trim_ascii_line by simp_all
  then have ll: "last_line (if 0 < ?start then tl (split_char nl (drop ?start ?c)) else split_char nl (drop ?start ?c)) = Some ?l"
    using split last_line_snoc by auto
  have h: "chain_hash_value s (JObject kvs) = event_chain_hash s e"
    using chain_hash_perm [OF l(5)] chain_hash_ignores_prev by metis
  have ne: "?c \<noteq> []" by simp
  have ao: "as_object (JObject kvs) \<noteq> None" by (simp add: as_object_def)
  show ?thesis
    unfolding tail_chain_hash_def Let_def nl_def [symmetric] ll bind.bind_lunit l(4) h option.case if_not_P [OF ne] if_not_P [OF ao] ..
qed

section \<open>One file, one chain\<close>

datatype eop = Emit EventType i64 "string option" "string option" "string list option" json write_result | Reopen

fun eop_step :: "serde \<Rightarrow> eop \<Rightarrow> EmitOutcome list \<times> Exporter \<Rightarrow> EmitOutcome list \<times> Exporter" where
  "eop_step s (Emit t m a r ob d wr) (outs, x) = (let (out, x') = emit s wr x t m a r ob d in (outs @ [out], x'))"
| "eop_step s Reopen (outs, x) = (outs, case sink x of Some k \<Rightarrow> exporter_open s (ev_file k) | None \<Rightarrow> x)"

definition eops :: "serde \<Rightarrow> eop list \<Rightarrow> EmitOutcome list \<times> Exporter" where
  "eops s ops = fold (eop_step s) ops ([], exporter_open s [])"

text \<open>The events an operation can write are well-behaved lines; a failed write leaves no bytes.\<close>
definition op_ok :: "serde \<Rightarrow> eop \<Rightarrow> bool" where
  "op_ok s op = (case op of
     Emit t m a r ob d wr \<Rightarrow>
       (\<forall>e p. event_build t m a r ob d = Some e \<and> (p = None \<or> (\<exists>f. p = Some (event_chain_hash s f))) \<longrightarrow> line_ok s (e\<lparr>ev_prev_hash := p\<rparr>))
       \<and> (case wr of WriteFailed n _ \<Rightarrow> n = 0 | WriteOk \<Rightarrow> True)
   | Reopen \<Rightarrow> True)"

definition file_of :: "serde \<Rightarrow> AgentEvent list \<Rightarrow> string" where
  "file_of s evs = concat (map (\<lambda>e. to_ndjson_line s e @ [nl]) evs)"

definition tip :: "serde \<Rightarrow> AgentEvent list \<Rightarrow> string option" where
  "tip s evs = (if evs = [] then None else Some (event_chain_hash s (last evs)))"

fun event_linked :: "serde \<Rightarrow> string option \<Rightarrow> AgentEvent list \<Rightarrow> bool" where
  "event_linked s p [] = True"
| "event_linked s p (e # es) = (ev_prev_hash e = p \<and> event_linked s (Some (event_chain_hash s e)) es)"

lemma event_linked_snoc:
  "event_linked s p (es @ [e]) \<longleftrightarrow> event_linked s p es \<and> ev_prev_hash e = (if es = [] then p else Some (event_chain_hash s (last es)))"
  by (induction s p es rule: event_linked.induct) auto

definition chain_inv :: "serde \<Rightarrow> EmitOutcome list \<times> Exporter \<Rightarrow> bool" where
  "chain_inv s st \<longleftrightarrow> (\<exists>evs k. sink (snd st) = Some k \<and> ev_file k = file_of s evs \<and> event_linked s None evs
     \<and> next_hash k = tip s evs \<and> list_all (line_ok s) evs \<and> length evs = count_list (fst st) Written)"

lemma file_of_last: "file_of s evs = [] \<or> last (file_of s evs) = nl"
  by (cases evs rule: rev_cases) (simp_all add: file_of_def)

lemma open_resumes:
  assumes "list_all (line_ok s) evs"
  shows "exporter_open s (file_of s evs) = \<lparr> sink = Some \<lparr> ev_file = file_of s evs, next_hash = tip s evs, resumed_from = tip s evs \<rparr>, skipped = 0, write_errors = 0 \<rparr>"
proof -
  have "tail_chain_hash s (file_of s evs) = tip s evs"
  proof (cases evs rule: rev_cases)
    case Nil
    then show ?thesis by (simp add: file_of_def tip_def tail_chain_hash_def)
  next
    case (snoc es e)
    then show ?thesis using tail_hash_line [of s e "file_of s es", OF _ file_of_last] assms by (simp add: file_of_def tip_def)
  qed
  then show ?thesis by (simp add: exporter_open_def Let_def)
qed

lemma step_chain_inv:
  assumes "chain_inv s st" "op_ok s op"
  shows "chain_inv s (eop_step s op st)"
proof -
  obtain outs x where st: "st = (outs, x)" by (cases st)
  obtain evs k where inv: "sink x = Some k" "ev_file k = file_of s evs" "event_linked s None evs" "next_hash k = tip s evs"
    "list_all (line_ok s) evs" "length evs = count_list outs Written"
    using assms(1) by (auto simp: chain_inv_def st)
  show ?thesis
  proof (cases op)
    case Reopen
    then show ?thesis using inv by (auto simp: chain_inv_def st open_resumes)
  next
    case (Emit t m a r ob d wr)
    show ?thesis
    proof (cases "event_build t m a r ob d")
      case None
      then show ?thesis using inv Emit by (auto simp: chain_inv_def st emit_def Let_def)
    next
      case (Some e)
      show ?thesis
      proof (cases wr)
        case (WriteFailed n msg)
        then have "n = 0" using assms(2) Emit by (simp add: op_ok_def)
        then show ?thesis using inv Emit Some WriteFailed by (auto simp: chain_inv_def st emit_def Let_def)
      next
        case WriteOk
        let ?e = "e\<lparr>ev_prev_hash := next_hash k\<rparr>"
        have "next_hash k = None \<or> (\<exists>f. next_hash k = Some (event_chain_hash s f))" using inv(4) by (auto simp: tip_def)
        then have ok: "line_ok s ?e" using assms(2) Some Emit by (auto simp: op_ok_def)
        have "event_linked s None (evs @ [?e])" using inv(3,4) by (simp add: event_linked_snoc tip_def)
        then show ?thesis using inv Emit Some WriteOk ok unfolding chain_inv_def st
          by (intro exI [of _ "evs @ [?e]"]) (simp add: emit_def Let_def file_of_def tip_def nl_def)
      qed
    qed
  qed
qed

text \<open>C19: One file is one chain across restarts: however emissions, skipped events, failed writes that leave
  no bytes behind and restarts are interleaved, the file holds exactly one line per reported write,
  in order, the first without a link and every other carrying the chain hash of its predecessor on
  disk, and the exporter's next link is the hash of the last line (so a reopened file resumes).\<close>
theorem event_stream_is_one_chain:
  assumes "\<forall>op\<in>set ops. op_ok s op" "eops s ops = (outs, x)"
  shows "\<exists>evs k. sink x = Some k \<and> ev_file k = file_of s evs \<and> length evs = count_list outs Written
    \<and> event_linked s None evs \<and> next_hash k = tip s evs
    \<and> tail_chain_hash s (ev_file k) = next_hash k"
proof -
  have "chain_inv s (fold (eop_step s) ops st)" if "chain_inv s st" for st
    using assms(1) that by (induction ops arbitrary: st) (simp_all add: step_chain_inv)
  moreover have "chain_inv s ([], exporter_open s [])"
    unfolding chain_inv_def using open_resumes [of s "[]"] by (intro exI [of _ "[]"]) (simp add: file_of_def)
  ultimately have "chain_inv s (outs, x)" using assms(2) by (metis eops_def)
  then obtain evs k where e: "sink x = Some k" "ev_file k = file_of s evs" "event_linked s None evs" "next_hash k = tip s evs"
    "list_all (line_ok s) evs" "length evs = count_list outs Written"
    by (auto simp: chain_inv_def)
  have "tail_chain_hash s (file_of s evs) = tip s evs"
    using open_resumes [OF e(5)] by (simp add: exporter_open_def Let_def)
  then show ?thesis using e by (intro exI [of _ evs] exI [of _ k]) simp
qed

text \<open>A printer and parser that know one event.\<close>
definition demo_event :: AgentEvent where
  "demo_event = the (event_build DlpBlockEvent 0 (Some ''a'') None None JNull)"

definition demo_serde :: serde where
  "demo_serde = \<lparr> sha256 = (\<lambda>_. []), quote_str = id, ryu = (\<lambda>_. []),
     print_json = (\<lambda>v. if v = JObject (event_fields demo_event) then ''{a}'' else ''{b}''),
     parse_json = (\<lambda>t. Some (JObject (if t = ''{a}'' then event_fields demo_event
                                      else event_fields (demo_event\<lparr>ev_prev_hash := Some ''sha256:''\<rparr>)))) \<rparr>"

lemma demo_build: "event_build DlpBlockEvent 0 (Some ''a'') None None JNull = Some demo_event"
  by (simp add: demo_event_def event_build_def nonempty_opt_def)

lemma demo_hash: "event_chain_hash demo_serde f = ''sha256:''"
  by (simp add: event_chain_hash_def chain_hash_value_def demo_serde_def hex_lower_def)

lemma demo_fields: "event_fields (demo_event\<lparr>ev_prev_hash := Some h\<rparr>) \<noteq> event_fields demo_event"
proof -
  have "ev_prev_hash demo_event = None" by (simp add: demo_event_def event_build_def nonempty_opt_def)
  then show ?thesis by (simp add: event_fields_def opt_member_def)
qed

lemma demo_line_ok:
  assumes "p = None \<or> (\<exists>f. p = Some (event_chain_hash demo_serde f))"
  shows "line_ok demo_serde (demo_event\<lparr>ev_prev_hash := p\<rparr>)"
proof (cases p)
  case None
  have "ev_prev_hash demo_event = None" by (simp add: demo_event_def event_build_def nonempty_opt_def)
  then have "demo_event\<lparr>ev_prev_hash := None\<rparr> = demo_event" by simp
  then show ?thesis using None
    unfolding line_ok_def by (intro exI [of _ "''a''"] exI [of _ "event_fields demo_event"])
      (simp add: to_ndjson_line_def demo_serde_def nl_def WINDOW_def)
next
  case (Some h)
  then have "h = ''sha256:''" using assms by (simp add: demo_hash)
  then show ?thesis using Some demo_fields [of h]
    unfolding line_ok_def by (intro exI [of _ "''b''"] exI [of _ "event_fields (demo_event\<lparr>ev_prev_hash := Some h\<rparr>)"])
      (simp add: to_ndjson_line_def demo_serde_def nl_def WINDOW_def)
qed

theorem event_stream_is_one_chain_witness:
  "\<exists>evs k. sink (snd (eops demo_serde [Emit DlpBlockEvent 0 (Some ''a'') None None JNull WriteOk, Reopen,
       Emit DlpBlockEvent 0 (Some ''a'') None None JNull (WriteFailed 0 ''full'')])) = Some k
     \<and> length evs = 1 \<and> ev_file k = file_of demo_serde evs \<and> tail_chain_hash demo_serde (ev_file k) = next_hash k"
proof -
  let ?ops = "[Emit DlpBlockEvent 0 (Some ''a'') None None JNull WriteOk, Reopen,
       Emit DlpBlockEvent 0 (Some ''a'') None None JNull (WriteFailed 0 ''full'')]"
  have ok: "\<forall>op\<in>set ?ops. op_ok demo_serde op" using demo_line_ok by (auto simp: op_ok_def demo_build)
  obtain outs x where e: "eops demo_serde ?ops = (outs, x)" by fastforce
  have "outs = [Written, WriteError 1 ''full'']"
    using e by (auto simp: eops_def emit_def demo_build exporter_open_def Let_def wrap_u64_def split: prod.splits)
  then show ?thesis using event_stream_is_one_chain [OF ok e] e by auto
qed

text \<open>A failed write that left some bytes behind: the next event is written on the same line.\<close>
lemma partial_write_merges_lines:
  assumes "sink x = Some k" "event_build t m a r ob d = Some e" "event_build t' m' a' r' ob' d' = Some e'"
    and "n \<le> length (to_ndjson_line s (e\<lparr>ev_prev_hash := next_hash k\<rparr>))"
  shows "\<exists>k'. sink (snd (emit s WriteOk (snd (emit s (WriteFailed n msg) x t m a r ob d)) t' m' a' r' ob' d')) = Some k'
    \<and> ev_file k' = ev_file k @ take n (to_ndjson_line s (e\<lparr>ev_prev_hash := next_hash k\<rparr>))
        @ to_ndjson_line s (e'\<lparr>ev_prev_hash := next_hash k\<rparr>) @ [nl]"
  using assms by (simp add: emit_def Let_def nl_def)
end
