(* ===== verification/Request.thy ===== *)
theory Request
  imports Cache Money Policy Utf8 "HOL-Library.List_Lexorder" "HOL-Library.Char_ord"
begin

text \<open>
  What the proxy reads from a request (\<open>crates/gateway/src/proxy.rs\<close>): headers with
  their caps, the parsed body, the rewritten model field, the parts of the cache
  partition key, the declared domains and the semantic core.  A header map is the
  first value of each lower-case name; parameters are the JSON reader and printer,
  the URL parser (scheme and host), the decimal float parser and Unicode lower-casing.
\<close>

definition header_f64 :: "(string \<Rightarrow> f64 option) \<Rightarrow> HeaderMap \<Rightarrow> string \<Rightarrow> f64 option" where
  "header_f64 parse_f64 h name = Option.bind (header_str h name) parse_f64"

definition mode_str :: "Mode \<Rightarrow> string" where
  "mode_str m = (case m of Shadow \<Rightarrow> ''shadow'' | Warn \<Rightarrow> ''warn'' | Enforce \<Rightarrow> ''enforce'')"

definition DEFAULT_RUN_BUDGET :: microusd where "DEFAULT_RUN_BUDGET = 5000000"
definition ON_BEHALF_OF_MAX_BYTES :: usize where "ON_BEHALF_OF_MAX_BYTES = 4096"
definition OUTCOME_MAX_BYTES :: usize where "OUTCOME_MAX_BYTES = 128"

text \<open>The capped headers, with the process-wide counter of ignored occurrences.\<close>
definition on_behalf_of_header :: "HeaderMap \<Rightarrow> u64 \<Rightarrow> string option \<times> u64" where
  "on_behalf_of_header h overcap =
     (case header_str h ''x-fuse-on-behalf-of'' of
        None \<Rightarrow> (None, overcap)
      | Some raw \<Rightarrow>
          if raw = [] then (None, overcap)
          else if length raw > ON_BEHALF_OF_MAX_BYTES then (None, wrap_u64 (overcap + 1))
          else (Some raw, overcap))"

definition split_on_behalf_of :: "string \<Rightarrow> string list" where
  "split_on_behalf_of raw = filter (\<lambda>s. s \<noteq> []) (map trim (split_char (CHR '','') raw))"

definition outcome_header :: "HeaderMap \<Rightarrow> u64 \<Rightarrow> string option \<times> u64" where
  "outcome_header h overcap =
     (case header_str h ''x-fuse-outcome'' of
        None \<Rightarrow> (None, overcap)
      | Some raw \<Rightarrow>
          if raw = [] then (None, overcap)
          else if length raw > OUTCOME_MAX_BYTES then (None, wrap_u64 (overcap + 1))
          else (Some raw, overcap))"

definition taint_header_labels :: "(string \<Rightarrow> string) \<Rightarrow> HeaderMap \<Rightarrow> string set" where
  "taint_header_labels lower h =
     (case header_str h ''x-fuse-taint'' of
        Some s \<Rightarrow> set (filter (\<lambda>p. p \<noteq> []) (map (\<lambda>p. lower (trim p)) (split_char (CHR '','') s)))
      | None \<Rightarrow> {})"

section \<open>Body\<close>

record ParsedRequest =
  p_model :: string
  p_max_tokens :: "u64 option"
  p_stream :: bool

definition parse_request :: "json \<Rightarrow> ParsedRequest" where
  "parse_request v =
     \<lparr> p_model = (case get_str ''model'' v of Some m \<Rightarrow> m | None \<Rightarrow> ''unknown''),
       p_max_tokens = get_then ''max_tokens'' as_u64 v,
       p_stream = (case get_then ''stream'' as_bool v of Some b \<Rightarrow> b | None \<Rightarrow> False) \<rparr>"

text \<open>\<open>Map::insert\<close> on the sorted members.\<close>
fun member_insert :: "string \<Rightarrow> json \<Rightarrow> (string \<times> json) list \<Rightarrow> (string \<times> json) list" where
  "member_insert k v [] = [(k, v)]"
| "member_insert k v ((k', v') # r) =
     (if k = k' then (k, v) # r else if k < k' then (k, v) # (k', v') # r else (k', v') # member_insert k v r)"

definition rewrite_model_field :: "(string \<Rightarrow> json option) \<Rightarrow> (json \<Rightarrow> string) \<Rightarrow> string \<Rightarrow> string \<Rightarrow> string option" where
  "rewrite_model_field parse print body model =
     Option.bind (parse body) (\<lambda>v. map_option (\<lambda>kvs. print (JObject (member_insert ''model'' (JString model) kvs))) (as_object v))"

definition cache_eligible :: "json \<Rightarrow> bool" where
  "cache_eligible request =
     (case json_get ''tools'' request of None \<Rightarrow> True | Some (JArray a) \<Rightarrow> a = [] | Some _ \<Rightarrow> False)"

definition concat_text_blocks :: "json list \<Rightarrow> string" where
  "concat_text_blocks blocks =
     trim (concat (map (\<lambda>b. case get_str ''text'' b of Some t \<Rightarrow> t @ '' '' | None \<Rightarrow> '''') blocks))"

definition system_text :: "json \<Rightarrow> string" where
  "system_text request =
     (case json_get ''system'' request of
        Some (JString s) \<Rightarrow> s
      | Some (JArray blocks) \<Rightarrow> concat_text_blocks blocks
      | _ \<Rightarrow> '''')"

definition tools_text :: "(json \<Rightarrow> string) \<Rightarrow> json \<Rightarrow> string" where
  "tools_text print request = (case json_get ''tools'' request of Some t \<Rightarrow> print t | None \<Rightarrow> '''')"

definition MAX_DOMAIN_SCAN_DEPTH :: nat where "MAX_DOMAIN_SCAN_DEPTH = 12"

text \<open>A URL as the parser gives it: its scheme and its host, if it has one.\<close>
type_synonym url_parser = "string \<Rightarrow> (string \<times> string option) option"

definition url_host :: "url_parser \<Rightarrow> string \<Rightarrow> string list" where
  "url_host parse_url s = (case parse_url s of
     Some (scheme, Some host) \<Rightarrow> if scheme = ''http'' \<or> scheme = ''https'' then [to_ascii_lowercase host] else []
   | _ \<Rightarrow> [])"

fun collect_url_hosts :: "url_parser \<Rightarrow> nat \<Rightarrow> json \<Rightarrow> string list" where
  "collect_url_hosts parse_url depth (JString s) = (if depth > MAX_DOMAIN_SCAN_DEPTH then [] else url_host parse_url s)"
| "collect_url_hosts parse_url depth (JArray items) =
     (if depth > MAX_DOMAIN_SCAN_DEPTH then [] else concat (map (collect_url_hosts parse_url (depth + 1)) items))"
| "collect_url_hosts parse_url depth (JObject kvs) =
     (if depth > MAX_DOMAIN_SCAN_DEPTH then [] else concat (map (\<lambda>(k, v). collect_url_hosts parse_url (depth + 1) v) kvs))"
| "collect_url_hosts parse_url depth _ = []"

definition referenced_domains :: "url_parser \<Rightarrow> json \<Rightarrow> string list" where
  "referenced_domains parse_url request =
     (case json_get ''tools'' request of
        None \<Rightarrow> []
      | Some tools \<Rightarrow> remdups_adj (sort (collect_url_hosts parse_url 0 tools)))"

definition core_text :: "json \<Rightarrow> string" where
  "core_text msg =
     (case json_get ''content'' msg of
        Some (JString s) \<Rightarrow> s
      | Some (JArray blocks) \<Rightarrow> concat_text_blocks blocks
      | _ \<Rightarrow> '''')"

definition semantic_core :: "json \<Rightarrow> string" where
  "semantic_core request =
     (let txt = (case get_then ''messages'' as_array request of
            Some msgs \<Rightarrow> (case List.find (\<lambda>m. get_str ''role'' m = Some ''user'') (rev msgs) of
                Some m \<Rightarrow> core_text m | None \<Rightarrow> '''')
          | None \<Rightarrow> '''')
      in concat (take 512 (chars txt)))"

section \<open>Facts\<close>

lemma member_insert_get: "map_of (member_insert k v kvs) k' = (if k' = k then Some v else map_of kvs k')"
  by (induction k v kvs rule: member_insert.induct) auto

text \<open>A rewritten body reads back with the routed model and every other member as it was.\<close>
lemma rewrite_model_reads_back:
  assumes "rewrite_model_field parse print body m = Some b" "\<And>v. parse (print v) = Some v"
  shows "\<exists>kvs w. parse body = Some (JObject kvs) \<and> parse b = Some w \<and> p_model (parse_request w) = m
    \<and> (\<forall>k. k \<noteq> ''model'' \<longrightarrow> json_get k w = json_get k (JObject kvs))"
proof -
  obtain kvs where kvs: "parse body = Some (JObject kvs)" "b = print (JObject (member_insert ''model'' (JString m) kvs))"
  proof -
    obtain v ks where "parse body = Some v" "as_object v = Some ks" "b = print (JObject (member_insert ''model'' (JString m) ks))"
      using assms(1) by (auto simp: rewrite_model_field_def bind_eq_Some_conv)
    then show ?thesis using that by (cases v) (auto simp: as_object_def)
  qed
  then show ?thesis using assms(2) by (auto simp: parse_request_def get_str_def get_then_def member_insert_get)
qed

end
