(* ===== verification/Responses.thy ===== *)
theory Responses
  imports Request Breaker Wardryx
begin

text \<open>
  The responses the proxy builds itself (\<open>crates/gateway/src/proxy.rs\<close>): the
  refusals, the breaker contract, cached answers, the upstream error and the headers
  of forwarded answers.  A JSON body is its value, its members in key order.
  A response is what the functions hand to the builder.  \<open>built\<close> is the end of the
  builder chain, \<open>.body(..).expect("valid response")\<close>: it panics, the value \<open>None\<close>, when a
  header value is illegal.
\<close>

datatype body = BJson json | BBytes string | BStream "string list"

record HttpResponse =
  h_status :: nat
  h_headers :: "(string \<times> string) list"
  h_body :: body

definition json_headers :: "string \<Rightarrow> (string \<times> string) list" where
  "json_headers fuse = [(''content-type'', ''application/json''), (''x-fuse'', fuse)]"

definition blocked_headers :: "string \<Rightarrow> (string \<times> string) list" where
  "blocked_headers run_id = json_headers ''blocked'' @ [(''x-fuse-run-id'', run_id)]"

text \<open>
  What the \<open>http\<close> crate takes for a header value, in \<open>HeaderValue::from_str\<close> and in the builder: a
  tab, and every byte from 32 up except 127.  (Reading one back as text is stricter, \<open>header_str\<close>.)
\<close>
definition header_byte :: "char \<Rightarrow> bool" where
  "header_byte c \<longleftrightarrow> (32 \<le> (of_char c :: nat) \<and> (of_char c :: nat) \<noteq> 127) \<or> c = CHR 0x09"

definition header_legal :: "string \<Rightarrow> bool" where
  "header_legal v \<longleftrightarrow> list_all header_byte v"

definition headers_legal :: "(string \<times> string) list \<Rightarrow> bool" where
  "headers_legal hs \<longleftrightarrow> list_all (\<lambda>(n, v). header_legal v) hs"

definition built :: "HttpResponse \<Rightarrow> HttpResponse option" where
  "built r = (if headers_legal (h_headers r) then Some r else None)"

definition set_header_checked :: "string \<Rightarrow> string \<Rightarrow> (string \<times> string) list" where
  "set_header_checked name v = (if header_legal v then [(name, v)] else [])"

definition status_of :: "nat \<Rightarrow> nat" where
  "status_of s = (if 100 \<le> s \<and> s \<le> 999 then s else 200)"

definition jopt :: "string option \<Rightarrow> json" where
  "jopt x = (case x of Some s \<Rightarrow> JString s | None \<Rightarrow> JNull)"

definition unauthorized_response :: HttpResponse where
  "unauthorized_response = \<lparr> h_status = 401, h_headers = json_headers ''unauthorized'',
     h_body = BJson (JObject [(''error'', JObject
       [(''reason'', JString ''this gateway requires a client credential in the `x-fuse-key` header''),
        (''retryable'', JBool False), (''type'', JString ''unauthorized'')])]) \<rparr>"

definition block_body :: "string \<Rightarrow> string \<Rightarrow> string \<Rightarrow> body" where
  "block_body ty run_id reason = BJson (JObject [(''error'', JObject
     [(''reason'', JString reason), (''retryable'', JBool False), (''run_id'', JString run_id), (''type'', JString ty)])])"

definition dlp_block :: "string \<Rightarrow> string \<Rightarrow> HttpResponse" where
  "dlp_block run_id summ = \<lparr> h_status = 403,
     h_headers = blocked_headers run_id @ [(''x-fuse-dlp'', ''blocked: '' @ summ)], h_body = block_body ''dlp_blocked'' run_id summ \<rparr>"

definition firewall_block :: "string \<Rightarrow> string \<Rightarrow> HttpResponse" where
  "firewall_block run_id reason = \<lparr> h_status = 403,
     h_headers = blocked_headers run_id @ [(''x-fuse-taint'', ''blocked: '' @ reason)], h_body = block_body ''taint_blocked'' run_id reason \<rparr>"

definition identity_block :: "string \<Rightarrow> string \<Rightarrow> HttpResponse" where
  "identity_block run_id reason = \<lparr> h_status = 403,
     h_headers = blocked_headers run_id @ [(''x-fuse-identity'', ''blocked='' @ reason)],
     h_body = BJson (to_error_json \<lparr> tripped = True, bv_reason = Some IdentityMismatch, detail = Some reason,
       budget_usd = None, spent_usd = None, policy_id = None, would_trip_only = False \<rparr> run_id) \<rparr>"

definition wardryx_deny_response :: "string \<Rightarrow> WardryxOutcome \<Rightarrow> HttpResponse" where
  "wardryx_deny_response run_id out =
     (let reason = (case w_reason out of Some r \<Rightarrow> r | None \<Rightarrow> ''denied by policy'') in
      \<lparr> h_status = 403, h_headers = blocked_headers run_id @ [(''x-fuse-wardryx'', ''deny'')],
        h_body = BJson (JObject [(''error'', JObject
          [(''policy_version'', jopt (policy_version out)), (''reason'', JString reason), (''retryable'', JBool False),
           (''run_id'', JString run_id), (''type'', JString ''wardryx_denied'')])]) \<rparr>)"

text \<open>The hold does not panic: its builder chain ends in a fallback.\<close>
definition wardryx_hold_response :: "string \<Rightarrow> WardryxOutcome \<Rightarrow> HttpResponse" where
  "wardryx_hold_response run_id out =
     (let app = (case approval_id out of Some a \<Rightarrow> a | None \<Rightarrow> '''');
          reason = (case w_reason out of Some r \<Rightarrow> r | None \<Rightarrow> ''held pending approval'');
          r = \<lparr> h_status = 403,
            h_headers = blocked_headers run_id @ [(''x-fuse-wardryx'', ''hold'')] @ set_header_checked ''x-fuse-approval-id'' app,
            h_body = BJson (JObject [(''error'', JObject
              [(''approval_id'', JString app), (''approval_token_required'', JBool (approval_token_required out)),
               (''detail'', JString ''resubmit this request with header x-fuse-approval-token after approval''),
               (''policy_version'', jopt (policy_version out)), (''reason'', JString reason), (''retryable'', JBool True),
               (''run_id'', JString run_id), (''type'', JString ''wardryx_hold'')])]) \<rparr>
      in (case built r of Some r \<Rightarrow> r | None \<Rightarrow> \<lparr> h_status = 403, h_headers = [], h_body = BBytes [] \<rparr>))"

definition cached_response :: "string \<Rightarrow> Lookup \<Rightarrow> Mode \<Rightarrow> HttpResponse" where
  "cached_response run_id hit m = \<lparr> h_status = 200,
     h_headers = [(''content-type'', l_content_type hit), (''x-fuse'', ''cached''), (''x-fuse-cache'', ''hit''),
       (''x-fuse-run-id'', run_id), (''x-fuse-mode'', mode_str m), (''x-fuse-similarity'', f64_fixed 3 (similarity hit)),
       (''x-fuse-cost-usd'', ''0.000000''), (''x-fuse-saved-usd'', f64_fixed 6 (as_usd (l_saved_microusd hit)))],
     h_body = BBytes (l_response hit) \<rparr>"

definition breaker_error_response :: "string \<Rightarrow> BreakerVerdict \<Rightarrow> HttpResponse" where
  "breaker_error_response run_id v = \<lparr>
     h_status = (case map_option http_status (bv_reason v) of Some c \<Rightarrow> if 100 \<le> c \<and> c \<le> 999 then c else 402 | None \<Rightarrow> 402),
     h_headers = blocked_headers run_id, h_body = BJson (to_error_json v run_id) \<rparr>"

definition budget_verdict :: "BreakerReason \<Rightarrow> microusd \<Rightarrow> microusd \<Rightarrow> string \<Rightarrow> string \<Rightarrow> BreakerVerdict" where
  "budget_verdict reason b s pid det = \<lparr> tripped = True, bv_reason = Some reason, detail = Some det,
     budget_usd = Some (as_usd b), spent_usd = Some (as_usd s), policy_id = Some pid, would_trip_only = False \<rparr>"

text \<open>\<open>ProviderError::Upstream\<close>, rendered by its \<open>Display\<close>.\<close>
definition provider_error_str :: "string \<Rightarrow> string" where
  "provider_error_str m = ''upstream request failed: '' @ m"

definition upstream_error :: "string \<Rightarrow> HttpResponse" where
  "upstream_error e = \<lparr> h_status = 502, h_headers = [(''content-type'', ''application/json'')],
     h_body = BJson (JObject [(''error'', JObject [(''detail'', JString (provider_error_str e)), (''type'', JString ''upstream_error'')])]) \<rparr>"

record ProviderResponse =
  pr_status :: nat
  pr_content_type :: "string option"
  pr_chunks :: "string list"

definition content_type_or :: "string \<Rightarrow> ProviderResponse \<Rightarrow> string" where
  "content_type_or d r = (case pr_content_type r of Some c \<Rightarrow> c | None \<Rightarrow> d)"

definition passthrough_response :: "ProviderResponse \<Rightarrow> string \<Rightarrow> HttpResponse" where
  "passthrough_response r managed = \<lparr> h_status = status_of (pr_status r),
     h_headers = [(''content-type'', content_type_or ''application/json'' r), (''x-fuse'', managed)],
     h_body = BStream (pr_chunks r) \<rparr>"

text \<open>The informational headers a forwarded answer carries when a signal is present.\<close>
definition note_header :: "string \<Rightarrow> string option \<Rightarrow> (string \<times> string) list" where
  "note_header name v = (case v of Some x \<Rightarrow> [(name, x)] | None \<Rightarrow> [])"

definition checked_header :: "string \<Rightarrow> string option \<Rightarrow> (string \<times> string) list" where
  "checked_header name v = (case v of Some x \<Rightarrow> set_header_checked name x | None \<Rightarrow> [])"

section \<open>Legal header values\<close>

named_theorems legal \<open>texts that are legal header values\<close>

lemma header_legal_append [legal, simp]: "header_legal (a @ b) \<longleftrightarrow> header_legal a \<and> header_legal b"
  by (simp add: header_legal_def)

lemma header_legal_Nil [legal, simp]: "header_legal []"
  by (simp add: header_legal_def)

lemma header_legal_Cons: "header_legal (c # s) \<longleftrightarrow> header_byte c \<and> header_legal s"
  by (simp add: header_legal_def)

lemma header_legal_concat: "header_legal (concat xs) \<longleftrightarrow> list_all header_legal xs"
  by (induction xs) simp_all

lemma headers_legal_simps [simp]:
  "headers_legal []" "headers_legal ((n, v) # hs) \<longleftrightarrow> header_legal v \<and> headers_legal hs"
  "headers_legal (hs @ hs') \<longleftrightarrow> headers_legal hs \<and> headers_legal hs'"
  by (simp_all add: headers_legal_def)

lemma visible_header_byte: "visible_ascii c \<Longrightarrow> header_byte c"
  by (auto simp: visible_ascii_def header_byte_def)

lemma header_str_legal: "header_str h n = Some v \<Longrightarrow> header_legal v"
  unfolding header_str_def header_legal_def
  by (auto simp: list_all_iff visible_header_byte split: option.splits if_splits)

lemma digit_legal: "is_digit c \<Longrightarrow> header_byte c"
  by (auto simp: is_digit_def header_byte_def)

lemma nat_str_legal [legal, simp]: "header_legal (nat_str n)"
  using nat_str_digits [of _ n] digit_legal by (auto simp: header_legal_def list_all_iff)

lemma replicate_legal: "header_legal (replicate n c) \<longleftrightarrow> n = 0 \<or> header_byte c"
  by (auto simp: header_legal_def list_all_iff)

lemma f64_fixed_legal [legal, simp]: "header_legal (f64_fixed k x)"
proof (cases x)
  case (Fin a)
  have "header_legal (pad0 k (nat_str n))" for n
    by (simp add: pad0_def replicate_legal header_byte_def)
  then show ?thesis by (simp add: Fin Let_def header_legal_Cons header_byte_def)
qed (simp_all add: header_legal_Cons header_byte_def)

lemma mode_str_legal [simp]: "header_legal (mode_str m)"
  by (cases m) (simp_all add: mode_str_def header_legal_Cons header_byte_def)

lemma set_header_checked_legal [simp]: "headers_legal (set_header_checked n v)"
  by (simp add: set_header_checked_def)

lemma built_Some: "built r = Some r \<longleftrightarrow> headers_legal (h_headers r)"
  by (simp add: built_def)

lemma built_eq: "built r = Some x \<Longrightarrow> x = r"
  by (simp add: built_def split: if_splits)

lemma json_headers_legal [simp]: "headers_legal (json_headers f) \<longleftrightarrow> header_legal f"
  by (simp add: json_headers_def header_legal_Cons header_byte_def)

lemma blocked_headers_legal [simp]: "headers_legal (blocked_headers r) \<longleftrightarrow> header_legal r"
  by (simp add: blocked_headers_def header_legal_Cons header_byte_def)

lemma built_constant [simp]: "built unauthorized_response = Some unauthorized_response" "built (upstream_error m) = Some (upstream_error m)"
  by (simp_all add: built_Some unauthorized_response_def upstream_error_def header_legal_Cons header_byte_def)

lemma built_hold [simp]: "built (wardryx_hold_response r w) = Some (wardryx_hold_response r w)"
  by (auto simp: wardryx_hold_response_def Let_def built_def)

lemma built_legal:
  assumes "header_legal r"
  shows "built (breaker_error_response r v) = Some (breaker_error_response r v)"
    "built (wardryx_deny_response r w) = Some (wardryx_deny_response r w)"
    "header_legal d \<Longrightarrow> built (dlp_block r d) = Some (dlp_block r d)"
    "header_legal d \<Longrightarrow> built (identity_block r d) = Some (identity_block r d)"
    "header_legal d \<Longrightarrow> built (firewall_block r d) = Some (firewall_block r d)"
    "header_legal (l_content_type l) \<Longrightarrow> built (cached_response r l m) = Some (cached_response r l m)"
  using assms by (simp_all add: built_Some breaker_error_response_def wardryx_deny_response_def dlp_block_def identity_block_def
      firewall_block_def cached_response_def Let_def header_legal_Cons header_byte_def)

lemma note_header_legal [simp]: "headers_legal (note_header n x) \<longleftrightarrow> pred_option header_legal x"
  by (cases x) (simp_all add: note_header_def)

lemma checked_header_legal [simp]: "headers_legal (checked_header n x)"
  by (simp add: checked_header_def split: option.split)

lemma blocked_status:
  "h_status (dlp_block r s) = 403" "h_status (identity_block r s) = 403" "h_status (firewall_block r s) = 403"
  "h_status (wardryx_deny_response r w) = 403" "h_status (wardryx_hold_response r w) = 403"
  "h_status (breaker_error_response r (budget_verdict k b sp p d)) = http_status k"
  by (simp_all add: dlp_block_def identity_block_def firewall_block_def wardryx_deny_response_def wardryx_hold_response_def
      breaker_error_response_def budget_verdict_def Let_def built_def) (cases k; simp)

end
