(* ===== verification/AppState.thy ===== *)
theory AppState
  imports SettleGuard ClientKeys Router Dlp Taint IdentityMap AgentEvent Responses "HOL-Library.Word"
begin

text \<open>
  The gateway's shared state (\<open>crates/gateway/src/state.rs\<close>), with the in-process
  ledger as the backend, and what a request meets outside the program (\<open>Env\<close>).
  Two observations are added to the state: \<open>st_sent\<close>, the headers and bodies handed
  to the provider, and the two process-wide counters of ignored headers.
\<close>

type_synonym wasm_eval = "i64 \<Rightarrow> i64 \<Rightarrow> i64 \<Rightarrow> u32 \<Rightarrow> u32 \<Rightarrow> int"

record AppState =
  st_ledger :: ledger
  st_prices :: PriceBook
  st_policy :: Policy
  st_policy_id :: string
  st_sink :: "CallRecord list"
  st_cache :: SemanticCache
  st_firewall :: FirewallConfig
  st_dlp :: DlpMode
  st_dlp_pii :: DlpMode
  st_router :: Router
  st_wasm :: "wasm_eval option"
  st_wardryx :: Wardryx
  st_history :: "string \<rightharpoonup> u64 list"
  st_killed :: "string set"
  st_taint :: "string \<rightharpoonup> Labels"
  st_cloud_budgets :: "string \<rightharpoonup> microusd"
  st_events :: Exporter
  st_client_keys :: ClientKeys
  st_identity :: IdentityMap
  st_identity_strict :: StrictMode
  st_units :: UnitLedger
  st_keystats :: KeyStats
  st_sent :: "(HeaderMap \<times> string) list"
  st_obo_overcap :: u64
  st_outcome_overcap :: u64

definition app_new :: "ledger \<Rightarrow> PriceBook \<Rightarrow> Policy \<Rightarrow> string \<Rightarrow> (string \<Rightarrow> f64 list) \<Rightarrow> AppState" where
  "app_new l b p pid embedder = \<lparr> st_ledger = l, st_prices = b, st_policy = p, st_policy_id = pid, st_sink = [],
     st_cache = cache_new embedder CacheConfig_default, st_firewall = firewall_disabled, st_dlp = DlpOff, st_dlp_pii = DlpOff,
     st_router = router_disabled, st_wasm = None, st_wardryx = wardryx_disabled, st_history = Map.empty, st_killed = {},
     st_taint = Map.empty, st_cloud_budgets = Map.empty, st_events = exporter_disabled, st_client_keys = ClientKeys_default,
     st_identity = IdentityMap_default, st_identity_strict = StrictOff, st_units = unit_ledger_new Map.empty,
     st_keystats = KeyStats_default, st_sent = [], st_obo_overcap = 0, st_outcome_overcap = 0 \<rparr>"

definition with_client_keys :: "ClientKeys \<Rightarrow> AppState \<Rightarrow> AppState" where
  "with_client_keys k st = st\<lparr>st_client_keys := k\<rparr>"

definition with_identity :: "IdentityMap \<Rightarrow> StrictMode \<Rightarrow> UnitLedger \<Rightarrow> AppState \<Rightarrow> AppState" where
  "with_identity m strict u st = st\<lparr>st_identity := m, st_identity_strict := strict, st_units := u\<rparr>"

definition set_cloud_budgets :: "(string \<rightharpoonup> microusd) \<Rightarrow> AppState \<Rightarrow> AppState" where
  "set_cloud_budgets b st = st\<lparr>st_cloud_budgets := b\<rparr>"

definition cloud_budget :: "AppState \<Rightarrow> string \<Rightarrow> microusd option" where
  "cloud_budget st r = st_cloud_budgets st r"

definition with_dlp :: "DlpMode \<Rightarrow> AppState \<Rightarrow> AppState" where "with_dlp m st = st\<lparr>st_dlp := m\<rparr>"
definition with_dlp_pii :: "DlpMode \<Rightarrow> AppState \<Rightarrow> AppState" where "with_dlp_pii m st = st\<lparr>st_dlp_pii := m\<rparr>"
definition with_wasm :: "wasm_eval \<Rightarrow> AppState \<Rightarrow> AppState" where "with_wasm f st = st\<lparr>st_wasm := Some f\<rparr>"
definition with_firewall :: "FirewallConfig \<Rightarrow> AppState \<Rightarrow> AppState" where "with_firewall f st = st\<lparr>st_firewall := f\<rparr>"
definition with_router :: "Router \<Rightarrow> AppState \<Rightarrow> AppState" where "with_router r st = st\<lparr>st_router := r\<rparr>"
definition with_wardryx :: "Wardryx \<Rightarrow> AppState \<Rightarrow> AppState" where "with_wardryx w st = st\<lparr>st_wardryx := w\<rparr>"
definition with_events :: "Exporter \<Rightarrow> AppState \<Rightarrow> AppState" where "with_events x st = st\<lparr>st_events := x\<rparr>"
definition with_cache :: "SemanticCache \<Rightarrow> AppState \<Rightarrow> AppState" where "with_cache c st = st\<lparr>st_cache := c\<rparr>"
definition with_ledger :: "ledger \<Rightarrow> AppState \<Rightarrow> AppState" where "with_ledger l st = st\<lparr>st_ledger := l\<rparr>"

definition kill :: "string \<Rightarrow> AppState \<Rightarrow> AppState" where
  "kill r st = st\<lparr>st_killed := insert r (st_killed st)\<rparr>"

definition is_killed :: "AppState \<Rightarrow> string \<Rightarrow> bool" where
  "is_killed st r \<longleftrightarrow> r \<in> st_killed st"

definition MAX_HISTORY :: nat where "MAX_HISTORY = 128"

definition record_input :: "string \<Rightarrow> u64 \<Rightarrow> AppState \<Rightarrow> u64 list \<times> AppState" where
  "record_input r n st =
     (let h = last_n MAX_HISTORY ((case st_history st r of Some h \<Rightarrow> h | None \<Rightarrow> []) @ [n])
      in (h, st\<lparr>st_history := (st_history st)(r \<mapsto> h)\<rparr>))"

definition sink_record :: "CallRecord \<Rightarrow> AppState \<Rightarrow> AppState" where
  "sink_record r st = st\<lparr>st_sink := st_sink st @ [r]\<rparr>"

section \<open>The world of a request\<close>

text \<open>The places at which the wall clock is read on the path of one request.\<close>
datatype clock_site = AtKeyStats | AtRecord | AtVerdictRecord | AtEvent | AtCacheGet | AtUnitReserve | AtUnitSettle | AtCachePut

text \<open>How the response body ends: read to the end, broken off by an error, or the future dropped
  because the client went away.\<close>
datatype BodyEnd = EndOk | EndErr string | EndDropped

record Env =
  e_engine :: engine
  e_unicode :: Unicode
  e_hasher :: "string \<Rightarrow> u64"
  e_serde :: serde
  e_parse_f64 :: "string \<Rightarrow> f64 option"
  e_parse_url :: url_parser
  e_signature :: "string \<Rightarrow> string \<Rightarrow> u64"
  e_now :: "clock_site \<Rightarrow> i64"
  e_instant :: "u64 \<times> u64"
  e_write :: write_result
  e_pdp :: "WardryxClient \<Rightarrow> DecideContext \<Rightarrow> (WardryxError, WardryxOutcome \<times> bool) result"
  e_send :: "HeaderMap \<Rightarrow> string \<Rightarrow> (string, ProviderResponse) result option"
  e_body_end :: BodyEnd
  e_usage :: "Usage option"

text \<open>The bits of the taint labels a WASM policy is given (\<open>crates/gateway/src/wasmpolicy.rs\<close>).\<close>
definition label_bit :: "string \<Rightarrow> u32" where
  "label_bit l = (if l = ''web'' then 1 else if l = ''file'' then 2 else if l = ''secrets'' then 4
     else if l = ''unclassified'' then 8 else if l = ''email'' then 16 else 0)"

unbundle bit_operations_syntax

definition taint_bits :: "Labels \<Rightarrow> u32" where
  "taint_bits labels = fold (\<lambda>l b. b OR label_bit l) (sorted_list_of_set labels) 0"

lemma record_input_bounded: "length (fst (record_input r n st)) \<le> MAX_HISTORY"
  by (simp add: record_input_def Let_def)

end
