(* ===== verification/Proxy.thy ===== *)
theory Proxy
  imports AppState Provider
begin

text \<open>
  The request path (\<open>messages\<close> in \<open>crates/gateway/src/proxy.rs\<close>): one stage per block
  of the function, in its order, each either answering the caller or handing the
  call on; \<open>messages\<close> is their composition.  A stage that ends the request gives
  \<open>Inl (Some response)\<close>, or \<open>Inl None\<close> when the caller gets no response (the handler
  was dropped while awaiting the provider, or panicked).  A request runs against the
  state as it finds it; the interleavings of concurrent requests are those of the
  atomic ledger operations, treated in the ledger theories.
\<close>

type_synonym 'a stage = "AppState \<Rightarrow> (HttpResponse option + 'a) \<times> AppState"

text \<open>Answering: the response is built, or building it panics.\<close>
definition reply :: "HttpResponse \<Rightarrow> 'a stage" where
  "reply r st = (Inl (built r), st)"

definition continue :: "'a \<Rightarrow> 'a stage" where
  "continue x st = (Inr x, st)"

definition stage_then :: "'a stage \<Rightarrow> ('a \<Rightarrow> 'b stage) \<Rightarrow> 'b stage" where
  "stage_then m f st = (case m st of (Inl r, st') \<Rightarrow> (Inl r, st') | (Inr x, st') \<Rightarrow> f x st')"

section \<open>The call in progress\<close>

text \<open>The local variables of \<open>messages\<close>.\<close>
record Call =
  c_headers :: HeaderMap
  c_request :: json
  c_body :: string
  c_key_id :: string
  c_run_id :: string
  c_model :: string
  c_max_tokens :: "u64 option"
  c_stream :: bool
  c_run_budget :: microusd
  c_parent_run_id :: string
  c_agent_id :: string
  c_on_behalf_of :: string
  c_chain :: "string list"
  c_outcome :: string
  c_unit :: string
  c_identity_header :: "string option"
  c_router_header :: "string option"
  c_router_route :: "(string \<times> string) option"
  c_dlp_note :: "string option"
  c_cache_ctx :: "(u64 \<times> string) option"
  c_cache_note :: "string option"
  c_estimate :: microusd
  c_snapshot :: RunSnapshot
  c_would_block :: "string option"
  c_wardryx_header :: "string option"
  c_unit_res :: "UnitReservation option"
  c_res :: Reservation
  c_labels :: Labels

definition no_snapshot :: "microusd \<Rightarrow> RunSnapshot" where
  "no_snapshot b = \<lparr> budget = b, reserved = ZERO, spent = ZERO, steps = 0 \<rparr>"

definition row :: "Env \<Rightarrow> Call \<Rightarrow> string \<Rightarrow> microusd \<Rightarrow> u32 \<Rightarrow> CallRecord" where
  "row e c dec cost step = \<lparr> ts_millis = e_now e AtRecord, cr_run_id = c_run_id c, cr_model = c_model c, cr_decision = dec,
     cr_input_tokens = 0, cr_output_tokens = 0, cost_microusd = cost, cr_step = step, cr_agent_id = c_agent_id c,
     saved_microusd = 0, cr_parent_run_id = c_parent_run_id c, cr_on_behalf_of = c_on_behalf_of c, cr_outcome = c_outcome c,
     cr_key_id = c_key_id c, cr_unit = c_unit c, cr_tool_calls = None \<rparr>"

definition next_step :: "AppState \<Rightarrow> string \<Rightarrow> u32" where
  "next_step st r = (case snapshot (st_ledger st) r of Some s \<Rightarrow> wrap_u32 (steps s + 1) | None \<Rightarrow> 1)"

definition emit_event :: "Env \<Rightarrow> EventType \<Rightarrow> Call \<Rightarrow> json \<Rightarrow> AppState \<Rightarrow> AppState" where
  "emit_event e t c d st =
     st\<lparr>st_events := snd (emit (e_serde e) (e_write e) (st_events st) t (e_now e AtEvent) (Some (c_agent_id c)) (Some (c_run_id c))
          (if c_chain c \<noteq> [] then Some (c_chain c) else None) d)\<rparr>"

definition jf :: "f64 option \<Rightarrow> json" where
  "jf x = (case x of Some v \<Rightarrow> json_f64 v | None \<Rightarrow> JNull)"

definition junit :: "string \<Rightarrow> json" where
  "junit u = (if u \<noteq> [] then JString u else JNull)"

definition emit_breaker_event :: "Env \<Rightarrow> Call \<Rightarrow> BreakerVerdict \<Rightarrow> AppState \<Rightarrow> AppState" where
  "emit_breaker_event e c v = emit_event e BreakerTripped c (JObject
     [(''budget_usd'', jf (budget_usd v)), (''detail'', jopt (detail v)), (''policy_id'', jopt (policy_id v)),
      (''reason'', jopt (map_option as_wire_str (bv_reason v))), (''spent_usd'', jf (spent_usd v)), (''unit'', junit (c_unit c))])"

text \<open>A budget-family block: a row, an event, the breaker response.\<close>
definition breaker_block :: "Env \<Rightarrow> Call \<Rightarrow> BreakerReason \<Rightarrow> microusd \<Rightarrow> u32 \<Rightarrow> microusd \<Rightarrow> microusd \<Rightarrow> string \<Rightarrow> 'a stage" where
  "breaker_block e c reason cost step b sp det st =
     (let v = budget_verdict reason b sp (st_policy_id st) det
      in reply (breaker_error_response (c_run_id c) v)
           (emit_breaker_event e c v (sink_record (row e c (as_wire_str reason) cost step) st)))"

section \<open>Admission\<close>

definition resolve_client_key :: "AppState \<Rightarrow> HeaderMap \<Rightarrow> string option" where
  "resolve_client_key st h =
     (if \<not> keys_enabled (st_client_keys st) then Some []
      else resolve_key (st_client_keys st) (trim (case header_str h CLIENT_KEY_HEADER of Some v \<Rightarrow> v | None \<Rightarrow> [])))"

definition unauthorized :: "Env \<Rightarrow> 'a stage" where
  "unauthorized e st = reply unauthorized_response (st\<lparr>st_keystats := record_unauthorized (st_keystats st) (e_now e AtKeyStats)\<rparr>)"

definition admit :: "Env \<Rightarrow> HeaderMap \<Rightarrow> string stage" where
  "admit e h st =
     (case resolve_client_key st h of
        None \<Rightarrow> unauthorized e st
      | Some key_id \<Rightarrow> continue key_id (st\<lparr>st_keystats := record_call (st_keystats st) key_id (e_now e AtKeyStats)\<rparr>))"

text \<open>Handing the request to the provider; \<open>None\<close> is a future dropped while it waits.\<close>
definition send :: "Env \<Rightarrow> HeaderMap \<Rightarrow> string \<Rightarrow> AppState \<Rightarrow> (string, ProviderResponse) result option \<times> AppState" where
  "send e h b st = (e_send e h b, st\<lparr>st_sent := st_sent st @ [(h, b)]\<rparr>)"

definition unmanaged :: "Env \<Rightarrow> HeaderMap \<Rightarrow> string \<Rightarrow> 'a stage" where
  "unmanaged e h b st =
     (case send e h b st of
        (None, st') \<Rightarrow> (Inl None, st')
      | (Some (Inr r), st') \<Rightarrow> reply (passthrough_response r ''unmanaged'') st'
      | (Some (Inl m), st') \<Rightarrow> reply (upstream_error m) st')"

definition run_budget :: "Env \<Rightarrow> AppState \<Rightarrow> HeaderMap \<Rightarrow> string \<Rightarrow> microusd" where
  "run_budget e st h r =
     (case cloud_budget st r of
        Some b \<Rightarrow> b
      | None \<Rightarrow> (case header_f64 (e_parse_f64 e) h ''x-fuse-budget-usd'' of
          Some v \<Rightarrow> from_usd v
        | None \<Rightarrow> (case budget_per_run (st_policy st) of Some b \<Rightarrow> b | None \<Rightarrow> DEFAULT_RUN_BUDGET)))"

definition or_blank :: "string option \<Rightarrow> string" where
  "or_blank x = (case x of Some s \<Rightarrow> s | None \<Rightarrow> [])"

definition new_call :: "Env \<Rightarrow> HeaderMap \<Rightarrow> string \<Rightarrow> json \<Rightarrow> string \<Rightarrow> string \<Rightarrow> AppState \<Rightarrow> Call" where
  "new_call e h b req key r st =
     (let p = parse_request req; bud = run_budget e st h r;
          agent = or_blank (header_str h ''x-fuse-agent-id''); obo = fst (on_behalf_of_header h (st_obo_overcap st));
          res = identity_resolve (st_identity st) key agent
      in \<lparr> c_headers = h, c_request = req, c_body = b, c_key_id = key, c_run_id = r, c_model = p_model p,
           c_max_tokens = p_max_tokens p, c_stream = p_stream p, c_run_budget = bud,
           c_parent_run_id = or_blank (header_str h ''x-fuse-parent-run-id''), c_agent_id = agent,
           c_on_behalf_of = or_blank obo, c_chain = (case obo of Some raw \<Rightarrow> split_on_behalf_of raw | None \<Rightarrow> []),
           c_outcome = or_blank (fst (outcome_header h (st_outcome_overcap st))), c_unit = or_blank (res_unit res),
           c_identity_header = None, c_router_header = None, c_router_route = None, c_dlp_note = None, c_cache_ctx = None,
           c_cache_note = None, c_estimate = ZERO, c_snapshot = no_snapshot bud, c_would_block = None, c_wardryx_header = None,
           c_unit_res = None, c_res = \<lparr> res_run_id = r, amount = ZERO, res_step = 0 \<rparr>, c_labels = {} \<rparr>)"

text \<open>Budget, run opening and the captured headers.\<close>
definition open_call :: "Env \<Rightarrow> HeaderMap \<Rightarrow> string \<Rightarrow> json \<Rightarrow> string \<Rightarrow> string \<Rightarrow> Call stage" where
  "open_call e h b req key r st =
     (let c = new_call e h b req key r st
      in continue c (st\<lparr>st_ledger := open_run (st_ledger st) r (c_run_budget c) (header_str h ''x-fuse-parent-run-id''),
           st_obo_overcap := snd (on_behalf_of_header h (st_obo_overcap st)),
           st_outcome_overcap := snd (outcome_header h (st_outcome_overcap st))\<rparr>))"

definition count_mismatch :: "Call \<Rightarrow> AppState \<Rightarrow> AppState" where
  "count_mismatch c st = st\<lparr>st_keystats := record_identity_mismatch (st_keystats st) (c_key_id c)\<rparr>"

definition identity_gate :: "Env \<Rightarrow> Call \<Rightarrow> Call stage" where
  "identity_gate e c st =
     (case res_mismatch (identity_resolve (st_identity st) (c_key_id c) (c_agent_id c)) of
        None \<Rightarrow> continue c st
      | Some reason \<Rightarrow> (case st_identity_strict st of
          StrictOff \<Rightarrow> continue c st
        | StrictWarn \<Rightarrow> continue (c\<lparr>c_identity_header := Some (''would-block='' @ reason)\<rparr>) (count_mismatch c st)
        | StrictEnforce \<Rightarrow>
            let st1 = count_mismatch c st;
                st2 = sink_record (row e c ''identity_mismatch'' 0 (next_step st1 (c_run_id c))) st1
            in reply (identity_block (c_run_id c) reason)
                 (emit_event e EventType.IdentityMismatch c (JObject [(''agent_id'', JString (c_agent_id c)),
                    (''key_id'', JString (c_key_id c)), (''reason'', JString reason), (''unit'', junit (c_unit c))]) st2)))"

section \<open>Routing, kill switch, DLP\<close>

definition route_call :: "Env \<Rightarrow> Call \<Rightarrow> Call stage" where
  "route_call e c st =
     (if r_mode (st_router st) = ROff then continue c st
      else
        let dec = route (st_router st) (c_model c) (or_blank (header_str (c_headers c) ''x-fuse-task-type'')) (st_prices st)
                    (length (c_body c)) (c_max_tokens c);
            new = (if r_mode (st_router st) = ROn \<and> routed dec
                   then rewrite_model_field (parse_json (e_serde e)) (print_json (e_serde e)) (c_body c) (chosen_model dec) else None)
        in case new of
             Some b \<Rightarrow> continue (c\<lparr>c_body := b, c_model := chosen_model dec,
                 c_router_route := Some (original_model dec, chosen_model dec), c_router_header := Some (header_value dec)\<rparr>) st
           | None \<Rightarrow> continue (c\<lparr>c_router_header := Some
               (if r_mode (st_router st) = RShadow \<and> routed dec then ''would-'' @ header_value dec else c_model c @ ''=kept'')\<rparr>) st)"

definition estimate_of :: "AppState \<Rightarrow> Call \<Rightarrow> microusd" where
  "estimate_of st c = (case estimate_cost (st_prices st) (c_model c) (length (c_body c)) (c_max_tokens c) of Some x \<Rightarrow> x | None \<Rightarrow> ZERO)"

definition kill_gate :: "Env \<Rightarrow> Call \<Rightarrow> Call stage" where
  "kill_gate e c st =
     (if is_killed st (c_run_id c)
      then breaker_block e c Killed (estimate_of st c) (next_step st (c_run_id c)) (c_run_budget c)
             (case snapshot (st_ledger st) (c_run_id c) of Some s \<Rightarrow> spent s | None \<Rightarrow> ZERO) ''run killed by operator'' st
      else continue c st)"

definition add_note :: "string option \<Rightarrow> string \<Rightarrow> string option" where
  "add_note old note = Some (case old of Some existing \<Rightarrow> existing @ ''; '' @ note | None \<Rightarrow> note)"

text \<open>The redactions and the note left by the secret scan, then by the PII scan.\<close>
definition secret_redactions :: "DlpMode \<Rightarrow> Finding list \<Rightarrow> Finding list" where
  "secret_redactions m findings = (if m = DlpMask then findings else [])"

definition secret_note :: "DlpMode \<Rightarrow> Finding list \<Rightarrow> string option" where
  "secret_note m findings =
     (if findings = [] then None
      else case m of DlpMask \<Rightarrow> Some (''masked '' @ summary findings) | DlpShadow \<Rightarrow> Some (''found '' @ summary findings) | _ \<Rightarrow> None)"

definition pii_redactions :: "DlpMode \<Rightarrow> Finding list \<Rightarrow> Finding list \<Rightarrow> Finding list" where
  "pii_redactions m findings pii = (if m = DlpMask then filter (\<lambda>p. \<not> (\<exists>f\<in>set findings. spans_overlap f p)) pii else [])"

definition pii_note :: "DlpMode \<Rightarrow> Finding list \<Rightarrow> string option \<Rightarrow> string option" where
  "pii_note m pii old =
     (if pii = [] then old
      else case m of DlpMask \<Rightarrow> add_note old (''masked '' @ pii_summary pii) | DlpShadow \<Rightarrow> add_note old (''found '' @ pii_summary pii) | _ \<Rightarrow> old)"

definition dlp_gate :: "Env \<Rightarrow> Call \<Rightarrow> Call stage" where
  "dlp_gate e c st =
     (if st_dlp st = DlpOff \<and> st_dlp_pii st = DlpOff then continue c st
      else
        let txt = from_utf8_lossy (c_body c);
            findings = (if st_dlp st \<noteq> DlpOff then scan (e_engine e) txt else []);
            pii = (if st_dlp_pii st \<noteq> DlpOff then scan_pii (e_engine e) txt else []);
            to_redact = secret_redactions (st_dlp st) findings @ pii_redactions (st_dlp_pii st) findings pii
        in if findings \<noteq> [] \<and> st_dlp st = DlpBlock
           then reply (dlp_block (c_run_id c) (summary findings))
                  (emit_event e DlpBlockEvent c (JObject [(''summary'', JString (summary findings))])
                     (sink_record (row e c ''dlp_blocked'' 0 (next_step st (c_run_id c))) st))
           else if pii \<noteq> [] \<and> st_dlp_pii st = DlpBlock
           then reply (dlp_block (c_run_id c) (pii_summary pii)) st
           else
             let note = pii_note (st_dlp_pii st) pii (secret_note (st_dlp st) findings)
             in if to_redact = [] then continue (c\<lparr>c_dlp_note := note\<rparr>) st
                else case redact txt to_redact of
                  None \<Rightarrow> (Inl None, st)
                | Some b \<Rightarrow> continue (c\<lparr>c_dlp_note := note, c_body := b\<rparr>) st)"

section \<open>Cache, policy, loops\<close>

definition partition_of :: "Env \<Rightarrow> Call \<Rightarrow> u64" where
  "partition_of e c = partition_key (e_hasher e) (c_model c) (system_text (c_request c))
     (tools_text (print_json (e_serde e)) (c_request c)) (or_blank (header_str (c_headers c) ''x-fuse-task-type'')) ''default''"

definition cache_gate :: "Env \<Rightarrow> Call \<Rightarrow> Call stage" where
  "cache_gate e c st =
     (if c_stream c \<or> cache_mode (st_cache st) = CacheOff \<or> \<not> cache_eligible (c_request c) then continue c st
      else
        let core = semantic_core (c_request c); p = partition_of e c;
            (hit, cache') = cache_get (e_unicode e) (st_cache st) p core (e_now e AtCacheGet);
            st' = st\<lparr>st_cache := cache'\<rparr>
        in case (hit, cache_mode (st_cache st)) of
             (Some l, CacheOn) \<Rightarrow>
               reply (cached_response (c_run_id c) l (mode (st_policy st')))
                 (sink_record ((row e c ''cache_hit'' 0 (next_step st' (c_run_id c)))
                    \<lparr>saved_microusd := l_saved_microusd l, cr_tool_calls := Some 0\<rparr>) st')
           | (Some l, CacheShadow) \<Rightarrow>
               continue (c\<lparr>c_cache_ctx := Some (p, core), c_cache_note := Some (''would-hit; similarity='' @ f64_fixed 3 (similarity l)
                 @ ''; saved=$'' @ f64_fixed 6 (as_usd (l_saved_microusd l)))\<rparr>) st'
           | _ \<Rightarrow> continue (c\<lparr>c_cache_ctx := Some (p, core)\<rparr>) st')"

definition loop_reason :: "Env \<Rightarrow> AppState \<Rightarrow> Call \<Rightarrow> u64 list \<Rightarrow> string option" where
  "loop_reason e st c history =
     (if anomaly_is_empty (anomalies (st_policy st)) then None
      else detect (tool_call_signatures (e_signature e) (print_json (e_serde e)) (c_request c)) history (anomalies (st_policy st)))"

text \<open>Estimate, snapshot, policy evaluation, loop detection, and their enforce-mode blocks.\<close>
definition policy_gate :: "Env \<Rightarrow> Call \<Rightarrow> Call stage" where
  "policy_gate e c st =
     (let est = estimate_of st c;
          sn = (case snapshot (st_ledger st) (c_run_id c) of Some s \<Rightarrow> s | None \<Rightarrow> no_snapshot (c_run_budget c));
          ev = evaluate (st_policy st) sn est;
          (history, st') = record_input (c_run_id c) (length (c_body c) div 4) st;
          lr = loop_reason e st' c history;
          c' = c\<lparr>c_estimate := est, c_snapshot := sn, c_would_block := (case violated ev of Some r \<Rightarrow> Some r | None \<Rightarrow> lr)\<rparr>
      in if mode (st_policy st) = Enforce \<and> is_blocking (Policy.decision ev)
         then breaker_block e c' PolicyViolation est (wrap_u32 (steps sn + 1)) (c_run_budget c) (spent sn) (or_blank (violated ev)) st'
         else if mode (st_policy st) = Enforce \<and> lr \<noteq> None
         then breaker_block e c' LoopDetected est (wrap_u32 (steps sn + 1)) (c_run_budget c) (spent sn) (or_blank lr) st'
         else continue c' st')"

section \<open>External policies\<close>

definition wasm_gate :: "Env \<Rightarrow> Call \<Rightarrow> Call stage" where
  "wasm_gate e c st =
     (case st_wasm st of
        None \<Rightarrow> continue c st
      | Some f \<Rightarrow>
          let bits = (if fw_mode (st_firewall st) \<noteq> FwOff
                then taint_bits (labels_for_tools (tool_names_in (c_request c)) (fw_sources (st_firewall st))) else 0);
              sn = c_snapshot c
          in if f (c_estimate c) (spent sn) (c_run_budget c) (steps sn) bits = 2
             then breaker_block e c WasmPolicy (c_estimate c) (wrap_u32 (steps sn + 1)) (c_run_budget c) (spent sn) ''blocked by custom wasm policy'' st
             else continue c st)"

definition decide_context :: "Env \<Rightarrow> Call \<Rightarrow> DecideContext" where
  "decide_context e c = \<lparr> dc_agent_id = c_agent_id c, dc_run_id = c_run_id c, dc_on_behalf_of = c_chain c,
     dc_tool_names = remdups_adj (sort (tool_names_in (c_request c) @ declared_tool_names_in (c_request c))),
     dc_steps = steps (c_snapshot c), dc_domains = referenced_domains (e_parse_url e) (c_request c), dc_model = c_model c,
     dc_est_cost_usd = as_usd (c_estimate c), dc_attestation = header_str (c_headers c) ''x-fuse-attestation-method'',
     dc_approval_token = header_str (c_headers c) ''x-fuse-approval-token'' \<rparr>"

definition wardryx_gate :: "Env \<Rightarrow> Call \<Rightarrow> Call stage" where
  "wardryx_gate e c st =
     (if w_mode (st_wardryx st) = WOff then continue c st
      else
        let (out, w') = wardryx_decide (e_hasher e) (e_pdp e) (fst (e_instant e)) (snd (e_instant e)) (st_wardryx st) (decide_context e c);
            st' = st\<lparr>st_wardryx := w'\<rparr>;
            step = wrap_u32 (steps (c_snapshot c) + 1)
        in if w_mode (st_wardryx st) = WShadow
           then continue (c\<lparr>c_wardryx_header := Some (''would-'' @ decision_wire_str (w_decision out))\<rparr>) st'
           else case w_decision out of
             WAllow \<Rightarrow> continue (c\<lparr>c_wardryx_header := Some (decision_wire_str (w_decision out))\<rparr>) st'
           | WDeny \<Rightarrow> reply (wardryx_deny_response (c_run_id c) out) (sink_record (row e c ''wardryx_deny'' 0 step) st')
           | WHold \<Rightarrow> reply (wardryx_hold_response (c_run_id c) out) (sink_record (row e c ''wardryx_hold'' 0 step) st'))"

section \<open>Reservations\<close>

definition quoted :: "string \<Rightarrow> string" where
  "quoted s = [CHR 0x27] @ s @ [CHR 0x27]"

definition unit_gate :: "Env \<Rightarrow> Call \<Rightarrow> Call stage" where
  "unit_gate e c st =
     (if c_unit c = [] then continue c st
      else case mode (st_policy st) of
        Enforce \<Rightarrow> (case try_reserve (st_units st) (c_unit c) (c_estimate c) (e_now e AtUnitReserve) of
            (Inr r, u') \<Rightarrow> continue (c\<lparr>c_unit_res := r\<rparr>) (st\<lparr>st_units := u'\<rparr>)
          | (Inl ex, u') \<Rightarrow> breaker_block e c UnitBudgetExceeded (c_estimate c) (wrap_u32 (steps (c_snapshot c) + 1))
              (ue_budget ex) (ue_spent ex) (''unit '' @ quoted (ue_unit ex) @ '' monthly budget exceeded'') (st\<lparr>st_units := u'\<rparr>))
      | _ \<Rightarrow> (case unit_reserve_unchecked (st_units st) (c_unit c) (c_estimate c) (e_now e AtUnitReserve) of
            (r, u') \<Rightarrow> continue (c\<lparr>c_unit_res := r\<rparr>) (st\<lparr>st_units := u'\<rparr>)))"

definition settle_unit :: "Env \<Rightarrow> Call \<Rightarrow> microusd \<Rightarrow> AppState \<Rightarrow> AppState" where
  "settle_unit e c actual st =
     (case c_unit_res c of
        Some ur \<Rightarrow> st\<lparr>st_units := unit_settle (st_units st) ur actual (e_now e AtUnitSettle)\<rparr>
      | None \<Rightarrow> st)"

definition settle_call :: "Env \<Rightarrow> Call \<Rightarrow> microusd \<Rightarrow> AppState \<Rightarrow> AppState" where
  "settle_call e c actual st = settle_unit e c actual (st\<lparr>st_ledger := settle (st_ledger st) (c_res c) actual\<rparr>)"

definition budget_gate :: "Env \<Rightarrow> Call \<Rightarrow> Call stage" where
  "budget_gate e c st =
     (if mode (st_policy st) = Enforce
      then case reserve (st_ledger st) (c_run_id c) (c_estimate c) of
        (Inr v, l') \<Rightarrow> continue (c\<lparr>c_res := v\<rparr>) (st\<lparr>st_ledger := l'\<rparr>)
      | (Inl (Exceeded hit b sp w), l') \<Rightarrow>
          breaker_block e c BudgetExceeded (c_estimate c) (wrap_u32 (steps (c_snapshot c) + 1)) b sp
            (if hit = c_run_id c then ''per-run budget exceeded'' else ''parent run '' @ quoted hit @ '' budget exceeded'')
            (settle_unit e c ZERO (st\<lparr>st_ledger := l'\<rparr>))
      | (Inl (UnknownRun x), l') \<Rightarrow>
          breaker_block e c BudgetExceeded (c_estimate c) (wrap_u32 (steps (c_snapshot c) + 1)) ZERO ZERO
            (''run '' @ quoted (c_run_id c) @ '' has no ledger reservation; denying instead of bypassing the budget check'')
            (settle_unit e c ZERO (st\<lparr>st_ledger := l'\<rparr>))
      else case reserve_unchecked (st_ledger st) (c_run_id c) (c_estimate c) of
        (v, l') \<Rightarrow> continue (c\<lparr>c_res := v\<rparr>) (st\<lparr>st_ledger := l'\<rparr>))"

section \<open>Forwarding and settlement\<close>

definition taint_step :: "Env \<Rightarrow> Call \<Rightarrow> Call stage" where
  "taint_step e c st =
     (if fw_mode (st_firewall st) = FwOff then continue c st
      else
        let labels = taint_header_labels (to_lowercase (e_unicode e)) (c_headers c)
              \<union> labels_for_tools (tool_names_in (c_request c)) (fw_sources (st_firewall st));
            (ls, t') = accumulate_taint (st_taint st) (c_run_id c) labels
        in continue (c\<lparr>c_labels := ls\<rparr>) (st\<lparr>st_taint := t'\<rparr>))"

definition forward :: "Env \<Rightarrow> Call \<Rightarrow> ProviderResponse stage" where
  "forward e c st =
     (case send e (c_headers c) (c_body c) st of
        (None, st') \<Rightarrow> (Inl None, st')
      | (Some (Inr r), st') \<Rightarrow> continue r st'
      | (Some (Inl m), st') \<Rightarrow> reply (upstream_error m) (settle_call e c ZERO st'))"

text \<open>The informational headers in the order they are added.\<close>
definition managed_headers :: "Call \<Rightarrow> AppState \<Rightarrow> (string \<times> string) list" where
  "managed_headers c st = [(''x-fuse-run-id'', res_run_id (c_res c)), (''x-fuse-step'', nat_str (res_step (c_res c))),
     (''x-fuse-mode'', mode_str (mode (st_policy st)))]"

definition trailing_headers :: "Call \<Rightarrow> (string \<times> string) list" where
  "trailing_headers c = note_header ''x-fuse-dlp'' (c_dlp_note c) @ checked_header ''x-fuse-router'' (c_router_header c)
     @ note_header ''x-fuse-wardryx'' (c_wardryx_header c) @ note_header ''x-fuse-identity'' (c_identity_header c)"

text \<open>The guard settles when the stream ends or is dropped; both are the same transition of the state.\<close>
definition stream_managed :: "Env \<Rightarrow> Call \<Rightarrow> ProviderResponse \<Rightarrow> HttpResponse stage" where
  "stream_managed e c r st =
     (let g = settle_guard_new (st_prices st) (c_model c) (amount (c_res c)) (c_res c) (c_agent_id c) (c_parent_run_id c)
            (c_on_behalf_of c) (c_outcome c) (c_key_id c) (c_unit c) (c_unit_res c);
          w = \<lparr> w_ledger = st_ledger st, w_units = st_units st, w_sink = st_sink st, w_slot = e_usage e \<rparr>;
          w' = (if e_body_end e = EndOk
                then guard_complete (e_now e AtUnitSettle) (e_now e AtRecord) (e_now e AtUnitSettle) (e_now e AtRecord) (g, w)
                else guard_drop (e_now e AtUnitSettle) (e_now e AtRecord) (g, w))
      in reply \<lparr> h_status = status_of (pr_status r),
           h_headers = [(''content-type'', content_type_or ''text/event-stream'' r), (''x-fuse'', ''managed''), (''x-fuse-stream'', ''passthrough'')]
             @ managed_headers c st @ note_header ''x-fuse-would-block'' (c_would_block c) @ trailing_headers c,
           h_body = BStream (pr_chunks r) \<rparr>
         (st\<lparr>st_ledger := w_ledger w', st_units := w_units w', st_sink := w_sink w'\<rparr>))"

definition call_cost :: "Env \<Rightarrow> Call \<Rightarrow> AppState \<Rightarrow> microusd" where
  "call_cost e c st = (case Option.bind (e_usage e) (book_cost (st_prices st) (c_model c)) of Some x \<Rightarrow> x | None \<Rightarrow> amount (c_res c))"

definition router_saved :: "Env \<Rightarrow> Call \<Rightarrow> AppState \<Rightarrow> microusd" where
  "router_saved e c st =
     (case (c_router_route c, e_usage e) of
        (Some (orig, chosen), Some u) \<Rightarrow>
          (case (book_cost (st_prices st) orig u, book_cost (st_prices st) chosen u) of
             (Some would, Some did) \<Rightarrow> saturating_sub would did | _ \<Rightarrow> ZERO)
      | _ \<Rightarrow> ZERO)"

definition allow_row :: "Env \<Rightarrow> Call \<Rightarrow> AppState \<Rightarrow> CallRecord" where
  "allow_row e c st =
     (let u = (case e_usage e of Some u \<Rightarrow> u | None \<Rightarrow> Usage_default) in
      (row e c ''allow'' (call_cost e c st) (res_step (c_res c)))\<lparr>cr_run_id := res_run_id (c_res c), cr_input_tokens := input_tokens u,
         cr_output_tokens := output_tokens u, saved_microusd := router_saved e c st, cr_tool_calls := tool_calls u\<rparr>)"

text \<open>The verdict on the model's tool calls: refused, noted, or clear; then the labels of those tools.\<close>
definition firewall_verdict :: "Env \<Rightarrow> Call \<Rightarrow> string \<Rightarrow> string option stage" where
  "firewall_verdict e c bytes st =
     (if fw_mode (st_firewall st) = FwOff then continue None st
      else
        let tools = tool_names_in (case parse_json (e_serde e) bytes of Some v \<Rightarrow> v | None \<Rightarrow> JNull);
            requested = capabilities_for_tools tools (fw_capabilities (st_firewall st));
            verdict = taint_evaluate (c_labels c) requested (fw_rules (st_firewall st));
            rid = res_run_id (c_res c);
            st' = st\<lparr>st_taint := snd (accumulate_taint (st_taint st) rid (labels_for_tools tools (fw_sources (st_firewall st))))\<rparr>
        in case verdict of
             None \<Rightarrow> continue None st'
           | Some reason \<Rightarrow>
               if fw_mode (st_firewall st) = FwEnforce
               then reply (firewall_block rid reason)
                      (emit_event e TaintBlock (c\<lparr>c_run_id := rid\<rparr>) (JObject [(''reason'', JString reason)])
                        (sink_record ((row e c ''taint_blocked'' 0 (res_step (c_res c)))\<lparr>cr_run_id := rid, ts_millis := e_now e AtVerdictRecord\<rparr>) st))
               else continue (Some reason) st')"

definition buffered_managed :: "Env \<Rightarrow> Call \<Rightarrow> ProviderResponse \<Rightarrow> HttpResponse stage" where
  "buffered_managed e c r st =
     (case e_body_end e of
        EndDropped \<Rightarrow> (Inl None, st)
      | EndErr m \<Rightarrow> reply (upstream_error m) (settle_call e c ZERO st)
      | EndOk \<Rightarrow>
          let bytes = concat (pr_chunks r); ct = content_type_or ''application/json'' r;
              actual = call_cost e c st;
              st1 = settle_call e c actual st;
              spent_now = (case snapshot (st_ledger st1) (res_run_id (c_res c)) of Some s \<Rightarrow> spent s | None \<Rightarrow> actual);
              st2 = sink_record (allow_row e c st1) st1
          in stage_then (firewall_verdict e c bytes) (\<lambda>note st3.
               let st4 = (case c_cache_ctx c of
                     Some (p, core) \<Rightarrow> if status_of (pr_status r) = 200
                       then st3\<lparr>st_cache := cache_put (e_unicode e) (st_cache st3) p core bytes ct actual (e_now e AtCachePut)\<rparr> else st3
                   | None \<Rightarrow> st3)
               in reply \<lparr> h_status = status_of (pr_status r),
                    h_headers = [(''content-type'', ct), (''x-fuse'', ''managed'')] @ managed_headers c st4
                      @ [(''x-fuse-cost-usd'', f64_fixed 6 (as_usd actual)), (''x-fuse-spent-usd'', f64_fixed 6 (as_usd spent_now)),
                         (''x-fuse-price'', if is_known (st_prices st4) (c_model c) then ''known'' else ''fallback'')]
                      @ note_header ''x-fuse-would-block'' (c_would_block c) @ note_header ''x-fuse-cache'' (c_cache_note c)
                      @ note_header ''x-fuse-taint'' (map_option (\<lambda>n. ''would-block: '' @ n) note) @ trailing_headers c,
                    h_body = BBytes bytes \<rparr> st4) st2)"

definition respond :: "Env \<Rightarrow> Call \<Rightarrow> ProviderResponse \<Rightarrow> HttpResponse stage" where
  "respond e c r = (if c_stream c then stream_managed e c r else buffered_managed e c r)"

section \<open>The request path\<close>

text \<open>The gates between opening the run and forwarding, in order.\<close>
definition gates :: "(Env \<Rightarrow> Call \<Rightarrow> Call stage) list" where
  "gates = [identity_gate, route_call, kill_gate, dlp_gate, cache_gate, policy_gate, wasm_gate, wardryx_gate, unit_gate, budget_gate, taint_step]"

definition run_gates :: "Env \<Rightarrow> (Env \<Rightarrow> Call \<Rightarrow> Call stage) list \<Rightarrow> Call \<Rightarrow> Call stage" where
  "run_gates e gs c = foldr (\<lambda>g k c. stage_then (g e c) k) gs continue c"

definition managed :: "Env \<Rightarrow> HeaderMap \<Rightarrow> string \<Rightarrow> json \<Rightarrow> string \<Rightarrow> string \<Rightarrow> HttpResponse stage" where
  "managed e h b req key r = stage_then (open_call e h b req key r) (\<lambda>c0.
     stage_then (run_gates e gates c0) (\<lambda>c.
     stage_then (forward e c) (respond e c)))"

definition messages :: "Env \<Rightarrow> HeaderMap \<Rightarrow> string \<Rightarrow> HttpResponse stage" where
  "messages e h b = stage_then (admit e h) (\<lambda>key.
     let req = (case parse_json (e_serde e) b of Some v \<Rightarrow> v | None \<Rightarrow> JNull)
     in case header_str h ''x-fuse-run-id'' of
          None \<Rightarrow> unmanaged e h b
        | Some r \<Rightarrow> managed e h b req key r)"

end
