(* ===== verification/ProxyGates.thy ===== *)
theory ProxyGates
  imports Proxy LedgerSafety
begin

text \<open>
  The two outcomes of every stage of the request path, stated with a triple of two
  postconditions: what a gate leaves when it answers the caller, and what holds of the
  call and the state it hands on.  The last two lemmas join them: a call that passed the
  gates holds its reservations (\<open>gates_holds\<close>), and a forwarded call settles them or
  leaves them (\<open>forward_respond\<close>).
\<close>

section \<open>Triples over stages\<close>

definition stage_ok :: "(HttpResponse option \<Rightarrow> AppState \<Rightarrow> bool) \<Rightarrow> ('a \<Rightarrow> AppState \<Rightarrow> bool) 
    \<Rightarrow> (HttpResponse option + 'a) \<times> AppState \<Rightarrow> bool" where
  "stage_ok E Q out \<longleftrightarrow> (case out of (Inl r, st') \<Rightarrow> E r st' | (Inr x, st') \<Rightarrow> Q x st')"

lemma stage_okI: "\<lbrakk>\<And>r s. m st = (Inl r, s) \<Longrightarrow> E r s; \<And>x s. m st = (Inr x, s) \<Longrightarrow> Q x s\<rbrakk> \<Longrightarrow> stage_ok E Q (m st)"
  by (cases "m st") (auto simp: stage_ok_def split: sum.splits)

lemma stage_okD: "\<lbrakk>stage_ok E Q (m st); m st = (Inl r, s)\<rbrakk> \<Longrightarrow> E r s"
  by (simp add: stage_ok_def)

lemma stage_ok_reply [simp]: "stage_ok E Q (reply r st) \<longleftrightarrow> E (built r) st"
  by (simp add: stage_ok_def reply_def)

lemma stage_ok_continue [simp]: "stage_ok E Q (continue x st) \<longleftrightarrow> Q x st"
  by (simp add: stage_ok_def continue_def)

lemma stage_ok_then:
  "\<lbrakk>stage_ok E Q (m st); \<And>x s. Q x s \<Longrightarrow> stage_ok E R (f x s)\<rbrakk> \<Longrightarrow> stage_ok E R (stage_then m f st)"
  unfolding stage_ok_def stage_then_def by (cases "m st", cases "fst (m st)") force+

lemma stage_ok_weaken:
  "\<lbrakk>stage_ok E Q p; \<And>r s. E r s \<Longrightarrow> E' r s; \<And>x s. Q x s \<Longrightarrow> Q' x s\<rbrakk> \<Longrightarrow> stage_ok E' Q' p"
  by (cases p) (auto simp: stage_ok_def split: sum.splits)

lemma stage_then_assoc: "stage_then (stage_then m f) g = stage_then m (\<lambda>x. stage_then (f x) g)"
  by (rule ext) (auto simp: stage_then_def split: prod.splits sum.splits)

lemma stage_then_continue [simp]: "stage_then m continue = m"
  by (rule ext) (auto simp: stage_then_def continue_def split: prod.splits sum.splits)

lemma continue_then [simp]: "stage_then (continue x) f = f x"
  by (rule ext) (simp add: stage_then_def continue_def)

lemma stage_then_InrE:
  assumes "stage_then m f st = (Inr y, s)"
  obtains x s1 where "m st = (Inr x, s1)" "f x s1 = (Inr y, s)"
  using assms by (auto simp: stage_then_def split: prod.splits sum.splits)

lemma run_gates_Nil [simp]: "run_gates e [] c = continue c"
  by (simp add: run_gates_def)

lemma run_gates_Cons [simp]: "run_gates e (g # gs) c = stage_then (g e c) (run_gates e gs)"
  by (simp add: run_gates_def [abs_def])

lemma run_gates_append: "run_gates e (xs @ ys) = (\<lambda>c. stage_then (run_gates e xs c) (run_gates e ys))"
proof (induction xs)
  case (Cons g xs)
  then show ?case by (intro ext) (simp add: stage_then_assoc)
qed (intro ext, simp)

section \<open>Refusals before any reservation\<close>

definition run_spent :: "AppState \<Rightarrow> string \<Rightarrow> microusd" where
  "run_spent st r = (case snapshot (st_ledger st) r of Some s \<Rightarrow> spent s | None \<Rightarrow> ZERO)"

definition run_snapshot :: "AppState \<Rightarrow> Call \<Rightarrow> RunSnapshot" where
  "run_snapshot st c = (case snapshot (st_ledger st) (c_run_id c) of Some s \<Rightarrow> s | None \<Rightarrow> no_snapshot (c_run_budget c))"

text \<open>The row of a refusal that costs nothing, and a trip of the breaker: its response and its row,
  which carries the estimate that was not spent.\<close>
definition free_row :: "Env \<Rightarrow> AppState \<Rightarrow> Call \<Rightarrow> string \<Rightarrow> CallRecord" where
  "free_row e st c d = row e c d 0 (next_step st (c_run_id c))"

definition tripped_by :: "Env \<Rightarrow> AppState \<Rightarrow> Call \<Rightarrow> BreakerReason \<Rightarrow> microusd \<Rightarrow> microusd \<Rightarrow> string \<Rightarrow> HttpResponse \<Rightarrow> CallRecord list \<Rightarrow> bool" where
  "tripped_by e st c k b sp d resp rows \<longleftrightarrow> resp = breaker_error_response (c_run_id c) (budget_verdict k b sp (st_policy_id st) d)
     \<and> rows = [row e c (as_wire_str k) (estimate_of st c) (next_step st (c_run_id c))]"

definition wasm_clear :: "Call \<Rightarrow> AppState \<Rightarrow> bool" where
  "wasm_clear c st \<longleftrightarrow> (case st_wasm st of None \<Rightarrow> True | Some f \<Rightarrow>
     f (c_estimate c) (spent (c_snapshot c)) (c_run_budget c) (steps (c_snapshot c))
       (if fw_mode (st_firewall st) \<noteq> FwOff then taint_bits (labels_for_tools (tool_names_in (c_request c)) (fw_sources (st_firewall st))) else 0) \<noteq> 2)"

definition wardryx_out :: "Env \<Rightarrow> Call \<Rightarrow> AppState \<Rightarrow> WardryxOutcome" where
  "wardryx_out e c st = fst (wardryx_decide (e_hasher e) (e_pdp e) (fst (e_instant e)) (snd (e_instant e)) (st_wardryx st) (decide_context e c))"

definition wardryx_verdict :: "Env \<Rightarrow> Call \<Rightarrow> AppState \<Rightarrow> WardryxDecision" where
  "wardryx_verdict e c st = w_decision (wardryx_out e c st)"

text \<open>
  Every way a call \<open>c\<close> is refused, given the state in which its run was opened: the condition, the
  response and the rows of the trace.
\<close>
inductive refusal :: "Env \<Rightarrow> AppState \<Rightarrow> Call \<Rightarrow> HttpResponse \<Rightarrow> CallRecord list \<Rightarrow> bool" for e st c where
  identity: "\<lbrakk>st_identity_strict st = StrictEnforce;
      res_mismatch (identity_resolve (st_identity st) (c_key_id c) (c_agent_id c)) = Some reason\<rbrakk> \<Longrightarrow>
    refusal e st c (identity_block (c_run_id c) reason) [free_row e st c ''identity_mismatch'']"
| killed: "\<lbrakk>c_run_id c \<in> st_killed st;
      tripped_by e st c Killed (c_run_budget c) (run_spent st (c_run_id c)) ''run killed by operator'' resp rows\<rbrakk> \<Longrightarrow>
    refusal e st c resp rows"
| secret: "\<lbrakk>st_dlp st = DlpBlock; scan (e_engine e) (from_utf8_lossy (c_body c)) = fs; fs \<noteq> []\<rbrakk> \<Longrightarrow>
    refusal e st c (dlp_block (c_run_id c) (summary fs)) [free_row e st c ''dlp_blocked'']"
| pii: "\<lbrakk>st_dlp_pii st = DlpBlock; scan_pii (e_engine e) (from_utf8_lossy (c_body c)) = ps; ps \<noteq> []\<rbrakk> \<Longrightarrow>
    refusal e st c (dlp_block (c_run_id c) (pii_summary ps)) []"
| cached: "\<lbrakk>cache_mode (st_cache st) = CacheOn; \<not> c_stream c; cache_eligible (c_request c);
      fst (cache_get (e_unicode e) (st_cache st) (partition_of e c) (semantic_core (c_request c)) (e_now e AtCacheGet)) = Some l\<rbrakk> \<Longrightarrow>
    refusal e st c (cached_response (c_run_id c) l (mode (st_policy st)))
      [(free_row e st c ''cache_hit'')\<lparr>saved_microusd := l_saved_microusd l, cr_tool_calls := Some 0\<rparr>]"
| policy: "\<lbrakk>mode (st_policy st) = Enforce; violated (evaluate (st_policy st) (run_snapshot st c) (estimate_of st c)) = Some d;
      tripped_by e st c PolicyViolation (c_run_budget c) (run_spent st (c_run_id c)) d resp rows\<rbrakk> \<Longrightarrow>
    refusal e st c resp rows"
| loop: "\<lbrakk>mode (st_policy st) = Enforce;
      loop_reason e st c (fst (record_input (c_run_id c) (length (c_body c) div 4) st)) = Some d;
      tripped_by e st c LoopDetected (c_run_budget c) (run_spent st (c_run_id c)) d resp rows\<rbrakk> \<Longrightarrow>
    refusal e st c resp rows"
| wasm: "\<lbrakk>\<not> wasm_clear c st; c_estimate c = estimate_of st c; c_snapshot c = run_snapshot st c;
      tripped_by e st c WasmPolicy (c_run_budget c) (run_spent st (c_run_id c)) ''blocked by custom wasm policy'' resp rows\<rbrakk> \<Longrightarrow>
    refusal e st c resp rows"
| denied: "\<lbrakk>w_mode (st_wardryx st) = WEnforce; c_estimate c = estimate_of st c; c_snapshot c = run_snapshot st c;
      wardryx_verdict e c st = WDeny\<rbrakk> \<Longrightarrow>
    refusal e st c (wardryx_deny_response (c_run_id c) (wardryx_out e c st)) [free_row e st c ''wardryx_deny'']"
| held: "\<lbrakk>w_mode (st_wardryx st) = WEnforce; c_estimate c = estimate_of st c; c_snapshot c = run_snapshot st c;
      wardryx_verdict e c st = WHold\<rbrakk> \<Longrightarrow>
    refusal e st c (wardryx_hold_response (c_run_id c) (wardryx_out e c st)) [free_row e st c ''wardryx_hold'']"
| unit: "\<lbrakk>mode (st_policy st) = Enforce; c_unit c \<noteq> [];
      try_reserve (st_units st) (c_unit c) (estimate_of st c) (e_now e AtUnitReserve) = (Inl x, u);
      tripped_by e st c UnitBudgetExceeded (ue_budget x) (ue_spent x) (''unit '' @ quoted (ue_unit x) @ '' monthly budget exceeded'') resp rows\<rbrakk> \<Longrightarrow>
    refusal e st c resp rows"
| budget: "\<lbrakk>mode (st_policy st) = Enforce; reserve (st_ledger st) (c_run_id c) (estimate_of st c) = (Inl (Exceeded i b sp w), l);
      tripped_by e st c BudgetExceeded b sp
        (if i = c_run_id c then ''per-run budget exceeded'' else ''parent run '' @ quoted i @ '' budget exceeded'') resp rows\<rbrakk> \<Longrightarrow>
    refusal e st c resp rows"

lemma wire_not_allow [simp]: "as_wire_str k \<noteq> ''allow''"
  by (cases k) simp_all

lemma row_sel [simp]:
  "cr_decision (row e c d k n) = d" "cr_run_id (row e c d k n) = c_run_id c" "cr_key_id (row e c d k n) = c_key_id c"
  "cr_unit (row e c d k n) = c_unit c" "cost_microusd (row e c d k n) = k" "cr_step (row e c d k n) = n"
  by (simp_all add: row_def)

text \<open>No refusal leaves an \<open>allow\<close> row.\<close>
lemma refusal_rows: "refusal e st c resp rows \<Longrightarrow> \<forall>x\<in>set rows. cr_decision x \<noteq> ''allow''"
  by (induction rule: refusal.induct) (simp_all add: tripped_by_def free_row_def)

text \<open>A call keeps what it has from its caller through every gate.\<close>
definition same_caller :: "Call \<Rightarrow> Call \<Rightarrow> bool" where
  "same_caller c c' \<longleftrightarrow> c_headers c' = c_headers c \<and> c_request c' = c_request c \<and> c_key_id c' = c_key_id c
     \<and> c_run_id c' = c_run_id c \<and> c_max_tokens c' = c_max_tokens c \<and> c_stream c' = c_stream c
     \<and> c_run_budget c' = c_run_budget c \<and> c_parent_run_id c' = c_parent_run_id c \<and> c_agent_id c' = c_agent_id c
     \<and> c_on_behalf_of c' = c_on_behalf_of c \<and> c_chain c' = c_chain c \<and> c_outcome c' = c_outcome c \<and> c_unit c' = c_unit c"

definition rerouted :: "Env \<Rightarrow> Call \<Rightarrow> AppState \<Rightarrow> string \<Rightarrow> string \<Rightarrow> bool" where
  "rerouted e c st b m \<longleftrightarrow> (b = c_body c \<and> m = c_model c)
     \<or> (r_mode (st_router st) = ROn \<and> rewrite_model_field (parse_json (e_serde e)) (print_json (e_serde e)) (c_body c) m = Some b)"

text \<open>What a text that passed the scans satisfies, and the body forwarded for it.\<close>
definition scanned :: "Env \<Rightarrow> AppState \<Rightarrow> string \<Rightarrow> string \<Rightarrow> bool" where
  "scanned e st b b' \<longleftrightarrow>
     (let txt = from_utf8_lossy b; fs = (if st_dlp st \<noteq> DlpOff then scan (e_engine e) txt else []);
          ps = (if st_dlp_pii st \<noteq> DlpOff then scan_pii (e_engine e) txt else []);
          cut = secret_redactions (st_dlp st) fs @ pii_redactions (st_dlp_pii st) fs ps
      in (st_dlp st = DlpBlock \<longrightarrow> fs = []) \<and> (st_dlp_pii st = DlpBlock \<longrightarrow> ps = [])
         \<and> (if cut = [] then b' = b else redact txt cut = Some b'))"

text \<open>The call a gate looks at: the caller's, its model rerouted and its body perhaps already masked.\<close>
definition along :: "Env \<Rightarrow> Call \<Rightarrow> AppState \<Rightarrow> Call \<Rightarrow> bool" where
  "along e c0 st c \<longleftrightarrow> same_caller c0 c \<and> (\<exists>b. rerouted e c0 st b (c_model c) \<and> (c_body c = b \<or> scanned e st b (c_body c)))"

text \<open>The end of a stage that touches neither the ledger nor the provider: the response, built, and rows.\<close>
definition ends :: "(HttpResponse \<Rightarrow> CallRecord list \<Rightarrow> bool) \<Rightarrow> AppState \<Rightarrow> HttpResponse option \<Rightarrow> AppState \<Rightarrow> bool" where
  "ends P st r s \<longleftrightarrow> st_ledger s = st_ledger st \<and> st_sent s = st_sent st
     \<and> (\<exists>resp rows. r = built resp \<and> st_sink s = st_sink st @ rows \<and> P resp rows)"

text \<open>The end of a request at a gate; \<open>redact\<close> panicking is the one end without a response or a row.\<close>
definition refused :: "Env \<Rightarrow> Call \<Rightarrow> AppState \<Rightarrow> HttpResponse option \<Rightarrow> AppState \<Rightarrow> bool" where
  "refused e c0 st r s \<longleftrightarrow> ends (\<lambda>resp rows. \<exists>c. along e c0 st c \<and> refusal e st c resp rows) st r s
     \<or> (r = None \<and> st_ledger s = st_ledger st \<and> st_sent s = st_sent st \<and> st_sink s = st_sink st)"

lemma refused_frame: "refused e c st r s \<Longrightarrow> st_ledger s = st_ledger st \<and> st_sent s = st_sent st"
  by (auto simp: refused_def ends_def)

lemma refused_Some:
  assumes "refused e c0 st (Some resp) s"
  obtains c rows where "along e c0 st c" "refusal e st c resp rows" "st_sink s = st_sink st @ rows"
  using assms built_eq by (fastforce simp: refused_def ends_def dest: sym [of "Some resp"])

lemma emit_event_sel [simp]:
  "st_ledger (emit_event e t c d st) = st_ledger st" "st_units (emit_event e t c d st) = st_units st"
  "st_sink (emit_event e t c d st) = st_sink st" "st_sent (emit_event e t c d st) = st_sent st"
  by (simp_all add: emit_event_def)

lemma sink_record_sel [simp]:
  "st_ledger (sink_record r st) = st_ledger st" "st_units (sink_record r st) = st_units st"
  "st_sink (sink_record r st) = st_sink st @ [r]" "st_sent (sink_record r st) = st_sent st"
  by (simp_all add: sink_record_def)

lemma breaker_event_sel [simp]:
  "st_ledger (emit_breaker_event e c v st) = st_ledger st" "st_units (emit_breaker_event e c v st) = st_units st"
  "st_sink (emit_breaker_event e c v st) = st_sink st" "st_sent (emit_breaker_event e c v st) = st_sent st"
  by (simp_all add: emit_breaker_event_def)

lemma count_mismatch_sel [simp]:
  "st_ledger (count_mismatch c st) = st_ledger st" "st_sink (count_mismatch c st) = st_sink st" "st_sent (count_mismatch c st) = st_sent st"
  by (simp_all add: count_mismatch_def)

lemma ends_reply: "\<lbrakk>st_ledger s = st_ledger st; st_sent s = st_sent st; st_sink s = st_sink st @ rows; P resp rows\<rbrakk> \<Longrightarrow> ends P st (built resp) s"
  by (auto simp: ends_def)

lemma stage_ok_breaker:
  assumes "st_ledger s = st_ledger st" "st_sent s = st_sent st" "st_sink s = st_sink st"
    and "P (breaker_error_response (c_run_id c) (budget_verdict k b sp (st_policy_id s) d)) [row e c (as_wire_str k) cost step]"
  shows "stage_ok (ends P st) Q (breaker_block e c k cost step b sp d s)"
  unfolding breaker_block_def Let_def stage_ok_reply by (rule ends_reply) (use assms in simp_all)

lemma refusedI:
  "\<lbrakk>st_ledger s = st_ledger st; st_sent s = st_sent st; st_sink s = st_sink st @ rows; along e c0 st c; refusal e st c resp rows\<rbrakk>
   \<Longrightarrow> refused e c0 st (built resp) s"
  unfolding refused_def by (rule disjI1, rule ends_reply) blast+

section \<open>The gates before the reservations\<close>

text \<open>A call on its way through these gates: it keeps its caller's data and has taken nothing, and of
  the state only the counters, the cache, the history and the decision cache have moved.\<close>
definition so_far :: "Env \<Rightarrow> Call \<Rightarrow> AppState \<Rightarrow> Call \<Rightarrow> AppState \<Rightarrow> bool" where
  "so_far e c0 st c s \<longleftrightarrow> same_caller c0 c \<and> c_unit_res c = c_unit_res c0 \<and> c_labels c = c_labels c0
     \<and> s = st\<lparr>st_keystats := st_keystats s, st_cache := st_cache s, st_history := st_history s, st_wardryx := st_wardryx s\<rparr>"

lemma same_caller_refl [simp]: "same_caller c c"
  by (simp add: same_caller_def)

lemma so_far_refl [simp]: "so_far e c st c st"
  by (simp add: so_far_def)

lemma so_far_sel:
  assumes "so_far e c0 st c s"
  shows "st_ledger s = st_ledger st" "st_sent s = st_sent st" "st_sink s = st_sink st" "st_policy s = st_policy st"
    "st_policy_id s = st_policy_id st" "st_prices s = st_prices st" "st_identity s = st_identity st"
    "st_identity_strict s = st_identity_strict st" "st_router s = st_router st" "st_killed s = st_killed st" "st_dlp s = st_dlp st"
    "st_dlp_pii s = st_dlp_pii st" "st_wasm s = st_wasm st" "st_firewall s = st_firewall st" "st_units s = st_units st"
    "st_taint s = st_taint st" "next_step s r = next_step st r" "estimate_of s c' = estimate_of st c'" "same_caller c0 c"
    "c_unit_res c = c_unit_res c0" "c_labels c = c_labels c0"
proof -
  obtain ks ca hs w where s: "s = st\<lparr>st_keystats := ks, st_cache := ca, st_history := hs, st_wardryx := w\<rparr>"
    using assms unfolding so_far_def by blast
  show "st_ledger s = st_ledger st" "st_sent s = st_sent st" "st_sink s = st_sink st" "st_policy s = st_policy st"
    "st_policy_id s = st_policy_id st" "st_prices s = st_prices st" "st_identity s = st_identity st"
    "st_identity_strict s = st_identity_strict st" "st_router s = st_router st" "st_killed s = st_killed st" "st_dlp s = st_dlp st"
    "st_dlp_pii s = st_dlp_pii st" "st_wasm s = st_wasm st" "st_firewall s = st_firewall st" "st_units s = st_units st"
    "st_taint s = st_taint st" by (simp_all add: s)
  show "next_step s r = next_step st r" "estimate_of s c' = estimate_of st c'"
    by (simp_all add: s next_step_def estimate_of_def)
qed (use assms in \<open>simp_all add: so_far_def\<close>)

lemma same_caller_sel:
  assumes "same_caller c0 c"
  shows "c_run_id c = c_run_id c0" "c_key_id c = c_key_id c0" "c_agent_id c = c_agent_id c0" "c_run_budget c = c_run_budget c0"
    "c_headers c = c_headers c0" "c_request c = c_request c0" "c_max_tokens c = c_max_tokens c0" "c_stream c = c_stream c0"
    "c_unit c = c_unit c0" "c_chain c = c_chain c0"
  using assms by (simp_all add: same_caller_def)

lemma so_far_upd:
  assumes "so_far e c0 st c s" "same_caller c0 c'" "c_unit_res c' = c_unit_res c" "c_labels c' = c_labels c"
  shows "so_far e c0 st c' s" "so_far e c0 st c' (s\<lparr>st_keystats := k\<rparr>)" "so_far e c0 st c' (s\<lparr>st_cache := ca'\<rparr>)"
    "so_far e c0 st c' (s\<lparr>st_history := h\<rparr>)" "so_far e c0 st c' (s\<lparr>st_wardryx := w'\<rparr>)"
proof -
  obtain ks ca hs w where s: "s = st\<lparr>st_keystats := ks, st_cache := ca, st_history := hs, st_wardryx := w\<rparr>"
    using assms(1) unfolding so_far_def by blast
  have c: "same_caller c0 c'" "c_unit_res c' = c_unit_res c0" "c_labels c' = c_labels c0"
    using assms by (simp_all add: so_far_sel)
  show "so_far e c0 st c' s" "so_far e c0 st c' (s\<lparr>st_keystats := k\<rparr>)" "so_far e c0 st c' (s\<lparr>st_cache := ca'\<rparr>)"
    "so_far e c0 st c' (s\<lparr>st_history := h\<rparr>)" "so_far e c0 st c' (s\<lparr>st_wardryx := w'\<rparr>)"
    unfolding s so_far_def using c by simp_all
qed

text \<open>A breaker block at a gate is a refusal of the call it looks at.\<close>
lemma refused_breaker:
  assumes "st_ledger s = st_ledger st" "st_sent s = st_sent st" "st_sink s = st_sink st" "st_policy_id s = st_policy_id st"
    "along e c0 st c" "cost = estimate_of st c" "step = next_step st (c_run_id c)"
    and "\<And>resp rows. tripped_by e st c k b sp d resp rows \<Longrightarrow> refusal e st c resp rows"
  shows "stage_ok (refused e c0 st) Q (breaker_block e c k cost step b sp d s)"
  unfolding breaker_block_def Let_def stage_ok_reply
  by (rule refusedI [where c = c and rows = "[row e c (as_wire_str k) cost step]"], use assms in simp_all)
    (rule assms(8), simp add: tripped_by_def assms)

text \<open>What holds after the gates one by one: the call unmasked, masked, priced, and cleared.\<close>
definition fresh_views :: "AppState \<Rightarrow> AppState \<Rightarrow> bool" where
  "fresh_views st s \<longleftrightarrow> st_cache s = st_cache st \<and> st_history s = st_history st \<and> st_wardryx s = st_wardryx st"

definition identity_clear :: "AppState \<Rightarrow> Call \<Rightarrow> bool" where
  "identity_clear st c \<longleftrightarrow> st_identity_strict st = StrictEnforce \<longrightarrow>
     res_mismatch (identity_resolve (st_identity st) (c_key_id c) (c_agent_id c)) = None"

definition policy_clear :: "Env \<Rightarrow> Call \<Rightarrow> AppState \<Rightarrow> bool" where
  "policy_clear e c st \<longleftrightarrow> c_estimate c = estimate_of st c \<and> c_snapshot c = run_snapshot st c
     \<and> (mode (st_policy st) = Enforce \<longrightarrow> \<not> is_blocking (Policy.decision (evaluate (st_policy st) (c_snapshot c) (c_estimate c)))
          \<and> loop_reason e st c (fst (record_input (c_run_id c) (length (c_body c) div 4) st)) = None)"

text \<open>The body forwarded: the caller's, with the model rewritten if routed and the matches masked.\<close>
definition forwarded_body :: "Env \<Rightarrow> AppState \<Rightarrow> Call \<Rightarrow> Call \<Rightarrow> bool" where
  "forwarded_body e st c c' \<longleftrightarrow> (\<exists>b. rerouted e c st b (c_model c') \<and> scanned e st b (c_body c'))"

lemma identity_gate_ok:
  "stage_ok (refused e c0 st) (\<lambda>c s. so_far e c0 st c s \<and> fresh_views st s \<and> c_body c = c_body c0 \<and> c_model c = c_model c0
      \<and> identity_clear st c) (identity_gate e c0 st)"
proof (cases "res_mismatch (identity_resolve (st_identity st) (c_key_id c0) (c_agent_id c0))")
  case None
  then show ?thesis by (simp add: identity_gate_def fresh_views_def identity_clear_def)
next
  case (Some reason)
  have al: "along e c0 st c0" by (auto simp: along_def rerouted_def)
  show ?thesis
  proof (cases "st_identity_strict st")
    case StrictEnforce
    then show ?thesis
      unfolding identity_gate_def using Some
      by (simp add: Let_def) (rule refusedI [OF _ _ _ al refusal.identity [OF StrictEnforce Some]], simp_all,
          simp add: free_row_def next_step_def count_mismatch_def)
  qed (simp_all add: identity_gate_def Some fresh_views_def identity_clear_def so_far_def same_caller_def count_mismatch_def)
qed

lemma route_call_ok:
  assumes "so_far e c0 st c s" "fresh_views st s" "c_body c = c_body c0" "c_model c = c_model c0" "identity_clear st c"
  shows "stage_ok (refused e c0 st) (\<lambda>c s. so_far e c0 st c s \<and> fresh_views st s \<and> rerouted e c0 st (c_body c) (c_model c)
      \<and> identity_clear st c) (route_call e c s)"
  unfolding route_call_def
  using assms so_far_sel(9) [OF assms(1)]
  by (auto simp: Let_def so_far_def same_caller_def rerouted_def identity_clear_def fresh_views_def split: option.split)

lemma kill_gate_ok:
  assumes "so_far e c0 st c s" "fresh_views st s" "rerouted e c0 st (c_body c) (c_model c)" "identity_clear st c"
  shows "stage_ok (refused e c0 st) (\<lambda>c s. so_far e c0 st c s \<and> fresh_views st s \<and> rerouted e c0 st (c_body c) (c_model c)
      \<and> identity_clear st c \<and> c_run_id c \<notin> st_killed st) (kill_gate e c s)"
proof (cases "c_run_id c \<in> st_killed st")
  case True
  have "along e c0 st c" using assms(1,3) by (auto simp: along_def so_far_def)
  moreover have "(case snapshot (st_ledger s) (c_run_id c) of Some s \<Rightarrow> spent s | None \<Rightarrow> ZERO) = run_spent st (c_run_id c)"
    by (simp add: run_spent_def so_far_sel [OF assms(1)] cong: option.case_cong)
  ultimately show ?thesis
    unfolding kill_gate_def is_killed_def using True
    by (simp add: so_far_sel [OF assms(1)] del: append_Cons)
      (rule refused_breaker, simp_all add: so_far_sel [OF assms(1)] refusal.killed)
next
  case False
  then show ?thesis using assms by (simp add: kill_gate_def is_killed_def so_far_sel [OF assms(1)])
qed

lemma dlp_gate_ok:
  assumes "so_far e c0 st c s" "fresh_views st s" "rerouted e c0 st (c_body c) (c_model c)" "identity_clear st c" "c_run_id c \<notin> st_killed st"
  shows "stage_ok (refused e c0 st) (\<lambda>c s. so_far e c0 st c s \<and> fresh_views st s \<and> forwarded_body e st c0 c
      \<and> identity_clear st c \<and> c_run_id c \<notin> st_killed st) (dlp_gate e c s)"
proof -
  note sel = so_far_sel [OF assms(1)]
  have al: "along e c0 st c" using assms(1,3) by (auto simp: along_def so_far_def)
  define t where "t = from_utf8_lossy (c_body c)"
  define fs where "fs = (if st_dlp st \<noteq> DlpOff then scan (e_engine e) t else [])"
  define ps where "ps = (if st_dlp_pii st \<noteq> DlpOff then scan_pii (e_engine e) t else [])"
  define cut where "cut = secret_redactions (st_dlp st) fs @ pii_redactions (st_dlp_pii st) fs ps"
  have pass: "so_far e c0 st (c\<lparr>c_dlp_note := n, c_body := b\<rparr>) s \<and> fresh_views st s \<and> forwarded_body e st c0 (c\<lparr>c_dlp_note := n, c_body := b\<rparr>)
      \<and> identity_clear st (c\<lparr>c_dlp_note := n, c_body := b\<rparr>) \<and> c_run_id c \<notin> st_killed st"
    if "scanned e st (c_body c) b" for n b
    using assms that by (auto simp: so_far_def same_caller_def forwarded_body_def identity_clear_def)
  have keep: "c\<lparr>c_dlp_note := n\<rparr> = c\<lparr>c_dlp_note := n, c_body := c_body c\<rparr>" for n by simp
  have none: "refused e c0 st None s" by (simp add: refused_def sel)
  show ?thesis
  proof (cases "st_dlp st = DlpOff \<and> st_dlp_pii st = DlpOff")
    case True
    then have "scanned e st (c_body c) (c_body c)" by (simp add: scanned_def secret_redactions_def pii_redactions_def)
    then show ?thesis using True pass [of "c_body c" "c_dlp_note c"] by (simp add: dlp_gate_def sel)
  next
    case on: False
    consider (secret) "fs \<noteq> []" "st_dlp st = DlpBlock" | (pii) "\<not> (fs \<noteq> [] \<and> st_dlp st = DlpBlock)" "ps \<noteq> []" "st_dlp_pii st = DlpBlock"
      | (clean) "\<not> (fs \<noteq> [] \<and> st_dlp st = DlpBlock)" "\<not> (ps \<noteq> [] \<and> st_dlp_pii st = DlpBlock)" by blast
    then show ?thesis
    proof cases
      case secret
      then have "scan (e_engine e) (from_utf8_lossy (c_body c)) = fs" by (simp add: fs_def t_def)
      then have "refused e c0 st (built (dlp_block (c_run_id c) (summary fs)))
          (emit_event e DlpBlockEvent c (JObject [(''summary'', JString (summary fs))]) (sink_record (row e c ''dlp_blocked'' 0 (next_step s (c_run_id c))) s))"
        by (intro refusedI [OF _ _ _ al refusal.secret [OF secret(2) _ secret(1)]]) (simp_all add: sel free_row_def)
      then show ?thesis
        unfolding dlp_gate_def Let_def sel t_def [symmetric] fs_def [symmetric] ps_def [symmetric] using on secret by simp
    next
      case pii
      then have "scan_pii (e_engine e) (from_utf8_lossy (c_body c)) = ps" by (simp add: ps_def t_def)
      then have "refused e c0 st (built (dlp_block (c_run_id c) (pii_summary ps))) s"
        by (intro refusedI [OF _ _ _ al refusal.pii [OF pii(3) _ pii(2)]]) (simp_all add: sel)
      then show ?thesis
        unfolding dlp_gate_def Let_def sel t_def [symmetric] fs_def [symmetric] ps_def [symmetric] using on pii by auto
    next
      case clean
      have sc: "scanned e st (c_body c) b" if "if cut = [] then b = c_body c else redact t cut = Some b" for b
        unfolding scanned_def Let_def t_def [symmetric] fs_def [symmetric] ps_def [symmetric] cut_def [symmetric]
        using clean that by blast
      show ?thesis
        unfolding dlp_gate_def Let_def sel t_def [symmetric] fs_def [symmetric] ps_def [symmetric] cut_def [symmetric]
        using on clean none pass [OF sc] keep by (auto simp: stage_ok_def continue_def split: option.split)
    qed
  qed
qed

lemma run_snapshot_sel:
  "wrap_u32 (steps (run_snapshot st c) + 1) = next_step st (c_run_id c)" "spent (run_snapshot st c) = run_spent st (c_run_id c)"
  unfolding run_snapshot_def next_step_def run_spent_def
  by (cases "st_ledger st (c_run_id c)"; simp add: snapshot_def no_snapshot_def wrap_u32_def)+

lemma cache_gate_ok:
  assumes "so_far e c0 st c s" "fresh_views st s" "forwarded_body e st c0 c" "identity_clear st c" "c_run_id c \<notin> st_killed st"
  shows "stage_ok (refused e c0 st) (\<lambda>c s. so_far e c0 st c s \<and> st_history s = st_history st \<and> st_wardryx s = st_wardryx st
      \<and> forwarded_body e st c0 c \<and> identity_clear st c \<and> c_run_id c \<notin> st_killed st) (cache_gate e c s)"
proof -
  note sel = so_far_sel [OF assms(1)]
  have views: "st_cache s = st_cache st" "st_history s = st_history st" "st_wardryx s = st_wardryx st"
    using assms(2) by (simp_all add: fresh_views_def)
  have al: "along e c0 st c" using assms(1,3) by (auto simp: along_def so_far_def forwarded_body_def)
  define p where "p = partition_of e c"
  obtain hit c' where g: "cache_get (e_unicode e) (st_cache st) p (semantic_core (c_request c)) (e_now e AtCacheGet) = (hit, c')"
    by fastforce
  have pass: "so_far e c0 st (c\<lparr>c_cache_ctx := x, c_cache_note := y\<rparr>) (s\<lparr>st_cache := k\<rparr>)
      \<and> forwarded_body e st c0 (c\<lparr>c_cache_ctx := x, c_cache_note := y\<rparr>) \<and> identity_clear st (c\<lparr>c_cache_ctx := x, c_cache_note := y\<rparr>)" for x y k
    using so_far_upd(3) [OF assms(1), of "c\<lparr>c_cache_ctx := x, c_cache_note := y\<rparr>"] sel(19) assms(3,4)
    by (simp add: same_caller_def forwarded_body_def identity_clear_def)
  have keep: "c = c\<lparr>c_cache_ctx := c_cache_ctx c, c_cache_note := c_cache_note c\<rparr>" "s = s\<lparr>st_cache := st_cache s\<rparr>"
    "c\<lparr>c_cache_ctx := x\<rparr> = c\<lparr>c_cache_ctx := x, c_cache_note := c_cache_note c\<rparr>" for x by simp_all
  show ?thesis
  proof (cases "c_stream c \<or> cache_mode (st_cache st) = CacheOff \<or> \<not> cache_eligible (c_request c)")
    case True
    then show ?thesis using assms views by (simp add: cache_gate_def views)
  next
    case False
    show ?thesis
    proof (cases "cache_mode (st_cache st) = CacheOn \<and> hit \<noteq> None")
      case True
      then obtain l where l: "hit = Some l" "cache_mode (st_cache st) = CacheOn" by blast
      have "refusal e st c (cached_response (c_run_id c) l (mode (st_policy st)))
          [(free_row e st c ''cache_hit'')\<lparr>saved_microusd := l_saved_microusd l, cr_tool_calls := Some 0\<rparr>]"
        by (rule refusal.cached) (use False l g p_def in simp_all)
      then have "refused e c0 st (built (cached_response (c_run_id c) l (mode (st_policy st))))
          (sink_record ((row e c ''cache_hit'' 0 (next_step (s\<lparr>st_cache := c'\<rparr>) (c_run_id c)))\<lparr>saved_microusd := l_saved_microusd l, cr_tool_calls := Some 0\<rparr>)
             (s\<lparr>st_cache := c'\<rparr>))"
        by (intro refusedI [OF _ _ _ al]) (simp_all add: sel free_row_def next_step_def)
      then show ?thesis
        using False l g by (simp add: cache_gate_def views p_def Let_def sel)
    next
      case miss: False
      have "\<exists>x y. cache_gate e c s = continue (c\<lparr>c_cache_ctx := x, c_cache_note := y\<rparr>) (s\<lparr>st_cache := c'\<rparr>)"
      proof (cases hit)
        case None
        then show ?thesis using False g keep(3) unfolding cache_gate_def Let_def p_def views
          by (intro exI [of _ "Some (partition_of e c, semantic_core (c_request c))"] exI [of _ "c_cache_note c"]) (simp split: CacheMode.split)
      next
        case (Some l)
        then have "cache_mode (st_cache st) = CacheShadow" using miss False by (cases "cache_mode (st_cache st)") simp_all
        then show ?thesis using Some False g unfolding cache_gate_def Let_def p_def views by auto
      qed
      then show ?thesis using pass views assms(5) by auto
    qed
  qed
qed

lemma policy_gate_ok:
  assumes "so_far e c0 st c s" "st_history s = st_history st" "st_wardryx s = st_wardryx st" "forwarded_body e st c0 c"
    "identity_clear st c" "c_run_id c \<notin> st_killed st"
  shows "stage_ok (refused e c0 st) (\<lambda>c s. so_far e c0 st c s \<and> st_wardryx s = st_wardryx st
      \<and> forwarded_body e st c0 c \<and> identity_clear st c \<and> c_run_id c \<notin> st_killed st \<and> policy_clear e c st) (policy_gate e c s)"
proof -
  note sel = so_far_sel [OF assms(1)]
  have al: "along e c0 st c" using assms(1,4) by (auto simp: along_def so_far_def forwarded_body_def)
  define est where "est = estimate_of st c"
  define sn where "sn = run_snapshot st c"
  define ev where "ev = evaluate (st_policy st) sn est"
  define hs where "hs = fst (record_input (c_run_id c) (length (c_body c) div 4) st)"
  define h' where "h' = st_history (snd (record_input (c_run_id c) (length (c_body c) div 4) st))"
  define lr where "lr = loop_reason e st c hs"
  define c' where "c' = c\<lparr>c_estimate := est, c_snapshot := sn, c_would_block := (case violated ev of Some r \<Rightarrow> Some r | None \<Rightarrow> lr)\<rparr>"
  have rec: "record_input (c_run_id c) (length (c_body c) div 4) s = (hs, s\<lparr>st_history := h'\<rparr>)"
    by (simp add: record_input_def Let_def hs_def h'_def assms(2))
  have ls: "loop_reason e (s\<lparr>st_history := h'\<rparr>) c x = loop_reason e st c x" for x by (simp add: loop_reason_def sel)
  have sn': "(case snapshot (st_ledger st) (c_run_id c) of Some s \<Rightarrow> s | None \<Rightarrow> no_snapshot (c_run_budget c)) = sn"
    by (simp only: sn_def run_snapshot_def)
  have step: "wrap_u32 (steps sn + 1) = next_step st (c_run_id c)"
    by (simp only: sn_def run_snapshot_sel)
  have sp: "spent sn = run_spent st (c_run_id c)"
    by (simp only: sn_def run_snapshot_sel)
  have al': "along e c0 st c'" using al by (simp add: along_def same_caller_def c'_def)
  have views: "c_run_id c' = c_run_id c" "c_run_budget c' = c_run_budget c" "c_body c' = c_body c" "estimate_of st c' = est"
    "run_snapshot st c' = sn" "loop_reason e st c' hs = lr" "c_estimate c' = est" "c_snapshot c' = sn"
    by (simp_all add: c'_def est_def sn_def estimate_of_def run_snapshot_def lr_def loop_reason_def cong: option.case_cong)
  have gate: "policy_gate e c s =
      (if mode (st_policy st) = Enforce \<and> is_blocking (Policy.decision ev)
         then breaker_block e c' PolicyViolation est (wrap_u32 (steps sn + 1)) (c_run_budget c) (spent sn) (or_blank (violated ev)) (s\<lparr>st_history := h'\<rparr>)
         else if mode (st_policy st) = Enforce \<and> lr \<noteq> None
         then breaker_block e c' LoopDetected est (wrap_u32 (steps sn + 1)) (c_run_budget c) (spent sn) (or_blank lr) (s\<lparr>st_history := h'\<rparr>)
         else continue c' (s\<lparr>st_history := h'\<rparr>))"
    unfolding policy_gate_def Let_def sel sn' rec est_def [symmetric] ev_def [symmetric] prod.case ls lr_def [symmetric] c'_def [symmetric] ..
  have block: "stage_ok (refused e c0 st) Q (breaker_block e c' k est (wrap_u32 (steps sn + 1)) (c_run_budget c) (spent sn) d (s\<lparr>st_history := h'\<rparr>))"
    if "\<And>resp rows. tripped_by e st c' k (c_run_budget c) (run_spent st (c_run_id c)) d resp rows \<Longrightarrow> refusal e st c' resp rows"
    for k d and Q :: "Call \<Rightarrow> AppState \<Rightarrow> bool"
    unfolding step sp by (rule refused_breaker [OF _ _ _ _ al' _ _ that]) (simp_all add: sel views)
  show ?thesis
  proof (cases "mode (st_policy st) = Enforce \<and> is_blocking (Policy.decision ev)")
    case True
    then obtain d where d: "violated ev = Some d" "or_blank (violated ev) = d"
      by (auto simp: ev_def evaluate_def is_blocking_def Let_def or_blank_def split: option.splits)
    have "refusal e st c' resp rows" if "tripped_by e st c' PolicyViolation (c_run_budget c) (run_spent st (c_run_id c)) d resp rows" for resp rows
      by (rule refusal.policy [OF conjunct1 [OF True], where d = d]) (use that d in \<open>simp_all add: views ev_def\<close>)
    then show ?thesis unfolding gate if_P [OF True] d(2) by (rule block)
  next
    case ok: False
    show ?thesis
    proof (cases "mode (st_policy st) = Enforce \<and> lr \<noteq> None")
      case True
      then obtain d where d: "lr = Some d" "or_blank lr = d" by (auto simp: or_blank_def)
      have "refusal e st c' resp rows" if "tripped_by e st c' LoopDetected (c_run_budget c) (run_spent st (c_run_id c)) d resp rows" for resp rows
        by (rule refusal.loop [OF conjunct1 [OF True], where d = d]) (use that d in \<open>simp_all add: views hs_def [symmetric]\<close>)
      then show ?thesis unfolding gate if_not_P [OF ok] if_P [OF True] d(2) by (rule block)
    next
      case False
      have "policy_clear e c' st" using ok False unfolding policy_clear_def views hs_def [symmetric] ev_def [symmetric] by blast
      moreover have "so_far e c0 st c' (s\<lparr>st_history := h'\<rparr>)"
        using so_far_upd(4) [OF assms(1), of c'] sel(19) by (simp add: same_caller_def c'_def)
      moreover have "forwarded_body e st c0 c'" "identity_clear st c'"
        using assms(4,5) by (simp_all add: forwarded_body_def identity_clear_def c'_def)
      ultimately show ?thesis unfolding gate if_not_P [OF ok] if_not_P [OF False] using assms(3,6) by (simp add: views)
    qed
  qed
qed

lemma wasm_gate_ok:
  assumes "so_far e c0 st c s" "st_wardryx s = st_wardryx st" "forwarded_body e st c0 c"
    "identity_clear st c" "c_run_id c \<notin> st_killed st" "policy_clear e c st"
  shows "stage_ok (refused e c0 st) (\<lambda>c s. so_far e c0 st c s \<and> st_wardryx s = st_wardryx st
      \<and> forwarded_body e st c0 c \<and> identity_clear st c \<and> c_run_id c \<notin> st_killed st \<and> policy_clear e c st \<and> wasm_clear c st) (wasm_gate e c s)"
proof -
  note sel = so_far_sel [OF assms(1)]
  have al: "along e c0 st c" using assms(1,3) by (auto simp: along_def so_far_def forwarded_body_def)
  have pr: "c_estimate c = estimate_of st c" "c_snapshot c = run_snapshot st c" using assms(6) by (simp_all add: policy_clear_def)
  have step: "wrap_u32 (steps (c_snapshot c) + 1) = next_step st (c_run_id c)"
    by (simp only: pr run_snapshot_sel)
  have sp: "spent (c_snapshot c) = run_spent st (c_run_id c)"
    by (simp only: pr run_snapshot_sel)
  show ?thesis
  proof (cases "wasm_clear c st")
    case True
    have "wasm_gate e c s = continue c s"
    proof (cases "st_wasm st")
      case (Some f)
      then show ?thesis
        using True unfolding wasm_gate_def wasm_clear_def sel Some option.case Let_def by simp
    qed (simp add: wasm_gate_def sel)
    then show ?thesis using assms True by simp
  next
    case False
    then obtain f where f: "st_wasm st = Some f" "f (c_estimate c) (spent (c_snapshot c)) (c_run_budget c) (steps (c_snapshot c))
       (if fw_mode (st_firewall st) \<noteq> FwOff then taint_bits (labels_for_tools (tool_names_in (c_request c)) (fw_sources (st_firewall st))) else 0) = 2"
      by (auto simp: wasm_clear_def split: option.splits)
    have "wasm_gate e c s = breaker_block e c WasmPolicy (c_estimate c) (wrap_u32 (steps (c_snapshot c) + 1)) (c_run_budget c) (spent (c_snapshot c)) ''blocked by custom wasm policy'' s"
      unfolding wasm_gate_def sel f(1) option.case Let_def using f(2) by simp
    moreover have "stage_ok (refused e c0 st) Q \<dots>" for Q :: "Call \<Rightarrow> AppState \<Rightarrow> bool"
      unfolding step sp by (rule refused_breaker [OF _ _ _ _ al]) (use pr False in \<open>simp_all add: sel refusal.wasm\<close>)
    ultimately show ?thesis by simp
  qed
qed

text \<open>What clears a call does not depend on what the later gates add to it.\<close>
lemma clear_cong:
  assumes "c' = c\<lparr>c_wardryx_header := h, c_unit_res := u, c_res := v, c_labels := l\<rparr>"
  shows "identity_clear st c' = identity_clear st c" "policy_clear e c' st = policy_clear e c st" "wasm_clear c' st = wasm_clear c st"
    "wardryx_verdict e c' st = wardryx_verdict e c st" "forwarded_body e st c0 c' = forwarded_body e st c0 c"
    "estimate_of st c' = estimate_of st c" "same_caller c0 c' = same_caller c0 c" "along e c0 st c' = along e c0 st c"
proof -
  show "identity_clear st c' = identity_clear st c" by (simp add: assms identity_clear_def)
  show "policy_clear e c' st = policy_clear e c st"
    by (simp add: assms policy_clear_def estimate_of_def run_snapshot_def loop_reason_def cong: option.case_cong)
  show "wasm_clear c' st = wasm_clear c st" by (simp add: assms wasm_clear_def cong: option.case_cong)
  show "wardryx_verdict e c' st = wardryx_verdict e c st"
    by (simp add: assms wardryx_verdict_def wardryx_out_def decide_context_def)
  show "forwarded_body e st c0 c' = forwarded_body e st c0 c" by (simp add: assms forwarded_body_def)
  show "estimate_of st c' = estimate_of st c" by (simp add: assms estimate_of_def)
  show "same_caller c0 c' = same_caller c0 c" by (simp add: assms same_caller_def)
  then show "along e c0 st c' = along e c0 st c" by (simp add: assms along_def)
qed

lemma wardryx_gate_ok:
  assumes "so_far e c0 st c s" "st_wardryx s = st_wardryx st" "forwarded_body e st c0 c"
    "identity_clear st c" "c_run_id c \<notin> st_killed st" "policy_clear e c st" "wasm_clear c st"
  shows "stage_ok (refused e c0 st) (\<lambda>c s. so_far e c0 st c s \<and> forwarded_body e st c0 c \<and> identity_clear st c
      \<and> c_run_id c \<notin> st_killed st \<and> policy_clear e c st \<and> wasm_clear c st
      \<and> (w_mode (st_wardryx st) = WEnforce \<longrightarrow> wardryx_verdict e c st = WAllow)) (wardryx_gate e c s)"
proof -
  note sel = so_far_sel [OF assms(1)]
  have al: "along e c0 st c" using assms(1,3) by (auto simp: along_def so_far_def forwarded_body_def)
  have pr: "c_estimate c = estimate_of st c" "c_snapshot c = run_snapshot st c" using assms(6) by (simp_all add: policy_clear_def)
  have step: "wrap_u32 (steps (c_snapshot c) + 1) = next_step st (c_run_id c)"
    by (simp only: pr run_snapshot_sel)
  obtain w' where g: "wardryx_decide (e_hasher e) (e_pdp e) (fst (e_instant e)) (snd (e_instant e)) (st_wardryx st) (decide_context e c) = (wardryx_out e c st, w')"
    unfolding wardryx_out_def by (metis surj_pair fst_conv)
  have pass: "so_far e c0 st (c\<lparr>c_wardryx_header := x\<rparr>) (s\<lparr>st_wardryx := w\<rparr>) \<and> forwarded_body e st c0 (c\<lparr>c_wardryx_header := x\<rparr>)
      \<and> identity_clear st (c\<lparr>c_wardryx_header := x\<rparr>) \<and> c_run_id c \<notin> st_killed st \<and> policy_clear e (c\<lparr>c_wardryx_header := x\<rparr>) st
      \<and> wasm_clear (c\<lparr>c_wardryx_header := x\<rparr>) st \<and> wardryx_verdict e (c\<lparr>c_wardryx_header := x\<rparr>) st = wardryx_verdict e c st"
    (is "so_far e c0 st ?c _ \<and> _") for x w
  proof -
    have c: "?c = c\<lparr>c_wardryx_header := x, c_unit_res := c_unit_res c, c_res := c_res c, c_labels := c_labels c\<rparr>" by simp
    have "same_caller c0 ?c" using sel(19) by (simp add: same_caller_def)
    then have "so_far e c0 st ?c (s\<lparr>st_wardryx := w\<rparr>)" by (intro so_far_upd(5) [OF assms(1)]) simp_all
    then show ?thesis using clear_cong [OF c] assms(3-7) by simp
  qed
  have row: "refused e c0 st (built resp) (sink_record (row e c d 0 (next_step st (c_run_id c))) (s\<lparr>st_wardryx := w'\<rparr>))"
    if "refusal e st c resp [free_row e st c d]" for resp d
    by (rule refusedI [OF _ _ _ al that]) (simp_all add: sel free_row_def)
  show ?thesis
  proof (cases "w_mode (st_wardryx st)")
    case WOff
    then show ?thesis using assms by (simp add: wardryx_gate_def)
  next
    case WShadow
    then show ?thesis using pass by (simp add: wardryx_gate_def g Let_def assms(2))
  next
    case WEnforce
    have v: "w_decision (wardryx_out e c st) = wardryx_verdict e c st" by (simp add: wardryx_verdict_def)
    show ?thesis
    proof (cases "wardryx_verdict e c st")
      case WAllow
      then show ?thesis using WEnforce pass by (simp add: wardryx_gate_def g Let_def assms(2) v)
    next
      case WDeny
      then show ?thesis using WEnforce row [OF refusal.denied [OF WEnforce pr WDeny]]
        by (simp add: wardryx_gate_def g Let_def assms(2) v step [simplified])
    next
      case WHold
      then show ?thesis using WEnforce row [OF refusal.held [OF WEnforce pr WHold]]
        by (simp add: wardryx_gate_def g Let_def assms(2) v step [simplified] del: built_hold)
    qed
  qed
qed

section \<open>All the gates before the reservations\<close>

definition pre_gates :: "(Env \<Rightarrow> Call \<Rightarrow> Call stage) list" where
  "pre_gates = [identity_gate, route_call, kill_gate, dlp_gate, cache_gate, policy_gate, wasm_gate, wardryx_gate]"

lemma gates_split: "gates = pre_gates @ [unit_gate, budget_gate, taint_step]"
  by (simp add: gates_def pre_gates_def)

text \<open>What a call and the state in which it was opened satisfy once every gate has let it pass.\<close>
definition cleared :: "Env \<Rightarrow> AppState \<Rightarrow> Call \<Rightarrow> bool" where
  "cleared e st c \<longleftrightarrow> c_run_id c \<notin> st_killed st \<and> identity_clear st c \<and> policy_clear e c st \<and> wasm_clear c st
     \<and> (w_mode (st_wardryx st) = WEnforce \<longrightarrow> wardryx_verdict e c st = WAllow)"

lemma pre_gates_ok:
  "stage_ok (refused e c0 st) (\<lambda>c s. so_far e c0 st c s \<and> forwarded_body e st c0 c \<and> cleared e st c) (run_gates e pre_gates c0 st)"
  unfolding pre_gates_def run_gates_Cons run_gates_Nil stage_then_continue
  apply (rule stage_ok_then, rule identity_gate_ok, elim conjE)
  apply (rule stage_ok_then, rule route_call_ok, assumption+, elim conjE)
  apply (rule stage_ok_then, rule kill_gate_ok, assumption+, elim conjE)
  apply (rule stage_ok_then, rule dlp_gate_ok, assumption+, elim conjE)
  apply (rule stage_ok_then, rule cache_gate_ok, assumption+, elim conjE)
  apply (rule stage_ok_then, rule policy_gate_ok, assumption+, elim conjE)
  apply (rule stage_ok_then, rule wasm_gate_ok, assumption+, elim conjE)
  apply (rule stage_ok_weaken, rule wardryx_gate_ok, assumption+)
  apply (simp add: cleared_def)
  done

section \<open>The reservations\<close>

definition unit_taken :: "Env \<Rightarrow> Call \<Rightarrow> AppState \<Rightarrow> UnitReservation option \<Rightarrow> UnitLedger \<Rightarrow> bool" where
  "unit_taken e c st ur u' \<longleftrightarrow>
     (if c_unit c = [] then ur = None \<and> u' = st_units st
      else if mode (st_policy st) = Enforce then try_reserve (st_units st) (c_unit c) (c_estimate c) (e_now e AtUnitReserve) = (Inr ur, u')
      else unit_reserve_unchecked (st_units st) (c_unit c) (c_estimate c) (e_now e AtUnitReserve) = (ur, u'))"

text \<open>The labels of the run once those of this call have joined them.\<close>
definition labelled :: "Env \<Rightarrow> AppState \<Rightarrow> Call \<Rightarrow> Labels \<Rightarrow> bool" where
  "labelled e st c ls \<longleftrightarrow> (if fw_mode (st_firewall st) = FwOff then ls = {}
     else ls = run_labels (st_taint st) (c_run_id c) \<union> taint_header_labels (to_lowercase (e_unicode e)) (c_headers c)
            \<union> labels_for_tools (tool_names_in (c_request c)) (fw_sources (st_firewall st)))"

lemma unit_gate_ok:
  assumes "so_far e c0 st c s" "forwarded_body e st c0 c" "cleared e st c" "c_unit_res c0 = None"
  shows "stage_ok (refused e c0 st) (\<lambda>c' s'. c' = c\<lparr>c_unit_res := c_unit_res c'\<rparr> \<and> s' = s\<lparr>st_units := st_units s'\<rparr>
      \<and> unit_taken e c st (c_unit_res c') (st_units s')) (unit_gate e c s)"
proof -
  note sel = so_far_sel [OF assms(1)]
  have al: "along e c0 st c" using assms(2) sel(19) by (auto simp: along_def forwarded_body_def)
  have pr: "c_estimate c = estimate_of st c" "c_snapshot c = run_snapshot st c"
    using assms(3) by (simp_all add: cleared_def policy_clear_def)
  have step: "wrap_u32 (steps (c_snapshot c) + 1) = next_step st (c_run_id c)" by (simp only: pr run_snapshot_sel)
  have blk: "stage_ok (refused e c0 st) Q (breaker_block e c UnitBudgetExceeded (estimate_of st c) (next_step st (c_run_id c))
      (ue_budget x) (ue_spent x) (''unit '' @ quoted (ue_unit x) @ '' monthly budget exceeded'') (s\<lparr>st_units := u\<rparr>))"
    if "mode (st_policy st) = Enforce" "c_unit c \<noteq> []"
      "try_reserve (st_units st) (c_unit c) (estimate_of st c) (e_now e AtUnitReserve) = (Inl x, u)" for x u and Q :: "Call \<Rightarrow> AppState \<Rightarrow> bool"
    by (rule refused_breaker [OF _ _ _ _ al refl refl]) (use that in \<open>simp_all add: sel refusal.unit del: append_Cons\<close>)
  consider "c_unit c = []" | "c_unit c \<noteq> []" "mode (st_policy st) = Enforce" | "c_unit c \<noteq> []" "mode (st_policy st) \<noteq> Enforce" by blast
  then show ?thesis
  proof cases
    case 1
    then show ?thesis using assms(4) by (simp add: unit_gate_def unit_taken_def sel)
  next
    case 2
    obtain r u where t: "try_reserve (st_units st) (c_unit c) (estimate_of st c) (e_now e AtUnitReserve) = (r, u)" by fastforce
    show ?thesis
    proof (cases r)
      case (Inl x)
      then have "unit_gate e c s = breaker_block e c UnitBudgetExceeded (estimate_of st c) (next_step st (c_run_id c))
          (ue_budget x) (ue_spent x) (''unit '' @ quoted (ue_unit x) @ '' monthly budget exceeded'') (s\<lparr>st_units := u\<rparr>)"
        using 2 t unfolding unit_gate_def sel step unfolding pr(1) by simp
      then show ?thesis using blk [OF 2(2,1) t [unfolded Inl]] by simp
    next
      case (Inr ur)
      then show ?thesis using 2 t by (simp add: unit_gate_def sel pr(1) unit_taken_def)
    qed
  next
    case 3
    then show ?thesis by (cases "mode (st_policy st)") (simp_all add: unit_gate_def sel unit_taken_def split: prod.split)
  qed
qed

lemma settle_unit_eq: "settle_unit e c a st = st\<lparr>st_units := st_units (settle_unit e c a st)\<rparr>"
  by (simp add: settle_unit_def split: option.splits)

lemma budget_gate_ok:
  assumes s: "st_ledger s = st_ledger st" "st_sent s = st_sent st" "st_sink s = st_sink st" "st_policy s = st_policy st" "st_policy_id s = st_policy_id st"
    and c: "along e c0 st c" "c_estimate c = estimate_of st c" "c_snapshot c = run_snapshot st c"
    and k: "st_ledger st (c_run_id c) \<noteq> None"
  shows "stage_ok (refused e c0 st) (\<lambda>c' s'. c' = c\<lparr>c_res := c_res c'\<rparr> \<and> s' = s\<lparr>st_ledger := st_ledger s'\<rparr>
      \<and> st_ledger s' = apply_reserve (st_ledger st) (c_run_id c) (c_estimate c)
      \<and> c_res c' = reservation_for (st_ledger s') (c_run_id c) (c_estimate c)
      \<and> (mode (st_policy st) = Enforce \<longrightarrow> (\<exists>v l. reserve (st_ledger st) (c_run_id c) (c_estimate c) = (Inr v, l)))) (budget_gate e c s)"
proof (cases "mode (st_policy st) = Enforce")
  case True
  have step: "wrap_u32 (steps (c_snapshot c) + 1) = next_step st (c_run_id c)" by (simp only: c run_snapshot_sel)
  show ?thesis
  proof (cases rule: reserve_cases [of "st_ledger st" "c_run_id c" "c_estimate c"])
    case (exceeded err)
    obtain x where "level_exceeded (st_ledger st) (c_estimate c) x = Some err" using find_map_SomeD exceeded(2) by fastforce
    then obtain i b sp w where err: "err = Exceeded i b sp w" using level_exceededD by blast
    have "refusal e st c resp rows" if "tripped_by e st c BudgetExceeded b sp
        (if i = c_run_id c then ''per-run budget exceeded'' else ''parent run '' @ quoted i @ '' budget exceeded'') resp rows" for resp rows
      by (rule refusal.budget [OF True _ that]) (use exceeded err c(2) in simp)
    then have "stage_ok (refused e c0 st) Q (breaker_block e c BudgetExceeded (c_estimate c) (next_step st (c_run_id c)) b sp
        (if i = c_run_id c then ''per-run budget exceeded'' else ''parent run '' @ quoted i @ '' budget exceeded'')
        (settle_unit e c ZERO (s\<lparr>st_ledger := st_ledger st\<rparr>)))" for Q :: "Call \<Rightarrow> AppState \<Rightarrow> bool"
      by (subst settle_unit_eq, intro refused_breaker [OF _ _ _ _ c(1,2) refl]) (simp_all add: s)
    then show ?thesis using exceeded True err unfolding budget_gate_def s step by simp
  next
    case granted
    then show ?thesis using True by (simp add: budget_gate_def s)
  qed (use k in simp)
next
  case False
  then show ?thesis using k by (auto simp: budget_gate_def reserve_unchecked_def Let_def s)
qed

lemma taint_step_ok:
  "stage_ok E (\<lambda>c' s'. c' = c\<lparr>c_labels := c_labels c'\<rparr> \<and> s' = s\<lparr>st_taint := st_taint s'\<rparr>
      \<and> (c_labels c = {} \<longrightarrow> labelled e s c (c_labels c'))) (taint_step e c s)"
  unfolding taint_step_def labelled_def by (auto simp: Let_def accumulate_taint_def split: prod.split)

text \<open>A call that holds its reservations, relative to the call and state with which the gates began.\<close>
definition holds :: "Env \<Rightarrow> Call \<Rightarrow> AppState \<Rightarrow> Call \<Rightarrow> AppState \<Rightarrow> bool" where
  "holds e c0 st c s \<longleftrightarrow> same_caller c0 c \<and> cleared e st c \<and> forwarded_body e st c0 c
     \<and> st_policy s = st_policy st \<and> st_prices s = st_prices st \<and> st_firewall s = st_firewall st
     \<and> st_sink s = st_sink st \<and> st_sent s = st_sent st
     \<and> st_ledger s = apply_reserve (st_ledger st) (c_run_id c0) (c_estimate c)
     \<and> c_res c = reservation_for (st_ledger s) (c_run_id c0) (c_estimate c)
     \<and> (mode (st_policy st) = Enforce \<longrightarrow> (\<exists>v l. reserve (st_ledger st) (c_run_id c0) (c_estimate c) = (Inr v, l)))
     \<and> unit_taken e c st (c_unit_res c) (st_units s) \<and> labelled e st c (c_labels c)"

lemma last_gates: "run_gates e [unit_gate, budget_gate, taint_step] =
    (\<lambda>c. stage_then (unit_gate e c) (\<lambda>c. stage_then (budget_gate e c) (taint_step e)))"
  by (simp add: run_gates_def [abs_def])

lemma gates_holds:
  assumes "st_ledger st (c_run_id c0) \<noteq> None" "c_unit_res c0 = None" "c_labels c0 = {}"
  shows "stage_ok (refused e c0 st) (holds e c0 st) (run_gates e gates c0 st)"
  unfolding gates_split run_gates_append
proof (rule stage_ok_then, rule pre_gates_ok, elim conjE)
  fix c s
  assume 8: "so_far e c0 st c s" "forwarded_body e st c0 c" "cleared e st c"
  note sel = so_far_sel [OF 8(1)] and ids = same_caller_sel [OF so_far_sel(19) [OF 8(1)]]
  show "stage_ok (refused e c0 st) (holds e c0 st) (run_gates e [unit_gate, budget_gate, taint_step] c s)"
    unfolding last_gates
  proof (rule stage_ok_then, rule unit_gate_ok [OF 8 assms(2)], elim conjE)
    fix c9 s9
    assume 9: "c9 = c\<lparr>c_unit_res := c_unit_res c9\<rparr>" "s9 = s\<lparr>st_units := st_units s9\<rparr>" "unit_taken e c st (c_unit_res c9) (st_units s9)"
    obtain ur u9 where e9: "c9 = c\<lparr>c_unit_res := ur\<rparr>" "s9 = s\<lparr>st_units := u9\<rparr>" using 9 by blast
    have c9: "c9 = c\<lparr>c_wardryx_header := c_wardryx_header c, c_unit_res := ur, c_res := c_res c, c_labels := c_labels c\<rparr>" by (simp add: e9)
    have al: "along e c0 st c9" using 8(2) sel(19) unfolding clear_cong [OF c9] by (auto simp: along_def forwarded_body_def)
    have pr: "c_estimate c9 = estimate_of st c9" "c_snapshot c9 = run_snapshot st c9"
      using 8(3) unfolding clear_cong [OF c9] by (simp_all add: e9 cleared_def policy_clear_def run_snapshot_def cong: option.case_cong)
    have k: "st_ledger st (c_run_id c9) \<noteq> None" using assms(1) by (simp add: e9 ids)
    show "stage_ok (refused e c0 st) (holds e c0 st) (stage_then (budget_gate e c9) (taint_step e) s9)"
    proof (rule stage_ok_then, rule budget_gate_ok [OF _ _ _ _ _ al pr k])
      show "st_ledger s9 = st_ledger st" "st_sent s9 = st_sent st" "st_sink s9 = st_sink st" "st_policy s9 = st_policy st"
        "st_policy_id s9 = st_policy_id st" by (simp_all add: e9 sel)
    next
      fix c10 s10
      assume 10: "c10 = c9\<lparr>c_res := c_res c10\<rparr> \<and> s10 = s9\<lparr>st_ledger := st_ledger s10\<rparr>
        \<and> st_ledger s10 = apply_reserve (st_ledger st) (c_run_id c9) (c_estimate c9)
        \<and> c_res c10 = reservation_for (st_ledger s10) (c_run_id c9) (c_estimate c9)
        \<and> (mode (st_policy st) = Enforce \<longrightarrow> (\<exists>v l. reserve (st_ledger st) (c_run_id c9) (c_estimate c9) = (Inr v, l)))"
      obtain v l10 where e10: "c10 = c9\<lparr>c_res := v\<rparr>" "s10 = s9\<lparr>st_ledger := l10\<rparr>" using 10 by blast
      show "stage_ok (refused e c0 st) (holds e c0 st) (taint_step e c10 s10)"
      proof (rule stage_ok_weaken [OF taint_step_ok], assumption, elim conjE)
        fix c' s'
        assume 11: "c' = c10\<lparr>c_labels := c_labels c'\<rparr>" "s' = s10\<lparr>st_taint := st_taint s'\<rparr>"
          "c_labels c10 = {} \<longrightarrow> labelled e s10 c10 (c_labels c')"
        obtain ls t where e11: "c' = c10\<lparr>c_labels := ls\<rparr>" "s' = s10\<lparr>st_taint := t\<rparr>" using 11 by blast
        have c': "c' = c\<lparr>c_wardryx_header := c_wardryx_header c, c_unit_res := ur, c_res := v, c_labels := ls\<rparr>" by (simp add: e9 e10 e11)
        have ls: "labelled e st c' ls"
          using 11(3) assms(3) sel(13-21) by (simp add: e9 e10 e11 labelled_def split: if_splits)
        have "same_caller c0 c'" "cleared e st c'" "forwarded_body e st c0 c'"
          using 8 sel(19) clear_cong [OF c'] by (simp_all add: cleared_def) (simp_all add: c')
        then show "holds e c0 st c' s'"
          using 9(3) 10 ls by (simp add: holds_def e9 e10 e11 ids sel unit_taken_def split: if_splits)
      qed
    qed
  qed
qed

section \<open>From forwarding to the answer\<close>

definition settled :: "Env \<Rightarrow> Call \<Rightarrow> AppState \<Rightarrow> microusd \<Rightarrow> AppState \<Rightarrow> bool" where
  "settled e c st cost s \<longleftrightarrow> st_ledger s = settle (st_ledger st) (c_res c) cost
     \<and> st_units s = (case c_unit_res c of Some ur \<Rightarrow> unit_settle (st_units st) ur cost (e_now e AtUnitSettle) | None \<Rightarrow> st_units st)"

text \<open>A row of a forwarded call: its decision, cost and tokens, for this reservation, caller and model.\<close>
definition call_row :: "Call \<Rightarrow> string \<Rightarrow> microusd \<Rightarrow> Usage option \<Rightarrow> CallRecord \<Rightarrow> bool" where
  "call_row c d cost u x \<longleftrightarrow> cr_decision x = d \<and> cost_microusd x = cost \<and> cr_model x = c_model c
     \<and> cr_run_id x = res_run_id (c_res c) \<and> cr_step x = res_step (c_res c) \<and> cr_key_id x = c_key_id c \<and> cr_unit x = c_unit c
     \<and> cr_agent_id x = c_agent_id c \<and> cr_parent_run_id x = c_parent_run_id c \<and> cr_on_behalf_of x = c_on_behalf_of c
     \<and> cr_input_tokens x = (case u of Some v \<Rightarrow> input_tokens v | None \<Rightarrow> 0)
     \<and> cr_output_tokens x = (case u of Some v \<Rightarrow> output_tokens v | None \<Rightarrow> 0)"

text \<open>What a call is charged: the price of the reported usage, or its estimate without one.\<close>
definition charged :: "Env \<Rightarrow> AppState \<Rightarrow> Call \<Rightarrow> microusd" where
  "charged e st c = (case e_usage e of
     None \<Rightarrow> c_estimate c
   | Some u \<Rightarrow> (case book_cost (st_prices st) (c_model c) u of Some k \<Rightarrow> k | None \<Rightarrow> c_estimate c))"

text \<open>Why the firewall withholds an answer, if it does.\<close>
definition taint_refusal :: "Env \<Rightarrow> AppState \<Rightarrow> Call \<Rightarrow> string \<Rightarrow> string option" where
  "taint_refusal e st c bytes = (if fw_mode (st_firewall st) \<noteq> FwEnforce then None else
     taint_evaluate (c_labels c)
       (capabilities_for_tools (tool_names_in (case parse_json (e_serde e) bytes of Some v \<Rightarrow> v | None \<Rightarrow> JNull)) (fw_capabilities (st_firewall st)))
       (fw_rules (st_firewall st)))"

text \<open>The answer to a forwarded call, its cost and the rows it leaves, by what the provider did: an
  error before or in a buffered body costs and leaves nothing; a body that went through is charged
  and leaves one \<open>allow\<close>; and one that the firewall withholds leaves its \<open>taint_blocked\<close> after that.\<close>
definition answered :: "Env \<Rightarrow> AppState \<Rightarrow> Call \<Rightarrow> HttpResponse \<Rightarrow> microusd \<Rightarrow> CallRecord list \<Rightarrow> bool" where
  "answered e st c resp cost rows \<longleftrightarrow> (case e_send e (c_headers c) (c_body c) of
     None \<Rightarrow> False
   | Some (Inl m) \<Rightarrow> resp = upstream_error m \<and> cost = 0 \<and> rows = []
   | Some (Inr p) \<Rightarrow>
       if c_stream c
       then cost = charged e st c \<and> (\<exists>x. rows = [x] \<and> call_row c ''allow'' cost (e_usage e) x)
         \<and> h_status resp = status_of (pr_status p) \<and> h_body resp = BStream (pr_chunks p)
       else (case e_body_end e of
          EndDropped \<Rightarrow> False
        | EndErr m \<Rightarrow> resp = upstream_error m \<and> cost = 0 \<and> rows = []
        | EndOk \<Rightarrow> cost = charged e st c \<and> (\<exists>x. call_row c ''allow'' cost (e_usage e) x
            \<and> (case taint_refusal e st c (concat (pr_chunks p)) of
                 None \<Rightarrow> rows = [x] \<and> h_status resp = status_of (pr_status p) \<and> h_body resp = BBytes (concat (pr_chunks p))
               | Some d \<Rightarrow> resp = firewall_block (res_run_id (c_res c)) d
                   \<and> (\<exists>y. rows = [x, y] \<and> call_row c ''taint_blocked'' 0 None y)))))"

text \<open>The caller's going away: the provider call never returns, or its buffered body is not awaited.\<close>
definition abandoned :: "Env \<Rightarrow> Call \<Rightarrow> bool" where
  "abandoned e c \<longleftrightarrow> e_send e (c_headers c) (c_body c) = None \<or> (\<not> c_stream c \<and> e_body_end e = EndDropped)"

definition ended :: "Env \<Rightarrow> Call \<Rightarrow> AppState \<Rightarrow> HttpResponse option \<Rightarrow> AppState \<Rightarrow> bool" where
  "ended e c st r s \<longleftrightarrow> st_sent s = st_sent st \<and>
     ((\<exists>resp cost rows. r = built resp \<and> settled e c st cost s \<and> st_sink s = st_sink st @ rows \<and> answered e st c resp cost rows)
      \<or> (r = None \<and> abandoned e c \<and> st_ledger s = st_ledger st \<and> st_units s = st_units st \<and> st_sink s = st_sink st))"

lemma endedI: "\<lbrakk>st_sent s = st_sent st; settled e c st cost s; st_sink s = st_sink st @ rows; answered e st c resp cost rows\<rbrakk>
    \<Longrightarrow> ended e c st (built resp) s"
  unfolding ended_def by blast

lemma settle_call_settled: "settled e c st a (settle_call e c a st)"
  by (simp add: settled_def settle_call_def settle_unit_def split: option.split)

lemma settle_call_sel [simp]:
  "st_sink (settle_call e c a st) = st_sink st" "st_sent (settle_call e c a st) = st_sent st"
  "st_firewall (settle_call e c a st) = st_firewall st" "st_prices (settle_call e c a st) = st_prices st"
  by (simp_all add: settle_call_def settle_unit_def split: option.split)

lemma upstream_ended: "answered e st c (upstream_error m) 0 [] \<Longrightarrow> ended e c st (built (upstream_error m)) (settle_call e c ZERO st)"
  by (rule endedI [OF _ settle_call_settled]) (simp_all add: ZERO_def)

lemma usage_tokens: "input_tokens (case u of Some v \<Rightarrow> v | None \<Rightarrow> Usage_default) = (case u of Some v \<Rightarrow> input_tokens v | None \<Rightarrow> 0)"
  "output_tokens (case u of Some v \<Rightarrow> v | None \<Rightarrow> Usage_default) = (case u of Some v \<Rightarrow> output_tokens v | None \<Rightarrow> 0)"
  by (simp_all add: Usage_default_def split: option.split)

lemma call_cost_charged: "amount (c_res c) = c_estimate c \<Longrightarrow> call_cost e c st = charged e st c"
  by (simp add: call_cost_def charged_def split: option.split)

lemma call_cost_settled [simp]: "call_cost e c (settle_call e c a st) = call_cost e c st"
  by (simp add: call_cost_def)

lemma allow_row_ok: "call_row c ''allow'' (call_cost e c st) (e_usage e) (allow_row e c st)"
  by (simp add: call_row_def allow_row_def Let_def row_def usage_tokens)

text \<open>The firewall's verdict on a buffered answer.\<close>
lemma firewall_verdict_ok:
  assumes "st_firewall s = st_firewall st"
  shows "stage_ok (\<lambda>r s'. \<exists>y d. r = built (firewall_block (res_run_id (c_res c)) d) \<and> taint_refusal e st c bytes = Some d
        \<and> call_row c ''taint_blocked'' 0 None y \<and> st_sink s' = st_sink s @ [y]
        \<and> st_ledger s' = st_ledger s \<and> st_units s' = st_units s \<and> st_sent s' = st_sent s)
     (\<lambda>n s'. taint_refusal e st c bytes = None \<and> st_sink s' = st_sink s \<and> st_ledger s' = st_ledger s \<and> st_units s' = st_units s
        \<and> st_sent s' = st_sent s)
     (firewall_verdict e c bytes s)"
proof -
  have "call_row c ''taint_blocked'' 0 None ((row e c ''taint_blocked'' 0 (res_step (c_res c)))\<lparr>cr_run_id := res_run_id (c_res c), ts_millis := t\<rparr>)" for t
    by (simp add: call_row_def row_def)
  then show ?thesis unfolding firewall_verdict_def taint_refusal_def assms by (auto simp: Let_def split: option.split)
qed

lemma buffered_ended:
  assumes ns: "\<not> c_stream c" and am: "amount (c_res c) = c_estimate c" and p: "e_send e (c_headers c) (c_body c) = Some (Inr p)"
  shows "stage_ok (ended e c st) Q (buffered_managed e c p st)"
proof (cases "e_body_end e")
  case (EndErr m)
  then have "answered e st c (upstream_error m) 0 []" using ns p by (simp add: answered_def)
  then show ?thesis by (simp add: buffered_managed_def EndErr upstream_ended del: built_constant)
next
  case EndDropped
  then show ?thesis using ns by (simp add: buffered_managed_def stage_ok_def ended_def abandoned_def)
next
  case EndOk
  let ?a = "call_cost e c st"
  let ?s1 = "settle_call e c ?a st"
  let ?s2 = "sink_record (allow_row e c ?s1) ?s1"
  let ?b = "concat (pr_chunks p)"
  have ar: "call_row c ''allow'' ?a (e_usage e) (allow_row e c ?s1)" using allow_row_ok [of c e ?s1] by simp
  have ch: "?a = charged e st c" by (rule call_cost_charged [OF am])
  have se: "settled e c st ?a s" if "st_ledger s = st_ledger ?s2" "st_units s = st_units ?s2" for s
    using settle_call_settled [of e c st ?a] that by (simp add: settled_def)
  have passed: "ended e c st (built resp) s"
    if "taint_refusal e st c ?b = None" "st_sink s = st_sink ?s2" "st_ledger s = st_ledger ?s2" "st_units s = st_units ?s2" "st_sent s = st_sent ?s2"
      "h_status resp = status_of (pr_status p)" "h_body resp = BBytes ?b" for resp s
    by (rule endedI [OF _ se, of _ "[allow_row e c ?s1]"]) (use that ar ch in \<open>simp_all add: answered_def p ns EndOk\<close>)
  have blocked: "ended e c st (built (firewall_block (res_run_id (c_res c)) d)) s"
    if "taint_refusal e st c ?b = Some d" "call_row c ''taint_blocked'' 0 None y" "st_sink s = st_sink ?s2 @ [y]"
      "st_ledger s = st_ledger ?s2" "st_units s = st_units ?s2" "st_sent s = st_sent ?s2" for y d s
    by (rule endedI [OF _ se, of _ "[allow_row e c ?s1, y]"]) (use that ar ch in \<open>simp_all add: answered_def p ns EndOk\<close>)
  have fw: "st_firewall ?s2 = st_firewall st" by (simp add: sink_record_def)
  have fv: "stage_ok (ended e c st) (\<lambda>n s. taint_refusal e st c ?b = None \<and> st_sink s = st_sink ?s2 \<and> st_ledger s = st_ledger ?s2
      \<and> st_units s = st_units ?s2 \<and> st_sent s = st_sent ?s2) (firewall_verdict e c ?b ?s2)"
    by (rule stage_ok_weaken [OF firewall_verdict_ok [OF fw, of c e ?b]]) (use blocked in blast)+
  show ?thesis unfolding buffered_managed_def EndOk BodyEnd.case Let_def
    by (rule stage_ok_then, rule fv, unfold stage_ok_reply, rule passed) (simp_all split: option.split)
qed

lemma stream_ended:
  assumes ns: "c_stream c" and am: "amount (c_res c) = c_estimate c" and p: "e_send e (c_headers c) (c_body c) = Some (Inr p)"
  shows "stage_ok (ended e c st) Q (stream_managed e c p st)"
proof -
  define g where "g = settle_guard_new (st_prices st) (c_model c) (amount (c_res c)) (c_res c) (c_agent_id c) (c_parent_run_id c)
      (c_on_behalf_of c) (c_outcome c) (c_key_id c) (c_unit c) (c_unit_res c)"
  let ?w = "\<lparr> w_ledger = st_ledger st, w_units = st_units st, w_sink = st_sink st, w_slot = e_usage e \<rparr>"
  let ?x = "settled_record g (c_res c) (e_usage e) (e_now e AtRecord)"
  let ?w' = "guard_drop (e_now e AtUnitSettle) (e_now e AtRecord) (g, ?w)"
  let ?s = "st\<lparr>st_ledger := w_ledger ?w', st_units := w_units ?w', st_sink := w_sink ?w'\<rparr>"
  have ch: "call_cost e c st = charged e st c" by (rule call_cost_charged [OF am])
  have a: "actual_cost g (e_usage e) = charged e st c"
    unfolding ch [symmetric] by (simp add: actual_cost_def call_cost_def g_def settle_guard_new_def cong: option.case_cong)
  have sel: "sg_reservation g = Some (c_res c)" "sg_unit_reservation g = c_unit_res c" by (simp_all add: g_def settle_guard_new_def)
  have w': "w_ledger ?w' = settle (st_ledger st) (c_res c) (charged e st c)"
    "w_units ?w' = (case c_unit_res c of Some ur \<Rightarrow> unit_settle (st_units st) ur (charged e st c) (e_now e AtUnitSettle) | None \<Rightarrow> st_units st)"
    "w_sink ?w' = st_sink st @ [?x]"
    by (simp_all add: guard_drop_def settle_now_def sel Let_def a cong: option.case_cong)
  have x: "call_row c ''allow'' (charged e st c) (e_usage e) ?x"
    by (simp add: call_row_def settled_record_def Let_def a usage_tokens) (simp add: g_def settle_guard_new_def)
  have "ended e c st (built resp) ?s" if "h_status resp = status_of (pr_status p)" "h_body resp = BStream (pr_chunks p)" for resp
    by (rule endedI [of _ _ _ _ "charged e st c" "[?x]"]) (use that x in \<open>simp_all add: w' settled_def answered_def p ns\<close>)
  then show ?thesis unfolding stream_managed_def Let_def g_def [symmetric] guard_complete_drop if_cancel stage_ok_reply by simp
qed

lemma respond_ended:
  "\<lbrakk>amount (c_res c) = c_estimate c; e_send e (c_headers c) (c_body c) = Some (Inr p)\<rbrakk> \<Longrightarrow> stage_ok (ended e c st) Q (respond e c p st)"
  by (simp add: respond_def stream_ended buffered_ended)

text \<open>What a forwarded call leaves, from the state in which it holds its reservations.\<close>
lemma forward_respond:
  assumes "amount (c_res c) = c_estimate c"
  shows "stage_ok (\<lambda>r s. ended e c (st\<lparr>st_sent := st_sent st @ [(c_headers c, c_body c)]\<rparr>) r s) Q
     (stage_then (forward e c) (respond e c) st)"
proof -
  let ?st = "st\<lparr>st_sent := st_sent st @ [(c_headers c, c_body c)]\<rparr>"
  consider "e_send e (c_headers c) (c_body c) = None" | m where "e_send e (c_headers c) (c_body c) = Some (Inl m)"
    | p where "e_send e (c_headers c) (c_body c) = Some (Inr p)" by (metis not_None_eq sum.exhaust)
  then show ?thesis
  proof cases
    case 1
    then show ?thesis by (simp add: stage_then_def forward_def send_def stage_ok_def ended_def abandoned_def)
  next
    case (2 m)
    then have "ended e c ?st (built (upstream_error m)) (settle_call e c ZERO ?st)"
      by (intro upstream_ended) (simp add: answered_def)
    then show ?thesis using 2 by (simp add: stage_then_def forward_def send_def stage_ok_def reply_def)
  next
    case (3 p)
    then have "stage_then (forward e c) (respond e c) st = respond e c p ?st"
      by (simp add: stage_then_def forward_def send_def continue_def)
    then show ?thesis using respond_ended [OF assms 3, of ?st] by simp
  qed
qed

end
