(* ===== verification/ProxySafety.thy ===== *)
theory ProxySafety
  imports ProxyGates
begin

text \<open>
  What the request path guarantees as a whole: which checks a forwarded request has
  passed, that an answered request leaves the ledger balanced with its rows of the
  trace, which rows it leaves, what a caller who goes away leaves behind, and that no
  response the path builds makes the builder panic.
\<close>

section \<open>The two ends of a managed request\<close>

definition request_json :: "Env \<Rightarrow> string \<Rightarrow> json" where
  "request_json e b = (case parse_json (e_serde e) b of Some v \<Rightarrow> v | None \<Rightarrow> JNull)"

text \<open>The ledger once the run is opened, or its budget refreshed.\<close>
definition opened_ledger :: "Env \<Rightarrow> AppState \<Rightarrow> HeaderMap \<Rightarrow> string \<Rightarrow> ledger" where
  "opened_ledger e st h r = open_run (st_ledger st) r (run_budget e st h r) (header_str h ''x-fuse-parent-run-id'')"

definition admitted_state :: "Env \<Rightarrow> string \<Rightarrow> AppState \<Rightarrow> AppState" where
  "admitted_state e key st = st\<lparr>st_keystats := record_call (st_keystats st) key (e_now e AtKeyStats)\<rparr>"

definition opened_state :: "Env \<Rightarrow> HeaderMap \<Rightarrow> string \<Rightarrow> string \<Rightarrow> AppState \<Rightarrow> AppState" where
  "opened_state e h key r st = (admitted_state e key st)\<lparr>st_ledger := opened_ledger e st h r,
     st_obo_overcap := snd (on_behalf_of_header h (st_obo_overcap st)),
     st_outcome_overcap := snd (outcome_header h (st_outcome_overcap st))\<rparr>"

text \<open>The call with which the gates begin.\<close>
definition opened_call :: "Env \<Rightarrow> HeaderMap \<Rightarrow> string \<Rightarrow> string \<Rightarrow> string \<Rightarrow> AppState \<Rightarrow> Call" where
  "opened_call e h b key r st = new_call e h b (request_json e b) key r (admitted_state e key st)"

lemma run_budget_admitted [simp]: "run_budget e (admitted_state e key st) h r = run_budget e st h r"
  by (simp add: run_budget_def cloud_budget_def admitted_state_def cong: option.case_cong)

lemma opened_call_sel [simp]:
  "c_headers (opened_call e h b key r st) = h" "c_request (opened_call e h b key r st) = request_json e b"
  "c_key_id (opened_call e h b key r st) = key" "c_run_id (opened_call e h b key r st) = r"
  "c_run_budget (opened_call e h b key r st) = run_budget e st h r" "c_body (opened_call e h b key r st) = b"
  "c_max_tokens (opened_call e h b key r st) = p_max_tokens (parse_request (request_json e b))"
  "c_model (opened_call e h b key r st) = p_model (parse_request (request_json e b))"
  "c_stream (opened_call e h b key r st) = p_stream (parse_request (request_json e b))"
  "c_unit_res (opened_call e h b key r st) = None" "c_labels (opened_call e h b key r st) = {}"
  "c_agent_id (opened_call e h b key r st) = or_blank (header_str h ''x-fuse-agent-id'')"
  "c_unit (opened_call e h b key r st) = or_blank (res_unit (identity_resolve (st_identity st) key (or_blank (header_str h ''x-fuse-agent-id''))))"
  "c_chain (opened_call e h b key r st) = (case fst (on_behalf_of_header h (st_obo_overcap st)) of Some raw \<Rightarrow> split_on_behalf_of raw | None \<Rightarrow> [])"
  by (simp_all add: opened_call_def new_call_def Let_def) (simp_all add: admitted_state_def)

lemma opened_state_sel [simp]:
  "st_ledger (opened_state e h key r st) = opened_ledger e st h r" "st_sink (opened_state e h key r st) = st_sink st"
  "st_sent (opened_state e h key r st) = st_sent st" "st_killed (opened_state e h key r st) = st_killed st"
  "st_prices (opened_state e h key r st) = st_prices st" "st_policy (opened_state e h key r st) = st_policy st"
  "st_units (opened_state e h key r st) = st_units st" "st_dlp_pii (opened_state e h key r st) = st_dlp_pii st"
  "st_dlp (opened_state e h key r st) = st_dlp st" "st_router (opened_state e h key r st) = st_router st"
  "st_identity (opened_state e h key r st) = st_identity st" "st_identity_strict (opened_state e h key r st) = st_identity_strict st"
  "st_wardryx (opened_state e h key r st) = st_wardryx st" "st_firewall (opened_state e h key r st) = st_firewall st"
  "st_taint (opened_state e h key r st) = st_taint st" "st_wasm (opened_state e h key r st) = st_wasm st"
  "st_history (opened_state e h key r st) = st_history st"
  by (simp_all add: opened_state_def admitted_state_def)

lemma opened_views [simp]:
  "loop_reason e (opened_state e h key r st) c hs = loop_reason e st c hs"
  "fst (record_input x n (opened_state e h key r st)) = fst (record_input x n st)"
  "estimate_of (opened_state e h key r st) c = estimate_of st c"
  "wasm_clear c (opened_state e h key r st) = wasm_clear c st"
  "wardryx_verdict e c (opened_state e h key r st) = wardryx_verdict e c st"
  "scanned e (opened_state e h key r st) b b' = scanned e st b b'"
  "rerouted e c (opened_state e h key r st) b' m = rerouted e c st b' m"
  "along e c (opened_state e h key r st) c' = along e c st c'"
  "labelled e (opened_state e h key r st) c ls = labelled e st c ls"
  "charged e (opened_state e h key r st) c = charged e st c"
  "taint_refusal e (opened_state e h key r st) c = taint_refusal e st c"
  by (simp_all add: loop_reason_def record_input_def Let_def estimate_of_def wasm_clear_def wardryx_verdict_def wardryx_out_def
      scanned_def rerouted_def along_def labelled_def charged_def taint_refusal_def fun_eq_iff cong: option.case_cong)

lemma answered_cong:
  assumes "st_prices s = st_prices st" "st_firewall s = st_firewall st"
  shows "answered e s c resp cost rows = answered e st c resp cost rows"
proof -
  have t: "taint_refusal e s = taint_refusal e st" by (simp add: taint_refusal_def fun_eq_iff assms)
  have c: "charged e s = charged e st" by (simp add: charged_def fun_eq_iff assms cong: option.case_cong)
  show ?thesis by (simp only: answered_def t c)
qed

lemma opened_known: "opened_ledger e st h r r \<noteq> None"
  by (simp add: opened_ledger_def open_run_apply)

lemma run_snapshot_opened:
  "c_run_id c = r \<Longrightarrow> snapshot (opened_ledger e st h r) r = Some (run_snapshot (opened_state e h key r st) c)"
  using opened_known [of e st h r] by (auto simp: snapshot_def run_snapshot_def)

lemma messages_managed:
  assumes "header_str h ''x-fuse-run-id'' = Some r" "resolve_client_key st h = Some key"
  shows "messages e h b st = stage_then (run_gates e gates (opened_call e h b key r st))
     (\<lambda>c. stage_then (forward e c) (respond e c)) (opened_state e h key r st)"
proof -
  have a: "admit e h st = (Inr key, admitted_state e key st)"
    using assms(2) by (simp add: admit_def admitted_state_def continue_def)
  have o: "open_call e h b q key r (admitted_state e key st) = (Inr (new_call e h b q key r (admitted_state e key st)), opened_state e h key r st)" for q
    by (simp add: open_call_def Let_def continue_def opened_state_def opened_ledger_def)
      (simp add: new_call_def Let_def, simp add: admitted_state_def)
  show ?thesis
    unfolding messages_def opened_call_def using assms(1)
    by (simp add: stage_then_def [of "admit e h"] a Let_def managed_def stage_then_def [of "open_call e h b _ key r"] o request_json_def)
qed

text \<open>Every end of a managed request: refused at a gate, or forwarded while holding its reservations.\<close>
lemma managed_ends:
  assumes "header_str h ''x-fuse-run-id'' = Some r" "resolve_client_key st h = Some key" "messages e h b st = (res, st')"
  obtains (refused) out where "res = Inl out" "refused e (opened_call e h b key r st) (opened_state e h key r st) out st'"
  | (forwarded) out c s where "res = Inl out" "holds e (opened_call e h b key r st) (opened_state e h key r st) c s"
      "ended e c (s\<lparr>st_sent := st_sent s @ [(h, c_body c)]\<rparr>) out st'"
proof -
  let ?c = "opened_call e h b key r st"
  let ?s = "opened_state e h key r st"
  let ?E = "\<lambda>o' s'. refused e ?c ?s o' s' \<or> (\<exists>c s. holds e ?c ?s c s \<and> ended e c (s\<lparr>st_sent := st_sent s @ [(h, c_body c)]\<rparr>) o' s')"
  have fw: "stage_ok ?E (\<lambda>x s. False) (stage_then (forward e c) (respond e c) s)" if "holds e ?c ?s c s" for c s
  proof -
    have h: "c_headers c = h" "amount (c_res c) = c_estimate c" using that by (simp_all add: holds_def same_caller_def)
    show ?thesis by (rule stage_ok_weaken [OF forward_respond [OF h(2), where Q = "\<lambda>x s. False", unfolded h(1)]]) (use that in blast)+
  qed
  have "st_ledger ?s (c_run_id ?c) \<noteq> None" "c_unit_res ?c = None" "c_labels ?c = {}" by (simp_all add: opened_known)
  note g = gates_holds [OF this, of e]
  have "stage_ok ?E (\<lambda>x s. False) (messages e h b st)"
    unfolding messages_managed [OF assms(1,2)]
    by (rule stage_ok_then, rule stage_ok_weaken [OF g]) (use fw in blast)+
  then show thesis using assms(3) refused forwarded by (cases res) (auto simp: stage_ok_def)
qed

text \<open>What is known of a call that holds its reservations, in terms of the state the request found.\<close>
lemma holds_opened:
  assumes "holds e (opened_call e h b key r st) (opened_state e h key r st) c s"
  shows "same_caller (opened_call e h b key r st) c" "c_run_id c = r" "along e (opened_call e h b key r st) st c"
    "c_estimate c = estimate_of st c" "snapshot (opened_ledger e st h r) r = Some (c_snapshot c)"
    "st_ledger s = apply_reserve (opened_ledger e st h r) r (c_estimate c)" "c_res c = reservation_for (st_ledger s) r (c_estimate c)"
    "st_sink s = st_sink st" "st_sent s = st_sent st" "st_prices s = st_prices st" "st_firewall s = st_firewall st"
    "labelled e st c (c_labels c)" "c_headers c = h" "c_max_tokens c = p_max_tokens (parse_request (request_json e b))"
proof -
  note H = assms [unfolded holds_def opened_state_sel opened_call_sel]
  show sc: "same_caller (opened_call e h b key r st) c" using H by blast
  show r: "c_run_id c = r" "c_headers c = h" "c_max_tokens c = p_max_tokens (parse_request (request_json e b))"
    using sc by (simp_all add: same_caller_def)
  have "forwarded_body e (opened_state e h key r st) (opened_call e h b key r st) c" using H by blast
  then show "along e (opened_call e h b key r st) st c" using sc by (auto simp: along_def forwarded_body_def)
  have p: "policy_clear e c (opened_state e h key r st)" using H by (simp add: cleared_def)
  show "c_estimate c = estimate_of st c" using p by (simp add: policy_clear_def)
  show "snapshot (opened_ledger e st h r) r = Some (c_snapshot c)"
    using p run_snapshot_opened [OF r(1), of e st h key] by (simp add: policy_clear_def)
  show "st_ledger s = apply_reserve (opened_ledger e st h r) r (c_estimate c)" "c_res c = reservation_for (st_ledger s) r (c_estimate c)"
    "st_sink s = st_sink st" "st_sent s = st_sent st" "st_prices s = st_prices st" "st_firewall s = st_firewall st" "labelled e st c (c_labels c)"
    using H by simp_all
qed

lemma unadmitted_unsent: "resolve_client_key st h = None \<Longrightarrow> st_sent (snd (messages e h b st)) = st_sent st"
  by (simp add: messages_def stage_then_def admit_def unauthorized_def reply_def)

text \<open>C2: In every mode the provider sees a managed request only after every gate, and sees it once.
  The credential is known and the run not killed; a strict identity map finds no mismatch; the body is
  the caller's, or with the model rewritten by the active router, its scans are clean in block mode and what is sent is
  that body with exactly the matches masked; an enforced policy does not block the estimate of the
  body that is sent against the run's snapshot, and no loop is detected; the custom policy does not
  answer 2; an enforcing PDP allows; and in enforce mode the run reservation for that estimate was
  granted, and the unit reservation too when the identity map gives the caller a unit.  The call
  these checks look at has its caller's headers, chain, token bound and unit.\<close>
theorem provider_behind_every_gate:
  assumes "header_str h ''x-fuse-run-id'' = Some r" "messages e h b st = (res, st')" "st_sent st' \<noteq> st_sent st"
  shows "\<exists>key c b'. resolve_client_key st h = Some key \<and> st_sent st' = st_sent st @ [(h, c_body c)]
    \<and> same_caller (opened_call e h b key r st) c
    \<and> c_agent_id c = or_blank (header_str h ''x-fuse-agent-id'')
    \<and> c_unit c = or_blank (res_unit (identity_resolve (st_identity st) key (c_agent_id c)))
    \<and> c_max_tokens c = p_max_tokens (parse_request (request_json e b))
    \<and> r \<notin> st_killed st
    \<and> (st_identity_strict st = StrictEnforce \<longrightarrow> res_mismatch (identity_resolve (st_identity st) key (c_agent_id c)) = None)
    \<and> (b' = b \<and> c_model c = p_model (parse_request (request_json e b))
       \<or> r_mode (st_router st) = ROn \<and> rewrite_model_field (parse_json (e_serde e)) (print_json (e_serde e)) b (c_model c) = Some b')
    \<and> (st_dlp st = DlpBlock \<longrightarrow> scan (e_engine e) (from_utf8_lossy b') = [])
    \<and> (st_dlp_pii st = DlpBlock \<longrightarrow> scan_pii (e_engine e) (from_utf8_lossy b') = [])
    \<and> scanned e st b' (c_body c)
    \<and> c_estimate c = estimate_of st c \<and> snapshot (opened_ledger e st h r) r = Some (c_snapshot c)
    \<and> wasm_clear c st \<and> (w_mode (st_wardryx st) = WEnforce \<longrightarrow> wardryx_verdict e c st = WAllow)
    \<and> (mode (st_policy st) = Enforce \<longrightarrow>
         \<not> is_blocking (Policy.decision (evaluate (st_policy st) (c_snapshot c) (c_estimate c)))
         \<and> loop_reason e st c (fst (record_input r (length (c_body c) div 4) st)) = None
         \<and> (c_unit c = [] \<or> (\<exists>ur u. try_reserve (st_units st) (c_unit c) (c_estimate c) (e_now e AtUnitReserve) = (Inr ur, u)))
         \<and> (\<exists>v l. reserve (opened_ledger e st h r) r (c_estimate c) = (Inr v, l)))"
proof (cases "resolve_client_key st h")
  case None
  then show ?thesis using unadmitted_unsent [OF None, of e b] assms(2,3) by simp
next
  case (Some key)
  show ?thesis
    using assms(1) Some assms(2)
  proof (cases rule: managed_ends)
    case (refused out)
    then show ?thesis using assms(3) refused_frame [OF refused(2)] by simp
  next
    case (forwarded out c s)
    note H = forwarded(2) [unfolded holds_def opened_state_sel opened_call_sel] and O = holds_opened [OF forwarded(2)]
    have sent: "st_sent st' = st_sent st @ [(h, c_body c)]" using forwarded(3) O(9) by (simp add: ended_def)
    note ids = same_caller_sel [OF O(1), unfolded opened_call_sel]
    have un: "c_unit c = or_blank (res_unit (identity_resolve (st_identity st) key (c_agent_id c)))" using ids by simp
    obtain b' where b': "rerouted e (opened_call e h b key r st) st b' (c_model c)" "scanned e st b' (c_body c)"
      using H by (auto simp: forwarded_body_def)
    have rw: "b' = b \<and> c_model c = p_model (parse_request (request_json e b))
       \<or> r_mode (st_router st) = ROn \<and> rewrite_model_field (parse_json (e_serde e)) (print_json (e_serde e)) b (c_model c) = Some b'"
      using b'(1) by (simp add: rerouted_def)
    have dlp: "st_dlp st = DlpBlock \<longrightarrow> scan (e_engine e) (from_utf8_lossy b') = []"
      "st_dlp_pii st = DlpBlock \<longrightarrow> scan_pii (e_engine e) (from_utf8_lossy b') = []"
      using b'(2) by (auto simp: scanned_def Let_def)
    have cl: "cleared e (opened_state e h key r st) c" using H by blast
    note p = cl [unfolded cleared_def policy_clear_def identity_clear_def opened_views opened_state_sel O(2) ids(2)]
    have rest: "r \<notin> st_killed st" "wasm_clear c st" "w_mode (st_wardryx st) = WEnforce \<longrightarrow> wardryx_verdict e c st = WAllow"
      "st_identity_strict st = StrictEnforce \<longrightarrow> res_mismatch (identity_resolve (st_identity st) key (c_agent_id c)) = None"
      using p by blast+
    have "unit_taken e c (opened_state e h key r st) (c_unit_res c) (st_units s)" using H by blast
    then have unit: "mode (st_policy st) = Enforce \<longrightarrow> c_unit c = []
         \<or> (\<exists>ur u. try_reserve (st_units st) (c_unit c) (c_estimate c) (e_now e AtUnitReserve) = (Inr ur, u))"
      by (auto simp: unit_taken_def split: if_splits)
    have enf: "mode (st_policy st) = Enforce \<longrightarrow>
         \<not> is_blocking (Policy.decision (evaluate (st_policy st) (c_snapshot c) (c_estimate c)))
         \<and> loop_reason e st c (fst (record_input r (length (c_body c) div 4) st)) = None
         \<and> (c_unit c = [] \<or> (\<exists>ur u. try_reserve (st_units st) (c_unit c) (c_estimate c) (e_now e AtUnitReserve) = (Inr ur, u)))
         \<and> (\<exists>v l. reserve (opened_ledger e st h r) r (c_estimate c) = (Inr v, l))"
      using p unit H by blast
    show ?thesis
      by (rule exI [of _ key], rule exI [of _ c], rule exI [of _ b'],
          intro conjI Some sent O(1) ids(3) un ids(7) rest rw dlp b'(2) O(4,5) enf)
  qed
qed

section \<open>Balance\<close>

lemma settle_after_reserve:
  assumes s: "L x = Some s" "0 \<le> rs_reserved s" "rs_reserved s \<le> headroom" and e: "\<bar>est\<bar> \<le> headroom"
  shows "settle (apply_reserve L r est) (reservation_for L' r est) a x = Some (s\<lparr>
     rs_spent := (if x \<in> set (chain L r) then wrap_i64 (rs_spent s + a) else rs_spent s),
     rs_steps := (if x = r then wrap_u32 (rs_steps s + 1) else rs_steps s)\<rparr>)"
proof -
  have "saturating_sub (microusd_add (rs_reserved s) est) est = rs_reserved s"
    using s e by (simp add: saturating_sub_def microusd_add_def wrap_i64_within sat_i64_def i64_min_def i64_max_def headroom_def)
  then show ?thesis
    by (simp add: settle_apply apply_reserve_apply s(1) settle_state_def add_reserved_def bump_steps_def microusd_add_def)
qed

text \<open>The cost the trace attributes to a list of rows: that of the calls that went through.\<close>
definition allowed_cost :: "CallRecord list \<Rightarrow> int" where
  "allowed_cost rows = sum_list (map cost_microusd (filter (\<lambda>x. cr_decision x = ''allow'') rows))"

lemma allowed_cost_refused: "refusal e st c resp rows \<Longrightarrow> allowed_cost rows = 0"
  using refusal_rows [of e st c resp rows] by (simp add: allowed_cost_def filter_empty_conv [THEN iffD2])

lemma answer_cost: "answered e st c resp cost rows \<Longrightarrow> allowed_cost rows = cost"
  by (auto simp: answered_def call_row_def allowed_cost_def split: option.splits sum.splits if_splits BodyEnd.splits)

text \<open>The end of an answered call that was forwarded.\<close>
lemma ended_Some:
  assumes "ended e c s (Some resp) s'"
  obtains cost rows where "settled e c s cost s'" "st_sink s' = st_sink s @ rows" "answered e s c resp cost rows" "st_sent s' = st_sent s"
  using assms built_eq by (fastforce simp: ended_def dest: sym [of "Some resp"])

text \<open>C3: An answered request leaves the ledger balanced: no reservation stays behind on any run, the
  run and each of its ancestors have been charged exactly the cost of the rows of the trace that
  went through, every other run nothing; the run counts one step more if and only if the provider
  was reached, and only then is anything charged.\<close>
theorem answered_request_balances:
  assumes "header_str h ''x-fuse-run-id'' = Some r" "resolve_client_key st h \<noteq> None"
    and "messages e h b st = (Inl (Some resp), st')"
    and "\<forall>x s. st_ledger st x = Some s \<longrightarrow> 0 \<le> rs_reserved s \<and> rs_reserved s \<le> headroom \<and> wrap_i64 (rs_spent s) = rs_spent s"
    and "\<forall>body m. (h, body) \<in> set (drop (length (st_sent st)) (st_sent st')) \<longrightarrow>
       \<bar>case estimate_cost (st_prices st) m (length body) (p_max_tokens (parse_request (request_json e b))) of Some x \<Rightarrow> x | None \<Rightarrow> 0\<bar> \<le> headroom"
  shows "\<exists>rows. st_sink st' = st_sink st @ rows \<and> dom (st_ledger st') = dom (opened_ledger e st h r)
    \<and> (st_sent st' = st_sent st \<longrightarrow> allowed_cost rows = 0)
    \<and> (\<forall>x s. opened_ledger e st h r x = Some s \<longrightarrow> st_ledger st' x = Some (s\<lparr>
          rs_spent := (if x \<in> set (chain (opened_ledger e st h r) r) then wrap_i64 (rs_spent s + allowed_cost rows) else rs_spent s),
          rs_steps := (if x = r \<and> st_sent st' \<noteq> st_sent st then wrap_u32 (rs_steps s + 1) else rs_steps s)\<rparr>))"
proof -
  obtain key where key: "resolve_client_key st h = Some key" using assms(2) by blast
  let ?L = "opened_ledger e st h r"
  have L: "0 \<le> rs_reserved s \<and> rs_reserved s \<le> headroom \<and> wrap_i64 (rs_spent s) = rs_spent s" if "?L x = Some s" for x s
    using that assms(4) by (auto simp: opened_ledger_def open_run_apply fresh_run_def ZERO_def headroom_def wrap_i64_within split: if_splits option.splits)
  show ?thesis
    using assms(1) key assms(3)
  proof (cases rule: managed_ends)
    case (refused out)
    then have "refused e (opened_call e h b key r st) (opened_state e h key r st) (Some resp) st'" by simp
    then obtain c rows where "refusal e (opened_state e h key r st) c resp rows" "st_sink st' = st_sink st @ rows"
      by (rule refused_Some) auto
    then have "st_sink st' = st_sink st @ rows" "allowed_cost rows = 0" using allowed_cost_refused by blast+
    moreover have "st_ledger st' = ?L" "st_sent st' = st_sent st" using refused_frame [OF refused(2)] by simp_all
    ultimately show ?thesis using L by auto
  next
    case (forwarded out c s)
    note O = holds_opened [OF forwarded(2)]
    have "ended e c (s\<lparr>st_sent := st_sent s @ [(h, c_body c)]\<rparr>) (Some resp) st'" using forwarded(1,3) by simp
    then obtain cost rows where end1: "settled e c (s\<lparr>st_sent := st_sent s @ [(h, c_body c)]\<rparr>) cost st'" "st_sink st' = st_sink s @ rows"
      "answered e (s\<lparr>st_sent := st_sent s @ [(h, c_body c)]\<rparr>) c resp cost rows" "st_sent st' = st_sent s @ [(h, c_body c)]"
      by (rule ended_Some) auto
    have est: "\<bar>c_estimate c\<bar> \<le> headroom"
      using assms(5) [rule_format, of "c_body c" "c_model c"] end1(4) O(4,9,14) by (simp add: estimate_of_def ZERO_def split: option.splits)
    have led: "st_ledger st' = settle (apply_reserve ?L r (c_estimate c)) (reservation_for (st_ledger s) r (c_estimate c)) (allowed_cost rows)"
      using end1(1) answer_cost [OF end1(3)] O(6,7) by (simp add: settled_def)
    have sent: "st_sent st' \<noteq> st_sent st" using end1(4) O(9) by simp
    show ?thesis
    proof (intro exI [of _ rows] conjI allI impI)
      show "st_sink st' = st_sink st @ rows" using end1(2) O(8) by simp
      show "dom (st_ledger st') = dom ?L" by (simp add: led)
      fix x s'
      assume x: "?L x = Some s'"
      show "st_ledger st' x = Some (s'\<lparr>rs_spent := (if x \<in> set (chain ?L r) then wrap_i64 (rs_spent s' + allowed_cost rows) else rs_spent s'),
          rs_steps := (if x = r \<and> st_sent st' \<noteq> st_sent st then wrap_u32 (rs_steps s' + 1) else rs_steps s')\<rparr>)"
        unfolding led using L [OF x] sent by (simp add: settle_after_reserve [where L = ?L and x = x, OF x] est)
    qed (use sent in simp)
  qed
qed

text \<open>A caller who goes away while a buffered answer is awaited leaves the reservation behind: the
  request was sent, no row is written, and the run and each of its ancestors still hold the
  estimate of the body that was sent.\<close>
theorem dropped_call_keeps_reservation:
  assumes "header_str h ''x-fuse-run-id'' = Some r" "resolve_client_key st h \<noteq> None"
    and "messages e h b st = (Inl None, st')" "st_sent st' \<noteq> st_sent st"
    and "\<not> p_stream (parse_request (request_json e b))" "e_body_end e = EndDropped"
  shows "\<exists>body m est. st_sent st' = st_sent st @ [(h, body)] \<and> st_sink st' = st_sink st
    \<and> est = (case estimate_cost (st_prices st) m (length body) (p_max_tokens (parse_request (request_json e b))) of Some x \<Rightarrow> x | None \<Rightarrow> 0)
    \<and> st_ledger st' = apply_reserve (opened_ledger e st h r) r est
    \<and> (\<forall>x\<in>set (chain (opened_ledger e st h r) r). \<exists>s s'. opened_ledger e st h r x = Some s \<and> st_ledger st' x = Some s'
          \<and> rs_reserved s' = wrap_i64 (rs_reserved s + est) \<and> rs_spent s' = rs_spent s)"
proof -
  obtain key where key: "resolve_client_key st h = Some key" using assms(2) by blast
  let ?L = "opened_ledger e st h r"
  have eff: "\<exists>s s'. ?L x = Some s \<and> apply_reserve ?L r est x = Some s' \<and> rs_reserved s' = wrap_i64 (rs_reserved s + est) \<and> rs_spent s' = rs_spent s"
    if "x \<in> set (chain ?L r)" for x est
    using chain_known [OF that] that by (auto simp: apply_reserve_apply microusd_add_def)
  show ?thesis
    using assms(1) key assms(3)
  proof (cases rule: managed_ends)
    case (refused out)
    then show ?thesis using assms(4) refused_frame [OF refused(2)] by simp
  next
    case (forwarded out c s)
    note O = holds_opened [OF forwarded(2)]
    let ?s = "s\<lparr>st_sent := st_sent s @ [(h, c_body c)]\<rparr>"
    have "c_stream c = p_stream (parse_request (request_json e b))" using O(1) by (simp add: same_caller_def)
    then have no: "\<exists>m. resp = upstream_error m" if "answered e ?s c resp cost rows" for resp cost rows
      using that assms(5,6) by (auto simp: answered_def split: option.splits sum.splits)
    have bu: "built resp \<noteq> None" if "answered e ?s c resp cost rows" for resp cost rows
      using no [OF that] by (elim exE) simp
    have "ended e c ?s None st'" using forwarded(1,3) by simp
    then have E: "st_ledger st' = st_ledger s" "st_sink st' = st_sink s" "st_sent st' = st_sent s @ [(h, c_body c)]"
      unfolding ended_def using bu by (fastforce dest: sym [of None])+
    have "c_estimate c = (case estimate_cost (st_prices st) (c_model c) (length (c_body c)) (p_max_tokens (parse_request (request_json e b))) of Some x \<Rightarrow> x | None \<Rightarrow> 0)"
      using O(4) by (simp add: estimate_of_def O(14) ZERO_def split: option.split)
    then show ?thesis using E O(6,8,9) eff
      by (intro exI [of _ "c_body c"] exI [of _ "c_model c"] exI [of _ "c_estimate c"] conjI ballI) simp_all
  qed
qed

section \<open>The rows of the trace\<close>

text \<open>C35: The trace says what happened to every answered managed request.  One that the provider
  did not see was refused, and its response and rows are those of the condition that refused it: a
  row of no cost for a strict identity mismatch, a secret, a cache hit and a PDP's denial or hold; a
  row with the estimate for every trip of the breaker; no row for personal data.  One that the
  provider saw leaves nothing if the provider failed; otherwise one \<open>allow\<close> row with the price of the
  reported usage, or the estimate of the body sent without one; and a second, free \<open>taint_blocked\<close> row exactly when an
  enforcing firewall finds that the labels of the run forbid a tool the buffered answer calls.\<close>
theorem answered_request_rows:
  assumes "header_str h ''x-fuse-run-id'' = Some r" "resolve_client_key st h = Some key"
    and "messages e h b st = (Inl (Some resp), st')"
  shows "\<exists>c rows. st_sink st' = st_sink st @ rows \<and> along e (opened_call e h b key r st) st c
    \<and> (if st_sent st' = st_sent st
       then refusal e (opened_state e h key r st) c resp rows
       else st_sent st' = st_sent st @ [(h, c_body c)] \<and> c_estimate c = estimate_of st c \<and> labelled e st c (c_labels c)
          \<and> c_res c = reservation_for (apply_reserve (opened_ledger e st h r) r (c_estimate c)) r (c_estimate c)
          \<and> (\<exists>cost. answered e st c resp cost rows))"
  using assms
proof (cases rule: managed_ends)
  case (refused out)
  then have "refused e (opened_call e h b key r st) (opened_state e h key r st) (Some resp) st'" by simp
  then obtain c rows where "along e (opened_call e h b key r st) st c" "refusal e (opened_state e h key r st) c resp rows"
    "st_sink st' = st_sink st @ rows"
    by (rule refused_Some) auto
  then show ?thesis using refused_frame [OF refused(2)] by auto
next
  case (forwarded out c s)
  note O = holds_opened [OF forwarded(2)]
  have "ended e c (s\<lparr>st_sent := st_sent s @ [(h, c_body c)]\<rparr>) (Some resp) st'" using forwarded(1,3) by simp
  then obtain cost rows where E: "st_sink st' = st_sink s @ rows"
    "answered e (s\<lparr>st_sent := st_sent s @ [(h, c_body c)]\<rparr>) c resp cost rows" "st_sent st' = st_sent s @ [(h, c_body c)]"
    by (rule ended_Some) auto
  have "answered e st c resp cost rows" using E(2) answered_cong [of "s\<lparr>st_sent := st_sent s @ [(h, c_body c)]\<rparr>" st] O(10,11) by simp
  moreover have "c_res c = reservation_for (apply_reserve (opened_ledger e st h r) r (c_estimate c)) r (c_estimate c)"
    using O(6,7) by simp
  ultimately show ?thesis using E(1,3) O(3,4,8,9,12) by (intro exI [of _ c] exI [of _ rows]) auto
qed

section \<open>Legal texts\<close>

text \<open>Every text the path itself writes into a header is a legal header value.\<close>
lemma list_join_legal: "\<lbrakk>header_legal sep; list_all header_legal xs\<rbrakk> \<Longrightarrow> header_legal (join sep xs)"
  by (induction sep xs rule: join.induct) simp_all

lemma sorted_labels_legal: "\<forall>l\<in>L. header_legal l \<Longrightarrow> list_all header_legal (sorted_list_of_set L)"
  by (cases "finite L") (simp_all add: list_all_iff)

lemma first_violation_legal: "first_violation p s k = Some r \<Longrightarrow> header_legal r"
  by (auto simp: first_violation_def microusd_display_def header_legal_Cons header_byte_def split: option.splits if_splits)

lemma growth_reason_legal: "header_legal (growth_reason g)"
  by (simp add: growth_reason_def header_legal_Cons header_byte_def)

lemma growth_loop_legal: "growth_loop g n xs = Some r \<Longrightarrow> header_legal r"
  by (induction g n xs rule: growth_loop.induct) (auto simp: growth_reason_legal split: if_splits)

lemma detect_legal: "detect sigs sizes cfg = Some r \<Longrightarrow> header_legal r"
  by (auto simp: detect_def detect_identical_def detect_pingpong_def detect_context_growth_def Let_def growth_loop_legal
      header_legal_Cons header_byte_def bind_eq_Some_conv split: option.splits if_splits)

lemma loop_reason_legal: "loop_reason e st c hs = Some r \<Longrightarrow> header_legal r"
  by (auto simp: loop_reason_def detect_legal split: if_splits)

lemma kinds_legal: "list_all header_legal (map fst secret_patterns)" "list_all header_legal (map fst pii_patterns)"
  by (simp_all add: secret_patterns_def pii_patterns_def header_legal_Cons header_byte_def)

lemma matches_kind: "f \<in> set (matches eng ps t) \<Longrightarrow> kind f \<in> set (map fst ps)"
  unfolding matches_def set_map by force

lemma format_summary_legal:
  assumes "\<forall>f\<in>set fs. header_legal (kind f)" "header_legal noun"
  shows "header_legal (format_summary fs noun)"
proof -
  have "list_all header_legal (remdups_adj (sort (map kind fs)))" using assms(1) by (auto simp: list_all_iff)
  then have "header_legal (join '', '' (remdups_adj (sort (map kind fs))))"
    by (intro list_join_legal) (simp_all add: header_legal_Cons header_byte_def)
  then show ?thesis using assms(2) by (simp add: format_summary_def header_legal_Cons header_byte_def)
qed

lemma summary_legal: "header_legal (summary (scan eng t))" "header_legal (pii_summary (scan_pii eng t))" "header_legal (summary [])"
  "header_legal (pii_summary [])"
proof -
  have "\<forall>f\<in>set (scan eng t). header_legal (kind f)"
    using dedup_subset [of "matches eng secret_patterns t"] matches_kind [of _ eng secret_patterns t] kinds_legal(1)
    unfolding scan_def list_all_iff by blast
  then show "header_legal (summary (scan eng t))"
    unfolding summary_def by (rule format_summary_legal) (simp add: header_legal_Cons header_byte_def)
  have "\<forall>f\<in>set (scan_pii eng t). header_legal (kind f)"
    using dedup_subset [of "filter (pii_accepts t) (matches eng pii_patterns t)"] matches_kind [of _ eng pii_patterns t] kinds_legal(2)
    unfolding scan_pii_def list_all_iff set_filter by blast
  then show "header_legal (pii_summary (scan_pii eng t))"
    unfolding pii_summary_def by (rule format_summary_legal) (simp add: header_legal_Cons header_byte_def)
  show "header_legal (summary [])" "header_legal (pii_summary [])"
    by (simp_all add: summary_def pii_summary_def format_summary_def header_legal_Cons header_byte_def)
qed

lemma decision_wire_legal: "header_legal (decision_wire_str d)"
  by (cases d) (simp_all add: decision_wire_str_def header_legal_Cons header_byte_def)

lemma mismatch_legal: "res_mismatch (identity_resolve m k a) = Some reason \<Longrightarrow> header_legal reason"
  by (auto simp: identity_resolve_def key_resolution_def prefix_resolution_def header_legal_Cons header_byte_def
      split: option.splits if_splits)

lemma taint_reason_legal:
  assumes "\<forall>l\<in>labels. header_legal l" "\<forall>rule\<in>set rules. list_all header_legal (deny rule)"
  shows "taint_evaluate labels requested rules = Some r \<Longrightarrow> header_legal r"
  using assms
proof (induction labels requested rules rule: taint_evaluate.induct)
  case (2 labels requested rule rules)
  have "header_legal (taint_reason labels (denied_by requested rule))"
    unfolding taint_reason_def using list_join_legal [of "'', ''"] sorted_labels_legal [OF 2(4)] 2(5)
    by (simp add: denied_by_def list_all_iff header_legal_Cons header_byte_def)
  then show ?case using 2 by (auto simp: Let_def split: if_splits)
qed simp

text \<open>The labels a caller may set: pieces of a visible header value, in lower case.\<close>
lemma split_char_all: "list_all P s \<Longrightarrow> list_all (list_all P) (split_char d s)"
  by (induction d s rule: split_char.induct) (auto split: list.split)

lemma trim_all: "list_all P s \<Longrightarrow> list_all P (trim s)"
proof -
  have strip: "list_all P (strip_words ws x)" if "list_all P x" for ws x
    using strip_words_suffix [of x ws] that by (metis list_all_append)
  show "list_all P s \<Longrightarrow> list_all P (trim s)" unfolding trim_def trim_end_def trim_start_def list_all_rev by (simp add: strip)
qed

lemma header_labels_legal:
  assumes "\<forall>v. list_all visible_ascii v \<longrightarrow> header_legal (lower v)"
  shows "\<forall>l\<in>taint_header_labels lower h. header_legal l"
proof (cases "header_str h ''x-fuse-taint''")
  case (Some s)
  have "list_all visible_ascii s" using Some by (auto simp: header_str_def split: option.splits if_splits)
  then have "list_all (list_all visible_ascii) (split_char (CHR '','') s)" by (rule split_char_all)
  then show ?thesis using assms by (auto simp: taint_header_labels_def Some list_all_iff [of "list_all visible_ascii"] trim_all)
qed (simp add: taint_header_labels_def)

text \<open>Tool labels come from the table, or are \<open>unclassified\<close>.\<close>
lemma tool_labels_legal:
  assumes "\<forall>l\<in>ran tab. header_legal l"
  shows "\<forall>l\<in>labels_for_tools names tab. header_legal l"
proof -
  have "header_legal (case tab n of Some l \<Rightarrow> l | None \<Rightarrow> ''unclassified'')" for n
    using assms by (cases "tab n") (auto simp: header_legal_Cons header_byte_def intro: ranI)
  then show ?thesis by (auto simp: labels_for_tools_def)
qed

section \<open>Answers\<close>

text \<open>
  The invariant of the state: the content types in the cache, the labels of the runs and the
  tables of the firewall are legal header values.
\<close>
definition presentable :: "AppState \<Rightarrow> bool" where
  "presentable st \<longleftrightarrow> (\<forall>p. \<forall>x\<in>set (entries_of (st_cache st) p). header_legal (e_content_type x))
     \<and> (\<forall>r. \<forall>l\<in>run_labels (st_taint st) r. header_legal l) \<and> (\<forall>l\<in>ran (fw_sources (st_firewall st)). header_legal l)
     \<and> (\<forall>rule\<in>set (fw_rules (st_firewall st)). list_all header_legal (deny rule))"

text \<open>The invariant of the call: whatever it will put into a header is legal.\<close>
definition legal_call :: "Call \<Rightarrow> bool" where
  "legal_call c \<longleftrightarrow> header_legal (c_run_id c) \<and> header_legal (res_run_id (c_res c))
     \<and> list_all (pred_option header_legal) [c_would_block c, c_dlp_note c, c_cache_note c, c_wardryx_header c, c_identity_header c]
     \<and> (\<forall>l\<in>c_labels c. header_legal l)"

definition replied :: "HttpResponse option \<Rightarrow> AppState \<Rightarrow> bool" where
  "replied r s \<longleftrightarrow> r \<noteq> None \<and> presentable s"

abbreviation on_course :: "Call \<Rightarrow> AppState \<Rightarrow> bool" where
  "on_course c s \<equiv> legal_call c \<and> presentable s"

lemma replied_built [simp]: "replied (built r) s \<longleftrightarrow> headers_legal (h_headers r) \<and> presentable s"
  by (simp add: replied_def built_def)

lemma replied_Some [simp]: "replied (Some r) s \<longleftrightarrow> presentable s"
  by (simp add: replied_def)

lemma presentable_upd [simp]:
  "presentable (st\<lparr>st_keystats := a\<rparr>) = presentable st" "presentable (st\<lparr>st_ledger := b\<rparr>) = presentable st"
  "presentable (st\<lparr>st_units := u\<rparr>) = presentable st" "presentable (st\<lparr>st_sink := d\<rparr>) = presentable st"
  "presentable (st\<lparr>st_history := f\<rparr>) = presentable st" "presentable (st\<lparr>st_wardryx := g\<rparr>) = presentable st"
  "presentable (st\<lparr>st_sent := i\<rparr>) = presentable st" "presentable (st\<lparr>st_events := j\<rparr>) = presentable st"
  "presentable (st\<lparr>st_obo_overcap := k\<rparr>) = presentable st" "presentable (st\<lparr>st_outcome_overcap := l\<rparr>) = presentable st"
  by (simp_all add: presentable_def)

lemma presentable_steps [simp]:
  "presentable (emit_event e t c x st) = presentable st" "presentable (sink_record r st) = presentable st"
  "presentable (emit_breaker_event e c v st) = presentable st" "presentable (count_mismatch c st) = presentable st"
  "presentable (settle_unit e c a st) = presentable st" "presentable (settle_call e c a st) = presentable st"
  by (simp_all add: emit_event_def sink_record_def emit_breaker_event_def count_mismatch_def settle_call_def settle_unit_def split: option.split)

lemma built_responses [simp]:
  "headers_legal (h_headers (breaker_error_response r v)) = header_legal r"
  "headers_legal (h_headers (wardryx_deny_response r w)) = header_legal r"
  "headers_legal (h_headers (dlp_block r d)) \<longleftrightarrow> header_legal r \<and> header_legal d"
  "headers_legal (h_headers (identity_block r d)) \<longleftrightarrow> header_legal r \<and> header_legal d"
  "headers_legal (h_headers (firewall_block r d)) \<longleftrightarrow> header_legal r \<and> header_legal d"
  "headers_legal (h_headers (cached_response r l m)) \<longleftrightarrow> header_legal r \<and> header_legal (l_content_type l)"
  by (auto simp: breaker_error_response_def wardryx_deny_response_def dlp_block_def identity_block_def
      firewall_block_def cached_response_def Let_def header_legal_Cons header_byte_def)

lemma replied_breaker: "\<lbrakk>legal_call c; presentable st\<rbrakk> \<Longrightarrow> stage_ok replied Q (breaker_block e c k cost step b sp d st)"
  by (simp add: breaker_block_def Let_def legal_call_def)

text \<open>The one masking pass cannot fail on the findings of the two scans.\<close>
lemma cut_redacts:
  assumes "spans_ok eng secret_patterns t" "spans_ok eng pii_patterns t"
    and "fs = [] \<or> fs = scan eng t" "ps = [] \<or> ps = scan_pii eng t"
  shows "redact t (secret_redactions m fs @ pii_redactions m' fs ps) \<noteq> None"
proof -
  let ?fs = "secret_redactions m fs" and ?ps = "pii_redactions m' fs ps"
  have f: "ordered_from 0 fs" "\<forall>f\<in>set fs. span_ok t f" using assms(3) scan_props [OF assms(1)] by auto
  have p: "ordered_from 0 ps" "\<forall>f\<in>set ps. span_ok t f" using assms(4) scan_pii_props [OF assms(2)] by auto
  have "ordered_from 0 ?fs" "ordered_from 0 ?ps" "\<forall>x\<in>set (?fs @ ?ps). span_ok t x"
    using f p by (auto simp: secret_redactions_def pii_redactions_def ordered_filter)
  moreover have "mask_list ?fs ?ps = ?fs @ ?ps"
    by (auto simp: mask_list_def secret_redactions_def pii_redactions_def intro!: filter_True)
  ultimately show ?thesis using redact_splice [of "?fs @ ?ps" t] mask_list_ordered [of ?fs ?ps] by simp
qed

lemma cache_get_legal:
  assumes "\<forall>p. \<forall>x\<in>set (entries_of c p). header_legal (e_content_type x)"
  shows "\<forall>l. fst (cache_get uni c q core now) = Some l \<longrightarrow> header_legal (l_content_type l)"
    "\<forall>p. \<forall>x\<in>set (entries_of (snd (cache_get uni c q core now)) p). header_legal (e_content_type x)"
proof (intro allI impI)
  fix l
  assume h: "fst (cache_get uni c q core now) = Some l"
  let ?g = "consider_entry (config c) (embed c core) (extract_entities uni core) (chars_count core)"
  obtain es where es: "store c q = Some es" using h by (auto simp: cache_get_def split: if_splits option.splits)
  obtain sim e where b: "foldl ?g None (filter (fresh_entry (config c) now) es) = Some (sim, e)" and l: "l_content_type l = e_content_type e"
    using h es by (auto simp: cache_get_def Let_def split: if_splits)
  have "e \<in> set es" using best_entry [OF b] by auto
  then show "header_legal (l_content_type l)" using assms es l by (auto simp: entries_of_def dest: spec [of _ q])
qed (use assms in \<open>auto simp: entries_get\<close>)

lemma dlp_gate_replies:
  assumes "\<forall>t. spans_ok (e_engine e) secret_patterns t \<and> spans_ok (e_engine e) pii_patterns t" "on_course c st"
  shows "stage_ok replied on_course (dlp_gate e c st)"
proof -
  define t where "t = from_utf8_lossy (c_body c)"
  define fs where "fs = (if st_dlp st \<noteq> DlpOff then scan (e_engine e) t else [])"
  define ps where "ps = (if st_dlp_pii st \<noteq> DlpOff then scan_pii (e_engine e) t else [])"
  define rd where "rd = redact t (secret_redactions (st_dlp st) fs @ pii_redactions (st_dlp_pii st) fs ps)"
  obtain b where "rd = Some b"
    using cut_redacts [of "e_engine e" t fs ps] assms by (fastforce simp: rd_def fs_def ps_def)
  moreover have s: "header_legal (summary fs)" "header_legal (pii_summary ps)"
    by (simp_all add: fs_def ps_def summary_legal)
  moreover define n where "n = pii_note (st_dlp_pii st) ps (secret_note (st_dlp st) fs)"
  moreover have "pred_option header_legal n" unfolding n_def
    using s by (auto simp: pii_note_def secret_note_def add_note_def header_legal_Cons header_byte_def split: DlpMode.splits)
  ultimately show ?thesis
    unfolding dlp_gate_def Let_def t_def [symmetric] fs_def [symmetric] ps_def [symmetric] rd_def [symmetric] n_def [symmetric]
    using assms(2) by (simp add: legal_call_def)
qed

lemma cache_gate_replies:
  assumes "on_course c st"
  shows "stage_ok replied on_course (cache_gate e c st)"
proof -
  obtain hit k where g: "cache_get (e_unicode e) (st_cache st) (partition_of e c) (semantic_core (c_request c)) (e_now e AtCacheGet) = (hit, k)"
    by fastforce
  have "\<forall>p. \<forall>x\<in>set (entries_of (st_cache st) p). header_legal (e_content_type x)" using assms by (simp add: presentable_def)
  note G = cache_get_legal [OF this, of "e_unicode e" "partition_of e c" "semantic_core (c_request c)" "e_now e AtCacheGet", unfolded g fst_conv snd_conv]
  have k: "presentable (st\<lparr>st_cache := k\<rparr>)" using assms G(2) by (simp add: presentable_def)
  have nt: "header_legal (''would-hit; similarity='' @ f64_fixed 3 x @ ''; saved=$'' @ f64_fixed 6 y)" for x y
    by (simp add: header_legal_Cons header_byte_def)
  show ?thesis
    using assms G(1) k nt unfolding cache_gate_def Let_def g prod.case
    by (cases hit; cases "cache_mode (st_cache st)") (simp_all add: legal_call_def del: append_Cons)
qed

lemma policy_gate_replies:
  assumes "on_course c st"
  shows "stage_ok replied on_course (policy_gate e c st)"
proof -
  have v: "pred_option header_legal (violated (evaluate (st_policy st) sn k))" for sn k
    using first_violation_legal by (cases "first_violation (st_policy st) sn k") (auto simp: evaluate_def Let_def)
  have l: "pred_option header_legal (loop_reason e st' c hs)" for st' hs
    using loop_reason_legal by (cases "loop_reason e st' c hs") auto
  have w: "legal_call (c\<lparr>c_estimate := k, c_snapshot := sn, c_would_block := (case violated ev of Some r \<Rightarrow> Some r | None \<Rightarrow> loop_reason e st' c hs)\<rparr>)"
    if "pred_option header_legal (violated ev)" for k sn ev st' hs
    using assms that l [of st' hs] by (cases "violated ev") (simp_all add: legal_call_def)
  show ?thesis
    using assms w [OF v] unfolding policy_gate_def Let_def record_input_def prod.case
    by (simp add: replied_breaker)
qed

lemma taint_step_replies:
  assumes "\<forall>v. list_all visible_ascii v \<longrightarrow> header_legal (to_lowercase (e_unicode e) v)" "on_course c st"
  shows "stage_ok replied on_course (taint_step e c st)"
proof (cases "fw_mode (st_firewall st) = FwOff")
  case False
  define new where "new = taint_header_labels (to_lowercase (e_unicode e)) (c_headers c) \<union> labels_for_tools (tool_names_in (c_request c)) (fw_sources (st_firewall st))"
  have new: "\<forall>l\<in>new. header_legal l"
    using header_labels_legal [OF assms(1)] tool_labels_legal assms(2) by (auto simp: new_def presentable_def)
  have t: "presentable (st\<lparr>st_taint := (st_taint st)(r \<mapsto> run_labels (st_taint st) r \<union> new)\<rparr>)"
    "\<forall>l\<in>run_labels (st_taint st) r \<union> new. header_legal l" for r
    using assms(2) new by (auto simp: presentable_def run_labels_def)
  show ?thesis
    unfolding taint_step_def Let_def new_def [symmetric] accumulate_taint_def
    using False assms(2) t by (simp add: legal_call_def)
qed (use assms(2) in \<open>simp add: taint_step_def\<close>)

lemma reserved_run: "reserve L r k = (Inr v, l) \<Longrightarrow> res_run_id v = r"
  by (cases rule: reserve_cases [of L r k]) auto

text \<open>No gate ends a request without answering it, and none spoils a later answer.\<close>
lemma gates_reply:
  assumes "\<forall>t. spans_ok (e_engine e) secret_patterns t \<and> spans_ok (e_engine e) pii_patterns t"
    "\<forall>v. list_all visible_ascii v \<longrightarrow> header_legal (to_lowercase (e_unicode e) v)" "g \<in> set gates" "on_course c st"
  shows "stage_ok replied on_course (g e c st)"
proof -
  have c: "legal_call c" "presentable st" "header_legal (c_run_id c)" using assms(4) by (simp_all add: legal_call_def)
  have b: "stage_ok replied on_course (breaker_block e c k cost step b sp d s)" if "presentable s" for k cost step b sp d s
    by (rule replied_breaker [OF c(1) that])
  have "stage_ok replied on_course (identity_gate e c st)"
    using c mismatch_legal unfolding identity_gate_def
    by (fastforce simp: Let_def legal_call_def header_legal_Cons header_byte_def split: option.split StrictMode.split)
  moreover have "stage_ok replied on_course (route_call e c st)"
    using c by (simp add: route_call_def Let_def legal_call_def split: option.split)
  moreover have "stage_ok replied on_course (kill_gate e c st)" "stage_ok replied on_course (wasm_gate e c st)"
    "stage_ok replied on_course (unit_gate e c st)"
    unfolding kill_gate_def wasm_gate_def unit_gate_def using b c
    by (simp_all add: Let_def legal_call_def split: option.split prod.split sum.split Mode.split)
  moreover have "stage_ok replied on_course (budget_gate e c st)"
    unfolding budget_gate_def using b c reserved_run [of "st_ledger st" "c_run_id c"]
    by (fastforce simp: Let_def legal_call_def reserve_unchecked_def split: option.split prod.split sum.split BudgetError.split)
  moreover have "stage_ok replied on_course (wardryx_gate e c st)"
    unfolding wardryx_gate_def using c decision_wire_legal
    by (simp add: Let_def legal_call_def header_legal_Cons header_byte_def split: prod.split WardryxDecision.split)
  ultimately show ?thesis
    using dlp_gate_replies [OF assms(1,4)] cache_gate_replies [OF assms(4)] policy_gate_replies [OF assms(4)]
      taint_step_replies [OF assms(2,4)] assms(3) by (auto simp: gates_def)
qed

lemma run_gates_reply:
  "\<lbrakk>\<forall>g\<in>set gs. \<forall>c st. on_course c st \<longrightarrow> stage_ok replied on_course (g e c st); on_course c st\<rbrakk>
   \<Longrightarrow> stage_ok replied on_course (run_gates e gs c st)"
proof (induction gs arbitrary: c st)
  case (Cons g gs)
  then show ?case unfolding run_gates_Cons by (intro stage_ok_then [of _ on_course]) auto
qed simp

text \<open>A provider answer whose content type came as text.\<close>
definition typed_answer :: "ProviderResponse \<Rightarrow> bool" where
  "typed_answer p \<longleftrightarrow> pred_option header_legal (pr_content_type p)"

lemma content_type_legal: "\<lbrakk>typed_answer p; header_legal d\<rbrakk> \<Longrightarrow> header_legal (content_type_or d p)"
  by (cases "pr_content_type p") (simp_all add: typed_answer_def content_type_or_def)

lemma default_types_legal: "header_legal ''application/json''" "header_legal ''text/event-stream''"
  by (simp_all add: header_legal_Cons header_byte_def)

lemma managed_headers_legal [simp]: "legal_call c \<Longrightarrow> headers_legal (managed_headers c st)"
  by (simp add: managed_headers_def legal_call_def)

lemma trailing_headers_legal [simp]: "legal_call c \<Longrightarrow> headers_legal (trailing_headers c)"
  by (simp add: trailing_headers_def legal_call_def)

lemma firewall_replies:
  assumes "on_course c st"
  shows "stage_ok replied (\<lambda>n s. pred_option header_legal n \<and> presentable s) (firewall_verdict e c bytes st)"
proof -
  have reason: "header_legal r" if "taint_evaluate (c_labels c) requested (fw_rules (st_firewall st)) = Some r" for requested r
    using assms by (intro taint_reason_legal [OF _ _ that]) (simp_all add: legal_call_def presentable_def)
  have t: "presentable (st\<lparr>st_taint := snd (accumulate_taint (st_taint st) r (labels_for_tools tools (fw_sources (st_firewall st))))\<rparr>)" for r tools
    using assms tool_labels_legal [of "fw_sources (st_firewall st)" tools]
    by (auto simp: presentable_def accumulate_taint_def Let_def run_labels_def)
  have r: "header_legal (res_run_id (c_res c))" using assms by (simp add: legal_call_def)
  show ?thesis
    using assms r reason t unfolding firewall_verdict_def Let_def by (simp split: option.split)
qed

lemma respond_replies:
  assumes "e_body_end e \<noteq> EndDropped" "typed_answer p" "on_course c st"
  shows "stage_ok replied (\<lambda>x s. False) (respond e c p st)"
proof -
  have c: "legal_call c" "presentable st" using assms(3) by simp_all
  have lc: "header_legal (res_run_id (c_res c))" "pred_option header_legal (c_would_block c)" "pred_option header_legal (c_cache_note c)"
    using c(1) by (simp_all add: legal_call_def)
  note ct = content_type_legal [OF assms(2) default_types_legal(1)] content_type_legal [OF assms(2) default_types_legal(2)]
  have lit: "header_legal ''managed''" "header_legal ''passthrough''" "header_legal ''known''" "header_legal ''fallback''"
    by (simp_all add: header_legal_Cons header_byte_def)
  have put: "presentable (s\<lparr>st_cache := cache_put (e_unicode e) (st_cache s) q core bytes (content_type_or ''application/json'' p) a t\<rparr>)"
    if "presentable s" for s q core bytes a t
    using that ct(1) last_n_subset
    by (fastforce simp: presentable_def entries_put mk_entry_def)
  have taint: "pred_option header_legal (map_option ((@) ''would-block: '') n)" if "pred_option header_legal n" for n
    using that by (cases n) (simp_all add: header_legal_Cons header_byte_def)
  show ?thesis
  proof (cases "c_stream c")
    case True
    have "presentable (st\<lparr>st_ledger := a, st_units := b, st_sink := d\<rparr>)" for a b d using c(2) by (simp add: presentable_def)
    then show ?thesis
      unfolding respond_def if_P [OF True] stream_managed_def Let_def stage_ok_reply replied_built
      using c ct lc lit by simp
  next
    case False
    show ?thesis
    proof (cases "e_body_end e")
      case EndOk
      have fv: "stage_ok replied (\<lambda>n s. pred_option header_legal n \<and> presentable s) (firewall_verdict e c bytes s)" if "presentable s" for bytes s
        using firewall_replies c(1) that by blast
      show ?thesis
        unfolding respond_def if_not_P [OF False] buffered_managed_def EndOk BodyEnd.case Let_def
        by (rule stage_ok_then, rule fv) (use c ct lc lit put taint in \<open>simp_all split: option.split\<close>)
    qed (use False assms(1) c in \<open>simp_all add: respond_def buffered_managed_def\<close>)
  qed
qed

text \<open>The hypotheses on the libraries: the matches of the pattern engine lie on character boundaries,
  lower-casing visible ASCII gives a legal header value, the provider call returns (a response or an
  error) with a content type that is a header value, and a buffered answer is not abandoned.\<close>
definition libraries_ok :: "Env \<Rightarrow> bool" where
  "libraries_ok e \<longleftrightarrow> (\<forall>t. spans_ok (e_engine e) secret_patterns t \<and> spans_ok (e_engine e) pii_patterns t)
     \<and> (\<forall>v. list_all visible_ascii v \<longrightarrow> header_legal (to_lowercase (e_unicode e) v))
     \<and> (\<forall>h b. \<exists>x. e_send e h b = Some x \<and> (\<forall>p. x = Inr p \<longrightarrow> typed_answer p)) \<and> e_body_end e \<noteq> EndDropped"

lemma messages_reply:
  assumes lib: "libraries_ok e" and st: "presentable st"
  shows "stage_ok replied (\<lambda>x s. False) (messages e h b st)"
proof -
  have eng: "\<forall>t. spans_ok (e_engine e) secret_patterns t \<and> spans_ok (e_engine e) pii_patterns t"
    and low: "\<forall>v. list_all visible_ascii v \<longrightarrow> header_legal (to_lowercase (e_unicode e) v)"
    and snd: "\<exists>x. e_send e h b = Some x \<and> (\<forall>p. x = Inr p \<longrightarrow> typed_answer p)" and be: "e_body_end e \<noteq> EndDropped" for h b
    using lib by (auto simp: libraries_ok_def)
  have fwd: "stage_ok replied (\<lambda>x s. False) (stage_then (forward e c) (respond e c) s)" if "on_course c s" for c s
  proof (rule stage_ok_then [of _ "\<lambda>p s. typed_answer p \<and> presentable s"])
    obtain x where x: "e_send e (c_headers c) (c_body c) = Some x" "\<forall>p. x = Inr p \<longrightarrow> typed_answer p" using snd by blast
    show "stage_ok replied (\<lambda>p s. typed_answer p \<and> presentable s) (forward e c s)"
      using that x by (cases x) (auto simp: forward_def send_def)
    show "stage_ok replied (\<lambda>x s. False) (respond e c p s')" if "typed_answer p \<and> presentable s'" for p s'
      using respond_replies [OF be] that \<open>on_course c s\<close> by blast
  qed
  have un: "stage_ok replied (\<lambda>x s. False) (unmanaged e h b s :: (HttpResponse option + HttpResponse) \<times> AppState)" if "presentable s" for s
  proof -
    obtain x where x: "e_send e h b = Some x" "\<forall>p. x = Inr p \<longrightarrow> typed_answer p" using snd by blast
    have "header_legal (content_type_or ''application/json'' p)" if "x = Inr p" for p
      using x(2) that content_type_legal [OF _ default_types_legal(1)] by blast
    then show ?thesis using that x(1)
      by (cases x) (simp_all add: unmanaged_def send_def passthrough_response_def header_legal_Cons header_byte_def)
  qed
  have man: "stage_ok replied (\<lambda>x s. False) (managed e h b q key r s)"
    if "presentable s" "header_str h ''x-fuse-run-id'' = Some r" for q key r s
    unfolding managed_def
  proof (rule stage_ok_then [of _ on_course])
    show "stage_ok replied on_course (open_call e h b q key r s)"
      using that header_str_legal [OF that(2)] by (simp add: open_call_def Let_def new_call_def legal_call_def)
    have "\<forall>g\<in>set gates. \<forall>c s. on_course c s \<longrightarrow> stage_ok replied on_course (g e c s)"
      using gates_reply [OF eng low] by blast
    then show "stage_ok replied (\<lambda>x s. False) (stage_then (run_gates e gates c) (\<lambda>c. stage_then (forward e c) (respond e c)) s)"
      if "on_course c s" for c s
      using that by (intro stage_ok_then [OF run_gates_reply fwd])
  qed
  show ?thesis unfolding messages_def
  proof (rule stage_ok_then [of _ "\<lambda>x. presentable"])
    show "stage_ok replied (\<lambda>x. presentable) (admit e h st)"
      using st by (simp add: admit_def unauthorized_def split: option.split)
  qed (use un man in \<open>simp add: Let_def split: option.split\<close>)
qed

text \<open>C36: Every request gets a response, from every state the gateway can be in: neither \<open>redact\<close> nor
  the response builder, which panics on a header value that is not legal, can fail on what the path
  hands them.  The state's part is an invariant: the content types in the cache, the labels of the
  runs and the tables of the firewall are legal header values; a gateway starts so
  (\<open>started_presentable\<close> in \<open>GatewayMain\<close>), and every request leaves them so.
  The libraries are taken to behave as documented (\<open>libraries_ok\<close>).\<close>
theorem every_request_answered:
  assumes "libraries_ok e" "presentable st"
  shows "\<exists>resp st'. messages e h b st = (Inl (Some resp), st') \<and> presentable st'"
  using messages_reply [OF assms, of h b] by (cases "messages e h b st") (auto simp: stage_ok_def replied_def split: sum.splits)

section \<open>A concrete request\<close>

text \<open>One enforced, buffered call of 2 bytes for an unnamed run-of-the-mill model: the body ends as
  \<open>be\<close> says, the provider reports no usage.\<close>
definition demo_env :: "BodyEnd \<Rightarrow> Env" where
  "demo_env be = \<lparr> e_engine = (\<lambda>_ _. []), e_unicode = \<lparr> is_alphanumeric = (\<lambda>_. True), to_lowercase = id \<rparr>, e_hasher = (\<lambda>_. 0),
     e_serde = \<lparr> sha256 = id, quote_str = id, ryu = (\<lambda>_. ''''), print_json = (\<lambda>_. ''''), parse_json = (\<lambda>_. None) \<rparr>,
     e_parse_f64 = (\<lambda>_. None), e_parse_url = (\<lambda>_. None), e_signature = (\<lambda>_ _. 0), e_now = (\<lambda>_. 0), e_instant = (0, 0),
     e_write = WriteOk, e_pdp = (\<lambda>_ _. undefined),
     e_send = (\<lambda>_ _. Some (Inr \<lparr> pr_status = 200, pr_content_type = None, pr_chunks = [''ok''] \<rparr>)), e_body_end = be, e_usage = None \<rparr>"

definition demo_headers :: HeaderMap where
  "demo_headers = [''x-fuse-run-id'' \<mapsto> ''r'']"

definition demo_book :: PriceBook where
  "demo_book = with_price ''unknown'' demo_price pricebook_new"

definition demo_app :: AppState where
  "demo_app = app_new ledger_new demo_book (Policy_default\<lparr>mode := Enforce\<rparr>) ''p'' (\<lambda>_. [])"

lemma demo_header: "header_str demo_headers n = (if n = ''x-fuse-run-id'' then Some ''r'' else None)"
  by (simp add: header_str_def demo_headers_def visible_ascii_def)

lemma demo_key: "resolve_client_key demo_app h = Some []"
  by (simp add: resolve_client_key_def demo_app_def app_new_def keys_enabled_def ClientKeys_default_def)

lemma demo_estimate: "estimate_cost demo_book ''unknown'' 2 None = Some 17664"
proof -
  have "model_cost demo_price (estimate_usage 2 None) = 15360"
    by (simp add: model_cost_def cost_part_def tdiv_def demo_price_def estimate_usage_def Usage_default_def
        CHARS_PER_TOKEN_def DEFAULT_MAX_TOKENS_def wrap_i64_within)
  then show ?thesis
    by (simp add: estimate_cost_def book_cost_def demo_book_def with_price_def book_price_insert apply_margin_exact)
qed

definition demo_call :: Call where
  "demo_call = opened_call (demo_env EndOk) demo_headers ''{}'' [] ''r'' demo_app"

lemma demo_request: "request_json (demo_env be) b = JNull"
  by (simp add: request_json_def demo_env_def)

lemma demo_parsed: "parse_request JNull = \<lparr> p_model = ''unknown'', p_max_tokens = None, p_stream = False \<rparr>"
  by (simp add: parse_request_def get_str_def get_then_def json_get_def)

lemma demo_env_sel [simp]:
  "e_now (demo_env be) x = 0" "e_parse_f64 (demo_env be) = (\<lambda>_. None)" "e_body_end (demo_env be) = be" "e_usage (demo_env be) = None"
  "e_send (demo_env be) h b = Some (Inr \<lparr> pr_status = 200, pr_content_type = None, pr_chunks = [''ok''] \<rparr>)"
  by (simp_all add: demo_env_def)

lemma demo_app_sel [simp]:
  "st_cloud_budgets demo_app r = None" "st_policy demo_app = Policy_default\<lparr>mode := Enforce\<rparr>" "st_ledger demo_app = Map.empty"
  "st_prices demo_app = demo_book" "st_sent demo_app = []" "st_sink demo_app = []" "st_killed demo_app = {}"
  "st_dlp_pii demo_app = DlpOff" "st_identity demo_app = IdentityMap_default" "st_wardryx demo_app = wardryx_disabled"
  "st_identity_strict demo_app = StrictOff" "st_units demo_app = unit_ledger_new Map.empty"
  "st_router demo_app = router_disabled" "st_dlp demo_app = DlpOff" "st_firewall demo_app = firewall_disabled"
  "st_wasm demo_app = None" "st_history demo_app = Map.empty"
  by (simp_all add: demo_app_def app_new_def ledger_new_def)

lemma demo_budget: "run_budget (demo_env be) demo_app demo_headers r = 5000000"
  by (simp add: run_budget_def cloud_budget_def demo_header header_f64_def Policy_default_def DEFAULT_RUN_BUDGET_def)

lemma demo_opened_call: "opened_call (demo_env be) demo_headers ''{}'' [] ''r'' demo_app = demo_call"
  unfolding demo_call_def opened_call_def new_call_def Let_def run_budget_admitted demo_budget demo_request by (simp add: admitted_state_def)

lemma demo_opened: "opened_ledger (demo_env be) demo_app demo_headers ''r'' = [''r'' \<mapsto> fresh_run 5000000 None]"
  by (simp add: opened_ledger_def demo_budget demo_header open_run_def)

text \<open>With every optional feature off, the gates change the call only where the budget is concerned.\<close>
lemma demo_gates:
  "\<exists>c s. run_gates (demo_env be) gates demo_call (opened_state (demo_env be) demo_headers [] ''r'' demo_app) = (Inr c, s)
     \<and> st_sent s = [] \<and> \<not> c_stream c \<and> fw_mode (st_firewall s) = FwOff \<and> c_headers c = demo_headers \<and> c_body c = ''{}''"
proof -
  let ?s = "opened_state (demo_env be) demo_headers [] ''r'' demo_app" and ?e = "demo_env be"
  have conf: "st_identity ?s = IdentityMap_default" "st_router ?s = router_disabled" "st_dlp ?s = DlpOff" "st_dlp_pii ?s = DlpOff"
    "st_cache ?s = cache_new (\<lambda>_. []) CacheConfig_default" "st_wasm ?s = None" "st_wardryx ?s = wardryx_disabled" "st_firewall ?s = firewall_disabled"
    "st_history ?s = Map.empty"
    by (simp_all add: opened_state_def admitted_state_def demo_app_def app_new_def)
  have call: "c_unit demo_call = []" "c_model demo_call = ''unknown''" "c_body demo_call = ''{}''" "c_max_tokens demo_call = None"
    "c_run_id demo_call = ''r''" "c_stream demo_call = False" "c_key_id demo_call = []"
    "c_headers demo_call = demo_headers"
    by (simp_all add: demo_call_def demo_parsed demo_request demo_header identity_resolve_def IdentityMap_default_def prefix_resolution_def or_blank_def)
  define c6 where "c6 = demo_call\<lparr>c_estimate := 17664, c_snapshot := snap (fresh_run 5000000 None), c_would_block := None\<rparr>"
  define s6 where "s6 = ?s\<lparr>st_history := [''r'' \<mapsto> [0]]\<rparr>"
  have est: "estimate_of demo_app demo_call = 17664" by (simp add: estimate_of_def call demo_estimate [unfolded numeral_2_eq_2])
  have g: "identity_gate ?e demo_call ?s = (Inr demo_call, ?s)" "route_call ?e demo_call ?s = (Inr demo_call, ?s)"
    "kill_gate ?e demo_call ?s = (Inr demo_call, ?s)" "dlp_gate ?e demo_call ?s = (Inr demo_call, ?s)"
    "cache_gate ?e demo_call ?s = (Inr demo_call, ?s)"
    by (simp_all add: identity_gate_def route_call_def kill_gate_def dlp_gate_def cache_gate_def conf call identity_resolve_def
        IdentityMap_default_def prefix_resolution_def continue_def is_killed_def router_disabled_def router_new_def cache_new_def
        cache_mode_def CacheConfig_default_def)
  have g6: "policy_gate ?e demo_call ?s = (Inr c6, s6)"
    by (simp add: policy_gate_def est call demo_opened snapshot_def evaluate_def first_violation_def Policy_default_def record_input_def conf
        last_n_def MAX_HISTORY_def loop_reason_def anomaly_is_empty_def AnomalyConfig_default_def is_blocking_def continue_def c6_def s6_def Let_def)
  have g7: "wasm_gate ?e c6 s6 = (Inr c6, s6)" "wardryx_gate ?e c6 s6 = (Inr c6, s6)" "unit_gate ?e c6 s6 = (Inr c6, s6)"
    by (simp_all add: wasm_gate_def wardryx_gate_def unit_gate_def s6_def c6_def conf call wardryx_disabled_def continue_def)
  have ch: "chain (st_ledger s6) ''r'' = [''r'']"
    by (simp add: s6_def demo_opened chain_def chain_loop.simps)
  have "level_exceeded (st_ledger s6) 17664 ''r'' = None" by (simp add: s6_def demo_opened level_ok_iff wrap_i64_within)
  then have "reserve (st_ledger s6) ''r'' 17664 = (Inr (reservation_for (apply_reserve (st_ledger s6) ''r'' 17664) ''r'' 17664), apply_reserve (st_ledger s6) ''r'' 17664)"
    unfolding reserve_def ch by (simp add: s6_def demo_opened Let_def)
  then obtain v l where g8: "budget_gate ?e c6 s6 = (Inr (c6\<lparr>c_res := v\<rparr>), s6\<lparr>st_ledger := l\<rparr>)"
    by (simp add: budget_gate_def c6_def s6_def call continue_def)
  have g9: "taint_step ?e (c6\<lparr>c_res := v\<rparr>) (s6\<lparr>st_ledger := l\<rparr>) = (Inr (c6\<lparr>c_res := v\<rparr>), s6\<lparr>st_ledger := l\<rparr>)"
    by (simp add: taint_step_def s6_def conf firewall_disabled_def continue_def)
  have "run_gates ?e gates demo_call ?s = (Inr (c6\<lparr>c_res := v\<rparr>), s6\<lparr>st_ledger := l\<rparr>)"
    unfolding gates_def by (simp add: run_gates_def stage_then_def g g6 g7 g8 g9 continue_def)
  then show ?thesis by (simp add: c6_def s6_def call conf firewall_disabled_def)
qed

lemma demo_presentable: "presentable demo_app"
  by (simp add: presentable_def demo_app_def app_new_def cache_new_def entries_of_def run_labels_def firewall_disabled_def)

lemma demo_libraries: "libraries_ok (demo_env EndOk)"
  by (simp add: libraries_ok_def demo_env_def spans_ok_def matches_def list_all_iff case_prod_beta typed_answer_def)
    (auto simp: header_legal_def list_all_iff visible_header_byte)

text \<open>The concrete request answered, and the same request dropped while its answer is awaited.\<close>
lemma demo_messages:
  "\<exists>resp s. messages (demo_env EndOk) demo_headers ''{}'' demo_app = (Inl (Some resp), s) \<and> st_sent s = [(demo_headers, ''{}'')]"
  "\<exists>s. messages (demo_env EndDropped) demo_headers ''{}'' demo_app = (Inl None, s) \<and> st_sent s = [(demo_headers, ''{}'')]"
proof -
  have run: "messages (demo_env be) demo_headers ''{}'' demo_app =
      stage_then (run_gates (demo_env be) gates demo_call) (\<lambda>c. stage_then (forward (demo_env be) c) (respond (demo_env be) c))
        (opened_state (demo_env be) demo_headers [] ''r'' demo_app)" for be
    by (simp add: messages_managed [of _ "''r''" _ "[]"] demo_header demo_key demo_opened_call)
  obtain c s where 1: "run_gates (demo_env EndOk) gates demo_call (opened_state (demo_env EndOk) demo_headers [] ''r'' demo_app) = (Inr c, s)"
    "st_sent s = []" "\<not> c_stream c" "fw_mode (st_firewall s) = FwOff" "c_headers c = demo_headers" "c_body c = ''{}''"
    using demo_gates [of EndOk] by blast
  then have "\<exists>r s. messages (demo_env EndOk) demo_headers ''{}'' demo_app = (Inl r, s) \<and> st_sent s = [(demo_headers, ''{}'')]"
    by (simp add: run stage_then_def forward_def send_def continue_def respond_def buffered_managed_def Let_def firewall_verdict_def
        settle_call_def settle_unit_def sink_record_def reply_def split: option.split)
  then show "\<exists>resp s. messages (demo_env EndOk) demo_headers ''{}'' demo_app = (Inl (Some resp), s) \<and> st_sent s = [(demo_headers, ''{}'')]"
    using messages_reply [OF demo_libraries demo_presentable, of demo_headers "''{}''"] by (auto simp: stage_ok_def replied_def)
  obtain c s where 2: "run_gates (demo_env EndDropped) gates demo_call (opened_state (demo_env EndDropped) demo_headers [] ''r'' demo_app) = (Inr c, s)"
    "st_sent s = []" "\<not> c_stream c" "c_headers c = demo_headers" "c_body c = ''{}''"
    using demo_gates [of EndDropped] by blast
  then show "\<exists>s. messages (demo_env EndDropped) demo_headers ''{}'' demo_app = (Inl None, s) \<and> st_sent s = [(demo_headers, ''{}'')]"
    by (simp add: run stage_then_def forward_def send_def continue_def respond_def buffered_managed_def)
qed

theorem provider_behind_every_gate_witness:
  "\<exists>(c :: Call) v l. c_run_id c = ''r'' \<and> c_unit c = [] \<and> c_model c = ''unknown''
     \<and> reserve (opened_ledger (demo_env EndOk) demo_app demo_headers ''r'') ''r'' (c_estimate c) = (Inr v, l)"
proof -
  obtain resp s where run: "messages (demo_env EndOk) demo_headers ''{}'' demo_app = (Inl (Some resp), s)" "st_sent s \<noteq> st_sent demo_app"
    using demo_messages(1) by auto
  have h: "header_str demo_headers ''x-fuse-run-id'' = Some ''r''" by (simp add: demo_header)
  have m: "mode (st_policy demo_app) = Enforce" "r_mode (st_router demo_app) \<noteq> ROn"
    by (simp_all add: router_disabled_def router_new_def)
  have u: "or_blank (res_unit (identity_resolve IdentityMap_default [] a)) = []" for a
    by (simp add: identity_resolve_def IdentityMap_default_def prefix_resolution_def or_blank_def)
  obtain c where c: "same_caller (opened_call (demo_env EndOk) demo_headers ''{}'' [] ''r'' demo_app) c"
    "c_unit c = or_blank (res_unit (identity_resolve (st_identity demo_app) [] (c_agent_id c)))"
    "c_model c = p_model (parse_request (request_json (demo_env EndOk) ''{}''))"
    "\<exists>v l. reserve (opened_ledger (demo_env EndOk) demo_app demo_headers ''r'') ''r'' (c_estimate c) = (Inr v, l)"
    using provider_behind_every_gate [OF h run] m unfolding demo_key option.inject by blast
  then have "c_run_id c = ''r'' \<and> c_unit c = [] \<and> c_model c = ''unknown''"
    by (simp add: same_caller_def u demo_request demo_parsed)
  then show ?thesis using c(4) by blast
qed

theorem answered_request_balances_witness:
  "\<exists>resp s rows. messages (demo_env EndOk) demo_headers ''{}'' demo_app = (Inl (Some resp), s) \<and> st_sink s = rows
     \<and> st_ledger s ''r'' = Some ((fresh_run 5000000 None)\<lparr>rs_spent := wrap_i64 (allowed_cost rows), rs_steps := 1\<rparr>)"
proof -
  obtain resp s where run: "messages (demo_env EndOk) demo_headers ''{}'' demo_app = (Inl (Some resp), s)" "st_sent s = [(demo_headers, ''{}'')]"
    using demo_messages(1) by auto
  have h: "header_str demo_headers ''x-fuse-run-id'' = Some ''r''" by (simp add: demo_header)
  have other: "estimate_cost demo_book m n t = None" if "m \<noteq> ''unknown''" for m n t
    using that by (simp add: estimate_cost_def book_cost_def demo_book_def with_price_def book_price_def pricebook_insert_def pricebook_new_def)
  have est: "\<bar>case estimate_cost demo_book m (length body) (p_max_tokens (parse_request (request_json (demo_env EndOk) ''{}''))) of Some x \<Rightarrow> x | None \<Rightarrow> 0\<bar> \<le> headroom"
    if "(demo_headers, body) \<in> set (drop (length (st_sent demo_app)) (st_sent s))" for body m
    using that run(2) other [of m] demo_estimate by (cases "m = ''unknown''") (auto simp: demo_request demo_parsed headroom_def numeral_2_eq_2)
  have ch: "chain [''r'' \<mapsto> fresh_run 5000000 None] ''r'' = [''r'']" by (simp add: chain_def chain_loop.simps)
  have known: "resolve_client_key demo_app demo_headers \<noteq> None" by (simp add: demo_key)
  have fresh: "\<forall>x s. st_ledger demo_app x = Some s \<longrightarrow> 0 \<le> rs_reserved s \<and> rs_reserved s \<le> headroom \<and> wrap_i64 (rs_spent s) = rs_spent s"
    by simp
  have est': "\<forall>body m. (demo_headers, body) \<in> set (drop (length (st_sent demo_app)) (st_sent s)) \<longrightarrow>
      \<bar>case estimate_cost (st_prices demo_app) m (length body) (p_max_tokens (parse_request (request_json (demo_env EndOk) ''{}''))) of Some x \<Rightarrow> x | None \<Rightarrow> 0\<bar> \<le> headroom"
    using est by simp
  obtain rows where "st_sink s = rows" "\<forall>x t. opened_ledger (demo_env EndOk) demo_app demo_headers ''r'' x = Some t \<longrightarrow> st_ledger s x = Some (t\<lparr>
      rs_spent := (if x \<in> set (chain (opened_ledger (demo_env EndOk) demo_app demo_headers ''r'') ''r'') then wrap_i64 (rs_spent t + allowed_cost rows) else rs_spent t),
      rs_steps := (if x = ''r'' \<and> st_sent s \<noteq> st_sent demo_app then wrap_u32 (rs_steps t + 1) else rs_steps t)\<rparr>)"
    using answered_request_balances [OF h known run(1) fresh est'] by fastforce
  then have "st_ledger s ''r'' = Some ((fresh_run 5000000 None)\<lparr>rs_spent := wrap_i64 (allowed_cost (st_sink s)), rs_steps := 1\<rparr>)"
    using run(2) by (simp add: demo_opened ch wrap_u32_def)
  then show ?thesis using run(1) by blast
qed

theorem dropped_call_keeps_reservation_witness:
  "\<exists>s x est. messages (demo_env EndDropped) demo_headers ''{}'' demo_app = (Inl None, s) \<and> st_sink s = []
     \<and> st_ledger s ''r'' = Some x \<and> rs_reserved x = wrap_i64 est \<and> rs_spent x = 0"
proof -
  obtain s where run: "messages (demo_env EndDropped) demo_headers ''{}'' demo_app = (Inl None, s)" "st_sent s \<noteq> st_sent demo_app"
    using demo_messages(2) by auto
  have h: "header_str demo_headers ''x-fuse-run-id'' = Some ''r''" by (simp add: demo_header)
  have b: "\<not> p_stream (parse_request (request_json (demo_env EndDropped) ''{}''))" "e_body_end (demo_env EndDropped) = EndDropped"
    by (simp_all add: demo_request demo_parsed)
  have ch: "chain [''r'' \<mapsto> fresh_run 5000000 None] ''r'' = [''r'']" by (simp add: chain_def chain_loop.simps)
  show ?thesis using dropped_call_keeps_reservation [OF h _ run b] run(1) by (simp add: demo_key demo_opened ch) blast
qed

theorem answered_request_rows_witness:
  "\<exists>resp s c cost. messages (demo_env EndOk) demo_headers ''{}'' demo_app = (Inl (Some resp), s)
     \<and> c_run_id c = ''r'' \<and> st_sent s = [(demo_headers, c_body c)] \<and> answered (demo_env EndOk) demo_app c resp cost (st_sink s)"
proof -
  obtain resp s where run: "messages (demo_env EndOk) demo_headers ''{}'' demo_app = (Inl (Some resp), s)" "st_sent s \<noteq> []"
    using demo_messages(1) by auto
  have h: "header_str demo_headers ''x-fuse-run-id'' = Some ''r''" by (simp add: demo_header)
  have sent: "st_sent s \<noteq> st_sent demo_app" using run(2) by simp
  obtain c rows cost where "st_sink s = rows" "along (demo_env EndOk) (opened_call (demo_env EndOk) demo_headers ''{}'' [] ''r'' demo_app) demo_app c"
    "st_sent s = [(demo_headers, c_body c)]" "answered (demo_env EndOk) demo_app c resp cost rows"
    using answered_request_rows [OF h demo_key run(1)] unfolding if_not_P [OF sent] unfolding demo_app_sel append_Nil
    by (elim exE conjE) (rule that, assumption+)
  moreover from this(2) have "c_run_id c = ''r''" by (simp add: along_def same_caller_def)
  ultimately show ?thesis using run(1) by blast
qed

theorem every_request_answered_witness:
  "\<exists>resp s. messages (demo_env EndOk) demo_headers ''{}'' demo_app = (Inl (Some resp), s) \<and> presentable s"
  by (rule every_request_answered [OF demo_libraries demo_presentable])

end
