(* ===== verification/OrdMap.thy ===== *)
theory OrdMap
  imports Prelude "HOL-Library.Finite_Map" "HOL-Library.List_Lexorder" "HOL-Library.Char_ord" "HOL-Library.Option_ord"
begin

text \<open>
  Finite maps walked in the order of their keys: a \<open>BTreeMap\<close> is one, and a
  \<open>HashMap\<close> the code iterates over is visited in this order too.
\<close>

definition fm_keys :: "('k::linorder, 'v) fmap \<Rightarrow> 'k list" where
  "fm_keys m = sorted_list_of_fset (fmdom m)"

definition fm_items :: "('k::linorder, 'v) fmap \<Rightarrow> ('k \<times> 'v) list" where
  "fm_items m = map (\<lambda>k. (k, the (fmlookup m k))) (fm_keys m)"

definition fm_values :: "('k::linorder, 'v) fmap \<Rightarrow> 'v list" where
  "fm_values m = map (\<lambda>k. the (fmlookup m k)) (fm_keys m)"

definition fm_len :: "('k, 'v) fmap \<Rightarrow> nat" where
  "fm_len m = fcard (fmdom m)"

lemma set_fm_keys [simp]: "set (fm_keys m) = fset (fmdom m)"
  by (simp add: fm_keys_def sorted_list_of_fset.rep_eq)

lemma distinct_fm_keys [simp]: "distinct (fm_keys m)"
  by (simp add: fm_keys_def sorted_list_of_fset.rep_eq)

lemma sorted_fm_keys [simp]: "sorted (fm_keys m)"
  by (simp add: fm_keys_def sorted_list_of_fset.rep_eq)

lemma fm_len_card: "fm_len m = card (fset (fmdom m))"
  by (simp add: fm_len_def fcard.rep_eq)

lemma fm_values_mem: "v \<in> set (fm_values m) \<longleftrightarrow> (\<exists>k. fmlookup m k = Some v)"
  by (auto simp: fm_values_def fmlookup_dom_iff image_iff) (metis fmdomI fmlookup_dom_iff option.sel)

lemma fm_items_mem: "(k, v) \<in> set (fm_items m) \<longleftrightarrow> fmlookup m k = Some v"
  by (auto simp: fm_items_def fmlookup_dom_iff image_iff)

lemma map_fst_fm_items [simp]: "map fst (fm_items m) = fm_keys m"
  by (simp add: fm_items_def comp_def)

text \<open>\<open>entry(k).or_default()\<close>, then an update in place.\<close>
definition fm_entry :: "'v \<Rightarrow> 'k \<Rightarrow> ('k, 'v) fmap \<Rightarrow> 'v" where
  "fm_entry d k m = (case fmlookup m k of Some v \<Rightarrow> v | None \<Rightarrow> d)"

section \<open>Sorted association lists\<close>

text \<open>\<open>BTreeMap::insert\<close> and \<open>remove\<close> on the sorted entries.\<close>
fun bt_insert :: "'a::linorder \<Rightarrow> 'b \<Rightarrow> ('a \<times> 'b) list \<Rightarrow> ('a \<times> 'b) list" where
  "bt_insert k v [] = [(k, v)]"
| "bt_insert k v ((x, w) # xs) =
     (if k < x then (k, v) # (x, w) # xs else if k = x then (k, v) # xs else (x, w) # bt_insert k v xs)"

definition bt_remove :: "'a \<Rightarrow> ('a \<times> 'b) list \<Rightarrow> ('a \<times> 'b) list" where
  "bt_remove k xs = filter (\<lambda>e. fst e \<noteq> k) xs"

end
