(* ===== verification/Recency.thy ===== *)
theory Recency
  imports OrdMap
begin

text \<open>
  The least-recently-used index of the control plane (\<open>RecencyIndex\<close> in
  \<open>crates/cloud/src/store.rs\<close>) and its contract: a duplicate-free list of keys,
  oldest first.  The \<open>BTreeMap\<close> from sequence numbers is its sorted association
  list, the \<open>HashMap\<close> from keys a partial function.  The locale \<open>lru\<close> states what
  the maps it bounds rely on; the facts about bounded maps are proved inside it.
\<close>

section \<open>The index\<close>

record 'k RecencyIndex =
  by_seq :: "(u64 \<times> 'k) list"
  seq_of :: "'k \<rightharpoonup> u64"
  next_seq :: u64

definition recency_default :: "'k RecencyIndex" where
  "recency_default = \<lparr> by_seq = [], seq_of = Map.empty, next_seq = 0 \<rparr>"

text \<open>The counter is a \<open>u64\<close>; it would take 2^64 touches to wrap, which no execution reaches.\<close>
definition touch :: "'k \<Rightarrow> 'k RecencyIndex \<Rightarrow> 'k RecencyIndex" where
  "touch k r =
     (let by = (case seq_of r k of Some old \<Rightarrow> bt_remove old (by_seq r) | None \<Rightarrow> by_seq r); sq = next_seq r in
      \<lparr> by_seq = bt_insert sq k by, seq_of = (seq_of r)(k \<mapsto> sq), next_seq = sq + 1 \<rparr>)"

definition evict_at :: "u64 \<times> 'k \<Rightarrow> 'k RecencyIndex \<Rightarrow> 'k option \<times> 'k RecencyIndex" where
  "evict_at e r = (Some (snd e), r\<lparr>by_seq := bt_remove (fst e) (by_seq r), seq_of := (seq_of r)(snd e := None)\<rparr>)"

definition evict_oldest :: "'k RecencyIndex \<Rightarrow> 'k option \<times> 'k RecencyIndex" where
  "evict_oldest r = (case by_seq r of [] \<Rightarrow> (None, r) | e # _ \<Rightarrow> evict_at e r)"

definition evict_oldest_unprotected :: "('k \<Rightarrow> bool) \<Rightarrow> 'k RecencyIndex \<Rightarrow> 'k option \<times> 'k RecencyIndex" where
  "evict_oldest_unprotected protected r =
     (case List.find (\<lambda>e. \<not> protected (snd e)) (by_seq r) of
        Some e \<Rightarrow> evict_at e r
      | None \<Rightarrow> (case by_seq r of [] \<Rightarrow> (None, r) | e # _ \<Rightarrow> evict_at e r))"

section \<open>The contract\<close>

text \<open>The key a scan from the oldest end gives up: the first unprotected one, else the oldest.\<close>
definition victim :: "('k \<Rightarrow> bool) \<Rightarrow> 'k list \<Rightarrow> 'k option" where
  "victim p xs = (case List.find (\<lambda>k. \<not> p k) xs of Some k \<Rightarrow> Some k | None \<Rightarrow> (case xs of [] \<Rightarrow> None | x # _ \<Rightarrow> Some x))"

lemma find_SomeD: "List.find P xs = Some x \<Longrightarrow> x \<in> set xs \<and> P x"
  by (metis find_Some_iff nth_mem)

lemma victim_None [simp]: "victim p xs = None \<longleftrightarrow> xs = []"
  by (auto simp: victim_def find_None_iff split: option.splits list.splits)

lemma victim_mem: "victim p xs = Some k \<Longrightarrow> k \<in> set xs"
  by (auto simp: victim_def dest: find_SomeD split: option.splits list.splits)

lemma victim_unprotected: "\<lbrakk>victim p xs = Some k; p k; x \<in> set xs\<rbrakk> \<Longrightarrow> p x"
  by (auto simp: victim_def find_None_iff dest: find_SomeD split: option.splits list.splits)

locale lru =
  fixes tch :: "'k \<Rightarrow> 'r \<Rightarrow> 'r"
    and evict :: "('k \<Rightarrow> bool) \<Rightarrow> 'r \<Rightarrow> 'k option \<times> 'r"
    and order :: "'r \<Rightarrow> 'k list"
    and ok :: "'r \<Rightarrow> bool"
  assumes ok_touch: "ok r \<Longrightarrow> ok (tch k r)"
    and order_touch: "ok r \<Longrightarrow> order (tch k r) = filter (\<lambda>x. x \<noteq> k) (order r) @ [k]"
    and order_distinct: "ok r \<Longrightarrow> distinct (order r)"
    and evict_victim: "ok r \<Longrightarrow> fst (evict p r) = victim p (order r)"
    and evict_order: "\<lbrakk>ok r; fst (evict p r) = Some k\<rbrakk> \<Longrightarrow> order (snd (evict p r)) = filter (\<lambda>x. x \<noteq> k) (order r)"
    and ok_evict: "ok r \<Longrightarrow> ok (snd (evict p r))"
    and evict_none: "\<lbrakk>ok r; fst (evict p r) = None\<rbrakk> \<Longrightarrow> snd (evict p r) = r"
begin

text \<open>The index and the key set of the map it bounds are in lock-step, and the map is within its cap.\<close>
definition bounds :: "nat \<Rightarrow> 'r \<Rightarrow> 'k set \<Rightarrow> bool" where
  "bounds cap r K \<longleftrightarrow> ok r \<and> set (order r) = K \<and> finite K \<and> card K \<le> cap"

lemma set_touch: "ok r \<Longrightarrow> set (order (tch k r)) = insert k (set (order r))"
  by (auto simp: order_touch)

lemma touch_bounds: "\<lbrakk>bounds cap r K; k \<in> K \<or> card K < cap\<rbrakk> \<Longrightarrow> bounds cap (tch k r) (insert k K)"
  by (auto simp: bounds_def set_touch ok_touch insert_absorb card_insert_if)

text \<open>Eviction at the cap finds a key of the map and makes room for exactly one.\<close>
lemma evict_bounds:
  assumes "bounds cap r K" "0 < cap" "cap \<le> card K" "evict p r = (v, r')"
  obtains x where "v = Some x" "x \<in> K" "victim p (order r) = Some x" "bounds cap r' (K - {x})" "card (K - {x}) < cap"
proof -
  have ok: "ok r" and K: "set (order r) = K" and fin: "finite K" and c: "card K \<le> cap"
    using assms(1) by (auto simp: bounds_def)
  have v: "v = victim p (order r)" using evict_victim [OF ok, of p] assms(4) by simp
  have "order r \<noteq> []" using K assms(2,3) by auto
  then obtain x where x: "victim p (order r) = Some x" by (cases "victim p (order r)") auto
  have xK: "x \<in> K" using victim_mem [OF x] K by simp
  have o: "order r' = filter (\<lambda>y. y \<noteq> x) (order r)" using evict_order [OF ok, of p x] v x assms(4) by simp
  have s: "set (order r') = K - {x}" using o K by auto
  have okr: "ok r'" using ok_evict [OF ok, of p] assms(4) by simp
  have lt: "card (K - {x}) < cap" using card_Diff1_less [OF fin xK] c by linarith
  then have "bounds cap r' (K - {x})" using okr s fin by (simp add: bounds_def)
  then show ?thesis using that [of x] v x xK lt by simp
qed

lemma bounds_keys: "bounds cap r K \<Longrightarrow> ok r \<and> set (order r) = K"
  by (simp add: bounds_def)

lemma bounds_card: "bounds cap r K \<Longrightarrow> card K \<le> cap"
  by (simp add: bounds_def)

end

section \<open>The index meets the contract\<close>

definition recency_order :: "'k RecencyIndex \<Rightarrow> 'k list" where
  "recency_order r = map snd (by_seq r)"

definition recency_ok :: "'k RecencyIndex \<Rightarrow> bool" where
  "recency_ok r \<longleftrightarrow> sorted_wrt (<) (map fst (by_seq r)) \<and> (\<forall>e\<in>set (by_seq r). fst e < next_seq r)
     \<and> (\<forall>k s. seq_of r k = Some s \<longleftrightarrow> (s, k) \<in> set (by_seq r))"

lemma bt_insert_last: "\<forall>e\<in>set xs. fst e < k \<Longrightarrow> bt_insert k v xs = xs @ [(k, v)]"
  by (induction xs) auto

lemma set_bt_remove [simp]: "set (bt_remove s xs) = {e \<in> set xs. fst e \<noteq> s}"
  by (simp add: bt_remove_def)

lemma sorted_bt_remove: "sorted_wrt (<) (map fst xs) \<Longrightarrow> sorted_wrt (<) (map fst (bt_remove s xs))"
  by (simp add: bt_remove_def sorted_wrt_map sorted_wrt_filter)

lemma recency_distinct:
  assumes "recency_ok r"
  shows "distinct (by_seq r)" "distinct (map fst (by_seq r))" "distinct (map snd (by_seq r))"
proof -
  show d: "distinct (map fst (by_seq r))" using assms by (simp add: recency_ok_def strict_sorted_iff)
  then show d2: "distinct (by_seq r)" by (simp add: distinct_map)
  have "inj_on snd (set (by_seq r))"
  proof (rule inj_onI)
    fix x y assume xy: "x \<in> set (by_seq r)" "y \<in> set (by_seq r)" "snd x = snd y"
    have "seq_of r (snd x) = Some (fst x)" "seq_of r (snd y) = Some (fst y)"
      using assms xy(1,2) by (simp_all add: recency_ok_def)
    then show "x = y" using xy(3) by (simp add: prod_eq_iff)
  qed
  then show "distinct (map snd (by_seq r))" using d2 by (simp add: distinct_map)
qed

text \<open>Removing the entry of a key by its sequence number is removing it by the key.\<close>
lemma remove_seq_key:
  assumes "recency_ok r" "(s, k) \<in> set (by_seq r)"
  shows "map snd (bt_remove s (by_seq r)) = filter (\<lambda>x. x \<noteq> k) (map snd (by_seq r))"
proof -
  have "fst e = s \<longleftrightarrow> snd e = k" if "e \<in> set (by_seq r)" for e
  proof -
    have e: "seq_of r (snd e) = Some (fst e)" "seq_of r k = Some s" using assms that by (simp_all add: recency_ok_def)
    then have "snd e = k \<Longrightarrow> fst e = s" by simp
    moreover have "fst e = s \<Longrightarrow> e = (s, k)"
      using recency_distinct(2) [OF assms(1)] assms(2) that by (metis distinct_map fst_conv inj_onD)
    ultimately show ?thesis by (metis snd_conv)
  qed
  then have "filter (\<lambda>e. fst e \<noteq> s) (by_seq r) = filter (\<lambda>e. snd e \<noteq> k) (by_seq r)" by (intro filter_cong) auto
  then show ?thesis by (simp add: bt_remove_def filter_map comp_def)
qed

lemma touch_by_seq:
  assumes "recency_ok r"
  shows "by_seq (touch k r) = (case seq_of r k of Some old \<Rightarrow> bt_remove old (by_seq r) | None \<Rightarrow> by_seq r) @ [(next_seq r, k)]"
  using assms by (auto simp: touch_def Let_def recency_ok_def split: option.splits intro!: bt_insert_last)

lemma recency_order_touch:
  assumes "recency_ok r"
  shows "recency_order (touch k r) = filter (\<lambda>x. x \<noteq> k) (recency_order r) @ [k]"
proof (cases "seq_of r k")
  case None
  then have "k \<notin> set (map snd (by_seq r))" using assms by (force simp: recency_ok_def)
  then have "filter (\<lambda>x. x \<noteq> k) (map snd (by_seq r)) = map snd (by_seq r)" by (auto simp: filter_id_conv)
  then show ?thesis using None by (simp add: recency_order_def touch_by_seq [OF assms])
next
  case (Some s)
  then have "(s, k) \<in> set (by_seq r)" using assms by (simp add: recency_ok_def)
  then show ?thesis using Some remove_seq_key [OF assms] by (simp add: recency_order_def touch_by_seq [OF assms])
qed

lemma recency_ok_touch:
  assumes "recency_ok r"
  shows "recency_ok (touch k r)"
proof -
  let ?b = "case seq_of r k of Some old \<Rightarrow> bt_remove old (by_seq r) | None \<Rightarrow> by_seq r"
  have s: "sorted_wrt (<) (map fst ?b)" "\<forall>e\<in>set ?b. fst e < next_seq r"
    using assms by (auto simp: recency_ok_def sorted_bt_remove split: option.splits)
  have m: "set ?b = {e \<in> set (by_seq r). snd e \<noteq> k}"
  proof (cases "seq_of r k")
    case None
    then show ?thesis using assms by (force simp: recency_ok_def)
  next
    case (Some old)
    then have o: "(old, k) \<in> set (by_seq r)" using assms by (simp add: recency_ok_def)
    have "fst e = old \<longleftrightarrow> snd e = k" if "e \<in> set (by_seq r)" for e
      using assms that o recency_distinct(2) [OF assms] Some
      by (metis (no_types, lifting) distinct_map fst_conv inj_onD option.sel prod.collapse recency_ok_def snd_conv)
    then show ?thesis using Some by auto
  qed
  have b: "by_seq (touch k r) = ?b @ [(next_seq r, k)]" by (rule touch_by_seq [OF assms])
  have "seq_of (touch k r) x = Some y \<longleftrightarrow> (y, x) \<in> set (by_seq (touch k r))" for x y
    unfolding b set_append m using assms by (auto simp: touch_def Let_def recency_ok_def)
  moreover have "next_seq (touch k r) = next_seq r + 1" by (simp add: touch_def Let_def)
  ultimately show ?thesis using s unfolding recency_ok_def b by (auto simp: sorted_wrt_append less_SucI)
qed

lemma evict_at_ok:
  assumes "recency_ok r" "e \<in> set (by_seq r)"
  shows "recency_ok (snd (evict_at e r))" "recency_order (snd (evict_at e r)) = filter (\<lambda>x. x \<noteq> snd e) (recency_order r)"
proof -
  have e: "(fst e, snd e) \<in> set (by_seq r)" using assms(2) by simp
  show "recency_order (snd (evict_at e r)) = filter (\<lambda>x. x \<noteq> snd e) (recency_order r)"
    using remove_seq_key [OF assms(1) e] by (simp add: evict_at_def recency_order_def)
  have k: "fst x = fst e \<longleftrightarrow> snd x = snd e" if "x \<in> set (by_seq r)" for x
    using assms that recency_distinct(2,3) [OF assms(1)] by (metis distinct_map inj_onD)
  have "seq_of (snd (evict_at e r)) x = Some y \<longleftrightarrow> (y, x) \<in> set (by_seq (snd (evict_at e r)))" for x y
    using assms(1) k [of "(y, x)"] by (auto simp: evict_at_def recency_ok_def)
  then show "recency_ok (snd (evict_at e r))"
    using assms(1) sorted_bt_remove [of "by_seq r" "fst e"] by (auto simp: recency_ok_def evict_at_def)
qed

lemma find_by_seq:
  "map_option snd (List.find (\<lambda>e. \<not> p (snd e)) xs) = List.find (\<lambda>k. \<not> p k) (map snd xs)"
  by (induction xs) auto

lemma evict_cases:
  obtains (empty) "by_seq r = []" "evict_oldest_unprotected p r = (None, r)"
  | (some) e where "e \<in> set (by_seq r)" "victim p (recency_order r) = Some (snd e)"
      "evict_oldest_unprotected p r = evict_at e r"
proof (cases "List.find (\<lambda>e. \<not> p (snd e)) (by_seq r)")
  case (Some e)
  then have "List.find (\<lambda>k. \<not> p k) (recency_order r) = Some (snd e)"
    using find_by_seq [of p "by_seq r"] by (simp add: recency_order_def)
  then show ?thesis using Some find_SomeD [OF Some] that(2) [of e]
    by (simp add: evict_oldest_unprotected_def victim_def)
next
  case None
  then have n: "List.find (\<lambda>k. \<not> p k) (recency_order r) = None"
    using find_by_seq [of p "by_seq r"] by (simp add: recency_order_def)
  show ?thesis
  proof (cases "by_seq r")
    case Nil
    then show ?thesis using that(1) by (simp add: evict_oldest_unprotected_def)
  next
    case (Cons e es)
    then show ?thesis using that(2) [of e] None n
      by (simp add: evict_oldest_unprotected_def victim_def recency_order_def)
  qed
qed

lemma evict_oldest_eq: "evict_oldest r = evict_oldest_unprotected (\<lambda>_. False) r"
  by (cases "by_seq r") (simp_all add: evict_oldest_def evict_oldest_unprotected_def)

lemma evict_fst [simp]: "fst (evict_at e r) = Some (snd e)"
  by (simp add: evict_at_def)

lemma recency_default_ok [simp]: "recency_ok recency_default" "recency_order recency_default = []"
  by (simp_all add: recency_ok_def recency_default_def recency_order_def)

interpretation ri: lru touch evict_oldest_unprotected recency_order recency_ok
proof
  fix r :: "'a RecencyIndex" and k p
  assume ok: "recency_ok r"
  show "recency_ok (touch k r)" by (rule recency_ok_touch [OF ok])
  show "recency_order (touch k r) = filter (\<lambda>x. x \<noteq> k) (recency_order r) @ [k]" by (rule recency_order_touch [OF ok])
  show "distinct (recency_order r)" using recency_distinct(3) [OF ok] by (simp add: recency_order_def)
  show "fst (evict_oldest_unprotected p r) = victim p (recency_order r)"
    by (cases rule: evict_cases [of r p]) (simp_all add: recency_order_def victim_def)
  show "recency_ok (snd (evict_oldest_unprotected p r))"
    by (cases rule: evict_cases [of r p]) (simp_all add: evict_at_ok ok)
  show "fst (evict_oldest_unprotected p r) = None \<Longrightarrow> snd (evict_oldest_unprotected p r) = r"
    by (cases rule: evict_cases [of r p]) simp_all
  show "fst (evict_oldest_unprotected p r) = Some k \<Longrightarrow>
      recency_order (snd (evict_oldest_unprotected p r)) = filter (\<lambda>x. x \<noteq> k) (recency_order r)"
    by (cases rule: evict_cases [of r p]) (auto simp: evict_at_ok ok)
qed

lemma bounds_default [simp]: "ri.bounds cap recency_default {}"
  by (simp add: ri.bounds_def)

end
