(* ===== verification/CloudTypes.thy ===== *)
theory CloudTypes
  imports Recency OrdMap AuditLog AgentEvent
begin

text \<open>
  The state of the control plane (\<open>crates/cloud/src/store.rs\<close>, \<open>devices.rs\<close>): the
  records gateways push, the per-organization aggregates, incidents, devices, the
  change events, and the whole \<open>Inner\<close> behind the store's lock.  A map from
  organizations is a partial function; a map whose size or values the code reads
  is a finite map.  Where the code iterates over a \<open>HashMap\<close>, whose order is not
  specified, the model visits the keys in increasing order.
\<close>

section \<open>Maps from organizations\<close>

text \<open>\<open>outer.entry(org).or_default()\<close> and \<open>outer.get(org)\<close> with a default.\<close>
definition org_get :: "'a \<Rightarrow> (string \<rightharpoonup> 'a) \<Rightarrow> string \<Rightarrow> 'a" where
  "org_get d m k = (case m k of Some v \<Rightarrow> v | None \<Rightarrow> d)"

lemma org_get_upd [simp]: "org_get d (m(k \<mapsto> v)) x = (if x = k then v else org_get d m x)"
  by (simp add: org_get_def)

lemma org_get_Some [simp]: "m k = Some v \<Longrightarrow> org_get d m k = v"
  by (simp add: org_get_def)

section \<open>Limits\<close>

definition NONCE_CAP :: nat where "NONCE_CAP = 4096"
definition SERIES_CAP :: nat where "SERIES_CAP = 100000"
definition MAX_SERIES_BUCKETS :: nat where "MAX_SERIES_BUCKETS = 10000"
definition SPIKE_WINDOW_MS :: i64 where "SPIKE_WINDOW_MS = 60000"
definition INCIDENT_TRACKER_CAP :: nat where "INCIDENT_TRACKER_CAP = 256"
definition MAX_RUNS_PER_ORG :: nat where "MAX_RUNS_PER_ORG = 50000"
definition MAX_TRACKER_KEYS :: nat where "MAX_TRACKER_KEYS = 20000"
definition MAX_INCIDENTS_PER_ORG :: nat where "MAX_INCIDENTS_PER_ORG = 10000"
definition MAX_BREAK_KEYS :: nat where "MAX_BREAK_KEYS = 10000"
definition MAX_UNIT_MONTH_KEYS :: nat where "MAX_UNIT_MONTH_KEYS = 4096"
definition CLOUD_DAY_MILLIS :: i64 where "CLOUD_DAY_MILLIS = 86400000"

text \<open>0.8 as the nearest binary64 value.\<close>
definition DEFAULT_ALERT_PCT :: f64 where "DEFAULT_ALERT_PCT = Fin (3602879701896397 / 4503599627370496)"

lemmas cloud_caps = SERIES_CAP_def INCIDENT_TRACKER_CAP_def MAX_RUNS_PER_ORG_def MAX_TRACKER_KEYS_def
  MAX_INCIDENTS_PER_ORG_def MAX_BREAK_KEYS_def MAX_UNIT_MONTH_KEYS_def NONCE_CAP_def

section \<open>Decisions\<close>

definition is_blocked :: "string \<Rightarrow> bool" where
  "is_blocked d \<longleftrightarrow> d \<noteq> ''allow'' \<and> d \<noteq> ''cache_hit''"

definition is_known_decision :: "string \<Rightarrow> bool" where
  "is_known_decision d \<longleftrightarrow> d \<in> {''allow'', ''cache_hit'', ''budget_exceeded'', ''policy_violation'', ''loop_detected'',
     ''killed'', ''wasm_policy'', ''taint_blocked'', ''dlp_blocked''}"

section \<open>Records and aggregates\<close>

record CloudCallRecord =
  rec_ts :: i64
  rec_run :: string
  rec_model :: string
  rec_decision :: string
  rec_input_tokens :: u64
  rec_output_tokens :: u64
  rec_cost :: i64
  rec_step :: u32
  rec_agent :: string
  rec_saved :: i64
  rec_parent :: string
  rec_on_behalf_of :: string
  rec_outcome :: string
  rec_unit :: string
  rec_tool_calls :: "u32 option"

record RunAgg =
  ra_run_id :: string
  ra_model :: string
  ra_agent :: string
  ra_unit :: string
  ra_spent :: i64
  ra_calls :: u64
  ra_cache_hits :: u64
  ra_steps :: u32
  ra_last_seen :: i64
  ra_killed :: bool
  ra_tool_calls :: u64

definition run_agg_new :: "string \<Rightarrow> RunAgg" where
  "run_agg_new run = \<lparr> ra_run_id = run, ra_model = '''', ra_agent = '''', ra_unit = '''', ra_spent = 0, ra_calls = 0,
     ra_cache_hits = 0, ra_steps = 0, ra_last_seen = 0, ra_killed = False, ra_tool_calls = 0 \<rparr>"

record UnitMonthAcc =
  um_window :: string
  um_spent :: i64
  um_calls :: u64

definition unit_month_default :: UnitMonthAcc where
  "unit_month_default = \<lparr> um_window = '''', um_spent = 0, um_calls = 0 \<rparr>"

record SavingsAcc =
  sv_blocked :: i64
  sv_cache :: i64
  sv_router :: i64
  sv_breaks :: "string fset"
  sv_budget_breaks :: u64

definition savings_default :: SavingsAcc where
  "savings_default = \<lparr> sv_blocked = 0, sv_cache = 0, sv_router = 0, sv_breaks = {||}, sv_budget_breaks = 0 \<rparr>"

record OrgTotals =
  ot_calls :: u64
  ot_spent :: i64
  ot_tool_calls :: u64

definition org_totals_default :: OrgTotals where
  "org_totals_default = \<lparr> ot_calls = 0, ot_spent = 0, ot_tool_calls = 0 \<rparr>"

record Sample =
  sm_ts :: i64
  sm_run :: string
  sm_cost :: i64
  sm_blocked :: bool
  sm_tool_calls :: u64

section \<open>Incidents, devices and change events\<close>

record Incident =
  inc_id :: string
  inc_org :: string
  inc_run :: "string option"
  inc_agent :: "string option"
  inc_kind :: string
  inc_severity :: Severity
  inc_first :: i64
  inc_last :: i64
  inc_occurrences :: u64
  inc_ack :: bool
  inc_notified :: i64
  inc_source :: "string option"
  inc_summary :: "string option"

record IncidentConfig =
  budget_blocks :: u64
  loop_repeats :: u64
  loop_window_ms :: i64
  spend_per_min_micros :: i64
  fanout_runs :: u64
  fanout_window_ms :: i64

definition incident_config_default :: IncidentConfig where
  "incident_config_default = \<lparr> budget_blocks = 3, loop_repeats = 3, loop_window_ms = 600000,
     spend_per_min_micros = 5000000, fanout_runs = 20, fanout_window_ms = 600000 \<rparr>"

record Device =
  dev_id :: string
  dev_org :: string
  dev_role :: string
  dev_name :: string
  dev_platform :: string
  dev_pubkey :: string
  dev_apns :: "string option"

record Pairing =
  pr_org :: string
  pr_role :: string
  pr_expires :: i64

datatype StreamEvent =
    RunUpdate string RunAgg
  | KillEvent string string
  | BudgetEvent string string i64
  | IncidentEvent Incident

fun event_org :: "StreamEvent \<Rightarrow> string" where
  "event_org (RunUpdate org _) = org"
| "event_org (KillEvent org _) = org"
| "event_org (BudgetEvent org _ _) = org"
| "event_org (IncidentEvent inc) = inc_org inc"

fun event_name :: "StreamEvent \<Rightarrow> string" where
  "event_name (RunUpdate _ _) = ''run_update''"
| "event_name (KillEvent _ _) = ''kill''"
| "event_name (BudgetEvent _ _ _) = ''budget''"
| "event_name (IncidentEvent _) = ''incident''"

section \<open>The store\<close>

record Inner =
  orgs :: "string \<rightharpoonup> (string, RunAgg) fmap"
  killed :: "string \<rightharpoonup> (string, bool) fmap"
  budgets :: "string \<rightharpoonup> (string, i64) fmap"
  unit_budgets :: "string \<rightharpoonup> (string, i64) fmap"
  series_log :: "string \<rightharpoonup> Sample list"
  savings :: "string \<rightharpoonup> SavingsAcc"
  unit_months :: "string \<rightharpoonup> (string, UnitMonthAcc) fmap"
  decision_counts :: "string \<rightharpoonup> (string, u64) fmap"
  incidents :: "string \<rightharpoonup> (string, Incident) fmap"
  audit_chains :: "string \<rightharpoonup> AuditEntry list"
  incident_tracker :: "(string \<times> string, i64 list) fmap"
  fanout_tracker :: "(string \<times> string, (string \<times> i64) list) fmap"
  org_totals :: "string \<rightharpoonup> OrgTotals"
  run_recency :: "string \<rightharpoonup> string RecencyIndex"
  tracker_recency :: "(string \<times> string) RecencyIndex"
  fanout_recency :: "(string \<times> string) RecencyIndex"
  break_recency :: "string \<rightharpoonup> string RecencyIndex"
  devices :: "(string, Device) fmap"
  pairings :: "string \<rightharpoonup> Pairing"
  nonces :: "string \<rightharpoonup> string list"
  activities :: "string \<rightharpoonup> (string \<rightharpoonup> string list)"
  dirty :: bool

definition inner_default :: Inner where
  "inner_default = \<lparr> orgs = Map.empty, killed = Map.empty, budgets = Map.empty, unit_budgets = Map.empty,
     series_log = Map.empty, savings = Map.empty, unit_months = Map.empty, decision_counts = Map.empty,
     incidents = Map.empty, audit_chains = Map.empty, incident_tracker = fmempty, fanout_tracker = fmempty,
     org_totals = Map.empty, run_recency = Map.empty, tracker_recency = recency_default,
     fanout_recency = recency_default, break_recency = Map.empty, devices = fmempty, pairings = Map.empty,
     nonces = Map.empty, activities = Map.empty, dirty = False \<rparr>"

text \<open>The store: the guarded state, the change events sent so far, and the fixed configuration.\<close>
record Store =
  inner :: Inner
  events :: "StreamEvent list"
  incident_cfg :: IncidentConfig
  st_alert_pct :: f64
  event_exporter :: Exporter

definition store_with_config :: "IncidentConfig \<Rightarrow> f64 \<Rightarrow> Store" where
  "store_with_config cfg pct = \<lparr> inner = inner_default, events = [], incident_cfg = cfg, st_alert_pct = pct,
     event_exporter = exporter_disabled \<rparr>"

definition store_with_incident_config :: "IncidentConfig \<Rightarrow> Store" where
  "store_with_incident_config cfg = store_with_config cfg DEFAULT_ALERT_PCT"

definition store_new :: Store where
  "store_new = store_with_incident_config incident_config_default"

definition with_event_exporter :: "Exporter \<Rightarrow> Store \<Rightarrow> Store" where
  "with_event_exporter x st = st\<lparr>event_exporter := x\<rparr>"

definition agent_event_type_for_incident_kind :: "string \<Rightarrow> EventType option" where
  "agent_event_type_for_incident_kind k =
     (if k = ''budget_exhausted'' then Some BudgetExhausted
      else if k = ''sustained_loop'' then Some SustainedLoop
      else if k = ''spend_spike'' then Some SpendSpike
      else if k = ''fanout_explosion'' then Some FanoutExplosion
      else None)"

end
