(* ===== verification/Savings.thy ===== *)
theory Savings
  imports Prelude "HOL-Library.Finite_Map"
begin

text \<open>
  What enforcement saved over a recorded trace (\<open>crates/core/src/savings.rs\<close>): the
  budget-protection decisions and the aggregation of a list of calls.  The sums are
  plain \<open>+=\<close> on \<open>i64\<close>, which wrap in a release build.
\<close>

definition BUDGET_PROTECTION_REASONS :: "string list" where
  "BUDGET_PROTECTION_REASONS = [''budget_exceeded'', ''loop_detected'', ''policy_violation'', ''wasm_policy'', ''killed'']"

definition is_budget_protection :: "string \<Rightarrow> bool" where
  "is_budget_protection d \<longleftrightarrow> d \<in> set BUDGET_PROTECTION_REASONS"

record SavingsCall =
  sc_run :: string
  sc_decision :: string
  sc_cost :: i64
  sc_saved :: i64

record SavingsReport =
  rp_blocked_spend :: i64
  rp_breaks_prevented :: usize
  rp_blocked_calls :: usize
  rp_by_reason :: "(string, i64) fmap"
  rp_cache_saved :: i64
  rp_router_saved :: i64

text \<open>The accumulators of the loop.\<close>
record SavingsLoop =
  lp_blocked :: i64
  lp_calls :: usize
  lp_breaks :: "string fset"
  lp_reasons :: "(string, i64) fmap"
  lp_cache :: i64
  lp_router :: i64

definition savings_loop_init :: SavingsLoop where
  "savings_loop_init = \<lparr> lp_blocked = 0, lp_calls = 0, lp_breaks = {||}, lp_reasons = fmempty, lp_cache = 0, lp_router = 0 \<rparr>"

definition add_saved :: "SavingsCall \<Rightarrow> SavingsLoop \<Rightarrow> SavingsLoop" where
  "add_saved c a =
     (if sc_decision c = ''cache_hit'' then a\<lparr>lp_cache := wrap_i64 (lp_cache a + sc_saved c)\<rparr>
      else if sc_decision c = ''allow'' then a\<lparr>lp_router := wrap_i64 (lp_router a + sc_saved c)\<rparr>
      else a)"

definition reason_total :: "(string, i64) fmap \<Rightarrow> string \<Rightarrow> i64" where
  "reason_total m d = (case fmlookup m d of Some x \<Rightarrow> x | None \<Rightarrow> 0)"

definition add_block :: "SavingsCall \<Rightarrow> SavingsLoop \<Rightarrow> SavingsLoop" where
  "add_block c a =
     a\<lparr>lp_blocked := wrap_i64 (lp_blocked a + sc_cost c), lp_calls := wrap_u64 (lp_calls a + 1),
       lp_breaks := finsert (sc_run c) (lp_breaks a),
       lp_reasons := fmupd (sc_decision c) (wrap_i64 (reason_total (lp_reasons a) (sc_decision c) + sc_cost c)) (lp_reasons a)\<rparr>"

definition savings_step :: "SavingsCall \<Rightarrow> SavingsLoop \<Rightarrow> SavingsLoop" where
  "savings_step c a = (let a = add_saved c a in if is_budget_protection (sc_decision c) then add_block c a else a)"

definition compute_savings :: "SavingsCall list \<Rightarrow> SavingsReport" where
  "compute_savings cs =
     (let a = fold savings_step cs savings_loop_init
      in \<lparr> rp_blocked_spend = lp_blocked a, rp_breaks_prevented = fcard (lp_breaks a), rp_blocked_calls = lp_calls a,
           rp_by_reason = lp_reasons a, rp_cache_saved = lp_cache a, rp_router_saved = lp_router a \<rparr>)"

section \<open>The loop computes sums\<close>

definition protected_calls :: "SavingsCall list \<Rightarrow> SavingsCall list" where
  "protected_calls cs = filter (\<lambda>c. is_budget_protection (sc_decision c)) cs"

definition calls_with :: "string \<Rightarrow> SavingsCall list \<Rightarrow> SavingsCall list" where
  "calls_with d cs = filter (\<lambda>c. sc_decision c = d) cs"

lemma wrap_i64_sum: "wrap_i64 (wrap_i64 a + b) = wrap_i64 (a + b)"
  by (rule wrap_i64_add_left)

lemma protection_cases: "is_budget_protection d \<Longrightarrow> d \<noteq> ''cache_hit'' \<and> d \<noteq> ''allow''"
  by (auto simp: is_budget_protection_def BUDGET_PROTECTION_REASONS_def)

lemma wrap_u64_suc: "wrap_u64 (wrap_u64 n + 1) = wrap_u64 (n + 1)"
  by (simp add: wrap_u64_def mod_Suc_eq)

lemma savings_loop_sums:
  fixes cs
  defines "a \<equiv> fold savings_step cs savings_loop_init"
  shows "lp_blocked a = wrap_i64 (sum_list (map sc_cost (protected_calls cs)))
    \<and> lp_calls a = wrap_u64 (length (protected_calls cs))
    \<and> fset (lp_breaks a) = sc_run ` set (protected_calls cs)
    \<and> lp_cache a = wrap_i64 (sum_list (map sc_saved (calls_with ''cache_hit'' cs)))
    \<and> lp_router a = wrap_i64 (sum_list (map sc_saved (calls_with ''allow'' cs)))
    \<and> (\<forall>d. fmlookup (lp_reasons a) d = (if is_budget_protection d \<and> calls_with d cs \<noteq> []
          then Some (wrap_i64 (sum_list (map sc_cost (calls_with d cs)))) else None))"
  unfolding a_def
proof (induction cs rule: rev_induct)
  case Nil
  then show ?case
    by (simp add: savings_loop_init_def protected_calls_def calls_with_def wrap_i64_id in_i64_def i64_min_def i64_max_def wrap_u64_def)
next
  case (snoc c cs)
  let ?a = "fold savings_step cs savings_loop_init"
  consider (p) "is_budget_protection (sc_decision c)" | (h) "sc_decision c = ''cache_hit''" | (w) "sc_decision c = ''allow''"
    | (o) "\<not> is_budget_protection (sc_decision c)" "sc_decision c \<noteq> ''cache_hit''" "sc_decision c \<noteq> ''allow''" by blast
  then show ?case
  proof cases
    case p
    note n = protection_cases [OF p]
    have "fold savings_step (cs @ [c]) savings_loop_init = add_block c ?a"
      using n p by (simp add: savings_step_def add_saved_def)
    moreover have "reason_total (lp_reasons ?a) (sc_decision c) = wrap_i64 (sum_list (map sc_cost (calls_with (sc_decision c) cs)))"
      using snoc.IH p by (auto simp: reason_total_def wrap_i64_def calls_with_def)
    ultimately show ?thesis
      using snoc.IH p n
      by (simp add: add_block_def protected_calls_def calls_with_def wrap_i64_sum wrap_u64_suc [simplified])
  next
    case h
    then have np: "\<not> is_budget_protection (sc_decision c)" using protection_cases by blast
    have "fold savings_step (cs @ [c]) savings_loop_init = ?a\<lparr>lp_cache := wrap_i64 (lp_cache ?a + sc_saved c)\<rparr>"
      using h np by (simp add: savings_step_def add_saved_def)
    then show ?thesis
      using snoc.IH h np by (auto simp: protected_calls_def calls_with_def wrap_i64_sum)
  next
    case w
    then have np: "\<not> is_budget_protection (sc_decision c)" using protection_cases by blast
    have "fold savings_step (cs @ [c]) savings_loop_init = ?a\<lparr>lp_router := wrap_i64 (lp_router ?a + sc_saved c)\<rparr>"
      using w np by (simp add: savings_step_def add_saved_def)
    then show ?thesis
      using snoc.IH w np by (auto simp: protected_calls_def calls_with_def wrap_i64_sum)
  next
    case o
    have "fold savings_step (cs @ [c]) savings_loop_init = ?a"
      using o by (simp add: savings_step_def add_saved_def)
    then show ?thesis
      using snoc.IH o by (auto simp: protected_calls_def calls_with_def)
  qed
qed

end
