(* ===== verification/CloudIngest.thy ===== *)
theory CloudIngest
  imports CloudTypes Savings
begin

text \<open>
  Ingest of call records into the control plane's store (\<open>Store::ingest_at\<close> and the
  functions it uses, \<open>crates/cloud/src/store.rs\<close>): the per-record fold into an
  organization's aggregates, the burn-rate samples, the incident detectors and the
  change events.  The mutable borrows the code takes of the organization's entries
  are the record \<open>OrgView\<close>.
\<close>

section \<open>Months\<close>

text \<open>The store's own copy of the month window key.\<close>
definition cloud_month_key :: "i64 \<Rightarrow> string" where
  "cloud_month_key ts_millis =
     (let days = ts_millis div CLOUD_DAY_MILLIS;
          z = days + 719468;
          era = tdiv (if z \<ge> 0 then z else z - 146096) 146097;
          doe = z - era * 146097;
          yoe = (doe - doe div 1460 + doe div 36524 - doe div 146096) div 365;
          y = yoe + era * 400;
          doy = doe - (365 * yoe + yoe div 4 - yoe div 100);
          mp = (5 * doy + 2) div 153;
          m = (if mp < 10 then mp + 3 else mp - 9);
          y = (if m \<le> 2 then y + 1 else y)
      in year_str y @ ''-'' @ two m)"

section \<open>One record\<close>

record OrgView =
  v_runs :: "(string, RunAgg) fmap"
  v_sav :: SavingsAcc
  v_dc :: "(string, u64) fmap"
  v_totals :: OrgTotals
  v_recency :: "string RecencyIndex"
  v_break_recency :: "string RecencyIndex"
  v_months :: "(string, UnitMonthAcc) fmap"

text \<open>\<open>spent as f64 / budget as f64\<close> for a positive budget.\<close>
definition f64_quot :: "i64 \<Rightarrow> i64 \<Rightarrow> f64" where
  "f64_quot a b = (case f64_of_int b of Fin d \<Rightarrow> f64_div_const (f64_of_int a) d | _ \<Rightarrow> NaN)"

definition is_alerting :: "f64 \<Rightarrow> (string, i64) fmap option \<Rightarrow> (string, RunAgg) fmap \<Rightarrow> string \<Rightarrow> bool" where
  "is_alerting pct bs runs run =
     (case Option.bind bs (\<lambda>b. fmlookup b run) of
        None \<Rightarrow> False
      | Some budget \<Rightarrow>
          if budget \<le> 0 then False
          else f64_ge (f64_quot (case fmlookup runs run of Some a \<Rightarrow> ra_spent a | None \<Rightarrow> 0) budget) pct)"

text \<open>Evict a run before a new one would exceed the cap.\<close>
definition make_run_room :: "f64 \<Rightarrow> (string, i64) fmap option \<Rightarrow> string \<Rightarrow> OrgView \<Rightarrow> OrgView" where
  "make_run_room pct bs run v =
     (if fmlookup (v_runs v) run = None \<and> MAX_RUNS_PER_ORG \<le> fm_len (v_runs v) then
        (case evict_oldest_unprotected (is_alerting pct bs (v_runs v)) (v_recency v) of
           (Some k, r) \<Rightarrow> v\<lparr>v_runs := fmdrop k (v_runs v), v_recency := r\<rparr>
         | (None, r) \<Rightarrow> (case fm_keys (v_runs v) of
               [] \<Rightarrow> v\<lparr>v_recency := r\<rparr>
             | k # _ \<Rightarrow> v\<lparr>v_runs := fmdrop k (v_runs v), v_recency := r\<rparr>))
      else v)"

definition rec_clamped_cost :: "CloudCallRecord \<Rightarrow> i64" where
  "rec_clamped_cost r = max (rec_cost r) 0"

definition rec_tools :: "CloudCallRecord \<Rightarrow> u64" where
  "rec_tools r = (case rec_tool_calls r of Some n \<Rightarrow> n | None \<Rightarrow> 0)"

definition update_agg :: "CloudCallRecord \<Rightarrow> RunAgg \<Rightarrow> RunAgg" where
  "update_agg r a =
     (let a = (if is_blocked (rec_decision r) then a
               else a\<lparr>ra_spent := sat_i64 (ra_spent a + rec_clamped_cost r), ra_tool_calls := sat_u64 (ra_tool_calls a + rec_tools r)\<rparr>);
          a = a\<lparr>ra_calls := wrap_u64 (ra_calls a + 1)\<rparr>;
          a = (if rec_decision r = ''cache_hit'' then a\<lparr>ra_cache_hits := wrap_u64 (ra_cache_hits a + 1)\<rparr> else a);
          a = (if rec_model r \<noteq> [] then a\<lparr>ra_model := rec_model r\<rparr> else a);
          a = (if rec_agent r \<noteq> [] then a\<lparr>ra_agent := rec_agent r\<rparr> else a);
          a = (if rec_unit r \<noteq> [] then a\<lparr>ra_unit := rec_unit r\<rparr> else a);
          a = (if ra_steps a < rec_step r then a\<lparr>ra_steps := rec_step r\<rparr> else a)
      in if ra_last_seen a < rec_ts r then a\<lparr>ra_last_seen := rec_ts r\<rparr> else a)"

definition update_totals :: "CloudCallRecord \<Rightarrow> OrgTotals \<Rightarrow> OrgTotals" where
  "update_totals r t =
     (let t = (if is_blocked (rec_decision r) then t
               else t\<lparr>ot_spent := sat_i64 (ot_spent t + rec_clamped_cost r), ot_tool_calls := sat_u64 (ot_tool_calls t + rec_tools r)\<rparr>)
      in t\<lparr>ot_calls := wrap_u64 (ot_calls t + 1)\<rparr>)"

definition count_decision :: "CloudCallRecord \<Rightarrow> (string, u64) fmap \<Rightarrow> (string, u64) fmap" where
  "count_decision r dc =
     (if is_known_decision (rec_decision r)
      then fmupd (rec_decision r) (wrap_u64 ((case fmlookup dc (rec_decision r) of Some n \<Rightarrow> n | None \<Rightarrow> 0) + 1)) dc
      else dc)"

definition unit_key :: "string \<Rightarrow> string" where
  "unit_key u = (if u = [] then ''unassigned'' else u)"

definition admit_unit :: "(string, UnitMonthAcc) fmap \<Rightarrow> string \<Rightarrow> string" where
  "admit_unit months u =
     (if fmlookup months u \<noteq> None \<or> fm_len months < MAX_UNIT_MONTH_KEYS then u else ''unassigned'')"

definition roll_month :: "string \<Rightarrow> UnitMonthAcc \<Rightarrow> UnitMonthAcc" where
  "roll_month month_now acc =
     (if um_window acc \<noteq> month_now then \<lparr> um_window = month_now, um_spent = 0, um_calls = 0 \<rparr> else acc)"

definition update_months :: "string \<Rightarrow> CloudCallRecord \<Rightarrow> (string, UnitMonthAcc) fmap \<Rightarrow> (string, UnitMonthAcc) fmap" where
  "update_months month_now r months =
     (let u = admit_unit months (unit_key (rec_unit r));
          acc = roll_month month_now (case fmlookup months u of Some a \<Rightarrow> a | None \<Rightarrow> unit_month_default);
          acc = acc\<lparr>um_calls := wrap_u64 (um_calls acc + 1)\<rparr>;
          acc = (if is_blocked (rec_decision r) then acc else acc\<lparr>um_spent := sat_i64 (um_spent acc + rec_clamped_cost r)\<rparr>)
      in fmupd u acc months)"

text \<open>Make room in the deduplication set of broken runs.\<close>
definition make_break_room :: "SavingsAcc \<Rightarrow> string RecencyIndex \<Rightarrow> SavingsAcc \<times> string RecencyIndex" where
  "make_break_room s br =
     (if MAX_BREAK_KEYS \<le> fcard (sv_breaks s) then
        (case evict_oldest br of
           (Some k, br') \<Rightarrow> (s\<lparr>sv_breaks := sv_breaks s - {|k|}\<rparr>, br')
         | (None, br') \<Rightarrow> (case sorted_list_of_fset (sv_breaks s) of
               [] \<Rightarrow> (s, br')
             | k # _ \<Rightarrow> (s\<lparr>sv_breaks := sv_breaks s - {|k|}\<rparr>, br')))
      else (s, br))"

definition add_blocked :: "CloudCallRecord \<Rightarrow> SavingsAcc \<Rightarrow> SavingsAcc" where
  "add_blocked r s = s\<lparr>sv_blocked := sat_i64 (sv_blocked s + rec_clamped_cost r)\<rparr>"

text \<open>A run that is not remembered as broken is counted and remembered.\<close>
definition note_break :: "string \<Rightarrow> SavingsAcc \<Rightarrow> string RecencyIndex \<Rightarrow> SavingsAcc \<times> string RecencyIndex" where
  "note_break run s br =
     (if run |\<in>| sv_breaks s then (s, br)
      else case make_break_room s br of (s, br) \<Rightarrow>
        (s\<lparr>sv_breaks := finsert run (sv_breaks s), sv_budget_breaks := sat_u64 (sv_budget_breaks s + 1)\<rparr>, br))"

definition update_breaks :: "CloudCallRecord \<Rightarrow> SavingsAcc \<Rightarrow> string RecencyIndex \<Rightarrow> SavingsAcc \<times> string RecencyIndex" where
  "update_breaks r s br =
     (if is_budget_protection (rec_decision r)
      then (case note_break (rec_run r) (add_blocked r s) br of (s, br) \<Rightarrow> (s, touch (rec_run r) br))
      else (s, br))"

definition update_saved :: "CloudCallRecord \<Rightarrow> SavingsAcc \<Rightarrow> SavingsAcc" where
  "update_saved r s =
     (let saved = max (rec_saved r) 0 in
      if rec_decision r = ''cache_hit'' then s\<lparr>sv_cache := sat_i64 (sv_cache s + saved)\<rparr>
      else if rec_decision r = ''allow'' then s\<lparr>sv_router := sat_i64 (sv_router s + saved)\<rparr>
      else s)"

definition ingest_record :: "f64 \<Rightarrow> (string, i64) fmap option \<Rightarrow> string \<Rightarrow> OrgView \<Rightarrow> CloudCallRecord \<Rightarrow> OrgView" where
  "ingest_record pct bs month_now v r =
     (let v = make_run_room pct bs (rec_run r) v;
          a = (case fmlookup (v_runs v) (rec_run r) of Some a \<Rightarrow> a | None \<Rightarrow> run_agg_new (rec_run r));
          (s, br) = update_breaks r (v_sav v) (v_break_recency v)
      in \<lparr> v_runs = fmupd (rec_run r) (update_agg r a) (v_runs v),
           v_sav = update_saved r s,
           v_dc = count_decision r (v_dc v),
           v_totals = update_totals r (v_totals v),
           v_recency = touch (rec_run r) (v_recency v),
           v_break_recency = br,
           v_months = update_months month_now r (v_months v) \<rparr>)"

section \<open>The organization's entries\<close>

definition org_view :: "Inner \<Rightarrow> string \<Rightarrow> OrgView" where
  "org_view i org =
     \<lparr> v_runs = org_get fmempty (orgs i) org, v_sav = org_get savings_default (savings i) org,
       v_dc = org_get fmempty (decision_counts i) org, v_totals = org_get org_totals_default (org_totals i) org,
       v_recency = org_get recency_default (run_recency i) org,
       v_break_recency = org_get recency_default (break_recency i) org,
       v_months = org_get fmempty (unit_months i) org \<rparr>"

definition put_view :: "string \<Rightarrow> OrgView \<Rightarrow> Inner \<Rightarrow> Inner" where
  "put_view org v i =
     i\<lparr>orgs := (orgs i)(org \<mapsto> v_runs v), savings := (savings i)(org \<mapsto> v_sav v),
       decision_counts := (decision_counts i)(org \<mapsto> v_dc v), org_totals := (org_totals i)(org \<mapsto> v_totals v),
       run_recency := (run_recency i)(org \<mapsto> v_recency v), break_recency := (break_recency i)(org \<mapsto> v_break_recency v),
       unit_months := (unit_months i)(org \<mapsto> v_months v)\<rparr>"

definition fold_records :: "f64 \<Rightarrow> string \<Rightarrow> CloudCallRecord list \<Rightarrow> i64 \<Rightarrow> Inner \<Rightarrow> Inner" where
  "fold_records pct org rs now i =
     put_view org (foldl (ingest_record pct (budgets i org) (cloud_month_key now)) (org_view i org) rs) i"

definition sample_of :: "CloudCallRecord \<Rightarrow> Sample" where
  "sample_of r = \<lparr> sm_ts = rec_ts r, sm_run = rec_run r, sm_cost = rec_clamped_cost r,
     sm_blocked = is_blocked (rec_decision r), sm_tool_calls = rec_tools r \<rparr>"

definition log_samples :: "string \<Rightarrow> CloudCallRecord list \<Rightarrow> Inner \<Rightarrow> Inner" where
  "log_samples org rs i =
     i\<lparr>series_log := (series_log i)(org \<mapsto> last_n SERIES_CAP (org_get [] (series_log i) org @ map sample_of rs))\<rparr>"

text \<open>The runs of a batch in order of first occurrence.\<close>
definition batch_runs :: "CloudCallRecord list \<Rightarrow> string list" where
  "batch_runs rs = rev (remdups (rev (map rec_run rs)))"

definition updated_runs :: "string \<Rightarrow> CloudCallRecord list \<Rightarrow> Inner \<Rightarrow> RunAgg list" where
  "updated_runs org rs i = List.map_filter (\<lambda>k. fmlookup (org_get fmempty (orgs i) org) k) (batch_runs rs)"

section \<open>Detectors\<close>

definition incident_id :: "string \<Rightarrow> string \<Rightarrow> string" where
  "incident_id kind scope = kind @ '':'' @ scope"

text \<open>Make room for a new key of a tracker.\<close>
definition make_tracker_room :: "'k \<Rightarrow> ('k, 'v) fmap \<Rightarrow> 'k RecencyIndex \<Rightarrow> ('k, 'v) fmap \<times> 'k RecencyIndex" where
  "make_tracker_room k tracker r =
     (if fmlookup tracker k = None \<and> MAX_TRACKER_KEYS \<le> fm_len tracker then
        (case evict_oldest r of (Some e, r') \<Rightarrow> (fmdrop e tracker, r') | (None, r') \<Rightarrow> (tracker, r'))
      else (tracker, r))"

definition bump_deque :: "i64 \<Rightarrow> (i64 \<times> i64) option \<Rightarrow> i64 list \<Rightarrow> i64 list" where
  "bump_deque tms window dq =
     (let dq = last_n INCIDENT_TRACKER_CAP (dq @ [tms]) in
      case window of
        Some (now, window_ms) \<Rightarrow> dropWhile (\<lambda>t. t < wrap_i64 (now - window_ms)) dq
      | None \<Rightarrow> dq)"

definition bump_tracker :: "string \<Rightarrow> string \<Rightarrow> string \<Rightarrow> i64 \<Rightarrow> (i64 \<times> i64) option \<Rightarrow> Inner \<Rightarrow> u64 \<times> Inner" where
  "bump_tracker org kind scope tms window i =
     (let key = (org, incident_id kind scope);
          (t, r) = make_tracker_room key (incident_tracker i) (tracker_recency i);
          r = touch key r;
          dq = bump_deque tms window (case fmlookup t key of Some d \<Rightarrow> d | None \<Rightarrow> [])
      in (length dq, i\<lparr>incident_tracker := fmupd key dq t, tracker_recency := r\<rparr>))"

definition bump_fanout_deque :: "string \<Rightarrow> i64 \<Rightarrow> i64 \<Rightarrow> i64 \<Rightarrow> (string \<times> i64) list \<Rightarrow> (string \<times> i64) list" where
  "bump_fanout_deque run tms now window_ms dq =
     (let dq = last_n INCIDENT_TRACKER_CAP (filter (\<lambda>e. fst e \<noteq> run) dq @ [(run, tms)])
      in filter (\<lambda>e. wrap_i64 (now - window_ms) \<le> snd e) dq)"

definition bump_fanout_tracker :: "string \<Rightarrow> string \<Rightarrow> string \<Rightarrow> i64 \<Rightarrow> i64 \<Rightarrow> i64 \<Rightarrow> Inner \<Rightarrow> u64 \<times> Inner" where
  "bump_fanout_tracker org agent run tms now window_ms i =
     (let key = (org, agent);
          (t, r) = make_tracker_room key (fanout_tracker i) (fanout_recency i);
          r = touch key r;
          dq = bump_fanout_deque run tms now window_ms (case fmlookup t key of Some d \<Rightarrow> d | None \<Rightarrow> [])
      in (length dq, i\<lparr>fanout_tracker := fmupd key dq t, fanout_recency := r\<rparr>))"

text \<open>The first entry with the least value.\<close>
fun min_by_key :: "('a \<Rightarrow> 'b::linorder) \<Rightarrow> 'a list \<Rightarrow> 'a option" where
  "min_by_key f [] = None"
| "min_by_key f (x # xs) = (case min_by_key f xs of None \<Rightarrow> Some x | Some y \<Rightarrow> if f y < f x then Some y else Some x)"

definition incident_new :: "string \<Rightarrow> string \<Rightarrow> Severity \<Rightarrow> string \<Rightarrow> string option \<Rightarrow> string option \<Rightarrow> i64 \<Rightarrow> Incident" where
  "incident_new org kind sev scope run agent tms =
     \<lparr> inc_id = incident_id kind scope, inc_org = org, inc_run = run, inc_agent = agent, inc_kind = kind, inc_severity = sev,
       inc_first = tms, inc_last = tms, inc_occurrences = 0, inc_ack = False, inc_notified = 0, inc_source = None, inc_summary = None \<rparr>"

definition make_incident_room :: "string \<Rightarrow> (string, Incident) fmap \<Rightarrow> (string, Incident) fmap" where
  "make_incident_room iid m =
     (if fmlookup m iid = None \<and> MAX_INCIDENTS_PER_ORG \<le> fm_len m then
        (case min_by_key (\<lambda>e. inc_last (snd e)) (fm_items m) of Some e \<Rightarrow> fmdrop (fst e) m | None \<Rightarrow> m)
      else m)"

definition trip_incident :: "string option \<Rightarrow> i64 \<Rightarrow> Incident \<Rightarrow> Incident" where
  "trip_incident agent tms inc =
     (let inc = inc\<lparr>inc_occurrences := wrap_u64 (inc_occurrences inc + 1)\<rparr>;
          inc = (if inc_last inc < tms then inc\<lparr>inc_last := tms\<rparr> else inc)
      in if inc_agent inc = None then inc\<lparr>inc_agent := agent\<rparr> else inc)"

definition upsert_incident :: "string \<Rightarrow> string \<Rightarrow> Severity \<Rightarrow> string \<Rightarrow> string option \<Rightarrow> string option \<Rightarrow> i64 \<Rightarrow> Inner \<Rightarrow> Incident \<times> Inner" where
  "upsert_incident org kind sev scope run agent tms i =
     (let iid = incident_id kind scope;
          m = make_incident_room iid (org_get fmempty (incidents i) org);
          inc = trip_incident agent tms (case fmlookup m iid of Some x \<Rightarrow> x | None \<Rightarrow> incident_new org kind sev scope run agent tms)
      in (inc, i\<lparr>incidents := (incidents i)(org \<mapsto> fmupd iid inc m)\<rparr>))"

definition burn_since :: "Sample list \<Rightarrow> i64 \<Rightarrow> i64 \<Rightarrow> i64" where
  "burn_since lg start now =
     foldl (\<lambda>acc s. sat_i64 (acc + sm_cost s)) 0 (filter (\<lambda>s. start \<le> sm_ts s \<and> sm_ts s \<le> now) lg)"

text \<open>A detector fires: the incident is upserted and remembered under its id.\<close>
definition fire :: "string \<Rightarrow> string \<Rightarrow> Severity \<Rightarrow> string \<Rightarrow> string option \<Rightarrow> string option \<Rightarrow> i64
    \<Rightarrow> Inner \<times> (string, Incident) fmap \<Rightarrow> Inner \<times> (string, Incident) fmap" where
  "fire org kind sev scope run agent tms s =
     (case upsert_incident org kind sev scope run agent tms (fst s) of (inc, i) \<Rightarrow> (i, fmupd (inc_id inc) inc (snd s)))"

definition event_ts :: "i64 \<Rightarrow> CloudCallRecord \<Rightarrow> i64" where
  "event_ts now r = (if 0 < rec_ts r then rec_ts r else now)"

definition rec_agent_opt :: "CloudCallRecord \<Rightarrow> string option" where
  "rec_agent_opt r = (if rec_agent r = [] then None else Some (rec_agent r))"

definition detect_budget :: "IncidentConfig \<Rightarrow> string \<Rightarrow> i64 \<Rightarrow> CloudCallRecord \<Rightarrow> Inner \<times> (string, Incident) fmap \<Rightarrow> Inner \<times> (string, Incident) fmap" where
  "detect_budget cfg org now r s =
     (if is_known_decision (rec_decision r) \<and> is_budget_protection (rec_decision r) then
        (case bump_tracker org ''budget_exhausted'' (rec_run r) (event_ts now r) None (fst s) of (n, i) \<Rightarrow>
           if budget_blocks cfg \<le> n
           then fire org ''budget_exhausted'' SevHigh (rec_run r) (Some (rec_run r)) (rec_agent_opt r) (event_ts now r) (i, snd s)
           else (i, snd s))
      else s)"

definition detect_loop :: "IncidentConfig \<Rightarrow> string \<Rightarrow> i64 \<Rightarrow> CloudCallRecord \<Rightarrow> Inner \<times> (string, Incident) fmap \<Rightarrow> Inner \<times> (string, Incident) fmap" where
  "detect_loop cfg org now r s =
     (if is_known_decision (rec_decision r) \<and> rec_decision r = ''loop_detected'' then
        (case bump_tracker org ''sustained_loop'' (rec_run r) (event_ts now r) (Some (now, loop_window_ms cfg)) (fst s) of (n, i) \<Rightarrow>
           if loop_repeats cfg \<le> n
           then fire org ''sustained_loop'' SevMedium (rec_run r) (Some (rec_run r)) (rec_agent_opt r) (event_ts now r) (i, snd s)
           else (i, snd s))
      else s)"

definition detect_fanout :: "IncidentConfig \<Rightarrow> string \<Rightarrow> i64 \<Rightarrow> CloudCallRecord \<Rightarrow> Inner \<times> (string, Incident) fmap \<Rightarrow> Inner \<times> (string, Incident) fmap" where
  "detect_fanout cfg org now r s =
     (case rec_agent_opt r of
        None \<Rightarrow> s
      | Some a \<Rightarrow>
          (case bump_fanout_tracker org a (rec_run r) (event_ts now r) now (fanout_window_ms cfg) (fst s) of (n, i) \<Rightarrow>
             if fanout_runs cfg \<le> n
             then fire org ''fanout_explosion'' SevHigh a None (Some a) (event_ts now r) (i, snd s)
             else (i, snd s)))"

definition detect_record :: "IncidentConfig \<Rightarrow> string \<Rightarrow> i64 \<Rightarrow> Inner \<times> (string, Incident) fmap \<Rightarrow> CloudCallRecord \<Rightarrow> Inner \<times> (string, Incident) fmap" where
  "detect_record cfg org now s r = detect_fanout cfg org now r (detect_loop cfg org now r (detect_budget cfg org now r s))"

definition detect_spike :: "IncidentConfig \<Rightarrow> string \<Rightarrow> i64 \<Rightarrow> Inner \<times> (string, Incident) fmap \<Rightarrow> Inner \<times> (string, Incident) fmap" where
  "detect_spike cfg org now s =
     (let burn = (case series_log (fst s) org of
            Some lg \<Rightarrow> burn_since lg (wrap_i64 (now - SPIKE_WINDOW_MS)) now | None \<Rightarrow> 0)
      in if spend_per_min_micros cfg \<le> burn then fire org ''spend_spike'' SevHigh [] None None now s else s)"

section \<open>The whole batch\<close>

definition ingest_folded :: "f64 \<Rightarrow> string \<Rightarrow> CloudCallRecord list \<Rightarrow> i64 \<Rightarrow> Inner \<Rightarrow> Inner" where
  "ingest_folded pct org rs now i = log_samples org rs (fold_records pct org rs now (i\<lparr>dirty := True\<rparr>))"

text \<open>What happens under the write lock: the new state, the affected runs and the fired incidents.\<close>
definition ingest_locked :: "IncidentConfig \<Rightarrow> f64 \<Rightarrow> string \<Rightarrow> CloudCallRecord list \<Rightarrow> i64 \<Rightarrow> Inner
    \<Rightarrow> Inner \<times> RunAgg list \<times> (string, Incident) fmap" where
  "ingest_locked cfg pct org rs now i =
     (let i = ingest_folded pct org rs now i;
          upd = updated_runs org rs i;
          (i, fired) = detect_spike cfg org now (foldl (detect_record cfg org now) (i, fmempty) rs)
      in (i, upd, fired))"

definition emit_incident :: "serde \<Rightarrow> write_result \<Rightarrow> Incident \<Rightarrow> Exporter \<Rightarrow> Exporter" where
  "emit_incident s wr inc x =
     (case agent_event_type_for_incident_kind (inc_kind inc) of
        Some t \<Rightarrow> snd (emit s wr x t (inc_last inc) (inc_agent inc) (inc_run inc) None
                    (JObject [(''occurrences'', json_u64 (inc_occurrences inc)), (''org'', JString (inc_org inc))]))
      | None \<Rightarrow> x)"

text \<open>Each fired incident is exported and broadcast; \<open>wr\<close> gives the outcome of its file write.\<close>
fun announce :: "serde \<Rightarrow> (string \<Rightarrow> write_result) \<Rightarrow> Incident list \<Rightarrow> Store \<Rightarrow> Store" where
  "announce s wr [] st = st"
| "announce s wr (inc # incs) st =
     announce s wr incs (st\<lparr>event_exporter := emit_incident s (wr (inc_id inc)) inc (event_exporter st),
                            events := events st @ [IncidentEvent inc]\<rparr>)"

definition ingest_at :: "serde \<Rightarrow> (string \<Rightarrow> write_result) \<Rightarrow> string \<Rightarrow> CloudCallRecord list \<Rightarrow> i64 \<Rightarrow> Store \<Rightarrow> Store" where
  "ingest_at s wr org rs now st =
     (case ingest_locked (incident_cfg st) (st_alert_pct st) org rs now (inner st) of (i, upd, fired) \<Rightarrow>
        announce s wr (fm_values fired) (st\<lparr>inner := i, events := events st @ map (RunUpdate org) upd\<rparr>))"

end
