(* ===== verification/CloudStore.thy ===== *)
theory CloudStore
  imports CloudIngest
begin

text \<open>
  The other operations of the control plane's store (\<open>crates/cloud/src/store.rs\<close>):
  operator mutations with their audit entries, external findings, notification
  stamps, pairing, nonces, activities, and the snapshot.  Each method holds the
  write lock for its whole body and is one transition; the wall clock and SHA-256
  are parameters.
\<close>

definition with_inner :: "(Inner \<Rightarrow> Inner) \<Rightarrow> Store \<Rightarrow> Store" where
  "with_inner f st = st\<lparr>inner := f (inner st)\<rparr>"

definition broadcast :: "StreamEvent \<Rightarrow> Store \<Rightarrow> Store" where
  "broadcast e st = st\<lparr>events := events st @ [e]\<rparr>"

definition put_nested :: "string \<Rightarrow> 'k \<Rightarrow> 'v \<Rightarrow> (string \<rightharpoonup> ('k, 'v) fmap) \<Rightarrow> (string \<rightharpoonup> ('k, 'v) fmap)" where
  "put_nested org k v m = m(org \<mapsto> fmupd k v (org_get fmempty m org))"

definition get_nested :: "(string \<rightharpoonup> ('k, 'v) fmap) \<Rightarrow> string \<Rightarrow> 'k \<Rightarrow> 'v option" where
  "get_nested m org k = Option.bind (m org) (\<lambda>x. fmlookup x k)"

section \<open>The audit trail\<close>

definition append_audit_locked :: "(string \<Rightarrow> string) \<Rightarrow> i64 \<Rightarrow> string \<Rightarrow> string \<Rightarrow> string \<Rightarrow> string \<Rightarrow> string \<Rightarrow> Inner \<Rightarrow> Inner" where
  "append_audit_locked sha now org who what subj det i =
     (let chain = org_get [] (audit_chains i) org
      in i\<lparr>audit_chains := (audit_chains i)(org \<mapsto> chain @ [audit_append sha (opt_last None chain) now who what subj det])\<rparr>)"

definition store_audit_append :: "(string \<Rightarrow> string) \<Rightarrow> i64 \<Rightarrow> string \<Rightarrow> string \<Rightarrow> string \<Rightarrow> string \<Rightarrow> string \<Rightarrow> Inner \<Rightarrow> Inner" where
  "store_audit_append sha now org who what subj det i = append_audit_locked sha now org who what subj det (i\<lparr>dirty := True\<rparr>)"

definition store_audit :: "Inner \<Rightarrow> string \<Rightarrow> AuditEntry list" where
  "store_audit i org = org_get [] (audit_chains i) org"

definition audit_verify :: "(string \<Rightarrow> string) \<Rightarrow> Inner \<Rightarrow> string \<Rightarrow> (nat, unit) result" where
  "audit_verify sha i org = (case audit_chains i org of Some chain \<Rightarrow> verify_chain sha chain | None \<Rightarrow> Inr ())"

section \<open>Operator mutations\<close>

definition kill_locked :: "string \<Rightarrow> string \<Rightarrow> Inner \<Rightarrow> Inner" where
  "kill_locked org run i = i\<lparr>dirty := True, killed := put_nested org run True (killed i)\<rparr>"

definition kill :: "string \<Rightarrow> string \<Rightarrow> Store \<Rightarrow> Store" where
  "kill org run st = broadcast (KillEvent org run) (with_inner (kill_locked org run) st)"

definition kill_audited :: "(string \<Rightarrow> string) \<Rightarrow> i64 \<Rightarrow> string \<Rightarrow> string \<Rightarrow> string \<Rightarrow> Store \<Rightarrow> Store" where
  "kill_audited sha now org run who st =
     broadcast (KillEvent org run)
       (with_inner (\<lambda>i. append_audit_locked sha now org who ''control.kill'' run ''mode=hard'' (kill_locked org run i)) st)"

definition kills :: "Inner \<Rightarrow> string \<Rightarrow> string list" where
  "kills i org = map fst (filter snd (fm_items (org_get fmempty (killed i) org)))"

definition budget_locked :: "string \<Rightarrow> string \<Rightarrow> i64 \<Rightarrow> Inner \<Rightarrow> Inner" where
  "budget_locked org run micros i = i\<lparr>dirty := True, budgets := put_nested org run micros (budgets i)\<rparr>"

definition set_budget :: "string \<Rightarrow> string \<Rightarrow> i64 \<Rightarrow> Store \<Rightarrow> Store" where
  "set_budget org run micros st = broadcast (BudgetEvent org run micros) (with_inner (budget_locked org run micros) st)"

definition set_budget_audited :: "(string \<Rightarrow> string) \<Rightarrow> i64 \<Rightarrow> string \<Rightarrow> string \<Rightarrow> i64 \<Rightarrow> string \<Rightarrow> Store \<Rightarrow> Store" where
  "set_budget_audited sha now org run micros who st =
     broadcast (BudgetEvent org run micros)
       (with_inner (\<lambda>i. append_audit_locked sha now org who ''control.set_budget'' run (''budget_micros='' @ int_str micros)
                          (budget_locked org run micros i)) st)"

definition store_budgets :: "Inner \<Rightarrow> string \<Rightarrow> (string, i64) fmap" where
  "store_budgets i org = org_get fmempty (budgets i) org"

definition set_unit_budget :: "string \<Rightarrow> string \<Rightarrow> i64 \<Rightarrow> Inner \<Rightarrow> Inner" where
  "set_unit_budget org unt micros i = i\<lparr>dirty := True, unit_budgets := put_nested org unt micros (unit_budgets i)\<rparr>"

definition set_unit_budget_audited :: "(string \<Rightarrow> string) \<Rightarrow> i64 \<Rightarrow> string \<Rightarrow> string \<Rightarrow> i64 \<Rightarrow> string \<Rightarrow> Inner \<Rightarrow> Inner" where
  "set_unit_budget_audited sha now org unt micros who i =
     append_audit_locked sha now org who ''control.unit_budget_set'' unt (''budget_micros='' @ int_str micros)
       (set_unit_budget org unt micros i)"

definition store_unit_budgets :: "Inner \<Rightarrow> string \<Rightarrow> (string, i64) fmap" where
  "store_unit_budgets i org = org_get fmempty (unit_budgets i) org"

section \<open>Incidents\<close>

definition ack_incident :: "string \<Rightarrow> string \<Rightarrow> Inner \<Rightarrow> bool \<times> Inner" where
  "ack_incident org iid i =
     (case get_nested (incidents i) org iid of
        Some inc \<Rightarrow> (True, i\<lparr>incidents := put_nested org iid (inc\<lparr>inc_ack := True\<rparr>) (incidents i), dirty := True\<rparr>)
      | None \<Rightarrow> (False, i))"

definition ack_incident_audited :: "(string \<Rightarrow> string) \<Rightarrow> i64 \<Rightarrow> string \<Rightarrow> string \<Rightarrow> string \<Rightarrow> Inner \<Rightarrow> bool \<times> Inner" where
  "ack_incident_audited sha now org iid who i =
     (case ack_incident org iid i of (found, i) \<Rightarrow>
        if found then (True, append_audit_locked sha now org who ''control.incident_ack'' iid [] i) else (False, i))"

record FindingInput =
  f_source :: string
  f_detector :: string
  f_severity :: Severity
  f_subject :: string
  f_summary :: string
  f_ts :: i64

definition agent_subject :: "string \<Rightarrow> string option" where
  "agent_subject s = (if starts_with s ''agent://'' then Some s else None)"

definition stamp_finding :: "FindingInput \<Rightarrow> Incident \<Rightarrow> Incident" where
  "stamp_finding f inc =
     (let inc = inc\<lparr>inc_source := Some (f_source f)\<rparr> in if f_summary f = [] then inc else inc\<lparr>inc_summary := Some (f_summary f)\<rparr>)"

definition record_external_finding :: "(string \<Rightarrow> string) \<Rightarrow> i64 \<Rightarrow> string \<Rightarrow> string \<Rightarrow> FindingInput \<Rightarrow> Inner \<Rightarrow> Incident \<times> Inner" where
  "record_external_finding sha now org reported_by f i =
     (case upsert_incident org (f_detector f) (f_severity f) (f_subject f) None (agent_subject (f_subject f)) (f_ts f) i of (inc, i) \<Rightarrow>
        (case get_nested (incidents i) org (inc_id inc) of
           Some stored \<Rightarrow>
             (let out = stamp_finding f stored;
                  i = i\<lparr>incidents := put_nested org (inc_id inc) out (incidents i)\<rparr>;
                  i = append_audit_locked sha now org reported_by ''control.finding_recorded'' (inc_id out) (f_source f) i
              in (out, i\<lparr>dirty := True\<rparr>))
         | None \<Rightarrow> (inc, i\<lparr>dirty := True\<rparr>)))"

definition mark_incident_notified :: "string \<Rightarrow> string \<Rightarrow> i64 \<Rightarrow> i64 \<Rightarrow> Inner \<Rightarrow> bool \<times> Inner" where
  "mark_incident_notified org iid now window_ms i =
     (case get_nested (incidents i) org iid of
        Some inc \<Rightarrow>
          if window_ms < wrap_i64 (now - inc_notified inc)
          then (True, i\<lparr>incidents := put_nested org iid (inc\<lparr>inc_notified := now\<rparr>) (incidents i), dirty := True\<rparr>)
          else (False, i)
      | None \<Rightarrow> (False, i))"

section \<open>Devices\<close>

definition create_pairing :: "string \<Rightarrow> string \<Rightarrow> string \<Rightarrow> i64 \<Rightarrow> Inner \<Rightarrow> Inner" where
  "create_pairing code org role expires i =
     i\<lparr>pairings := (pairings i)(code \<mapsto> \<lparr> pr_org = org, pr_role = role, pr_expires = expires \<rparr>)\<rparr>"

definition redeem_pairing :: "string \<Rightarrow> i64 \<Rightarrow> string \<Rightarrow> string \<Rightarrow> string \<Rightarrow> string \<Rightarrow> string \<Rightarrow> Inner \<Rightarrow> Device option \<times> Inner" where
  "redeem_pairing code now did token pubkey name platform i =
     (case pairings i code of
        None \<Rightarrow> (None, i)
      | Some p \<Rightarrow>
          let i = i\<lparr>pairings := (pairings i)(code := None)\<rparr> in
          if pr_expires p < now then (None, i)
          else let d = \<lparr> dev_id = did, dev_org = pr_org p, dev_role = pr_role p, dev_name = name, dev_platform = platform,
                         dev_pubkey = pubkey, dev_apns = None \<rparr>
               in (Some d, i\<lparr>dirty := True, devices := fmupd token d (devices i)\<rparr>))"

definition redeem_pairing_audited :: "(string \<Rightarrow> string) \<Rightarrow> i64 \<Rightarrow> string \<Rightarrow> i64 \<Rightarrow> string \<Rightarrow> string \<Rightarrow> string \<Rightarrow> string \<Rightarrow> string
    \<Rightarrow> Inner \<Rightarrow> Device option \<times> Inner" where
  "redeem_pairing_audited sha now_ms code now did token pubkey name platform i =
     (case redeem_pairing code now did token pubkey name platform i of
        (None, i) \<Rightarrow> (None, i)
      | (Some d, i) \<Rightarrow> (Some d, append_audit_locked sha now_ms (dev_org d) (''device:'' @ dev_id d) ''control.pair'' (dev_id d)
           (''role='' @ dev_role d @ '';platform='' @ dev_platform d) i))"

definition device_by_token :: "Inner \<Rightarrow> string \<Rightarrow> Device option" where
  "device_by_token i token = fmlookup (devices i) token"

definition check_and_record_nonce :: "string \<Rightarrow> string \<Rightarrow> Inner \<Rightarrow> bool \<times> Inner" where
  "check_and_record_nonce did nonce i =
     (let seen = org_get [] (nonces i) did in
      if nonce \<in> set seen then (False, i\<lparr>nonces := (nonces i)(did \<mapsto> seen)\<rparr>)
      else (True, i\<lparr>nonces := (nonces i)(did \<mapsto> last_n NONCE_CAP (seen @ [nonce]))\<rparr>))"

definition devices_for_org :: "Inner \<Rightarrow> string \<Rightarrow> Device list" where
  "devices_for_org i org = filter (\<lambda>d. dev_org d = org) (fm_values (devices i))"

definition set_apns_token :: "string \<Rightarrow> string \<Rightarrow> Inner \<Rightarrow> bool \<times> Inner" where
  "set_apns_token did token i =
     (case List.find (\<lambda>e. dev_id (snd e) = did) (fm_items (devices i)) of
        Some (k, d) \<Rightarrow> (True, i\<lparr>devices := fmupd k (d\<lparr>dev_apns := Some token\<rparr>) (devices i), dirty := True\<rparr>)
      | None \<Rightarrow> (False, i))"

definition register_activity :: "string \<Rightarrow> string \<Rightarrow> string \<Rightarrow> Inner \<Rightarrow> Inner" where
  "register_activity org run token i =
     (let m = org_get Map.empty (activities i) org
      in i\<lparr>activities := (activities i)(org \<mapsto> m(run \<mapsto> org_get [] m run @ [token]))\<rparr>)"

definition activities_for_run :: "Inner \<Rightarrow> string \<Rightarrow> string \<Rightarrow> string list" where
  "activities_for_run i org run = org_get [] (org_get Map.empty (activities i) org) run"

definition take_dirty :: "Inner \<Rightarrow> bool \<times> Inner" where
  "take_dirty i = (dirty i, i\<lparr>dirty := False\<rparr>)"

section \<open>Snapshots\<close>

record Snapshot =
  sn_orgs :: "string \<rightharpoonup> (string, RunAgg) fmap"
  sn_killed :: "string \<rightharpoonup> (string, bool) fmap"
  sn_budgets :: "string \<rightharpoonup> (string, i64) fmap"
  sn_unit_budgets :: "string \<rightharpoonup> (string, i64) fmap"
  sn_devices :: "(string, Device) fmap"
  sn_savings :: "string \<rightharpoonup> SavingsAcc"
  sn_unit_months :: "string \<rightharpoonup> (string, UnitMonthAcc) fmap"
  sn_decision_counts :: "string \<rightharpoonup> (string, u64) fmap"
  sn_incidents :: "string \<rightharpoonup> (string, Incident) fmap"
  sn_audit :: "string \<rightharpoonup> AuditEntry list"
  sn_org_totals :: "string \<rightharpoonup> OrgTotals"

definition snapshot_of :: "Inner \<Rightarrow> Snapshot" where
  "snapshot_of i = \<lparr> sn_orgs = orgs i, sn_killed = killed i, sn_budgets = budgets i, sn_unit_budgets = unit_budgets i,
     sn_devices = devices i, sn_savings = savings i, sn_unit_months = unit_months i, sn_decision_counts = decision_counts i,
     sn_incidents = incidents i, sn_audit = audit_chains i, sn_org_totals = org_totals i \<rparr>"

definition backfill_breaks :: "SavingsAcc \<Rightarrow> SavingsAcc" where
  "backfill_breaks s = (if sv_budget_breaks s < fcard (sv_breaks s) then s\<lparr>sv_budget_breaks := fcard (sv_breaks s)\<rparr> else s)"

definition backfill_totals :: "(string, RunAgg) fmap \<Rightarrow> OrgTotals" where
  "backfill_totals runs =
     foldl (\<lambda>t a. t\<lparr>ot_calls := wrap_u64 (ot_calls t + ra_calls a), ot_spent := sat_i64 (ot_spent t + ra_spent a)\<rparr>)
       org_totals_default (fm_values runs)"

definition seed_recency :: "(string, RunAgg) fmap \<Rightarrow> string RecencyIndex" where
  "seed_recency runs = foldl (\<lambda>r k. touch k r) recency_default (map ra_run_id (sort_key ra_last_seen (fm_values runs)))"

text \<open>Installing a snapshot; the audit check after it only logs.\<close>
definition install_snapshot :: "Snapshot \<Rightarrow> Inner \<Rightarrow> Inner" where
  "install_snapshot s i =
     i\<lparr>orgs := sn_orgs s, killed := sn_killed s, budgets := sn_budgets s, unit_budgets := sn_unit_budgets s,
       devices := sn_devices s, savings := (\<lambda>org. map_option backfill_breaks (sn_savings s org)),
       unit_months := sn_unit_months s, decision_counts := sn_decision_counts s, incidents := sn_incidents s,
       audit_chains := sn_audit s,
       org_totals := (\<lambda>org. case sn_org_totals s org of Some t \<Rightarrow> Some t | None \<Rightarrow> map_option backfill_totals (sn_orgs s org)),
       run_recency := (\<lambda>org. map_option seed_recency (sn_orgs s org))\<rparr>"

datatype file_read = FileMissing | FileError string | FileData string

text \<open>\<open>save\<close> up to the file: the bytes it hands to the private write and the rename.\<close>
definition save_bytes :: "(Snapshot \<Rightarrow> string) \<Rightarrow> Inner \<Rightarrow> string" where
  "save_bytes print_snapshot i = print_snapshot (snapshot_of i)"

definition store_load :: "(string \<Rightarrow> Snapshot option) \<Rightarrow> file_read \<Rightarrow> Inner \<Rightarrow> (string, Inner) result" where
  "store_load read_snapshot f i =
     (case f of
        FileMissing \<Rightarrow> Inr i
      | FileError e \<Rightarrow> Inl e
      | FileData bytes \<Rightarrow> (case read_snapshot bytes of None \<Rightarrow> Inl ''invalid data'' | Some s \<Rightarrow> Inr (install_snapshot s i)))"

end
