(* ===== verification/CloudViews.thy ===== *)
theory CloudViews
  imports CloudStore "HOL-Library.Product_Lexorder"
begin

text \<open>
  The read side of the control plane's store (\<open>crates/cloud/src/store.rs\<close>): the
  burn-rate series, run lists, totals, per-agent and per-unit rollups, savings,
  alerts and incident listings.  \<open>sort_by_key\<close> is a stable sort; \<open>Reverse\<close> negates
  the integer key.
\<close>

section \<open>Series\<close>

record SeriesBucket =
  sb_t :: i64
  sb_cost :: i64
  sb_calls :: u64
  sb_blocked :: u64
  sb_tool_calls :: u64

definition bucket_new :: "i64 \<Rightarrow> SeriesBucket" where
  "bucket_new t = \<lparr> sb_t = t, sb_cost = 0, sb_calls = 0, sb_blocked = 0, sb_tool_calls = 0 \<rparr>"

text \<open>\<open>as usize\<close> of an \<open>i64\<close>.\<close>
definition as_usize :: "i64 \<Rightarrow> usize" where
  "as_usize x = nat (x mod 18446744073709551616)"

definition add_sample :: "Sample \<Rightarrow> SeriesBucket \<Rightarrow> SeriesBucket" where
  "add_sample s b =
     b\<lparr>sb_cost := sat_i64 (sb_cost b + sm_cost s), sb_calls := wrap_u64 (sb_calls b + 1),
       sb_blocked := (if sm_blocked s then wrap_u64 (sb_blocked b + 1) else sb_blocked b),
       sb_tool_calls := sat_u64 (sb_tool_calls b + sm_tool_calls s)\<rparr>"

definition in_scope :: "string option \<Rightarrow> i64 \<Rightarrow> i64 \<Rightarrow> Sample \<Rightarrow> bool" where
  "in_scope run start now s \<longleftrightarrow> start \<le> sm_ts s \<and> sm_ts s \<le> now \<and> (case run of Some r \<Rightarrow> sm_run s = r | None \<Rightarrow> True)"

definition sample_index :: "i64 \<Rightarrow> i64 \<Rightarrow> nat \<Rightarrow> Sample \<Rightarrow> nat" where
  "sample_index start step n s = min (as_usize (tdiv (wrap_i64 (sm_ts s - start)) step)) (n - 1)"

definition bucket_count :: "i64 \<Rightarrow> i64 \<Rightarrow> nat" where
  "bucket_count window step = min (as_usize (max (tdiv window step) 1)) MAX_SERIES_BUCKETS"

definition store_series :: "Inner \<Rightarrow> string \<Rightarrow> string option \<Rightarrow> i64 \<Rightarrow> i64 \<Rightarrow> i64 \<Rightarrow> SeriesBucket list" where
  "store_series i org run window_ms step_ms now =
     (let step = max step_ms 1; window = max window_ms step; start = wrap_i64 (now - window);
          n = bucket_count window step;
          buckets = map (\<lambda>k. bucket_new (wrap_i64 (start + wrap_i64 (int k * step)))) [0..<n]
      in case series_log i org of
           None \<Rightarrow> buckets
         | Some lg \<Rightarrow> foldl (\<lambda>bs s. let k = sample_index start step n s in bs[k := add_sample s (bs ! k)])
                        buckets (filter (in_scope run start now) lg))"

section \<open>Runs and totals\<close>

definition is_killed :: "Inner \<Rightarrow> string \<Rightarrow> string \<Rightarrow> bool" where
  "is_killed i org run = (case get_nested (killed i) org run of Some k \<Rightarrow> k | None \<Rightarrow> False)"

definition store_runs :: "Inner \<Rightarrow> string \<Rightarrow> RunAgg list" where
  "store_runs i org = map (\<lambda>a. a\<lparr>ra_killed := is_killed i org (ra_run_id a)\<rparr>) (fm_values (org_get fmempty (orgs i) org))"

definition run_belongs_to_org :: "Inner \<Rightarrow> string \<Rightarrow> string \<Rightarrow> bool" where
  "run_belongs_to_org i org run \<longleftrightarrow> get_nested (orgs i) org run \<noteq> None"

record Summary =
  su_runs :: u64
  su_calls :: u64
  su_spent :: i64
  su_tool_calls :: u64

definition store_summary :: "Inner \<Rightarrow> string \<Rightarrow> Summary" where
  "store_summary i org =
     (let t = org_get org_totals_default (org_totals i) org
      in \<lparr> su_runs = fm_len (org_get fmempty (orgs i) org), su_calls = ot_calls t, su_spent = ot_spent t,
           su_tool_calls = ot_tool_calls t \<rparr>)"

section \<open>Rollups\<close>

record AgentAgg =
  ag_agent_id :: string
  ag_spent :: i64
  ag_calls :: u64
  ag_runs :: u64
  ag_last_seen :: i64
  ag_tool_calls :: u64

definition add_agent_run :: "(string, AgentAgg) fmap \<Rightarrow> RunAgg \<Rightarrow> (string, AgentAgg) fmap" where
  "add_agent_run m r =
     (let a = (case fmlookup m (ra_agent r) of Some a \<Rightarrow> a
               | None \<Rightarrow> \<lparr> ag_agent_id = ra_agent r, ag_spent = 0, ag_calls = 0, ag_runs = 0, ag_last_seen = 0, ag_tool_calls = 0 \<rparr>)
      in fmupd (ra_agent r)
           (a\<lparr>ag_spent := sat_i64 (ag_spent a + ra_spent r), ag_calls := wrap_u64 (ag_calls a + ra_calls r),
              ag_runs := wrap_u64 (ag_runs a + 1), ag_last_seen := max (ag_last_seen a) (ra_last_seen r),
              ag_tool_calls := sat_u64 (ag_tool_calls a + ra_tool_calls r)\<rparr>) m)"

definition store_agents :: "Inner \<Rightarrow> string \<Rightarrow> AgentAgg list" where
  "store_agents i org =
     sort_key (\<lambda>a. - ag_spent a) (fm_values (foldl add_agent_run fmempty (fm_values (org_get fmempty (orgs i) org))))"

record UnitAgg =
  ua_unit :: string
  ua_spent :: i64
  ua_calls :: u64
  ua_runs :: u64
  ua_last_seen :: i64
  ua_tool_calls :: u64
  ua_month :: string
  ua_month_spent :: i64
  ua_month_calls :: u64

definition unit_agg_new :: "string \<Rightarrow> UnitAgg" where
  "unit_agg_new u = \<lparr> ua_unit = u, ua_spent = 0, ua_calls = 0, ua_runs = 0, ua_last_seen = 0, ua_tool_calls = 0,
     ua_month = '''', ua_month_spent = 0, ua_month_calls = 0 \<rparr>"

definition unit_agg_get :: "(string, UnitAgg) fmap \<Rightarrow> string \<Rightarrow> UnitAgg" where
  "unit_agg_get m u = (case fmlookup m u of Some a \<Rightarrow> a | None \<Rightarrow> unit_agg_new u)"

definition add_unit_run :: "(string, UnitAgg) fmap \<Rightarrow> RunAgg \<Rightarrow> (string, UnitAgg) fmap" where
  "add_unit_run m r =
     (let k = unit_key (ra_unit r); u = unit_agg_get m k
      in fmupd k (u\<lparr>ua_spent := sat_i64 (ua_spent u + ra_spent r), ua_calls := wrap_u64 (ua_calls u + ra_calls r),
                    ua_runs := wrap_u64 (ua_runs u + 1), ua_last_seen := max (ua_last_seen u) (ra_last_seen r),
                    ua_tool_calls := sat_u64 (ua_tool_calls u + ra_tool_calls r)\<rparr>) m)"

definition join_month :: "string \<Rightarrow> (string, UnitAgg) fmap \<Rightarrow> string \<times> UnitMonthAcc \<Rightarrow> (string, UnitAgg) fmap" where
  "join_month month_now m e =
     (let u = unit_agg_get m (fst e)
      in fmupd (fst e) (if um_window (snd e) = month_now
                        then u\<lparr>ua_month_spent := um_spent (snd e), ua_month_calls := um_calls (snd e)\<rparr> else u) m)"

definition store_units_at :: "Inner \<Rightarrow> string \<Rightarrow> i64 \<Rightarrow> UnitAgg list" where
  "store_units_at i org now =
     (let month_now = cloud_month_key now;
          m = foldl add_unit_run fmempty (fm_values (org_get fmempty (orgs i) org));
          m = foldl (join_month month_now) m (fm_items (org_get fmempty (unit_months i) org))
      in sort_key (\<lambda>u. (- ua_month_spent u, - ua_spent u)) (map (\<lambda>u. u\<lparr>ua_month := month_now\<rparr>) (fm_values m)))"

record SavingsSummary =
  ss_blocked :: i64
  ss_cache :: i64
  ss_router :: i64
  ss_budget_breaks :: u64
  ss_total :: i64

definition store_savings :: "Inner \<Rightarrow> string \<Rightarrow> SavingsSummary" where
  "store_savings i org =
     (let a = org_get savings_default (savings i) org
      in \<lparr> ss_blocked = sv_blocked a, ss_cache = sv_cache a, ss_router = sv_router a, ss_budget_breaks = sv_budget_breaks a,
           ss_total = sat_i64 (sat_i64 (sv_blocked a + sv_cache a) + sv_router a) \<rparr>)"

section \<open>Evidence, incidents and alerts\<close>

definition store_decision_counts :: "Inner \<Rightarrow> string \<Rightarrow> (string \<times> u64) list" where
  "store_decision_counts i org = fm_items (org_get fmempty (decision_counts i) org)"

definition incident_kind_counts :: "Inner \<Rightarrow> string \<Rightarrow> (string \<times> u64) list" where
  "incident_kind_counts i org =
     fm_items (foldl (\<lambda>m inc. fmupd (inc_kind inc) (wrap_u64 ((case fmlookup m (inc_kind inc) of Some n \<Rightarrow> n | None \<Rightarrow> 0) + 1)) m)
       fmempty (fm_values (org_get fmempty (incidents i) org)))"

definition store_incidents :: "Inner \<Rightarrow> string \<Rightarrow> Incident list" where
  "store_incidents i org = sort_key (\<lambda>x. - inc_last x) (fm_values (org_get fmempty (incidents i) org))"

record Alert =
  al_run :: string
  al_spent :: i64
  al_budget :: i64
  al_fraction :: f64
  al_killed :: bool

definition alert_for :: "Inner \<Rightarrow> string \<Rightarrow> f64 \<Rightarrow> string \<times> i64 \<Rightarrow> Alert option" where
  "alert_for i org pct e =
     (case e of (run, budget) \<Rightarrow>
        if budget \<le> 0 then None
        else let spent = (case get_nested (orgs i) org run of Some a \<Rightarrow> ra_spent a | None \<Rightarrow> 0);
                 fraction = f64_quot spent budget
             in if f64_ge fraction pct
                then Some \<lparr> al_run = run, al_spent = spent, al_budget = budget, al_fraction = fraction, al_killed = is_killed i org run \<rparr>
                else None)"

definition store_alerts :: "Inner \<Rightarrow> string \<Rightarrow> f64 \<Rightarrow> Alert list" where
  "store_alerts i org pct =
     (case budgets i org of None \<Rightarrow> [] | Some bs \<Rightarrow> List.map_filter (alert_for i org pct) (fm_items bs))"

end
