(* ===== verification/CloudSafety.thy ===== *)
theory CloudSafety
  imports CloudViews
begin

text \<open>
  The control plane's store over every sequence of its operations.  Its memory is bounded
  whatever is pushed to it: every map, set, queue and deque that an ingest can grow stays
  within its cap, and each recency index holds exactly the keys of the map it bounds.
\<close>

section \<open>Bounded maps and their indexes\<close>

text \<open>A finite map and the recency index over its keys.\<close>
definition capped :: "nat \<Rightarrow> 'k RecencyIndex \<Rightarrow> ('k, 'v) fmap \<Rightarrow> bool" where
  "capped cap r m \<longleftrightarrow> ri.bounds cap r (fset (fmdom m))"

lemma capped_len: "capped cap r m \<Longrightarrow> fm_len m \<le> cap"
  by (simp add: capped_def fm_len_card ri.bounds_card)

lemma capped_empty [simp]: "capped cap recency_default fmempty"
  by (simp add: capped_def)

lemma capped_insert:
  assumes "capped cap r m" "fmlookup m k \<noteq> None \<or> fm_len m < cap"
  shows "capped cap (touch k r) (fmupd k v m)"
  using ri.touch_bounds [of cap r "fset (fmdom m)" k] assms
  by (auto simp: capped_def fm_len_card fmlookup_dom_iff)

lemma fset_fmdrop [simp]: "fset (fmdom (fmdrop k m)) = fset (fmdom m) - {k}"
  by simp

text \<open>At the cap, an eviction always finds a key and leaves room for one more.\<close>
lemma capped_evict:
  assumes "capped cap r m" "0 < cap" "cap \<le> fm_len m" "evict_oldest_unprotected p r = (v, r')"
  obtains x where "v = Some x" "fmlookup m x \<noteq> None" "victim p (recency_order r) = Some x"
    "capped cap r' (fmdrop x m)" "fm_len (fmdrop x m) < cap"
proof -
  have b: "ri.bounds cap r (fset (fmdom m))" using assms(1) by (simp add: capped_def)
  obtain x where "v = Some x" "x \<in> fset (fmdom m)" "victim p (recency_order r) = Some x"
      "ri.bounds cap r' (fset (fmdom m) - {x})" "card (fset (fmdom m) - {x}) < cap"
    using ri.evict_bounds [OF b assms(2) _ assms(4)] assms(3) by (auto simp: fm_len_card)
  then show ?thesis using that [of x] by (simp add: capped_def fm_len_card fmlookup_dom_iff)
qed

section \<open>Trackers\<close>

lemma tracker_room_capped:
  assumes "capped MAX_TRACKER_KEYS r m" "make_tracker_room k m r = (m', r')"
  shows "capped MAX_TRACKER_KEYS r' m'" "fmlookup m' k \<noteq> None \<or> fm_len m' < MAX_TRACKER_KEYS"
    "\<And>x d. fmlookup m' x = Some d \<Longrightarrow> fmlookup m x = Some d"
proof -
  have pos: "0 < MAX_TRACKER_KEYS" by (simp add: cloud_caps)
  have "capped MAX_TRACKER_KEYS r' m' \<and> (fmlookup m' k \<noteq> None \<or> fm_len m' < MAX_TRACKER_KEYS)
      \<and> (\<forall>x d. fmlookup m' x = Some d \<longrightarrow> fmlookup m x = Some d)"
  proof (cases "fmlookup m k = None \<and> MAX_TRACKER_KEYS \<le> fm_len m")
    case True
    obtain v r1 where e: "evict_oldest_unprotected (\<lambda>_. False) r = (v, r1)" by (cases "evict_oldest_unprotected (\<lambda>_. False) r")
    obtain x where "v = Some x" "capped MAX_TRACKER_KEYS r1 (fmdrop x m)" "fm_len (fmdrop x m) < MAX_TRACKER_KEYS"
      using capped_evict [OF assms(1) pos _ e] True by blast
    then show ?thesis using assms(2) True e by (auto simp: make_tracker_room_def evict_oldest_eq split: if_splits)
  next
    case False
    then show ?thesis using assms by (auto simp: make_tracker_room_def)
  qed
  then show "capped MAX_TRACKER_KEYS r' m'" "fmlookup m' k \<noteq> None \<or> fm_len m' < MAX_TRACKER_KEYS"
    "\<And>x d. fmlookup m' x = Some d \<Longrightarrow> fmlookup m x = Some d" by auto
qed

text \<open>A tracker with its index, its number of keys and the length of its deques in bounds.\<close>
definition tracker_ok :: "'k RecencyIndex \<Rightarrow> ('k, 'v list) fmap \<Rightarrow> bool" where
  "tracker_ok r m \<longleftrightarrow> capped MAX_TRACKER_KEYS r m \<and> (\<forall>k d. fmlookup m k = Some d \<longrightarrow> length d \<le> INCIDENT_TRACKER_CAP)"

lemma tracker_ok_bump:
  assumes "tracker_ok r m" "make_tracker_room k m r = (m', r')" "length dq \<le> INCIDENT_TRACKER_CAP"
  shows "tracker_ok (touch k r') (fmupd k dq m')"
  using tracker_room_capped [OF _ assms(2)] capped_insert [of MAX_TRACKER_KEYS r' m' k dq] assms(1,3)
  unfolding tracker_ok_def by (auto split: if_splits)

lemma length_dropWhile: "length (dropWhile P xs) \<le> length xs"
  by (rule length_dropWhile_le)

lemma bump_deque_length: "length (bump_deque t w dq) \<le> INCIDENT_TRACKER_CAP"
  by (auto simp: bump_deque_def Let_def intro!: order.trans [OF length_dropWhile] split: option.splits)

lemma bump_fanout_length: "length (bump_fanout_deque run t now w dq) \<le> INCIDENT_TRACKER_CAP"
  by (auto simp: bump_fanout_deque_def Let_def intro!: order.trans [OF length_filter_le])

section \<open>Incidents\<close>

lemma min_by_key_None [simp]: "min_by_key f xs = None \<longleftrightarrow> xs = []"
  by (cases xs) (auto split: option.splits)

lemma min_by_key_mem: "min_by_key f xs = Some x \<Longrightarrow> x \<in> set xs \<and> (\<forall>y\<in>set xs. f x \<le> f y)"
  by (induction xs arbitrary: x) (fastforce split: option.splits if_splits)+

lemma incident_room_len: "fm_len m \<le> MAX_INCIDENTS_PER_ORG \<Longrightarrow> fm_len (fmupd k v (make_incident_room k m)) \<le> MAX_INCIDENTS_PER_ORG"
proof -
  assume le: "fm_len m \<le> MAX_INCIDENTS_PER_ORG"
  have fin: "finite (fset (fmdom m))" by simp
  show ?thesis
  proof (cases "fmlookup m k = None \<and> MAX_INCIDENTS_PER_ORG \<le> fm_len m")
    case True
    have "fm_items m \<noteq> []"
    proof
      assume "fm_items m = []"
      then have "fm_keys m = []" by (simp add: fm_items_def)
      then have "fset (fmdom m) = {}" using set_fm_keys [of m] by simp
      then show False using True by (simp add: fm_len_card cloud_caps)
    qed
    then obtain e where e: "min_by_key (\<lambda>e. inc_last (snd e)) (fm_items m) = Some e"
      by (cases "min_by_key (\<lambda>e. inc_last (snd e)) (fm_items m)") auto
    then have "fst e \<in> fset (fmdom m)" using min_by_key_mem [OF e] by (auto simp: fm_items_def)
    then have "card (fset (fmdom m) - {fst e}) < card (fset (fmdom m))" by (rule card_Diff1_less [OF fin])
    then show ?thesis using True e le
      by (simp add: make_incident_room_def fm_len_card card_insert_if del: card_Diff_insert card_Diff_singleton)
  next
    case False
    then have "k \<in> fset (fmdom m) \<or> card (fset (fmdom m)) < MAX_INCIDENTS_PER_ORG"
      by (auto simp: fm_len_card fmlookup_dom_iff)
    then show ?thesis using False le by (auto simp: make_incident_room_def fm_len_card card_insert_if insert_absorb)
  qed
qed

definition incidents_ok :: "(string \<rightharpoonup> (string, Incident) fmap) \<Rightarrow> bool" where
  "incidents_ok m \<longleftrightarrow> (\<forall>org. fm_len (org_get fmempty m org) \<le> MAX_INCIDENTS_PER_ORG)"

lemma upsert_incidents_ok:
  "incidents_ok (incidents i) \<Longrightarrow> incidents_ok (incidents (snd (upsert_incident org kind sev scope run agent t i)))"
  by (simp add: incidents_ok_def upsert_incident_def Let_def incident_room_len del: fmdom_fmupd)

section \<open>What the detectors touch\<close>

text \<open>The state without the five fields the detectors write.\<close>
definition quiet :: "Inner \<Rightarrow> Inner" where
  "quiet i = i\<lparr>incident_tracker := fmempty, tracker_recency := recency_default, fanout_tracker := fmempty,
     fanout_recency := recency_default, incidents := Map.empty\<rparr>"

lemma quiet_fields: "quiet i = quiet j \<Longrightarrow> orgs i = orgs j \<and> killed i = killed j \<and> budgets i = budgets j
    \<and> unit_budgets i = unit_budgets j \<and> series_log i = series_log j \<and> savings i = savings j \<and> unit_months i = unit_months j
    \<and> decision_counts i = decision_counts j \<and> audit_chains i = audit_chains j \<and> org_totals i = org_totals j
    \<and> run_recency i = run_recency j \<and> break_recency i = break_recency j \<and> devices i = devices j \<and> pairings i = pairings j
    \<and> nonces i = nonces j \<and> activities i = activities j \<and> dirty i = dirty j"
  by (cases i; cases j) (simp add: quiet_def)

lemma quiet_upsert: "quiet (snd (upsert_incident org kind sev scope run agent t i)) = quiet i"
  by (simp add: upsert_incident_def Let_def quiet_def)

lemma quiet_bump: "quiet (snd (bump_tracker org kind scope t w i)) = quiet i"
  by (simp add: bump_tracker_def Let_def quiet_def split: prod.splits)

lemma quiet_bump_fanout: "quiet (snd (bump_fanout_tracker org a run t now w i)) = quiet i"
  by (simp add: bump_fanout_tracker_def Let_def quiet_def split: prod.splits)

lemma fst_fire: "fst (fire org kind sev scope run agent t s) = snd (upsert_incident org kind sev scope run agent t (fst s))"
  by (simp add: fire_def split: prod.splits)

text \<open>Any relation kept by one tracker bump and one upsert is kept by a detector.\<close>
lemma detect_cases:
  fixes P :: "Inner \<Rightarrow> Inner \<Rightarrow> bool"
  assumes P: "reflp P" "transp P"
    and bump: "\<And>kind scope t w i. P i (snd (bump_tracker org kind scope t w i))"
    and fan: "\<And>a run t now w i. P i (snd (bump_fanout_tracker org a run t now w i))"
    and ups: "\<And>kind sev scope run agent t i. P i (snd (upsert_incident org kind sev scope run agent t i))"
  shows "P (fst s) (fst (detect_record cfg org now s r))" "P (fst s) (fst (detect_spike cfg org now s))"
proof -
  have refl: "P i i" for i using P(1) by (rule reflpD)
  have fire: "P i (fst (fire org kind sev scope run agent t (j, f)))" if "P i j" for kind sev scope run agent t i j f
    using transpD [OF P(2) that ups] by (simp add: fst_fire)
  have b: "P (fst s) (fst (detect_budget cfg org now r s))" for s
  proof -
    obtain n j where nj: "bump_tracker org ''budget_exhausted'' (rec_run r) (event_ts now r) None (fst s) = (n, j)" by fastforce
    then have "P (fst s) j" using bump [of "fst s"] by (metis snd_conv)
    then show ?thesis using refl by (simp add: detect_budget_def nj fire)
  qed
  have l: "P (fst s) (fst (detect_loop cfg org now r s))" for s
  proof -
    obtain n j where nj: "bump_tracker org ''sustained_loop'' (rec_run r) (event_ts now r) (Some (now, loop_window_ms cfg)) (fst s) = (n, j)"
      by fastforce
    then have "P (fst s) j" using bump [of "fst s"] by (metis snd_conv)
    then show ?thesis using refl by (simp add: detect_loop_def nj fire)
  qed
  have f: "P (fst s) (fst (detect_fanout cfg org now r s))" for s
  proof (cases "rec_agent_opt r")
    case (Some a)
    obtain n j where nj: "bump_fanout_tracker org a (rec_run r) (event_ts now r) now (fanout_window_ms cfg) (fst s) = (n, j)" by fastforce
    then have "P (fst s) j" using fan [of "fst s"] by (metis snd_conv)
    then show ?thesis by (simp add: detect_fanout_def nj fire Some)
  qed (simp add: detect_fanout_def refl)
  show "P (fst s) (fst (detect_record cfg org now s r))"
    unfolding detect_record_def using transpD [OF P(2) transpD [OF P(2) b l] f] .
  show "P (fst s) (fst (detect_spike cfg org now s))"
    using fire [of "fst s" "fst s" _ _ _ _ _ _ "snd s"] refl by (simp add: detect_spike_def Let_def)
qed

text \<open>And so by the whole detection pass.\<close>
lemma detect_pass:
  assumes "reflp P" "transp P"
    "\<And>kind scope t w i. P i (snd (bump_tracker org kind scope t w i))"
    "\<And>a run t now w i. P i (snd (bump_fanout_tracker org a run t now w i))"
    "\<And>kind sev scope run agent t i. P i (snd (upsert_incident org kind sev scope run agent t i))"
  shows "P i (fst (detect_spike cfg org now (foldl (detect_record cfg org now) (i, f) rs)))"
proof -
  note c = detect_cases [of P org, OF assms]
  have fold: "P (fst s) (fst (foldl (detect_record cfg org now) s rs))" for s
  proof (induction rs arbitrary: s)
    case (Cons r rs)
    show ?case using transpD [OF assms(2) c(1) Cons] by simp
  qed (simp add: reflpD [OF assms(1)])
  show ?thesis using transpD [OF assms(2) fold [of "(i, f)"] c(2)] by simp
qed

section \<open>Histories of the store\<close>

datatype cop =
    Ingest string "CloudCallRecord list" i64
  | Kill string string
  | KillAudited string string string i64
  | SetBudget string string i64
  | SetBudgetAudited string string i64 string i64
  | SetUnitBudget string string i64
  | SetUnitBudgetAudited string string i64 string i64
  | Ack string string
  | AckAudited string string string i64
  | Finding string string FindingInput i64
  | Notify string string i64 i64
  | AuditAppend string string string string string i64
  | PairNew string string string i64
  | Redeem string i64 string string string string string
  | RedeemAudited string i64 string string string string string i64
  | Nonce string string
  | Apns string string
  | Activity string string string
  | TakeDirty

fun cop_inner :: "(string \<Rightarrow> string) \<Rightarrow> IncidentConfig \<Rightarrow> f64 \<Rightarrow> cop \<Rightarrow> Inner \<Rightarrow> Inner" where
  "cop_inner sha cfg pct (Ingest org rs now) i = fst (ingest_locked cfg pct org rs now i)"
| "cop_inner sha cfg pct (Kill org run) i = kill_locked org run i"
| "cop_inner sha cfg pct (KillAudited org run who now) i =
     append_audit_locked sha now org who ''control.kill'' run ''mode=hard'' (kill_locked org run i)"
| "cop_inner sha cfg pct (SetBudget org run m) i = budget_locked org run m i"
| "cop_inner sha cfg pct (SetBudgetAudited org run m who now) i =
     append_audit_locked sha now org who ''control.set_budget'' run (''budget_micros='' @ int_str m) (budget_locked org run m i)"
| "cop_inner sha cfg pct (SetUnitBudget org u m) i = set_unit_budget org u m i"
| "cop_inner sha cfg pct (SetUnitBudgetAudited org u m who now) i = set_unit_budget_audited sha now org u m who i"
| "cop_inner sha cfg pct (Ack org iid) i = snd (ack_incident org iid i)"
| "cop_inner sha cfg pct (AckAudited org iid who now) i = snd (ack_incident_audited sha now org iid who i)"
| "cop_inner sha cfg pct (Finding org who f now) i = snd (record_external_finding sha now org who f i)"
| "cop_inner sha cfg pct (Notify org iid now w) i = snd (mark_incident_notified org iid now w i)"
| "cop_inner sha cfg pct (AuditAppend org who what subj det now) i = store_audit_append sha now org who what subj det i"
| "cop_inner sha cfg pct (PairNew code org role expires) i = create_pairing code org role expires i"
| "cop_inner sha cfg pct (Redeem code now did tok pk name pf) i = snd (redeem_pairing code now did tok pk name pf i)"
| "cop_inner sha cfg pct (RedeemAudited code now did tok pk name pf ms) i =
     snd (redeem_pairing_audited sha ms code now did tok pk name pf i)"
| "cop_inner sha cfg pct (Nonce did n) i = snd (check_and_record_nonce did n i)"
| "cop_inner sha cfg pct (Apns did tok) i = snd (set_apns_token did tok i)"
| "cop_inner sha cfg pct (Activity org run tok) i = register_activity org run tok i"
| "cop_inner sha cfg pct TakeDirty i = snd (take_dirty i)"

definition cloud_run :: "(string \<Rightarrow> string) \<Rightarrow> IncidentConfig \<Rightarrow> f64 \<Rightarrow> cop list \<Rightarrow> Inner \<Rightarrow> Inner" where
  "cloud_run sha cfg pct ops i = foldl (\<lambda>i op. cop_inner sha cfg pct op i) i ops"

lemma cloud_run_simps [simp]:
  "cloud_run sha cfg pct [] i = i"
  "cloud_run sha cfg pct (ops @ [op]) i = cop_inner sha cfg pct op (cloud_run sha cfg pct ops i)"
  by (simp_all add: cloud_run_def)

text \<open>The history is what the methods of the store do to the guarded state.\<close>
lemma cop_inner_methods:
  "inner (ingest_at s wr org rs now st) = cop_inner sha (incident_cfg st) (st_alert_pct st) (Ingest org rs now) (inner st)"
  "inner (kill org run st) = cop_inner sha cfg pct (Kill org run) (inner st)"
  "inner (kill_audited sha now org run who st) = cop_inner sha cfg pct (KillAudited org run who now) (inner st)"
  "inner (set_budget org run m st) = cop_inner sha cfg pct (SetBudget org run m) (inner st)"
  "inner (set_budget_audited sha now org run m who st) = cop_inner sha cfg pct (SetBudgetAudited org run m who now) (inner st)"
proof -
  have "inner (announce s wr incs st) = inner st" for incs st
    by (induction incs arbitrary: st) simp_all
  then show "inner (ingest_at s wr org rs now st) = cop_inner sha (incident_cfg st) (st_alert_pct st) (Ingest org rs now) (inner st)"
    by (simp add: ingest_at_def split: prod.splits)
qed (simp_all add: kill_def kill_audited_def set_budget_def set_budget_audited_def broadcast_def with_inner_def)

section \<open>Bounds\<close>

definition months_ok :: "(string, UnitMonthAcc) fmap \<Rightarrow> bool" where
  "months_ok m \<longleftrightarrow> card (fset (fmdom m) - {''unassigned''}) \<le> MAX_UNIT_MONTH_KEYS"

definition view_ok :: "OrgView \<Rightarrow> bool" where
  "view_ok v \<longleftrightarrow> capped MAX_RUNS_PER_ORG (v_recency v) (v_runs v)
     \<and> ri.bounds MAX_BREAK_KEYS (v_break_recency v) (fset (sv_breaks (v_sav v))) \<and> months_ok (v_months v)"

definition store_ok :: "Inner \<Rightarrow> bool" where
  "store_ok i \<longleftrightarrow> (\<forall>org. view_ok (org_view i org)) \<and> tracker_ok (tracker_recency i) (incident_tracker i)
     \<and> tracker_ok (fanout_recency i) (fanout_tracker i) \<and> incidents_ok (incidents i)
     \<and> (\<forall>org. length (org_get [] (series_log i) org) \<le> SERIES_CAP) \<and> (\<forall>d. length (org_get [] (nonces i) d) \<le> NONCE_CAP)"

lemma card_Suc_Diff1_le: "card (fset A) \<le> Suc (card (fset A - {x}))"
proof (cases "x \<in> fset A")
  case True
  then have "Suc (card (fset A - {x})) = card (fset A)" by (intro card_Suc_Diff1) simp_all
  then show ?thesis by (rule eq_imp_le [OF sym])
next
  case False
  then have "fset A - {x} = fset A" by blast
  then show ?thesis by (simp only: le_SucI order_refl)
qed

lemma run_room_ok:
  assumes "capped MAX_RUNS_PER_ORG (v_recency v) (v_runs v)"
  shows "capped MAX_RUNS_PER_ORG (v_recency (make_run_room pct bs run v)) (v_runs (make_run_room pct bs run v))"
    and "fmlookup (v_runs (make_run_room pct bs run v)) run \<noteq> None \<or> fm_len (v_runs (make_run_room pct bs run v)) < MAX_RUNS_PER_ORG"
proof -
  let ?v = "make_run_room pct bs run v"
  have "capped MAX_RUNS_PER_ORG (v_recency ?v) (v_runs ?v) \<and> (fmlookup (v_runs ?v) run \<noteq> None \<or> fm_len (v_runs ?v) < MAX_RUNS_PER_ORG)"
  proof (cases "fmlookup (v_runs v) run = None \<and> MAX_RUNS_PER_ORG \<le> fm_len (v_runs v)")
    case True
    obtain k r where e: "evict_oldest_unprotected (is_alerting pct bs (v_runs v)) (v_recency v) = (k, r)" by fastforce
    obtain x where "k = Some x" "capped MAX_RUNS_PER_ORG r (fmdrop x (v_runs v))" "fm_len (fmdrop x (v_runs v)) < MAX_RUNS_PER_ORG"
      using capped_evict [OF assms _ _ e] True by (auto simp: cloud_caps)
    then show ?thesis using True e by (simp add: make_run_room_def)
  next
    case False
    then show ?thesis using assms by (auto simp: make_run_room_def)
  qed
  then show "capped MAX_RUNS_PER_ORG (v_recency ?v) (v_runs ?v)"
    "fmlookup (v_runs ?v) run \<noteq> None \<or> fm_len (v_runs ?v) < MAX_RUNS_PER_ORG" by auto
qed

lemma run_room_frame [simp]:
  "v_sav (make_run_room pct bs run v) = v_sav v" "v_dc (make_run_room pct bs run v) = v_dc v"
  "v_totals (make_run_room pct bs run v) = v_totals v" "v_break_recency (make_run_room pct bs run v) = v_break_recency v"
  "v_months (make_run_room pct bs run v) = v_months v"
  by (simp_all add: make_run_room_def split: prod.splits option.splits list.splits)

lemma break_room_ok:
  assumes "ri.bounds MAX_BREAK_KEYS br (fset (sv_breaks s))" "make_break_room s br = (s', br')"
  shows "ri.bounds MAX_BREAK_KEYS br' (fset (sv_breaks s')) \<and> card (fset (sv_breaks s')) < MAX_BREAK_KEYS"
proof (cases "MAX_BREAK_KEYS \<le> fcard (sv_breaks s)")
  case True
  have full: "MAX_BREAK_KEYS \<le> card (fset (sv_breaks s))" and pos: "0 < MAX_BREAK_KEYS"
    using True by (simp_all add: fcard.rep_eq cloud_caps)
  obtain k br3 where ev: "evict_oldest_unprotected (\<lambda>_. False) br = (k, br3)" by fastforce
  obtain x where "k = Some x" "ri.bounds MAX_BREAK_KEYS br3 (fset (sv_breaks s) - {x})" "card (fset (sv_breaks s) - {x}) < MAX_BREAK_KEYS"
    by (rule ri.evict_bounds [OF assms(1) pos full ev])
  then show ?thesis using assms(2) True ev by (auto simp: make_break_room_def evict_oldest_eq)
next
  case False
  then show ?thesis using assms by (simp add: make_break_room_def fcard.rep_eq)
qed

lemma note_break_ok:
  assumes "ri.bounds MAX_BREAK_KEYS br (fset (sv_breaks s))" "note_break run s br = (s', br')"
  shows "ri.bounds MAX_BREAK_KEYS (touch run br') (fset (sv_breaks s'))"
proof (cases "run |\<in>| sv_breaks s")
  case True
  then show ?thesis using assms ri.touch_bounds [OF assms(1), of run] by (auto simp: note_break_def insert_absorb)
next
  case False
  obtain s2 br2 where m: "make_break_room s br = (s2, br2)" by fastforce
  have e: "fset (sv_breaks s') = insert run (fset (sv_breaks s2))" "br' = br2" using assms(2) False m by (auto simp: note_break_def)
  then show ?thesis using ri.touch_bounds [of MAX_BREAK_KEYS br2 "fset (sv_breaks s2)" run] break_room_ok [OF assms(1) m] by simp
qed

lemma breaks_ok:
  assumes "ri.bounds MAX_BREAK_KEYS br (fset (sv_breaks s))" "update_breaks r s br = (s', br')"
  shows "ri.bounds MAX_BREAK_KEYS br' (fset (sv_breaks s'))"
  using assms note_break_ok [of br "add_blocked r s" "rec_run r"]
  by (auto simp: update_breaks_def add_blocked_def split: if_splits prod.splits)

lemma update_saved_breaks [simp]: "sv_breaks (update_saved r s) = sv_breaks s"
  by (simp add: update_saved_def Let_def)

lemma months_ok_update: "months_ok m \<Longrightarrow> months_ok (update_months w r m)"
proof -
  assume ok: "months_ok m"
  let ?u = "admit_unit m (unit_key (rec_unit r))"
  have d: "fset (fmdom (update_months w r m)) = insert ?u (fset (fmdom m))"
    by (simp add: update_months_def Let_def)
  have "?u = ''unassigned'' \<or> ?u \<in> fset (fmdom m) \<or> card (fset (fmdom m)) < MAX_UNIT_MONTH_KEYS"
    by (auto simp: admit_unit_def fm_len_card fmlookup_dom_iff split: if_splits)
  then show ?thesis
  proof (elim disjE)
    assume "card (fset (fmdom m)) < MAX_UNIT_MONTH_KEYS"
    moreover have "card (insert ?u (fset (fmdom m)) - {''unassigned''}) \<le> card (insert ?u (fset (fmdom m)))"
      by (intro card_mono) auto
    moreover have "card (insert ?u (fset (fmdom m))) \<le> Suc (card (fset (fmdom m)))" by (simp add: card_insert_if)
    ultimately show ?thesis unfolding months_ok_def d by linarith
  qed (use ok in \<open>simp_all add: months_ok_def d insert_absorb del: card_Diff_insert\<close>)
qed

lemma record_view_ok:
  assumes "view_ok v"
  shows "view_ok (ingest_record pct bs w v r)"
proof -
  let ?v = "make_run_room pct bs (rec_run r) v"
  have v: "capped MAX_RUNS_PER_ORG (v_recency v) (v_runs v)" "ri.bounds MAX_BREAK_KEYS (v_break_recency v) (fset (sv_breaks (v_sav v)))"
    "months_ok (v_months v)" using assms by (simp_all add: view_ok_def)
  obtain s br where sb: "update_breaks r (v_sav v) (v_break_recency v) = (s, br)" by fastforce
  show ?thesis
    using capped_insert [OF run_room_ok [OF v(1), of pct bs "rec_run r"]] breaks_ok [OF v(2) sb] months_ok_update [OF v(3)]
    by (simp add: view_ok_def ingest_record_def Let_def sb)
qed

lemma fold_view_ok: "view_ok v \<Longrightarrow> view_ok (foldl (ingest_record pct bs w) v rs)"
  by (induction rs arbitrary: v) (simp_all add: record_view_ok)

lemma org_view_put [simp]: "org_view (put_view org v i) o' = (if o' = org then v else org_view i o')"
  by (simp add: org_view_def put_view_def)

lemma put_view_frame [simp]:
  "killed (put_view org v i) = killed i" "budgets (put_view org v i) = budgets i" "unit_budgets (put_view org v i) = unit_budgets i"
  "series_log (put_view org v i) = series_log i" "incidents (put_view org v i) = incidents i"
  "audit_chains (put_view org v i) = audit_chains i" "incident_tracker (put_view org v i) = incident_tracker i"
  "fanout_tracker (put_view org v i) = fanout_tracker i" "tracker_recency (put_view org v i) = tracker_recency i"
  "fanout_recency (put_view org v i) = fanout_recency i" "devices (put_view org v i) = devices i"
  "pairings (put_view org v i) = pairings i" "nonces (put_view org v i) = nonces i" "activities (put_view org v i) = activities i"
  by (simp_all add: put_view_def)

definition detect_ok :: "Inner \<Rightarrow> bool" where
  "detect_ok i \<longleftrightarrow> tracker_ok (tracker_recency i) (incident_tracker i) \<and> tracker_ok (fanout_recency i) (fanout_tracker i) \<and> incidents_ok (incidents i)"

lemma bump_detect_ok: "detect_ok i \<Longrightarrow> detect_ok (snd (bump_tracker org kind scope t w i))"
  by (auto simp: detect_ok_def bump_tracker_def Let_def bump_deque_length split: prod.splits intro: tracker_ok_bump)

lemma fanout_detect_ok: "detect_ok i \<Longrightarrow> detect_ok (snd (bump_fanout_tracker org a run t now w i))"
  by (auto simp: detect_ok_def bump_fanout_tracker_def Let_def bump_fanout_length split: prod.splits intro: tracker_ok_bump)

lemma upsert_detect_ok: "detect_ok i \<Longrightarrow> detect_ok (snd (upsert_incident org kind sev scope run agent t i))"
  using upsert_incidents_ok [of i org kind sev scope run agent t]
  by (auto simp: detect_ok_def upsert_incident_def Let_def)

lemma ingest_locked_fst:
  "fst (ingest_locked cfg pct org rs now i) =
     fst (detect_spike cfg org now (foldl (detect_record cfg org now) (ingest_folded pct org rs now i, fmempty) rs))"
  by (simp add: ingest_locked_def Let_def split: prod.splits)

lemmas ingest_folded_defs = ingest_folded_def log_samples_def fold_records_def

lemma detect_pass_ok:
  "detect_ok i \<Longrightarrow> detect_ok (fst (detect_spike cfg org now (foldl (detect_record cfg org now) (i, f) rs)))"
  using detect_pass [of "\<lambda>i j. detect_ok i \<longrightarrow> detect_ok j" org i cfg now f rs] bump_detect_ok fanout_detect_ok upsert_detect_ok
  by (auto simp: reflp_def transp_def)

lemma detect_pass_quiet:
  "quiet (fst (detect_spike cfg org now (foldl (detect_record cfg org now) (i, f) rs))) = quiet i"
  using detect_pass [of "\<lambda>i j. quiet j = quiet i" org i cfg now f rs] quiet_bump quiet_bump_fanout quiet_upsert
  by (auto simp: reflp_def transp_def)


text \<open>The part of the state the bounds speak about.\<close>
lemma store_ok_frame:
  assumes "store_ok i" "\<And>org. view_ok (org_view i org) \<Longrightarrow> view_ok (org_view j org)"
    "tracker_recency j = tracker_recency i" "incident_tracker j = incident_tracker i" "fanout_recency j = fanout_recency i"
    "fanout_tracker j = fanout_tracker i" "incidents_ok (incidents i) \<Longrightarrow> incidents_ok (incidents j)"
    "series_log j = series_log i" "\<And>d. length (org_get [] (nonces i) d) \<le> NONCE_CAP \<Longrightarrow> length (org_get [] (nonces j) d) \<le> NONCE_CAP"
  shows "store_ok j"
  using assms by (simp add: store_ok_def)

lemma append_audit_ok [simp]: "store_ok (append_audit_locked sha now org who what subj det i) = store_ok i"
  by (simp add: append_audit_locked_def Let_def store_ok_def org_view_def)

lemma neutral_ok [simp]:
  "store_ok (i\<lparr>dirty := d\<rparr>) = store_ok i" "store_ok (i\<lparr>killed := k\<rparr>) = store_ok i" "store_ok (i\<lparr>budgets := b\<rparr>) = store_ok i"
  "store_ok (i\<lparr>unit_budgets := b\<rparr>) = store_ok i" "store_ok (i\<lparr>pairings := p\<rparr>) = store_ok i"
  "store_ok (i\<lparr>devices := e\<rparr>) = store_ok i" "store_ok (i\<lparr>activities := a\<rparr>) = store_ok i"
  by (simp_all add: store_ok_def org_view_def)

lemma put_incident_ok:
  "\<lbrakk>incidents_ok m; get_nested m org iid = Some x\<rbrakk> \<Longrightarrow> incidents_ok (put_nested org iid y m)"
  by (auto simp: incidents_ok_def put_nested_def get_nested_def org_get_def fm_len_card bind_eq_Some_conv fmlookup_dom_iff insert_absorb
      split: option.splits)

lemma put_incident_store_ok:
  "\<lbrakk>store_ok i; get_nested (incidents i) org iid = Some x\<rbrakk> \<Longrightarrow> store_ok (i\<lparr>incidents := put_nested org iid y (incidents i)\<rparr>)"
  by (rule store_ok_frame [of i]) (auto simp: put_incident_ok org_view_def)

lemma upsert_frame:
  "snd (upsert_incident org kind sev scope run agent t i) = i\<lparr>incidents := incidents (snd (upsert_incident org kind sev scope run agent t i))\<rparr>"
  by (simp add: upsert_incident_def Let_def)

lemma upsert_store_ok: "store_ok i \<Longrightarrow> store_ok (snd (upsert_incident org kind sev scope run agent t i))"
  by (subst upsert_frame, rule store_ok_frame [of i]) (auto simp: upsert_incidents_ok org_view_def)

lemma finding_store_ok: "store_ok i \<Longrightarrow> store_ok (snd (record_external_finding sha now org who f i))"
proof -
  assume ok: "store_ok i"
  obtain inc j where u: "upsert_incident org (f_detector f) (f_severity f) (f_subject f) None (agent_subject (f_subject f)) (f_ts f) i = (inc, j)"
    by fastforce
  then have "store_ok j" using upsert_store_ok [OF ok] by (metis snd_conv)
  then show ?thesis using put_incident_store_ok [of j org "inc_id inc"]
    by (auto simp: record_external_finding_def u Let_def split: option.splits)
qed

text \<open>Outside the detectors' fields, an ingest is its fold and its samples.\<close>
lemma ingest_quiet: "quiet (fst (ingest_locked cfg pct org rs now i)) = quiet (ingest_folded pct org rs now i)"
  unfolding ingest_locked_fst by (rule detect_pass_quiet)

lemma ingest_store_ok: "store_ok i \<Longrightarrow> store_ok (fst (ingest_locked cfg pct org rs now i))"
proof -
  assume ok: "store_ok i"
  define j where "j = ingest_folded pct org rs now i"
  define k where "k = fst (ingest_locked cfg pct org rs now i)"
  have v: "view_ok (org_view i o')" for o' using ok by (simp add: store_ok_def)
  have ov0: "org_view (i\<lparr>dirty := True\<rparr>) o' = org_view i o'" for o' by (simp add: org_view_def)
  have ov: "org_view j o' = org_view (fold_records pct org rs now (i\<lparr>dirty := True\<rparr>)) o'" for o'
    by (simp add: j_def ingest_folded_def log_samples_def org_view_def)
  have vj: "view_ok (org_view j o')" for o' unfolding ov fold_records_def using v by (simp add: fold_view_ok ov0)
  have sj: "length (org_get [] (series_log j) o') \<le> SERIES_CAP" for o'
    using ok by (simp add: j_def ingest_folded_defs store_ok_def)
  have dj: "detect_ok j" using ok by (simp add: j_def ingest_folded_defs detect_ok_def store_ok_def)
  have nj: "nonces j = nonces i" by (simp add: j_def ingest_folded_defs)
  have kq: "quiet k = quiet j" unfolding k_def j_def by (rule ingest_quiet)
  have dk: "detect_ok k" using detect_pass_ok [OF dj] by (simp add: k_def j_def ingest_locked_fst)
  have ovk: "org_view k o' = org_view j o'" for o' using quiet_fields [OF kq] by (simp add: org_view_def)
  show "store_ok k" using vj sj dk quiet_fields [OF kq] nj ok by (simp add: store_ok_def detect_ok_def ovk)
qed

lemma nonce_store_ok: "store_ok i \<Longrightarrow> store_ok (snd (check_and_record_nonce did n i))"
  by (rule store_ok_frame [of i]) (auto simp: check_and_record_nonce_def Let_def org_view_def)

lemma redeem_frame: "\<exists>ps ds b. snd (redeem_pairing code now did tok pk name pf i) = i\<lparr>pairings := ps, devices := ds, dirty := b\<rparr>"
proof -
  have "snd (redeem_pairing code now did tok pk name pf i) =
      i\<lparr>pairings := pairings (snd (redeem_pairing code now did tok pk name pf i)),
        devices := devices (snd (redeem_pairing code now did tok pk name pf i)),
        dirty := dirty (snd (redeem_pairing code now did tok pk name pf i))\<rparr>"
    by (cases i) (simp add: redeem_pairing_def Let_def split: option.splits)
  then show ?thesis by blast
qed

lemma redeem_store_ok: "store_ok (snd (redeem_pairing code now did tok pk name pf i)) = store_ok i"
  using redeem_frame [of code now did tok pk name pf i] by auto

lemma step_store_ok: "store_ok i \<Longrightarrow> store_ok (cop_inner sha cfg pct op i)"
proof (cases op)
  case (Ingest org rs now)
  then show "store_ok i \<Longrightarrow> ?thesis" by (simp add: ingest_store_ok)
next
  case (AckAudited org iid who now)
  then show "store_ok i \<Longrightarrow> ?thesis"
    by (auto simp: ack_incident_audited_def ack_incident_def put_incident_store_ok split: option.splits)
next
  case (RedeemAudited code now did tok pk name pf ms)
  have "store_ok (snd (redeem_pairing_audited sha ms code now did tok pk name pf i)) = store_ok (snd (redeem_pairing code now did tok pk name pf i))"
    by (auto simp: redeem_pairing_audited_def split: prod.splits option.splits)
  then show "store_ok i \<Longrightarrow> ?thesis" using RedeemAudited by (simp add: redeem_store_ok)
next
  case (Apns did tok)
  then show "store_ok i \<Longrightarrow> ?thesis"
    by (auto simp: set_apns_token_def store_ok_def org_view_def split: option.splits prod.splits)
qed (simp_all add: kill_locked_def budget_locked_def set_unit_budget_def set_unit_budget_audited_def ack_incident_def
      mark_incident_notified_def store_audit_append_def create_pairing_def register_activity_def take_dirty_def Let_def
      finding_store_ok nonce_store_ok redeem_store_ok put_incident_store_ok split: option.splits)

lemma store_ok_default: "store_ok inner_default"
  by (simp add: store_ok_def inner_default_def org_view_def org_get_def view_ok_def months_ok_def tracker_ok_def incidents_ok_def
      fm_len_def savings_default_def fcard.rep_eq)

lemma run_store_ok: "store_ok (cloud_run sha cfg pct ops inner_default)"
  by (induction ops rule: rev_induct) (simp_all add: store_ok_default step_store_ok)


text \<open>C13: However an organization's records, operator calls, pairings and nonces are interleaved, the
  store's memory stays bounded: at most 50000 runs, 10000 remembered broken runs, 10000 incidents,
  4097 month windows (the 4097th being the bucket of unassigned spend) and 100000 samples per
  organization, at most 20000 keys in each detector tracker with at most 256 entries each, at most
  4096 nonces per device; and the index that picks the runs to evict lists exactly the runs that
  are stored, each once.\<close>
theorem store_bounded:
  fixes sha cfg pct ops org
  defines "i \<equiv> cloud_run sha cfg pct ops inner_default"
  shows "fm_len (org_get fmempty (orgs i) org) \<le> 50000 \<and> fcard (sv_breaks (org_get savings_default (savings i) org)) \<le> 10000
    \<and> fm_len (org_get fmempty (incidents i) org) \<le> 10000 \<and> fm_len (org_get fmempty (unit_months i) org) \<le> 4097
    \<and> length (org_get [] (series_log i) org) \<le> 100000
    \<and> fm_len (incident_tracker i) \<le> 20000 \<and> fm_len (fanout_tracker i) \<le> 20000
    \<and> length (fm_entry [] k (incident_tracker i)) \<le> 256 \<and> length (fm_entry [] k (fanout_tracker i)) \<le> 256
    \<and> length (org_get [] (nonces i) did) \<le> 4096
    \<and> distinct (recency_order (org_get recency_default (run_recency i) org))
    \<and> set (recency_order (org_get recency_default (run_recency i) org)) = fset (fmdom (org_get fmempty (orgs i) org))"
proof -
  have ok: "store_ok i" unfolding i_def by (rule run_store_ok)
  have v: "view_ok (org_view i org)" using ok by (simp add: store_ok_def)
  have r: "capped MAX_RUNS_PER_ORG (org_get recency_default (run_recency i) org) (org_get fmempty (orgs i) org)"
    and b: "ri.bounds MAX_BREAK_KEYS (org_get recency_default (break_recency i) org) (fset (sv_breaks (org_get savings_default (savings i) org)))"
    and m: "months_ok (org_get fmempty (unit_months i) org)"
    using v by (simp_all add: view_ok_def org_view_def)
  have "fm_len (org_get fmempty (unit_months i) org) \<le> Suc (card (fset (fmdom (org_get fmempty (unit_months i) org)) - {''unassigned''}))"
    unfolding fm_len_card by (rule card_Suc_Diff1_le)
  also have "\<dots> \<le> 4097" using m by (simp add: months_ok_def cloud_caps)
  finally have mm: "fm_len (org_get fmempty (unit_months i) org) \<le> 4097" .
  have t: "tracker_ok (tracker_recency i) (incident_tracker i)" "tracker_ok (fanout_recency i) (fanout_tracker i)"
    using ok by (simp_all add: store_ok_def)
  have tk: "fm_len (incident_tracker i) \<le> 20000" "fm_len (fanout_tracker i) \<le> 20000"
    using t capped_len [of 20000 "tracker_recency i" "incident_tracker i"] capped_len [of 20000 "fanout_recency i" "fanout_tracker i"]
    by (simp_all add: tracker_ok_def cloud_caps)
  have td: "length (fm_entry [] k (incident_tracker i)) \<le> 256" "length (fm_entry [] k (fanout_tracker i)) \<le> 256"
    using t by (cases k; auto simp: tracker_ok_def cloud_caps fm_entry_def split: option.split)+
  have br: "fcard (sv_breaks (org_get savings_default (savings i) org)) \<le> 10000"
    using ri.bounds_card [OF b] by (simp add: fcard.rep_eq cloud_caps)
  have rd: "distinct (recency_order (org_get recency_default (run_recency i) org))"
    "set (recency_order (org_get recency_default (run_recency i) org)) = fset (fmdom (org_get fmempty (orgs i) org))"
    using ri.bounds_keys [OF r [unfolded capped_def]] ri.order_distinct by auto
  have rest: "fm_len (org_get fmempty (incidents i) org) \<le> 10000" "length (org_get [] (series_log i) org) \<le> 100000"
    "length (org_get [] (nonces i) did) \<le> 4096"
    using ok by (simp_all add: store_ok_def incidents_ok_def cloud_caps)
  show ?thesis using capped_len [OF r] br mm tk td rd rest by (simp add: cloud_caps)
qed

end
