(* ===== verification/CloudTotals.thy ===== *)
theory CloudTotals
  imports CloudSafety
begin

text \<open>
  The control plane's accounting is exact: whatever else happens to the store, an
  organization's totals, savings, evidence counters and run aggregates are those
  of the records its gateways pushed, computed directly from the list of records.
\<close>

section \<open>An organization's entries change by its own records only\<close>

definition recs_of :: "string \<Rightarrow> cop list \<Rightarrow> CloudCallRecord list" where
  "recs_of org ops = concat (map (\<lambda>op. case op of Ingest o' rs _ \<Rightarrow> if o' = org then rs else [] | _ \<Rightarrow> []) ops)"

lemma append_audit_view [simp]: "org_view (append_audit_locked sha now o' who what subj det i) org = org_view i org"
  by (simp add: append_audit_locked_def Let_def org_view_def)

lemma view_update [simp]:
  "org_view (i\<lparr>dirty := d\<rparr>) org = org_view i org" "org_view (i\<lparr>killed := k\<rparr>) org = org_view i org"
  "org_view (i\<lparr>budgets := b\<rparr>) org = org_view i org" "org_view (i\<lparr>unit_budgets := b\<rparr>) org = org_view i org"
  "org_view (i\<lparr>pairings := p\<rparr>) org = org_view i org" "org_view (i\<lparr>devices := e\<rparr>) org = org_view i org"
  "org_view (i\<lparr>activities := a\<rparr>) org = org_view i org" "org_view (i\<lparr>incidents := x\<rparr>) org = org_view i org"
  "org_view (i\<lparr>nonces := n\<rparr>) org = org_view i org" "org_view (i\<lparr>series_log := sl\<rparr>) org = org_view i org"
  by (simp_all add: org_view_def)

lemma upsert_view [simp]: "org_view (snd (upsert_incident o' kind sev scope run agent t i)) org = org_view i org"
  by (subst upsert_frame) simp

lemma ingest_view:
  "org_view (fst (ingest_locked cfg pct o' rs now i)) org =
     (if org = o' then foldl (ingest_record pct (budgets i o') (cloud_month_key now)) (org_view i o') rs else org_view i org)"
proof -
  have "org_view (fst (ingest_locked cfg pct o' rs now i)) org = org_view (ingest_folded pct o' rs now i) org"
    using quiet_fields [OF ingest_quiet] by (simp add: org_view_def)
  then show ?thesis by (simp add: ingest_folded_defs)
qed

lemma other_view:
  assumes "\<And>o' rs now. op \<noteq> Ingest o' rs now"
  shows "org_view (cop_inner sha cfg pct op i) org = org_view i org"
proof (cases op)
  case (Ingest o' rs now)
  then show ?thesis using assms by blast
next
  case (Finding o' who f now)
  obtain inc j where u: "upsert_incident o' (f_detector f) (f_severity f) (f_subject f) None (agent_subject (f_subject f)) (f_ts f) i = (inc, j)"
    by fastforce
  then have "org_view j org = org_view i org" using upsert_view by (metis snd_conv)
  then show ?thesis using Finding by (simp add: record_external_finding_def u Let_def split: option.splits)
next
  case (Redeem code now did tok pk name pf)
  then show ?thesis using redeem_frame [of code now did tok pk name pf i] by auto
next
  case (RedeemAudited code now did tok pk name pf ms)
  have "org_view (snd (redeem_pairing_audited sha ms code now did tok pk name pf i)) org = org_view (snd (redeem_pairing code now did tok pk name pf i)) org"
    by (auto simp: redeem_pairing_audited_def split: prod.splits option.splits)
  then show ?thesis using RedeemAudited redeem_frame [of code now did tok pk name pf i] by auto
qed (simp_all add: kill_locked_def budget_locked_def set_unit_budget_def set_unit_budget_audited_def ack_incident_def
      ack_incident_audited_def mark_incident_notified_def store_audit_append_def create_pairing_def register_activity_def take_dirty_def
      set_apns_token_def check_and_record_nonce_def Let_def split: option.splits prod.splits)

text \<open>A relation between the records pushed so far and the organization's entries holds over every history
  when one more record keeps it.\<close>
lemma view_induct:
  assumes base: "P [] (org_view inner_default org)"
    and step: "\<And>pre v r bs w. P pre v \<Longrightarrow> set pre \<subseteq> set (recs_of org ops) \<Longrightarrow> r \<in> set (recs_of org ops) \<Longrightarrow> P (pre @ [r]) (ingest_record pct bs w v r)"
  shows "P (recs_of org ops) (org_view (cloud_run sha cfg pct ops inner_default) org)"
proof -
  have fold: "P (pre @ rs) (foldl (ingest_record pct bs w) v rs)"
    if "P pre v" "set pre \<subseteq> set (recs_of org ops)" "set rs \<subseteq> set (recs_of org ops)" for pre v rs bs w
    using that
  proof (induction rs arbitrary: pre v)
    case (Cons r rs)
    then show ?case using step [of pre v r bs w] Cons.IH [of "pre @ [r]" "ingest_record pct bs w v r"] by simp
  qed simp
  have "set (recs_of org os) \<subseteq> set (recs_of org ops) \<Longrightarrow> P (recs_of org os) (org_view (cloud_run sha cfg pct os inner_default) org)" for os
  proof (induction os rule: rev_induct)
    case Nil
    then show ?case using base by (simp add: recs_of_def)
  next
    case (snoc op os)
    have sub: "set (recs_of org os) \<subseteq> set (recs_of org ops)" using snoc.prems by (simp add: recs_of_def)
    note IH = snoc.IH [OF sub]
    show ?case
    proof (cases "\<exists>o' rs now. op = Ingest o' rs now")
      case True
      then obtain o' rs now where op: "op = Ingest o' rs now" by blast
      show ?thesis
      proof (cases "o' = org")
        case True
        then have "set rs \<subseteq> set (recs_of org ops)" using snoc.prems op by (simp add: recs_of_def)
        then show ?thesis using fold [OF IH sub] op True by (simp add: recs_of_def ingest_view)
      qed (use IH op in \<open>simp add: recs_of_def ingest_view\<close>)
    next
      case False
      then have "org_view (cop_inner sha cfg pct op (cloud_run sha cfg pct os inner_default)) org =
          org_view (cloud_run sha cfg pct os inner_default) org" by (intro other_view) blast
      moreover have "recs_of org (os @ [op]) = recs_of org os" using False by (auto simp: recs_of_def split: cop.splits)
      ultimately show ?thesis using IH by simp
    qed
  qed
  then show ?thesis by simp
qed

section \<open>Totals\<close>

definition real_cost :: "CloudCallRecord \<Rightarrow> int" where
  "real_cost r = (if is_blocked (rec_decision r) then 0 else max (rec_cost r) 0)"

definition real_tools :: "CloudCallRecord \<Rightarrow> nat" where
  "real_tools r = (if is_blocked (rec_decision r) then 0 else rec_tools r)"

definition avoided_cost :: "CloudCallRecord \<Rightarrow> int" where
  "avoided_cost r = (if is_budget_protection (rec_decision r) then max (rec_cost r) 0 else 0)"

definition saved_as :: "string \<Rightarrow> CloudCallRecord \<Rightarrow> int" where
  "saved_as d r = (if rec_decision r = d then max (rec_saved r) 0 else 0)"

lemma sat_i64_sum: "\<lbrakk>0 \<le> a; 0 \<le> c\<rbrakk> \<Longrightarrow> sat_i64 (min i64_max a + c) = min i64_max (a + c)"
  by (auto simp: sat_i64_def i64_max_def i64_min_def)

lemma sat_i64_sum0: "\<lbrakk>0 \<le> a; c = 0\<rbrakk> \<Longrightarrow> min i64_max a = min i64_max (a + c)"
  by simp

lemma sat_u64_sum: "sat_u64 (min u64_max a + c) = min u64_max (a + c)"
  by (auto simp: sat_u64_def u64_max_def)

lemma wrap_u64_Suc: "wrap_u64 (wrap_u64 n + 1) = wrap_u64 (n + 1)"
  by (simp add: wrap_u64_def mod_Suc_eq)

lemma sum_list_nonneg_map: "(\<And>x. 0 \<le> f x) \<Longrightarrow> 0 \<le> sum_list (map f xs)" for f :: "'a \<Rightarrow> int"
  by (rule sum_list_nonneg) auto

lemma cost_nonneg [simp]: "0 \<le> real_cost r" "0 \<le> avoided_cost r" "0 \<le> saved_as d r" "0 \<le> rec_clamped_cost r"
  by (simp_all add: real_cost_def avoided_cost_def saved_as_def rec_clamped_cost_def)

definition totals_of :: "CloudCallRecord list \<Rightarrow> OrgTotals" where
  "totals_of rs = \<lparr> ot_calls = wrap_u64 (length rs), ot_spent = min i64_max (sum_list (map real_cost rs)),
     ot_tool_calls = min u64_max (sum_list (map real_tools rs)) \<rparr>"

lemma update_totals_snoc: "update_totals r (totals_of rs) = totals_of (rs @ [r])"
  using sat_i64_sum [of "sum_list (map real_cost rs)" "rec_clamped_cost r"] sum_list_nonneg_map [of real_cost rs]
  by (auto simp: update_totals_def totals_of_def Let_def real_cost_def real_tools_def rec_clamped_cost_def sat_u64_sum wrap_u64_Suc [simplified]
      simp del: map_map)

definition decision_count :: "CloudCallRecord list \<Rightarrow> string \<Rightarrow> nat" where
  "decision_count rs d = (if is_known_decision d then wrap_u64 (length (filter (\<lambda>r. rec_decision r = d) rs)) else 0)"

definition dc_get :: "(string, u64) fmap \<Rightarrow> string \<Rightarrow> nat" where
  "dc_get m d = (case fmlookup m d of Some n \<Rightarrow> n | None \<Rightarrow> 0)"

lemma count_decision_get:
  "dc_get (count_decision r m) d = (if d = rec_decision r \<and> is_known_decision d then wrap_u64 (dc_get m d + 1) else dc_get m d)"
  by (auto simp: dc_get_def count_decision_def)

definition savings_match :: "CloudCallRecord list \<Rightarrow> SavingsAcc \<Rightarrow> bool" where
  "savings_match rs s \<longleftrightarrow> sv_blocked s = min i64_max (sum_list (map avoided_cost rs))
     \<and> sv_cache s = min i64_max (sum_list (map (saved_as ''cache_hit'') rs))
     \<and> sv_router s = min i64_max (sum_list (map (saved_as ''allow'') rs))"

lemma make_break_room_fields:
  "make_break_room s br = (s', br') \<Longrightarrow> sv_blocked s' = sv_blocked s \<and> sv_cache s' = sv_cache s \<and> sv_router s' = sv_router s"
  by (auto simp: make_break_room_def split: if_splits option.splits prod.splits list.splits)

lemma update_breaks_fields:
  "update_breaks r s br = (s', br') \<Longrightarrow>
     sv_blocked s' = (if is_budget_protection (rec_decision r) then sat_i64 (sv_blocked s + rec_clamped_cost r) else sv_blocked s)
     \<and> sv_cache s' = sv_cache s \<and> sv_router s' = sv_router s"
  by (auto simp: update_breaks_def note_break_def add_blocked_def dest!: make_break_room_fields split: if_splits prod.splits)

lemma savings_match_snoc:
  assumes "savings_match rs s" "update_breaks r s br = (s', br')"
  shows "savings_match (rs @ [r]) (update_saved r s')"
proof -
  note f = update_breaks_fields [OF assms(2)]
  have n: "0 \<le> sum_list (map avoided_cost rs)" "0 \<le> sum_list (map (saved_as d) rs)" for d
    by (simp_all add: sum_list_nonneg_map)
  have "sv_blocked s' = min i64_max (sum_list (map avoided_cost rs) + avoided_cost r)"
    using f assms(1) sat_i64_sum [OF n(1), of "rec_clamped_cost r"]
    by (simp add: savings_match_def avoided_cost_def rec_clamped_cost_def)
  moreover have "sv_cache (update_saved r s') = min i64_max (sum_list (map (saved_as ''cache_hit'') rs) + saved_as ''cache_hit'' r)"
    using f assms(1) sat_i64_sum [OF n(2) [of "''cache_hit''"], of "max (rec_saved r) 0"]
    by (simp add: savings_match_def saved_as_def update_saved_def Let_def)
  moreover have "sv_router (update_saved r s') = min i64_max (sum_list (map (saved_as ''allow'') rs) + saved_as ''allow'' r)"
    using f assms(1) sat_i64_sum [OF n(2) [of "''allow''"], of "max (rec_saved r) 0"]
    by (auto simp: savings_match_def saved_as_def update_saved_def Let_def)
  moreover have "sv_blocked (update_saved r s') = sv_blocked s'" by (simp add: update_saved_def Let_def)
  ultimately show ?thesis by (simp add: savings_match_def)
qed


lemma record_fields:
  "v_totals (ingest_record pct bs w v r) = update_totals r (v_totals v)"
  "v_dc (ingest_record pct bs w v r) = count_decision r (v_dc v)"
  "v_sav (ingest_record pct bs w v r) = update_saved r (fst (update_breaks r (v_sav v) (v_break_recency v)))"
  by (simp_all add: ingest_record_def Let_def split: prod.splits)

definition accounts_match :: "CloudCallRecord list \<Rightarrow> OrgView \<Rightarrow> bool" where
  "accounts_match rs v \<longleftrightarrow> v_totals v = totals_of rs \<and> savings_match rs (v_sav v) \<and> (\<forall>d. dc_get (v_dc v) d = decision_count rs d)"

lemma accounts_base: "accounts_match [] (org_view inner_default org)"
  by (simp add: accounts_match_def org_view_def inner_default_def org_get_def totals_of_def org_totals_default_def savings_match_def
      savings_default_def dc_get_def decision_count_def wrap_u64_def i64_max_def)

lemma accounts_step:
  assumes "accounts_match rs v"
  shows "accounts_match (rs @ [r]) (ingest_record pct bs w v r)"
proof -
  obtain s br where sb: "update_breaks r (v_sav v) (v_break_recency v) = (s, br)" by fastforce
  have "savings_match (rs @ [r]) (update_saved r s)"
    using savings_match_snoc [OF _ sb] assms by (simp add: accounts_match_def)
  moreover have "dc_get (count_decision r (v_dc v)) d = decision_count (rs @ [r]) d" for d
    using assms by (auto simp: count_decision_get accounts_match_def decision_count_def wrap_u64_Suc [simplified])
  ultimately show ?thesis
    using assms by (simp add: accounts_match_def record_fields sb update_totals_snoc)
qed

text \<open>C14: The control plane's accounts are exact over an organization's whole history, evicted runs
  included: the call count is the number of records pushed (as a 64-bit counter), real spend is the
  saturating sum of the non-negative costs of the unblocked records and of nothing else, the avoided
  spend, the cache savings and the router savings are those of the budget-protection, cache-hit and
  allow records, and the evidence counter of a decision is the number of records with that decision
  when it is a known one and 0 otherwise.  Neither the order of other organizations' traffic nor any
  operator call changes them.\<close>
theorem org_accounts_exact:
  fixes sha cfg pct ops org
  defines "i \<equiv> cloud_run sha cfg pct ops inner_default" and "rs \<equiv> recs_of org ops"
  shows "org_get org_totals_default (org_totals i) org =
      \<lparr> ot_calls = wrap_u64 (length rs), ot_spent = min i64_max (sum_list (map real_cost rs)),
        ot_tool_calls = min u64_max (sum_list (map real_tools rs)) \<rparr>
    \<and> ss_blocked (store_savings i org) = min i64_max (sum_list (map avoided_cost rs))
    \<and> ss_cache (store_savings i org) = min i64_max (sum_list (map (saved_as ''cache_hit'') rs))
    \<and> ss_router (store_savings i org) = min i64_max (sum_list (map (saved_as ''allow'') rs))
    \<and> dc_get (org_get fmempty (decision_counts i) org) d = decision_count rs d"
proof -
  have "accounts_match rs (org_view i org)"
    unfolding i_def rs_def by (rule view_induct [OF accounts_base accounts_step])
  then show ?thesis
    by (simp add: accounts_match_def org_view_def totals_of_def savings_match_def store_savings_def Let_def)
qed

section \<open>Run aggregates\<close>

text \<open>The aggregate of a run, computed from its records in order.\<close>
definition agg_of :: "CloudCallRecord list \<Rightarrow> string \<Rightarrow> RunAgg option" where
  "agg_of rs run = (case filter (\<lambda>r. rec_run r = run) rs of [] \<Rightarrow> None
     | rs' \<Rightarrow> Some (foldl (\<lambda>a r. update_agg r a) (run_agg_new run) rs'))"

lemma agg_of_snoc:
  "agg_of (rs @ [r]) run =
     (if rec_run r = run then Some (update_agg r (case agg_of rs run of Some a \<Rightarrow> a | None \<Rightarrow> run_agg_new run)) else agg_of rs run)"
  by (auto simp: agg_of_def split: list.splits)

lemma agg_of_None [simp]: "agg_of rs run = None \<longleftrightarrow> run \<notin> rec_run ` set rs"
proof -
  have "agg_of rs run = None \<longleftrightarrow> filter (\<lambda>r. rec_run r = run) rs = []" by (auto simp: agg_of_def split: list.splits)
  then show ?thesis by (auto simp: filter_empty_conv)
qed

text \<open>As long as an organization has pushed at most 50000 distinct run ids, nothing is evicted and
  the stored aggregate of every run is the fold of that run's own records in order, whatever the
  interleaving with other runs; a run never pushed has none.\<close>
theorem run_aggregates_exact:
  assumes "card (rec_run ` set (recs_of org ops)) \<le> 50000"
  shows "fmlookup (org_get fmempty (orgs (cloud_run sha cfg pct ops inner_default)) org) run = agg_of (recs_of org ops) run"
proof -
  define P where "P = (\<lambda>rs (v :: OrgView). \<forall>run. fmlookup (v_runs v) run = agg_of rs run)"
  have "P (recs_of org ops) (org_view (cloud_run sha cfg pct ops inner_default) org)"
  proof (rule view_induct)
    show "P [] (org_view inner_default org)" by (simp add: P_def org_view_def inner_default_def org_get_def agg_of_def)
  next
    fix pre v r bs w
    assume IH: "P pre v" and pre: "set pre \<subseteq> set (recs_of org ops)" and r: "r \<in> set (recs_of org ops)"
    have dom: "fset (fmdom (v_runs v)) = rec_run ` set pre"
      using IH unfolding P_def by (metis (no_types, opaque_lifting) agg_of_None fmlookup_dom_iff set_eqI option.exhaust option.distinct(1))
    have "make_run_room pct bs (rec_run r) v = v"
    proof (cases "fmlookup (v_runs v) (rec_run r) = None")
      case True
      then have "rec_run r \<notin> rec_run ` set pre" using IH unfolding P_def by simp
      moreover have "insert (rec_run r) (rec_run ` set pre) \<subseteq> rec_run ` set (recs_of org ops)" using pre r by auto
      then have "card (insert (rec_run r) (rec_run ` set pre)) \<le> card (rec_run ` set (recs_of org ops))" by (intro card_mono) auto
      ultimately have "card (rec_run ` set pre) < 50000" using assms by simp
      then show ?thesis by (simp add: make_run_room_def fm_len_card dom cloud_caps)
    qed (auto simp: make_run_room_def)
    then have "v_runs (ingest_record pct bs w v r) =
        fmupd (rec_run r) (update_agg r (case fmlookup (v_runs v) (rec_run r) of Some a \<Rightarrow> a | None \<Rightarrow> run_agg_new (rec_run r))) (v_runs v)"
      by (simp add: ingest_record_def Let_def split: prod.splits)
    then show "P (pre @ [r]) (ingest_record pct bs w v r)" using IH by (auto simp: P_def agg_of_snoc)
  qed
  then show ?thesis by (simp add: P_def org_view_def)
qed


definition demo_rec :: "string \<Rightarrow> string \<Rightarrow> i64 \<Rightarrow> CloudCallRecord" where
  "demo_rec run d cost = \<lparr> rec_ts = 5, rec_run = run, rec_model = '''', rec_decision = d, rec_input_tokens = 0, rec_output_tokens = 0,
     rec_cost = cost, rec_step = 1, rec_agent = '''', rec_saved = 0, rec_parent = '''', rec_on_behalf_of = '''', rec_outcome = '''',
     rec_unit = '''', rec_tool_calls = None \<rparr>"

definition demo_batch :: "CloudCallRecord list" where
  "demo_batch = [demo_rec ''r'' ''allow'' 7, demo_rec ''q'' ''allow'' 9, demo_rec ''r'' ''killed'' 100, demo_rec ''r'' ''allow'' 4]"

lemma demo_recs: "recs_of ''acme'' [Ingest ''acme'' demo_batch 5] = demo_batch"
  by (simp add: recs_of_def)

theorem run_aggregates_exact_witness:
  "map_option ra_spent (fmlookup (org_get fmempty (orgs (cloud_run sha cfg pct [Ingest ''acme'' demo_batch 5] inner_default)) ''acme'') ''r'') = Some 11"
proof -
  have p: "card (rec_run ` set (recs_of ''acme'' [Ingest ''acme'' demo_batch 5])) \<le> 50000"
    unfolding demo_recs by (simp add: demo_batch_def demo_rec_def card_insert_if)
  have v: "map_option ra_spent (agg_of demo_batch ''r'') = Some 11"
    by (simp add: demo_batch_def demo_rec_def agg_of_def update_agg_def is_blocked_def rec_clamped_cost_def run_agg_new_def Let_def
        sat_i64_def i64_max_def i64_min_def)
  show ?thesis unfolding run_aggregates_exact [OF p] demo_recs by (rule v)
qed

end
