(* ===== verification/CloudAudit.thy ===== *)
theory CloudAudit
  imports CloudTotals
begin

text \<open>
  The control plane's audit trail over every history of the store, and the
  isolation of organizations from each other's operations.
\<close>

section \<open>Incident ids\<close>

text \<open>Every incident is stored under its own id, in its own organization.\<close>
definition ids_ok :: "Inner \<Rightarrow> bool" where
  "ids_ok i \<longleftrightarrow> (\<forall>org k x. get_nested (incidents i) org k = Some x \<longrightarrow> inc_id x = k \<and> inc_org x = org)"

lemma get_nested_put: "get_nested (put_nested org k v m) o' k' = (if o' = org \<and> k' = k then Some v else get_nested m o' k')"
  by (auto simp: get_nested_def put_nested_def org_get_def split: option.splits)

lemma get_nested_org: "get_nested m org k = fmlookup (org_get fmempty m org) k"
  by (auto simp: get_nested_def org_get_def split: option.splits)

lemma trip_id [simp]: "inc_id (trip_incident a t x) = inc_id x" "inc_org (trip_incident a t x) = inc_org x"
  "inc_source (trip_incident a t x) = inc_source x" "inc_notified (trip_incident a t x) = inc_notified x"
  "inc_kind (trip_incident a t x) = inc_kind x"
  by (simp_all add: trip_incident_def Let_def)

lemma make_incident_room_sub: "fmlookup (make_incident_room k m) x = Some v \<Longrightarrow> fmlookup m x = Some v"
  by (auto simp: make_incident_room_def split: if_splits option.splits)

lemma make_incident_room_hit: "fmlookup m k \<noteq> None \<Longrightarrow> make_incident_room k m = m"
  by (auto simp: make_incident_room_def)

lemma upsert_get:
  assumes "upsert_incident org kind sev scope run agent t i = (inc, j)"
  shows "get_nested (incidents j) org (incident_id kind scope) = Some inc"
    and "inc = trip_incident agent t (case get_nested (incidents i) org (incident_id kind scope) of
           Some x \<Rightarrow> x | None \<Rightarrow> incident_new org kind sev scope run agent t)"
    and "k \<noteq> incident_id kind scope \<Longrightarrow> get_nested (incidents j) org k = Some x \<Longrightarrow> get_nested (incidents i) org k = Some x"
    and "o' \<noteq> org \<Longrightarrow> get_nested (incidents j) o' k = get_nested (incidents i) o' k"
proof -
  let ?id = "incident_id kind scope" and ?m = "org_get fmempty (incidents i) org"
  have j: "incidents j = (incidents i)(org \<mapsto> fmupd ?id inc (make_incident_room ?id ?m))"
    and inc: "inc = trip_incident agent t (case fmlookup (make_incident_room ?id ?m) ?id of Some x \<Rightarrow> x
                | None \<Rightarrow> incident_new org kind sev scope run agent t)"
    using assms by (auto simp: upsert_incident_def Let_def)
  show "get_nested (incidents j) org ?id = Some inc" by (simp add: get_nested_org j)
  have "fmlookup (make_incident_room ?id ?m) ?id = fmlookup ?m ?id"
    using make_incident_room_hit [of ?m ?id] make_incident_room_sub [of ?id ?m ?id] by (cases "fmlookup ?m ?id") (auto, fastforce)
  then show "inc = trip_incident agent t (case get_nested (incidents i) org ?id of Some x \<Rightarrow> x
      | None \<Rightarrow> incident_new org kind sev scope run agent t)"
    using inc by (simp add: get_nested_org)
  show "k \<noteq> ?id \<Longrightarrow> get_nested (incidents j) org k = Some x \<Longrightarrow> get_nested (incidents i) org k = Some x"
    using make_incident_room_sub [of ?id ?m k x] by (simp add: get_nested_org j)
  show "o' \<noteq> org \<Longrightarrow> get_nested (incidents j) o' k = get_nested (incidents i) o' k"
    by (simp add: get_nested_org j)
qed

lemma upsert_ids_ok: "ids_ok i \<Longrightarrow> ids_ok (snd (upsert_incident org kind sev scope run agent t i))"
proof -
  assume ok: "ids_ok i"
  obtain inc j where u: "upsert_incident org kind sev scope run agent t i = (inc, j)" by fastforce
  note g = upsert_get [OF u]
  have "inc_id inc = incident_id kind scope \<and> inc_org inc = org"
    using ok unfolding g(2) by (auto simp: ids_ok_def incident_new_def split: option.splits)
  then show ?thesis using ok g(1,3,4) unfolding u ids_ok_def by (metis option.sel snd_conv)
qed

lemma ids_ok_incidents: "incidents j = incidents i \<Longrightarrow> ids_ok j = ids_ok i"
  by (simp add: ids_ok_def)

lemma ids_ok_put: "\<lbrakk>ids_ok i; inc_id x = k; inc_org x = org\<rbrakk> \<Longrightarrow> ids_ok (i\<lparr>incidents := put_nested org k x (incidents i)\<rparr>)"
  by (auto simp: ids_ok_def get_nested_put)

lemma bump_incidents [simp]: "incidents (snd (bump_tracker org kind scope t w i)) = incidents i"
  "incidents (snd (bump_fanout_tracker org a run t now ww i)) = incidents i"
  by (simp_all add: bump_tracker_def bump_fanout_tracker_def Let_def split: prod.splits)

lemma folded_incidents [simp]: "incidents (ingest_folded pct org rs now i) = incidents i"
  by (simp add: ingest_folded_defs)

lemma ingest_ids_ok: "ids_ok i \<Longrightarrow> ids_ok (fst (ingest_locked cfg pct org rs now i))"
proof -
  assume ok: "ids_ok i"
  have "ids_ok (ingest_folded pct org rs now i) \<longrightarrow> ids_ok (fst (ingest_locked cfg pct org rs now i))"
    unfolding ingest_locked_fst by (rule detect_pass [of "\<lambda>i j. ids_ok i \<longrightarrow> ids_ok j"])
      (auto simp: reflp_def transp_def upsert_ids_ok ids_ok_incidents [OF bump_incidents(1)] ids_ok_incidents [OF bump_incidents(2)])
  then show ?thesis using ok by (simp add: ids_ok_incidents [OF folded_incidents])
qed

section \<open>The trail\<close>

type_synonym audit_intent = "i64 \<times> string \<times> string \<times> string \<times> string"

text \<open>The audit entry an operation owes, with the organization it belongs to.\<close>
fun intent :: "Inner \<Rightarrow> cop \<Rightarrow> (string \<times> audit_intent) option" where
  "intent i (KillAudited org run who now) = Some (org, (now, who, ''control.kill'', run, ''mode=hard''))"
| "intent i (SetBudgetAudited org run m who now) = Some (org, (now, who, ''control.set_budget'', run, ''budget_micros='' @ int_str m))"
| "intent i (SetUnitBudgetAudited org u m who now) = Some (org, (now, who, ''control.unit_budget_set'', u, ''budget_micros='' @ int_str m))"
| "intent i (AckAudited org iid who now) =
     (if get_nested (incidents i) org iid = None then None else Some (org, (now, who, ''control.incident_ack'', iid, [])))"
| "intent i (Finding org who f now) =
     Some (org, (now, who, ''control.finding_recorded'', incident_id (f_detector f) (f_subject f), f_source f))"
| "intent i (AuditAppend org who what subj det now) = Some (org, (now, who, what, subj, det))"
| "intent i (RedeemAudited code now did tok pk name pf ms) =
     (case pairings i code of
        Some p \<Rightarrow> if pr_expires p < now then None
                  else Some (pr_org p, (ms, ''device:'' @ did, ''control.pair'', did, ''role='' @ pr_role p @ '';platform='' @ pf))
      | None \<Rightarrow> None)"
| "intent i _ = None"

definition intent_for :: "string \<Rightarrow> Inner \<Rightarrow> cop \<Rightarrow> audit_intent list" where
  "intent_for org i op = (case intent i op of Some (o', x) \<Rightarrow> if o' = org then [x] else [] | None \<Rightarrow> [])"

text \<open>The entries owed along a history.\<close>
fun intents :: "(string \<Rightarrow> string) \<Rightarrow> IncidentConfig \<Rightarrow> f64 \<Rightarrow> string \<Rightarrow> cop list \<Rightarrow> Inner \<Rightarrow> audit_intent list" where
  "intents sha cfg pct org [] i = []"
| "intents sha cfg pct org (op # ops) i = intent_for org i op @ intents sha cfg pct org ops (cop_inner sha cfg pct op i)"

lemma intents_snoc:
  "intents sha cfg pct org (ops @ [op]) i = intents sha cfg pct org ops i @ intent_for org (cloud_run sha cfg pct ops i) op"
  by (induction ops arbitrary: i) (simp_all add: cloud_run_def)

definition append_intents :: "(string \<Rightarrow> string) \<Rightarrow> audit_intent list \<Rightarrow> AuditEntry list \<Rightarrow> AuditEntry list" where
  "append_intents sha xs es = foldl (\<lambda>es (t, a, b, c, d). es @ [audit_append sha (opt_last None es) t a b c d]) es xs"

lemma audit_after_append:
  "store_audit (append_audit_locked sha now o' who what subj det i) org =
     (if org = o' then append_intents sha [(now, who, what, subj, det)] (store_audit i org) else store_audit i org)"
  by (simp add: store_audit_def append_audit_locked_def Let_def append_intents_def)

lemma store_audit_update [simp]:
  "store_audit (i\<lparr>dirty := d\<rparr>) org = store_audit i org" "store_audit (i\<lparr>killed := k\<rparr>) org = store_audit i org"
  "store_audit (i\<lparr>budgets := b\<rparr>) org = store_audit i org" "store_audit (i\<lparr>unit_budgets := b\<rparr>) org = store_audit i org"
  "store_audit (i\<lparr>pairings := p\<rparr>) org = store_audit i org" "store_audit (i\<lparr>devices := e\<rparr>) org = store_audit i org"
  "store_audit (i\<lparr>activities := a\<rparr>) org = store_audit i org" "store_audit (i\<lparr>incidents := x\<rparr>) org = store_audit i org"
  "store_audit (i\<lparr>nonces := n\<rparr>) org = store_audit i org"
  by (simp_all add: store_audit_def)

lemma append_intents_nil [simp]: "append_intents sha [] es = es"
  by (simp add: append_intents_def)

lemma ingest_audit: "store_audit (fst (ingest_locked cfg pct o' rs now i)) org = store_audit i org"
  using quiet_fields [OF ingest_quiet] by (simp add: store_audit_def ingest_folded_defs)

lemma step_audit:
  assumes "ids_ok i"
  shows "store_audit (cop_inner sha cfg pct op i) org = append_intents sha (intent_for org i op) (store_audit i org)"
proof (cases op)
  case (Ingest o' rs now)
  then show ?thesis by (simp add: ingest_audit intent_for_def)
next
  case (Finding o' who f now)
  obtain inc j where u: "upsert_incident o' (f_detector f) (f_severity f) (f_subject f) None (agent_subject (f_subject f)) (f_ts f) i = (inc, j)"
    by fastforce
  have fr: "j = i\<lparr>incidents := incidents j\<rparr>" using upsert_frame [of o' "f_detector f" "f_severity f" "f_subject f" None "agent_subject (f_subject f)" "f_ts f" i] u by simp
  have "ids_ok j" using upsert_ids_ok [OF assms] u by (metis snd_conv)
  then have iid: "inc_id inc = incident_id (f_detector f) (f_subject f)" using upsert_get(1) [OF u] by (simp add: ids_ok_def)
  have sj: "store_audit j x = store_audit i x" for x by (subst fr) simp
  have "inc_id (stamp_finding f inc) = inc_id inc" by (simp add: stamp_finding_def Let_def)
  then show ?thesis using upsert_get(1) [OF u] Finding iid sj
    by (simp add: record_external_finding_def u Let_def audit_after_append intent_for_def)
next
  case (Redeem code now did tok pk name pf)
  then show ?thesis using redeem_frame [of code now did tok pk name pf i] by (auto simp: intent_for_def)
next
  case (RedeemAudited code now did tok pk name pf ms)
  then show ?thesis
    by (auto simp: redeem_pairing_audited_def redeem_pairing_def Let_def audit_after_append intent_for_def split: option.splits)
qed (auto simp: kill_locked_def budget_locked_def set_unit_budget_def set_unit_budget_audited_def ack_incident_def
      ack_incident_audited_def mark_incident_notified_def store_audit_append_def create_pairing_def register_activity_def take_dirty_def
      set_apns_token_def check_and_record_nonce_def Let_def audit_after_append intent_for_def split: option.splits prod.splits)

lemma step_ids_ok:
  assumes "ids_ok i"
  shows "ids_ok (cop_inner sha cfg pct op i)"
proof (cases op)
  case (Ingest o' rs now)
  then show ?thesis using assms by (simp add: ingest_ids_ok)
next
  case (Finding o' who f now)
  obtain inc j where u: "upsert_incident o' (f_detector f) (f_severity f) (f_subject f) None (agent_subject (f_subject f)) (f_ts f) i = (inc, j)"
    by fastforce
  have j: "ids_ok j" using upsert_ids_ok [OF assms] u by (metis snd_conv)
  have st: "inc_id (stamp_finding f inc) = inc_id inc" "inc_org (stamp_finding f inc) = inc_org inc" by (simp_all add: stamp_finding_def Let_def)
  have ii: "inc_id inc = incident_id (f_detector f) (f_subject f) \<and> inc_org inc = o'" using upsert_get(1) [OF u] j by (simp add: ids_ok_def)
  have "ids_ok (j\<lparr>incidents := put_nested o' (inc_id inc) (stamp_finding f inc) (incidents j)\<rparr>)"
    by (rule ids_ok_put [OF j]) (simp_all add: st ii)
  then show ?thesis using upsert_get(1) [OF u] Finding ii
    by (simp add: record_external_finding_def u Let_def append_audit_locked_def ids_ok_def)
next
  case (Redeem code now did tok pk name pf)
  then show ?thesis using redeem_frame [of code now did tok pk name pf i] assms by (auto simp: ids_ok_def)
next
  case (RedeemAudited code now did tok pk name pf ms)
  then show ?thesis using assms
    by (auto simp: redeem_pairing_audited_def redeem_pairing_def Let_def append_audit_locked_def ids_ok_def split: option.splits)
qed (use assms in \<open>auto simp: kill_locked_def budget_locked_def set_unit_budget_def set_unit_budget_audited_def ack_incident_def
      ack_incident_audited_def mark_incident_notified_def store_audit_append_def create_pairing_def register_activity_def take_dirty_def
      set_apns_token_def check_and_record_nonce_def append_audit_locked_def Let_def ids_ok_def get_nested_put split: option.splits prod.splits\<close>)

lemma run_ids_ok: "ids_ok (cloud_run sha cfg pct ops inner_default)"
  by (induction ops rule: rev_induct) (simp_all add: step_ids_ok, simp add: ids_ok_def inner_default_def get_nested_def)

text \<open>C15: The audit trail is complete and nothing else writes it: after any history of ingests, operator
  calls, findings, pairings and device calls, an organization's chain is exactly the log built from
  the entries its audited operations owed, one entry per operation that took effect, in order, with
  the acting principal, the action, the subject and the detail; an acknowledgement of an unknown
  incident or the redemption of an unknown or expired code owes none.  The chain verifies end to end.\<close>
theorem audit_trail_exact:
  fixes sha cfg pct ops org
  defines "i \<equiv> cloud_run sha cfg pct ops inner_default"
  shows "store_audit i org = build_log sha (intents sha cfg pct org ops inner_default) \<and> audit_verify sha i org = Inr ()"
proof -
  have b: "build_log sha (xs @ ys) = append_intents sha ys (build_log sha xs)" for xs ys
    by (simp add: build_log.simps append_intents_def)
  have "store_audit (cloud_run sha cfg pct ops inner_default) org = build_log sha (intents sha cfg pct org ops inner_default)"
  proof (induction ops rule: rev_induct)
    case Nil
    then show ?case by (simp add: store_audit_def inner_default_def org_get_def build_log.simps)
  next
    case (snoc op ops)
    then show ?case by (simp add: intents_snoc b step_audit [OF run_ids_ok])
  qed
  then have s: "store_audit i org = build_log sha (intents sha cfg pct org ops inner_default)" by (simp add: i_def)
  have "audit_verify sha i org = verify_chain sha (store_audit i org)"
    by (simp add: audit_verify_def store_audit_def org_get_def verify_chain_def split: option.splits)
  then show ?thesis using s build_log_ok by simp
qed

end
