(* ===== verification/CloudGuards.thy ===== *)
theory CloudGuards
  imports CloudAudit
begin

text \<open>
  The guards of the control plane's store: organizations are isolated from each
  other, nonces and pairing codes are single-use, eviction spares runs that are
  over their alert threshold, and the burn-rate series partitions the samples.
\<close>

section \<open>Isolation of organizations\<close>

record OrgSlice =
  sl_runs :: "(string, RunAgg) fmap option"
  sl_killed :: "(string, bool) fmap option"
  sl_budgets :: "(string, i64) fmap option"
  sl_unit_budgets :: "(string, i64) fmap option"
  sl_series :: "Sample list option"
  sl_savings :: "SavingsAcc option"
  sl_months :: "(string, UnitMonthAcc) fmap option"
  sl_counts :: "(string, u64) fmap option"
  sl_incidents :: "(string, Incident) fmap option"
  sl_audit :: "AuditEntry list option"
  sl_totals :: "OrgTotals option"
  sl_activities :: "(string \<rightharpoonup> string list) option"

text \<open>Everything the read endpoints of an organization are computed from, the devices apart.\<close>
definition org_slice :: "Inner \<Rightarrow> string \<Rightarrow> OrgSlice" where
  "org_slice i o' = \<lparr> sl_runs = orgs i o', sl_killed = killed i o', sl_budgets = budgets i o', sl_unit_budgets = unit_budgets i o',
     sl_series = series_log i o', sl_savings = savings i o', sl_months = unit_months i o', sl_counts = decision_counts i o',
     sl_incidents = incidents i o', sl_audit = audit_chains i o', sl_totals = org_totals i o', sl_activities = activities i o' \<rparr>"

fun op_org :: "Inner \<Rightarrow> cop \<Rightarrow> string option" where
  "op_org i (Ingest org _ _) = Some org"
| "op_org i (Kill org _) = Some org"
| "op_org i (KillAudited org _ _ _) = Some org"
| "op_org i (SetBudget org _ _) = Some org"
| "op_org i (SetBudgetAudited org _ _ _ _) = Some org"
| "op_org i (SetUnitBudget org _ _) = Some org"
| "op_org i (SetUnitBudgetAudited org _ _ _ _) = Some org"
| "op_org i (Ack org _) = Some org"
| "op_org i (AckAudited org _ _ _) = Some org"
| "op_org i (Finding org _ _ _) = Some org"
| "op_org i (Notify org _ _ _) = Some org"
| "op_org i (AuditAppend org _ _ _ _ _) = Some org"
| "op_org i (RedeemAudited code _ _ _ _ _ _ _) = map_option pr_org (pairings i code)"
| "op_org i (Activity org _ _) = Some org"
| "op_org i _ = None"

lemma slice_put_view: "o' \<noteq> org \<Longrightarrow> org_slice (put_view org v i) o' = org_slice i o'"
  by (simp add: org_slice_def put_view_def)

lemma slice_upsert: "o' \<noteq> org \<Longrightarrow> org_slice (snd (upsert_incident org kind sev scope run agent t i)) o' = org_slice i o'"
  by (simp add: upsert_incident_def Let_def org_slice_def)

lemma slice_trackers: "org_slice (snd (bump_tracker org kind scope t w i)) o' = org_slice i o'"
  "org_slice (snd (bump_fanout_tracker org a run t now ww i)) o' = org_slice i o'"
  by (simp_all add: bump_tracker_def bump_fanout_tracker_def Let_def org_slice_def split: prod.splits)

lemma slice_ingest: "o' \<noteq> org \<Longrightarrow> org_slice (fst (ingest_locked cfg pct org rs now i)) o' = org_slice i o'"
proof -
  assume ne: "o' \<noteq> org"
  have "org_slice (fst (ingest_locked cfg pct org rs now i)) o' = org_slice (ingest_folded pct org rs now i) o'"
    unfolding ingest_locked_fst by (rule detect_pass [of "\<lambda>i j. org_slice j o' = org_slice i o'"])
      (simp_all add: reflp_def transp_def slice_trackers slice_upsert ne)
  also have "\<dots> = org_slice i o'" using ne by (simp add: ingest_folded_defs org_slice_def put_view_def)
  finally show ?thesis .
qed

lemma same_field [simp]: "i\<lparr>incidents := incidents i\<rparr> = i" "i\<lparr>killed := killed i\<rparr> = i" "i\<lparr>budgets := budgets i\<rparr> = i"
  "i\<lparr>unit_budgets := unit_budgets i\<rparr> = i"
  by simp_all

lemma slice_simps [simp]:
  "o' \<noteq> org \<Longrightarrow> org_slice (append_audit_locked sha now org who what subj det i) o' = org_slice i o'"
  "o' \<noteq> org \<Longrightarrow> org_slice (i\<lparr>incidents := put_nested org k x m\<rparr>) o' = org_slice (i\<lparr>incidents := m\<rparr>) o'"
  "org_slice (i\<lparr>dirty := d\<rparr>) o' = org_slice i o'" "org_slice (i\<lparr>pairings := p\<rparr>) o' = org_slice i o'"
  "org_slice (i\<lparr>devices := e\<rparr>) o' = org_slice i o'" "org_slice (i\<lparr>nonces := n\<rparr>) o' = org_slice i o'"
  "o' \<noteq> org \<Longrightarrow> org_slice (i\<lparr>killed := put_nested org k1 v1 m1\<rparr>) o' = org_slice (i\<lparr>killed := m1\<rparr>) o'"
  "o' \<noteq> org \<Longrightarrow> org_slice (i\<lparr>budgets := put_nested org k2 v2 m2\<rparr>) o' = org_slice (i\<lparr>budgets := m2\<rparr>) o'"
  "o' \<noteq> org \<Longrightarrow> org_slice (i\<lparr>unit_budgets := put_nested org k3 v3 m3\<rparr>) o' = org_slice (i\<lparr>unit_budgets := m3\<rparr>) o'"
  "o' \<noteq> org \<Longrightarrow> org_slice (i\<lparr>activities := (activities i)(org \<mapsto> v4)\<rparr>) o' = org_slice i o'"
  by (simp_all add: org_slice_def append_audit_locked_def Let_def put_nested_def)

lemma isolated: "op_org i op \<noteq> Some org \<Longrightarrow> org_slice (cop_inner sha cfg pct op i) org = org_slice i org"
proof (cases op)
  case (Finding o' who f now)
  obtain inc j where u: "upsert_incident o' (f_detector f) (f_severity f) (f_subject f) None (agent_subject (f_subject f)) (f_ts f) i = (inc, j)"
    by fastforce
  assume "op_org i op \<noteq> Some org"
  then have ne: "org \<noteq> o'" using Finding by auto
  then have "org_slice j org = org_slice i org" using slice_upsert [of org o'] u by (metis snd_conv)
  then show ?thesis using Finding ne by (simp add: record_external_finding_def u Let_def split: option.splits)
next
  case (RedeemAudited code now did tok pk name pf ms)
  assume "op_org i op \<noteq> Some org"
  then have "org \<noteq> pr_org p" if "pairings i code = Some p" for p using that RedeemAudited by auto
  then show ?thesis using RedeemAudited
    by (simp add: redeem_pairing_audited_def redeem_pairing_def Let_def split: option.splits)
next
  case (Redeem code now did tok pk name pf)
  then show ?thesis using redeem_frame [of code now did tok pk name pf i] by auto
qed (simp_all add: slice_ingest kill_locked_def budget_locked_def set_unit_budget_def set_unit_budget_audited_def ack_incident_def
      ack_incident_audited_def mark_incident_notified_def store_audit_append_def create_pairing_def register_activity_def take_dirty_def
      set_apns_token_def check_and_record_nonce_def Let_def split: option.splits prod.splits)

text \<open>An operation of one organization leaves every other organization's runs, kills, budgets, series,
  savings, windows, evidence counters, incidents, audit chain, totals and activities exactly as they
  were; pairing, nonce and push-token calls change none of them for anyone, except that the audited
  redemption of a code writes the audit chain of the organization that issued it.\<close>
theorem org_isolated:
  "op_org i op = Some org \<or> org_slice (cop_inner sha cfg pct op i) org = org_slice i org"
  using isolated [of i op org] by blast

section \<open>Nonces\<close>

text \<open>The nonces of a device accepted along a history.\<close>
fun accepted :: "(string \<Rightarrow> string) \<Rightarrow> IncidentConfig \<Rightarrow> f64 \<Rightarrow> string \<Rightarrow> cop list \<Rightarrow> Inner \<Rightarrow> string list" where
  "accepted sha cfg pct did [] i = []"
| "accepted sha cfg pct did (op # ops) i =
     (case op of Nonce d n \<Rightarrow> if d = did \<and> fst (check_and_record_nonce d n i) then [n] else [] | _ \<Rightarrow> [])
     @ accepted sha cfg pct did ops (cop_inner sha cfg pct op i)"

lemma last_n_append [simp]: "last_n n (last_n n xs @ ys) = last_n n (xs @ ys)"
proof (cases "n \<le> length xs")
  case True
  then show ?thesis by (simp add: last_n_def drop_append drop_drop) (simp add: add.commute)
next
  case False
  then show ?thesis by (simp add: last_n_def)
qed

lemma last_n_id [simp]: "length xs \<le> n \<Longrightarrow> last_n n xs = xs"
  by (simp add: last_n_def)

lemma quiet_nonces: "nonces (fst (ingest_locked cfg pct org rs now i)) = nonces i" "pairings (fst (ingest_locked cfg pct org rs now i)) = pairings i"
  using quiet_fields [OF ingest_quiet] by (simp_all add: ingest_folded_defs)

lemma finding_frame: "nonces (snd (record_external_finding sha now org who f i)) = nonces i"
  "pairings (snd (record_external_finding sha now org who f i)) = pairings i"
  by (simp_all add: record_external_finding_def upsert_incident_def Let_def append_audit_locked_def split: option.splits)

lemma step_nonces:
  assumes "length (org_get [] (nonces i) did) \<le> NONCE_CAP"
  shows "org_get [] (nonces (cop_inner sha cfg pct op i)) did =
    last_n NONCE_CAP (org_get [] (nonces i) did @ (case op of Nonce d n \<Rightarrow> if d = did \<and> fst (check_and_record_nonce d n i) then [n] else [] | _ \<Rightarrow> []))"
proof (cases op)
  case (Ingest org rs now)
  then show ?thesis using assms by (simp add: quiet_nonces)
next
  case (Finding o' who f now)
  then show ?thesis using assms by (simp add: finding_frame)
next
  case (Redeem code now did' tok pk name pf)
  then show ?thesis using assms redeem_frame [of code now did' tok pk name pf i] by auto
next
  case (RedeemAudited code now did' tok pk name pf ms)
  then show ?thesis using assms
    by (auto simp: redeem_pairing_audited_def redeem_pairing_def Let_def append_audit_locked_def split: option.splits)
next
  case (Nonce d n)
  then show ?thesis using assms by (auto simp: check_and_record_nonce_def Let_def)
qed (use assms in \<open>auto simp: kill_locked_def budget_locked_def set_unit_budget_def set_unit_budget_audited_def ack_incident_def
      ack_incident_audited_def mark_incident_notified_def store_audit_append_def create_pairing_def register_activity_def take_dirty_def
      set_apns_token_def append_audit_locked_def Let_def split: option.splits prod.splits\<close>)

lemma run_nonces:
  assumes "length (org_get [] (nonces i) did) \<le> NONCE_CAP"
  shows "org_get [] (nonces (cloud_run sha cfg pct ops i)) did = last_n NONCE_CAP (org_get [] (nonces i) did @ accepted sha cfg pct did ops i)"
  using assms
proof (induction ops arbitrary: i)
  case (Cons op ops)
  have "length (org_get [] (nonces (cop_inner sha cfg pct op i)) did) \<le> NONCE_CAP"
    unfolding step_nonces [OF Cons.prems] by simp
  from Cons.IH [OF this] show ?case by (simp add: cloud_run_def step_nonces [OF Cons.prems])
qed (simp add: cloud_run_def)

text \<open>A nonce is single-use within its window: once accepted for a device, it is refused after any
  history in which fewer than 4096 other nonces of that device were accepted, and accepted again
  as soon as 4096 were.\<close>
theorem nonce_single_use:
  assumes "check_and_record_nonce did n (cloud_run sha cfg pct pre inner_default) = (True, i)"
    and "n \<notin> set (accepted sha cfg pct did ops i)"
  shows "fst (check_and_record_nonce did n (cloud_run sha cfg pct ops i)) \<longleftrightarrow> 4096 \<le> length (accepted sha cfg pct did ops i)"
proof -
  let ?j = "cloud_run sha cfg pct pre inner_default" and ?acc = "accepted sha cfg pct did ops i"
  let ?old = "org_get [] (nonces ?j) did"
  have i: "org_get [] (nonces i) did = last_n NONCE_CAP (?old @ [n])" and new: "n \<notin> set ?old"
    using assms(1) by (auto simp: check_and_record_nonce_def Let_def split: if_splits)
  have "org_get [] (nonces (cloud_run sha cfg pct ops i)) did = last_n NONCE_CAP (?old @ n # ?acc)"
    by (subst run_nonces) (simp_all add: i)
  then have "fst (check_and_record_nonce did n (cloud_run sha cfg pct ops i)) \<longleftrightarrow> n \<notin> set (last_n NONCE_CAP (?old @ n # ?acc))"
    by (simp add: check_and_record_nonce_def Let_def)
  also have "\<dots> \<longleftrightarrow> NONCE_CAP \<le> length ?acc"
  proof (cases "NONCE_CAP \<le> length ?acc")
    case True
    then have "last_n NONCE_CAP (?old @ n # ?acc) = last_n NONCE_CAP ?acc" by (simp add: last_n_def Suc_diff_le)
    then have "set (last_n NONCE_CAP (?old @ n # ?acc)) \<subseteq> set ?acc" by (simp add: last_n_def set_drop_subset)
    then show ?thesis using True assms(2) by auto
  next
    case False
    then have "\<exists>xs. last_n NONCE_CAP (?old @ n # ?acc) = xs @ n # ?acc" by (auto simp: last_n_def drop_append)
    then show ?thesis using False by auto
  qed
  finally show ?thesis by (simp add: NONCE_CAP_def)
qed

theorem nonce_single_use_witness:
  "\<not> fst (check_and_record_nonce ''d'' ''n'' (cloud_run sha cfg pct [Nonce ''d'' ''m''] (snd (check_and_record_nonce ''d'' ''n'' inner_default))))"
  using nonce_single_use [of "''d''" "''n''" sha cfg pct "[]" "snd (check_and_record_nonce ''d'' ''n'' inner_default)" "[Nonce ''d'' ''m'']"]
  by (simp add: check_and_record_nonce_def Let_def inner_default_def org_get_def NONCE_CAP_def)


section \<open>Pairing codes\<close>

definition mints :: "string \<Rightarrow> cop \<Rightarrow> bool" where
  "mints code op \<longleftrightarrow> (case op of PairNew c _ _ _ \<Rightarrow> c = code | _ \<Rightarrow> False)"

lemma step_pairings:
  "\<not> mints code op \<Longrightarrow> pairings i code = None \<Longrightarrow> pairings (cop_inner sha cfg pct op i) code = None"
proof (cases op)
  case (Finding o' who f now)
  then show "pairings i code = None \<Longrightarrow> ?thesis" by (simp add: finding_frame)
next
  case (Ingest org rs now)
  then show "pairings i code = None \<Longrightarrow> ?thesis" by (simp add: quiet_nonces)
qed (auto simp: mints_def kill_locked_def budget_locked_def set_unit_budget_def set_unit_budget_audited_def ack_incident_def
      ack_incident_audited_def mark_incident_notified_def store_audit_append_def create_pairing_def register_activity_def take_dirty_def
      set_apns_token_def check_and_record_nonce_def append_audit_locked_def redeem_pairing_def redeem_pairing_audited_def Let_def
      split: option.splits prod.splits)

lemma run_pairings: "\<lbrakk>\<forall>op\<in>set ops. \<not> mints code op; pairings i code = None\<rbrakk> \<Longrightarrow> pairings (cloud_run sha cfg pct ops i) code = None"
  by (induction ops arbitrary: i) (simp_all add: cloud_run_def step_pairings)

text \<open>C23: A pairing code is single-use: whatever the outcome of redeeming it, every later redemption fails
  until a code with the same text is issued again; and a redemption that succeeds was within the
  code's life and registers a device with exactly the organization and role it was issued for.\<close>
theorem pairing_single_use:
  assumes "redeem_pairing code now did tok pk name pf i = (d, j)" and "\<forall>op\<in>set ops. \<not> mints code op"
  shows "fst (redeem_pairing code now' did' tok' pk' name' pf' (cloud_run sha cfg pct ops j)) = None
    \<and> (case d of Some dev \<Rightarrow> (\<exists>p. pairings i code = Some p \<and> now \<le> pr_expires p \<and> dev_org dev = pr_org p \<and> dev_role dev = pr_role p
                  \<and> dev_pubkey dev = pk \<and> device_by_token j tok = Some dev)
                | None \<Rightarrow> devices j = devices i)"
proof -
  have "pairings j code = None" using assms(1) by (auto simp: redeem_pairing_def Let_def split: option.splits if_splits)
  then have "pairings (cloud_run sha cfg pct ops j) code = None" using run_pairings [OF assms(2)] by blast
  then show ?thesis using assms(1)
    by (auto simp: redeem_pairing_def device_by_token_def Let_def split: option.splits if_splits)
qed

theorem pairing_single_use_witness:
  "fst (redeem_pairing ''C'' 0 ''e'' ''u'' ''k'' '''' '''' (cloud_run (\<lambda>s. s) incident_config_default DEFAULT_ALERT_PCT [TakeDirty]
     (snd (redeem_pairing ''C'' 5 ''d'' ''t'' ''k'' '''' '''' (create_pairing ''C'' ''acme'' ''viewer'' 9 inner_default))))) = None"
  using pairing_single_use [of "''C''" 5 "''d''" "''t''" "''k''" "''''" "''''" "create_pairing ''C'' ''acme'' ''viewer'' 9 inner_default"
      "fst (redeem_pairing ''C'' 5 ''d'' ''t'' ''k'' '''' '''' (create_pairing ''C'' ''acme'' ''viewer'' 9 inner_default))"
      "snd (redeem_pairing ''C'' 5 ''d'' ''t'' ''k'' '''' '''' (create_pairing ''C'' ''acme'' ''viewer'' 9 inner_default))"
      "[TakeDirty]" 0 "''e''" "''u''" "''k''" "''''" "''''" "\<lambda>s. s" incident_config_default DEFAULT_ALERT_PCT]
  by (simp add: mints_def)

section \<open>Eviction\<close>

lemma mem_map_filter: "x \<in> set (List.map_filter f xs) \<longleftrightarrow> (\<exists>y\<in>set xs. f y = Some x)"
  by (induction xs) (auto simp: map_filter_simps split: option.splits)

lemma mem_fm_items: "e \<in> set (fm_items m) \<longleftrightarrow> fmlookup m (fst e) = Some (snd e)"
  by (cases e) (auto simp: fm_items_def fmlookup_dom_iff)

lemma alert_for_run: "alert_for i org pct (k, b) = Some a \<Longrightarrow> al_run a = k"
  by (auto simp: alert_for_def Let_def split: if_splits)

text \<open>The alert rule of eviction is the rule of the alert listing.\<close>
lemma alerting_listed:
  "is_alerting pct (budgets i org) (org_get fmempty (orgs i) org) run
     \<longleftrightarrow> run \<in> al_run ` set (store_alerts i org pct)"
proof -
  have spent: "(case get_nested (orgs i) org run of Some a \<Rightarrow> ra_spent a | None \<Rightarrow> 0)
      = (case fmlookup (org_get fmempty (orgs i) org) run of Some a \<Rightarrow> ra_spent a | None \<Rightarrow> 0)" for run
    by (simp add: get_nested_org)
  show ?thesis
  proof (cases "budgets i org")
    case None
    then show ?thesis by (simp add: is_alerting_def store_alerts_def)
  next
    case (Some bs)
    have "run \<in> al_run ` set (store_alerts i org pct) \<longleftrightarrow> (\<exists>k b a. fmlookup bs k = Some b \<and> alert_for i org pct (k, b) = Some a \<and> al_run a = run)"
      by (force simp: store_alerts_def Some mem_map_filter mem_fm_items)
    also have "\<dots> \<longleftrightarrow> (\<exists>b. fmlookup bs run = Some b \<and> alert_for i org pct (run, b) \<noteq> None)"
      using alert_for_run by fastforce
    also have "\<dots> \<longleftrightarrow> is_alerting pct (Some bs) (org_get fmempty (orgs i) org) run"
      by (cases "fmlookup bs run") (auto simp: alert_for_def is_alerting_def spent Let_def split: if_splits)
    finally show ?thesis by (simp add: Some)
  qed
qed

lemma record_runs:
  "fset (fmdom (v_runs (ingest_record pct bs w v r))) = insert (rec_run r) (fset (fmdom (v_runs (make_run_room pct bs (rec_run r) v))))"
  by (simp add: ingest_record_def Let_def split: prod.splits)

text \<open>Folding a record evicts a run only when the record's run is new and the organization already has
  50000 runs; then exactly one is evicted, the least recently touched one that is below its alert
  threshold, and only if every stored run is at or above it the least recently touched of all.  So
  a flood of fresh run ids cannot remove a run that the alert listing shows while one that it does
  not show is stored.\<close>
theorem eviction_spares_alerting:
  fixes sha cfg pct ops org r w
  defines "i \<equiv> cloud_run sha cfg pct ops inner_default"
  defines "K \<equiv> fset (fmdom (org_get fmempty (orgs i) org))"
    and "K' \<equiv> fset (fmdom (v_runs (ingest_record pct (budgets i org) w (org_view i org) r)))"
    and "listed \<equiv> \<lambda>run. run \<in> al_run ` set (store_alerts i org pct)"
  shows "if rec_run r \<in> K \<or> card K < 50000 then K' = insert (rec_run r) K
    else \<exists>x. x \<in> K \<and> K' = insert (rec_run r) (K - {x})
       \<and> victim listed (recency_order (org_get recency_default (run_recency i) org)) = Some x
       \<and> (if listed x then K \<subseteq> Collect listed else True)"
proof -
  let ?v = "org_view i org" and ?p = "is_alerting pct (budgets i org) (v_runs (org_view i org))"
  have runs: "v_runs ?v = org_get fmempty (orgs i) org" and rec: "v_recency ?v = org_get recency_default (run_recency i) org"
    by (simp_all add: org_view_def)
  have p: "?p = listed" unfolding listed_def runs by (intro ext alerting_listed)
  have "store_ok i" unfolding i_def by (rule run_store_ok)
  then have c: "capped MAX_RUNS_PER_ORG (v_recency ?v) (v_runs ?v)" by (simp add: store_ok_def view_ok_def)
  have len: "fm_len (v_runs ?v) = card K" by (simp add: fm_len_card K_def runs)
  have new: "fmlookup (v_runs ?v) (rec_run r) = None \<longleftrightarrow> rec_run r \<notin> K" by (simp add: K_def runs fmlookup_dom_iff)
  have K': "K' = insert (rec_run r) (fset (fmdom (v_runs (make_run_room pct (budgets i org) (rec_run r) ?v))))"
    unfolding K'_def by (rule record_runs)
  show ?thesis
  proof (cases "rec_run r \<in> K \<or> card K < 50000")
    case True
    then have "make_run_room pct (budgets i org) (rec_run r) ?v = ?v"
      using new len by (auto simp: make_run_room_def cloud_caps)
    then show ?thesis using True K' by (simp add: K_def runs)
  next
    case False
    then have full: "MAX_RUNS_PER_ORG \<le> fm_len (v_runs ?v)" and none: "fmlookup (v_runs ?v) (rec_run r) = None"
      using new len by (auto simp: cloud_caps)
    obtain k rec' where e: "evict_oldest_unprotected ?p (v_recency ?v) = (k, rec')" by fastforce
    have pos: "0 < MAX_RUNS_PER_ORG" by (simp add: cloud_caps)
    obtain x where x: "k = Some x" "fmlookup (v_runs ?v) x \<noteq> None" "victim ?p (recency_order (v_recency ?v)) = Some x"
      by (rule capped_evict [OF c pos full e])
    have xK: "x \<in> K" using x(2) by (simp add: K_def runs fmlookup_dom_iff)
    have room: "fset (fmdom (v_runs (make_run_room pct (budgets i org) (rec_run r) ?v))) = K - {x}"
      using none full e x(1) by (simp add: make_run_room_def K_def runs)
    have "set (recency_order (v_recency ?v)) = K" using ri.bounds_keys [OF c [unfolded capped_def]] by (simp add: K_def runs)
    then have "K \<subseteq> Collect listed" if "listed x" using victim_unprotected [OF x(3)] that p by auto
    then show ?thesis using False xK x(3) K' room unfolding p rec by auto
  qed
qed

section \<open>External findings\<close>

text \<open>A finding reported by another service is stamped with its source even when its detector and
  subject are those of an incident this plane measured itself: the measured incident is then
  presented as the other service's, with one more occurrence and its own kind, severity and
  run unchanged.\<close>
theorem finding_relabels_measured:
  assumes "get_nested (incidents i) org (incident_id (f_detector f) (f_subject f)) = Some x" "inc_id x = incident_id (f_detector f) (f_subject f)"
    "inc_source x = None"
  shows "\<exists>y. get_nested (incidents (snd (record_external_finding sha now org who f i))) org (inc_id x) = Some y
    \<and> inc_source y = Some (f_source f) \<and> inc_kind y = inc_kind x \<and> inc_severity y = inc_severity x \<and> inc_run y = inc_run x
    \<and> inc_occurrences y = wrap_u64 (inc_occurrences x + 1)"
proof -
  obtain inc j where u: "upsert_incident org (f_detector f) (f_severity f) (f_subject f) None (agent_subject (f_subject f)) (f_ts f) i = (inc, j)"
    by fastforce
  have inc: "inc = trip_incident (agent_subject (f_subject f)) (f_ts f) x" using upsert_get(2) [OF u] assms(1) by simp
  have g: "get_nested (incidents j) org (inc_id inc) = Some inc" using upsert_get(1) [OF u] assms(2) by (simp add: inc)
  have "get_nested (incidents (snd (record_external_finding sha now org who f i))) org (inc_id x) = Some (stamp_finding f inc)"
    using g assms(2) by (simp add: record_external_finding_def u Let_def append_audit_locked_def get_nested_put inc)
  moreover have "inc_source (stamp_finding f inc) = Some (f_source f) \<and> inc_kind (stamp_finding f inc) = inc_kind x
      \<and> inc_severity (stamp_finding f inc) = inc_severity x \<and> inc_run (stamp_finding f inc) = inc_run x
      \<and> inc_occurrences (stamp_finding f inc) = wrap_u64 (inc_occurrences x + 1)"
    by (simp add: inc stamp_finding_def trip_incident_def Let_def)
  ultimately show ?thesis by blast
qed

definition demo_finding :: FindingInput where
  "demo_finding = \<lparr> f_source = ''idryx'', f_detector = ''budget_exhausted'', f_severity = SevLow, f_subject = ''r'', f_summary = '''', f_ts = 7 \<rparr>"

theorem finding_relabels_measured_witness:
  "\<exists>y. get_nested (incidents (snd (record_external_finding sha 9 ''acme'' ''op'' demo_finding
      (snd (upsert_incident ''acme'' ''budget_exhausted'' SevHigh ''r'' (Some ''r'') None 5 inner_default))))) ''acme'' ''budget_exhausted:r'' = Some y
    \<and> inc_source y = Some ''idryx''"
proof -
  let ?x = "trip_incident None 5 (incident_new ''acme'' ''budget_exhausted'' SevHigh ''r'' (Some ''r'') None 5)"
  let ?i = "snd (upsert_incident ''acme'' ''budget_exhausted'' SevHigh ''r'' (Some ''r'') None 5 inner_default)"
  have i: "incident_id (f_detector demo_finding) (f_subject demo_finding) = ''budget_exhausted:r''"
    by (simp add: incident_id_def demo_finding_def)
  obtain inc j where u: "upsert_incident ''acme'' ''budget_exhausted'' SevHigh ''r'' (Some ''r'') None 5 inner_default = (inc, j)" by fastforce
  have "get_nested (incidents inner_default) ''acme'' (incident_id ''budget_exhausted'' ''r'') = None"
    by (simp add: inner_default_def get_nested_def)
  then have "get_nested (incidents ?i) ''acme'' ''budget_exhausted:r'' = Some ?x"
    using upsert_get(1,2) [OF u] by (simp add: u incident_id_def)
  then have "\<exists>y. get_nested (incidents (snd (record_external_finding sha 9 ''acme'' ''op'' demo_finding ?i))) ''acme'' (inc_id ?x) = Some y
    \<and> inc_source y = Some (f_source demo_finding) \<and> inc_kind y = inc_kind ?x \<and> inc_severity y = inc_severity ?x \<and> inc_run y = inc_run ?x
    \<and> inc_occurrences y = wrap_u64 (inc_occurrences ?x + 1)"
    by (intro finding_relabels_measured) (simp_all add: i, simp_all add: incident_new_def incident_id_def)
  moreover have "inc_id ?x = ''budget_exhausted:r''" "f_source demo_finding = ''idryx''"
    by (simp_all add: incident_new_def incident_id_def demo_finding_def)
  ultimately show ?thesis by auto
qed

end
