(* ===== verification/CloudSavings.thy ===== *)
theory CloudSavings
  imports CloudTotals CloudViews
begin

text \<open>
  The savings the control plane shows live (\<open>Store::savings\<close>) against the offline
  report over the same records (\<open>compute_savings\<close> of \<open>crates/core/src/savings.rs\<close>):
  two programs for one figure; and the burn-rate series (\<open>Store::series\<close>).
\<close>

text \<open>The trace row the gateway writes for a record it also pushes.\<close>
definition trace_call :: "CloudCallRecord \<Rightarrow> SavingsCall" where
  "trace_call r = \<lparr> sc_run = rec_run r, sc_decision = rec_decision r, sc_cost = rec_cost r, sc_saved = rec_saved r \<rparr>"

definition broken_runs :: "CloudCallRecord list \<Rightarrow> string set" where
  "broken_runs rs = rec_run ` {r \<in> set rs. is_budget_protection (rec_decision r)}"

lemma finite_broken [simp]: "finite (broken_runs rs)"
  by (simp add: broken_runs_def)

lemma broken_snoc: "broken_runs (rs @ [r]) = (if is_budget_protection (rec_decision r) then insert (rec_run r) (broken_runs rs) else broken_runs rs)"
  by (auto simp: broken_runs_def)

lemma update_saved_breaks_fields:
  "sv_breaks (update_saved r s) = sv_breaks s" "sv_budget_breaks (update_saved r s) = sv_budget_breaks s"
  by (simp_all add: update_saved_def Let_def)

text \<open>While at most 10000 runs were ever broken, the set and the counter are exact.\<close>
lemma breaks_exact:
  assumes "card (broken_runs (recs_of org ops)) \<le> 10000"
  shows "sv_budget_breaks (org_get savings_default (savings (cloud_run sha cfg pct ops inner_default)) org) = card (broken_runs (recs_of org ops))"
proof -
  define P where "P = (\<lambda>rs (v :: OrgView). fset (sv_breaks (v_sav v)) = broken_runs rs \<and> sv_budget_breaks (v_sav v) = card (broken_runs rs))"
  have "P (recs_of org ops) (org_view (cloud_run sha cfg pct ops inner_default) org)"
  proof (rule view_induct)
    show "P [] (org_view inner_default org)"
      by (simp add: P_def org_view_def inner_default_def org_get_def savings_default_def broken_runs_def)
  next
    fix pre v r bs w
    assume IH: "P pre v" and pre: "set pre \<subseteq> set (recs_of org ops)" and r: "r \<in> set (recs_of org ops)"
    have sav: "v_sav (ingest_record pct bs w v r) = update_saved r (fst (update_breaks r (v_sav v) (v_break_recency v)))"
      by (rule record_fields)
    show "P (pre @ [r]) (ingest_record pct bs w v r)"
    proof (cases "is_budget_protection (rec_decision r) \<and> rec_run r \<notin> broken_runs pre")
      case True
      have "insert (rec_run r) (broken_runs pre) \<subseteq> broken_runs (recs_of org ops)"
        using True pre r by (auto simp: broken_runs_def)
      then have "card (insert (rec_run r) (broken_runs pre)) \<le> 10000"
        using card_mono [of "broken_runs (recs_of org ops)" "insert (rec_run r) (broken_runs pre)"] assms by simp
      then have c: "card (broken_runs pre) < 10000" using True by simp
      then have "fcard (sv_breaks (v_sav v)) < MAX_BREAK_KEYS" using IH by (simp add: P_def fcard.rep_eq cloud_caps)
      then show ?thesis
        using True IH c
        by (simp add: P_def sav update_saved_breaks_fields update_breaks_def note_break_def add_blocked_def make_break_room_def broken_snoc
            sat_u64_def u64_max_def)
    next
      case False
      then show ?thesis
        using IH by (auto simp: P_def sav update_saved_breaks_fields update_breaks_def note_break_def add_blocked_def broken_snoc insert_absorb)
    qed
  qed
  then show ?thesis by (simp add: P_def org_view_def)
qed

lemma sum_avoided:
  assumes "\<forall>r\<in>set rs. 0 \<le> rec_cost r \<and> 0 \<le> rec_saved r"
  shows "sum_list (map avoided_cost rs) = sum_list (map sc_cost (protected_calls (map trace_call rs)))"
    "sum_list (map (saved_as d) rs) = sum_list (map sc_saved (calls_with d (map trace_call rs)))"
  using assms by (induction rs) (auto simp: avoided_cost_def saved_as_def protected_calls_def calls_with_def trace_call_def)

text \<open>The live savings of an organization are the offline report over the same records: when costs and
  savings are not negative, their sums fit an \<open>i64\<close> and at most 10000 distinct runs were ever stopped
  by budget protection, the blocked spend, the number of breaks prevented, the cache savings and the
  router savings that the control plane accumulated, record by record and interleaved with everything
  else it did, are those the savings projection computes from the trace.\<close>
theorem live_savings_agree:
  fixes sha cfg pct ops org
  defines "rs \<equiv> recs_of org ops"
  defines "live \<equiv> store_savings (cloud_run sha cfg pct ops inner_default) org" and "rep \<equiv> compute_savings (map trace_call rs)"
  assumes "\<forall>r\<in>set rs. 0 \<le> rec_cost r \<and> 0 \<le> rec_saved r"
    and "sum_list (map rec_cost rs) \<le> i64_max" "sum_list (map rec_saved rs) \<le> i64_max" "card (broken_runs rs) \<le> 10000"
  shows "ss_blocked live = rp_blocked_spend rep \<and> ss_budget_breaks live = rp_breaks_prevented rep
    \<and> ss_cache live = rp_cache_saved rep \<and> ss_router live = rp_router_saved rep"
proof -
  have acc: "savings_match rs (v_sav (org_view (cloud_run sha cfg pct ops inner_default) org))"
    using view_induct [where P = accounts_match, OF accounts_base accounts_step, of org ops sha cfg pct]
    by (simp add: accounts_match_def rs_def)
  note sums = savings_loop_sums [of "map trace_call rs"]
  have b: "0 \<le> sum_list (map avoided_cost rs)" "sum_list (map avoided_cost rs) \<le> i64_max"
    and s: "0 \<le> sum_list (map (saved_as d) rs)" "sum_list (map (saved_as d) rs) \<le> i64_max" for d
  proof -
    have le: "sum_list (map avoided_cost rs) \<le> sum_list (map rec_cost rs)" "sum_list (map (saved_as d) rs) \<le> sum_list (map rec_saved rs)"
      using assms(4) by (auto intro!: sum_list_mono simp: avoided_cost_def saved_as_def)
    then show "sum_list (map avoided_cost rs) \<le> i64_max" "sum_list (map (saved_as d) rs) \<le> i64_max" using assms(5,6) by simp_all
  qed (simp_all add: sum_list_nonneg_map)
  have w: "wrap_i64 x = x" if "0 \<le> x" "x \<le> i64_max" for x
    using that by (intro wrap_i64_within) (simp_all add: i64_max_def)
  have runs: "fset (lp_breaks (fold savings_step (map trace_call rs) savings_loop_init)) = broken_runs rs"
  proof -
    have "protected_calls (map trace_call rs) = map trace_call (filter (\<lambda>r. is_budget_protection (rec_decision r)) rs)"
      by (simp add: protected_calls_def filter_map comp_def trace_call_def)
    then show ?thesis using sums by (simp add: broken_runs_def image_image trace_call_def)
  qed
  have "ss_budget_breaks live = card (broken_runs rs)"
    using breaks_exact [of org ops sha cfg pct] assms(7) by (simp add: live_def store_savings_def rs_def Let_def)
  moreover have "ss_blocked live = sum_list (map avoided_cost rs)" "ss_cache live = sum_list (map (saved_as ''cache_hit'') rs)"
    "ss_router live = sum_list (map (saved_as ''allow'') rs)"
    using acc b s by (simp_all add: savings_match_def live_def store_savings_def Let_def org_view_def)
  ultimately show ?thesis
    using sums runs b s sum_avoided [OF assms(4)] by (simp add: rep_def compute_savings_def Let_def w fcard.rep_eq)
qed

definition demo_blocked :: CloudCallRecord where
  "demo_blocked = (demo_rec ''r'' ''budget_exceeded'' 7)"

theorem live_savings_agree_witness:
  "ss_blocked (store_savings (cloud_run (\<lambda>s. s) incident_config_default DEFAULT_ALERT_PCT [Ingest ''o'' [demo_blocked] 1] inner_default) ''o'') = 7"
proof -
  let ?ops = "[Ingest ''o'' [demo_blocked] 1]"
  have rs: "recs_of ''o'' ?ops = [demo_blocked]" by (simp add: recs_of_def)
  have d: "rec_decision demo_blocked = ''budget_exceeded''" "rec_cost demo_blocked = 7" "rec_saved demo_blocked = 0"
    by (simp_all add: demo_blocked_def demo_rec_def)
  have "card (broken_runs [demo_blocked]) \<le> card {rec_run demo_blocked}" by (intro card_mono) (auto simp: broken_runs_def)
  then have c: "card (broken_runs [demo_blocked]) \<le> 10000" by simp
  have r: "rp_blocked_spend (compute_savings (map trace_call [demo_blocked])) = 7"
    by (simp add: compute_savings_def savings_step_def add_saved_def add_block_def trace_call_def d is_budget_protection_def
        BUDGET_PROTECTION_REASONS_def savings_loop_init_def wrap_i64_def Let_def)
  show ?thesis
    using live_savings_agree [of "''o''" ?ops "\<lambda>s. s" incident_config_default DEFAULT_ALERT_PCT] c r
    by (simp add: rs d i64_max_def)
qed

section \<open>The burn-rate series\<close>

text \<open>
  The burn-rate series (\<open>Store::series\<close>): the loop that drops each sample into a
  bucket computes, for every bucket, the fold of the samples of its time interval.
\<close>

text \<open>Updating one cell per element is folding, per cell, the elements that belong to it.\<close>
lemma foldl_cells:
  assumes "\<forall>s\<in>set xs. ix s < length bs"
  shows "foldl (\<lambda>bs s. bs[ix s := f s (bs ! ix s)]) bs xs =
     map (\<lambda>k. foldl (\<lambda>b s. f s b) (bs ! k) (filter (\<lambda>s. ix s = k) xs)) [0..<length bs]"
  using assms
proof (induction xs arbitrary: bs)
  case Nil
  then show ?case by (simp add: map_nth)
next
  case (Cons x xs)
  have "foldl (\<lambda>bs s. bs[ix s := f s (bs ! ix s)]) (bs[ix x := f x (bs ! ix x)]) xs
      = map (\<lambda>k. foldl (\<lambda>b s. f s b) (bs[ix x := f x (bs ! ix x)] ! k) (filter (\<lambda>s. ix s = k) xs)) [0..<length bs]"
    using Cons.IH [of "bs[ix x := f x (bs ! ix x)]"] Cons.prems by simp
  also have "\<dots> = map (\<lambda>k. foldl (\<lambda>b s. f s b) (bs ! k) (filter (\<lambda>s. ix s = k) (x # xs))) [0..<length bs]"
    using Cons.prems by (intro map_cong) (auto simp: nth_list_update)
  finally show ?case by simp
qed

definition bucket_holds :: "i64 \<Rightarrow> i64 \<Rightarrow> nat \<Rightarrow> nat \<Rightarrow> Sample \<Rightarrow> bool" where
  "bucket_holds start step n k s \<longleftrightarrow> start + int k * step \<le> sm_ts s \<and> (k = n - 1 \<or> sm_ts s < start + (int k + 1) * step)"

lemma le_div_iff:
  fixes q d n :: int
  assumes "0 < n"
  shows "q \<le> d div n \<longleftrightarrow> q * n \<le> d"
proof
  assume "q \<le> d div n"
  then have "q * n \<le> d div n * n" using assms by (intro mult_right_mono) auto
  also have "\<dots> \<le> d" using div_mult_mod_eq [of d n] pos_mod_sign [OF assms, of d] by linarith
  finally show "q * n \<le> d" .
next
  assume "q * n \<le> d"
  then have "(q * n) div n \<le> d div n" using assms by (intro zdiv_mono1) auto
  then show "q \<le> d div n" using assms by simp
qed

lemma div_le_self: "\<lbrakk>0 \<le> d; 0 < n\<rbrakk> \<Longrightarrow> d div n \<le> (d :: int)"
  using zdiv_mono2 [of d 1 n] by simp

lemma as_usize_id: "\<lbrakk>0 \<le> x; x < 18446744073709551616\<rbrakk> \<Longrightarrow> as_usize x = nat x"
  by (simp add: as_usize_def)

lemma sample_index_holds:
  assumes "0 < step" "start \<le> sm_ts s" "sm_ts s - start \<le> 4611686018427387904" "0 < n" "k < n"
  shows "sample_index start step n s = k \<longleftrightarrow> bucket_holds start step n k s"
proof -
  let ?d = "sm_ts s - start"
  have w: "wrap_i64 ?d = ?d" by (rule wrap_i64_within) (use assms in auto)
  have q: "0 \<le> ?d div step" "?d div step \<le> ?d" using assms by (simp_all add: pos_imp_zdiv_nonneg_iff div_le_self)
  have u: "as_usize (tdiv (wrap_i64 ?d) step) = nat (?d div step)"
    using q assms by (simp add: w tdiv_nonneg as_usize_id)
  have a: "int k \<le> ?d div step \<longleftrightarrow> start + int k * step \<le> sm_ts s"
    using assms(1) by (simp add: le_div_iff algebra_simps)
  have b: "?d div step < int k + 1 \<longleftrightarrow> sm_ts s < start + (int k + 1) * step"
    using le_div_iff [OF assms(1), of "int k + 1" ?d] by (simp add: algebra_simps not_le [symmetric])
  have "sample_index start step n s = k \<longleftrightarrow> int k \<le> ?d div step \<and> (k = n - 1 \<or> ?d div step < int k + 1)"
  proof -
    obtain m where "?d div step = int m" using q(1) zero_le_imp_eq_int by blast
    then show ?thesis using assms(4,5) unfolding sample_index_def u by (auto simp: min_def)
  qed
  then show ?thesis using a b by (simp add: bucket_holds_def)
qed


text \<open>The burn-rate series partitions the samples: with clocks and spans below 2^62 ms, bucket k is
  the fold of exactly the samples of the requested run (or of all runs) whose time lies in
  [start + k*step, start + (k+1)*step), the last bucket taking everything up to now; samples
  outside [start, now] are in no bucket; and there are at most 10000 buckets however small the step.\<close>
theorem series_exact:
  assumes "step = max step_ms 1" "window = max window_ms step" "start = now - window"
    and "n = (if 1 \<le> window div step then min (nat (window div step)) 10000 else 1)"
    and "0 \<le> now" "now \<le> 4611686018427387904" "window \<le> 4611686018427387904"
  shows "store_series i org run window_ms step_ms now =
    map (\<lambda>k. foldl (\<lambda>b s. add_sample s b) (bucket_new (start + int k * step))
          (filter (\<lambda>s. bucket_holds start step n k s) (filter (in_scope run start now) (org_get [] (series_log i) org)))) [0..<n]"
proof -
  have st: "0 < step" "step \<le> window" using assms(1,2) by auto
  have wd: "0 \<le> window div step" "window div step \<le> window" using st by (simp_all add: pos_imp_zdiv_nonneg_iff div_le_self)
  have one: "1 \<le> window div step" using st le_div_iff [OF st(1), of 1 window] by simp
  have n: "bucket_count window step = n" "0 < n"
    using one wd assms(4,7) st by (simp_all add: bucket_count_def MAX_SERIES_BUCKETS_def tdiv_nonneg as_usize_id min_def)
  have ws: "wrap_i64 (now - window) = start" unfolding assms(3) by (rule wrap_i64_within) (use assms(5,6,7) st in linarith)+
  define bs where "bs = map (\<lambda>k. bucket_new (start + int k * step)) [0..<n]"
  have buckets: "map (\<lambda>k. bucket_new (wrap_i64 (start + wrap_i64 (int k * step)))) [0..<n] = bs"
    unfolding bs_def
  proof (intro map_cong refl)
    fix k assume "k \<in> set [0..<n]"
    then have "int k \<le> window div step" using n(1) one assms(4) by (auto simp: min_def split: if_splits)
    then have k: "int k * step \<le> window" using le_div_iff [OF st(1)] by blast
    have k0: "0 \<le> int k * step" using st(1) by simp
    have "wrap_i64 (int k * step) = int k * step" by (rule wrap_i64_within) (use k k0 assms(7) in linarith)+
    moreover have "wrap_i64 (start + int k * step) = start + int k * step"
      by (rule wrap_i64_within) (use k k0 assms(3,5,6,7) st in linarith)+
    ultimately show "bucket_new (wrap_i64 (start + wrap_i64 (int k * step))) = bucket_new (start + int k * step)" by simp
  qed
  define xs where "xs = filter (in_scope run start now) (org_get [] (series_log i) org)"
  have ix: "sample_index start step n s < length bs" for s using n(2) by (simp add: sample_index_def bs_def)
  have eq: "sample_index start step n s = k \<longleftrightarrow> bucket_holds start step n k s" if "s \<in> set xs" "k < n" for s k
  proof -
    have "start \<le> sm_ts s" "sm_ts s \<le> now" using that by (auto simp: xs_def in_scope_def)
    then show ?thesis using sample_index_holds [OF st(1) _ _ n(2) that(2)] assms(3,7) by simp
  qed
  have "store_series i org run window_ms step_ms now =
      foldl (\<lambda>bs s. bs[sample_index start step n s := add_sample s (bs ! sample_index start step n s)]) bs xs"
    unfolding store_series_def Let_def assms(1) [symmetric] assms(2) [symmetric] ws n(1) buckets
    by (simp add: xs_def org_get_def split: option.splits)
  also have "\<dots> = map (\<lambda>k. foldl (\<lambda>b s. add_sample s b) (bs ! k) (filter (\<lambda>s. sample_index start step n s = k) xs)) [0..<length bs]"
    using ix by (intro foldl_cells) auto
  also have "\<dots> = map (\<lambda>k. foldl (\<lambda>b s. add_sample s b) (bucket_new (start + int k * step)) (filter (\<lambda>s. bucket_holds start step n k s) xs)) [0..<n]"
  proof (intro map_cong)
    fix k assume "k \<in> set [0..<n]"
    then have k: "k < n" by simp
    have "filter (\<lambda>s. sample_index start step n s = k) xs = filter (\<lambda>s. bucket_holds start step n k s) xs"
      using eq k by (intro filter_cong) auto
    then show "foldl (\<lambda>b s. add_sample s b) (bs ! k) (filter (\<lambda>s. sample_index start step n s = k) xs) =
        foldl (\<lambda>b s. add_sample s b) (bucket_new (start + int k * step)) (filter (\<lambda>s. bucket_holds start step n k s) xs)"
      using k by (simp add: bs_def)
  qed (simp add: bs_def)
  finally show ?thesis by (simp add: xs_def)
qed

theorem series_exact_witness:
  "store_series (inner_default\<lparr>series_log := [''acme'' \<mapsto> [\<lparr> sm_ts = 130, sm_run = ''r'', sm_cost = 7, sm_blocked = False, sm_tool_calls = 0 \<rparr>]]\<rparr>)
     ''acme'' None 100 50 200 = [(bucket_new 100)\<lparr>sb_cost := 7, sb_calls := 1\<rparr>, bucket_new 150]"
  using series_exact [of 50 50 100 100 100 200 2
      "inner_default\<lparr>series_log := [''acme'' \<mapsto> [\<lparr> sm_ts = 130, sm_run = ''r'', sm_cost = 7, sm_blocked = False, sm_tool_calls = 0 \<rparr>]]\<rparr>" "''acme''" None]
  by (simp add: in_scope_def bucket_holds_def add_sample_def bucket_new_def upt_rec sat_i64_def i64_max_def i64_min_def sat_u64_def u64_max_def wrap_u64_def)

end
