(* ===== verification/Outcomes.thy ===== *)
theory Outcomes
  imports OrdMap Breaker "HOL-Library.Product_Lexorder"
begin

text \<open>
  Unit economics per outcome tag (\<open>crates/core/src/outcomes.rs\<close>): the last non-empty
  tag of a run, in step order, is the run's tag; every call is folded into its run's
  bucket.  The cost is a plain \<open>+=\<close>, which wraps in a release build.
\<close>

record OutcomeCall =
  ocl_run :: string
  ocl_decision :: string
  ocl_cost :: i64
  ocl_outcome :: string
  ocl_step :: u32

definition BLOCKED_DECISIONS :: "BreakerReason list" where
  "BLOCKED_DECISIONS = [BudgetExceeded, PolicyViolation, LoopDetected, Killed, WasmPolicy, TaintBlocked, DlpBlocked,
     UnitBudgetExceeded, IdentityMismatch]"

definition is_blocked_decision :: "string \<Rightarrow> bool" where
  "is_blocked_decision d \<longleftrightarrow> list_ex (\<lambda>r. as_wire_str r = d) BLOCKED_DECISIONS"

record OutcomeRow =
  or_outcome :: "string option"
  or_runs :: usize
  or_total_cost :: i64
  or_calls :: usize
  or_blocked_calls :: usize

definition mean_cost_microusd :: "OutcomeRow \<Rightarrow> i64" where
  "mean_cost_microusd r = (if or_runs r = 0 then 0 else tdiv (or_total_cost r) (wrap_i64 (int (or_runs r))))"

definition winner_step :: "OutcomeCall \<Rightarrow> (string \<rightharpoonup> string) \<Rightarrow> (string \<rightharpoonup> string)" where
  "winner_step c w = (if ocl_outcome c \<noteq> [] then w(ocl_run c \<mapsto> ocl_outcome c) else w)"

definition winners :: "OutcomeCall list \<Rightarrow> (string \<rightharpoonup> string)" where
  "winners cs = fold winner_step (sort_key (\<lambda>c. (ocl_run c, ocl_step c)) cs) Map.empty"

record OutcomeAcc =
  oa_runs :: "string fset"
  oa_cost :: i64
  oa_calls :: usize
  oa_blocked :: usize

definition outcome_acc_default :: OutcomeAcc where
  "outcome_acc_default = \<lparr> oa_runs = {||}, oa_cost = 0, oa_calls = 0, oa_blocked = 0 \<rparr>"

definition fold_call :: "OutcomeCall \<Rightarrow> OutcomeAcc \<Rightarrow> OutcomeAcc" where
  "fold_call c a =
     (let a = a\<lparr>oa_runs := finsert (ocl_run c) (oa_runs a), oa_calls := wrap_u64 (oa_calls a + 1)\<rparr>
      in if is_blocked_decision (ocl_decision c) then a\<lparr>oa_blocked := wrap_u64 (oa_blocked a + 1)\<rparr>
         else a\<lparr>oa_cost := wrap_i64 (oa_cost a + ocl_cost c)\<rparr>)"

definition bucket_call :: "(string \<rightharpoonup> string) \<Rightarrow> OutcomeCall \<Rightarrow> (string option, OutcomeAcc) fmap \<Rightarrow> (string option, OutcomeAcc) fmap" where
  "bucket_call w c m = (let tag = w (ocl_run c) in fmupd tag (fold_call c (fm_entry outcome_acc_default tag m)) m)"

definition outcome_row :: "string option \<times> OutcomeAcc \<Rightarrow> OutcomeRow" where
  "outcome_row e = (case e of (tag, a) \<Rightarrow>
     \<lparr> or_outcome = tag, or_runs = fcard (oa_runs a), or_total_cost = oa_cost a, or_calls = oa_calls a, or_blocked_calls = oa_blocked a \<rparr>)"

text \<open>The comparison of the final sort: by tag, the untagged row last.\<close>
definition row_key :: "OutcomeRow \<Rightarrow> bool \<times> string" where
  "row_key r = (or_outcome r = None, case or_outcome r of Some t \<Rightarrow> t | None \<Rightarrow> [])"

definition compute_outcomes :: "OutcomeCall list \<Rightarrow> OutcomeRow list" where
  "compute_outcomes cs =
     (let buckets = fold (bucket_call (winners cs)) cs fmempty
      in sort_key row_key (map outcome_row (fm_items buckets)))"

section \<open>The winning tag\<close>

text \<open>The run's tagged calls in step order.\<close>
definition tagged_calls :: "OutcomeCall list \<Rightarrow> string \<Rightarrow> OutcomeCall list" where
  "tagged_calls cs run = filter (\<lambda>c. ocl_outcome c \<noteq> []) (sort_key ocl_step (filter (\<lambda>c. ocl_run c = run) cs))"

definition run_tag :: "OutcomeCall list \<Rightarrow> string \<Rightarrow> string option" where
  "run_tag cs run = (if tagged_calls cs run = [] then None else Some (ocl_outcome (last (tagged_calls cs run))))"

lemma winner_fold:
  "fold winner_step xs w run =
     (let ys = filter (\<lambda>c. ocl_run c = run \<and> ocl_outcome c \<noteq> []) xs in if ys = [] then w run else Some (ocl_outcome (last ys)))"
  by (induction xs arbitrary: w) (auto simp: winner_step_def Let_def)

text \<open>Sorting by run and step orders each run's calls by step, equal steps in the original order.\<close>
lemma sorted_run_calls:
  "filter (\<lambda>c. ocl_run c = run) (sort_key (\<lambda>c. (ocl_run c, ocl_step c)) cs) = sort_key ocl_step (filter (\<lambda>c. ocl_run c = run) cs)"
proof -
  have k: "sort_key (\<lambda>c. (ocl_run c, ocl_step c)) (filter (\<lambda>c. ocl_run c = run) cs)
      = sort_key ocl_step (filter (\<lambda>c. ocl_run c = run) cs)"
  proof -
    have i: "insort_key (\<lambda>c. (ocl_run c, ocl_step c)) x xs = insort_key ocl_step x xs"
      if "ocl_run x = run" "\<forall>c\<in>set xs. ocl_run c = run" for x xs
      using that by (induction xs) auto
    have "\<forall>c\<in>set xs. ocl_run c = run \<Longrightarrow> sort_key (\<lambda>c. (ocl_run c, ocl_step c)) xs = sort_key ocl_step xs" for xs
    proof (induction xs)
      case (Cons x xs)
      then show ?case using i [of x "sort_key ocl_step xs"] by simp
    qed simp
    from this [of "filter (\<lambda>c. ocl_run c = run) cs"] show ?thesis by simp
  qed
  then show ?thesis by (simp add: filter_sort)
qed

lemma winners_run_tag: "winners cs run = run_tag cs run"
proof -
  let ?s = "sort_key (\<lambda>c. (ocl_run c, ocl_step c)) cs"
  have "filter (\<lambda>c. ocl_run c = run \<and> ocl_outcome c \<noteq> []) ?s = filter (\<lambda>c. ocl_outcome c \<noteq> []) (filter (\<lambda>c. ocl_run c = run) ?s)"
    by (simp add: conj_commute)
  also have "\<dots> = tagged_calls cs run" by (simp add: sorted_run_calls tagged_calls_def)
  finally show ?thesis by (simp add: winners_def winner_fold run_tag_def)
qed

section \<open>The buckets\<close>

definition bucket_calls :: "(string \<rightharpoonup> string) \<Rightarrow> string option \<Rightarrow> OutcomeCall list \<Rightarrow> OutcomeCall list" where
  "bucket_calls w tag cs = filter (\<lambda>c. w (ocl_run c) = tag) cs"

definition acc_of :: "OutcomeCall list \<Rightarrow> OutcomeAcc" where
  "acc_of cs = \<lparr> oa_runs = fset_of_list (map ocl_run cs),
     oa_cost = wrap_i64 (sum_list (map ocl_cost (filter (\<lambda>c. \<not> is_blocked_decision (ocl_decision c)) cs))),
     oa_calls = wrap_u64 (length cs), oa_blocked = wrap_u64 (length (filter (\<lambda>c. is_blocked_decision (ocl_decision c)) cs)) \<rparr>"

lemma wrap_count: "wrap_u64 (Suc (wrap_u64 n)) = wrap_u64 (Suc n)"
  by (simp add: wrap_u64_def mod_Suc_eq)

lemma acc_of_snoc: "fold_call c (acc_of cs) = acc_of (cs @ [c])"
  by (simp add: fold_call_def acc_of_def Let_def wrap_count wrap_i64_add_left fset_of_list_append)

lemma acc_of_Nil: "acc_of [] = outcome_acc_default"
  by (simp add: acc_of_def outcome_acc_default_def wrap_u64_def wrap_i64_def)

lemma bucket_call_lookup:
  "fmlookup (bucket_call w c m) tag =
     (if w (ocl_run c) = tag then Some (fold_call c (fm_entry outcome_acc_default tag m)) else fmlookup m tag)"
  by (simp add: bucket_call_def Let_def)

lemma buckets_lookup:
  "fmlookup (fold (bucket_call w) cs fmempty) tag = (if bucket_calls w tag cs = [] then None else Some (acc_of (bucket_calls w tag cs)))"
proof (induction cs rule: rev_induct)
  case Nil
  then show ?case by (simp add: bucket_calls_def)
next
  case (snoc c cs)
  have "fm_entry outcome_acc_default tag (fold (bucket_call w) cs fmempty) = acc_of (bucket_calls w tag cs)"
    using snoc.IH by (simp add: fm_entry_def acc_of_Nil)
  then show ?case using snoc.IH by (simp add: bucket_call_lookup bucket_calls_def acc_of_snoc)
qed

section \<open>The report\<close>

text \<open>The tags of the report in order, and the row of one tag, written directly.\<close>
definition report_tags :: "OutcomeCall list \<Rightarrow> string option list" where
  "report_tags cs =
     (let T = run_tag cs ` ocl_run ` set cs
      in map Some (sorted_list_of_set (Option.these T)) @ (if None \<in> T then [None] else []))"

definition tag_row :: "OutcomeCall list \<Rightarrow> string option \<Rightarrow> OutcomeRow" where
  "tag_row cs tag =
     (let mine = filter (\<lambda>c. run_tag cs (ocl_run c) = tag) cs;
          settled = filter (\<lambda>c. \<not> is_blocked_decision (ocl_decision c)) mine
      in \<lparr> or_outcome = tag, or_runs = card (ocl_run ` set mine), or_total_cost = wrap_i64 (sum_list (map ocl_cost settled)),
           or_calls = wrap_u64 (length mine), or_blocked_calls = wrap_u64 (length mine - length settled) \<rparr>)"

lemma outcome_row_acc: "outcome_row (tag, acc_of (bucket_calls (run_tag cs) tag cs)) = tag_row cs tag"
proof -
  let ?m = "filter (\<lambda>c. run_tag cs (ocl_run c) = tag) cs"
  have "length (filter (\<lambda>c. is_blocked_decision (ocl_decision c)) ?m) + length (filter (\<lambda>c. \<not> is_blocked_decision (ocl_decision c)) ?m) = length ?m"
    by (rule sum_length_filter_compl)
  then have l: "length (filter (\<lambda>c. is_blocked_decision (ocl_decision c)) ?m)
      = length ?m - length (filter (\<lambda>c. \<not> is_blocked_decision (ocl_decision c)) ?m)" by linarith
  have c: "fcard (fset_of_list (map ocl_run ?m)) = card (ocl_run ` set ?m)"
    by (simp only: fcard.rep_eq fset_of_list.rep_eq set_map)
  show ?thesis
    unfolding outcome_row_def tag_row_def acc_of_def bucket_calls_def Let_def prod.case OutcomeAcc.simps l c by (rule refl)
qed

lemma row_key_inj: "row_key a = row_key b \<Longrightarrow> or_outcome a = or_outcome b"
  by (auto simp: row_key_def split: option.splits)

lemma tag_row_key: "row_key (tag_row cs tag) = (tag = None, case tag of Some t \<Rightarrow> t | None \<Rightarrow> [])"
  by (simp add: row_key_def tag_row_def Let_def)

text \<open>Lists with the same rows in the same strict order are equal.\<close>
lemma sorted_rows_unique:
  assumes "sorted (map row_key xs)" "sorted (map row_key ys)" "distinct (map row_key xs)" "distinct (map row_key ys)"
    and "set xs = set ys" "inj_on row_key (set ys)"
  shows "xs = ys"
proof -
  have "map row_key xs = map row_key ys"
    using assms by (intro sorted_distinct_set_unique) simp_all
  then show ?thesis using assms(5,6) by (metis map_inj_on sup.idem)
qed

text \<open>The outcome report is exact: there is one row for every winning tag of a run that occurs in the
  trace and for no other, in increasing order of the tag with the untagged runs last; a run's winning
  tag is the last non-empty tag of its calls in step order (in trace order for equal steps); and a row
  counts the distinct runs with that tag, all their calls, the blocked ones among them, and the cost of
  the settled ones alone.\<close>
theorem outcomes_exact:
  "compute_outcomes cs = map (tag_row cs) (report_tags cs)"
proof -
  define T where "T = run_tag cs ` ocl_run ` set cs"
  define m where "m = fold (bucket_call (run_tag cs)) cs fmempty"
  have w: "winners cs = run_tag cs" by (rule ext) (rule winners_run_tag)
  have lk: "fmlookup m tag = (if tag \<in> T then Some (acc_of (bucket_calls (run_tag cs) tag cs)) else None)" for tag
  proof -
    have "tag \<in> T \<longleftrightarrow> bucket_calls (run_tag cs) tag cs \<noteq> []"
      by (auto simp: T_def bucket_calls_def filter_empty_conv)
    then show ?thesis by (simp add: m_def buckets_lookup)
  qed
  have dom: "fset (fmdom m) = T" by (auto simp: lk fmlookup_dom_iff split: if_splits)
  have items: "map outcome_row (fm_items m) = map (tag_row cs) (fm_keys m)"
    by (auto simp: fm_items_def lk dom outcome_row_acc)
  have fin: "finite T" by (simp add: T_def)
  have tags: "set (report_tags cs) = T" "distinct (report_tags cs)"
    using fin by (auto simp: report_tags_def T_def [symmetric] Let_def Option.these_def image_iff distinct_map inj_on_def split: option.splits)
  define kf :: "string option \<Rightarrow> bool \<times> string" where "kf = (\<lambda>tag. (tag = None, case tag of Some t \<Rightarrow> t | None \<Rightarrow> []))"
  have k: "map row_key (map (tag_row cs) ts) = map kf ts" for ts by (simp add: tag_row_key kf_def)
  have kinj: "inj_on kf A" for A by (auto simp: inj_on_def kf_def split: option.splits)
  have srt: "sorted (map kf (report_tags cs))"
    by (auto simp: report_tags_def Let_def kf_def sorted_append comp_def less_eq_prod_def sorted_map_same sorted_wrt_map)
  have "compute_outcomes cs = sort_key row_key (map (tag_row cs) (fm_keys m))"
    by (simp add: compute_outcomes_def w m_def [symmetric] items)
  also have "\<dots> = map (tag_row cs) (report_tags cs)"
  proof (rule sorted_rows_unique)
    show "sorted (map row_key (map (tag_row cs) (report_tags cs)))" using srt by (simp only: k)
    have "distinct (map row_key (map (tag_row cs) (fm_keys m)))" by (simp only: k distinct_map kinj distinct_fm_keys)
    then show "distinct (map row_key (sort_key row_key (map (tag_row cs) (fm_keys m))))"
      by (metis (no_types, lifting) distinct_map distinct_sort set_sort)
    show "distinct (map row_key (map (tag_row cs) (report_tags cs)))" by (simp only: k distinct_map kinj tags(2))
    show "inj_on row_key (set (map (tag_row cs) (report_tags cs)))"
      using kinj [of "set (report_tags cs)"] by (auto simp: inj_on_def tag_row_key kf_def split: option.splits)
  qed (simp_all add: dom tags)
  finally show ?thesis .
qed

end
