(* ===== verification/Backtest.thy ===== *)
theory Backtest
  imports OrdMap "HOL-Library.Multiset"
begin

text \<open>
  Replay of a candidate budget policy over a recorded trace
  (\<open>crates/core/src/backtest.rs\<close>).  Sums are plain \<open>+=\<close> on \<open>i64\<close> and counters, which
  wrap in a release build.
\<close>

record BacktestCall =
  bc_run :: string
  bc_step :: u32
  bc_cost :: i64

record BacktestPolicy =
  budget_per_run :: "i64 option"
  budget_per_step :: "i64 option"
  bp_max_steps :: "u32 option"

definition backtest_policy_is_empty :: "BacktestPolicy \<Rightarrow> bool" where
  "backtest_policy_is_empty p \<longleftrightarrow> budget_per_run p = None \<and> budget_per_step p = None \<and> bp_max_steps p = None"

record BacktestReport =
  bt_runs_total :: u64
  bt_runs_affected :: u64
  bt_calls_total :: u64
  bt_calls_blocked :: u64
  bt_spent :: i64
  bt_saved :: i64

definition projected_microusd :: "BacktestReport \<Rightarrow> i64" where
  "projected_microusd r = wrap_i64 (bt_spent r - bt_saved r)"

text \<open>The locals of the loop over one run.\<close>
record RunReplay =
  rr_running :: i64
  rr_steps :: u32
  rr_stopped :: bool
  rr_affected :: bool

definition run_replay_init :: RunReplay where
  "run_replay_init = \<lparr> rr_running = 0, rr_steps = 0, rr_stopped = False, rr_affected = False \<rparr>"

definition block_call :: "bool \<Rightarrow> BacktestCall \<Rightarrow> BacktestReport \<times> RunReplay \<Rightarrow> BacktestReport \<times> RunReplay" where
  "block_call stop c s = (case s of (r, l) \<Rightarrow>
     (r\<lparr>bt_calls_blocked := wrap_u64 (bt_calls_blocked r + 1), bt_saved := wrap_i64 (bt_saved r + bc_cost c)\<rparr>,
      l\<lparr>rr_stopped := stop, rr_affected := True\<rparr>))"

definition replay_call :: "BacktestPolicy \<Rightarrow> BacktestCall \<Rightarrow> BacktestReport \<times> RunReplay \<Rightarrow> BacktestReport \<times> RunReplay" where
  "replay_call p c s = (case s of (r, l) \<Rightarrow>
     if rr_stopped l then block_call True c s
     else if (case bp_max_steps p of Some mx \<Rightarrow> mx \<le> rr_steps l | None \<Rightarrow> False) then block_call True c s
     else if (case budget_per_run p of Some b \<Rightarrow> b < wrap_i64 (rr_running l + bc_cost c) | None \<Rightarrow> False) then block_call True c s
     else if (case budget_per_step p of Some x \<Rightarrow> x < bc_cost c | None \<Rightarrow> False) then block_call False c s
     else (r, l\<lparr>rr_running := wrap_i64 (rr_running l + bc_cost c), rr_steps := wrap_u32 (rr_steps l + 1)\<rparr>))"

definition replay_run :: "BacktestPolicy \<Rightarrow> BacktestCall list \<Rightarrow> BacktestReport \<Rightarrow> BacktestReport" where
  "replay_run p cs r =
     (case fold (replay_call p) (sort_key bc_step cs) (r, run_replay_init) of (r, l) \<Rightarrow>
        if rr_affected l then r\<lparr>bt_runs_affected := wrap_u64 (bt_runs_affected r + 1)\<rparr> else r)"

definition group_call :: "BacktestCall \<Rightarrow> (string, BacktestCall list) fmap \<Rightarrow> (string, BacktestCall list) fmap" where
  "group_call c m = fmupd (bc_run c) (fm_entry [] (bc_run c) m @ [c]) m"

definition backtest :: "BacktestCall list \<Rightarrow> BacktestPolicy \<Rightarrow> BacktestReport" where
  "backtest cs p =
     (let by_run = fold group_call cs fmempty;
          report = \<lparr> bt_runs_total = fm_len by_run, bt_runs_affected = 0, bt_calls_total = length cs, bt_calls_blocked = 0,
            bt_spent = wrap_i64 (sum_list (map bc_cost cs)), bt_saved = 0 \<rparr>
      in fold (replay_run p) (fm_values by_run) report)"

section \<open>What the replay keeps\<close>

text \<open>The calls of one run, in step order, that the candidate policy lets through.\<close>
fun kept :: "BacktestPolicy \<Rightarrow> int \<Rightarrow> nat \<Rightarrow> BacktestCall list \<Rightarrow> BacktestCall list" where
  "kept p x n [] = []"
| "kept p x n (c # cs) =
     (if (case bp_max_steps p of Some mx \<Rightarrow> mx \<le> n | None \<Rightarrow> False) then []
      else if (case budget_per_run p of Some b \<Rightarrow> b < x + bc_cost c | None \<Rightarrow> False) then []
      else if (case budget_per_step p of Some y \<Rightarrow> y < bc_cost c | None \<Rightarrow> False) then kept p x n cs
      else c # kept p (x + bc_cost c) (Suc n) cs)"

definition total_cost :: "BacktestCall list \<Rightarrow> int" where
  "total_cost cs = sum_list (map bc_cost cs)"

definition abs_cost :: "BacktestCall list \<Rightarrow> int" where
  "abs_cost cs = sum_list (map (\<lambda>c. \<bar>bc_cost c\<bar>) cs)"

definition within_limits :: "BacktestPolicy \<Rightarrow> int \<Rightarrow> nat \<Rightarrow> BacktestCall list \<Rightarrow> bool" where
  "within_limits p x n ks \<longleftrightarrow>
     (case bp_max_steps p of Some mx \<Rightarrow> ks = [] \<or> n + length ks \<le> mx | None \<Rightarrow> True)
   \<and> (case budget_per_run p of Some b \<Rightarrow> list_all (\<lambda>k. x + total_cost (take (Suc k) ks) \<le> b) [0..<length ks] | None \<Rightarrow> True)
   \<and> (case budget_per_step p of Some y \<Rightarrow> list_all (\<lambda>c. bc_cost c \<le> y) ks | None \<Rightarrow> True)"

lemma total_simps [simp]:
  "total_cost [] = 0" "total_cost (c # cs) = bc_cost c + total_cost cs" "total_cost (xs @ ys) = total_cost xs + total_cost ys"
  "abs_cost [] = 0" "abs_cost (c # cs) = \<bar>bc_cost c\<bar> + abs_cost cs" "abs_cost (xs @ ys) = abs_cost xs + abs_cost ys"
  by (simp_all add: total_cost_def abs_cost_def)

lemma abs_cost_nonneg [simp]: "0 \<le> abs_cost cs"
  by (induction cs) simp_all

lemma total_le_abs: "\<bar>total_cost cs\<bar> \<le> abs_cost cs"
  by (induction cs) auto

lemma kept_abs: "abs_cost (kept p x n cs) \<le> abs_cost cs"
  by (induction p x n cs rule: kept.induct) (auto intro: order_trans)

lemma kept_length: "length (kept p x n cs) \<le> length cs"
  by (induction p x n cs rule: kept.induct) auto

lemma limits_nil: "within_limits p x n []"
  by (simp add: within_limits_def split: option.split)

lemma limits_cons:
  assumes "within_limits p (x + bc_cost c) (Suc n) ks"
    and "\<not> (case bp_max_steps p of Some mx \<Rightarrow> mx \<le> n | None \<Rightarrow> False)"
    and "\<not> (case budget_per_run p of Some b \<Rightarrow> b < x + bc_cost c | None \<Rightarrow> False)"
    and "\<not> (case budget_per_step p of Some y \<Rightarrow> y < bc_cost c | None \<Rightarrow> False)"
  shows "within_limits p x n (c # ks)"
proof -
  have budget: "list_all (\<lambda>k. x + total_cost (take (Suc k) (c # ks)) \<le> b) [0..<length (c # ks)]"
    if "x + bc_cost c \<le> b" "list_all (\<lambda>k. x + bc_cost c + total_cost (take (Suc k) ks) \<le> b) [0..<length ks]" for b
  proof -
    have "x + total_cost (take (Suc k) (c # ks)) \<le> b" if "k < length (c # ks)" for k
      using \<open>x + bc_cost c \<le> b\<close> \<open>list_all _ _\<close> that by (cases k) (auto simp: list_all_iff add.assoc)
    then show ?thesis by (simp add: list_all_iff del: take_Suc_Cons upt_Suc)
  qed
  have "(case bp_max_steps p of Some mx \<Rightarrow> c # ks = [] \<or> n + length (c # ks) \<le> mx | None \<Rightarrow> True)"
    using assms(1,2) by (auto simp: within_limits_def split: option.splits)
  moreover have "(case budget_per_run p of Some b \<Rightarrow> list_all (\<lambda>k. x + total_cost (take (Suc k) (c # ks)) \<le> b) [0..<length (c # ks)] | None \<Rightarrow> True)"
    using assms(1,3) budget by (auto simp: within_limits_def simp del: upt_Suc take_Suc_Cons split: option.splits)
  moreover have "(case budget_per_step p of Some y \<Rightarrow> list_all (\<lambda>c. bc_cost c \<le> y) (c # ks) | None \<Rightarrow> True)"
    using assms(1,4) by (auto simp: within_limits_def split: option.splits)
  ultimately show ?thesis unfolding within_limits_def by (intro conjI)
qed

lemma kept_limits: "within_limits p x n (kept p x n cs)"
proof (induction p x n cs rule: kept.induct)
  case (1 p x n)
  then show ?case by (simp add: within_limits_def split: option.split)
next
  case (2 p x n c cs)
  let ?m = "case bp_max_steps p of Some mx \<Rightarrow> mx \<le> n | None \<Rightarrow> False"
  let ?b = "case budget_per_run p of Some b \<Rightarrow> b < x + bc_cost c | None \<Rightarrow> False"
  let ?s = "case budget_per_step p of Some y \<Rightarrow> y < bc_cost c | None \<Rightarrow> False"
  consider (stop) "?m \<or> ?b" | (skip) "\<not> ?m" "\<not> ?b" "?s" | (keep) "\<not> ?m" "\<not> ?b" "\<not> ?s" by blast
  then show ?case
  proof cases
    case stop
    then have "kept p x n (c # cs) = []" by auto
    then show ?thesis by (simp only: limits_nil)
  next
    case skip
    then show ?thesis using 2(1) [OF skip] by simp
  next
    case keep
    then have k: "kept p x n (c # cs) = c # kept p (x + bc_cost c) (Suc n) cs" by auto
    show ?thesis unfolding k by (rule limits_cons [OF 2(2) [OF keep] keep])
  qed
qed

definition report_is :: "BacktestReport \<Rightarrow> nat \<Rightarrow> int \<Rightarrow> nat \<Rightarrow> BacktestReport \<Rightarrow> bool" where
  "report_is r B S A r0 \<longleftrightarrow> bt_calls_blocked r = wrap_u64 B \<and> bt_saved r = wrap_i64 S \<and> bt_runs_affected r = wrap_u64 A
     \<and> bt_runs_total r = bt_runs_total r0 \<and> bt_calls_total r = bt_calls_total r0 \<and> bt_spent r = bt_spent r0"

lemma wrap_u64_Suc_left: "wrap_u64 (Suc (wrap_u64 n)) = wrap_u64 (Suc n)"
  by (simp add: wrap_u64_def mod_Suc_eq)

lemma block_report:
  assumes "report_is r B S A r0"
  shows "report_is (fst (block_call st c (r, l))) (Suc B) (S + bc_cost c) A r0"
  using assms by (simp add: report_is_def block_call_def wrap_u64_Suc_left)

lemma stopped_fold:
  assumes "report_is r B S A r0" "rr_stopped l"
  shows "\<exists>r' l'. fold (replay_call p) cs (r, l) = (r', l') \<and> report_is r' (B + length cs) (S + total_cost cs) A r0
    \<and> rr_affected l' = (rr_affected l \<or> cs \<noteq> [])"
  using assms
proof (induction cs arbitrary: r l B S)
  case (Cons c cs)
  obtain r1 l1 where b: "block_call True c (r, l) = (r1, l1)" by fastforce
  have "replay_call p c (r, l) = (r1, l1)" using Cons.prems(2) b by (simp add: replay_call_def)
  moreover have "report_is r1 (Suc B) (S + bc_cost c) A r0" "rr_stopped l1" "rr_affected l1"
    using block_report [OF Cons.prems(1), of True c l] b by (auto simp: block_call_def)
  ultimately show ?case using Cons.IH [of r1 "Suc B" "S + bc_cost c" l1] by (simp add: add.assoc)
qed simp

lemma replay_fold:
  fixes p cs
  assumes "report_is r B S A r0" "\<not> rr_stopped l" "\<bar>rr_running l\<bar> + abs_cost cs \<le> i64_max" "rr_steps l + length cs \<le> u32_max"
  defines "ks \<equiv> kept p (rr_running l) (rr_steps l) cs"
  shows "\<exists>r' l'. fold (replay_call p) cs (r, l) = (r', l')
    \<and> report_is r' (B + (length cs - length ks)) (S + (total_cost cs - total_cost ks)) A r0
    \<and> rr_affected l' = (rr_affected l \<or> length ks < length cs)"
  using assms(1-4) unfolding ks_def
proof (induction cs arbitrary: r l B S)
  case (Cons c cs)
  have w: "wrap_i64 (rr_running l + bc_cost c) = rr_running l + bc_cost c"
    using Cons.prems(3) abs_cost_nonneg [of cs] by (intro wrap_i64_id; simp add: in_i64_def i64_max_def i64_min_def; linarith)
  note rc = replay_call_def [of p c "(r, l)", unfolded w prod.case]
  obtain r1 l1 where b: "block_call True c (r, l) = (r1, l1)" by fastforce
  have r1: "report_is r1 (Suc B) (S + bc_cost c) A r0" "rr_stopped l1" "rr_affected l1"
    using block_report [OF Cons.prems(1), of True c l] b by (auto simp: block_call_def)
  obtain r2 l2 where b2: "block_call False c (r, l) = (r2, l2)" by fastforce
  have r2: "report_is r2 (Suc B) (S + bc_cost c) A r0" "\<not> rr_stopped l2" "rr_affected l2" "rr_running l2 = rr_running l" "rr_steps l2 = rr_steps l"
    using block_report [OF Cons.prems(1), of False c l] b2 by (auto simp: block_call_def)
  let ?m = "case bp_max_steps p of Some mx \<Rightarrow> mx \<le> rr_steps l | None \<Rightarrow> False"
  let ?b = "case budget_per_run p of Some b \<Rightarrow> b < rr_running l + bc_cost c | None \<Rightarrow> False"
  let ?s = "case budget_per_step p of Some y \<Rightarrow> y < bc_cost c | None \<Rightarrow> False"
  consider (stop) "?m \<or> ?b" | (skip) "\<not> ?m" "\<not> ?b" "?s" | (keep) "\<not> ?m" "\<not> ?b" "\<not> ?s" by blast
  then show ?case
  proof cases
    case stop
    then have "replay_call p c (r, l) = (r1, l1)" using b Cons.prems(2) by (auto simp: rc)
    then show ?thesis using stop stopped_fold [OF r1(1,2), of p cs] r1(3) by (auto simp: add.assoc)
  next
    case skip
    then have "replay_call p c (r, l) = (r2, l2)" using b2 Cons.prems(2) by (simp add: rc)
    moreover have "length (kept p (rr_running l) (rr_steps l) cs) \<le> length cs" by (rule kept_length)
    ultimately show ?thesis
      using skip Cons.IH [OF r2(1,2)] Cons.prems(3,4) r2(3-5) by (auto simp: Suc_diff_le add.assoc algebra_simps)
  next
    case keep
    define l3 where "l3 = l\<lparr>rr_running := rr_running l + bc_cost c, rr_steps := rr_steps l + 1\<rparr>"
    have "wrap_u32 (rr_steps l + 1) = rr_steps l + 1" using Cons.prems(4) by (simp add: wrap_u32_def u32_max_def)
    then have "replay_call p c (r, l) = (r, l3)" using keep Cons.prems(2) by (simp add: rc l3_def)
    moreover have "\<bar>rr_running l3\<bar> + abs_cost cs \<le> i64_max" "rr_steps l3 + length cs \<le> u32_max" "\<not> rr_stopped l3"
      using Cons.prems(2-4) by (auto simp: l3_def)
    ultimately show ?thesis using keep Cons.IH [OF Cons.prems(1), of l3] by (auto simp: l3_def)
  qed
qed simp

section \<open>All runs\<close>

lemma wrap_i64_diff: "wrap_i64 (wrap_i64 x - wrap_i64 y) = wrap_i64 (x - y)"
proof -
  have "wrap_i64 (z - wrap_i64 y) = wrap_i64 (z - y)" for z
  proof -
    have "(z - wrap_i64 y + 9223372036854775808) mod 18446744073709551616
        = (z + 18446744073709551616 - (y + 9223372036854775808) mod 18446744073709551616) mod 18446744073709551616"
      by (simp add: wrap_i64_def algebra_simps)
    also have "\<dots> = (z + 18446744073709551616 - (y + 9223372036854775808)) mod 18446744073709551616"
      by (rule mod_diff_right_eq)
    finally show ?thesis by (simp add: wrap_i64_def algebra_simps)
  qed
  then show ?thesis using wrap_i64_add_left [of x "- y"] by simp
qed

definition kept_run :: "BacktestPolicy \<Rightarrow> BacktestCall list \<Rightarrow> BacktestCall list" where
  "kept_run p cs = kept p 0 0 (sort_key bc_step cs)"

definition calls_of :: "BacktestCall list \<Rightarrow> string \<Rightarrow> BacktestCall list" where
  "calls_of cs run = filter (\<lambda>c. bc_run c = run) cs"

lemma sums_sort: "total_cost (sort_key bc_step cs) = total_cost cs" "abs_cost (sort_key bc_step cs) = abs_cost cs"
  unfolding total_cost_def abs_cost_def
  by (metis (no_types, lifting) mset_map mset_sort sum_mset_sum_list)+

lemma replay_run_report:
  assumes "report_is r B S A r0" "abs_cost cs \<le> i64_max" "length cs \<le> u32_max"
  shows "report_is (replay_run p cs r) (B + (length cs - length (kept_run p cs))) (S + (total_cost cs - total_cost (kept_run p cs)))
    (A + (if length (kept_run p cs) < length cs then 1 else 0)) r0"
proof -
  obtain r' l' where f: "fold (replay_call p) (sort_key bc_step cs) (r, run_replay_init) = (r', l')"
    and rep: "report_is r' (B + (length cs - length (kept_run p cs))) (S + (total_cost cs - total_cost (kept_run p cs))) A r0"
    and aff: "rr_affected l' = (length (kept_run p cs) < length cs)"
    using replay_fold [OF assms(1), of run_replay_init "sort_key bc_step cs" p] assms(2,3)
    by (auto simp: run_replay_init_def kept_run_def sums_sort)
  show ?thesis
  proof (cases "rr_affected l'")
    case True
    then show ?thesis using rep aff f by (simp add: replay_run_def report_is_def wrap_u64_Suc_left)
  next
    case False
    then show ?thesis using rep aff f by (simp add: replay_run_def)
  qed
qed

lemma runs_report:
  assumes "report_is r B S A r0" "\<forall>cs\<in>set L. abs_cost cs \<le> i64_max \<and> length cs \<le> u32_max"
  shows "report_is (fold (replay_run p) L r) (B + sum_list (map (\<lambda>cs. length cs - length (kept_run p cs)) L))
    (S + sum_list (map (\<lambda>cs. total_cost cs - total_cost (kept_run p cs)) L))
    (A + length (filter (\<lambda>cs. length (kept_run p cs) < length cs) L)) r0"
  using assms
proof (induction L arbitrary: r B S A)
  case (Cons cs L)
  have f: "length (filter Q (cs # L)) = (if Q cs then 1 else 0) + length (filter Q L)" for Q :: "BacktestCall list \<Rightarrow> bool" by simp
  have rep: "report_is (replay_run p cs r) (B + (length cs - length (kept_run p cs))) (S + (total_cost cs - total_cost (kept_run p cs)))
      (A + (if length (kept_run p cs) < length cs then 1 else 0)) r0"
    using Cons.prems by (intro replay_run_report) auto
  have "\<forall>cs\<in>set L. abs_cost cs \<le> i64_max \<and> length cs \<le> u32_max" using Cons.prems(2) by simp
  from Cons.IH [OF rep this] show ?case by (simp only: fold_simps list.map sum_list.Cons add.assoc f)
qed simp

lemma group_lookup:
  "fmlookup (fold group_call cs fmempty) run = (if calls_of cs run = [] then None else Some (calls_of cs run))"
proof (induction cs rule: rev_induct)
  case (snoc c cs)
  then show ?case by (auto simp: group_call_def calls_of_def fm_entry_def)
qed (simp add: calls_of_def)

lemma sum_groups:
  fixes f :: "BacktestCall \<Rightarrow> 'a::comm_monoid_add"
  assumes "finite R" "bc_run ` set cs \<subseteq> R"
  shows "(\<Sum>run\<in>R. sum_list (map f (calls_of cs run))) = sum_list (map f cs)"
  using assms(2)
proof (induction cs)
  case (Cons c cs)
  have "(\<Sum>run\<in>R. sum_list (map f (calls_of (c # cs) run)))
      = (\<Sum>run\<in>R. (if bc_run c = run then f c else 0) + sum_list (map f (calls_of cs run)))"
    by (intro sum.cong) (simp_all add: calls_of_def)
  also have "\<dots> = f c + sum_list (map f cs)"
    using Cons assms(1) by (simp add: sum.distrib sum.delta)
  finally show ?case by simp
qed (simp add: calls_of_def)

text \<open>A backtest accounts for every call: with costs whose absolute sum is within \<open>i64\<close>, the calls that
  are not counted as blocked are, run by run, exactly the ones the candidate policy lets through in step
  order, their cost is the projected spend, a run is affected when it loses a call, and the calls let
  through in a run never exceed the step limit, the per-step limit or, at any prefix, the run budget.\<close>
theorem backtest_exact:
  fixes p cs
  assumes "abs_cost cs \<le> i64_max" "length cs \<le> u32_max"
  defines "runs \<equiv> bc_run ` set cs" and "rep \<equiv> backtest cs p"
  shows "bt_runs_total rep = card runs \<and> bt_calls_total rep = length cs
    \<and> bt_runs_affected rep = card {run \<in> runs. length (kept_run p (calls_of cs run)) < length (calls_of cs run)}
    \<and> bt_calls_total rep = bt_calls_blocked rep + (\<Sum>run\<in>runs. length (kept_run p (calls_of cs run)))
    \<and> projected_microusd rep = (\<Sum>run\<in>runs. total_cost (kept_run p (calls_of cs run)))
    \<and> within_limits p 0 0 (kept_run p (calls_of cs run))"
proof -
  define m where "m = fold group_call cs fmempty"
  define K where "K = (\<lambda>run. kept_run p (calls_of cs run))"
  define r0 where "r0 = \<lparr> bt_runs_total = fm_len m, bt_runs_affected = 0, bt_calls_total = length cs, bt_calls_blocked = 0,
            bt_spent = wrap_i64 (sum_list (map bc_cost cs)), bt_saved = 0 \<rparr>"
  have fin: "finite runs" by (simp add: runs_def)
  have dom: "fset (fmdom m) = runs"
    by (auto simp: m_def group_lookup fmlookup_dom_iff runs_def calls_of_def filter_empty_conv split: if_splits)
  have vals: "fm_values m = map (calls_of cs) (fm_keys m)"
    using dom by (auto simp: fm_values_def m_def group_lookup runs_def calls_of_def filter_empty_conv)
  have sm: "sum_list (map f (fm_keys m)) = (\<Sum>run\<in>runs. f run)" for f :: "string \<Rightarrow> 'a::comm_monoid_add"
    using dom by (simp add: sum_list_distinct_conv_sum_set)
  have part: "abs_cost (calls_of cs run) \<le> abs_cost cs" "length (calls_of cs run) \<le> length cs" for run
  proof -
    show "abs_cost (calls_of cs run) \<le> abs_cost cs" by (induction cs) (auto simp: calls_of_def)
    show "length (calls_of cs run) \<le> length cs" by (simp add: calls_of_def)
  qed
  have kl: "length (K run) \<le> length (calls_of cs run)" for run
    using kept_length [of p 0 0 "sort_key bc_step (calls_of cs run)"] by (simp add: K_def kept_run_def)
  have ka: "\<bar>total_cost (K run)\<bar> \<le> abs_cost (calls_of cs run)" for run
    using total_le_abs [of "K run"] kept_abs [of p 0 0 "sort_key bc_step (calls_of cs run)"] by (simp add: K_def kept_run_def sums_sort)
  have lens: "(\<Sum>run\<in>runs. length (calls_of cs run)) = length cs" "(\<Sum>run\<in>runs. total_cost (calls_of cs run)) = total_cost cs"
    "(\<Sum>run\<in>runs. abs_cost (calls_of cs run)) = abs_cost cs"
    using sum_groups [OF fin, of cs "\<lambda>_. 1 :: nat"] sum_groups [OF fin, of cs bc_cost] sum_groups [OF fin, of cs "\<lambda>c. \<bar>bc_cost c\<bar>"]
    by (simp_all add: runs_def total_cost_def abs_cost_def sum_list_triv)
  define blocked where "blocked = (\<Sum>run\<in>runs. length (calls_of cs run) - length (K run))"
  define aff where "aff = {run \<in> runs. length (K run) < length (calls_of cs run)}"
  define kc where "kc = (\<Sum>run\<in>runs. total_cost (K run))"
  have "report_is r0 0 0 0 r0" by (simp add: r0_def report_is_def wrap_u64_def wrap_i64_def)
  then have rep: "report_is (fold (replay_run p) (fm_values m) r0)
      (0 + sum_list (map (\<lambda>cs. length cs - length (kept_run p cs)) (fm_values m)))
      (0 + sum_list (map (\<lambda>cs. total_cost cs - total_cost (kept_run p cs)) (fm_values m)))
      (0 + length (filter (\<lambda>cs. length (kept_run p cs) < length cs) (fm_values m))) r0"
    using assms(1,2) part by (intro runs_report) (auto simp: vals intro: order_trans)
  have a: "length (filter (\<lambda>cs. length (kept_run p cs) < length cs) (fm_values m)) = card aff"
  proof -
    have "length (filter (\<lambda>cs. length (kept_run p cs) < length cs) (fm_values m))
        = length (filter (\<lambda>run. length (K run) < length (calls_of cs run)) (fm_keys m))"
      by (simp add: vals filter_map comp_def K_def)
    also have "\<dots> = card aff" using dom by (simp add: distinct_length_filter aff_def Int_def conj_commute)
    finally show ?thesis .
  qed
  have rp: "rep = fold (replay_run p) (fm_values m) r0"
    by (simp add: rep_def backtest_def m_def [symmetric] r0_def Let_def)
  have facts: "report_is rep blocked (total_cost cs - kc) (card aff) r0"
    using rep unfolding rp [symmetric] a
    by (simp add: vals comp_def sm K_def blocked_def kc_def sum_subtractf lens)
  have bl: "blocked + (\<Sum>run\<in>runs. length (K run)) = length cs"
    using kl by (simp add: blocked_def lens(1) [symmetric] sum.distrib [symmetric])
  have small: "blocked \<le> u64_max" "card aff \<le> u64_max"
  proof -
    have "card aff \<le> card runs" by (intro card_mono) (auto simp: aff_def fin)
    also have "\<dots> \<le> length cs" unfolding runs_def by (metis card_image_le card_length finite_set le_trans)
    finally show "card aff \<le> u64_max" using assms(2) by (simp add: u32_max_def u64_max_def)
    show "blocked \<le> u64_max" using bl assms(2) by (simp add: u32_max_def u64_max_def)
  qed
  have "\<bar>kc\<bar> \<le> (\<Sum>run\<in>runs. \<bar>total_cost (K run)\<bar>)" unfolding kc_def by (rule sum_abs)
  also have "\<dots> \<le> abs_cost cs" unfolding lens(3) [symmetric] by (intro sum_mono ka)
  finally have "\<bar>kc\<bar> \<le> i64_max" using assms(1) by simp
  then have kc: "wrap_i64 kc = kc" by (intro wrap_i64_within; simp add: i64_max_def; linarith)
  have pr: "projected_microusd rep = kc"
    using facts kc by (simp add: report_is_def projected_microusd_def r0_def total_cost_def [symmetric] wrap_i64_diff)
  show ?thesis
    using facts pr bl small dom kept_limits
    by (simp add: report_is_def r0_def K_def kc_def aff_def wrap_u64_def u64_max_def fm_len_card kept_run_def)
qed

definition demo_trace :: "BacktestCall list" where
  "demo_trace = [\<lparr> bc_run = ''a'', bc_step = 2, bc_cost = 7 \<rparr>, \<lparr> bc_run = ''a'', bc_step = 1, bc_cost = 5 \<rparr>,
     \<lparr> bc_run = ''a'', bc_step = 3, bc_cost = 1 \<rparr>]"

definition demo_policy :: BacktestPolicy where
  "demo_policy = \<lparr> budget_per_run = Some 10, budget_per_step = None, bp_max_steps = None \<rparr>"

theorem backtest_exact_witness:
  "projected_microusd (backtest demo_trace demo_policy) = 5 \<and> bt_calls_blocked (backtest demo_trace demo_policy) = 2
   \<and> bt_runs_affected (backtest demo_trace demo_policy) = 1"
proof -
  have h: "abs_cost demo_trace \<le> i64_max" "length demo_trace \<le> u32_max"
    by (simp_all add: demo_trace_def abs_cost_def i64_max_def u32_max_def)
  have r: "bc_run ` set demo_trace = {''a''}" and c: "calls_of demo_trace ''a'' = demo_trace"
    by (simp_all add: demo_trace_def calls_of_def)
  have k: "kept_run demo_policy demo_trace = [\<lparr> bc_run = ''a'', bc_step = 1, bc_cost = 5 \<rparr>]"
    by (simp add: kept_run_def demo_trace_def demo_policy_def)
  have s: "{run \<in> {''a''}. length (kept_run demo_policy (calls_of demo_trace run)) < length (calls_of demo_trace run)} = {''a''}"
    by (auto simp: c k) (simp add: demo_trace_def)
  have l: "length demo_trace = 3" by (simp add: demo_trace_def)
  show ?thesis using backtest_exact [OF h, of demo_policy "''a''", unfolded r s] by (simp add: c k l)
qed

end
