(* ===== verification/StrScan.thy ===== *)
theory StrScan
  imports Utf8
begin

text \<open>
  The rest of the standard library's string scanning that several components use:
  searching for a pattern, splitting at white space, stripping sets of characters,
  and small unsigned numbers.
\<close>

section \<open>Searching\<close>

text \<open>\<open>str::find\<close> for a string pattern: what stands pre its first occurrence, and what follows it.\<close>
fun find_split :: "string \<Rightarrow> string \<Rightarrow> (string \<times> string) option" where
  "find_split p [] = (if p = [] then Some ([], []) else None)"
| "find_split p (c # cs) =
     (if starts_with (c # cs) p then Some ([], drop (length p) (c # cs))
      else map_option (\<lambda>(a, b). (c # a, b)) (find_split p cs))"

lemma find_split_Some: "find_split p s = Some (a, b) \<Longrightarrow> s = a @ p @ b"
  by (induction s arbitrary: a b) (auto simp: starts_with_iff split: if_splits)

lemma find_split_None: "find_split p s = None \<longleftrightarrow> \<not> str_contains s p"
  by (induction s) auto

lemma find_split_length: "find_split p s = Some (a, b) \<Longrightarrow> length b \<le> length s - length p \<and> length p \<le> length s"
  using find_split_Some by fastforce

text \<open>\<open>find\<close> for a set of one-byte characters: the text before the first of them.\<close>
definition until_any :: "char list \<Rightarrow> string \<Rightarrow> string" where
  "until_any cs s = takeWhile (\<lambda>c. c \<notin> set cs) s"

text \<open>\<open>trim_start_matches\<close> and \<open>trim_matches\<close> for a set of one-byte characters.\<close>
definition trim_start_any :: "char list \<Rightarrow> string \<Rightarrow> string" where
  "trim_start_any cs s = dropWhile (\<lambda>c. c \<in> set cs) s"

definition trim_any :: "char list \<Rightarrow> string \<Rightarrow> string" where
  "trim_any cs s = rev (trim_start_any cs (rev (trim_start_any cs s)))"

definition strip_suffix :: "string \<Rightarrow> string \<Rightarrow> string option" where
  "strip_suffix p s = (if ends_with s p then Some (take (length s - length p) s) else None)"

section \<open>White space\<close>

text \<open>\<open>split_whitespace\<close>: the maximal runs of characters that are not white space.\<close>
function split_ws_aux :: "string \<Rightarrow> string \<Rightarrow> string list" where
  "split_ws_aux cur s =
     (case s of [] \<Rightarrow> if cur = [] then [] else [rev cur]
      | c # cs \<Rightarrow>
          (case List.find (\<lambda>w. w \<noteq> [] \<and> starts_with s w) ws_encodings of
             Some w \<Rightarrow> (if cur = [] then [] else [rev cur]) @ split_ws_aux [] (drop (length w) s)
           | None \<Rightarrow> split_ws_aux (c # cur) cs))"
  by pat_completeness auto
termination
proof (relation "measure (\<lambda>(_, s). length s)")
  fix s c and cs w :: string
  assume "s = c # cs" "List.find (\<lambda>w. w \<noteq> [] \<and> starts_with s w) ws_encodings = Some w"
  then have "w \<noteq> []" "starts_with s w" by (auto simp: find_Some_iff)
  then show "(([], drop (length w) s), cur, s) \<in> measure (\<lambda>(_, s). length s)" for cur :: string
    by (auto simp: starts_with_iff)
qed auto

declare split_ws_aux.simps [simp del]

definition split_whitespace :: "string \<Rightarrow> string list" where
  "split_whitespace s = split_ws_aux [] s"

section \<open>Small numbers\<close>

text \<open>\<open>str::parse::<u8>\<close>.\<close>
definition parse_u8 :: "string \<Rightarrow> nat option" where
  "parse_u8 s =
     (let ds = (case s of c # r \<Rightarrow> if c = CHR ''+'' then r else s | [] \<Rightarrow> [])
      in if ds = [] \<or> \<not> list_all is_digit ds \<or> 255 < digits_val ds then None else Some (digits_val ds))"

end
