(* ===== verification/SecretBroker.thy ===== *)
theory SecretBroker
  imports Json StrScan "HOL-Library.AList"
begin

text \<open>
  Credential brokering for MCP tool calls (\<open>crates/core/src/secretbroker.rs\<close>): the
  vault, and the substitution of \<open>{{secret:NAME}}\<close> handles in every string of a
  JSON value.  The vault's hash map is a partial function with its size kept by its
  pairs, the last insert of a name first.
\<close>

record SecretVault =
  secrets :: "(string \<times> string) list"

definition vault_new :: SecretVault where
  "vault_new = \<lparr> secrets = [] \<rparr>"

definition vault_insert :: "string \<Rightarrow> string \<Rightarrow> SecretVault \<Rightarrow> SecretVault" where
  "vault_insert name value v = v\<lparr>secrets := AList.update name value (secrets v)\<rparr>"

definition vault_pair :: "string \<Rightarrow> SecretVault \<Rightarrow> SecretVault" where
  "vault_pair pair v = (case split_once (CHR ''='') pair of Some (name, value) \<Rightarrow> vault_insert (trim name) (trim value) v | None \<Rightarrow> v)"

definition vault_from_pairs :: "string \<Rightarrow> SecretVault" where
  "vault_from_pairs spec = fold vault_pair (filter (\<lambda>s. trim s \<noteq> []) (split_char (CHR '','') spec)) vault_new"

definition vault_get :: "SecretVault \<Rightarrow> string \<Rightarrow> string option" where
  "vault_get v name = map_of (secrets v) name"

definition vault_is_empty :: "SecretVault \<Rightarrow> bool" where
  "vault_is_empty v \<longleftrightarrow> secrets v = []"

definition vault_len :: "SecretVault \<Rightarrow> usize" where
  "vault_len v = length (secrets v)"

record Injection =
  replaced :: usize
  missing :: "string list"

definition injection_default :: Injection where
  "injection_default = \<lparr> replaced = 0, missing = [] \<rparr>"

definition OPEN :: string where "OPEN = ''{{secret:''"
definition CLOSE :: string where "CLOSE = ''}}''"

text \<open>What one named handle becomes, and the tally after it.\<close>
definition handle_out :: "SecretVault \<Rightarrow> string \<Rightarrow> string" where
  "handle_out vault name = (case vault_get vault name of Some secret \<Rightarrow> secret | None \<Rightarrow> OPEN @ name @ CLOSE)"

definition handle_tally :: "SecretVault \<Rightarrow> string \<Rightarrow> Injection \<Rightarrow> Injection" where
  "handle_tally vault name acc = (case vault_get vault name of
       Some _ \<Rightarrow> acc\<lparr>replaced := wrap_u64 (replaced acc + 1)\<rparr>
     | None \<Rightarrow> acc\<lparr>missing := missing acc @ [name]\<rparr>)"

function replace_loop :: "SecretVault \<Rightarrow> string \<Rightarrow> string \<Rightarrow> Injection \<Rightarrow> string \<times> Injection" where
  "replace_loop vault out rest acc =
     (case find_split OPEN rest of
        None \<Rightarrow> (out @ rest, acc)
      | Some (pre, after) \<Rightarrow>
          (case find_split CLOSE after of
             Some (name, rest') \<Rightarrow>
               replace_loop vault (out @ pre @ handle_out vault name) rest' (handle_tally vault name acc)
           | None \<Rightarrow> (out @ pre @ OPEN @ after, acc)))"
  by pat_completeness auto
termination
proof (relation "measure (\<lambda>(_, _, rest, _). length rest)", simp, clarsimp)
  fix rest pre after name rest'
  assume "find_split OPEN rest = Some (pre, after)" "find_split CLOSE after = Some (name, rest')"
  then show "length rest' < length rest"
    using find_split_length [of OPEN rest pre after] find_split_length [of CLOSE after name rest']
    by (auto simp: OPEN_def CLOSE_def)
qed

declare replace_loop.simps [simp del]

definition replace_handles :: "SecretVault \<Rightarrow> string \<Rightarrow> Injection \<Rightarrow> string \<times> Injection" where
  "replace_handles vault s acc = replace_loop vault [] s acc"

fun walk :: "SecretVault \<Rightarrow> json \<Rightarrow> Injection \<Rightarrow> json \<times> Injection"
  and walk_list :: "SecretVault \<Rightarrow> json list \<Rightarrow> Injection \<Rightarrow> json list \<times> Injection"
  and walk_members :: "SecretVault \<Rightarrow> (string \<times> json) list \<Rightarrow> Injection \<Rightarrow> (string \<times> json) list \<times> Injection" where
  "walk vault (JString s) acc =
     (if str_contains s OPEN then (case replace_handles vault s acc of (s', acc) \<Rightarrow> (JString s', acc)) else (JString s, acc))"
| "walk vault (JArray items) acc = (case walk_list vault items acc of (items, acc) \<Rightarrow> (JArray items, acc))"
| "walk vault (JObject kvs) acc = (case walk_members vault kvs acc of (kvs, acc) \<Rightarrow> (JObject kvs, acc))"
| "walk vault JNull acc = (JNull, acc)"
| "walk vault (JBool b) acc = (JBool b, acc)"
| "walk vault (JNumber n) acc = (JNumber n, acc)"
| "walk_list vault [] acc = ([], acc)"
| "walk_list vault (x # xs) acc =
     (case walk vault x acc of (x', acc) \<Rightarrow> case walk_list vault xs acc of (xs', acc) \<Rightarrow> (x' # xs', acc))"
| "walk_members vault [] acc = ([], acc)"
| "walk_members vault ((k, x) # xs) acc =
     (case walk vault x acc of (x', acc) \<Rightarrow> case walk_members vault xs acc of (xs', acc) \<Rightarrow> ((k, x') # xs', acc))"

definition inject_secrets :: "SecretVault \<Rightarrow> json \<Rightarrow> json \<times> Injection" where
  "inject_secrets vault v = walk vault v injection_default"

section \<open>Handles as tokens\<close>

datatype segment = Plain string | Handle string | Unterminated string

function segments :: "string \<Rightarrow> segment list" where
  "segments rest =
     (case find_split OPEN rest of
        None \<Rightarrow> [Plain rest]
      | Some (pre, after) \<Rightarrow>
          (case find_split CLOSE after of
             Some (name, rest') \<Rightarrow> Plain pre # Handle name # segments rest'
           | None \<Rightarrow> [Plain pre, Unterminated after]))"
  by pat_completeness auto
termination
proof (relation "measure length", simp, clarsimp)
  fix rest pre after name rest'
  assume "find_split OPEN rest = Some (pre, after)" "find_split CLOSE after = Some (name, rest')"
  then show "length rest' < length rest"
    using find_split_length [of OPEN rest pre after] find_split_length [of CLOSE after name rest']
    by (auto simp: OPEN_def CLOSE_def)
qed

declare segments.simps [simp del]

fun segment_text :: "(string \<Rightarrow> string) \<Rightarrow> segment \<Rightarrow> string" where
  "segment_text f (Plain s) = s"
| "segment_text f (Handle n) = f n"
| "segment_text f (Unterminated s) = OPEN @ s"

definition handle_names :: "string \<Rightarrow> string list" where
  "handle_names s = concat (map (\<lambda>x. case x of Handle n \<Rightarrow> [n] | _ \<Rightarrow> []) (segments s))"

definition subst_string :: "SecretVault \<Rightarrow> string \<Rightarrow> string" where
  "subst_string vault s = concat (map (segment_text (handle_out vault)) (segments s))"

fun subst_json :: "SecretVault \<Rightarrow> json \<Rightarrow> json" where
  "subst_json vault (JString s) = JString (subst_string vault s)"
| "subst_json vault (JArray xs) = JArray (map (subst_json vault) xs)"
| "subst_json vault (JObject kvs) = JObject (map (\<lambda>(k, x). (k, subst_json vault x)) kvs)"
| "subst_json vault JNull = JNull"
| "subst_json vault (JBool b) = JBool b"
| "subst_json vault (JNumber n) = JNumber n"

fun json_handles :: "json \<Rightarrow> string list" where
  "json_handles (JString s) = handle_names s"
| "json_handles (JArray xs) = concat (map json_handles xs)"
| "json_handles (JObject kvs) = concat (map (\<lambda>(k, x). json_handles x) kvs)"
| "json_handles JNull = []"
| "json_handles (JBool b) = []"
| "json_handles (JNumber n) = []"

lemma segments_render: "concat (map (segment_text (\<lambda>n. OPEN @ n @ CLOSE)) (segments s)) = s"
proof (induction s rule: segments.induct)
  case (1 rest)
  then show ?case
    by (subst segments.simps) (auto dest!: find_split_Some split: option.split)
qed

lemma segments_plain: "\<not> str_contains s OPEN \<Longrightarrow> segments s = [Plain s]"
  using find_split_None [of OPEN s] by (subst segments.simps) simp

lemma replace_loop_segments:
  "replace_loop vault out rest acc = (out @ subst_string vault rest, fold (handle_tally vault) (handle_names rest) acc)"
proof (induction vault out rest acc rule: replace_loop.induct)
  case (1 vault out rest acc)
  note seg = segments.simps [of rest] and rl = replace_loop.simps [of vault out rest acc]
  consider (none) "find_split OPEN rest = None"
    | (tail) pre after where "find_split OPEN rest = Some (pre, after)" "find_split CLOSE after = None"
    | (handle) pre after name rest' where "find_split OPEN rest = Some (pre, after)" "find_split CLOSE after = Some (name, rest')"
    by (metis not_None_eq surj_pair)
  then show ?case
  proof cases
    case none
    then show ?thesis by (simp add: seg rl subst_string_def handle_names_def)
  next
    case tail
    then show ?thesis by (simp add: seg rl subst_string_def handle_names_def)
  next
    case handle
    then show ?thesis
      using 1 [OF handle(1) refl handle(2) refl] by (simp add: seg rl subst_string_def handle_names_def)
  qed
qed

lemma inj_tally_fold:
  "fold (handle_tally vault) ns acc =
     acc\<lparr>replaced := (if filter (\<lambda>n. vault_get vault n \<noteq> None) ns = [] then replaced acc
            else wrap_u64 (replaced acc + length (filter (\<lambda>n. vault_get vault n \<noteq> None) ns))),
         missing := missing acc @ filter (\<lambda>n. vault_get vault n = None) ns\<rparr>"
proof (induction ns arbitrary: acc)
  case (Cons n ns)
  have "wrap_u64 (wrap_u64 (replaced acc + 1) + k) = wrap_u64 (replaced acc + Suc k)" for k
    by (simp add: wrap_u64_def mod_simps)
  then show ?case using Cons [of "handle_tally vault n acc"]
    by (auto simp: handle_tally_def split: option.split)
qed simp

lemma walk_exact:
  "walk vault v acc = (subst_json vault v, fold (handle_tally vault) (json_handles v) acc)"
  "walk_list vault xs acc = (map (subst_json vault) xs, fold (handle_tally vault) (concat (map json_handles xs)) acc)"
  "walk_members vault kvs acc = (map (\<lambda>(k, x). (k, subst_json vault x)) kvs,
     fold (handle_tally vault) (concat (map (\<lambda>(k, x). json_handles x) kvs)) acc)"
proof (induction vault v acc and vault xs acc and vault kvs acc rule: walk_walk_list_walk_members.induct)
  case (1 vault s acc)
  show ?case
  proof (cases "str_contains s OPEN")
    case True
    then show ?thesis by (simp add: replace_handles_def replace_loop_segments)
  next
    case False
    then show ?thesis by (simp add: subst_string_def handle_names_def segments_plain)
  qed
qed simp_all

text \<open>Injection replaces handles and nothing else: in every string of the value, and in no object key,
  each handle of a known secret becomes the secret, an unknown one stays as written and is reported in
  order, an unterminated one and all other text stay as they are; the count is the number of handles
  replaced; and with an empty vault the value comes back unchanged.\<close>
theorem injection_exact:
  "inject_secrets vault v = (subst_json vault v,
     \<lparr> replaced = wrap_u64 (length (filter (\<lambda>n. vault_get vault n \<noteq> None) (json_handles v))),
       missing = filter (\<lambda>n. vault_get vault n = None) (json_handles v) \<rparr>)
   \<and> fst (inject_secrets vault_new v) = v"
proof -
  have s: "subst_string vault_new s = s" for s
  proof -
    have "handle_out vault_new = (\<lambda>n. OPEN @ n @ CLOSE)" by (rule ext) (simp add: handle_out_def vault_get_def vault_new_def)
    then show ?thesis by (simp add: subst_string_def segments_render)
  qed
  have "subst_json vault_new v = v"
  proof (induction v)
    case (JObject kvs)
    then show ?case by (auto intro!: map_idI)
  qed (auto simp: s intro: map_idI)
  then show ?thesis
    by (simp add: inject_secrets_def walk_exact inj_tally_fold injection_default_def wrap_u64_def)
qed

end
