(* ===== verification/Mcp.thy ===== *)
theory Mcp
  imports StrScan OrdMap AgentEvent
begin

text \<open>
  The MCP tool scanner: tools, injection markers, the lock and its drift
  (\<open>crates/core/src/mcp.rs\<close>), the report with its exit code and SARIF rendering
  (\<open>mcpreport.rs\<close>), and the exposure checks (\<open>mcpexposure.rs\<close>).  The 64-bit tool hash,
  the JSON printer and Unicode lower-casing are parameters.
\<close>

definition severity_rank :: "Severity \<Rightarrow> nat" where
  "severity_rank s = (case s of SevInfo \<Rightarrow> 0 | SevLow \<Rightarrow> 1 | SevMedium \<Rightarrow> 2 | SevHigh \<Rightarrow> 3 | SevCritical \<Rightarrow> 4)"

instantiation Severity :: linorder
begin

definition less_eq_Severity :: "Severity \<Rightarrow> Severity \<Rightarrow> bool" where
  "a \<le> b \<longleftrightarrow> severity_rank a \<le> severity_rank b"

definition less_Severity :: "Severity \<Rightarrow> Severity \<Rightarrow> bool" where
  "a < b \<longleftrightarrow> severity_rank a < severity_rank b"

instance
proof
  fix a b :: Severity
  show "a \<le> b \<Longrightarrow> b \<le> a \<Longrightarrow> a = b"
    by (cases a; cases b) (simp_all add: less_eq_Severity_def severity_rank_def)
qed (auto simp: less_eq_Severity_def less_Severity_def)

end

lemma severity_top: "a \<le> SevCritical"
  by (cases a) (simp_all add: less_eq_Severity_def severity_rank_def)

section \<open>Tools\<close>

record McpTool =
  tool_name :: string
  tool_description :: string
  fingerprint :: u64

text \<open>One entry of the tool list; entries without a name are dropped.\<close>
definition parse_tool :: "(string \<Rightarrow> string \<Rightarrow> string \<Rightarrow> u64) \<Rightarrow> (json \<Rightarrow> string) \<Rightarrow> json \<Rightarrow> McpTool option" where
  "parse_tool hash print t =
     (case get_str ''name'' t of None \<Rightarrow> None
      | Some name \<Rightarrow>
          let descr = (case get_str ''description'' t of Some d \<Rightarrow> d | None \<Rightarrow> '''');
              schema = (case json_get ''inputSchema'' t of Some x \<Rightarrow> print x | None \<Rightarrow> '''')
          in Some \<lparr> tool_name = name, tool_description = descr, fingerprint = hash name descr schema \<rparr>)"

definition parse_tools :: "(string \<Rightarrow> string \<Rightarrow> string \<Rightarrow> u64) \<Rightarrow> (json \<Rightarrow> string) \<Rightarrow> json \<Rightarrow> McpTool list" where
  "parse_tools hash print v =
     (let found = (case json_get ''tools'' v of Some t \<Rightarrow> Some t | None \<Rightarrow> Option.bind (json_get ''result'' v) (json_get ''tools''))
      in case Option.bind found as_array of None \<Rightarrow> [] | Some arr \<Rightarrow> List.map_filter (parse_tool hash print) arr)"

record ScanFinding =
  sf_tool :: string
  sf_issue :: string

definition INJECTION_MARKERS :: "string list" where
  "INJECTION_MARKERS = [''ignore previous'', ''ignore all previous'', ''disregard previous'', ''disregard all'',
     ''ignore your instructions'', ''system prompt'', ''do not tell'', ''do not mention'', ''without telling'', ''exfiltrat'',
     ''send it to'', ''<important>'', ''<instructions>'', ''you must call'', ''always call'', ''api_key'', ''secret'']"

text \<open>U+200B, U+200C, U+200D and U+FEFF in UTF-8.\<close>
definition zero_width :: "string list" where
  "zero_width = [[CHR 0xE2, CHR 0x80, CHR 0x8B], [CHR 0xE2, CHR 0x80, CHR 0x8C], [CHR 0xE2, CHR 0x80, CHR 0x8D], [CHR 0xEF, CHR 0xBB, CHR 0xBF]]"

definition scan_tool :: "(string \<Rightarrow> string) \<Rightarrow> McpTool \<Rightarrow> ScanFinding list" where
  "scan_tool lower t =
     (let low = lower (tool_description t) in
      map (\<lambda>m. \<lparr> sf_tool = tool_name t, sf_issue = ''suspicious phrase in description: '' @ [CHR 0x22] @ m @ [CHR 0x22] \<rparr>)
        (filter (str_contains low) INJECTION_MARKERS)
      @ (if list_ex (str_contains (tool_description t)) zero_width
         then [\<lparr> sf_tool = tool_name t, sf_issue = ''hidden zero-width characters in description'' \<rparr>] else [])
      @ (if 2000 < chars_count (tool_description t)
         then [\<lparr> sf_tool = tool_name t, sf_issue = ''unusually long description (possible hidden payload)'' \<rparr>] else []))"

definition scan_injection :: "(string \<Rightarrow> string) \<Rightarrow> McpTool list \<Rightarrow> ScanFinding list" where
  "scan_injection lower tools = concat (map (scan_tool lower) tools)"

section \<open>The lock\<close>

record Lock =
  lock_tools :: "(string, u64) fmap"

definition lock_from_tools :: "McpTool list \<Rightarrow> Lock" where
  "lock_from_tools tools = \<lparr> lock_tools = fold (\<lambda>t m. fmupd (tool_name t) (fingerprint t) m) tools fmempty \<rparr>"

datatype Drift = Added string | Removed string | Changed string

definition tool_drift :: "Lock \<Rightarrow> McpTool \<Rightarrow> Drift list" where
  "tool_drift lock t =
     (case fmlookup (lock_tools lock) (tool_name t) of
        None \<Rightarrow> [Added (tool_name t)]
      | Some fp \<Rightarrow> if fp \<noteq> fingerprint t then [Changed (tool_name t)] else [])"

definition diff :: "McpTool list \<Rightarrow> Lock \<Rightarrow> Drift list" where
  "diff current lock =
     concat (map (tool_drift lock) current)
     @ map Removed (filter (\<lambda>n. n \<notin> set (map tool_name current)) (fm_keys (lock_tools lock)))"

section \<open>The report\<close>

text \<open>\<open>Severity::from_str\<close>; the lower-casing is a parameter.\<close>
definition severity_from_str :: "(string \<Rightarrow> string) \<Rightarrow> string \<Rightarrow> (string, Severity) result" where
  "severity_from_str lower s =
     (let l = lower s in
      if l = ''info'' then Inr SevInfo else if l = ''low'' then Inr SevLow else if l = ''medium'' then Inr SevMedium
      else if l = ''high'' then Inr SevHigh else if l = ''critical'' then Inr SevCritical
      else Inl (''invalid severity '' @ [CHR 0x27] @ l @ [CHR 0x27] @ '' (expected info|low|medium|high|critical)''))"

record Finding =
  fd_kind :: string
  fd_severity :: Severity
  fd_tool :: "string option"
  fd_message :: string

record ScanReport =
  sr_version :: string
  sr_tool_count :: usize
  sr_findings :: "Finding list"
  sr_summary :: "(string, usize) fmap"

definition max_severity :: "ScanReport \<Rightarrow> Severity option" where
  "max_severity r = (case sr_findings r of [] \<Rightarrow> None | f # fs \<Rightarrow> Some (fold (\<lambda>g m. max m (fd_severity g)) fs (fd_severity f)))"

definition count_severity :: "Finding \<Rightarrow> (string, usize) fmap \<Rightarrow> (string, usize) fmap" where
  "count_severity f m = (let k = severity_str (fd_severity f) in fmupd k (wrap_u64 (fm_entry 0 k m + 1)) m)"

definition push_findings :: "Finding list \<Rightarrow> ScanReport \<Rightarrow> ScanReport" where
  "push_findings extra r = fold (\<lambda>f r. r\<lparr>sr_summary := count_severity f (sr_summary r), sr_findings := sr_findings r @ [f]\<rparr>) extra r"

definition poisoning_finding :: "ScanFinding \<Rightarrow> Finding" where
  "poisoning_finding f = \<lparr> fd_kind = ''poisoning'', fd_severity = SevHigh, fd_tool = Some (sf_tool f), fd_message = sf_issue f \<rparr>"

fun drift_finding :: "Drift \<Rightarrow> Finding" where
  "drift_finding (Changed n) = \<lparr> fd_kind = ''rug_pull'', fd_severity = SevCritical, fd_tool = Some n,
     fd_message = ''tool definition changed vs lock (possible rug pull)'' \<rparr>"
| "drift_finding (Added n) = \<lparr> fd_kind = ''new_tool'', fd_severity = SevMedium, fd_tool = Some n, fd_message = ''tool not present in lock'' \<rparr>"
| "drift_finding (Removed n) = \<lparr> fd_kind = ''removed_tool'', fd_severity = SevLow, fd_tool = Some n,
     fd_message = ''tool in lock no longer offered'' \<rparr>"

text \<open>The crate's version string is a parameter.\<close>
definition from_scan :: "string \<Rightarrow> McpTool list \<Rightarrow> ScanFinding list \<Rightarrow> Drift list \<Rightarrow> ScanReport" where
  "from_scan version tools injection drift =
     (let fs = map poisoning_finding injection @ map drift_finding drift
      in \<lparr> sr_version = version, sr_tool_count = length tools, sr_findings = fs, sr_summary = fold count_severity fs fmempty \<rparr>)"

definition sarif_level :: "Severity \<Rightarrow> string" where
  "sarif_level s = (case s of SevCritical \<Rightarrow> ''error'' | SevHigh \<Rightarrow> ''error'' | SevMedium \<Rightarrow> ''warning'' | SevLow \<Rightarrow> ''note'' | SevInfo \<Rightarrow> ''note'')"

text \<open>The document is one object per finding; objects list their members in key order.\<close>
definition sarif_result :: "Finding \<Rightarrow> json" where
  "sarif_result f = JObject
     [(''level'', JString (sarif_level (fd_severity f))),
      (''locations'', JArray [JObject [(''logicalLocations'', JArray [JObject [(''kind'', JString ''resource''),
          (''name'', JString (case fd_tool f of Some t \<Rightarrow> t | None \<Rightarrow> ''mcp-server''))]])]]),
      (''message'', JObject [(''text'', JString (fd_message f))]),
      (''ruleId'', JString (fd_kind f))]"

definition to_sarif :: "ScanReport \<Rightarrow> string \<Rightarrow> json" where
  "to_sarif r tool_version = JObject
     [([CHR 0x24] @ ''schema'', JString ''https://json.schemastore.org/sarif-2.1.0.json''),
      (''runs'', JArray [JObject
        [(''results'', JArray (map sarif_result (sr_findings r))),
         (''tool'', JObject [(''driver'', JObject
            [(''informationUri'', JString ''https://tokenfuse.dev''), (''name'', JString ''tokenfuse-mcp-scan''),
             (''rules'', JArray []), (''version'', JString tool_version)])])]]),
      (''version'', JString ''2.1.0'')]"

definition should_fail :: "Severity option \<Rightarrow> Severity option \<Rightarrow> bool" where
  "should_fail mx threshold = (case (mx, threshold) of (Some m, Some t) \<Rightarrow> t \<le> m | _ \<Rightarrow> False)"

definition scan_exit_code :: "('e, Severity option) result \<Rightarrow> Severity option \<Rightarrow> int" where
  "scan_exit_code outcome threshold = (case outcome of Inl _ \<Rightarrow> 2 | Inr mx \<Rightarrow> if should_fail mx threshold then 1 else 0)"

section \<open>The gate on a scan\<close>

text \<open>The fingerprint a tool list pins for a name: the last entry wins.\<close>
definition pins :: "McpTool list \<Rightarrow> string \<Rightarrow> u64 option" where
  "pins tools n = (case filter (\<lambda>t. tool_name t = n) tools of [] \<Rightarrow> None | xs \<Rightarrow> Some (fingerprint (last xs)))"

lemma pins_None: "pins tools n = None \<longleftrightarrow> n \<notin> tool_name ` set tools"
proof -
  have "pins tools n = None \<longleftrightarrow> filter (\<lambda>t. tool_name t = n) tools = []" by (simp add: pins_def split: list.split)
  then show ?thesis by (auto simp: filter_empty_conv)
qed

lemma lock_pins: "fmlookup (lock_tools (lock_from_tools tools)) n = pins tools n"
proof (induction tools rule: rev_induct)
  case (snoc t tools)
  then show ?case by (auto simp: lock_from_tools_def pins_def split: list.splits)
qed (simp add: lock_from_tools_def pins_def)

lemma lock_dom: "fset (fmdom (lock_tools (lock_from_tools tools))) = tool_name ` set tools"
  by (rule set_eqI) (simp add: fmlookup_dom_iff lock_pins pins_None flip: not_None_eq)

lemma fold_max_ge: "thr \<le> fold (\<lambda>g m. max m (fd_severity g)) fs s \<longleftrightarrow> thr \<le> s \<or> (\<exists>f\<in>set fs. thr \<le> fd_severity f)"
  by (induction fs arbitrary: s) (auto simp: le_max_iff_disj)

lemma should_fail_iff: "should_fail (max_severity r) (Some thr) \<longleftrightarrow> (\<exists>f\<in>set (sr_findings r). thr \<le> fd_severity f)"
  by (cases "sr_findings r") (auto simp: should_fail_def max_severity_def fold_max_ge)

lemma drift_severities:
  "(\<exists>d\<in>set (diff tools lock). thr \<le> fd_severity (drift_finding d)) \<longleftrightarrow>
     (\<exists>t\<in>set tools. \<exists>fp. fmlookup (lock_tools lock) (tool_name t) = Some fp \<and> fp \<noteq> fingerprint t)
   \<or> (\<exists>t\<in>set tools. fmlookup (lock_tools lock) (tool_name t) = None) \<and> thr \<le> SevMedium
   \<or> (\<exists>n\<in>fset (fmdom (lock_tools lock)). n \<notin> tool_name ` set tools) \<and> thr \<le> SevLow"
proof -
  have "(\<exists>d\<in>set (tool_drift lock t). thr \<le> fd_severity (drift_finding d)) \<longleftrightarrow>
      (\<exists>fp. fmlookup (lock_tools lock) (tool_name t) = Some fp \<and> fp \<noteq> fingerprint t)
    \<or> fmlookup (lock_tools lock) (tool_name t) = None \<and> thr \<le> SevMedium" for t
    by (auto simp: tool_drift_def severity_top split: option.splits)
  moreover have "set (diff tools lock) = (\<Union>t\<in>set tools. set (tool_drift lock t))
      \<union> Removed ` {n \<in> fset (fmdom (lock_tools lock)). n \<notin> tool_name ` set tools}"
    by (simp add: diff_def)
  ultimately show ?thesis by (simp add: bex_Un bex_simps) blast
qed


end
