(* ===== verification/McpExposure.thy ===== *)
theory McpExposure
  imports Mcp
begin

text \<open>
  The exposure checks of the live scanner (\<open>crates/core/src/mcpexposure.rs\<close>): host
  classification, the fallback URL splitter, the SSRF capability flag and the findings
  of a probe.  Unicode lower-casing is a parameter.
\<close>

definition SSRF_KEYWORDS :: "string list" where
  "SSRF_KEYWORDS = [''fetch'', ''http'', ''url'', ''webhook'', ''proxy'', ''download'']"

definition private_octets :: "nat \<Rightarrow> nat \<Rightarrow> bool" where
  "private_octets a b \<longleftrightarrow> a = 127 \<or> a = 10 \<or> (a = 172 \<and> 16 \<le> b \<and> b \<le> 31) \<or> (a = 192 \<and> b = 168) \<or> (a = 169 \<and> b = 254)"

definition ipv4_local :: "string \<Rightarrow> bool" where
  "ipv4_local h =
     (case map parse_u8 (split_char (CHR ''.'') h) of
        [Some a, Some b, Some _, Some _] \<Rightarrow> private_octets a b
      | _ \<Rightarrow> False)"

definition host_is_local :: "(string \<Rightarrow> string) \<Rightarrow> string \<Rightarrow> bool" where
  "host_is_local lower host =
     (let h = lower (trim_any [CHR ''['', CHR '']''] (trim host)) in
      if h = [] then False
      else if h = ''localhost'' then True
      else if h = ''::1'' then True
      else if starts_with h ''fe80:'' then True
      else if CHR '':'' \<in> set h \<and> (starts_with h ''fc'' \<or> starts_with h ''fd'') then True
      else ipv4_local h)"

definition url_authority :: "string \<Rightarrow> string" where
  "url_authority rest = until_any [CHR ''/'', CHR ''?'', CHR ''#'', CHR 0x5C] (trim_start_any [CHR ''/'', CHR 0x5C] rest)"

definition authority_host :: "string \<Rightarrow> string option" where
  "authority_host a =
     (let hp = (case rsplit_once (CHR ''@'') a of Some (_, h) \<Rightarrow> h | None \<Rightarrow> a) in
      case strip_prefix ''['' hp of
        Some b \<Rightarrow> if CHR '']'' \<in> set b then Some (until_any [CHR '']''] b) else None
      | None \<Rightarrow> Some (until_any [CHR '':''] hp))"

definition parse_url_host_scheme :: "(string \<Rightarrow> string) \<Rightarrow> string \<Rightarrow> (string \<times> string) option" where
  "parse_url_host_scheme lower url =
     (case find_split ''://'' url of
        None \<Rightarrow> None
      | Some (scheme, rest) \<Rightarrow>
          (case authority_host (url_authority rest) of
             None \<Rightarrow> None
           | Some host \<Rightarrow> if host = [] then None else Some (lower (trim scheme), host)))"

definition is_plaintext_exposure :: "(string \<Rightarrow> string) \<Rightarrow> string \<Rightarrow> string \<Rightarrow> bool" where
  "is_plaintext_exposure lower scheme host \<longleftrightarrow> eq_ignore_ascii_case scheme ''http'' \<and> \<not> host_is_local lower host"

definition haystack :: "(string \<Rightarrow> string) \<Rightarrow> McpTool \<Rightarrow> string" where
  "haystack lower t = lower (tool_name t) @ '' '' @ lower (tool_description t)"

text \<open>The em dash in UTF-8.\<close>
definition EM_DASH :: string where
  "EM_DASH = [CHR 0xE2, CHR 0x80, CHR 0x94]"

definition ssrf_capable_findings :: "(string \<Rightarrow> string) \<Rightarrow> McpTool list \<Rightarrow> Finding list" where
  "ssrf_capable_findings lower tools =
     map (\<lambda>t. \<lparr> fd_kind = ''ssrf_capable_tool'', fd_severity = SevLow, fd_tool = Some (tool_name t),
            fd_message = ''tool '' @ [CHR 0x27] @ tool_name t @ [CHR 0x27] @ '' can fetch/proxy arbitrary URLs '' @ EM_DASH
              @ '' a pivot point for SSRF if abused'' \<rparr>)
       (filter (\<lambda>t. list_ex (str_contains (haystack lower t)) SSRF_KEYWORDS) tools)"

datatype CallAttempt = NotRequested | Skipped string | Rejected string | Succeeded string

record ProbeOutcome =
  po_scheme :: string
  po_host :: string
  unauth_list_returned :: bool
  unauth_tool_count :: usize
  cors_wildcard :: bool
  call_attempt :: CallAttempt

definition listed_openly :: "ProbeOutcome \<Rightarrow> bool" where
  "listed_openly p \<longleftrightarrow> unauth_list_returned p \<and> 0 < unauth_tool_count p"

definition list_finding :: "bool \<Rightarrow> ProbeOutcome \<Rightarrow> Finding" where
  "list_finding loc p =
     \<lparr> fd_kind = ''exposure_unauth_list'', fd_severity = (if loc then SevInfo else SevHigh), fd_tool = None,
       fd_message = ''tools/list succeeded with no authentication ('' @ nat_str (unauth_tool_count p) @ '' tool(s) returned) '' @ EM_DASH
         @ (if loc then '' local/dev host, expected'' else '' server is reachable and enumerable without credentials'') \<rparr>"

definition plaintext_finding :: "bool \<Rightarrow> Finding" where
  "plaintext_finding list_public =
     \<lparr> fd_kind = ''exposure_plaintext'', fd_severity = (if list_public then SevHigh else SevMedium), fd_tool = None,
       fd_message = ''MCP endpoint is served over plaintext http:// (not https)'' \<rparr>"

definition cors_finding :: Finding where
  "cors_finding = \<lparr> fd_kind = ''exposure_cors_wildcard'', fd_severity = SevMedium, fd_tool = None,
     fd_message = ''server responded with Access-Control-Allow-Origin: *'' \<rparr>"

fun call_findings :: "CallAttempt \<Rightarrow> Finding list" where
  "call_findings NotRequested = []"
| "call_findings (Skipped reason) =
     [\<lparr> fd_kind = ''exposure_unauth_call_skipped'', fd_severity = SevInfo, fd_tool = None, fd_message = reason \<rparr>]"
| "call_findings (Rejected t) =
     [\<lparr> fd_kind = ''exposure_unauth_call_rejected'', fd_severity = SevInfo, fd_tool = Some t,
        fd_message = ''unauthenticated tools/call to '' @ [CHR 0x27] @ t @ [CHR 0x27] @ '' was rejected by the server'' \<rparr>]"
| "call_findings (Succeeded t) =
     [\<lparr> fd_kind = ''exposure_unauth_call'', fd_severity = SevCritical, fd_tool = Some t,
        fd_message = ''unauthenticated tools/call to '' @ [CHR 0x27] @ t @ [CHR 0x27] @ '' succeeded '' @ EM_DASH
          @ '' server accepts unauthenticated tool invocations'' \<rparr>]"

definition exposure_findings :: "(string \<Rightarrow> string) \<Rightarrow> ProbeOutcome \<Rightarrow> Finding list" where
  "exposure_findings lower p =
     (let loc = host_is_local lower (po_host p) in
      (if listed_openly p then [list_finding loc p] else [])
      @ (if is_plaintext_exposure lower (po_scheme p) (po_host p) then [plaintext_finding (listed_openly p \<and> \<not> loc)] else [])
      @ (if cors_wildcard p then [cors_finding] else [])
      @ call_findings (call_attempt p))"

section \<open>What a report is made of\<close>

text \<open>Every finding kind the scanner can emit.\<close>
definition FINDING_KINDS :: "string list" where
  "FINDING_KINDS = [''poisoning'', ''rug_pull'', ''new_tool'', ''removed_tool'', ''exposure_unauth_list'', ''exposure_plaintext'',
     ''exposure_cors_wildcard'', ''exposure_unauth_call'', ''exposure_unauth_call_rejected'', ''exposure_unauth_call_skipped'',
     ''ssrf_capable_tool'']"

lemma drift_kind: "fd_kind (drift_finding d) \<in> set FINDING_KINDS"
  by (cases d) (simp_all add: FINDING_KINDS_def)

lemma call_kind: "f \<in> set (call_findings a) \<Longrightarrow> fd_kind f \<in> set FINDING_KINDS"
  by (cases a) (simp_all add: FINDING_KINDS_def)

lemma exposure_kind: "f \<in> set (exposure_findings lower p) \<Longrightarrow> fd_kind f \<in> set FINDING_KINDS"
  using call_kind [of f "call_attempt p"]
  by (auto simp: exposure_findings_def Let_def list_finding_def plaintext_finding_def cors_finding_def FINDING_KINDS_def split: if_splits)

lemma scan_kinds:
  "fd_kind ` set (sr_findings (push_findings (exposure_findings lower p @ ssrf_capable_findings lower tools) (from_scan v tools js ds)))
     \<subseteq> set FINDING_KINDS"
proof -
  have pf: "sr_findings (push_findings fs r) = sr_findings r @ fs" for fs r
    by (induction fs arbitrary: r) (simp_all add: push_findings_def)
  have "fd_kind (poisoning_finding j) \<in> set FINDING_KINDS" for j by (simp add: poisoning_finding_def FINDING_KINDS_def)
  moreover have "f \<in> set (ssrf_capable_findings lower tools) \<Longrightarrow> fd_kind f \<in> set FINDING_KINDS" for f
    by (auto simp: ssrf_capable_findings_def FINDING_KINDS_def)
  ultimately show ?thesis
    using drift_kind exposure_kind by (auto simp: pf from_scan_def Let_def)
qed

text \<open>A loopback or private host is never reported as openly enumerable or plaintext.\<close>
lemma local_host_quiet:
  assumes "host_is_local lower (po_host p)" "f \<in> set (exposure_findings lower p)" "SevHigh \<le> fd_severity f"
  shows "\<exists>t. call_attempt p = Succeeded t"
  using assms
  by (cases "call_attempt p")
     (auto simp: exposure_findings_def Let_def is_plaintext_exposure_def list_finding_def cors_finding_def less_eq_Severity_def
       severity_rank_def split: if_splits)

end
