(* ===== verification/Compliance.thy ===== *)
theory Compliance
  imports McpExposure Savings Breaker
begin

text \<open>
  The compliance catalogue and its projection against observed evidence
  (\<open>crates/core/src/compliance.rs\<close>).  The maps of counts are association lists: a
  \<open>BTreeMap\<close> collected from a list is built by ordered insertion, and sums of counters
  wrap in a release build.
\<close>

text \<open>The arrow of the feature descriptions in UTF-8.\<close>
definition ARROW :: string where
  "ARROW = [CHR 0xE2, CHR 0x86, CHR 0x92]"

datatype Enforcement = Enforced | Partial | Documented

record ControlMapping =
  control_id :: string
  cm_title :: string
  cm_description :: string
  cm_feature :: string
  cm_enforcement :: Enforcement
  evidence_decisions :: "string list"
  evidence_finding_kinds :: "string list"
  evidence_incident_kinds :: "string list"
  frameworks :: "(string \<times> string) list"

definition FRAMEWORK_VERSIONS :: "(string \<times> string \<times> string) list" where
  "FRAMEWORK_VERSIONS =
    [(''OWASP-ASI-2026'', ''OWASP Top 10 for Agentic Applications'', ''2026 edition (retrieved 2026-07)''),
     (''MITRE-ATLAS'', ''MITRE ATLAS (Adversarial Threat Landscape for AI Systems)'', ''matrix retrieved 2026-07''),
     (''NIST-800-53r5'', ''NIST SP 800-53 Revision 5'', ''Rev. 5 (retrieved 2026-07)''),
     (''SOC2'', ''SOC 2 Trust Services Criteria (2017, rev. 2022)'', ''retrieved 2026-07''),
     (''EU-AI-ACT'', ''EU AI Act (Regulation (EU) 2024/1689)'', ''retrieved 2026-07'')]"

section \<open>The catalogue\<close>

definition tf_budget :: ControlMapping where
  "tf_budget = \<lparr> control_id = ''TF.BUDGET'', cm_title = ''Per-run spend cap'',
     cm_description = ''Reserves/settles token spend against a per-run budget and blocks the call that would exceed it.'',
     cm_feature = ''crate::ledger (reserve/settle) '' @ ARROW @ '' breaker budget_exceeded'',
     cm_enforcement = Enforced, evidence_decisions = [''budget_exceeded''],
     evidence_finding_kinds = [],
     evidence_incident_kinds = [''budget_exhausted'', ''spend_spike''],
     frameworks = [(''OWASP-ASI-2026'', ''ASI08 (Cascading Failures)''),
        (''NIST-800-53r5'', ''SC-6 (Resource Availability)''),
        (''SOC2'', ''CC7.2 (System Monitoring)''),
        (''EU-AI-ACT'', ''Art. 15 (Accuracy, robustness and cybersecurity)'')] \<rparr>"

definition tf_loop :: ControlMapping where
  "tf_loop = \<lparr> control_id = ''TF.LOOP'', cm_title = ''Runaway-loop breaker'',
     cm_description = ''Detects repeated/oscillating steps and stops a run that is looping without progress.'',
     cm_feature = ''crate::loops '' @ ARROW @ '' breaker loop_detected'',
     cm_enforcement = Enforced, evidence_decisions = [''loop_detected''],
     evidence_finding_kinds = [],
     evidence_incident_kinds = [''sustained_loop''],
     frameworks = [(''OWASP-ASI-2026'', ''ASI08 (Cascading Failures)''),
        (''NIST-800-53r5'', ''SC-6 (Resource Availability)''),
        (''NIST-800-53r5'', ''SI-4 (System Monitoring)''),
        (''EU-AI-ACT'', ''Art. 15 (Accuracy, robustness and cybersecurity)'')] \<rparr>"

definition tf_kill :: ControlMapping where
  "tf_kill = \<lparr> control_id = ''TF.KILL'', cm_title = ''Operator kill-switch'',
     cm_description = ''An operator can hard-stop a run; the gateway polls the kill set and refuses further calls.'',
     cm_feature = ''operator kill (cloud store.kill) '' @ ARROW @ '' breaker killed'',
     cm_enforcement = Enforced, evidence_decisions = [''killed''],
     evidence_finding_kinds = [],
     evidence_incident_kinds = [],
     frameworks = [(''OWASP-ASI-2026'', ''ASI10 (Rogue Agents)''),
        (''EU-AI-ACT'', ''Art. 14 (Human oversight)''),
        (''NIST-800-53r5'', ''AC-3 (Access Enforcement)'')] \<rparr>"

definition tf_dlp :: ControlMapping where
  "tf_dlp = \<lparr> control_id = ''TF.DLP'', cm_title = ''Secret/DLP wire redaction'',
     cm_description = ''Scans request args and responses for raw secrets and blocks the call before they reach the model/tool. Optionally, an operator can also enable a separate, env-gated PII mode (email/card/phone, regex-only, no ML).'',
     cm_feature = ''crate::dlp + MCP broker '' @ ARROW @ '' breaker dlp_blocked'',
     cm_enforcement = Enforced, evidence_decisions = [''dlp_blocked''],
     evidence_finding_kinds = [],
     evidence_incident_kinds = [],
     frameworks = [(''OWASP-ASI-2026'', ''ASI02 (Tool Misuse and Exploitation)''),
        (''MITRE-ATLAS'', ''Exfiltration (tactic)''),
        (''NIST-800-53r5'', ''SC-7 (Boundary Protection)''),
        (''SOC2'', ''CC6.7 (Restrict transmission/movement of information)'')] \<rparr>"

definition tf_taint :: ControlMapping where
  "tf_taint = \<lparr> control_id = ''TF.TAINT'', cm_title = ''Untrusted-content taint firewall'',
     cm_description = ''Propagates an '' @ [CHR 0x27] @ ''untrusted'' @ [CHR 0x27] @ '' label from web/RAG content and blocks tainted content from driving sensitive tool calls.'',
     cm_feature = ''crate::taint '' @ ARROW @ '' breaker taint_blocked'',
     cm_enforcement = Enforced, evidence_decisions = [''taint_blocked''],
     evidence_finding_kinds = [],
     evidence_incident_kinds = [],
     frameworks = [(''OWASP-ASI-2026'', ''ASI01 (Agent Goal Hijack)''),
        (''MITRE-ATLAS'', ''AML.T0051 (LLM Prompt Injection)''),
        (''NIST-800-53r5'', ''SI-4 (System Monitoring)''),
        (''EU-AI-ACT'', ''Art. 15 (Accuracy, robustness and cybersecurity)'')] \<rparr>"

definition tf_mcp_poison :: ControlMapping where
  "tf_mcp_poison = \<lparr> control_id = ''TF.MCP.POISON'', cm_title = ''MCP tool-poisoning scan'',
     cm_description = ''Scans MCP tool descriptions for injected instructions (tool poisoning) and flags them before use.'',
     cm_feature = ''crate::mcp::scan_injection '' @ ARROW @ '' mcpreport '' @ [CHR 0x27] @ ''poisoning'' @ [CHR 0x27],
     cm_enforcement = Enforced, evidence_decisions = [],
     evidence_finding_kinds = [''poisoning''],
     evidence_incident_kinds = [],
     frameworks = [(''OWASP-ASI-2026'', ''ASI06 (Memory & Context Poisoning)''),
        (''MITRE-ATLAS'', ''AML.T0051 (LLM Prompt Injection)''),
        (''NIST-800-53r5'', ''SR-3 (Supply Chain Controls and Processes)'')] \<rparr>"

definition tf_mcp_rugpull :: ControlMapping where
  "tf_mcp_rugpull = \<lparr> control_id = ''TF.MCP.RUGPULL'', cm_title = ''MCP tool-drift (rug-pull) lock'',
     cm_description = ''Pins tool definitions in a lock and flags silent changes, additions, or removals vs the approved set.'',
     cm_feature = ''crate::mcp::diff '' @ ARROW @ '' mcpreport rug_pull/new_tool/removed_tool'',
     cm_enforcement = Enforced, evidence_decisions = [],
     evidence_finding_kinds = [''rug_pull'', ''new_tool'', ''removed_tool''],
     evidence_incident_kinds = [],
     frameworks = [(''OWASP-ASI-2026'', ''ASI04 (Agentic Supply Chain Vulnerabilities)''),
        (''NIST-800-53r5'', ''SR-3 (Supply Chain Controls and Processes)''),
        (''MITRE-ATLAS'', ''AI Supply Chain Compromise (tactic)'')] \<rparr>"

definition tf_mcp_exposure :: ControlMapping where
  "tf_mcp_exposure = \<lparr> control_id = ''TF.MCP.EXPOSURE'', cm_title = ''MCP server-exposure scan'',
     cm_description = ''Live checks for an unauthenticated/plaintext/CORS-wildcard MCP server and SSRF-capable tools.'',
     cm_feature = ''crate::mcpexposure (exposure_findings / ssrf_capable_findings)'',
     cm_enforcement = Enforced, evidence_decisions = [],
     evidence_finding_kinds = [''exposure_unauth_list'', ''exposure_plaintext'', ''exposure_cors_wildcard'', ''exposure_unauth_call'', ''exposure_unauth_call_rejected'', ''exposure_unauth_call_skipped'', ''ssrf_capable_tool''],
     evidence_incident_kinds = [],
     frameworks = [(''OWASP-ASI-2026'', ''ASI03 (Identity and Privilege Abuse)''),
        (''OWASP-ASI-2026'', ''ASI04 (Agentic Supply Chain Vulnerabilities)''),
        (''NIST-800-53r5'', ''SC-7 (Boundary Protection)''),
        (''SOC2'', ''CC6.1 (Logical access security)'')] \<rparr>"

definition tf_wasm :: ControlMapping where
  "tf_wasm = \<lparr> control_id = ''TF.WASM'', cm_title = ''Custom WASM policy plugin'',
     cm_description = ''Operator-supplied WebAssembly policy can block a call at runtime. Partial: the `wasm` feature is off by default and not in the shipped image, and the policy is arbitrary operator code '' @ EM_DASH @ '' so no fixed framework control is claimed.'',
     cm_feature = ''wasm policy plugin (feature-gated) '' @ ARROW @ '' breaker wasm_policy'',
     cm_enforcement = Partial, evidence_decisions = [''wasm_policy''],
     evidence_finding_kinds = [],
     evidence_incident_kinds = [],
     frameworks = [] \<rparr>"

definition tf_audit :: ControlMapping where
  "tf_audit = \<lparr> control_id = ''TF.AUDIT'', cm_title = ''Decision audit log'',
     cm_description = ''Every enforcement decision is written to the decisions audit trail. Partial: the tamper-evident hash-chain + signing (docs/08 S4) is not yet implemented, so integrity of the log is not yet claimable.'',
     cm_feature = ''decisions_audit (write path); tamper-evident chain pending'',
     cm_enforcement = Partial, evidence_decisions = [],
     evidence_finding_kinds = [],
     evidence_incident_kinds = [],
     frameworks = [(''NIST-800-53r5'', ''AU-2 (Event Logging)''),
        (''NIST-800-53r5'', ''AU-9 (Protection of Audit Information)''),
        (''EU-AI-ACT'', ''Art. 12 (Record-keeping)''),
        (''SOC2'', ''CC7.2 (System Monitoring)'')] \<rparr>"

definition tf_access :: ControlMapping where
  "tf_access = \<lparr> control_id = ''TF.ACCESS'', cm_title = ''Access control (RBAC)'',
     cm_description = ''Cloud RBAC (admin vs viewer; mutations require admin; orgs isolated by key) gates the control plane. Partial: SSO / external IdP integration is not yet implemented.'',
     cm_feature = ''crate::cloud RBAC (admin/viewer); SSO pending'',
     cm_enforcement = Partial, evidence_decisions = [],
     evidence_finding_kinds = [],
     evidence_incident_kinds = [],
     frameworks = [(''NIST-800-53r5'', ''AC-3 (Access Enforcement)''),
        (''NIST-800-53r5'', ''AC-6 (Least Privilege)''),
        (''SOC2'', ''CC6.1 (Logical access security)'')] \<rparr>"

definition CATALOG :: "ControlMapping list" where
  "CATALOG = [tf_budget, tf_loop, tf_kill, tf_dlp, tf_taint, tf_mcp_poison, tf_mcp_rugpull, tf_mcp_exposure, tf_wasm, tf_audit, tf_access]"

lemmas catalog_defs = tf_budget_def tf_loop_def tf_kill_def tf_dlp_def tf_taint_def tf_mcp_poison_def tf_mcp_rugpull_def tf_mcp_exposure_def tf_wasm_def tf_audit_def tf_access_def

definition DISCLAIMER :: string where
  "DISCLAIMER = ''Controls TokenFuse enforces + evidence for your audit '' @ EM_DASH @ '' not a certification. TokenFuse is fail-open by default; see docs/13. Cloud ingest evidence trusts the org credential presented to /v1/ingest, not the gateway cryptographically '' @ EM_DASH @ '' a gateway-specific credential is future work.''"

section \<open>The projection\<close>

type_synonym counts = "(string \<times> u64) list"

definition count_of :: "counts \<Rightarrow> string \<Rightarrow> u64" where
  "count_of m k = (case map_of m k of Some n \<Rightarrow> n | None \<Rightarrow> 0)"

definition sum_counts :: "counts \<Rightarrow> u64" where
  "sum_counts m = wrap_u64 (sum_list (map snd m))"

text \<open>A watch list looked up in the observed counts and collected into an ordered map.\<close>
definition watched_counts :: "string list \<Rightarrow> counts \<Rightarrow> counts" where
  "watched_counts ks m = fold (\<lambda>k. bt_insert k (count_of m k)) ks []"

record ControlEvidence =
  ce_control_id :: string
  ce_title :: string
  ce_enforcement :: Enforcement
  ce_decision_counts :: counts
  ce_finding_counts :: counts
  ce_incident_count :: u64
  covered :: bool
  evidence_seen :: bool

record ComplianceReport =
  generated_note :: string
  framework_versions :: "(string \<times> string \<times> string) list"
  cr_controls :: "ControlEvidence list"
  decisions_total :: u64
  findings_total :: u64

definition control_evidence :: "counts \<Rightarrow> counts \<Rightarrow> counts \<Rightarrow> ControlMapping \<Rightarrow> ControlEvidence" where
  "control_evidence dc fc ic c =
     (let dcc = watched_counts (evidence_decisions c) dc;
          fcc = watched_counts (evidence_finding_kinds c) fc;
          incidents_seen = wrap_u64 (sum_list (map (count_of ic) (evidence_incident_kinds c)));
          seen = (0 < sum_counts dcc \<or> 0 < sum_counts fcc \<or> 0 < incidents_seen);
          preventive = (evidence_decisions c \<noteq> [])
      in \<lparr> ce_control_id = control_id c, ce_title = cm_title c, ce_enforcement = cm_enforcement c, ce_decision_counts = dcc,
           ce_finding_counts = fcc, ce_incident_count = incidents_seen,
           covered = (cm_enforcement c = Enforced \<and> (seen \<or> preventive)), evidence_seen = seen \<rparr>)"

definition compute_compliance_from_counts :: "ControlMapping list \<Rightarrow> counts \<Rightarrow> counts \<Rightarrow> counts \<Rightarrow> ComplianceReport" where
  "compute_compliance_from_counts catalog dc fc ic =
     \<lparr> generated_note = DISCLAIMER, framework_versions = FRAMEWORK_VERSIONS, cr_controls = map (control_evidence dc fc ic) catalog,
       decisions_total = sum_counts dc, findings_total = sum_counts fc \<rparr>"

text \<open>\<open>*m.entry(k).or_insert(0) += 1\<close>.\<close>
definition bump_count :: "string \<Rightarrow> counts \<Rightarrow> counts" where
  "bump_count k m = bt_insert k (wrap_u64 (count_of m k + 1)) m"

definition compute_compliance :: "ControlMapping list \<Rightarrow> SavingsCall list \<Rightarrow> Finding list \<Rightarrow> ComplianceReport" where
  "compute_compliance catalog cs fs =
     compute_compliance_from_counts catalog (fold (\<lambda>c. bump_count (sc_decision c)) cs []) (fold (\<lambda>f. bump_count (fd_kind f)) fs []) []"

section \<open>Ordered maps of counts\<close>

lemma map_of_bt_insert: "map_of (bt_insert k v m) = (map_of m)(k \<mapsto> v)"
  by (induction k v m rule: bt_insert.induct) (auto simp: fun_eq_iff)

lemma keys_bt_insert: "fst ` set (bt_insert k v m) = insert k (fst ` set m)"
  by (induction k v m rule: bt_insert.induct) auto

lemma sorted_bt_insert: "sorted_wrt (<) (map fst m) \<Longrightarrow> sorted_wrt (<) (map fst (bt_insert k v m))"
proof (induction k v m rule: bt_insert.induct)
  case (2 k v x w xs)
  have gt: "\<forall>y\<in>fst ` set xs. x < y" and sx: "sorted_wrt (<) (map fst xs)" using 2(2) by auto
  consider "k < x" | "k = x" | "x < k" by fastforce
  then show ?case
  proof cases
    case 1
    then show ?thesis using gt sx by (auto intro: less_trans)
  next
    case 2
    then show ?thesis using gt sx by simp
  next
    case 3
    then have "\<forall>y\<in>fst ` set (bt_insert k v xs). x < y" using gt by (simp add: keys_bt_insert)
    moreover have "\<not> k < x" "k \<noteq> x" using 3 by auto
    ultimately show ?thesis using 2(1) [OF _ _ sx] by simp
  qed
qed simp

lemma count_of_insert: "count_of (bt_insert k v m) x = (if x = k then v else count_of m x)"
  by (simp add: count_of_def map_of_bt_insert)

lemma count_of_bump: "count_of (bump_count k m) x = (if x = k then wrap_u64 (Suc (count_of m k)) else count_of m x)"
  by (simp add: bump_count_def count_of_insert)

lemma count_of_bumps:
  "count_of (fold (\<lambda>c. bump_count (key c)) cs []) k = wrap_u64 (length (filter (\<lambda>c. key c = k) cs))"
proof (induction cs rule: rev_induct)
  case (snoc c cs)
  have "wrap_u64 (Suc (wrap_u64 n)) = wrap_u64 (Suc n)" for n by (simp add: wrap_u64_def mod_Suc_eq)
  then show ?case using snoc by (cases "k = key c") (simp_all add: count_of_bump)
qed (simp add: count_of_def wrap_u64_def)

lemma watched_props:
  "map_of (watched_counts ks m) k = (if k \<in> set ks then Some (count_of m k) else None)"
  "fst ` set (watched_counts ks m) = set ks" "distinct (map fst (watched_counts ks m))"
proof -
  have gen: "map_of (fold (\<lambda>k. bt_insert k (count_of m k)) ks a) k = (if k \<in> set ks then Some (count_of m k) else map_of a k)
    \<and> fst ` set (fold (\<lambda>k. bt_insert k (count_of m k)) ks a) = set ks \<union> fst ` set a
    \<and> (sorted_wrt (<) (map fst a) \<longrightarrow> sorted_wrt (<) (map fst (fold (\<lambda>k. bt_insert k (count_of m k)) ks a)))" for a
    by (induction ks arbitrary: a) (auto simp: map_of_bt_insert keys_bt_insert sorted_bt_insert)
  show "map_of (watched_counts ks m) k = (if k \<in> set ks then Some (count_of m k) else None)"
    "fst ` set (watched_counts ks m) = set ks" "distinct (map fst (watched_counts ks m))"
    using gen [of "[]"] by (auto simp: watched_counts_def strict_sorted_iff)
qed

lemma watched_sum: "sum_list (map snd (watched_counts ks m)) = (\<Sum>k\<in>set ks. count_of m k)"
proof -
  let ?w = "watched_counts ks m"
  have "sum_list (map snd ?w) = sum_list (map (\<lambda>k. the (map_of ?w k)) (map fst ?w))"
    using watched_props(3) [of ks m] by (auto intro!: arg_cong [of _ _ sum_list] simp: comp_def)
  also have "\<dots> = (\<Sum>k\<in>set (map fst ?w). the (map_of ?w k))"
    by (rule sum_list_distinct_conv_sum_set) (rule watched_props(3))
  also have "\<dots> = (\<Sum>k\<in>set ks. count_of m k)"
    using watched_props(1) [of ks m] watched_props(2) [of ks m] by (intro sum.cong) auto
  finally show ?thesis .
qed

lemma counts_total: "finite K \<Longrightarrow> (\<Sum>k\<in>K. length (filter (\<lambda>c. key c = k) cs)) \<le> length cs"
proof (induction cs)
  case (Cons c cs)
  have "(\<Sum>k\<in>K. length (filter (\<lambda>c. key c = k) (c # cs))) = (\<Sum>k\<in>K. (if key c = k then 1 else 0) + length (filter (\<lambda>c. key c = k) cs))"
    by (intro sum.cong) simp_all
  also have "\<dots> = (if key c \<in> K then 1 else 0) + (\<Sum>k\<in>K. length (filter (\<lambda>c. key c = k) cs))"
    using Cons.prems by (simp add: sum.distrib)
  finally show ?case using Cons by auto
qed simp

lemma watched_seen:
  assumes "length cs \<le> u64_max"
  shows "0 < sum_counts (watched_counts ks (fold (\<lambda>c. bump_count (key c)) cs [])) \<longleftrightarrow> (\<exists>c\<in>set cs. key c \<in> set ks)"
proof -
  have c: "count_of (fold (\<lambda>c. bump_count (key c)) cs []) k = length (filter (\<lambda>c. key c = k) cs)" for k
    using assms le_trans [OF length_filter_le [of "\<lambda>c. key c = k" cs], of u64_max] by (simp add: count_of_bumps wrap_u64_def u64_max_def)
  have t: "(\<Sum>k\<in>set ks. length (filter (\<lambda>c. key c = k) cs)) \<le> u64_max"
    using counts_total [of "set ks" key cs] assms by simp
  have "sum_counts (watched_counts ks (fold (\<lambda>c. bump_count (key c)) cs [])) = (\<Sum>k\<in>set ks. length (filter (\<lambda>c. key c = k) cs))"
    using t by (simp add: sum_counts_def watched_sum c wrap_u64_def u64_max_def)
  then show ?thesis
    by (simp only: neq0_conv [symmetric] sum_eq_0_iff [OF finite_set]) (auto simp: filter_empty_conv)
qed

section \<open>Properties\<close>

definition INCIDENT_KINDS :: "string list" where
  "INCIDENT_KINDS = [''budget_exhausted'', ''sustained_loop'', ''spend_spike'', ''fanout_explosion'']"

text \<open>The catalogue names only evidence the code can emit and frameworks it pins.\<close>
lemma catalog_real:
  "list_all (\<lambda>c. (\<forall>d\<in>set (evidence_decisions c). \<exists>r. as_wire_str r = d) \<and> set (evidence_finding_kinds c) \<subseteq> set FINDING_KINDS
     \<and> set (evidence_incident_kinds c) \<subseteq> set INCIDENT_KINDS \<and> fst ` set (frameworks c) \<subseteq> fst ` set FRAMEWORK_VERSIONS) CATALOG"
proof -
  have w: "\<exists>r. as_wire_str r = ''budget_exceeded''" "\<exists>r. as_wire_str r = ''loop_detected''" "\<exists>r. as_wire_str r = ''killed''"
    "\<exists>r. as_wire_str r = ''dlp_blocked''" "\<exists>r. as_wire_str r = ''taint_blocked''" "\<exists>r. as_wire_str r = ''wasm_policy''"
    by (rule exI [of _ BudgetExceeded] exI [of _ LoopDetected] exI [of _ Killed] exI [of _ DlpBlocked] exI [of _ TaintBlocked] exI [of _ WasmPolicy], simp)+
  show ?thesis
    by (simp add: CATALOG_def catalog_defs FINDING_KINDS_def INCIDENT_KINDS_def FRAMEWORK_VERSIONS_def w)
qed

text \<open>A unit-budget block or an identity mismatch is evidence for no control.\<close>
lemma catalog_misses_identity_pair:
  "list_all (\<lambda>c. as_wire_str UnitBudgetExceeded \<notin> set (evidence_decisions c) \<and> as_wire_str IdentityMismatch \<notin> set (evidence_decisions c)) CATALOG"
  by (simp add: CATALOG_def catalog_defs)

definition observed :: "SavingsCall list \<Rightarrow> Finding list \<Rightarrow> ControlMapping \<Rightarrow> bool" where
  "observed cs fs c \<longleftrightarrow> (\<exists>x\<in>set cs. sc_decision x \<in> set (evidence_decisions c)) \<or> (\<exists>f\<in>set fs. fd_kind f \<in> set (evidence_finding_kinds c))"

text \<open>A compliance report claims what the evidence supports: over a trace and a scan of fewer than 2^64
  rows, a control shows evidence exactly when some call carries a decision it watches or some finding a
  kind it watches, and it is covered exactly when it is an enforced control that shows evidence or
  blocks on the wire; partial controls are never covered, and a scanner without findings is not.\<close>
theorem compliance_exact:
  assumes "length cs \<le> u64_max" "length fs \<le> u64_max"
  shows "map (\<lambda>e. (ce_control_id e, ce_enforcement e, evidence_seen e, covered e)) (cr_controls (compute_compliance catalog cs fs))
    = map (\<lambda>c. (control_id c, cm_enforcement c, observed cs fs c,
             cm_enforcement c = Enforced \<and> (observed cs fs c \<or> evidence_decisions c \<noteq> []))) catalog"
proof -
  have "count_of [] k = 0" for k by (simp add: count_of_def)
  then have z: "sum_list (map (count_of []) ks) = 0" for ks by (induction ks) simp_all
  show ?thesis
    by (simp add: compute_compliance_def compute_compliance_from_counts_def control_evidence_def Let_def observed_def z wrap_u64_def [of 0]
        watched_seen [OF assms(1)] watched_seen [OF assms(2)])
qed

theorem compliance_exact_witness:
  "map covered (cr_controls (compute_compliance [tf_budget, tf_mcp_poison, tf_wasm] [] [])) = [True, False, False]"
proof -
  have "map (\<lambda>e. (ce_control_id e, ce_enforcement e, evidence_seen e, covered e)) (cr_controls (compute_compliance [tf_budget, tf_mcp_poison, tf_wasm] [] []))
      = map (\<lambda>c. (control_id c, cm_enforcement c, observed [] [] c,
             cm_enforcement c = Enforced \<and> (observed [] [] c \<or> evidence_decisions c \<noteq> []))) [tf_budget, tf_mcp_poison, tf_wasm]"
    by (rule compliance_exact) simp_all
  then have "map (\<lambda>x. snd (snd (snd x))) (map (\<lambda>e. (ce_control_id e, ce_enforcement e, evidence_seen e, covered e))
        (cr_controls (compute_compliance [tf_budget, tf_mcp_poison, tf_wasm] [] []))) = [True, False, False]"
    by (simp add: observed_def tf_budget_def tf_mcp_poison_def tf_wasm_def)
  then show ?thesis by (simp add: comp_def)
qed

end
