(* ===== verification/CloudAuth.thy ===== *)
theory CloudAuth
  imports CloudStore CloudViews Utf8 StrScan
begin

text \<open>
  Authentication of the control plane: API keys (\<open>crates/cloud/src/keys.rs\<close>), OIDC
  bearer tokens (\<open>oidc.rs\<close>), device signatures (\<open>devices.rs\<close>) and the checks of
  \<open>AppState\<close> and \<open>AuthError\<close> in \<open>http.rs\<close>.  SHA-256, the JWT library, base64 and the
  elliptic-curve library are parameters; the clock is an argument.
\<close>

section \<open>API keys\<close>

record Principal =
  p_org :: string
  p_role :: string

text \<open>One comma-separated entry.\<close>
definition spec_principal :: "string \<Rightarrow> (string \<times> Principal) option" where
  "spec_principal raw =
     (let pair = trim raw in
      if pair = [] then None
      else case split_char (CHR '':'') pair of
        k # o' # rest \<Rightarrow>
          if trim k = [] \<or> trim o' = [] then None
          else let role = (case rest of [] \<Rightarrow> ''admin'' | r # _ \<Rightarrow> if trim r = [] then ''admin'' else trim r)
               in Some (trim k, \<lparr> p_org = trim o', p_role = role \<rparr>)
      | _ \<Rightarrow> None)"

text \<open>The hash map as an association list, later inserts shadowing earlier ones.\<close>
type_synonym KeyMap = "(string \<times> Principal) list"

definition parse_keys :: "string \<Rightarrow> bool \<Rightarrow> KeyMap" where
  "parse_keys spec allow_devkey =
     (let ks = fold (\<lambda>e m. case spec_principal e of Some kv \<Rightarrow> kv # m | None \<Rightarrow> m) (split_char (CHR '','') spec) []
      in if ks = [] \<and> allow_devkey then [(''devkey'', \<lparr> p_org = ''default'', p_role = ''admin'' \<rparr>)] else ks)"

section \<open>Device signatures\<close>

text \<open>The libraries behind \<open>verify_signature\<close>: base64, SEC1 keys, P1363 signatures, ECDSA.\<close>
record ('vk, 'sg) ecdsa =
  b64_decode :: "string \<Rightarrow> string option"
  vk_from_sec1 :: "string \<Rightarrow> 'vk option"
  sig_from_slice :: "string \<Rightarrow> 'sg option"
  vk_verify :: "'vk \<Rightarrow> string \<Rightarrow> 'sg \<Rightarrow> bool"

definition NL :: string where "NL = [CHR 0x0A]"

definition canonical_string :: "(string \<Rightarrow> string) \<Rightarrow> string \<Rightarrow> string \<Rightarrow> string \<Rightarrow> string \<Rightarrow> string \<Rightarrow> string" where
  "canonical_string sha meth path body t nonce = meth @ NL @ path @ NL @ hex_lower (sha body) @ NL @ t @ NL @ nonce"

definition verify_signature :: "('vk, 'sg) ecdsa \<Rightarrow> string \<Rightarrow> string \<Rightarrow> string \<Rightarrow> bool" where
  "verify_signature e pubkey_b64 canonical sig_b64 =
     (case b64_decode e pubkey_b64 of None \<Rightarrow> False | Some pk \<Rightarrow>
      case b64_decode e sig_b64 of None \<Rightarrow> False | Some sg \<Rightarrow>
      case vk_from_sec1 e pk of None \<Rightarrow> False | Some vk \<Rightarrow>
      case sig_from_slice e sg of None \<Rightarrow> False | Some s \<Rightarrow> vk_verify e vk canonical s)"

text \<open>The operating system's randomness is the argument.\<close>
definition random_hex :: "string \<Rightarrow> string" where
  "random_hex buf = hex_lower buf"

definition PAIRING_ALPHABET :: string where
  "PAIRING_ALPHABET = ''ABCDEFGHJKLMNPQRSTUVWXYZ23456789''"

definition pairing_code :: "string \<Rightarrow> string" where
  "pairing_code buf = map (\<lambda>b. PAIRING_ALPHABET ! (of_char b mod length PAIRING_ALPHABET)) buf"

section \<open>OIDC\<close>

datatype Algorithm = HS256 | RS256 | RS384 | RS512 | ES256 | ES384

datatype jwk_params = RsaParams | EcParams | OctetParams | OkpParams

record Validation =
  va_algorithms :: "Algorithm list"
  va_validate_exp :: bool
  va_required :: "string list"
  va_issuer :: "string list"
  va_audience :: "string list"

record Claims =
  cl_sub :: string
  cl_extra :: "string \<rightharpoonup> json"

text \<open>The JSON parser and the JWT library.\<close>
record ('jwks, 'jwk, 'key) jwt =
  parse_jwks :: "string \<Rightarrow> 'jwks option"
  jwks_is_empty :: "'jwks \<Rightarrow> bool"
  decode_header :: "string \<Rightarrow> string option option"
  jwks_find :: "'jwks \<Rightarrow> string \<Rightarrow> 'jwk option"
  jwk_algorithm :: "'jwk \<Rightarrow> jwk_params"
  decoding_key :: "'jwk \<Rightarrow> 'key option"
  jwt_decode :: "string \<Rightarrow> 'key \<Rightarrow> Validation \<Rightarrow> Claims option"

record 'jwks OidcConfig =
  oc_issuer :: string
  oc_audience :: string
  oc_jwks :: 'jwks
  oc_org_claim :: string
  oc_roles_claim :: string
  oc_admin_role :: string

definition non_empty :: "string \<Rightarrow> string \<Rightarrow> string" where
  "non_empty v d = (if v = [] then d else v)"

definition oidc_config_new :: "('jwks, 'jwk, 'key) jwt \<Rightarrow> string \<Rightarrow> string \<Rightarrow> string \<Rightarrow> string \<Rightarrow> string \<Rightarrow> string \<Rightarrow> 'jwks OidcConfig option" where
  "oidc_config_new j issuer audience jwks_json org_claim roles_claim admin_role =
     (if issuer = [] \<or> audience = [] then None
      else case parse_jwks j jwks_json of None \<Rightarrow> None
      | Some ks \<Rightarrow>
          if jwks_is_empty j ks then None
          else Some \<lparr> oc_issuer = issuer, oc_audience = audience, oc_jwks = ks, oc_org_claim = non_empty org_claim ''org'',
                 oc_roles_claim = non_empty roles_claim ''roles'', oc_admin_role = non_empty admin_role ''admin'' \<rparr>)"

definition env_nonempty :: "(string \<Rightarrow> string option) \<Rightarrow> string \<Rightarrow> string option" where
  "env_nonempty env name = (case env name of Some v \<Rightarrow> if v = [] then None else Some v | None \<Rightarrow> None)"

definition load_jwks :: "(string \<Rightarrow> string option) \<Rightarrow> string \<Rightarrow> string option" where
  "load_jwks read_file raw = (if starts_with (trim_start raw) ''{'' then Some raw else read_file raw)"

definition env_or_default :: "(string \<Rightarrow> string option) \<Rightarrow> string \<Rightarrow> string" where
  "env_or_default env name = (case env name of Some v \<Rightarrow> v | None \<Rightarrow> '''')"

definition oidc_config_from_env :: "('jwks, 'jwk, 'key) jwt \<Rightarrow> (string \<Rightarrow> string option) \<Rightarrow> (string \<Rightarrow> string option) \<Rightarrow> 'jwks OidcConfig option" where
  "oidc_config_from_env j env read_file =
     (case env_nonempty env ''TOKENFUSE_CLOUD_OIDC_ISSUER'' of None \<Rightarrow> None | Some issuer \<Rightarrow>
      case env_nonempty env ''TOKENFUSE_CLOUD_OIDC_AUDIENCE'' of None \<Rightarrow> None | Some audience \<Rightarrow>
      case env_nonempty env ''TOKENFUSE_CLOUD_OIDC_JWKS'' of None \<Rightarrow> None | Some raw \<Rightarrow>
      case load_jwks read_file raw of None \<Rightarrow> None | Some jwks_json \<Rightarrow>
        oidc_config_new j issuer audience jwks_json (env_or_default env ''TOKENFUSE_CLOUD_OIDC_ORG_CLAIM'')
          (env_or_default env ''TOKENFUSE_CLOUD_OIDC_ROLES_CLAIM'') (env_or_default env ''TOKENFUSE_CLOUD_OIDC_ADMIN_ROLE''))"

definition claim_string :: "Claims \<Rightarrow> string \<Rightarrow> string option" where
  "claim_string c k = (case cl_extra c k of Some (JString s) \<Rightarrow> if s = [] then None else Some s | _ \<Rightarrow> None)"

definition has_role :: "Claims \<Rightarrow> string \<Rightarrow> string \<Rightarrow> bool" where
  "has_role c k role =
     (case cl_extra c k of
        Some (JArray items) \<Rightarrow> list_ex (\<lambda>v. as_str v = Some role) items
      | Some (JString s) \<Rightarrow> role \<in> set (split_whitespace s)
      | _ \<Rightarrow> False)"

record Verified =
  vf_principal :: Principal
  vf_actor :: string

text \<open>The algorithms a key may have signed with, by its type alone.\<close>
definition jwk_algorithms :: "jwk_params \<Rightarrow> Algorithm list option" where
  "jwk_algorithms p = (case p of RsaParams \<Rightarrow> Some [RS256, RS384, RS512] | EcParams \<Rightarrow> Some [ES256, ES384] | _ \<Rightarrow> None)"

definition oidc_validation :: "'jwks OidcConfig \<Rightarrow> Algorithm list \<Rightarrow> Validation" where
  "oidc_validation cfg algs =
     \<lparr> va_algorithms = algs, va_validate_exp = True, va_required = [''exp'', ''iss'', ''aud''],
       va_issuer = [oc_issuer cfg], va_audience = [oc_audience cfg] \<rparr>"

definition oidc_verified :: "'jwks OidcConfig \<Rightarrow> Claims \<Rightarrow> Verified option" where
  "oidc_verified cfg c =
     (case claim_string c (oc_org_claim cfg) of None \<Rightarrow> None
      | Some org \<Rightarrow>
          let role = (if has_role c (oc_roles_claim cfg) (oc_admin_role cfg) then ''admin'' else ''viewer'');
              subj = (if cl_sub c = [] then org else cl_sub c)
          in Some \<lparr> vf_principal = \<lparr> p_org = org, p_role = role \<rparr>, vf_actor = ''oidc:'' @ subj \<rparr>)"

definition oidc_verify :: "('jwks, 'jwk, 'key) jwt \<Rightarrow> 'jwks OidcConfig \<Rightarrow> string \<Rightarrow> Verified option" where
  "oidc_verify j cfg token =
     (case decode_header j token of None \<Rightarrow> None | Some None \<Rightarrow> None | Some (Some kid) \<Rightarrow>
      case jwks_find j (oc_jwks cfg) kid of None \<Rightarrow> None | Some jwk \<Rightarrow>
      case jwk_algorithms (jwk_algorithm j jwk) of None \<Rightarrow> None | Some algs \<Rightarrow>
      case decoding_key j jwk of None \<Rightarrow> None | Some key \<Rightarrow>
      case jwt_decode j token key (oidc_validation cfg algs) of None \<Rightarrow> None | Some c \<Rightarrow> oidc_verified cfg c)"

definition verify_id_token :: "('jwks, 'jwk, 'key) jwt \<Rightarrow> 'jwks OidcConfig \<Rightarrow> string \<Rightarrow> Principal option" where
  "verify_id_token j cfg token = map_option vf_principal (oidc_verify j cfg token)"

section \<open>Authorization\<close>

text \<open>The bearer token, with or without the \<open>Bearer\<close> prefix.\<close>
definition bearer :: "HeaderMap \<Rightarrow> string option" where
  "bearer h =
     (case header_str h ''authorization'' of None \<Rightarrow> None
      | Some raw \<Rightarrow>
          let token = trim (case strip_prefix ''Bearer '' raw of Some t \<Rightarrow> t | None \<Rightarrow> raw)
          in if token = [] then None else Some token)"

definition key_actor :: "(string \<Rightarrow> string) \<Rightarrow> string \<Rightarrow> string" where
  "key_actor sha token = ''key:'' @ hex_lower (take 6 (sha token))"

datatype AuthError = Unauthorized | Forbidden | SignatureInvalid

record Mutator =
  mu_org :: string
  mu_actor :: string

text \<open>The configuration an \<open>AppState\<close> carries beside its store.\<close>
record ('jwks, 'sk) CloudApp =
  ca_keys :: KeyMap
  ca_alert_pct :: f64
  ca_oidc :: "'jwks OidcConfig option"
  ca_signing_key :: "'sk option"
  ca_replay_path :: "string option"

definition cloud_app_new :: "KeyMap \<Rightarrow> f64 \<Rightarrow> ('jwks, 'sk) CloudApp" where
  "cloud_app_new ks pct = \<lparr> ca_keys = ks, ca_alert_pct = pct, ca_oidc = None, ca_signing_key = None, ca_replay_path = None \<rparr>"

definition with_oidc :: "'jwks OidcConfig option \<Rightarrow> ('jwks, 'sk) CloudApp \<Rightarrow> ('jwks, 'sk) CloudApp" where
  "with_oidc cfg a = a\<lparr>ca_oidc := cfg\<rparr>"

definition with_audit_signing_key :: "'sk option \<Rightarrow> ('jwks, 'sk) CloudApp \<Rightarrow> ('jwks, 'sk) CloudApp" where
  "with_audit_signing_key key a = a\<lparr>ca_signing_key := key\<rparr>"

definition with_replay_events_path :: "string option \<Rightarrow> ('jwks, 'sk) CloudApp \<Rightarrow> ('jwks, 'sk) CloudApp" where
  "with_replay_events_path path a = a\<lparr>ca_replay_path := (case path of Some p \<Rightarrow> if p = [] then None else Some p | None \<Rightarrow> None)\<rparr>"

definition oidc_principal :: "('jwks, 'jwk, 'key) jwt \<Rightarrow> ('jwks, 'sk) CloudApp \<Rightarrow> HeaderMap \<Rightarrow> Principal option" where
  "oidc_principal j a h =
     (case ca_oidc a of None \<Rightarrow> None
      | Some cfg \<Rightarrow> (case bearer h of None \<Rightarrow> None | Some token \<Rightarrow> verify_id_token j cfg token))"

definition principal_for :: "('jwks, 'sk) CloudApp \<Rightarrow> HeaderMap \<Rightarrow> Principal option" where
  "principal_for a h = (case bearer h of None \<Rightarrow> None | Some token \<Rightarrow> map_of (ca_keys a) token)"

definition org_for :: "('jwks, 'jwk, 'key) jwt \<Rightarrow> ('jwks, 'sk) CloudApp \<Rightarrow> HeaderMap \<Rightarrow> Inner \<Rightarrow> string option" where
  "org_for j a h i =
     (case bearer h of None \<Rightarrow> None
      | Some token \<Rightarrow>
          (case map_of (ca_keys a) token of
             Some p \<Rightarrow> Some (p_org p)
           | None \<Rightarrow>
               (case device_by_token i token of
                  Some d \<Rightarrow> Some (dev_org d)
                | None \<Rightarrow> map_option p_org (oidc_principal j a h))))"

definition admin_org_key :: "('jwks, 'sk) CloudApp \<Rightarrow> HeaderMap \<Rightarrow> (AuthError, string) result" where
  "admin_org_key a h =
     (case principal_for a h of
        None \<Rightarrow> Inl Unauthorized
      | Some p \<Rightarrow> if p_role p \<noteq> ''admin'' then Inl Forbidden else Inr (p_org p))"

text \<open>\<open>(now - ts).abs() > 120\<close> on \<open>i64\<close>.\<close>
definition stale :: "i64 \<Rightarrow> i64 \<Rightarrow> bool" where
  "stale now t \<longleftrightarrow> 120 < wrap_i64 \<bar>wrap_i64 (now - t)\<bar>"

text \<open>The checks of a device signature before the nonce is spent: the device and the nonce.\<close>
definition signed_device ::
    "(string \<Rightarrow> string) \<Rightarrow> ('vk, 'sg) ecdsa \<Rightarrow> i64 \<Rightarrow> string \<Rightarrow> string \<Rightarrow> string \<Rightarrow> HeaderMap \<Rightarrow> Inner \<Rightarrow> (AuthError, Device \<times> string) result" where
  "signed_device sha ec now meth path body h i =
     (case bearer h of None \<Rightarrow> Inl Unauthorized | Some token \<Rightarrow>
      case device_by_token i token of None \<Rightarrow> Inl Unauthorized | Some d \<Rightarrow>
      case header_str h ''x-fuse-device'' of None \<Rightarrow> Inl SignatureInvalid | Some dev_hdr \<Rightarrow>
      if dev_hdr \<noteq> dev_id d then Inl SignatureInvalid else
      case header_str h ''x-fuse-ts'' of None \<Rightarrow> Inl SignatureInvalid | Some t \<Rightarrow>
      case header_str h ''x-fuse-nonce'' of None \<Rightarrow> Inl SignatureInvalid | Some nonce \<Rightarrow>
      case header_str h ''x-fuse-sig'' of None \<Rightarrow> Inl SignatureInvalid | Some sg \<Rightarrow>
      case parse_i64 t of None \<Rightarrow> Inl SignatureInvalid | Some t_num \<Rightarrow>
      if stale now t_num then Inl SignatureInvalid
      else if \<not> verify_signature ec (dev_pubkey d) (canonical_string sha meth path body t nonce) sg then Inl SignatureInvalid
      else Inr (d, nonce))"

definition verify_device_signature ::
    "(string \<Rightarrow> string) \<Rightarrow> ('vk, 'sg) ecdsa \<Rightarrow> i64 \<Rightarrow> string \<Rightarrow> string \<Rightarrow> string \<Rightarrow> HeaderMap \<Rightarrow> Inner \<Rightarrow> (AuthError, Device) result \<times> Inner" where
  "verify_device_signature sha ec now meth path body h i =
     (case signed_device sha ec now meth path body h i of
        Inl e \<Rightarrow> (Inl e, i)
      | Inr (d, nonce) \<Rightarrow>
          (case check_and_record_nonce (dev_id d) nonce i of (fresh, i) \<Rightarrow>
             if fresh then (Inr d, i) else (Inl SignatureInvalid, i)))"

text \<open>\<open>authorize_device\<close> is the same check, for a device managing its own state.\<close>
definition authorize_device where
  "authorize_device = verify_device_signature"

definition authorize_mutation ::
    "(string \<Rightarrow> string) \<Rightarrow> ('vk, 'sg) ecdsa \<Rightarrow> ('jwks, 'jwk, 'key) jwt \<Rightarrow> ('jwks, 'sk) CloudApp \<Rightarrow> i64 \<Rightarrow> string \<Rightarrow> string \<Rightarrow> string
     \<Rightarrow> HeaderMap \<Rightarrow> Inner \<Rightarrow> (AuthError, Mutator) result \<times> Inner" where
  "authorize_mutation sha ec j a now meth path body h i =
     (case bearer h of None \<Rightarrow> (Inl Unauthorized, i)
      | Some token \<Rightarrow>
          (case map_of (ca_keys a) token of
             Some p \<Rightarrow> if p_role p \<noteq> ''admin'' then (Inl Forbidden, i)
                       else (Inr \<lparr> mu_org = p_org p, mu_actor = key_actor sha token \<rparr>, i)
           | None \<Rightarrow>
               (case Option.bind (ca_oidc a) (\<lambda>cfg. oidc_verify j cfg token) of
                  Some v \<Rightarrow> if p_role (vf_principal v) \<noteq> ''admin'' then (Inl Forbidden, i)
                            else (Inr \<lparr> mu_org = p_org (vf_principal v), mu_actor = vf_actor v \<rparr>, i)
                | None \<Rightarrow>
                    (case verify_device_signature sha ec now meth path body h i of
                       (Inl e, i) \<Rightarrow> (Inl e, i)
                     | (Inr d, i) \<Rightarrow> if dev_role d \<noteq> ''admin'' then (Inl Forbidden, i)
                                     else (Inr \<lparr> mu_org = dev_org d, mu_actor = ''device:'' @ dev_id d \<rparr>, i)))))"

end
