(* ===== verification/CloudReports.thy ===== *)
theory CloudReports
  imports CloudAuth Compliance
begin

text \<open>
  The reports of the control plane that are computed from its state: the regulator
  evidence pack of \<open>crates/cloud/src/http.rs\<close>, the signed audit manifest
  (\<open>audit_sign.rs\<close>) and the replay of one run (\<open>replay.rs\<close>), with what an \<open>Enforced\<close>
  grade of the pack rests on.  P-256, base64, the JSON parser and the file are parameters.
\<close>

section \<open>The evidence pack\<close>

datatype EvidenceStatus = StEnforced | StPartial | StDocumented

record EvidenceControl =
  ec_control :: string
  ec_status :: EvidenceStatus
  ec_evidence :: string

record EvidencePackResponse =
  ep_generated_note :: string
  ep_org :: string
  ep_eu_ai_act :: "EvidenceControl list"
  ep_sr_11_7 :: "EvidenceControl list"
  ep_soc2 :: "EvidenceControl list"
  ep_chain_verified :: bool
  ep_break_index :: "usize option"
  ep_audit_entries :: u64
  ep_decisions_total :: u64
  ep_incidents_total :: u64

definition evidence_status :: "ControlEvidence \<Rightarrow> EvidenceStatus" where
  "evidence_status ce =
     (case ce_enforcement ce of
        Documented \<Rightarrow> StDocumented
      | Partial \<Rightarrow> StPartial
      | Enforced \<Rightarrow> if evidence_seen ce then StEnforced else StDocumented)"

definition count_bit :: "string \<times> u64 \<Rightarrow> string" where
  "count_bit kv = fst kv @ ''='' @ nat_str (snd kv)"

definition control_evidence_text :: "ControlEvidence \<Rightarrow> string" where
  "control_evidence_text ce =
     (let bits = map count_bit (ce_decision_counts ce @ ce_finding_counts ce);
          bits = (if 0 < ce_incident_count ce then bits @ [''incidents='' @ nat_str (ce_incident_count ce)] else bits)
      in if bits = [] then ''no watched signal for this org yet'' else join '', '' bits)"

text \<open>The index of the realized evidence by control id; a repeated id keeps its last entry.\<close>
definition evidence_by_id :: "ComplianceReport \<Rightarrow> string \<Rightarrow> ControlEvidence option" where
  "evidence_by_id r = map_of (rev (map (\<lambda>c. (ce_control_id c, c)) (cr_controls r)))"

definition catalog_entry :: "ControlMapping \<Rightarrow> (string \<Rightarrow> ControlEvidence option) \<Rightarrow> string \<times> string \<Rightarrow> EvidenceControl option" where
  "catalog_entry c ev fw =
     (case ev (control_id c) of
        None \<Rightarrow> None
      | Some ce \<Rightarrow> Some \<lparr> ec_control = control_id c @ '' ('' @ cm_title c @ '') - '' @ snd fw, ec_status = evidence_status ce,
                        ec_evidence = control_evidence_text ce \<rparr>)"

definition catalog_section :: "string \<Rightarrow> (string \<Rightarrow> ControlEvidence option) \<Rightarrow> EvidenceControl list" where
  "catalog_section framework_id ev =
     concat (map (\<lambda>c. if control_id c = ''TF.AUDIT'' then []
                      else List.map_filter (\<lambda>fw. if fst fw \<noteq> framework_id then None else catalog_entry c ev fw) (frameworks c)) CATALOG)"

definition audit_chain_status :: "usize \<Rightarrow> (nat, unit) result \<Rightarrow> EvidenceStatus \<times> string" where
  "audit_chain_status entries verify =
     (case verify of
        Inr _ \<Rightarrow> if 0 < entries then (StEnforced, ''audit chain verifies intact over '' @ nat_str entries @ '' entries'')
                 else (StDocumented, ''audit chain configured; no mutations recorded yet'')
      | Inl k \<Rightarrow> (StPartial, ''audit chain verification FAILED at entry '' @ nat_str k @ '' of '' @ nat_str entries @ ''; integrity compromised''))"

definition audit_control :: "string \<Rightarrow> EvidenceStatus \<Rightarrow> string \<Rightarrow> EvidenceControl" where
  "audit_control citation status evidence =
     \<lparr> ec_control = ''TF.AUDIT (Tamper-evident audit trail) - '' @ citation, ec_status = status, ec_evidence = evidence \<rparr>"

definition model_use_controls :: "counts \<Rightarrow> EvidenceControl" where
  "model_use_controls dc =
     (let watched = [''budget_exceeded'', ''loop_detected'', ''killed'']
      in \<lparr> ec_control = ''SR 11-7 Model Development, Implementation, and Use - runtime spend/behavior limits (budget breaker, loop breaker, kill-switch)'',
           ec_status = (if list_ex (\<lambda>k. 0 < count_of dc k) watched then StEnforced else StDocumented),
           ec_evidence = join '', '' (map (\<lambda>k. count_bit (k, count_of dc k)) watched) \<rparr>)"

definition ongoing_monitoring :: "counts \<Rightarrow> EvidenceControl" where
  "ongoing_monitoring ic =
     (let bits = map count_bit ic
      in \<lparr> ec_control = ''SR 11-7 Model Validation - ongoing performance/anomaly monitoring (cloud incident detectors)'',
           ec_status = (if 0 < sum_counts ic then StEnforced else StDocumented),
           ec_evidence = (if bits = [] then ''no incidents recorded for this org yet'' else join '', '' bits) \<rparr>)"

definition live_compliance :: "Inner \<Rightarrow> string \<Rightarrow> ComplianceReport" where
  "live_compliance i org = compute_compliance_from_counts CATALOG (store_decision_counts i org) [] (incident_kind_counts i org)"

definition evidence_pack :: "(string \<Rightarrow> string) \<Rightarrow> Inner \<Rightarrow> string \<Rightarrow> EvidencePackResponse" where
  "evidence_pack sha i org =
     (let dc = store_decision_counts i org; ic = incident_kind_counts i org;
          ev = evidence_by_id (live_compliance i org);
          entries = length (store_audit i org);
          verify = audit_verify sha i org;
          st = fst (audit_chain_status entries verify);
          tx = snd (audit_chain_status entries verify)
      in \<lparr> ep_generated_note = DISCLAIMER, ep_org = org,
           ep_eu_ai_act = catalog_section ''EU-AI-ACT'' ev @ [audit_control ''Art. 12 (Record-keeping)'' st tx],
           ep_sr_11_7 = [model_use_controls dc, ongoing_monitoring ic, audit_control ''Governance, Policies, and Controls'' st tx],
           ep_soc2 = catalog_section ''SOC2'' ev @ [audit_control ''CC7.2 (System Monitoring)'' st tx],
           ep_chain_verified = (case verify of Inr _ \<Rightarrow> True | Inl _ \<Rightarrow> False),
           ep_break_index = (case verify of Inr _ \<Rightarrow> None | Inl k \<Rightarrow> Some k),
           ep_audit_entries = entries, ep_decisions_total = sum_counts dc, ep_incidents_total = sum_counts ic \<rparr>)"

section \<open>The signed manifest\<close>

record AuditManifest =
  am_org :: string
  am_tip_seq :: u64
  am_tip_hash :: string
  am_entry_count :: u64
  am_signed_at :: i64
  am_algorithm :: string
  am_signature :: string
  am_public_key :: string

text \<open>The signing half of P-256, its key formats, and base64.\<close>
record 'sk p256 =
  pkcs8_pem :: "string \<Rightarrow> 'sk option"
  sec1_pem :: "string \<Rightarrow> 'sk option"
  raw_scalar :: "string \<Rightarrow> 'sk option"
  pkcs8_der :: "string \<Rightarrow> 'sk option"
  sec1_der :: "string \<Rightarrow> 'sk option"
  p256_sign :: "'sk \<Rightarrow> string \<Rightarrow> string"
  p256_point :: "'sk \<Rightarrow> string"
  b64_enc :: "string \<Rightarrow> string"
  b64_dec :: "string \<Rightarrow> string option"

definition first_some :: "'a option \<Rightarrow> 'a option \<Rightarrow> 'a option" where
  "first_some a b = (case a of Some x \<Rightarrow> Some x | None \<Rightarrow> b)"

definition parse_signing_key :: "'sk p256 \<Rightarrow> string \<Rightarrow> 'sk option" where
  "parse_signing_key p s =
     (if s = [] then None
      else if str_contains s ''-----BEGIN'' then first_some (pkcs8_pem p s) (sec1_pem p s)
      else case b64_dec p s of
             None \<Rightarrow> None
           | Some b \<Rightarrow> first_some (if length b = 32 then raw_scalar p b else None) (first_some (pkcs8_der p b) (sec1_der p b)))"

definition signing_key_from_env :: "'sk p256 \<Rightarrow> (string \<Rightarrow> string option) \<Rightarrow> 'sk option" where
  "signing_key_from_env p env =
     (case env ''TOKENFUSE_CLOUD_AUDIT_SIGNING_KEY'' of None \<Rightarrow> None | Some raw \<Rightarrow> parse_signing_key p (trim raw))"

definition build_signed_manifest :: "'sk p256 \<Rightarrow> string \<Rightarrow> AuditEntry list \<Rightarrow> 'sk \<Rightarrow> i64 \<Rightarrow> AuditManifest" where
  "build_signed_manifest p org entries key now =
     (let (tip_seq, tip_hash, entry_count) =
            (case opt_last None entries of Some e \<Rightarrow> (seq e, entry_hash e, length entries) | None \<Rightarrow> (0, [], 0))
      in \<lparr> am_org = org, am_tip_seq = tip_seq, am_tip_hash = tip_hash, am_entry_count = entry_count, am_signed_at = now,
           am_algorithm = ''ES256'',
           am_signature = b64_enc p (p256_sign p key (manifest_signing_bytes org tip_seq tip_hash entry_count now)),
           am_public_key = b64_enc p (p256_point p key) \<rparr>)"

definition store_audit_manifest :: "'sk p256 \<Rightarrow> Inner \<Rightarrow> string \<Rightarrow> 'sk \<Rightarrow> i64 \<Rightarrow> AuditManifest" where
  "store_audit_manifest p i org key now = build_signed_manifest p org (org_get [] (audit_chains i) org) key now"

section \<open>Replay\<close>

record ReplayEvent =
  re_schema :: string
  re_ts :: string
  re_source :: string
  re_kind :: string
  re_severity :: "string option"
  re_agent_id :: string
  re_run_id :: "string option"
  re_on_behalf_of :: "string list option"
  re_data :: "json option"
  re_prev_hash :: "string option"

text \<open>One line of the export: \<open>None\<close> is a line that could not be read as text.\<close>
definition replay_line :: "(string \<Rightarrow> ReplayEvent option) \<Rightarrow> string \<Rightarrow> string option \<Rightarrow> ReplayEvent list \<times> usize \<Rightarrow> ReplayEvent list \<times> usize" where
  "replay_line parse run line s =
     (case s of (evs, malformed) \<Rightarrow>
       (case line of
          None \<Rightarrow> (evs, malformed + 1)
        | Some l \<Rightarrow>
            if trim l = [] then (evs, malformed)
            else (case parse l of
                    Some ev \<Rightarrow> if re_run_id ev = Some run then (evs @ [ev], malformed) else (evs, malformed)
                  | None \<Rightarrow> (evs, malformed + 1))))"

text \<open>The lines of the opened file, \<open>None\<close> when it cannot be opened.\<close>
definition read_run_events :: "(string \<Rightarrow> ReplayEvent option) \<Rightarrow> string option list option \<Rightarrow> string \<Rightarrow> ReplayEvent list \<times> usize" where
  "read_run_events parse content run =
     (case content of
        None \<Rightarrow> ([], 0)
      | Some ls \<Rightarrow> (case fold (replay_line parse run) ls ([], 0) of (evs, malformed) \<Rightarrow> (sort_key re_ts evs, malformed)))"

record ReplayResponse =
  rr_run_id :: string
  rr_configured :: bool
  rr_events :: "ReplayEvent list"
  rr_event_count :: usize
  rr_malformed :: usize
  rr_incidents :: "Incident list"
  rr_audit :: "AuditEntry list"

section \<open>The evidence pack is backed\<close>

text \<open>
  The regulator evidence pack claims nothing the organization's own records do not
  show: every entry graded \<open>Enforced\<close> is backed by a recorded decision, incident or
  verified audit chain.
\<close>

lemma sum_list_pos: "0 < sum_list (xs :: nat list) \<longleftrightarrow> (\<exists>x\<in>set xs. 0 < x)"
  by (induction xs) auto

lemma wrap_u64_pos: "0 < wrap_u64 n \<Longrightarrow> 0 < n"
  by (auto simp: wrap_u64_def intro: ccontr)

lemma sum_counts_pos: "0 < sum_counts m \<Longrightarrow> \<exists>kv\<in>set m. 0 < snd kv"
  using wrap_u64_pos [of "sum_list (map snd m)"] by (auto simp: sum_counts_def sum_list_pos)

lemma watched_pos:
  assumes "0 < sum_counts (watched_counts ks m)"
  shows "\<exists>k\<in>set ks. 0 < count_of m k"
proof -
  have "0 < (\<Sum>k\<in>set ks. count_of m k)" using assms wrap_u64_pos by (simp add: sum_counts_def watched_sum)
  then show ?thesis by (metis less_not_refl2 sum.not_neutral_contains_not_neutral neq0_conv)
qed

text \<open>What this organization has on record for a control.\<close>
definition on_record :: "Inner \<Rightarrow> string \<Rightarrow> ControlMapping \<Rightarrow> bool" where
  "on_record i org c \<longleftrightarrow>
     list_ex (\<lambda>d. 0 < count_of (store_decision_counts i org) d) (evidence_decisions c)
     \<or> list_ex (\<lambda>k. 0 < count_of (incident_kind_counts i org) k) (evidence_incident_kinds c)"

lemma seen_on_record: "evidence_seen (control_evidence (store_decision_counts i org) [] (incident_kind_counts i org) c) \<Longrightarrow> on_record i org c"
proof -
  assume seen: "evidence_seen (control_evidence (store_decision_counts i org) [] (incident_kind_counts i org) c)"
  have "\<not> 0 < sum_counts (watched_counts ks [])" for ks
    using watched_pos [of ks "[]"] by (auto simp: count_of_def)
  moreover have "\<exists>k\<in>set ks. 0 < count_of m k" if "0 < wrap_u64 (sum_list (map (count_of m) ks))" for ks m
    using wrap_u64_pos [OF that] by (auto simp: sum_list_pos)
  ultimately show ?thesis using seen watched_pos
    by (fastforce simp: control_evidence_def Let_def on_record_def list_ex_iff)
qed

text \<open>An entry's grade is backed by the records.\<close>
definition backed :: "(string \<Rightarrow> string) \<Rightarrow> Inner \<Rightarrow> string \<Rightarrow> EvidenceControl \<Rightarrow> bool" where
  "backed sha i org e \<longleftrightarrow>
     list_ex (\<lambda>c. list_ex (\<lambda>fw. ec_control e = control_id c @ '' ('' @ cm_title c @ '') - '' @ snd fw) (frameworks c)
                  \<and> cm_enforcement c = Enforced \<and> on_record i org c) CATALOG
     \<or> (e = model_use_controls (store_decision_counts i org)
         \<and> list_ex (\<lambda>k. 0 < count_of (store_decision_counts i org) k) [''budget_exceeded'', ''loop_detected'', ''killed''])
     \<or> (e = ongoing_monitoring (incident_kind_counts i org) \<and> list_ex (\<lambda>kv. 0 < snd kv) (incident_kind_counts i org))
     \<or> (ec_evidence e = snd (audit_chain_status (length (store_audit i org)) (audit_verify sha i org))
         \<and> store_audit i org \<noteq> [] \<and> audit_verify sha i org = Inr ())"

lemma catalog_ids: "distinct (map control_id CATALOG)"
  by (simp add: CATALOG_def catalog_defs)

lemma evidence_lookup:
  assumes "c \<in> set CATALOG"
  shows "evidence_by_id (live_compliance i org) (control_id c)
    = Some (control_evidence (store_decision_counts i org) [] (incident_kind_counts i org) c)"
proof -
  let ?ce = "control_evidence (store_decision_counts i org) [] (incident_kind_counts i org)"
  have id: "ce_control_id (?ce c) = control_id c" for c by (simp add: control_evidence_def Let_def)
  let ?kv = "map (\<lambda>c. (control_id c, ?ce c)) CATALOG"
  have "evidence_by_id (live_compliance i org) = map_of (rev ?kv)"
    by (simp add: evidence_by_id_def live_compliance_def compute_compliance_from_counts_def comp_def id)
  moreover have "distinct (map fst (rev ?kv))" using catalog_ids by (simp add: rev_map [symmetric] comp_def)
  moreover have "(control_id c, ?ce c) \<in> set (rev ?kv)" using assms by auto
  ultimately show ?thesis by simp
qed

lemma mem_section:
  assumes "e \<in> set (catalog_section fid (evidence_by_id (live_compliance i org)))" "ec_status e = StEnforced"
  shows "backed sha i org e"
proof -
  obtain c fw where c: "c \<in> set CATALOG" and fw: "fw \<in> set (frameworks c)"
    and e: "catalog_entry c (evidence_by_id (live_compliance i org)) fw = Some e"
    using assms(1) by (auto simp: catalog_section_def List.map_filter_def split: if_splits)
  let ?ce = "control_evidence (store_decision_counts i org) [] (incident_kind_counts i org) c"
  have e: "ec_control e = control_id c @ '' ('' @ cm_title c @ '') - '' @ snd fw" "ec_status e = evidence_status ?ce"
    using e by (auto simp: catalog_entry_def evidence_lookup [OF c])
  have "ce_enforcement ?ce = cm_enforcement c" by (simp add: control_evidence_def Let_def)
  then have "cm_enforcement c = Enforced" "evidence_seen ?ce"
    using e(2) assms(2) by (auto simp: evidence_status_def split: Enforcement.splits if_splits)
  then show ?thesis using c fw e(1) seen_on_record [of i org c] by (auto simp: backed_def list_ex_iff)
qed

lemma audit_backed:
  assumes "ec_status (audit_control cit (fst s) (snd s)) = StEnforced"
    and "s = audit_chain_status (length (store_audit i org)) (audit_verify sha i org)"
  shows "backed sha i org (audit_control cit (fst s) (snd s))"
  using assms by (auto simp: backed_def audit_control_def audit_chain_status_def split: sum.splits if_splits)

lemma model_use_seen: "ec_status (model_use_controls dc) = StEnforced
    \<Longrightarrow> list_ex (\<lambda>k. 0 < count_of dc k) [''budget_exceeded'', ''loop_detected'', ''killed'']"
  unfolding model_use_controls_def Let_def EvidenceControl.select_convs by (metis EvidenceStatus.distinct(3))

lemma model_use_backed: "ec_status (model_use_controls (store_decision_counts i org)) = StEnforced
    \<Longrightarrow> backed sha i org (model_use_controls (store_decision_counts i org))"
  unfolding backed_def using model_use_seen by blast

lemma monitoring_seen: "ec_status (ongoing_monitoring ic) = StEnforced \<Longrightarrow> list_ex (\<lambda>kv. 0 < snd kv) ic"
  using sum_counts_pos [of ic] unfolding ongoing_monitoring_def Let_def EvidenceControl.select_convs list_ex_iff
  by (metis EvidenceStatus.distinct(3))

lemma monitoring_backed: "ec_status (ongoing_monitoring (incident_kind_counts i org)) = StEnforced
    \<Longrightarrow> backed sha i org (ongoing_monitoring (incident_kind_counts i org))"
  unfolding backed_def using monitoring_seen by blast

text \<open>C32: The regulator evidence pack overstates nothing: no entry of its three sections is graded
  \<open>Enforced\<close> without a record behind it, which is a decision or incident of a kind the cited
  control watches (and the control is an enforced one), one of the three run-stopping decisions for
  the model-use entry, an open incident for the monitoring entry, and for the audit entries a
  non-empty chain that verifies end to end.\<close>
theorem evidence_pack_honest:
  "filter (\<lambda>e. ec_status e = StEnforced \<and> \<not> backed sha i org e)
     (ep_eu_ai_act (evidence_pack sha i org) @ ep_sr_11_7 (evidence_pack sha i org) @ ep_soc2 (evidence_pack sha i org)) = []"
  using mem_section model_use_backed monitoring_backed audit_backed
  unfolding filter_empty_conv evidence_pack_def Let_def EvidencePackResponse.select_convs set_append Un_iff set_simps insert_iff by blast

end
