(* ===== verification/CloudHttp.thy ===== *)
theory CloudHttp
  imports CloudReports CloudGuards
begin

text \<open>
  The HTTP surface of the control plane (\<open>crates/cloud/src/http.rs\<close>): every handler,
  the routing table, and the CORS layer.  The axum router and its extractors, the
  serde parsers of the bodies, the cryptography, the clock and the random source
  are parameters; response bodies are kept as the typed values they serialize.
  Each call of the store is one transition under its lock, and a handler is the
  sequence of its calls.
\<close>

section \<open>Requests, responses and the environment\<close>

record HttpReq =
  rq_method :: string
  rq_path :: string
  rq_query :: string
  rq_headers :: HeaderMap
  rq_body :: string

text \<open>What the request reads from the machine: the two clocks and the random bytes.\<close>
record Moment =
  at_unix :: i64
  at_ms :: i64
  at_code :: string
  at_id :: string
  at_token :: string

record ExternalFinding =
  xf_detector :: string
  xf_identity :: string
  xf_severity :: string
  xf_time :: "string option"
  xf_summary :: string

record SeriesQuery =
  sq_run :: "string option"
  sq_window :: "string option"
  sq_step :: "string option"

record PairRequest =
  pq_code :: string
  pq_pubkey :: string
  pq_platform :: string
  pq_name :: string

datatype Body =
    EmptyBody
  | PlainText string
  | Dashboard
  | OpenApiDoc
  | ErrorResponse string
  | IngestResponse usize
  | RunsBody "RunAgg list"
  | AgentsBody "AgentAgg list"
  | UnitsBody "UnitAgg list"
  | SavingsBody SavingsSummary
  | SummaryBody Summary
  | AlertsBody "Alert list"
  | SeriesBody "SeriesBucket list"
  | SseBody string
  | KillResponse string
  | KillsBody "string list"
  | BudgetResponse string i64
  | BudgetsBody "(string, i64) fmap"
  | UnitBudgetResponse string i64
  | IncidentsBody "Incident list"
  | ExternalFindingsResponse usize
  | AckResponse string
  | ComplianceBody ComplianceReport
  | EvidenceBody EvidencePackResponse
  | AuditBody "AuditEntry list"
  | AuditVerifyResponse bool "usize option"
  | ManifestBody AuditManifest
  | ReplayBody ReplayResponse
  | PairNewResponse string i64
  | PairResponse string string string string
  | OkResponse bool

record HttpResp =
  rs_status :: nat
  rs_body :: Body
  rs_headers :: "(string \<times> string) list"

definition respond :: "nat \<Rightarrow> Body \<Rightarrow> HttpResp" where
  "respond status b = \<lparr> rs_status = status, rs_body = b, rs_headers = [] \<rparr>"

text \<open>The parsers serde derives for the bodies and the query strings; a query that is refused is \<open>None\<close>.\<close>
record cloud_serde =
  p_ingest :: "string \<Rightarrow> CloudCallRecord list option"
  p_budget :: "string \<Rightarrow> f64 option"
  p_findings :: "string \<Rightarrow> (string, ExternalFinding list) result"
  p_pair_new :: "string \<Rightarrow> string option option"
  p_pair :: "string \<Rightarrow> PairRequest option"
  p_apns :: "string \<Rightarrow> string option"
  p_activity :: "string \<Rightarrow> (string \<times> string) option"
  p_replay :: "string \<Rightarrow> ReplayEvent option"
  q_alert :: "string \<Rightarrow> f64 option option"
  q_series :: "string \<Rightarrow> SeriesQuery option"
  q_findings :: "string \<Rightarrow> string option option"
  debug_str :: "string \<Rightarrow> string"

record ('vk, 'sg, 'jwks, 'jwk, 'key, 'sk) cloud_env =
  en_serde :: serde
  en_parse :: cloud_serde
  en_ec :: "('vk, 'sg) ecdsa"
  en_jwt :: "('jwks, 'jwk, 'key) jwt"
  en_p256 :: "'sk p256"
  en_write :: "string \<Rightarrow> write_result"
  en_read :: "string \<Rightarrow> string option list option"
  en_match :: "string list \<Rightarrow> string \<Rightarrow> (string \<times> string option) option"

abbreviation en_sha :: "('vk, 'sg, 'jwks, 'jwk, 'key, 'sk) cloud_env \<Rightarrow> string \<Rightarrow> string" where
  "en_sha en \<equiv> sha256 (en_serde en)"

section \<open>Shared responses\<close>

definition http_error :: "nat \<Rightarrow> string \<Rightarrow> HttpResp" where
  "http_error status message = respond status (ErrorResponse message)"

definition unauthorized :: HttpResp where "unauthorized = http_error 401 ''invalid api key''"
definition forbidden :: HttpResp where "forbidden = http_error 403 ''admin role required''"
definition bad_json :: HttpResp where "bad_json = http_error 400 ''bad json''"

fun auth_response :: "AuthError \<Rightarrow> HttpResp" where
  "auth_response Unauthorized = unauthorized"
| "auth_response Forbidden = forbidden"
| "auth_response SignatureInvalid = http_error 403 ''signature_invalid''"

section \<open>Reads\<close>

text \<open>The guard every read endpoint opens with.\<close>
definition with_org :: "('vk, 'sg, 'jwks, 'jwk, 'key, 'sk) cloud_env \<Rightarrow> ('jwks, 'sk) CloudApp \<Rightarrow> HeaderMap \<Rightarrow> Inner \<Rightarrow> (string \<Rightarrow> HttpResp) \<Rightarrow> HttpResp" where
  "with_org en a h i f = (case org_for (en_jwt en) a h i of None \<Rightarrow> unauthorized | Some org \<Rightarrow> f org)"

definition MIN_SERIES_STEP_MS :: i64 where "MIN_SERIES_STEP_MS = 1000"
definition MAX_SERIES_WINDOW_MS :: i64 where "MAX_SERIES_WINDOW_MS = 2592000000"

definition duration_parts :: "string \<Rightarrow> string \<times> i64" where
  "duration_parts s =
     (case strip_suffix ''ms'' s of Some v \<Rightarrow> (v, 1) | None \<Rightarrow>
      case strip_suffix ''s'' s of Some v \<Rightarrow> (v, 1000) | None \<Rightarrow>
      case strip_suffix ''m'' s of Some v \<Rightarrow> (v, 60000) | None \<Rightarrow>
      case strip_suffix ''h'' s of Some v \<Rightarrow> (v, 3600000) | None \<Rightarrow> (s, 1000))"

definition parse_duration_ms :: "string option \<Rightarrow> i64 option" where
  "parse_duration_ms s =
     (case s of None \<Rightarrow> None
      | Some raw \<Rightarrow>
          let s = trim raw in
          if s = [] then None
          else (case duration_parts s of (num, unt) \<Rightarrow>
                 (case parse_i64 (trim num) of
                    Some n \<Rightarrow> if 0 < n then Some (wrap_i64 (n * unt)) else None
                  | None \<Rightarrow> None)))"

definition or_else :: "'a option \<Rightarrow> 'a \<Rightarrow> 'a" where
  "or_else x d = (case x of Some v \<Rightarrow> v | None \<Rightarrow> d)"

definition series_window :: "SeriesQuery \<Rightarrow> i64" where
  "series_window q = min (or_else (parse_duration_ms (sq_window q)) 3600000) MAX_SERIES_WINDOW_MS"

definition series_step :: "SeriesQuery \<Rightarrow> i64" where
  "series_step q = max (or_else (parse_duration_ms (sq_step q)) 60000) MIN_SERIES_STEP_MS"

text \<open>The alert threshold: the query's when it is in the half-open unit interval, else the server's.\<close>
definition alert_threshold :: "f64 \<Rightarrow> f64 option \<Rightarrow> f64" where
  "alert_threshold d q =
     (case q of Some p \<Rightarrow> if f64_ge p (Fin 0) \<and> p \<noteq> Fin 0 \<and> f64_ge (Fin 1) p then p else d | None \<Rightarrow> d)"

definition audit_verify_body :: "(nat, unit) result \<Rightarrow> Body" where
  "audit_verify_body r = (case r of Inr _ \<Rightarrow> AuditVerifyResponse True None | Inl k \<Rightarrow> AuditVerifyResponse False (Some k))"

definition replay_response :: "('vk, 'sg, 'jwks, 'jwk, 'key, 'sk) cloud_env \<Rightarrow> ('jwks, 'sk) CloudApp \<Rightarrow> Inner \<Rightarrow> string \<Rightarrow> string \<Rightarrow> ReplayResponse" where
  "replay_response en a i org run =
     (case (case ca_replay_path a of Some path \<Rightarrow> read_run_events (p_replay (en_parse en)) (en_read en path) run | None \<Rightarrow> ([], 0)) of
        (evs, malformed) \<Rightarrow>
          \<lparr> rr_run_id = run, rr_configured = (ca_replay_path a \<noteq> None), rr_events = evs, rr_event_count = length evs,
            rr_malformed = malformed, rr_incidents = filter (\<lambda>x. inc_run x = Some run) (store_incidents i org),
            rr_audit = filter (\<lambda>e. subject e = run) (store_audit i org) \<rparr>)"

datatype read_endpoint =
    EpRuns | EpAgents | EpUnits | EpSavings | EpSummary | EpAlerts | EpSeries | EpStream | EpKills | EpBudgets | EpUnitBudgets
  | EpIncidents | EpCompliance | EpEvidence | EpAudit | EpAuditVerify | EpManifest | EpReplay

definition http_runs :: "('vk, 'sg, 'jwks, 'jwk, 'key, 'sk) cloud_env \<Rightarrow> ('jwks, 'sk) CloudApp \<Rightarrow> HeaderMap \<Rightarrow> Inner \<Rightarrow> HttpResp" where
  "http_runs en a h i = with_org en a h i (\<lambda>org. respond 200 (RunsBody (store_runs i org)))"

definition http_agents :: "('vk, 'sg, 'jwks, 'jwk, 'key, 'sk) cloud_env \<Rightarrow> ('jwks, 'sk) CloudApp \<Rightarrow> HeaderMap \<Rightarrow> Inner \<Rightarrow> HttpResp" where
  "http_agents en a h i = with_org en a h i (\<lambda>org. respond 200 (AgentsBody (store_agents i org)))"

definition http_units :: "('vk, 'sg, 'jwks, 'jwk, 'key, 'sk) cloud_env \<Rightarrow> ('jwks, 'sk) CloudApp \<Rightarrow> Moment \<Rightarrow> HeaderMap \<Rightarrow> Inner \<Rightarrow> HttpResp" where
  "http_units en a mo h i = with_org en a h i (\<lambda>org. respond 200 (UnitsBody (store_units_at i org (at_ms mo))))"

definition http_savings :: "('vk, 'sg, 'jwks, 'jwk, 'key, 'sk) cloud_env \<Rightarrow> ('jwks, 'sk) CloudApp \<Rightarrow> HeaderMap \<Rightarrow> Inner \<Rightarrow> HttpResp" where
  "http_savings en a h i = with_org en a h i (\<lambda>org. respond 200 (SavingsBody (store_savings i org)))"

definition http_summary :: "('vk, 'sg, 'jwks, 'jwk, 'key, 'sk) cloud_env \<Rightarrow> ('jwks, 'sk) CloudApp \<Rightarrow> HeaderMap \<Rightarrow> Inner \<Rightarrow> HttpResp" where
  "http_summary en a h i = with_org en a h i (\<lambda>org. respond 200 (SummaryBody (store_summary i org)))"

definition http_kills :: "('vk, 'sg, 'jwks, 'jwk, 'key, 'sk) cloud_env \<Rightarrow> ('jwks, 'sk) CloudApp \<Rightarrow> HeaderMap \<Rightarrow> Inner \<Rightarrow> HttpResp" where
  "http_kills en a h i = with_org en a h i (\<lambda>org. respond 200 (KillsBody (kills i org)))"

definition http_budgets :: "('vk, 'sg, 'jwks, 'jwk, 'key, 'sk) cloud_env \<Rightarrow> ('jwks, 'sk) CloudApp \<Rightarrow> HeaderMap \<Rightarrow> Inner \<Rightarrow> HttpResp" where
  "http_budgets en a h i = with_org en a h i (\<lambda>org. respond 200 (BudgetsBody (store_budgets i org)))"

definition http_unit_budgets :: "('vk, 'sg, 'jwks, 'jwk, 'key, 'sk) cloud_env \<Rightarrow> ('jwks, 'sk) CloudApp \<Rightarrow> HeaderMap \<Rightarrow> Inner \<Rightarrow> HttpResp" where
  "http_unit_budgets en a h i = with_org en a h i (\<lambda>org. respond 200 (BudgetsBody (store_unit_budgets i org)))"

definition http_incidents :: "('vk, 'sg, 'jwks, 'jwk, 'key, 'sk) cloud_env \<Rightarrow> ('jwks, 'sk) CloudApp \<Rightarrow> HeaderMap \<Rightarrow> Inner \<Rightarrow> HttpResp" where
  "http_incidents en a h i = with_org en a h i (\<lambda>org. respond 200 (IncidentsBody (store_incidents i org)))"

definition http_compliance :: "('vk, 'sg, 'jwks, 'jwk, 'key, 'sk) cloud_env \<Rightarrow> ('jwks, 'sk) CloudApp \<Rightarrow> HeaderMap \<Rightarrow> Inner \<Rightarrow> HttpResp" where
  "http_compliance en a h i = with_org en a h i (\<lambda>org. respond 200 (ComplianceBody (live_compliance i org)))"

definition http_evidence :: "('vk, 'sg, 'jwks, 'jwk, 'key, 'sk) cloud_env \<Rightarrow> ('jwks, 'sk) CloudApp \<Rightarrow> HeaderMap \<Rightarrow> Inner \<Rightarrow> HttpResp" where
  "http_evidence en a h i = with_org en a h i (\<lambda>org. respond 200 (EvidenceBody (evidence_pack (en_sha en) i org)))"

definition http_audit :: "('vk, 'sg, 'jwks, 'jwk, 'key, 'sk) cloud_env \<Rightarrow> ('jwks, 'sk) CloudApp \<Rightarrow> HeaderMap \<Rightarrow> Inner \<Rightarrow> HttpResp" where
  "http_audit en a h i = with_org en a h i (\<lambda>org. respond 200 (AuditBody (store_audit i org)))"

definition http_audit_verify :: "('vk, 'sg, 'jwks, 'jwk, 'key, 'sk) cloud_env \<Rightarrow> ('jwks, 'sk) CloudApp \<Rightarrow> HeaderMap \<Rightarrow> Inner \<Rightarrow> HttpResp" where
  "http_audit_verify en a h i = with_org en a h i (\<lambda>org. respond 200 (audit_verify_body (audit_verify (en_sha en) i org)))"

definition http_stream :: "('vk, 'sg, 'jwks, 'jwk, 'key, 'sk) cloud_env \<Rightarrow> ('jwks, 'sk) CloudApp \<Rightarrow> HeaderMap \<Rightarrow> Inner \<Rightarrow> HttpResp" where
  "http_stream en a h i = with_org en a h i (\<lambda>org. respond 200 (SseBody org))"

definition http_manifest :: "('vk, 'sg, 'jwks, 'jwk, 'key, 'sk) cloud_env \<Rightarrow> ('jwks, 'sk) CloudApp \<Rightarrow> Moment \<Rightarrow> HeaderMap \<Rightarrow> Inner \<Rightarrow> HttpResp" where
  "http_manifest en a mo h i =
     with_org en a h i (\<lambda>org.
       (case ca_signing_key a of
          None \<Rightarrow> http_error 404 ''audit manifest signing not configured''
        | Some key \<Rightarrow> respond 200 (ManifestBody (store_audit_manifest (en_p256 en) i org key (at_ms mo)))))"

text \<open>A run of another organization is answered like an unknown one.\<close>
definition http_replay :: "('vk, 'sg, 'jwks, 'jwk, 'key, 'sk) cloud_env \<Rightarrow> ('jwks, 'sk) CloudApp \<Rightarrow> string \<Rightarrow> HeaderMap \<Rightarrow> Inner \<Rightarrow> HttpResp" where
  "http_replay en a run h i =
     with_org en a h i (\<lambda>org.
       (if \<not> run_belongs_to_org i org run then http_error 404 ''unknown run''
        else respond 200 (ReplayBody (replay_response en a i org run))))"

text \<open>The two handlers with a query: an extractor that refuses it answers 400 before the handler runs.\<close>
definition http_alerts :: "('vk, 'sg, 'jwks, 'jwk, 'key, 'sk) cloud_env \<Rightarrow> ('jwks, 'sk) CloudApp \<Rightarrow> string \<Rightarrow> HeaderMap \<Rightarrow> Inner \<Rightarrow> HttpResp" where
  "http_alerts en a query h i =
     (case q_alert (en_parse en) query of
        None \<Rightarrow> respond 400 EmptyBody
      | Some q \<Rightarrow> with_org en a h i (\<lambda>org. respond 200 (AlertsBody (store_alerts i org (alert_threshold (ca_alert_pct a) q)))))"

definition http_series :: "('vk, 'sg, 'jwks, 'jwk, 'key, 'sk) cloud_env \<Rightarrow> ('jwks, 'sk) CloudApp \<Rightarrow> Moment \<Rightarrow> string \<Rightarrow> HeaderMap \<Rightarrow> Inner \<Rightarrow> HttpResp" where
  "http_series en a mo query h i =
     (case q_series (en_parse en) query of
        None \<Rightarrow> respond 400 EmptyBody
      | Some q \<Rightarrow> with_org en a h i (\<lambda>org.
          respond 200 (SeriesBody (store_series i org (sq_run q) (series_window q) (series_step q) (at_ms mo)))))"

fun read_handler :: "('vk, 'sg, 'jwks, 'jwk, 'key, 'sk) cloud_env \<Rightarrow> ('jwks, 'sk) CloudApp \<Rightarrow> Moment \<Rightarrow> HttpReq \<Rightarrow> string \<Rightarrow> Inner \<Rightarrow> read_endpoint \<Rightarrow> HttpResp" where
  "read_handler en a mo rq pm i EpRuns = http_runs en a (rq_headers rq) i"
| "read_handler en a mo rq pm i EpAgents = http_agents en a (rq_headers rq) i"
| "read_handler en a mo rq pm i EpUnits = http_units en a mo (rq_headers rq) i"
| "read_handler en a mo rq pm i EpSavings = http_savings en a (rq_headers rq) i"
| "read_handler en a mo rq pm i EpSummary = http_summary en a (rq_headers rq) i"
| "read_handler en a mo rq pm i EpAlerts = http_alerts en a (rq_query rq) (rq_headers rq) i"
| "read_handler en a mo rq pm i EpSeries = http_series en a mo (rq_query rq) (rq_headers rq) i"
| "read_handler en a mo rq pm i EpStream = http_stream en a (rq_headers rq) i"
| "read_handler en a mo rq pm i EpKills = http_kills en a (rq_headers rq) i"
| "read_handler en a mo rq pm i EpBudgets = http_budgets en a (rq_headers rq) i"
| "read_handler en a mo rq pm i EpUnitBudgets = http_unit_budgets en a (rq_headers rq) i"
| "read_handler en a mo rq pm i EpIncidents = http_incidents en a (rq_headers rq) i"
| "read_handler en a mo rq pm i EpCompliance = http_compliance en a (rq_headers rq) i"
| "read_handler en a mo rq pm i EpEvidence = http_evidence en a (rq_headers rq) i"
| "read_handler en a mo rq pm i EpAudit = http_audit en a (rq_headers rq) i"
| "read_handler en a mo rq pm i EpAuditVerify = http_audit_verify en a (rq_headers rq) i"
| "read_handler en a mo rq pm i EpManifest = http_manifest en a mo (rq_headers rq) i"
| "read_handler en a mo rq pm i EpReplay = http_replay en a pm (rq_headers rq) i"

text \<open>What a stream of an organization delivers: \<open>None\<close> is the notice that the receiver lagged.\<close>
definition stream_events :: "string \<Rightarrow> StreamEvent option list \<Rightarrow> StreamEvent list" where
  "stream_events org evs = List.map_filter (\<lambda>e. case e of Some x \<Rightarrow> if event_org x = org then Some x else None | None \<Rightarrow> None) evs"

section \<open>Mutations\<close>

text \<open>\<open>authorize_mutation\<close> and \<open>authorize_device\<close> on the store behind its lock.\<close>
definition mutator :: "('vk, 'sg, 'jwks, 'jwk, 'key, 'sk) cloud_env \<Rightarrow> ('jwks, 'sk) CloudApp \<Rightarrow> Moment \<Rightarrow> HttpReq \<Rightarrow> string \<Rightarrow> Store \<Rightarrow> (AuthError, Mutator) result \<times> Store" where
  "mutator en a mo rq body st =
     (case authorize_mutation (en_sha en) (en_ec en) (en_jwt en) a (at_unix mo) ''POST'' (rq_path rq) body (rq_headers rq) (inner st) of
        (r, i) \<Rightarrow> (r, st\<lparr>inner := i\<rparr>))"

definition signer :: "('vk, 'sg, 'jwks, 'jwk, 'key, 'sk) cloud_env \<Rightarrow> Moment \<Rightarrow> HttpReq \<Rightarrow> Store \<Rightarrow> (AuthError, Device) result \<times> Store" where
  "signer en mo rq st =
     (case authorize_device (en_sha en) (en_ec en) (at_unix mo) ''POST'' (rq_path rq) (rq_body rq) (rq_headers rq) (inner st) of
        (r, i) \<Rightarrow> (r, st\<lparr>inner := i\<rparr>))"

text \<open>The opening of a mutation handler: an authorization failure is the answer.\<close>
definition with_mutator :: "('vk, 'sg, 'jwks, 'jwk, 'key, 'sk) cloud_env \<Rightarrow> ('jwks, 'sk) CloudApp \<Rightarrow> Moment \<Rightarrow> HttpReq \<Rightarrow> string \<Rightarrow> Store
    \<Rightarrow> (Mutator \<Rightarrow> Store \<Rightarrow> HttpResp \<times> Store) \<Rightarrow> HttpResp \<times> Store" where
  "with_mutator en a mo rq body st f =
     (case mutator en a mo rq body st of (Inl e, st) \<Rightarrow> (auth_response e, st) | (Inr m, st) \<Rightarrow> f m st)"

definition ingest :: "('vk, 'sg, 'jwks, 'jwk, 'key, 'sk) cloud_env \<Rightarrow> ('jwks, 'sk) CloudApp \<Rightarrow> Moment \<Rightarrow> HttpReq \<Rightarrow> Store \<Rightarrow> HttpResp \<times> Store" where
  "ingest en a mo rq st =
     (case org_for (en_jwt en) a (rq_headers rq) (inner st) of
        None \<Rightarrow> (unauthorized, st)
      | Some org \<Rightarrow>
          (case p_ingest (en_parse en) (rq_body rq) of
             None \<Rightarrow> (bad_json, st)
           | Some rs \<Rightarrow> (respond 200 (IngestResponse (length rs)), ingest_at (en_serde en) (en_write en) org rs (at_ms mo) st)))"

definition kill_handler :: "('vk, 'sg, 'jwks, 'jwk, 'key, 'sk) cloud_env \<Rightarrow> ('jwks, 'sk) CloudApp \<Rightarrow> Moment \<Rightarrow> HttpReq \<Rightarrow> string \<Rightarrow> Store \<Rightarrow> HttpResp \<times> Store" where
  "kill_handler en a mo rq run st =
     with_mutator en a mo rq [] st (\<lambda>m st.
       (respond 200 (KillResponse run), kill_audited (en_sha en) (at_ms mo) (mu_org m) run (mu_actor m) st))"

text \<open>\<open>(usd * 1e6) as i64\<close>.\<close>
definition usd_micros :: "f64 \<Rightarrow> i64" where
  "usd_micros usd = f64_to_i64 (f64_mul usd (Fin 1000000))"

definition set_budget_handler :: "('vk, 'sg, 'jwks, 'jwk, 'key, 'sk) cloud_env \<Rightarrow> ('jwks, 'sk) CloudApp \<Rightarrow> Moment \<Rightarrow> HttpReq \<Rightarrow> string \<Rightarrow> Store \<Rightarrow> HttpResp \<times> Store" where
  "set_budget_handler en a mo rq run st =
     with_mutator en a mo rq (rq_body rq) st (\<lambda>m st.
       (case p_budget (en_parse en) (rq_body rq) of
          None \<Rightarrow> (bad_json, st)
        | Some usd \<Rightarrow>
            (respond 200 (BudgetResponse run (usd_micros usd)),
             set_budget_audited (en_sha en) (at_ms mo) (mu_org m) run (usd_micros usd) (mu_actor m) st)))"

definition set_unit_budget_handler :: "('vk, 'sg, 'jwks, 'jwk, 'key, 'sk) cloud_env \<Rightarrow> ('jwks, 'sk) CloudApp \<Rightarrow> Moment \<Rightarrow> HttpReq \<Rightarrow> string \<Rightarrow> Store \<Rightarrow> HttpResp \<times> Store" where
  "set_unit_budget_handler en a mo rq unt st =
     with_mutator en a mo rq (rq_body rq) st (\<lambda>m st.
       (case p_budget (en_parse en) (rq_body rq) of
          None \<Rightarrow> (bad_json, st)
        | Some usd \<Rightarrow>
            (respond 200 (UnitBudgetResponse unt (usd_micros usd)),
             with_inner (set_unit_budget_audited (en_sha en) (at_ms mo) (mu_org m) unt (usd_micros usd) (mu_actor m)) st)))"

definition ack_handler :: "('vk, 'sg, 'jwks, 'jwk, 'key, 'sk) cloud_env \<Rightarrow> ('jwks, 'sk) CloudApp \<Rightarrow> Moment \<Rightarrow> HttpReq \<Rightarrow> string \<Rightarrow> Store \<Rightarrow> HttpResp \<times> Store" where
  "ack_handler en a mo rq iid st =
     with_mutator en a mo rq [] st (\<lambda>m st.
       (case ack_incident_audited (en_sha en) (at_ms mo) (mu_org m) iid (mu_actor m) (inner st) of (found, i) \<Rightarrow>
          (if found then respond 200 (AckResponse iid) else http_error 404 ''unknown incident'', st\<lparr>inner := i\<rparr>)))"

section \<open>External findings\<close>

definition source_char :: "char \<Rightarrow> bool" where
  "source_char c \<longleftrightarrow> (CHR ''a'' \<le> c \<and> c \<le> CHR ''z'') \<or> (CHR ''A'' \<le> c \<and> c \<le> CHR ''Z'') \<or> (CHR ''0'' \<le> c \<and> c \<le> CHR ''9'')
     \<or> c = CHR ''-'' \<or> c = CHR ''_'' \<or> c = CHR ''.''"

text \<open>The bytes of a non-ASCII character are dropped with it, so the filter works byte by byte.\<close>
definition sanitize_source :: "string option \<Rightarrow> string" where
  "sanitize_source raw =
     (let cleaned = take 32 (filter source_char (to_ascii_lowercase (trim (or_else raw ''external''))))
      in if cleaned = [] then ''external'' else cleaned)"

definition parse_severity :: "string \<Rightarrow> Severity option" where
  "parse_severity s =
     (let l = to_ascii_lowercase (trim s) in
      if l = ''info'' then Some SevInfo
      else if l = ''low'' then Some SevLow
      else if l = ''medium'' then Some SevMedium
      else if l = ''high'' then Some SevHigh
      else if l = ''critical'' then Some SevCritical
      else None)"

definition finding_input :: "string \<Rightarrow> ExternalFinding \<Rightarrow> Severity \<Rightarrow> i64 \<Rightarrow> FindingInput" where
  "finding_input src f sev now =
     \<lparr> f_source = src, f_detector = xf_detector f, f_severity = sev, f_subject = xf_identity f, f_summary = xf_summary f, f_ts = now \<rparr>"

text \<open>The loop: it stops at the first unknown severity, after recording what stands before it.\<close>
fun record_findings :: "(string \<Rightarrow> string) \<Rightarrow> i64 \<Rightarrow> string \<Rightarrow> string \<Rightarrow> string \<Rightarrow> ExternalFinding list \<Rightarrow> usize \<Rightarrow> Inner
    \<Rightarrow> (string, usize) result \<times> Inner" where
  "record_findings sha now org who src [] n i = (Inr n, i)"
| "record_findings sha now org who src (f # fs) n i =
     (case parse_severity (xf_severity f) of
        None \<Rightarrow> (Inl (xf_severity f), i)
      | Some sev \<Rightarrow>
          record_findings sha now org who src fs (n + 1)
            (snd (record_external_finding sha now org who (finding_input src f sev now) i)))"

definition external_findings :: "('vk, 'sg, 'jwks, 'jwk, 'key, 'sk) cloud_env \<Rightarrow> ('jwks, 'sk) CloudApp \<Rightarrow> Moment \<Rightarrow> HttpReq \<Rightarrow> Store \<Rightarrow> HttpResp \<times> Store" where
  "external_findings en a mo rq st =
     (case q_findings (en_parse en) (rq_query rq) of
        None \<Rightarrow> (respond 400 EmptyBody, st)
      | Some src \<Rightarrow>
          with_mutator en a mo rq (rq_body rq) st (\<lambda>m st.
            (case p_findings (en_parse en) (rq_body rq) of
               Inl e \<Rightarrow> (http_error 400 (''bad findings payload: '' @ e), st)
             | Inr fs \<Rightarrow>
                 (case record_findings (en_sha en) (at_ms mo) (mu_org m) (mu_actor m) (sanitize_source src) fs 0 (inner st) of (r, i) \<Rightarrow>
                    (case r of
                       Inl s \<Rightarrow> http_error 400 (''unknown severity '' @ debug_str (en_parse en) s)
                     | Inr n \<Rightarrow> respond 200 (ExternalFindingsResponse n),
                     st\<lparr>inner := i\<rparr>)))))"

section \<open>Pairing and devices\<close>

definition pair_role :: "('vk, 'sg, 'jwks, 'jwk, 'key, 'sk) cloud_env \<Rightarrow> string \<Rightarrow> string option" where
  "pair_role en body =
     (case p_pair_new (en_parse en) body of
        Some r \<Rightarrow> Some (or_else r ''admin'')
      | None \<Rightarrow> if body = [] then Some ''admin'' else None)"

definition pair_new :: "('vk, 'sg, 'jwks, 'jwk, 'key, 'sk) cloud_env \<Rightarrow> ('jwks, 'sk) CloudApp \<Rightarrow> Moment \<Rightarrow> HttpReq \<Rightarrow> Store \<Rightarrow> HttpResp \<times> Store" where
  "pair_new en a mo rq st =
     (case admin_org_key a (rq_headers rq) of
        Inl e \<Rightarrow> (auth_response e, st)
      | Inr org \<Rightarrow>
          (case pair_role en (rq_body rq) of
             None \<Rightarrow> (bad_json, st)
           | Some role \<Rightarrow>
               if role \<noteq> ''admin'' \<and> role \<noteq> ''viewer'' then (http_error 400 ''role must be admin or viewer'', st)
               else let code = pairing_code (at_code mo); expires = wrap_i64 (at_unix mo + 600)
                    in (respond 200 (PairNewResponse code expires), with_inner (create_pairing code org role expires) st)))"

definition pair_handler :: "('vk, 'sg, 'jwks, 'jwk, 'key, 'sk) cloud_env \<Rightarrow> Moment \<Rightarrow> HttpReq \<Rightarrow> Store \<Rightarrow> HttpResp \<times> Store" where
  "pair_handler en mo rq st =
     (case p_pair (en_parse en) (rq_body rq) of
        None \<Rightarrow> (bad_json, st)
      | Some q \<Rightarrow>
          let did = random_hex (at_id mo); token = random_hex (at_token mo)
          in case redeem_pairing_audited (en_sha en) (at_ms mo) (pq_code q) (at_unix mo) did token (pq_pubkey q) (pq_name q) (pq_platform q)
                    (inner st) of
               (Some d, i) \<Rightarrow> (respond 200 (PairResponse (dev_id d) (dev_org d) (dev_role d) token), st\<lparr>inner := i\<rparr>)
             | (None, i) \<Rightarrow> (http_error 400 ''invalid or expired pairing code'', st\<lparr>inner := i\<rparr>))"

text \<open>The opening the two device handlers share: the signature, and the signing device is the one of the path.\<close>
definition with_signer :: "('vk, 'sg, 'jwks, 'jwk, 'key, 'sk) cloud_env \<Rightarrow> Moment \<Rightarrow> HttpReq \<Rightarrow> string \<Rightarrow> Store
    \<Rightarrow> (Device \<Rightarrow> Store \<Rightarrow> HttpResp \<times> Store) \<Rightarrow> HttpResp \<times> Store" where
  "with_signer en mo rq did st f =
     (case signer en mo rq st of
        (Inl e, st) \<Rightarrow> (auth_response e, st)
      | (Inr d, st) \<Rightarrow> if dev_id d \<noteq> did then (http_error 403 ''signature_invalid'', st) else f d st)"

definition register_apns :: "('vk, 'sg, 'jwks, 'jwk, 'key, 'sk) cloud_env \<Rightarrow> Moment \<Rightarrow> HttpReq \<Rightarrow> string \<Rightarrow> Store \<Rightarrow> HttpResp \<times> Store" where
  "register_apns en mo rq did st =
     with_signer en mo rq did st (\<lambda>d st.
       (case p_apns (en_parse en) (rq_body rq) of
          None \<Rightarrow> (bad_json, st)
        | Some token \<Rightarrow>
            (case set_apns_token did token (inner st) of (found, i) \<Rightarrow>
               (if found then respond 200 (OkResponse True) else http_error 404 ''unknown device'', st\<lparr>inner := i\<rparr>))))"

definition register_activity_handler :: "('vk, 'sg, 'jwks, 'jwk, 'key, 'sk) cloud_env \<Rightarrow> Moment \<Rightarrow> HttpReq \<Rightarrow> string \<Rightarrow> Store \<Rightarrow> HttpResp \<times> Store" where
  "register_activity_handler en mo rq did st =
     with_signer en mo rq did st (\<lambda>d st.
       (case p_activity (en_parse en) (rq_body rq) of
          None \<Rightarrow> (bad_json, st)
        | Some (token, run) \<Rightarrow> (respond 200 (OkResponse True), with_inner (register_activity (dev_org d) run token) st)))"

section \<open>The router\<close>

datatype endpoint =
    EpDashboard | EpHealthz | EpOpenApi | EpIngest | EpRead read_endpoint | EpKill | EpSetBudget | EpSetUnitBudget | EpAck
  | EpFindings | EpPairNew | EpPair | EpApns | EpActivity

definition ROUTES :: "(string \<times> string \<times> endpoint) list" where
  "ROUTES =
    [(''/'', ''GET'', EpDashboard), (''/healthz'', ''GET'', EpHealthz), (''/openapi.json'', ''GET'', EpOpenApi),
     (''/v1/ingest'', ''POST'', EpIngest), (''/v1/runs'', ''GET'', EpRead EpRuns), (''/v1/agents'', ''GET'', EpRead EpAgents),
     (''/v1/units'', ''GET'', EpRead EpUnits), (''/v1/savings'', ''GET'', EpRead EpSavings),
     (''/v1/summary'', ''GET'', EpRead EpSummary), (''/v1/alerts'', ''GET'', EpRead EpAlerts),
     (''/v1/series'', ''GET'', EpRead EpSeries), (''/v1/stream'', ''GET'', EpRead EpStream),
     (''/v1/runs/{run}/kill'', ''POST'', EpKill), (''/v1/kills'', ''GET'', EpRead EpKills),
     (''/v1/runs/{run}/budget'', ''POST'', EpSetBudget), (''/v1/budgets'', ''GET'', EpRead EpBudgets),
     (''/v1/units/{id}/budget'', ''POST'', EpSetUnitBudget), (''/v1/unit-budgets'', ''GET'', EpRead EpUnitBudgets),
     (''/v1/incidents'', ''GET'', EpRead EpIncidents), (''/v1/incidents/{id}/ack'', ''POST'', EpAck),
     (''/v1/findings'', ''POST'', EpFindings), (''/v1/compliance'', ''GET'', EpRead EpCompliance),
     (''/v1/compliance/evidence'', ''GET'', EpRead EpEvidence), (''/v1/audit'', ''GET'', EpRead EpAudit),
     (''/v1/audit/verify'', ''GET'', EpRead EpAuditVerify), (''/v1/audit/manifest'', ''GET'', EpRead EpManifest),
     (''/v1/replay/{run}'', ''GET'', EpRead EpReplay), (''/v1/pair/new'', ''POST'', EpPairNew), (''/v1/pair'', ''POST'', EpPair),
     (''/v1/devices/{id}/apns'', ''POST'', EpApns), (''/v1/devices/{id}/activity'', ''POST'', EpActivity)]"

text \<open>The handlers; \<open>pm\<close> is the decoded path parameter of the routes that have one.\<close>
fun run_endpoint :: "('vk, 'sg, 'jwks, 'jwk, 'key, 'sk) cloud_env \<Rightarrow> ('jwks, 'sk) CloudApp \<Rightarrow> Moment \<Rightarrow> HttpReq \<Rightarrow> string \<Rightarrow> endpoint \<Rightarrow> Store \<Rightarrow> HttpResp \<times> Store" where
  "run_endpoint en a mo rq pm EpDashboard st = (respond 200 Dashboard, st)"
| "run_endpoint en a mo rq pm EpHealthz st = (respond 200 (PlainText ''ok''), st)"
| "run_endpoint en a mo rq pm EpOpenApi st = (respond 200 OpenApiDoc, st)"
| "run_endpoint en a mo rq pm EpIngest st = ingest en a mo rq st"
| "run_endpoint en a mo rq pm (EpRead ep) st = (read_handler en a mo rq pm (inner st) ep, st)"
| "run_endpoint en a mo rq pm EpKill st = kill_handler en a mo rq pm st"
| "run_endpoint en a mo rq pm EpSetBudget st = set_budget_handler en a mo rq pm st"
| "run_endpoint en a mo rq pm EpSetUnitBudget st = set_unit_budget_handler en a mo rq pm st"
| "run_endpoint en a mo rq pm EpAck st = ack_handler en a mo rq pm st"
| "run_endpoint en a mo rq pm EpFindings st = external_findings en a mo rq st"
| "run_endpoint en a mo rq pm EpPairNew st = pair_new en a mo rq st"
| "run_endpoint en a mo rq pm EpPair st = pair_handler en mo rq st"
| "run_endpoint en a mo rq pm EpApns st = register_apns en mo rq pm st"
| "run_endpoint en a mo rq pm EpActivity st = register_activity_handler en mo rq pm st"

definition takes_param :: "endpoint \<Rightarrow> bool" where
  "takes_param ep \<longleftrightarrow> ep \<in> {EpKill, EpSetBudget, EpSetUnitBudget, EpAck, EpRead EpReplay, EpApns, EpActivity}"

text \<open>A GET route also answers HEAD, with the body dropped.\<close>
definition method_ok :: "string \<Rightarrow> string \<Rightarrow> bool" where
  "method_ok route_method m \<longleftrightarrow> m = route_method \<or> (route_method = ''GET'' \<and> m = ''HEAD'')"

definition route :: "('vk, 'sg, 'jwks, 'jwk, 'key, 'sk) cloud_env \<Rightarrow> ('jwks, 'sk) CloudApp \<Rightarrow> Moment \<Rightarrow> HttpReq \<Rightarrow> Store \<Rightarrow> HttpResp \<times> Store" where
  "route en a mo rq st =
     (case en_match en (map fst ROUTES) (rq_path rq) of
        None \<Rightarrow> (respond 404 EmptyBody, st)
      | Some (pattern, pm) \<Rightarrow>
          (case map_of ROUTES pattern of
             None \<Rightarrow> (respond 404 EmptyBody, st)
           | Some (m, ep) \<Rightarrow>
               if \<not> method_ok m (rq_method rq) then (respond 405 EmptyBody, st)
               else if takes_param ep \<and> pm = None then (respond 400 EmptyBody, st)
               else (case run_endpoint en a mo rq (or_else pm []) ep st of (r, st) \<Rightarrow>
                       (if rq_method rq = ''HEAD'' then r\<lparr>rs_body := EmptyBody\<rparr> else r, st))))"

definition CORS_HEADERS :: "(string \<times> string) list" where
  "CORS_HEADERS = [(''access-control-allow-origin'', ''*''), (''access-control-allow-methods'', ''GET, POST, OPTIONS''),
     (''access-control-allow-headers'', ''authorization, content-type'')]"

definition set_cors_headers :: "HttpResp \<Rightarrow> HttpResp" where
  "set_cors_headers r = r\<lparr>rs_headers := filter (\<lambda>h. fst h \<notin> fst ` set CORS_HEADERS) (rs_headers r) @ CORS_HEADERS\<rparr>"

text \<open>The whole service: the CORS layer around the router.\<close>
definition cloud_http :: "('vk, 'sg, 'jwks, 'jwk, 'key, 'sk) cloud_env \<Rightarrow> ('jwks, 'sk) CloudApp \<Rightarrow> Moment \<Rightarrow> HttpReq \<Rightarrow> Store \<Rightarrow> HttpResp \<times> Store" where
  "cloud_http en a mo rq st =
     (if rq_method rq = ''OPTIONS'' then (set_cors_headers (respond 204 EmptyBody), st)
      else case route en a mo rq st of (r, st) \<Rightarrow> (set_cors_headers r, st))"

end
