(* ===== verification/CloudHttpSafety.thy ===== *)
theory CloudHttpSafety
  imports CloudHttp
begin

text \<open>
  What the HTTP surface guarantees: every request is a sequence of store operations
  its credential allows, so an organization's data changes only under a credential
  of that organization, its controls only under an admin's, with an audit entry in
  his name; and a signed request is accepted once.
\<close>

section \<open>Credentials\<close>

definition request_signer :: "('vk, 'sg, 'jwks, 'jwk, 'key, 'sk) cloud_env \<Rightarrow> Moment \<Rightarrow> HttpReq \<Rightarrow> string \<Rightarrow> Inner \<Rightarrow> (AuthError, Device \<times> string) result" where
  "request_signer en mo rq body i = signed_device (en_sha en) (en_ec en) (at_unix mo) ''POST'' (rq_path rq) body (rq_headers rq) i"

text \<open>The request carries a credential that makes \<open>who\<close> an administrator of \<open>org\<close>.\<close>
definition admin_credential :: "('vk, 'sg, 'jwks, 'jwk, 'key, 'sk) cloud_env \<Rightarrow> ('jwks, 'sk) CloudApp \<Rightarrow> Moment \<Rightarrow> HttpReq \<Rightarrow> string \<Rightarrow> Inner \<Rightarrow> string \<Rightarrow> string \<Rightarrow> bool" where
  "admin_credential en a mo rq body i org who =
     (case bearer (rq_headers rq) of None \<Rightarrow> False
      | Some token \<Rightarrow>
          (case map_of (ca_keys a) token of
             Some p \<Rightarrow> p_role p = ''admin'' \<and> p_org p = org \<and> who = key_actor (en_sha en) token
           | None \<Rightarrow>
               (case Option.bind (ca_oidc a) (\<lambda>cfg. oidc_verify (en_jwt en) cfg token) of
                  Some v \<Rightarrow> p_role (vf_principal v) = ''admin'' \<and> p_org (vf_principal v) = org \<and> who = vf_actor v
                | None \<Rightarrow>
                    (case request_signer en mo rq body i of
                       Inl _ \<Rightarrow> False
                     | Inr (d, n) \<Rightarrow> n \<notin> set (org_get [] (nonces i) (dev_id d)) \<and> dev_role d = ''admin'' \<and> dev_org d = org
                                    \<and> who = ''device:'' @ dev_id d))))"

text \<open>The store operations a request may perform.\<close>
fun allowed :: "('vk, 'sg, 'jwks, 'jwk, 'key, 'sk) cloud_env \<Rightarrow> ('jwks, 'sk) CloudApp \<Rightarrow> Moment \<Rightarrow> HttpReq \<Rightarrow> Inner \<Rightarrow> cop \<Rightarrow> bool" where
  "allowed en a mo rq i (Ingest org rs now) \<longleftrightarrow> org_for (en_jwt en) a (rq_headers rq) i = Some org"
| "allowed en a mo rq i (KillAudited org run who now) \<longleftrightarrow> now = at_ms mo \<and> admin_credential en a mo rq [] i org who"
| "allowed en a mo rq i (SetBudgetAudited org run m who now) \<longleftrightarrow> now = at_ms mo \<and> admin_credential en a mo rq (rq_body rq) i org who"
| "allowed en a mo rq i (SetUnitBudgetAudited org u m who now) \<longleftrightarrow> now = at_ms mo \<and> admin_credential en a mo rq (rq_body rq) i org who"
| "allowed en a mo rq i (AckAudited org iid who now) \<longleftrightarrow> now = at_ms mo \<and> admin_credential en a mo rq [] i org who"
| "allowed en a mo rq i (Finding org who f now) \<longleftrightarrow> now = at_ms mo \<and> admin_credential en a mo rq (rq_body rq) i org who"
| "allowed en a mo rq i (PairNew code org role expires) \<longleftrightarrow> admin_org_key a (rq_headers rq) = Inr org"
| "allowed en a mo rq i (RedeemAudited code now did tok pk name pf ms) \<longleftrightarrow>
     (case p_pair (en_parse en) (rq_body rq) of Some q \<Rightarrow> pq_code q = code | None \<Rightarrow> False)"
| "allowed en a mo rq i (Nonce did n) \<longleftrightarrow>
     list_ex (\<lambda>body. case request_signer en mo rq body i of Inr (d, k) \<Rightarrow> dev_id d = did \<and> k = n | Inl _ \<Rightarrow> False) [rq_body rq, []]"
| "allowed en a mo rq i (Apns did tok) \<longleftrightarrow>
     (case request_signer en mo rq (rq_body rq) i of Inr (d, k) \<Rightarrow> dev_id d = did | Inl _ \<Rightarrow> False)"
| "allowed en a mo rq i (Activity org run tok) \<longleftrightarrow>
     (case request_signer en mo rq (rq_body rq) i of Inr (d, k) \<Rightarrow> dev_org d = org | Inl _ \<Rightarrow> False)"
| "allowed en a mo rq i _ \<longleftrightarrow> False"

section \<open>A request is a history\<close>

text \<open>Between two states of one request lie store operations it may perform.\<close>
definition req_follows :: "('vk, 'sg, 'jwks, 'jwk, 'key, 'sk) cloud_env \<Rightarrow> ('jwks, 'sk) CloudApp \<Rightarrow> Moment \<Rightarrow> HttpReq \<Rightarrow> Store \<Rightarrow> Inner \<Rightarrow> Inner \<Rightarrow> bool" where
  "req_follows en a mo rq st i j \<longleftrightarrow>
     (\<exists>ops. j = cloud_run (en_sha en) (incident_cfg st) (st_alert_pct st) ops i \<and> list_all (allowed en a mo rq (inner st)) ops)"

lemma follows_refl [simp, intro]: "req_follows en a mo rq st i i"
  unfolding req_follows_def by (rule exI [of _ "[]"]) simp

lemma follows_op:
  "\<lbrakk>j = cop_inner (en_sha en) (incident_cfg st) (st_alert_pct st) op i; allowed en a mo rq (inner st) op\<rbrakk> \<Longrightarrow> req_follows en a mo rq st i j"
  unfolding req_follows_def by (rule exI [of _ "[op]"]) (simp add: cloud_run_def)

lemma follows_ops:
  "list_all (allowed en a mo rq (inner st)) ops \<Longrightarrow> req_follows en a mo rq st i (cloud_run (en_sha en) (incident_cfg st) (st_alert_pct st) ops i)"
  unfolding req_follows_def by blast

lemma cloud_run_append: "cloud_run sha cfg pct (xs @ ys) i = cloud_run sha cfg pct ys (cloud_run sha cfg pct xs i)"
  by (simp add: cloud_run_def)

lemma run_Cons: "cloud_run sha cfg pct (op # ops) i = cloud_run sha cfg pct ops (cop_inner sha cfg pct op i)"
  by (simp add: cloud_run_def)

lemma nonce_frame: "snd (check_and_record_nonce did n i) = i\<lparr>nonces := nonces (snd (check_and_record_nonce did n i))\<rparr>"
  by (simp add: check_and_record_nonce_def Let_def)

lemma fresh_nonce: "fst (check_and_record_nonce did n i) \<longleftrightarrow> n \<notin> set (org_get [] (nonces i) did)"
  by (simp add: check_and_record_nonce_def Let_def)

lemma verify_signer:
  "verify_device_signature (en_sha en) (en_ec en) (at_unix mo) ''POST'' (rq_path rq) body (rq_headers rq) i =
     (case request_signer en mo rq body i of
        Inl e \<Rightarrow> (Inl e, i)
      | Inr (d, n) \<Rightarrow> (if n \<notin> set (org_get [] (nonces i) (dev_id d)) then Inr d else Inl SignatureInvalid,
                      cop_inner sha cfg pct (Nonce (dev_id d) n) i))"
  using fresh_nonce
  by (auto simp: verify_device_signature_def request_signer_def split: sum.splits prod.splits) (metis fst_conv)+

text \<open>The state an authorization leaves: a nonce spent, or nothing.\<close>
definition auth_ops :: "('vk, 'sg, 'jwks, 'jwk, 'key, 'sk) cloud_env \<Rightarrow> Moment \<Rightarrow> HttpReq \<Rightarrow> string \<Rightarrow> Inner \<Rightarrow> cop list" where
  "auth_ops en mo rq body i = (case request_signer en mo rq body i of Inl _ \<Rightarrow> [] | Inr (d, n) \<Rightarrow> [Nonce (dev_id d) n])"

lemma auth_ops_allowed: "body \<in> {rq_body rq, []} \<Longrightarrow> list_all (allowed en a mo rq i) (auth_ops en mo rq body i)"
  by (auto simp: auth_ops_def split: sum.splits prod.splits)

lemma mutator_result:
  assumes "mutator en a mo rq body st = (r, st')"
  shows "st' = st\<lparr>inner := inner st'\<rparr>"
    and "inner st' = inner st \<or> inner st' = cloud_run (en_sha en) cfg pct (auth_ops en mo rq body (inner st)) (inner st)"
    and "r = Inr m \<longleftrightarrow> admin_credential en a mo rq body (inner st) (mu_org m) (mu_actor m)"
  using assms
  by (auto simp: mutator_def authorize_mutation_def verify_signer [where cfg = cfg and pct = pct and sha = "en_sha en"] admin_credential_def
        auth_ops_def run_Cons split: prod.splits option.splits sum.splits if_splits)

lemma follows_trans: "\<lbrakk>req_follows en a mo rq st i j; req_follows en a mo rq st j k\<rbrakk> \<Longrightarrow> req_follows en a mo rq st i k"
  unfolding req_follows_def by (metis cloud_run_append list_all_append)

lemma mutator_follows:
  assumes "mutator en a mo rq body st = (r, st1)" "body \<in> {rq_body rq, []}"
  shows "req_follows en a mo rq st (inner st) (inner st1)"
  using mutator_result(2) [OF assms(1), of "incident_cfg st" "st_alert_pct st"] follows_ops [OF auth_ops_allowed [OF assms(2)]]
  by auto

lemma with_mutator_follows:
  assumes "body \<in> {rq_body rq, []}"
    and "\<And>m st1. admin_credential en a mo rq body (inner st) (mu_org m) (mu_actor m) \<Longrightarrow> req_follows en a mo rq st (inner st1) (inner (snd (f m st1)))"
  shows "req_follows en a mo rq st (inner st) (inner (snd (with_mutator en a mo rq body st f)))"
proof -
  obtain r st1 where u: "mutator en a mo rq body st = (r, st1)" by fastforce
  show ?thesis
  proof (cases r)
    case (Inl e)
    then show ?thesis using mutator_follows [OF u assms(1)] by (simp add: with_mutator_def u)
  next
    case (Inr m)
    then show ?thesis using mutator_follows [OF u assms(1)] assms(2) [of m st1] mutator_result(3) [OF u, of m]
      by (simp add: with_mutator_def u follows_trans)
  qed
qed

lemma signer_result:
  assumes "signer en mo rq st = (r, st1)"
  shows "inner st1 = inner st \<or> inner st1 = cloud_run (en_sha en) cfg pct (auth_ops en mo rq (rq_body rq) (inner st)) (inner st)"
    and "r = Inr d \<Longrightarrow> \<exists>n. request_signer en mo rq (rq_body rq) (inner st) = Inr (d, n)"
  using assms
  by (auto simp: signer_def authorize_device_def verify_signer [where cfg = cfg and pct = pct and sha = "en_sha en"] auth_ops_def run_Cons
        split: prod.splits sum.splits if_splits)

lemma with_signer_follows:
  assumes "\<And>d n st1. \<lbrakk>request_signer en mo rq (rq_body rq) (inner st) = Inr (d, n); dev_id d = did\<rbrakk>
      \<Longrightarrow> req_follows en a mo rq st (inner st1) (inner (snd (f d st1)))"
  shows "req_follows en a mo rq st (inner st) (inner (snd (with_signer en mo rq did st f)))"
proof -
  obtain r st1 where u: "signer en mo rq st = (r, st1)" by fastforce
  have s: "req_follows en a mo rq st (inner st) (inner st1)"
    using signer_result(1) [OF u, of "incident_cfg st" "st_alert_pct st"] follows_ops [OF auth_ops_allowed [of "rq_body rq" rq]]
    by auto
  show ?thesis
  proof (cases r)
    case (Inl e)
    then show ?thesis using s by (simp add: with_signer_def u)
  next
    case (Inr d)
    then obtain n where "request_signer en mo rq (rq_body rq) (inner st) = Inr (d, n)" using signer_result(2) [OF u] by auto
    then show ?thesis using s assms [of d n st1] Inr by (auto simp: with_signer_def u follows_trans)
  qed
qed

lemma findings_follow:
  "admin_credential en a mo rq (rq_body rq) (inner st) org who
    \<Longrightarrow> req_follows en a mo rq st i (snd (record_findings (en_sha en) (at_ms mo) org who src fs n i))"
proof (induction fs arbitrary: n i)
  case (Cons f fs)
  show ?case
  proof (cases "parse_severity (xf_severity f)")
    case (Some sev)
    let ?op = "Finding org who (finding_input src f sev (at_ms mo)) (at_ms mo)"
    have "req_follows en a mo rq st i (cop_inner (en_sha en) (incident_cfg st) (st_alert_pct st) ?op i)"
      using Cons.prems by (intro follows_op [where op = ?op]) simp_all
    from follows_trans [OF this Cons.IH [OF Cons.prems]] show ?thesis using Some by simp
  qed simp
qed simp

lemma endpoint_follows: "req_follows en a mo rq st (inner st) (inner (snd (run_endpoint en a mo rq pm ep st)))"
proof (cases ep)
  case EpIngest
  show ?thesis
  proof (cases "org_for (en_jwt en) a (rq_headers rq) (inner st)")
    case (Some org)
    show ?thesis
    proof (cases "p_ingest (en_parse en) (rq_body rq)")
      case (Some rs)
      then show ?thesis using EpIngest \<open>org_for _ _ _ _ = Some org\<close>
        by (simp add: ingest_def) (rule follows_op [where op = "Ingest org rs (at_ms mo)"], simp_all add: cop_inner_methods(1) [where sha = "en_sha en"])
    qed (simp add: EpIngest ingest_def Some)
  qed (simp add: EpIngest ingest_def)
next
  case EpKill
  show ?thesis unfolding EpKill run_endpoint.simps kill_handler_def
    by (rule with_mutator_follows, simp)
      (rule follows_op [where op = "KillAudited (mu_org m) pm (mu_actor m) (at_ms mo)" for m],
       simp_all add: kill_audited_def broadcast_def with_inner_def)
next
  case EpSetBudget
  show ?thesis unfolding EpSetBudget run_endpoint.simps set_budget_handler_def
    by (rule with_mutator_follows, simp, simp split: option.split)
      (intro allI impI, rule follows_op [where op = "SetBudgetAudited (mu_org m) pm (usd_micros u) (mu_actor m) (at_ms mo)" for m u],
       simp_all add: set_budget_audited_def broadcast_def with_inner_def)
next
  case EpSetUnitBudget
  show ?thesis unfolding EpSetUnitBudget run_endpoint.simps set_unit_budget_handler_def
    by (rule with_mutator_follows, simp, simp split: option.split)
      (intro allI impI, rule follows_op [where op = "SetUnitBudgetAudited (mu_org m) pm (usd_micros u) (mu_actor m) (at_ms mo)" for m u],
       simp_all add: with_inner_def)
next
  case EpAck
  show ?thesis unfolding EpAck run_endpoint.simps ack_handler_def
    by (rule with_mutator_follows, simp, simp split: prod.split)
      (intro allI impI, rule follows_op [where op = "AckAudited (mu_org m) pm (mu_actor m) (at_ms mo)" for m], simp_all)
next
  case EpFindings
  show ?thesis unfolding EpFindings run_endpoint.simps external_findings_def
    by (cases "q_findings (en_parse en) (rq_query rq)")
      (auto intro!: with_mutator_follows findings_follow split: sum.split prod.split simp: prod_eq_iff dest!: sym [of "record_findings _ _ _ _ _ _ _ _"])
next
  case EpPairNew
  show ?thesis unfolding EpPairNew run_endpoint.simps pair_new_def
    by (auto simp: Let_def with_inner_def split: sum.split option.split intro!: follows_refl)
      (rule follows_op [where op = "PairNew (pairing_code (at_code mo)) org role (wrap_i64 (at_unix mo + 600))" for org role], simp_all)+
next
  case EpPair
  show ?thesis
  proof (cases "p_pair (en_parse en) (rq_body rq)")
    case (Some q)
    let ?op = "RedeemAudited (pq_code q) (at_unix mo) (random_hex (at_id mo)) (random_hex (at_token mo)) (pq_pubkey q) (pq_name q) (pq_platform q) (at_ms mo)"
    have "req_follows en a mo rq st (inner st) (cop_inner (en_sha en) (incident_cfg st) (st_alert_pct st) ?op (inner st))"
      by (rule follows_op [where op = ?op]) (simp_all add: Some)
    then show ?thesis by (auto simp: EpPair pair_handler_def Some Let_def split: prod.splits option.splits)
  qed (simp add: EpPair pair_handler_def)
next
  case EpApns
  show ?thesis unfolding EpApns run_endpoint.simps register_apns_def
  proof (rule with_signer_follows)
    fix d n st1
    assume sg: "request_signer en mo rq (rq_body rq) (inner st) = Inr (d, n)" and did: "dev_id d = pm"
    have "req_follows en a mo rq st (inner st1) (snd (set_apns_token pm tok (inner st1)))" for tok
      using sg did by (intro follows_op [where op = "Apns pm tok"]) simp_all
    then show "req_follows en a mo rq st (inner st1) (inner (snd (case p_apns (en_parse en) (rq_body rq) of None \<Rightarrow> (bad_json, st1)
        | Some token \<Rightarrow> (case set_apns_token pm token (inner st1) of (found, i) \<Rightarrow>
             (if found then respond 200 (OkResponse True) else http_error 404 ''unknown device'', st1\<lparr>inner := i\<rparr>)))))"
      by (cases "p_apns (en_parse en) (rq_body rq)") (simp_all add: case_prod_beta)
  qed
next
  case EpActivity
  show ?thesis unfolding EpActivity run_endpoint.simps register_activity_handler_def
    by (rule with_signer_follows, simp split: option.split prod.split)
      (intro allI impI, rule follows_op [where op = "Activity org run tok" for org run tok], simp_all add: with_inner_def)
qed simp_all

lemma http_follows: "req_follows en a mo rq st (inner st) (inner (snd (cloud_http en a mo rq st)))"
  using endpoint_follows [of en a mo rq st]
  by (auto simp: cloud_http_def route_def split: option.split prod.split if_splits) (metis snd_conv)+

section \<open>Tenants\<close>

text \<open>The request carries a credential of the organization: a key, a device token or an OIDC token of it,
  or a pairing code it issued.\<close>
definition credential_of :: "('vk, 'sg, 'jwks, 'jwk, 'key, 'sk) cloud_env \<Rightarrow> ('jwks, 'sk) CloudApp \<Rightarrow> HttpReq \<Rightarrow> Inner \<Rightarrow> string \<Rightarrow> bool" where
  "credential_of en a rq i org \<longleftrightarrow>
     (case bearer (rq_headers rq) of None \<Rightarrow> False
      | Some t \<Rightarrow> map_option p_org (map_of (ca_keys a) t) = Some org
          \<or> map_option dev_org (device_by_token i t) = Some org
          \<or> map_option p_org (Option.bind (ca_oidc a) (\<lambda>cfg. verify_id_token (en_jwt en) cfg t)) = Some org)
     \<or> (case p_pair (en_parse en) (rq_body rq) of Some q \<Rightarrow> map_option pr_org (pairings i (pq_code q)) = Some org | None \<Rightarrow> False)"

lemma org_for_credential: "org_for (en_jwt en) a (rq_headers rq) i = Some org \<Longrightarrow> credential_of en a rq i org"
  by (auto simp: org_for_def credential_of_def oidc_principal_def split: option.splits)

lemma signer_credential: "request_signer en mo rq body i = Inr (d, n) \<Longrightarrow> credential_of en a rq i (dev_org d)"
  by (auto simp: request_signer_def signed_device_def credential_of_def split: option.splits if_splits)

lemma admin_is_credential: "admin_credential en a mo rq body i org who \<Longrightarrow> credential_of en a rq i org"
  using signer_credential [of en mo rq body i _ _ a]
  by (cases "ca_oidc a") (auto simp: admin_credential_def credential_of_def verify_id_token_def split: option.splits sum.splits prod.splits)

lemma key_credential: "admin_org_key a (rq_headers rq) = Inr org \<Longrightarrow> credential_of en a rq i org"
  by (auto simp: admin_org_key_def principal_for_def credential_of_def split: option.splits if_splits)

lemma step_pairing_origin:
  "pairings (cop_inner sha cfg pct op i) code = Some p \<Longrightarrow>
     pairings i code = Some p \<or> (\<exists>role e. op = PairNew code (pr_org p) role e)"
proof (cases op)
  case (Finding o' who f now)
  then show "pairings (cop_inner sha cfg pct op i) code = Some p \<Longrightarrow> ?thesis" by (simp add: finding_frame)
next
  case (Ingest org rs now)
  then show "pairings (cop_inner sha cfg pct op i) code = Some p \<Longrightarrow> ?thesis" by (simp add: quiet_nonces)
qed (auto simp: kill_locked_def budget_locked_def set_unit_budget_def set_unit_budget_audited_def ack_incident_def
      ack_incident_audited_def mark_incident_notified_def store_audit_append_def create_pairing_def register_activity_def take_dirty_def
      set_apns_token_def check_and_record_nonce_def append_audit_locked_def redeem_pairing_def redeem_pairing_audited_def Let_def
      split: option.splits prod.splits if_splits)

lemma run_pairing_origin:
  assumes "list_all (allowed en a mo rq i0) ops" "pairings (cloud_run sha cfg pct ops i) code = Some p"
  shows "pairings i code = Some p \<or> credential_of en a rq i0 (pr_org p)"
  using assms
proof (induction ops rule: rev_induct)
  case (snoc op ops)
  then show ?case using step_pairing_origin [of sha cfg pct op "cloud_run sha cfg pct ops i" code p] key_credential [of a rq "pr_org p" en i0]
    by auto
qed simp

text \<open>An operation a request may perform belongs to an organization it carries a credential of.\<close>
lemma allowed_org:
  assumes "allowed en a mo rq i0 op" "op_org i op = Some org"
    and "\<And>code p. pairings i code = Some p \<Longrightarrow> pairings i0 code = Some p \<or> credential_of en a rq i0 (pr_org p)"
  shows "credential_of en a rq i0 org"
proof (cases op)
  case (RedeemAudited code now did tok pk name pf ms)
  then obtain p where p: "pairings i code = Some p" "org = pr_org p" using assms(2) by auto
  from assms(3) [OF p(1)] show ?thesis using RedeemAudited assms(1) p(2)
    by (auto simp: credential_of_def split: option.splits)
next
  case (Activity o' run tok)
  then show ?thesis using assms(1,2) signer_credential [of en mo rq "rq_body rq" i0] by (auto split: sum.splits prod.splits)
qed (use assms(1,2) org_for_credential admin_is_credential in auto)

lemma run_isolated:
  assumes "list_all (allowed en a mo rq i0) ops" "\<not> credential_of en a rq i0 org"
  shows "org_slice (cloud_run sha cfg pct ops i0) org = org_slice i0 org"
  using assms
proof (induction ops rule: rev_induct)
  case (snoc op ops)
  let ?i = "cloud_run sha cfg pct ops i0"
  have "op_org ?i op \<noteq> Some org"
    using allowed_org [of en a mo rq i0 op ?i org] run_pairing_origin [of en a mo rq i0 ops sha cfg pct i0] snoc.prems by auto
  from isolated [OF this] show ?case using snoc by simp
qed simp

text \<open>C17: No request touches another tenant's data: whatever the request, an organization's runs, kills, budgets,
  series, savings, windows, evidence counters, incidents, audit chain, totals and activities are
  exactly as before unless the request carries one of that organization's credentials (a configured
  key, the token of a device paired to it, an OIDC token issued for it, or a pairing code it issued).\<close>
theorem http_tenant_isolation:
  "org_slice (inner (snd (cloud_http en a mo rq st))) org = org_slice (inner st) org \<or> credential_of en a rq (inner st) org"
  using http_follows [of en a mo rq st] run_isolated [of en a mo rq "inner st" _ org] unfolding req_follows_def by metis

section \<open>Controls\<close>

text \<open>What the gateways poll: the kills and both kinds of budgets of an organization.\<close>
definition controls :: "Inner \<Rightarrow> string \<Rightarrow> (string, bool) fmap option \<times> (string, i64) fmap option \<times> (string, i64) fmap option" where
  "controls i org = (killed i org, budgets i org, unit_budgets i org)"

text \<open>The entries an audit chain gained.\<close>
definition new_entries :: "Inner \<Rightarrow> Inner \<Rightarrow> string \<Rightarrow> AuditEntry list" where
  "new_entries i j org = drop (length (store_audit i org)) (store_audit j org)"

lemma append_intents_grow: "\<exists>ys. append_intents sha xs es = es @ ys"
proof (induction xs arbitrary: es)
  case (Cons x xs)
  obtain t w a b c where x: "x = (t, w, a, b, c)" by (cases x)
  show ?case using Cons.IH [of "es @ [audit_append sha (opt_last None es) t w a b c]"] by (auto simp: x append_intents_def)
qed (simp add: append_intents_def)

lemma step_trail_grows: "\<exists>ys. store_audit (cop_inner sha cfg pct op i) org = store_audit i org @ ys"
proof (cases op)
  case (Ingest o' rs now)
  then show ?thesis by (simp add: ingest_audit)
next
  case (Finding o' who f now)
  obtain inc j where u: "upsert_incident o' (f_detector f) (f_severity f) (f_subject f) None (agent_subject (f_subject f)) (f_ts f) i = (inc, j)"
    by fastforce
  have fr: "j = i\<lparr>incidents := incidents j\<rparr>"
    using upsert_frame [of o' "f_detector f" "f_severity f" "f_subject f" None "agent_subject (f_subject f)" "f_ts f" i] u by simp
  have "store_audit j x = store_audit i x" for x by (subst fr) simp
  then show ?thesis using Finding
    by (simp add: record_external_finding_def u Let_def audit_after_append append_intents_def split: option.split)
next
  case (Redeem code now did tok pk name pf)
  then show ?thesis using redeem_frame [of code now did tok pk name pf i] by auto
next
  case (RedeemAudited code now did tok pk name pf ms)
  then show ?thesis
    by (auto simp: redeem_pairing_audited_def redeem_pairing_def Let_def audit_after_append append_intents_def split: option.splits)
qed (auto simp: kill_locked_def budget_locked_def set_unit_budget_def set_unit_budget_audited_def ack_incident_def
      ack_incident_audited_def mark_incident_notified_def store_audit_append_def create_pairing_def register_activity_def take_dirty_def
      set_apns_token_def check_and_record_nonce_def audit_after_append append_intents_def Let_def split: option.splits prod.splits)

lemma run_trail_grows: "\<exists>ys. store_audit (cloud_run sha cfg pct ops i) org = store_audit i org @ ys"
proof (induction ops rule: rev_induct)
  case (snoc op ops)
  then show ?case using step_trail_grows [of sha cfg pct op "cloud_run sha cfg pct ops i" org] by auto
qed simp

text \<open>The request makes \<open>who\<close> an administrator of \<open>org\<close>; a request without a signed body signs the empty one.\<close>
definition admin_of :: "('vk, 'sg, 'jwks, 'jwk, 'key, 'sk) cloud_env \<Rightarrow> ('jwks, 'sk) CloudApp \<Rightarrow> Moment \<Rightarrow> HttpReq \<Rightarrow> Inner \<Rightarrow> string \<Rightarrow> string \<Rightarrow> bool" where
  "admin_of en a mo rq i org who = list_ex (\<lambda>body. admin_credential en a mo rq body i org who) [rq_body rq, []]"

definition vouched :: "('vk, 'sg, 'jwks, 'jwk, 'key, 'sk) cloud_env \<Rightarrow> ('jwks, 'sk) CloudApp \<Rightarrow> Moment \<Rightarrow> HttpReq \<Rightarrow> Inner \<Rightarrow> Inner \<Rightarrow> Inner \<Rightarrow> string \<Rightarrow> bool" where
  "vouched en a mo rq i0 i j org \<longleftrightarrow>
     (\<exists>who e. admin_of en a mo rq i0 org who \<and> e \<in> set (new_entries i j org) \<and> actor e = sanitize_field who \<and> a_ts_millis e = at_ms mo)"

lemma controls_update [simp]:
  "controls (i\<lparr>dirty := d\<rparr>) org = controls i org" "controls (i\<lparr>pairings := ps\<rparr>) org = controls i org"
  "controls (i\<lparr>devices := ds\<rparr>) org = controls i org" "controls (i\<lparr>activities := ac\<rparr>) org = controls i org"
  "controls (i\<lparr>incidents := x\<rparr>) org = controls i org" "controls (i\<lparr>nonces := n\<rparr>) org = controls i org"
  "controls (append_audit_locked sha now o' who what subj det i) org = controls i org"
  by (simp_all add: controls_def append_audit_locked_def Let_def)

lemma controls_other:
  "o' \<noteq> org \<Longrightarrow> controls (kill_locked o' run i) org = controls i org"
  "o' \<noteq> org \<Longrightarrow> controls (budget_locked o' run m i) org = controls i org"
  "o' \<noteq> org \<Longrightarrow> controls (set_unit_budget o' run m i) org = controls i org"
  by (simp_all add: controls_def kill_locked_def budget_locked_def set_unit_budget_def put_nested_def)

lemma append_vouched:
  assumes "admin_of en a mo rq i0 org who" "store_audit i' org = store_audit i org"
  shows "vouched en a mo rq i0 i (append_audit_locked sha (at_ms mo) org who what subj det i') org"
  unfolding vouched_def
  by (rule exI [of _ who], rule exI [of _ "audit_append sha (opt_last None (store_audit i org)) (at_ms mo) who what subj det"])
    (simp add: assms new_entries_def audit_after_append append_intents_def audit_append_def Let_def)

lemma controls_trail:
  "store_audit (kill_locked o' run i) org = store_audit i org"
  "store_audit (budget_locked o' run m i) org = store_audit i org"
  "store_audit (set_unit_budget o' run m i) org = store_audit i org"
  by (simp_all add: kill_locked_def budget_locked_def set_unit_budget_def)

lemma step_controls:
  assumes "allowed en a mo rq i0 op"
  shows "controls (cop_inner sha cfg pct op i) org = controls i org \<or> vouched en a mo rq i0 i (cop_inner sha cfg pct op i) org"
proof (cases op)
  case (KillAudited o' run who now)
  then show ?thesis using assms by (cases "o' = org") (auto simp: controls_other admin_of_def controls_trail intro!: append_vouched)
next
  case (SetBudgetAudited o' run m who now)
  then show ?thesis using assms by (cases "o' = org") (auto simp: controls_other admin_of_def controls_trail intro!: append_vouched)
next
  case (SetUnitBudgetAudited o' u m who now)
  then show ?thesis using assms
    by (cases "o' = org") (auto simp: controls_other admin_of_def controls_trail set_unit_budget_audited_def intro!: append_vouched)
next
  case (Ingest o' rs now)
  then show ?thesis using quiet_fields [OF ingest_quiet] by (simp add: controls_def ingest_folded_defs)
next
  case (Finding o' who f now)
  obtain inc j where u: "upsert_incident o' (f_detector f) (f_severity f) (f_subject f) None (agent_subject (f_subject f)) (f_ts f) i = (inc, j)"
    by fastforce
  have fr: "j = i\<lparr>incidents := incidents j\<rparr>"
    using upsert_frame [of o' "f_detector f" "f_severity f" "f_subject f" None "agent_subject (f_subject f)" "f_ts f" i] u by simp
  have "controls j org = controls i org" by (subst fr) simp
  then show ?thesis using Finding by (simp add: record_external_finding_def u Let_def split: option.split)
next
  case (RedeemAudited code now did tok pk name pf ms)
  then show ?thesis by (simp add: redeem_pairing_audited_def redeem_pairing_def Let_def split: option.split)
qed (use assms in \<open>simp_all add: ack_incident_def ack_incident_audited_def create_pairing_def register_activity_def
      set_apns_token_def check_and_record_nonce_def Let_def split: option.split\<close>)

lemma vouched_mono:
  assumes "store_audit j' org = store_audit j org @ ys" "store_audit j org = store_audit i org @ xs"
  shows "vouched en a mo rq i0 i j org \<Longrightarrow> vouched en a mo rq i0 i j' org" "vouched en a mo rq i0 j j' org \<Longrightarrow> vouched en a mo rq i0 i j' org"
  using assms by (auto simp: vouched_def new_entries_def)

lemma run_controls:
  assumes "list_all (allowed en a mo rq i0) ops"
  shows "controls (cloud_run sha cfg pct ops i) org = controls i org \<or> vouched en a mo rq i0 i (cloud_run sha cfg pct ops i) org"
  using assms
proof (induction ops rule: rev_induct)
  case (snoc op ops)
  let ?j = "cloud_run sha cfg pct ops i"
  obtain xs where xs: "store_audit ?j org = store_audit i org @ xs" using run_trail_grows [of sha cfg pct ops i org] by blast
  obtain ys where ys: "store_audit (cop_inner sha cfg pct op ?j) org = store_audit ?j org @ ys"
    using step_trail_grows [of sha cfg pct op ?j org] by blast
  have "allowed en a mo rq i0 op" using snoc.prems by simp
  from step_controls [OF this, of sha cfg pct ?j org] snoc show ?case
    using vouched_mono [OF ys xs, of en a mo rq i0] by auto
qed simp

text \<open>C16: The controls are under an administrator's hand and every change is on record: whatever the request,
  the kills, the run budgets and the unit budgets of an organization are exactly as before unless the
  request proves its sender an administrator of that organization (an admin key, an OIDC token with
  the admin role, or an admin device's fresh signature over this very request), and then the
  organization's audit chain has gained an entry stamped with the request's time whose actor is that
  sender: the fingerprint of the key, the token's subject, or the device.\<close>
theorem http_controls_on_record:
  "controls (inner (snd (cloud_http en a mo rq st))) org = controls (inner st) org
   \<or> (\<exists>who e. admin_of en a mo rq (inner st) org who
        \<and> e \<in> set (new_entries (inner st) (inner (snd (cloud_http en a mo rq st))) org)
        \<and> actor e = sanitize_field who \<and> a_ts_millis e = at_ms mo)"
  using http_follows [of en a mo rq st] run_controls [of en a mo rq "inner st" _ "en_sha en" "incident_cfg st" "st_alert_pct st" "inner st" org]
  unfolding req_follows_def vouched_def [symmetric] by metis

section \<open>Signed requests\<close>

lemma hex_lower_no_newline: "CHR 0x0A \<notin> set (hex_lower bs)"
proof -
  have "hex_digit d \<noteq> CHR 0x0A" if "d < 16" for d
  proof -
    have "(of_char (hex_digit d) :: nat) \<ge> 48" using that by (simp add: hex_digit_def)
    then show ?thesis by auto
  qed
  moreover have "(of_char c :: nat) div 16 < 16" for c :: char by (simp add: less_mult_imp_div_less)
  ultimately have "CHR 0x0A \<notin> set (hex_byte c)" for c by (auto simp: hex_byte_def Let_def) (metis mod_less_divisor zero_less_numeral)+
  then show ?thesis by (simp add: hex_lower_def)
qed

text \<open>What was signed determines the request, the body up to its digest.\<close>
lemma canonical_inj:
  assumes "canonical_string sha m p b t n = canonical_string sha m' p' b' t' n'"
    and "CHR 0x0A \<notin> set m" "CHR 0x0A \<notin> set m'" "CHR 0x0A \<notin> set p" "CHR 0x0A \<notin> set p'" "CHR 0x0A \<notin> set t" "CHR 0x0A \<notin> set t'"
  shows "m = m' \<and> p = p' \<and> sha b = sha b' \<and> t = t' \<and> n = n'"
proof -
  note s = sep_append_inject [where c = "CHR 0x0A"] and e = assms(1) [unfolded canonical_string_def NL_def]
  note 1 = s [OF assms(2,3) e]
  note 2 = s [OF assms(4,5) conjunct2 [OF 1]]
  note 3 = s [OF hex_lower_no_newline hex_lower_no_newline conjunct2 [OF 2]]
  note 4 = s [OF assms(6,7) conjunct2 [OF 3]]
  show ?thesis using 1 2 3 4 hex_lower_inj by blast
qed

text \<open>C18: A signed request is accepted once: after one with some nonce was accepted from a device, no request that
  carries this nonce, whatever its time, path and body, is accepted from that device after any
  history in which fewer than 4096 other signed requests of the device were.\<close>
theorem signed_request_once:
  assumes "verify_device_signature sha ec now meth path body h (cloud_run sha cfg pct pre inner_default) = (Inr d, i)"
    and "length (accepted sha cfg pct (dev_id d) ops i) < 4096"
    and "header_str h2 ''x-fuse-nonce'' = header_str h ''x-fuse-nonce''"
    and "fst (verify_device_signature sha ec now2 meth2 path2 body2 h2 (cloud_run sha cfg pct ops i)) = Inr d2"
  shows "dev_id d2 \<noteq> dev_id d"
proof
  assume eq: "dev_id d2 = dev_id d"
  let ?j = "cloud_run sha cfg pct pre inner_default" and ?k = "cloud_run sha cfg pct ops i"
  obtain n where n: "signed_device sha ec now meth path body h ?j = Inr (d, n)" and c: "check_and_record_nonce (dev_id d) n ?j = (True, i)"
    using assms(1) by (auto simp: verify_device_signature_def split: sum.splits prod.splits if_splits)
  obtain n2 where n2: "signed_device sha ec now2 meth2 path2 body2 h2 ?k = Inr (d2, n2)" and c2: "fst (check_and_record_nonce (dev_id d2) n2 ?k)"
    using assms(4) by (auto simp: verify_device_signature_def split: sum.splits prod.splits if_splits)
  have "header_str h ''x-fuse-nonce'' = Some n" "header_str h2 ''x-fuse-nonce'' = Some n2"
    using n n2 by (auto simp: signed_device_def split: option.splits if_splits)
  then have same: "n2 = n" using assms(3) by simp
  have i: "org_get [] (nonces i) (dev_id d) = last_n NONCE_CAP (org_get [] (nonces ?j) (dev_id d) @ [n])"
    using c by (auto simp: check_and_record_nonce_def Let_def split: if_splits)
  have "org_get [] (nonces ?k) (dev_id d)
      = last_n NONCE_CAP (org_get [] (nonces ?j) (dev_id d) @ n # accepted sha cfg pct (dev_id d) ops i)"
    by (subst run_nonces) (simp_all add: i)
  moreover have "n \<in> set (last_n NONCE_CAP (org_get [] (nonces ?j) (dev_id d) @ n # accepted sha cfg pct (dev_id d) ops i))"
    using assms(2) by (simp add: last_n_def drop_append NONCE_CAP_def)
  ultimately show False using c2 eq same by (simp add: check_and_record_nonce_def Let_def)
qed

definition demo_ecdsa :: "(string, string) ecdsa" where
  "demo_ecdsa = \<lparr> b64_decode = Some, vk_from_sec1 = Some, sig_from_slice = Some, vk_verify = (\<lambda>vk m sg. sg = vk) \<rparr>"

definition demo_headers :: HeaderMap where
  "demo_headers = [''authorization'' \<mapsto> ''Bearer t'', ''x-fuse-device'' \<mapsto> ''d'', ''x-fuse-ts'' \<mapsto> ''90'', ''x-fuse-nonce'' \<mapsto> ''n'',
     ''x-fuse-sig'' \<mapsto> ''k'']"

definition demo_history :: "cop list" where
  "demo_history = [PairNew ''C'' ''acme'' ''admin'' 99, Redeem ''C'' 5 ''d'' ''t'' ''k'' [] []]"

definition demo_device :: Device where
  "demo_device = \<lparr> dev_id = ''d'', dev_org = ''acme'', dev_role = ''admin'', dev_name = [], dev_platform = [], dev_pubkey = ''k'', dev_apns = None \<rparr>"

lemma demo_signed:
  "devices (cloud_run (\<lambda>s. s) incident_config_default DEFAULT_ALERT_PCT demo_history inner_default) = fmupd ''t'' demo_device fmempty"
  "nonces (cloud_run (\<lambda>s. s) incident_config_default DEFAULT_ALERT_PCT demo_history inner_default) = Map.empty"
  by (simp_all add: demo_history_def cloud_run_def create_pairing_def redeem_pairing_def demo_device_def inner_default_def Let_def)

lemma demo_signed_device:
  "devices i = fmupd ''t'' demo_device fmempty \<Longrightarrow> signed_device (\<lambda>s. s) demo_ecdsa 100 ''POST'' ''/p'' [] demo_headers i = Inr (demo_device, ''n'')"
proof -
  assume "devices i = fmupd ''t'' demo_device fmempty"
  moreover have "bearer demo_headers = Some ''t''" by code_simp
  moreover have "header_str demo_headers ''x-fuse-device'' = Some ''d''" "header_str demo_headers ''x-fuse-ts'' = Some ''90''"
    "header_str demo_headers ''x-fuse-nonce'' = Some ''n''" "header_str demo_headers ''x-fuse-sig'' = Some ''k''" by code_simp+
  moreover have "parse_i64 ''90'' = Some 90" "\<not> stale 100 90" by code_simp+
  ultimately show ?thesis
    by (simp add: signed_device_def device_by_token_def demo_device_def verify_signature_def demo_ecdsa_def)
qed

theorem signed_request_once_witness:
  "case fst (verify_device_signature (\<lambda>s. s) demo_ecdsa 100 ''POST'' ''/p'' [] demo_headers
      (snd (verify_device_signature (\<lambda>s. s) demo_ecdsa 100 ''POST'' ''/p'' [] demo_headers
        (cloud_run (\<lambda>s. s) incident_config_default DEFAULT_ALERT_PCT demo_history inner_default)))) of
     Inr d2 \<Rightarrow> dev_id d2 \<noteq> ''d'' | Inl e \<Rightarrow> True"
proof -
  let ?v = "verify_device_signature (\<lambda>s. s) demo_ecdsa 100 ''POST'' ''/p'' [] demo_headers"
  let ?j = "cloud_run (\<lambda>s. s) incident_config_default DEFAULT_ALERT_PCT demo_history inner_default"
  have "?v ?j = (Inr demo_device, snd (?v ?j))"
    by (simp add: verify_device_signature_def demo_signed_device [OF demo_signed(1)] check_and_record_nonce_def Let_def demo_signed(2) org_get_def)
  from signed_request_once [OF this, of "[]" demo_headers 100 "''POST''" "''/p''" "[]"]
  show ?thesis by (simp add: demo_device_def split: sum.split)
qed

end
