(* ===== verification/CloudRestart.thy ===== *)
theory CloudRestart
  imports CloudGuards CloudSavings
begin

text \<open>
  A restart of the control plane: what a snapshot brings back and what it forgets.
\<close>

section \<open>What loading rewrites is already in place\<close>

lemma break_room_card: "fcard (sv_breaks (fst (make_break_room s br))) \<le> fcard (sv_breaks s)"
  "sv_budget_breaks (fst (make_break_room s br)) = sv_budget_breaks s"
  by (auto simp: make_break_room_def fcard.rep_eq card_Diff1_le split: prod.splits option.splits list.splits)

lemma note_break_counts:
  "fcard (sv_breaks s) \<le> sv_budget_breaks s \<Longrightarrow>
     fcard (sv_breaks (fst (note_break run s br))) \<le> u64_max \<Longrightarrow>
     fcard (sv_breaks (fst (note_break run s br))) \<le> sv_budget_breaks (fst (note_break run s br))"
  using break_room_card [of s br]
  by (auto simp: note_break_def sat_u64_def fcard_finsert_if split: prod.splits)

lemma breaks_counted:
  "fcard (sv_breaks (org_get savings_default (savings (cloud_run sha cfg pct ops inner_default)) org))
     \<le> sv_budget_breaks (org_get savings_default (savings (cloud_run sha cfg pct ops inner_default)) org)"
proof -
  define P where "P = (\<lambda>(rs :: CloudCallRecord list) (v :: OrgView). view_ok v \<and> fcard (sv_breaks (v_sav v)) \<le> sv_budget_breaks (v_sav v))"
  have "P (recs_of org ops) (org_view (cloud_run sha cfg pct ops inner_default) org)"
  proof (rule view_induct)
    have "view_ok (org_view inner_default org)" using run_store_ok [of sha cfg pct "[]"] by (simp add: store_ok_def)
    then show "P [] (org_view inner_default org)"
      by (simp add: P_def org_view_def inner_default_def org_get_def savings_default_def)
  next
    fix pre v r bs w
    assume IH: "P pre v"
    have ok: "view_ok (ingest_record pct bs w v r)" using IH record_view_ok by (simp add: P_def)
    have sav: "v_sav (ingest_record pct bs w v r) = update_saved r (fst (update_breaks r (v_sav v) (v_break_recency v)))"
      by (rule record_fields)
    let ?nb = "note_break (rec_run r) (add_blocked r (v_sav v)) (v_break_recency v)"
    have ub: "fst (update_breaks r (v_sav v) (v_break_recency v)) = (if is_budget_protection (rec_decision r) then fst ?nb else v_sav v)"
      by (simp add: update_breaks_def case_prod_beta)
    have "card (fset (sv_breaks (v_sav (ingest_record pct bs w v r)))) \<le> MAX_BREAK_KEYS"
      using ok by (simp add: view_ok_def ri.bounds_def)
    then have "fcard (sv_breaks (v_sav (ingest_record pct bs w v r))) \<le> u64_max"
      by (simp add: fcard.rep_eq cloud_caps u64_max_def)
    then show "P (pre @ [r]) (ingest_record pct bs w v r)"
      using IH ok note_break_counts [of "add_blocked r (v_sav v)" "rec_run r" "v_break_recency v"]
      by (cases "is_budget_protection (rec_decision r)") (simp_all add: P_def sav update_saved_breaks_fields ub add_blocked_def)
  qed
  then show ?thesis by (simp add: P_def org_view_def)
qed

lemma backfill_same: "fcard (sv_breaks s) \<le> sv_budget_breaks s \<Longrightarrow> backfill_breaks s = s"
  by (simp add: backfill_breaks_def)

text \<open>An organization has totals exactly when it has runs on record.\<close>
definition paired :: "Inner \<Rightarrow> bool" where
  "paired i \<longleftrightarrow> (\<forall>org. orgs i org = None \<longleftrightarrow> org_totals i org = None)"

lemma step_paired: "paired i \<Longrightarrow> paired (cop_inner sha cfg pct op i)"
proof (cases op)
  case (Ingest org rs now)
  then show "paired i \<Longrightarrow> ?thesis" using quiet_fields [OF ingest_quiet] by (simp add: paired_def ingest_folded_defs put_view_def)
next
  case (Finding o' who f now)
  then show "paired i \<Longrightarrow> ?thesis"
    by (simp add: record_external_finding_def upsert_incident_def Let_def append_audit_locked_def paired_def split: option.splits)
next
  case (Redeem code now did tok pk name pf)
  then show "paired i \<Longrightarrow> ?thesis" using redeem_frame [of code now did tok pk name pf i] by (auto simp: paired_def)
next
  case (RedeemAudited code now did tok pk name pf ms)
  then show "paired i \<Longrightarrow> ?thesis"
    by (simp add: redeem_pairing_audited_def redeem_pairing_def Let_def append_audit_locked_def paired_def split: option.split)
qed (simp_all add: paired_def kill_locked_def budget_locked_def set_unit_budget_def set_unit_budget_audited_def ack_incident_def
      ack_incident_audited_def mark_incident_notified_def store_audit_append_def create_pairing_def register_activity_def take_dirty_def
      set_apns_token_def check_and_record_nonce_def append_audit_locked_def Let_def split: option.split prod.split)

lemma run_paired: "paired (cloud_run sha cfg pct ops inner_default)"
  by (induction ops rule: rev_induct) (simp_all add: step_paired, simp add: paired_def inner_default_def)

text \<open>The rebuilt index of runs: oldest first by last activity, each run id once.\<close>
lemma seed_recency_order:
  "recency_ok (seed_recency runs)
   \<and> recency_order (seed_recency runs) = remdups (map ra_run_id (sort_key ra_last_seen (fm_values runs)))"
proof -
  have "recency_ok (foldl (\<lambda>r k. touch k r) recency_default ks)
     \<and> recency_order (foldl (\<lambda>r k. touch k r) recency_default ks) = remdups ks" for ks :: "string list"
  proof (induction ks rule: rev_induct)
    case Nil
    then show ?case by (simp add: recency_default_def recency_ok_def recency_order_def)
  next
    case (snoc k ks)
    have "remdups (ks @ [k]) = filter (\<lambda>x. x \<noteq> k) (remdups ks) @ [k]"
      by (induction ks) auto
    then show ?case using snoc recency_ok_touch recency_order_touch by fastforce
  qed
  then show ?thesis by (simp add: seed_recency_def)
qed

text \<open>C24: A restart loses no records.  The store that loads the snapshot of another is, field for
  field, that store (every organization's runs, kills, budgets, unit budgets, savings, monthly
  windows, decision counts, incidents, audit chain and totals, and the devices) except for exactly
  these: the burn-rate samples, the detectors' occurrence and fan-out counters with their indexes,
  the index of budget breaks, the pending pairing codes, the nonces, the live activities and the
  dirty flag start empty; and the index of runs is rebuilt in the order of their last activity.
  So a signed request accepted just before a restart is accepted again after it, within its two
  minutes.\<close>
theorem restart_restores:
  fixes sha cfg pct ops
  defines "i \<equiv> cloud_run sha cfg pct ops inner_default"
  defines "j \<equiv> install_snapshot (snapshot_of i) inner_default"
  shows "j = i\<lparr> series_log := Map.empty, incident_tracker := fmempty, fanout_tracker := fmempty,
      run_recency := run_recency j, tracker_recency := recency_default, fanout_recency := recency_default,
      break_recency := Map.empty, pairings := Map.empty, nonces := Map.empty, activities := Map.empty, dirty := False \<rparr>
    \<and> (\<forall>org. case orgs i org of
         None \<Rightarrow> run_recency j org = None
       | Some runs \<Rightarrow> \<exists>r. run_recency j org = Some r \<and> recency_ok r
           \<and> recency_order r = remdups (map ra_run_id (sort_key ra_last_seen (fm_values runs))))"
proof -
  have sav: "map_option backfill_breaks (savings i org) = savings i org" for org
    using breaks_counted [of sha cfg pct ops org] by (cases "savings i org") (simp_all add: i_def org_get_def backfill_same)
  have tot: "org_totals j org = org_totals i org" for org
    using run_paired [of sha cfg pct ops]
    by (cases "org_totals i org") (simp_all add: i_def [symmetric] j_def install_snapshot_def snapshot_of_def paired_def)
  have "savings j = savings i"
    by (rule ext) (simp add: j_def install_snapshot_def snapshot_of_def sav)
  moreover have "org_totals j = org_totals i" by (rule ext) (rule tot)
  ultimately have "j = i\<lparr> series_log := Map.empty, incident_tracker := fmempty, fanout_tracker := fmempty,
      run_recency := run_recency j, tracker_recency := recency_default, fanout_recency := recency_default,
      break_recency := Map.empty, pairings := Map.empty, nonces := Map.empty, activities := Map.empty, dirty := False \<rparr>"
    by (intro Inner.equality) (simp_all add: j_def install_snapshot_def snapshot_of_def inner_default_def)
  moreover have "run_recency j org = map_option seed_recency (orgs i org)" for org
    by (simp add: j_def install_snapshot_def snapshot_of_def)
  ultimately show ?thesis using seed_recency_order by (auto split: option.split)
qed

end
