(* ===== verification/CloudPush.thy ===== *)
theory CloudPush
  imports CloudStore CloudViews
begin

text \<open>
  Push delivery of the control plane (\<open>crates/cloud/src/push.rs\<close>): the pipeline that
  turns the store's change events into alert pushes and Live Activity updates, whose output is
  what the sender is handed; and the APNs sender (\<open>apns.rs\<close>).  The clocks are arguments.
\<close>

record Push =
  ph_token :: string
  ph_title :: string
  ph_body :: string
  ph_run :: string
  ph_reason :: string
  ph_incident :: "string option"
  ph_kind :: "string option"

record ActivityUpdate =
  au_token :: string
  au_run :: string
  au_spent :: i64
  au_budget :: "i64 option"
  au_ended :: bool

text \<open>The calls of the sender in their order.\<close>
datatype Sent = SentPush Push | SentActivity ActivityUpdate

definition DEDUP_SECS :: i64 where "DEDUP_SECS = 600"

type_synonym push_key = "string \<times> string \<times> string"

text \<open>The deduplication map of the pipeline.\<close>
definition should_send :: "i64 \<Rightarrow> push_key \<Rightarrow> (push_key \<rightharpoonup> i64) \<Rightarrow> bool \<times> (push_key \<rightharpoonup> i64)" where
  "should_send now key dedup =
     (case dedup key of
        Some t \<Rightarrow> if wrap_i64 (now - t) < DEDUP_SECS then (False, dedup) else (True, dedup(key \<mapsto> now))
      | None \<Rightarrow> (True, dedup(key \<mapsto> now)))"

text \<open>One push to every device that registered a token.\<close>
definition fan_out :: "(string \<Rightarrow> Push) \<Rightarrow> Device list \<Rightarrow> Sent list" where
  "fan_out mk ds = List.map_filter (\<lambda>d. map_option (\<lambda>t. SentPush (mk t)) (dev_apns d)) ds"

definition push_alert :: "i64 \<Rightarrow> string \<Rightarrow> string \<Rightarrow> string \<Rightarrow> string \<Rightarrow> string \<Rightarrow> Inner \<Rightarrow> (push_key \<rightharpoonup> i64) \<Rightarrow> Sent list \<times> (push_key \<rightharpoonup> i64)" where
  "push_alert now org run reason title body i dedup =
     (case should_send now (org, run, reason) dedup of
        (False, dedup) \<Rightarrow> ([], dedup)
      | (True, dedup) \<Rightarrow>
          (fan_out (\<lambda>t. \<lparr> ph_token = t, ph_title = title, ph_body = body, ph_run = run, ph_reason = reason, ph_incident = None, ph_kind = None \<rparr>)
             (devices_for_org i org), dedup))"

definition activity_updates :: "string \<Rightarrow> i64 \<Rightarrow> i64 option \<Rightarrow> bool \<Rightarrow> string list \<Rightarrow> Sent list" where
  "activity_updates run spent budget ended tokens =
     map (\<lambda>t. SentActivity \<lparr> au_token = t, au_run = run, au_spent = spent, au_budget = budget, au_ended = ended \<rparr>) tokens"

definition budget_percent :: "i64 \<Rightarrow> i64 \<Rightarrow> i64" where
  "budget_percent spent b = f64_to_i64 (f64_mul (f64_quot spent b) (Fin 100))"

definition DASH :: string where "DASH = [CHR 0xE2, CHR 0x80, CHR 0x94]"

text \<open>An incident is announced once per window, by the stamp the store keeps on it.\<close>
definition incident_alert :: "i64 \<Rightarrow> Incident \<Rightarrow> Inner \<Rightarrow> Sent list \<times> Inner" where
  "incident_alert now_ms inc i =
     (case mark_incident_notified (inc_org inc) (inc_id inc) now_ms (wrap_i64 (DEDUP_SECS * 1000)) i of
        (False, i) \<Rightarrow> ([], i)
      | (True, i) \<Rightarrow>
          let run = (case inc_run inc of Some r \<Rightarrow> r | None \<Rightarrow> []);
              label = (case inc_run inc of Some r \<Rightarrow> r | None \<Rightarrow> inc_id inc)
          in (fan_out (\<lambda>t. \<lparr> ph_token = t, ph_title = ''Agent running hot'',
                 ph_body = ''Agent/run '' @ label @ '' running hot '' @ DASH @ '' '' @ inc_kind inc @ ''. Tap to review and kill.'',
                 ph_run = run, ph_reason = ''incident'', ph_incident = Some (inc_id inc), ph_kind = Some (inc_kind inc) \<rparr>)
                (devices_for_org i (inc_org inc)), i))"

definition run_update :: "f64 \<Rightarrow> i64 \<Rightarrow> string \<Rightarrow> RunAgg \<Rightarrow> Inner \<Rightarrow> (push_key \<rightharpoonup> i64) \<Rightarrow> Sent list \<times> (push_key \<rightharpoonup> i64)" where
  "run_update pct now org a i dedup =
     (let budget = fmlookup (store_budgets i org) (ra_run_id a);
          (alerts, dedup) =
            (case budget of
               Some b \<Rightarrow>
                 if 0 < b \<and> f64_ge (f64_quot (ra_spent a) b) pct
                 then push_alert now org (ra_run_id a) ''budget'' ''Budget alert''
                        (''Run '' @ ra_run_id a @ '' at '' @ int_str (budget_percent (ra_spent a) b) @ ''% of budget'') i dedup
                 else ([], dedup)
             | None \<Rightarrow> ([], dedup))
      in (alerts @ activity_updates (ra_run_id a) (ra_spent a) budget False (activities_for_run i org (ra_run_id a)), dedup))"

text \<open>\<open>handle\<close>: the sender's calls, the store (an incident is stamped) and the deduplication map.\<close>
fun handle :: "f64 \<Rightarrow> i64 \<Rightarrow> i64 \<Rightarrow> StreamEvent \<Rightarrow> Inner \<Rightarrow> (push_key \<rightharpoonup> i64) \<Rightarrow> Sent list \<times> Inner \<times> (push_key \<rightharpoonup> i64)" where
  "handle pct now now_ms (KillEvent org run) i dedup =
     (case push_alert now org run ''kill'' ''Run killed'' (''Agent run '' @ run @ '' was killed'') i dedup of (out, dedup) \<Rightarrow>
        (out @ activity_updates run 0 None True (activities_for_run i org run), i, dedup))"
| "handle pct now now_ms (RunUpdate org a) i dedup =
     (case run_update pct now org a i dedup of (out, dedup) \<Rightarrow> (out, i, dedup))"
| "handle pct now now_ms (BudgetEvent org run m) i dedup = ([], i, dedup)"
| "handle pct now now_ms (IncidentEvent inc) i dedup =
     (case incident_alert now_ms inc i of (out, i) \<Rightarrow> (out, i, dedup))"

text \<open>The spawned loop: it ends at the first receive that is not an event, a notice of lagging included.\<close>
fun pump :: "f64 \<Rightarrow> (i64 \<times> i64 \<times> StreamEvent option) list \<Rightarrow> Inner \<Rightarrow> (push_key \<rightharpoonup> i64) \<Rightarrow> Sent list \<times> Inner \<times> (push_key \<rightharpoonup> i64)" where
  "pump pct [] i dedup = ([], i, dedup)"
| "pump pct ((now, now_ms, None) # es) i dedup = ([], i, dedup)"
| "pump pct ((now, now_ms, Some e) # es) i dedup =
     (case handle pct now now_ms e i dedup of (out, i, dedup) \<Rightarrow>
        (case pump pct es i dedup of (outs, i, dedup) \<Rightarrow> (out @ outs, i, dedup)))"

section \<open>Properties\<close>

text \<open>The pushes among the sender's calls.\<close>
definition pushes :: "Sent list \<Rightarrow> Push list" where
  "pushes out = List.map_filter (\<lambda>s. case s of SentPush p \<Rightarrow> Some p | SentActivity _ \<Rightarrow> None) out"

lemma pushes_simps [simp]:
  "pushes [] = []" "pushes (xs @ ys) = pushes xs @ pushes ys" "pushes (activity_updates run spent b fin toks) = []"
  by (simp_all add: pushes_def List.map_filter_def activity_updates_def comp_def)

lemma fan_out_tokens:
  assumes "\<And>t. ph_token (mk t) = t"
  shows "ph_token ` set (pushes (fan_out mk ds)) = {t. \<exists>d\<in>set ds. dev_apns d = Some t}"
  by (force simp: pushes_def fan_out_def List.map_filter_def assms image_iff)

definition org_tokens :: "Inner \<Rightarrow> string \<Rightarrow> string set" where
  "org_tokens i org = {t. \<exists>d\<in>set (devices_for_org i org). dev_apns d = Some t}"

lemma alert_tokens: "ph_token ` set (pushes (fst (push_alert now org run reason title body i dedup))) \<subseteq> org_tokens i org"
  by (simp add: push_alert_def org_tokens_def fan_out_tokens split: prod.split bool.split)

lemma incident_tokens: "ph_token ` set (pushes (fst (incident_alert now_ms inc i))) \<subseteq> org_tokens i (inc_org inc)"
proof -
  obtain b j where m: "mark_incident_notified (inc_org inc) (inc_id inc) now_ms (wrap_i64 (DEDUP_SECS * 1000)) i = (b, j)" by fastforce
  then have "devices j = devices i" by (auto simp: mark_incident_notified_def split: option.splits if_splits)
  then show ?thesis by (cases b) (simp_all add: incident_alert_def m Let_def org_tokens_def devices_for_org_def fan_out_tokens)
qed

text \<open>Pushes about an organization reach its own devices only.\<close>
lemma pushes_scoped: "ph_token ` set (pushes (fst (handle pct now now_ms e i dedup))) \<subseteq> org_tokens i (event_org e)"
proof (cases e)
  case (RunUpdate org a)
  show ?thesis
  proof (cases "fmlookup (store_budgets i org) (ra_run_id a)")
    case (Some b)
    then show ?thesis
      using alert_tokens [of now org "ra_run_id a" "''budget''" "''Budget alert''"
          "''Run '' @ ra_run_id a @ '' at '' @ int_str (budget_percent (ra_spent a) b) @ ''% of budget''" i dedup]
      by (cases "0 < b \<and> f64_ge (f64_quot (ra_spent a) b) pct") (simp_all add: RunUpdate run_update_def Let_def case_prod_beta)
  qed (simp add: RunUpdate run_update_def)
next
  case (KillEvent org run)
  then show ?thesis using alert_tokens [of now org] by (auto simp: case_prod_beta image_subset_iff)
next
  case (IncidentEvent inc)
  then show ?thesis using incident_tokens [of now_ms inc i] by (simp add: case_prod_beta)
qed simp

text \<open>The alert requests that pass the deduplication, in order.\<close>
fun sends :: "(i64 \<times> push_key) list \<Rightarrow> (push_key \<rightharpoonup> i64) \<Rightarrow> (i64 \<times> push_key) list" where
  "sends [] dedup = []"
| "sends ((now, key) # cs) dedup =
     (case should_send now key dedup of (ok, dedup) \<Rightarrow> (if ok then [(now, key)] else []) @ sends cs dedup)"

lemma sends_spaced_from:
  assumes "sorted (map fst cs)" "\<forall>c\<in>set cs. lo \<le> fst c \<and> fst c \<le> i64_max" "\<And>k t. dedup k = Some t \<Longrightarrow> 0 \<le> t \<and> t \<le> lo" "0 \<le> lo"
  shows "sorted_wrt (\<lambda>a b. snd a = snd b \<longrightarrow> fst a + 600 \<le> fst b) (sends cs dedup)
    \<and> (\<forall>c\<in>set (sends cs dedup). lo \<le> fst c \<and> (\<forall>t. dedup (snd c) = Some t \<longrightarrow> t + 600 \<le> fst c))"
  using assms
proof (induction cs arbitrary: lo dedup)
  case (Cons c cs)
  obtain now key where c: "c = (now, key)" by (cases c)
  have lo: "lo \<le> now" "now \<le> i64_max" and cs: "sorted (map fst cs)" "\<forall>c\<in>set cs. now \<le> fst c \<and> fst c \<le> i64_max"
    using Cons.prems(1,2) by (auto simp: c)
  have old: "0 \<le> t \<and> t \<le> now" if "dedup k = Some t" for k t using Cons.prems(3) [OF that] lo by auto
  have w: "wrap_i64 (now - t) = now - t" if "dedup k = Some t" for k t
    using old [OF that] lo(2) by (intro wrap_i64_id) (auto simp: in_i64_def i64_min_def i64_max_def)
  show ?case
  proof (cases "fst (should_send now key dedup)")
    case False
    then have s: "should_send now key dedup = (False, dedup)"
      by (auto simp: should_send_def split: option.splits if_splits)
    show ?thesis using Cons.IH [OF cs, of dedup] old lo Cons.prems(4) by (fastforce simp: c s)
  next
    case True
    then have s: "should_send now key dedup = (True, dedup(key \<mapsto> now))" and gap: "dedup key = Some t \<Longrightarrow> t + 600 \<le> now" for t
      using w [of key] by (auto simp: should_send_def DEDUP_SECS_def split: option.splits if_splits)
    have now0: "0 \<le> now" using lo(1) Cons.prems(4) by simp
    have d: "0 \<le> t \<and> t \<le> now" if "(dedup(key \<mapsto> now)) k = Some t" for k t
      using that old [of k t] lo(1) Cons.prems(4) by (auto split: if_splits)
    have IH: "sorted_wrt (\<lambda>a b. snd a = snd b \<longrightarrow> fst a + 600 \<le> fst b) (sends cs (dedup(key \<mapsto> now)))"
      "\<forall>c\<in>set (sends cs (dedup(key \<mapsto> now))). now \<le> fst c \<and> (\<forall>t. (dedup(key \<mapsto> now)) (snd c) = Some t \<longrightarrow> t + 600 \<le> fst c)"
      using Cons.IH [OF cs, of "dedup(key \<mapsto> now)"] d now0 by blast+
    have "lo \<le> fst x \<and> (\<forall>t. dedup (snd x) = Some t \<longrightarrow> t + 600 \<le> fst x)" if "x \<in> set (sends cs (dedup(key \<mapsto> now)))" for x
      using IH(2) that lo(1) gap by (cases "snd x = key") fastforce+
    then show ?thesis using IH lo(1) gap by (auto simp: c s)
  qed
qed simp

text \<open>Alerts are rate-limited: whatever sequence of alert requests the pipeline makes, at times that do not
  go backwards, two pushes it lets through for the same organization, run and reason are at least ten
  minutes apart.\<close>
theorem alerts_spaced:
  assumes "sorted (map fst cs)" "\<forall>c\<in>set cs. 0 \<le> fst c \<and> fst c \<le> i64_max"
  shows "sorted_wrt (\<lambda>a b. snd a = snd b \<longrightarrow> fst a + 600 \<le> fst b) (sends cs Map.empty)"
  using sends_spaced_from [of cs 0 Map.empty] assms by simp

theorem alerts_spaced_witness:
  "sorted_wrt (\<lambda>a b. snd a = snd b \<longrightarrow> fst a + 600 \<le> fst b)
     (sends [(100, (''acme'', ''r'', ''kill'')), (400, (''acme'', ''r'', ''kill'')), (700, (''acme'', ''r'', ''kill''))] Map.empty)"
  by (rule alerts_spaced) (simp_all add: i64_max_def)

section \<open>The APNs sender\<close>

text \<open>
  \<open>apns.rs\<close>: the provider token and its cache, and the two posts.  The signing key's parser,
  ECDSA, base64 and the JSON printer are parameters; a post is fire and forget.
\<close>

record 'sk ApnsSender =
  ap_key :: 'sk
  ap_key_id :: string
  ap_team_id :: string
  ap_topic :: string
  ap_host :: string
  ap_jwt :: "(string \<times> i64) option"

record 'sk apns_lib =
  al_parse_key :: "string \<Rightarrow> 'sk option"
  al_sign :: "'sk \<Rightarrow> string \<Rightarrow> string"
  al_base64 :: "string \<Rightarrow> string"
  al_print :: "json \<Rightarrow> string"

definition apns_from_env :: "'sk apns_lib \<Rightarrow> (string \<Rightarrow> string option) \<Rightarrow> (string \<Rightarrow> string option) \<Rightarrow> 'sk ApnsSender option" where
  "apns_from_env l env read =
     (case (env ''TOKENFUSE_APNS_KEY_PATH'', env ''TOKENFUSE_APNS_KEY_ID'', env ''TOKENFUSE_APNS_TEAM_ID'', env ''TOKENFUSE_APNS_TOPIC'') of
        (Some path, Some kid, Some team, Some topic) \<Rightarrow>
          map_option (\<lambda>k. \<lparr> ap_key = k, ap_key_id = kid, ap_team_id = team, ap_topic = topic,
             ap_host = (if env ''TOKENFUSE_APNS_ENV'' = Some ''production'' then ''https://api.push.apple.com'' else ''https://api.sandbox.push.apple.com''),
             ap_jwt = None \<rparr>) (Option.bind (read path) (al_parse_key l))
      | _ \<Rightarrow> None)"

text \<open>A number as \<open>json!\<close> makes it of an \<open>i64\<close>.\<close>
definition json_i64 :: "i64 \<Rightarrow> json" where
  "json_i64 n = JNumber (if n < 0 then NegInt n else PosInt (nat n))"

definition mint_jwt :: "'sk apns_lib \<Rightarrow> 'sk ApnsSender \<Rightarrow> i64 \<Rightarrow> string" where
  "mint_jwt l s now =
     (let header = al_base64 l (al_print l (JObject [(''alg'', JString ''ES256''), (''kid'', JString (ap_key_id s))]));
          claims = al_base64 l (al_print l (JObject [(''iat'', json_i64 now), (''iss'', JString (ap_team_id s))]));
          signing_input = header @ ''.'' @ claims
      in signing_input @ ''.'' @ al_base64 l (al_sign l (ap_key s) signing_input))"

definition provider_jwt :: "'sk apns_lib \<Rightarrow> i64 \<Rightarrow> 'sk ApnsSender \<Rightarrow> string \<times> 'sk ApnsSender" where
  "provider_jwt l now s =
     (let fresh = (let jwt = mint_jwt l s now in (jwt, s\<lparr>ap_jwt := Some (jwt, now)\<rparr>)) in
      case ap_jwt s of Some (jwt, iat) \<Rightarrow> if wrap_i64 (now - iat) < 2400 then (jwt, s) else fresh | None \<Rightarrow> fresh)"

record ApnsPost =
  po_url :: string
  po_authorization :: string
  po_topic :: string
  po_type :: string
  po_payload :: json

definition apns_post :: "'sk apns_lib \<Rightarrow> i64 \<Rightarrow> string \<Rightarrow> string \<Rightarrow> string \<Rightarrow> json \<Rightarrow> 'sk ApnsSender \<Rightarrow> ApnsPost \<times> 'sk ApnsSender" where
  "apns_post l now target push_type topic_suffix payload s =
     (case provider_jwt l now s of (jwt, s) \<Rightarrow>
        (\<lparr> po_url = ap_host s @ ''/3/device/'' @ target, po_authorization = ''bearer '' @ jwt, po_topic = ap_topic s @ topic_suffix,
           po_type = push_type, po_payload = payload \<rparr>, s))"

definition json_opt_str :: "string option \<Rightarrow> json" where
  "json_opt_str x = (case x of Some s \<Rightarrow> JString s | None \<Rightarrow> JNull)"

definition push_payload :: "Push \<Rightarrow> json" where
  "push_payload p = JObject
     [(''aps'', JObject [(''alert'', JObject [(''body'', JString (ph_body p)), (''title'', JString (ph_title p))]), (''sound'', JString ''default'')]),
      (''incident_id'', json_opt_str (ph_incident p)), (''kind'', json_opt_str (ph_kind p)), (''reason'', JString (ph_reason p)),
      (''run_id'', JString (ph_run p))]"

definition activity_payload :: "i64 \<Rightarrow> ActivityUpdate \<Rightarrow> json" where
  "activity_payload now u = JObject [(''aps'', JObject
     [(''content-state'', JObject
        [(''budget_micros'', (case au_budget u of Some b \<Rightarrow> json_i64 b | None \<Rightarrow> JNull)), (''spent_microusd'', json_i64 (au_spent u))]),
      (''event'', JString (if au_ended u then ''end'' else ''update'')), (''timestamp'', json_i64 now)])]"

text \<open>The sender's two methods; \<open>stamp\<close> is the clock read for the payload, \<open>now\<close> the one read for the token.\<close>
definition apns_deliver :: "'sk apns_lib \<Rightarrow> i64 \<Rightarrow> i64 \<Rightarrow> Sent \<Rightarrow> 'sk ApnsSender \<Rightarrow> ApnsPost \<times> 'sk ApnsSender" where
  "apns_deliver l stamp now m s = (case m of
     SentPush p \<Rightarrow> apns_post l now (ph_token p) ''alert'' [] (push_payload p) s
   | SentActivity u \<Rightarrow> apns_post l now (au_token u) ''liveactivity'' ''.push-type.liveactivity'' (activity_payload stamp u) s)"

primrec apns_run :: "'sk apns_lib \<Rightarrow> (i64 \<times> i64 \<times> Sent) list \<Rightarrow> 'sk ApnsSender \<Rightarrow> (i64 \<times> ApnsPost) list \<times> 'sk ApnsSender" where
  "apns_run l [] s = ([], s)"
| "apns_run l (x # xs) s = (case x of (stamp, now, m) \<Rightarrow>
     (case apns_deliver l stamp now m s of (p, s) \<Rightarrow> (case apns_run l xs s of (ps, s) \<Rightarrow> ((now, p) # ps, s))))"

text \<open>The cache holds a token minted by this sender at the time it says.\<close>
definition jwt_ok :: "'sk apns_lib \<Rightarrow> 'sk ApnsSender \<Rightarrow> bool" where
  "jwt_ok l s \<longleftrightarrow> (case ap_jwt s of Some (jwt, iat) \<Rightarrow> jwt = mint_jwt l s iat | None \<Rightarrow> True)"

definition signed_lately :: "'sk apns_lib \<Rightarrow> 'sk ApnsSender \<Rightarrow> i64 \<Rightarrow> ApnsPost \<Rightarrow> bool" where
  "signed_lately l s now p \<longleftrightarrow> (\<exists>iat. po_authorization p = ''bearer '' @ mint_jwt l s iat \<and> wrap_i64 (now - iat) < 2400)"

lemma mint_cached [simp]: "mint_jwt l (s\<lparr>ap_jwt := x\<rparr>) now = mint_jwt l s now"
  by (simp add: mint_jwt_def)

lemma provider_jwt_lately:
  assumes "jwt_ok l s" and "provider_jwt l now s = (jwt, s')"
  shows "jwt_ok l s' \<and> (\<exists>x. s' = s\<lparr>ap_jwt := x\<rparr>) \<and> (\<exists>iat. jwt = mint_jwt l s iat \<and> wrap_i64 (now - iat) < 2400)"
proof (cases "\<exists>j iat. ap_jwt s = Some (j, iat) \<and> wrap_i64 (now - iat) < 2400")
  case True
  then obtain j iat where c: "ap_jwt s = Some (j, iat)" "wrap_i64 (now - iat) < 2400" by blast
  then have "jwt = j" "s' = s" using assms(2) by (simp_all add: provider_jwt_def Let_def)
  moreover have "s = s\<lparr>ap_jwt := ap_jwt s\<rparr>" by simp
  moreover have "j = mint_jwt l s iat" using assms(1) c by (simp add: jwt_ok_def)
  ultimately show ?thesis using assms(1) c(2) by metis
next
  case False
  then have "(jwt, s') = (mint_jwt l s now, s\<lparr>ap_jwt := Some (mint_jwt l s now, now)\<rparr>)"
    using assms(2) by (auto simp: provider_jwt_def Let_def split: option.splits if_splits)
  then have e: "jwt = mint_jwt l s now" "s' = s\<lparr>ap_jwt := Some (mint_jwt l s now, now)\<rparr>" by simp_all
  have "jwt_ok l s'" by (simp add: e jwt_ok_def)
  moreover have "\<exists>x. s' = s\<lparr>ap_jwt := x\<rparr>" using e(2) by blast
  moreover have "\<exists>iat. jwt = mint_jwt l s iat \<and> wrap_i64 (now - iat) < 2400" using e(1) by (intro exI [of _ now]) (simp add: wrap_i64_def)
  ultimately show ?thesis by blast
qed

lemma apns_run_lately:
  "jwt_ok l s \<Longrightarrow> \<forall>(now, p) \<in> set (fst (apns_run l xs s)). signed_lately l s now p"
proof (induction xs arbitrary: s)
  case (Cons x xs)
  obtain stamp now m where x: "x = (stamp, now, m)" by (metis surj_pair)
  obtain jwt s' where j: "provider_jwt l now s = (jwt, s')" by (metis surj_pair)
  have k: "jwt_ok l s'" "\<exists>y. s' = s\<lparr>ap_jwt := y\<rparr>" "\<exists>iat. jwt = mint_jwt l s iat \<and> wrap_i64 (now - iat) < 2400"
    using provider_jwt_lately [OF Cons.prems j] by blast+
  obtain p where p: "apns_deliver l stamp now m s = (p, s')" "po_authorization p = ''bearer '' @ jwt"
    by (cases m) (simp_all add: apns_deliver_def apns_post_def j)
  have same: "signed_lately l s' = signed_lately l s" using k(2) by (auto simp: signed_lately_def fun_eq_iff)
  have "signed_lately l s now p" using k(3) p(2) by (auto simp: signed_lately_def)
  then show ?case using Cons.IH [OF k(1)] p(1) by (auto simp: x same split: prod.split)
qed simp

text \<open>
  Over every sequence of pushes and activity updates of a sender configured from the environment, each
  post carries a token that this sender signed less than 2400 seconds before, within the provider's limit of an hour.
\<close>
theorem pushes_signed_lately:
  assumes "apns_from_env l env read = Some s"
  shows "\<forall>(now, p) \<in> set (fst (apns_run l xs s)). signed_lately l s now p"
proof (rule apns_run_lately)
  show "jwt_ok l s" using assms by (auto simp: apns_from_env_def jwt_ok_def split: option.splits)
qed

theorem pushes_signed_lately_witness:
  "\<exists>s. apns_from_env \<lparr> al_parse_key = Some, al_sign = (\<lambda>k x. k @ x), al_base64 = id, al_print = (\<lambda>_. ''{}'') \<rparr> (\<lambda>_. Some ''v'') Some = Some s
     \<and> (\<forall>(now, p) \<in> set (fst (apns_run \<lparr> al_parse_key = Some, al_sign = (\<lambda>k x. k @ x), al_base64 = id, al_print = (\<lambda>_. ''{}'') \<rparr>
          [(1, 1, SentActivity \<lparr> au_token = ''t'', au_run = ''r'', au_spent = 1, au_budget = None, au_ended = False \<rparr>)] s)).
          signed_lately \<lparr> al_parse_key = Some, al_sign = (\<lambda>k x. k @ x), al_base64 = id, al_print = (\<lambda>_. ''{}'') \<rparr> s now p)"
proof -
  let ?l = "\<lparr> al_parse_key = Some, al_sign = (\<lambda>k x. k @ x), al_base64 = id, al_print = (\<lambda>_. ''{}'') \<rparr>"
  obtain s where s: "apns_from_env ?l (\<lambda>_. Some ''v'') Some = Some s" by (simp add: apns_from_env_def)
  show ?thesis using s pushes_signed_lately [OF s] by blast
qed

end
