(* ===== verification/NumParse.thy ===== *)
theory NumParse
  imports F64
begin

text \<open>
  The standard library's parsers of numbers, as the command lines and the environment
  variables of both binaries use them.
\<close>

text \<open>\<open>str::parse::<u64>\<close>.\<close>
definition parse_u64 :: "string \<Rightarrow> u64 option" where
  "parse_u64 s =
     (let ds = (case s of c # r \<Rightarrow> if c = CHR ''+'' then r else s | [] \<Rightarrow> [])
      in if ds = [] \<or> \<not> list_all is_digit ds \<or> u64_max < digits_val ds then None else Some (digits_val ds))"

text \<open>The exponent of a float literal: absent, or digits with a sign.\<close>
definition parse_exponent :: "string \<Rightarrow> int option" where
  "parse_exponent s =
     (case s of [] \<Rightarrow> Some 0
      | e # r \<Rightarrow>
          if e \<noteq> CHR ''e'' \<and> e \<noteq> CHR ''E'' then None
          else let (neg, ds) = (case r of c # q \<Rightarrow> if c = CHR ''-'' then (True, q) else if c = CHR ''+'' then (False, q) else (False, r) | [] \<Rightarrow> (False, []))
               in if ds = [] \<or> \<not> list_all is_digit ds then None
                  else Some (if neg then - int (digits_val ds) else int (digits_val ds)))"

definition ten_pow :: "int \<Rightarrow> rat" where
  "ten_pow k = (if 0 \<le> k then 10 ^ nat k else 1 / 10 ^ nat (- k))"

text \<open>An unsigned decimal literal, rounded to nearest.\<close>
definition parse_decimal :: "bool \<Rightarrow> string \<Rightarrow> f64 option" where
  "parse_decimal neg s =
     (let ip = takeWhile is_digit s; r = drop (length ip) s;
          (fp, r) = (case r of c # q \<Rightarrow> if c = CHR ''.'' then (takeWhile is_digit q, dropWhile is_digit q) else ([], r) | [] \<Rightarrow> ([], []))
      in if ip = [] \<and> fp = [] then None
         else map_option (\<lambda>e. let q = of_nat (digits_val (ip @ fp)) * ten_pow (e - int (length fp)) in f64_round (if neg then - q else q))
                (parse_exponent r))"

text \<open>\<open>str::parse::<f64>\<close>.\<close>
definition parse_f64 :: "string \<Rightarrow> f64 option" where
  "parse_f64 s =
     (let (neg, r) = (case s of c # q \<Rightarrow> if c = CHR ''-'' then (True, q) else if c = CHR ''+'' then (False, q) else (False, s) | [] \<Rightarrow> (False, []));
          l = to_ascii_lowercase r
      in if l = ''inf'' \<or> l = ''infinity'' then Some (if neg then NInf else PInf)
         else if l = ''nan'' then Some NaN
         else parse_decimal neg r)"

end
