(* ===== verification/CloudMain.thy ===== *)
theory CloudMain
  imports CloudReports NumParse
begin

text \<open>
  Start-up and persistence of the control plane (\<open>crates/cloud/src/main.rs\<close>): the
  configuration read from the environment, the state the server starts with, and the
  autosave loop.  The environment, the files and the snapshot's JSON are parameters;
  logging, the listener and the push sender are not modelled.
\<close>

section \<open>Configuration\<close>

definition env_u64 :: "(string \<Rightarrow> string option) \<Rightarrow> string \<Rightarrow> u64 \<Rightarrow> u64" where
  "env_u64 env name d =
     (case Option.bind (env name) parse_u64 of Some n \<Rightarrow> if 0 < n then n else d | None \<Rightarrow> d)"

definition env_flag :: "(string \<Rightarrow> string option) \<Rightarrow> string \<Rightarrow> bool" where
  "env_flag env name = (case env name of Some v \<Rightarrow> eq_ignore_ascii_case v ''1'' \<or> eq_ignore_ascii_case v ''true'' | None \<Rightarrow> False)"

definition f64_pos :: "f64 \<Rightarrow> bool" where
  "f64_pos p \<longleftrightarrow> f64_ge p (Fin 0) \<and> p \<noteq> Fin 0"

definition env_alert_pct :: "(string \<Rightarrow> string option) \<Rightarrow> f64" where
  "env_alert_pct env =
     (case Option.bind (env ''TOKENFUSE_CLOUD_ALERT_PCT'') parse_f64 of
        Some p \<Rightarrow> if f64_pos p \<and> f64_ge (Fin 1) p then p else f64_round (8 / 10)
      | None \<Rightarrow> f64_round (8 / 10))"

definition env_incident_cfg :: "(string \<Rightarrow> string option) \<Rightarrow> IncidentConfig" where
  "env_incident_cfg env =
     (let d = incident_config_default in
      \<lparr> budget_blocks = env_u64 env ''TOKENFUSE_CLOUD_INCIDENT_BUDGET_BLOCKS'' (budget_blocks d),
        loop_repeats = env_u64 env ''TOKENFUSE_CLOUD_INCIDENT_LOOP_REPEATS'' (loop_repeats d),
        loop_window_ms = loop_window_ms d,
        spend_per_min_micros =
          (case Option.bind (env ''TOKENFUSE_CLOUD_INCIDENT_SPEND_PER_MIN_USD'') parse_f64 of
             Some usd \<Rightarrow> if f64_pos usd then f64_to_i64 (f64_mul usd (Fin 1000000)) else spend_per_min_micros d
           | None \<Rightarrow> spend_per_min_micros d),
        fanout_runs = env_u64 env ''TOKENFUSE_CLOUD_INCIDENT_FANOUT_RUNS'' (fanout_runs d),
        fanout_window_ms = fanout_window_ms d \<rparr>)"

definition startup_keys :: "(string \<Rightarrow> string option) \<Rightarrow> KeyMap" where
  "startup_keys env = parse_keys (env_or_default env ''TOKENFUSE_CLOUD_KEYS'') (env_flag env ''TOKENFUSE_CLOUD_ALLOW_DEVKEY'')"

text \<open>The store the server starts with: a snapshot that cannot be loaded is only logged.\<close>
definition startup_store :: "(string \<Rightarrow> string option) \<Rightarrow> Exporter \<Rightarrow> (string \<Rightarrow> Snapshot option) \<Rightarrow> (string \<Rightarrow> file_read) \<Rightarrow> Store" where
  "startup_store env exporter read_snapshot files =
     (let st = with_event_exporter exporter (store_with_config (env_incident_cfg env) (env_alert_pct env))
      in case env ''TOKENFUSE_CLOUD_DATA'' of
           Some path \<Rightarrow>
             if path = [] then st
             else (case store_load read_snapshot (files path) (inner st) of Inr i \<Rightarrow> st\<lparr>inner := i\<rparr> | Inl _ \<Rightarrow> st)
         | None \<Rightarrow> st)"

definition startup_app :: "('jwks, 'jwk, 'key) jwt \<Rightarrow> 'sk p256 \<Rightarrow> (string \<Rightarrow> string option) \<Rightarrow> (string \<Rightarrow> string option) \<Rightarrow> ('jwks, 'sk) CloudApp" where
  "startup_app j p env read_file =
     with_replay_events_path (env ''TOKENFUSE_CLOUD_REPLAY_EVENTS'')
       (with_audit_signing_key (signing_key_from_env p env)
         (with_oidc (oidc_config_from_env j env read_file) (cloud_app_new (startup_keys env) (env_alert_pct env))))"

section \<open>Autosave\<close>

text \<open>One tick: the state and the bytes on disk; \<open>ok\<close> tells whether the write and the rename succeeded.\<close>
definition autosave_tick :: "(Snapshot \<Rightarrow> string) \<Rightarrow> bool \<Rightarrow> Inner \<times> string option \<Rightarrow> Inner \<times> string option" where
  "autosave_tick print_snapshot ok s =
     (case s of (i, disk) \<Rightarrow>
       (case take_dirty i of (was, i) \<Rightarrow> (i, if was \<and> ok then Some (save_bytes print_snapshot i) else disk)))"

section \<open>Keys\<close>

definition key_entries :: "string \<Rightarrow> (string \<times> Principal) list" where
  "key_entries spec = List.map_filter spec_principal (split_char (CHR '','') spec)"

lemma fold_key_entries:
  "fold (\<lambda>e m. case spec_principal e of Some kv \<Rightarrow> kv # m | None \<Rightarrow> m) es m = rev (List.map_filter spec_principal es) @ m"
  by (induction es arbitrary: m) (simp_all add: List.map_filter_simps split: option.split)

text \<open>Keys fail closed: only an entry of the specification authenticates, the last one of a repeated key,
  and the development key only with the opt-in and no entry at all.\<close>
lemma startup_keys_fail_closed:
  "map_of (startup_keys env) k =
     (let es = key_entries (env_or_default env ''TOKENFUSE_CLOUD_KEYS'')
      in if es = [] \<and> env_flag env ''TOKENFUSE_CLOUD_ALLOW_DEVKEY''
         then (if k = ''devkey'' then Some \<lparr> p_org = ''default'', p_role = ''admin'' \<rparr> else None)
         else map_of (rev es) k)"
  by (simp add: startup_keys_def parse_keys_def key_entries_def fold_key_entries Let_def)

text \<open>A save that fails leaves the old bytes and clears the mark: no later tick retries it.\<close>
lemma failed_save_not_retried:
  "autosave_tick pr ok (autosave_tick pr False (i, disk)) = (i\<lparr>dirty := False\<rparr>, disk)"
  by (simp add: autosave_tick_def take_dirty_def)

end
