(* ===== verification/RaftStore.thy ===== *)
theory RaftStore
  imports Cluster OrdMap
begin

text \<open>
  The storage a cluster node runs on: the in-memory log and state machine of
  \<open>crates/cluster/src/store.rs\<close> and the durable ones of \<open>redbstore.rs\<close>.

  A method that holds the lock, or one redb transaction, is atomic.  The types
  openraft declares and the code only stores and copies (a leader id, a vote, a
  membership) are type variables, as is the type of serialized bytes; what serde
  writes and reads is a \<open>Codec\<close>.  A durable operation takes the outcomes of its
  transactions in order (\<open>io n\<close> is whether the \<open>n\<close>-th one commits): a transaction
  that fails, or that a crash cuts off, leaves the file as it was, which is what redb
  documents.
\<close>

section \<open>The types of openraft that the code reads\<close>

record 'l LogId =
  li_leader :: 'l
  li_index :: u64

datatype 'm EntryPayload = Blank | Normal Request | Membership 'm

record ('l, 'm) Entry =
  e_log_id :: "'l LogId"
  e_payload :: "'m EntryPayload"

record ('l, 'm) StoredMembership =
  sm_log_id :: "'l LogId option"
  sm_membership :: 'm

record ('l, 'm) SnapshotMeta =
  meta_last_log_id :: "'l LogId option"
  meta_last_membership :: "('l, 'm) StoredMembership"
  meta_snapshot_id :: string

record 'l LogState =
  ls_last_purged :: "'l LogId option"
  ls_last_log_id :: "'l LogId option"

text \<open>\<open>std::ops::Bound\<close>.\<close>
datatype key_bound = Included u64 | Excluded u64 | Unbounded

datatype fault = Panicked | WriteLogs | ReadLogs | WriteVote | WriteStateMachine | ReadStateMachine

fun above :: "key_bound \<Rightarrow> u64 \<Rightarrow> bool" where
  "above (Included x) k = (x \<le> k)"
| "above (Excluded x) k = (x < k)"
| "above Unbounded k = True"

fun below :: "key_bound \<Rightarrow> u64 \<Rightarrow> bool" where
  "below (Included x) k = (k \<le> x)"
| "below (Excluded x) k = (k < x)"
| "below Unbounded k = True"

text \<open>\<open>BTreeMap::range\<close> panics on an inverted range, and on an empty one with both ends excluded.\<close>
fun range_panics :: "key_bound \<Rightarrow> key_bound \<Rightarrow> bool" where
  "range_panics (Included a) (Included b) = (b < a)"
| "range_panics (Included a) (Excluded b) = (b < a)"
| "range_panics (Excluded a) (Included b) = (b < a)"
| "range_panics (Excluded a) (Excluded b) = (b \<le> a)"
| "range_panics _ _ = False"

text \<open>The entries of an ordered map whose keys lie in a range, in key order.\<close>
definition range_values :: "(u64 \<Rightarrow> bool) \<Rightarrow> (u64, 'a) fmap \<Rightarrow> 'a list" where
  "range_values p m = map (\<lambda>k. the (fmlookup m k)) (filter p (fm_keys m))"

section \<open>The in-memory log\<close>

record ('l, 'm, 'v) LogInner =
  lg_vote :: "'v option"
  lg_log :: "(u64, ('l, 'm) Entry) fmap"
  lg_committed :: "'l LogId option"
  lg_purged :: "'l LogId option"

definition LogInner_default :: "('l, 'm, 'v) LogInner" where
  "LogInner_default = \<lparr> lg_vote = None, lg_log = fmempty, lg_committed = None, lg_purged = None \<rparr>"

definition mem_try_get :: "key_bound \<Rightarrow> key_bound \<Rightarrow> ('l, 'm, 'v) LogInner \<Rightarrow> (fault, ('l, 'm) Entry list) result" where
  "mem_try_get lo hi s =
     (if range_panics lo hi then Inl Panicked else Inr (range_values (\<lambda>k. above lo k \<and> below hi k) (lg_log s)))"

definition last_value :: "(u64, 'a) fmap \<Rightarrow> 'a option" where
  "last_value m = (if fm_keys m = [] then None else fmlookup m (last (fm_keys m)))"

definition mem_get_log_state :: "('l, 'm, 'v) LogInner \<Rightarrow> 'l LogState" where
  "mem_get_log_state s =
     \<lparr> ls_last_purged = lg_purged s,
       ls_last_log_id = (case last_value (lg_log s) of Some e \<Rightarrow> Some (e_log_id e) | None \<Rightarrow> lg_purged s) \<rparr>"

definition mem_save_vote :: "'v \<Rightarrow> ('l, 'm, 'v) LogInner \<Rightarrow> ('l, 'm, 'v) LogInner" where
  "mem_save_vote v s = s\<lparr>lg_vote := Some v\<rparr>"

definition mem_save_committed :: "'l LogId option \<Rightarrow> ('l, 'm, 'v) LogInner \<Rightarrow> ('l, 'm, 'v) LogInner" where
  "mem_save_committed i s = s\<lparr>lg_committed := i\<rparr>"

definition mem_append :: "('l, 'm) Entry list \<Rightarrow> ('l, 'm, 'v) LogInner \<Rightarrow> ('l, 'm, 'v) LogInner" where
  "mem_append es s = s\<lparr>lg_log := fold (\<lambda>e m. fmupd (li_index (e_log_id e)) e m) es (lg_log s)\<rparr>"

definition remove_keys :: "(u64 \<Rightarrow> bool) \<Rightarrow> (u64, 'a) fmap \<Rightarrow> (u64, 'a) fmap" where
  "remove_keys p m = fold fmdrop (filter p (fm_keys m)) m"

definition mem_truncate :: "'l LogId \<Rightarrow> ('l, 'm, 'v) LogInner \<Rightarrow> ('l, 'm, 'v) LogInner" where
  "mem_truncate i s = s\<lparr>lg_log := remove_keys (\<lambda>k. li_index i \<le> k) (lg_log s)\<rparr>"

definition mem_purge :: "'l LogId \<Rightarrow> ('l, 'm, 'v) LogInner \<Rightarrow> ('l, 'm, 'v) LogInner" where
  "mem_purge i s = (let s' = s\<lparr>lg_purged := Some i\<rparr> in s'\<lparr>lg_log := remove_keys (\<lambda>k. k \<le> li_index i) (lg_log s')\<rparr>)"

section \<open>The in-memory state machine\<close>

record ('l, 'm, 'b) StoredSnapshot =
  ss_meta :: "('l, 'm) SnapshotMeta"
  ss_data :: 'b

record ('l, 'm, 'b) SmInner =
  si_last_applied :: "'l LogId option"
  si_last_membership :: "('l, 'm) StoredMembership"
  si_ledger :: LedgerState
  si_snapshot_idx :: u64
  si_current_snapshot :: "('l, 'm, 'b) StoredSnapshot option"

definition SmInner_default :: "'m \<Rightarrow> ('l, 'm, 'b) SmInner" where
  "SmInner_default m0 = \<lparr> si_last_applied = None, si_last_membership = \<lparr> sm_log_id = None, sm_membership = m0 \<rparr>,
     si_ledger = Map.empty, si_snapshot_idx = 0, si_current_snapshot = None \<rparr>"

definition mem_read_run :: "string \<Rightarrow> ('l, 'm, 'b) SmInner \<Rightarrow> CRunState option" where
  "mem_read_run run s = si_ledger s run"

definition ledger_items :: "LedgerState \<Rightarrow> (string \<times> CRunState) list" where
  "ledger_items runs = map (\<lambda>k. (k, the (runs k))) (sorted_list_of_set (dom runs))"

definition mem_list_runs :: "('l, 'm, 'b) SmInner \<Rightarrow> (string \<times> CRunState) list" where
  "mem_list_runs s = ledger_items (si_ledger s)"

definition mem_apply_entry :: "('l, 'm) Entry \<Rightarrow> ('l, 'm, 'b) SmInner \<Rightarrow> Response \<times> ('l, 'm, 'b) SmInner" where
  "mem_apply_entry e s =
     (let s1 = s\<lparr>si_last_applied := Some (e_log_id e)\<rparr> in
      case e_payload e of
        Blank \<Rightarrow> (Response_default, s1)
      | Normal req \<Rightarrow> (let (resp, l) = apply_request (si_ledger s1) req in (resp, s1\<lparr>si_ledger := l\<rparr>))
      | Membership mem \<Rightarrow>
          (Response_default, s1\<lparr>si_last_membership := \<lparr> sm_log_id = Some (e_log_id e), sm_membership = mem \<rparr>\<rparr>))"

fun mem_apply :: "('l, 'm) Entry list \<Rightarrow> ('l, 'm, 'b) SmInner \<Rightarrow> Response list \<times> ('l, 'm, 'b) SmInner" where
  "mem_apply [] s = ([], s)"
| "mem_apply (e # es) s =
     (let (r, s1) = mem_apply_entry e s; (rs, s2) = mem_apply es s1 in (r # rs, s2))"

definition mem_applied_state :: "('l, 'm, 'b) SmInner \<Rightarrow> 'l LogId option \<times> ('l, 'm) StoredMembership" where
  "mem_applied_state s = (si_last_applied s, si_last_membership s)"

text \<open>The id of a snapshot; openraft's rendering of a leader id is a parameter.\<close>
definition snapshot_id_of :: "('l \<Rightarrow> string) \<Rightarrow> 'l LogId option \<Rightarrow> u64 \<Rightarrow> string" where
  "snapshot_id_of show_leader la idx = (case la of
     Some i \<Rightarrow> show_leader (li_leader i) @ ''-'' @ nat_str (li_index i) @ ''-'' @ nat_str idx
   | None \<Rightarrow> ''--'' @ nat_str idx)"

text \<open>The state the durable store keeps as one blob (\<open>redbstore.rs\<close>).\<close>
record ('l, 'm) SmPersist =
  sp_last_applied :: "'l LogId option"
  sp_last_membership :: "('l, 'm) StoredMembership"
  sp_ledger :: LedgerState

text \<open>What serde writes and reads for the types the stores persist.\<close>
record ('l, 'm, 'v, 'b) Codec =
  enc_entry :: "('l, 'm) Entry \<Rightarrow> 'b"
  dec_entry :: "'b \<Rightarrow> ('l, 'm) Entry option"
  enc_vote :: "'v \<Rightarrow> 'b"
  dec_vote :: "'b \<Rightarrow> 'v option"
  enc_opt_id :: "'l LogId option \<Rightarrow> 'b"
  dec_opt_id :: "'b \<Rightarrow> 'l LogId option option"
  dec_id :: "'b \<Rightarrow> 'l LogId option"
  enc_ledger :: "LedgerState \<Rightarrow> 'b"
  dec_ledger :: "'b \<Rightarrow> LedgerState option"
  enc_persist :: "('l, 'm) SmPersist \<Rightarrow> 'b"
  dec_persist :: "'b \<Rightarrow> ('l, 'm) SmPersist option"
  enc_snapshot :: "('l, 'm, 'b) StoredSnapshot \<Rightarrow> 'b"
  dec_snapshot :: "'b \<Rightarrow> ('l, 'm, 'b) StoredSnapshot option"
  show_leader :: "'l \<Rightarrow> string"

definition mem_build_snapshot ::
  "('l, 'm, 'v, 'b) Codec \<Rightarrow> ('l, 'm, 'b) SmInner \<Rightarrow> ('l, 'm, 'b) StoredSnapshot \<times> ('l, 'm, 'b) SmInner" where
  "mem_build_snapshot c s =
     (let data = enc_ledger c (si_ledger s);
          s1 = s\<lparr>si_snapshot_idx := wrap_u64 (si_snapshot_idx s + 1)\<rparr>;
          meta = \<lparr> meta_last_log_id = si_last_applied s1, meta_last_membership = si_last_membership s1,
                   meta_snapshot_id = snapshot_id_of (show_leader c) (si_last_applied s1) (si_snapshot_idx s1) \<rparr>;
          snap = \<lparr> ss_meta = meta, ss_data = data \<rparr>
      in (snap, s1\<lparr>si_current_snapshot := Some snap\<rparr>))"

definition mem_install_snapshot ::
  "('l, 'm, 'v, 'b) Codec \<Rightarrow> ('l, 'm) SnapshotMeta \<Rightarrow> 'b \<Rightarrow> ('l, 'm, 'b) SmInner \<Rightarrow> (fault, unit) result \<times> ('l, 'm, 'b) SmInner" where
  "mem_install_snapshot c meta bytes s = (case dec_ledger c bytes of
     None \<Rightarrow> (Inl Panicked, s)
   | Some l \<Rightarrow> (Inr (), s\<lparr>si_ledger := l, si_last_applied := meta_last_log_id meta,
                         si_last_membership := meta_last_membership meta,
                         si_current_snapshot := Some \<lparr> ss_meta = meta, ss_data = bytes \<rparr>\<rparr>))"

definition mem_get_current_snapshot :: "('l, 'm, 'b) SmInner \<Rightarrow> ('l, 'm, 'b) StoredSnapshot option" where
  "mem_get_current_snapshot s = si_current_snapshot s"

end
