(* ===== verification/RedbStore.thy ===== *)
theory RedbStore
  imports RaftStore
begin

text \<open>
  The durable storage of a node (\<open>crates/cluster/src/redbstore.rs\<close>): one file with
  the log, the metadata and the state machine.
\<close>

record 'b RedbFile =
  f_log :: "(u64, 'b) fmap"
  f_meta :: "string \<rightharpoonup> 'b"
  f_sm :: "string \<rightharpoonup> 'b"

text \<open>The file \<open>open_node_db\<close> creates.\<close>
definition RedbFile_empty :: "'b RedbFile" where
  "RedbFile_empty = \<lparr> f_log = fmempty, f_meta = Map.empty, f_sm = Map.empty \<rparr>"

definition write_txn :: "bool \<Rightarrow> fault \<Rightarrow> ('b RedbFile \<Rightarrow> 'b RedbFile) \<Rightarrow> 'b RedbFile \<Rightarrow> (fault, unit) result \<times> 'b RedbFile" where
  "write_txn ok e f d = (if ok then (Inr (), f d) else (Inl e, d))"

section \<open>The log\<close>

text \<open>\<open>RedbLogStore::new\<close> only makes sure the tables exist.\<close>
definition redb_log_new :: "bool \<Rightarrow> 'b RedbFile \<Rightarrow> (fault, unit) result \<times> 'b RedbFile" where
  "redb_log_new ok d = write_txn ok WriteLogs (\<lambda>d. d) d"

text \<open>\<open>get_meta\<close>, with the parser of the type it is asked for.\<close>
definition redb_get_meta :: "('b \<Rightarrow> 'a option) \<Rightarrow> bool \<Rightarrow> string \<Rightarrow> 'b RedbFile \<Rightarrow> (fault, 'a option) result" where
  "redb_get_meta dec ok key d =
     (if \<not> ok then Inl ReadLogs
      else case f_meta d key of
        Some v \<Rightarrow> (case dec v of Some x \<Rightarrow> Inr (Some x) | None \<Rightarrow> Inl ReadLogs)
      | None \<Rightarrow> Inr None)"

definition redb_put_meta :: "bool \<Rightarrow> string \<Rightarrow> 'b \<Rightarrow> 'b RedbFile \<Rightarrow> (fault, unit) result \<times> 'b RedbFile" where
  "redb_put_meta ok key bytes d = write_txn ok WriteVote (\<lambda>d. d\<lparr>f_meta := (f_meta d)(key \<mapsto> bytes)\<rparr>) d"

fun range_start :: "key_bound \<Rightarrow> u64" where
  "range_start (Included x) = x"
| "range_start (Excluded x) = wrap_u64 (x + 1)"
| "range_start Unbounded = 0"

fun range_end :: "key_bound \<Rightarrow> u64" where
  "range_end (Included x) = wrap_u64 (x + 1)"
| "range_end (Excluded x) = x"
| "range_end Unbounded = u64_max"

text \<open>Collecting parsed values up to the first that does not parse.\<close>
fun parse_all :: "('b \<Rightarrow> 'a option) \<Rightarrow> 'b list \<Rightarrow> (fault, 'a list) result" where
  "parse_all dec [] = Inr []"
| "parse_all dec (v # vs) = (case dec v of
     None \<Rightarrow> Inl ReadLogs
   | Some x \<Rightarrow> (case parse_all dec vs of Inl e \<Rightarrow> Inl e | Inr xs \<Rightarrow> Inr (x # xs)))"

definition redb_try_get :: "('l, 'm, 'v, 'b) Codec \<Rightarrow> bool \<Rightarrow> key_bound \<Rightarrow> key_bound \<Rightarrow> 'b RedbFile
    \<Rightarrow> (fault, ('l, 'm) Entry list) result" where
  "redb_try_get c ok lo hi d =
     (if \<not> ok then Inl ReadLogs
      else parse_all (dec_entry c) (range_values (\<lambda>k. range_start lo \<le> k \<and> k < range_end hi) (f_log d)))"

definition redb_get_log_state :: "('l, 'm, 'v, 'b) Codec \<Rightarrow> (nat \<Rightarrow> bool) \<Rightarrow> 'b RedbFile \<Rightarrow> (fault, 'l LogState) result" where
  "redb_get_log_state c io d = (case redb_get_meta (dec_id c) (io 0) ''purged'' d of
     Inl e \<Rightarrow> Inl e
   | Inr purged \<Rightarrow>
       if \<not> io 1 then Inl ReadLogs
       else (case last_value (f_log d) of
         Some v \<Rightarrow> (case dec_entry c v of
             None \<Rightarrow> Inl ReadLogs
           | Some e \<Rightarrow> Inr \<lparr> ls_last_purged = purged, ls_last_log_id = Some (e_log_id e) \<rparr>)
       | None \<Rightarrow> Inr \<lparr> ls_last_purged = purged, ls_last_log_id = purged \<rparr>))"

definition redb_save_vote :: "('l, 'm, 'v, 'b) Codec \<Rightarrow> bool \<Rightarrow> 'v \<Rightarrow> 'b RedbFile \<Rightarrow> (fault, unit) result \<times> 'b RedbFile" where
  "redb_save_vote c ok v d = redb_put_meta ok ''vote'' (enc_vote c v) d"

definition redb_read_vote :: "('l, 'm, 'v, 'b) Codec \<Rightarrow> bool \<Rightarrow> 'b RedbFile \<Rightarrow> (fault, 'v option) result" where
  "redb_read_vote c ok d = redb_get_meta (dec_vote c) ok ''vote'' d"

definition redb_save_committed ::
  "('l, 'm, 'v, 'b) Codec \<Rightarrow> bool \<Rightarrow> 'l LogId option \<Rightarrow> 'b RedbFile \<Rightarrow> (fault, unit) result \<times> 'b RedbFile" where
  "redb_save_committed c ok i d = redb_put_meta ok ''committed'' (enc_opt_id c i) d"

definition redb_read_committed :: "('l, 'm, 'v, 'b) Codec \<Rightarrow> bool \<Rightarrow> 'b RedbFile \<Rightarrow> (fault, 'l LogId option) result" where
  "redb_read_committed c ok d = (case redb_get_meta (dec_opt_id c) ok ''committed'' d of
     Inl e \<Rightarrow> Inl e
   | Inr x \<Rightarrow> Inr (Option.bind x id))"

definition redb_append :: "('l, 'm, 'v, 'b) Codec \<Rightarrow> bool \<Rightarrow> ('l, 'm) Entry list \<Rightarrow> 'b RedbFile
    \<Rightarrow> (fault, unit) result \<times> 'b RedbFile" where
  "redb_append c ok es d = write_txn ok WriteLogs
     (\<lambda>d. d\<lparr>f_log := fold (\<lambda>e m. fmupd (li_index (e_log_id e)) (enc_entry c e) m) es (f_log d)\<rparr>) d"

definition redb_truncate :: "bool \<Rightarrow> 'l LogId \<Rightarrow> 'b RedbFile \<Rightarrow> (fault, unit) result \<times> 'b RedbFile" where
  "redb_truncate ok i d = write_txn ok WriteLogs (\<lambda>d. d\<lparr>f_log := remove_keys (\<lambda>k. li_index i \<le> k) (f_log d)\<rparr>) d"

definition redb_purge :: "('l, 'm, 'v, 'b) Codec \<Rightarrow> (nat \<Rightarrow> bool) \<Rightarrow> 'l LogId \<Rightarrow> 'b RedbFile
    \<Rightarrow> (fault, unit) result \<times> 'b RedbFile" where
  "redb_purge c io i d = (case redb_put_meta (io 0) ''purged'' (enc_opt_id c (Some i)) d of
     (Inl e, d1) \<Rightarrow> (Inl e, d1)
   | (Inr _, d1) \<Rightarrow> write_txn (io 1) WriteLogs (\<lambda>d. d\<lparr>f_log := remove_keys (\<lambda>k. k \<le> li_index i) (f_log d)\<rparr>) d1)"

section \<open>The state machine\<close>

record ('l, 'm, 'b) SmMem =
  mm_persist :: "('l, 'm) SmPersist"
  mm_snapshot :: "('l, 'm, 'b) StoredSnapshot option"
  mm_snapshot_idx :: u64

definition SmPersist_default :: "'m \<Rightarrow> ('l, 'm) SmPersist" where
  "SmPersist_default m0 = \<lparr> sp_last_applied = None, sp_last_membership = \<lparr> sm_log_id = None, sm_membership = m0 \<rparr>,
     sp_ledger = Map.empty \<rparr>"

text \<open>A stored value, or the default when the key is absent; an error when it does not parse.\<close>
definition load_sm :: "('b \<Rightarrow> 'a option) \<Rightarrow> 'a \<Rightarrow> string \<Rightarrow> 'b RedbFile \<Rightarrow> (fault, 'a) result" where
  "load_sm dec dflt key d = (case f_sm d key of
     Some v \<Rightarrow> (case dec v of Some x \<Rightarrow> Inr x | None \<Rightarrow> Inl ReadStateMachine)
   | None \<Rightarrow> Inr dflt)"

definition redb_sm_new :: "('l, 'm, 'v, 'b) Codec \<Rightarrow> 'm \<Rightarrow> (nat \<Rightarrow> bool) \<Rightarrow> 'b RedbFile
    \<Rightarrow> (fault, ('l, 'm, 'b) SmMem) result" where
  "redb_sm_new c m0 io d =
     (if \<not> io 0 then Inl WriteStateMachine
      else if \<not> io 1 then Inl ReadStateMachine
      else case load_sm (dec_persist c) (SmPersist_default m0) ''state'' d of
        Inl e \<Rightarrow> Inl e
      | Inr p \<Rightarrow> (case load_sm (\<lambda>v. map_option Some (dec_snapshot c v)) None ''snapshot'' d of
          Inl e \<Rightarrow> Inl e
        | Inr s \<Rightarrow> Inr \<lparr> mm_persist = p, mm_snapshot = s, mm_snapshot_idx = 0 \<rparr>))"

definition persist_state :: "('l, 'm, 'v, 'b) Codec \<Rightarrow> bool \<Rightarrow> ('l, 'm) SmPersist \<Rightarrow> 'b RedbFile
    \<Rightarrow> (fault, unit) result \<times> 'b RedbFile" where
  "persist_state c ok p d = write_txn ok WriteStateMachine (\<lambda>d. d\<lparr>f_sm := (f_sm d)(''state'' \<mapsto> enc_persist c p)\<rparr>) d"

definition persist_snapshot :: "('l, 'm, 'v, 'b) Codec \<Rightarrow> bool \<Rightarrow> ('l, 'm, 'b) StoredSnapshot \<Rightarrow> 'b RedbFile
    \<Rightarrow> (fault, unit) result \<times> 'b RedbFile" where
  "persist_snapshot c ok s d = write_txn ok WriteStateMachine (\<lambda>d. d\<lparr>f_sm := (f_sm d)(''snapshot'' \<mapsto> enc_snapshot c s)\<rparr>) d"

definition redb_read_run :: "string \<Rightarrow> ('l, 'm, 'b) SmMem \<Rightarrow> CRunState option" where
  "redb_read_run run s = sp_ledger (mm_persist s) run"

definition redb_list_runs :: "('l, 'm, 'b) SmMem \<Rightarrow> (string \<times> CRunState) list" where
  "redb_list_runs s = ledger_items (sp_ledger (mm_persist s))"

text \<open>The store's state machine is the memory beside the file.\<close>
type_synonym ('l, 'm, 'b) RedbSm = "('l, 'm, 'b) SmMem \<times> 'b RedbFile"

definition redb_build_snapshot :: "('l, 'm, 'v, 'b) Codec \<Rightarrow> bool \<Rightarrow> ('l, 'm, 'b) RedbSm
    \<Rightarrow> (fault, ('l, 'm, 'b) StoredSnapshot) result \<times> ('l, 'm, 'b) RedbSm" where
  "redb_build_snapshot c ok x = (case x of (s, d) \<Rightarrow>
     let data = enc_ledger c (sp_ledger (mm_persist s));
         la = sp_last_applied (mm_persist s);
         s1 = s\<lparr>mm_snapshot_idx := wrap_u64 (mm_snapshot_idx s + 1)\<rparr>;
         meta = \<lparr> meta_last_log_id = la, meta_last_membership = sp_last_membership (mm_persist s1),
                  meta_snapshot_id = snapshot_id_of (show_leader c) la (mm_snapshot_idx s1) \<rparr>;
         stored = \<lparr> ss_meta = meta, ss_data = data \<rparr>
     in (case persist_snapshot c ok stored d of
           (Inl e, d1) \<Rightarrow> (Inl e, s1, d1)
         | (Inr _, d1) \<Rightarrow> (Inr stored, s1\<lparr>mm_snapshot := Some stored\<rparr>, d1)))"

definition redb_applied_state :: "('l, 'm, 'b) SmMem \<Rightarrow> 'l LogId option \<times> ('l, 'm) StoredMembership" where
  "redb_applied_state s = (sp_last_applied (mm_persist s), sp_last_membership (mm_persist s))"

definition redb_apply_entry :: "('l, 'm) Entry \<Rightarrow> ('l, 'm) SmPersist \<Rightarrow> Response \<times> ('l, 'm) SmPersist" where
  "redb_apply_entry e p =
     (let p1 = p\<lparr>sp_last_applied := Some (e_log_id e)\<rparr> in
      case e_payload e of
        Blank \<Rightarrow> (Response_default, p1)
      | Normal req \<Rightarrow> (let (resp, l) = apply_request (sp_ledger p1) req in (resp, p1\<lparr>sp_ledger := l\<rparr>))
      | Membership mem \<Rightarrow>
          (Response_default, p1\<lparr>sp_last_membership := \<lparr> sm_log_id = Some (e_log_id e), sm_membership = mem \<rparr>\<rparr>))"

fun redb_apply_entries :: "('l, 'm) Entry list \<Rightarrow> ('l, 'm) SmPersist \<Rightarrow> Response list \<times> ('l, 'm) SmPersist" where
  "redb_apply_entries [] p = ([], p)"
| "redb_apply_entries (e # es) p =
     (let (r, p1) = redb_apply_entry e p; (rs, p2) = redb_apply_entries es p1 in (r # rs, p2))"

definition redb_apply :: "('l, 'm, 'v, 'b) Codec \<Rightarrow> bool \<Rightarrow> ('l, 'm) Entry list \<Rightarrow> ('l, 'm, 'b) RedbSm
    \<Rightarrow> (fault, Response list) result \<times> ('l, 'm, 'b) RedbSm" where
  "redb_apply c ok es x = (case x of (s, d) \<Rightarrow>
     let (rs, p) = redb_apply_entries es (mm_persist s);
         s1 = s\<lparr>mm_persist := p\<rparr>
     in (case persist_state c ok p d of
           (Inl e, d1) \<Rightarrow> (Inl e, s1, d1)
         | (Inr _, d1) \<Rightarrow> (Inr rs, s1, d1)))"

definition redb_install_snapshot :: "('l, 'm, 'v, 'b) Codec \<Rightarrow> (nat \<Rightarrow> bool) \<Rightarrow> ('l, 'm) SnapshotMeta \<Rightarrow> 'b
    \<Rightarrow> ('l, 'm, 'b) RedbSm \<Rightarrow> (fault, unit) result \<times> ('l, 'm, 'b) RedbSm" where
  "redb_install_snapshot c io meta bytes x = (case x of (s, d) \<Rightarrow>
     (case dec_ledger c bytes of
        None \<Rightarrow> (Inl WriteStateMachine, s, d)
      | Some l \<Rightarrow>
          let p = \<lparr> sp_last_applied = meta_last_log_id meta, sp_last_membership = meta_last_membership meta, sp_ledger = l \<rparr>;
              s1 = s\<lparr>mm_persist := p\<rparr>
          in (case persist_state c (io 0) p d of
                (Inl e, d1) \<Rightarrow> (Inl e, s1, d1)
              | (Inr _, d1) \<Rightarrow>
                  let stored = \<lparr> ss_meta = meta, ss_data = bytes \<rparr>
                  in (case persist_snapshot c (io 1) stored d1 of
                        (Inl e, d2) \<Rightarrow> (Inl e, s1, d2)
                      | (Inr _, d2) \<Rightarrow> (Inr (), s1\<lparr>mm_snapshot := Some stored\<rparr>, d2)))))"

definition redb_get_current_snapshot :: "('l, 'm, 'b) SmMem \<Rightarrow> ('l, 'm, 'b) StoredSnapshot option" where
  "redb_get_current_snapshot s = mm_snapshot s"

end
