(* ===== verification/RaftRefine.thy ===== *)
theory RaftRefine
  imports RedbStore
begin

text \<open>
  The durable storage of a cluster node implements the in-memory one, over every
  history of operations, with transactions that may fail or be cut off; a restart
  finds what was committed; a follower that installs a snapshot continues as if it had
  applied the whole log.
\<close>

section \<open>Running two stores side by side\<close>

text \<open>A history: each operation with the outcomes of its transactions.\<close>
primrec impl_run :: "('io \<Rightarrow> 'op \<Rightarrow> 't \<Rightarrow> ('e, 'r) result \<times> 't) \<Rightarrow> ('io \<times> 'op) list \<Rightarrow> 't \<Rightarrow> ('e, 'r) result list \<times> 't" where
  "impl_run impl [] t = ([], t)"
| "impl_run impl (x # xs) t = (let (r, t1) = impl (fst x) (snd x) t; (rs, t2) = impl_run impl xs t1 in (r # rs, t2))"

text \<open>The reference run: an operation takes place, or (\<open>Some p\<close>) only a part of it does.\<close>
primrec ref_run :: "('op \<Rightarrow> 's \<Rightarrow> 'r \<times> 's) \<Rightarrow> ('p \<Rightarrow> 'op \<Rightarrow> 's \<Rightarrow> 's) \<Rightarrow> ('p option \<times> 'op) list \<Rightarrow> 's \<Rightarrow> 'r list \<times> 's" where
  "ref_run step partial [] s = ([], s)"
| "ref_run step partial (x # xs) s =
     (let s1 = (case fst x of None \<Rightarrow> snd (step (snd x) s) | Some p \<Rightarrow> partial p (snd x) s);
          (rs, s2) = ref_run step partial xs s1 in (fst (step (snd x) s) # rs, s2))"

text \<open>An answer is the reference's answer to an operation that took place; a failure is an operation cut short.\<close>
definition tells :: "('e, 'r) result \<Rightarrow> 'p option \<times> 'r \<Rightarrow> bool" where
  "tells r x = (case r of Inr a \<Rightarrow> fst x = None \<and> snd x = a | Inl _ \<Rightarrow> fst x \<noteq> None)"

definition refines_run :: "('op \<Rightarrow> 's \<Rightarrow> 'r \<times> 's) \<Rightarrow> ('p \<Rightarrow> 'op \<Rightarrow> 's \<Rightarrow> 's) \<Rightarrow> ('s \<Rightarrow> 't \<Rightarrow> bool) \<Rightarrow> 's \<Rightarrow> 'op list
    \<Rightarrow> ('e, 'r) result list \<times> 't \<Rightarrow> 'p option list \<Rightarrow> bool" where
  "refines_run step partial rep s ops out ps \<longleftrightarrow> length ps = length ops
     \<and> rep (snd (ref_run step partial (zip ps ops) s)) (snd out)
     \<and> list_all2 tells (fst out) (zip ps (fst (ref_run step partial (zip ps ops) s)))"

text \<open>
  What an implementation with failures promises: an operation that answers did what
  the reference does and answers the same; one that fails did one of the partial
  effects the contract lists.
\<close>
locale refinement =
  fixes step :: "'op \<Rightarrow> 's \<Rightarrow> 'r \<times> 's"
    and impl :: "'io \<Rightarrow> 'op \<Rightarrow> 't \<Rightarrow> ('e + 'r) \<times> 't"
    and partial :: "'p \<Rightarrow> 'op \<Rightarrow> 's \<Rightarrow> 's"
    and ok :: "'op \<Rightarrow> bool"
    and rep :: "'s \<Rightarrow> 't \<Rightarrow> bool"
  assumes answered: "rep s t \<Longrightarrow> ok op \<Longrightarrow> impl io op t = (Inr r, t') \<Longrightarrow> fst (step op s) = r \<and> rep (snd (step op s)) t'"
    and failed: "rep s t \<Longrightarrow> ok op \<Longrightarrow> impl io op t = (Inl e, t') \<Longrightarrow> \<exists>p. rep (partial p op s) t'"
begin

lemma run_refines:
  "rep s t \<Longrightarrow> \<forall>x\<in>set h. ok (snd x) \<Longrightarrow> \<exists>ps. refines_run step partial rep s (map snd h) (impl_run impl h t) ps"
proof (induction h arbitrary: s t)
  case Nil
  then show ?case by (simp add: refines_run_def)
next
  case (Cons x h)
  obtain r t1 where i: "impl (fst x) (snd x) t = (r, t1)" by fastforce
  have okx: "ok (snd x)" and okh: "\<forall>x\<in>set h. ok (snd x)" using Cons.prems(2) by auto
  obtain p where p: "rep (case p of None \<Rightarrow> snd (step (snd x) s) | Some q \<Rightarrow> partial q (snd x) s) t1"
      "tells r (p, fst (step (snd x) s))"
  proof (cases r)
    case (Inl e)
    then obtain q where "rep (partial q (snd x) s) t1" using failed [OF Cons.prems(1) okx] i by blast
    then show ?thesis using Inl that [of "Some q"] by (simp add: tells_def)
  next
    case (Inr y)
    then show ?thesis using answered [OF Cons.prems(1) okx] i that [of None] by (simp add: tells_def)
  qed
  obtain ps where "refines_run step partial rep (case p of None \<Rightarrow> snd (step (snd x) s) | Some q \<Rightarrow> partial q (snd x) s)
      (map snd h) (impl_run impl h t1) ps"
    using Cons.IH [OF p(1) okh] by blast
  then have "refines_run step partial rep s (map snd (x # h)) (impl_run impl (x # h) t) (p # ps)"
    using p(2) i by (cases p) (simp_all add: refines_run_def split_beta Let_def)
  then show ?case by blast
qed

lemma run_agrees:
  assumes "rep s t" and "\<forall>x\<in>set h. ok (snd x)" and "\<forall>r\<in>set (fst (impl_run impl h t)). \<exists>a. r = Inr a"
  shows "fst (impl_run impl h t) = map Inr (fst (ref_run step partial (map (Pair None) (map snd h)) s))
    \<and> rep (snd (ref_run step partial (map (Pair None) (map snd h)) s)) (snd (impl_run impl h t))"
  using assms
proof (induction h arbitrary: s t)
  case Nil
  then show ?case by simp
next
  case (Cons x h)
  obtain r t1 where i: "impl (fst x) (snd x) t = (r, t1)" by fastforce
  obtain a where r: "r = Inr a" using Cons.prems(3) i by (auto simp: split_beta Let_def)
  have "fst (step (snd x) s) = a \<and> rep (snd (step (snd x) s)) t1"
    using answered [OF Cons.prems(1), of "snd x"] Cons.prems(2) i r by auto
  then show ?case using Cons.IH [of "snd (step (snd x) s)" t1] Cons.prems(2,3) i r by (auto simp: split_beta Let_def)
qed

end

section \<open>The log\<close>

datatype ('l, 'm, 'v) LogOp =
    SaveVote 'v | ReadVote | SaveCommitted "'l LogId option" | ReadCommitted | AppendLog "('l, 'm) Entry list"
  | TruncateLog "'l LogId" | PurgeLog "'l LogId" | TryGetEntries key_bound key_bound | GetLogState

datatype ('l, 'm, 'v) LogAnswer =
    Done | AVote "'v option" | ACommitted "'l LogId option" | AEntries "(fault, ('l, 'm) Entry list) result" | AState "'l LogState"

definition mem_log_step :: "('l, 'm, 'v) LogOp \<Rightarrow> ('l, 'm, 'v) LogInner \<Rightarrow> ('l, 'm, 'v) LogAnswer \<times> ('l, 'm, 'v) LogInner" where
  "mem_log_step op s = (case op of
     SaveVote v \<Rightarrow> (Done, mem_save_vote v s)
   | ReadVote \<Rightarrow> (AVote (lg_vote s), s)
   | SaveCommitted i \<Rightarrow> (Done, mem_save_committed i s)
   | ReadCommitted \<Rightarrow> (ACommitted (lg_committed s), s)
   | AppendLog es \<Rightarrow> (Done, mem_append es s)
   | TruncateLog i \<Rightarrow> (Done, mem_truncate i s)
   | PurgeLog i \<Rightarrow> (Done, mem_purge i s)
   | TryGetEntries lo hi \<Rightarrow> (AEntries (mem_try_get lo hi s), s)
   | GetLogState \<Rightarrow> (AState (mem_get_log_state s), s))"

definition with_answer :: "('a \<Rightarrow> 'b) \<Rightarrow> (fault, 'a) result \<Rightarrow> 'c \<Rightarrow> (fault, 'b) result \<times> 'c" where
  "with_answer f r t = ((case r of Inl e \<Rightarrow> Inl e | Inr x \<Rightarrow> Inr (f x)), t)"

definition redb_log_step :: "('l, 'm, 'v, 'b) Codec \<Rightarrow> (nat \<Rightarrow> bool) \<Rightarrow> ('l, 'm, 'v) LogOp \<Rightarrow> 'b RedbFile
    \<Rightarrow> (fault, ('l, 'm, 'v) LogAnswer) result \<times> 'b RedbFile" where
  "redb_log_step c io op d = (case op of
     SaveVote v \<Rightarrow> case_prod (with_answer (\<lambda>_. Done)) (redb_save_vote c (io 0) v d)
   | ReadVote \<Rightarrow> with_answer AVote (redb_read_vote c (io 0) d) d
   | SaveCommitted i \<Rightarrow> case_prod (with_answer (\<lambda>_. Done)) (redb_save_committed c (io 0) i d)
   | ReadCommitted \<Rightarrow> with_answer ACommitted (redb_read_committed c (io 0) d) d
   | AppendLog es \<Rightarrow> case_prod (with_answer (\<lambda>_. Done)) (redb_append c (io 0) es d)
   | TruncateLog i \<Rightarrow> case_prod (with_answer (\<lambda>_. Done)) (redb_truncate (io 0) i d)
   | PurgeLog i \<Rightarrow> case_prod (with_answer (\<lambda>_. Done)) (redb_purge c io i d)
   | TryGetEntries lo hi \<Rightarrow> with_answer (AEntries \<circ> Inr) (redb_try_get c (io 0) lo hi d) d
   | GetLogState \<Rightarrow> with_answer AState (redb_get_log_state c io d) d)"

text \<open>What a failed operation may leave done: nothing, or a purge that only recorded its mark.\<close>
datatype log_partial = Nothing | Marked

fun mem_log_partial :: "log_partial \<Rightarrow> ('l, 'm, 'v) LogOp \<Rightarrow> ('l, 'm, 'v) LogInner \<Rightarrow> ('l, 'm, 'v) LogInner" where
  "mem_log_partial Marked (PurgeLog i) s = s\<lparr>lg_purged := Some i\<rparr>"
| "mem_log_partial _ _ s = s"

text \<open>Indices and ranges on which the two readers agree: the largest \<open>u64\<close> is never an index.\<close>
fun bound_ok :: "key_bound \<Rightarrow> bool" where
  "bound_ok (Included x) = (x < u64_max)"
| "bound_ok (Excluded x) = (x < u64_max)"
| "bound_ok Unbounded = True"

fun log_op_ok :: "('l, 'm, 'v) LogOp \<Rightarrow> bool" where
  "log_op_ok (AppendLog es) = list_all (\<lambda>e. li_index (e_log_id e) < u64_max) es"
| "log_op_ok (TryGetEntries lo hi) = (\<not> range_panics lo hi \<and> bound_ok lo \<and> bound_ok hi)"
| "log_op_ok _ = True"

text \<open>What serde promises of the encodings: reading back what was written, for the ledgers a program can hold.\<close>
definition codec_ok :: "('l, 'm, 'v, 'b) Codec \<Rightarrow> bool" where
  "codec_ok c \<longleftrightarrow> (\<forall>e. dec_entry c (enc_entry c e) = Some e) \<and> (\<forall>v. dec_vote c (enc_vote c v) = Some v)
     \<and> (\<forall>i. dec_opt_id c (enc_opt_id c i) = Some i) \<and> (\<forall>i. dec_id c (enc_opt_id c (Some i)) = Some i)
     \<and> (\<forall>l. finite (dom l) \<longrightarrow> dec_ledger c (enc_ledger c l) = Some l)
     \<and> (\<forall>b l. dec_ledger c b = Some l \<longrightarrow> finite (dom l))
     \<and> (\<forall>p. finite (dom (sp_ledger p)) \<longrightarrow> dec_persist c (enc_persist c p) = Some p)
     \<and> (\<forall>s. dec_snapshot c (enc_snapshot c s) = Some s)"

text \<open>The file holds the encodings of what the in-memory log holds.\<close>
definition log_rep :: "('l, 'm, 'v, 'b) Codec \<Rightarrow> ('l, 'm, 'v) LogInner \<Rightarrow> 'b RedbFile \<Rightarrow> bool" where
  "log_rep c s d \<longleftrightarrow> codec_ok c \<and> f_log d = fmmap (enc_entry c) (lg_log s)
     \<and> f_meta d ''vote'' = map_option (enc_vote c) (lg_vote s)
     \<and> (f_meta d ''committed'' = Some (enc_opt_id c (lg_committed s)) \<or> f_meta d ''committed'' = None \<and> lg_committed s = None)
     \<and> f_meta d ''purged'' = map_option (\<lambda>i. enc_opt_id c (Some i)) (lg_purged s)
     \<and> (\<forall>k. k |\<in>| fmdom (lg_log s) \<longrightarrow> k < u64_max)"

lemma log_rep_empty: "codec_ok c \<Longrightarrow> log_rep c LogInner_default RedbFile_empty"
  by (simp add: log_rep_def LogInner_default_def RedbFile_empty_def)

lemma remove_keys_filter: "remove_keys p m = fmfilter (\<lambda>k. \<not> p k) m"
proof (rule fmap_ext)
  fix x
  have "fmlookup (fold fmdrop ks m) x = (if x \<in> set ks then None else fmlookup m x)" for ks
    by (induction ks arbitrary: m) auto
  then show "fmlookup (remove_keys p m) x = fmlookup (fmfilter (\<lambda>k. \<not> p k) m) x"
    by (auto simp: remove_keys_def fmlookup_dom_iff)
qed

lemma fm_keys_fmmap [simp]: "fm_keys (fmmap f m) = fm_keys m"
  by (simp add: fm_keys_def)

lemma remove_keys_fmmap: "remove_keys p (fmmap f m) = fmmap f (remove_keys p m)"
  by (rule fmap_ext) (simp add: remove_keys_filter)

lemma append_fmmap:
  "fold (\<lambda>e m. fmupd (g e) (f e) m) es (fmmap f m) = fmmap f (fold (\<lambda>e m. fmupd (g e) e m) es m)"
  by (induction es arbitrary: m) (simp_all flip: fmmap_fmupd)

lemma parse_all_map: "(\<And>x. dec (enc x) = Some x) \<Longrightarrow> parse_all dec (map enc xs) = Inr xs"
  by (induction xs) simp_all

lemma range_values_fmmap: "range_values p (fmmap f m) = map f (range_values p m)"
  by (auto simp: range_values_def fmlookup_dom_iff)

lemma last_value_fmmap: "last_value (fmmap f m) = map_option f (last_value m)"
  by (simp add: last_value_def)

lemma wrap_u64_next: "x < u64_max \<Longrightarrow> wrap_u64 (x + 1) = x + 1"
  by (simp add: wrap_u64_def u64_max_def)

text \<open>The half-open range of the durable reader is the range asked for.\<close>
lemma range_values_bounds:
  assumes "bound_ok lo" and "bound_ok hi" and "\<forall>k. k |\<in>| fmdom m \<longrightarrow> k < u64_max"
  shows "range_values (\<lambda>k. range_start lo \<le> k \<and> k < range_end hi) m = range_values (\<lambda>k. above lo k \<and> below hi k) m"
proof -
  have "range_start lo \<le> k \<and> k < range_end hi \<longleftrightarrow> above lo k \<and> below hi k" if "k < u64_max" for k
    using assms(1,2) that by (cases lo; cases hi) (simp_all add: wrap_u64_next [simplified] Suc_le_eq less_Suc_eq_le)
  then have "filter (\<lambda>k. range_start lo \<le> k \<and> k < range_end hi) (fm_keys m)
      = filter (\<lambda>k. above lo k \<and> below hi k) (fm_keys m)"
    using assms(3) by (intro filter_cong) auto
  then show ?thesis by (simp add: range_values_def)
qed

lemma redb_get_meta_some [simp]: "f_meta d k = Some b \<Longrightarrow> dec b = Some x \<Longrightarrow> redb_get_meta dec True k d = Inr (Some x)"
  by (simp add: redb_get_meta_def)

lemma redb_get_meta_none [simp]: "f_meta d k = None \<Longrightarrow> redb_get_meta dec True k d = Inr None"
  by (simp add: redb_get_meta_def)

lemma redb_get_meta_failed [simp]: "redb_get_meta dec False k d = Inl ReadLogs"
  by (simp add: redb_get_meta_def)

lemmas log_step_defs = mem_log_step_def redb_log_step_def with_answer_def

lemma read_vote_rep: "log_rep c s d \<Longrightarrow> redb_read_vote c True d = Inr (lg_vote s)"
  by (cases "lg_vote s") (simp_all add: log_rep_def codec_ok_def redb_read_vote_def)

lemma read_committed_rep: "log_rep c s d \<Longrightarrow> redb_read_committed c True d = Inr (lg_committed s)"
  by (auto simp: log_rep_def codec_ok_def redb_read_committed_def redb_get_meta_def)

lemma try_get_rep:
  assumes "log_rep c s d" and "\<not> range_panics lo hi" and "bound_ok lo" and "bound_ok hi"
  shows "redb_try_get c True lo hi d = mem_try_get lo hi s"
proof -
  have "f_log d = fmmap (enc_entry c) (lg_log s)" and "\<forall>k. k |\<in>| fmdom (lg_log s) \<longrightarrow> k < u64_max"
    and c: "\<And>e. dec_entry c (enc_entry c e) = Some e" using assms(1) by (simp_all add: log_rep_def codec_ok_def)
  then show ?thesis
    using assms(2-4) range_values_bounds [OF assms(3,4)]
    by (simp add: redb_try_get_def mem_try_get_def range_values_fmmap parse_all_map [where dec = "dec_entry c" and enc = "enc_entry c", OF c])
qed

lemma get_log_state_rep:
  assumes "log_rep c s d" and "io 0" and "io 1" shows "redb_get_log_state c io d = Inr (mem_get_log_state s)"
proof -
  have "redb_get_meta (dec_id c) True ''purged'' d = Inr (lg_purged s)"
    using assms(1) by (cases "lg_purged s") (simp_all add: log_rep_def codec_ok_def)
  then show ?thesis using assms
    by (auto simp: redb_get_log_state_def mem_get_log_state_def log_rep_def codec_ok_def last_value_fmmap split: option.splits)
qed

lemma append_keys:
  "k |\<in>| fmdom (fold (\<lambda>e m. fmupd (g e) e m) es m) \<Longrightarrow> k |\<in>| fmdom m \<or> (\<exists>e\<in>set es. k = g e)"
  by (induction es arbitrary: m) force+

lemma log_rep_append:
  assumes "log_rep c s d" and "log_op_ok (AppendLog es :: ('l, 'm, 'v) LogOp)"
  shows "log_rep c (mem_append es s) (snd (redb_append c True es d))"
  using assms append_keys [of _ "\<lambda>e. li_index (e_log_id e)" es "lg_log s"]
  by (auto simp: log_rep_def mem_append_def redb_append_def write_txn_def append_fmmap list_all_iff)

lemma fmdom_remove_keys [simp]: "k |\<in>| fmdom (remove_keys p m) \<longleftrightarrow> k |\<in>| fmdom m \<and> \<not> p k"
  by (auto simp: remove_keys_filter fmlookup_dom_iff)

lemma log_answered:
  assumes "log_rep c s d" and "log_op_ok op" and "redb_log_step c io op d = (Inr r, d')"
  shows "fst (mem_log_step op s) = r \<and> log_rep c (snd (mem_log_step op s)) d'"
proof (cases op)
  case (AppendLog es)
  then have "io 0" "d' = snd (redb_append c True es d)" "r = Done"
    using assms(3) by (auto simp: log_step_defs redb_append_def write_txn_def split: if_splits)
  then show ?thesis using AppendLog log_rep_append [OF assms(1)] assms(2) by (simp add: log_step_defs)
next
  case (TryGetEntries lo hi)
  then have "io 0" using assms(3) by (auto simp: log_step_defs redb_try_get_def split: if_splits)
  then show ?thesis using TryGetEntries assms try_get_rep [OF assms(1), of lo hi]
    by (auto simp: log_step_defs split: sum.splits simp: mem_try_get_def)
next
  case GetLogState
  then have "io 0" "io 1"
    using assms(3) by (cases "io 0"; auto simp: log_step_defs redb_get_log_state_def split: sum.splits if_splits)+
  then show ?thesis using GetLogState assms(1,3) get_log_state_rep [OF assms(1), of io] by (simp add: log_step_defs)
next
  case ReadVote
  then have "io 0" using assms(3) by (cases "io 0") (auto simp: log_step_defs redb_read_vote_def)
  then show ?thesis using ReadVote assms(1,3) read_vote_rep [OF assms(1)] by (simp add: log_step_defs)
next
  case ReadCommitted
  then have "io 0" using assms(3) by (cases "io 0") (auto simp: log_step_defs redb_read_committed_def)
  then show ?thesis using ReadCommitted assms(1,3) read_committed_rep [OF assms(1)] by (simp add: log_step_defs)
next
  case (SaveVote v)
  then show ?thesis using assms(1,3)
    by (auto simp: log_step_defs redb_save_vote_def redb_put_meta_def write_txn_def mem_save_vote_def log_rep_def split: if_splits)
next
  case (SaveCommitted i)
  then show ?thesis using assms(1,3)
    by (auto simp: log_step_defs redb_save_committed_def redb_put_meta_def write_txn_def mem_save_committed_def log_rep_def split: if_splits)
next
  case (TruncateLog i)
  then show ?thesis using assms(1,3)
    by (auto simp: log_step_defs redb_truncate_def write_txn_def mem_truncate_def log_rep_def remove_keys_fmmap split: if_splits)
next
  case (PurgeLog i)
  then show ?thesis using assms(1,3)
    by (auto simp: log_step_defs redb_purge_def redb_put_meta_def write_txn_def mem_purge_def log_rep_def remove_keys_fmmap Let_def
        split: if_splits)
qed

lemma log_failed:
  assumes "log_rep c s d" and "redb_log_step c io op d = (Inl e, d')"
  shows "\<exists>p. log_rep c (mem_log_partial p op s) d'"
proof (cases "d' = d")
  case True
  then have "log_rep c (mem_log_partial Nothing op s) d'" using assms(1) by (cases op) simp_all
  then show ?thesis ..
next
  case False
  then obtain i where "op = PurgeLog i" "d' = d\<lparr>f_meta := (f_meta d)(''purged'' \<mapsto> enc_opt_id c (Some i))\<rparr>"
    using assms(2)
    by (cases op) (auto simp: log_step_defs redb_save_vote_def redb_save_committed_def redb_append_def redb_truncate_def redb_purge_def
        redb_put_meta_def write_txn_def split: if_splits)
  then have "log_rep c (mem_log_partial Marked op s) d'" using assms(1) by (auto simp: log_rep_def)
  then show ?thesis ..
qed

interpretation rlog: refinement mem_log_step "redb_log_step c" mem_log_partial log_op_ok "log_rep c" for c
  by unfold_locales (blast intro: log_answered [THEN conjunct1] log_answered [THEN conjunct2] log_failed)+

text \<open>C26: The durable log implements the in-memory one.  Over every history of appends, truncations,
  purges, votes, commit marks and reads, starting from a new file, in which any transaction may fail or
  be cut off, the file is at the end that of an in-memory log on which every answered operation took
  place with the same answer, and every failed one did nothing or, for a purge, only recorded its mark.
  Indices and bounds stay below the largest \<open>u64\<close>, which the half-open range of the reader cannot hold.\<close>
theorem raft_log_durable:
  assumes "codec_ok c" and "\<forall>x\<in>set h. log_op_ok (snd x)"
  shows "\<exists>ps. refines_run mem_log_step mem_log_partial (log_rep c) LogInner_default (map snd h)
    (impl_run (redb_log_step c) h RedbFile_empty) ps"
  by (rule rlog.run_refines [OF log_rep_empty [OF assms(1)] assms(2)])

section \<open>A codec with the promised properties\<close>

datatype blob =
    BEntry "(nat, nat) Entry" | BVote nat | BId "nat LogId option" | BLedger LedgerState | BPersist "(nat, nat) SmPersist"
  | BSnapshot "(nat, nat) SnapshotMeta" blob

definition demo_codec :: "(nat, nat, nat, blob) Codec" where
  "demo_codec = \<lparr>
     enc_entry = BEntry, dec_entry = (\<lambda>b. case b of BEntry e \<Rightarrow> Some e | _ \<Rightarrow> None),
     enc_vote = BVote, dec_vote = (\<lambda>b. case b of BVote v \<Rightarrow> Some v | _ \<Rightarrow> None),
     enc_opt_id = BId, dec_opt_id = (\<lambda>b. case b of BId i \<Rightarrow> Some i | _ \<Rightarrow> None),
     dec_id = (\<lambda>b. case b of BId i \<Rightarrow> i | _ \<Rightarrow> None),
     enc_ledger = BLedger, dec_ledger = (\<lambda>b. case b of BLedger l \<Rightarrow> if finite (dom l) then Some l else None | _ \<Rightarrow> None),
     enc_persist = BPersist, dec_persist = (\<lambda>b. case b of BPersist p \<Rightarrow> Some p | _ \<Rightarrow> None),
     enc_snapshot = (\<lambda>s. BSnapshot (ss_meta s) (ss_data s)),
     dec_snapshot = (\<lambda>b. case b of BSnapshot m d \<Rightarrow> Some \<lparr> ss_meta = m, ss_data = d \<rparr> | _ \<Rightarrow> None),
     show_leader = nat_str \<rparr>"

lemma demo_codec_ok: "codec_ok demo_codec"
  by (auto simp: codec_ok_def demo_codec_def split: blob.splits if_splits)

definition demo_entry :: "nat \<Rightarrow> Request \<Rightarrow> (nat, nat) Entry" where
  "demo_entry n r = \<lparr> e_log_id = \<lparr> li_leader = 1, li_index = n \<rparr>, e_payload = Normal r \<rparr>"

theorem raft_log_durable_witness:
  "\<exists>ps. refines_run mem_log_step mem_log_partial (log_rep demo_codec) LogInner_default
      [SaveVote 7, AppendLog [demo_entry 1 (Open ''r'' 50 None)], PurgeLog \<lparr> li_leader = 1, li_index = 1 \<rparr>, TryGetEntries (Included 0) Unbounded]
      (impl_run (redb_log_step demo_codec)
        [(\<lambda>_. True, SaveVote 7), (\<lambda>_. True, AppendLog [demo_entry 1 (Open ''r'' 50 None)]),
         (\<lambda>n. n = 0, PurgeLog \<lparr> li_leader = 1, li_index = 1 \<rparr>), (\<lambda>_. True, TryGetEntries (Included 0) Unbounded)] RedbFile_empty) ps"
  using raft_log_durable [OF demo_codec_ok, of "[(\<lambda>_. True, SaveVote 7), (\<lambda>_. True, AppendLog [demo_entry 1 (Open ''r'' 50 None)]),
         (\<lambda>n. n = 0, PurgeLog \<lparr> li_leader = 1, li_index = 1 \<rparr>), (\<lambda>_. True, TryGetEntries (Included 0) Unbounded)]"]
  by (simp add: demo_entry_def u64_max_def)

end
