(* ===== verification/RaftRestart.thy ===== *)
theory RaftRestart
  imports RaftRefine
begin

text \<open>
  The durable state machine against the in-memory one, with transactions that fail and
  processes that restart (openraft stops a node whose storage fails), and the
  installation of a snapshot against the log it replaces.
\<close>

section \<open>Histories of a node's state machine\<close>

datatype ('l, 'm, 'b) SmOp =
    ApplyEntries "('l, 'm) Entry list" | BuildSnapshot | InstallSnapshot "('l, 'm) SnapshotMeta" 'b | Restart

datatype ('l, 'm, 'b) SmAnswer =
    Responses "Response list" | Built "('l, 'm, 'b) StoredSnapshot" | Installed | Restarted

definition mem_sm_step :: "('l, 'm, 'v, 'b) Codec \<Rightarrow> ('l, 'm, 'b) SmOp \<Rightarrow> ('l, 'm, 'b) SmInner
    \<Rightarrow> ('l, 'm, 'b) SmAnswer \<times> ('l, 'm, 'b) SmInner" where
  "mem_sm_step c op s = (case op of
     ApplyEntries es \<Rightarrow> apfst Responses (mem_apply es s)
   | BuildSnapshot \<Rightarrow> apfst Built (mem_build_snapshot c s)
   | InstallSnapshot meta bytes \<Rightarrow> (Installed, snd (mem_install_snapshot c meta bytes s))
   | Restart \<Rightarrow> (Restarted, s\<lparr>si_snapshot_idx := 0\<rparr>))"

text \<open>A new process opens the file; when it does not load, the node stays down.\<close>
definition reload :: "('l, 'm, 'v, 'b) Codec \<Rightarrow> 'm \<Rightarrow> ('l, 'm, 'b) RedbSm \<Rightarrow> (fault, ('l, 'm, 'b) SmAnswer) result \<times> ('l, 'm, 'b) RedbSm" where
  "reload c m0 x = (case redb_sm_new c m0 (\<lambda>_. True) (snd x) of
     Inr s \<Rightarrow> (Inr Restarted, s, snd x)
   | Inl e \<Rightarrow> (Inl e, x))"

definition redb_sm_op :: "('l, 'm, 'v, 'b) Codec \<Rightarrow> 'm \<Rightarrow> (nat \<Rightarrow> bool) \<Rightarrow> ('l, 'm, 'b) SmOp \<Rightarrow> ('l, 'm, 'b) RedbSm
    \<Rightarrow> (fault, ('l, 'm, 'b) SmAnswer) result \<times> ('l, 'm, 'b) RedbSm" where
  "redb_sm_op c m0 io op x = (case op of
     ApplyEntries es \<Rightarrow> case_prod (with_answer Responses) (redb_apply c (io 0) es x)
   | BuildSnapshot \<Rightarrow> case_prod (with_answer Built) (redb_build_snapshot c (io 0) x)
   | InstallSnapshot meta bytes \<Rightarrow> case_prod (with_answer (\<lambda>_. Installed)) (redb_install_snapshot c io meta bytes x)
   | Restart \<Rightarrow> reload c m0 x)"

text \<open>A storage error stops the node, which then starts again from its file.\<close>
definition redb_sm_step :: "('l, 'm, 'v, 'b) Codec \<Rightarrow> 'm \<Rightarrow> (nat \<Rightarrow> bool) \<Rightarrow> ('l, 'm, 'b) SmOp \<Rightarrow> ('l, 'm, 'b) RedbSm
    \<Rightarrow> (fault, ('l, 'm, 'b) SmAnswer) result \<times> ('l, 'm, 'b) RedbSm" where
  "redb_sm_step c m0 io op x = (case redb_sm_op c m0 io op x of
     (Inr a, y) \<Rightarrow> (Inr a, y)
   | (Inl e, y) \<Rightarrow> (Inl e, snd (reload c m0 y)))"

text \<open>What a failed operation may leave done: nothing, or an installed state without its snapshot.\<close>
datatype sm_partial = Before | StateOnly

fun mem_sm_partial :: "('l, 'm, 'v, 'b) Codec \<Rightarrow> sm_partial \<Rightarrow> ('l, 'm, 'b) SmOp \<Rightarrow> ('l, 'm, 'b) SmInner \<Rightarrow> ('l, 'm, 'b) SmInner" where
  "mem_sm_partial c StateOnly (InstallSnapshot meta bytes) s =
     (snd (mem_install_snapshot c meta bytes s))\<lparr>si_current_snapshot := si_current_snapshot s, si_snapshot_idx := 0\<rparr>"
| "mem_sm_partial c _ _ s = s\<lparr>si_snapshot_idx := 0\<rparr>"

fun sm_op_ok :: "('l, 'm, 'v, 'b) Codec \<Rightarrow> ('l, 'm, 'b) SmOp \<Rightarrow> bool" where
  "sm_op_ok c (InstallSnapshot meta bytes) = (dec_ledger c bytes \<noteq> None)"
| "sm_op_ok c _ = True"

definition persist_of :: "('l, 'm, 'b) SmInner \<Rightarrow> ('l, 'm) SmPersist" where
  "persist_of s = \<lparr> sp_last_applied = si_last_applied s, sp_last_membership = si_last_membership s, sp_ledger = si_ledger s \<rparr>"

definition sm_rep :: "('l, 'm, 'v, 'b) Codec \<Rightarrow> 'm \<Rightarrow> ('l, 'm, 'b) SmInner \<Rightarrow> ('l, 'm, 'b) RedbSm \<Rightarrow> bool" where
  "sm_rep c m0 s x \<longleftrightarrow> codec_ok c \<and> finite (dom (si_ledger s))
     \<and> fst x = \<lparr> mm_persist = persist_of s, mm_snapshot = si_current_snapshot s, mm_snapshot_idx = si_snapshot_idx s \<rparr>
     \<and> (f_sm (snd x) ''state'' = Some (enc_persist c (persist_of s))
         \<or> f_sm (snd x) ''state'' = None \<and> persist_of s = SmPersist_default m0)
     \<and> f_sm (snd x) ''snapshot'' = map_option (enc_snapshot c) (si_current_snapshot s)"

lemma finite_apply_request [simp]: "finite (dom l) \<Longrightarrow> finite (dom (snd (apply_request l req)))"
  by (cases req) (auto simp: apply_request_def apply_open_def apply_reserve_req_def apply_settle_def Let_def split: option.splits)

lemma finite_mem_apply [simp]: "finite (dom (si_ledger s)) \<Longrightarrow> finite (dom (si_ledger (snd (mem_apply es s))))"
proof (induction es arbitrary: s)
  case (Cons e es)
  have "finite (dom (si_ledger (snd (mem_apply_entry e s))))" using Cons.prems
    by (auto simp: mem_apply_entry_def Let_def split_beta split: EntryPayload.splits)
  then show ?case using Cons.IH by (simp add: split_beta Let_def)
qed simp

lemma persist_apply_entry:
  "redb_apply_entry e (persist_of s) = (fst (mem_apply_entry e s), persist_of (snd (mem_apply_entry e s)))"
  by (auto simp: redb_apply_entry_def mem_apply_entry_def persist_of_def Let_def split_beta split: EntryPayload.splits)

lemma persist_apply:
  "redb_apply_entries es (persist_of s) = (fst (mem_apply es s), persist_of (snd (mem_apply es s)))"
  by (induction es arbitrary: s) (simp_all add: persist_apply_entry split_beta Let_def)

lemma mem_apply_snapshot [simp]:
  "si_current_snapshot (snd (mem_apply es s)) = si_current_snapshot s"
  "si_snapshot_idx (snd (mem_apply es s)) = si_snapshot_idx s"
  by (induction es arbitrary: s) (auto simp: mem_apply_entry_def split_beta Let_def split: EntryPayload.splits)

lemma sm_rep_new: "codec_ok c \<Longrightarrow> sm_rep c m0 (SmInner_default m0)
    (\<lparr> mm_persist = SmPersist_default m0, mm_snapshot = None, mm_snapshot_idx = 0 \<rparr>, RedbFile_empty)"
  by (simp add: sm_rep_def SmInner_default_def persist_of_def SmPersist_default_def RedbFile_empty_def)

text \<open>A file that holds a state loads as that state.\<close>
lemma sm_reload:
  assumes "sm_rep c m0 s (m, d)"
  shows "reload c m0 (m', d) = (Inr Restarted, \<lparr> mm_persist = persist_of s, mm_snapshot = si_current_snapshot s, mm_snapshot_idx = 0 \<rparr>, d)"
proof -
  have "load_sm (dec_persist c) (SmPersist_default m0) ''state'' d = Inr (persist_of s)"
    using assms by (auto simp: sm_rep_def load_sm_def codec_ok_def persist_of_def)
  moreover have "load_sm (\<lambda>v. map_option Some (dec_snapshot c v)) None ''snapshot'' d = Inr (si_current_snapshot s)"
    using assms by (cases "si_current_snapshot s") (auto simp: sm_rep_def load_sm_def codec_ok_def)
  ultimately show ?thesis by (simp add: reload_def redb_sm_new_def)
qed

lemma persist_of_idx [simp]: "persist_of (s\<lparr>si_snapshot_idx := n\<rparr>) = persist_of s"
  by (simp add: persist_of_def)

lemma sm_rep_restart: "sm_rep c m0 s (m, d) \<Longrightarrow> sm_rep c m0 (s\<lparr>si_snapshot_idx := 0\<rparr>) (snd (reload c m0 (m', d)))"
  by (simp add: sm_reload) (simp add: sm_rep_def)

section \<open>Each operation\<close>

lemma redb_apply_out:
  assumes "sm_rep c m0 s x"
  shows "redb_apply c ok es x = (if ok then (Inr (fst (mem_apply es s)), (fst x)\<lparr>mm_persist := persist_of (snd (mem_apply es s))\<rparr>,
        (snd x)\<lparr>f_sm := (f_sm (snd x))(''state'' \<mapsto> enc_persist c (persist_of (snd (mem_apply es s))))\<rparr>)
      else (Inl WriteStateMachine, (fst x)\<lparr>mm_persist := persist_of (snd (mem_apply es s))\<rparr>, snd x))"
  using assms by (simp add: redb_apply_def sm_rep_def persist_apply persist_state_def write_txn_def split_beta Let_def)

lemma redb_build_out:
  assumes "sm_rep c m0 s x"
  shows "redb_build_snapshot c ok x = (let b = mem_build_snapshot c s in
      if ok then (Inr (fst b), (fst x)\<lparr>mm_snapshot_idx := si_snapshot_idx (snd b), mm_snapshot := Some (fst b)\<rparr>,
        (snd x)\<lparr>f_sm := (f_sm (snd x))(''snapshot'' \<mapsto> enc_snapshot c (fst b))\<rparr>)
      else (Inl WriteStateMachine, (fst x)\<lparr>mm_snapshot_idx := si_snapshot_idx (snd b)\<rparr>, snd x))"
  using assms
  by (simp add: redb_build_snapshot_def mem_build_snapshot_def sm_rep_def persist_snapshot_def write_txn_def split_beta Let_def
      persist_of_def)

lemma sm_rep_build:
  assumes "sm_rep c m0 s x"
  shows "sm_rep c m0 (snd (mem_build_snapshot c s)) ((fst x)\<lparr>mm_snapshot_idx := si_snapshot_idx (snd (mem_build_snapshot c s)),
       mm_snapshot := Some (fst (mem_build_snapshot c s))\<rparr>,
     (snd x)\<lparr>f_sm := (f_sm (snd x))(''snapshot'' \<mapsto> enc_snapshot c (fst (mem_build_snapshot c s)))\<rparr>)"
  using assms by (auto simp: sm_rep_def mem_build_snapshot_def Let_def persist_of_def)

lemma sm_rep_apply:
  assumes "sm_rep c m0 s x"
  shows "sm_rep c m0 (snd (mem_apply es s)) ((fst x)\<lparr>mm_persist := persist_of (snd (mem_apply es s))\<rparr>,
     (snd x)\<lparr>f_sm := (f_sm (snd x))(''state'' \<mapsto> enc_persist c (persist_of (snd (mem_apply es s))))\<rparr>)"
  using assms by (auto simp: sm_rep_def)

text \<open>An installation, with each of its two transactions committed or not.\<close>
definition installed :: "('l, 'm) SnapshotMeta \<Rightarrow> LedgerState \<Rightarrow> ('l, 'm) SmPersist" where
  "installed meta l = \<lparr> sp_last_applied = meta_last_log_id meta, sp_last_membership = meta_last_membership meta, sp_ledger = l \<rparr>"

lemma redb_install_out:
  assumes "dec_ledger c bytes = Some l"
  shows "redb_install_snapshot c io meta bytes x =
     (let m1 = (fst x)\<lparr>mm_persist := installed meta l\<rparr>;
          d1 = (snd x)\<lparr>f_sm := (f_sm (snd x))(''state'' \<mapsto> enc_persist c (installed meta l))\<rparr>;
          stored = \<lparr> ss_meta = meta, ss_data = bytes \<rparr> in
      if \<not> io 0 then (Inl WriteStateMachine, m1, snd x)
      else if \<not> io 1 then (Inl WriteStateMachine, m1, d1)
      else (Inr (), m1\<lparr>mm_snapshot := Some stored\<rparr>, d1\<lparr>f_sm := (f_sm d1)(''snapshot'' \<mapsto> enc_snapshot c stored)\<rparr>))"
  using assms
  by (simp add: redb_install_snapshot_def persist_state_def persist_snapshot_def write_txn_def installed_def split_beta Let_def)

lemma sm_rep_install:
  assumes "sm_rep c m0 s x" and "dec_ledger c bytes = Some l"
  shows "sm_rep c m0 (snd (mem_install_snapshot c meta bytes s))
     ((fst x)\<lparr>mm_persist := installed meta l, mm_snapshot := Some \<lparr> ss_meta = meta, ss_data = bytes \<rparr>\<rparr>,
      (snd x)\<lparr>f_sm := (f_sm (snd x))(''state'' \<mapsto> enc_persist c (installed meta l),
         ''snapshot'' \<mapsto> enc_snapshot c \<lparr> ss_meta = meta, ss_data = bytes \<rparr>)\<rparr>)"
proof -
  have "finite (dom l)" using assms by (auto simp: sm_rep_def codec_ok_def)
  then show ?thesis using assms by (simp add: sm_rep_def mem_install_snapshot_def installed_def persist_of_def)
qed

text \<open>A crash between the two transactions of an installation leaves the new state beside the old snapshot.\<close>
lemma sm_rep_state_only:
  assumes "sm_rep c m0 s x" and "dec_ledger c bytes = Some l"
  shows "sm_rep c m0 ((snd (mem_install_snapshot c meta bytes s))\<lparr>si_current_snapshot := si_current_snapshot s\<rparr>)
     ((fst x)\<lparr>mm_persist := installed meta l\<rparr>, (snd x)\<lparr>f_sm := (f_sm (snd x))(''state'' \<mapsto> enc_persist c (installed meta l))\<rparr>)"
proof -
  have "finite (dom l)" using assms by (auto simp: sm_rep_def codec_ok_def)
  then show ?thesis using assms by (simp add: sm_rep_def mem_install_snapshot_def installed_def persist_of_def)
qed

lemma sm_answered:
  assumes "sm_rep c m0 s x" and "sm_op_ok c op" and "redb_sm_step c m0 io op x = (Inr r, y)"
  shows "fst (mem_sm_step c op s) = r \<and> sm_rep c m0 (snd (mem_sm_step c op s)) y"
proof -
  have out: "redb_sm_op c m0 io op x = (Inr r, y)"
    using assms(3) by (auto simp: redb_sm_step_def split: prod.splits sum.splits)
  show ?thesis
  proof (cases op)
    case (ApplyEntries es)
    then show ?thesis using out sm_rep_apply [OF assms(1), of es]
      by (auto simp: redb_sm_op_def mem_sm_step_def with_answer_def redb_apply_out [OF assms(1)] split: if_splits)
  next
    case BuildSnapshot
    then show ?thesis using out sm_rep_build [OF assms(1)]
      by (auto simp: redb_sm_op_def mem_sm_step_def with_answer_def redb_build_out [OF assms(1)] Let_def split: if_splits)
  next
    case (InstallSnapshot meta bytes)
    then obtain l where l: "dec_ledger c bytes = Some l" using assms(2) by auto
    show ?thesis using out InstallSnapshot sm_rep_install [OF assms(1) l, of meta]
      by (auto simp: redb_sm_op_def mem_sm_step_def with_answer_def redb_install_out [OF l] Let_def split: if_splits)
  next
    case Restart
    obtain m d where x: "x = (m, d)" by fastforce
    show ?thesis using out Restart sm_rep_restart [of c m0 s m d m] sm_reload [of c m0 s m d m] assms(1)
      by (auto simp: redb_sm_op_def mem_sm_step_def x)
  qed
qed

text \<open>Whatever a failure left in memory, the node starts again from a file that holds one of the two states.\<close>
lemma sm_failed:
  assumes "sm_rep c m0 s x" and "sm_op_ok c op" and "redb_sm_step c m0 io op x = (Inl e, y)"
  shows "\<exists>p. sm_rep c m0 (mem_sm_partial c p op s) y"
proof -
  obtain z where out: "redb_sm_op c m0 io op x = (Inl e, z)" and y: "y = snd (reload c m0 z)"
    using assms(3) by (auto simp: redb_sm_step_def split: prod.splits sum.splits)
  have before: "\<exists>p. sm_rep c m0 (mem_sm_partial c p op s) y" if "snd z = snd x"
  proof -
    have "y = snd (reload c m0 (fst z, snd x))" using y that by (cases z) simp
    then have "sm_rep c m0 (mem_sm_partial c Before op s) y"
      using sm_rep_restart [of c m0 s "fst x" "snd x" "fst z"] assms(1) by (cases op) simp_all
    then show ?thesis ..
  qed
  show ?thesis
  proof (cases op)
    case (ApplyEntries es)
    then show ?thesis using out before
      by (auto simp: redb_sm_op_def with_answer_def redb_apply_out [OF assms(1)] split: if_splits)
  next
    case BuildSnapshot
    then show ?thesis using out before
      by (auto simp: redb_sm_op_def with_answer_def redb_build_out [OF assms(1)] Let_def split: if_splits)
  next
    case Restart
    then show ?thesis using out sm_reload [of c m0 s "fst x" "snd x" "fst x"] assms(1) by (simp add: redb_sm_op_def)
  next
    case (InstallSnapshot meta bytes)
    then obtain l where l: "dec_ledger c bytes = Some l" using assms(2) by auto
    show ?thesis
    proof (cases "io 0")
      case False
      then show ?thesis using out before InstallSnapshot
        by (auto simp: redb_sm_op_def with_answer_def redb_install_out [OF l] Let_def)
    next
      case True
      then have "z = ((fst x)\<lparr>mm_persist := installed meta l\<rparr>, (snd x)\<lparr>f_sm := (f_sm (snd x))(''state'' \<mapsto> enc_persist c (installed meta l))\<rparr>)"
        using out InstallSnapshot
        by (auto simp: redb_sm_op_def with_answer_def redb_install_out [OF l] Let_def split: if_splits)
      then have "sm_rep c m0 (mem_sm_partial c StateOnly op s) y"
        using sm_rep_restart [OF sm_rep_state_only [OF assms(1) l, of meta]] y InstallSnapshot by simp
      then show ?thesis ..
    qed
  qed
qed

interpretation rsm: refinement "mem_sm_step c" "redb_sm_step c m0" "mem_sm_partial c" "sm_op_ok c" "sm_rep c m0" for c m0
  by unfold_locales (blast intro: sm_answered [THEN conjunct1] sm_answered [THEN conjunct2] sm_failed)+

text \<open>C25: The durable state machine implements the in-memory one.  Over every history of applied
  entries, built and installed snapshots, restarts and failing transactions (after which the node
  starts again from its file), every answer is the in-memory store's and the file always loads: what an
  operation answered is still there after any restart; a failed operation did nothing, or installed the
  state of a snapshot without storing the snapshot; only the snapshot counter starts over.\<close>
theorem state_machine_durable:
  assumes "codec_ok c" and "\<forall>x\<in>set h. sm_op_ok c (snd x)"
  shows "\<exists>ps. refines_run (mem_sm_step c) (mem_sm_partial c) (sm_rep c m0) (SmInner_default m0) (map snd h)
    (impl_run (redb_sm_step c m0) h
       (\<lparr> mm_persist = SmPersist_default m0, mm_snapshot = None, mm_snapshot_idx = 0 \<rparr>, RedbFile_empty)) ps"
  by (rule rsm.run_refines [OF sm_rep_new [OF assms(1)] assms(2)])

theorem state_machine_durable_witness:
  "\<exists>ps. refines_run (mem_sm_step demo_codec) (mem_sm_partial demo_codec) (sm_rep demo_codec 0) (SmInner_default 0)
      [ApplyEntries [demo_entry 1 (Open ''r'' 50 None)], BuildSnapshot, Restart,
       InstallSnapshot \<lparr> meta_last_log_id = None, meta_last_membership = \<lparr> sm_log_id = None, sm_membership = 0 \<rparr>, meta_snapshot_id = [] \<rparr> (BLedger Map.empty)]
      (impl_run (redb_sm_step demo_codec 0)
        [(\<lambda>_. True, ApplyEntries [demo_entry 1 (Open ''r'' 50 None)]), (\<lambda>_. False, BuildSnapshot), (\<lambda>_. True, Restart),
         (\<lambda>n. n = 0, InstallSnapshot \<lparr> meta_last_log_id = None, meta_last_membership = \<lparr> sm_log_id = None, sm_membership = 0 \<rparr>, meta_snapshot_id = [] \<rparr> (BLedger Map.empty))]
       (\<lparr> mm_persist = SmPersist_default 0, mm_snapshot = None, mm_snapshot_idx = 0 \<rparr>, RedbFile_empty)) ps"
  using state_machine_durable [OF demo_codec_ok, of "[(\<lambda>_. True, ApplyEntries [demo_entry 1 (Open ''r'' 50 None)]), (\<lambda>_. False, BuildSnapshot), (\<lambda>_. True, Restart),
         (\<lambda>n. n = 0, InstallSnapshot \<lparr> meta_last_log_id = None, meta_last_membership = \<lparr> sm_log_id = None, sm_membership = 0 \<rparr>, meta_snapshot_id = [] \<rparr> (BLedger Map.empty))]" 0]
  by (simp add: demo_codec_def)

section \<open>Snapshots\<close>

lemma mem_apply_append:
  "mem_apply (xs @ ys) s = (fst (mem_apply xs s) @ fst (mem_apply ys (snd (mem_apply xs s))), snd (mem_apply ys (snd (mem_apply xs s))))"
  by (induction xs arbitrary: s) (simp_all add: split_beta Let_def)

text \<open>What entries do depends only on the persistent part of the state.\<close>
lemma mem_apply_cong:
  assumes "persist_of s = persist_of t"
  shows "fst (mem_apply es s) = fst (mem_apply es t) \<and> persist_of (snd (mem_apply es s)) = persist_of (snd (mem_apply es t))"
  using persist_apply [of es s] persist_apply [of es t] assms by simp

text \<open>C27: A snapshot stands for the log it covers.  Whatever state a node is in, when it installs the
  snapshot another one built after the entries \<open>xs\<close> it succeeds, it then holds that node's ledger,
  membership and last applied entry, and applying any further entries \<open>ys\<close> gives the responses and the
  state of a node that applied \<open>xs\<close> and \<open>ys\<close> one by one.\<close>
theorem snapshot_catches_up:
  assumes "codec_ok c" and "finite (dom (si_ledger s))"
  shows "let leader = snd (mem_apply xs s);
             snap = fst (mem_build_snapshot c leader);
             (r, t1) = mem_install_snapshot c (ss_meta snap) (ss_data snap) t
         in r = Inr () \<and> persist_of t1 = persist_of leader
           \<and> si_current_snapshot t1 = Some snap
           \<and> fst (mem_apply (xs @ ys) s) = fst (mem_apply xs s) @ fst (mem_apply ys t1)
           \<and> persist_of (snd (mem_apply (xs @ ys) s)) = persist_of (snd (mem_apply ys t1))"
proof -
  define l where "l = snd (mem_apply xs s)"
  define snap where "snap = fst (mem_build_snapshot c l)"
  have "finite (dom (si_ledger l))" using assms(2) by (simp add: l_def)
  then have dec: "dec_ledger c (ss_data snap) = Some (si_ledger l)"
    using assms(1) by (simp add: snap_def mem_build_snapshot_def Let_def codec_ok_def)
  define t1 where "t1 = snd (mem_install_snapshot c (ss_meta snap) (ss_data snap) t)"
  have inst: "mem_install_snapshot c (ss_meta snap) (ss_data snap) t = (Inr (), t1)"
    using dec by (simp add: t1_def mem_install_snapshot_def)
  have p: "persist_of t1 = persist_of l"
    using dec by (simp add: t1_def mem_install_snapshot_def persist_of_def snap_def mem_build_snapshot_def Let_def)
  have "si_current_snapshot t1 = Some snap" using dec by (simp add: t1_def mem_install_snapshot_def)
  then show ?thesis
    using inst p mem_apply_cong [OF p, of ys] mem_apply_append [of xs ys s]
    by (simp add: Let_def flip: l_def snap_def)
qed

definition demo_sm :: "(nat, nat, blob) SmInner" where "demo_sm = SmInner_default 0"

theorem snapshot_catches_up_witness:
  "let leader = snd (mem_apply [demo_entry 1 (Open ''r'' 50 None)] demo_sm);
       snap = fst (mem_build_snapshot demo_codec leader);
       (r, t1) = mem_install_snapshot demo_codec (ss_meta snap) (ss_data snap) demo_sm
   in r = Inr () \<and> persist_of t1 = persist_of leader
     \<and> si_current_snapshot t1 = Some snap
     \<and> fst (mem_apply ([demo_entry 1 (Open ''r'' 50 None)] @ [demo_entry 2 (Reserve ''r'' 9)]) demo_sm)
       = fst (mem_apply [demo_entry 1 (Open ''r'' 50 None)] demo_sm) @ fst (mem_apply [demo_entry 2 (Reserve ''r'' 9)] t1)
     \<and> persist_of (snd (mem_apply ([demo_entry 1 (Open ''r'' 50 None)] @ [demo_entry 2 (Reserve ''r'' 9)]) demo_sm))
       = persist_of (snd (mem_apply [demo_entry 2 (Reserve ''r'' 9)] t1))"
proof -
  have "finite (dom (si_ledger demo_sm))" by (simp add: demo_sm_def SmInner_default_def)
  from snapshot_catches_up [OF demo_codec_ok this, of "[demo_entry 1 (Open ''r'' 50 None)]" demo_sm "[demo_entry 2 (Reserve ''r'' 9)]"]
  show ?thesis .
qed

end
