(* ===== verification/McpBroker.thy ===== *)
theory McpBroker
  imports Mcp SecretBroker Dlp Wardryx Utf8 Request
begin

text \<open>
  The MCP broker (\<open>crates/gateway/src/mcpbroker.rs\<close>): one JSON-RPC request from the
  agent through upstream selection, the argument scans, the policy gate, credential
  injection, the exchange with the MCP server, the checks of a tool listing and the
  redaction of the answer.  The result of a request is the answer (\<open>None\<close> when the code
  panics), the state after it and what was sent to an MCP server, if anything.  The
  exchange with the server, the policy service, the clock, the JSON reader and printer
  and Rust's debug rendering of a string are parameters.
\<close>

datatype ScanMode = ScanOff | ScanWarn | ScanBlock

record BrokerState =
  b_upstream :: string
  b_named_upstreams :: "string \<rightharpoonup> string"
  b_vault :: SecretVault
  b_scan :: ScanMode
  b_dlp :: DlpMode
  b_dlp_pii :: DlpMode
  b_lock :: "Lock option"
  b_wardryx :: Wardryx
  b_events :: Exporter

record CallContext =
  cc_agent_id :: "string option"
  cc_upstream :: "string option"
  cc_on_behalf_of :: "string list"
  cc_attestation_method :: "string option"
  cc_approval_token :: "string option"

definition CallContext_default :: CallContext where
  "CallContext_default = \<lparr> cc_agent_id = None, cc_upstream = None, cc_on_behalf_of = [], cc_attestation_method = None,
     cc_approval_token = None \<rparr>"

text \<open>What the exchange with an MCP server gives: an error before or with the status, one in the body, or the body.\<close>
datatype UpstreamReply = SendFailed string | BodyFailed string | Answered string

record BrokerEnv =
  be_engine :: engine
  be_serde :: serde
  be_parse_error :: "string \<Rightarrow> string"
  be_debug :: "string \<Rightarrow> string"
  be_lower :: "string \<Rightarrow> string"
  be_fingerprint :: "string \<Rightarrow> string \<Rightarrow> string \<Rightarrow> u64"
  be_hasher :: "string \<Rightarrow> u64"
  be_pdp :: "WardryxClient \<Rightarrow> DecideContext \<Rightarrow> (WardryxError, WardryxOutcome \<times> bool) result"
  be_instant :: "u64 \<times> u64"
  be_now :: "EventType \<Rightarrow> i64"
  be_write :: "EventType \<Rightarrow> write_result"
  be_send :: "string \<Rightarrow> string \<Rightarrow> UpstreamReply"

definition rpc_error :: "json \<Rightarrow> i64 \<Rightarrow> string \<Rightarrow> json" where
  "rpc_error rid code message = JObject
     [(''error'', JObject [(''code'', json_i64 code), (''message'', JString message)]), (''id'', rid), (''jsonrpc'', JString ''2.0'')]"

definition reason_suffix :: "string option \<Rightarrow> string" where
  "reason_suffix r = (case r of Some x \<Rightarrow> if x \<noteq> [] then '' ('' @ x @ '')'' else [] | None \<Rightarrow> [])"

definition emit_tool_call :: "BrokerEnv \<Rightarrow> string option \<Rightarrow> string \<Rightarrow> string \<Rightarrow> WardryxDecision \<Rightarrow> WardryxMode \<Rightarrow> BrokerState \<Rightarrow> BrokerState" where
  "emit_tool_call e agent tool upstream dec md st =
     (let d = (if md = WShadow then ''would-'' @ decision_wire_str dec else decision_wire_str dec)
      in st\<lparr>b_events := snd (emit (be_serde e) (be_write e ToolCall) (b_events st) ToolCall (be_now e ToolCall) agent None None
           (JObject [(''decision'', JString d), (''tool'', JString tool), (''upstream'', JString upstream)]))\<rparr>)"

definition context_of :: "HeaderMap \<Rightarrow> CallContext" where
  "context_of h = \<lparr> cc_agent_id = header_str h ''x-fuse-agent-id'', cc_upstream = header_str h ''x-fuse-mcp-upstream'',
     cc_on_behalf_of = (case header_str h ''x-fuse-on-behalf-of'' of
        Some s \<Rightarrow> filter (\<lambda>p. p \<noteq> []) (map trim (split_char (CHR '','') s)) | None \<Rightarrow> []),
     cc_attestation_method = header_str h ''x-fuse-attestation-method'', cc_approval_token = header_str h ''x-fuse-approval-token'' \<rparr>"

definition resolve_upstream :: "BrokerEnv \<Rightarrow> BrokerState \<Rightarrow> CallContext \<Rightarrow> json \<Rightarrow> (json, string) result" where
  "resolve_upstream e st ctx rid = (case cc_upstream ctx of
     None \<Rightarrow> Inr (b_upstream st)
   | Some name \<Rightarrow> (case b_named_upstreams st name of
       Some u \<Rightarrow> Inr u
     | None \<Rightarrow> Inl (rpc_error rid (- 32005) (''unknown mcp upstream '' @ be_debug e name @ '' (X-Fuse-Mcp-Upstream)''))))"

section \<open>The arguments of a tool call\<close>

definition set_member :: "string \<Rightarrow> json \<Rightarrow> json \<Rightarrow> json" where
  "set_member k v obj = (case obj of JObject kvs \<Rightarrow> JObject (member_insert k v kvs) | _ \<Rightarrow> obj)"

text \<open>Raw secrets in the arguments: the findings, or the refusal.\<close>
definition secrets_in_args :: "BrokerEnv \<Rightarrow> BrokerState \<Rightarrow> json \<Rightarrow> json \<Rightarrow> (json, Dlp.Finding list) result" where
  "secrets_in_args e st rid req =
     (if b_dlp st = DlpOff then Inr []
      else case json_get ''params'' req of
        None \<Rightarrow> Inr []
      | Some params \<Rightarrow>
          let fs = scan (be_engine e) (print_json (be_serde e) params)
          in if fs \<noteq> [] \<and> b_dlp st = DlpBlock
             then Inl (rpc_error rid (- 32002) (''blocked: raw secret in tool arguments ('' @ summary fs @ '')''))
             else Inr fs)"

text \<open>PII in the arguments: the request to go on with, the refusal, or a panic of the redaction.\<close>
definition pii_in_args :: "BrokerEnv \<Rightarrow> BrokerState \<Rightarrow> json \<Rightarrow> Dlp.Finding list \<Rightarrow> json \<Rightarrow> (json option, json) result" where
  "pii_in_args e st rid secret req =
     (if b_dlp_pii st = DlpOff then Inr req
      else case json_get ''params'' req of
        None \<Rightarrow> Inr req
      | Some params \<Rightarrow>
          let txt = print_json (be_serde e) params; pii = scan_pii (be_engine e) txt
          in if pii = [] then Inr req
             else case b_dlp_pii st of
               DlpBlock \<Rightarrow> Inl (Some (rpc_error rid (- 32006) (''blocked: pii in tool arguments ('' @ pii_summary pii @ '')'')))
             | DlpMask \<Rightarrow>
                 (let to_redact = filter (\<lambda>p. \<not> (\<exists>f\<in>set secret. spans_overlap f p)) pii
                  in if to_redact = [] then Inr req
                     else case redact txt to_redact of
                       None \<Rightarrow> Inl None
                     | Some red \<Rightarrow> (case parse_json (be_serde e) red of
                         Some v \<Rightarrow> Inr (set_member ''params'' v req)
                       | None \<Rightarrow> Inr req))
             | _ \<Rightarrow> Inr req)"

text \<open>The tool a call names.\<close>
definition tool_of :: "json \<Rightarrow> string" where
  "tool_of req = (case Option.bind (json_get ''params'' req) (get_str ''name'') of Some t \<Rightarrow> t | None \<Rightarrow> [])"

definition call_context :: "CallContext \<Rightarrow> string \<Rightarrow> string \<Rightarrow> DecideContext" where
  "call_context ctx aid tool = \<lparr> dc_agent_id = aid, dc_run_id = ''mcp:'' @ aid, dc_on_behalf_of = cc_on_behalf_of ctx,
     dc_tool_names = (if tool = [] then [] else [tool]), dc_steps = 0, dc_domains = [], dc_model = [], dc_est_cost_usd = Fin 0,
     dc_attestation = cc_attestation_method ctx, dc_approval_token = cc_approval_token ctx \<rparr>"

definition pdp_answer :: "BrokerEnv \<Rightarrow> BrokerState \<Rightarrow> CallContext \<Rightarrow> string \<Rightarrow> json \<Rightarrow> WardryxOutcome \<times> Wardryx" where
  "pdp_answer e st ctx aid req = wardryx_decide (be_hasher e) (be_pdp e) (fst (be_instant e)) (snd (be_instant e)) (b_wardryx st)
     (call_context ctx aid (tool_of req))"

text \<open>The policy gate: the verdict to report in shadow mode, or the refusal.\<close>
definition tool_gate :: "BrokerEnv \<Rightarrow> CallContext \<Rightarrow> json \<Rightarrow> string \<Rightarrow> json \<Rightarrow> BrokerState \<Rightarrow> (json, string option) result \<times> BrokerState" where
  "tool_gate e ctx rid upstream req st =
     (if w_mode (b_wardryx st) = WOff then (Inr None, st)
      else case cc_agent_id ctx of
        None \<Rightarrow> (Inr None, st)
      | Some aid \<Rightarrow>
          let tool = tool_of req;
              (out, w) = pdp_answer e st ctx aid req;
              st1 = emit_tool_call e (Some aid) tool upstream (w_decision out) (w_mode (b_wardryx st)) (st\<lparr>b_wardryx := w\<rparr>)
          in if w_mode (b_wardryx st) = WEnforce
             then (case w_decision out of
                 WDeny \<Rightarrow> (Inl (rpc_error rid (- 32004) (''blocked: policy denied tool '' @ be_debug e tool @ reason_suffix (w_reason out))), st1)
               | WHold \<Rightarrow> (Inl (rpc_error rid (- 32004) (''blocked: tool '' @ be_debug e tool @ '' requires approval''
                     @ (case approval_id out of Some a \<Rightarrow> '' (approval '' @ a @ '')'' | None \<Rightarrow> []))), st1)
               | WAllow \<Rightarrow> (Inr None, st1))
             else (Inr (Some (decision_wire_str (w_decision out))), st1))"

definition inject_params :: "SecretVault \<Rightarrow> json \<Rightarrow> json" where
  "inject_params vault req = (case json_get ''params'' req of
     Some params \<Rightarrow> set_member ''params'' (fst (inject_secrets vault params)) req
   | None \<Rightarrow> req)"

section \<open>The answer\<close>

definition changed_tools :: "BrokerEnv \<Rightarrow> Lock \<Rightarrow> McpTool list \<Rightarrow> string list" where
  "changed_tools e lk tools = List.map_filter (\<lambda>d. case d of Changed n \<Rightarrow> Some n | _ \<Rightarrow> None) (diff tools lk)"

definition emit_drift :: "BrokerEnv \<Rightarrow> string option \<Rightarrow> string list \<Rightarrow> BrokerState \<Rightarrow> BrokerState" where
  "emit_drift e agent names st = st\<lparr>b_events := snd (emit (be_serde e) (be_write e McpDrift) (b_events st) McpDrift (be_now e McpDrift) agent None None
     (JObject [(''tools_changed'', JArray (map JString names))]))\<rparr>"

definition poison_check :: "BrokerEnv \<Rightarrow> json \<Rightarrow> McpTool list \<Rightarrow> BrokerState \<Rightarrow> json \<Rightarrow> (json, json) result" where
  "poison_check e rid tools st out =
     (let fs = scan_injection (be_lower e) tools in
      if fs = [] then Inr out
      else if b_scan st = ScanBlock
      then Inl (rpc_error rid (- 32001) (''blocked: '' @ nat_str (length fs) @ '' poisoned tool description(s)''))
      else Inr (set_member ''_tokenfuse'' (JObject [(''mcp_findings'', json_u64 (length fs))]) out))"

definition check_listing :: "BrokerEnv \<Rightarrow> CallContext \<Rightarrow> json \<Rightarrow> json \<Rightarrow> BrokerState \<Rightarrow> (json, json) result \<times> BrokerState" where
  "check_listing e ctx rid out st =
     (let tools = parse_tools (be_fingerprint e) (print_json (be_serde e)) out;
          names = (case b_lock st of Some lk \<Rightarrow> changed_tools e lk tools | None \<Rightarrow> []);
          st1 = (if names = [] then st else emit_drift e (cc_agent_id ctx) names st)
      in if names \<noteq> [] \<and> b_scan st = ScanBlock
         then (Inl (rpc_error rid (- 32003) (''blocked: tool definition changed (rug-pull): '' @ join '', '' names)), st1)
         else (poison_check e rid tools st out, st1))"

text \<open>A note under \<open>_tokenfuse\<close>, when the answer and what stands there are objects.\<close>
definition annotate :: "string \<Rightarrow> string \<Rightarrow> json \<Rightarrow> json" where
  "annotate k v out =
     (let entry = (case json_get ''_tokenfuse'' out of Some x \<Rightarrow> x | None \<Rightarrow> JObject [])
      in set_member ''_tokenfuse'' (set_member k (JString v) entry) out)"

definition note_shadow :: "string option \<Rightarrow> json \<Rightarrow> json" where
  "note_shadow would out = (case would of Some d \<Rightarrow> annotate ''wardryx'' (''would-'' @ d) out | None \<Rightarrow> out)"

definition note_pii :: "BrokerEnv \<Rightarrow> BrokerState \<Rightarrow> json \<Rightarrow> json" where
  "note_pii e st out =
     (if b_dlp_pii st = DlpShadow then
        (let pii = scan_pii (be_engine e) (print_json (be_serde e) out)
         in if pii = [] then out else annotate ''dlp_pii'' (''found '' @ pii_summary pii) out)
      else out)"

definition redact_answer :: "BrokerEnv \<Rightarrow> json \<Rightarrow> BrokerState \<Rightarrow> json \<Rightarrow> json option" where
  "redact_answer e rid st out0 =
     (if b_dlp st = DlpOff \<and> b_dlp_pii st = DlpOff then Some out0
      else
        let out = note_pii e st out0;
            txt = print_json (be_serde e) out;
            secret = (if b_dlp st \<noteq> DlpOff then scan (be_engine e) txt else []);
            pii = (if b_dlp_pii st = DlpBlock \<or> b_dlp_pii st = DlpMask then scan_pii (be_engine e) txt else [])
        in if pii \<noteq> [] \<and> b_dlp_pii st = DlpBlock
           then Some (rpc_error rid (- 32006) (''blocked: pii in tool response ('' @ pii_summary pii @ '')''))
           else
             let to_redact = mask_list secret pii
             in if to_redact = [] then Some out
                else case redact txt to_redact of
                  None \<Rightarrow> None
                | Some red \<Rightarrow> (case parse_json (be_serde e) red of Some v \<Rightarrow> Some v | None \<Rightarrow> Some out))"

section \<open>The request\<close>

definition method_of :: "json \<Rightarrow> string" where
  "method_of req = (case get_str ''method'' req of Some m \<Rightarrow> m | None \<Rightarrow> [])"

definition id_of :: "json \<Rightarrow> json" where
  "id_of req = (case json_get ''id'' req of Some i \<Rightarrow> i | None \<Rightarrow> JNull)"

text \<open>From the exchange to the answer.\<close>
definition finish_call :: "BrokerEnv \<Rightarrow> CallContext \<Rightarrow> json \<Rightarrow> string \<Rightarrow> string option \<Rightarrow> UpstreamReply \<Rightarrow> BrokerState \<Rightarrow> json option \<times> BrokerState" where
  "finish_call e ctx rid meth would reply st = (case reply of
     SendFailed m \<Rightarrow> (Some (rpc_error rid (- 32000) (''upstream error: '' @ m)), st)
   | BodyFailed m \<Rightarrow> (Some (rpc_error rid (- 32000) (''upstream read: '' @ m)), st)
   | Answered bytes \<Rightarrow> (case parse_json (be_serde e) bytes of
       None \<Rightarrow> (Some (rpc_error rid (- 32000) (''bad upstream json: '' @ be_parse_error e bytes)), st)
     | Some out \<Rightarrow>
         let (r, st1) = (if meth = ''tools/list'' \<and> b_scan st \<noteq> ScanOff then check_listing e ctx rid out st else (Inr out, st))
         in case r of
              Inl refusal \<Rightarrow> (Some refusal, st1)
            | Inr out1 \<Rightarrow> (redact_answer e rid st1 (note_shadow would out1), st1)))"

text \<open>The gates of a tool call, in order: the request to forward and the shadow verdict, or the refusal.\<close>
definition call_gates :: "BrokerEnv \<Rightarrow> CallContext \<Rightarrow> json \<Rightarrow> string \<Rightarrow> json \<Rightarrow> BrokerState
    \<Rightarrow> (json option, json \<times> string option) result \<times> BrokerState" where
  "call_gates e ctx rid upstream req st = (case secrets_in_args e st rid req of
     Inl r \<Rightarrow> (Inl (Some r), st)
   | Inr secret \<Rightarrow> (case pii_in_args e st rid secret req of
       Inl r \<Rightarrow> (Inl r, st)
     | Inr req1 \<Rightarrow> (case tool_gate e ctx rid upstream req1 st of
         (Inl r, st1) \<Rightarrow> (Inl (Some r), st1)
       | (Inr would, st1) \<Rightarrow> (Inr (inject_params (b_vault st1) req1, would), st1))))"

definition process :: "BrokerEnv \<Rightarrow> BrokerState \<Rightarrow> json \<Rightarrow> CallContext \<Rightarrow> json option \<times> BrokerState \<times> (string \<times> string) option" where
  "process e st req ctx =
     (let rid = id_of req; meth = method_of req in
      case resolve_upstream e st ctx rid of
        Inl r \<Rightarrow> (Some r, st, None)
      | Inr upstream \<Rightarrow>
          (case (if meth = ''tools/call'' then call_gates e ctx rid upstream req st else (Inr (req, None), st)) of
             (Inl r, st1) \<Rightarrow> (r, st1, None)
           | (Inr (req1, would), st1) \<Rightarrow>
               let payload = print_json (be_serde e) req1;
                   (out, st2) = finish_call e ctx rid meth would (be_send e upstream payload) st1
               in (out, st2, Some (upstream, payload))))"

definition broker_handle :: "BrokerEnv \<Rightarrow> BrokerState \<Rightarrow> HeaderMap \<Rightarrow> json \<Rightarrow> json option \<times> BrokerState \<times> (string \<times> string) option" where
  "broker_handle e st h req = process e st req (context_of h)"

text \<open>One line of the stdio transport: what is written for it.\<close>
definition stdio_line :: "BrokerEnv \<Rightarrow> BrokerState \<Rightarrow> string \<Rightarrow> string option option \<times> BrokerState \<times> (string \<times> string) option" where
  "stdio_line e st line0 =
     (let line = trim line0; shown = map_option (\<lambda>v. Some (print_json (be_serde e) v @ [CHR 0x0A])) in
      if line = [] then (Some None, st, None)
      else case parse_json (be_serde e) line of
        Some req \<Rightarrow> (let (out, r) = process e st req CallContext_default in (shown out, r))
      | None \<Rightarrow> (shown (Some (rpc_error JNull (- 32700) (''parse error: '' @ be_parse_error e line))), st, None))"

end
