(* ===== verification/McpBrokerSafety.thy ===== *)
theory McpBrokerSafety
  imports McpBroker
begin

text \<open>
  What leaves the MCP broker and what comes back: the exact condition on which a request
  reaches an MCP server, and with which bytes; that every request is answered; and the
  redaction of an answer.
\<close>

section \<open>What is forwarded\<close>

text \<open>The arguments masked, where the mode says so and the scan finds PII outside every secret.\<close>
definition masked_params :: "BrokerEnv \<Rightarrow> BrokerState \<Rightarrow> json \<Rightarrow> json option" where
  "masked_params e st params =
     (let txt = print_json (be_serde e) params;
          secret = (if b_dlp st = DlpOff then [] else scan (be_engine e) txt);
          pii = filter (\<lambda>p. \<not> (\<exists>f\<in>set secret. spans_overlap f p)) (scan_pii (be_engine e) txt)
      in if b_dlp_pii st \<noteq> DlpMask \<or> pii = [] then None else parse_json (be_serde e) (splice txt 0 (sort_key f_start pii)))"

definition masked_request :: "BrokerEnv \<Rightarrow> BrokerState \<Rightarrow> json \<Rightarrow> json" where
  "masked_request e st req = (case Option.bind (json_get ''params'' req) (masked_params e st) of
     Some v \<Rightarrow> set_member ''params'' v req | None \<Rightarrow> req)"

text \<open>The gates of a tool call: no raw secret or PII where the mode blocks it, and in enforce mode the policy's consent.\<close>
definition call_allowed :: "BrokerEnv \<Rightarrow> BrokerState \<Rightarrow> CallContext \<Rightarrow> json \<Rightarrow> bool" where
  "call_allowed e st ctx req \<longleftrightarrow>
     (case json_get ''params'' req of None \<Rightarrow> True
      | Some params \<Rightarrow> (b_dlp st = DlpBlock \<longrightarrow> scan (be_engine e) (print_json (be_serde e) params) = [])
          \<and> (b_dlp_pii st = DlpBlock \<longrightarrow> scan_pii (be_engine e) (print_json (be_serde e) params) = []))
     \<and> (case cc_agent_id ctx of None \<Rightarrow> True
      | Some aid \<Rightarrow> w_mode (b_wardryx st) = WEnforce \<longrightarrow> w_decision (fst (pdp_answer e st ctx aid (masked_request e st req))) = WAllow)"

text \<open>The engine's documented behaviour on the patterns of the scanners.\<close>
definition engine_ok :: "engine \<Rightarrow> bool" where
  "engine_ok find_iter \<longleftrightarrow> (\<forall>t. spans_ok find_iter secret_patterns t \<and> spans_ok find_iter pii_patterns t)"

lemma redact_pii:
  assumes "engine_ok eng"
  shows "redact txt (filter P (scan_pii eng txt)) = Some (splice txt 0 (sort_key f_start (filter P (scan_pii eng txt))))"
proof -
  have ok: "spans_ok eng pii_patterns txt" using assms by (simp add: engine_ok_def)
  have o: "ordered_from 0 (sort_key f_start (filter P (scan_pii eng txt)))"
    using mask_list_ordered [of "[]" "filter P (scan_pii eng txt)"] ordered_filter [OF scan_pii_props(1) [OF ok]]
    by (simp add: mask_list_def)
  show ?thesis using redact_splice [OF o] scan_pii_props(2) [OF ok] by simp
qed

lemma redact_merged:
  assumes "engine_ok eng" and "fs = [] \<or> fs = scan eng txt" and "ps = [] \<or> ps = scan_pii eng txt"
  shows "redact txt (mask_list fs ps) = Some (splice txt 0 (sort_key f_start (mask_list fs ps)))"
proof -
  have ok: "spans_ok eng secret_patterns txt" "spans_ok eng pii_patterns txt" using assms(1) by (simp_all add: engine_ok_def)
  have "ordered_from 0 fs" "ordered_from 0 ps" "\<forall>f\<in>set fs \<union> set ps. span_ok txt f"
    using scan_props(1,2) [OF ok(1)] scan_pii_props(1,2) [OF ok(2)] assms(2,3) by auto
  then show ?thesis using redact_splice [OF mask_list_ordered [of fs ps]] by (auto simp: mask_list_def)
qed

lemma set_member_get: "k' \<noteq> k \<Longrightarrow> json_get k' (set_member k v x) = json_get k' x"
  by (cases x) (simp_all add: set_member_def member_insert_get)

text \<open>What the two scans of the arguments let through, and in which form.\<close>
lemma args_scanned:
  assumes "engine_ok (be_engine e)" and "secrets_in_args e st rid req = Inr secret"
  shows "pii_in_args e st rid secret req =
    (if b_dlp_pii st = DlpBlock \<and> (\<exists>p. json_get ''params'' req = Some p \<and> scan_pii (be_engine e) (print_json (be_serde e) p) \<noteq> [])
     then Inl (Some (rpc_error rid (- 32006) (''blocked: pii in tool arguments (''
        @ pii_summary (scan_pii (be_engine e) (print_json (be_serde e) (the (json_get ''params'' req)))) @ '')'')))
     else Inr (masked_request e st req))"
proof (cases "json_get ''params'' req")
  case None
  then show ?thesis by (simp add: pii_in_args_def masked_request_def)
next
  case (Some p)
  have sec: "secret = (if b_dlp st = DlpOff then [] else scan (be_engine e) (print_json (be_serde e) p))"
    using assms(2) Some by (auto simp: secrets_in_args_def Let_def split: if_splits)
  note r = redact_pii [OF assms(1)]
  have e: "scan_pii eng t = [] \<Longrightarrow> filter P (scan_pii eng t) = []" for eng t P by simp
  show ?thesis
    by (cases "b_dlp_pii st")
      (auto simp: pii_in_args_def masked_request_def masked_params_def Some Let_def r sec split: option.splits)
qed

lemma secrets_scanned:
  "secrets_in_args e st rid req = Inl r \<longleftrightarrow> (b_dlp st = DlpBlock \<and> (\<exists>p. json_get ''params'' req = Some p
      \<and> scan (be_engine e) (print_json (be_serde e) p) \<noteq> []
      \<and> r = rpc_error rid (- 32002) (''blocked: raw secret in tool arguments ('' @ summary (scan (be_engine e) (print_json (be_serde e) p)) @ '')'')))"
  by (auto simp: secrets_in_args_def Let_def split: option.splits)

lemma tool_gate_state: "b_vault (snd (tool_gate e ctx rid url req st)) = b_vault st"
  "b_dlp (snd (tool_gate e ctx rid url req st)) = b_dlp st" "b_dlp_pii (snd (tool_gate e ctx rid url req st)) = b_dlp_pii st"
  "b_scan (snd (tool_gate e ctx rid url req st)) = b_scan st" "b_lock (snd (tool_gate e ctx rid url req st)) = b_lock st"
  by (auto simp: tool_gate_def emit_tool_call_def Let_def split_beta split: option.splits WardryxDecision.splits)

lemma tool_gate_passes: "(\<exists>w. fst (tool_gate e ctx rid url req st) = Inr w) \<longleftrightarrow>
    (case cc_agent_id ctx of None \<Rightarrow> True
      | Some aid \<Rightarrow> w_mode (b_wardryx st) = WEnforce \<longrightarrow> w_decision (fst (pdp_answer e st ctx aid req)) = WAllow)"
  by (auto simp: tool_gate_def Let_def split_beta split: option.splits WardryxDecision.splits)

lemma tool_gate_refuses: "fst (tool_gate e ctx rid url req st) = Inl r \<Longrightarrow> \<exists>c m. r = rpc_error rid c m"
  by (auto simp: tool_gate_def Let_def split_beta split: option.splits WardryxDecision.splits if_splits)

lemma call_gates_exact:
  assumes "engine_ok (be_engine e)"
  shows "case fst (call_gates e ctx rid url req st) of
      Inr (req1, w) \<Rightarrow> call_allowed e st ctx req \<and> req1 = inject_params (b_vault st) (masked_request e st req)
    | Inl r \<Rightarrow> \<not> call_allowed e st ctx req \<and> (\<exists>c m. r = Some (rpc_error rid c m))"
proof (cases "secrets_in_args e st rid req")
  case (Inl r)
  obtain p c m where "b_dlp st = DlpBlock" "json_get ''params'' req = Some p" "scan (be_engine e) (print_json (be_serde e) p) \<noteq> []"
      and "r = rpc_error rid c m"
    using Inl secrets_scanned [of e st rid req r] by blast
  then show ?thesis using Inl by (simp add: call_gates_def call_allowed_def) blast
next
  case (Inr secret)
  note args = args_scanned [OF assms Inr]
  have ok: "b_dlp st = DlpBlock \<longrightarrow> (\<forall>p. json_get ''params'' req = Some p \<longrightarrow> scan (be_engine e) (print_json (be_serde e) p) = [])"
    using Inr secrets_scanned [of e st rid req] by (metis Inl_Inr_False)
  show ?thesis
  proof (cases "b_dlp_pii st = DlpBlock \<and> (\<exists>p. json_get ''params'' req = Some p \<and> scan_pii (be_engine e) (print_json (be_serde e) p) \<noteq> [])")
    case True
    then obtain p where "b_dlp_pii st = DlpBlock" "json_get ''params'' req = Some p"
        "scan_pii (be_engine e) (print_json (be_serde e) p) \<noteq> []" by blast
    moreover obtain c m where "pii_in_args e st rid secret req = Inl (Some (rpc_error rid c m))" using args True by simp
    ultimately show ?thesis using Inr by (simp add: call_gates_def call_allowed_def) blast
  next
    case False
    let ?g = "tool_gate e ctx rid url (masked_request e st req) st"
    have g: "call_gates e ctx rid url req st = (case ?g of (Inl r, st1) \<Rightarrow> (Inl (Some r), st1)
        | (Inr would, st1) \<Rightarrow> (Inr (inject_params (b_vault st1) (masked_request e st req), would), st1))"
    proof -
      have "pii_in_args e st rid secret req = Inr (masked_request e st req)" using args False by (subst args) (simp only: if_False)
      then show ?thesis using Inr by (simp add: call_gates_def)
    qed
    have allowed: "call_allowed e st ctx req \<longleftrightarrow> (\<exists>w. fst ?g = Inr w)"
      using ok False by (auto simp: call_allowed_def tool_gate_passes split: option.splits)
    obtain r st1 where rs: "?g = (r, st1)" by fastforce
    then have v: "b_vault st1 = b_vault st" using tool_gate_state(1) [of e ctx rid url "masked_request e st req" st] by simp
    show ?thesis
    proof (cases r)
      case (Inl x)
      then show ?thesis using g rs allowed tool_gate_refuses [of e ctx rid url "masked_request e st req" st x] by simp
    next
      case (Inr w)
      then show ?thesis using g rs allowed v by simp
    qed
  qed
qed

text \<open>C28: What leaves the broker.  A request reaches an MCP server exactly when its upstream is
  configured and, for a tool call, no raw secret and no PII stands in its arguments in the modes that
  block them and in enforce mode the policy service allowed this agent this tool; it goes to the
  configured upstream, with PII masked in mask mode and credentials put in place of their handles only
  then.  Anything but a tool call goes out as it came.\<close>
theorem broker_forwards_exactly:
  assumes "engine_ok (be_engine e)"
  shows "snd (snd (process e st req ctx)) =
    (case resolve_upstream e st ctx (id_of req) of
       Inl _ \<Rightarrow> None
     | Inr url \<Rightarrow>
         if method_of req \<noteq> ''tools/call'' then Some (url, print_json (be_serde e) req)
         else if call_allowed e st ctx req
         then Some (url, print_json (be_serde e) (inject_params (b_vault st) (masked_request e st req)))
         else None)"
proof (cases "resolve_upstream e st ctx (id_of req)")
  case (Inr url)
  obtain r st1 where rs: "call_gates e ctx (id_of req) url req st = (r, st1)" by fastforce
  show ?thesis
  proof (cases "method_of req = ''tools/call''")
    case True
    then show ?thesis using Inr rs call_gates_exact [OF assms, of st ctx req "id_of req" url]
      by (cases r) (auto simp: process_def Let_def split_beta)
  next
    case False
    then show ?thesis using Inr by (simp add: process_def Let_def split_beta)
  qed
qed (simp add: process_def Let_def)

section \<open>What comes back\<close>

text \<open>The answer with every secret, and in mask mode every PII finding, replaced by its marker, if that still parses.\<close>
definition redacted :: "BrokerEnv \<Rightarrow> BrokerState \<Rightarrow> json \<Rightarrow> json" where
  "redacted e st shown =
     (let txt = print_json (be_serde e) shown;
          fs = (if b_dlp st = DlpOff then [] else scan (be_engine e) txt);
          ps = (if b_dlp_pii st = DlpMask then scan_pii (be_engine e) txt else [])
      in if fs = [] \<and> ps = [] then shown
         else (case parse_json (be_serde e) (splice txt 0 (sort_key f_start (mask_list fs ps))) of Some v \<Rightarrow> v | None \<Rightarrow> shown))"

lemma mask_list_empty: "mask_list fs ps = [] \<longleftrightarrow> fs = [] \<and> ps = []"
  by (auto simp: mask_list_def)

lemma redact_answer_exact:
  assumes "engine_ok (be_engine e)"
  shows "redact_answer e rid st out =
    Some (let shown = note_pii e st out; pii = scan_pii (be_engine e) (print_json (be_serde e) shown) in
      if b_dlp_pii st = DlpBlock \<and> pii \<noteq> [] then rpc_error rid (- 32006) (''blocked: pii in tool response ('' @ pii_summary pii @ '')'')
      else redacted e st shown)"
proof (cases "b_dlp st = DlpOff \<and> b_dlp_pii st = DlpOff")
  case True
  then show ?thesis by (simp add: redact_answer_def redacted_def note_pii_def Let_def)
next
  case False
  let ?shown = "note_pii e st out"
  let ?t = "print_json (be_serde e) ?shown"
  let ?fs = "if b_dlp st = DlpOff then [] else scan (be_engine e) ?t"
  let ?ps = "if b_dlp_pii st = DlpBlock \<or> b_dlp_pii st = DlpMask then scan_pii (be_engine e) ?t else []"
  have "redact ?t (mask_list ?fs ?ps) = Some (splice ?t 0 (sort_key f_start (mask_list ?fs ?ps)))"
    by (rule redact_merged [OF assms]) simp_all
  then show ?thesis using False
    by (cases "b_dlp_pii st") (auto simp: redact_answer_def redacted_def Let_def mask_list_empty split: option.splits)
qed

definition same_but_note :: "json \<Rightarrow> json \<Rightarrow> bool" where
  "same_but_note out shown \<longleftrightarrow> (\<forall>k. k \<noteq> ''_tokenfuse'' \<longrightarrow> json_get k shown = json_get k out)"

lemma annotate_note: "same_but_note out (annotate k v out)"
  by (simp add: same_but_note_def annotate_def Let_def set_member_get)

lemma same_but_note_trans: "same_but_note a b \<Longrightarrow> same_but_note b c \<Longrightarrow> same_but_note a c"
  by (simp add: same_but_note_def)

lemma same_but_note_refl [simp]: "same_but_note a a"
  by (simp add: same_but_note_def)

lemma notes_only: "same_but_note out (note_pii e st (note_shadow would out))"
  by (auto simp: note_pii_def note_shadow_def Let_def intro: annotate_note same_but_note_trans [OF annotate_note annotate_note] split: option.splits)

lemma redacted_cong: "b_dlp st' = b_dlp st \<Longrightarrow> b_dlp_pii st' = b_dlp_pii st \<Longrightarrow> redacted e st' v = redacted e st v"
  by (simp add: redacted_def)

text \<open>The tools of a listing whose definition is not the locked one, and the findings in their descriptions.\<close>
definition rug_pulled :: "BrokerEnv \<Rightarrow> BrokerState \<Rightarrow> json \<Rightarrow> string list" where
  "rug_pulled e st out = (case b_lock st of None \<Rightarrow> []
     | Some lk \<Rightarrow> changed_tools e lk (parse_tools (be_fingerprint e) (print_json (be_serde e)) out))"

definition poison_count :: "BrokerEnv \<Rightarrow> json \<Rightarrow> nat" where
  "poison_count e out = length (scan_injection (be_lower e) (parse_tools (be_fingerprint e) (print_json (be_serde e)) out))"

text \<open>A listing is withheld in block mode when a definition changed or a description is poisoned.\<close>
definition withheld :: "BrokerEnv \<Rightarrow> BrokerState \<Rightarrow> json \<Rightarrow> json \<Rightarrow> bool" where
  "withheld e st req out \<longleftrightarrow> method_of req = ''tools/list'' \<and> b_scan st = ScanBlock \<and> (rug_pulled e st out \<noteq> [] \<or> poison_count e out \<noteq> 0)"

text \<open>The verdict a shadow policy would have given on the tool call.\<close>
definition shadow_verdict :: "BrokerEnv \<Rightarrow> BrokerState \<Rightarrow> CallContext \<Rightarrow> json \<Rightarrow> string option" where
  "shadow_verdict e st ctx req =
     (if method_of req = ''tools/call'' \<and> w_mode (b_wardryx st) = WShadow
      then map_option (\<lambda>aid. decision_wire_str (w_decision (fst (pdp_answer e st ctx aid (masked_request e st req))))) (cc_agent_id ctx)
      else None)"

text \<open>The server's answer with the broker's notes: the poison count of a checked listing, the shadow
  verdict, and in shadow mode the PII found.\<close>
definition annotated :: "BrokerEnv \<Rightarrow> BrokerState \<Rightarrow> CallContext \<Rightarrow> json \<Rightarrow> json \<Rightarrow> json" where
  "annotated e st ctx req out = note_pii e st (note_shadow (shadow_verdict e st ctx req)
     (if method_of req = ''tools/list'' \<and> b_scan st \<noteq> ScanOff \<and> poison_count e out \<noteq> 0
      then set_member ''_tokenfuse'' (JObject [(''mcp_findings'', json_u64 (poison_count e out))]) out else out))"

lemma annotated_note: "same_but_note out (annotated e st ctx req out)"
proof -
  have "same_but_note out (set_member ''_tokenfuse'' v out)" for v by (simp add: same_but_note_def set_member_get)
  then show ?thesis unfolding annotated_def by (auto intro: same_but_note_trans [OF _ notes_only] notes_only)
qed

text \<open>Every answer the broker gives to a request it does not forward.\<close>
inductive broker_refusal :: "BrokerEnv \<Rightarrow> BrokerState \<Rightarrow> CallContext \<Rightarrow> json \<Rightarrow> json \<Rightarrow> bool" for e st ctx req where
  unknown_upstream: "\<lbrakk>cc_upstream ctx = Some name; b_named_upstreams st name = None\<rbrakk> \<Longrightarrow> broker_refusal e st ctx req
    (rpc_error (id_of req) (- 32005) (''unknown mcp upstream '' @ be_debug e name @ '' (X-Fuse-Mcp-Upstream)''))"
| raw_secret: "\<lbrakk>method_of req = ''tools/call''; b_dlp st = DlpBlock; json_get ''params'' req = Some params;
    scan (be_engine e) (print_json (be_serde e) params) = fs; fs \<noteq> []\<rbrakk> \<Longrightarrow> broker_refusal e st ctx req
    (rpc_error (id_of req) (- 32002) (''blocked: raw secret in tool arguments ('' @ summary fs @ '')''))"
| pii_argument: "\<lbrakk>method_of req = ''tools/call''; b_dlp_pii st = DlpBlock; json_get ''params'' req = Some params;
    scan_pii (be_engine e) (print_json (be_serde e) params) = ps; ps \<noteq> []\<rbrakk> \<Longrightarrow> broker_refusal e st ctx req
    (rpc_error (id_of req) (- 32006) (''blocked: pii in tool arguments ('' @ pii_summary ps @ '')''))"
| policy_denied: "\<lbrakk>method_of req = ''tools/call''; w_mode (b_wardryx st) = WEnforce; cc_agent_id ctx = Some aid;
    fst (pdp_answer e st ctx aid (masked_request e st req)) = out; w_decision out = WDeny\<rbrakk> \<Longrightarrow> broker_refusal e st ctx req
    (rpc_error (id_of req) (- 32004) (''blocked: policy denied tool '' @ be_debug e (tool_of (masked_request e st req)) @ reason_suffix (w_reason out)))"
| policy_held: "\<lbrakk>method_of req = ''tools/call''; w_mode (b_wardryx st) = WEnforce; cc_agent_id ctx = Some aid;
    fst (pdp_answer e st ctx aid (masked_request e st req)) = out; w_decision out = WHold\<rbrakk> \<Longrightarrow> broker_refusal e st ctx req
    (rpc_error (id_of req) (- 32004) (''blocked: tool '' @ be_debug e (tool_of (masked_request e st req)) @ '' requires approval''
      @ (case approval_id out of Some a \<Rightarrow> '' (approval '' @ a @ '')'' | None \<Rightarrow> [])))"

text \<open>Every answer the broker gives to a request it forwarded, by what the server replied.\<close>
inductive broker_reply :: "BrokerEnv \<Rightarrow> BrokerState \<Rightarrow> CallContext \<Rightarrow> json \<Rightarrow> UpstreamReply \<Rightarrow> json \<Rightarrow> bool" for e st ctx req where
  unreachable: "broker_reply e st ctx req (SendFailed m) (rpc_error (id_of req) (- 32000) (''upstream error: '' @ m))"
| unreadable: "broker_reply e st ctx req (BodyFailed m) (rpc_error (id_of req) (- 32000) (''upstream read: '' @ m))"
| not_json: "parse_json (be_serde e) bytes = None \<Longrightarrow> broker_reply e st ctx req (Answered bytes)
    (rpc_error (id_of req) (- 32000) (''bad upstream json: '' @ be_parse_error e bytes))"
| rug_pull: "\<lbrakk>parse_json (be_serde e) bytes = Some out; method_of req = ''tools/list''; b_scan st = ScanBlock;
    rug_pulled e st out = names; names \<noteq> []\<rbrakk> \<Longrightarrow> broker_reply e st ctx req (Answered bytes)
    (rpc_error (id_of req) (- 32003) (''blocked: tool definition changed (rug-pull): '' @ join '', '' names))"
| poisoned: "\<lbrakk>parse_json (be_serde e) bytes = Some out; method_of req = ''tools/list''; b_scan st = ScanBlock;
    rug_pulled e st out = []; poison_count e out = n; n \<noteq> 0\<rbrakk> \<Longrightarrow> broker_reply e st ctx req (Answered bytes)
    (rpc_error (id_of req) (- 32001) (''blocked: '' @ nat_str n @ '' poisoned tool description(s)''))"
| pii_response: "\<lbrakk>parse_json (be_serde e) bytes = Some out; \<not> withheld e st req out; b_dlp_pii st = DlpBlock;
    scan_pii (be_engine e) (print_json (be_serde e) (annotated e st ctx req out)) = ps; ps \<noteq> []\<rbrakk> \<Longrightarrow> broker_reply e st ctx req (Answered bytes)
    (rpc_error (id_of req) (- 32006) (''blocked: pii in tool response ('' @ pii_summary ps @ '')''))"
| relayed: "\<lbrakk>parse_json (be_serde e) bytes = Some out; \<not> withheld e st req out;
    b_dlp_pii st = DlpBlock \<longrightarrow> scan_pii (be_engine e) (print_json (be_serde e) (annotated e st ctx req out)) = []\<rbrakk> \<Longrightarrow>
    broker_reply e st ctx req (Answered bytes) (redacted e st (annotated e st ctx req out))"

lemma tool_gate_result: "fst (tool_gate e ctx rid url req1 st) =
    (case cc_agent_id ctx of None \<Rightarrow> Inr None
     | Some aid \<Rightarrow> (let out = fst (pdp_answer e st ctx aid req1) in case w_mode (b_wardryx st) of
         WOff \<Rightarrow> Inr None
       | WShadow \<Rightarrow> Inr (Some (decision_wire_str (w_decision out)))
       | WEnforce \<Rightarrow> (case w_decision out of
           WDeny \<Rightarrow> Inl (rpc_error rid (- 32004) (''blocked: policy denied tool '' @ be_debug e (tool_of req1) @ reason_suffix (w_reason out)))
         | WHold \<Rightarrow> Inl (rpc_error rid (- 32004) (''blocked: tool '' @ be_debug e (tool_of req1) @ '' requires approval''
              @ (case approval_id out of Some a \<Rightarrow> '' (approval '' @ a @ '')'' | None \<Rightarrow> [])))
         | WAllow \<Rightarrow> Inr None)))"
proof (cases "cc_agent_id ctx")
  case (Some aid)
  obtain out w where p: "pdp_answer e st ctx aid req1 = (out, w)" by fastforce
  show ?thesis
    by (cases "w_mode (b_wardryx st)"; cases "w_decision out") (simp_all only: tool_gate_def Some p option.case Let_def prod.case fst_conv
        WardryxMode.case WardryxDecision.case WardryxMode.distinct simp_thms if_True if_False refl)
qed (simp add: tool_gate_def)

lemma call_gates_result:
  assumes "engine_ok (be_engine e)" "method_of req = ''tools/call''"
  shows "case call_gates e ctx (id_of req) url req st of
      (Inl r, st1) \<Rightarrow> \<exists>a. r = Some a \<and> broker_refusal e st ctx req a
    | (Inr (req1, w), st1) \<Rightarrow> w = shadow_verdict e st ctx req"
proof (cases "secrets_in_args e st (id_of req) req")
  case (Inl r)
  then have "broker_refusal e st ctx req r" using secrets_scanned [of e st "id_of req" req r] raw_secret assms(2) by blast
  then show ?thesis using Inl by (simp add: call_gates_def)
next
  case (Inr secret)
  note args = args_scanned [OF assms(1) Inr]
  show ?thesis
  proof (cases "b_dlp_pii st = DlpBlock \<and> (\<exists>p. json_get ''params'' req = Some p \<and> scan_pii (be_engine e) (print_json (be_serde e) p) \<noteq> [])")
    case True
    then obtain p where p: "b_dlp_pii st = DlpBlock" "json_get ''params'' req = Some p"
        "scan_pii (be_engine e) (print_json (be_serde e) p) \<noteq> []" by blast
    note pii_argument [OF assms(2) p(1,2) refl p(3)]
    moreover have "pii_in_args e st (id_of req) secret req = Inl (Some (rpc_error (id_of req) (- 32006) (''blocked: pii in tool arguments (''
        @ pii_summary (scan_pii (be_engine e) (print_json (be_serde e) p)) @ '')'')))"
      by (subst args, subst if_P [OF True]) (simp only: p(2) option.sel)
    ultimately show ?thesis using Inr by (simp add: call_gates_def del: append_Cons)
  next
    case False
    let ?g = "tool_gate e ctx (id_of req) url (masked_request e st req) st"
    have "pii_in_args e st (id_of req) secret req = Inr (masked_request e st req)" using args False by (subst args) (simp only: if_False)
    then have g: "call_gates e ctx (id_of req) url req st = (case ?g of (Inl r, st1) \<Rightarrow> (Inl (Some r), st1)
        | (Inr would, st1) \<Rightarrow> (Inr (inject_params (b_vault st1) (masked_request e st req), would), st1))"
      using Inr by (simp add: call_gates_def)
    have "case fst ?g of Inl r \<Rightarrow> broker_refusal e st ctx req r | Inr w \<Rightarrow> w = shadow_verdict e st ctx req"
    proof (cases "cc_agent_id ctx")
      case None
      then show ?thesis by (simp add: tool_gate_result shadow_verdict_def)
    next
      case (Some aid)
      note denied = policy_denied [OF assms(2) _ Some refl] and held = policy_held [OF assms(2) _ Some refl]
      show ?thesis
        using denied held unfolding tool_gate_result Some option.case Let_def shadow_verdict_def
        by (cases "w_mode (b_wardryx st)"; cases "w_decision (fst (pdp_answer e st ctx aid (masked_request e st req)))")
          (simp_all add: assms(2) del: append_Cons)
    qed
    then show ?thesis by (cases ?g, cases "fst ?g") (simp_all add: g)
  qed
qed

text \<open>What the listing checks let through.\<close>
lemma check_listing_result:
  assumes "parse_json (be_serde e) bytes = Some out" "method_of req = ''tools/list''" "b_scan st \<noteq> ScanOff"
  shows "case fst (check_listing e ctx (id_of req) out st) of
      Inl r \<Rightarrow> broker_reply e st ctx req (Answered bytes) r
    | Inr out1 \<Rightarrow> \<not> withheld e st req out
        \<and> out1 = (if poison_count e out \<noteq> 0 then set_member ''_tokenfuse'' (JObject [(''mcp_findings'', json_u64 (poison_count e out))]) out else out)"
proof -
  let ?tools = "parse_tools (be_fingerprint e) (print_json (be_serde e)) out"
  have n: "(case b_lock st of Some lk \<Rightarrow> changed_tools e lk ?tools | None \<Rightarrow> []) = rug_pulled e st out"
    by (simp add: rug_pulled_def cong: option.case_cong)
  have l: "scan_injection (be_lower e) ?tools = [] \<longleftrightarrow> poison_count e out = 0" "length (scan_injection (be_lower e) ?tools) = poison_count e out"
    by (simp_all add: poison_count_def)
  have c: "fst (check_listing e ctx (id_of req) out st) =
      (if rug_pulled e st out \<noteq> [] \<and> b_scan st = ScanBlock
       then Inl (rpc_error (id_of req) (- 32003) (''blocked: tool definition changed (rug-pull): '' @ join '', '' (rug_pulled e st out)))
       else if poison_count e out = 0 then Inr out
       else if b_scan st = ScanBlock then Inl (rpc_error (id_of req) (- 32001) (''blocked: '' @ nat_str (poison_count e out) @ '' poisoned tool description(s)''))
       else Inr (set_member ''_tokenfuse'' (JObject [(''mcp_findings'', json_u64 (poison_count e out))]) out))"
    unfolding check_listing_def Let_def n poison_check_def l by (simp add: emit_drift_def del: append_Cons)
  show ?thesis
    unfolding c using rug_pull [OF assms(1,2) _ refl] poisoned [OF assms(1,2) _ _ refl] assms(2,3)
    by (simp add: withheld_def del: append_Cons)
qed

lemma check_listing_state: "b_dlp (snd (check_listing e ctx rid out st)) = b_dlp st"
  "b_dlp_pii (snd (check_listing e ctx rid out st)) = b_dlp_pii st"
  by (auto simp: check_listing_def emit_drift_def Let_def)

lemma finish_call_reply:
  assumes "engine_ok (be_engine e)"
  shows "\<exists>a. fst (finish_call e ctx (id_of req) (method_of req) (shadow_verdict e st ctx req) reply st) = Some a \<and> broker_reply e st ctx req reply a"
proof (cases reply)
  case (Answered bytes)
  show ?thesis
  proof (cases "parse_json (be_serde e) bytes")
    case None
    then show ?thesis using Answered not_json [OF None] by (simp add: finish_call_def del: append_Cons)
  next
    case (Some out)
    obtain r st1 where rs: "(if method_of req = ''tools/list'' \<and> b_scan st \<noteq> ScanOff then check_listing e ctx (id_of req) out st else (Inr out, st)) = (r, st1)"
      by fastforce
    have st1: "b_dlp st1 = b_dlp st" "b_dlp_pii st1 = b_dlp_pii st"
      using check_listing_state [of e ctx "id_of req" out st] rs by (auto split: if_splits)
    have out1: "case r of Inl x \<Rightarrow> broker_reply e st ctx req (Answered bytes) x
      | Inr out1 \<Rightarrow> \<not> withheld e st req out \<and> annotated e st ctx req out = note_pii e st1 (note_shadow (shadow_verdict e st ctx req) out1)"
    proof (cases "method_of req = ''tools/list'' \<and> b_scan st \<noteq> ScanOff")
      case True
      then have "fst (check_listing e ctx (id_of req) out st) = r" using rs by simp
      moreover have "note_pii e st1 v = note_pii e st v" for v by (simp add: note_pii_def st1)
      ultimately show ?thesis
        using check_listing_result [OF Some, of req st ctx] True by (cases r) (simp_all add: annotated_def)
    next
      case False
      then have "r = Inr out" "\<not> withheld e st req out" using rs by (auto simp: withheld_def split: if_splits)
      moreover have "note_pii e st1 v = note_pii e st v" for v by (simp add: note_pii_def st1)
      ultimately show ?thesis using False unfolding annotated_def by (simp only: sum.case simp_thms if_False if_cancel) auto
    qed
    have f: "fst (finish_call e ctx (id_of req) (method_of req) (shadow_verdict e st ctx req) reply st)
        = (case r of Inl refusal \<Rightarrow> Some refusal | Inr o1 \<Rightarrow> redact_answer e (id_of req) st1 (note_shadow (shadow_verdict e st ctx req) o1))"
      using Answered Some by (simp add: finish_call_def rs split: sum.split)
    show ?thesis
    proof (cases r)
      case (Inl x)
      then show ?thesis using f out1 Answered by simp
    next
      case (Inr o1)
      let ?shown = "annotated e st ctx req out"
      have w: "\<not> withheld e st req out" using out1 Inr by simp
      have "fst (finish_call e ctx (id_of req) (method_of req) (shadow_verdict e st ctx req) reply st) =
        Some (let pii = scan_pii (be_engine e) (print_json (be_serde e) ?shown) in
          if b_dlp_pii st = DlpBlock \<and> pii \<noteq> [] then rpc_error (id_of req) (- 32006) (''blocked: pii in tool response ('' @ pii_summary pii @ '')'')
          else redacted e st ?shown)"
        using f Inr out1 redact_answer_exact [OF assms, of "id_of req" st1] st1 redacted_cong [OF st1] by (simp add: Let_def del: append_Cons)
      then show ?thesis using pii_response [OF Some w _ refl] relayed [OF Some w, of ctx] Answered by (simp add: Let_def del: append_Cons)
    qed
  qed
qed (simp_all add: finish_call_def unreachable unreadable del: append_Cons)

text \<open>The gates change neither the modes nor the lock.\<close>
lemma call_gates_state:
  "let st1 = snd (call_gates e ctx rid url req st) in b_dlp st1 = b_dlp st \<and> b_dlp_pii st1 = b_dlp_pii st \<and> b_scan st1 = b_scan st \<and> b_lock st1 = b_lock st"
proof -
  have "b_dlp st1 = b_dlp st \<and> b_dlp_pii st1 = b_dlp_pii st \<and> b_scan st1 = b_scan st \<and> b_lock st1 = b_lock st"
    if "tool_gate e ctx rid url r1 st = (x, st1)" for r1 x st1
    using tool_gate_state(2-5) [of e ctx rid url r1 st] that by simp
  then show ?thesis by (auto simp: call_gates_def Let_def split: sum.splits prod.splits)
qed

text \<open>The answer looks at the state only through these four.\<close>
lemma finish_call_cong:
  assumes "b_dlp st1 = b_dlp st" "b_dlp_pii st1 = b_dlp_pii st" "b_scan st1 = b_scan st" "b_lock st1 = b_lock st"
  shows "fst (finish_call e ctx rid meth w reply st1) = fst (finish_call e ctx rid meth w reply st)"
proof -
  let ?X = "\<lambda>out s. if meth = ''tools/list'' \<and> b_scan s \<noteq> ScanOff then check_listing e ctx rid out s else (Inr out, s)"
  have eq: "fst (finish_call e ctx rid meth w (Answered bytes) s) = (case parse_json (be_serde e) bytes of
       None \<Rightarrow> Some (rpc_error rid (- 32000) (''bad upstream json: '' @ be_parse_error e bytes))
     | Some out \<Rightarrow> (case fst (?X out s) of Inl r \<Rightarrow> Some r | Inr out1 \<Rightarrow> redact_answer e rid (snd (?X out s)) (note_shadow w out1)))" for bytes s
    unfolding finish_call_def by (cases "parse_json (be_serde e) bytes") (simp_all add: split_beta split: sum.split del: append_Cons)
  have red: "redact_answer e rid s1 x = redact_answer e rid s2 x" if "b_dlp s1 = b_dlp s2" "b_dlp_pii s1 = b_dlp_pii s2" for s1 s2 x
    using that by (simp add: redact_answer_def note_pii_def)
  have fst: "fst (?X out st1) = fst (?X out st)" for out
    by (simp add: check_listing_def Let_def poison_check_def assms cong: option.case_cong)
  have snd: "redact_answer e rid (snd (?X out st1)) x = redact_answer e rid (snd (?X out st)) x" for out x
    by (rule red) (simp_all add: check_listing_state assms)
  show ?thesis
  proof (cases reply)
    case (Answered bytes)
    show ?thesis unfolding Answered eq fst snd ..
  qed (simp_all add: finish_call_def)
qed

text \<open>C29: The broker's answer to every request, exactly, on every branch; the redaction never panics.
  A request is not forwarded exactly for one of five reasons, each with its own error code under the request's id:
  an unknown upstream, a raw secret or PII in the arguments of a tool call in the modes that block
  them, or a denial or hold by an enforcing policy.  A forwarded one is answered with an error when
  the server cannot be reached, read or parsed; in block mode a tool listing that changed a locked
  definition or has poisoned descriptions is withheld; and in block mode so is an answer with PII.
  Anything else is the server's answer, changed in no member but the broker's own note, with every
  secret (and in mask mode every PII finding) replaced by its marker whenever the result still parses.\<close>
theorem broker_answers:
  assumes "engine_ok (be_engine e)"
  shows "(case process e st req ctx of (ans, st', sent) \<Rightarrow>
    \<exists>a. ans = Some a \<and> (case sent of
        None \<Rightarrow> broker_refusal e st ctx req a
      | Some (url, payload) \<Rightarrow> broker_reply e st ctx req (be_send e url payload) a))
    \<and> (\<forall>out. same_but_note out (annotated e st ctx req out))"
proof (rule conjI)
  show "case process e st req ctx of (ans, st', sent) \<Rightarrow>
    \<exists>a. ans = Some a \<and> (case sent of
        None \<Rightarrow> broker_refusal e st ctx req a
      | Some (url, payload) \<Rightarrow> broker_reply e st ctx req (be_send e url payload) a)"
  proof (cases "resolve_upstream e st ctx (id_of req)")
    case (Inl r)
    then have "broker_refusal e st ctx req r"
      using unknown_upstream [of ctx _ st e req] by (auto simp: resolve_upstream_def split: option.splits)
    then show ?thesis using Inl by (simp add: process_def Let_def)
  next
    case (Inr url)
    obtain r st1 where rs: "(if method_of req = ''tools/call'' then call_gates e ctx (id_of req) url req st else (Inr (req, None), st)) = (r, st1)"
      by fastforce
    have st1: "b_dlp st1 = b_dlp st" "b_dlp_pii st1 = b_dlp_pii st" "b_scan st1 = b_scan st" "b_lock st1 = b_lock st"
      using call_gates_state [of e ctx "id_of req" url req st] rs by (auto simp: Let_def split: if_splits)
    have gates: "case r of Inl x \<Rightarrow> \<exists>a. x = Some a \<and> broker_refusal e st ctx req a | Inr (req1, w) \<Rightarrow> w = shadow_verdict e st ctx req"
      using call_gates_result [OF assms, of req st ctx url] rs
      by (cases "method_of req = ''tools/call''") (auto simp: shadow_verdict_def)
    show ?thesis
    proof (cases r)
      case (Inl x)
      then show ?thesis using Inr rs gates by (auto simp: process_def Let_def)
    next
      case 2: (Inr y)
      obtain req1 would where y: "y = (req1, would)" by fastforce
      have w: "would = shadow_verdict e st ctx req" using gates 2 y by simp
      show ?thesis
        using Inr 2 rs y finish_call_reply [OF assms, of ctx req st] finish_call_cong [OF st1]
        by (simp add: process_def Let_def split_beta w)
    qed
  qed
qed (simp add: annotated_note)

text \<open>A batch has no method: it is forwarded without any of the gates of a tool call.\<close>
lemma batch_skips_gates:
  "snd (snd (process e st (JArray reqs) CallContext_default)) = Some (b_upstream st, print_json (be_serde e) (JArray reqs))"
  by (simp add: process_def method_of_def id_of_def get_str_def get_then_def resolve_upstream_def CallContext_default_def Let_def split_beta)

section \<open>A broker whose policy denies\<close>

definition demo_broker_env :: BrokerEnv where
  "demo_broker_env = \<lparr> be_engine = (\<lambda>_ _. []), be_serde = demo_serde, be_parse_error = id, be_debug = id, be_lower = id,
     be_fingerprint = (\<lambda>_ _ _. 0), be_hasher = (\<lambda>_. 0),
     be_pdp = (\<lambda>_ _. Inr (\<lparr> w_decision = WDeny, policy_version = None, w_reason = None, approval_id = None, approval_token_required = False \<rparr>, False)),
     be_instant = (0, 0), be_now = (\<lambda>_. 0), be_write = (\<lambda>_. WriteOk), be_send = (\<lambda>_ _. SendFailed ''down'') \<rparr>"

definition demo_broker :: BrokerState where
  "demo_broker = \<lparr> b_upstream = ''http://mcp'', b_named_upstreams = Map.empty, b_vault = vault_new, b_scan = ScanOff, b_dlp = DlpOff,
     b_dlp_pii = DlpOff, b_lock = None, b_wardryx = wardryx_new WEnforce FailClosed ''u'' None 50 3000, b_events = exporter_disabled \<rparr>"

definition demo_tool_call :: json where
  "demo_tool_call = JObject [(''id'', json_u64 1), (''method'', JString ''tools/call''), (''params'', JObject [(''name'', JString ''bash'')])]"

lemma demo_engine_ok: "engine_ok (be_engine demo_broker_env)"
  by (simp add: engine_ok_def demo_broker_env_def spans_ok_def matches_def list_all_iff case_prod_beta)

lemma demo_denied: "\<not> call_allowed demo_broker_env demo_broker (CallContext_default\<lparr>cc_agent_id := Some ''a''\<rparr>) demo_tool_call"
  by (simp add: call_allowed_def demo_broker_env_def demo_broker_def demo_tool_call_def CallContext_default_def pdp_answer_def
      wardryx_decide_def wardryx_new_def wcache_new_def wcache_get_def)

theorem broker_forwards_exactly_witness:
  "snd (snd (process demo_broker_env demo_broker demo_tool_call (CallContext_default\<lparr>cc_agent_id := Some ''a''\<rparr>))) = None"
proof -
  have "method_of demo_tool_call = ''tools/call''" by (simp add: method_of_def demo_tool_call_def get_str_def get_then_def)
  then show ?thesis using demo_denied
    by (simp add: broker_forwards_exactly [OF demo_engine_ok] resolve_upstream_def CallContext_default_def)
qed

theorem broker_answers_witness:
  "\<exists>a. fst (process demo_broker_env demo_broker demo_tool_call CallContext_default) = Some a"
  using broker_answers [OF demo_engine_ok, where st = demo_broker and req = demo_tool_call and ctx = CallContext_default] by (auto split: prod.splits)

end
