(* ===== verification/Sinks.thy ===== *)
theory Sinks
  imports SettleGuard AppState "HOL-Library.AList"
begin

text \<open>
  Where settled calls go, and what comes back from the control plane
  (\<open>crates/gateway/src/sink.rs\<close>, \<open>cloudsink.rs\<close>, \<open>otel.rs\<close>): the columns of the trace, the
  buffered writer of Parquet segments, the batches for the control plane, the fan-out,
  and one tick of each poller.  The directory is the list of its segments in the order
  of their creation; whether the \<open>n\<close>-th segment can be written is a field of the sink.
  Encoding and HTTP are parameters.
\<close>

section \<open>The contract of a sink\<close>

datatype 'a SinkOp = RecordCall 'a | Flush

primrec recorded :: "'a SinkOp list \<Rightarrow> 'a list" where
  "recorded [] = []"
| "recorded (op # ops) = (case op of RecordCall r \<Rightarrow> [r] | Flush \<Rightarrow> []) @ recorded ops"

primrec sink_run :: "('a \<Rightarrow> 's \<Rightarrow> 's) \<Rightarrow> ('s \<Rightarrow> 's) \<Rightarrow> 'a SinkOp list \<Rightarrow> 's \<Rightarrow> 's" where
  "sink_run rec fl [] s = s"
| "sink_run rec fl (op # ops) s = sink_run rec fl ops (case op of RecordCall r \<Rightarrow> rec r s | Flush \<Rightarrow> fl s)"

text \<open>A buffering sink: what it handed on, followed by what it holds, is what it was given, in order.\<close>
locale event_sink =
  fixes rec :: "'a \<Rightarrow> 's \<Rightarrow> 's" and fl :: "'s \<Rightarrow> 's"
    and out :: "'s \<Rightarrow> 'a list" and held :: "'s \<Rightarrow> 'a list" and inv :: "'s \<Rightarrow> bool" and cap :: "'s \<Rightarrow> nat"
  assumes rec_keeps: "inv s \<Longrightarrow> out (rec r s) @ held (rec r s) = out s @ held s @ [r]"
    and fl_keeps: "inv s \<Longrightarrow> out (fl s) = out s @ held s" and fl_empty: "held (fl s) = []"
    and rec_bound: "length (held s) < cap s \<Longrightarrow> length (held (rec r s)) < cap s"
    and rec_inv: "inv s \<Longrightarrow> inv (rec r s) \<and> cap (rec r s) = cap s" and fl_inv: "inv s \<Longrightarrow> inv (fl s) \<and> cap (fl s) = cap s"
begin

lemma run_keeps:
  "inv s \<Longrightarrow> inv (sink_run rec fl ops s) \<and> cap (sink_run rec fl ops s) = cap s
     \<and> out (sink_run rec fl ops s) @ held (sink_run rec fl ops s) = out s @ held s @ recorded ops"
proof (induction ops arbitrary: s)
  case (Cons op ops)
  then show ?case
    by (cases op) (simp_all add: rec_keeps rec_inv fl_inv fl_keeps fl_empty)
qed simp

lemma run_bounded:
  "inv s \<Longrightarrow> length (held s) < cap s \<Longrightarrow> length (held (sink_run rec fl ops s)) < cap s"
proof (induction ops arbitrary: s)
  case (Cons op ops)
  show ?case
  proof (cases op)
    case (RecordCall r)
    then show ?thesis using Cons.IH [of "rec r s"] Cons.prems rec_inv rec_bound by simp
  next
    case Flush
    then show ?thesis using Cons.IH [of "fl s"] Cons.prems fl_inv fl_empty [of s] by simp
  qed
qed simp

lemma flushed_all: "inv s \<Longrightarrow> out (fl (sink_run rec fl ops s)) = out s @ held s @ recorded ops"
  using run_keeps [of s ops] by (simp add: fl_keeps)

end

section \<open>The columns of the trace\<close>

datatype DataType = Int64 | UInt64 | UInt32 | Utf8

record Field =
  fl_name :: string
  fl_type :: DataType
  fl_nullable :: bool

definition field :: "string \<Rightarrow> DataType \<Rightarrow> bool \<Rightarrow> Field" where
  "field n t b = \<lparr> fl_name = n, fl_type = t, fl_nullable = b \<rparr>"

definition schema :: "Field list" where
  "schema = [field ''ts_millis'' Int64 False, field ''run_id'' Utf8 False, field ''model'' Utf8 False, field ''decision'' Utf8 False,
     field ''input_tokens'' UInt64 False, field ''output_tokens'' UInt64 False, field ''cost_microusd'' Int64 False, field ''step'' UInt32 False,
     field ''agent_id'' Utf8 False, field ''saved_microusd'' Int64 False, field ''parent_run_id'' Utf8 False, field ''on_behalf_of'' Utf8 False,
     field ''outcome'' Utf8 False, field ''key_id'' Utf8 False, field ''unit'' Utf8 False, field ''tool_calls'' UInt32 True]"

definition read_schema :: "Field list" where
  "read_schema = [field ''ts_millis'' Int64 False, field ''run_id'' Utf8 False, field ''model'' Utf8 False, field ''decision'' Utf8 False,
     field ''input_tokens'' UInt64 False, field ''output_tokens'' UInt64 False, field ''cost_microusd'' Int64 False, field ''step'' UInt32 False,
     field ''agent_id'' Utf8 True, field ''saved_microusd'' Int64 True, field ''parent_run_id'' Utf8 True, field ''on_behalf_of'' Utf8 True,
     field ''outcome'' Utf8 True, field ''key_id'' Utf8 True, field ''unit'' Utf8 True, field ''tool_calls'' UInt32 True]"

datatype cell = CNull | CInt64 i64 | CUInt64 u64 | CUInt32 u32 | CUtf8 string

fun cell_type :: "cell \<Rightarrow> DataType option" where
  "cell_type CNull = None"
| "cell_type (CInt64 _) = Some Int64"
| "cell_type (CUInt64 _) = Some UInt64"
| "cell_type (CUInt32 _) = Some UInt32"
| "cell_type (CUtf8 _) = Some Utf8"

text \<open>The row \<open>write_batch\<close> builds of a record, a cell per column.\<close>
definition columns :: "CallRecord \<Rightarrow> cell list" where
  "columns r = [CInt64 (ts_millis r), CUtf8 (cr_run_id r), CUtf8 (cr_model r), CUtf8 (cr_decision r),
     CUInt64 (cr_input_tokens r), CUInt64 (cr_output_tokens r), CInt64 (cost_microusd r), CUInt32 (cr_step r),
     CUtf8 (cr_agent_id r), CInt64 (saved_microusd r), CUtf8 (cr_parent_run_id r), CUtf8 (cr_on_behalf_of r),
     CUtf8 (cr_outcome r), CUtf8 (cr_key_id r), CUtf8 (cr_unit r), (case cr_tool_calls r of Some n \<Rightarrow> CUInt32 n | None \<Rightarrow> CNull)]"

definition fits :: "Field \<Rightarrow> cell \<Rightarrow> bool" where
  "fits f c = (case cell_type c of Some t \<Rightarrow> t = fl_type f | None \<Rightarrow> fl_nullable f)"

text \<open>A row fits the schema it is written with, so building the batch cannot fail.\<close>
lemma row_fits_schema: "list_all2 fits schema (columns r)"
  by (simp add: schema_def columns_def fits_def field_def split: option.split)

text \<open>A row of a file written before the columns beyond the \<open>n\<close>-th existed reads back with nulls there.\<close>
lemma old_row_fits_read_schema:
  assumes "8 \<le> n" "n \<le> 16" shows "list_all2 fits read_schema (take n (columns r) @ replicate (16 - n) CNull)"
proof -
  have "n \<in> {8, 9, 10, 11, 12, 13, 14, 15, 16}" using assms by auto
  then show ?thesis
    by (elim insertE emptyE) (simp_all add: read_schema_def columns_def fits_def field_def numeral_eq_Suc split: option.split)
qed

lemma schemas_agree: "map fl_name read_schema = map fl_name schema" "map fl_type read_schema = map fl_type schema"
  by (simp_all add: read_schema_def schema_def field_def)

section \<open>The Parquet sink\<close>

record ParquetSink =
  ps_dir :: "(string \<times> CallRecord list) list"
  ps_buffer :: "CallRecord list"
  ps_threshold :: usize
  ps_seq :: u64
  ps_instance :: string
  ps_writable :: "u64 \<Rightarrow> bool"

definition parquet_new :: "(string \<times> CallRecord list) list \<Rightarrow> usize \<Rightarrow> string \<Rightarrow> (u64 \<Rightarrow> bool) \<Rightarrow> ParquetSink" where
  "parquet_new dir thr pid_nanos ok =
     \<lparr> ps_dir = dir, ps_buffer = [], ps_threshold = max thr 1, ps_seq = 0, ps_instance = pid_nanos, ps_writable = ok \<rparr>"

definition segment_name :: "string \<Rightarrow> u64 \<Rightarrow> string" where
  "segment_name inst n = ''calls-'' @ inst @ ''-'' @ pad0 8 (nat_str n) @ ''.parquet''"

text \<open>\<open>File::create\<close> truncates a file that exists.  The counter would need 2^64 segments to wrap.\<close>
definition write_batch :: "CallRecord list \<Rightarrow> ParquetSink \<Rightarrow> ParquetSink" where
  "write_batch records s =
     (if records = [] then s
      else let n = ps_seq s; s1 = s\<lparr>ps_seq := n + 1\<rparr> in
        if ps_writable s n then s1\<lparr>ps_dir := AList.update (segment_name (ps_instance s) n) records (ps_dir s1)\<rparr> else s1)"

definition parquet_record :: "CallRecord \<Rightarrow> ParquetSink \<Rightarrow> ParquetSink" where
  "parquet_record r s =
     (let b = ps_buffer s @ [r] in
      if ps_threshold s \<le> length b then write_batch b (s\<lparr>ps_buffer := []\<rparr>) else s\<lparr>ps_buffer := b\<rparr>)"

definition parquet_flush :: "ParquetSink \<Rightarrow> ParquetSink" where
  "parquet_flush s = write_batch (ps_buffer s) (s\<lparr>ps_buffer := []\<rparr>)"

section \<open>The control-plane sink\<close>

definition BATCH :: usize where "BATCH = 20"

text \<open>The batches handed to background pushes, oldest first.\<close>
record CloudSink =
  cs_url :: string
  cs_key :: string
  cs_buf :: "CallRecord list"
  cs_shipped :: "CallRecord list list"

definition trim_end_slashes :: "string \<Rightarrow> string" where
  "trim_end_slashes s = rev (dropWhile (\<lambda>c. c = CHR ''/'') (rev s))"

definition cloud_sink_new :: "string \<Rightarrow> string \<Rightarrow> CloudSink" where
  "cloud_sink_new url0 key = \<lparr> cs_url = trim_end_slashes url0 @ ''/v1/ingest'', cs_key = key, cs_buf = [], cs_shipped = [] \<rparr>"

definition ship :: "CallRecord list \<Rightarrow> CloudSink \<Rightarrow> CloudSink" where
  "ship records s = (if records = [] then s else s\<lparr>cs_shipped := cs_shipped s @ [records]\<rparr>)"

definition take_if_full :: "CloudSink \<Rightarrow> CallRecord list option \<times> CloudSink" where
  "take_if_full s = (if BATCH \<le> length (cs_buf s) then (Some (cs_buf s), s\<lparr>cs_buf := []\<rparr>) else (None, s))"

definition cloud_record :: "CallRecord \<Rightarrow> CloudSink \<Rightarrow> CloudSink" where
  "cloud_record r s = (case take_if_full (s\<lparr>cs_buf := cs_buf s @ [r]\<rparr>) of
     (Some batch, s1) \<Rightarrow> ship batch s1 | (None, s1) \<Rightarrow> s1)"

definition cloud_flush :: "CloudSink \<Rightarrow> CloudSink" where
  "cloud_flush s = ship (cs_buf s) (s\<lparr>cs_buf := []\<rparr>)"

section \<open>The fan-out\<close>

definition tee_record :: "('a \<Rightarrow> 's \<Rightarrow> 's) \<Rightarrow> ('a \<Rightarrow> 't \<Rightarrow> 't) \<Rightarrow> 'a \<Rightarrow> 's \<times> 't \<Rightarrow> 's \<times> 't" where
  "tee_record f g r x = (f r (fst x), g r (snd x))"

definition tee_flush :: "('s \<Rightarrow> 's) \<Rightarrow> ('t \<Rightarrow> 't) \<Rightarrow> 's \<times> 't \<Rightarrow> 's \<times> 't" where
  "tee_flush f g x = (f (fst x), g (snd x))"

section \<open>The sinks keep the contract\<close>

lemma segment_name_inj [simp]: "segment_name inst m = segment_name inst n \<longleftrightarrow> m = n"
proof
  assume "segment_name inst m = segment_name inst n"
  then have "pad0 8 (nat_str m) = pad0 8 (nat_str n)" by (simp add: segment_name_def)
  then have "digits_val (pad0 8 (nat_str m)) = digits_val (pad0 8 (nat_str n))" by simp
  then show "m = n" by simp
qed simp

lemma update_fresh: "k \<notin> fst ` set al \<Longrightarrow> AList.update k v al = al @ [(k, v)]"
  by (induction al) auto

definition parquet_inv :: "ParquetSink \<Rightarrow> bool" where
  "parquet_inv s \<longleftrightarrow> (\<forall>n. ps_writable s n) \<and> (\<forall>n\<ge>ps_seq s. segment_name (ps_instance s) n \<notin> fst ` set (ps_dir s))"

definition parquet_rows :: "ParquetSink \<Rightarrow> CallRecord list" where
  "parquet_rows s = concat (map snd (ps_dir s))"

lemma write_batch_rows: "parquet_inv s \<Longrightarrow> parquet_rows (write_batch b s) = parquet_rows s @ b"
  by (simp add: parquet_rows_def write_batch_def parquet_inv_def update_fresh Let_def)

lemma write_batch_inv: "parquet_inv s \<Longrightarrow> parquet_inv (write_batch b s)"
  by (auto simp: write_batch_def parquet_inv_def update_fresh Let_def)

lemma write_batch_fields [simp]: "ps_buffer (write_batch b s) = ps_buffer s" "ps_threshold (write_batch b s) = ps_threshold s"
  by (simp_all add: write_batch_def Let_def)

lemma parquet_inv_buffer [simp]: "parquet_inv (s\<lparr>ps_buffer := b\<rparr>) = parquet_inv s" "parquet_rows (s\<lparr>ps_buffer := b\<rparr>) = parquet_rows s"
  by (simp_all add: parquet_inv_def parquet_rows_def)

interpretation parquet: event_sink parquet_record parquet_flush parquet_rows ps_buffer parquet_inv ps_threshold
  by unfold_locales
    (auto simp: parquet_record_def parquet_flush_def Let_def write_batch_rows write_batch_inv)

interpretation cloud: event_sink cloud_record cloud_flush "concat \<circ> cs_shipped" cs_buf "\<lambda>_. True" "\<lambda>_. BATCH"
  by unfold_locales (auto simp: cloud_record_def cloud_flush_def take_if_full_def ship_def BATCH_def)

interpretation tee_parquet: event_sink "tee_record parquet_record cloud_record" "tee_flush parquet_flush cloud_flush"
    "parquet_rows \<circ> fst" "ps_buffer \<circ> fst" "parquet_inv \<circ> fst" "ps_threshold \<circ> fst"
  by unfold_locales
    (auto simp: tee_record_def tee_flush_def parquet.rec_keeps parquet.fl_keeps parquet.fl_empty parquet.rec_bound parquet.rec_inv parquet.fl_inv)

interpretation tee_cloud: event_sink "tee_record parquet_record cloud_record" "tee_flush parquet_flush cloud_flush"
    "concat \<circ> cs_shipped \<circ> snd" "cs_buf \<circ> snd" "\<lambda>_. True" "\<lambda>_. BATCH"
  by unfold_locales
    (use cloud.rec_keeps cloud.fl_keeps cloud.fl_empty cloud.rec_bound in \<open>auto simp: tee_record_def tee_flush_def\<close>)

text \<open>C30: The trace loses nothing.  Over every sequence of records and flushes, with a directory that
  can be written and holds no segment of this instance, the segments written followed by the buffer, and
  the batches handed to the control plane followed by its buffer, are the calls recorded, in order and
  each once; both buffers stay below their bound, and a flush empties them into the output.\<close>
theorem trace_keeps_every_call:
  assumes "\<forall>n. ok n" and "\<forall>n. segment_name inst n \<notin> fst ` set dir"
  shows "let (p, c) = sink_run (tee_record parquet_record cloud_record) (tee_flush parquet_flush cloud_flush) ops
             (parquet_new dir thr inst ok, cloud_sink_new url0 key)
         in concat (map snd (ps_dir p)) @ ps_buffer p = concat (map snd dir) @ recorded ops
          \<and> concat (cs_shipped c) @ cs_buf c = recorded ops
          \<and> length (ps_buffer p) < max thr 1 \<and> length (cs_buf c) < BATCH
          \<and> concat (map snd (ps_dir (parquet_flush p))) = concat (map snd dir) @ recorded ops
          \<and> concat (cs_shipped (cloud_flush c)) = recorded ops"
proof -
  define x where "x = (parquet_new dir thr inst ok, cloud_sink_new url0 key)"
  have x: "parquet_inv (fst x)" "ps_threshold (fst x) = max thr 1" "ps_buffer (fst x) = []" "parquet_rows (fst x) = concat (map snd dir)"
      "cs_buf (snd x) = []" "cs_shipped (snd x) = []"
    using assms by (simp_all add: x_def parquet_inv_def parquet_new_def parquet_rows_def cloud_sink_new_def)
  obtain p c where pc: "sink_run (tee_record parquet_record cloud_record) (tee_flush parquet_flush cloud_flush) ops x = (p, c)"
    by fastforce
  have p: "parquet_inv p" "parquet_rows p @ ps_buffer p = concat (map snd dir) @ recorded ops" "length (ps_buffer p) < max thr 1"
    using tee_parquet.run_keeps [where s = x and ops = ops] tee_parquet.run_bounded [where s = x and ops = ops] x by (simp_all add: pc)
  have c: "concat (cs_shipped c) @ cs_buf c = recorded ops" "length (cs_buf c) < BATCH"
    using tee_cloud.run_keeps [where s = x and ops = ops] tee_cloud.run_bounded [where s = x and ops = ops] x
    by (simp_all add: pc BATCH_def)
  have "parquet_rows (parquet_flush p) = concat (map snd dir) @ recorded ops" using parquet.fl_keeps [OF p(1)] p(2) by simp
  moreover have "concat (cs_shipped (cloud_flush c)) = recorded ops" using cloud.fl_keeps [of c] c(1) by simp
  ultimately show ?thesis using p c by (simp add: parquet_rows_def flip: x_def) (simp add: pc)
qed

definition demo_call :: CallRecord where
  "demo_call = \<lparr> ts_millis = 1, cr_run_id = ''r'', cr_model = ''m'', cr_decision = ''allow'', cr_input_tokens = 3, cr_output_tokens = 4,
     cost_microusd = 5, cr_step = 1, cr_agent_id = ''a'', saved_microusd = 0, cr_parent_run_id = [], cr_on_behalf_of = [], cr_outcome = [],
     cr_key_id = [], cr_unit = [], cr_tool_calls = None \<rparr>"

theorem trace_keeps_every_call_witness:
  "concat (cs_shipped (cloud_flush (snd (sink_run (tee_record parquet_record cloud_record) (tee_flush parquet_flush cloud_flush)
     [RecordCall demo_call, Flush, RecordCall demo_call] (parquet_new [] 2 ''1-2'' (\<lambda>_. True), cloud_sink_new ''http://c/'' ''k''))))) = [demo_call, demo_call]"
  using trace_keeps_every_call [of "\<lambda>_. True" "''1-2''" "[]" "[RecordCall demo_call, Flush, RecordCall demo_call]" 2 "''http://c/''" "''k''"]
  by (simp add: Let_def split_beta del: sink_run.simps)

section \<open>Spans\<close>

text \<open>
  The span of a call (\<open>otel.rs\<close>).  \<open>hasher\<close> is Rust's default hasher over a sequence of
  strings; posts are fire and forget, so the sink is the list of what it has posted.
\<close>

record OtelSink =
  os_url :: string
  os_service :: string
  os_posts :: "(string \<times> json) list"

definition otel_new :: "string \<Rightarrow> OtelSink" where
  "otel_new endpoint =
     (let b = trim_end_slashes endpoint
      in \<lparr> os_url = (if ends_with b ''/v1/traces'' then b else b @ ''/v1/traces''), os_service = ''tokenfuse'', os_posts = [] \<rparr>)"

definition SYSTEM_PREFIXES :: "(string \<times> string) list" where
  "SYSTEM_PREFIXES = [(''claude'', ''anthropic''), (''gpt'', ''openai''), (''o1'', ''openai''), (''o3'', ''openai''), (''o4'', ''openai''),
     (''gemini'', ''gcp.gemini''), (''command'', ''cohere''), (''cohere'', ''cohere''), (''mistral'', ''mistral_ai''),
     (''codestral'', ''mistral_ai''), (''deepseek'', ''deepseek''), (''groq'', ''groq'')]"

definition gen_ai_system :: "string \<Rightarrow> string option" where
  "gen_ai_system model = map_option snd (find (\<lambda>(p, s). starts_with (to_ascii_lowercase model) p) SYSTEM_PREFIXES)"

definition hash64 :: "(string list \<Rightarrow> u64) \<Rightarrow> string list \<Rightarrow> u64" where
  "hash64 hasher parts = (let v = hasher parts in if v = 0 then 1 else v)"

text \<open>\<open>{:016x}\<close>\<close>
definition hex16 :: "u64 \<Rightarrow> string" where
  "hex16 n = map (\<lambda>i. hex_digit (n div 16 ^ i mod 16)) (rev [0..<16])"

definition attr :: "string \<Rightarrow> string \<Rightarrow> json \<Rightarrow> json" where
  "attr ty k v = JObject [(''key'', JString k), (''value'', JObject [(ty, v)])]"

abbreviation attr_s :: "string \<Rightarrow> string \<Rightarrow> json" where "attr_s k v \<equiv> attr ''stringValue'' k (JString v)"
abbreviation attr_i :: "string \<Rightarrow> i64 \<Rightarrow> json" where "attr_i k v \<equiv> attr ''intValue'' k (JString (int_str v))"

definition span_attributes :: "CallRecord \<Rightarrow> json list" where
  "span_attributes r =
     [attr_s ''gen_ai.operation.name'' ''chat'', attr_s ''gen_ai.request.model'' (cr_model r), attr_s ''gen_ai.response.model'' (cr_model r),
      attr_i ''gen_ai.usage.input_tokens'' (wrap_i64 (int (cr_input_tokens r))),
      attr_i ''gen_ai.usage.output_tokens'' (wrap_i64 (int (cr_output_tokens r)))]
     @ (case gen_ai_system (cr_model r) of Some s \<Rightarrow> [attr_s ''gen_ai.system'' s] | None \<Rightarrow> [])
     @ [attr_s ''tokenfuse.run_id'' (cr_run_id r), attr_i ''tokenfuse.step'' (int (cr_step r)), attr_s ''tokenfuse.decision'' (cr_decision r),
        attr ''doubleValue'' ''tokenfuse.cost_usd'' (JNumber (Float (as_usd (cost_microusd r))))]"

definition trace_id :: "(string list \<Rightarrow> u64) \<Rightarrow> CallRecord \<Rightarrow> string" where
  "trace_id hasher r = hex16 (hash64 hasher [cr_run_id r]) @ hex16 (hash64 hasher [''trace'', cr_run_id r])"

definition span_id :: "(string list \<Rightarrow> u64) \<Rightarrow> CallRecord \<Rightarrow> string" where
  "span_id hasher r = hex16 (hash64 hasher [cr_run_id r, nat_str (cr_step r)])"

definition span_nanos :: "CallRecord \<Rightarrow> string" where
  "span_nanos r = int_str (max (ts_millis r) 0 * 1000000)"

definition span_json :: "(string list \<Rightarrow> u64) \<Rightarrow> CallRecord \<Rightarrow> json" where
  "span_json hasher r = JObject
     [(''attributes'', JArray (span_attributes r)), (''endTimeUnixNano'', JString (span_nanos r)), (''kind'', JNumber (PosInt 3)),
      (''name'', JString ''llm.call''), (''spanId'', JString (span_id hasher r)), (''startTimeUnixNano'', JString (span_nanos r)),
      (''traceId'', JString (trace_id hasher r))]"

definition otlp_json :: "(string list \<Rightarrow> u64) \<Rightarrow> CallRecord \<Rightarrow> string \<Rightarrow> json" where
  "otlp_json hasher r service = JObject [(''resourceSpans'', JArray [JObject
     [(''resource'', JObject [(''attributes'', JArray [attr_s ''service.name'' service])]),
      (''scopeSpans'', JArray [JObject [(''scope'', JObject [(''name'', JString ''tokenfuse'')]), (''spans'', JArray [span_json hasher r])]])]])]"

definition otel_record :: "(string list \<Rightarrow> u64) \<Rightarrow> CallRecord \<Rightarrow> OtelSink \<Rightarrow> OtelSink" where
  "otel_record hasher r s = s\<lparr>os_posts := os_posts s @ [(os_url s, otlp_json hasher r (os_service s))]\<rparr>"

definition otel_flush :: "OtelSink \<Rightarrow> OtelSink" where "otel_flush s = s"

lemma otel_run:
  "sink_run (otel_record hasher) otel_flush ops s =
     s\<lparr>os_posts := os_posts s @ map (\<lambda>r. (os_url s, otlp_json hasher r (os_service s))) (recorded ops)\<rparr>"
  by (induction ops arbitrary: s) (auto simp: otel_record_def otel_flush_def split: SinkOp.split)

lemma hex16_length [simp]: "length (hex16 n) = 16"
  by (simp add: hex16_def)

lemma digits_zero: "n < 16 ^ k \<Longrightarrow> \<forall>i<k. n div 16 ^ i mod 16 = 0 \<Longrightarrow> n = (0 :: nat)"
proof (induction k arbitrary: n)
  case (Suc k)
  have "n mod 16 = 0" using Suc.prems(2) by force
  moreover have "n div 16 = 0"
  proof (rule Suc.IH)
    show "n div 16 < 16 ^ k" using Suc.prems(1) by (simp add: less_mult_imp_div_less)
    show "\<forall>i<k. n div 16 div 16 ^ i mod 16 = 0" using Suc.prems(2) by (auto simp flip: div_mult2_eq power_Suc)
  qed
  ultimately show ?case by presburger
qed simp

lemma hash64_pos: "0 < hash64 hasher parts"
  by (simp add: hash64_def Let_def)

lemma hash64_bound: "(\<forall>xs. hasher xs < 2 ^ 64) \<Longrightarrow> hash64 hasher parts < 2 ^ 64"
  by (simp add: hash64_def Let_def)

lemma hex16_valid: "n < 2 ^ 64 \<Longrightarrow> 0 < n \<Longrightarrow> hex16 n \<noteq> replicate 16 (CHR ''0'')"
proof
  assume n: "n < 2 ^ 64" "0 < n" and h: "hex16 n = replicate 16 (CHR ''0'')"
  have "n div 16 ^ i mod 16 = 0" if "i < 16" for i
  proof -
    have r: "rev [0..<16] ! (16 - Suc i) = i" using that by (simp only: rev_nth length_upt) simp
    have "hex16 n ! (16 - Suc i) = CHR ''0''" using h that by simp
    moreover have "hex16 n ! (16 - Suc i) = hex_digit (n div 16 ^ (rev [0..<16] ! (16 - Suc i)) mod 16)"
      using that unfolding hex16_def by (intro nth_map) simp
    moreover have "CHR ''0'' = hex_digit 0" by code_simp
    ultimately have "hex_digit (n div 16 ^ i mod 16) = hex_digit 0" unfolding r by simp
    then show ?thesis using hex_digit_inj [of "n div 16 ^ i mod 16" 0] by simp
  qed
  then show False using digits_zero [of n 16] n by simp
qed

text \<open>
  Every call recorded is posted once, in order, as one span; the spans of a run share their trace
  id; and the ids have the length the protocol asks for and are not the invalid all-zero ids.
\<close>
theorem spans_of_the_calls:
  "map snd (os_posts (sink_run (otel_record hasher) otel_flush ops (otel_new endpoint))) = map (\<lambda>r. otlp_json hasher r ''tokenfuse'') (recorded ops)"
  "cr_run_id r = cr_run_id r' \<Longrightarrow> trace_id hasher r = trace_id hasher r'"
  "length (trace_id hasher r) = 32" "length (span_id hasher r) = 16"
  "\<forall>xs. hasher xs < 2 ^ 64 \<Longrightarrow> trace_id hasher r \<noteq> replicate 32 (CHR ''0'') \<and> span_id hasher r \<noteq> replicate 16 (CHR ''0'')"
proof -
  show "map snd (os_posts (sink_run (otel_record hasher) otel_flush ops (otel_new endpoint))) = map (\<lambda>r. otlp_json hasher r ''tokenfuse'') (recorded ops)"
    by (simp add: otel_run otel_new_def Let_def comp_def)
  show "cr_run_id r = cr_run_id r' \<Longrightarrow> trace_id hasher r = trace_id hasher r'" by (simp add: trace_id_def)
  show "length (trace_id hasher r) = 32" "length (span_id hasher r) = 16" by (simp_all add: trace_id_def span_id_def)
  assume h: "\<forall>xs. hasher xs < 2 ^ 64"
  have z: "hex16 (hash64 hasher xs) \<noteq> replicate 16 (CHR ''0'')" for xs
    using hex16_valid [OF hash64_bound [OF h] hash64_pos] .
  have "replicate 32 (CHR ''0'') = replicate 16 (CHR ''0'') @ replicate 16 (CHR ''0'')" by (simp flip: replicate_add)
  then have "trace_id hasher r \<noteq> replicate 32 (CHR ''0'')" using z by (simp add: trace_id_def append_eq_append_conv del: replicate.simps)
  then show "trace_id hasher r \<noteq> replicate 32 (CHR ''0'') \<and> span_id hasher r \<noteq> replicate 16 (CHR ''0'')" using z by (simp add: span_id_def)
qed

text \<open>Two rows of one step share their span: a call blocked twice at a step is one span of the trace.\<close>
lemma same_step_same_span: "cr_run_id r = cr_run_id r' \<Longrightarrow> cr_step r = cr_step r' \<Longrightarrow> span_id hasher r = span_id hasher r' \<and> trace_id hasher r = trace_id hasher r'"
  by (simp add: span_id_def trace_id_def)

section \<open>The pollers\<close>

text \<open>One exchange with the control plane: no response, or a status with a body (\<open>None\<close> when reading it failed).\<close>
datatype PollReply = NoReply | Reply nat "string option"

definition success :: "nat \<Rightarrow> bool" where "success status \<longleftrightarrow> 200 \<le> status \<and> status < 300"

text \<open>What a tick applies, and whether the plan hint has been logged.\<close>
definition plan_poll :: "(string \<Rightarrow> 'a option) \<Rightarrow> PollReply \<Rightarrow> bool \<Rightarrow> 'a option \<times> bool" where
  "plan_poll parse reply warned = (case reply of
     NoReply \<Rightarrow> (None, warned)
   | Reply status body \<Rightarrow>
       if status = 402 then (None, True)
       else if \<not> success status then (None, warned)
       else (Option.bind body parse, warned))"

definition budget_poll :: "(string \<Rightarrow> (string \<rightharpoonup> i64) option) \<Rightarrow> PollReply \<Rightarrow> AppState \<times> bool \<Rightarrow> AppState \<times> bool" where
  "budget_poll parse reply x = (case plan_poll parse reply (snd x) of
     (Some m, w) \<Rightarrow> (set_cloud_budgets m (fst x), w) | (None, w) \<Rightarrow> (fst x, w))"

definition kill_poll :: "(string \<Rightarrow> string list option) \<Rightarrow> PollReply \<Rightarrow> AppState \<times> bool \<Rightarrow> AppState \<times> bool" where
  "kill_poll parse reply x = (case plan_poll parse reply (snd x) of
     (Some runs, w) \<Rightarrow> (fold kill runs (fst x), w) | (None, w) \<Rightarrow> (fst x, w))"

definition unit_budget_poll :: "(string \<Rightarrow> (string \<rightharpoonup> i64) option) \<Rightarrow> PollReply \<Rightarrow> AppState \<Rightarrow> AppState" where
  "unit_budget_poll parse reply st = (case reply of
     NoReply \<Rightarrow> st
   | Reply status body \<Rightarrow>
       if \<not> success status then st
       else (case Option.bind body parse of Some m \<Rightarrow> st\<lparr>st_units := set_overrides (st_units st) m\<rparr> | None \<Rightarrow> st))"

lemma kill_run [simp]: "is_killed (kill r st) r' \<longleftrightarrow> r' = r \<or> is_killed st r'"
  by (auto simp: kill_def is_killed_def)

lemma kills_run: "is_killed (fold kill rs st) r \<longleftrightarrow> r \<in> set rs \<or> is_killed st r"
  by (induction rs arbitrary: st) auto

lemma kill_poll_monotone: "is_killed (fst x) r \<Longrightarrow> is_killed (fst (kill_poll parse reply x)) r"
  by (auto simp: kill_poll_def plan_poll_def kills_run split: PollReply.splits option.splits)

lemma kill_poll_applies:
  "parse body = Some runs \<Longrightarrow> success status \<Longrightarrow> is_killed (fst (kill_poll parse (Reply status (Some body)) x)) r \<longleftrightarrow> r \<in> set runs \<or> is_killed (fst x) r"
  by (auto simp: kill_poll_def plan_poll_def success_def kills_run)

text \<open>A reply that is not a success, or does not parse, changes nothing of the gateway.\<close>
lemma failed_poll_changes_nothing:
  assumes "case reply of NoReply \<Rightarrow> True | Reply status body \<Rightarrow> \<not> success status \<or> Option.bind body parse = None"
  shows "fst (budget_poll parse reply x) = fst x \<and> unit_budget_poll parse reply st = st"
proof (cases reply)
  case (Reply status body)
  show ?thesis
  proof (cases "success status")
    case True
    then have "Option.bind body parse = None" using assms Reply by simp
    moreover have "status \<noteq> 402" using True by (simp add: success_def)
    ultimately show ?thesis using True Reply by (simp add: budget_poll_def unit_budget_poll_def plan_poll_def)
  next
    case False
    then show ?thesis using Reply by (simp add: budget_poll_def unit_budget_poll_def plan_poll_def)
  qed
qed (simp add: budget_poll_def unit_budget_poll_def plan_poll_def)

end
