(* ===== verification/FocusExport.thy ===== *)
theory FocusExport
  imports Sinks Breaker Timefmt Utf8 StrScan Jcs Savings Outcomes
begin

text \<open>
  The exports of the trace: FOCUS rows as CSV (\<open>crates/gateway/src/focusexport.rs\<close>), the
  loaders of the savings and outcome reports (\<open>sqlq.rs\<close>, \<open>outcomescli.rs\<close>).  The SQL
  engine is a parameter from the query text to rows of cells; the query texts are the
  sources'.
\<close>

section \<open>Reading query results\<close>

type_synonym sql_engine = "string \<Rightarrow> string \<Rightarrow> (string, cell list list) result"

text \<open>\<open>str_at\<close>: a column of another type reads as the empty string.\<close>
definition str_at :: "cell list \<Rightarrow> usize \<Rightarrow> string" where
  "str_at row i = (case row ! i of CUtf8 s \<Rightarrow> s | _ \<Rightarrow> [])"

definition i64_at :: "cell list \<Rightarrow> usize \<Rightarrow> i64" where
  "i64_at row i = (case row ! i of CInt64 n \<Rightarrow> n | _ \<Rightarrow> 0)"

definition u32_at :: "cell list \<Rightarrow> usize \<Rightarrow> u32" where
  "u32_at row i = (case row ! i of CUInt32 n \<Rightarrow> n | _ \<Rightarrow> 0)"

text \<open>A column read with a fixed type must have it; a null is of every type.\<close>
definition column_is :: "DataType \<Rightarrow> usize \<Rightarrow> cell list list \<Rightarrow> bool" where
  "column_is t i rows \<longleftrightarrow> list_all (\<lambda>r. cell_type (r ! i) = None \<or> cell_type (r ! i) = Some t) rows"

definition window_sql :: "i64 option \<Rightarrow> i64 option \<Rightarrow> string" where
  "window_sql lo hi =
     (let conds = (case lo of Some f \<Rightarrow> [''ts_millis >= '' @ int_str f] | None \<Rightarrow> [])
                @ (case hi of Some t \<Rightarrow> [''ts_millis <= '' @ int_str t] | None \<Rightarrow> [])
      in if conds = [] then [] else '' where '' @ join '' and '' conds)"

text \<open>The empty SQL string literal.\<close>
definition sql_empty :: string where "sql_empty = [CHR 0x27, CHR 0x27]"

section \<open>FOCUS rows\<close>

record FocusArgs =
  fa_traces :: "string option"
  fa_out :: "string option"
  fa_from :: "string option"
  fa_to :: "string option"

fun focus_args :: "string list \<Rightarrow> FocusArgs \<Rightarrow> FocusArgs" where
  "focus_args [] a = a"
| "focus_args (x # xs) a =
     (if x = ''--traces'' then focus_args (tl xs) (a\<lparr>fa_traces := (case xs of v # _ \<Rightarrow> Some v | [] \<Rightarrow> None)\<rparr>)
      else if x = ''--out'' then focus_args (tl xs) (a\<lparr>fa_out := (case xs of v # _ \<Rightarrow> Some v | [] \<Rightarrow> None)\<rparr>)
      else if x = ''--from'' then focus_args (tl xs) (a\<lparr>fa_from := (case xs of v # _ \<Rightarrow> Some v | [] \<Rightarrow> None)\<rparr>)
      else if x = ''--to'' then focus_args (tl xs) (a\<lparr>fa_to := (case xs of v # _ \<Rightarrow> Some v | [] \<Rightarrow> None)\<rparr>)
      else focus_args xs a)"

record FocusRecord =
  fr_ts_millis :: i64
  fr_run_id :: string
  fr_model :: string
  fr_decision :: string
  fr_input_tokens :: u64
  fr_output_tokens :: u64
  fr_cost_microusd :: i64
  fr_agent_id :: string
  fr_parent_run_id :: string
  fr_outcome :: string
  fr_unit :: string
  fr_tool_calls :: "u32 option"

definition HEADER :: "string list" where
  "HEADER = [''BilledCost'', ''EffectiveCost'', ''BillingCurrency'', ''ChargePeriodStart'', ''ChargePeriodEnd'', ''ChargeDescription'',
     ''ProviderName'', ''PublisherName'', ''InvoiceIssuerName'', ''ServiceName'', ''ServiceCategory'', ''ResourceId'', ''ResourceName'',
     ''SubAccountId'', ''SubAccountName'', ''x_run_id'', ''x_parent_run_id'', ''x_agent_id'', ''x_model'', ''x_tokens_in'', ''x_tokens_out'',
     ''x_blocked'', ''x_cost_basis'', ''x_outcome'', ''x_unit'', ''x_tool_calls'']"

definition focus_sql :: "i64 option \<Rightarrow> i64 option \<Rightarrow> string" where
  "focus_sql lo hi = ''select ts_millis, run_id, model, decision, cast(input_tokens as bigint) as input_tokens, cast(output_tokens as bigint) as output_tokens, cast(cost_microusd as bigint) as cost_microusd, coalesce(agent_id, '' @ sql_empty
     @ '') as agent_id, coalesce(parent_run_id, '' @ sql_empty @ '') as parent_run_id, coalesce(outcome, '' @ sql_empty
     @ '') as outcome, coalesce(unit, '' @ sql_empty @ '') as unit, cast(tool_calls as bigint) as tool_calls from calls''
     @ window_sql lo hi @ '' order by ts_millis, run_id''"

definition focus_record :: "cell list \<Rightarrow> FocusRecord" where
  "focus_record r = \<lparr> fr_ts_millis = i64_at r 0, fr_run_id = str_at r 1, fr_model = str_at r 2, fr_decision = str_at r 3,
     fr_input_tokens = nat (max (i64_at r 4) 0), fr_output_tokens = nat (max (i64_at r 5) 0), fr_cost_microusd = i64_at r 6,
     fr_agent_id = str_at r 7, fr_parent_run_id = str_at r 8, fr_outcome = str_at r 9, fr_unit = str_at r 10,
     fr_tool_calls = (if r ! 11 = CNull then None else Some (wrap_u32 (nat (max (i64_at r 11) 0)))) \<rparr>"

definition load_records :: "sql_engine \<Rightarrow> string \<Rightarrow> i64 option \<Rightarrow> i64 option \<Rightarrow> (string, FocusRecord list) result" where
  "load_records query dir lo hi = (case query (focus_sql lo hi) dir of
     Inl e \<Rightarrow> Inl e
   | Inr rows \<Rightarrow>
       if \<not> column_is Int64 0 rows then Inl ''ts_millis column type''
       else if \<not> column_is Int64 4 rows then Inl ''input_tokens column type''
       else if \<not> column_is Int64 5 rows then Inl ''output_tokens column type''
       else if \<not> column_is Int64 6 rows then Inl ''cost_microusd column type''
       else if \<not> column_is Int64 11 rows then Inl ''tool_calls column type''
       else Inr (map focus_record rows))"

definition is_blocked_decision :: "string \<Rightarrow> bool" where
  "is_blocked_decision d = list_ex (\<lambda>r. as_wire_str r = d)
     [BudgetExceeded, PolicyViolation, LoopDetected, Killed, WasmPolicy, TaintBlocked, DlpBlocked, UnitBudgetExceeded, BreakerReason.IdentityMismatch]"

definition provider_from_model :: "string \<Rightarrow> string" where
  "provider_from_model model =
     (let m = to_ascii_lowercase model in
      if str_contains m ''claude'' then ''Anthropic''
      else if str_contains m ''gpt'' \<or> str_contains m ''chatgpt'' \<or> starts_with m ''o1'' \<or> starts_with m ''o3'' \<or> starts_with m ''o4'' then ''OpenAI''
      else if str_contains m ''gemini'' then ''Google''
      else if str_contains m ''llama'' then ''Meta''
      else if str_contains m ''mistral'' then ''Mistral AI''
      else ''Unknown'')"

definition usd_string :: "i64 \<Rightarrow> string" where
  "usd_string m = f64_fixed 6 (as_usd m)"

definition cost_basis :: "FocusRecord \<Rightarrow> i64 \<times> string" where
  "cost_basis r =
     (if is_blocked_decision (fr_decision r) then (0, ''blocked'')
      else if fr_input_tokens r = 0 \<and> fr_output_tokens r = 0 \<and> fr_cost_microusd r \<noteq> 0 then (fr_cost_microusd r, ''estimated'')
      else (fr_cost_microusd r, ''settled''))"

definition to_row :: "FocusRecord \<Rightarrow> string list" where
  "to_row r =
     (let billed = usd_string (fst (cost_basis r)); t = ts_millis_to_rfc3339 (fr_ts_millis r); provider = provider_from_model (fr_model r) in
      [billed, billed, ''USD'', t, t, ''LLM call model='' @ fr_model r, provider, provider, provider, ''LLM inference'',
       ''AI and Machine Learning'', fr_agent_id r, fr_agent_id r, fr_run_id r, fr_run_id r, fr_run_id r, fr_parent_run_id r, fr_agent_id r,
       fr_model r, nat_str (fr_input_tokens r), nat_str (fr_output_tokens r),
       (if is_blocked_decision (fr_decision r) then ''true'' else ''false''), snd (cost_basis r), fr_outcome r, fr_unit r,
       (case fr_tool_calls r of Some n \<Rightarrow> nat_str n | None \<Rightarrow> [])])"

abbreviation DQ :: char where "DQ \<equiv> CHR 0x22"
abbreviation LF :: char where "LF \<equiv> CHR 0x0A"

definition csv_quote :: "string \<Rightarrow> string" where
  "csv_quote f =
     (if CHR '','' \<in> set f \<or> DQ \<in> set f \<or> LF \<in> set f \<or> CHR 0x0D \<in> set f
      then [DQ] @ concat (map (\<lambda>c. if c = DQ then [DQ, DQ] else [c]) f) @ [DQ] else f)"

definition csv_row :: "string list \<Rightarrow> string" where
  "csv_row cells = join '','' (map csv_quote cells)"

definition render_csv :: "FocusRecord list \<Rightarrow> string" where
  "render_csv rs = csv_row HEADER @ [LF] @ concat (map (\<lambda>r. csv_row (to_row r) @ [LF]) rs)"

section \<open>The command\<close>

text \<open>\<open>parse::<u32>\<close>.\<close>
definition parse_u32 :: "string \<Rightarrow> u32 option" where
  "parse_u32 s =
     (let ds = (case s of c # r \<Rightarrow> if c = CHR ''+'' then r else s | [] \<Rightarrow> [])
      in if ds = [] \<or> \<not> list_all is_digit ds \<or> u32_max < digits_val ds then None else Some (digits_val ds))"

definition date_of :: "string \<Rightarrow> (i64 \<times> u32 \<times> u32) option" where
  "date_of date = (case split_char (CHR ''-'') date of
     [ys, ms, ds] \<Rightarrow> (case (parse_i64 ys, parse_u32 ms, parse_u32 ds) of
         (Some y, Some m, Some d) \<Rightarrow> if m \<in> {1..12} \<and> d \<in> {1..31} then Some (y, m, d) else None
       | _ \<Rightarrow> None)
   | _ \<Rightarrow> None)"

definition time_of :: "string \<Rightarrow> (i64 \<times> i64 \<times> i64) option" where
  "time_of time = (case split_char (CHR '':'') (takeWhile (\<lambda>c. c \<noteq> CHR ''.'') time) of
     [hs, ms, ss] \<Rightarrow> (case (parse_i64 hs, parse_i64 ms, parse_i64 ss) of
         (Some h, Some m, Some s) \<Rightarrow> if 0 \<le> h \<and> h < 24 \<and> 0 \<le> m \<and> m < 60 \<and> 0 \<le> s \<and> s < 60 then Some (h, m, s) else None
       | _ \<Rightarrow> None)
   | _ \<Rightarrow> None)"

text \<open>Every failure has the same message; the sum wraps when the year is out of range.\<close>
definition parse_rfc3339_millis :: "string \<Rightarrow> (string, i64) result" where
  "parse_rfc3339_millis s0 =
     (let s = trim s0;
          bad = ''expected RFC3339 like 2026-01-02T15:04:05Z, got '' @ [CHR 0x27] @ s @ [CHR 0x27]
      in case Option.bind (strip_suffix ''Z'' s) (split_once (CHR ''T'')) of
           None \<Rightarrow> Inl bad
         | Some (date, time) \<Rightarrow> (case (date_of date, time_of time) of
             (Some (y, m, d), Some (hh, mi, ss)) \<Rightarrow>
               Inr (wrap_i64 (days_from_civil y (int m) (int d) * 86400000 + hh * 3600000 + mi * 60000 + ss * 1000))
           | _ \<Rightarrow> Inl bad))"

definition window_bound :: "string \<Rightarrow> string option \<Rightarrow> (string, i64 option) result" where
  "window_bound flag v = (case v of
     None \<Rightarrow> Inr None
   | Some s \<Rightarrow> (case parse_rfc3339_millis s of Inl e \<Rightarrow> Inl (''bad '' @ flag @ '': '' @ e) | Inr ms \<Rightarrow> Inr (Some ms)))"

text \<open>\<open>run\<close>: the file written and its contents, or the message of the failure.\<close>
definition focus_run :: "sql_engine \<Rightarrow> (string \<Rightarrow> string \<Rightarrow> string option) \<Rightarrow> FocusArgs \<Rightarrow> (string, string \<times> string) result" where
  "focus_run query write a = (case fa_traces a of
     None \<Rightarrow> Inl ''missing --traces <dir-or-glob>''
   | Some traces \<Rightarrow> (case fa_out a of
     None \<Rightarrow> Inl ''missing --out <file.csv>''
   | Some out \<Rightarrow> (case window_bound ''--from'' (fa_from a) of
     Inl e \<Rightarrow> Inl e
   | Inr lo \<Rightarrow> (case window_bound ''--to'' (fa_to a) of
     Inl e \<Rightarrow> Inl e
   | Inr hi \<Rightarrow> (case load_records query traces lo hi of
     Inl e \<Rightarrow> Inl (''could not read traces at '' @ [CHR 0x27] @ traces @ [CHR 0x27] @ '': '' @ e)
   | Inr rs \<Rightarrow>
       if rs = [] then Inl (''no calls found in the trace at '' @ [CHR 0x27] @ traces @ [CHR 0x27]
         @ (if lo \<noteq> None \<or> hi \<noteq> None then '' in the given --from/--to window'' else [])
         @ [CHR '' '', CHR 0xE2, CHR 0x80, CHR 0x94] @ '' nothing to export'')
       else (case write out (render_csv rs) of
         Some e \<Rightarrow> Inl (''could not write '' @ [CHR 0x27] @ out @ [CHR 0x27] @ '': '' @ e)
       | None \<Rightarrow> Inr (out, render_csv rs)))))))"

section \<open>Reading the CSV back\<close>

text \<open>A reader of RFC 4180: inside a record, the state says whether a field has begun and how.\<close>
datatype csv_state = FieldStart | Bare | Quoted | QuoteSeen

fun csv_read :: "csv_state \<Rightarrow> string \<Rightarrow> string \<Rightarrow> string list \<times> string" where
  "csv_read st acc [] = ([acc], [])"
| "csv_read st acc (c # cs) =
     (if st = Quoted then (if c = DQ then csv_read QuoteSeen acc cs else csv_read Quoted (acc @ [c]) cs)
      else if c = DQ \<and> st = FieldStart then csv_read Quoted acc cs
      else if c = DQ \<and> st = QuoteSeen then csv_read Quoted (acc @ [DQ]) cs
      else if c = CHR '','' then (case csv_read FieldStart [] cs of (fs, rest) \<Rightarrow> (acc # fs, rest))
      else if c = LF then ([acc], cs)
      else csv_read Bare (acc @ [c]) cs)"

lemma csv_read_length: "length (snd (csv_read st acc cs)) \<le> length cs"
  by (induction st acc cs rule: csv_read.induct) (auto split: prod.splits)

lemma csv_read_shorter: "s \<noteq> [] \<Longrightarrow> length (snd (csv_read FieldStart [] s)) < length s"
proof (cases s)
  case (Cons c cs)
  then show ?thesis
    using csv_read_length [of Quoted "[]" cs] csv_read_length [of FieldStart "[]" cs] csv_read_length [of Bare "[c]" cs]
    by (auto split: prod.splits)
qed simp

function csv_parse :: "string \<Rightarrow> string list list" where
  "csv_parse s = (if s = [] then []
     else fst (csv_read FieldStart [] s) # csv_parse (snd (csv_read FieldStart [] s)))"
  by pat_completeness auto
termination by (relation "measure length") (simp_all add: csv_read_shorter)

declare csv_parse.simps [simp del]

lemma csv_parse_nil [simp]: "csv_parse [] = []"
  by (simp add: csv_parse.simps)

definition sep_next :: "string \<Rightarrow> char \<Rightarrow> string \<Rightarrow> string list \<times> string" where
  "sep_next acc c rest = (if c = LF then ([acc], rest) else (case csv_read FieldStart [] rest of (fs, r) \<Rightarrow> (acc # fs, r)))"

lemma csv_read_bare:
  "DQ \<notin> set f \<Longrightarrow> CHR '','' \<notin> set f \<Longrightarrow> LF \<notin> set f \<Longrightarrow> c = CHR '','' \<or> c = LF \<Longrightarrow>
     csv_read Bare acc (f @ c # rest) = sep_next (acc @ f) c rest"
  by (induction f arbitrary: acc) (auto simp: sep_next_def)

lemma csv_read_quoted:
  "c = CHR '','' \<or> c = LF \<Longrightarrow>
     csv_read Quoted acc (concat (map (\<lambda>c. if c = DQ then [DQ, DQ] else [c]) f) @ DQ # c # rest) = sep_next (acc @ f) c rest"
  by (induction f arbitrary: acc) (auto simp: sep_next_def)

lemma csv_read_field:
  assumes "c = CHR '','' \<or> c = LF"
  shows "csv_read FieldStart [] (csv_quote f @ c # rest) = sep_next f c rest"
proof (cases "CHR '','' \<in> set f \<or> DQ \<in> set f \<or> LF \<in> set f \<or> CHR 0x0D \<in> set f")
  case True
  then show ?thesis using csv_read_quoted [OF assms, of "[]" f rest] by (simp add: csv_quote_def)
next
  case False
  show ?thesis
  proof (cases f)
    case Nil
    then show ?thesis using assms by (auto simp: csv_quote_def sep_next_def)
  next
    case (Cons x xs)
    then have "x \<noteq> DQ" "x \<noteq> CHR '',''" "x \<noteq> LF" "DQ \<notin> set xs" "CHR '','' \<notin> set xs" "LF \<notin> set xs" and q: "csv_quote f = f"
      using False by (auto simp: csv_quote_def)
    then show ?thesis using csv_read_bare [of xs c "[x]" rest] assms unfolding q Cons by simp
  qed
qed

lemma csv_read_row: "fs \<noteq> [] \<Longrightarrow> csv_read FieldStart [] (csv_row fs @ LF # rest) = (fs, rest)"
proof (induction fs)
  case (Cons f fs)
  show ?case
  proof (cases fs)
    case Nil
    then show ?thesis using csv_read_field [of LF f rest] by (simp add: csv_row_def sep_next_def)
  next
    case (Cons g gs)
    have "csv_row (f # fs) @ LF # rest = csv_quote f @ CHR '','' # (csv_row fs @ LF # rest)" using Cons by (simp add: csv_row_def)
    then show ?thesis using csv_read_field [of "CHR '',''" f "csv_row fs @ LF # rest"] Cons.IH Cons by (simp add: sep_next_def)
  qed
qed simp

lemma csv_parse_row: "fs \<noteq> [] \<Longrightarrow> csv_parse (csv_row fs @ LF # rest) = fs # csv_parse rest"
  by (subst csv_parse.simps) (simp add: csv_read_row)

text \<open>C31: The FOCUS export reads back.  An RFC 4180 reader of the file finds the header and then one
  record per row of the trace with the very field values, whatever commas, quotes and line breaks the
  fields hold; every record has a value for each column, and a blocked call is billed zero.\<close>
theorem focus_export_reads_back:
  "csv_parse (render_csv rs) = HEADER # map to_row rs
   \<and> list_all (\<lambda>r. length (to_row r) = length HEADER
       \<and> map_of (zip HEADER (to_row r)) ''BilledCost'' = Some (usd_string (if is_blocked_decision (fr_decision r) then 0 else fr_cost_microusd r))
       \<and> map_of (zip HEADER (to_row r)) ''x_run_id'' = Some (fr_run_id r)) rs"
proof -
  have ne: "HEADER \<noteq> []" "to_row r \<noteq> []" for r by (simp_all add: HEADER_def to_row_def Let_def)
  have rows: "csv_parse (concat (map (\<lambda>r. csv_row (to_row r) @ [LF]) rs)) = map to_row rs"
    by (induction rs) (simp_all add: csv_parse_row ne)
  have "csv_parse (render_csv rs) = HEADER # map to_row rs"
    using csv_parse_row [OF ne(1), of "concat (map (\<lambda>r. csv_row (to_row r) @ [LF]) rs)"] rows by (simp add: render_csv_def)
  moreover have "length (to_row r) = length HEADER
       \<and> map_of (zip HEADER (to_row r)) ''BilledCost'' = Some (usd_string (if is_blocked_decision (fr_decision r) then 0 else fr_cost_microusd r))
       \<and> map_of (zip HEADER (to_row r)) ''x_run_id'' = Some (fr_run_id r)" for r
    by (simp add: HEADER_def to_row_def Let_def cost_basis_def)
  ultimately show ?thesis by (simp add: list_all_iff)
qed

section \<open>Timestamps on the command line\<close>

lemma strip_words_none: "\<forall>w\<in>set ws. w = [] \<or> \<not> starts_with s w \<Longrightarrow> strip_words ws s = s"
proof -
  assume "\<forall>w\<in>set ws. w = [] \<or> \<not> starts_with s w"
  then have "List.find (\<lambda>w. w \<noteq> [] \<and> starts_with s w) ws = None" by (auto simp: find_None_iff)
  then show ?thesis by (simp add: strip_words.simps [of ws s])
qed

lemma trim_timestamp:
  assumes "is_digit c" shows "trim (c # t @ ''Z'') = c # t @ ''Z''"
proof -
  have "\<forall>w\<in>set ws_encodings. w = [] \<or> \<not> starts_with (c # t @ ''Z'') w"
    using assms by (auto simp: ws_encodings_def is_digit_def)
  then have "trim_start (c # t @ ''Z'') = c # t @ ''Z''" by (simp add: trim_start_def strip_words_none)
  moreover have "\<forall>w\<in>set (map rev ws_encodings). w = [] \<or> \<not> starts_with (CHR ''Z'' # rev (c # t)) w"
    by (auto simp: ws_encodings_def)
  then have "trim_end (c # t @ ''Z'') = c # t @ ''Z''" by (simp add: trim_end_def strip_words_none)
  ultimately show ?thesis by (simp add: trim_def)
qed

lemma days_nonneg_year:
  assumes "civil_from_days z = (y, m, d)" and "0 \<le> z" shows "0 \<le> y"
proof (rule ccontr)
  assume neg: "\<not> 0 \<le> y"
  have v: "valid_date y m d" "days_from_civil y m d = z" using civil_valid [of z] assms(1) by simp_all
  have md: "1 \<le> m" "m \<le> 12" "1 \<le> d" "d \<le> 31" using v(1) by (auto simp: valid_date_def month_len_def split: if_splits)
  define y' where "y' = (if m \<le> 2 then y - 1 else y)"
  have y': "y' < 0" using neg by (simp add: y'_def)
  define mp where "mp = (m + 9) mod 12"
  have mp: "0 \<le> mp" "mp \<le> 11" by (simp_all add: mp_def)
  have "days_from_civil y m d = y' div 400 * 146097 + (y' mod 400 * 365 + y' mod 400 div 4 - y' mod 400 div 100 + ((153 * mp + 2) div 5 + d - 1)) - 719468"
    by (simp add: days_from_civil_def Let_def y'_def mp_def)
  moreover have "y' div 400 \<le> (- 1) div 400" using y' by (intro zdiv_mono1) simp_all
  moreover have "y' mod 400 \<le> 399" "0 \<le> y' mod 400" by simp_all
  moreover have "y' mod 400 div 4 \<le> 399 div 4" by (intro zdiv_mono1) simp_all
  moreover have "0 \<le> y' mod 400 div 100" by simp
  moreover have "(153 * mp + 2) div 5 \<le> (153 * 11 + 2) div 5" using mp by (intro zdiv_mono1) simp_all
  ultimately show False using v(2) md assms(2) by simp
qed

lemma year_below_days:
  assumes "civil_from_days z = (y, m, d)" and "0 \<le> z" shows "365 * y \<le> z + 720000"
proof -
  have v: "valid_date y m d" "days_from_civil y m d = z" using civil_valid [of z] assms(1) by simp_all
  have md: "1 \<le> d" using v(1) by (simp add: valid_date_def)
  define y' where "y' = (if m \<le> 2 then y - 1 else y)"
  define mp where "mp = (m + 9) mod 12"
  define era where "era = y' div 400"
  define yoe where "yoe = y' mod 400"
  have z: "z = era * 146097 + (yoe * 365 + yoe div 4 - yoe div 100 + ((153 * mp + 2) div 5 + d - 1)) - 719468"
    using v(2) by (simp add: days_from_civil_def Let_def y'_def mp_def era_def yoe_def)
  have "0 \<le> y" using days_nonneg_year [OF assms] .
  then have "- 1 \<le> y'" by (simp add: y'_def)
  then have "(- 1) div 400 \<le> era" unfolding era_def by (intro zdiv_mono1) simp_all
  then have era: "- 1 \<le> era" by simp
  have split: "y' = era * 400 + yoe" by (simp add: era_def yoe_def)
  have "yoe \<le> 399" "0 \<le> yoe" by (simp_all add: yoe_def)
  then have "yoe div 100 \<le> 399 div 100" "0 \<le> yoe div 4" by (simp_all add: zdiv_mono1 del: div_pos_pos_trivial)
  then have "yoe div 100 \<le> 3" "0 \<le> yoe div 4" by simp_all
  moreover have "0 \<le> (153 * mp + 2) div 5" by (simp add: mp_def)
  moreover have "y \<le> y' + 1" by (simp add: y'_def)
  ultimately show ?thesis using z md era split by linarith
qed

lemma parse_u32_two: "0 \<le> n \<Longrightarrow> n < 100 \<Longrightarrow> parse_u32 (two n) = Some (nat n)"
proof -
  assume n: "0 \<le> n" "n < 100"
  have dig: "\<forall>c\<in>set (two n). is_digit c" using pad0_digit_chars by (auto simp: two_def)
  have "two n \<noteq> []" using two_length [OF n] by auto
  then obtain c r where cr: "two n = c # r" by (cases "two n") auto
  have "c \<noteq> CHR ''+''" using dig cr by (auto simp: is_digit_def)
  moreover have "digits_val (two n) = nat n" by (simp add: two_def)
  ultimately show ?thesis using n dig cr by (simp add: parse_u32_def list_all_iff u32_max_def)
qed

lemma parse_i64_pad:
  assumes "int n \<le> i64_max" "0 < k" shows "parse_i64 (pad0 k (nat_str n)) = Some (int n)"
proof -
  have dig: "\<forall>c\<in>set (pad0 k (nat_str n)). is_digit c" using pad0_digit_chars by blast
  have "pad0 k (nat_str n) \<noteq> []" by (simp add: pad0_def)
  then obtain c r where cr: "pad0 k (nat_str n) = c # r" by (cases "pad0 k (nat_str n)") auto
  have "c \<noteq> CHR ''+''" "c \<noteq> CHR ''-''" using dig cr by (auto simp: is_digit_def)
  moreover have "digits_val (c # r) = n" using cr digits_val_pad0 [of k "nat_str n"] by simp
  moreover have "\<forall>x\<in>set (c # r). is_digit x" using dig cr by simp
  ultimately show ?thesis using assms(1) by (auto simp: cr parse_i64_def in_i64_def i64_min_def)
qed

lemma no_sep_pad: "\<not> is_digit c \<Longrightarrow> c \<notin> set (pad0 k (nat_str n))"
  using pad0_digit_chars by blast

lemma date_of_civil:
  assumes "0 \<le> y" "y \<le> i64_max" "1 \<le> m" "m \<le> 12" "1 \<le> d" "d \<le> 31"
  shows "date_of (year_str y @ CHR ''-'' # two m @ CHR ''-'' # two d) = Some (y, nat m, nat d)"
proof -
  have y: "year_str y = pad0 4 (nat_str (nat y))" using assms(1) by (simp add: year_str_def)
  have nd: "CHR ''-'' \<notin> set (pad0 k (nat_str n))" for k n by (rule no_sep_pad) (simp add: is_digit_def)
  have "split_char (CHR ''-'') (year_str y @ CHR ''-'' # two m @ CHR ''-'' # two d) = [year_str y, two m, two d]"
    unfolding y two_def by (simp add: split_char_append split_char_single nd)
  then show ?thesis
    using assms parse_i64_pad [of "nat y" 4] parse_u32_two [of m] parse_u32_two [of d]
    by (simp add: date_of_def y Suc_le_eq nat_le_iff)
qed

lemma time_of_clock:
  assumes "0 \<le> h" "h < 24" "0 \<le> mi" "mi < 60" "0 \<le> s" "s < 60"
  shows "time_of (two h @ CHR '':'' # two mi @ CHR '':'' # two s) = Some (h, mi, s)"
proof -
  let ?t = "two h @ CHR '':'' # two mi @ CHR '':'' # two s"
  have nd: "c \<notin> set (two n)" if "\<not> is_digit c" for c n unfolding two_def using that by (rule no_sep_pad)
  have dot: "CHR ''.'' \<notin> set ?t" using nd [of "CHR ''.''"] by (simp add: is_digit_def)
  have tw: "takeWhile (\<lambda>c. c \<noteq> CHR ''.'') ?t = ?t" using dot by (intro takeWhile_eq_all_conv [THEN iffD2]) blast
  have sp: "split_char (CHR '':'') ?t = [two h, two mi, two s]"
    using nd [of "CHR '':''"] by (simp add: split_char_append split_char_single is_digit_def)
  have "parse_i64 (two n) = Some n" if "0 \<le> n" "n < 100" for n
    using parse_i64_pad [of "nat n" 2] that by (simp add: two_def i64_max_def)
  then show ?thesis using assms unfolding time_of_def tw sp by simp
qed

text \<open>A bound printed by the gateway parses back to its second, for every time from 1970 on.\<close>
theorem timestamp_bound_reads_back:
  assumes "0 \<le> ms" and "ms \<le> i64_max"
  shows "parse_rfc3339_millis (ts_millis_to_rfc3339 ms) = Inr (ms - ms mod 1000)"
proof -
  define secs where "secs = ms div 1000"
  define days where "days = secs div 86400"
  define sod where "sod = secs mod 86400"
  obtain y m d where c: "civil_from_days days = (y, m, d)" by (cases "civil_from_days days") auto
  have d0: "0 \<le> days" using assms(1) by (simp add: days_def secs_def)
  have v: "valid_date y m d" "days_from_civil y m d = days" using civil_valid [of days] c by simp_all
  have md: "1 \<le> m" "m \<le> 12" "1 \<le> d" "d \<le> 31" using v(1) by (auto simp: valid_date_def month_len_def split: if_splits)
  have y0: "0 \<le> y" by (rule days_nonneg_year [OF c d0])
  have sod: "0 \<le> sod" "sod < 86400" by (simp_all add: sod_def)
  let ?h = "sod div 3600" and ?mi = "sod mod 3600 div 60" and ?s = "sod mod 60"
  have clock: "0 \<le> ?h" "?h < 24" "0 \<le> ?mi" "?mi < 60" "0 \<le> ?s" "?s < 60" using sod by auto
  have sum: "days * 86400000 + ?h * 3600000 + ?mi * 60000 + ?s * 1000 = ms - ms mod 1000"
  proof -
    have "secs = days * 86400 + sod" by (simp add: days_def sod_def)
    moreover have "ms = secs * 1000 + ms mod 1000" by (simp add: secs_def)
    moreover have "sod = ?h * 3600 + sod mod 3600" by simp
    moreover have "sod mod 3600 = ?mi * 60 + sod mod 3600 mod 60" by simp
    moreover have "sod mod 3600 mod 60 = ?s" by (simp add: mod_mod_cancel)
    ultimately show ?thesis by linarith
  qed
  have range: "in_i64 (ms - ms mod 1000)"
  proof -
    have "0 \<le> ms mod 1000" "ms mod 1000 \<le> ms" using assms(1) by (simp_all add: zmod_le_nonneg_dividend)
    then show ?thesis using assms by (simp add: in_i64_def i64_min_def)
  qed
  let ?date = "year_str y @ CHR ''-'' # two m @ CHR ''-'' # two d"
  let ?time = "two ?h @ CHR '':'' # two ?mi @ CHR '':'' # two ?s"
  have str: "ts_millis_to_rfc3339 ms = ?date @ CHR ''T'' # ?time @ ''Z''"
    by (simp add: ts_millis_to_rfc3339_def Let_def c flip: secs_def days_def sod_def)
  have ys: "year_str y = pad0 4 (nat_str (nat y))" using y0 by (simp add: year_str_def)
  have ydig: "\<forall>x\<in>set (year_str y). is_digit x" unfolding ys using pad0_digit_chars by blast
  have "year_str y \<noteq> []" by (simp add: ys pad0_def)
  then obtain a r where ar: "year_str y = a # r" by (cases "year_str y") auto
  then have "is_digit a" using ydig by simp
  then have tr: "trim (ts_millis_to_rfc3339 ms) = ts_millis_to_rfc3339 ms"
    using trim_timestamp [of a "r @ CHR ''-'' # two m @ CHR ''-'' # two d @ CHR ''T'' # ?time"] by (simp add: str ar)
  have "CHR ''T'' \<notin> set ?date"
    using ydig no_sep_pad [of "CHR ''T''" 2] by (auto simp: two_def is_digit_def)
  then have once: "split_once (CHR ''T'') (?date @ CHR ''T'' # ?time) = Some (?date, ?time)" by (rule split_once_append)
  have suf: "strip_suffix ''Z'' (x @ ''Z'') = Some x" for x by (simp add: strip_suffix_def ends_with_def)
  have "y \<le> i64_max"
  proof -
    have "365 * y \<le> days + 720000" by (rule year_below_days [OF c d0])
    moreover have "secs = days * 86400 + sod" "ms = secs * 1000 + ms mod 1000" "0 \<le> ms mod 1000"
      by (simp_all add: days_def sod_def secs_def)
    ultimately show ?thesis using assms(2) y0 d0 sod unfolding i64_max_def by linarith
  qed
  then have date: "date_of ?date = Some (y, nat m, nat d)" using date_of_civil y0 md by blast
  note time = time_of_clock [OF clock]
  have z: "strip_suffix ''Z'' (ts_millis_to_rfc3339 ms) = Some (?date @ CHR ''T'' # ?time)"
    using suf [of "?date @ CHR ''T'' # ?time"] unfolding str by (simp only: append_assoc append_Cons)
  have "int (nat m) = m" "int (nat d) = d" using md by simp_all
  then have total: "wrap_i64 (days_from_civil y (int (nat m)) (int (nat d)) * 86400000 + ?h * 3600000 + ?mi * 60000 + ?s * 1000)
      = ms - ms mod 1000"
    using v(2) sum wrap_i64_id [OF range] by (simp only:)
  show ?thesis
    unfolding parse_rfc3339_millis_def Let_def tr z bind.bind_lunit option.simps once prod.case date time total ..
qed

theorem timestamp_bound_reads_back_witness: "parse_rfc3339_millis (ts_millis_to_rfc3339 1767366245123) = Inr 1767366245000"
proof -
  have "parse_rfc3339_millis (ts_millis_to_rfc3339 1767366245123) = Inr (1767366245123 - 1767366245123 mod 1000)"
    by (rule timestamp_bound_reads_back) (simp_all only: i64_max_def zero_le_numeral order_refl numeral_le_iff le_num_simps)
  also have "(1767366245123 - 1767366245123 mod 1000 :: int) = 1767366245000" by simp
  finally show ?thesis .
qed

end
