(* ===== verification/McpClient.thy ===== *)
theory McpClient
  imports Mcp McpExposure NumParse Utf8 "HOL-Library.Sublist"
begin

text \<open>
  The MCP client of the live scanner (\<open>crates/gateway/src/mcpclient.rs\<close>) and the exposure
  probe (\<open>mcpexposure_probe.rs\<close>): the three-message handshake as single POSTs, the cap on a
  response body, the choice of the JSON-RPC answer in a JSON body or an event stream.  The
  peer is a parameter with a state of its own: what it does with one request.
\<close>

section \<open>Configuration\<close>

definition DEFAULT_MAX_BODY_BYTES :: usize where "DEFAULT_MAX_BODY_BYTES = 8388608"

record McpClientConfig =
  mc_url :: string
  mc_connect_secs :: u64
  mc_total_secs :: u64
  mc_extra_headers :: "(string \<times> string) list"
  mc_max_body :: usize

definition env_number :: "(string \<Rightarrow> string option) \<Rightarrow> string \<Rightarrow> u64 \<Rightarrow> u64" where
  "env_number env name d = (case Option.bind (env name) parse_u64 of Some n \<Rightarrow> n | None \<Rightarrow> d)"

definition mcp_config_new :: "(string \<Rightarrow> string option) \<Rightarrow> string \<Rightarrow> McpClientConfig" where
  "mcp_config_new env url =
     \<lparr> mc_url = url, mc_connect_secs = env_number env ''TOKENFUSE_MCP_SCAN_CONNECT_TIMEOUT_SECS'' 5,
       mc_total_secs = env_number env ''TOKENFUSE_MCP_SCAN_TIMEOUT_SECS'' 15, mc_extra_headers = [],
       mc_max_body = env_number env ''TOKENFUSE_MCP_SCAN_MAX_BODY_BYTES'' DEFAULT_MAX_BODY_BYTES \<rparr>"

datatype McpClientError =
    Transport string
  | Status nat string
  | ParseFailed string
  | UnsupportedTransport string
  | BodyTooLarge usize

definition client_error_str :: "McpClientError \<Rightarrow> string" where
  "client_error_str e = (case e of
     Transport m \<Rightarrow> ''request failed: '' @ m
   | Status n body \<Rightarrow> ''server returned HTTP '' @ nat_str n @ '': '' @ body
   | ParseFailed m \<Rightarrow> ''could not parse server response: '' @ m
   | UnsupportedTransport m \<Rightarrow> m
   | BodyTooLarge n \<Rightarrow> ''response body exceeded the '' @ nat_str n @ ''-byte scan cap (set TOKENFUSE_MCP_SCAN_MAX_BODY_BYTES to change)'')"

section \<open>Reading a response\<close>

definition content_type_matches :: "string \<Rightarrow> string \<Rightarrow> bool" where
  "content_type_matches content_type expected \<longleftrightarrow> eq_ignore_ascii_case (trim (takeWhile (\<lambda>c. c \<noteq> CHR '';'') content_type)) expected"

fun read_body_capped :: "(string, string) result list \<Rightarrow> usize \<Rightarrow> string \<Rightarrow> (McpClientError, string) result" where
  "read_body_capped [] max_bytes buf = Inr buf"
| "read_body_capped (Inl e # cs) max_bytes buf = Inl (Transport e)"
| "read_body_capped (Inr c # cs) max_bytes buf =
     (if max_bytes < length buf + length c then Inl (BodyTooLarge max_bytes) else read_body_capped cs max_bytes (buf @ c))"

text \<open>What the client takes from outside: the JSON reader and Rust's debug rendering.\<close>
record McpEnv =
  me_parse :: "string \<Rightarrow> (string, json) result"
  me_debug_json :: "json \<Rightarrow> string"
  me_debug_str :: "string \<Rightarrow> string"
  me_version :: string

definition flush_sse_event :: "McpEnv \<Rightarrow> string list \<Rightarrow> json list \<Rightarrow> json list" where
  "flush_sse_event e data_lines frames =
     (if data_lines = [] then frames
      else (case me_parse e (join [CHR 0x0A] data_lines) of Inr v \<Rightarrow> frames @ [v] | Inl _ \<Rightarrow> frames))"

text \<open>\<open>trim_end_matches('\r')\<close>, and what a \<open>data:\<close> line carries.\<close>
definition trim_cr :: "string \<Rightarrow> string" where
  "trim_cr l = rev (dropWhile (\<lambda>c. c = CHR 0x0D) (rev l))"

definition sse_data :: "string \<Rightarrow> string option" where
  "sse_data line = map_option (\<lambda>rest. case strip_prefix '' '' rest of Some r \<Rightarrow> r | None \<Rightarrow> rest) (strip_prefix ''data:'' line)"

text \<open>The data lines of the event so far, and the frames.\<close>
definition sse_step :: "McpEnv \<Rightarrow> string \<Rightarrow> string list \<times> json list \<Rightarrow> string list \<times> json list" where
  "sse_step e l st =
     (if trim_cr l = [] then ([], flush_sse_event e (fst st) (snd st))
      else (case sse_data (trim_cr l) of Some d \<Rightarrow> (fst st @ [d], snd st) | None \<Rightarrow> st))"

definition parse_sse_frames :: "McpEnv \<Rightarrow> string \<Rightarrow> json list" where
  "parse_sse_frames e body = (case fold (sse_step e) (str_lines body) ([], []) of (ds, fs) \<Rightarrow> flush_sse_event e ds fs)"

section \<open>One exchange\<close>

record McpResponse =
  mr_status :: nat
  mr_headers :: "(string \<times> string) list"
  mr_chunks :: "(string, string) result list"

text \<open>What the peer does with a JSON-RPC message under a session: the failure of the send, or its response.\<close>
type_synonym 's peer = "'s \<Rightarrow> json \<Rightarrow> string option \<Rightarrow> (string, McpResponse) result \<times> 's"

definition http_success :: "nat \<Rightarrow> bool" where "http_success n \<longleftrightarrow> 200 \<le> n \<and> n < 300"

text \<open>The first value of a header, when it is text; header names are lower case.\<close>
definition response_header :: "McpResponse \<Rightarrow> string \<Rightarrow> string option" where
  "response_header r name = header_str (map_of (map (\<lambda>(k, v). (to_ascii_lowercase k, v)) (mr_headers r))) name"

definition text_headers :: "McpResponse \<Rightarrow> (string \<times> string) list" where
  "text_headers r = filter (\<lambda>(k, v). list_all visible_ascii v) (map (\<lambda>(k, v). (to_ascii_lowercase k, v)) (mr_headers r))"

record RpcReply =
  rr_value :: json
  rr_status :: nat
  rr_headers :: "(string \<times> string) list"
  rr_session :: "string option"

text \<open>The answer in a body read in full.\<close>
definition rpc_value :: "McpEnv \<Rightarrow> json \<Rightarrow> string \<Rightarrow> string \<Rightarrow> (McpClientError, json) result" where
  "rpc_value e req content_type bytes =
     (if content_type_matches content_type ''text/event-stream'' then
        (case List.find (\<lambda>f. json_get ''id'' f = json_get ''id'' req) (parse_sse_frames e (from_utf8_lossy bytes)) of
           Some f \<Rightarrow> Inr f
         | None \<Rightarrow> Inl (ParseFailed (''SSE stream ended without a response matching request id ''
             @ me_debug_json e (case json_get ''id'' req of Some i \<Rightarrow> i | None \<Rightarrow> JNull))))
      else if \<not> content_type_matches content_type ''application/json'' then
        Inl (UnsupportedTransport (''server responded with unsupported content-type '' @ me_debug_str e content_type))
      else map_sum ParseFailed id (me_parse e bytes))"

definition post_rpc_full :: "McpEnv \<Rightarrow> 's peer \<Rightarrow> McpClientConfig \<Rightarrow> 's \<Rightarrow> json \<Rightarrow> string option \<Rightarrow> (McpClientError, RpcReply) result \<times> 's" where
  "post_rpc_full e peer cfg s req session_id =
     (case peer s req session_id of
        (Inl m, s) \<Rightarrow> (Inl (Transport m), s)
      | (Inr resp, s) \<Rightarrow>
          ((case read_body_capped (mr_chunks resp) (mc_max_body cfg) [] of
              Inl x \<Rightarrow> Inl x
            | Inr bytes \<Rightarrow>
                if \<not> http_success (mr_status resp) then Inl (Status (mr_status resp) (from_utf8_lossy bytes))
                else map_sum id (\<lambda>v. \<lparr> rr_value = v, rr_status = mr_status resp, rr_headers = text_headers resp,
                       rr_session = response_header resp ''mcp-session-id'' \<rparr>)
                  (rpc_value e req (case response_header resp ''content-type'' of Some t \<Rightarrow> t | None \<Rightarrow> []) bytes)), s))"

text \<open>The body of an error is read as far as the cap allows.\<close>
definition send_notification :: "'s peer \<Rightarrow> McpClientConfig \<Rightarrow> 's \<Rightarrow> json \<Rightarrow> string option \<Rightarrow> McpClientError option \<times> 's" where
  "send_notification peer cfg s req session_id =
     (case peer s req session_id of
        (Inl m, s) \<Rightarrow> (Some (Transport m), s)
      | (Inr resp, s) \<Rightarrow>
          (if http_success (mr_status resp) then None
           else Some (Status (mr_status resp) (case read_body_capped (mr_chunks resp) (mc_max_body cfg) [] of
             Inr b \<Rightarrow> from_utf8_lossy b | Inl _ \<Rightarrow> [])), s))"

section \<open>The handshake\<close>

text \<open>Objects list their members in key order.\<close>
definition initialize_request :: "McpEnv \<Rightarrow> json" where
  "initialize_request e = JObject
     [(''id'', json_u64 1), (''jsonrpc'', JString ''2.0''), (''method'', JString ''initialize''),
      (''params'', JObject [(''capabilities'', JObject []),
        (''clientInfo'', JObject [(''name'', JString ''tokenfuse-mcp-scan''), (''version'', JString (me_version e))]),
        (''protocolVersion'', JString ''2025-06-18'')])]"

definition initialized_notification :: json where
  "initialized_notification = JObject [(''jsonrpc'', JString ''2.0''), (''method'', JString ''notifications/initialized'')]"

definition tools_list_request :: json where
  "tools_list_request = JObject [(''id'', json_u64 2), (''jsonrpc'', JString ''2.0''), (''method'', JString ''tools/list''), (''params'', JObject [])]"

definition tools_call_request :: "string \<Rightarrow> json \<Rightarrow> json" where
  "tools_call_request name args = JObject [(''id'', json_u64 2), (''jsonrpc'', JString ''2.0''), (''method'', JString ''tools/call''),
     (''params'', JObject [(''arguments'', args), (''name'', JString name)])]"

text \<open>The steps the three entry points share: initialize, the notification, then the request itself.\<close>
definition with_handshake :: "McpEnv \<Rightarrow> 's peer \<Rightarrow> McpClientConfig \<Rightarrow> 's \<Rightarrow> json \<Rightarrow> (McpClientError, RpcReply) result \<times> 's" where
  "with_handshake e peer cfg s req =
     (case post_rpc_full e peer cfg s (initialize_request e) None of
        (Inl x, s) \<Rightarrow> (Inl x, s)
      | (Inr init, s) \<Rightarrow> (case send_notification peer cfg s initialized_notification (rr_session init) of
          (Some x, s) \<Rightarrow> (Inl x, s)
        | (None, s) \<Rightarrow> post_rpc_full e peer cfg s req (rr_session init)))"

definition fetch_tools_list :: "McpEnv \<Rightarrow> 's peer \<Rightarrow> McpClientConfig \<Rightarrow> 's \<Rightarrow> (McpClientError, json) result \<times> 's" where
  "fetch_tools_list e peer cfg s = (case with_handshake e peer cfg s tools_list_request of (r, s) \<Rightarrow> (map_sum id rr_value r, s))"

definition fetch_tools_list_probe :: "McpEnv \<Rightarrow> 's peer \<Rightarrow> McpClientConfig \<Rightarrow> 's \<Rightarrow> (McpClientError, RpcReply) result \<times> 's" where
  "fetch_tools_list_probe e peer cfg s = with_handshake e peer cfg s tools_list_request"

definition probe_tools_call :: "McpEnv \<Rightarrow> 's peer \<Rightarrow> McpClientConfig \<Rightarrow> 's \<Rightarrow> string \<Rightarrow> json \<Rightarrow> (McpClientError, RpcReply) result \<times> 's" where
  "probe_tools_call e peer cfg s name args = with_handshake e peer cfg s (tools_call_request name args)"

section \<open>The exposure probe\<close>

definition no_call_tool :: string where
  "no_call_tool = ''--attempt-call requires an explicit --call-tool <name>; refusing to auto-pick a tool from server-controlled descriptions''"

definition probe_call :: "McpEnv \<Rightarrow> 's peer \<Rightarrow> McpClientConfig \<Rightarrow> 's \<Rightarrow> bool \<Rightarrow> string option \<Rightarrow> CallAttempt \<times> 's" where
  "probe_call e peer cfg s attempt_call call_tool =
     (if \<not> attempt_call then (NotRequested, s)
      else case call_tool of
        None \<Rightarrow> (Skipped no_call_tool, s)
      | Some name \<Rightarrow> (case probe_tools_call e peer cfg s name (JObject []) of
          (r, s) \<Rightarrow> ((case r of Inr resp \<Rightarrow> if json_get ''error'' (rr_value resp) = None then Succeeded name else Rejected name
                           | Inl _ \<Rightarrow> Rejected name), s)))"

text \<open>\<open>parse_url\<close> is the HTTP client's own URL parser; \<open>tools_of\<close> is \<open>parse_tools\<close>.\<close>
definition run_exposure_probe ::
  "McpEnv \<Rightarrow> (string \<Rightarrow> string) \<Rightarrow> (string \<Rightarrow> (string \<times> string) option) \<Rightarrow> (json \<Rightarrow> McpTool list) \<Rightarrow> 's peer \<Rightarrow> McpClientConfig \<Rightarrow> 's
     \<Rightarrow> bool \<Rightarrow> string option \<Rightarrow> ProbeOutcome \<times> 's" where
  "run_exposure_probe e lower parse_url tools_of peer cfg s attempt_call call_tool =
     (let (scheme, host) = (case parse_url (mc_url cfg) of
            Some sh \<Rightarrow> sh
          | None \<Rightarrow> (case parse_url_host_scheme lower (mc_url cfg) of Some sh \<Rightarrow> sh | None \<Rightarrow> ([], [])));
          (listing, s) = fetch_tools_list_probe e peer cfg s;
          n = (case listing of Inr p \<Rightarrow> length (tools_of (rr_value p)) | Inl _ \<Rightarrow> 0);
          cors = (case listing of
            Inr p \<Rightarrow> list_ex (\<lambda>(k, v). k = ''access-control-allow-origin'' \<and> trim v = [CHR 0x2A]) (rr_headers p) | Inl _ \<Rightarrow> False);
          (attempt, s) = probe_call e peer cfg s attempt_call call_tool
      in (\<lparr> po_scheme = scheme, po_host = host, unauth_list_returned = (0 < n), unauth_tool_count = n, cors_wildcard = cors,
            call_attempt = attempt \<rparr>, s))"

section \<open>The cap\<close>

text \<open>A body is returned in full or not at all, and never more than the cap is buffered.\<close>
lemma body_capped_exact:
  "length buf \<le> n \<Longrightarrow>
     read_body_capped (map Inr cs) n buf = (if length buf + length (concat cs) \<le> n then Inr (buf @ concat cs) else Inl (BodyTooLarge n))"
  by (induction cs arbitrary: buf) auto

lemma body_capped: "read_body_capped cs n buf = Inr b \<Longrightarrow> length buf \<le> n \<Longrightarrow> length b \<le> n"
  by (induction cs n buf rule: read_body_capped.induct) (auto split: if_splits)

section \<open>Event streams\<close>

definition data_line :: "string \<Rightarrow> string" where "data_line l = ''data: '' @ l"

text \<open>An event as a server writes it: its data lines, then an empty line.\<close>
definition sse_event_text :: "string list \<Rightarrow> string" where
  "sse_event_text ls = concat (map (\<lambda>l. data_line l @ [CHR 0x0A]) ls) @ [CHR 0x0A]"

definition plain_line :: "string \<Rightarrow> bool" where
  "plain_line l \<longleftrightarrow> CHR 0x0A \<notin> set l \<and> CHR 0x0D \<notin> set l"

lemma lines_aux_line:
  "CHR 0x0A \<notin> set l \<Longrightarrow> CHR 0x0D \<notin> set cur \<Longrightarrow> CHR 0x0D \<notin> set l \<Longrightarrow> lines_aux cur (l @ CHR 0x0A # rest) = (rev cur @ l) # lines_aux [] rest"
  by (induction l arbitrary: cur) (auto split: list.splits)

lemma str_lines_line: "plain_line l \<Longrightarrow> str_lines (l @ CHR 0x0A # rest) = l # str_lines rest"
  using lines_aux_line [of l "[]" rest] by (simp add: str_lines_def plain_line_def)

lemma plain_data: "plain_line (data_line l) \<longleftrightarrow> plain_line l"
  by (simp add: plain_line_def data_line_def)

lemma str_lines_event:
  assumes "\<forall>l\<in>set ls. plain_line l"
  shows "str_lines (sse_event_text ls @ rest) = map data_line ls @ [] # str_lines rest"
  using assms
proof (induction ls)
  case Nil
  then show ?case using str_lines_line [of "[]" rest] by (simp add: sse_event_text_def plain_line_def)
next
  case (Cons l ls)
  have "plain_line (data_line l)" using Cons.prems by (simp only: plain_data) simp
  then have "str_lines ((data_line l) @ CHR 0x0A # (sse_event_text ls @ rest)) = (data_line l) # str_lines (sse_event_text ls @ rest)"
    by (rule str_lines_line)
  then show ?case using Cons by (simp add: sse_event_text_def)
qed

lemma trim_cr_plain: "CHR 0x0D \<notin> set l \<Longrightarrow> trim_cr l = l"
  by (cases l rule: rev_cases) (auto simp: trim_cr_def)

lemma sse_step_data: "plain_line l \<Longrightarrow> sse_step e (data_line l) (ds, fs) = (ds @ [l], fs)"
proof -
  assume "plain_line l"
  then have "trim_cr (data_line l) = data_line l" by (intro trim_cr_plain) (simp add: plain_line_def data_line_def)
  then show ?thesis by (simp add: sse_step_def sse_data_def strip_prefix_def, simp add: data_line_def)
qed

lemma sse_fold_data: "\<forall>l\<in>set ls. plain_line l \<Longrightarrow> fold (sse_step e) (map data_line ls) (ds, fs) = (ds @ ls, fs)"
proof (induction ls arbitrary: ds)
  case (Cons l ls)
  have "fold (sse_step e) (map data_line (l # ls)) (ds, fs)
      = fold (sse_step e) (map data_line ls) (sse_step e (data_line l) (ds, fs))" by (simp only: list.map fold_simps)
  also have "\<dots> = (ds @ l # ls, fs)" using Cons sse_step_data [of l e ds fs] by simp
  finally show ?case .
qed simp

text \<open>
  The frames of an event stream are the JSON values of its events, in order: the data lines of an
  event are joined with line feeds, and an event that is not JSON is dropped.
\<close>
theorem sse_frames_exact:
  assumes "\<forall>ls\<in>set evs. ls \<noteq> [] \<and> (\<forall>l\<in>set ls. plain_line l)"
  shows "parse_sse_frames e (concat (map sse_event_text evs))
    = concat (map (\<lambda>ls. case me_parse e (join [CHR 0x0A] ls) of Inr v \<Rightarrow> [v] | Inl _ \<Rightarrow> []) evs)"
proof -
  have "fold (sse_step e) (str_lines (concat (map sse_event_text evs))) ([], fs)
      = ([], fs @ concat (map (\<lambda>ls. case me_parse e (join [CHR 0x0A] ls) of Inr v \<Rightarrow> [v] | Inl _ \<Rightarrow> []) evs))" for fs
    using assms
  proof (induction evs arbitrary: fs)
    case Nil
    then show ?case by (simp add: str_lines_def)
  next
    case (Cons ls evs)
    have l: "ls \<noteq> []" "\<forall>l\<in>set ls. plain_line l" using Cons.prems by simp_all
    have "sse_step e [] (ls, fs) = ([], flush_sse_event e ls fs)" by (simp add: sse_step_def trim_cr_def)
    moreover have "flush_sse_event e ls fs = fs @ (case me_parse e (join [CHR 0x0A] ls) of Inr v \<Rightarrow> [v] | Inl _ \<Rightarrow> [])"
      using l(1) by (simp add: flush_sse_event_def split: sum.splits)
    ultimately show ?case
      using Cons.IH [of "flush_sse_event e ls fs"] Cons.prems
      by (simp add: str_lines_event [OF l(2)] sse_fold_data [OF l(2)] del: map_map)
  qed
  from this [of "[]"] show ?thesis by (simp add: parse_sse_frames_def flush_sse_event_def)
qed

theorem sse_frames_exact_witness:
  "parse_sse_frames \<lparr> me_parse = (\<lambda>s. Inr (JString s)), me_debug_json = (\<lambda>_. []), me_debug_str = id, me_version = [] \<rparr>
     (concat (map sse_event_text [[''a'', ''b''], [''c'']])) = [JString [CHR ''a'', CHR 0x0A, CHR ''b''], JString ''c'']"
proof -
  have "\<forall>ls\<in>set [[''a'', ''b''], [''c'']]. ls \<noteq> [] \<and> (\<forall>l\<in>set ls. plain_line l)" by (simp add: plain_line_def)
  from sse_frames_exact [OF this, of "\<lparr> me_parse = (\<lambda>s. Inr (JString s)), me_debug_json = (\<lambda>_. []), me_debug_str = id, me_version = [] \<rparr>"]
  show ?thesis by simp
qed

section \<open>The messages sent\<close>

text \<open>A peer that writes down what it is sent.\<close>
definition logging :: "'s peer \<Rightarrow> ((json \<times> string option) list \<times> 's) peer" where
  "logging peer = (\<lambda>st req sid. case peer (snd st) req sid of (r, s) \<Rightarrow> (r, (fst st @ [(req, sid)], s)))"

lemma post_logs: "fst (snd (post_rpc_full e (logging peer) cfg st req sid)) = fst st @ [(req, sid)]"
  by (simp add: post_rpc_full_def logging_def split: prod.splits sum.splits)

lemma notify_logs: "fst (snd (send_notification (logging peer) cfg st req sid)) = fst st @ [(req, sid)]"
  by (simp add: send_notification_def logging_def split: prod.splits sum.splits)

text \<open>
  Whatever the server answers, what it is sent is a beginning of the handshake: initialize without a
  session, then, once that succeeded, the notification and then, once that succeeded, the one request,
  both under the session the server gave.  The request is sent when an answer is returned.
\<close>
theorem handshake_order:
  "case with_handshake e (logging peer) cfg ([], s) req of (r, (sent, s')) \<Rightarrow>
     (\<exists>sid. prefix sent [(initialize_request e, None), (initialized_notification, sid), (req, sid)] \<and> sent \<noteq> []
        \<and> (\<forall>a. r = Inr a \<longrightarrow> length sent = 3))"
proof -
  obtain r1 st1 where p1: "post_rpc_full e (logging peer) cfg ([], s) (initialize_request e) None = (r1, st1)" by (meson surj_pair)
  have l1: "fst st1 = [(initialize_request e, None)]" using post_logs [of e peer cfg "([], s)" "initialize_request e" None] by (simp add: p1)
  show ?thesis
  proof (cases r1)
    case (Inl x)
    then show ?thesis using l1 by (auto simp: with_handshake_def p1 split: prod.splits)
  next
    case (Inr init)
    obtain r2 st2 where p2: "send_notification (logging peer) cfg st1 initialized_notification (rr_session init) = (r2, st2)" by (meson surj_pair)
    have l2: "fst st2 = [(initialize_request e, None), (initialized_notification, rr_session init)]"
      using notify_logs [of peer cfg st1 initialized_notification "rr_session init"] l1 by (simp add: p2)
    show ?thesis
    proof (cases r2)
      case (Some x)
      then show ?thesis using l2 Inr by (auto simp: with_handshake_def p1 p2 split: prod.splits intro!: exI [of _ "rr_session init"])
    next
      case None
      have "fst (snd (post_rpc_full e (logging peer) cfg st2 req (rr_session init)))
          = [(initialize_request e, None), (initialized_notification, rr_session init), (req, rr_session init)]"
        using post_logs [of e peer cfg st2 req "rr_session init"] l2 by simp
      then show ?thesis using Inr None by (auto simp: with_handshake_def p1 p2 split: prod.splits intro!: exI [of _ "rr_session init"])
    qed
  qed
qed

text \<open>An answer that arrives as an event stream carries the id of the request.\<close>
lemma stream_answer_id:
  assumes "rpc_value e req ct bytes = Inr v" and "content_type_matches ct ''text/event-stream''"
  shows "json_get ''id'' v = json_get ''id'' req"
  using assms by (auto simp: rpc_value_def find_Some_iff split: option.splits)

text \<open>The probe that names no tool calls none: at most the listing is sent.\<close>
lemma no_call_without_name:
  assumes "\<not> attempt_call \<or> call_tool = None"
  shows "probe_call e peer cfg s attempt_call call_tool = (if attempt_call then Skipped no_call_tool else NotRequested, s)"
  using assms by (auto simp: probe_call_def)

end
