(* ===== verification/McpScan.thy ===== *)
theory McpScan
  imports McpClient
begin

text \<open>
  The command \<open>tokenfuse mcp-scan\<close>: its flags and exit code (\<open>main.rs\<close> of the gateway) and
  the scan of a saved or a live tool list (\<open>crates/gateway/src/mcpcli.rs\<close>).  A scan is a
  function from the files, the peer and the flags to its result and the list of its
  effects, what it printed and what it wrote, in order.
\<close>

section \<open>Options and effects\<close>

datatype OutputMode = Human | JsonOut

record ScanOptions =
  so_lock_path :: "string option"
  so_write_lock :: bool
  so_mode :: OutputMode
  so_json_out :: "string option"
  so_sarif_out :: "string option"
  so_skip_exposure :: bool
  so_attempt_call :: bool
  so_call_tool :: "string option"

datatype Effect = Out string | Err string | Wrote string string

text \<open>The files, the serde readers and printers, Unicode lower-casing, the tool reader and the URL parser.\<close>
record ScanEnv =
  se_mcp :: McpEnv
  se_vars :: "string \<Rightarrow> string option"
  se_read :: "string \<Rightarrow> (string, string) result"
  se_write :: "string \<Rightarrow> string option"
  se_parse_lock :: "string \<Rightarrow> (string, Lock) result"
  se_print_lock :: "Lock \<Rightarrow> string"
  se_print_report :: "ScanReport \<Rightarrow> string"
  se_print_json :: "json \<Rightarrow> string"
  se_lower :: "string \<Rightarrow> string"
  se_tools_of :: "json \<Rightarrow> McpTool list"
  se_parse_url :: "string \<Rightarrow> (string \<times> string) option"

definition human :: "OutputMode \<Rightarrow> string list \<Rightarrow> Effect list" where
  "human m ls = (if m = Human then map Out ls else [])"

definition WARNING :: string where "WARNING = [CHR 0xE2, CHR 0x9A, CHR 0xA0]"
definition NO_ENTRY :: string where "NO_ENTRY = [CHR 0xE2, CHR 0x9B, CHR 0x94]"

definition quoted :: "string \<Rightarrow> string" where "quoted s = [CHR 0x27] @ s @ [CHR 0x27]"

section \<open>The scan of a tool list\<close>

definition injection_lines :: "ScanFinding list \<Rightarrow> string list" where
  "injection_lines fs =
     (if fs = [] then [''  injection scan: clean'']
      else (''  injection scan: '' @ nat_str (length fs) @ '' issue(s)'')
        # map (\<lambda>f. ''    '' @ WARNING @ '' '' @ sf_tool f @ '': '' @ sf_issue f) fs)"

fun drift_line :: "Drift \<Rightarrow> string" where
  "drift_line (Changed n) = ''    '' @ NO_ENTRY @ '' RUG PULL: tool '' @ quoted n @ '' description/schema changed''"
| "drift_line (Added n) = ''    + new tool '' @ quoted n @ '' (not in lock)''"
| "drift_line (Removed n) = ''    - tool '' @ quoted n @ '' removed''"

definition drift_lines :: "string \<Rightarrow> Drift list \<Rightarrow> string list" where
  "drift_lines path ds =
     (if ds = [] then [''  lock: no drift '' @ EM_DASH @ '' matches '' @ path]
      else (''  lock: '' @ nat_str (length ds) @ '' change(s) vs '' @ path) # map drift_line ds)"

text \<open>The drifts of the lock step, and what it did.\<close>
definition lock_step :: "ScanEnv \<Rightarrow> McpTool list \<Rightarrow> ScanOptions \<Rightarrow> (string, Drift list) result \<times> Effect list" where
  "lock_step e tools opt = (case so_lock_path opt of
     None \<Rightarrow> (Inr [], [])
   | Some path \<Rightarrow>
       if so_write_lock opt then
         (case se_write e path of
            Some x \<Rightarrow> (Inl (''write '' @ path @ '': '' @ x), [])
          | None \<Rightarrow> (Inr [], Wrote path (se_print_lock e (lock_from_tools tools))
              # human (so_mode opt) [''  lock: wrote '' @ nat_str (length tools) @ '' tool fingerprints to '' @ path]))
       else
         (case se_read e path of
            Inl x \<Rightarrow> (Inl (''read '' @ path @ '': '' @ x), [])
          | Inr raw \<Rightarrow> (case se_parse_lock e raw of
              Inl x \<Rightarrow> (Inl (''parse '' @ path @ '': '' @ x), [])
            | Inr lock \<Rightarrow> (Inr (diff tools lock), human (so_mode opt) (drift_lines path (diff tools lock))))))"

definition build_scan_report :: "ScanEnv \<Rightarrow> McpTool list \<Rightarrow> ScanOptions \<Rightarrow> (string, ScanReport) result \<times> Effect list" where
  "build_scan_report e tools opt =
     (let findings = scan_injection (se_lower e) tools; (drifts, eff) = lock_step e tools opt
      in (map_sum id (from_scan (me_version (se_mcp e)) tools findings) drifts, human (so_mode opt) (injection_lines findings) @ eff))"

text \<open>Writing one report where a path was given.\<close>
definition write_out :: "ScanEnv \<Rightarrow> string option \<Rightarrow> string \<Rightarrow> string option \<times> Effect list" where
  "write_out e path contents = (case path of
     None \<Rightarrow> (None, [])
   | Some p \<Rightarrow> (case se_write e p of Some x \<Rightarrow> (Some (''write '' @ p @ '': '' @ x), []) | None \<Rightarrow> (None, [Wrote p contents])))"

definition sarif_note :: "ScanOptions \<Rightarrow> Effect list" where
  "sarif_note opt = (case so_sarif_out opt of Some p \<Rightarrow> human (so_mode opt) [''  sarif: wrote SARIF 2.1.0 report to '' @ p] | None \<Rightarrow> [])"

definition emit_report :: "ScanEnv \<Rightarrow> ScanReport \<Rightarrow> ScanOptions \<Rightarrow> string option \<times> Effect list" where
  "emit_report e r opt =
     (let shown = (if so_mode opt = JsonOut then [Out (se_print_report e r)] else []) in
      case write_out e (so_json_out opt) (se_print_report e r) of
        (Some x, eff) \<Rightarrow> (Some x, shown @ eff)
      | (None, eff) \<Rightarrow> (case write_out e (so_sarif_out opt) (se_print_json e (to_sarif r (sr_version r))) of
          (Some x, eff') \<Rightarrow> (Some x, shown @ eff @ eff')
        | (None, eff') \<Rightarrow> (None, shown @ eff @ eff' @ sarif_note opt)))"

text \<open>The report built is returned once it has been emitted.\<close>
definition emit_built :: "ScanEnv \<Rightarrow> ScanOptions \<Rightarrow> (string, ScanReport) result \<times> Effect list \<Rightarrow> (string, ScanReport) result \<times> Effect list" where
  "emit_built e opt b = (case b of
     (Inl x, eff) \<Rightarrow> (Inl x, eff)
   | (Inr r, eff) \<Rightarrow> (case emit_report e r opt of
       (Some x, eff') \<Rightarrow> (Inl x, eff @ eff')
     | (None, eff') \<Rightarrow> (Inr r, eff @ eff')))"

definition scan_file :: "ScanEnv \<Rightarrow> string \<Rightarrow> ScanOptions \<Rightarrow> (string, ScanReport) result \<times> Effect list" where
  "scan_file e path opt = (case se_read e path of
     Inl x \<Rightarrow> (Inl (''read '' @ path @ '': '' @ x), [])
   | Inr raw \<Rightarrow> (case me_parse (se_mcp e) raw of
       Inl x \<Rightarrow> (Inl (''parse '' @ path @ '': '' @ x), [])
     | Inr v \<Rightarrow>
         let tools = se_tools_of e v;
             title = human (so_mode opt) [''MCP scan '' @ EM_DASH @ '' '' @ nat_str (length tools) @ '' tool(s) in '' @ path];
             (r, eff) = emit_built e opt (build_scan_report e tools opt)
         in (r, title @ eff)))"

section \<open>The scan of a live server\<close>

definition exposure_line :: "Finding \<Rightarrow> string" where
  "exposure_line f = ''    '' @ WARNING @ '' ['' @ fd_kind f @ ''] '' @ (case fd_tool f of Some t \<Rightarrow> t @ '': '' | None \<Rightarrow> []) @ fd_message f"

definition exposure_lines :: "Finding list \<Rightarrow> string list" where
  "exposure_lines fs = (if fs = [] then [''  exposure scan: clean'']
     else (''  exposure scan: '' @ nat_str (length fs) @ '' issue(s)'') # map exposure_line fs)"

text \<open>The report with the exposure findings merged in.\<close>
definition add_exposure :: "ScanEnv \<Rightarrow> 's peer \<Rightarrow> McpClientConfig \<Rightarrow> McpTool list \<Rightarrow> ScanOptions \<Rightarrow> 's \<Rightarrow> ScanReport \<Rightarrow> ScanReport \<times> Effect list \<times> 's" where
  "add_exposure e peer cfg tools opt s r =
     (if so_skip_exposure opt then (r, human (so_mode opt) [''  exposure scan: skipped (--skip-exposure)''], s)
      else (case run_exposure_probe (se_mcp e) (se_lower e) (se_parse_url e) (se_tools_of e) peer cfg s (so_attempt_call opt) (so_call_tool opt) of
        (po, s) \<Rightarrow> let extra = exposure_findings (se_lower e) po @ ssrf_capable_findings (se_lower e) tools
                   in (push_findings extra r, human (so_mode opt) (exposure_lines extra), s)))"

definition scan_live :: "ScanEnv \<Rightarrow> 's peer \<Rightarrow> 's \<Rightarrow> string \<Rightarrow> ScanOptions \<Rightarrow> (string, ScanReport) result \<times> Effect list \<times> 's" where
  "scan_live e peer s url opt =
     (let cfg = mcp_config_new (se_vars e) url in
      case fetch_tools_list (se_mcp e) peer cfg s of
        (Inl x, s) \<Rightarrow> (Inl (client_error_str x), [], s)
      | (Inr v, s) \<Rightarrow>
          let tools = se_tools_of e v;
              title = human (so_mode opt) [''MCP scan '' @ EM_DASH @ '' '' @ nat_str (length tools) @ '' tool(s) live from '' @ url]
          in (case build_scan_report e tools opt of
            (Inl x, eff) \<Rightarrow> (Inl x, title @ eff, s)
          | (Inr r, eff) \<Rightarrow> (case add_exposure e peer cfg tools opt s r of
              (r, eff', s) \<Rightarrow> (case emit_built e opt (Inr r, eff') of (res, eff'') \<Rightarrow> (res, title @ eff @ eff'', s)))))"

section \<open>Flags\<close>

text \<open>\<open>iter().position(..)\<close> of a flag, and the argument after it.\<close>
definition flag_index :: "string \<Rightarrow> string list \<Rightarrow> nat option" where
  "flag_index flag xs = (if flag \<in> set xs then Some (length (takeWhile (\<lambda>a. a \<noteq> flag) xs)) else None)"

definition flag_value :: "string \<Rightarrow> string list \<Rightarrow> string option" where
  "flag_value flag xs = (case flag_index flag xs of
     Some i \<Rightarrow> if i + 1 < length xs then Some (xs ! (i + 1)) else None | None \<Rightarrow> None)"

definition VALUE_FLAGS :: "string list" where
  "VALUE_FLAGS = [''--url'', ''--lock'', ''--json-out'', ''--sarif'', ''--fail-on'', ''--call-tool'']"

text \<open>The first argument that is no flag and no flag's value.\<close>
definition tools_path :: "string list \<Rightarrow> string option" where
  "tools_path xs = map_option snd (List.find (\<lambda>(i, a). \<not> starts_with a ''--'' \<and> Some i \<notin> set (map (\<lambda>f. map_option Suc (flag_index f xs)) VALUE_FLAGS))
     (enumerate 0 xs))"

definition scan_options :: "string list \<Rightarrow> ScanOptions" where
  "scan_options xs = \<lparr> so_lock_path = flag_value ''--lock'' xs, so_write_lock = (''--write-lock'' \<in> set xs),
     so_mode = (if ''--json'' \<in> set xs then JsonOut else Human), so_json_out = flag_value ''--json-out'' xs,
     so_sarif_out = flag_value ''--sarif'' xs, so_skip_exposure = (''--skip-exposure'' \<in> set xs),
     so_attempt_call = (''--attempt-call'' \<in> set xs), so_call_tool = flag_value ''--call-tool'' xs \<rparr>"

text \<open>\<open>--fail-on\<close>: high when absent, \<open>none\<close> for no threshold.\<close>
definition fail_threshold :: "(string \<Rightarrow> string) \<Rightarrow> string list \<Rightarrow> (string, Severity option) result" where
  "fail_threshold lower xs = (case flag_value ''--fail-on'' xs of
     None \<Rightarrow> Inr (Some SevHigh)
   | Some v \<Rightarrow> if v = ''none'' then Inr None else map_sum id Some (severity_from_str lower v))"

section \<open>The command\<close>

definition file_mode_note :: "ScanOptions \<Rightarrow> Effect list" where
  "file_mode_note opt = (if so_skip_exposure opt \<or> so_attempt_call opt \<or> so_call_tool opt \<noteq> None
     then [Err ''mcp-scan: note: --skip-exposure/--attempt-call/--call-tool only apply to --url (live) scans; ignoring for file mode'']
     else [])"

definition scan_usage :: string where
  "scan_usage = ''usage: tokenfuse mcp-scan <tools.json> [--lock <file>] [--write-lock] [--json] [--json-out <file>] [--sarif <file>] [--fail-on <severity>|none]''
     @ [CHR 0x0A] @ ''       tokenfuse mcp-scan --url <endpoint> [--lock <file>] [--write-lock] [--json] [--json-out <file>] [--sarif <file>] [--fail-on <severity>|none] [--skip-exposure] [--attempt-call --call-tool <name>]''"

text \<open>The error of a scan goes to the standard error stream.\<close>
definition report_error :: "(string, ScanReport) result \<times> Effect list \<Rightarrow> (unit, ScanReport) result \<times> Effect list" where
  "report_error b = (case b of (Inl x, eff) \<Rightarrow> (Inl (), eff @ [Err (''mcp-scan error: '' @ x)]) | (Inr r, eff) \<Rightarrow> (Inr r, eff))"

definition run_scan :: "ScanEnv \<Rightarrow> 's peer \<Rightarrow> 's \<Rightarrow> string list \<Rightarrow> (unit, ScanReport) result \<times> Effect list \<times> 's" where
  "run_scan e peer s xs =
     (let opt = scan_options xs in
      case (tools_path xs, flag_value ''--url'' xs) of
        (Some _, Some _) \<Rightarrow> (Inl (), [Err ''mcp-scan error: pass either <tools.json> or --url, not both''], s)
      | (None, Some url) \<Rightarrow> (case scan_live e peer s url opt of (r, eff, s) \<Rightarrow> (case report_error (r, eff) of (r, eff) \<Rightarrow> (r, eff, s)))
      | (Some p, None) \<Rightarrow> (case report_error (scan_file e p opt) of (r, eff) \<Rightarrow> (r, file_mode_note opt @ eff, s))
      | (None, None) \<Rightarrow> (Inl (), [Err scan_usage], s))"

definition result_line :: "ScanReport \<Rightarrow> int \<Rightarrow> Severity option \<Rightarrow> string" where
  "result_line r code threshold =
     (let n = (\<lambda>s. nat_str (case fmlookup (sr_summary r) (severity_str s) of Some k \<Rightarrow> k | None \<Rightarrow> 0)) in
      ''RESULT: '' @ n SevCritical @ '' critical, '' @ n SevHigh @ '' high, '' @ n SevMedium @ '' medium, '' @ n SevLow @ '' low '' @ EM_DASH
      @ '' exit '' @ int_str code @ '' (fail-on: '' @ (case threshold of Some t \<Rightarrow> severity_str t | None \<Rightarrow> ''none'') @ '')'')"

text \<open>The exit code and the effects of the command.\<close>
definition mcp_scan :: "ScanEnv \<Rightarrow> 's peer \<Rightarrow> 's \<Rightarrow> string list \<Rightarrow> int \<times> Effect list \<times> 's" where
  "mcp_scan e peer s xs = (case fail_threshold (se_lower e) xs of
     Inl x \<Rightarrow> (2, [Err (''mcp-scan error: '' @ x)], s)
   | Inr threshold \<Rightarrow> (case run_scan e peer s xs of
       (r, eff, s) \<Rightarrow>
         let code = scan_exit_code (map_sum id max_severity r) threshold
         in (code, eff @ (case r of Inr report \<Rightarrow> human (so_mode (scan_options xs)) [result_line report code threshold] | Inl _ \<Rightarrow> []), s)))"

section \<open>A green scan\<close>

text \<open>What a lock says of the tools offered, at a threshold.\<close>
definition lock_accepts :: "Lock \<Rightarrow> McpTool list \<Rightarrow> Severity \<Rightarrow> bool" where
  "lock_accepts lock tools thr \<longleftrightarrow>
     (\<forall>t\<in>set tools. fmlookup (lock_tools lock) (tool_name t) \<in> {None, Some (fingerprint t)})
   \<and> (thr \<le> SevMedium \<longrightarrow> (\<forall>t\<in>set tools. tool_name t \<in> fset (fmdom (lock_tools lock))))
   \<and> (thr \<le> SevLow \<longrightarrow> fset (fmdom (lock_tools lock)) \<subseteq> tool_name ` set tools)"

lemma lock_accepts_iff: "lock_accepts lock tools thr \<longleftrightarrow> \<not> (\<exists>d\<in>set (diff tools lock). thr \<le> fd_severity (drift_finding d))"
proof -
  have n: "t \<in> fset (fmdom (lock_tools lock)) \<longleftrightarrow> fmlookup (lock_tools lock) t \<noteq> None" for t by (simp add: fmlookup_dom_iff)
  have v: "x \<in> {None, Some a} \<longleftrightarrow> \<not> (\<exists>fp. x = Some fp \<and> fp \<noteq> a)" for x and a :: u64 by (cases x) auto
  show ?thesis unfolding lock_accepts_def drift_severities v by (auto simp: n subset_iff fmlookup_dom_iff)
qed

lemma lock_step_reads:
  assumes "lock_step e tools opt = (Inr ds, eff)" and "so_lock_path opt = Some lp" and "\<not> so_write_lock opt"
  obtains raw lock where "se_read e lp = Inr raw" "se_parse_lock e raw = Inr lock" "ds = diff tools lock"
  using assms by (auto simp: lock_step_def split: sum.splits)

lemma from_scan_findings: "sr_findings (from_scan v tools js ds) = map poisoning_finding js @ map drift_finding ds"
  by (simp add: from_scan_def Let_def)

lemma write_out_wrote: "write_out e (Some p) c = (None, eff) \<Longrightarrow> Wrote p c \<in> set eff"
  by (auto simp: write_out_def split: option.splits)

lemma emit_report_wrote:
  assumes "emit_report e r opt = (None, eff)"
  shows "so_json_out opt = Some p \<longrightarrow> Wrote p (se_print_report e r) \<in> set eff"
    and "so_sarif_out opt = Some p \<longrightarrow> Wrote p (se_print_json e (to_sarif r (sr_version r))) \<in> set eff"
proof -
  obtain a b where a: "write_out e (so_json_out opt) (se_print_report e r) = (None, a)"
      and b: "write_out e (so_sarif_out opt) (se_print_json e (to_sarif r (sr_version r))) = (None, b)"
      and eff: "set a \<union> set b \<subseteq> set eff"
    using assms by (auto simp: emit_report_def Let_def split: prod.splits option.splits) blast
  show "so_json_out opt = Some p \<longrightarrow> Wrote p (se_print_report e r) \<in> set eff"
    using write_out_wrote [of e p] a eff by auto
  show "so_sarif_out opt = Some p \<longrightarrow> Wrote p (se_print_json e (to_sarif r (sr_version r))) \<in> set eff"
    using write_out_wrote [of e p] b eff by auto
qed

lemma scan_file_Inr:
  assumes "scan_file e p opt = (Inr r, eff)"
  obtains raw v ds leff weff where "se_read e p = Inr raw" "me_parse (se_mcp e) raw = Inr v"
    "lock_step e (se_tools_of e v) opt = (Inr ds, leff)"
    "r = from_scan (me_version (se_mcp e)) (se_tools_of e v) (scan_injection (se_lower e) (se_tools_of e v)) ds"
    "emit_report e r opt = (None, weff)" "set weff \<subseteq> set eff"
proof -
  obtain raw where 1: "se_read e p = Inr raw" using assms(1) by (cases "se_read e p") (simp_all add: scan_file_def)
  obtain v where 2: "me_parse (se_mcp e) raw = Inr v" using assms(1) 1 by (cases "me_parse (se_mcp e) raw") (simp_all add: scan_file_def)
  obtain beff where b: "emit_built e opt (build_scan_report e (se_tools_of e v) opt) = (Inr r, beff)" and sub1: "set beff \<subseteq> set eff"
    using assms(1) 1 2 by (auto simp: scan_file_def Let_def split: prod.splits)
  obtain d leff where l: "lock_step e (se_tools_of e v) opt = (d, leff)" by (metis surj_pair)
  obtain ds where 3: "d = Inr ds" using b l by (cases d) (simp_all add: emit_built_def build_scan_report_def Let_def)
  define r0 where "r0 = from_scan (me_version (se_mcp e)) (se_tools_of e v) (scan_injection (se_lower e) (se_tools_of e v)) ds"
  obtain x weff where w: "emit_report e r0 opt = (x, weff)" by (metis surj_pair)
  have "x = None \<and> r = r0 \<and> set weff \<subseteq> set beff"
    using b l 3 w by (cases x) (auto simp: emit_built_def build_scan_report_def r0_def Let_def)
  then show thesis using that [OF 1 2 _ _ _ _] l 3 w sub1 by (auto simp: r0_def)
qed

lemma exit_code_zero: "scan_exit_code (map_sum id max_severity r) (Some thr) = 0 \<longleftrightarrow>
    (case r of Inl _ \<Rightarrow> False | Inr report \<Rightarrow> \<not> (\<exists>f\<in>set (sr_findings report). thr \<le> fd_severity f))"
  by (cases r) (simp_all add: scan_exit_code_def should_fail_iff)

text \<open>The exit code tells a scan that could not run from one with findings and from one without.\<close>
lemma exit_code_two: "fst (mcp_scan e peer s xs) = 2 \<longleftrightarrow> isl (fail_threshold (se_lower e) xs) \<or> isl (fst (run_scan e peer s xs))"
proof (cases "fail_threshold (se_lower e) xs")
  case (Inr thr)
  obtain r eff s' where "run_scan e peer s xs = (r, eff, s')" by (metis surj_pair)
  then show ?thesis using Inr by (cases r) (simp_all add: mcp_scan_def Let_def scan_exit_code_def)
qed (simp add: mcp_scan_def)

text \<open>C33: A green \<open>mcp-scan\<close> of a saved tool list is a clean one: when the command, given a file, exits
  with 0 at a threshold, the file was read and parsed as JSON, no description among the tools found in
  it trips an injection check at a threshold up to high, the lock that was given was read, parsed and
  pins every tool it names to the fingerprint offered (and, at lower thresholds, names every tool
  offered and no other), and each report asked for was written.  The tools are those the document
  lists: a JSON document that is no listing counts as one without tools.  Scans of a live server
  are not covered: there a refused listing is green too (\<open>refused_listing_is_green\<close>).\<close>
theorem green_scan_is_clean:
  assumes "mcp_scan e peer s xs = (0, eff, s')" and "fail_threshold (se_lower e) xs = Inr (Some thr)"
    and "tools_path xs = Some p" and "scan_options xs = opt"
  shows "\<exists>raw v. se_read e p = Inr raw \<and> me_parse (se_mcp e) raw = Inr v
    \<and> (thr \<le> SevHigh \<longrightarrow> scan_injection (se_lower e) (se_tools_of e v) = [])
    \<and> (\<forall>lp. so_lock_path opt = Some lp \<and> \<not> so_write_lock opt \<longrightarrow>
         (\<exists>lraw lock. se_read e lp = Inr lraw \<and> se_parse_lock e lraw = Inr lock \<and> lock_accepts lock (se_tools_of e v) thr))
    \<and> (\<forall>q. so_json_out opt = Some q \<or> so_sarif_out opt = Some q \<longrightarrow> (\<exists>c. Wrote q c \<in> set eff))"
proof -
  obtain r reff where r: "run_scan e peer s xs = (r, reff, s')" and sub: "set reff \<subseteq> set eff"
      and z: "scan_exit_code (map_sum id max_severity r) (Some thr) = 0"
    using assms(1,2) by (auto simp: mcp_scan_def Let_def split: prod.splits sum.splits)
  obtain report where rep: "r = Inr report" and clean: "\<not> (\<exists>f\<in>set (sr_findings report). thr \<le> fd_severity f)"
    using z unfolding exit_code_zero by (auto split: sum.splits)
  have url: "flag_value ''--url'' xs = None"
    using r rep assms(3) by (auto simp: run_scan_def Let_def split: option.splits)
  then obtain feff where f: "scan_file e p opt = (Inr report, feff)" and fsub: "set feff \<subseteq> set reff"
    using r rep assms(3,4) by (auto simp: run_scan_def Let_def report_error_def split: prod.splits sum.splits)
  from scan_file_Inr [OF f] obtain raw v ds leff weff where
      s: "se_read e p = Inr raw" "me_parse (se_mcp e) raw = Inr v" "lock_step e (se_tools_of e v) opt = (Inr ds, leff)"
      and rd: "report = from_scan (me_version (se_mcp e)) (se_tools_of e v) (scan_injection (se_lower e) (se_tools_of e v)) ds"
      and w: "emit_report e report opt = (None, weff)" "set weff \<subseteq> set feff" .
  have inj: "thr \<le> SevHigh \<longrightarrow> scan_injection (se_lower e) (se_tools_of e v) = []"
    using clean unfolding rd from_scan_findings by (cases "scan_injection (se_lower e) (se_tools_of e v)") (auto simp: poisoning_finding_def)
  have lk: "\<exists>lraw lock. se_read e lp = Inr lraw \<and> se_parse_lock e lraw = Inr lock \<and> lock_accepts lock (se_tools_of e v) thr"
    if l: "so_lock_path opt = Some lp" "\<not> so_write_lock opt" for lp
  proof -
    obtain lraw lock where k: "se_read e lp = Inr lraw" "se_parse_lock e lraw = Inr lock" "ds = diff (se_tools_of e v) lock"
      using lock_step_reads [OF s(3) l] .
    have "lock_accepts lock (se_tools_of e v) thr" using clean unfolding lock_accepts_iff rd from_scan_findings k(3) by auto
    then show ?thesis using k(1,2) by blast
  qed
  have "\<exists>c. Wrote q c \<in> set eff" if "so_json_out opt = Some q \<or> so_sarif_out opt = Some q" for q
    using that emit_report_wrote [OF w(1), of q] w(2) fsub sub by blast
  then show ?thesis using s(1,2) inj lk by blast
qed

definition scan_demo :: ScanEnv where
  "scan_demo = \<lparr> se_mcp = \<lparr> me_parse = (\<lambda>_. Inr JNull), me_debug_json = (\<lambda>_. []), me_debug_str = id, me_version = ''1'' \<rparr>, se_vars = (\<lambda>_. None),
     se_read = (\<lambda>_. Inr []), se_write = (\<lambda>_. None), se_parse_lock = (\<lambda>_. Inl []), se_print_lock = (\<lambda>_. []), se_print_report = (\<lambda>_. []),
     se_print_json = (\<lambda>_. []), se_lower = id, se_tools_of = (\<lambda>_. []), se_parse_url = (\<lambda>_. None) \<rparr>"

theorem green_scan_is_clean_witness:
  "\<exists>c. Wrote ''r.json'' c \<in> set (fst (snd (mcp_scan scan_demo (\<lambda>s _ _. (Inl [], s)) () [''t.json'', ''--json-out'', ''r.json''])))"
proof -
  let ?x = "[''t.json'', ''--json-out'', ''r.json'']"
  have v: "flag_value ''--json-out'' ?x = Some ''r.json''" "flag_value ''--url'' ?x = None" "flag_value ''--fail-on'' ?x = None"
      "flag_value ''--lock'' ?x = None" "flag_value ''--sarif'' ?x = None"
    by (simp_all add: flag_value_def flag_index_def)
  have t: "tools_path ?x = Some ''t.json''" by (simp add: tools_path_def VALUE_FLAGS_def flag_index_def)
  have thr0: "fail_threshold lower ?x = Inr (Some SevHigh)" for lower by (simp add: fail_threshold_def v)
  note thr = thr0 [of "se_lower scan_demo"]
  obtain eff where m: "mcp_scan scan_demo (\<lambda>s _ _. (Inl [], s)) () ?x = (0, eff, ())"
    by (simp add: mcp_scan_def thr0 run_scan_def t v scan_file_def scan_demo_def scan_options_def build_scan_report_def lock_step_def
        emit_built_def emit_report_def write_out_def report_error_def Let_def scan_injection_def from_scan_def scan_exit_code_def should_fail_def max_severity_def)
  have j: "so_json_out (scan_options ?x) = Some ''r.json''" by (simp add: scan_options_def v)
  have "\<forall>q. so_json_out (scan_options ?x) = Some q \<or> so_sarif_out (scan_options ?x) = Some q \<longrightarrow> (\<exists>c. Wrote q c \<in> set eff)"
    using green_scan_is_clean [OF m thr t refl] by (elim exE conjE)
  from this [rule_format, OF disjI1, OF j] show ?thesis by (simp only: m fst_conv snd_conv)
qed

section \<open>What a scan does not see\<close>

text \<open>
  A live server that answers the listing with a JSON-RPC error has no tools for the scan: without
  the exposure checks the command reports a clean scan and exits with 0.
\<close>
lemma refused_listing_is_green:
  assumes "fetch_tools_list (se_mcp e) peer (mcp_config_new (se_vars e) url) s = (Inr v, s1)" and "se_tools_of e v = []"
    and "tools_path xs = None" "flag_value ''--url'' xs = Some url" "flag_value ''--lock'' xs = None" "''--skip-exposure'' \<in> set xs"
    and "flag_value ''--json-out'' xs = None" "flag_value ''--sarif'' xs = None" "fail_threshold (se_lower e) xs = Inr thr"
  shows "fst (mcp_scan e peer s xs) = 0"
proof -
  have "fst (run_scan e peer s xs) = Inr (from_scan (me_version (se_mcp e)) [] [] [])"
    using assms(1-8)
    by (simp add: run_scan_def scan_live_def Let_def build_scan_report_def lock_step_def scan_options_def add_exposure_def emit_built_def
        emit_report_def write_out_def report_error_def scan_injection_def split: prod.splits)
  then show ?thesis
    using assms(9) by (auto simp: mcp_scan_def Let_def scan_exit_code_def should_fail_def max_severity_def from_scan_def split: prod.splits)
qed

text \<open>An answer with neither tools nor a result lists none, whatever else it says.\<close>
lemma error_lists_no_tools: "json_get ''tools'' v = None \<Longrightarrow> json_get ''result'' v = None \<Longrightarrow> parse_tools hash print v = []"
  by (simp add: parse_tools_def)

end
