(* ===== verification/TraceCli.thy ===== *)
theory TraceCli
  imports FocusExport Savings Outcomes Backtest Compliance NumParse
begin

text \<open>
  The reports over the recorded trace: \<open>load_calls\<close> of \<open>sqlq.rs\<close>, and the commands
  \<open>savings\<close> (\<open>savingscli.rs\<close>), \<open>compliance\<close> (\<open>compliancecli.rs\<close>), \<open>outcomes\<close> (\<open>outcomescli.rs\<close>)
  and \<open>backtest\<close> (\<open>backtestcli.rs\<close>).  A command is a function from what the SQL engine and
  the files answer to the lines it prints.
\<close>

section \<open>Loading calls\<close>

definition calls_sql :: "i64 option \<Rightarrow> i64 option \<Rightarrow> string" where
  "calls_sql lo hi = ''select run_id, decision, cast(cost_microusd as bigint) as cost, cast(coalesce(saved_microusd, 0) as bigint) as saved from calls'' @ window_sql lo hi"

definition savings_call :: "cell list \<Rightarrow> SavingsCall" where
  "savings_call r = \<lparr> sc_run = str_at r 0, sc_decision = str_at r 1, sc_cost = i64_at r 2, sc_saved = i64_at r 3 \<rparr>"

definition load_calls :: "sql_engine \<Rightarrow> string \<Rightarrow> i64 option \<Rightarrow> i64 option \<Rightarrow> (string, SavingsCall list) result" where
  "load_calls query dir lo hi = (case query (calls_sql lo hi) dir of
     Inl e \<Rightarrow> Inl e
   | Inr rows \<Rightarrow>
       if \<not> column_is Int64 2 rows then Inl ''cost column type''
       else if \<not> column_is Int64 3 rows then Inl ''saved column type''
       else Inr (map savings_call rows))"

definition outcome_sql :: "i64 option \<Rightarrow> i64 option \<Rightarrow> string" where
  "outcome_sql lo hi = ''select run_id, decision, cast(cost_microusd as bigint) as cost, coalesce(outcome, '' @ sql_empty @ '') as outcome, step from calls''
     @ window_sql lo hi"

definition outcome_call :: "cell list \<Rightarrow> OutcomeCall" where
  "outcome_call r = \<lparr> ocl_run = str_at r 0, ocl_decision = str_at r 1, ocl_cost = i64_at r 2, ocl_outcome = str_at r 3, ocl_step = u32_at r 4 \<rparr>"

definition load_outcome_calls :: "sql_engine \<Rightarrow> string \<Rightarrow> i64 option \<Rightarrow> i64 option \<Rightarrow> (string, OutcomeCall list) result" where
  "load_outcome_calls query dir lo hi = (case query (outcome_sql lo hi) dir of
     Inl e \<Rightarrow> Inl e
   | Inr rows \<Rightarrow>
       if \<not> column_is Int64 2 rows then Inl ''cost column type''
       else if \<not> column_is UInt32 4 rows then Inl ''step column type''
       else Inr (map outcome_call rows))"

definition backtest_sql :: string where
  "backtest_sql = ''select run_id, cast(step as bigint) as step, cast(cost_microusd as bigint) as cost from calls''"

definition backtest_call :: "cell list \<Rightarrow> BacktestCall" where
  "backtest_call r = \<lparr> bc_run = str_at r 0, bc_step = wrap_u32 (nat (max (i64_at r 1) 0)), bc_cost = i64_at r 2 \<rparr>"

definition load_backtest_calls :: "sql_engine \<Rightarrow> string \<Rightarrow> (string, BacktestCall list) result" where
  "load_backtest_calls query dir = (case query backtest_sql dir of
     Inl e \<Rightarrow> Inl e
   | Inr rows \<Rightarrow>
       if \<not> column_is Int64 1 rows then Inl ''step column type''
       else if \<not> column_is Int64 2 rows then Inl ''cost column type''
       else Inr (map backtest_call rows))"

section \<open>Savings\<close>

definition savings_empty :: "string \<Rightarrow> string list" where
  "savings_empty dir = [''TokenFuse savings '' @ EM_DASH @ '' no trace yet at '' @ dir,
     ''  set TOKENFUSE_DATA_DIR and run some traffic, then try again.'']"

definition savings_lines :: "string \<Rightarrow> SavingsReport \<Rightarrow> string list" where
  "savings_lines dir r =
     [''TokenFuse savings '' @ EM_DASH @ '' from '' @ dir,
      ''  runaway spend stopped:   '' @ microusd_display (rp_blocked_spend r) @ ''   ('' @ nat_str (rp_blocked_calls r)
        @ '' blocked call(s) across '' @ nat_str (rp_breaks_prevented r) @ '' budget break(s))'',
      ''  cache saved:             '' @ microusd_display (rp_cache_saved r),
      ''  router saved:            '' @ microusd_display (rp_router_saved r)]
     @ map (\<lambda>(reason, spend). ''    '' @ pad_end 16 reason @ '' '' @ microusd_display spend) (fm_items (rp_by_reason r))"

text \<open>A trace that cannot be read counts as one that is empty.\<close>
definition savings_run :: "sql_engine \<Rightarrow> string \<Rightarrow> string list" where
  "savings_run query dir = (case load_calls query dir None None of
     Inl _ \<Rightarrow> savings_empty dir
   | Inr rs \<Rightarrow> if rs = [] then savings_empty dir else savings_lines dir (compute_savings rs))"

section \<open>Compliance\<close>

record ComplianceArgs =
  ca_since :: "i64 option"
  ca_until :: "i64 option"
  ca_json :: bool
  ca_markdown :: bool
  ca_scan_report :: "string option"

definition compliance_args_default :: ComplianceArgs where
  "compliance_args_default = \<lparr> ca_since = None, ca_until = None, ca_json = False, ca_markdown = False, ca_scan_report = None \<rparr>"

text \<open>\<open>it.next()\<close> after a flag that takes a value.\<close>
definition next_arg :: "string list \<Rightarrow> string option" where
  "next_arg xs = (case xs of v # _ \<Rightarrow> Some v | [] \<Rightarrow> None)"

fun compliance_args :: "string list \<Rightarrow> ComplianceArgs \<Rightarrow> ComplianceArgs" where
  "compliance_args [] a = a"
| "compliance_args (x # xs) a =
     (if x = ''--since'' then compliance_args (tl xs) (a\<lparr>ca_since := Option.bind (next_arg xs) parse_i64\<rparr>)
      else if x = ''--until'' then compliance_args (tl xs) (a\<lparr>ca_until := Option.bind (next_arg xs) parse_i64\<rparr>)
      else if x = ''--json'' then compliance_args xs (a\<lparr>ca_json := True\<rparr>)
      else if x = ''--markdown'' then compliance_args xs (a\<lparr>ca_markdown := True\<rparr>)
      else if x = ''--scan-report'' then compliance_args (tl xs) (a\<lparr>ca_scan_report := next_arg xs\<rparr>)
      else compliance_args xs a)"

definition load_findings :: "(string \<Rightarrow> (string, string) result) \<Rightarrow> (string \<Rightarrow> (string, ScanReport) result) \<Rightarrow> string \<Rightarrow> (string, Finding list) result" where
  "load_findings read parse path = (case read path of
     Inl e \<Rightarrow> Inl (''read '' @ path @ '': '' @ e)
   | Inr raw \<Rightarrow> (case parse raw of
       Inl e \<Rightarrow> Inl (''parse '' @ path @ '': '' @ e)
     | Inr report \<Rightarrow> Inr (sr_findings report)))"

definition enf_label :: "Enforcement \<Rightarrow> string" where
  "enf_label e = (case e of Enforced \<Rightarrow> ''enforced'' | Partial \<Rightarrow> ''partial'' | Documented \<Rightarrow> ''documented'')"

definition enf_heading :: "Enforcement \<Rightarrow> string" where
  "enf_heading e = (case e of Enforced \<Rightarrow> ''ENFORCED'' | Partial \<Rightarrow> ''PARTIAL'' | Documented \<Rightarrow> ''DOCUMENTED'')"

definition evidence_summary :: "ControlEvidence \<Rightarrow> string" where
  "evidence_summary c =
     (let parts = map (\<lambda>(k, v). k @ ''='' @ nat_str v) (ce_decision_counts c)
                @ map (\<lambda>(k, v). k @ ''='' @ nat_str v) (ce_finding_counts c)
                @ (if 0 < ce_incident_count c then [''incidents='' @ nat_str (ce_incident_count c)] else [])
      in if parts = [] then EM_DASH else join '', '' parts)"

text \<open>The first occurrence of each framework id.\<close>
definition frameworks_for :: "string \<Rightarrow> string" where
  "frameworks_for cid = (case List.find (\<lambda>c. control_id c = cid) CATALOG of
     None \<Rightarrow> []
   | Some c \<Rightarrow> join '', '' (fold (\<lambda>f ids. if fst f \<in> set ids then ids else ids @ [fst f]) (frameworks c) []))"

definition covered_mark :: "ControlEvidence \<Rightarrow> string" where
  "covered_mark c = (if covered c then (if evidence_seen c then ''[x]'' else ''[~]'') else ''[ ]'')"

definition covered_word :: "ControlEvidence \<Rightarrow> string" where
  "covered_word c = (if covered c then (if evidence_seen c then ''yes'' else ''yes (no events)'') else ''no'')"

definition control_lines :: "ControlEvidence \<Rightarrow> string list" where
  "control_lines c = [''  '' @ covered_mark c @ '' '' @ pad_end 16 (ce_control_id c) @ '' '' @ ce_title c, ''        evidence: '' @ evidence_summary c]"

definition group_lines :: "ComplianceReport \<Rightarrow> Enforcement \<Rightarrow> string list" where
  "group_lines r e =
     (let g = filter (\<lambda>c. ce_enforcement c = e) (cr_controls r)
      in if g = [] then [] else [enf_heading e @ '':''] @ concat (map control_lines g) @ [[]])"

definition MIDDLE_DOT :: string where "MIDDLE_DOT = [CHR 0xC2, CHR 0xB7]"

definition human_lines :: "string \<Rightarrow> ComplianceReport \<Rightarrow> string list" where
  "human_lines dir r =
     [''TokenFuse compliance '' @ EM_DASH @ '' from '' @ dir,
      ''  '' @ nat_str (decisions_total r) @ '' decision(s) and '' @ nat_str (findings_total r) @ '' finding(s) in scope'', []]
     @ concat (map (group_lines r) [Enforced, Partial, Documented])
     @ [''Legend: [x] covered, evidence seen  '' @ MIDDLE_DOT @ ''  [~] active guard, no events  '' @ MIDDLE_DOT @ ''  [ ] not covered'', [],
        generated_note r, [], ''Frameworks (versions pinned at mapping time):'']
     @ map (\<lambda>(i, name, ver). ''  '' @ pad_end 14 i @ '' '' @ name @ '' '' @ EM_DASH @ '' '' @ ver) (framework_versions r)"

definition markdown_row :: "ControlEvidence \<Rightarrow> string" where
  "markdown_row c = ''| `'' @ ce_control_id c @ ''` '' @ ce_title c @ '' | '' @ enf_label (ce_enforcement c) @ '' | ''
     @ frameworks_for (ce_control_id c) @ '' | '' @ evidence_summary c @ '' | '' @ covered_word c @ '' |''"

definition markdown_lines :: "ComplianceReport \<Rightarrow> string list" where
  "markdown_lines r =
     [''| Control | Enforcement | Frameworks | Evidence | Covered |'', ''| --- | --- | --- | --- | --- |'']
     @ map markdown_row (cr_controls r) @ [[], ''_'' @ generated_note r @ ''_'']"

definition no_trace_lines :: "string \<Rightarrow> string list" where
  "no_trace_lines dir = [''TokenFuse compliance '' @ EM_DASH @ '' no trace yet at '' @ dir,
     ''  showing the controls TokenFuse enforces; run some traffic (and optionally pass'',
     ''  --scan-report <mcp-scan.json>) to attach runtime evidence, then try again.'', []]"

definition compliance_run ::
  "sql_engine \<Rightarrow> (string \<Rightarrow> (string, string) result) \<Rightarrow> (string \<Rightarrow> (string, ScanReport) result) \<Rightarrow> (ComplianceReport \<Rightarrow> string)
     \<Rightarrow> string \<Rightarrow> ComplianceArgs \<Rightarrow> (string, string list) result" where
  "compliance_run query read parse to_json dir a =
     (case (case ca_scan_report a of Some path \<Rightarrow> load_findings read parse path | None \<Rightarrow> Inr []) of
        Inl e \<Rightarrow> Inl e
      | Inr findings \<Rightarrow>
          let rs = (case load_calls query dir (ca_since a) (ca_until a) of Inl _ \<Rightarrow> [] | Inr cs \<Rightarrow> cs);
              report = compute_compliance CATALOG rs findings
          in Inr (if ca_json a then [to_json report]
                  else if ca_markdown a then markdown_lines report
                  else (if rs = [] \<and> findings = [] then no_trace_lines dir else []) @ human_lines dir report))"

section \<open>Outcomes\<close>

record OutcomesArgs =
  og_traces :: "string option"
  og_from :: "string option"
  og_to :: "string option"
  og_json :: bool

definition outcomes_args_default :: OutcomesArgs where
  "outcomes_args_default = \<lparr> og_traces = None, og_from = None, og_to = None, og_json = False \<rparr>"

fun outcomes_args :: "string list \<Rightarrow> OutcomesArgs \<Rightarrow> OutcomesArgs" where
  "outcomes_args [] a = a"
| "outcomes_args (x # xs) a =
     (if x = ''--traces'' then outcomes_args (tl xs) (a\<lparr>og_traces := next_arg xs\<rparr>)
      else if x = ''--from'' then outcomes_args (tl xs) (a\<lparr>og_from := next_arg xs\<rparr>)
      else if x = ''--to'' then outcomes_args (tl xs) (a\<lparr>og_to := next_arg xs\<rparr>)
      else if x = ''--json'' then outcomes_args xs (a\<lparr>og_json := True\<rparr>)
      else outcomes_args xs a)"

definition table_line :: "string \<Rightarrow> string list \<Rightarrow> string" where
  "table_line label cells = join '' '' ((''  '' @ pad_end 28 label) # map (\<lambda>(n, c). pad_start n c) (zip [6, 14, 14, 8, 8] cells))"

definition outcome_line :: "OutcomeRow \<Rightarrow> string" where
  "outcome_line r = table_line (case or_outcome r of Some t \<Rightarrow> t | None \<Rightarrow> ''(untagged)'')
     [nat_str (or_runs r), microusd_display (or_total_cost r), microusd_display (mean_cost_microusd r), nat_str (or_calls r), nat_str (or_blocked_calls r)]"

definition outcome_lines :: "string \<Rightarrow> OutcomeRow list \<Rightarrow> string list" where
  "outcome_lines dir rs = [''TokenFuse outcomes '' @ EM_DASH @ '' from '' @ dir, table_line ''OUTCOME'' [''RUNS'', ''TOTAL'', ''MEAN/RUN'', ''CALLS'', ''BLOCKED'']]
     @ map outcome_line rs"

definition outcomes_run :: "sql_engine \<Rightarrow> (OutcomeRow list \<Rightarrow> (string, string) result) \<Rightarrow> OutcomesArgs \<Rightarrow> (string, string list) result" where
  "outcomes_run query to_json a = (case og_traces a of
     None \<Rightarrow> Inl ''missing --traces <dir-or-glob>''
   | Some traces \<Rightarrow> (case window_bound ''--from'' (og_from a) of
     Inl e \<Rightarrow> Inl e
   | Inr lo \<Rightarrow> (case window_bound ''--to'' (og_to a) of
     Inl e \<Rightarrow> Inl e
   | Inr hi \<Rightarrow> (case load_outcome_calls query traces lo hi of
     Inl e \<Rightarrow> Inl (''could not read traces at '' @ [CHR 0x27] @ traces @ [CHR 0x27] @ '': '' @ e)
   | Inr rs \<Rightarrow>
       if rs = [] then Inl (''no calls found in the trace at '' @ [CHR 0x27] @ traces @ [CHR 0x27]
         @ (if lo \<noteq> None \<or> hi \<noteq> None then '' in the given --from/--to window'' else [])
         @ '' '' @ EM_DASH @ '' nothing to report'')
       else if og_json a then map_sum id (\<lambda>j. [j]) (to_json (compute_outcomes rs))
       else Inr (outcome_lines traces (compute_outcomes rs))))))"

section \<open>Backtest\<close>

definition parse_u32_arg :: "string list \<Rightarrow> u32 option" where
  "parse_u32_arg xs = Option.bind (next_arg xs) parse_u32"

text \<open>\<open>(v * 1e6) as i64\<close>.\<close>
definition usd_arg :: "string list \<Rightarrow> i64 option" where
  "usd_arg xs = map_option (\<lambda>v. f64_to_i64 (f64_mul v (Fin 1000000))) (Option.bind (next_arg xs) parse_f64)"

fun parse_policy :: "string list \<Rightarrow> BacktestPolicy \<Rightarrow> BacktestPolicy" where
  "parse_policy [] p = p"
| "parse_policy (x # xs) p =
     (if x = ''--budget'' then parse_policy (tl xs) (case usd_arg xs of Some v \<Rightarrow> p\<lparr>budget_per_run := Some v\<rparr> | None \<Rightarrow> p)
      else if x = ''--budget-per-step'' then parse_policy (tl xs) (case usd_arg xs of Some v \<Rightarrow> p\<lparr>budget_per_step := Some v\<rparr> | None \<Rightarrow> p)
      else if x = ''--max-steps'' then parse_policy (tl xs) (case parse_u32_arg xs of Some v \<Rightarrow> p\<lparr>bp_max_steps := Some v\<rparr> | None \<Rightarrow> p)
      else parse_policy xs p)"

definition backtest_policy_default :: BacktestPolicy where
  "backtest_policy_default = \<lparr> budget_per_run = None, budget_per_step = None, bp_max_steps = None \<rparr>"

definition describe :: "BacktestPolicy \<Rightarrow> string" where
  "describe p = join '', ''
     ((case budget_per_run p of Some b \<Rightarrow> [''budget/run $'' @ f64_fixed 4 (as_usd b)] | None \<Rightarrow> [])
    @ (case budget_per_step p of Some s \<Rightarrow> [''budget/step $'' @ f64_fixed 4 (as_usd s)] | None \<Rightarrow> [])
    @ (case bp_max_steps p of Some m \<Rightarrow> [''max_steps '' @ nat_str m] | None \<Rightarrow> []))"

text \<open>\<open>x as f64 / y as f64 * 100.0\<close>, for a positive \<open>y\<close>.\<close>
definition percent_of :: "i64 \<Rightarrow> i64 \<Rightarrow> f64" where
  "percent_of x y = (if 0 < y then (case f64_of_int y of Fin d \<Rightarrow> f64_mul (f64_div_const (f64_of_int x) d) (Fin 100) | z \<Rightarrow> z) else Fin 0)"

definition backtest_lines :: "BacktestPolicy \<Rightarrow> BacktestReport \<Rightarrow> string list" where
  "backtest_lines p r =
     [''TokenFuse backtest'',
      ''  candidate policy   : '' @ describe p,
      ''  runs               : '' @ nat_str (bt_runs_total r) @ '' ('' @ nat_str (bt_runs_affected r) @ '' affected)'',
      ''  calls              : '' @ nat_str (bt_calls_total r) @ '' ('' @ nat_str (bt_calls_blocked r) @ '' would be blocked)'',
      ''  spend in trace     : $'' @ usd_string (bt_spent r),
      ''  would have saved   : $'' @ usd_string (bt_saved r) @ '' ('' @ f64_fixed 1 (percent_of (bt_saved r) (bt_spent r)) @ ''%)'',
      ''  projected spend    : $'' @ usd_string (projected_microusd r)]"

text \<open>What is printed, on which stream.\<close>
datatype Printed = Stdout "string list" | Stderr "string list"

definition backtest_run :: "sql_engine \<Rightarrow> string \<Rightarrow> BacktestPolicy \<Rightarrow> (string, Printed) result" where
  "backtest_run query dir p =
     (if backtest_policy_is_empty p
      then Inr (Stderr [''no candidate policy given. Try: tokenfuse backtest --budget 2.0 --max-steps 20''])
      else (case load_backtest_calls query dir of
        Inl e \<Rightarrow> Inl e
      | Inr rs \<Rightarrow>
          if rs = [] then Inr (Stdout [''no calls in the trace at '' @ dir])
          else Inr (Stdout (backtest_lines p (backtest rs p)))))"

section \<open>The reports are those of the calls recorded\<close>

text \<open>
  What a query of the \<open>calls\<close> table means: a row for each recorded call the condition keeps, in an
  order of the engine's choosing, since none of these queries orders its rows.
\<close>
definition answers :: "sql_engine \<Rightarrow> string \<Rightarrow> string \<Rightarrow> (CallRecord \<Rightarrow> bool) \<Rightarrow> (CallRecord \<Rightarrow> cell list) \<Rightarrow> CallRecord list \<Rightarrow> bool" where
  "answers query sql dir P row recs \<longleftrightarrow>
     (case query sql dir of Inl _ \<Rightarrow> False | Inr rows \<Rightarrow> mset rows = mset (map row (filter P recs)))"

definition in_window :: "i64 option \<Rightarrow> i64 option \<Rightarrow> CallRecord \<Rightarrow> bool" where
  "in_window lo hi r \<longleftrightarrow> (case lo of Some f \<Rightarrow> f \<le> ts_millis r | None \<Rightarrow> True) \<and> (case hi of Some t \<Rightarrow> ts_millis r \<le> t | None \<Rightarrow> True)"

definition savings_cells :: "CallRecord \<Rightarrow> cell list" where
  "savings_cells r = [CUtf8 (cr_run_id r), CUtf8 (cr_decision r), CInt64 (cost_microusd r), CInt64 (saved_microusd r)]"

definition outcome_cells :: "CallRecord \<Rightarrow> cell list" where
  "outcome_cells r = [CUtf8 (cr_run_id r), CUtf8 (cr_decision r), CInt64 (cost_microusd r), CUtf8 (cr_outcome r), CUInt32 (cr_step r)]"

definition savings_of :: "CallRecord \<Rightarrow> SavingsCall" where
  "savings_of r = \<lparr> sc_run = cr_run_id r, sc_decision = cr_decision r, sc_cost = cost_microusd r, sc_saved = saved_microusd r \<rparr>"

definition outcome_of :: "CallRecord \<Rightarrow> OutcomeCall" where
  "outcome_of r = \<lparr> ocl_run = cr_run_id r, ocl_decision = cr_decision r, ocl_cost = cost_microusd r, ocl_outcome = cr_outcome r, ocl_step = cr_step r \<rparr>"

lemma column_is_mset: "mset rows = mset (map f recs) \<Longrightarrow> (\<And>r. cell_type (f r ! i) = Some t) \<Longrightarrow> column_is t i rows"
  using mset_eq_setD [of rows "map f recs"] by (auto simp: column_is_def list_all_iff)

lemma savings_cells_call [simp]: "savings_call (savings_cells r) = savings_of r"
  by (simp add: savings_call_def savings_cells_def savings_of_def str_at_def i64_at_def numeral_eq_Suc)

lemma outcome_cells_call [simp]: "outcome_call (outcome_cells r) = outcome_of r"
  by (simp add: outcome_call_def outcome_cells_def outcome_of_def str_at_def i64_at_def u32_at_def numeral_eq_Suc)

text \<open>Reading the rows of a query and converting them commute with the order of the rows.\<close>
lemma mset_rows_map:
  assumes "mset rows = mset (map f recs)" and "\<And>r. g (f r) = h r"
  shows "mset (map g rows) = mset (map h recs)"
proof -
  have "mset (map g rows) = image_mset g (mset (map f recs))" using assms(1) by (simp only: mset_map)
  then show ?thesis using assms(2) by (simp add: multiset.map_comp comp_def)
qed

lemma load_calls_answers:
  assumes "answers query (calls_sql lo hi) dir (in_window lo hi) savings_cells recs"
  obtains cs where "load_calls query dir lo hi = Inr cs" "mset cs = mset (map savings_of (filter (in_window lo hi) recs))"
proof -
  obtain rows where q: "query (calls_sql lo hi) dir = Inr rows" and m: "mset rows = mset (map savings_cells (filter (in_window lo hi) recs))"
    using assms by (auto simp: answers_def split: sum.splits)
  have "column_is Int64 2 rows" "column_is Int64 3 rows"
    by (rule column_is_mset [OF m], simp add: savings_cells_def numeral_eq_Suc)+
  then have "load_calls query dir lo hi = Inr (map savings_call rows)" by (simp add: load_calls_def q)
  moreover have "mset (map savings_call rows) = mset (map savings_of (filter (in_window lo hi) recs))"
    by (rule mset_rows_map [OF m]) simp
  ultimately show thesis using that by blast
qed

lemma load_outcome_calls_answers:
  assumes "answers query (outcome_sql lo hi) dir (in_window lo hi) outcome_cells recs"
  obtains cs where "load_outcome_calls query dir lo hi = Inr cs" "mset cs = mset (map outcome_of (filter (in_window lo hi) recs))"
proof -
  obtain rows where q: "query (outcome_sql lo hi) dir = Inr rows" and m: "mset rows = mset (map outcome_cells (filter (in_window lo hi) recs))"
    using assms by (auto simp: answers_def split: sum.splits)
  have "column_is Int64 2 rows" "column_is UInt32 4 rows"
    by (rule column_is_mset [OF m], simp add: outcome_cells_def numeral_eq_Suc)+
  then have "load_outcome_calls query dir lo hi = Inr (map outcome_call rows)" by (simp add: load_outcome_calls_def q)
  moreover have "mset (map outcome_call rows) = mset (map outcome_of (filter (in_window lo hi) recs))"
    by (rule mset_rows_map [OF m]) simp
  ultimately show thesis using that by blast
qed

section \<open>The savings report does not depend on the order of the rows\<close>

lemma mset_sum_list: "mset xs = mset ys \<Longrightarrow> sum_list (map f xs) = sum_list (map f (ys :: 'a list) :: int list)"
  by (metis mset_map sum_mset_sum_list)

lemma mset_filter_eq: "mset xs = mset ys \<Longrightarrow> mset (filter P xs) = mset (filter P ys)"
  by simp

lemma compute_savings_mset:
  assumes "mset xs = mset ys" shows "compute_savings xs = compute_savings ys"
proof -
  let ?a = "fold savings_step xs savings_loop_init" and ?b = "fold savings_step ys savings_loop_init"
  have c: "mset (calls_with d xs) = mset (calls_with d ys)" "mset (protected_calls xs) = mset (protected_calls ys)" for d
    using assms by (simp_all add: calls_with_def protected_calls_def)
  note s = c(1) [THEN mset_sum_list] c(2) [THEN mset_sum_list] c(2) [THEN mset_eq_length] c(2) [THEN mset_eq_setD]
  have e: "calls_with d xs \<noteq> [] \<longleftrightarrow> calls_with d ys \<noteq> []" for d
    using c(1) [of d] by (metis mset_zero_iff)
  have "lp_blocked ?a = lp_blocked ?b" "lp_calls ?a = lp_calls ?b" "lp_cache ?a = lp_cache ?b" "lp_router ?a = lp_router ?b"
    using savings_loop_sums [of xs] savings_loop_sums [of ys] s by simp_all
  moreover have "fset (lp_breaks ?a) = fset (lp_breaks ?b)"
    using savings_loop_sums [of xs] savings_loop_sums [of ys] s(4) by simp
  then have "lp_breaks ?a = lp_breaks ?b" by (simp add: fset_inject)
  moreover have "fmlookup (lp_reasons ?a) d = fmlookup (lp_reasons ?b) d" for d
    using savings_loop_sums [of xs] savings_loop_sums [of ys] mset_sum_list [OF c(1) [of d], of sc_cost] e [of d] by simp
  then have "lp_reasons ?a = lp_reasons ?b" by (rule fmap_ext)
  ultimately show ?thesis by (simp add: compute_savings_def Let_def)
qed

text \<open>
  The savings report printed over a trace is that of the calls recorded in it, whatever order
  the engine returns them in.
\<close>
theorem savings_report_of_the_trace:
  assumes "answers query (calls_sql None None) dir (in_window None None) savings_cells recs" and "recs \<noteq> []"
  shows "savings_run query dir = savings_lines dir (compute_savings (map savings_of recs))"
proof -
  obtain cs where l: "load_calls query dir None None = Inr cs" and m: "mset cs = mset (map savings_of (filter (in_window None None) recs))"
    using load_calls_answers [OF assms(1)] .
  have f: "filter (in_window None None) recs = recs" by (simp add: in_window_def)
  have "cs \<noteq> []" using m assms(2) unfolding f by (metis list.map_disc_iff mset_zero_iff)
  then show ?thesis using compute_savings_mset [of cs "map savings_of recs"] m unfolding f by (simp add: savings_run_def l)
qed

text \<open>The engine that stores the cells of the records themselves.\<close>
definition plain_engine :: "CallRecord list \<Rightarrow> sql_engine" where
  "plain_engine recs sql dir = Inr (map savings_cells (rev recs))"

theorem savings_report_of_the_trace_witness:
  "savings_run (plain_engine [demo_call]) ''d'' = savings_lines ''d'' (compute_savings [savings_of demo_call])"
  using savings_report_of_the_trace [of "plain_engine [demo_call]" "''d''" "[demo_call]"]
  by (simp add: answers_def plain_engine_def in_window_def)

section \<open>The compliance report\<close>

lemma bumps_map_of:
  "map_of (fold (\<lambda>c. bump_count (f c)) cs []) k
     = (if \<exists>c\<in>set cs. f c = k then Some (wrap_u64 (length (filter (\<lambda>c. f c = k) cs))) else None)"
proof -
  let ?m = "fold (\<lambda>c. bump_count (f c)) cs []"
  have keys: "fst ` set ?m = f ` set cs"
    by (induction cs rule: rev_induct) (auto simp: bump_count_def keys_bt_insert)
  show ?thesis
  proof (cases "\<exists>c\<in>set cs. f c = k")
    case True
    then have "k \<in> fst ` set ?m" using keys by auto
    then obtain n where n: "map_of ?m k = Some n" by (metis map_of_eq_None_iff not_Some_eq)
    then show ?thesis using count_of_bumps [of f cs k] True by (simp add: count_of_def)
  next
    case False
    then have "k \<notin> fst ` set ?m" using keys by auto
    then have "map_of ?m k = None" by (simp add: map_of_eq_None_iff)
    then show ?thesis using False by simp
  qed
qed

lemma bumps_sorted: "sorted_wrt (<) (map fst (fold (\<lambda>c. bump_count (f c)) cs []))"
  by (induction cs rule: rev_induct) (simp_all add: bump_count_def sorted_bt_insert)

lemma sorted_assoc_unique:
  fixes a b :: "('k::linorder \<times> 'v) list"
  assumes "sorted_wrt (<) (map fst a)" "sorted_wrt (<) (map fst b)" "map_of a = map_of b"
  shows "a = b"
proof -
  have d: "distinct (map fst a)" "distinct (map fst b)" "sorted (map fst a)" "sorted (map fst b)"
    using assms(1,2) by (simp_all only: strict_sorted_iff)
  have "set a = set b" using map_of_inject_set [OF d(1,2)] assms(3) by simp
  moreover have "inj_on fst (set a \<union> set b)" using calculation d(1) by (simp add: distinct_map)
  ultimately show ?thesis using d by (intro map_sorted_distinct_set_unique [of fst]) simp_all
qed

lemma bumps_mset:
  assumes "mset xs = mset ys"
  shows "fold (\<lambda>c. bump_count (f c)) xs [] = fold (\<lambda>c. bump_count (f c)) ys []"
proof (rule sorted_assoc_unique [OF bumps_sorted bumps_sorted], rule ext)
  fix k
  have "length (filter (\<lambda>c. f c = k) xs) = length (filter (\<lambda>c. f c = k) ys)"
    using assms by (intro mset_eq_length) simp
  then show "map_of (fold (\<lambda>c. bump_count (f c)) xs []) k = map_of (fold (\<lambda>c. bump_count (f c)) ys []) k"
    using mset_eq_setD [OF assms] by (simp add: bumps_map_of)
qed

lemma compute_compliance_mset: "mset xs = mset ys \<Longrightarrow> compute_compliance cat xs fs = compute_compliance cat ys fs"
  by (simp add: compute_compliance_def bumps_mset [of xs ys])

text \<open>The report the command prints as JSON is that of the calls of the window and of the scan's findings.\<close>
theorem compliance_report_of_the_trace:
  assumes "answers query (calls_sql (ca_since a) (ca_until a)) dir (in_window (ca_since a) (ca_until a)) savings_cells recs"
    and "ca_json a" and "ca_scan_report a = None"
  shows "compliance_run query read parse to_json dir a
    = Inr [to_json (compute_compliance CATALOG (map savings_of (filter (in_window (ca_since a) (ca_until a)) recs)) [])]"
proof -
  obtain cs where l: "load_calls query dir (ca_since a) (ca_until a) = Inr cs"
      and m: "mset cs = mset (map savings_of (filter (in_window (ca_since a) (ca_until a)) recs))"
    using load_calls_answers [OF assms(1)] .
  show ?thesis
    using compute_compliance_mset [OF m] assms(2,3) by (simp add: compliance_run_def l)
qed

theorem compliance_report_of_the_trace_witness:
  "compliance_run (plain_engine [demo_call]) (\<lambda>_. Inl []) (\<lambda>_. Inl []) generated_note ''d'' (compliance_args_default\<lparr>ca_json := True\<rparr>) = Inr [DISCLAIMER]"
  using compliance_report_of_the_trace
    [of "plain_engine [demo_call]" "compliance_args_default\<lparr>ca_json := True\<rparr>" "''d''" "[demo_call]" "\<lambda>_. Inl []" "\<lambda>_. Inl []" generated_note]
  by (simp add: answers_def plain_engine_def in_window_def compliance_args_default_def compute_compliance_def compute_compliance_from_counts_def)

lemma compliance_needs_its_scan_report:
  "ca_scan_report a = Some path \<Longrightarrow> load_findings read parse path = Inl e \<Longrightarrow> compliance_run query read parse to_json dir a = Inl e"
  by (simp add: compliance_run_def)

section \<open>The outcome report\<close>

text \<open>The tagged calls of a run have steps of their own.\<close>
definition tags_ordered :: "OutcomeCall list \<Rightarrow> bool" where
  "tags_ordered cs \<longleftrightarrow> inj_on (\<lambda>c. (ocl_run c, ocl_step c)) {c \<in> set cs. ocl_outcome c \<noteq> []}"

lemma run_tag_mset:
  assumes "mset xs = mset ys" and "tags_ordered xs" shows "run_tag xs run = run_tag ys run"
proof -
  let ?f = "\<lambda>cs. filter (\<lambda>c. ocl_outcome c \<noteq> []) (filter (\<lambda>c. ocl_run c = run) cs)"
  have "inj_on ocl_step (set (?f xs))"
    using assms(2) by (auto simp: tags_ordered_def inj_on_def)
  moreover have "mset (?f xs) = mset (?f ys)" using assms(1) by simp
  ultimately have "sort_key ocl_step (?f xs) = sort_key ocl_step (?f ys)"
    by (intro sort_key_inj_key_eq) (simp_all only: mset_sort sorted_sort_key)
  then have "tagged_calls xs run = tagged_calls ys run" by (simp only: tagged_calls_def filter_sort)
  then show ?thesis by (simp add: run_tag_def)
qed

lemma compute_outcomes_mset:
  assumes "mset xs = mset ys" and "tags_ordered xs" shows "compute_outcomes xs = compute_outcomes ys"
proof -
  have rt: "run_tag xs = run_tag ys" using run_tag_mset [OF assms] by (rule ext)
  have "tag_row xs tag = tag_row ys tag" for tag
  proof -
    let ?m = "\<lambda>cs. filter (\<lambda>c. run_tag ys (ocl_run c) = tag) cs"
    let ?s = "\<lambda>cs. filter (\<lambda>c. \<not> Outcomes.is_blocked_decision (ocl_decision c)) (?m cs)"
    have m: "mset (?m xs) = mset (?m ys)" "mset (?s xs) = mset (?s ys)" using assms(1) by simp_all
    note e = mset_eq_length [OF m(1)] mset_eq_length [OF m(2)] mset_eq_setD [OF m(1)] mset_sum_list [OF m(2)]
    show ?thesis unfolding tag_row_def Let_def rt e ..
  qed
  moreover have "report_tags xs = report_tags ys"
    unfolding report_tags_def rt mset_eq_setD [OF assms(1)] ..
  ultimately show ?thesis by (simp add: outcomes_exact)
qed

text \<open>The outcome report is that of the calls of the window, and a window without calls is an error.\<close>
theorem outcomes_report_of_the_trace:
  assumes "answers query (outcome_sql lo hi) traces (in_window lo hi) outcome_cells recs"
    and "og_traces a = Some traces" and "window_bound ''--from'' (og_from a) = Inr lo" and "window_bound ''--to'' (og_to a) = Inr hi"
    and "tags_ordered (map outcome_of (filter (in_window lo hi) recs))" and "\<not> og_json a"
  shows "if filter (in_window lo hi) recs = [] then isl (outcomes_run query to_json a)
    else outcomes_run query to_json a = Inr (outcome_lines traces (compute_outcomes (map outcome_of (filter (in_window lo hi) recs))))"
proof -
  obtain cs where l: "load_outcome_calls query traces lo hi = Inr cs" and m: "mset cs = mset (map outcome_of (filter (in_window lo hi) recs))"
    using load_outcome_calls_answers [OF assms(1)] .
  have n: "cs = [] \<longleftrightarrow> filter (in_window lo hi) recs = []" using m by (metis list.map_disc_iff mset_zero_iff)
  have "compute_outcomes cs = compute_outcomes (map outcome_of (filter (in_window lo hi) recs))"
    by (rule compute_outcomes_mset [OF m [symmetric] assms(5), symmetric])
  then show ?thesis using assms(2-4,6) n by (simp add: outcomes_run_def l)
qed

theorem outcomes_report_of_the_trace_witness:
  "outcomes_run (\<lambda>_ _. Inr [outcome_cells demo_call]) (\<lambda>_. Inl []) (outcomes_args_default\<lparr>og_traces := Some ''d''\<rparr>)
     = Inr (outcome_lines ''d'' (compute_outcomes [outcome_of demo_call]))"
  using outcomes_report_of_the_trace
    [where query = "\<lambda>_ _. Inr [outcome_cells demo_call]" and lo = None and hi = None and traces = "''d''" and recs = "[demo_call]"
       and a = "outcomes_args_default\<lparr>og_traces := Some ''d''\<rparr>" and to_json = "\<lambda>_. Inl []"]
  by (simp add: answers_def in_window_def outcomes_args_default_def window_bound_def tags_ordered_def inj_on_def)

section \<open>Flags\<close>

text \<open>A budget that does not parse is dropped: the backtest then runs without it, or not at all.\<close>
lemma unparsed_budget_is_dropped: "parse_f64 v = None \<Longrightarrow> parse_policy [''--budget'', v] backtest_policy_default = backtest_policy_default"
  by (simp add: usd_arg_def next_arg_def)

lemma unparsed_since_is_dropped: "parse_i64 v = None \<Longrightarrow> ca_since (compliance_args [''--since'', v] a) = None"
  by (simp add: next_arg_def)

end
