(* ===== verification/KeysReport.thy ===== *)
theory KeysReport
  imports TraceCli ClientKeys IdentityMap AppState
begin

text \<open>
  The key-lifecycle report (\<open>crates/gateway/src/keysreport.rs\<close>): the keys configured, bound
  in the identity map and seen in the trace, in one sorted list, with the folded history of
  each and the cache of that fold.  The SQL engine is the parameter of \<open>FocusExport\<close>; the
  clock readings are arguments.
\<close>

section \<open>History\<close>

record HistoryFold =
  hf_calls :: u64
  hf_mismatches :: u64
  hf_first :: "i64 option"
  hf_last :: "i64 option"

definition HistoryFold_default :: HistoryFold where
  "HistoryFold_default = \<lparr> hf_calls = 0, hf_mismatches = 0, hf_first = None, hf_last = None \<rparr>"

type_synonym history = "(string, HistoryFold) fmap"

definition history_sql :: string where
  "history_sql = ''select coalesce(key_id, '' @ sql_empty @ '') as key_id, ts_millis, decision from calls where coalesce(key_id, ''
     @ sql_empty @ '') <> '' @ sql_empty"

definition count_row :: "cell list \<Rightarrow> HistoryFold \<Rightarrow> HistoryFold" where
  "count_row r h =
     (let ts = i64_at r 1 in
      h\<lparr>hf_calls := wrap_u64 (hf_calls h + 1),
        hf_mismatches := (if str_at r 2 = ''identity_mismatch'' then wrap_u64 (hf_mismatches h + 1) else hf_mismatches h),
        hf_first := Some (case hf_first h of None \<Rightarrow> ts | Some f \<Rightarrow> min f ts),
        hf_last := Some (case hf_last h of None \<Rightarrow> ts | Some l \<Rightarrow> max l ts)\<rparr>)"

definition history_row :: "cell list \<Rightarrow> history \<Rightarrow> history" where
  "history_row r m = fmupd (str_at r 0) (count_row r (fm_entry HistoryFold_default (str_at r 0) m)) m"

definition history_fold :: "sql_engine \<Rightarrow> string \<Rightarrow> (string, history) result" where
  "history_fold query dir = (case query history_sql dir of
     Inl e \<Rightarrow> Inl e
   | Inr rows \<Rightarrow> if column_is Int64 1 rows then Inr (fold history_row rows fmempty) else Inl ''ts_millis column type'')"

section \<open>The cache\<close>

text \<open>Milliseconds of a monotonic clock.\<close>
definition HISTORY_CACHE_TTL :: nat where "HISTORY_CACHE_TTL = 15000"

type_synonym history_cache = "(nat \<times> string \<times> history) option"

text \<open>\<open>now\<close> is read for the age of the entry, \<open>finished\<close> after a scan.\<close>
definition cached_history_fold :: "sql_engine \<Rightarrow> nat \<Rightarrow> nat \<Rightarrow> string \<Rightarrow> history_cache \<Rightarrow> (string, history) result \<times> history_cache" where
  "cached_history_fold query now finished dir cache =
     (case (case cache of Some (t0, d, h) \<Rightarrow> if d = dir \<and> now - t0 < HISTORY_CACHE_TTL then Some h else None | None \<Rightarrow> None) of
        Some h \<Rightarrow> (Inr h, cache)
      | None \<Rightarrow> (case history_fold query dir of
          Inl e \<Rightarrow> (Inl e, cache)
        | Inr h \<Rightarrow> (Inr h, Some (finished, dir, h))))"

section \<open>The report\<close>

record UnauthorizedView =
  uv_attempts :: u64
  uv_last_millis :: "i64 option"

record SinceStartupView =
  ss_calls :: u64
  ss_mismatches :: u64
  ss_last_seen :: "i64 option"

record HistoryView =
  hv_calls :: u64
  hv_mismatches :: u64
  hv_first_seen :: "i64 option"
  hv_last_seen :: "i64 option"

record KeyView =
  kv_key_id :: string
  kv_configured :: bool
  kv_bound :: bool
  kv_unit :: "string option"
  kv_agents :: "string list"
  kv_created :: "string option"
  kv_since_startup :: SinceStartupView
  kv_history :: "HistoryView option"

record KeysReport =
  kr_strict_mode :: string
  kr_map_configured :: bool
  kr_history_available :: bool
  kr_unauthorized :: UnauthorizedView
  kr_keys :: "KeyView list"

definition history_view :: "HistoryFold \<Rightarrow> HistoryView" where
  "history_view h = \<lparr> hv_calls = hf_calls h, hv_mismatches = hf_mismatches h, hv_first_seen = hf_first h, hv_last_seen = hf_last h \<rparr>"

definition key_view :: "AppState \<Rightarrow> history option \<Rightarrow> string \<Rightarrow> KeyView" where
  "key_view st history k =
     (let binding = key_binding (st_identity st) k; since = key_entry (keystats_snapshot (st_keystats st)) k
      in \<lparr> kv_key_id = k, kv_configured = (k \<in> key_ids (st_client_keys st)), kv_bound = (binding \<noteq> None),
           kv_unit = map_option kbi_unit binding, kv_agents = (case binding of Some b \<Rightarrow> kbi_agents b | None \<Rightarrow> []),
           kv_created = Option.bind binding kbi_created,
           kv_since_startup = \<lparr> ss_calls = calls since, ss_mismatches = identity_mismatches since, ss_last_seen = last_seen_millis since \<rparr>,
           kv_history = map_option (\<lambda>h. history_view (fm_entry HistoryFold_default k h)) history \<rparr>)"

text \<open>The union of the three sources; a \<open>BTreeSet\<close> is walked in increasing order.\<close>
definition report_ids :: "AppState \<Rightarrow> history \<Rightarrow> string list" where
  "report_ids st h = sorted_list_of_set (key_ids (st_client_keys st) \<union> identity_key_ids (st_identity st) \<union> fset (fmdom h))"

text \<open>A directory that is blank counts as unset; a scan that fails as no history.\<close>
definition data_dir :: "string option \<Rightarrow> string option" where
  "data_dir d = (case d of None \<Rightarrow> None | Some s \<Rightarrow> if trim s = [] then None else Some (trim s))"

definition build_report :: "sql_engine \<Rightarrow> nat \<Rightarrow> nat \<Rightarrow> AppState \<Rightarrow> string option \<Rightarrow> history_cache \<Rightarrow> KeysReport \<times> history_cache" where
  "build_report query now finished st dir cache =
     (let (history, cache) = (case data_dir dir of
            None \<Rightarrow> (None, cache)
          | Some d \<Rightarrow> (case cached_history_fold query now finished d cache of
              (Inr h, c) \<Rightarrow> (Some h, c) | (Inl e, c) \<Rightarrow> (None, c)));
          un = unauthorized_counters (keystats_snapshot (st_keystats st))
      in (\<lparr> kr_strict_mode = strict_wire_str (st_identity_strict st), kr_map_configured = identity_enabled (st_identity st),
            kr_history_available = (history \<noteq> None),
            kr_unauthorized = \<lparr> uv_attempts = attempts un, uv_last_millis = last_millis un \<rparr>,
            kr_keys = map (key_view st history) (report_ids st (case history of Some h \<Rightarrow> h | None \<Rightarrow> fmempty)) \<rparr>, cache))"

section \<open>The fold counts\<close>

definition rows_of :: "string \<Rightarrow> cell list list \<Rightarrow> cell list list" where
  "rows_of k rows = filter (\<lambda>r. str_at r 0 = k) rows"

text \<open>What the history of a key is, written directly: its rows counted, the earliest and the latest time.\<close>
definition history_spec :: "cell list list \<Rightarrow> HistoryFold" where
  "history_spec rs = \<lparr> hf_calls = wrap_u64 (length rs), hf_mismatches = wrap_u64 (length (filter (\<lambda>r. str_at r 2 = ''identity_mismatch'') rs)),
     hf_first = (if rs = [] then None else Some (Min ((\<lambda>r. i64_at r 1) ` set rs))),
     hf_last = (if rs = [] then None else Some (Max ((\<lambda>r. i64_at r 1) ` set rs))) \<rparr>"

lemma history_spec_nil: "history_spec [] = HistoryFold_default"
  by (simp add: history_spec_def HistoryFold_default_def wrap_u64_def)

lemma count_row_spec: "count_row r (history_spec rs) = history_spec (rs @ [r])"
proof -
  have fin: "finite ((\<lambda>r. i64_at r 1) ` set rs)" by simp
  have "rs \<noteq> [] \<Longrightarrow> min (Min ((\<lambda>r. i64_at r 1) ` set rs)) (i64_at r 1) = Min (insert (i64_at r 1) ((\<lambda>r. i64_at r 1) ` set rs))"
    "rs \<noteq> [] \<Longrightarrow> max (Max ((\<lambda>r. i64_at r 1) ` set rs)) (i64_at r 1) = Max (insert (i64_at r 1) ((\<lambda>r. i64_at r 1) ` set rs))"
    by (simp_all add: min.commute max.commute)
  then show ?thesis by (simp add: count_row_def history_spec_def Let_def wrap_u64_suc [simplified])
qed

lemma history_lookup:
  "fmlookup (fold history_row rows fmempty) k = (if rows_of k rows = [] then None else Some (history_spec (rows_of k rows)))"
proof (induction rows rule: rev_induct)
  case (snoc r rows)
  then show ?case
    by (auto simp: history_row_def rows_of_def fm_entry_def count_row_spec history_spec_nil [symmetric])
qed (simp add: rows_of_def)

lemma history_dom: "fset (fmdom (fold history_row rows fmempty)) = (\<lambda>r. str_at r 0) ` set rows"
  by (auto simp: fmlookup_dom_iff history_lookup rows_of_def filter_empty_conv image_iff split: if_splits)

lemma history_spec_mset: "mset xs = mset ys \<Longrightarrow> history_spec xs = history_spec ys"
  using mset_eq_length [of xs ys] mset_eq_setD [of xs ys] mset_eq_length [of "filter P xs" "filter P ys" for P]
  by (simp add: history_spec_def) (metis mset_zero_iff)

section \<open>The cache serves what a scan of its directory gave, and not for long\<close>

text \<open>A history served is that of the directory asked for, scanned then or less than the TTL before.\<close>
definition cache_ok :: "(string \<Rightarrow> nat \<Rightarrow> history option) \<Rightarrow> history_cache \<Rightarrow> bool" where
  "cache_ok scanned cache \<longleftrightarrow> (case cache of None \<Rightarrow> True | Some (t0, d, h) \<Rightarrow> scanned d t0 = Some h)"

lemma cached_fold_fresh:
  assumes "cache_ok scanned cache" and "cached_history_fold query now finished dir cache = (Inr h, cache')"
  shows "history_fold query dir = Inr h \<and> cache' = Some (finished, dir, h)
    \<or> cache' = cache \<and> (\<exists>t0. scanned dir t0 = Some h \<and> now - t0 < HISTORY_CACHE_TTL)"
  using assms by (auto simp: cached_history_fold_def cache_ok_def split: option.splits prod.splits if_splits sum.splits)

section \<open>The report is complete\<close>

lemma finite_key_ids [simp]: "finite (key_ids k)"
  by (simp add: key_ids_def finite_ran finite_dom_map_of)

definition history_cells :: "CallRecord \<Rightarrow> cell list" where
  "history_cells r = [CUtf8 (cr_key_id r), CInt64 (ts_millis r), CUtf8 (cr_decision r)]"

lemma history_cells_at [simp]:
  "str_at (history_cells r) 0 = cr_key_id r" "i64_at (history_cells r) (Suc 0) = ts_millis r" "str_at (history_cells r) 2 = cr_decision r"
  by (simp_all add: history_cells_def str_at_def i64_at_def numeral_eq_Suc)

definition calls_by :: "string \<Rightarrow> CallRecord list \<Rightarrow> CallRecord list" where
  "calls_by k recs = filter (\<lambda>r. cr_key_id r = k) recs"

text \<open>The history of a key, over the calls recorded under it.\<close>
definition key_history :: "CallRecord list \<Rightarrow> HistoryView" where
  "key_history rs = \<lparr> hv_calls = wrap_u64 (length rs), hv_mismatches = wrap_u64 (length (filter (\<lambda>r. cr_decision r = ''identity_mismatch'') rs)),
     hv_first_seen = (if rs = [] then None else Some (Min (ts_millis ` set rs))),
     hv_last_seen = (if rs = [] then None else Some (Max (ts_millis ` set rs))) \<rparr>"

lemma history_of_trace:
  assumes "answers query history_sql dir (\<lambda>r. cr_key_id r \<noteq> []) history_cells recs"
  obtains h where "history_fold query dir = Inr h"
    and "fset (fmdom h) = {cr_key_id r | r. r \<in> set recs \<and> cr_key_id r \<noteq> []}"
    and "\<And>k. k \<noteq> [] \<Longrightarrow> history_view (fm_entry HistoryFold_default k h) = key_history (calls_by k recs)"
proof -
  let ?rs = "filter (\<lambda>r. cr_key_id r \<noteq> []) recs"
  obtain rows where q: "query history_sql dir = Inr rows" and m: "mset rows = mset (map history_cells ?rs)"
    using assms by (auto simp: answers_def split: sum.splits)
  have c: "column_is Int64 1 rows" by (rule column_is_mset [OF m]) (simp add: history_cells_def)
  let ?h = "fold history_row rows fmempty"
  have d: "fset (fmdom ?h) = {cr_key_id r | r. r \<in> set recs \<and> cr_key_id r \<noteq> []}"
    unfolding history_dom mset_eq_setD [OF m] set_map image_image by auto
  have v: "history_view (fm_entry HistoryFold_default k ?h) = key_history (calls_by k recs)" if k: "k \<noteq> []" for k
  proof -
    have "mset (rows_of k rows) = mset (rows_of k (map history_cells ?rs))" using m by (simp add: rows_of_def)
    also have "rows_of k (map history_cells ?rs) = map history_cells (calls_by k recs)"
      using k by (auto simp: rows_of_def calls_by_def filter_map comp_def intro!: arg_cong [where f = "map history_cells"] filter_cong)
    finally have s: "history_spec (rows_of k rows) = history_spec (map history_cells (calls_by k recs))" by (rule history_spec_mset)
    have "fm_entry HistoryFold_default k ?h = history_spec (rows_of k rows)"
      by (simp add: fm_entry_def history_lookup history_spec_nil)
    then show ?thesis
      unfolding s by (simp add: history_view_def history_spec_def key_history_def filter_map comp_def image_image)
  qed
  show thesis using that [of ?h] q c d v by (simp add: history_fold_def)
qed

text \<open>The key report over a trace: every key that is configured, bound or has made a call is there
  exactly once, in increasing order, with its configuration, its binding and counters, and the exact
  history of the calls recorded under it; nothing else is there.\<close>
theorem keys_report_complete:
  assumes "answers query history_sql d (\<lambda>r. cr_key_id r \<noteq> []) history_cells recs"
    and "data_dir dir = Some d" and "cache = None" and "finite (dom (im_keys (st_identity st)))"
  shows "let report = fst (build_report query now finished st dir cache) in
      kr_history_available report
    \<and> sorted_wrt (<) (map kv_key_id (kr_keys report))
    \<and> set (map kv_key_id (kr_keys report))
        = key_ids (st_client_keys st) \<union> dom (im_keys (st_identity st)) \<union> {cr_key_id r | r. r \<in> set recs \<and> cr_key_id r \<noteq> []}
    \<and> (\<forall>v. v \<in> set (kr_keys report) \<and> kv_key_id v \<noteq> [] \<longrightarrow>
          (kv_configured v \<longleftrightarrow> (\<exists>secret. resolve_key (st_client_keys st) secret = Some (kv_key_id v)))
        \<and> kv_unit v = map_option kb_unit (im_keys (st_identity st) (kv_key_id v)) \<and> (kv_bound v \<longleftrightarrow> kv_unit v \<noteq> None)
        \<and> kv_history v = Some (key_history (calls_by (kv_key_id v) recs)))"
proof -
  obtain h where h: "history_fold query d = Inr h" and dom: "fset (fmdom h) = {cr_key_id r | r. r \<in> set recs \<and> cr_key_id r \<noteq> []}"
      and view: "\<And>k. k \<noteq> [] \<Longrightarrow> history_view (fm_entry HistoryFold_default k h) = key_history (calls_by k recs)"
    using history_of_trace [OF assms(1)] by blast
  have r: "kr_keys (fst (build_report query now finished st dir cache)) = map (key_view st (Some h)) (report_ids st h)"
      "kr_history_available (fst (build_report query now finished st dir cache))"
    using assms(2,3) h by (simp_all add: build_report_def cached_history_fold_def Let_def)
  have ids: "map (kv_key_id \<circ> key_view st (Some h)) ks = ks" for ks
    by (simp add: key_view_def Let_def comp_def)
  let ?K = "key_ids (st_client_keys st) \<union> dom (im_keys (st_identity st)) \<union> fset (fmdom h)"
  have "finite ?K" using assms(4) by simp
  then have rep: "sorted_wrt (<) (report_ids st h)" "set (report_ids st h) = ?K"
    by (simp_all add: report_ids_def identity_key_ids_def)
  have conf: "k \<in> key_ids ck \<longleftrightarrow> (\<exists>secret. resolve_key ck secret = Some k)" for k ck
    by (auto simp: key_ids_def resolve_key_def ran_def)
  have vals: "(kv_configured v \<longleftrightarrow> (\<exists>secret. resolve_key (st_client_keys st) secret = Some (kv_key_id v)))
        \<and> kv_unit v = map_option kb_unit (im_keys (st_identity st) (kv_key_id v)) \<and> (kv_bound v \<longleftrightarrow> kv_unit v \<noteq> None)
        \<and> kv_history v = Some (key_history (calls_by (kv_key_id v) recs))"
    if m: "v \<in> set (map (key_view st (Some h)) ks)" and n: "kv_key_id v \<noteq> []" for v ks
  proof -
    obtain k where v: "v = key_view st (Some h) k" using m by auto
    then have "k \<noteq> []" using n by (simp add: key_view_def Let_def)
    then show ?thesis
      by (simp add: v key_view_def Let_def key_binding_def conf view option.map_comp comp_def)
  qed
  show ?thesis
    unfolding Let_def r map_map ids rep(2) dom
  proof (intro conjI allI impI)
    show "sorted_wrt (<) (report_ids st h)" by (rule rep(1))
  qed (use vals r(2) in \<open>blast+\<close>)
qed

text \<open>The maps the gateway loads bind finitely many keys.\<close>
lemma build_keys_finite: "build_keys units ks keys = Inr m \<Longrightarrow> finite (dom keys) \<Longrightarrow> finite (dom m)"
  by (induction units ks keys rule: build_keys.induct) (auto simp: build_keys.simps split: if_splits sum.splits)

lemma identity_keys_finite: "identity_build wire = Inr m \<Longrightarrow> finite (dom (im_keys m))"
  by (auto simp: identity_build_def split: sum.splits dest!: build_keys_finite)

definition keyed_call :: CallRecord where
  "keyed_call = demo_call\<lparr>cr_key_id := ''k''\<rparr>"

definition keyed_state :: AppState where
  "keyed_state = with_client_keys \<lparr> by_secret = [(''s'', ''k'')] \<rparr> (app_new ledger_new pricebook_new Policy_default ''p'' (\<lambda>_. []))"

theorem keys_report_complete_witness:
  "map kv_key_id (kr_keys (fst (build_report (\<lambda>_ _. Inr [history_cells keyed_call]) 1 2 keyed_state (Some ''d'') None))) = [''k'']"
proof -
  let ?q = "\<lambda>_ _. Inr [history_cells keyed_call]"
  have d: "data_dir (Some ''d'') = Some ''d''" by (simp add: data_dir_def, code_simp)
  have k: "key_ids (st_client_keys keyed_state) = {''k''}" "dom (im_keys (st_identity keyed_state)) = {}"
    by (simp_all add: keyed_state_def with_client_keys_def app_new_def IdentityMap_default_def key_ids_def)
  have "set (map kv_key_id (kr_keys (fst (build_report ?q 1 2 keyed_state (Some ''d'') None)))) = {''k''}
      \<and> sorted_wrt (<) (map kv_key_id (kr_keys (fst (build_report ?q 1 2 keyed_state (Some ''d'') None))))"
    using keys_report_complete [where query = ?q and d = "''d''" and recs = "[keyed_call]" and dir = "Some ''d''" and cache = None
        and st = keyed_state and now = 1 and finished = 2] d k
    by (simp add: answers_def keyed_call_def Let_def)
  then show ?thesis
    by (metis distinct.simps list.set strict_sorted_iff sorted_distinct_set_unique sorted_wrt1)
qed

end
