(* ===== verification/GatewayMain.thy ===== *)
theory GatewayMain
  imports McpScan TraceCli KeysReport McpBroker Pricing ProxySafety
begin

text \<open>
  The gateway binary (\<open>crates/gateway/src/main.rs\<close>), with \<open>embedder.rs\<close>, \<open>obs.rs\<close> and
  \<open>wasmpolicy.rs\<close>: the choice of the command, the report
  commands with their exit codes, the configuration of the server and of the MCP broker
  from the environment, and the cluster's.  The environment, the files, the loaders of the
  optional features and the start of a raft node are parameters; listeners, signals and
  logging are left out.
\<close>

type_synonym env_vars = "string \<Rightarrow> string option"

definition env_or :: "env_vars \<Rightarrow> string \<Rightarrow> string \<Rightarrow> string" where
  "env_or env name d = (case env name of Some v \<Rightarrow> v | None \<Rightarrow> d)"

definition nonempty_env :: "env_vars \<Rightarrow> string \<Rightarrow> string option" where
  "nonempty_env env name = (case env name of Some v \<Rightarrow> if v = [] then None else Some v | None \<Rightarrow> None)"

definition EVENTS_PATH_ENV :: string where "EVENTS_PATH_ENV = ''TOKENFUSE_EVENTS_PATH''"

section \<open>Commands\<close>

datatype Command =
    CTop string
  | CSqlUsage
  | CSql string string
  | CBacktest string BacktestPolicy
  | CSavings string
  | CCompliance string ComplianceArgs
  | CMcpScan "string list"
  | CFocusExport FocusArgs
  | COutcomes OutcomesArgs
  | CMcpBroker bool
  | CServe

definition trace_dir :: "env_vars \<Rightarrow> string" where
  "trace_dir env = env_or env ''TOKENFUSE_DATA_DIR'' ''./data''"

definition focus_args_default :: FocusArgs where
  "focus_args_default = \<lparr> fa_traces = None, fa_out = None, fa_from = None, fa_to = None \<rparr>"

definition command_of :: "env_vars \<Rightarrow> string list \<Rightarrow> Command" where
  "command_of env args = (case args of
     [] \<Rightarrow> CServe
   | c # rest \<Rightarrow>
       if c = ''top'' then CTop (env_or env ''TOKENFUSE_URL'' (''http://'' @ env_or env ''TOKENFUSE_ADDR'' ''127.0.0.1:4100''))
       else if c = ''sql'' then (let query = join '' '' rest in if trim query = [] then CSqlUsage else CSql query (trace_dir env))
       else if c = ''backtest'' then CBacktest (trace_dir env) (parse_policy rest backtest_policy_default)
       else if c = ''savings'' then CSavings (trace_dir env)
       else if c = ''compliance'' then CCompliance (trace_dir env) (compliance_args rest compliance_args_default)
       else if c = ''mcp-scan'' then CMcpScan rest
       else if c = ''focus-export'' then CFocusExport (focus_args rest focus_args_default)
       else if c = ''outcomes'' then COutcomes (outcomes_args rest outcomes_args_default)
       else if c = ''mcp-broker'' then CMcpBroker (''--stdio'' \<in> set args \<or> env ''TOKENFUSE_MCP_STDIO'' \<noteq> None)
       else CServe)"

text \<open>The exit code, the standard output and the standard error stream of a report command.\<close>
type_synonym cli_end = "int \<times> string list \<times> string list"

record ReportEnv =
  re_query :: sql_engine
  re_table :: "string \<Rightarrow> string \<Rightarrow> (string, string) result"
  re_read :: "string \<Rightarrow> (string, string) result"
  re_write :: "string \<Rightarrow> string \<Rightarrow> string option"
  re_scan_report :: "string \<Rightarrow> (string, ScanReport) result"
  re_compliance_json :: "ComplianceReport \<Rightarrow> string"
  re_outcomes_json :: "OutcomeRow list \<Rightarrow> (string, string) result"

text \<open>An error is printed under the command's name; \<open>code\<close> is its exit code.\<close>
definition cli_error :: "string \<Rightarrow> int \<Rightarrow> string \<Rightarrow> cli_end" where
  "cli_error name code e = (code, [], [name @ '' error: '' @ e])"

fun report_command :: "ReportEnv \<Rightarrow> Command \<Rightarrow> cli_end option" where
  "report_command r CSqlUsage = Some (0, [], [''usage: tokenfuse sql '' @ [CHR 0x22] @ ''select ... from calls'' @ [CHR 0x22]])"
| "report_command r (CSql q dir) = Some (case re_table r q dir of Inl e \<Rightarrow> cli_error ''sql'' 0 e | Inr t \<Rightarrow> (0, [t], []))"
| "report_command r (CBacktest dir p) = Some (case backtest_run (re_query r) dir p of
     Inl e \<Rightarrow> cli_error ''backtest'' 0 e | Inr (Stdout ls) \<Rightarrow> (0, ls, []) | Inr (Stderr ls) \<Rightarrow> (0, [], ls))"
| "report_command r (CSavings dir) = Some (0, savings_run (re_query r) dir, [])"
| "report_command r (CCompliance dir a) = Some (case compliance_run (re_query r) (re_read r) (re_scan_report r) (re_compliance_json r) dir a of
     Inl e \<Rightarrow> cli_error ''compliance'' 0 e | Inr ls \<Rightarrow> (0, ls, []))"
| "report_command r (CFocusExport a) = Some (case focus_run (re_query r) (re_write r) a of
     Inl e \<Rightarrow> cli_error ''focus-export'' 1 e | Inr _ \<Rightarrow> (0, [], []))"
| "report_command r (COutcomes a) = Some (case outcomes_run (re_query r) (re_outcomes_json r) a of
     Inl e \<Rightarrow> cli_error ''outcomes'' 1 e | Inr ls \<Rightarrow> (0, ls, []))"
| "report_command r (CTop url) = None"
| "report_command r (CMcpScan xs) = None"
| "report_command r (CMcpBroker stdio) = None"
| "report_command r CServe = None"

section \<open>The server\<close>

definition gateway_mode :: "env_vars \<Rightarrow> Mode" where
  "gateway_mode env = (if env ''TOKENFUSE_MODE'' = Some ''enforce'' then Enforce else if env ''TOKENFUSE_MODE'' = Some ''warn'' then Warn else Shadow)"

definition gateway_policy :: "env_vars \<Rightarrow> Policy" where
  "gateway_policy env = Policy_default\<lparr>mode := gateway_mode env, anomalies :=
     \<lparr> identical_tool_call = Some \<lparr> window = 10, threshold = 3 \<rparr>, pingpong_pair = Some \<lparr> window = 8, threshold = 2 \<rparr>,
       context_growth = Some \<lparr> factor = Fin (3 / 2), consecutive = 3 \<rparr> \<rparr>\<rparr>"

definition dlp_from_env :: "env_vars \<Rightarrow> string \<Rightarrow> DlpMode" where
  "dlp_from_env env name = (if env name = Some ''shadow'' then DlpShadow else if env name = Some ''mask'' then DlpMask
     else if env name = Some ''block'' then DlpBlock else DlpOff)"

definition cache_mode_from_env :: "env_vars \<Rightarrow> CacheMode" where
  "cache_mode_from_env env = (if env ''TOKENFUSE_CACHE'' = Some ''on'' then CacheOn
     else if env ''TOKENFUSE_CACHE'' = Some ''off'' then CacheOff else CacheShadow)"

record ServeEnv =
  gs_vars :: env_vars
  gs_read :: "string \<Rightarrow> string option"
  gs_wire :: "string \<Rightarrow> WireMap option"
  gs_lower :: "string \<Rightarrow> string"
  gs_serde :: serde
  gs_open_events :: "string \<Rightarrow> (string, string) result"
  gs_load_rules :: "string \<Rightarrow> RouterRules option"
  gs_hash_embedder :: "string \<Rightarrow> f64 list"
  gs_onnx :: "(string \<Rightarrow> f64 list) option"
  gs_wasm :: "(string \<Rightarrow> (string, wasm_eval) result) option"
  gs_trace_dir_ok :: "string \<Rightarrow> bool"

text \<open>\<open>embedder::build\<close>: \<open>gs_onnx\<close> is the model, when the feature is built in and it loads.\<close>
definition embedder_build :: "ServeEnv \<Rightarrow> string \<Rightarrow> f64 list" where
  "embedder_build g = (if gs_vars g ''TOKENFUSE_CACHE_EMBEDDER'' = Some ''onnx''
     then (case gs_onnx g of Some f \<Rightarrow> f | None \<Rightarrow> gs_hash_embedder g) else gs_hash_embedder g)"

text \<open>A map path that is unset or blank is no map.\<close>
definition load_identity :: "ServeEnv \<Rightarrow> (LoadError, IdentityMap) result" where
  "load_identity g = (case gs_vars g ''TOKENFUSE_IDENTITY_MAP'' of
     Some path \<Rightarrow> if trim path \<noteq> [] then identity_from_path (gs_wire g) (gs_read g (trim path)) else Inr IdentityMap_default
   | None \<Rightarrow> Inr IdentityMap_default)"

definition load_strict :: "ServeEnv \<Rightarrow> (string, StrictMode) result" where
  "load_strict g = (let raw = trim (env_or (gs_vars g) ''TOKENFUSE_IDENTITY_STRICT'' []) in
     if raw = [] then Inr StrictOff else strict_from_str (gs_lower g) raw)"

text \<open>The sink composed from the environment.\<close>
datatype SinkShape = NullSink | ParquetTrace string | OtlpSpans string | CloudPush string string | Tee SinkShape SinkShape

definition trace_sink :: "ServeEnv \<Rightarrow> SinkShape" where
  "trace_sink g = (case nonempty_env (gs_vars g) ''TOKENFUSE_DATA_DIR'' of
     Some dir \<Rightarrow> if gs_trace_dir_ok g dir then ParquetTrace dir else NullSink | None \<Rightarrow> NullSink)"

definition spans_sink :: "ServeEnv \<Rightarrow> SinkShape" where
  "spans_sink g = (case nonempty_env (gs_vars g) ''TOKENFUSE_OTLP_ENDPOINT'' of
     Some endpoint \<Rightarrow> Tee (trace_sink g) (OtlpSpans endpoint) | None \<Rightarrow> trace_sink g)"

text \<open>The control plane, when both its address and the organization's key are set.\<close>
definition cloud_target :: "env_vars \<Rightarrow> (string \<times> string) option" where
  "cloud_target env = (case (nonempty_env env ''TOKENFUSE_CLOUD_URL'', nonempty_env env ''TOKENFUSE_CLOUD_KEY'') of
     (Some b, Some k) \<Rightarrow> Some (b, k) | _ \<Rightarrow> None)"

definition gateway_sink :: "ServeEnv \<Rightarrow> SinkShape" where
  "gateway_sink g = (case cloud_target (gs_vars g) of
     Some (b, k) \<Rightarrow> Tee (spans_sink g) (CloudPush b k) | None \<Rightarrow> spans_sink g)"

datatype Poller = KillPoller | BudgetPoller | UnitBudgetPoller

definition gateway_pollers :: "ServeEnv \<Rightarrow> IdentityMap \<Rightarrow> Poller list" where
  "gateway_pollers g m = (if cloud_target (gs_vars g) = None then []
     else [KillPoller, BudgetPoller] @ (if identity_enabled m then [UnitBudgetPoller] else []))"

text \<open>Why the process exits instead of serving, with code 2.\<close>
datatype Refusal = BadClientKeys | BadIdentityMap LoadError | BadStrict string

record Started =
  sd_state :: AppState
  sd_upstream :: "string option"
  sd_sink :: SinkShape
  sd_pollers :: "Poller list"
  sd_addr :: string

text \<open>The \<open>with_*\<close> calls in their order; a WASM policy that does not load is skipped.\<close>
definition gateway_state :: "ServeEnv \<Rightarrow> ClientKeys \<Rightarrow> IdentityMap \<Rightarrow> StrictMode \<Rightarrow> AppState" where
  "gateway_state g ck m strict =
     (let env = gs_vars g;
          st = app_new ledger_new default_price_book (gateway_policy env) ''default'' (gs_hash_embedder g);
          st = with_identity m strict (unit_ledger_new (unit_budgets m)) (with_client_keys ck st);
          st = with_cache (cache_new (embedder_build g) (CacheConfig_default\<lparr>c_mode := cache_mode_from_env env\<rparr>)) st;
          st = with_firewall (firewall_from_env (env ''TOKENFUSE_FIREWALL'')) st;
          st = with_dlp (dlp_from_env env ''TOKENFUSE_DLP'') st;
          st = with_dlp_pii (dlp_from_env env ''TOKENFUSE_DLP_PII'') st;
          st = with_router (router_from_env (env ''TOKENFUSE_ROUTER'') (env ''TOKENFUSE_ROUTER_RULES'') (gs_load_rules g)) st;
          st = (case (gs_wasm g, nonempty_env env ''TOKENFUSE_WASM_POLICY'') of
                  (Some load, Some path) \<Rightarrow> (case load path of Inr w \<Rightarrow> with_wasm w st | Inl _ \<Rightarrow> st)
                | _ \<Rightarrow> st);
          st = with_wardryx (wardryx_from_env parse_u64 env) st
      in with_events (exporter_from_env (gs_serde g) (env EVENTS_PATH_ENV) (gs_open_events g)) st)"

definition serve :: "ServeEnv \<Rightarrow> (Refusal, Started) result" where
  "serve g = (case from_spec (env_or (gs_vars g) ''TOKENFUSE_CLIENT_KEYS'' []) of
     Inl _ \<Rightarrow> Inl BadClientKeys
   | Inr ck \<Rightarrow> (case load_identity g of
     Inl x \<Rightarrow> Inl (BadIdentityMap x)
   | Inr m \<Rightarrow> (case load_strict g of
     Inl x \<Rightarrow> Inl (BadStrict x)
   | Inr strict \<Rightarrow> Inr \<lparr> sd_state = gateway_state g ck m strict, sd_upstream = nonempty_env (gs_vars g) ''TOKENFUSE_UPSTREAM'',
         sd_sink = gateway_sink g, sd_pollers = gateway_pollers g m, sd_addr = env_or (gs_vars g) ''TOKENFUSE_ADDR'' ''127.0.0.1:4100'' \<rparr>)))"

text \<open>Bound keys that no client key authenticates, which the start-up warns about.\<close>
definition dangling_keys :: "ClientKeys \<Rightarrow> IdentityMap \<Rightarrow> string set" where
  "dangling_keys ck m = identity_key_ids m - key_ids ck"

section \<open>Cluster mode\<close>

record ClusterConfig =
  cl_id :: u64
  cl_addr :: string
  cl_peers :: "(u64 \<times> string) list"
  cl_bootstrap :: bool
  cl_data_dir :: "string option"
  cl_token :: "string option"

definition peer_entry :: "string \<Rightarrow> (u64 \<times> string) option" where
  "peer_entry pair = (case split_once (CHR ''='') pair of
     Some (pid, url) \<Rightarrow> map_option (\<lambda>n. (n, trim url)) (parse_u64 (trim pid)) | None \<Rightarrow> None)"

definition cluster_peers :: "string \<Rightarrow> (u64 \<times> string) list" where
  "cluster_peers spec = fold (\<lambda>p m. case peer_entry p of Some (n, url) \<Rightarrow> bt_insert n url m | None \<Rightarrow> m)
     (filter (\<lambda>p. p \<noteq> []) (split_char (CHR '','') spec)) []"

definition cluster_config :: "env_vars \<Rightarrow> ClusterConfig option" where
  "cluster_config env = (case Option.bind (env ''TOKENFUSE_CLUSTER_ID'') parse_u64 of
     None \<Rightarrow> None
   | Some n \<Rightarrow>
       let addr = env_or env ''TOKENFUSE_CLUSTER_ADDR'' (''127.0.0.1:'' @ nat_str (wrap_u64 (5000 + n)));
           ps = cluster_peers (env_or env ''TOKENFUSE_CLUSTER_PEERS'' [])
       in Some \<lparr> cl_id = n, cl_addr = addr, cl_peers = (if ps = [] then [(n, ''http://'' @ addr)] else ps),
            cl_bootstrap = (env ''TOKENFUSE_CLUSTER_BOOTSTRAP'' \<noteq> None), cl_data_dir = env ''TOKENFUSE_CLUSTER_DATA_DIR'',
            cl_token = nonempty_env env ''TOKENFUSE_CLUSTER_TOKEN'' \<rparr>)"

datatype LedgerChoice = LocalLedger | RaftNode ClusterConfig | FatalExit

text \<open>\<open>addr_ok\<close> is the socket-address parser, \<open>start\<close> whether the raft node starts.\<close>
definition cluster_ledger :: "(string \<Rightarrow> bool) \<Rightarrow> (ClusterConfig \<Rightarrow> bool) \<Rightarrow> env_vars \<Rightarrow> LedgerChoice" where
  "cluster_ledger addr_ok start env = (case cluster_config env of
     None \<Rightarrow> LocalLedger
   | Some c \<Rightarrow> if \<not> addr_ok (cl_addr c) then LocalLedger else if start c then RaftNode c else FatalExit)"

section \<open>The MCP broker\<close>

definition upstream_entry :: "string \<Rightarrow> (string \<times> string) option" where
  "upstream_entry s = (case split_once (CHR ''='') s of
     Some (name, url) \<Rightarrow> if trim name \<noteq> [] \<and> trim url \<noteq> [] then Some (trim name, trim url) else None | None \<Rightarrow> None)"

definition named_upstreams :: "string \<Rightarrow> (string \<times> string) list" where
  "named_upstreams spec = fold (\<lambda>p m. case upstream_entry p of Some (n, url) \<Rightarrow> bt_insert n url m | None \<Rightarrow> m)
     (filter (\<lambda>p. p \<noteq> []) (map trim (split_char (CHR '','') spec))) []"

definition broker_scan :: "env_vars \<Rightarrow> ScanMode" where
  "broker_scan env = (if env ''TOKENFUSE_MCP_SCAN'' = Some ''off'' then ScanOff
     else if env ''TOKENFUSE_MCP_SCAN'' = Some ''block'' then ScanBlock else ScanWarn)"

definition broker_dlp :: "env_vars \<Rightarrow> DlpMode" where
  "broker_dlp env = (if env ''TOKENFUSE_MCP_DLP'' = Some ''block'' then DlpBlock
     else if env ''TOKENFUSE_MCP_DLP'' = Some ''off'' then DlpOff else DlpShadow)"

definition broker_lock :: "env_vars \<Rightarrow> (string \<Rightarrow> string option) \<Rightarrow> (string \<Rightarrow> Lock option) \<Rightarrow> Lock option" where
  "broker_lock env read parse_lock = Option.bind (env ''TOKENFUSE_MCP_LOCK'') (\<lambda>p. Option.bind (read p) parse_lock)"

text \<open>\<open>None\<close> when no upstream is configured: the command prints how to and ends.\<close>
definition mcp_broker :: "ServeEnv \<Rightarrow> (string \<Rightarrow> Lock option) \<Rightarrow> BrokerState option" where
  "mcp_broker g parse_lock =
     (let env = gs_vars g; up = env_or env ''TOKENFUSE_MCP_UPSTREAM'' []; named = named_upstreams (env_or env ''TOKENFUSE_MCP_UPSTREAMS'' [])
      in if up = [] \<and> named = [] then None
         else Some \<lparr> b_upstream = (if up = [] then snd (hd named) else up), b_named_upstreams = map_of named,
           b_vault = vault_from_pairs (env_or env ''TOKENFUSE_MCP_SECRETS'' []), b_scan = broker_scan env, b_dlp = broker_dlp env,
           b_dlp_pii = dlp_from_env env ''TOKENFUSE_MCP_DLP_PII'', b_lock = broker_lock env (gs_read g) parse_lock,
           b_wardryx = wardryx_from_env parse_u64 env,
           b_events = exporter_from_env (gs_serde g) (env EVENTS_PATH_ENV) (gs_open_events g) \<rparr>)"

section \<open>The runs of the dashboard\<close>

text \<open>\<open>GET /v1/runs\<close> and \<open>POST /v1/runs/{id}/kill\<close> (\<open>obs.rs\<close>), over a listing of the ledger.\<close>
record RunView =
  rv_run_id :: string
  rv_budget_usd :: f64
  rv_spent_usd :: f64
  rv_reserved_usd :: f64
  rv_remaining_usd :: f64
  rv_steps :: u32
  rv_pct_used :: f64
  rv_killed :: bool

text \<open>\<open>x / y * 100.0\<close> for a positive \<open>y\<close>.\<close>
definition pct_of :: "f64 \<Rightarrow> f64 \<Rightarrow> f64" where
  "pct_of x y = (case y of Fin d \<Rightarrow> if 0 < d then f64_mul (f64_div_const x d) (Fin 100) else Fin 0 | _ \<Rightarrow> Fin 0)"

definition run_view :: "AppState \<Rightarrow> string \<times> RunSnapshot \<Rightarrow> RunView" where
  "run_view st p = (case p of (run_id, s) \<Rightarrow>
     \<lparr> rv_run_id = run_id, rv_budget_usd = as_usd (RunSnapshot.budget s), rv_spent_usd = as_usd (RunSnapshot.spent s),
       rv_reserved_usd = as_usd (RunSnapshot.reserved s), rv_remaining_usd = as_usd (remaining s), rv_steps = RunSnapshot.steps s,
       rv_pct_used = pct_of (as_usd (in_flight s)) (as_usd (RunSnapshot.budget s)), rv_killed = is_killed st run_id \<rparr>)"

definition usd_value :: "f64 \<Rightarrow> rat" where
  "usd_value x = (case x of Fin q \<Rightarrow> q | _ \<Rightarrow> 0)"

text \<open>Most spent first; the sort is stable.\<close>
definition list_run_views :: "AppState \<Rightarrow> (string \<times> RunSnapshot) list \<Rightarrow> RunView list" where
  "list_run_views st runs = sort_key (\<lambda>v. - usd_value (rv_spent_usd v)) (map (run_view st) runs)"

definition kill_run :: "AppState \<Rightarrow> string \<Rightarrow> json \<times> AppState" where
  "kill_run st run_id = (JObject [(''killed'', JString run_id)], kill run_id st)"

lemma run_views_complete: "mset (map rv_run_id (list_run_views st runs)) = mset (map fst runs)"
proof -
  have "rv_run_id \<circ> run_view st = fst" by (rule ext) (simp add: run_view_def split_beta)
  then show ?thesis unfolding list_run_views_def by (metis map_map mset_map mset_sort)
qed

section \<open>The WASM policy\<close>

text \<open>
  \<open>wasmpolicy.rs\<close> over the engine: compilation, instantiation and calls with fuel, each of
  which may fail.  The arguments are an estimate, the spend, the budget, the step and the
  taint bits, the last two as \<open>i32\<close>.
\<close>

type_synonym wasm_args = "i64 \<times> i64 \<times> i64 \<times> int \<times> int"

record ('m, 'i, 'f) wasm_engine =
  we_compile :: "string \<Rightarrow> (string, 'm) result"
  we_instantiate :: "nat \<Rightarrow> 'm \<Rightarrow> (string, 'i \<times> nat) result"
  we_export :: "'i \<Rightarrow> (string, 'f) result"
  we_call :: "nat \<Rightarrow> 'i \<Rightarrow> 'f \<Rightarrow> wasm_args \<Rightarrow> (string, int) result"

definition WASM_FUEL :: nat where "WASM_FUEL = 10000000"

text \<open>The export's signature is checked before a module is accepted.\<close>
definition wasm_from_file :: "('m, 'i, 'f) wasm_engine \<Rightarrow> string \<Rightarrow> (string, 'm) result" where
  "wasm_from_file w path = (case we_compile w path of
     Inl e \<Rightarrow> Inl e
   | Inr m \<Rightarrow> (case we_instantiate w 1 m of
     Inl e \<Rightarrow> Inl e
   | Inr (i, _) \<Rightarrow> (case we_export w i of
     Inl e \<Rightarrow> Inl (''policy must export evaluate(i64,i64,i64,i32,i32)->i32: '' @ e)
   | Inr _ \<Rightarrow> Inr m)))"

definition wasm_run :: "('m, 'i, 'f) wasm_engine \<Rightarrow> 'm \<Rightarrow> wasm_args \<Rightarrow> (string, int) result" where
  "wasm_run w m args = (case we_instantiate w WASM_FUEL m of
     Inl e \<Rightarrow> Inl e
   | Inr (i, fuel) \<Rightarrow> (case we_export w i of Inl e \<Rightarrow> Inl e | Inr f \<Rightarrow> we_call w fuel i f args))"

definition as_i32 :: "u32 \<Rightarrow> int" where
  "as_i32 n = (if n < 2 ^ 31 then int n else int n - 2 ^ 32)"

definition wasm_evaluate :: "('m, 'i, 'f) wasm_engine \<Rightarrow> 'm \<Rightarrow> wasm_eval" where
  "wasm_evaluate w m est spent_micro budget_micro step bits =
     (case wasm_run w m (est, spent_micro, budget_micro, as_i32 step, as_i32 bits) of Inr d \<Rightarrow> d | Inl _ \<Rightarrow> 0)"

text \<open>A policy that fails or runs out of fuel blocks nothing; and its verdict 1 has no effect.\<close>
lemma broken_policy_never_blocks:
  assumes "st_wasm st = Some (wasm_evaluate w m)" and "\<And>args. \<exists>e. wasm_run w m args = Inl e"
  shows "wasm_gate en c st = continue c st"
proof -
  have "wasm_evaluate w m a b d s t = 0" for a b d s t
    using assms(2) [of "(a, b, d, as_i32 s, as_i32 t)"] by (auto simp: wasm_evaluate_def)
  then show ?thesis by (simp add: wasm_gate_def assms(1) Let_def)
qed

lemma warn_verdict_ignored: "st_wasm st = Some (\<lambda>_ _ _ _ _. 1) \<Longrightarrow> wasm_gate en c st = continue c st"
  by (simp add: wasm_gate_def)

section \<open>What is configured is in force\<close>

lemma gateway_state_fields:
  "st_client_keys (gateway_state g ck m strict) = ck" "st_identity (gateway_state g ck m strict) = m"
  "st_identity_strict (gateway_state g ck m strict) = strict" "st_sent (gateway_state g ck m strict) = []"
  "mode (st_policy (gateway_state g ck m strict)) = gateway_mode (gs_vars g)"
  by (simp_all add: gateway_state_def Let_def with_events_def with_wardryx_def with_wasm_def with_router_def with_dlp_pii_def with_dlp_def
      with_firewall_def with_cache_def with_identity_def with_client_keys_def app_new_def gateway_policy_def split: option.split sum.split)

text \<open>A gateway starts \<open>presentable\<close>: its cache is empty, no run has a label, and the firewall's tables,
  if it is on, are the starter policy.  So every request it ever gets is answered.\<close>
lemma firewall_tables_legal:
  "\<forall>l\<in>ran (fw_sources (firewall_from_env v)). header_legal l"
  "\<forall>rule\<in>set (fw_rules (firewall_from_env v)). list_all header_legal (deny rule)"
proof -
  have "header_legal l" if "fw_sources (firewall_defaults m) t = Some l" for m t l
    using default_source_ran [OF that] by (elim disjE; simp add: header_legal_Cons header_byte_def)
  then show "\<forall>l\<in>ran (fw_sources (firewall_from_env v)). header_legal l"
    unfolding firewall_from_env_def by (auto simp: ran_def firewall_disabled_def)
  have "\<forall>rule\<in>set (fw_rules (firewall_defaults m)). list_all header_legal (deny rule)" for m
    by (simp add: firewall_defaults_def header_legal_Cons header_byte_def)
  then show "\<forall>rule\<in>set (fw_rules (firewall_from_env v)). list_all header_legal (deny rule)"
    unfolding firewall_from_env_def by (simp add: firewall_disabled_def)
qed

lemma started_presentable: "serve g = Inr d \<Longrightarrow> presentable (sd_state d)"
proof -
  assume "serve g = Inr d"
  then obtain ck m strict where d: "sd_state d = gateway_state g ck m strict" by (auto simp: serve_def split: sum.splits)
  have "st_firewall (sd_state d) = firewall_from_env (gs_vars g ''TOKENFUSE_FIREWALL'')" "st_taint (sd_state d) = Map.empty"
    "store (st_cache (sd_state d)) = Map.empty"
    unfolding d by (simp_all add: gateway_state_def Let_def with_events_def with_wardryx_def with_wasm_def with_router_def with_dlp_pii_def
        with_dlp_def with_firewall_def with_cache_def with_identity_def with_client_keys_def app_new_def cache_new_def split: option.split sum.split)
  then show ?thesis
    using firewall_tables_legal [of "gs_vars g ''TOKENFUSE_FIREWALL''"] by (simp add: presentable_def entries_of_def run_labels_def)
qed

text \<open>The secret a request presents.\<close>
definition presented :: "HeaderMap \<Rightarrow> string" where
  "presented h = trim (case header_str h CLIENT_KEY_HEADER of Some v \<Rightarrow> v | None \<Rightarrow> [])"

definition listed_secret :: "string \<Rightarrow> string \<Rightarrow> bool" where
  "listed_secret spec secret \<longleftrightarrow> (\<exists>entry key. entry \<in> set (split_char (CHR '','') (trim spec)) \<and> spec_entry entry = Some (secret, key))"

lemma unlisted_refused:
  assumes "from_spec spec = Inr ck" and "trim spec \<noteq> []" and "\<not> listed_secret spec (presented h)" and "st_client_keys st = ck"
  shows "messages e h b st = unauthorized e st"
proof -
  have listed: "resolve_key ck secret = Some k \<Longrightarrow> listed_secret spec secret" for secret k
    using from_spec_fails_closed [of spec] assms(1,2) by (simp add: listed_secret_def) blast
  have "keys_enabled ck" using from_spec_fails_closed [of spec] assms(1,2) by simp
  moreover have "resolve_key ck (presented h) = None"
    using listed [of "presented h"] assms(3) by (cases "resolve_key ck (presented h)") auto
  ultimately have "resolve_client_key st h = None" using assms(4) by (simp add: resolve_client_key_def presented_def)
  then show ?thesis by (simp add: messages_def admit_def stage_then_def unauthorized_def reply_def)
qed

text \<open>C34: A gateway that starts is configured as asked.  When \<open>TOKENFUSE_CLIENT_KEYS\<close> is set, every
  request whose key is not listed in it is answered 401 and nothing is sent to a provider; when
  \<open>TOKENFUSE_IDENTITY_MAP\<close> names a file, that file was read and is the map in force; and a strict mode
  that is set is the one in force.  A setting that cannot be used stops the start instead.\<close>
theorem configured_means_enforced:
  assumes "serve g = Inr d" and "env_or (gs_vars g) ''TOKENFUSE_CLIENT_KEYS'' [] = spec"
  shows "(trim spec \<noteq> [] \<longrightarrow> (\<forall>e h b. \<not> listed_secret spec (presented h) \<longrightarrow>
            messages e h b (sd_state d) = unauthorized e (sd_state d) \<and> st_sent (snd (messages e h b (sd_state d))) = []))
    \<and> (\<forall>path. gs_vars g ''TOKENFUSE_IDENTITY_MAP'' = Some path \<and> trim path \<noteq> [] \<longrightarrow>
            (\<exists>raw. gs_read g (trim path) = Some raw \<and> identity_parse (gs_wire g) raw = Inr (st_identity (sd_state d))))
    \<and> (\<forall>raw. trim (env_or (gs_vars g) ''TOKENFUSE_IDENTITY_STRICT'' []) = raw \<and> raw \<noteq> [] \<longrightarrow>
            strict_from_str (gs_lower g) raw = Inr (st_identity_strict (sd_state d)))"
proof -
  obtain ck m strict where k: "from_spec spec = Inr ck" and m: "load_identity g = Inr m" and s: "load_strict g = Inr strict"
      and d: "sd_state d = gateway_state g ck m strict"
    using assms by (auto simp: serve_def split: sum.splits)
  have "messages e h b (sd_state d) = unauthorized e (sd_state d) \<and> st_sent (snd (messages e h b (sd_state d))) = []"
    if "trim spec \<noteq> []" "\<not> listed_secret spec (presented h)" for e h b
  proof -
    have u: "messages e h b (sd_state d) = unauthorized e (sd_state d)"
      by (rule unlisted_refused [OF k that]) (simp add: d gateway_state_fields)
    then show ?thesis by (simp add: unauthorized_def reply_def d gateway_state_fields)
  qed
  moreover have "\<exists>raw. gs_read g (trim path) = Some raw \<and> identity_parse (gs_wire g) raw = Inr (st_identity (sd_state d))"
    if "gs_vars g ''TOKENFUSE_IDENTITY_MAP'' = Some path" "trim path \<noteq> []" for path
    using m that by (auto simp: load_identity_def identity_from_path_def d gateway_state_fields split: option.splits)
  moreover have "strict_from_str (gs_lower g) raw = Inr (st_identity_strict (sd_state d))"
    if "trim (env_or (gs_vars g) ''TOKENFUSE_IDENTITY_STRICT'' []) = raw" "raw \<noteq> []" for raw
    using s that by (simp add: load_strict_def Let_def d gateway_state_fields)
  ultimately show ?thesis by blast
qed

definition demo_serve :: "serde \<Rightarrow> ServeEnv" where
  "demo_serve s = \<lparr> gs_vars = [''TOKENFUSE_CLIENT_KEYS'' \<mapsto> ''s:k''], gs_read = (\<lambda>_. None), gs_wire = (\<lambda>_. None), gs_lower = id, gs_serde = s,
     gs_open_events = (\<lambda>_. Inl []), gs_load_rules = (\<lambda>_. None), gs_hash_embedder = (\<lambda>_. []), gs_onnx = None, gs_wasm = None,
     gs_trace_dir_ok = (\<lambda>_. False) \<rparr>"

theorem configured_means_enforced_witness:
  "\<forall>s. \<exists>d. serve (demo_serve s) = Inr d \<and> (\<forall>e b. messages e Map.empty b (sd_state d) = unauthorized e (sd_state d))"
proof
  fix s
  have t: "trim ''s:k'' = ''s:k''" "trim ''s'' = ''s''" "trim ''k'' = ''k''" "trim [] = []" by code_simp+
  have en: "spec_entry ''s:k'' = Some (''s'', ''k'')" by (simp add: spec_entry_def rsplit_once_def Let_def t)
  have ev: "from_spec ''s:k'' = Inr \<lparr> by_secret = [(''s'', ''k'')] \<rparr>" by (simp add: from_spec_def en t)
  have vars: "env_or (gs_vars (demo_serve s)) ''TOKENFUSE_CLIENT_KEYS'' [] = ''s:k''" "gs_vars (demo_serve s) ''TOKENFUSE_IDENTITY_MAP'' = None"
      "env_or (gs_vars (demo_serve s)) ''TOKENFUSE_IDENTITY_STRICT'' [] = []"
    by (simp_all add: demo_serve_def env_or_def)
  obtain d where d: "serve (demo_serve s) = Inr d"
    by (simp add: serve_def vars ev load_identity_def load_strict_def t)
  have "presented Map.empty = []" by (simp add: presented_def header_str_def t)
  then have "\<not> listed_secret ''s:k'' (presented Map.empty)" by (simp add: listed_secret_def t en)
  then have "\<forall>e b. messages e Map.empty b (sd_state d) = unauthorized e (sd_state d)"
    using configured_means_enforced [OF d vars(1)] t(1) by simp
  then show "\<exists>d. serve (demo_serve s) = Inr d \<and> (\<forall>e b. messages e Map.empty b (sd_state d) = unauthorized e (sd_state d))"
    using d by blast
qed

section \<open>What is not\<close>

text \<open>A cluster that was asked for but whose address or id does not parse leaves the gateway on its local ledger.\<close>
lemma bad_cluster_address_is_local: "cluster_config env = Some c \<Longrightarrow> \<not> addr_ok (cl_addr c) \<Longrightarrow> cluster_ledger addr_ok start env = LocalLedger"
  by (simp add: cluster_ledger_def)

lemma bad_cluster_id_is_local: "env ''TOKENFUSE_CLUSTER_ID'' = Some v \<Longrightarrow> parse_u64 v = None \<Longrightarrow> cluster_ledger addr_ok start env = LocalLedger"
  by (simp add: cluster_ledger_def cluster_config_def)

text \<open>A lock that cannot be read or parsed is no lock: the broker starts without the rug-pull check.\<close>
lemma unusable_lock_is_no_lock:
  assumes "env ''TOKENFUSE_MCP_LOCK'' = Some p" and "Option.bind (read p) parse_lock = None"
  shows "broker_lock env read parse_lock = None"
  using assms by (simp add: broker_lock_def)

text \<open>A mode that is not spelled as expected is shadow mode.\<close>
lemma mistyped_mode_is_shadow: "env ''TOKENFUSE_MODE'' = Some v \<Longrightarrow> v \<noteq> ''enforce'' \<Longrightarrow> v \<noteq> ''warn'' \<Longrightarrow> gateway_mode env = Shadow"
  by (simp add: gateway_mode_def)

text \<open>A compliance report that fails exits with 0.\<close>
lemma failed_compliance_exits_zero:
  "compliance_run (re_query r) (re_read r) (re_scan_report r) (re_compliance_json r) dir a = Inl e \<Longrightarrow>
     report_command r (CCompliance dir a) = Some (0, [], [''compliance error: '' @ e])"
  by (simp add: cli_error_def)

end
