(* ===== verification/HttpProvider.thy ===== *)
theory HttpProvider
  imports Provider Responses NumParse Utf8
begin

text \<open>
  The providers of \<open>crates/gateway/src/provider.rs\<close>: the real upstream, which is handed the
  listed headers and the body and whose answer is relayed while its usage is read, and the
  stub.  The HTTP exchange and the JSON reader are parameters; an error is the text inside
  \<open>ProviderError::Upstream\<close>.
\<close>

section \<open>The request upstream\<close>

definition FORWARD_HEADERS :: "string list" where
  "FORWARD_HEADERS = [''authorization'', ''x-api-key'', ''anthropic-version'', ''anthropic-beta'', ''openai-organization'', ''openai-beta'',
     ''content-type'', ''accept'']"

definition upstream_headers :: "HeaderMap \<Rightarrow> (string \<times> string) list" where
  "upstream_headers h = List.map_filter (\<lambda>n. map_option (Pair n) (h n)) FORWARD_HEADERS"

record HttpProvider =
  hp_endpoint :: string
  hp_connect_secs :: u64

definition http_provider_new :: "(string \<Rightarrow> string option) \<Rightarrow> string \<Rightarrow> HttpProvider" where
  "http_provider_new env endpoint = \<lparr> hp_endpoint = endpoint,
     hp_connect_secs = (case Option.bind (env ''TOKENFUSE_UPSTREAM_CONNECT_TIMEOUT_SECS'') parse_u64 of Some n \<Rightarrow> n | None \<Rightarrow> 10) \<rparr>"

section \<open>The relayed body\<close>

text \<open>What the consumer of the stream has got, the error that ended it, and the usage slot after.\<close>
record Relay =
  rl_yielded :: "string list"
  rl_error :: "string option"
  rl_usage :: "Usage option"

fun relay :: "(string \<Rightarrow> json option) \<Rightarrow> (string, string) result list \<Rightarrow> string \<Rightarrow> string list \<Rightarrow> Relay" where
  "relay from_str [] buf out = \<lparr> rl_yielded = out, rl_error = None, rl_usage = Some (usage_finish from_str buf) \<rparr>"
| "relay from_str (Inl e # cs) buf out = \<lparr> rl_yielded = out, rl_error = Some e, rl_usage = None \<rparr>"
| "relay from_str (Inr c # cs) buf out = relay from_str cs (usage_feed buf c) (out @ [c])"

record Upstream =
  up_status :: nat
  up_content_type :: "string option"
  up_chunks :: "(string, string) result list"

type_synonym exchange = "string \<Rightarrow> (string \<times> string) list \<Rightarrow> string \<Rightarrow> (string, Upstream) result"

definition http_send :: "exchange \<Rightarrow> (string \<Rightarrow> json option) \<Rightarrow> HttpProvider \<Rightarrow> HeaderMap \<Rightarrow> string \<Rightarrow> (string, nat \<times> string option \<times> Relay) result" where
  "http_send ex from_str p h body = (case ex (hp_endpoint p) (upstream_headers h) body of
     Inl e \<Rightarrow> Inl e
   | Inr r \<Rightarrow> Inr (up_status r, up_content_type r, relay from_str (up_chunks r) [] []))"

section \<open>The stub\<close>

record StubProvider =
  sp_input :: u64
  sp_output :: u64
  sp_sse :: bool
  sp_body_override :: "string option"

definition StubProvider_default :: StubProvider where
  "StubProvider_default = \<lparr> sp_input = 1000, sp_output = 500, sp_sse = False, sp_body_override = None \<rparr>"

abbreviation QT :: string where "QT \<equiv> [CHR 0x22]"

definition stub_body :: "StubProvider \<Rightarrow> string" where
  "stub_body p = (case sp_body_override p of Some b \<Rightarrow> b
   | None \<Rightarrow> ''{'' @ QT @ ''stub'' @ QT @ '':true,'' @ QT @ ''usage'' @ QT @ '':{'' @ QT @ ''input_tokens'' @ QT @ '':'' @ nat_str (sp_input p)
       @ '','' @ QT @ ''output_tokens'' @ QT @ '':'' @ nat_str (sp_output p) @ ''}}'')"

definition stub_events :: "StubProvider \<Rightarrow> string list" where
  "stub_events p =
     [''event: message_start'' @ [CHR 0x0A] @ ''data: {'' @ QT @ ''type'' @ QT @ '':'' @ QT @ ''message_start'' @ QT @ '','' @ QT @ ''message'' @ QT
        @ '':{'' @ QT @ ''usage'' @ QT @ '':{'' @ QT @ ''input_tokens'' @ QT @ '':'' @ nat_str (sp_input p) @ ''}}}'' @ [CHR 0x0A, CHR 0x0A],
      ''event: message_delta'' @ [CHR 0x0A] @ ''data: {'' @ QT @ ''type'' @ QT @ '':'' @ QT @ ''message_delta'' @ QT @ '','' @ QT @ ''usage'' @ QT
        @ '':{'' @ QT @ ''output_tokens'' @ QT @ '':'' @ nat_str (sp_output p) @ ''}}'' @ [CHR 0x0A, CHR 0x0A],
      ''data: [DONE]'' @ [CHR 0x0A, CHR 0x0A]]"

definition stub_chunks :: "StubProvider \<Rightarrow> string option \<times> string list" where
  "stub_chunks p = (if sp_sse p then (Some ''text/event-stream'', stub_events p) else (Some ''application/json'', [stub_body p]))"

definition stub_send :: "(string \<Rightarrow> json option) \<Rightarrow> StubProvider \<Rightarrow> nat \<times> string option \<times> Relay" where
  "stub_send from_str p =
     (case stub_chunks p of (ct, cs) \<Rightarrow>
        let parsed = usage_finish from_str (foldl usage_feed [] cs)
        in (200, ct, \<lparr> rl_yielded = cs, rl_error = None,
             rl_usage = Some (if parsed = Usage_default then Usage_default\<lparr>input_tokens := sp_input p, output_tokens := sp_output p\<rparr> else parsed) \<rparr>))"

section \<open>What leaves the gateway\<close>

lemma upstream_header_iff: "(n, v) \<in> set (upstream_headers h) \<longleftrightarrow> n \<in> set FORWARD_HEADERS \<and> h n = Some v"
  by (force simp: upstream_headers_def List.map_filter_def)

text \<open>
  What the upstream is sent depends on the body and on the listed headers alone, and each is
  passed on as it came: neither the client key of the gateway nor any other \<open>x-fuse-\<close> header,
  nor a cookie, can reach a provider.
\<close>
theorem only_listed_headers_leave:
  "http_send ex from_str p h b = http_send ex from_str p (h |` set FORWARD_HEADERS) b
   \<and> (\<forall>n v. (n, v) \<in> set (upstream_headers h) \<longleftrightarrow> n \<in> set FORWARD_HEADERS \<and> h n = Some v)
   \<and> list_all (\<lambda>n. \<not> starts_with n ''x-fuse'') FORWARD_HEADERS"
proof -
  have "upstream_headers (h |` set FORWARD_HEADERS) = upstream_headers h"
    by (auto simp: upstream_headers_def List.map_filter_def restrict_map_def FORWARD_HEADERS_def)
  then have "http_send ex from_str p h b = http_send ex from_str p (h |` set FORWARD_HEADERS) b"
    by (simp add: http_send_def)
  moreover have "list_all (\<lambda>n. \<not> starts_with n ''x-fuse'') FORWARD_HEADERS"
    by (simp add: FORWARD_HEADERS_def)
  ultimately show ?thesis using upstream_header_iff by blast
qed

section \<open>The relay\<close>

lemma relay_ok: "relay from_str (map Inr cs) buf out = \<lparr> rl_yielded = out @ cs, rl_error = None, rl_usage = Some (usage_finish from_str (foldl usage_feed buf cs)) \<rparr>"
  by (induction cs arbitrary: buf out) simp_all

lemma relay_broken: "relay from_str (map Inr cs @ Inl e # rest) buf out = \<lparr> rl_yielded = out @ cs, rl_error = Some e, rl_usage = None \<rparr>"
  by (induction cs arbitrary: buf out) simp_all

text \<open>
  The relay passes every chunk on unchanged and in order, up to the first error; the usage is known
  exactly when the stream ended well, and is read from its first \<open>USAGE_CAP\<close> bytes.
\<close>
lemma relay_exact:
  "relay from_str (map Inr cs) [] [] = \<lparr> rl_yielded = cs, rl_error = None, rl_usage = Some (usage_finish from_str (take USAGE_CAP (concat cs))) \<rparr>"
  "relay from_str (map Inr cs @ Inl e # rest) [] [] = \<lparr> rl_yielded = cs, rl_error = Some e, rl_usage = None \<rparr>"
  using feed_chunks [of "[]" cs] by (simp_all add: relay_ok relay_broken)

end
