(* ===== verification/ClusterServer.thy ===== *)
theory ClusterServer
  imports Backend StrScan Utf8 NumParse OrdMap
begin

text \<open>
  The HTTP server of a cluster node (\<open>crates/cluster/src/server.rs\<close>): its routes, the
  bearer-token check, writes and linearizable reads forwarded to the leader, membership, and the client
  the nodes use among themselves; the raft transports (\<open>network.rs\<close>, \<open>net_http.rs\<close>); the node's
  command line (\<open>main.rs\<close>); and the transport the gateway's raft node serves (\<open>raft_ledger.rs\<close>).
  What openraft does at a node is a parameter over an abstract world, and so is which node
  listens at an address.
\<close>

section \<open>Nodes\<close>

type_synonym NodeId = u64

record HttpNode =
  hn_id :: NodeId
  hn_peers :: "NodeId \<rightharpoonup> string"
  hn_token :: "string option"

text \<open>\<open>client_write\<close> and \<open>ensure_linearizable\<close>: done, the leader to ask (if known), or another error.\<close>
datatype 'a RaftAnswer = Done 'a | ForwardTo "NodeId option" | RaftFailed string

record 'w RaftApi =
  ra_write :: "NodeId \<Rightarrow> 'w \<Rightarrow> Request \<Rightarrow> Response RaftAnswer \<times> 'w"
  ra_linear :: "NodeId \<Rightarrow> 'w \<Rightarrow> unit RaftAnswer"
  ra_read :: "NodeId \<Rightarrow> 'w \<Rightarrow> string \<Rightarrow> CRunState option"
  ra_forward_str :: "NodeId option \<Rightarrow> string"

section \<open>Authorization\<close>

definition bearer :: "string \<Rightarrow> string" where "bearer tok = ''Bearer '' @ tok"

definition require_auth :: "HttpNode \<Rightarrow> HeaderMap \<Rightarrow> bool" where
  "require_auth n h = (case hn_token n of None \<Rightarrow> True | Some tok \<Rightarrow> header_str h ''authorization'' = Some (bearer tok))"

text \<open>The headers of a client's call.\<close>
definition client_headers :: "string option \<Rightarrow> HeaderMap" where
  "client_headers token = (case token of Some t \<Rightarrow> [''authorization'' \<mapsto> bearer t] | None \<Rightarrow> Map.empty)"

section \<open>Routes\<close>

datatype Endpoint =
    RaftAppend | RaftVote | RaftSnapshot
  | MgmtInit | MgmtInitSingle | MgmtAddLearner | MgmtChangeMembership | MgmtMetrics
  | ApiWrite | ApiRead string | ApiReadLinear string
  | Healthz

definition STATIC_ROUTES :: "((string \<times> string) \<times> Endpoint) list" where
  "STATIC_ROUTES =
     [((''POST'', ''/raft/append''), RaftAppend), ((''POST'', ''/raft/vote''), RaftVote), ((''POST'', ''/raft/snapshot''), RaftSnapshot),
      ((''POST'', ''/mgmt/init''), MgmtInit), ((''POST'', ''/mgmt/init-single''), MgmtInitSingle), ((''POST'', ''/mgmt/add-learner''), MgmtAddLearner),
      ((''POST'', ''/mgmt/change-membership''), MgmtChangeMembership), ((''GET'', ''/mgmt/metrics''), MgmtMetrics),
      ((''POST'', ''/api/write''), ApiWrite), ((''GET'', ''/healthz''), Healthz)]"

text \<open>A path parameter is one non-empty segment, percent-decoded by the router.\<close>
definition param_route :: "(string \<Rightarrow> string option) \<Rightarrow> string \<Rightarrow> string \<Rightarrow> string option" where
  "param_route decode pre path = (case strip_prefix pre path of
     Some seg \<Rightarrow> if seg = [] \<or> CHR ''/'' \<in> set seg then None else decode seg | None \<Rightarrow> None)"

definition route :: "(string \<Rightarrow> string option) \<Rightarrow> string \<Rightarrow> string \<Rightarrow> Endpoint option" where
  "route decode meth path =
     (case map_of STATIC_ROUTES (meth, path) of
        Some e \<Rightarrow> Some e
      | None \<Rightarrow> if meth \<noteq> ''GET'' then None
          else (case param_route decode ''/api/read/'' path of
            Some run \<Rightarrow> Some (ApiRead run)
          | None \<Rightarrow> map_option ApiReadLinear (param_route decode ''/api/read-linear/'' path)))"

section \<open>Handlers\<close>

definition a_write :: "'w RaftApi \<Rightarrow> HttpNode \<Rightarrow> 'w \<Rightarrow> Request \<Rightarrow> (string, Response) result \<times> 'w" where
  "a_write r n w req = (case ra_write r (hn_id n) w req of
     (Done resp, w) \<Rightarrow> (Inr resp, w) | (ForwardTo l, w) \<Rightarrow> (Inl (ra_forward_str r l), w) | (RaftFailed e, w) \<Rightarrow> (Inl e, w))"

definition a_read :: "'w RaftApi \<Rightarrow> HttpNode \<Rightarrow> 'w \<Rightarrow> string \<Rightarrow> CRunState option" where
  "a_read r n w run = ra_read r (hn_id n) w run"

section \<open>The client\<close>

text \<open>
  The node that listens at an address, the text of a transport error and of an answer that
  does not decode (a refusal is plain text, not JSON).
\<close>
record NetEnv =
  ne_listens :: "string \<Rightarrow> HttpNode option"
  ne_down :: string
  ne_undecodable :: string

definition client_write :: "NetEnv \<Rightarrow> 'w RaftApi \<Rightarrow> string \<Rightarrow> string option \<Rightarrow> 'w \<Rightarrow> Request \<Rightarrow> (string, (string, Response) result) result \<times> 'w" where
  "client_write net r url token w req = (case ne_listens net url of
     None \<Rightarrow> (Inl (ne_down net), w)
   | Some peer \<Rightarrow>
       if require_auth peer (client_headers token) then (case a_write r peer w req of (x, w) \<Rightarrow> (Inr x, w))
       else (Inl (ne_undecodable net), w))"

text \<open>The path of a read is formatted, not encoded.\<close>
definition read_linear_path :: "string \<Rightarrow> string" where
  "read_linear_path run = ''/api/read-linear/'' @ run"

section \<open>Forwarding\<close>

definition no_address :: "NodeId \<Rightarrow> string" where
  "no_address leader = ''no address for leader '' @ nat_str leader"

text \<open>\<open>HttpNode::submit\<close>.\<close>
definition node_submit :: "NetEnv \<Rightarrow> 'w RaftApi \<Rightarrow> HttpNode \<Rightarrow> 'w \<Rightarrow> Request \<Rightarrow> (string, Response) result \<times> 'w" where
  "node_submit net r n w req = (case ra_write r (hn_id n) w req of
     (Done resp, w) \<Rightarrow> (Inr resp, w)
   | (ForwardTo (Some leader), w) \<Rightarrow>
       if leader = hn_id n then (Inl ''no leader elected'', w)
       else (case hn_peers n leader of
         None \<Rightarrow> (Inl (no_address leader), w)
       | Some url \<Rightarrow> (case client_write net r url (hn_token n) w req of (Inr x, w) \<Rightarrow> (x, w) | (Inl e, w) \<Rightarrow> (Inl e, w)))
   | (ForwardTo None, w) \<Rightarrow> (Inl ''no leader elected'', w)
   | (RaftFailed e, w) \<Rightarrow> (Inl e, w))"

text \<open>The answer of the leader's own endpoint, which may forward again: \<open>hops\<close> bounds the chain of requests.\<close>
fun read_linear :: "nat \<Rightarrow> NetEnv \<Rightarrow> 'w RaftApi \<Rightarrow> HttpNode \<Rightarrow> 'w \<Rightarrow> string \<Rightarrow> (string, CRunState option) result option" where
  "read_linear 0 net r n w run = None"
| "read_linear (Suc hops) net r n w run = (case ra_linear r (hn_id n) w of
     Done _ \<Rightarrow> Some (Inr (ra_read r (hn_id n) w run))
   | ForwardTo l \<Rightarrow> (case l of
       None \<Rightarrow> Some (Inl (ra_forward_str r l))
     | Some leader \<Rightarrow>
         if leader = hn_id n then Some (Inl (ra_forward_str r l))
         else (case hn_peers n leader of
           None \<Rightarrow> Some (Inl (no_address leader))
         | Some url \<Rightarrow> (case ne_listens net url of
             None \<Rightarrow> Some (Inl (ne_down net))
           | Some peer \<Rightarrow> if require_auth peer (client_headers (hn_token n)) then read_linear hops net r peer w run
               else Some (Inl (ne_undecodable net)))))
   | RaftFailed e \<Rightarrow> Some (Inl e))"

section \<open>One request at a node\<close>

datatype NodeReply = Unauthorized | NotRouted | Answer Endpoint

text \<open>The routes but one stand behind the token.\<close>
definition node_handle :: "(string \<Rightarrow> string option) \<Rightarrow> HttpNode \<Rightarrow> string \<Rightarrow> string \<Rightarrow> HeaderMap \<Rightarrow> NodeReply" where
  "node_handle decode n meth path h = (case route decode meth path of
     None \<Rightarrow> NotRouted
   | Some e \<Rightarrow> if e = Healthz \<or> require_auth n h then Answer e else Unauthorized)"

section \<open>The transport\<close>

datatype Transport = PlainHttp | Https string string | MutualTls string string string

definition nonempty_var :: "(string \<Rightarrow> string option) \<Rightarrow> string \<Rightarrow> string option" where
  "nonempty_var env name = (case env name of Some v \<Rightarrow> if v = [] then None else Some v | None \<Rightarrow> None)"

text \<open>\<open>RaftLedger::start\<close>: a file that cannot be read fails the start.\<close>
definition cluster_transport :: "(string \<Rightarrow> string option) \<Rightarrow> (string \<Rightarrow> (string, string) result) \<Rightarrow> (string, Transport) result" where
  "cluster_transport env read =
     (case (case (nonempty_var env ''TOKENFUSE_CLUSTER_TLS_CERT'', nonempty_var env ''TOKENFUSE_CLUSTER_TLS_KEY'') of
         (Some c, Some k) \<Rightarrow> (case read c of Inl e \<Rightarrow> Inl e | Inr cert \<Rightarrow> map_sum id (\<lambda>key. Some (cert, key)) (read k))
       | _ \<Rightarrow> Inr None) of
        Inl e \<Rightarrow> Inl e
      | Inr tls \<Rightarrow> (case (case nonempty_var env ''TOKENFUSE_CLUSTER_MTLS_CA'' of Some p \<Rightarrow> map_sum id Some (read p) | None \<Rightarrow> Inr None) of
          Inl e \<Rightarrow> Inl e
        | Inr ca \<Rightarrow> Inr (case tls of
            None \<Rightarrow> PlainHttp
          | Some (cert, key) \<Rightarrow> (case ca of Some a \<Rightarrow> MutualTls cert key a | None \<Rightarrow> Https cert key))))"

section \<open>The token\<close>

text \<open>With a token set, every route but the health check asks for it.\<close>
lemma token_guards_every_route:
  "hn_token n = Some tok \<Longrightarrow> node_handle decode n meth path h = Answer e \<Longrightarrow> e \<noteq> Healthz \<Longrightarrow> header_str h ''authorization'' = Some (bearer tok)"
  by (auto simp: node_handle_def require_auth_def split: option.splits if_splits)

text \<open>A node's own token opens its peers.\<close>
lemma own_token_accepted: "list_all visible_ascii (bearer t) \<Longrightarrow> hn_token peer = Some t \<Longrightarrow> require_auth peer (client_headers (Some t))"
  by (simp add: require_auth_def client_headers_def header_str_def)

section \<open>A submitted write is one outcome of the ledger\<close>

text \<open>
  What consensus promises a node's \<open>client_write\<close> over a committed ledger: the answer of the
  applied entry, or no entry, or an error although the entry was committed; a node that
  names a leader has written nothing.
\<close>
definition raft_writes :: "LedgerState RaftApi \<Rightarrow> bool" where
  "raft_writes r \<longleftrightarrow> (\<forall>i st req. case ra_write r i st req of
     (Done resp, st') \<Rightarrow> apply_request st req = (resp, st')
   | (ForwardTo _, st') \<Rightarrow> st' = st
   | (RaftFailed _, st') \<Rightarrow> st' = st \<or> st' = snd (apply_request st req))"

lemma raft_writesD:
  assumes "raft_writes r"
  shows "ra_write r i st req = (Done resp, st') \<Longrightarrow> apply_request st req = (resp, st')"
    and "ra_write r i st req = (ForwardTo l, st') \<Longrightarrow> st' = st"
    and "ra_write r i st req = (RaftFailed e, st') \<Longrightarrow> st' = st \<or> st' = snd (apply_request st req)"
  using assms by (auto simp: raft_writes_def dest!: spec [where x = i] spec [where x = st] spec [where x = req])

text \<open>The three outcomes a caller can see, as the replicated ledger's methods take them.\<close>
definition outcome_of_submit :: "(string, Response) result \<times> LedgerState \<Rightarrow> LedgerState \<Rightarrow> Request \<Rightarrow> bool" where
  "outcome_of_submit x st req \<longleftrightarrow> (\<exists>outcome. (case fst x of Inr resp \<Rightarrow> Some resp | Inl _ \<Rightarrow> None, snd x) = submit outcome st req)"

lemma outcome_committed: "apply_request st req = (resp, st') \<Longrightarrow> outcome_of_submit (Inr resp, st') st req"
  unfolding outcome_of_submit_def by (rule exI [of _ Committed]) (simp add: submit_def)

lemma outcome_not_applied: "outcome_of_submit (Inl e, st) st req"
  unfolding outcome_of_submit_def by (rule exI [of _ NotApplied]) (simp add: submit_def)

lemma outcome_unseen: "st' = st \<or> st' = snd (apply_request st req) \<Longrightarrow> outcome_of_submit (Inl e, st') st req"
  unfolding outcome_of_submit_def
  by (cases "st' = st") (auto simp: submit_def intro: exI [of _ NotApplied] exI [of _ AppliedUnseen])

lemma a_write_outcome: "raft_writes r \<Longrightarrow> outcome_of_submit (a_write r n st req) st req"
  by (auto simp: a_write_def split: prod.split RaftAnswer.split
      dest: raft_writesD intro: outcome_committed outcome_not_applied outcome_unseen)

text \<open>
  Submitting at any node is one of the outcomes the replicated ledger is proved for: the
  request is applied at most once, wherever the leader is and whatever the network does,
  and the response returned is that of the entry applied.
\<close>
theorem submit_is_one_outcome:
  assumes "raft_writes r"
  shows "outcome_of_submit (node_submit net r n st req) st req"
proof -
  obtain ans st1 where w: "ra_write r (hn_id n) st req = (ans, st1)" by (metis surj_pair)
  show ?thesis
  proof (cases ans)
    case (Done resp)
    then show ?thesis using raft_writesD(1) [OF assms] w by (simp add: node_submit_def outcome_committed)
  next
    case (RaftFailed e)
    then show ?thesis using raft_writesD(3) [OF assms] w by (simp add: node_submit_def outcome_unseen)
  next
    case (ForwardTo l)
    then have st1: "st1 = st" using raft_writesD(2) [OF assms] w by simp
    have c: "outcome_of_submit (case client_write net r url (hn_token n) st req of (Inr x, w) \<Rightarrow> (x, w) | (Inl e, w) \<Rightarrow> (Inl e, w)) st req" for url
      using a_write_outcome [OF assms]
      by (auto simp: client_write_def outcome_not_applied split: option.split prod.split) (metis)
    show ?thesis using ForwardTo st1 w c by (auto simp: node_submit_def outcome_not_applied split: option.split)
  qed
qed

text \<open>A follower that knows its leader returns the leader's own response.\<close>
lemma follower_forwards:
  assumes "ra_write r (hn_id n) w req = (ForwardTo (Some l), w)" and "l \<noteq> hn_id n" and "hn_peers n l = Some url"
    and "ne_listens net url = Some peer" and "require_auth peer (client_headers (hn_token n))" and "hn_id peer = l"
    and "ra_write r l w req = (Done resp, w')"
  shows "node_submit net r n w req = (Inr resp, w')"
  using assms by (simp add: node_submit_def client_write_def a_write_def)

definition demo_node :: HttpNode where
  "demo_node = \<lparr> hn_id = 1, hn_peers = Map.empty, hn_token = None \<rparr>"

definition demo_raft :: "LedgerState RaftApi" where
  "demo_raft = \<lparr> ra_write = (\<lambda>_ st req. case apply_request st req of (resp, st') \<Rightarrow> (Done resp, st')), ra_linear = (\<lambda>_ _. Done ()),
     ra_read = (\<lambda>_ st run. st run), ra_forward_str = (\<lambda>_. []) \<rparr>"

theorem submit_is_one_outcome_witness:
  "outcome_of_submit (node_submit \<lparr> ne_listens = (\<lambda>_. None), ne_down = [], ne_undecodable = [] \<rparr> demo_raft demo_node Map.empty (Open ''r'' 10 None))
     Map.empty (Open ''r'' 10 None)"
proof (rule submit_is_one_outcome)
  show "raft_writes demo_raft" by (auto simp: raft_writes_def demo_raft_def split: prod.split)
qed

section \<open>Reads\<close>

text \<open>Enough hops answer, once the nodes agree on a leader that can confirm itself.\<close>
lemma linear_read_returns:
  assumes "ra_linear r l w = Done ()" and "hn_id leader = l"
    and "ra_linear r (hn_id n) w \<in> {Done (), ForwardTo (Some l)}" and "hn_id n \<noteq> l \<longrightarrow> hn_peers n l = Some url"
    and "ne_listens net url = Some leader" and "require_auth leader (client_headers (hn_token n))"
  shows "\<exists>i. read_linear 2 net r n w run = Some (Inr (ra_read r i w run)) \<and> i \<in> {hn_id n, l}"
  using assms by (cases "hn_id n = l") (auto simp: numeral_2_eq_2)

text \<open>A run whose id holds a slash has no linearizable read from a follower: the path names no route.\<close>
lemma slash_run_not_routed: "route decode ''GET'' (read_linear_path (a @ CHR ''/'' # b)) = None"
proof -
  have s: "strip_prefix ''/api/read-linear/'' (''/api/read-linear/'' @ x) = Some x" for x by (simp add: strip_prefix_def)
  have n: "strip_prefix ''/api/read/'' (''/api/read-linear/'' @ x) = None" for x by (simp add: strip_prefix_def)
  have m: "map_of STATIC_ROUTES (''GET'', ''/api/read-linear/'' @ x) = None" for x by (simp add: STATIC_ROUTES_def)
  show ?thesis unfolding route_def read_linear_path_def m param_route_def s n by simp
qed

section \<open>Transport\<close>

text \<open>Client certificates asked for without the node's own certificate: the mesh is served in plain HTTP.\<close>
lemma client_ca_alone_is_plain:
  assumes "nonempty_var env ''TOKENFUSE_CLUSTER_TLS_CERT'' = None" and "nonempty_var env ''TOKENFUSE_CLUSTER_MTLS_CA'' = Some p" and "read p = Inr ca"
  shows "cluster_transport env read = Inr PlainHttp"
  using assms by (simp add: cluster_transport_def)

section \<open>The raft network\<close>

text \<open>
  The two transports of the raft RPCs: the in-process router (\<open>network.rs\<close>) and HTTP
  (\<open>net_http.rs\<close>).  An RPC at a node is any state-passing function, openraft's
  \<open>append_entries\<close>, \<open>vote\<close> or \<open>install_snapshot\<close>; what serde writes of its request and its
  result is taken to read back.
\<close>

datatype 'e RpcError = RpcNetwork string | RpcUnreachable string | RpcRemote NodeId 'e

type_synonym ('q, 'e, 'b, 'w) rpc = "NodeId \<Rightarrow> 'w \<Rightarrow> 'q \<Rightarrow> ('e, 'b) result \<times> 'w"

text \<open>\<open>Conn\<close>: the handle registered under the target, if any.\<close>
definition router_rpc :: "NodeId set \<Rightarrow> ('q, 'e, 'b, 'w) rpc \<Rightarrow> NodeId \<Rightarrow> 'w \<Rightarrow> 'q \<Rightarrow> ('e RpcError, 'b) result \<times> 'w" where
  "router_rpc registry f target w q =
     (if target \<in> registry then (case f target w q of (x, w) \<Rightarrow> (map_sum (RpcRemote target) id x, w))
      else (Inl (RpcUnreachable ''peer not in router''), w))"

record HttpConn =
  hc_target :: NodeId
  hc_base :: string
  hc_token :: "string option"

text \<open>The address of the replicated membership goes before the peer map's.\<close>
definition new_client :: "(NodeId \<rightharpoonup> string) \<Rightarrow> string option \<Rightarrow> NodeId \<Rightarrow> string \<Rightarrow> HttpConn" where
  "new_client peers token target addr =
     \<lparr> hc_target = target, hc_base = (if addr \<noteq> [] then addr else case peers target of Some u \<Rightarrow> u | None \<Rightarrow> []), hc_token = token \<rparr>"

text \<open>\<open>HttpConn::post\<close> against the raft endpoint of the node that listens there, which answers with its own result.\<close>
definition http_post :: "NetEnv \<Rightarrow> ('q, 'e, 'b, 'w) rpc \<Rightarrow> HttpConn \<Rightarrow> 'w \<Rightarrow> 'q \<Rightarrow> ('e RpcError, ('e, 'b) result) result \<times> 'w" where
  "http_post net f c w q =
     (if hc_base c = [] then (Inl (RpcNetwork ''no url for peer''), w)
      else (case ne_listens net (hc_base c) of
        None \<Rightarrow> (Inl (RpcNetwork (ne_down net)), w)
      | Some peer \<Rightarrow>
          if require_auth peer (client_headers (hc_token c)) then (case f (hn_id peer) w q of (x, w) \<Rightarrow> (Inr x, w))
          else (Inl (RpcNetwork (ne_undecodable net)), w)))"

definition http_rpc :: "NetEnv \<Rightarrow> ('q, 'e, 'b, 'w) rpc \<Rightarrow> HttpConn \<Rightarrow> 'w \<Rightarrow> 'q \<Rightarrow> ('e RpcError, 'b) result \<times> 'w" where
  "http_rpc net f c w q = (case http_post net f c w q of
     (Inl e, w) \<Rightarrow> (Inl e, w) | (Inr x, w) \<Rightarrow> (map_sum (RpcRemote (hc_target c)) id x, w))"

text \<open>
  A mesh: the node at every known address is the one the address stands for, and one token opens all.
\<close>
definition mesh :: "NetEnv \<Rightarrow> (NodeId \<rightharpoonup> string) \<Rightarrow> string option \<Rightarrow> bool" where
  "mesh net peers token \<longleftrightarrow> (\<forall>t. token = Some t \<longrightarrow> list_all visible_ascii (bearer t)) \<and> (\<forall>i url. peers i = Some url \<longrightarrow> url \<noteq> [] \<and>
     (\<exists>n. ne_listens net url = Some n \<and> hn_id n = i \<and> (hn_token n = None \<or> hn_token n = token)))"

text \<open>
  Over a mesh the HTTP transport is the in-process router: every RPC has the same result and effect,
  except that a target without an address is a network error; and no call has an effect at a node that
  refuses the token.
\<close>
theorem http_is_the_router:
  assumes "mesh net peers token"
  shows "target \<in> dom peers \<Longrightarrow> http_rpc net f (new_client peers token target []) w q = router_rpc (dom peers) f target w q"
    and "target \<notin> dom peers \<Longrightarrow> http_rpc net f (new_client peers token target []) w q = (Inl (RpcNetwork ''no url for peer''), w)"
proof -
  show "http_rpc net f (new_client peers token target []) w q = router_rpc (dom peers) f target w q" if known: "target \<in> dom peers"
  proof -
    obtain url where url: "peers target = Some url" using known by blast
    then obtain n where n: "url \<noteq> []" "ne_listens net url = Some n" "hn_id n = target" "hn_token n = None \<or> hn_token n = token"
      using assms unfolding mesh_def by blast
    have "require_auth n (client_headers token)"
    proof (cases "hn_token n")
      case (Some t)
      then have "token = Some t" "list_all visible_ascii (bearer t)" using n(4) assms unfolding mesh_def by auto
      then show ?thesis using own_token_accepted Some by simp
    qed (simp add: require_auth_def)
    then show ?thesis using url n(1-3) known
      by (simp add: http_rpc_def http_post_def new_client_def router_rpc_def split_beta)
  qed
  show "http_rpc net f (new_client peers token target []) w q = (Inl (RpcNetwork ''no url for peer''), w)" if "target \<notin> dom peers"
  proof -
    have "peers target = None" using that by blast
    then show ?thesis by (simp add: http_rpc_def http_post_def new_client_def)
  qed
qed

theorem http_is_the_router_witness:
  "http_rpc \<lparr> ne_listens = [''u'' \<mapsto> demo_node], ne_down = [], ne_undecodable = [] \<rparr> (\<lambda>i w q. (Inr (q + w) :: (string, nat) result, w + 1))
     (new_client [1 \<mapsto> ''u''] None 1 []) (2 :: nat) 3 = (Inr 5, 3)"
proof -
  let ?net = "\<lparr> ne_listens = [''u'' \<mapsto> demo_node], ne_down = [], ne_undecodable = [] \<rparr>"
  have "mesh ?net [1 \<mapsto> ''u''] None" by (simp add: mesh_def demo_node_def)
  from http_is_the_router(1) [OF this, of 1 "\<lambda>i w q. (Inr (q + w) :: (string, nat) result, w + 1)" "2 :: nat" 3]
  show ?thesis by (simp add: router_rpc_def)
qed

lemma refused_rpc_has_no_effect:
  "ne_listens net (hc_base c) = Some peer \<Longrightarrow> \<not> require_auth peer (client_headers (hc_token c)) \<Longrightarrow> snd (http_rpc net f c w q) = w"
  by (simp add: http_rpc_def http_post_def)

section \<open>Membership\<close>

text \<open>The management calls of a node over openraft's.\<close>
record 'w RaftAdmin =
  ad_initialize :: "NodeId \<Rightarrow> 'w \<Rightarrow> (NodeId \<rightharpoonup> string) \<Rightarrow> (string, unit) result \<times> 'w"
  ad_add_learner :: "NodeId \<Rightarrow> 'w \<Rightarrow> NodeId \<Rightarrow> string \<Rightarrow> (string, unit) result \<times> 'w"
  ad_change :: "NodeId \<Rightarrow> 'w \<Rightarrow> NodeId set \<Rightarrow> (string, unit) result \<times> 'w"
  ad_leader :: "NodeId \<Rightarrow> 'w \<Rightarrow> NodeId option"
  ad_state :: "NodeId \<Rightarrow> 'w \<Rightarrow> string"

definition node_init :: "'w RaftAdmin \<Rightarrow> HttpNode \<Rightarrow> 'w \<Rightarrow> (string, unit) result \<times> 'w" where
  "node_init a n w = ad_initialize a (hn_id n) w (hn_peers n)"

definition init_single :: "'w RaftAdmin \<Rightarrow> HttpNode \<Rightarrow> 'w \<Rightarrow> (string, unit) result \<times> 'w" where
  "init_single a n w = ad_initialize a (hn_id n) w [hn_id n \<mapsto> (case hn_peers n (hn_id n) of Some u \<Rightarrow> u | None \<Rightarrow> [])]"

definition add_learner :: "'w RaftAdmin \<Rightarrow> HttpNode \<Rightarrow> 'w \<Rightarrow> NodeId \<Rightarrow> string \<Rightarrow> (string, unit) result \<times> 'w" where
  "add_learner a n w i addr = ad_add_learner a (hn_id n) w i addr"

definition change_membership :: "'w RaftAdmin \<Rightarrow> HttpNode \<Rightarrow> 'w \<Rightarrow> NodeId set \<Rightarrow> (string, unit) result \<times> 'w" where
  "change_membership a n w voters = ad_change a (hn_id n) w voters"

record MetricsSummary =
  ms_id :: NodeId
  ms_leader :: "NodeId option"
  ms_state :: string

definition m_metrics :: "'w RaftAdmin \<Rightarrow> HttpNode \<Rightarrow> 'w \<Rightarrow> MetricsSummary" where
  "m_metrics a n w = \<lparr> ms_id = hn_id n, ms_leader = ad_leader a (hn_id n) w, ms_state = ad_state a (hn_id n) w \<rparr>"

section \<open>The client's certificates\<close>

record ClientTls =
  ct_root :: "string option"
  ct_identity :: "string option"

text \<open>\<open>build_client\<close>: \<open>cert_ok\<close> and \<open>identity_ok\<close> are the PEM parsers; what cannot be read or parsed is left out.\<close>
definition build_client :: "(string \<Rightarrow> string option) \<Rightarrow> (string \<Rightarrow> string option) \<Rightarrow> (string \<Rightarrow> bool) \<Rightarrow> (string \<Rightarrow> bool) \<Rightarrow> ClientTls" where
  "build_client env read cert_ok identity_ok =
     \<lparr> ct_root = (case Option.bind (env ''TOKENFUSE_CLUSTER_CA'') read of Some pem \<Rightarrow> if cert_ok pem then Some pem else None | None \<Rightarrow> None),
       ct_identity = (case (nonempty_var env ''TOKENFUSE_CLUSTER_CLIENT_CERT'', nonempty_var env ''TOKENFUSE_CLUSTER_CLIENT_KEY'') of
          (Some c, Some k) \<Rightarrow> (case (read c, read k) of
              (Some cert, Some key) \<Rightarrow> (let pem = cert @ [CHR 0x0A] @ key in if identity_ok pem then Some pem else None)
            | _ \<Rightarrow> None)
        | _ \<Rightarrow> None) \<rparr>"

section \<open>The node's command line\<close>

text \<open>\<open>parse_flags\<close> of \<open>main.rs\<close>: a flag that stands where a value is expected loses its own value.\<close>
fun parse_flags :: "string list \<Rightarrow> (string \<times> string) list \<Rightarrow> (string \<times> string) list" where
  "parse_flags [] out = out"
| "parse_flags [a] out = (case strip_prefix ''--'' a of Some key \<Rightarrow> bt_insert key [] out | None \<Rightarrow> out)"
| "parse_flags (a # v # args) out = (case strip_prefix ''--'' a of
     None \<Rightarrow> parse_flags (v # args) out
   | Some key \<Rightarrow>
       if \<not> starts_with v ''--'' then parse_flags args (bt_insert key v out)
       else parse_flags args (case strip_prefix ''--'' v of Some k2 \<Rightarrow> bt_insert k2 [] (bt_insert key [] out) | None \<Rightarrow> bt_insert key [] out))"

definition parse_peers :: "string \<Rightarrow> (u64 \<times> string) list" where
  "parse_peers spec = fold (\<lambda>pair m. case split_once (CHR ''='') pair of
       Some (i, url) \<Rightarrow> (case parse_u64 (trim i) of Some n \<Rightarrow> bt_insert n (trim url) m | None \<Rightarrow> m)
     | None \<Rightarrow> m) (filter (\<lambda>s. s \<noteq> []) (split_char (CHR '','') spec)) []"

record NodeConfig =
  nc_node :: HttpNode
  nc_addr :: string
  nc_init :: bool
  nc_transport :: Transport

definition flag_transport :: "(string \<rightharpoonup> string) \<Rightarrow> (string \<Rightarrow> (string, string) result) \<Rightarrow> (string, Transport) result" where
  "flag_transport flags read = (case (nonempty_var flags ''tls-cert'', nonempty_var flags ''tls-key'') of
     (Some c, Some k) \<Rightarrow> (case (read c, read k) of
         (Inl e, _) \<Rightarrow> Inl e
       | (Inr cert, Inl e) \<Rightarrow> Inl e
       | (Inr cert, Inr key) \<Rightarrow> (case nonempty_var flags ''mtls-ca'' of
           Some ca \<Rightarrow> map_sum id (MutualTls cert key) (read ca) | None \<Rightarrow> Inr (Https cert key)))
   | _ \<Rightarrow> Inr PlainHttp)"

text \<open>\<open>serve\<close>: what the node runs with; \<open>addr_err\<close> is the socket-address parser's error.\<close>
definition node_serve :: "(string \<Rightarrow> string option) \<Rightarrow> (string \<Rightarrow> (string, string) result) \<Rightarrow> string list \<Rightarrow> (string, NodeConfig) result" where
  "node_serve addr_err read args =
     (let flags = map_of (parse_flags args []) in
      case Option.bind (flags ''id'') parse_u64 of
        None \<Rightarrow> Inl ''--id required''
      | Some i \<Rightarrow> (case flags ''http'' of
        None \<Rightarrow> Inl ''--http addr required''
      | Some http \<Rightarrow> (case addr_err http of
        Some e \<Rightarrow> Inl e
      | None \<Rightarrow> map_sum id (\<lambda>t. \<lparr> nc_node = \<lparr> hn_id = i, hn_peers = map_of (parse_peers (case flags ''peers'' of Some s \<Rightarrow> s | None \<Rightarrow> [])), hn_token = flags ''token'' \<rparr>,
           nc_addr = http, nc_init = (flags ''init'' \<noteq> None), nc_transport = t \<rparr>) (flag_transport flags read))))"

text \<open>The node's own call that initializes the cluster is made without the token: a node with one refuses it.\<close>
definition init_accepted :: "NodeConfig \<Rightarrow> bool" where
  "init_accepted c \<longleftrightarrow> require_auth (nc_node c) (client_headers None) \<and> nc_transport c = PlainHttp"

lemma token_stops_init: "hn_token (nc_node c) = Some tok \<Longrightarrow> \<not> init_accepted c"
  by (simp add: init_accepted_def require_auth_def client_headers_def header_str_def)

text \<open>A token or certificate that follows \<open>--init\<close> is lost: the node runs with the empty token, or in plain HTTP.\<close>
lemma init_swallows_token:
  assumes "\<not> starts_with s ''--''"
  shows "parse_flags [''--init'', ''--token'', s] [] = [(''init'', []), (''token'', [])]"
proof -
  have "strip_prefix ''--'' ''--init'' = Some ''init''" "strip_prefix ''--'' ''--token'' = Some ''token''" by code_simp+
  moreover have "strip_prefix ''--'' s = None" using assms by (simp add: strip_prefix_def)
  moreover have "starts_with ''--token'' ''--''" by code_simp
  moreover have "bt_insert ''token'' ([] :: string) (bt_insert ''init'' [] []) = [(''init'', []), (''token'', [])]" by code_simp
  ultimately show ?thesis by (simp del: bt_insert.simps)
qed

lemma init_swallows_certificate:
  assumes "\<not> starts_with c ''--''" "\<not> starts_with k ''--''"
  shows "flag_transport (map_of (parse_flags [''--init'', ''--tls-cert'', c, ''--tls-key'', k] [])) read = Inr PlainHttp"
proof -
  have "strip_prefix ''--'' ''--init'' = Some ''init''" "strip_prefix ''--'' ''--tls-cert'' = Some ''tls-cert''"
    "strip_prefix ''--'' ''--tls-key'' = Some ''tls-key''" by code_simp+
  moreover have "strip_prefix ''--'' c = None" using assms by (simp add: strip_prefix_def)
  moreover have "starts_with ''--tls-cert'' ''--''" by code_simp
  moreover have "bt_insert ''tls-key'' k (bt_insert ''tls-cert'' ([] :: string) (bt_insert ''init'' [] [])) = [(''init'', []), (''tls-cert'', []), (''tls-key'', k)]"
    by code_simp
  ultimately have "parse_flags [''--init'', ''--tls-cert'', c, ''--tls-key'', k] [] = [(''init'', []), (''tls-cert'', []), (''tls-key'', k)]"
    using assms(2) by (simp del: bt_insert.simps)
  then show ?thesis by (simp add: flag_transport_def nonempty_var_def)
qed

end
