(* ===== verification/TopScreen.thy ===== *)
theory TopScreen
  imports Money Utf8
begin

text \<open>
  \<open>tokenfuse top\<close> (\<open>crates/gateway/src/tui.rs\<close>): the texts and colours of the table, and the loop
  that fetches the runs, draws them and acts on a key.  The terminal, the HTTP exchange and
  the JSON decoder are parameters: an iteration is given what it fetched, whether drawing
  failed, and the event it read.
\<close>

section \<open>The table\<close>

record RunRow =
  rw_run_id :: string
  rw_budget_usd :: f64
  rw_spent_usd :: f64
  rw_reserved_usd :: f64
  rw_steps :: u32
  rw_pct_used :: f64
  rw_killed :: bool

text \<open>\<open>{:.0}\<close>\<close>
fun fixed0 :: "f64 \<Rightarrow> string" where
  "fixed0 (Fin a) = (if a < 0 then ''-'' else []) @ nat_str (nat (round_half_even \<bar>a\<bar>))"
| "fixed0 PInf = ''inf''"
| "fixed0 NInf = ''-inf''"
| "fixed0 NaN = ''NaN''"

definition fmt_usd :: "f64 \<Rightarrow> string" where
  "fmt_usd v = ''$'' @ (if f64_ge v (Fin 100) then fixed0 v else if f64_ge v (Fin 1) then f64_fixed 2 v else f64_fixed 4 v)"

definition FULL_BLOCK :: string where "FULL_BLOCK = [CHR 0xE2, CHR 0x96, CHR 0x88]"
definition LIGHT_SHADE :: string where "LIGHT_SHADE = [CHR 0xE2, CHR 0x96, CHR 0x91]"

text \<open>\<open>clamp(0.0, 100.0)\<close>, which keeps a NaN.\<close>
definition clamp_pct :: "f64 \<Rightarrow> f64" where
  "clamp_pct p = (if p = NaN then NaN else if \<not> f64_ge p (Fin 0) then Fin 0 else if f64_ge p (Fin 100) then Fin 100 else p)"

text \<open>\<open>x as usize\<close>: truncated, with negative values and NaN mapped to 0.\<close>
fun f64_to_usize :: "f64 \<Rightarrow> usize" where
  "f64_to_usize (Fin a) = min (nat (rat_trunc a)) (2 ^ 64 - 1)"
| "f64_to_usize PInf = 2 ^ 64 - 1"
| "f64_to_usize NInf = 0"
| "f64_to_usize NaN = 0"

definition filled_cells :: "f64 \<Rightarrow> usize \<Rightarrow> usize" where
  "filled_cells pct width = min (f64_to_usize (f64_round_away (f64_mul (f64_div_const (clamp_pct pct) 100) (f64_of_int (int width))))) width"

definition bar :: "f64 \<Rightarrow> usize \<Rightarrow> string" where
  "bar pct width = concat (map (\<lambda>i. if i < filled_cells pct width then FULL_BLOCK else LIGHT_SHADE) [0..<width])"

datatype Color = DarkGray | Red | Yellow | Green

definition pct_color :: "f64 \<Rightarrow> bool \<Rightarrow> Color" where
  "pct_color pct is_dead = (if is_dead then DarkGray else if f64_ge pct (Fin 100) then Red else if f64_ge pct (Fin 85) then Yellow else Green)"

definition row_cells :: "RunRow \<Rightarrow> string list \<times> Color" where
  "row_cells r = ([rw_run_id r, fmt_usd (rw_spent_usd r) @ '' / '' @ fmt_usd (rw_budget_usd r), bar (rw_pct_used r) 16,
     fixed0 (rw_pct_used r) @ ''%'', nat_str (rw_steps r), (if rw_killed r then ''KILLED'' else [])], pct_color (rw_pct_used r) (rw_killed r))"

section \<open>The loop\<close>

datatype KeyCode = KChar char | KEsc | KDown | KUp | KEnter | KOther

text \<open>One poll: a key that was pressed, an event of another kind, none within half a second, or an error.\<close>
datatype TopEvent = Pressed KeyCode | OtherEvent | Quiet | PollFailed string

record Top =
  tp_selected :: "usize option"
  tp_action :: "string option"
  tp_posts :: "string list"

definition Top_default :: Top where
  "Top_default = \<lparr> tp_selected = None, tp_action = None, tp_posts = [] \<rparr>"

definition runs_url :: "string \<Rightarrow> string" where "runs_url addr = addr @ ''/v1/runs''"
definition kill_url :: "string \<Rightarrow> string \<Rightarrow> string" where "kill_url addr run = addr @ ''/v1/runs/'' @ run @ ''/kill''"

definition DOT :: string where "DOT = '' '' @ [CHR 0xC2, CHR 0xB7] @ '' ''"

text \<open>What was fetched: a failure is an empty table and a note.\<close>
definition fetched :: "string \<Rightarrow> (string, RunRow list) result \<Rightarrow> RunRow list \<times> string" where
  "fetched addr x = (case x of
     Inr rs \<Rightarrow> (rs, ''connected'' @ DOT @ nat_str (length rs) @ '' run(s)'')
   | Inl e \<Rightarrow> ([], ''gateway unreachable at '' @ addr @ '': '' @ e))"

definition in_range :: "RunRow list \<Rightarrow> usize option \<Rightarrow> usize option" where
  "in_range runs sel = (if runs = [] then None else Some (min (case sel of Some i \<Rightarrow> i | None \<Rightarrow> 0) (length runs - 1)))"

text \<open>What a frame shows: the rows, the one highlighted, and what varies of the line below.\<close>
record Frame =
  fr_rows :: "(string list \<times> Color) list"
  fr_highlight :: "usize option"
  fr_help :: string

definition draw :: "RunRow list \<Rightarrow> usize option \<Rightarrow> string \<Rightarrow> string option \<Rightarrow> Frame" where
  "draw runs sel conn act = \<lparr> fr_rows = map row_cells runs, fr_highlight = sel,
     fr_help = '' '' @ conn @ (case act of Some a \<Rightarrow> DOT @ a | None \<Rightarrow> []) \<rparr>"

definition kill_selected :: "string \<Rightarrow> RunRow list \<Rightarrow> Top \<Rightarrow> Top" where
  "kill_selected addr runs t = (case tp_selected t of
     Some i \<Rightarrow> if i < length runs
       then t\<lparr>tp_posts := tp_posts t @ [kill_url addr (rw_run_id (runs ! i))], tp_action := Some (''killed '' @ rw_run_id (runs ! i))\<rparr> else t
   | None \<Rightarrow> t)"

definition move :: "(usize \<Rightarrow> usize) \<Rightarrow> RunRow list \<Rightarrow> Top \<Rightarrow> Top" where
  "move f runs t = (if runs = [] then t else t\<lparr>tp_selected := Some (case tp_selected t of Some i \<Rightarrow> f i mod length runs | None \<Rightarrow> 0)\<rparr>)"

definition key_step :: "string \<Rightarrow> RunRow list \<Rightarrow> KeyCode \<Rightarrow> Top \<Rightarrow> Top" where
  "key_step addr runs k t = (case k of
     KDown \<Rightarrow> move (\<lambda>i. i + 1) runs t
   | KUp \<Rightarrow> move (\<lambda>i. i + length runs - 1) runs t
   | KEnter \<Rightarrow> kill_selected addr runs t
   | KChar c \<Rightarrow> if c = CHR ''j'' then move (\<lambda>i. i + 1) runs t else if c = CHR ''k'' then kill_selected addr runs t else t
   | _ \<Rightarrow> t)"

definition quits :: "KeyCode \<Rightarrow> bool" where "quits k \<longleftrightarrow> k = KEsc \<or> k = KChar (CHR ''q'')"

text \<open>One iteration: the frame it drew, and how the loop goes on or ends.\<close>
definition top_iter :: "string \<Rightarrow> (string, RunRow list) result \<Rightarrow> string option \<Rightarrow> TopEvent \<Rightarrow> Top \<Rightarrow> Frame \<times> (string option, Top) result \<times> Top" where
  "top_iter addr x draw_error ev t =
     (case fetched addr x of (runs, conn) \<Rightarrow>
        let t = t\<lparr>tp_selected := in_range runs (tp_selected t)\<rparr>;
            fr = draw runs (tp_selected t) conn (tp_action t)
        in case draw_error of
             Some e \<Rightarrow> (fr, Inl (Some e), t)
           | None \<Rightarrow> (case ev of
               Pressed k \<Rightarrow> if quits k then (fr, Inl None, t) else (let t = key_step addr runs k t in (fr, Inr t, t))
             | PollFailed e \<Rightarrow> (fr, Inl (Some e), t)
             | _ \<Rightarrow> (fr, Inr t, t)))"

text \<open>The iterations until the first that ends the loop: their frames, and the state after.\<close>
fun top_run :: "string \<Rightarrow> ((string, RunRow list) result \<times> string option \<times> TopEvent) list \<Rightarrow> Top \<Rightarrow> Frame list \<times> Top" where
  "top_run addr [] t = ([], t)"
| "top_run addr ((x, d, ev) # xs) t = (case top_iter addr x d ev t of
     (fr, Inr t', _) \<Rightarrow> (case top_run addr xs t' of (frs, u) \<Rightarrow> (fr # frs, u))
   | (fr, Inl _, t') \<Rightarrow> ([fr], t'))"

section \<open>What is killed is what is highlighted\<close>

definition highlighted :: "string \<Rightarrow> Frame \<Rightarrow> string \<Rightarrow> bool" where
  "highlighted addr fr url \<longleftrightarrow> (\<exists>i. fr_highlight fr = Some i \<and> i < length (fr_rows fr) \<and> url = kill_url addr (hd (fst (fr_rows fr ! i))))"

definition frame_ok :: "Frame \<Rightarrow> bool" where
  "frame_ok fr \<longleftrightarrow> (case fr_highlight fr of Some i \<Rightarrow> i < length (fr_rows fr) | None \<Rightarrow> fr_rows fr = [])"

lemma in_range_less: "in_range runs sel = Some i \<Longrightarrow> i < length runs"
proof -
  have "runs \<noteq> [] \<Longrightarrow> length runs - 1 < length runs" by (cases runs) simp_all
  then show "in_range runs sel = Some i \<Longrightarrow> i < length runs"
    by (auto simp: in_range_def intro: min.strict_coboundedI2 split: if_splits)
qed

lemma posts_unchanged [simp]: "tp_posts (move f runs t) = tp_posts t"
  by (simp add: move_def)

lemma killed_row:
  "tp_posts (kill_selected addr runs t) = tp_posts t \<or>
     (\<exists>i. tp_selected t = Some i \<and> i < length runs \<and> tp_posts (kill_selected addr runs t) = tp_posts t @ [kill_url addr (rw_run_id (runs ! i))])"
  by (simp add: kill_selected_def split: option.split)

lemma key_step_posts:
  "tp_posts (key_step addr runs k t) = tp_posts t \<or>
     (\<exists>i. tp_selected t = Some i \<and> i < length runs \<and> tp_posts (key_step addr runs k t) = tp_posts t @ [kill_url addr (rw_run_id (runs ! i))])"
  using killed_row [of addr runs t] by (auto simp: key_step_def split: KeyCode.split)

lemma top_iter_posts:
  assumes "top_iter addr x d ev t = (fr, y, t')"
  shows "frame_ok fr \<and> (tp_posts t' = tp_posts t \<or> (\<exists>url. highlighted addr fr url \<and> tp_posts t' = tp_posts t @ [url])) \<and> (\<forall>u. y = Inr u \<longrightarrow> u = t')"
proof -
  obtain runs conn where f: "fetched addr x = (runs, conn)" by (metis surj_pair)
  define s where "s = t\<lparr>tp_selected := in_range runs (tp_selected t)\<rparr>"
  have fr: "fr = draw runs (tp_selected s) conn (tp_action s)" and y: "\<forall>u. y = Inr u \<longrightarrow> u = t'" and t': "t' = s \<or> (\<exists>k. t' = key_step addr runs k s)"
    using assms by (auto simp: top_iter_def f Let_def s_def split: option.splits TopEvent.splits if_splits)
  have "frame_ok fr" using in_range_less [of runs "tp_selected t"]
    by (auto simp: fr frame_ok_def draw_def s_def in_range_def split: if_splits option.split)
  moreover have "highlighted addr fr (kill_url addr (rw_run_id (runs ! i)))" if "tp_selected s = Some i" "i < length runs" for i
    using that by (auto simp: highlighted_def fr draw_def row_cells_def)
  moreover have "tp_posts t' = tp_posts t \<or> (\<exists>url. highlighted addr fr url \<and> tp_posts t' = tp_posts t @ [url])"
  proof (cases "t' = s")
    case False
    then obtain k where "t' = key_step addr runs k s" using t' by blast
    then have "tp_posts t' = tp_posts t \<or> (\<exists>i. tp_selected s = Some i \<and> i < length runs \<and> tp_posts t' = tp_posts t @ [kill_url addr (rw_run_id (runs ! i))])"
      using key_step_posts [of addr runs k s] by (simp add: s_def)
    then show ?thesis using calculation(2) by blast
  qed (simp add: s_def)
  ultimately show ?thesis using y by blast
qed

text \<open>
  Over every sequence of answers, keys and failures, each frame highlights one of its rows when it
  has any, and every run the dashboard asks the gateway to kill was the highlighted row of a frame
  that was on the screen when the key was pressed.
\<close>
theorem kills_what_is_highlighted:
  "list_all frame_ok (fst (top_run addr xs t)) \<and>
   (\<exists>new. tp_posts (snd (top_run addr xs t)) = tp_posts t @ new \<and> (\<forall>url\<in>set new. \<exists>fr\<in>set (fst (top_run addr xs t)). highlighted addr fr url))"
proof (induction xs arbitrary: t)
  case (Cons z xs)
  obtain x d ev where z: "z = (x, d, ev)" by (metis surj_pair)
  obtain fr y t' where i: "top_iter addr x d ev t = (fr, y, t')" by (metis surj_pair)
  note p = top_iter_posts [OF i]
  show ?case
  proof (cases y)
    case (Inl e)
    then show ?thesis using p by (auto simp: z i)
  next
    case (Inr u)
    then have u: "u = t'" using p by blast
    obtain frs v where r: "top_run addr xs u = (frs, v)" by (metis surj_pair)
    have e: "top_run addr (z # xs) t = (fr # frs, v)" by (simp add: z i Inr r)
    obtain new where new: "list_all frame_ok frs" "tp_posts v = tp_posts u @ new" "\<forall>url\<in>set new. \<exists>fr\<in>set frs. highlighted addr fr url"
      using Cons.IH [of u] by (auto simp: r)
    show ?thesis
    proof (cases "tp_posts t' = tp_posts t")
      case True
      then show ?thesis using p new by (auto simp: e u)
    next
      case False
      then obtain url where "highlighted addr fr url" "tp_posts t' = tp_posts t @ [url]" using p by blast
      then show ?thesis using p new by (auto simp: e u intro!: exI [of _ "url # new"])
    qed
  qed
qed simp

text \<open>The key the module's documentation lists for moving the selection kills the selected run.\<close>
lemma k_kills: "i < length runs \<Longrightarrow> tp_selected t = Some i \<Longrightarrow>
    tp_posts (key_step addr runs (KChar (CHR ''k'')) t) = tp_posts t @ [kill_url addr (rw_run_id (runs ! i))]"
  by (simp add: key_step_def kill_selected_def)

text \<open>The action shown does not depend on whether the kill reached the gateway.\<close>
lemma kill_reported: "i < length runs \<Longrightarrow> tp_selected t = Some i \<Longrightarrow> tp_action (kill_selected addr runs t) = Some (''killed '' @ rw_run_id (runs ! i))"
  by (simp add: kill_selected_def)

lemma bar_width: "length (bar pct width) = 3 * width"
  by (induction width) (auto simp: bar_def FULL_BLOCK_def LIGHT_SHADE_def length_concat comp_def if_distrib sum_list_triv cong: if_cong)

end
