(* ===== verification/Radar.thy ===== *)
theory Radar
  imports Utf8
begin

text \<open>
  The radar (\<open>crates/radar\<close>): the probe at the entry of \<open>connect\<close>
  (\<open>radar-ebpf/src/main.rs\<close>), which reads a socket address from the caller's memory, and the
  program that prints the connections (\<open>src/main.rs\<close>).  The kernel's helpers, the ring
  buffer and name resolution are parameters; memory is little-endian, as on the one
  architecture whose tracepoint offset the probe uses.
\<close>

section \<open>The probe\<close>

record ConnEvent =
  ev_pid :: u32
  ev_dport :: nat
  ev_daddr :: u32
  ev_comm :: string

record SockAddrIn =
  sin_family :: nat
  sin_port :: nat
  sin_addr :: u32

text \<open>A structure read from eight bytes of a little-endian machine.\<close>
definition sockaddr_of :: "nat list \<Rightarrow> SockAddrIn" where
  "sockaddr_of mem = \<lparr> sin_family = mem ! 0 + 256 * mem ! 1, sin_port = mem ! 2 + 256 * mem ! 3,
     sin_addr = mem ! 4 + 256 * (mem ! 5 + 256 * (mem ! 6 + 256 * mem ! 7)) \<rparr>"

definition u16_from_be :: "nat \<Rightarrow> nat" where
  "u16_from_be x = x mod 256 * 256 + x div 256"

definition u32_from_be :: "u32 \<Rightarrow> u32" where
  "u32_from_be x = ((x mod 256 * 256 + x div 256 mod 256) * 256 + x div 65536 mod 256) * 256 + x div 16777216"

definition AF_INET :: nat where "AF_INET = 2"

text \<open>
  \<open>arg\<close> is the pointer argument of the call, if it can be read; \<open>read_user\<close> reads eight
  bytes of the caller's memory; \<open>space\<close> is whether the ring has room.
\<close>
definition try_radar :: "u64 option \<Rightarrow> (u64 \<Rightarrow> nat list option) \<Rightarrow> u64 \<Rightarrow> string option \<Rightarrow> bool \<Rightarrow> ConnEvent option" where
  "try_radar arg read_user pid_tgid comm space = (case arg of
     None \<Rightarrow> None
   | Some p \<Rightarrow> if p = 0 then None else (case read_user p of
       None \<Rightarrow> None
     | Some mem \<Rightarrow> let sa = sockaddr_of mem in
         if sin_family sa \<noteq> AF_INET \<or> \<not> space then None
         else Some \<lparr> ev_pid = pid_tgid div 2 ^ 32, ev_dport = u16_from_be (sin_port sa), ev_daddr = u32_from_be (sin_addr sa),
                ev_comm = (case comm of Some c \<Rightarrow> c | None \<Rightarrow> replicate 16 (CHR 0x00)) \<rparr>))"

section \<open>The report\<close>

definition ipv4_str :: "u32 \<Rightarrow> string" where
  "ipv4_str a = nat_str (a div 16777216) @ ''.'' @ nat_str (a div 65536 mod 256) @ ''.'' @ nat_str (a div 256 mod 256) @ ''.'' @ nat_str (a mod 256)"

definition is_loopback :: "u32 \<Rightarrow> bool" where "is_loopback a \<longleftrightarrow> a div 16777216 = 127"

definition is_llm :: "u32 \<Rightarrow> nat \<Rightarrow> u32 set \<Rightarrow> string option" where
  "is_llm ip port llm = (if ip \<in> llm then Some ''LLM provider'' else if port = 11434 then Some ''local Ollama''
     else if port = 8000 \<or> port = 8001 then Some ''local vLLM?'' else None)"

definition LLM_HOSTS :: "string list" where
  "LLM_HOSTS = [''api.anthropic.com:443'', ''api.openai.com:443'', ''generativelanguage.googleapis.com:443'']"

text \<open>\<open>resolve\<close> gives the IPv4 addresses of a host, or nothing when it does not resolve.\<close>
definition resolve_llm_ips :: "(string \<Rightarrow> u32 list option) \<Rightarrow> u32 set" where
  "resolve_llm_ips resolve = (\<Union>h\<in>set LLM_HOSTS. case resolve h of Some as \<Rightarrow> set as | None \<Rightarrow> {})"

definition comm_str :: "string \<Rightarrow> string" where
  "comm_str c = rev (dropWhile (\<lambda>x. x = CHR 0x00) (rev (from_utf8_lossy c)))"

text \<open>The line printed for an event, if any.\<close>
definition event_line :: "u32 set \<Rightarrow> ConnEvent \<Rightarrow> string option" where
  "event_line llm ev =
     (let ip = ev_daddr ev; comm = comm_str (ev_comm ev); flag = (case is_llm ip (ev_dport ev) llm of Some f \<Rightarrow> f | None \<Rightarrow> [])
      in if ev_dport ev = 0 then None
         else if is_loopback ip \<and> ev_dport ev \<noteq> 11434 \<and> ev_dport ev \<noteq> 8000 then None
         else if comm = ''tokenfuse-radar'' then None
         else Some (pad_end 8 (nat_str (ev_pid ev)) @ '' '' @ pad_end 16 comm @ '' '' @ pad_end 21 (ipv4_str ip @ '':'' @ nat_str (ev_dport ev))
                @ '' '' @ (if flag = [] then [] else ''  <== '') @ flag))"

section \<open>Which connections are reported\<close>

definition byte_list :: "nat list \<Rightarrow> bool" where "byte_list mem \<longleftrightarrow> (\<forall>b\<in>set mem. b < 256)"

lemma low_byte: "d < 256 \<Longrightarrow> (x * 256 + d) mod 256 = d" "d < 256 \<Longrightarrow> (x * 256 + d) div 256 = (x :: nat)"
  by simp_all

lemma low_byte': "d < 256 \<Longrightarrow> (d + 256 * x) mod 256 = d" "d < 256 \<Longrightarrow> (d + 256 * x) div 256 = (x :: nat)"
  by simp_all

lemma u16_from_be_bytes: "a < 256 \<Longrightarrow> b < 256 \<Longrightarrow> u16_from_be (a + 256 * b) = a * 256 + b"
  by (simp add: u16_from_be_def)

lemma u32_from_be_bytes:
  assumes "a < 256" "b < 256" "c < 256" "d < 256"
  shows "u32_from_be (a + 256 * (b + 256 * (c + 256 * d))) = ((a * 256 + b) * 256 + c) * 256 + d"
proof -
  define x2 where "x2 = c + 256 * d"
  define x1 where "x1 = b + 256 * x2"
  define x where "x = a + 256 * x1"
  have "x mod 256 = a" "x div 256 = x1" "x1 mod 256 = b" "x1 div 256 = x2" "x2 mod 256 = c" "x2 div 256 = d"
    unfolding x_def x1_def x2_def using assms by (simp_all only: low_byte')
  moreover have "x div 65536 = x div 256 div 256" "x div 16777216 = x div 256 div 256 div 256" by (simp_all flip: div_mult2_eq)
  ultimately have "u32_from_be x = ((a * 256 + b) * 256 + c) * 256 + d" by (simp only: u32_from_be_def)
  then show ?thesis by (simp only: x_def x1_def x2_def)
qed

text \<open>The address of a connection in dotted form, read from the socket address in network order.\<close>
definition dotted :: "nat list \<Rightarrow> string" where
  "dotted mem = nat_str (mem ! 4) @ ''.'' @ nat_str (mem ! 5) @ ''.'' @ nat_str (mem ! 6) @ ''.'' @ nat_str (mem ! 7)"

lemma ipv4_str_bytes:
  assumes "a < 256" "b < 256" "c < 256" "d < 256"
  shows "ipv4_str (((a * 256 + b) * 256 + c) * 256 + d) = nat_str a @ ''.'' @ nat_str b @ ''.'' @ nat_str c @ ''.'' @ nat_str d"
proof -
  define x2 where "x2 = a * 256 + b"
  define x1 where "x1 = x2 * 256 + c"
  define x where "x = x1 * 256 + d"
  have "x mod 256 = d" "x div 256 = x1" "x1 mod 256 = c" "x1 div 256 = x2" "x2 mod 256 = b" "x2 div 256 = a"
    unfolding x_def x1_def x2_def using assms by (simp_all only: low_byte)
  moreover have "x div 65536 = x div 256 div 256" "x div 16777216 = x div 256 div 256 div 256" by (simp_all flip: div_mult2_eq)
  ultimately have "ipv4_str x = nat_str a @ ''.'' @ nat_str b @ ''.'' @ nat_str c @ ''.'' @ nat_str d" by (simp only: ipv4_str_def)
  then show ?thesis by (simp only: x_def x1_def x2_def)
qed

text \<open>
  A connection over IPv4 is reported with the process and with the address and port its socket
  address holds in network order, unless its port is 0, or it is on the loopback network at a port
  other than 11434 and 8000, or the radar makes it.
\<close>
theorem connection_reported:
  assumes "length mem = 8" and "byte_list mem" and "mem ! 0 = 2" and "mem ! 1 = 0" and "read_user p = Some mem" and "0 < p"
    and "port = mem ! 2 * 256 + mem ! 3" and "0 < port" and "mem ! 4 = 127 \<longrightarrow> port = 11434 \<or> port = 8000"
    and "comm_str c \<noteq> ''tokenfuse-radar''"
  shows "\<exists>ev line tail. try_radar (Some p) read_user pt (Some c) True = Some ev \<and> event_line llm ev = Some line \<and>
     line = pad_end 8 (nat_str (pt div 2 ^ 32)) @ '' '' @ pad_end 16 (comm_str c) @ '' '' @ pad_end 21 (dotted mem @ '':'' @ nat_str port) @ tail"
proof -
  have b: "mem ! i < 256" if "i < 8" for i using assms(1,2) that by (simp add: byte_list_def)
  define ip where "ip = ((mem ! 4 * 256 + mem ! 5) * 256 + mem ! 6) * 256 + mem ! 7"
  define ev where "ev = \<lparr> ev_pid = pt div 2 ^ 32, ev_dport = port, ev_daddr = ip, ev_comm = c \<rparr>"
  have "u16_from_be (sin_port (sockaddr_of mem)) = port"
    using b [of 2] b [of 3] assms(7) by (simp add: sockaddr_of_def u16_from_be_bytes)
  moreover have "u32_from_be (sin_addr (sockaddr_of mem)) = ip"
    using u32_from_be_bytes [OF b [of 4] b [of 5] b [of 6] b [of 7]] by (simp add: sockaddr_of_def ip_def)
  moreover have "sin_family (sockaddr_of mem) = AF_INET" using assms(3,4) by (simp add: sockaddr_of_def AF_INET_def)
  ultimately have ev: "try_radar (Some p) read_user pt (Some c) True = Some ev"
    using assms(5,6) by (simp add: try_radar_def Let_def ev_def)
  have str: "ipv4_str ip = dotted mem"
    using ipv4_str_bytes [OF b [of 4] b [of 5] b [of 6] b [of 7]] by (simp add: ip_def dotted_def)
  have "ip div 16777216 = ip div 256 div 256 div 256" by (simp flip: div_mult2_eq)
  also have "\<dots> = mem ! 4" unfolding ip_def using b [of 5] b [of 6] b [of 7] by (simp only: low_byte)
  finally have "is_loopback ip \<longleftrightarrow> mem ! 4 = 127" by (simp add: is_loopback_def)
  then have "event_line llm ev = Some (pad_end 8 (nat_str (pt div 2 ^ 32)) @ '' '' @ pad_end 16 (comm_str c) @ '' ''
      @ pad_end 21 (dotted mem @ '':'' @ nat_str port)
      @ '' '' @ (if (case is_llm ip port llm of Some f \<Rightarrow> f | None \<Rightarrow> []) = [] then [] else ''  <== '') @ (case is_llm ip port llm of Some f \<Rightarrow> f | None \<Rightarrow> []))"
    using assms(8,9,10) by (auto simp: event_line_def Let_def ev_def str)
  then show ?thesis using ev by blast
qed

theorem connection_reported_witness:
  "\<exists>ev line tail. try_radar (Some 9) (\<lambda>_. Some [2, 0, 1, 187, 10, 0, 0, 1]) (7 * 2 ^ 32 + 7) (Some ''curl'') True = Some ev \<and> event_line {} ev = Some line
     \<and> line = pad_end 8 (nat_str ((7 * 2 ^ 32 + 7) div 2 ^ 32)) @ '' '' @ pad_end 16 (comm_str ''curl'') @ '' ''
          @ pad_end 21 (dotted [2, 0, 1, 187, 10, 0, 0, 1] @ '':'' @ nat_str 443) @ tail"
proof (rule connection_reported)
  have "comm_str ''curl'' = ''curl''" by (simp add: comm_str_def from_utf8_lossy_ascii byte_def)
  then show "comm_str ''curl'' \<noteq> ''tokenfuse-radar''" by simp
qed (simp_all add: byte_list_def)

text \<open>A local model server on port 8001 would be flagged, but its connections are dropped as loopback chatter.\<close>
lemma port_8001_unreported: "is_loopback ip \<Longrightarrow> is_llm ip 8001 llm \<noteq> None \<and> event_line llm \<lparr> ev_pid = pid, ev_dport = 8001, ev_daddr = ip, ev_comm = c \<rparr> = None"
  by (simp add: is_llm_def event_line_def Let_def)

end
