(* ===== verification/Spec2Isabelle.thy ===== *)
theory Spec2Isabelle
  imports Policy Breaker Timefmt Pricing LedgerSafety Cluster Backend UnitLedger Provider SettleGuard ClientKeys Router AuditLog Jcs Loops
    Dlp Taint Cache IdentityMap Wardryx AgentEvent Request Responses AppState Proxy ProxyGates ProxySafety
    CloudSafety CloudTotals CloudAudit CloudGuards CloudSavings Outcomes Backtest SecretBroker Compliance
    CloudHttpSafety CloudRestart CloudPush CloudMain RaftRestart McpBrokerSafety FocusExport
    GatewayMain HttpProvider ClusterServer TopScreen Radar
begin

text \<open>
  TokenFuse: a budget and policy gateway for LLM agents, and its control plane.

  The program.  An agent's requests go through the gateway (\<open>crates/gateway\<close>), which
  estimates their price, reserves it in a ledger, applies policy, firewall, DLP, cache
  and routing, calls the provider, reads the usage off the answer and settles the
  reservation.  The pure logic lives in \<open>crates/core\<close>; the ledger may be replicated
  through Raft (\<open>crates/cluster\<close>).  Gateways push one record per call to the control
  plane (\<open>crates/cloud\<close>), which aggregates them per organization, detects incidents,
  lets operators kill runs and set budgets the gateways poll, and keeps a hash-chained
  audit trail.

  Theories and sources, bottom up.
  \<^item> Vocabulary: \<open>Prelude\<close> (machine integers, results, maps, strings as UTF-8 bytes),
    \<open>F64\<close> (binary64 as exact rationals with rounding), \<open>Json\<close>, \<open>Utf8\<close>, \<open>StrScan\<close>,
    \<open>OrdMap\<close> (maps walked in key order).
  \<^item> Interfaces as locales: \<open>ParentWalk\<close> (the ancestor walk both ledgers share, interpreted
    in \<open>Ledger\<close> and \<open>Cluster\<close>), \<open>Backend\<close> (the ledger the gateway calls, interpreted on the
    in-process ledger; \<open>raft_reserve_agrees\<close> compares the replicated one with it), \<open>HashChain\<close> (what a chained log promises,
    interpreted in \<open>AuditLog\<close>), \<open>Recency\<close> (an index in lock-step with a bounded map,
    interpreted on the control plane's \<open>RecencyIndex\<close>), \<open>event_sink\<close> in \<open>Sinks\<close> (what a sink keeps over
    every history, interpreted on the Parquet sink, the cloud sink and the fan-out), \<open>refinement\<close> in
    \<open>RaftRefine\<close> (one store implements another over every history, interpreted on the raft log and
    on the state machine).
  \<^item> \<open>crates/core\<close>: \<open>Money\<close>, \<open>Pricing\<close> (with the gateway's price book and estimate), \<open>Ledger\<close>
    with \<open>LedgerSafety\<close>, \<open>Policy\<close>, \<open>Loops\<close>, \<open>Breaker\<close>, \<open>Timefmt\<close>,
    \<open>AuditLog\<close> (\<open>audit.rs\<close>), \<open>Jcs\<close>, \<open>Dlp\<close>, \<open>Taint\<close> (with the gateway's \<open>firewall.rs\<close>), \<open>Cache\<close>,
    \<open>AgentEvent\<close>, \<open>Savings\<close>, \<open>Outcomes\<close>, \<open>Backtest\<close>, \<open>SecretBroker\<close>, \<open>Mcp\<close> (\<open>mcp.rs\<close> and
    \<open>mcpreport.rs\<close>), \<open>McpExposure\<close>, \<open>Compliance\<close>.
  \<^item> \<open>crates/cluster\<close>: \<open>Cluster\<close> (\<open>LedgerState::apply\<close> in \<open>types.rs\<close>), \<open>RaftStore\<close> (the in-memory log and state
    machine of \<open>store.rs\<close>), \<open>RedbStore\<close> (the durable ones of \<open>redbstore.rs\<close>, one transaction at a
    time), \<open>RaftRefine\<close> and \<open>RaftRestart\<close> (the durable storage implements the in-memory one),
    \<open>ClusterServer\<close> (\<open>server.rs\<close>, \<open>net_http.rs\<close>, \<open>network.rs\<close>, the \<open>serve\<close> command of \<open>main.rs\<close>, and the transport
    of the gateway's \<open>raft_ledger.rs\<close>).
  \<^item> \<open>crates/gateway\<close>, requests: \<open>Backend\<close>, \<open>UnitLedger\<close>, \<open>Provider\<close> (usage) and \<open>HttpProvider\<close> (\<open>provider.rs\<close>),
    \<open>SettleGuard\<close> (\<open>settle.rs\<close>, \<open>sink.rs\<close>), \<open>ClientKeys\<close>, \<open>Router\<close>, \<open>IdentityMap\<close>, \<open>Wardryx\<close>,
    \<open>AppState\<close> (\<open>state.rs\<close>), and the request path of \<open>proxy.rs\<close> in \<open>Request\<close>, \<open>Responses\<close>, \<open>Proxy\<close>
    (one stage per block of the handler, composed as the handler composes them), \<open>ProxyGates\<close> and
    \<open>ProxySafety\<close>.
  \<^item> \<open>crates/gateway\<close>, the MCP side: \<open>McpBroker\<close> and \<open>McpBrokerSafety\<close> (\<open>mcpbroker.rs\<close>), \<open>McpClient\<close>
    (\<open>mcpclient.rs\<close>, \<open>mcpexposure_probe.rs\<close>), \<open>McpScan\<close> (\<open>mcpcli.rs\<close> and the command in \<open>main.rs\<close>).
  \<^item> \<open>crates/gateway\<close>, the trace: \<open>Sinks\<close> (\<open>sink.rs\<close>, \<open>cloudsink.rs\<close>, \<open>otel.rs\<close>), \<open>FocusExport\<close>, \<open>TraceCli\<close> (\<open>sqlq.rs\<close>
    and the savings, compliance, outcomes and backtest commands), \<open>KeysReport\<close>, with \<open>NumParse\<close> for
    Rust's number parsers.
  \<^item> \<open>crates/gateway\<close>, the binary: \<open>GatewayMain\<close> (\<open>main.rs\<close>, \<open>embedder.rs\<close>, \<open>obs.rs\<close>,
    \<open>wasmpolicy.rs\<close>) and \<open>TopScreen\<close> (\<open>tui.rs\<close>).
  \<^item> \<open>crates/radar\<close>: \<open>Radar\<close> (the probe and the program that prints its events).
  \<^item> \<open>crates/cloud\<close>: \<open>CloudTypes\<close> (the state behind the store's lock), \<open>CloudIngest\<close>
    (\<open>Store::ingest_at\<close> with its evictions and detectors), \<open>CloudStore\<close> (every other method
    that changes state, snapshots), \<open>CloudViews\<close> (the read methods), \<open>CloudAuth\<close> (\<open>keys.rs\<close>,
    \<open>oidc.rs\<close>, \<open>devices.rs\<close> and the checks of \<open>AppState\<close>), \<open>CloudReports\<close> (evidence pack,
    \<open>audit_sign.rs\<close>, \<open>replay.rs\<close>), \<open>CloudHttp\<close> (\<open>http.rs\<close>: every handler, the routes, CORS),
    \<open>CloudPush\<close> (\<open>push.rs\<close>, \<open>apns.rs\<close>), \<open>CloudMain\<close> (\<open>main.rs\<close>: configuration and autosave).

  What is shown.
  \<^item> Money: under the discipline that a run is created before its children and closed after them and
    after its calls, the reserved amount of a run is what is outstanding below it and the budget is
    never exceeded at a grant (\<open>no_oversubscription\<close>; \<open>late_parent_oversubscribes\<close> and
    \<open>early_close_leaks\<close> show that the code needs it); a unit's month is accounted exactly over
    checked and unchecked reservations and changes of the overrides; reserve and settle have their
    exact contracts; the replicated state machine implements the in-process ledger; the ancestor walk
    ends; the estimate bounds the price of what it estimates.
  \<^item> Raft storage: over every history of operations, transactions that fail or are cut off,
    and restarts, the durable log and state machine answer as the in-memory ones; a snapshot and
    the rest of the log give what the whole log gives; a write submitted at any node is one of the
    outcomes the replicated ledger is proved for (\<open>submit_is_one_outcome\<close>).
  \<^item> Request path: \<open>ProxyGates\<close> states, per gate, the refusals it gives (\<open>refusal\<close>: condition, response
    and rows) and what holds when it lets a call pass.  From these: the provider sees a request only
    after every gate; an answered request balances the ledger; its rows are those of the condition
    that refused it or of what the provider did; and every request is answered.  Building a
    response can fail: \<open>Responses.built\<close> is \<open>None\<close>, the panic of \<open>.expect("valid response")\<close>, on an
    illegal header value, and \<open>every_request_answered\<close> shows that no text the path writes is one, from
    every state a gateway can reach (\<open>started_presentable\<close>).  A stream's guard settles once however
    the stream ends; a buffered call that is dropped settles nothing (\<open>dropped_call_keeps_reservation\<close>).
  \<^item> Policies and scanners: exact evaluation, loop detection, taint, redaction (the leftmost, longest
    matches are masked; \<open>overlapped_tail_is_forwarded\<close> shows what that leaves), cache hits,
    routing, identity map, client keys, credential injection, backtest, outcome and compliance
    reports.  A gateway that starts has what was configured in force; only the listed headers
    leave for a provider (\<open>only_listed_headers_leave\<close>).
  \<^item> Nodes: the HTTP transport of the raft RPCs is the in-process one over a mesh of nodes with one
    token (\<open>http_is_the_router\<close>).
  \<^item> MCP: what the broker forwards and what it answers, exactly, on every branch (\<open>broker_refusal\<close>,
    \<open>broker_reply\<close>); a scan of a saved list that exits 0 is a clean one (of a live server it need not be,
    \<open>refused_listing_is_green\<close>);
    event-stream framing and the order of the handshake (\<open>sse_frames_exact\<close>, \<open>handshake_order\<close>).
  \<^item> Trace: the sinks keep every call; the FOCUS export reads back; the savings, compliance,
    outcome and key reports are those of the calls recorded in the window; the spans posted are
    those of the calls, with valid ids (\<open>spans_of_the_calls\<close>); the dashboard kills the run it
    highlights (\<open>kills_what_is_highlighted\<close>); the radar reports the connections it should
    (\<open>connection_reported\<close>).
  \<^item> Control plane: \<open>CloudSafety\<close> (memory bounds over every history \<open>cop list\<close> of
    store operations), \<open>CloudTotals\<close> and \<open>CloudSavings\<close> (totals are those of the records pushed,
    live savings are the offline report), \<open>CloudAudit\<close> (the trail is the log of the audited
    operations), \<open>CloudGuards\<close> (isolation, nonces, pairing, eviction),
    \<open>CloudHttpSafety\<close> (every HTTP request is a history of operations its credential allows:
    tenant isolation, controls under an administrator and on record, signed requests once),
    \<open>CloudReports\<close> (the evidence pack is backed), \<open>CloudRestart\<close> (field for field what a restart
    restores and what it forgets),
    \<open>CloudPush\<close> (pushes stay in the organization and are rate-limited).

  Conventions and bounds.  \<open>i64\<close> is \<open>int\<close> and the unsigned types are \<open>nat\<close>, with the wrap-around
  of a release build (\<open>wrap_i64\<close>, \<open>wrap_u64\<close>) or the saturation of the operation (\<open>sat_i64\<close>,
  \<open>sat_u64\<close>) written out.  Statements that need sums to stay exact ask for the headroom they
  use (amounts below 2^61 for the ledgers).  The ancestor walk is bounded by 64 levels, the
  bound of the code.  Strings are lists of UTF-8 bytes.  Errors are \<open>Inl\<close> values.  A method
  that holds a lock for its whole body is one transition; a handler is the sequence of its
  calls.  The clock is an argument, read once per request.  A \<open>HashMap\<close> that is iterated is
  walked in key order where the code's order is unspecified; a map that is only looked up is
  a partial function.  Every loop is structural recursion, a fold or a \<open>function\<close> with its
  measure.  Fuel is used once: \<open>ClusterServer.read_linear\<close> counts the requests a read may be forwarded
  through, and two are enough when the nodes agree on a leader (\<open>linear_read_returns\<close>).

  Parameters.  Code outside the repository is an argument of the definitions that use it:
  SHA-256, Rust's 64-bit hasher, the regular-expression engine, Unicode case mapping, the
  printers and parsers serde derives, the JWT library, base64 and P-256, the axum router and
  its extractors, the HTTP client's answers, files and environment variables.

  Not modelled.  Listeners, threads, signals, the rustls configuration and logging; openraft,
  redb and reqwest themselves; the demos of the cluster and its in-process helper \<open>lib.rs\<close>; the
  Parquet encoder and the SQL engine; the terminal's layout; the OpenAPI document and the
  dashboard page, which are constants; the WebAssembly engine behind its calls; the ring buffer
  and the loader of the radar; the examples.
\<close>

end
